(* ===== verification/Prelude.thy ===== *)
theory Prelude
  imports
    Complex_Main
    "HOL-Library.Multiset"
    "HOL-Library.Signed_Division"
    "HOL-Library.Product_Lexorder"
    "HOL-Library.List_Lexorder"
    "HOL-Library.Char_ord"
begin

text \<open>
  Shared material: the outcome of a Go call, signed 64-bit integers, the standard
  library's sorting functions, decimal formatting, and generic lemmas on lists.

  A Go function that returns \<open>(value, error)\<close> and may panic is modelled by a value of
  \<open>('e, 'a) result\<close>: \<open>Ok v\<close> for a nil error, \<open>Fail e\<close> for a non-nil one, and
  \<open>Panic\<close> for a run-time panic (integer division by zero, an index out of range, an
  empty random range).  Pointers that only serve as in/out parameters are modelled by
  values passed in and returned; a pointer that may be nil is an \<open>option\<close>.
\<close>

named_theorems result_elims

section \<open>Outcomes of calls\<close>

datatype ('e, 'a) result = Ok 'a | Fail 'e | Panic

fun rbind :: "('e, 'a) result \<Rightarrow> ('a \<Rightarrow> ('e, 'b) result) \<Rightarrow> ('e, 'b) result" where
  "rbind (Ok x) f = f x"
| "rbind (Fail e) f = Fail e"
| "rbind Panic f = Panic"

lemma rbind_eq_Ok [simp]: "rbind m f = Ok y \<longleftrightarrow> (\<exists>x. m = Ok x \<and> f x = Ok y)"
  by (cases m) auto

lemma rbind_eq_Fail: "rbind m f = Fail e \<longleftrightarrow> m = Fail e \<or> (\<exists>x. m = Ok x \<and> f x = Fail e)"
  by (cases m) auto

lemma rbind_eq_Panic: "rbind m f = Panic \<longleftrightarrow> m = Panic \<or> (\<exists>x. m = Ok x \<and> f x = Panic)"
  by (cases m) auto

lemma rbind_OkE [result_elims, elim]:
  assumes "rbind m f = Ok y"
  obtains x where "m = Ok x" and "f x = Ok y"
  using assms by (cases m) auto

lemma rbind_assoc: "rbind (rbind m f) g = rbind m (\<lambda>x. rbind (f x) g)"
  by (cases m) auto

fun map_result :: "('a \<Rightarrow> 'b) \<Rightarrow> ('e, 'a) result \<Rightarrow> ('e, 'b) result" where
  "map_result f (Ok x) = Ok (f x)"
| "map_result f (Fail e) = Fail e"
| "map_result f Panic = Panic"

text \<open>A loop over a slice that may return early with an error.\<close>

fun foldM :: "('s \<Rightarrow> 'i \<Rightarrow> ('e, 's) result) \<Rightarrow> 's \<Rightarrow> 'i list \<Rightarrow> ('e, 's) result" where
  "foldM f s [] = Ok s"
| "foldM f s (x # xs) = rbind (f s x) (\<lambda>s'. foldM f s' xs)"

lemma foldM_append: "foldM f s (xs @ ys) = rbind (foldM f s xs) (\<lambda>s'. foldM f s' ys)"
  by (induction xs arbitrary: s) (simp_all add: rbind_assoc)

lemma foldM_not_Panic:
  "(\<And>s x. x \<in> set xs \<Longrightarrow> f s x \<noteq> Panic) \<Longrightarrow> foldM f s xs \<noteq> Panic"
  by (induction xs arbitrary: s) (auto simp: rbind_eq_Panic)

text \<open>Rule for an invariant that every successful step keeps.\<close>

lemma foldM_invariant:
  assumes "foldM f s xs = Ok s'" and "I s"
    and "\<And>s x t. x \<in> set xs \<Longrightarrow> I s \<Longrightarrow> f s x = Ok t \<Longrightarrow> I t"
  shows "I s'"
  using assms
proof (induction xs arbitrary: s)
  case (Cons x xs)
  then obtain t where t: "f s x = Ok t" "foldM f t xs = Ok s'" by auto
  have "I t" using Cons.prems(2,3) t(1) by auto
  with Cons.IH [OF t(2)] Cons.prems(3) show ?case by auto
qed simp

text \<open>The invariant may speak of the elements the loop has already passed.\<close>

lemma foldM_prefix_invariant [consumes 1, case_names init step]:
  assumes "foldM f s xs = Ok s'" and "I [] s"
    and "\<And>ys x zs t t'. xs = ys @ x # zs \<Longrightarrow> I ys t \<Longrightarrow> f t x = Ok t' \<Longrightarrow> I (ys @ [x]) t'"
  shows "I xs s'"
proof -
  have "I (ys @ zs) s'" if "xs = ys @ zs" "foldM f t zs = Ok s'" "I ys t" for ys zs t
    using that
  proof (induction zs arbitrary: ys t)
    case (Cons z zs)
    then obtain u where u: "f t z = Ok u" "foldM f u zs = Ok s'" by auto
    have "I (ys @ [z]) u" using assms(3) Cons.prems(1,3) u(1) by blast
    with Cons.IH [of "ys @ [z]" u] Cons.prems(1) u(2) show ?case by simp
  qed simp
  from this [of "[]" xs s] assms(1,2) show ?thesis by simp
qed

text \<open>A loop that never returns early is a fold.\<close>

lemma foldM_eq_fold:
  assumes "I s" and "\<And>s x. x \<in> set xs \<Longrightarrow> I s \<Longrightarrow> f s x = Ok (g x s) \<and> I (g x s)"
  shows "foldM f s xs = Ok (fold g xs s)"
  using assms by (induction xs arbitrary: s) auto

text \<open>A loop that appends the results of independent steps, all failing in the same way.\<close>

fun is_Ok :: "('e, 'a) result \<Rightarrow> bool" where
  "is_Ok (Ok x) = True"
| "is_Ok (Fail e) = False"
| "is_Ok Panic = False"

fun the_Ok :: "('e, 'a) result \<Rightarrow> 'a" where
  "the_Ok (Ok x) = x"

lemma is_Ok_iff: "is_Ok m \<longleftrightarrow> (\<exists>x. m = Ok x)"
  by (cases m) auto

lemma foldM_collect:
  assumes "\<And>i. i \<in> set xs \<Longrightarrow> f i = Fail err \<or> is_Ok (f i)"
  shows "foldM (\<lambda>s i. rbind (f i) (\<lambda>x. Ok (app s x))) s xs =
    (if \<forall>i\<in>set xs. is_Ok (f i) then Ok (foldl app s (map (\<lambda>i. the_Ok (f i)) xs)) else Fail err)"
  using assms
proof (induction xs arbitrary: s)
  case (Cons i xs)
  have "f i = Fail err \<or> is_Ok (f i)" using Cons.prems by simp
  then show ?case using Cons by (cases "f i") auto
qed simp

text \<open>Where only one chunk can contribute, the order of the chunks does not matter.\<close>

lemma filter_concat_perm:
  assumes "mset xs = mset ys" and "distinct xs"
    and "\<And>i. i \<in> set xs \<Longrightarrow> i \<noteq> v \<Longrightarrow> filter P (f i) = []"
  shows "filter P (concat (map f xs)) = filter P (concat (map f ys))"
proof -
  have one: "filter P (concat (map f zs)) = (if v \<in> set zs then filter P (f v) else [])"
    if "distinct zs" "\<And>i. i \<in> set zs \<Longrightarrow> i \<noteq> v \<Longrightarrow> filter P (f i) = []" for zs
    using that by (induction zs) auto
  have ys: "distinct ys" "set ys = set xs"
    using assms(1,2) by (metis mset_eq_imp_distinct_iff, metis set_mset_mset)
  show ?thesis
    using one [of xs] one [of ys] assms(2,3) ys by simp
qed

lemma mset_concat_map_perm: "mset xs = mset ys \<Longrightarrow> mset (concat (map f xs)) = mset (concat (map f ys))"
proof (induction xs arbitrary: ys)
  case (Cons x xs)
  then obtain as bs where ys: "ys = as @ x # bs"
    by (metis list.set_intros(1) set_mset_mset split_list)
  then have "mset xs = mset (as @ bs)" using Cons.prems by simp
  then show ?case using Cons.IH [of "as @ bs"] by (simp add: ys)
qed simp

section \<open>Signed 64-bit integers\<close>

text \<open>
  Go's \<open>int\<close>, \<open>int64\<close> and \<open>time.Duration\<close> are 64-bit two's complement.  They are
  modelled by \<open>int\<close>, with \<open>wrap64\<close> written at every operation that can leave the range.
\<close>

definition wrap64 :: "int \<Rightarrow> int" where
  "wrap64 x = (x + 9223372036854775808) mod 18446744073709551616 - 9223372036854775808"

definition int64_range :: "int \<Rightarrow> bool" where
  "int64_range x \<longleftrightarrow> - 9223372036854775808 \<le> x \<and> x \<le> 9223372036854775807"

definition clamp64 :: "int \<Rightarrow> int" where
  "clamp64 x = max (- 9223372036854775808) (min 9223372036854775807 x)"

lemma wrap64_id: "int64_range x \<Longrightarrow> wrap64 x = x"
  by (simp add: wrap64_def int64_range_def)

lemma wrap64_idI [simp]: "- 9223372036854775808 \<le> x \<Longrightarrow> x \<le> 9223372036854775807 \<Longrightarrow> wrap64 x = x"
  by (simp add: wrap64_id int64_range_def)

lemma wrap64_range: "int64_range (wrap64 x)"
proof -
  have "0 \<le> (x + 9223372036854775808) mod 18446744073709551616"
    and "(x + 9223372036854775808) mod 18446744073709551616 < 18446744073709551616"
    by (rule pos_mod_sign, simp, rule pos_mod_bound, simp)
  then show ?thesis
    by (simp add: wrap64_def int64_range_def)
qed

lemma clamp64_id: "int64_range x \<Longrightarrow> clamp64 x = x"
  by (simp add: clamp64_def int64_range_def)

lemma clamp64_range: "int64_range (clamp64 x)"
  by (simp add: clamp64_def int64_range_def)

lemma clamp64_mono: "x \<le> y \<Longrightarrow> clamp64 x \<le> clamp64 y"
  by (auto simp: clamp64_def)

lemma clamp64_nonneg_iff [simp]: "0 \<le> clamp64 x \<longleftrightarrow> 0 \<le> x"
  by (auto simp: clamp64_def)

lemma clamp64_neg_iff [simp]: "clamp64 x < 0 \<longleftrightarrow> x < 0"
  by (auto simp: clamp64_def)

lemma clamp64_le: "0 \<le> x \<Longrightarrow> clamp64 x \<le> x"
  by (auto simp: clamp64_def)

text \<open>Go's integer division truncates towards zero and panics on a zero divisor.\<close>

definition go_quot :: "int \<Rightarrow> int \<Rightarrow> ('e, int) result" where
  "go_quot a b = (if b = 0 then Panic else Ok (wrap64 (a sdiv b)))"

lemma sdiv_nonneg: "0 \<le> a \<Longrightarrow> 0 < b \<Longrightarrow> (a::int) sdiv b = a div b"
  by (simp add: signed_divide_int_def sgn_if)

lemma smod_nonneg: "0 \<le> a \<Longrightarrow> 0 < b \<Longrightarrow> (a::int) smod b = a mod b"
  using sdiv_nonneg [of a b] by (simp add: smod_int_alt_def sgn_if)

lemma smod_eq_0_iff: "(a::int) smod b = 0 \<longleftrightarrow> b dvd a"
  by (cases "a = 0") (simp_all add: smod_int_alt_def sgn_0_0 flip: dvd_eq_mod_eq_0)

lemma go_quot_nonneg:
  assumes "int64_range a" and "0 \<le> a" and "0 < b"
  shows "go_quot a b = Ok (a div b)"
proof -
  have "a div b \<le> a"
    using zdiv_mono2 [of a 1 b] assms by simp
  moreover have "0 \<le> a div b"
    using assms by (simp add: pos_imp_zdiv_nonneg_iff)
  ultimately show ?thesis
    using assms by (simp add: go_quot_def sdiv_nonneg int64_range_def)
qed

section \<open>Sorting\<close>

text \<open>
  \<open>sort.SliceStable\<close> with a comparison function.  \<open>sort.Slice\<close> is modelled by the same
  function: it promises an ordered permutation only, and the code uses it where no two
  elements compare equal, so there is one such permutation.
\<close>

fun insert_by :: "('a \<Rightarrow> 'a \<Rightarrow> bool) \<Rightarrow> 'a \<Rightarrow> 'a list \<Rightarrow> 'a list" where
  "insert_by lt x [] = [x]"
| "insert_by lt x (y # ys) = (if lt y x then y # insert_by lt x ys else x # y # ys)"

fun SliceStable :: "('a \<Rightarrow> 'a \<Rightarrow> bool) \<Rightarrow> 'a list \<Rightarrow> 'a list" where
  "SliceStable lt [] = []"
| "SliceStable lt (x # xs) = insert_by lt x (SliceStable lt xs)"

lemma insert_by_key: "insert_by (\<lambda>a b. k a < (k b :: 'k :: linorder)) x ys = insort_key k x ys"
  by (induction ys) (auto simp: not_less)

lemma SliceStable_key:
  assumes "\<And>a b. lt a b \<longleftrightarrow> k a < (k b :: 'k :: linorder)"
  shows "SliceStable lt xs = sort_key k xs"
proof -
  have "lt = (\<lambda>a b. k a < k b)"
    using assms by (intro ext) simp
  then show ?thesis
    by (induction xs) (auto simp: insert_by_key)
qed

lemma mset_insert_by [simp]: "mset (insert_by lt x ys) = add_mset x (mset ys)"
  by (induction ys) auto

lemma mset_SliceStable [simp]: "mset (SliceStable lt xs) = mset xs"
  by (induction xs) auto

lemma set_SliceStable [simp]: "set (SliceStable lt xs) = set xs"
  by (metis mset_SliceStable set_mset_mset)

lemma length_SliceStable [simp]: "length (SliceStable lt xs) = length xs"
  by (metis mset_SliceStable size_mset)

text \<open>
  Two lists whose elements of equal key stand in the same order sort to the same list.
\<close>

lemma sort_key_eqI:
  assumes "mset xs = mset ys"
    and "\<And>a. a \<in> set xs \<Longrightarrow> filter (\<lambda>x. k x = k a) xs = filter (\<lambda>x. k x = k a) ys"
  shows "sort_key (k :: 'a \<Rightarrow> 'k :: linorder) xs = sort_key k ys"
proof (rule properties_for_sort_key)
  show "mset (sort_key k ys) = mset xs"
    using assms(1) by simp
  fix a assume "a \<in> set (sort_key k ys)"
  then have "a \<in> set xs"
    using assms(1) by (metis set_mset_mset set_sort)
  then show "filter (\<lambda>x. k a = k x) (sort_key k ys) = filter (\<lambda>x. k a = k x) xs"
    using assms(2) [of a] sort_key_stable [of k "k a" ys] by (simp add: eq_commute)
qed simp

lemma filter_eq_single: "distinct zs \<Longrightarrow> a \<in> set zs \<Longrightarrow> filter (\<lambda>x. x = a) zs = [a]"
  by (induction zs) (auto simp: filter_empty_conv)

lemma sort_key_inj_perm:
  assumes "mset xs = mset ys" and "inj_on k (set xs)" and "distinct xs"
  shows "sort_key (k :: 'a \<Rightarrow> 'k :: linorder) xs = sort_key k ys"
proof (rule sort_key_eqI)
  fix a assume "a \<in> set xs"
  have eq: "set ys = set xs" and d: "distinct ys"
    using assms by (metis set_mset_mset, metis mset_eq_imp_distinct_iff)
  have one: "filter (\<lambda>x. k x = k a) zs = [a]" if "set zs = set xs" "distinct zs" for zs
  proof -
    have "filter (\<lambda>x. k x = k a) zs = filter (\<lambda>x. x = a) zs"
      using that assms(2) \<open>a \<in> set xs\<close> by (intro filter_cong) (auto dest: inj_onD)
    also have "\<dots> = [a]"
      using that \<open>a \<in> set xs\<close> by (intro filter_eq_single) auto
    finally show ?thesis .
  qed
  show "filter (\<lambda>x. k x = k a) xs = filter (\<lambda>x. k x = k a) ys"
    using one [of xs] one [of ys] eq d assms(3) by simp
qed (rule assms(1))

section \<open>Decimal formatting\<close>

fun digits_of :: "nat \<Rightarrow> string" where
  "digits_of n = (if n < 10 then [char_of (48 + n)] else digits_of (n div 10) @ [char_of (48 + n mod 10)])"

declare digits_of.simps [simp del]

text \<open>\<open>%04d\<close>: at least four characters, the sign counted, padded with zeros after the sign.\<close>

definition format_04d :: "int \<Rightarrow> string" where
  "format_04d i =
     (let ds = digits_of (nat \<bar>i\<bar>); w = (if i < 0 then 3 else 4)
      in (if i < 0 then ''-'' else []) @ replicate (w - length ds) (CHR ''0'') @ ds)"

section \<open>Lists\<close>

text \<open>The index of the first element that satisfies a predicate, as a search loop with \<open>break\<close> finds it.\<close>

fun find_index :: "('a \<Rightarrow> bool) \<Rightarrow> 'a list \<Rightarrow> nat option" where
  "find_index P [] = None"
| "find_index P (x # xs) = (if P x then Some 0 else map_option Suc (find_index P xs))"

lemma find_index_SomeD: "find_index P xs = Some i \<Longrightarrow> i < length xs \<and> P (xs ! i) \<and> (\<forall>j<i. \<not> P (xs ! j))"
proof (induction xs arbitrary: i)
  case (Cons x xs)
  then show ?case
    by (auto split: if_splits simp: nth_Cons split: nat.splits)
qed simp

lemma find_index_None_iff: "find_index P xs = None \<longleftrightarrow> (\<forall>x\<in>set xs. \<not> P x)"
  by (induction xs) auto

lemma find_index_Some_ex: "x \<in> set xs \<Longrightarrow> P x \<Longrightarrow> \<exists>i. find_index P xs = Some i"
  using find_index_None_iff [of P xs] by (cases "find_index P xs") auto

lemma distinct_map_nth_eq:
  "distinct (map f xs) \<Longrightarrow> i < length xs \<Longrightarrow> j < length xs \<Longrightarrow> f (xs ! i) = f (xs ! j) \<Longrightarrow> i = j"
  by (metis distinct_conv_nth length_map nth_map)

lemma map_list_update_same:
  "i < length xs \<Longrightarrow> f x = f (xs ! i) \<Longrightarrow> map f (xs[i := x]) = map f xs"
  by (metis list_update_id map_update nth_map list_update_same_conv length_map)

end
