(* ===== verification/GoFloat.thy ===== *)
theory GoFloat
  imports Prelude "HOL-Library.Log_Nat"
begin

text \<open>
  Go's \<open>float64\<close>: IEEE 754 binary64 with rounding to nearest, ties to even.  A finite
  value is the rational number it denotes; every operation computes the exact result and
  rounds it.  The two zeros are one value: the code never divides by a zero that could be
  negative and never inspects a sign bit, so they cannot be told apart.
\<close>

named_theorems f64_simps

section \<open>Rounding\<close>

definition pow2 :: "int \<Rightarrow> rat" where
  "pow2 k = (if 0 \<le> k then 2 ^ nat k else 1 / 2 ^ nat (- k))"

text \<open>The binary exponent of a positive number: \<open>pow2 (ilog2 x) \<le> x < pow2 (ilog2 x + 1)\<close>.\<close>

definition ilog2 :: "rat \<Rightarrow> int" where
  "ilog2 x = (if 1 \<le> x then bitlen \<lfloor>x\<rfloor> - 1 else - int (ceillog2 (nat \<lceil>1 / x\<rceil>)))"

definition round_even :: "rat \<Rightarrow> int" where
  "round_even x =
     (let f = \<lfloor>x\<rfloor>; d = x - of_int f
      in if d < 1 / 2 then f else if 1 / 2 < d then f + 1 else if even f then f else f + 1)"

text \<open>The distance of neighbouring floats around \<open>x\<close>; subnormals share the least one.\<close>

definition ulp :: "rat \<Rightarrow> rat" where
  "ulp x = pow2 (max (ilog2 x - 52) (- 1074))"

definition round_pos :: "rat \<Rightarrow> rat" where
  "round_pos x = of_int (round_even (x / ulp x)) * ulp x"

definition round64 :: "rat \<Rightarrow> rat" where
  "round64 x = (if x = 0 then 0 else if 0 < x then round_pos x else - round_pos (- x))"

lemma pow2_pos [simp]: "0 < pow2 k"
  by (simp add: pow2_def)

lemma pow2_nonzero [simp]: "pow2 k \<noteq> 0"
  by (metis less_irrefl pow2_pos)

lemma pow2_not_neg [simp]: "\<not> pow2 k < 0"
  by (metis less_asym pow2_pos)

lemma pow2_powi: "pow2 k = 2 powi k"
  by (simp add: pow2_def power_int_def inverse_eq_divide power_one_over)

lemma pow2_add: "pow2 (a + b) = pow2 a * pow2 b"
  by (simp add: pow2_powi power_int_add)

lemma pow2_mono: "a \<le> b \<Longrightarrow> pow2 a \<le> pow2 b"
  by (simp add: pow2_powi power_int_increasing)

lemma pow2_of_nat: "pow2 (int n) = 2 ^ n"
  by (simp add: pow2_def)

lemma pow2_0 [simp]: "pow2 0 = 1"
  by (simp add: pow2_def)

lemma ilog2_bounds:
  assumes "0 < x"
  shows "pow2 (ilog2 x) \<le> x" and "x < pow2 (ilog2 x + 1)"
proof -
  have "pow2 (ilog2 x) \<le> x \<and> x < pow2 (ilog2 x + 1)"
  proof (cases "1 \<le> x")
    case True
    then have f: "1 \<le> \<lfloor>x\<rfloor>" by simp
    define b where "b = bitlen \<lfloor>x\<rfloor>"
    have b: "2 ^ nat (b - 1) \<le> \<lfloor>x\<rfloor>" "\<lfloor>x\<rfloor> < 2 ^ nat b"
      using bitlen_bounds [of "\<lfloor>x\<rfloor>"] f by (auto simp: b_def)
    have b1: "1 \<le> b"
    proof (rule ccontr)
      assume "\<not> 1 \<le> b"
      then have "nat b = 0" by simp
      with b(2) f show False by simp
    qed
    have "(2::rat) ^ nat (b - 1) \<le> of_int \<lfloor>x\<rfloor>"
      using b(1) by (metis of_int_le_iff of_int_numeral of_int_power)
    then have "(2::rat) ^ nat (b - 1) \<le> x"
      using of_int_floor_le [of x] by linarith
    moreover have "x < 2 ^ nat b"
    proof -
      have "\<lfloor>x\<rfloor> + 1 \<le> 2 ^ nat b" using b(2) by simp
      then have "of_int (\<lfloor>x\<rfloor> + 1) \<le> (2::rat) ^ nat b"
        by (metis of_int_le_iff of_int_numeral of_int_power)
      then show ?thesis using floor_correct [of x] by simp
    qed
    ultimately show ?thesis
      using True b1 by (simp add: ilog2_def pow2_def b_def)
  next
    case False
    define n where "n = nat \<lceil>1 / x\<rceil>"
    have x1: "1 < 1 / x" using False assms by (simp add: less_divide_eq)
    have n0: "0 < n" using x1 assms by (simp add: n_def)
    have ni: "int n = \<lceil>1 / x\<rceil>" using x1 by (simp add: n_def)
    define c where "c = ceillog2 n"
    have ub: "n \<le> 2 ^ c" unfolding c_def by (rule le_two_power_ceillog2)
    have lb: "2 ^ c < 2 * n" unfolding c_def by (rule two_power_ceillog2_gt [OF n0])
    have "1 / x \<le> of_int \<lceil>1 / x\<rceil>" by (rule le_of_int_ceiling)
    also have "\<dots> = of_nat n" by (simp add: ni [symmetric])
    also have "\<dots> \<le> 2 ^ c" using ub by (metis of_nat_le_iff of_nat_numeral of_nat_power)
    finally have 1: "1 / 2 ^ c \<le> x" using assms by (simp add: field_simps)
    have c0: "c \<noteq> 0"
    proof
      assume "c = 0"
      then have "n \<le> 1" using ub by simp
      then have "\<lceil>1 / x\<rceil> \<le> 1" using ni by linarith
      then have "1 / x \<le> 1" by (simp only: ceiling_le_one)
      then show False using x1 by simp
    qed
    then obtain d where d: "c = Suc d" by (cases c) auto
    have "2 ^ d < n" using lb by (simp add: d)
    then have "2 ^ d < \<lceil>1 / x\<rceil>" using ni by (metis of_nat_less_iff of_nat_numeral of_nat_power)
    then have "of_int (2 ^ d) < 1 / x" by (simp only: less_ceiling_iff)
    then have "x < 1 / 2 ^ d" using assms by (simp add: field_simps)
    moreover have "pow2 (- int c + 1) = 1 / 2 ^ d"
      by (cases d) (simp_all add: pow2_def d nat_add_distrib)
    ultimately show ?thesis
      using 1 False by (simp add: ilog2_def n_def [symmetric] c_def [symmetric] pow2_def c0)
  qed
  then show "pow2 (ilog2 x) \<le> x" and "x < pow2 (ilog2 x + 1)" by auto
qed

lemma ilog2_mono:
  assumes "0 < x" and "x \<le> y"
  shows "ilog2 x \<le> ilog2 y"
proof (rule ccontr)
  assume "\<not> ?thesis"
  then have "pow2 (ilog2 y + 1) \<le> pow2 (ilog2 x)" by (intro pow2_mono) simp
  then show False using ilog2_bounds [of x] ilog2_bounds [of y] assms by linarith
qed

lemma round_even_mono:
  assumes "x \<le> y"
  shows "round_even x \<le> round_even y"
proof (cases "\<lfloor>x\<rfloor> = \<lfloor>y\<rfloor>")
  case True
  then show ?thesis using assms by (auto simp: round_even_def Let_def)
next
  case False
  have "\<lfloor>x\<rfloor> \<le> \<lfloor>y\<rfloor>" using assms by (rule floor_mono)
  then have "\<lfloor>x\<rfloor> + 1 \<le> \<lfloor>y\<rfloor>" using False by simp
  then show ?thesis by (auto simp: round_even_def Let_def)
qed

lemma round_even_of_int [simp]: "round_even (of_int n) = n"
  by (simp add: round_even_def)

lemma ulp_pos [simp]: "0 < ulp x"
  by (simp add: ulp_def)

lemma ulp_nonzero [simp]: "ulp x \<noteq> 0"
  by (metis less_irrefl ulp_pos)

lemma round_pos_le_pow2:
  assumes "0 < x" and "x \<le> pow2 k" and "- 1074 \<le> k" and "ilog2 x \<le> k"
  shows "round_pos x \<le> pow2 k"
proof -
  define e where "e = max (ilog2 x - 52) (- 1074)"
  have "e \<le> k" using assms by (simp add: e_def)
  then have k: "pow2 k = pow2 (k - e) * pow2 e" by (simp flip: pow2_add)
  have "pow2 (k - e) = of_int (2 ^ nat (k - e))" using \<open>e \<le> k\<close> by (simp add: pow2_def)
  moreover have "x / pow2 e \<le> pow2 (k - e)"
    using assms(2) k by (simp add: divide_le_eq)
  ultimately have "round_even (x / pow2 e) \<le> 2 ^ nat (k - e)"
    using round_even_mono [of "x / pow2 e" "pow2 (k - e)"] by (simp only: round_even_of_int)
  then have "of_int (round_even (x / pow2 e)) \<le> pow2 (k - e)"
    using \<open>pow2 (k - e) = _\<close> by (simp only: of_int_le_iff)
  then show ?thesis
    by (simp add: round_pos_def ulp_def e_def [symmetric] k)
qed

lemma round_pos_ge_pow2:
  assumes "0 < x" and "pow2 k \<le> x" and "k \<le> ilog2 x" and "max (ilog2 x - 52) (- 1074) \<le> k"
  shows "pow2 k \<le> round_pos x"
proof -
  define e where "e = max (ilog2 x - 52) (- 1074)"
  have "e \<le> k" using assms by (simp add: e_def)
  then have k: "pow2 k = pow2 (k - e) * pow2 e" by (simp flip: pow2_add)
  have "pow2 (k - e) = of_int (2 ^ nat (k - e))" using \<open>e \<le> k\<close> by (simp add: pow2_def)
  moreover have "pow2 (k - e) \<le> x / pow2 e"
    using assms(2) k by (simp add: le_divide_eq)
  ultimately have "2 ^ nat (k - e) \<le> round_even (x / pow2 e)"
    using round_even_mono [of "pow2 (k - e)" "x / pow2 e"] by (simp only: round_even_of_int)
  then have "pow2 (k - e) \<le> of_int (round_even (x / pow2 e))"
    using \<open>pow2 (k - e) = _\<close> by (simp only: of_int_le_iff)
  then show ?thesis
    by (simp add: round_pos_def ulp_def e_def [symmetric] k)
qed

lemma round_pos_mono:
  assumes "0 < x" and "x \<le> y"
  shows "round_pos x \<le> round_pos y"
proof (cases "ulp x = ulp y")
  case True
  have "x / ulp x \<le> y / ulp x" using assms by (simp add: divide_right_mono less_imp_le)
  then have "round_even (x / ulp x) \<le> round_even (y / ulp x)" by (rule round_even_mono)
  then show ?thesis by (simp add: round_pos_def True [symmetric] mult_right_mono less_imp_le)
next
  case False
  have y: "0 < y" using assms by simp
  have le: "ilog2 x \<le> ilog2 y" using assms by (rule ilog2_mono)
  have "ilog2 y - 52 > - 1074" and ne: "ilog2 x \<noteq> ilog2 y"
    using False le by (auto simp: ulp_def max_def split: if_splits)
  then have lt: "ilog2 x + 1 \<le> ilog2 y" using le by simp
  have "round_pos x \<le> pow2 (ilog2 y)"
  proof (rule round_pos_le_pow2)
    show "x \<le> pow2 (ilog2 y)"
      using ilog2_bounds(2) [OF assms(1)] pow2_mono [OF lt] by linarith
  qed (use assms lt \<open>ilog2 y - 52 > - 1074\<close> in auto)
  also have "\<dots> \<le> round_pos y"
    using \<open>ilog2 y - 52 > - 1074\<close> y by (intro round_pos_ge_pow2) (auto simp: ilog2_bounds)
  finally show ?thesis .
qed

lemma round_pos_nonneg: "0 < x \<Longrightarrow> 0 \<le> round_pos x"
proof -
  assume "0 < x"
  then have "0 \<le> x / ulp x" by (simp add: less_imp_le)
  then have "round_even 0 \<le> round_even (x / ulp x)" by (rule round_even_mono)
  then have "0 \<le> round_even (x / ulp x)" by (simp add: round_even_def)
  then show ?thesis by (simp add: round_pos_def less_imp_le)
qed

lemma round64_0 [simp]: "round64 0 = 0"
  by (simp add: round64_def)

lemma round64_minus: "round64 (- x) = - round64 x"
  by (simp add: round64_def)

lemma round64_mono:
  assumes "x \<le> y"
  shows "round64 x \<le> round64 y"
proof -
  consider "0 < x" | "x \<le> 0" "0 \<le> y" | "y < 0" by linarith
  then show ?thesis
  proof cases
    case 1
    then show ?thesis using assms round_pos_mono [of x y] by (simp add: round64_def)
  next
    case 2
    then show ?thesis
      using round_pos_nonneg [of y] round_pos_nonneg [of "- x"] by (auto simp: round64_def)
  next
    case 3
    then show ?thesis using assms round_pos_mono [of "- y" "- x"] by (simp add: round64_def)
  qed
qed

lemma round64_nonneg: "0 \<le> x \<Longrightarrow> 0 \<le> round64 x"
  using round64_mono [of 0 x] by simp

lemma round64_nonpos: "x \<le> 0 \<Longrightarrow> round64 x \<le> 0"
  using round64_mono [of x 0] by simp

text \<open>
  A multiple of a power of two with at most 53 significant bits is representable, so
  rounding leaves it alone; in particular rounding is idempotent, and exact on integers
  of at most 53 bits.
\<close>

lemma ilog2_less:
  assumes "0 < x" and "x < pow2 k"
  shows "ilog2 x < k"
proof (rule ccontr)
  assume "\<not> ?thesis"
  then have "pow2 k \<le> pow2 (ilog2 x)" by (intro pow2_mono) simp
  then show False using ilog2_bounds(1) [OF assms(1)] assms(2) by linarith
qed

lemma round_pos_scaled_less:
  assumes "0 < n" and "n < 2 ^ 53" and "- 1074 \<le> e"
  shows "round_pos (of_int n * pow2 e) = of_int n * pow2 e"
proof -
  define y where "y = of_int n * pow2 e"
  define e' where "e' = max (ilog2 y - 52) (- 1074)"
  have y: "0 < y" using assms by (simp add: y_def)
  have "(of_int n :: rat) < of_int (2 ^ 53)" using assms by (simp only: of_int_less_iff)
  then have "of_int n < pow2 53" by (simp add: pow2_def)
  then have "y < pow2 (53 + e)" by (simp add: y_def pow2_add)
  then have "ilog2 y < 53 + e" using y by (intro ilog2_less)
  then have e: "e' \<le> e" using assms by (simp add: e'_def)
  have "y / pow2 e' = of_int n * pow2 (e - e')"
    using pow2_add [of "e - e'" e'] by (simp add: y_def)
  also have "\<dots> = of_int (n * 2 ^ nat (e - e'))"
    using e by (simp add: pow2_def)
  finally have eq: "y / pow2 e' = of_int (n * 2 ^ nat (e - e'))" .
  have "round_pos y = of_int (n * 2 ^ nat (e - e')) * pow2 e'"
    by (simp only: round_pos_def ulp_def e'_def [symmetric] eq round_even_of_int)
  also have "\<dots> = y" using eq by (simp add: field_simps)
  finally show ?thesis by (simp only: y_def)
qed

lemma round_pos_scaled:
  assumes "0 < n" and "n \<le> 2 ^ 53" and "- 1074 \<le> e"
  shows "round_pos (of_int n * pow2 e) = of_int n * pow2 e"
proof (cases "n = 2 ^ 53")
  case True
  have "of_int n * pow2 e = of_int (2 ^ 52) * pow2 (e + 1)"
    by (simp add: True pow2_add pow2_def [of 1])
  then show ?thesis
    using round_pos_scaled_less [of "2 ^ 52" "e + 1"] assms by simp
next
  case False
  then show ?thesis using round_pos_scaled_less [of n e] assms by simp
qed

lemma round64_scaled:
  assumes "\<bar>n\<bar> \<le> 2 ^ 53" and "- 1074 \<le> e"
  shows "round64 (of_int n * pow2 e) = of_int n * pow2 e"
proof -
  consider "n = 0" | "0 < n" | "0 < - n" by linarith
  then show ?thesis
    using round_pos_scaled [of n e] round_pos_scaled [of "- n" e] assms
    by cases (auto simp: round64_def mult_less_0_iff zero_less_mult_iff)
qed

lemma round64_int: "\<bar>n\<bar> \<le> 2 ^ 53 \<Longrightarrow> round64 (of_int n) = of_int n"
  using round64_scaled [of n 0] by simp

lemma round64_numeral [simp]: "numeral w \<le> (2 ^ 53 :: int) \<Longrightarrow> round64 (numeral w) = numeral w"
  using round64_int [of "numeral w"] by simp

lemma round64_neg_numeral [simp]: "numeral w \<le> (2 ^ 53 :: int) \<Longrightarrow> round64 (- numeral w) = - numeral w"
  by (simp add: round64_minus)

lemma round64_1 [simp]: "round64 1 = 1"
  using round64_int [of 1] by simp

lemma round_pos_form:
  assumes "0 < x"
  obtains n e where "0 \<le> n" and "n \<le> 2 ^ 53" and "- 1074 \<le> e" and "round_pos x = of_int n * pow2 e"
proof -
  define e where "e = max (ilog2 x - 52) (- 1074)"
  have "x < pow2 (53 + e)"
    using ilog2_bounds(2) [OF assms] pow2_mono [of "ilog2 x + 1" "53 + e"]
    by (auto simp: e_def max_def split: if_splits)
  then have "x / pow2 e \<le> pow2 53" by (simp add: pow2_add divide_le_eq less_imp_le mult.commute)
  then have "round_even (x / pow2 e) \<le> round_even (of_int (2 ^ 53))"
    by (intro round_even_mono) (simp add: pow2_def)
  then have "round_even (x / pow2 e) \<le> 2 ^ 53" by (simp only: round_even_of_int)
  moreover have "round_even (of_int 0) \<le> round_even (x / pow2 e)"
    using assms by (intro round_even_mono) (simp add: less_imp_le)
  then have "0 \<le> round_even (x / pow2 e)" by (simp only: round_even_of_int)
  ultimately show thesis
    using that [of "round_even (x / pow2 e)" e] by (simp add: round_pos_def ulp_def e_def)
qed

lemma round64_form:
  obtains n e where "\<bar>n\<bar> \<le> 2 ^ 53" and "- 1074 \<le> e" and "round64 x = of_int n * pow2 e"
proof -
  consider "x = 0" | "0 < x" | "0 < - x" by linarith
  then show thesis
  proof cases
    case 1
    then show ?thesis using that [of 0 0] by simp
  next
    case 2
    then obtain n e where "0 \<le> n" "n \<le> 2 ^ 53" "- 1074 \<le> e" "round_pos x = of_int n * pow2 e"
      by (rule round_pos_form)
    then show ?thesis using that [of n e] 2 by (simp add: round64_def)
  next
    case 3
    then obtain n e where "0 \<le> n" "n \<le> 2 ^ 53" "- 1074 \<le> e" "round_pos (- x) = of_int n * pow2 e"
      by (rule round_pos_form)
    then show ?thesis using that [of "- n" e] 3 by (simp add: round64_def)
  qed
qed

lemma round64_idem [simp]: "round64 (round64 x) = round64 x"
  by (rule round64_form [of x]) (simp add: round64_scaled)

section \<open>The type and its operations\<close>

datatype f64 = NaN | Inf bool \<comment> \<open>True: negative\<close> | Fin rat

definition f64_max :: rat where
  "f64_max = of_int (2 ^ 53 - 1) * pow2 971"

definition to_f64 :: "rat \<Rightarrow> f64" where
  "to_f64 x = (let y = round64 x in if f64_max < \<bar>y\<bar> then Inf (y < 0) else Fin y)"

definition f_of_int :: "int \<Rightarrow> f64" where
  "f_of_int n = to_f64 (of_int n)"

fun f_uminus :: "f64 \<Rightarrow> f64" where
  "f_uminus NaN = NaN"
| "f_uminus (Inf s) = Inf (\<not> s)"
| "f_uminus (Fin a) = Fin (- a)"

fun f_add :: "f64 \<Rightarrow> f64 \<Rightarrow> f64" where
  "f_add (Fin a) (Fin b) = to_f64 (a + b)"
| "f_add (Fin _) (Inf s) = Inf s"
| "f_add (Inf s) (Fin _) = Inf s"
| "f_add (Inf s) (Inf t) = (if s = t then Inf s else NaN)"
| "f_add _ _ = NaN"

definition f_sub :: "f64 \<Rightarrow> f64 \<Rightarrow> f64" where
  "f_sub x y = f_add x (f_uminus y)"

fun f_mul :: "f64 \<Rightarrow> f64 \<Rightarrow> f64" where
  "f_mul (Fin a) (Fin b) = to_f64 (a * b)"
| "f_mul (Fin a) (Inf s) = (if a = 0 then NaN else Inf (s \<noteq> (a < 0)))"
| "f_mul (Inf s) (Fin b) = (if b = 0 then NaN else Inf (s \<noteq> (b < 0)))"
| "f_mul (Inf s) (Inf t) = Inf (s \<noteq> t)"
| "f_mul _ _ = NaN"

fun f_div :: "f64 \<Rightarrow> f64 \<Rightarrow> f64" where
  "f_div (Fin a) (Fin b) = (if b = 0 then (if a = 0 then NaN else Inf (a < 0)) else to_f64 (a / b))"
| "f_div (Fin _) (Inf _) = Fin 0"
| "f_div (Inf s) (Fin b) = Inf (s \<noteq> (b < 0))"
| "f_div _ _ = NaN"

fun f_less :: "f64 \<Rightarrow> f64 \<Rightarrow> bool" where
  "f_less (Fin a) (Fin b) \<longleftrightarrow> a < b"
| "f_less (Fin _) (Inf s) \<longleftrightarrow> \<not> s"
| "f_less (Inf s) (Fin _) \<longleftrightarrow> s"
| "f_less (Inf s) (Inf t) \<longleftrightarrow> s \<and> \<not> t"
| "f_less _ _ \<longleftrightarrow> False"

fun f_eq :: "f64 \<Rightarrow> f64 \<Rightarrow> bool" where
  "f_eq (Fin a) (Fin b) \<longleftrightarrow> a = b"
| "f_eq (Inf s) (Inf t) \<longleftrightarrow> s = t"
| "f_eq _ _ \<longleftrightarrow> False"

definition f_le :: "f64 \<Rightarrow> f64 \<Rightarrow> bool" where
  "f_le x y \<longleftrightarrow> f_less x y \<or> f_eq x y"

definition IsNaN :: "f64 \<Rightarrow> bool" where
  "IsNaN x \<longleftrightarrow> x = NaN"

text \<open>\<open>math.IsInf(x, 0)\<close>\<close>

fun IsInf :: "f64 \<Rightarrow> bool" where
  "IsInf (Inf _) \<longleftrightarrow> True"
| "IsInf _ \<longleftrightarrow> False"

text \<open>\<open>math.Max\<close>\<close>

definition f_max :: "f64 \<Rightarrow> f64 \<Rightarrow> f64" where
  "f_max x y =
     (if x = Inf False \<or> y = Inf False then Inf False
      else if IsNaN x \<or> IsNaN y then NaN
      else if f_less y x then x else y)"

text \<open>
  Conversion to \<open>int64\<close> drops the fraction.  For a value outside the range the language
  leaves the result to the implementation; this is what amd64, the deployed platform,
  computes.
\<close>

fun f_to_int64 :: "f64 \<Rightarrow> int" where
  "f_to_int64 (Fin a) =
     (let n = (if 0 \<le> a then \<lfloor>a\<rfloor> else \<lceil>a\<rceil>)
      in if int64_range n then n else - 9223372036854775808)"
| "f_to_int64 _ = - 9223372036854775808"

text \<open>A decimal constant of the source.\<close>

definition f_const :: "rat \<Rightarrow> f64" where
  "f_const x = Fin (round64 x)"

text \<open>A value that a \<open>float64\<close> can hold.\<close>

fun f64_ok :: "f64 \<Rightarrow> bool" where
  "f64_ok (Fin a) \<longleftrightarrow> round64 a = a \<and> \<bar>a\<bar> \<le> f64_max"
| "f64_ok _ \<longleftrightarrow> True"

section \<open>Laws\<close>

lemma f64_max_big: "9007199254740992 \<le> f64_max"
proof -
  have "(1::rat) \<le> pow2 971" using pow2_mono [of 0 971] by simp
  then have "of_int (2 ^ 53 - 1) * 2 \<le> of_int (2 ^ 53 - 1) * pow2 971"
    using pow2_mono [of 1 971] by (intro mult_left_mono) (simp_all add: pow2_def)
  then show ?thesis by (simp add: f64_max_def)
qed

lemma f64_max_ge0: "0 \<le> f64_max"
  using f64_max_big by linarith

lemma round64_f64_max: "round64 f64_max = f64_max"
  unfolding f64_max_def by (rule round64_scaled) simp_all

lemma round64_abs_le: "\<bar>x\<bar> \<le> f64_max \<Longrightarrow> \<bar>round64 x\<bar> \<le> f64_max"
  using round64_mono [of x f64_max] round64_mono [of "- f64_max" x]
  by (simp add: round64_minus round64_f64_max abs_le_iff)

lemma to_f64_Fin: "\<bar>x\<bar> \<le> f64_max \<Longrightarrow> to_f64 x = Fin (round64 x)"
  using round64_abs_le [of x] by (simp add: to_f64_def not_less)

lemma f64_ok_to_f64 [simp]: "f64_ok (to_f64 x)"
  by (simp add: to_f64_def Let_def not_less)

lemma to_f64_exact: "f64_ok (Fin x) \<Longrightarrow> to_f64 x = Fin x"
  by (simp add: to_f64_Fin)

lemma f64_ok_uminus [simp]: "f64_ok (f_uminus x) = f64_ok x"
  by (cases x) (auto simp: round64_minus)

lemma f64_ok_add [simp]: "f64_ok (f_add x y)"
  by (cases x; cases y) auto

lemma f64_ok_sub [simp]: "f64_ok (f_sub x y)"
  by (simp add: f_sub_def)

lemma f64_ok_mul [simp]: "f64_ok (f_mul x y)"
  by (cases x; cases y) auto

lemma f64_ok_div [simp]: "f64_ok (f_div x y)"
  using f64_max_ge0 by (cases x; cases y) auto

lemma f64_ok_int: "\<bar>n\<bar> \<le> 2 ^ 53 \<Longrightarrow> f64_ok (Fin (of_int n))"
proof -
  assume n: "\<bar>n\<bar> \<le> 2 ^ 53"
  have "\<bar>of_int n :: rat\<bar> \<le> of_int (2 ^ 53)" using n by (simp only: of_int_le_iff flip: of_int_abs)
  then show ?thesis using n f64_max_big by (simp add: round64_int)
qed

lemma f_of_int_small: "\<bar>n\<bar> \<le> 2 ^ 53 \<Longrightarrow> f_of_int n = Fin (of_int n)"
  using f64_ok_int [of n] by (simp add: f_of_int_def to_f64_exact)

text \<open>Evaluation on whole numbers below \<open>2 ^ 53\<close>.\<close>

lemma f64_max_numeral:
  assumes "numeral w \<le> (2 ^ 53 :: int)"
  shows "numeral w \<le> f64_max"
proof -
  have "(of_int (numeral w) :: rat) \<le> of_int 9007199254740992" using assms by (simp only: of_int_le_iff) simp
  then have "(numeral w :: rat) \<le> 9007199254740992" by (simp only: of_int_numeral)
  then show ?thesis using f64_max_big by (rule order_trans)
qed

lemma f64_max_ge: "0 \<le> f64_max" "1 \<le> f64_max"
  using f64_max_ge0 order_trans [OF _ f64_max_big, of 1] by simp_all

lemma to_f64_numeral [simp]:
  "numeral w \<le> (2 ^ 53 :: int) \<Longrightarrow> to_f64 (numeral w) = Fin (numeral w)"
  "numeral w \<le> (2 ^ 53 :: int) \<Longrightarrow> to_f64 (- numeral w) = Fin (- numeral w)"
  "to_f64 0 = Fin 0" "to_f64 1 = Fin 1"
  by (simp_all add: to_f64_exact f64_max_numeral f64_max_ge)

lemma f_const_numeral [simp]:
  "numeral w \<le> (2 ^ 53 :: int) \<Longrightarrow> f_const (numeral w) = Fin (numeral w)"
  "f_const 0 = Fin 0" "f_const 1 = Fin 1"
  by (simp_all add: f_const_def)

lemma f_le_Fin [simp]: "f_le (Fin a) (Fin b) \<longleftrightarrow> a \<le> b"
  by (auto simp: f_le_def)

lemma f_le_refl: "x \<noteq> NaN \<Longrightarrow> f_le x x"
  by (cases x) (auto simp: f_le_def)

lemma f_le_trans: "f_le x y \<Longrightarrow> f_le y z \<Longrightarrow> f_le x z"
  by (cases x; cases y; cases z) (auto simp: f_le_def)

lemma f_less_le_trans: "f_less x y \<Longrightarrow> f_le y z \<Longrightarrow> f_less x z"
  by (cases x; cases y; cases z) (auto simp: f_le_def)

lemma f_le_less_trans: "f_le x y \<Longrightarrow> f_less y z \<Longrightarrow> f_less x z"
  by (cases x; cases y; cases z) (auto simp: f_le_def)

lemma f_not_less: "x \<noteq> NaN \<Longrightarrow> y \<noteq> NaN \<Longrightarrow> \<not> f_less x y \<longleftrightarrow> f_le y x"
  by (cases x; cases y) (auto simp: f_le_def)

lemma f_less_irrefl [simp]: "\<not> f_less x x"
  by (cases x) auto

lemma f_less_asym: "f_less x y \<Longrightarrow> \<not> f_less y x"
  by (cases x; cases y) auto

text \<open>The cases of a rounded nonnegative number, and monotonicity of rounding.\<close>

lemma to_f64_nonneg_cases:
  assumes "0 \<le> x"
  obtains "to_f64 x = Inf False" | y where "to_f64 x = Fin y" and "0 \<le> y"
proof -
  have nn: "0 \<le> round64 x" using assms by (rule round64_nonneg)
  show thesis
  proof (cases "f64_max < round64 x")
    case True
    then have "to_f64 x = Inf False" using nn by (simp add: to_f64_def Let_def)
    then show ?thesis by (rule that(1))
  next
    case False
    then have "to_f64 x = Fin (round64 x)" using nn by (simp add: to_f64_def Let_def)
    then show ?thesis using nn by (rule that(2))
  qed
qed

lemma to_f64_not_NaN [simp]: "to_f64 x \<noteq> NaN"
  by (simp add: to_f64_def Let_def)

lemma to_f64_mono:
  assumes "x \<le> y"
  shows "f_le (to_f64 x) (to_f64 y)"
proof -
  have "round64 x \<le> round64 y" using assms by (rule round64_mono)
  then show ?thesis
    using f64_max_ge0 by (auto simp: to_f64_def Let_def f_le_def abs_if not_less split: if_splits)
qed

lemma f_to_int64_of_int: "int64_range n \<Longrightarrow> f_to_int64 (Fin (of_int n)) = n"
  by simp

lemma f_to_int64_range: "int64_range (f_to_int64 x)"
  by (cases x) (auto simp: Let_def int64_range_def)

lemma f_to_int64_mono_nonneg:
  assumes "0 \<le> a" and "a \<le> b" and "b < 9223372036854775808"
  shows "f_to_int64 (Fin a) \<le> f_to_int64 (Fin b)"
proof -
  have "\<lfloor>b\<rfloor> \<le> 9223372036854775807" using assms by (simp add: floor_le_iff)
  moreover have "\<lfloor>a\<rfloor> \<le> \<lfloor>b\<rfloor>" and "0 \<le> \<lfloor>a\<rfloor>" using assms by (auto intro: floor_mono)
  ultimately show ?thesis using assms by (simp add: int64_range_def)
qed

end
