(* ===== verification/GoTime.thy ===== *)
theory GoTime
  imports GoFloat
begin

text \<open>
  Go's \<open>time.Time\<close> and \<open>time.Duration\<close>.  A time is its instant, in nanoseconds from the
  zero time (1 January of year 1, UTC), and whether its location is UTC; the monotonic
  reading is absent because every time the program keeps went through \<open>UTC()\<close>, which
  strips it.  The instant is unbounded: Go's seconds field covers 292 billion years.  A
  duration is an \<open>int64\<close> number of nanoseconds; \<open>Sub\<close> saturates at its bounds.
\<close>

named_theorems time_simps

datatype time = Time (ns: int) (utc: bool)

abbreviation Second :: int where "Second \<equiv> 1000000000"

definition zeroTime :: time where
  "zeroTime = Time 0 True"

definition IsZero :: "time \<Rightarrow> bool" where
  "IsZero t \<longleftrightarrow> ns t = 0"

definition Before :: "time \<Rightarrow> time \<Rightarrow> bool" where
  "Before a b \<longleftrightarrow> ns a < ns b"

definition After :: "time \<Rightarrow> time \<Rightarrow> bool" where
  "After a b \<longleftrightarrow> ns b < ns a"

definition Equal :: "time \<Rightarrow> time \<Rightarrow> bool" where
  "Equal a b \<longleftrightarrow> ns a = ns b"

definition Add :: "time \<Rightarrow> int \<Rightarrow> time" where
  "Add t d = Time (ns t + d) (utc t)"

definition Sub :: "time \<Rightarrow> time \<Rightarrow> int" where
  "Sub a b = clamp64 (ns a - ns b)"

definition UTC :: "time \<Rightarrow> time" where
  "UTC t = Time (ns t) True"

lemma time_eq_iff: "a = b \<longleftrightarrow> ns a = ns b \<and> utc a = utc b"
  by (cases a; cases b) auto

lemmas time_rel_defs [time_simps] = Before_def After_def Equal_def

declare time_rel_defs [simp]

lemma ns_Add [simp]: "ns (Add t d) = ns t + d"
  by (simp add: Add_def)

lemma utc_Add [simp]: "utc (Add t d) = utc t"
  by (simp add: Add_def)

lemma ns_UTC [simp]: "ns (UTC t) = ns t"
  by (simp add: UTC_def)

lemma utc_UTC [simp]: "utc (UTC t)"
  by (simp add: UTC_def)

lemma UTC_id: "utc t \<Longrightarrow> UTC t = t"
  by (simp add: time_eq_iff)

lemma Sub_range: "int64_range (Sub a b)"
  by (simp add: Sub_def clamp64_range)

lemma Sub_mono: "ns a \<le> ns b \<Longrightarrow> Sub a c \<le> Sub b c"
  by (simp add: Sub_def clamp64_mono)

lemma Sub_antimono: "ns a \<le> ns b \<Longrightarrow> Sub c b \<le> Sub c a"
  by (simp add: Sub_def clamp64_mono)

lemma Sub_nonneg_iff [simp]: "0 \<le> Sub a b \<longleftrightarrow> ns b \<le> ns a"
  by (simp add: Sub_def)

lemma Sub_neg_iff [simp]: "Sub a b < 0 \<longleftrightarrow> ns a < ns b"
  by (simp add: Sub_def)

lemma Sub_exact: "int64_range (ns a - ns b) \<Longrightarrow> Sub a b = ns a - ns b"
  by (simp add: Sub_def clamp64_id)

lemma Sub_self [simp]: "Sub a a = 0"
  by (simp add: Sub_def clamp64_def)

lemma Sub_Add [simp]: "int64_range d \<Longrightarrow> Sub (Add t d) t = d"
  by (simp add: Sub_exact)

section \<open>Seconds as floats\<close>

text \<open>\<open>Duration.Seconds\<close>\<close>

definition Seconds :: "int \<Rightarrow> f64" where
  "Seconds d = f_add (f_of_int (d sdiv Second)) (f_div (f_of_int (d smod Second)) (Fin 1000000000))"

text \<open>\<open>time.Duration(x * float64(time.Second))\<close>\<close>

definition DurationOfSeconds :: "f64 \<Rightarrow> int" where
  "DurationOfSeconds x = f_to_int64 (f_mul x (Fin 1000000000))"

definition seconds_rat :: "int \<Rightarrow> rat" where
  "seconds_rat d = round64 (of_int (d div Second) + round64 (of_int (d mod Second) / 1000000000))"

lemma seconds_frac_bounds:
  assumes "0 \<le> m" and "m < Second"
  shows "0 \<le> round64 (of_int m / 1000000000)" and "round64 (of_int m / 1000000000) \<le> 1"
proof -
  show "0 \<le> round64 (of_int m / 1000000000)" using assms by (intro round64_nonneg) simp
  have "(of_int m :: rat) \<le> of_int Second" using assms by (simp only: of_int_le_iff less_imp_le)
  then have "(of_int m / 1000000000 :: rat) \<le> 1" by simp
  then show "round64 (of_int m / 1000000000) \<le> 1"
    using round64_mono [of "of_int m / 1000000000" 1] by simp
qed

lemma int64_div_Second:
  assumes "int64_range d" and "0 \<le> d"
  shows "0 \<le> d div Second" and "d div Second \<le> 9223372036"
  using assms by (auto simp: int64_range_def)

lemma seconds_rat_nonneg:
  assumes "0 \<le> d"
  shows "0 \<le> seconds_rat d"
  unfolding seconds_rat_def
  using assms seconds_frac_bounds(1) [of "d mod Second"]
  by (intro round64_nonneg add_nonneg_nonneg) (auto simp: pos_imp_zdiv_nonneg_iff)

lemma Seconds_Fin:
  assumes "int64_range d" and "0 \<le> d"
  shows "Seconds d = Fin (seconds_rat d)"
proof -
  let ?q = "d div Second" and ?m = "d mod Second"
  have q: "0 \<le> ?q" "?q \<le> 9223372036" using int64_div_Second [OF assms] by auto
  have m: "0 \<le> ?m" "?m < Second" by auto
  have fr: "0 \<le> round64 (of_int ?m / 1000000000)" "round64 (of_int ?m / 1000000000) \<le> 1"
    using seconds_frac_bounds [OF m] by auto
  have "(of_int ?m :: rat) \<le> of_int Second" using m by (simp only: of_int_le_iff less_imp_le)
  then have "\<bar>of_int ?m / 1000000000 :: rat\<bar> \<le> f64_max"
    using m f64_max_big by (simp add: abs_of_nonneg)
  then have d: "f_div (Fin (of_int ?m)) (Fin 1000000000) = Fin (round64 (of_int ?m / 1000000000))"
    by (simp add: to_f64_Fin)
  have "(of_int ?q :: rat) \<le> of_int 9223372036" and "(0::rat) \<le> of_int ?q"
    using q by (simp_all only: of_int_le_iff of_int_0_le_iff)
  then have "\<bar>of_int ?q + round64 (of_int ?m / 1000000000)\<bar> \<le> f64_max"
    using fr f64_max_big by (simp add: abs_of_nonneg)
  then show ?thesis
    using assms q m d
    by (simp add: Seconds_def seconds_rat_def sdiv_nonneg smod_nonneg f_of_int_small to_f64_Fin)
qed

lemma seconds_rat_mono:
  assumes "0 \<le> d" and "d \<le> e" and "int64_range e"
  shows "seconds_rat d \<le> seconds_rat e"
proof -
  let ?fr = "\<lambda>x. round64 (of_int (x mod Second) / 1000000000)"
  have le: "d div Second \<le> e div Second" using assms by (intro zdiv_mono1) auto
  have "of_int (d div Second) + ?fr d \<le> of_int (e div Second) + ?fr e"
  proof (cases "d div Second = e div Second")
    case True
    then have "d mod Second \<le> e mod Second"
      using assms(2) by (metis add_le_cancel_left mult_div_mod_eq)
    then have "(of_int (d mod Second) :: rat) \<le> of_int (e mod Second)" by (simp only: of_int_le_iff)
    then have "?fr d \<le> ?fr e" by (intro round64_mono) (simp add: divide_right_mono)
    then show ?thesis using True by simp
  next
    case False
    then have "d div Second + 1 \<le> e div Second" using le by simp
    then have "(of_int (d div Second + 1) :: rat) \<le> of_int (e div Second)" by (simp only: of_int_le_iff)
    then have "of_int (d div Second) + (1::rat) \<le> of_int (e div Second)" by simp
    moreover have "?fr d \<le> 1" "0 \<le> ?fr e" using seconds_frac_bounds by simp_all
    ultimately show ?thesis by linarith
  qed
  then show ?thesis unfolding seconds_rat_def by (rule round64_mono)
qed

lemma Seconds_mono:
  assumes "0 \<le> d" and "d \<le> e" and "int64_range e"
  shows "f_le (Seconds d) (Seconds e)"
proof -
  have "int64_range d" using assms by (simp add: int64_range_def)
  then show ?thesis using assms seconds_rat_mono [OF assms] by (simp add: Seconds_Fin)
qed

lemma seconds_rat_whole [simp]:
  assumes "\<bar>k\<bar> \<le> 2 ^ 53"
  shows "seconds_rat (k * Second) = of_int k"
  using assms by (simp add: seconds_rat_def round64_int)

lemma Seconds_whole:
  assumes "0 \<le> k" and "k \<le> 9223372036"
  shows "Seconds (k * Second) = Fin (of_int k)"
  using assms by (simp add: Seconds_Fin int64_range_def)

lemma Seconds_not_NaN [simp]: "int64_range d \<Longrightarrow> 0 \<le> d \<Longrightarrow> Seconds d \<noteq> NaN"
  by (simp add: Seconds_Fin)

text \<open>
  \<open>int(d.Seconds())\<close> of a whole number of seconds is that number.
\<close>

lemma int_Seconds_whole:
  assumes "0 \<le> d" and "int64_range d" and "d mod Second = 0"
  shows "f_to_int64 (Seconds d) = d div Second"
proof -
  obtain k where k: "d = k * Second" using assms(3) by (metis mod_0_imp_dvd dvd_div_mult_self)
  have "0 \<le> k" "k \<le> 9223372036" using assms k by (auto simp: int64_range_def)
  then show ?thesis
    unfolding k by (subst Seconds_whole) (auto simp: int64_range_def)
qed

end
