(* ===== verification/Config.thy ===== *)
theory Config
  imports GoTime
begin

text \<open>
  \<open>internal/config/config.go\<close>: the balance parameters and their default values, and the
  cookie switch of \<open>internal/config/session.go\<close>.  Durations are nanoseconds.
\<close>

record Config =
  SessionTTL :: int
  SessionRefreshInterval :: int
  SessionCleanupInterval :: int
  SessionTokenBytes :: int
  LabIDBytes :: int
  SessionCookieName :: string
  MaxActivePortals :: int
  SpawnDelayMin :: int
  SpawnDelayMax :: int
  NaturalTTLMin :: int
  NaturalTTLMax :: int
  PortalEnergyMin :: f64
  PortalEnergyMax :: f64
  PortalDecayMin :: f64
  PortalDecayMax :: f64
  UnstableProbability :: f64
  InstabilityMinLifetime :: int
  InstabilityCloseMargin :: int
  CreatureMax :: int
  CreatureTransit :: int
  CreatureClearanceMargin :: int
  ObserverCount :: int
  ObserverTransitMin :: int
  ObserverTransitMax :: int
  ResearchDuration :: int
  LabEnergyMax :: int
  LabRegenPerSec :: int
  CloseCost :: int
  StabilizeCost :: int
  StabilizeBoost :: f64
  StabilizeMaxStartEnergy :: f64
  ExtractionCost :: int
  ExtractionEnergyMin :: f64
  ExtractionEnergyMax :: f64
  ExtractionTTLMin :: int
  ExtractionTTLMax :: int
  ExtractionSync :: int
  EmergencyDuration :: int
  RiskSafeHorizon :: int
  RiskInstabilityPenalty :: f64

definition Default :: Config where
  "Default = \<lparr>
     SessionTTL = 30 * 24 * 3600 * Second,
     SessionRefreshInterval = 12 * 3600 * Second,
     SessionCleanupInterval = 3600 * Second,
     SessionTokenBytes = 32,
     LabIDBytes = 16,
     SessionCookieName = ''omenpath_session'',
     MaxActivePortals = 7,
     SpawnDelayMin = 0,
     SpawnDelayMax = 20 * Second,
     NaturalTTLMin = 10 * Second,
     NaturalTTLMax = 300 * Second,
     PortalEnergyMin = f_const 10,
     PortalEnergyMax = f_const 100,
     PortalDecayMin = f_const (1 / 10),
     PortalDecayMax = f_const 1,
     UnstableProbability = f_const (35 / 100),
     InstabilityMinLifetime = 5 * Second,
     InstabilityCloseMargin = 1 * Second,
     CreatureMax = 10,
     CreatureTransit = 2 * Second,
     CreatureClearanceMargin = 2 * Second,
     ObserverCount = 20,
     ObserverTransitMin = 5 * Second,
     ObserverTransitMax = 15 * Second,
     ResearchDuration = 20 * Second,
     LabEnergyMax = 100,
     LabRegenPerSec = 1,
     CloseCost = 5,
     StabilizeCost = 20,
     StabilizeBoost = f_const 15,
     StabilizeMaxStartEnergy = f_const 85,
     ExtractionCost = 30,
     ExtractionEnergyMin = f_const 60,
     ExtractionEnergyMax = f_const 100,
     ExtractionTTLMin = 30 * Second,
     ExtractionTTLMax = 60 * Second,
     ExtractionSync = 5 * Second,
     EmergencyDuration = 20 * Second,
     RiskSafeHorizon = 45 * Second,
     RiskInstabilityPenalty = f_const 20\<rparr>"

text \<open>\<open>strconv.ParseBool\<close> accepts exactly these spellings; \<open>None\<close> is its error.\<close>

definition ParseBool :: "string \<Rightarrow> bool option" where
  "ParseBool s =
     (if s \<in> {''1'', ''t'', ''T'', ''TRUE'', ''true'', ''True''} then Some True
      else if s \<in> {''0'', ''f'', ''F'', ''FALSE'', ''false'', ''False''} then Some False
      else None)"

definition CookieSecure :: "string \<Rightarrow> bool \<Rightarrow> (string, bool) result" where
  "CookieSecure value production =
     rbind (if value \<noteq> [] then
              (case ParseBool value of
                 None \<Rightarrow> Fail ''OMENPATH_COOKIE_SECURE must be a boolean''
               | Some b \<Rightarrow> Ok b)
            else Ok False)
       (\<lambda>secure.
          if production \<and> \<not> secure
          then Fail ''production requires OMENPATH_COOKIE_SECURE=true''
          else Ok secure)"

lemma CookieSecure_production: "CookieSecure v True = Ok b \<Longrightarrow> b"
  by (auto simp: CookieSecure_def split: if_splits option.splits)

text \<open>The ranges that make the durations of a configuration \<open>int64\<close> values.\<close>

lemmas Default_simps = Default_def

end
