(* ===== verification/Errors.thy ===== *)
theory Errors
  imports Prelude
begin

text \<open>
  The sentinel errors of \<open>internal/domain/errors.go\<close> and \<open>internal/engine/repository.go\<close>,
  with their messages, the errors of a context, errors built by \<open>fmt.Errorf\<close> and
  \<open>errors.Join\<close>, and \<open>randomRestoreError\<close> of \<open>internal/engine/manager.go\<close>.  \<open>errors.Is\<close>
  follows the tree of wrapped causes.
\<close>

datatype error =
    ErrPortalNotOpen
  | ErrPortalAlreadyStable
  | ErrPortalOverchargeRisk
  | ErrConfirmationRequired
  | ErrNoFreePortalSlot
  | ErrObserverNotAvailable
  | ErrObserverNotWaitingReturn
  | ErrObserverLost
  | ErrObserverInvariant
  | ErrPortalCriticalRisk
  | ErrPortalDirectionConflict
  | ErrPortalBusy
  | ErrPortalCreaturesPresent
  | ErrNoAvailableObserver
  | ErrNoWaitingObserver
  | ErrLabEnergyInvariant
  | ErrInsufficientLabEnergy
  | ErrExtractionInvariant
  | ErrExtractionSynchronizing
  | ErrSimulationInvariant
  | ErrEventInvariant
  | ErrPortalNotFound
  | ErrPlaneNotFound
  | ErrTutorialNotReady
  | ErrInvalidTutorialSignal
  | ErrContextCanceled
  | ErrContextDeadlineExceeded
  | Errorf string
  | ErrorfWrap string error
  | RandomRestoreError error
  | ErrorsJoin error error

type_synonym 'a res = "(error, 'a) result"

fun Error_text :: "error \<Rightarrow> string" where
  "Error_text ErrPortalNotOpen = ''portal is not open''"
| "Error_text ErrPortalAlreadyStable = ''portal is already stable''"
| "Error_text ErrPortalOverchargeRisk = ''stabilize rejected: portal energy above 85%''"
| "Error_text ErrConfirmationRequired = ''confirmation required''"
| "Error_text ErrNoFreePortalSlot = ''no free portal slot''"
| "Error_text ErrObserverNotAvailable = ''observer is not available''"
| "Error_text ErrObserverNotWaitingReturn = ''observer is not waiting for return''"
| "Error_text ErrObserverLost = ''observer is lost''"
| "Error_text ErrObserverInvariant = ''observer lifecycle invariant violated''"
| "Error_text ErrPortalCriticalRisk = ''portal risk is critical''"
| "Error_text ErrPortalDirectionConflict = ''portal observer direction conflict''"
| "Error_text ErrPortalBusy = ''portal already has an observer in transit''"
| "Error_text ErrPortalCreaturesPresent = ''creatures are still inside portal''"
| "Error_text ErrNoAvailableObserver = ''no available observer''"
| "Error_text ErrNoWaitingObserver = ''no observer waiting in destination plane''"
| "Error_text ErrLabEnergyInvariant = ''laboratory energy invariant violated''"
| "Error_text ErrInsufficientLabEnergy = ''insufficient laboratory energy''"
| "Error_text ErrExtractionInvariant = ''extraction invariant violated''"
| "Error_text ErrExtractionSynchronizing = ''extraction portal is synchronizing''"
| "Error_text ErrSimulationInvariant = ''simulation invariant violated''"
| "Error_text ErrEventInvariant = ''event invariant violated''"
| "Error_text ErrPortalNotFound = ''portal not found''"
| "Error_text ErrPlaneNotFound = ''plane not found''"
| "Error_text ErrTutorialNotReady = ''tutorial not ready''"
| "Error_text ErrInvalidTutorialSignal = ''invalid tutorial signal''"
| "Error_text ErrContextCanceled = ''context canceled''"
| "Error_text ErrContextDeadlineExceeded = ''context deadline exceeded''"
| "Error_text (Errorf msg) = msg"
| "Error_text (ErrorfWrap msg e) = msg @ '': '' @ Error_text e"
| "Error_text (RandomRestoreError e) = ''restore random state: '' @ Error_text e"
| "Error_text (ErrorsJoin a b) = Error_text a @ [CHR 0x0A] @ Error_text b"

fun errors_Is :: "error \<Rightarrow> error \<Rightarrow> bool" where
  "errors_Is (ErrorfWrap msg e) target \<longleftrightarrow> ErrorfWrap msg e = target \<or> errors_Is e target"
| "errors_Is (RandomRestoreError e) target \<longleftrightarrow> RandomRestoreError e = target \<or> errors_Is e target"
| "errors_Is (ErrorsJoin a b) target \<longleftrightarrow> ErrorsJoin a b = target \<or> errors_Is a target \<or> errors_Is b target"
| "errors_Is e target \<longleftrightarrow> e = target"

text \<open>\<open>errors.As(err, *randomRestoreError)\<close>: a failed restore anywhere in the tree.\<close>

fun has_restore_error :: "error \<Rightarrow> bool" where
  "has_restore_error (ErrorfWrap msg e) \<longleftrightarrow> has_restore_error e"
| "has_restore_error (RandomRestoreError e) \<longleftrightarrow> True"
| "has_restore_error (ErrorsJoin a b) \<longleftrightarrow> has_restore_error a \<or> has_restore_error b"
| "has_restore_error e \<longleftrightarrow> False"

lemma Error_text_nonempty:
  assumes "\<And>m. e \<noteq> Errorf m"
  shows "Error_text e \<noteq> []"
  using assms by (cases e) auto

end
