(* ===== verification/Portal.thy ===== *)
theory Portal
  imports Config Errors
begin

text \<open>
  A portal and its derived quantities: \<open>internal/domain/portal.go\<close>, \<open>creatures.go\<close> and
  \<open>risk.go\<close>.  String enumerations have a last constructor for the strings that are none of
  the declared constants, so that the default branches of the code are reachable.  Methods
  with a pointer receiver return the updated portal.
\<close>

section \<open>Data\<close>

datatype PortalKind = PortalKindNatural | PortalKindExtraction | PortalKindOther string

datatype PortalStatus =
  PortalStatusOpen | PortalStatusClosed | PortalStatusCollapsed | PortalStatusOther string

datatype PortalStability = PortalStable | PortalUnstable | PortalStabilityOther string

datatype PortalFlow = PortalFlowNone | PortalFlowOutbound | PortalFlowInbound | PortalFlowOther string

datatype TerminationReason =
    TerminationNone
  | TerminationNaturalClose
  | TerminationManualClose
  | TerminationEnergyDepleted
  | TerminationInstability
  | TerminationOther string

record Portal =
  p_ID :: int
  p_Name :: string
  p_SlotIndex :: int
  p_Kind :: PortalKind
  p_DestinationPlaneID :: int
  p_EnergyBase :: f64
  p_EnergyBaseAt :: time
  p_EnergyDecayRate :: f64
  p_Stability :: PortalStability
  p_InstabilityCollapseAt :: "time option"
  p_OpenedAt :: time
  p_ScheduledCloseAt :: time
  p_CreaturesInitial :: int
  p_ObserverFlow :: PortalFlow
  p_ExtractionSynchronizedAt :: "time option"
  p_Status :: PortalStatus
  p_TerminationReason :: TerminationReason
  p_ClosedAt :: "time option"
  p_CreatedAt :: time
  p_UpdatedAt :: time

definition Portal_IsTerminal :: "Portal \<Rightarrow> bool" where
  "Portal_IsTerminal p \<longleftrightarrow> p_Status p \<noteq> PortalStatusOpen"

lemma not_terminal_iff [simp]: "\<not> Portal_IsTerminal p \<longleftrightarrow> p_Status p = PortalStatusOpen"
  by (simp add: Portal_IsTerminal_def)

section \<open>Derived values\<close>

definition Portal_ScheduledRemaining :: "Portal \<Rightarrow> time \<Rightarrow> int" where
  "Portal_ScheduledRemaining p now =
     (if Portal_IsTerminal p then 0
      else let remaining = Sub (p_ScheduledCloseAt p) now
           in if remaining < 0 then 0 else remaining)"

text \<open>A terminal portal is frozen at its closing moment.\<close>

definition frozen_now :: "Portal \<Rightarrow> time \<Rightarrow> time" where
  "frozen_now p now =
     (if Portal_IsTerminal p then (case p_ClosedAt p of Some c \<Rightarrow> c | None \<Rightarrow> now) else now)"

definition Portal_CurrentEnergy :: "Portal \<Rightarrow> time \<Rightarrow> f64" where
  "Portal_CurrentEnergy p now =
     (let elapsed = Sub (frozen_now p now) (p_EnergyBaseAt p);
          elapsed = (if elapsed < 0 then 0 else elapsed);
          energy = f_sub (p_EnergyBase p) (f_mul (Seconds elapsed) (p_EnergyDecayRate p))
      in if f_less energy (Fin 0) then Fin 0 else energy)"

definition Portal_EnergyDepletionAt :: "Portal \<Rightarrow> time option" where
  "Portal_EnergyDepletionAt p =
     (if f_le (p_EnergyDecayRate p) (Fin 0) then None
      else Some (Add (p_EnergyBaseAt p)
             (DurationOfSeconds (f_div (p_EnergyBase p) (p_EnergyDecayRate p)))))"

definition Portal_EnergyLifetime :: "Portal \<Rightarrow> time \<Rightarrow> int" where
  "Portal_EnergyLifetime p now =
     (if f_le (p_EnergyDecayRate p) (Fin 0) then 9223372036854775807
      else DurationOfSeconds (f_div (Portal_CurrentEnergy p now) (p_EnergyDecayRate p)))"

definition Portal_EffectiveLifetime :: "Portal \<Rightarrow> time \<Rightarrow> int" where
  "Portal_EffectiveLifetime p now =
     (let remaining = Portal_ScheduledRemaining p now; lifetime = Portal_EnergyLifetime p now
      in if lifetime < remaining then lifetime else remaining)"

section \<open>Transitions\<close>

text \<open>
  The earliest of the natural close, the energy depletion and the hidden instability
  collapse, with the status and reason it leads to.  The comparisons are strict, so the
  natural close wins a tie, and the depletion wins over the instability.
\<close>

definition lifecycle_deadline :: "Portal \<Rightarrow> time \<times> PortalStatus \<times> TerminationReason" where
  "lifecycle_deadline p =
     (let d0 = (p_ScheduledCloseAt p, PortalStatusClosed, TerminationNaturalClose);
          d1 = (case Portal_EnergyDepletionAt p of
                  Some depletion \<Rightarrow>
                    if Before depletion (fst d0)
                    then (depletion, PortalStatusCollapsed, TerminationEnergyDepleted) else d0
                | None \<Rightarrow> d0)
      in (case p_InstabilityCollapseAt p of
            Some collapse \<Rightarrow>
              if p_Stability p = PortalUnstable \<and> Before collapse (fst d1)
              then (collapse, PortalStatusCollapsed, TerminationInstability) else d1
          | None \<Rightarrow> d1))"

text \<open>\<open>ResolveLifecycle\<close>: whether the portal changed, and the portal.  Its error is always nil.\<close>

definition Portal_ResolveLifecycle :: "Portal \<Rightarrow> time \<Rightarrow> bool \<times> Portal" where
  "Portal_ResolveLifecycle p now =
     (if Portal_IsTerminal p then (False, p)
      else (case lifecycle_deadline p of (deadline, status, reason) \<Rightarrow>
              if Before now deadline then (False, p)
              else (True, p\<lparr>p_Status := status, p_TerminationReason := reason,
                            p_ClosedAt := Some deadline, p_UpdatedAt := now\<rparr>)))"

definition Portal_Stabilize :: "Portal \<Rightarrow> time \<Rightarrow> Config \<Rightarrow> Portal res" where
  "Portal_Stabilize p now cfg =
     (if Portal_IsTerminal p then Fail ErrPortalNotOpen
      else if p_Stability p = PortalStable then Fail ErrPortalAlreadyStable
      else if f_less (StabilizeMaxStartEnergy cfg) (Portal_CurrentEnergy p now)
           then Fail ErrPortalOverchargeRisk
      else Ok (p\<lparr>p_Stability := PortalStable, p_InstabilityCollapseAt := None,
                 p_EnergyBase := f_add (Portal_CurrentEnergy p now) (StabilizeBoost cfg),
                 p_EnergyBaseAt := now, p_UpdatedAt := now\<rparr>))"

section \<open>Creatures\<close>

definition MaxCreaturesForTTL :: "int \<Rightarrow> Config \<Rightarrow> int res" where
  "MaxCreaturesForTTL ttl cfg =
     rbind (go_quot (wrap64 (ttl - CreatureClearanceMargin cfg)) (CreatureTransit cfg))
       (\<lambda>maxByTTL. Ok (if maxByTTL < 0 then 0
                       else if CreatureMax cfg < maxByTTL then CreatureMax cfg
                       else maxByTTL))"

definition Portal_CreaturesInside :: "Portal \<Rightarrow> time \<Rightarrow> Config \<Rightarrow> int res" where
  "Portal_CreaturesInside p now cfg =
     (let elapsed = Sub (frozen_now p now) (p_OpenedAt p);
          elapsed = (if elapsed < 0 then 0 else elapsed)
      in rbind (go_quot elapsed (CreatureTransit cfg))
           (\<lambda>passed. let inside = wrap64 (p_CreaturesInitial p - passed)
                     in Ok (if inside < 0 then 0 else inside)))"

definition Portal_Close :: "Portal \<Rightarrow> time \<Rightarrow> bool \<Rightarrow> Config \<Rightarrow> Portal res" where
  "Portal_Close p now confirmCreatureInterrupt cfg =
     (if Portal_IsTerminal p then Fail ErrPortalNotOpen
      else rbind (Portal_CreaturesInside p now cfg)
        (\<lambda>inside. if 0 < inside \<and> \<not> confirmCreatureInterrupt then Fail ErrConfirmationRequired
                  else Ok (p\<lparr>p_Status := PortalStatusClosed,
                             p_TerminationReason := TerminationManualClose,
                             p_ClosedAt := Some now, p_UpdatedAt := now\<rparr>)))"

section \<open>Risk\<close>

datatype RiskLevel = RiskLow | RiskMedium | RiskHigh | RiskCritical

definition Portal_RiskScore :: "Portal \<Rightarrow> time \<Rightarrow> Config \<Rightarrow> f64" where
  "Portal_RiskScore p now cfg =
     (let horizon = Seconds (RiskSafeHorizon cfg);
          effective = Seconds (Portal_EffectiveLifetime p now);
          base = f_mul (f_div (f_sub horizon effective) horizon) (Fin 100);
          base = (if f_less base (Fin 0) then Fin 0 else base);
          score = (if p_Stability p = PortalUnstable
                   then f_add base (RiskInstabilityPenalty cfg) else base)
      in if f_less (Fin 100) score then Fin 100 else score)"

definition risk_band :: "f64 \<Rightarrow> RiskLevel" where
  "risk_band score =
     (if f_le score (Fin 25) then RiskLow
      else if f_le score (Fin 50) then RiskMedium
      else if f_le score (Fin 75) then RiskHigh
      else RiskCritical)"

definition Portal_RiskLevel :: "Portal \<Rightarrow> time \<Rightarrow> Config \<Rightarrow> RiskLevel option" where
  "Portal_RiskLevel p now cfg =
     (if Portal_IsTerminal p then None else Some (risk_band (Portal_RiskScore p now cfg)))"

section \<open>Energy\<close>

text \<open>
  The numeric part of a portal's validity: a nonnegative finite energy and a positive
  finite decay rate, both representable.
\<close>

definition portal_numbers_ok :: "Portal \<Rightarrow> bool" where
  "portal_numbers_ok p \<longleftrightarrow>
     (case (p_EnergyBase p, p_EnergyDecayRate p) of
        (Fin b, Fin d) \<Rightarrow> 0 \<le> b \<and> 0 < d \<and> f64_ok (Fin b) \<and> f64_ok (Fin d)
      | _ \<Rightarrow> False)"

lemma portal_numbers_okE:
  assumes "portal_numbers_ok p"
  obtains b d where "p_EnergyBase p = Fin b" and "p_EnergyDecayRate p = Fin d"
    and "0 \<le> b" and "0 < d" and "f64_ok (Fin b)" and "f64_ok (Fin d)"
  using assms by (auto simp: portal_numbers_ok_def split: f64.splits)

lemma portal_numbers_okI:
  "p_EnergyBase p = Fin b \<Longrightarrow> p_EnergyDecayRate p = Fin d \<Longrightarrow> 0 \<le> b \<Longrightarrow> 0 < d \<Longrightarrow>
   f64_ok (Fin b) \<Longrightarrow> f64_ok (Fin d) \<Longrightarrow> portal_numbers_ok p"
  by (simp add: portal_numbers_ok_def)

text \<open>The elapsed time since the baseline, clamped at zero as the code does.\<close>

definition portal_elapsed :: "Portal \<Rightarrow> time \<Rightarrow> int" where
  "portal_elapsed p now = max 0 (Sub (frozen_now p now) (p_EnergyBaseAt p))"

lemma portal_elapsed_range [simp]:
  "0 \<le> portal_elapsed p now" "int64_range (portal_elapsed p now)"
  using Sub_range [of "frozen_now p now" "p_EnergyBaseAt p"]
  by (auto simp: portal_elapsed_def int64_range_def)

lemma portal_elapsed_mono:
  "\<not> Portal_IsTerminal p \<Longrightarrow> ns t \<le> ns u \<Longrightarrow> portal_elapsed p t \<le> portal_elapsed p u"
  using Sub_mono [of t u "p_EnergyBaseAt p"]
  by (auto simp: portal_elapsed_def frozen_now_def Portal_IsTerminal_def)

text \<open>The energy left of base \<open>b\<close> at decay rate \<open>d\<close> after an elapsed time.\<close>

definition energy_after :: "rat \<Rightarrow> rat \<Rightarrow> int \<Rightarrow> rat" where
  "energy_after b d elapsed =
     (let used = round64 (seconds_rat elapsed * d)
      in if f64_max < used then 0 else max 0 (round64 (b - used)))"

lemma energy_after_bounds:
  assumes "0 \<le> b" and "0 < d" and "f64_ok (Fin b)" and "0 \<le> e"
  shows "0 \<le> energy_after b d e" and "energy_after b d e \<le> b"
    and "f64_ok (Fin (energy_after b d e))"
proof -
  let ?used = "round64 (seconds_rat e * d)"
  have u: "0 \<le> ?used" using assms seconds_rat_nonneg [of e] by (intro round64_nonneg) simp
  show "0 \<le> energy_after b d e" by (simp add: energy_after_def Let_def)
  have "round64 (b - ?used) \<le> b" using round64_mono [of "b - ?used" b] u assms by simp
  then show le: "energy_after b d e \<le> b" using assms by (simp add: energy_after_def Let_def)
  show "f64_ok (Fin (energy_after b d e))"
    using le assms f64_max_ge0 by (auto simp: energy_after_def Let_def max_def)
qed

lemma energy_after_antimono:
  assumes "0 \<le> b" and "0 < d" and "0 \<le> e" and "e \<le> e'" and "int64_range e'"
  shows "energy_after b d e' \<le> energy_after b d e"
proof -
  have "seconds_rat e \<le> seconds_rat e'" using assms by (intro seconds_rat_mono)
  then have "round64 (seconds_rat e * d) \<le> round64 (seconds_rat e' * d)"
    using assms by (intro round64_mono mult_right_mono) auto
  then have "round64 (b - round64 (seconds_rat e' * d)) \<le> round64 (b - round64 (seconds_rat e * d))"
    and "f64_max < round64 (seconds_rat e * d) \<Longrightarrow> f64_max < round64 (seconds_rat e' * d)"
    by (auto intro: round64_mono)
  then show ?thesis by (auto simp: energy_after_def Let_def)
qed

lemma Portal_CurrentEnergy_eq:
  assumes "p_EnergyBase p = Fin b" and "p_EnergyDecayRate p = Fin d"
    and "0 \<le> b" and "0 < d" and "f64_ok (Fin b)"
  shows "Portal_CurrentEnergy p now = Fin (energy_after b d (portal_elapsed p now))"
proof -
  let ?e = "portal_elapsed p now"
  let ?s = "seconds_rat ?e"
  have e: "(if Sub (frozen_now p now) (p_EnergyBaseAt p) < 0 then 0
      else Sub (frozen_now p now) (p_EnergyBaseAt p)) = ?e"
    by (simp add: portal_elapsed_def max_def)
  have CE: "Portal_CurrentEnergy p now =
      (let energy = f_sub (Fin b) (f_mul (Seconds ?e) (Fin d))
       in if f_less energy (Fin 0) then Fin 0 else energy)"
    by (simp only: Portal_CurrentEnergy_def Let_def e assms)
  have sd: "0 \<le> ?s * d" using assms seconds_rat_nonneg [of ?e] by simp
  have sec: "Seconds ?e = Fin ?s" by (simp add: Seconds_Fin)
  show ?thesis
  proof (cases "f64_max < round64 (?s * d)")
    case True
    have "to_f64 (?s * d) = Inf False"
      using True round64_nonneg [OF sd] by (simp add: to_f64_def)
    then show ?thesis
      using True by (simp add: CE sec f_sub_def energy_after_def)
  next
    case False
    let ?u = "round64 (?s * d)"
    have u: "0 \<le> ?u" "?u \<le> f64_max" using False round64_nonneg [OF sd] by auto
    then have "to_f64 (?s * d) = Fin ?u" by (simp add: to_f64_def)
    moreover have "\<bar>b - ?u\<bar> \<le> f64_max" using u assms by auto
    ultimately show ?thesis
      using False by (simp add: CE sec f_sub_def energy_after_def to_f64_Fin max_def Let_def)
  qed
qed

lemma Portal_CurrentEnergy_Fin:
  assumes "portal_numbers_ok p"
  obtains e b where "Portal_CurrentEnergy p now = Fin e" and "p_EnergyBase p = Fin b"
    and "0 \<le> e" and "e \<le> b" and "f64_ok (Fin e)"
  using assms
  by (elim portal_numbers_okE) (metis Portal_CurrentEnergy_eq energy_after_bounds portal_elapsed_range(1))

text \<open>
  The derived energy of a valid portal lies between zero and its baseline, and while
  the portal is open it never rises as time passes.
\<close>

theorem CurrentEnergy_bounded_antimono:
  assumes "portal_numbers_ok p" and "p_Status p = PortalStatusOpen" and "ns t \<le> ns u"
  shows "f_le (Fin 0) (Portal_CurrentEnergy p u) \<and>
    f_le (Portal_CurrentEnergy p u) (Portal_CurrentEnergy p t) \<and>
    f_le (Portal_CurrentEnergy p t) (p_EnergyBase p)"
proof -
  obtain b d where p: "p_EnergyBase p = Fin b" "p_EnergyDecayRate p = Fin d"
    "0 \<le> b" "0 < d" "f64_ok (Fin b)"
    using assms(1) by (rule portal_numbers_okE)
  note eq = Portal_CurrentEnergy_eq [OF p]
  have "portal_elapsed p t \<le> portal_elapsed p u"
    using assms by (intro portal_elapsed_mono) simp_all
  then have "energy_after b d (portal_elapsed p u) \<le> energy_after b d (portal_elapsed p t)"
    using p by (intro energy_after_antimono) simp_all
  moreover note energy_after_bounds [OF p(3,4,5) portal_elapsed_range(1)]
  ultimately show ?thesis by (simp add: eq p(1))
qed

lemma Portal_CurrentEnergy_at_base:
  assumes "portal_numbers_ok p" and "p_Status p = PortalStatusOpen"
  shows "Portal_CurrentEnergy p (p_EnergyBaseAt p) = p_EnergyBase p"
proof -
  obtain b d where p: "p_EnergyBase p = Fin b" "p_EnergyDecayRate p = Fin d"
    "0 \<le> b" "0 < d" "f64_ok (Fin b)"
    using assms(1) by (rule portal_numbers_okE)
  have "portal_elapsed p (p_EnergyBaseAt p) = 0"
    using assms(2) by (simp add: portal_elapsed_def frozen_now_def Portal_IsTerminal_def)
  then show ?thesis
    using p f64_max_ge0 by (simp add: Portal_CurrentEnergy_eq [OF p] energy_after_def seconds_rat_def)
qed

section \<open>Lifecycle\<close>

text \<open>
  A reference for \<open>lifecycle_deadline\<close>: all moments at which the portal would terminate,
  in the order of their precedence, and among them the first that no other precedes.
\<close>

definition termination_candidates :: "Portal \<Rightarrow> (time \<times> PortalStatus \<times> TerminationReason) list" where
  "termination_candidates p =
     (p_ScheduledCloseAt p, PortalStatusClosed, TerminationNaturalClose) #
     (case Portal_EnergyDepletionAt p of
        Some t \<Rightarrow> [(t, PortalStatusCollapsed, TerminationEnergyDepleted)] | None \<Rightarrow> []) @
     (case p_InstabilityCollapseAt p of
        Some t \<Rightarrow> if p_Stability p = PortalUnstable
                  then [(t, PortalStatusCollapsed, TerminationInstability)] else []
      | None \<Rightarrow> [])"

definition earliest_candidates :: "Portal \<Rightarrow> (time \<times> PortalStatus \<times> TerminationReason) list" where
  "earliest_candidates p =
     filter (\<lambda>c. \<forall>c' \<in> set (termination_candidates p). ns (fst c) \<le> ns (fst c'))
       (termination_candidates p)"

lemma lifecycle_deadline_earliest:
  "earliest_candidates p \<noteq> [] \<and> lifecycle_deadline p = hd (earliest_candidates p)"
  by (auto simp: earliest_candidates_def termination_candidates_def lifecycle_deadline_def Let_def
      split: option.splits)

lemma lifecycle_deadline_cases:
  "lifecycle_deadline p = (p_ScheduledCloseAt p, PortalStatusClosed, TerminationNaturalClose) \<or>
   (\<exists>t. lifecycle_deadline p = (t, PortalStatusCollapsed, TerminationEnergyDepleted) \<and>
        Portal_EnergyDepletionAt p = Some t \<and> ns t < ns (p_ScheduledCloseAt p)) \<or>
   (\<exists>t. lifecycle_deadline p = (t, PortalStatusCollapsed, TerminationInstability) \<and>
        p_InstabilityCollapseAt p = Some t \<and> p_Stability p = PortalUnstable \<and>
        ns t < ns (p_ScheduledCloseAt p))"
  by (auto simp: lifecycle_deadline_def Let_def split: option.splits)

lemma lifecycle_deadline_cong:
  assumes "p_ScheduledCloseAt q = p_ScheduledCloseAt p" and "p_EnergyBase q = p_EnergyBase p"
    and "p_EnergyBaseAt q = p_EnergyBaseAt p" and "p_EnergyDecayRate q = p_EnergyDecayRate p"
    and "p_Stability q = p_Stability p" and "p_InstabilityCollapseAt q = p_InstabilityCollapseAt p"
  shows "lifecycle_deadline q = lifecycle_deadline p"
  by (simp only: lifecycle_deadline_def Portal_EnergyDepletionAt_def assms)

lemma ResolveLifecycle_terminal: "Portal_IsTerminal p \<Longrightarrow> Portal_ResolveLifecycle p now = (False, p)"
  by (simp add: Portal_ResolveLifecycle_def)

lemma ResolveLifecycle_unchanged: "Portal_ResolveLifecycle p now = (False, q) \<Longrightarrow> q = p"
  by (auto simp: Portal_ResolveLifecycle_def split: if_splits prod.splits)

lemma ResolveLifecycle_changedE:
  assumes "Portal_ResolveLifecycle p now = (True, q)"
  obtains deadline status reason
  where "p_Status p = PortalStatusOpen"
    and "lifecycle_deadline p = (deadline, status, reason)" and "ns deadline \<le> ns now"
    and "status = PortalStatusClosed \<or> status = PortalStatusCollapsed"
    and "q = p\<lparr>p_Status := status, p_TerminationReason := reason,
               p_ClosedAt := Some deadline, p_UpdatedAt := now\<rparr>"
proof -
  obtain deadline status reason where d: "lifecycle_deadline p = (deadline, status, reason)"
    by (cases "lifecycle_deadline p") auto
  have "status = PortalStatusClosed \<or> status = PortalStatusCollapsed"
    using lifecycle_deadline_cases [of p] d by auto
  then show thesis
    using that [of deadline status reason] assms d
    by (auto simp: Portal_ResolveLifecycle_def split: if_splits)
qed

text \<open>
  An open portal terminates exactly when the earliest of its termination moments has
  been reached, at that semantic moment and with that moment's reason; on ties the
  natural close precedes the energy depletion, which precedes the instability.
\<close>

theorem ResolveLifecycle_earliest_moment:
  assumes "p_Status p = PortalStatusOpen"
  shows "(case hd (earliest_candidates p) of (deadline, status, reason) \<Rightarrow>
           Portal_ResolveLifecycle p now =
             (if ns deadline \<le> ns now
              then (True, p\<lparr>p_Status := status, p_TerminationReason := reason,
                            p_ClosedAt := Some deadline, p_UpdatedAt := now\<rparr>)
              else (False, p)))"
  using assms lifecycle_deadline_earliest [of p]
  by (auto simp: Portal_ResolveLifecycle_def Portal_IsTerminal_def split: prod.splits)

text \<open>
  The outcome does not depend on when the ticks happen to run.  Resolving at an
  earlier time first leaves the final status, reason and closing moment as a single
  resolution at the later time gives them.
\<close>

theorem ResolveLifecycle_schedule_independent:
  assumes "ns t \<le> ns u"
  shows "(let once = snd (Portal_ResolveLifecycle p u);
              twice = snd (Portal_ResolveLifecycle (snd (Portal_ResolveLifecycle p t)) u)
          in twice\<lparr>p_UpdatedAt := p_UpdatedAt once\<rparr> = once)"
proof (cases "Portal_IsTerminal p")
  case True
  then show ?thesis by (simp add: ResolveLifecycle_terminal)
next
  case False
  obtain d st r where d: "lifecycle_deadline p = (d, st, r)" by (cases "lifecycle_deadline p") auto
  have "st \<noteq> PortalStatusOpen" using lifecycle_deadline_cases [of p] d by auto
  then show ?thesis
    using assms False d
    by (auto simp: Portal_ResolveLifecycle_def Portal_IsTerminal_def Let_def)
qed

lemma ResolveLifecycle_twice_fields:
  assumes "ns t \<le> ns u"
  shows "let once = snd (Portal_ResolveLifecycle p u);
             twice = snd (Portal_ResolveLifecycle (snd (Portal_ResolveLifecycle p t)) u)
         in p_ID twice = p_ID once \<and> p_DestinationPlaneID twice = p_DestinationPlaneID once \<and>
            p_Status twice = p_Status once \<and> p_ClosedAt twice = p_ClosedAt once"
proof (cases "Portal_IsTerminal p")
  case True
  then show ?thesis by (simp add: ResolveLifecycle_terminal)
next
  case False
  obtain d st r where d: "lifecycle_deadline p = (d, st, r)" by (cases "lifecycle_deadline p") auto
  have "st \<noteq> PortalStatusOpen" using lifecycle_deadline_cases [of p] d by auto
  then show ?thesis
    using assms False d
    by (auto simp: Portal_ResolveLifecycle_def Portal_IsTerminal_def Let_def)
qed

section \<open>Stabilizing and closing\<close>

text \<open>
  C15: \<open>Stabilize\<close> accepts exactly an open, not yet stable portal whose energy is at most
  the configured maximum; it then clears the hidden collapse and the energy at that
  instant is the energy before plus the boost.
\<close>

theorem Stabilize_effect:
  assumes "portal_numbers_ok p"
    and "StabilizeBoost cfg = Fin boost" and "0 \<le> boost"
    and "StabilizeMaxStartEnergy cfg = Fin start" and "start + boost \<le> f64_max"
  shows "(case Portal_Stabilize p now cfg of
            Ok q \<Rightarrow> p_Status p = PortalStatusOpen \<and> p_Stability p \<noteq> PortalStable \<and>
                    f_le (Portal_CurrentEnergy p now) (Fin start) \<and>
                    p_Status q = PortalStatusOpen \<and> p_Stability q = PortalStable \<and>
                    p_InstabilityCollapseAt q = None \<and>
                    Portal_CurrentEnergy q now = f_add (Portal_CurrentEnergy p now) (Fin boost) \<and>
                    f_le (p_EnergyBase q) (f_add (Fin start) (Fin boost)) \<and> portal_numbers_ok q
          | Fail e \<Rightarrow> e = (if p_Status p \<noteq> PortalStatusOpen then ErrPortalNotOpen
                          else if p_Stability p = PortalStable then ErrPortalAlreadyStable
                          else ErrPortalOverchargeRisk)
          | Panic \<Rightarrow> False)"
proof (cases "Portal_Stabilize p now cfg")
  case (Ok q)
  obtain e b where e: "Portal_CurrentEnergy p now = Fin e" "0 \<le> e" "f64_ok (Fin e)"
    using assms(1) by (rule Portal_CurrentEnergy_Fin)
  from Ok have q: "q = p\<lparr>p_Stability := PortalStable, p_InstabilityCollapseAt := None,
      p_EnergyBase := f_add (Fin e) (Fin boost), p_EnergyBaseAt := now, p_UpdatedAt := now\<rparr>"
    and "p_Status p = PortalStatusOpen" "p_Stability p \<noteq> PortalStable" and le: "e \<le> start"
    using assms e by (auto simp: Portal_Stabilize_def not_less Portal_IsTerminal_def split: if_splits)
  have "\<bar>e + boost\<bar> \<le> f64_max" using e le assms by simp
  then have sum: "to_f64 (e + boost) = Fin (round64 (e + boost))" by (rule to_f64_Fin)
  obtain d where d: "p_EnergyDecayRate p = Fin d" "0 < d" "f64_ok (Fin d)"
    using assms(1) by (rule portal_numbers_okE)
  have ok: "portal_numbers_ok q"
  proof (rule portal_numbers_okI [of q "round64 (e + boost)" d])
    show "0 \<le> round64 (e + boost)" using e assms by (intro round64_nonneg) simp
    show "f64_ok (Fin (round64 (e + boost)))" using f64_ok_to_f64 sum by metis
  qed (simp_all add: q sum d del: f64_ok.simps)
  have "Portal_CurrentEnergy q now = p_EnergyBase q"
    using Portal_CurrentEnergy_at_base [OF ok] \<open>p_Status p = PortalStatusOpen\<close> by (simp add: q)
  moreover have "f_le (p_EnergyBase q) (f_add (Fin start) (Fin boost))"
    using le to_f64_mono [of "e + boost" "start + boost"] by (simp add: q)
  ultimately show ?thesis
    using Ok ok \<open>p_Status p = PortalStatusOpen\<close> \<open>p_Stability p \<noteq> PortalStable\<close> e le by (simp add: q)
qed (auto simp: Portal_Stabilize_def Portal_IsTerminal_def split: if_splits)

lemma Portal_Stabilize_OkE:
  assumes "Portal_Stabilize p now cfg = Ok q"
  obtains "p_Status p = PortalStatusOpen" and "p_Stability p \<noteq> PortalStable"
    and "\<not> f_less (StabilizeMaxStartEnergy cfg) (Portal_CurrentEnergy p now)"
    and "q = p\<lparr>p_Stability := PortalStable, p_InstabilityCollapseAt := None,
               p_EnergyBase := f_add (Portal_CurrentEnergy p now) (StabilizeBoost cfg),
               p_EnergyBaseAt := now, p_UpdatedAt := now\<rparr>"
  using assms by (auto simp: Portal_Stabilize_def Portal_IsTerminal_def split: if_splits)

lemma Portal_Close_OkE:
  assumes "Portal_Close p now confirm cfg = Ok q"
  obtains "p_Status p = PortalStatusOpen"
    and "q = p\<lparr>p_Status := PortalStatusClosed, p_TerminationReason := TerminationManualClose,
               p_ClosedAt := Some now, p_UpdatedAt := now\<rparr>"
  using assms by (auto simp: Portal_Close_def Portal_IsTerminal_def split: if_splits)

section \<open>Creatures\<close>

lemma Portal_CreaturesInside_eq:
  assumes "0 < CreatureTransit cfg" and "0 \<le> p_CreaturesInitial p" and "int64_range (p_CreaturesInitial p)"
  shows "Portal_CreaturesInside p now cfg =
    Ok (max 0 (p_CreaturesInitial p - max 0 (Sub (frozen_now p now) (p_OpenedAt p)) div CreatureTransit cfg))"
proof -
  let ?el = "max 0 (Sub (frozen_now p now) (p_OpenedAt p))"
  have el: "(if Sub (frozen_now p now) (p_OpenedAt p) < 0 then 0
      else Sub (frozen_now p now) (p_OpenedAt p)) = ?el" by (simp add: max_def)
  have r: "int64_range ?el" "0 \<le> ?el"
    using Sub_range [of "frozen_now p now" "p_OpenedAt p"] by (auto simp: int64_range_def)
  have q: "go_quot ?el (CreatureTransit cfg) = (Ok (?el div CreatureTransit cfg) :: int res)"
    using r assms by (intro go_quot_nonneg)
  have "0 \<le> ?el div CreatureTransit cfg" using r assms by (simp add: pos_imp_zdiv_nonneg_iff)
  moreover have "?el div CreatureTransit cfg \<le> ?el" 
    using zdiv_mono2 [of ?el 1 "CreatureTransit cfg"] r assms by simp
  ultimately have "wrap64 (p_CreaturesInitial p - ?el div CreatureTransit cfg) =
      p_CreaturesInitial p - ?el div CreatureTransit cfg"
    using r assms by (intro wrap64_id) (auto simp: int64_range_def)
  then show ?thesis
    by (simp only: Portal_CreaturesInside_def Let_def el q rbind.simps) (simp add: max_def)
qed

text \<open>
  The creature count chosen at opening respects the clearance margin: with at most
  \<open>MaxCreaturesForTTL\<close> creatures and no early closing, the corridor is empty no later
  than the margin before the scheduled close, or from the start when the lifetime is
  shorter than the margin.
\<close>

theorem creatures_cleared_before_close:
  assumes "0 < CreatureTransit cfg" and "0 \<le> CreatureClearanceMargin cfg" and "0 \<le> ttl"
    and "int64_range ttl" and "int64_range (CreatureClearanceMargin cfg)"
    and "int64_range (p_CreaturesInitial p)"
    and "MaxCreaturesForTTL ttl cfg = Ok m" and "0 \<le> p_CreaturesInitial p" and "p_CreaturesInitial p \<le> m"
    and "p_Status p = PortalStatusOpen"
    and "ns (p_OpenedAt p) + max 0 (ttl - CreatureClearanceMargin cfg) \<le> ns now"
  shows "Portal_CreaturesInside p now cfg = Ok 0"
proof -
  let ?span = "ttl - CreatureClearanceMargin cfg"
  let ?el = "max 0 (Sub (frozen_now p now) (p_OpenedAt p))"
  have span: "int64_range ?span" using assms by (auto simp: int64_range_def)
  have w: "wrap64 ?span = ?span" by (rule wrap64_id [OF span])
  have f: "frozen_now p now = now" using assms(10) by (simp add: frozen_now_def Portal_IsTerminal_def)
  have m: "m \<le> max 0 (?span div CreatureTransit cfg)"
  proof (cases "0 \<le> ?span")
    case True
    have "go_quot ?span (CreatureTransit cfg) = (Ok (?span div CreatureTransit cfg) :: int res)"
      by (rule go_quot_nonneg [OF span True assms(1)])
    then show ?thesis
      using assms(7) by (auto simp: MaxCreaturesForTTL_def w split: if_splits)
  next
    case False
    then have neg: "?span sdiv CreatureTransit cfg \<le> 0"
      using assms(1) by (simp add: signed_divide_int_def sgn_if pos_imp_zdiv_nonneg_iff)
    have "\<bar>?span sdiv CreatureTransit cfg\<bar> \<le> \<bar>?span\<bar>"
      using sdiv_int_range [of ?span "CreatureTransit cfg"] by auto
    then have "int64_range (?span sdiv CreatureTransit cfg)"
      using neg span False by (auto simp: int64_range_def)
    then show ?thesis
      using assms(1,7) neg by (auto simp: MaxCreaturesForTTL_def go_quot_def w wrap64_id split: if_splits)
  qed
  have "max 0 ?span \<le> ?el"
    using assms(11) span Sub_mono [of "Add (p_OpenedAt p) (max 0 ?span)" now "p_OpenedAt p"]
    by (auto simp: f int64_range_def max_def)
  then have "max 0 ?span div CreatureTransit cfg \<le> ?el div CreatureTransit cfg"
    using assms(1) by (intro zdiv_mono1)
  moreover have "max 0 (?span div CreatureTransit cfg) \<le> max 0 ?span div CreatureTransit cfg"
  proof (cases "0 \<le> ?span")
    case True
    then show ?thesis using assms(1) pos_imp_zdiv_nonneg_iff [of "CreatureTransit cfg" ?span] by simp
  next
    case False
    then show ?thesis using assms(1) div_neg_pos_less0 [of ?span "CreatureTransit cfg"] by simp
  qed
  ultimately have "p_CreaturesInitial p \<le> ?el div CreatureTransit cfg"
    using m assms(9) by linarith
  then show ?thesis
    using Portal_CreaturesInside_eq [OF assms(1,8,6), of now] by simp
qed

section \<open>Risk\<close>

text \<open>
  The remaining lifetime, in nanoseconds, fits a duration.  With the default parameters an
  energy of 100 at the least decay rate lasts 1000 seconds; the bound is 285 years.
\<close>

definition lifetime_fits :: "Portal \<Rightarrow> bool" where
  "lifetime_fits p \<longleftrightarrow>
     (case (p_EnergyBase p, p_EnergyDecayRate p) of
        (Fin b, Fin d) \<Rightarrow> b \<le> 9000000000 * d
      | _ \<Rightarrow> False)"

definition lifetime_ns :: "rat \<Rightarrow> rat \<Rightarrow> int" where
  "lifetime_ns e d = \<lfloor>round64 (round64 (e / d) * 1000000000)\<rfloor>"

lemma lifetime_ns_props:
  assumes "0 \<le> e" and "e \<le> 9000000000 * d" and "0 < d"
  shows "DurationOfSeconds (f_div (Fin e) (Fin d)) = lifetime_ns e d"
    and "0 \<le> lifetime_ns e d" and "lifetime_ns e d \<le> 9000000000000000000"
proof -
  let ?q = "round64 (e / d)"
  have q: "0 \<le> e / d" "e / d \<le> 9000000000" using assms by (auto simp: divide_le_eq)
  then have fin1: "to_f64 (e / d) = Fin ?q" using f64_max_big by (simp add: to_f64_Fin)
  have q': "0 \<le> ?q" "?q \<le> 9000000000"
    using round64_nonneg [OF q(1)] round64_mono [OF q(2)] by simp_all
  let ?n = "round64 (?q * 1000000000)"
  have rep: "round64 9000000000000000000 = (9000000000000000000 :: rat)"
    using round64_scaled [of 4394531250000000 11] by (simp add: pow2_def)
  have big: "9000000000000000000 \<le> f64_max"
  proof -
    have "(9000000000000000000::rat) \<le> of_int (2 ^ 53 - 1) * pow2 11" by (simp add: pow2_def)
    also have "\<dots> \<le> f64_max"
      unfolding f64_max_def by (intro mult_left_mono pow2_mono) simp_all
    finally show ?thesis .
  qed
  have n: "0 \<le> ?q * 1000000000" "?q * 1000000000 \<le> 9000000000000000000" using q' by auto
  have fin2: "to_f64 (?q * 1000000000) = Fin ?n" using n big by (simp add: to_f64_Fin)
  have n': "0 \<le> ?n" "?n \<le> 9000000000000000000"
    using round64_nonneg [OF n(1)] round64_mono [OF n(2)] rep by simp_all
  then have fl: "0 \<le> \<lfloor>?n\<rfloor>" "\<lfloor>?n\<rfloor> \<le> 9000000000000000000"
    by (simp, metis floor_mono floor_numeral)
  then show "0 \<le> lifetime_ns e d" and "lifetime_ns e d \<le> 9000000000000000000"
    by (simp_all add: lifetime_ns_def)
  show "DurationOfSeconds (f_div (Fin e) (Fin d)) = lifetime_ns e d"
    using assms(3) n' fl
    by (simp add: DurationOfSeconds_def fin1 fin2 lifetime_ns_def int64_range_def)
qed

lemma lifetime_ns_mono:
  assumes "e \<le> e'" and "0 < d"
  shows "lifetime_ns e d \<le> lifetime_ns e' d"
  unfolding lifetime_ns_def
  using assms by (intro floor_mono round64_mono mult_right_mono divide_right_mono) auto

lemma EnergyLifetime_eq:
  assumes "p_EnergyBase p = Fin b" and "p_EnergyDecayRate p = Fin d"
    and "0 \<le> b" and "0 < d" and "f64_ok (Fin b)" and "b \<le> 9000000000 * d"
  shows "Portal_EnergyLifetime p now = lifetime_ns (energy_after b d (portal_elapsed p now)) d"
proof -
  note eb = energy_after_bounds [OF assms(3,4,5) portal_elapsed_range(1) [of p now]]
  then have "energy_after b d (portal_elapsed p now) \<le> 9000000000 * d" using assms by linarith
  then show ?thesis
    using assms eb lifetime_ns_props(1)
    by (simp add: Portal_EnergyLifetime_def Portal_CurrentEnergy_eq [OF assms(1-5)])
qed

lemma EffectiveLifetime_props:
  assumes "portal_numbers_ok p" and "lifetime_fits p"
  shows "0 \<le> Portal_EffectiveLifetime p now" and "int64_range (Portal_EffectiveLifetime p now)"
    and "\<not> Portal_IsTerminal p \<Longrightarrow> ns now \<le> ns u \<Longrightarrow>
      Portal_EffectiveLifetime p u \<le> Portal_EffectiveLifetime p now"
proof -
  obtain b d where p: "p_EnergyBase p = Fin b" "p_EnergyDecayRate p = Fin d"
    "0 \<le> b" "0 < d" "f64_ok (Fin b)" and fits: "b \<le> 9000000000 * d"
    using assms by (auto elim!: portal_numbers_okE simp: lifetime_fits_def)
  note eq = EnergyLifetime_eq [OF p fits]
  have bnd: "0 \<le> lifetime_ns (energy_after b d (portal_elapsed p t)) d"
    "lifetime_ns (energy_after b d (portal_elapsed p t)) d \<le> 9000000000000000000" for t
    using energy_after_bounds [OF p(3,4,5) portal_elapsed_range(1) [of p t]] fits p
    by (auto intro!: lifetime_ns_props)
  have sr: "0 \<le> Portal_ScheduledRemaining p now" by (simp add: Portal_ScheduledRemaining_def Let_def)
  show "0 \<le> Portal_EffectiveLifetime p now"
    using bnd sr by (simp add: Portal_EffectiveLifetime_def eq Let_def)
  show "int64_range (Portal_EffectiveLifetime p now)"
    using bnd [of now] sr by (auto simp: Portal_EffectiveLifetime_def eq Let_def int64_range_def)
  assume a: "\<not> Portal_IsTerminal p" "ns now \<le> ns u"
  have "energy_after b d (portal_elapsed p u) \<le> energy_after b d (portal_elapsed p now)"
    using p a by (intro energy_after_antimono portal_elapsed_mono) simp_all
  then have 1: "Portal_EnergyLifetime p u \<le> Portal_EnergyLifetime p now"
    unfolding eq using p by (intro lifetime_ns_mono)
  have 2: "Portal_ScheduledRemaining p u \<le> Portal_ScheduledRemaining p now"
    using a Sub_antimono [of now u "p_ScheduledCloseAt p"]
    by (auto simp: Portal_ScheduledRemaining_def Let_def)
  show "Portal_EffectiveLifetime p u \<le> Portal_EffectiveLifetime p now"
    using 1 2 by (simp add: Portal_EffectiveLifetime_def Let_def)
qed

text \<open>The risk score over exact numbers, with the rounding of each operation.\<close>

definition base_risk_rat :: "rat \<Rightarrow> rat \<Rightarrow> rat" where
  "base_risk_rat h s = max 0 (round64 (round64 (round64 (h - s) / h) * 100))"

definition risk_score_rat :: "rat \<Rightarrow> rat \<Rightarrow> rat \<Rightarrow> bool \<Rightarrow> rat" where
  "risk_score_rat h s penalty unstable =
     min 100 (if unstable then round64 (base_risk_rat h s + penalty) else base_risk_rat h s)"

lemma base_risk_rat_bounds:
  assumes "0 \<le> s" and "0 < h" and "round64 h = h"
  shows "0 \<le> base_risk_rat h s" and "base_risk_rat h s \<le> 100"
proof -
  show "0 \<le> base_risk_rat h s" by (simp add: base_risk_rat_def)
  have "round64 (h - s) \<le> h" using round64_mono [of "h - s" h] assms by simp
  then have "round64 (h - s) / h \<le> 1" using assms by simp
  then have "round64 (round64 (h - s) / h) \<le> 1" using round64_mono [of "round64 (h - s) / h" 1] by simp
  then have "round64 (round64 (round64 (h - s) / h) * 100) \<le> 100"
    using round64_mono [of "round64 (round64 (h - s) / h) * 100" 100] by simp
  then show "base_risk_rat h s \<le> 100" by (simp add: base_risk_rat_def)
qed

lemma base_risk_rat_antimono:
  assumes "s \<le> s'" and "0 < h"
  shows "base_risk_rat h s' \<le> base_risk_rat h s"
  unfolding base_risk_rat_def
  using assms by (intro max.mono round64_mono mult_right_mono divide_right_mono) auto

lemma risk_score_rat_antimono:
  assumes "s \<le> s'" and "0 < h"
  shows "risk_score_rat h s' penalty unstable \<le> risk_score_rat h s penalty unstable"
proof -
  note le = base_risk_rat_antimono [OF assms]
  then have "round64 (base_risk_rat h s' + penalty) \<le> round64 (base_risk_rat h s + penalty)"
    by (intro round64_mono) simp
  with le show ?thesis by (auto simp: risk_score_rat_def)
qed

lemma f64_ok_seconds_rat: "round64 (seconds_rat d) = seconds_rat d"
  by (simp add: seconds_rat_def)

lemma seconds_rat_le:
  assumes "int64_range d" and "0 \<le> d"
  shows "seconds_rat d \<le> 9223372037"
proof -
  have "seconds_rat d \<le> seconds_rat (9223372036 * Second + 854775807)"
    using assms by (intro seconds_rat_mono) (auto simp: int64_range_def)
  also have "\<dots> \<le> 9223372037"
  proof -
    have "round64 (of_int 854775807 / 1000000000) \<le> 1"
      by (rule seconds_frac_bounds) simp_all
    then have "of_int 9223372036 + round64 (of_int 854775807 / 1000000000) \<le> 9223372037" by simp
    then have "round64 (of_int 9223372036 + round64 (of_int 854775807 / 1000000000)) \<le> round64 9223372037"
      by (rule round64_mono)
    then show ?thesis by (simp add: seconds_rat_def)
  qed
  finally show ?thesis .
qed

text \<open>
  The quotient stays finite because a positive horizon is at least a nanosecond.
\<close>

lemma seconds_rat_pos_ge:
  assumes "0 < d" and "int64_range d"
  shows "1 / 2000000000 \<le> seconds_rat d"
proof -
  have "seconds_rat 1 \<le> seconds_rat d" using assms by (intro seconds_rat_mono) simp_all
  moreover have "seconds_rat 1 = round64 (1 / 1000000000)"
    by (simp add: seconds_rat_def)
  moreover have "pow2 (- 30) \<le> 1 / 1000000000" by (simp add: pow2_def)
  then have "round64 (of_int 1 * pow2 (- 30)) \<le> round64 (1 / 1000000000)"
    by (intro round64_mono) simp
  then have "pow2 (- 30) \<le> round64 (1 / 1000000000)" by (subst (asm) round64_scaled) simp_all
  moreover have "1 / 2000000000 \<le> pow2 (- 30)" by (simp add: pow2_def)
  ultimately show ?thesis by linarith
qed

lemma base_risk_Fin:
  assumes s: "0 \<le> s" "s \<le> 9223372037" and h: "1 / 2000000000 \<le> h" "h \<le> 9223372037"
    and rep: "round64 h = h"
  shows "(let base = f_mul (f_div (f_sub (Fin h) (Fin s)) (Fin h)) (Fin 100)
          in if f_less base (Fin 0) then Fin 0 else base) = Fin (base_risk_rat h s)"
proof -
  have bnd: "\<bar>round64 x\<bar> \<le> pow2 k \<and> to_f64 x = Fin (round64 x)"
    if "\<bar>x\<bar> \<le> pow2 k" "0 \<le> k" "k \<le> 200" for x k
  proof -
    have r: "round64 (pow2 k) = pow2 k" using round64_scaled [of 1 k] that by simp
    have "round64 x \<le> pow2 k" "- pow2 k \<le> round64 x"
      using round64_mono [of x "pow2 k"] round64_mono [of "- pow2 k" x] that
      by (auto simp: round64_minus r abs_le_iff)
    moreover have "pow2 k \<le> 1 * pow2 971" using that pow2_mono [of k 971] by simp
    then have "pow2 k \<le> f64_max"
      unfolding f64_max_def by (rule order_trans) (intro mult_right_mono, simp_all add: less_imp_le)
    ultimately show ?thesis using that by (auto simp: to_f64_Fin abs_le_iff)
  qed
  have h0: "0 < h" using h by linarith
  have "\<bar>h - s\<bar> \<le> pow2 40" using s h by (auto simp: pow2_def)
  then have 1: "\<bar>round64 (h - s)\<bar> \<le> pow2 40" "to_f64 (h - s) = Fin (round64 (h - s))"
    using bnd [of "h - s" 40] by auto
  have "\<bar>round64 (h - s) / h\<bar> \<le> pow2 40 / (1 / 2000000000)"
    using 1 h h0 by (simp only: abs_divide abs_of_pos) (intro frac_le, auto)
  also have "\<dots> \<le> pow2 80" by (simp add: pow2_def)
  finally have 2: "\<bar>round64 (round64 (h - s) / h)\<bar> \<le> pow2 80"
    "to_f64 (round64 (h - s) / h) = Fin (round64 (round64 (h - s) / h))"
    using bnd [of "round64 (h - s) / h" 80] by auto
  have "\<bar>round64 (round64 (h - s) / h) * 100\<bar> \<le> pow2 80 * 100"
    using 2 by (simp add: abs_mult)
  also have "\<dots> \<le> pow2 100" by (simp add: pow2_def)
  finally have 3: "to_f64 (round64 (round64 (h - s) / h) * 100) =
      Fin (round64 (round64 (round64 (h - s) / h) * 100))"
    using bnd [of "round64 (round64 (h - s) / h) * 100" 100] by auto
  show ?thesis using h0 1 2 3 by (simp add: f_sub_def base_risk_rat_def max_def)
qed

definition risk_config_ok :: "Config \<Rightarrow> bool" where
  "risk_config_ok cfg \<longleftrightarrow>
     0 < RiskSafeHorizon cfg \<and> int64_range (RiskSafeHorizon cfg) \<and>
     (case RiskInstabilityPenalty cfg of Fin q \<Rightarrow> 0 \<le> q \<and> q \<le> 9007199254740992 | _ \<Rightarrow> False)"

lemma Portal_RiskScore_eq:
  assumes "portal_numbers_ok p" and "lifetime_fits p" and "risk_config_ok cfg"
    and "RiskInstabilityPenalty cfg = Fin penalty"
  shows "Portal_RiskScore p now cfg =
    Fin (risk_score_rat (seconds_rat (RiskSafeHorizon cfg))
           (seconds_rat (Portal_EffectiveLifetime p now)) penalty (p_Stability p = PortalUnstable))"
proof -
  let ?h = "seconds_rat (RiskSafeHorizon cfg)"
  let ?s = "seconds_rat (Portal_EffectiveLifetime p now)"
  note el = EffectiveLifetime_props [OF assms(1,2)]
  have h: "1 / 2000000000 \<le> ?h" "?h \<le> 9223372037"
    using assms(3) seconds_rat_pos_ge [of "RiskSafeHorizon cfg"] seconds_rat_le [of "RiskSafeHorizon cfg"]
    by (simp_all add: risk_config_ok_def)
  have s: "0 \<le> ?s" "?s \<le> 9223372037"
    using el by (auto intro: seconds_rat_nonneg seconds_rat_le)
  have secs: "Seconds (RiskSafeHorizon cfg) = Fin ?h" "Seconds (Portal_EffectiveLifetime p now) = Fin ?s"
    using el assms(3) by (auto simp: risk_config_ok_def Seconds_Fin)
  have pen: "0 \<le> penalty" "penalty \<le> 9007199254740992" using assms(3,4) by (auto simp: risk_config_ok_def)
  note base = base_risk_Fin [OF s h f64_ok_seconds_rat]
  have bb: "0 \<le> base_risk_rat ?h ?s" "base_risk_rat ?h ?s \<le> 100"
    using base_risk_rat_bounds [of ?s ?h] s h f64_ok_seconds_rat by auto
  have add: "to_f64 (base_risk_rat ?h ?s + penalty) = Fin (round64 (base_risk_rat ?h ?s + penalty))"
  proof (rule to_f64_Fin)
    have "(9007199254741092 :: rat) \<le> of_int (2 ^ 53 - 1) * pow2 971"
    proof -
      have "(9007199254741092 :: rat) \<le> of_int (2 ^ 53 - 1) * pow2 1" by (simp add: pow2_def)
      also have "\<dots> \<le> of_int (2 ^ 53 - 1) * pow2 971" by (intro mult_left_mono pow2_mono) simp_all
      finally show ?thesis .
    qed
    then show "\<bar>base_risk_rat ?h ?s + penalty\<bar> \<le> f64_max"
      using bb pen unfolding f64_max_def by linarith
  qed
  have "Portal_RiskScore p now cfg =
    (let score = (if p_Stability p = PortalUnstable
                  then f_add (Fin (base_risk_rat ?h ?s)) (Fin penalty) else Fin (base_risk_rat ?h ?s))
     in if f_less (Fin 100) score then Fin 100 else score)"
    unfolding Portal_RiskScore_def secs assms(4) using base by (simp only: Let_def)
  then show ?thesis
    using add by (auto simp: risk_score_rat_def min_def)
qed

text \<open>
  The risk score of an open portal always lies between 0 and 100 and never falls as
  time passes; so the risk level, too, only worsens until the portal is acted upon.
\<close>

theorem RiskScore_bounded_mono:
  assumes "portal_numbers_ok p" and "lifetime_fits p" and "risk_config_ok cfg"
    and "p_Status p = PortalStatusOpen" and "ns t \<le> ns u"
  shows "f_le (Fin 0) (Portal_RiskScore p t cfg) \<and>
    f_le (Portal_RiskScore p t cfg) (Portal_RiskScore p u cfg) \<and>
    f_le (Portal_RiskScore p u cfg) (Fin 100)"
proof -
  let ?h = "seconds_rat (RiskSafeHorizon cfg)"
  let ?s = "\<lambda>x. seconds_rat (Portal_EffectiveLifetime p x)"
  obtain penalty where pen: "RiskInstabilityPenalty cfg = Fin penalty" "0 \<le> penalty"
    using assms(3) by (auto simp: risk_config_ok_def split: f64.splits)
  note eq = Portal_RiskScore_eq [OF assms(1,2,3) pen(1)]
  note el = EffectiveLifetime_props [OF assms(1,2)]
  have h: "0 < ?h"
    using assms(3) seconds_rat_pos_ge [of "RiskSafeHorizon cfg"] by (auto simp: risk_config_ok_def)
  have le: "?s u \<le> ?s t"
    using el assms(4,5) by (intro seconds_rat_mono) simp_all
  have b: "0 \<le> base_risk_rat ?h (?s t)"
    using el h f64_ok_seconds_rat by (intro base_risk_rat_bounds) (simp_all add: seconds_rat_nonneg)
  have "0 \<le> round64 (base_risk_rat ?h (?s t) + penalty)"
    using b pen by (intro round64_nonneg) simp
  then have "0 \<le> risk_score_rat ?h (?s t) penalty (p_Stability p = PortalUnstable)"
    using b by (simp add: risk_score_rat_def)
  moreover have "risk_score_rat ?h (?s t) penalty (p_Stability p = PortalUnstable)
      \<le> risk_score_rat ?h (?s u) penalty (p_Stability p = PortalUnstable)"
    using le h by (rule risk_score_rat_antimono)
  ultimately show ?thesis unfolding eq by (simp add: risk_score_rat_def)
qed

lemma risk_band_Fin:
  "risk_band (Fin x) = (if x \<le> 25 then RiskLow else if x \<le> 50 then RiskMedium
     else if x \<le> 75 then RiskHigh else RiskCritical)"
  by (simp add: risk_band_def)

lemma RiskLevel_open:
  "p_Status p = PortalStatusOpen \<Longrightarrow> Portal_RiskLevel p now cfg = Some (risk_band (Portal_RiskScore p now cfg))"
  by (simp add: Portal_RiskLevel_def Portal_IsTerminal_def)

section \<open>Concrete instances\<close>

definition demo_portal :: Portal where
  "demo_portal = \<lparr>p_ID = 1, p_Name = ''Mirrodin 1'', p_SlotIndex = 0, p_Kind = PortalKindNatural,
     p_DestinationPlaneID = 1, p_EnergyBase = Fin 100, p_EnergyBaseAt = Time 0 True,
     p_EnergyDecayRate = Fin 1, p_Stability = PortalUnstable,
     p_InstabilityCollapseAt = Some (Time (50 * Second) True), p_OpenedAt = Time 0 True,
     p_ScheduledCloseAt = Time (90 * Second) True, p_CreaturesInitial = 2,
     p_ObserverFlow = PortalFlowNone, p_ExtractionSynchronizedAt = None,
     p_Status = PortalStatusOpen, p_TerminationReason = TerminationNone, p_ClosedAt = None,
     p_CreatedAt = Time 0 True, p_UpdatedAt = Time 0 True\<rparr>"

lemma demo_portal_numbers_ok: "portal_numbers_ok demo_portal" "lifetime_fits demo_portal"
  by (simp_all add: portal_numbers_ok_def lifetime_fits_def demo_portal_def f64_max_numeral f64_max_ge)

lemma risk_config_ok_Default: "risk_config_ok Default"
  by (simp add: risk_config_ok_def Default_def int64_range_def)

theorem CurrentEnergy_bounded_antimono_witness:
  "f_le (Portal_CurrentEnergy demo_portal (Time (20 * Second) True))
        (Portal_CurrentEnergy demo_portal (Time (10 * Second) True))"
  using CurrentEnergy_bounded_antimono
    [of demo_portal "Time (10 * Second) True" "Time (20 * Second) True"] demo_portal_numbers_ok
  by (simp add: demo_portal_def)

lemma demo_portal_depletes: "Portal_EnergyDepletionAt demo_portal = Some (Time (100 * Second) True)"
  by (simp add: Portal_EnergyDepletionAt_def demo_portal_def DurationOfSeconds_def int64_range_def Add_def)

theorem ResolveLifecycle_earliest_moment_witness:
  "snd (Portal_ResolveLifecycle demo_portal (Time (60 * Second) True)) =
     demo_portal\<lparr>p_Status := PortalStatusCollapsed, p_TerminationReason := TerminationInstability,
                 p_ClosedAt := Some (Time (50 * Second) True), p_UpdatedAt := Time (60 * Second) True\<rparr>"
proof -
  have "hd (earliest_candidates demo_portal) =
      (Time (50 * Second) True, PortalStatusCollapsed, TerminationInstability)"
    by (simp add: earliest_candidates_def termination_candidates_def demo_portal_depletes)
      (simp add: demo_portal_def)
  moreover have "p_Status demo_portal = PortalStatusOpen" by (simp add: demo_portal_def)
  ultimately show ?thesis
    using ResolveLifecycle_earliest_moment [of demo_portal "Time (60 * Second) True"] by simp
qed

theorem ResolveLifecycle_schedule_independent_witness:
  "(let once = snd (Portal_ResolveLifecycle demo_portal (Time (60 * Second) True));
        twice = snd (Portal_ResolveLifecycle (snd (Portal_ResolveLifecycle demo_portal
                  (Time (55 * Second) True))) (Time (60 * Second) True))
    in twice\<lparr>p_UpdatedAt := p_UpdatedAt once\<rparr> = once)"
  by (rule ResolveLifecycle_schedule_independent) simp

theorem Stabilize_effect_witness:
  "\<exists>q. Portal_Stabilize demo_portal (Time (40 * Second) True) Default = Ok q \<and>
       p_Stability q = PortalStable \<and> portal_numbers_ok q"
proof -
  have "Portal_CurrentEnergy demo_portal (Time (40 * Second) True) = Fin 60"
    by (simp add: Portal_CurrentEnergy_def frozen_now_def Portal_IsTerminal_def demo_portal_def
        Seconds_whole [of 40, simplified] Sub_def clamp64_def f_sub_def)
  then have e: "\<not> f_less (StabilizeMaxStartEnergy Default) (Portal_CurrentEnergy demo_portal (Time (40 * Second) True))"
    by (simp add: Default_def)
  then obtain q where q: "Portal_Stabilize demo_portal (Time (40 * Second) True) Default = Ok q"
    by (simp add: Portal_Stabilize_def Portal_IsTerminal_def demo_portal_def)
  have cfg: "StabilizeBoost Default = Fin 15" "StabilizeMaxStartEnergy Default = Fin 85"
    by (simp_all add: Default_def)
  show ?thesis
    using Stabilize_effect [OF demo_portal_numbers_ok(1) cfg(1) _ cfg(2), of "Time (40 * Second) True"] 
    by (simp add: q [simplified] f64_max_numeral)
qed

theorem creatures_cleared_before_close_witness:
  "Portal_CreaturesInside demo_portal (Time (80 * Second) True) Default = Ok 0"
proof -
  have m: "MaxCreaturesForTTL (20 * Second) Default = Ok 9"
    by (simp add: MaxCreaturesForTTL_def Default_def go_quot_nonneg int64_range_def)
  show ?thesis
    by (rule creatures_cleared_before_close [OF _ _ _ _ _ _ m])
      (simp_all add: Default_def demo_portal_def int64_range_def)
qed

theorem RiskScore_bounded_mono_witness:
  "f_le (Portal_RiskScore demo_portal (Time (10 * Second) True) Default)
        (Portal_RiskScore demo_portal (Time (20 * Second) True) Default)"
  using RiskScore_bounded_mono
    [of demo_portal Default "Time (10 * Second) True" "Time (20 * Second) True"]
    demo_portal_numbers_ok risk_config_ok_Default
  by (simp add: demo_portal_def)

end
