(* ===== verification/RandomSource.thy ===== *)
theory RandomSource
  imports GoTime Errors
begin

text \<open>
  \<open>internal/random/random.go\<close>: the interface \<open>Random\<close>, the production implementation
  \<open>RealRandom\<close> over a generator of the standard library, and the transactional boundary
  \<open>Checkpointable\<close>.  A draw takes the generator's state and returns the value with the
  next state, or panics.  The interface value may be nil (\<open>None\<close>), where a draw panics.
\<close>

section \<open>The interface\<close>

record 'r Random =
  IntInclusive :: "'r \<Rightarrow> int \<Rightarrow> int \<Rightarrow> (int \<times> 'r) res"
  FloatRange :: "'r \<Rightarrow> f64 \<Rightarrow> f64 \<Rightarrow> (f64 \<times> 'r) res"

type_synonym 'r rnd = "'r Random option"

definition drawInt :: "'r rnd \<Rightarrow> 'r \<Rightarrow> int \<Rightarrow> int \<Rightarrow> (int \<times> 'r) res" where
  "drawInt rnd s mn mx = (case rnd of None \<Rightarrow> Panic | Some R \<Rightarrow> IntInclusive R s mn mx)"

definition drawFloat :: "'r rnd \<Rightarrow> 'r \<Rightarrow> f64 \<Rightarrow> f64 \<Rightarrow> (f64 \<times> 'r) res" where
  "drawFloat rnd s mn mx = (case rnd of None \<Rightarrow> Panic | Some R \<Rightarrow> FloatRange R s mn mx)"

text \<open>
  What the interface's comment promises of an implementation, as far as the callers use
  it: a non-empty range of nonnegative bounds yields a value inside the closed range.
\<close>

locale random_source =
  fixes R :: "'r Random"
  assumes IntInclusive_in_range:
    "0 \<le> mn \<Longrightarrow> mn \<le> mx \<Longrightarrow> mx < 9223372036854775807 \<Longrightarrow>
       \<exists>v s'. IntInclusive R s mn mx = Ok (v, s') \<and> mn \<le> v \<and> v \<le> mx"
    and FloatRange_in_range:
    "f64_ok (Fin lo) \<Longrightarrow> f64_ok (Fin hi) \<Longrightarrow> 0 \<le> lo \<Longrightarrow> lo \<le> hi \<Longrightarrow>
       \<exists>v s'. FloatRange R s (Fin lo) (Fin hi) = Ok (Fin v, s') \<and> f64_ok (Fin v) \<and> lo \<le> v \<and> v \<le> hi"
begin

lemma drawInt_cases:
  assumes "0 \<le> mn" and "mn \<le> mx" and "mx < 9223372036854775807"
  obtains v s' where "drawInt (Some R) s mn mx = Ok (v, s')" and "mn \<le> v" and "v \<le> mx"
  using IntInclusive_in_range [OF assms, of s] by (auto simp: drawInt_def)

lemma drawFloat_cases:
  assumes "f64_ok (Fin lo)" and "f64_ok (Fin hi)" and "0 \<le> lo" and "lo \<le> hi"
  obtains v s' where "drawFloat (Some R) s (Fin lo) (Fin hi) = Ok (Fin v, s')"
    and "f64_ok (Fin v)" and "lo \<le> v" and "v \<le> hi"
  using FloatRange_in_range [OF assms, of s] by (auto simp: drawFloat_def)

lemma drawInt_bounds:
  assumes "drawInt (Some R) s mn mx = Ok (v, s')" and "0 \<le> mn" and "mn \<le> mx" and "mx < 9223372036854775807"
  shows "mn \<le> v" and "v \<le> mx"
  using IntInclusive_in_range [OF assms(2-4), of s] assms(1) by (auto simp: drawInt_def)

lemma drawFloat_bounds:
  assumes "drawFloat (Some R) s (Fin lo) (Fin hi) = Ok (x, s')"
    and "f64_ok (Fin lo)" and "f64_ok (Fin hi)" and "0 \<le> lo" and "lo \<le> hi"
  obtains v where "x = Fin v" and "f64_ok (Fin v)" and "lo \<le> v" and "v \<le> hi"
  using FloatRange_in_range [OF assms(2-5), of s] assms(1) by (auto simp: drawFloat_def)

end

section \<open>RealRandom\<close>

text \<open>
  \<open>RealRandom\<close> draws from \<open>math/rand/v2\<close>: \<open>intN s n\<close> is \<open>rng.IntN(n)\<close>, which panics
  for \<open>n \<le> 0\<close> and else returns a value in \<open>[0, n)\<close>; \<open>float64 s\<close> is \<open>rng.Float64()\<close>, a
  multiple of \<open>2 ^ -53\<close> in \<open>[0, 1)\<close>.  Both are parameters of the model.
\<close>

definition RealRandom ::
  "('s \<Rightarrow> int \<Rightarrow> int \<times> 's) \<Rightarrow> ('s \<Rightarrow> f64 \<times> 's) \<Rightarrow> 's Random" where
  "RealRandom intN float64 = \<lparr>
     IntInclusive = (\<lambda>s mn mx.
       if mx < mn then Panic
       else let n = wrap64 (wrap64 (mx - mn) + 1)
            in if n \<le> 0 then Panic
               else (case intN s n of (v, s') \<Rightarrow> Ok (wrap64 (v + mn), s'))),
     FloatRange = (\<lambda>s mn mx.
       if f_less mx mn then Panic
       else (case float64 s of (u, s') \<Rightarrow> Ok (f_add (f_mul u (f_sub mx mn)) mn, s')))\<rparr>"

lemma round_even_error: "\<bar>of_int (round_even y) - y\<bar> \<le> 1 / 2"
proof -
  have "of_int \<lfloor>y\<rfloor> \<le> y" and "y < of_int \<lfloor>y\<rfloor> + 1" using floor_correct [of y] by auto
  then show ?thesis by (auto simp: round_even_def Let_def abs_le_iff)
qed

lemma round_pos_error: "\<bar>round_pos x - x\<bar> \<le> ulp x / 2"
proof -
  have "round_pos x - x = (of_int (round_even (x / ulp x)) - x / ulp x) * ulp x"
    by (simp add: round_pos_def algebra_simps)
  then have "\<bar>round_pos x - x\<bar> = \<bar>of_int (round_even (x / ulp x)) - x / ulp x\<bar> * ulp x"
    by (simp add: abs_mult less_imp_le)
  also have "\<dots> \<le> 1 / 2 * ulp x"
    using round_even_error ulp_pos [of x] by (intro mult_right_mono) (auto simp: less_imp_le)
  finally show ?thesis by simp
qed

text \<open>The difference of two floats below the least normal number is exact.\<close>

lemma float_multiple_of_least:
  assumes "round64 a = a"
  obtains n where "a = of_int n * pow2 (- 1074)"
proof -
  obtain n e where "- 1074 \<le> e" and "round64 a = of_int n * pow2 e" by (rule round64_form [of a])
  moreover have "pow2 e = pow2 (e + 1074) * pow2 (- 1074)" by (simp flip: pow2_add)
  ultimately have "a = of_int (n * 2 ^ nat (e + 1074)) * pow2 (- 1074)"
    using assms by (simp add: pow2_def [of "e + 1074"])
  then show thesis by (rule that)
qed

lemma round64_diff_small:
  assumes "round64 a = a" and "round64 b = b" and "0 \<le> a - b" and "a - b \<le> pow2 (- 1022)"
  shows "round64 (a - b) = a - b"
proof -
  obtain m where m: "a = of_int m * pow2 (- 1074)" using assms(1) by (rule float_multiple_of_least)
  obtain n where n: "b = of_int n * pow2 (- 1074)" using assms(2) by (rule float_multiple_of_least)
  have d: "a - b = of_int (m - n) * pow2 (- 1074)" by (simp add: m n algebra_simps)
  have "pow2 (- 1022) = of_int (2 ^ 52) * pow2 (- 1074)"
    using pow2_add [of 52 "- 1074"] by (simp add: pow2_def [of 52])
  then have "of_int (m - n) \<le> (of_int (2 ^ 52) :: rat)"
    using assms(4) d pow2_pos [of "- 1074"] by (simp del: of_int_power of_int_diff)
  then have "m - n \<le> 2 ^ 52" by (simp only: of_int_le_iff)
  moreover have "0 \<le> (of_int (m - n) :: rat)"
    using assms(3) d pow2_pos [of "- 1074"] by (simp add: zero_le_mult_iff del: of_int_diff)
  then have "0 \<le> m - n" by (simp only: of_int_0_le_iff)
  ultimately show ?thesis unfolding d by (intro round64_scaled) simp_all
qed

text \<open>
  Scaling a rounded difference by a factor below one never exceeds the exact difference:
  else both would round to the same float, closer to it than the factor allows.
\<close>

lemma round64_scaled_diff_le:
  assumes a: "round64 a = a" and b: "round64 b = b" and "b \<le> a"
    and u: "0 \<le> u" "u \<le> 1 - pow2 (- 53)"
  shows "round64 (u * round64 (a - b)) \<le> a - b"
proof (rule ccontr)
  define d where "d = a - b"
  define d' where "d' = round64 d"
  define x where "x = u * d'"
  define r where "r = round64 x"
  assume "\<not> ?thesis"
  then have rd: "d < r" by (simp add: d_def d'_def x_def r_def)
  have d0: "0 \<le> d" using assms by (simp add: d_def)
  then have d'0: "0 \<le> d'" unfolding d'_def by (rule round64_nonneg)
  have u1: "u \<le> 1" using u pow2_pos [of "- 53"] by linarith
  have xd: "x \<le> d'" using u1 d'0 by (simp add: x_def mult_left_le_one_le u)
  have "r \<le> d'" using round64_mono [OF xd] by (simp add: r_def d'_def)
  moreover have "d' \<le> r" using round64_mono [of d r] rd by (simp add: r_def d'_def)
  ultimately have dr: "d' = r" by simp
  then have dd: "d < d'" using rd by simp
  then have d'pos: "0 < d'" using d0 by linarith
  have x0: "0 < x"
  proof (rule ccontr)
    assume "\<not> 0 < x"
    then have "r \<le> 0" unfolding r_def by (intro round64_nonpos) simp
    then show False using rd d0 by linarith
  qed
  have err: "d' - x \<le> ulp x / 2"
    using round_pos_error [of x] x0 dr by (simp add: r_def round64_def abs_if split: if_splits)
  have gap: "d' * pow2 (- 53) \<le> d' - x"
    using mult_left_mono [OF u(2) d'0] by (simp add: x_def algebra_simps)
  show False
  proof (cases "ilog2 x - 52 < - 1074")
    case True
    then have ulp: "ulp x = pow2 (- 1074)" by (simp add: ulp_def)
    have "ilog2 x + 1 \<le> - 1022" using True by simp
    then have x_small: "x < pow2 (- 1022)"
      using ilog2_bounds(2) [OF x0] pow2_mono [of "ilog2 x + 1" "- 1022"] by linarith
    have "r \<le> round64 (of_int 1 * pow2 (- 1022))"
      unfolding r_def using x_small by (intro round64_mono) simp
    then have "r \<le> pow2 (- 1022)" by (subst (asm) round64_scaled) simp_all
    then have "d \<le> pow2 (- 1022)" using rd by linarith
    then have "d' = d"
      unfolding d'_def d_def using a b d0 by (intro round64_diff_small) (simp_all add: d_def)
    then show False using dd by simp
  next
    case False
    then have "ulp x = pow2 (ilog2 x - 52)" by (simp add: ulp_def)
    then have "ulp x / 2 = pow2 (ilog2 x) * pow2 (- 53)"
      using pow2_add [of "ilog2 x - 52" "- 1"] pow2_add [of "ilog2 x" "- 53"]
      by (simp add: pow2_def [of "- 1"])
    also have "\<dots> \<le> x * pow2 (- 53)"
      using ilog2_bounds(1) [OF x0] by (intro mult_right_mono) (auto simp: less_imp_le)
    finally have "d' * pow2 (- 53) \<le> x * pow2 (- 53)" using err gap by linarith
    then have "d' \<le> x" by simp
    then have "x = d'" using xd by simp
    then have "d' * pow2 (- 53) \<le> 0" using gap by simp
    then show False using d'pos mult_pos_pos [OF d'pos pow2_pos [of "- 53"]] by linarith
  qed
qed

lemma float_range_bounds:
  assumes lo: "f64_ok (Fin lo)" and hi: "f64_ok (Fin hi)" and "0 \<le> lo" and "lo \<le> hi"
    and u: "0 \<le> u" "u \<le> 1 - pow2 (- 53)"
  shows "\<exists>v. f_add (f_mul (Fin u) (f_sub (Fin hi) (Fin lo))) (Fin lo) = Fin v \<and>
             f64_ok (Fin v) \<and> lo \<le> v \<and> v \<le> hi"
proof -
  have d: "0 \<le> hi - lo" "hi - lo \<le> hi" using assms by auto
  then have "\<bar>hi - lo\<bar> \<le> f64_max" using hi by simp
  then have sub: "f_sub (Fin hi) (Fin lo) = Fin (round64 (hi - lo))"
    by (simp add: f_sub_def to_f64_Fin)
  let ?d = "round64 (hi - lo)"
  have d0: "0 \<le> ?d" using d by (intro round64_nonneg)
  have dh: "?d \<le> hi" using round64_mono [OF d(2)] hi by simp
  have u1: "u \<le> 1" using u pow2_pos [of "- 53"] by linarith
  have ud: "0 \<le> u * ?d" "u * ?d \<le> ?d" using u u1 d0 by (auto simp: mult_left_le_one_le)
  then have "\<bar>u * ?d\<bar> \<le> f64_max" using dh hi by simp
  then have mul: "f_mul (Fin u) (Fin ?d) = Fin (round64 (u * ?d))" by (simp add: to_f64_Fin)
  let ?r = "round64 (u * ?d)"
  have r0: "0 \<le> ?r" using ud by (intro round64_nonneg)
  have rl: "?r \<le> hi - lo" using lo hi assms(4) u by (intro round64_scaled_diff_le) simp_all
  have "\<bar>?r + lo\<bar> \<le> f64_max" using r0 rl assms(3) hi by simp
  then have add: "f_add (Fin ?r) (Fin lo) = Fin (round64 (?r + lo))" by (simp add: to_f64_Fin)
  have "lo \<le> round64 (?r + lo)" using round64_mono [of lo "?r + lo"] r0 lo by simp
  moreover have "round64 (?r + lo) \<le> hi" using round64_mono [of "?r + lo" hi] rl hi by simp
  moreover have "f64_ok (Fin (round64 (?r + lo)))"
    using f64_ok_add [of "Fin ?r" "Fin lo"] by (simp only: add)
  ultimately show ?thesis using sub mul add by (intro exI [of _ "round64 (?r + lo)"]) simp
qed

text \<open>
  With a generator that keeps the documented contract of the standard library, \<open>RealRandom\<close>
  implements the interface.
\<close>

definition go_generator :: "('s \<Rightarrow> int \<Rightarrow> int \<times> 's) \<Rightarrow> ('s \<Rightarrow> f64 \<times> 's) \<Rightarrow> bool" where
  "go_generator intN float64 \<longleftrightarrow>
     (\<forall>s n. 0 < n \<longrightarrow> 0 \<le> fst (intN s n) \<and> fst (intN s n) < n) \<and>
     (\<forall>s. \<exists>k. fst (float64 s) = Fin (of_int k * pow2 (- 53)) \<and> 0 \<le> k \<and> k < 2 ^ 53)"

lemma RealRandom_random_source:
  assumes "go_generator intN float64"
  shows "random_source (RealRandom intN float64)"
proof
  fix s and mn mx :: int
  assume b: "0 \<le> mn" "mn \<le> mx" "mx < 9223372036854775807"
  have n: "wrap64 (wrap64 (mx - mn) + 1) = mx - mn + 1" using b by simp
  obtain v s' where v: "intN s (mx - mn + 1) = (v, s')" by (cases "intN s (mx - mn + 1)")
  have "0 < mx - mn + 1" using b by simp
  then have "0 \<le> fst (intN s (mx - mn + 1)) \<and> fst (intN s (mx - mn + 1)) < mx - mn + 1"
    using assms by (simp only: go_generator_def)
  then have "0 \<le> v" "v < mx - mn + 1" using v by auto
  then show "\<exists>v s'. IntInclusive (RealRandom intN float64) s mn mx = Ok (v, s') \<and> mn \<le> v \<and> v \<le> mx"
    using b n v by (simp add: RealRandom_def Let_def)
next
  fix s lo hi
  assume b: "f64_ok (Fin lo)" "f64_ok (Fin hi)" "0 \<le> lo" "lo \<le> hi"
  have "\<exists>k. fst (float64 s) = Fin (of_int k * pow2 (- 53)) \<and> 0 \<le> k \<and> k < 2 ^ 53"
    using assms by (simp only: go_generator_def)
  then obtain k where k: "fst (float64 s) = Fin (of_int k * pow2 (- 53))" "0 \<le> k" "k < 2 ^ 53"
    by blast
  obtain s' where s': "float64 s = (Fin (of_int k * pow2 (- 53)), s')"
    using k(1) by (cases "float64 s") simp
  have "of_int k \<le> (of_int (2 ^ 53 - 1) :: rat)" using k by (simp only: of_int_le_iff zle_diff1_eq)
  then have "of_int k * pow2 (- 53) \<le> of_int (2 ^ 53 - 1) * pow2 (- 53)"
    by (intro mult_right_mono) (auto simp: less_imp_le)
  also have "\<dots> = 1 - pow2 (- 53)" by (simp add: pow2_def)
  finally have "of_int k * pow2 (- 53) \<le> 1 - pow2 (- 53)" .
  moreover have "0 \<le> of_int k * pow2 (- 53)" using k by (simp add: less_imp_le)
  ultimately obtain v where
    "f_add (f_mul (Fin (of_int k * pow2 (- 53))) (f_sub (Fin hi) (Fin lo))) (Fin lo) = Fin v"
    "f64_ok (Fin v)" "lo \<le> v" "v \<le> hi"
    using float_range_bounds [OF b] by blast
  then show "\<exists>v s'. FloatRange (RealRandom intN float64) s (Fin lo) (Fin hi) = Ok (Fin v, s') \<and>
      f64_ok (Fin v) \<and> lo \<le> v \<and> v \<le> hi"
    using b s' by (simp add: RealRandom_def del: f64_ok.simps)
qed

section \<open>The random source of an availability check\<close>

text \<open>\<open>availabilityRandom\<close> of \<open>action_availability.go\<close> returns the lower bound.\<close>

definition availabilityRandom :: "unit Random" where
  "availabilityRandom = \<lparr>
     IntInclusive = (\<lambda>s mn _. Ok (mn, s)),
     FloatRange = (\<lambda>s mn _. Ok (mn, s))\<rparr>"

interpretation availability: random_source availabilityRandom
  by unfold_locales (auto simp: availabilityRandom_def)

text \<open>
  Over any generator that keeps the contract of \<open>math/rand/v2\<close>, \<open>RealRandom\<close> gives
  values inside the closed range for every non-empty range, so it implements the
  interface that the factories and the commands rely on.
\<close>

theorem RealRandom_implements_interface:
  assumes "go_generator intN float64"
  shows "(0 \<le> mn \<and> mn \<le> mx \<and> mx < 9223372036854775807 \<longrightarrow>
      (\<exists>v s'. IntInclusive (RealRandom intN float64) s mn mx = Ok (v, s') \<and> mn \<le> v \<and> v \<le> mx)) \<and>
    (f64_ok (Fin lo) \<and> f64_ok (Fin hi) \<and> 0 \<le> lo \<and> lo \<le> hi \<longrightarrow>
      (\<exists>v s'. FloatRange (RealRandom intN float64) s (Fin lo) (Fin hi) = Ok (Fin v, s') \<and>
         f64_ok (Fin v) \<and> lo \<le> v \<and> v \<le> hi))"
  using random_source.IntInclusive_in_range [OF RealRandom_random_source [OF assms], of mn mx s]
    random_source.FloatRange_in_range [OF RealRandom_random_source [OF assms], of lo hi s]
  by blast

definition zero_intN :: "unit \<Rightarrow> int \<Rightarrow> int \<times> unit" where
  "zero_intN s n = (0, s)"

definition top_float64 :: "unit \<Rightarrow> f64 \<times> unit" where
  "top_float64 s = (Fin (9007199254740991 / 9007199254740992), s)"

lemma demo_generator: "go_generator zero_intN top_float64"
  unfolding go_generator_def zero_intN_def top_float64_def
  by (auto intro!: exI [of _ 9007199254740991] simp: pow2_def)

theorem RealRandom_implements_interface_witness:
  "\<exists>v s'. IntInclusive (RealRandom zero_intN top_float64) () 3 9 = Ok (v, s') \<and> 3 \<le> v \<and> v \<le> 9"
  using RealRandom_implements_interface [OF demo_generator, of 3 9] by simp

text \<open>
  The upper bound of \<open>FloatRange\<close> is not exclusive, although its comment says
  \<open>[min, max)\<close>: with the greatest value of \<open>Float64\<close> and the range from 1 to 2 the result
  rounds to 2, and for an interval of equal bounds it is that bound.
\<close>

theorem FloatRange_reaches_max:
  "FloatRange (RealRandom zero_intN top_float64) () (Fin 1) (Fin 2) = Ok (Fin 2, ()) \<and>
   FloatRange (RealRandom zero_intN top_float64) () (Fin 2) (Fin 2) = Ok (Fin 2, ())"
proof -
  let ?u = "9007199254740991 / 9007199254740992 :: rat"
  have u: "to_f64 ?u = Fin ?u" by code_simp
  have u1: "to_f64 (?u + 1) = Fin 2" by code_simp
  have "f_add (f_mul (Fin ?u) (f_sub (Fin 2) (Fin 1))) (Fin 1) = Fin 2"
    "f_add (f_mul (Fin ?u) (f_sub (Fin 2) (Fin 2))) (Fin 2) = Fin 2"
    using u u1 by (simp_all add: f_sub_def)
  then show ?thesis by (simp only: RealRandom_def top_float64_def Random.select_convs f_less.simps prod.case) simp
qed

end
