(* ===== verification/Observer.thy ===== *)
theory Observer
  imports Portal RandomSource
begin

text \<open>
  Observers and planes (\<open>internal/domain/observer.go\<close>, \<open>plane.go\<close>) and the deterministic
  observer lifecycle (\<open>observer_lifecycle.go\<close>).  An observer that is not in the laboratory
  has the plane it is on; during a transit it has the portal it moves through.
\<close>

section \<open>Data\<close>

datatype ObserverStatus =
    ObserverAvailable
  | ObserverOutbound
  | ObserverExploring
  | ObserverWaitingReturn
  | ObserverReturning
  | ObserverLost
  | ObserverStatusOther string

record Observer =
  o_ID :: int
  o_Status :: ObserverStatus
  o_CurrentPlaneID :: "int option"
  o_ActivePortalID :: "int option"
  o_PhaseStartedAt :: "time option"
  o_PhaseEndsAt :: "time option"
  o_CreatedAt :: time
  o_UpdatedAt :: time

record Plane =
  pl_ID :: int
  pl_Name :: string
  pl_Aliases :: "string list"
  pl_CatalogTier :: string
  pl_Explored :: bool
  pl_ExploredAt :: "time option"

definition NewObserver :: "int \<Rightarrow> time \<Rightarrow> Observer" where
  "NewObserver i now =
     \<lparr>o_ID = i, o_Status = ObserverAvailable, o_CurrentPlaneID = None, o_ActivePortalID = None,
      o_PhaseStartedAt = None, o_PhaseEndsAt = None, o_CreatedAt = now, o_UpdatedAt = now\<rparr>"

text \<open>\<open>make\<close> panics on a negative count.\<close>

definition NewObserverRoster :: "int \<Rightarrow> time \<Rightarrow> Observer list res" where
  "NewObserverRoster n now =
     (if n < 0 then Panic else Ok (map (\<lambda>i. NewObserver (int i + 1) now) [0..<nat n]))"

definition Observer_IsTerminal :: "Observer \<Rightarrow> bool" where
  "Observer_IsTerminal ob \<longleftrightarrow> o_Status ob = ObserverLost"

section \<open>Starting a transit\<close>

text \<open>
  \<open>StartOutbound\<close> and \<open>StartReturning\<close> after their checks; the duration is drawn in whole
  seconds.
\<close>

definition drawTransitEnd :: "time \<Rightarrow> 'r rnd \<Rightarrow> Config \<Rightarrow> 'r \<Rightarrow> (time \<times> 'r) res" where
  "drawTransitEnd now rnd cfg r =
     rbind (drawInt rnd r (ObserverTransitMin cfg sdiv Second) (ObserverTransitMax cfg sdiv Second))
       (\<lambda>(durationSeconds, r'). Ok (Add now (wrap64 (durationSeconds * Second)), r'))"

definition StartOutbound :: "Observer \<Rightarrow> time \<Rightarrow> int \<Rightarrow> 'r rnd \<Rightarrow> Config \<Rightarrow> 'r \<Rightarrow> (Observer \<times> 'r) res" where
  "StartOutbound ob now portalID rnd cfg r =
     (if o_Status ob = ObserverLost then Fail ErrObserverLost
      else if o_Status ob \<noteq> ObserverAvailable then Fail ErrObserverNotAvailable
      else rbind (drawTransitEnd now rnd cfg r)
        (\<lambda>(endsAt, r'). Ok (ob\<lparr>o_Status := ObserverOutbound, o_CurrentPlaneID := None,
            o_ActivePortalID := Some portalID, o_PhaseStartedAt := Some now,
            o_PhaseEndsAt := Some endsAt, o_UpdatedAt := now\<rparr>, r')))"

definition StartReturning :: "Observer \<Rightarrow> time \<Rightarrow> int \<Rightarrow> 'r rnd \<Rightarrow> Config \<Rightarrow> 'r \<Rightarrow> (Observer \<times> 'r) res" where
  "StartReturning ob now portalID rnd cfg r =
     (if o_Status ob = ObserverLost then Fail ErrObserverLost
      else if o_Status ob \<noteq> ObserverWaitingReturn then Fail ErrObserverNotWaitingReturn
      else if o_CurrentPlaneID ob = None then Fail ErrObserverInvariant
      else rbind (drawTransitEnd now rnd cfg r)
        (\<lambda>(endsAt, r'). Ok (ob\<lparr>o_Status := ObserverReturning,
            o_ActivePortalID := Some portalID, o_PhaseStartedAt := Some now,
            o_PhaseEndsAt := Some endsAt, o_UpdatedAt := now\<rparr>, r')))"

section \<open>The lifecycle\<close>

text \<open>
  Each resolution step fails before it changes anything, so a step returns the new
  observer and plane, or an error.  The plane and the portal may be absent (nil).
\<close>

definition resolveObserverTransitFailure :: "Observer \<Rightarrow> Portal \<Rightarrow> time \<Rightarrow> (bool \<times> Observer) res" where
  "resolveObserverTransitFailure ob portal now =
     (if p_Status portal = PortalStatusOpen then Ok (False, ob)
      else (case (p_ClosedAt portal, o_PhaseEndsAt ob) of
              (Some closedAt, Some endsAt) \<Rightarrow>
                if \<not> Before closedAt endsAt \<or> Before now closedAt then Ok (False, ob)
                else Ok (True, ob\<lparr>o_Status := ObserverLost, o_CurrentPlaneID := None,
                    o_ActivePortalID := None, o_PhaseStartedAt := None, o_PhaseEndsAt := None,
                    o_UpdatedAt := closedAt\<rparr>)
            | _ \<Rightarrow> Fail ErrObserverInvariant))"

definition resolveObserverOutbound ::
    "Observer \<Rightarrow> Plane option \<Rightarrow> Portal option \<Rightarrow> time \<Rightarrow> Config \<Rightarrow> (Observer \<times> Plane option) res" where
  "resolveObserverOutbound ob plane portal now cfg =
     (case (o_ActivePortalID ob, o_PhaseStartedAt ob, o_PhaseEndsAt ob, plane, portal) of
        (Some portalID, Some _, Some endsAt, Some pl, Some pt) \<Rightarrow>
          if portalID \<noteq> p_ID pt \<or> pl_ID pl \<noteq> p_DestinationPlaneID pt then Fail ErrObserverInvariant
          else rbind (resolveObserverTransitFailure ob pt now)
            (\<lambda>(failed, ob'). if failed then Ok (ob', plane)
               else if Before now endsAt then Ok (ob, plane)
               else Ok (ob\<lparr>o_Status := ObserverExploring, o_CurrentPlaneID := Some (pl_ID pl),
                   o_ActivePortalID := None, o_PhaseStartedAt := Some endsAt,
                   o_PhaseEndsAt := Some (Add endsAt (ResearchDuration cfg)),
                   o_UpdatedAt := endsAt\<rparr>, plane))
      | _ \<Rightarrow> Fail ErrObserverInvariant)"

definition resolveObserverResearch ::
    "Observer \<Rightarrow> Plane option \<Rightarrow> time \<Rightarrow> (Observer \<times> Plane option) res" where
  "resolveObserverResearch ob plane now =
     (case (o_CurrentPlaneID ob, o_PhaseStartedAt ob, o_PhaseEndsAt ob, plane) of
        (Some planeID, Some _, Some endsAt, Some pl) \<Rightarrow>
          if planeID \<noteq> pl_ID pl then Fail ErrObserverInvariant
          else if Before now endsAt then Ok (ob, plane)
          else Ok (ob\<lparr>o_Status := ObserverWaitingReturn, o_ActivePortalID := None,
              o_PhaseStartedAt := Some endsAt, o_PhaseEndsAt := None, o_UpdatedAt := endsAt\<rparr>, plane)
      | _ \<Rightarrow> Fail ErrObserverInvariant)"

definition markExplored :: "Plane \<Rightarrow> time \<Rightarrow> Plane" where
  "markExplored pl returnedAt =
     (if pl_Explored pl then pl else pl\<lparr>pl_Explored := True, pl_ExploredAt := Some returnedAt\<rparr>)"

definition resolveObserverReturning ::
    "Observer \<Rightarrow> Plane option \<Rightarrow> Portal option \<Rightarrow> time \<Rightarrow> (Observer \<times> Plane option) res" where
  "resolveObserverReturning ob plane portal now =
     (case (o_CurrentPlaneID ob, o_ActivePortalID ob, o_PhaseStartedAt ob, o_PhaseEndsAt ob, plane, portal) of
        (Some planeID, Some portalID, Some _, Some endsAt, Some pl, Some pt) \<Rightarrow>
          if planeID \<noteq> pl_ID pl \<or> portalID \<noteq> p_ID pt \<or> pl_ID pl \<noteq> p_DestinationPlaneID pt
          then Fail ErrObserverInvariant
          else rbind (resolveObserverTransitFailure ob pt now)
            (\<lambda>(failed, ob'). if failed then Ok (ob', plane)
               else if Before now endsAt then Ok (ob, plane)
               else Ok (ob\<lparr>o_Status := ObserverAvailable, o_CurrentPlaneID := None,
                   o_ActivePortalID := None, o_PhaseStartedAt := None, o_PhaseEndsAt := None,
                   o_UpdatedAt := endsAt\<rparr>, Some (markExplored pl endsAt)))
      | _ \<Rightarrow> Fail ErrObserverInvariant)"

definition resolveObserverLifecycleOnce ::
    "Observer \<Rightarrow> Plane option \<Rightarrow> Portal option \<Rightarrow> time \<Rightarrow> Config \<Rightarrow> (Observer \<times> Plane option) res" where
  "resolveObserverLifecycleOnce ob plane portal now cfg =
     (case o_Status ob of
        ObserverAvailable \<Rightarrow> Ok (ob, plane)
      | ObserverLost \<Rightarrow> Ok (ob, plane)
      | ObserverOutbound \<Rightarrow> resolveObserverOutbound ob plane portal now cfg
      | ObserverExploring \<Rightarrow> resolveObserverResearch ob plane now
      | ObserverWaitingReturn \<Rightarrow>
          if o_CurrentPlaneID ob = None then Fail ErrObserverInvariant else Ok (ob, plane)
      | ObserverReturning \<Rightarrow> resolveObserverReturning ob plane portal now
      | ObserverStatusOther _ \<Rightarrow> Fail ErrObserverInvariant)"

text \<open>Each repetition of the loop moves the status down this ranking.\<close>

fun phase_rank :: "ObserverStatus \<Rightarrow> nat" where
  "phase_rank ObserverOutbound = 3"
| "phase_rank ObserverExploring = 2"
| "phase_rank ObserverWaitingReturn = 1"
| "phase_rank ObserverReturning = 1"
| "phase_rank _ = 0"

lemma transitFailure_cases:
  assumes "resolveObserverTransitFailure ob pt now = Ok (failed, ob')"
  obtains "\<not> failed" and "ob' = ob"
      and "p_Status pt = PortalStatusOpen \<or>
           (\<exists>c e. p_ClosedAt pt = Some c \<and> o_PhaseEndsAt ob = Some e \<and> (ns e \<le> ns c \<or> ns now < ns c))"
    | c e where failed and "p_Status pt \<noteq> PortalStatusOpen" and "p_ClosedAt pt = Some c"
      and "o_PhaseEndsAt ob = Some e" and "ns c < ns e" and "ns c \<le> ns now"
      and "ob' = ob\<lparr>o_Status := ObserverLost, o_CurrentPlaneID := None, o_ActivePortalID := None,
                   o_PhaseStartedAt := None, o_PhaseEndsAt := None, o_UpdatedAt := c\<rparr>"
  using assms
  by (auto simp: resolveObserverTransitFailure_def not_less split: if_splits option.splits)

lemma Outbound_cases:
  assumes "resolveObserverOutbound ob plane portal now cfg = Ok (ob', plane')"
  shows "plane' = plane \<and> (ob' = ob \<or> o_Status ob' = ObserverLost \<or> o_Status ob' = ObserverExploring)"
proof -
  obtain pid s e pl pt where f: "o_ActivePortalID ob = Some pid" "o_PhaseStartedAt ob = Some s"
    "o_PhaseEndsAt ob = Some e" "plane = Some pl" "portal = Some pt"
    and ids: "\<not> (pid \<noteq> p_ID pt \<or> pl_ID pl \<noteq> p_DestinationPlaneID pt)"
    using assms by (auto simp: resolveObserverOutbound_def split: option.splits if_splits)
  then obtain failed ob1 where t: "resolveObserverTransitFailure ob pt now = Ok (failed, ob1)"
    using assms by (auto simp: resolveObserverOutbound_def)
  then have "failed \<and> o_Status ob1 = ObserverLost \<or> \<not> failed"
    by (cases rule: transitFailure_cases) auto
  then show ?thesis
    using assms f ids t by (cases failed) (auto simp: resolveObserverOutbound_def split: if_splits)
qed

lemma Returning_cases:
  assumes "resolveObserverReturning ob plane portal now = Ok (ob', plane')"
  shows "ob' = ob \<and> plane' = plane \<or> o_Status ob' = ObserverLost \<and> plane' = plane \<or>
    o_Status ob' = ObserverAvailable"
proof -
  obtain plid pid s e pl pt where f: "o_CurrentPlaneID ob = Some plid" "o_ActivePortalID ob = Some pid"
    "o_PhaseStartedAt ob = Some s" "o_PhaseEndsAt ob = Some e" "plane = Some pl" "portal = Some pt"
    and ids: "\<not> (plid \<noteq> pl_ID pl \<or> pid \<noteq> p_ID pt \<or> pl_ID pl \<noteq> p_DestinationPlaneID pt)"
    using assms by (auto simp: resolveObserverReturning_def split: option.splits if_splits)
  then obtain failed ob1 where t: "resolveObserverTransitFailure ob pt now = Ok (failed, ob1)"
    using assms by (auto simp: resolveObserverReturning_def)
  then have "failed \<and> o_Status ob1 = ObserverLost \<or> \<not> failed"
    by (cases rule: transitFailure_cases) auto
  then show ?thesis
    using assms f ids t by (cases failed) (auto simp: resolveObserverReturning_def split: if_splits)
qed

lemma Research_cases:
  assumes "resolveObserverResearch ob plane now = Ok (ob', plane')"
  shows "plane' = plane \<and> (ob' = ob \<or> o_Status ob' = ObserverWaitingReturn)"
  using assms by (auto simp: resolveObserverResearch_def split: option.splits if_splits)

lemma Once_status:
  assumes "resolveObserverLifecycleOnce ob plane portal now cfg = Ok (ob', plane')"
  shows "ob' = ob \<and> plane' = plane \<or> phase_rank (o_Status ob') < phase_rank (o_Status ob)"
  using assms Outbound_cases [of ob plane portal now cfg ob' plane']
    Returning_cases [of ob plane portal now ob' plane'] Research_cases [of ob plane now ob' plane']
  by (cases "o_Status ob") (auto simp: resolveObserverLifecycleOnce_def split: if_splits)

function ResolveObserverLifecycle ::
    "Observer \<Rightarrow> Plane option \<Rightarrow> Portal option \<Rightarrow> time \<Rightarrow> Config \<Rightarrow> (Observer \<times> Plane option) \<times> unit res" where
  "ResolveObserverLifecycle ob plane portal now cfg =
     (case resolveObserverLifecycleOnce ob plane portal now cfg of
        Fail e \<Rightarrow> ((ob, plane), Fail e)
      | Panic \<Rightarrow> ((ob, plane), Panic)
      | Ok (ob', plane') \<Rightarrow>
          if o_Status ob' = o_Status ob then ((ob', plane'), Ok ())
          else ResolveObserverLifecycle ob' plane' portal now cfg)"
  by pat_completeness auto

termination ResolveObserverLifecycle
  by (relation "measure (\<lambda>(ob, _). phase_rank (o_Status ob))") (auto dest!: Once_status)

declare ResolveObserverLifecycle.simps [simp del]

section \<open>What the lifecycle does\<close>

lemma Lifecycle_step:
  "resolveObserverLifecycleOnce ob plane portal now cfg = Ok (ob', plane') \<Longrightarrow>
   ResolveObserverLifecycle ob plane portal now cfg = ResolveObserverLifecycle ob' plane' portal now cfg"
  using Once_status [of ob plane portal now cfg ob' plane']
  by (subst ResolveObserverLifecycle.simps)
    (auto simp: ResolveObserverLifecycle.simps [of ob plane portal now cfg])

lemma Lifecycle_step_to:
  "resolveObserverLifecycleOnce ob plane portal now cfg = Ok x \<Longrightarrow>
   ResolveObserverLifecycle ob plane portal now cfg = ResolveObserverLifecycle (fst x) (snd x) portal now cfg"
  by (cases x) (simp add: Lifecycle_step)

lemma Lifecycle_stop:
  "resolveObserverLifecycleOnce ob plane portal now cfg = Ok (ob, plane) \<Longrightarrow>
   ResolveObserverLifecycle ob plane portal now cfg = ((ob, plane), Ok ())"
  by (simp add: ResolveObserverLifecycle.simps [of ob])

lemma Lifecycle_fail:
  "resolveObserverLifecycleOnce ob plane portal now cfg = Fail e \<Longrightarrow>
   ResolveObserverLifecycle ob plane portal now cfg = ((ob, plane), Fail e)"
  by (simp add: ResolveObserverLifecycle.simps [of ob])

lemma Once_not_Panic [simp]: "resolveObserverLifecycleOnce ob plane portal now cfg \<noteq> Panic"
  by (auto simp: resolveObserverLifecycleOnce_def resolveObserverOutbound_def resolveObserverResearch_def
      resolveObserverReturning_def resolveObserverTransitFailure_def rbind_eq_Panic
      split: ObserverStatus.splits option.splits if_splits prod.splits)

text \<open>Induction over the repetitions of the loop that succeed.\<close>

lemma Lifecycle_induct [consumes 1, case_names stop step]:
  assumes "ResolveObserverLifecycle ob plane portal now cfg = ((ob', plane'), Ok ())"
    and "\<And>ob plane. resolveObserverLifecycleOnce ob plane portal now cfg = Ok (ob, plane) \<Longrightarrow> P ob plane ob plane"
    and "\<And>ob plane ob1 plane1. resolveObserverLifecycleOnce ob plane portal now cfg = Ok (ob1, plane1) \<Longrightarrow>
      o_Status ob1 \<noteq> o_Status ob \<Longrightarrow> P ob1 plane1 ob' plane' \<Longrightarrow> P ob plane ob' plane'"
  shows "P ob plane ob' plane'"
  using assms(1)
proof (induction "phase_rank (o_Status ob)" arbitrary: ob plane rule: less_induct)
  case less
  show ?case
  proof (cases "resolveObserverLifecycleOnce ob plane portal now cfg")
    case (Ok x)
    obtain ob1 plane1 where x: "x = (ob1, plane1)" by (cases x)
    note st = Once_status [OF Ok [unfolded x]]
    show ?thesis
    proof (cases "ob1 = ob \<and> plane1 = plane")
      case True
      then show ?thesis using assms(2) Ok x less.prems Lifecycle_stop [of ob plane portal now cfg] by simp
    next
      case False
      then have rk: "phase_rank (o_Status ob1) < phase_rank (o_Status ob)" using st by auto
      then have "o_Status ob1 \<noteq> o_Status ob" by auto
      moreover have "P ob1 plane1 ob' plane'"
        using less.hyps [OF rk, of plane1] less.prems Lifecycle_step [OF Ok [unfolded x]] by simp
      ultimately show ?thesis using assms(3) Ok x by simp
    qed
  next
    case (Fail e)
    then show ?thesis using less.prems Lifecycle_fail by simp
  qed simp
qed

lemma Lifecycle_fixpoint:
  assumes "ResolveObserverLifecycle ob plane portal now cfg = ((ob', plane'), Ok ())"
  shows "resolveObserverLifecycleOnce ob' plane' portal now cfg = Ok (ob', plane')"
  using assms by (induction rule: Lifecycle_induct)

text \<open>
  C36: the resolution loop ends, and a successful one has exhausted the instant: resolving
  again at the same time changes nothing.
\<close>

theorem ResolveObserver_idempotent:
  assumes "ResolveObserverLifecycle ob plane portal now cfg = ((ob', plane'), Ok ())"
  shows "ResolveObserverLifecycle ob' plane' portal now cfg = ((ob', plane'), Ok ())"
  using Lifecycle_fixpoint [OF assms] by (rule Lifecycle_stop)

section \<open>Outcome of a transit\<close>

text \<open>An observer in transit, with the plane and the portal that its fields name.\<close>

definition in_transit_ok :: "Observer \<Rightarrow> Plane \<Rightarrow> Portal \<Rightarrow> bool" where
  "in_transit_ok ob pl pt \<longleftrightarrow>
     (o_Status ob = ObserverOutbound \<or> o_Status ob = ObserverReturning \<and> o_CurrentPlaneID ob = Some (pl_ID pl)) \<and>
     o_ActivePortalID ob = Some (p_ID pt) \<and> pl_ID pl = p_DestinationPlaneID pt \<and>
     o_PhaseStartedAt ob \<noteq> None \<and> o_PhaseEndsAt ob \<noteq> None \<and>
     (p_Status pt \<noteq> PortalStatusOpen \<longrightarrow> p_ClosedAt pt \<noteq> None)"

definition lost_at :: "Observer \<Rightarrow> time \<Rightarrow> Observer" where
  "lost_at ob c = ob\<lparr>o_Status := ObserverLost, o_CurrentPlaneID := None, o_ActivePortalID := None,
     o_PhaseStartedAt := None, o_PhaseEndsAt := None, o_UpdatedAt := c\<rparr>"

definition exploring_from :: "Observer \<Rightarrow> Plane \<Rightarrow> time \<Rightarrow> Config \<Rightarrow> Observer" where
  "exploring_from ob pl e cfg = ob\<lparr>o_Status := ObserverExploring, o_CurrentPlaneID := Some (pl_ID pl),
     o_ActivePortalID := None, o_PhaseStartedAt := Some e,
     o_PhaseEndsAt := Some (Add e (ResearchDuration cfg)), o_UpdatedAt := e\<rparr>"

definition waiting_from :: "Observer \<Rightarrow> Plane \<Rightarrow> time \<Rightarrow> Observer" where
  "waiting_from ob pl e = ob\<lparr>o_Status := ObserverWaitingReturn, o_CurrentPlaneID := Some (pl_ID pl),
     o_ActivePortalID := None, o_PhaseStartedAt := Some e, o_PhaseEndsAt := None, o_UpdatedAt := e\<rparr>"

definition home_since :: "Observer \<Rightarrow> time \<Rightarrow> Observer" where
  "home_since ob e = ob\<lparr>o_Status := ObserverAvailable, o_CurrentPlaneID := None, o_ActivePortalID := None,
     o_PhaseStartedAt := None, o_PhaseEndsAt := None, o_UpdatedAt := e\<rparr>"

definition closed_before :: "Portal \<Rightarrow> time \<Rightarrow> time \<Rightarrow> bool" where
  "closed_before pt e now \<longleftrightarrow> p_Status pt \<noteq> PortalStatusOpen \<and>
     (case p_ClosedAt pt of Some c \<Rightarrow> ns c < ns e \<and> ns c \<le> ns now | None \<Rightarrow> False)"

lemma transitFailure_eq:
  assumes "o_PhaseEndsAt ob = Some e" and "p_Status pt \<noteq> PortalStatusOpen \<longrightarrow> p_ClosedAt pt \<noteq> None"
  shows "resolveObserverTransitFailure ob pt now =
    (if closed_before pt e now then Ok (True, lost_at ob (the (p_ClosedAt pt))) else Ok (False, ob))"
  using assms
  by (auto simp: resolveObserverTransitFailure_def closed_before_def lost_at_def split: option.splits)

lemma Once_outbound:
  assumes "in_transit_ok ob pl pt" and "o_PhaseEndsAt ob = Some e" and "o_Status ob = ObserverOutbound"
  shows "resolveObserverLifecycleOnce ob (Some pl) (Some pt) now cfg =
    Ok (if closed_before pt e now then lost_at ob (the (p_ClosedAt pt))
        else if ns now < ns e then ob else exploring_from ob pl e cfg, Some pl)"
  using assms
  by (auto simp: in_transit_ok_def resolveObserverLifecycleOnce_def resolveObserverOutbound_def
      transitFailure_eq exploring_from_def)

lemma Once_returning:
  assumes "in_transit_ok ob pl pt" and "o_PhaseEndsAt ob = Some e" and "o_Status ob = ObserverReturning"
  shows "resolveObserverLifecycleOnce ob (Some pl) (Some pt) now cfg =
    Ok (if closed_before pt e now then (lost_at ob (the (p_ClosedAt pt)), Some pl)
        else if ns now < ns e then (ob, Some pl) else (home_since ob e, Some (markExplored pl e)))"
  using assms
  by (auto simp: in_transit_ok_def resolveObserverLifecycleOnce_def resolveObserverReturning_def
      transitFailure_eq home_since_def)

lemma Lifecycle_available [simp]:
  "o_Status ob = ObserverAvailable \<Longrightarrow> ResolveObserverLifecycle ob plane portal now cfg = ((ob, plane), Ok ())"
  by (rule Lifecycle_stop) (simp add: resolveObserverLifecycleOnce_def)

lemma Lifecycle_lost [simp]:
  "o_Status ob = ObserverLost \<Longrightarrow> ResolveObserverLifecycle ob plane portal now cfg = ((ob, plane), Ok ())"
  by (rule Lifecycle_stop) (simp add: resolveObserverLifecycleOnce_def)

lemma Lifecycle_waiting:
  "o_Status ob = ObserverWaitingReturn \<Longrightarrow> o_CurrentPlaneID ob \<noteq> None \<Longrightarrow>
   ResolveObserverLifecycle ob plane portal now cfg = ((ob, plane), Ok ())"
  by (rule Lifecycle_stop) (auto simp: resolveObserverLifecycleOnce_def)

lemma Lifecycle_exploring:
  "ResolveObserverLifecycle (exploring_from ob pl e cfg) (Some pl) portal now cfg =
     ((if ns now < ns e + ResearchDuration cfg then exploring_from ob pl e cfg
       else waiting_from ob pl (Add e (ResearchDuration cfg)), Some pl), Ok ())"
proof -
  have once: "resolveObserverLifecycleOnce (exploring_from ob pl e cfg) (Some pl) portal now cfg =
      Ok (if ns now < ns e + ResearchDuration cfg then exploring_from ob pl e cfg
          else waiting_from ob pl (Add e (ResearchDuration cfg)), Some pl)"
    by (simp add: resolveObserverLifecycleOnce_def resolveObserverResearch_def exploring_from_def waiting_from_def)
  show ?thesis
  proof (cases "ns now < ns e + ResearchDuration cfg")
    case True
    then show ?thesis using Lifecycle_stop once by simp
  next
    case False
    then show ?thesis
      using Lifecycle_step [OF once]
        Lifecycle_waiting [of "waiting_from ob pl (Add e (ResearchDuration cfg))" "Some pl" portal now cfg]
      by (simp add: waiting_from_def)
  qed
qed

lemma Lifecycle_closed_before:
  assumes "in_transit_ok ob pl pt" and "o_PhaseEndsAt ob = Some e" and "closed_before pt e now"
  shows "ResolveObserverLifecycle ob (Some pl) (Some pt) now cfg = ((lost_at ob (the (p_ClosedAt pt)), Some pl), Ok ())"
proof -
  have "o_Status ob = ObserverOutbound \<or> o_Status ob = ObserverReturning"
    using assms(1) by (auto simp: in_transit_ok_def)
  then have "resolveObserverLifecycleOnce ob (Some pl) (Some pt) now cfg =
      Ok (lost_at ob (the (p_ClosedAt pt)), Some pl)"
    using Once_outbound [OF assms(1,2)] Once_returning [OF assms(1,2)] assms(3) by auto
  then show ?thesis by (simp add: Lifecycle_step_to lost_at_def)
qed

text \<open>
  C35: what becomes of an observer in transit.  It is lost, at the closing moment, exactly
  when the portal closed before the transit was due to end; otherwise it stays in transit
  until that end, and then an outbound observer explores for the research duration and
  waits, and a returning one is available again and has made its plane explored.
\<close>

theorem transit_outcome:
  assumes "in_transit_ok ob pl pt" and "o_PhaseEndsAt ob = Some e"
  shows "ResolveObserverLifecycle ob (Some pl) (Some pt) now cfg =
    ((if closed_before pt e now then (lost_at ob (the (p_ClosedAt pt)), Some pl)
      else if ns now < ns e then (ob, Some pl)
      else if o_Status ob = ObserverReturning then (home_since ob e, Some (markExplored pl e))
      else if ns now < ns e + ResearchDuration cfg then (exploring_from ob pl e cfg, Some pl)
      else (waiting_from ob pl (Add e (ResearchDuration cfg)), Some pl)), Ok ())"
proof (cases "o_Status ob = ObserverReturning")
  case True
  note once = Once_returning [OF assms True, of now cfg]
  consider "closed_before pt e now" | "\<not> closed_before pt e now" "ns now < ns e"
    | "\<not> closed_before pt e now" "\<not> ns now < ns e" by blast
  then show ?thesis
  proof cases
    case 2
    then show ?thesis using True once by (simp add: Lifecycle_stop)
  qed (simp_all add: Lifecycle_step_to [OF once] True lost_at_def home_since_def)
next
  case False
  then have "o_Status ob = ObserverOutbound" using assms(1) by (simp add: in_transit_ok_def)
  note once = Once_outbound [OF assms this, of now cfg]
  consider "closed_before pt e now" | "\<not> closed_before pt e now" "ns now < ns e"
    | "\<not> closed_before pt e now" "\<not> ns now < ns e" by blast
  then show ?thesis
  proof cases
    case 2
    then show ?thesis using False once by (simp add: Lifecycle_stop)
  qed (simp_all add: Lifecycle_step_to [OF once] False lost_at_def Lifecycle_exploring)
qed

section \<open>Independence of the tick schedule\<close>

text \<open>A portal as a later resolution finds it: an open one may have closed, but not before \<open>t\<close>.\<close>

definition portal_later :: "time \<Rightarrow> Portal \<Rightarrow> Portal \<Rightarrow> bool" where
  "portal_later t p q \<longleftrightarrow> p_ID q = p_ID p \<and> p_DestinationPlaneID q = p_DestinationPlaneID p \<and>
     (if p_Status p = PortalStatusOpen
      then p_Status q = PortalStatusOpen \<or> (\<exists>c. p_ClosedAt q = Some c \<and> ns t \<le> ns c)
      else p_Status q \<noteq> PortalStatusOpen \<and> p_ClosedAt q = p_ClosedAt p)"

lemma transitFailure_persist:
  assumes "resolveObserverTransitFailure ob p t = Ok (failed, ob')" and "portal_later t p q"
    and "o_PhaseEndsAt ob = Some e" and "failed \<or> ns e \<le> ns t" and "ns t \<le> ns u"
  shows "resolveObserverTransitFailure ob q u = Ok (failed, ob')"
  using assms
  by (auto simp: resolveObserverTransitFailure_def portal_later_def split: if_splits option.splits)

lemma Once_persist:
  assumes "resolveObserverLifecycleOnce ob plane (Some p) t cfg = Ok (ob1, plane1)"
    and "o_Status ob1 \<noteq> o_Status ob" and "portal_later t p q" and "ns t \<le> ns u"
  shows "resolveObserverLifecycleOnce ob plane (Some q) u cfg = Ok (ob1, plane1)"
proof -
  have ids: "p_ID q = p_ID p" "p_DestinationPlaneID q = p_DestinationPlaneID p"
    using assms(3) by (auto simp: portal_later_def)
  consider "o_Status ob = ObserverOutbound" | "o_Status ob = ObserverExploring" | "o_Status ob = ObserverReturning"
    using assms(1,2)
    by (cases "o_Status ob") (auto simp: resolveObserverLifecycleOnce_def split: if_splits)
  then show ?thesis
  proof cases
    case 1
    then obtain s e pl where f: "o_ActivePortalID ob = Some (p_ID p)" "o_PhaseStartedAt ob = Some s"
      "o_PhaseEndsAt ob = Some e" "plane = Some pl" "pl_ID pl = p_DestinationPlaneID p"
      using assms(1) by (auto simp: resolveObserverLifecycleOnce_def resolveObserverOutbound_def
          split: option.splits if_splits)
    obtain failed ob2 where t: "resolveObserverTransitFailure ob p t = Ok (failed, ob2)"
      using assms(1) 1 f by (auto simp: resolveObserverLifecycleOnce_def resolveObserverOutbound_def)
    have "failed \<or> ns e \<le> ns t"
      using assms(1,2) 1 f t
      by (auto simp: resolveObserverLifecycleOnce_def resolveObserverOutbound_def split: if_splits)
    then show ?thesis
      using assms(1,4) 1 f t ids transitFailure_persist [OF t assms(3) f(3) _ assms(4)]
      by (auto simp: resolveObserverLifecycleOnce_def resolveObserverOutbound_def split: if_splits)
  next
    case 2
    then show ?thesis
      using assms(1,2,4)
      by (auto simp: resolveObserverLifecycleOnce_def resolveObserverResearch_def
          split: option.splits if_splits)
  next
    case 3
    then obtain s e pl where f: "o_CurrentPlaneID ob = Some (pl_ID pl)" "o_ActivePortalID ob = Some (p_ID p)"
      "o_PhaseStartedAt ob = Some s" "o_PhaseEndsAt ob = Some e" "plane = Some pl"
      "pl_ID pl = p_DestinationPlaneID p"
      using assms(1) by (auto simp: resolveObserverLifecycleOnce_def resolveObserverReturning_def
          split: option.splits if_splits)
    obtain failed ob2 where t: "resolveObserverTransitFailure ob p t = Ok (failed, ob2)"
      using assms(1) 3 f by (auto simp: resolveObserverLifecycleOnce_def resolveObserverReturning_def)
    have "failed \<or> ns e \<le> ns t"
      using assms(1,2) 3 f t
      by (auto simp: resolveObserverLifecycleOnce_def resolveObserverReturning_def split: if_splits)
    then show ?thesis
      using assms(1,4) 3 f t ids transitFailure_persist [OF t assms(3) f(4) _ assms(4)]
      by (auto simp: resolveObserverLifecycleOnce_def resolveObserverReturning_def split: if_splits)
  qed
qed

lemma Lifecycle_persist:
  assumes "ResolveObserverLifecycle ob plane (Some p) t cfg = ((ob1, plane1), Ok ())"
    and "portal_later t p q" and "ns t \<le> ns u"
  shows "ResolveObserverLifecycle ob1 plane1 (Some q) u cfg = ResolveObserverLifecycle ob plane (Some q) u cfg"
  using assms(1)
proof (induction rule: Lifecycle_induct)
  case (step ob plane ob2 plane2)
  show ?case
    using step(3) Lifecycle_step [OF Once_persist [OF step(1,2) assms(2,3)]] by simp
qed simp

lemma Once_portal_cong:
  assumes "p_ID q = p_ID p" and "p_DestinationPlaneID q = p_DestinationPlaneID p"
    and "p_Status q = p_Status p" and "p_ClosedAt q = p_ClosedAt p"
  shows "resolveObserverLifecycleOnce ob plane (Some q) now cfg = resolveObserverLifecycleOnce ob plane (Some p) now cfg"
proof -
  have tf: "resolveObserverTransitFailure ob q now = resolveObserverTransitFailure ob p now"
    by (simp only: resolveObserverTransitFailure_def assms)
  have "resolveObserverOutbound ob plane (Some q) now cfg = resolveObserverOutbound ob plane (Some p) now cfg"
    "resolveObserverReturning ob plane (Some q) now = resolveObserverReturning ob plane (Some p) now"
    by (simp_all only: resolveObserverOutbound_def resolveObserverReturning_def prod.case option.case tf assms)
  then show ?thesis by (simp only: resolveObserverLifecycleOnce_def)
qed

lemma Lifecycle_portal_cong:
  assumes "p_ID q = p_ID p" and "p_DestinationPlaneID q = p_DestinationPlaneID p"
    and "p_Status q = p_Status p" and "p_ClosedAt q = p_ClosedAt p"
  shows "ResolveObserverLifecycle ob plane (Some q) now cfg = ResolveObserverLifecycle ob plane (Some p) now cfg"
proof (induction "phase_rank (o_Status ob)" arbitrary: ob plane rule: less_induct)
  case less
  show ?case
    using less Once_status [of ob plane "Some p" now cfg]
    by (subst (1 2) ResolveObserverLifecycle.simps)
      (auto simp: Once_portal_cong [OF assms] split: result.splits)
qed

lemma ResolveLifecycle_portal_later:
  assumes "ns t \<le> ns u"
  shows "portal_later t (snd (Portal_ResolveLifecycle p t)) (snd (Portal_ResolveLifecycle p u))"
proof (cases "Portal_IsTerminal p")
  case True
  then show ?thesis by (auto simp: ResolveLifecycle_terminal portal_later_def Portal_IsTerminal_def)
next
  case False
  obtain d st r where d: "lifecycle_deadline p = (d, st, r)" by (cases "lifecycle_deadline p") auto
  have "st \<noteq> PortalStatusOpen" using lifecycle_deadline_cases [of p] d by auto
  then show ?thesis
    using False d assms by (auto simp: Portal_ResolveLifecycle_def Portal_IsTerminal_def portal_later_def)
qed

text \<open>
  C34: ticks may come at any times.  Resolving a portal and the observer in it at \<open>t\<close>, and
  both again at a later \<open>u\<close>, leaves the observer and its plane as one resolution of both
  at \<open>u\<close> does, with the same timestamps.
\<close>

theorem observer_schedule_independent:
  assumes "ResolveObserverLifecycle ob plane (Some (snd (Portal_ResolveLifecycle p t))) t cfg = ((ob1, plane1), Ok ())"
    and "ns t \<le> ns u"
  shows "ResolveObserverLifecycle ob1 plane1
           (Some (snd (Portal_ResolveLifecycle (snd (Portal_ResolveLifecycle p t)) u))) u cfg =
         ResolveObserverLifecycle ob plane (Some (snd (Portal_ResolveLifecycle p u))) u cfg"
proof -
  let ?once = "snd (Portal_ResolveLifecycle p u)"
  let ?twice = "snd (Portal_ResolveLifecycle (snd (Portal_ResolveLifecycle p t)) u)"
  have "p_ID ?twice = p_ID ?once \<and> p_DestinationPlaneID ?twice = p_DestinationPlaneID ?once \<and>
      p_Status ?twice = p_Status ?once \<and> p_ClosedAt ?twice = p_ClosedAt ?once"
    using ResolveLifecycle_twice_fields [OF assms(2), of p] by (simp add: Let_def)
  then have "ResolveObserverLifecycle ob1 plane1 (Some ?twice) u cfg =
      ResolveObserverLifecycle ob1 plane1 (Some ?once) u cfg"
    by (intro Lifecycle_portal_cong) auto
  also have "\<dots> = ResolveObserverLifecycle ob plane (Some ?once) u cfg"
    by (rule Lifecycle_persist [OF assms(1) ResolveLifecycle_portal_later [OF assms(2)] assms(2)])
  finally show ?thesis .
qed

section \<open>Concrete instances\<close>

definition demo_plane :: Plane where
  "demo_plane = \<lparr>pl_ID = 1, pl_Name = ''Mirrodin'', pl_Aliases = [], pl_CatalogTier = ''CANONICAL'',
     pl_Explored = False, pl_ExploredAt = None\<rparr>"

definition demo_outbound :: Observer where
  "demo_outbound = (NewObserver 1 (Time 0 True))\<lparr>o_Status := ObserverOutbound,
     o_ActivePortalID := Some 1, o_PhaseStartedAt := Some (Time 0 True),
     o_PhaseEndsAt := Some (Time (10 * Second) True)\<rparr>"

lemma demo_in_transit: "in_transit_ok demo_outbound demo_plane demo_portal"
  by (simp add: in_transit_ok_def demo_outbound_def demo_plane_def demo_portal_def NewObserver_def)

theorem transit_outcome_witness:
  "ResolveObserverLifecycle demo_outbound (Some demo_plane) (Some demo_portal) (Time (40 * Second) True) Default
   = ((waiting_from demo_outbound demo_plane (Time (30 * Second) True), Some demo_plane), Ok ())"
proof -
  have "o_PhaseEndsAt demo_outbound = Some (Time (10 * Second) True)" by (simp add: demo_outbound_def)
  from transit_outcome [OF demo_in_transit this, of "Time (40 * Second) True" Default]
  show ?thesis
    by (simp add: closed_before_def)
      (simp add: demo_portal_def demo_outbound_def NewObserver_def Default_def Add_def)
qed

theorem observer_schedule_independent_witness:
  "ResolveObserverLifecycle demo_outbound (Some demo_plane)
     (Some (snd (Portal_ResolveLifecycle demo_portal (Time (60 * Second) True)))) (Time (60 * Second) True) Default
   = ResolveObserverLifecycle demo_outbound (Some demo_plane)
     (Some (snd (Portal_ResolveLifecycle (snd (Portal_ResolveLifecycle demo_portal (Time Second True)))
       (Time (60 * Second) True)))) (Time (60 * Second) True) Default"
proof -
  have r: "Portal_ResolveLifecycle demo_portal (Time Second True) = (False, demo_portal)"
    by (simp add: Portal_ResolveLifecycle_def lifecycle_deadline_def demo_portal_depletes Portal_IsTerminal_def)
      (simp add: demo_portal_def)
  have "resolveObserverLifecycleOnce demo_outbound (Some demo_plane) (Some demo_portal) (Time Second True) Default
      = Ok (demo_outbound, Some demo_plane)"
    using Once_outbound [OF demo_in_transit, of "Time (10 * Second) True" "Time Second True" Default]
    by (simp add: closed_before_def demo_portal_def demo_outbound_def)
  then have "ResolveObserverLifecycle demo_outbound (Some demo_plane)
     (Some (snd (Portal_ResolveLifecycle demo_portal (Time Second True)))) (Time Second True) Default
      = ((demo_outbound, Some demo_plane), Ok ())" by (simp add: r [simplified] Lifecycle_stop)
  from observer_schedule_independent [OF this, of "Time (60 * Second) True"]
  show ?thesis by simp
qed

theorem ResolveObserver_idempotent_witness:
  "ResolveObserverLifecycle (NewObserver 1 (Time 0 True)) None None (Time 0 True) Default
   = ((NewObserver 1 (Time 0 True), None), Ok ())"
  by (rule ResolveObserver_idempotent [where ob = "NewObserver 1 (Time 0 True)" and plane = None])
    (simp add: NewObserver_def)

end
