(* ===== verification/Roster.thy ===== *)
theory Roster
  imports Observer
begin

text \<open>
  The roster of observers: its validity and the deterministic selections of
  \<open>internal/domain/observer_commands.go\<close>.  An index that the code returns with \<open>ok\<close> is
  an option.
\<close>

section \<open>Validity\<close>

definition validActiveTransit :: "Observer \<Rightarrow> time \<Rightarrow> bool" where
  "validActiveTransit ob now =
     (case (o_ActivePortalID ob, o_PhaseStartedAt ob, o_PhaseEndsAt ob) of
        (Some _, Some startedAt, Some endsAt) \<Rightarrow> Before startedAt endsAt \<and> Before now endsAt
      | _ \<Rightarrow> False)"

text \<open>The cases of the switch in \<open>validateObserverRoster\<close>; true where it does not return.\<close>

fun observer_fields_ok :: "Observer \<Rightarrow> time \<Rightarrow> bool" where
  "observer_fields_ok ob now =
     (case o_Status ob of
        ObserverAvailable \<Rightarrow> o_CurrentPlaneID ob = None \<and> o_ActivePortalID ob = None \<and>
          o_PhaseStartedAt ob = None \<and> o_PhaseEndsAt ob = None
      | ObserverLost \<Rightarrow> o_CurrentPlaneID ob = None \<and> o_ActivePortalID ob = None \<and>
          o_PhaseStartedAt ob = None \<and> o_PhaseEndsAt ob = None
      | ObserverOutbound \<Rightarrow> o_CurrentPlaneID ob = None \<and> validActiveTransit ob now
      | ObserverExploring \<Rightarrow> o_CurrentPlaneID ob \<noteq> None \<and> o_ActivePortalID ob = None \<and>
          (case (o_PhaseStartedAt ob, o_PhaseEndsAt ob) of
             (Some startedAt, Some endsAt) \<Rightarrow> \<not> Before endsAt startedAt
           | _ \<Rightarrow> False)
      | ObserverWaitingReturn \<Rightarrow> o_CurrentPlaneID ob \<noteq> None \<and> o_ActivePortalID ob = None \<and>
          o_PhaseStartedAt ob \<noteq> None \<and> o_PhaseEndsAt ob = None
      | ObserverReturning \<Rightarrow> o_CurrentPlaneID ob \<noteq> None \<and> validActiveTransit ob now
      | ObserverStatusOther _ \<Rightarrow> False)"

declare observer_fields_ok.simps [simp del]

definition validateObserverRoster :: "Observer list \<Rightarrow> time \<Rightarrow> unit res" where
  "validateObserverRoster observers now =
     map_result (\<lambda>_. ())
       (foldM (\<lambda>ids ob. if o_ID ob \<in> ids then Fail ErrObserverInvariant
                        else if \<not> observer_fields_ok ob now then Fail ErrObserverInvariant
                        else Ok (insert (o_ID ob) ids)) {} observers)"

text \<open>The same as a predicate.\<close>

definition roster_ok :: "Observer list \<Rightarrow> time \<Rightarrow> bool" where
  "roster_ok observers now \<longleftrightarrow>
     distinct (map o_ID observers) \<and> (\<forall>ob\<in>set observers. observer_fields_ok ob now)"

lemma validateObserverRoster_eq:
  "validateObserverRoster observers now = (if roster_ok observers now then Ok () else Fail ErrObserverInvariant)"
proof -
  have "map_result (\<lambda>_. ())
      (foldM (\<lambda>ids ob. if o_ID ob \<in> ids then Fail ErrObserverInvariant
                       else if \<not> observer_fields_ok ob now then Fail ErrObserverInvariant
                       else Ok (insert (o_ID ob) ids)) ids observers) =
    (if distinct (map o_ID observers) \<and> set (map o_ID observers) \<inter> ids = {} \<and>
        (\<forall>ob\<in>set observers. observer_fields_ok ob now) then Ok () else Fail ErrObserverInvariant)" for ids
    by (induction observers arbitrary: ids) auto
  then show ?thesis by (simp add: validateObserverRoster_def roster_ok_def)
qed

lemma roster_ok_mem: "roster_ok observers now \<Longrightarrow> ob \<in> set observers \<Longrightarrow> observer_fields_ok ob now"
  by (simp add: roster_ok_def)

lemma roster_ok_nth: "roster_ok observers now \<Longrightarrow> i < length observers \<Longrightarrow> observer_fields_ok (observers ! i) now"
  by (simp add: roster_ok_def)

lemma roster_ok_update:
  assumes "roster_ok observers now" and "i < length observers"
    and "o_ID ob = o_ID (observers ! i)" and "observer_fields_ok ob now"
  shows "roster_ok (observers[i := ob]) now"
  using assms by (auto simp: roster_ok_def map_list_update_same dest: set_update_subset_insert [THEN subsetD])

section \<open>Selections\<close>

definition AvailableObserverIndex :: "Observer list \<Rightarrow> nat option" where
  "AvailableObserverIndex observers =
     fold (\<lambda>i selected.
         if o_Status (observers ! i) \<noteq> ObserverAvailable then selected
         else (case selected of
                 None \<Rightarrow> Some i
               | Some j \<Rightarrow> if o_ID (observers ! i) < o_ID (observers ! j) then Some i else selected))
       [0..<length observers] None"

definition LongestWaitingObserverIndex :: "Observer list \<Rightarrow> int \<Rightarrow> nat option res" where
  "LongestWaitingObserverIndex observers planeID =
     foldM (\<lambda>selected i.
         let ob = observers ! i
         in if o_Status ob \<noteq> ObserverWaitingReturn then Ok selected
            else (case (o_CurrentPlaneID ob, o_PhaseStartedAt ob) of
                    (Some plane, Some startedAt) \<Rightarrow>
                      if plane \<noteq> planeID then Ok selected
                      else (case selected of
                              None \<Rightarrow> Ok (Some i)
                            | Some j \<Rightarrow>
                                (case o_PhaseStartedAt (observers ! j) of
                                   None \<Rightarrow> Panic
                                 | Some best \<Rightarrow>
                                     if Before startedAt best \<or>
                                        (Equal startedAt best \<and> o_ID ob < o_ID (observers ! j))
                                     then Ok (Some i) else Ok selected))
                  | _ \<Rightarrow> Fail ErrObserverInvariant))
       None [0..<length observers]"

definition ActiveTransitObserverIndex :: "Observer list \<Rightarrow> int \<Rightarrow> time \<Rightarrow> nat option res" where
  "ActiveTransitObserverIndex observers portalID now =
     foldM (\<lambda>selected i.
         let ob = observers ! i
         in if o_Status ob \<noteq> ObserverOutbound \<and> o_Status ob \<noteq> ObserverReturning then Ok selected
            else (case (o_ActivePortalID ob, o_PhaseStartedAt ob, o_PhaseEndsAt ob) of
                    (Some active, Some startedAt, Some endsAt) \<Rightarrow>
                      if o_Status ob = ObserverOutbound \<and> o_CurrentPlaneID ob \<noteq> None
                      then Fail ErrObserverInvariant
                      else if o_Status ob = ObserverReturning \<and> o_CurrentPlaneID ob = None
                      then Fail ErrObserverInvariant
                      else if active \<noteq> portalID then Ok selected
                      else if \<not> Before startedAt endsAt \<or> \<not> Before now endsAt
                      then Fail ErrObserverInvariant
                      else if selected \<noteq> None then Fail ErrObserverInvariant
                      else Ok (Some i)
                  | _ \<Rightarrow> Fail ErrObserverInvariant))
       None [0..<length observers]"

text \<open>A scan that keeps the least element by a strict order, the first one on ties.\<close>

lemma fold_select_least:
  fixes key :: "nat \<Rightarrow> 'k::linorder"
  assumes "r = fold (\<lambda>i selected. if \<not> P i then selected
      else (case selected of None \<Rightarrow> Some i | Some j \<Rightarrow> if key i < key j then Some i else selected)) [0..<n] None"
  shows "(case r of None \<Rightarrow> \<forall>i<n. \<not> P i | Some j \<Rightarrow> j < n \<and> P j \<and> (\<forall>i<n. P i \<longrightarrow> key j \<le> key i))"
  using assms
proof (induction n arbitrary: r)
  case (Suc n)
  show ?case
    unfolding Suc.prems using Suc.IH [OF refl]
    by (auto simp: less_Suc_eq split: option.splits if_splits)
qed simp

text \<open>
  C20: \<open>AvailableObserverIndex\<close> finds an available observer exactly when there is one, and
  then the one with the lowest ID.
\<close>

theorem AvailableObserverIndex_lowest:
  "(case AvailableObserverIndex observers of
      None \<Rightarrow> \<forall>i<length observers. o_Status (observers ! i) \<noteq> ObserverAvailable
    | Some j \<Rightarrow> j < length observers \<and> o_Status (observers ! j) = ObserverAvailable \<and>
        (\<forall>i<length observers. o_Status (observers ! i) = ObserverAvailable \<longrightarrow>
           o_ID (observers ! j) \<le> o_ID (observers ! i)))"
  using fold_select_least [of "AvailableObserverIndex observers" "\<lambda>i. o_Status (observers ! i) = ObserverAvailable"
      "\<lambda>i. o_ID (observers ! i)" "length observers"]
  by (simp add: AvailableObserverIndex_def)

theorem AvailableObserverIndex_lowest_witness:
  "AvailableObserverIndex [NewObserver 2 (Time 0 True), NewObserver 1 (Time 0 True)] = Some 1"
proof -
  let ?obs = "[NewObserver 2 (Time 0 True), NewObserver 1 (Time 0 True)]"
  have st: "o_Status (?obs ! 1) = ObserverAvailable" "o_ID (?obs ! 0) = 2" "o_ID (?obs ! 1) = 1"
    by (simp_all add: NewObserver_def)
  have len: "1 < length ?obs" "length ?obs = 2" by simp_all
  show ?thesis
  proof (cases "AvailableObserverIndex ?obs")
    case None
    then have "\<forall>i<length ?obs. o_Status (?obs ! i) \<noteq> ObserverAvailable"
      using AvailableObserverIndex_lowest [of ?obs] by (simp only: option.case)
    then show ?thesis using st(1) len(1) by blast
  next
    case (Some j)
    have j: "j < length ?obs \<and> o_Status (?obs ! j) = ObserverAvailable \<and>
        (\<forall>i<length ?obs. o_Status (?obs ! i) = ObserverAvailable \<longrightarrow> o_ID (?obs ! j) \<le> o_ID (?obs ! i))"
      using AvailableObserverIndex_lowest [of ?obs] unfolding Some option.case .
    then have "o_ID (?obs ! j) \<le> o_ID (?obs ! 1)" using st(1) len(1) by blast
    then have "j \<noteq> 0" using st(2,3) by (metis one_le_numeral antisym numeral_eq_one_iff semiring_norm(85))
    moreover have "j < 2" using j len(2) by (simp only:)
    ultimately show ?thesis using Some by simp
  qed
qed

text \<open>The observers that wait in a plane, and what the roster check gives of them.\<close>

definition waits_in :: "int \<Rightarrow> Observer \<Rightarrow> bool" where
  "waits_in planeID ob \<longleftrightarrow> o_Status ob = ObserverWaitingReturn \<and> o_CurrentPlaneID ob = Some planeID"

definition at_portal :: "int \<Rightarrow> Observer \<Rightarrow> bool" where
  "at_portal portalID ob \<longleftrightarrow>
     (o_Status ob = ObserverOutbound \<or> o_Status ob = ObserverReturning) \<and> o_ActivePortalID ob = Some portalID"

lemma waiting_fields:
  assumes "observer_fields_ok ob now" and "o_Status ob = ObserverWaitingReturn"
  obtains planeID startedAt where "o_CurrentPlaneID ob = Some planeID" and "o_PhaseStartedAt ob = Some startedAt"
    and "o_ActivePortalID ob = None" and "o_PhaseEndsAt ob = None"
  using assms by (auto simp: observer_fields_ok.simps)

lemma transit_fields:
  assumes "observer_fields_ok ob now" and "o_Status ob = ObserverOutbound \<or> o_Status ob = ObserverReturning"
  obtains portalID startedAt endsAt where "o_ActivePortalID ob = Some portalID"
    and "o_PhaseStartedAt ob = Some startedAt" and "o_PhaseEndsAt ob = Some endsAt"
    and "ns startedAt < ns endsAt" and "ns now < ns endsAt"
    and "(o_CurrentPlaneID ob = None) = (o_Status ob = ObserverOutbound)"
  using assms by (auto simp: observer_fields_ok.simps validActiveTransit_def split: option.splits)

definition waiting_key :: "Observer \<Rightarrow> int \<times> int" where
  "waiting_key ob = ((case o_PhaseStartedAt ob of Some t \<Rightarrow> ns t | None \<Rightarrow> 0), o_ID ob)"

lemma LongestWaiting_fold:
  assumes "\<forall>ob\<in>set observers. observer_fields_ok ob now"
  shows "LongestWaitingObserverIndex observers planeID =
    Ok (fold (\<lambda>i selected. if \<not> waits_in planeID (observers ! i) then selected
          else (case selected of None \<Rightarrow> Some i
                | Some j \<Rightarrow> if waiting_key (observers ! i) < waiting_key (observers ! j) then Some i else selected))
        [0..<length observers] None)"
  unfolding LongestWaitingObserverIndex_def
proof (rule foldM_eq_fold [where I = "\<lambda>s. \<forall>j. s = Some j \<longrightarrow> o_PhaseStartedAt (observers ! j) \<noteq> None"])
  fix s i assume i: "i \<in> set [0..<length observers]"
    and I: "\<forall>j. s = Some j \<longrightarrow> o_PhaseStartedAt (observers ! j) \<noteq> None"
  let ?ob = "observers ! i"
  have ok: "observer_fields_ok ?ob now" using assms i by simp
  show "(let ob = observers ! i
         in if o_Status ob \<noteq> ObserverWaitingReturn then Ok s
            else (case (o_CurrentPlaneID ob, o_PhaseStartedAt ob) of
                    (Some plane, Some startedAt) \<Rightarrow>
                      if plane \<noteq> planeID then Ok s
                      else (case s of
                              None \<Rightarrow> Ok (Some i)
                            | Some j \<Rightarrow>
                                (case o_PhaseStartedAt (observers ! j) of
                                   None \<Rightarrow> Panic
                                 | Some best \<Rightarrow>
                                     if Before startedAt best \<or>
                                        (Equal startedAt best \<and> o_ID ob < o_ID (observers ! j))
                                     then Ok (Some i) else Ok s))
                  | _ \<Rightarrow> Fail ErrObserverInvariant)) =
      Ok (if \<not> waits_in planeID ?ob then s
          else (case s of None \<Rightarrow> Some i
                | Some j \<Rightarrow> if waiting_key ?ob < waiting_key (observers ! j) then Some i else s)) \<and>
      (\<forall>j. (if \<not> waits_in planeID ?ob then s
          else (case s of None \<Rightarrow> Some i
                | Some j \<Rightarrow> if waiting_key ?ob < waiting_key (observers ! j) then Some i else s)) = Some j
        \<longrightarrow> o_PhaseStartedAt (observers ! j) \<noteq> None)"
  proof (cases "o_Status ?ob = ObserverWaitingReturn")
    case True
    obtain pl st where f: "o_CurrentPlaneID ?ob = Some pl" "o_PhaseStartedAt ?ob = Some st"
      using ok True by (rule waiting_fields)
    show ?thesis
    proof (cases s)
      case None
      then show ?thesis using True f by (auto simp: waits_in_def)
    next
      case (Some j)
      then obtain best where "o_PhaseStartedAt (observers ! j) = Some best" using I by auto
      then show ?thesis using True f Some by (auto simp: waits_in_def waiting_key_def less_prod_def)
    qed
  next
    case False
    then show ?thesis using I by (simp add: waits_in_def)
  qed
qed simp

lemma LongestWaiting_selects:
  assumes "\<forall>ob\<in>set observers. observer_fields_ok ob now"
  obtains r where "LongestWaitingObserverIndex observers planeID = Ok r"
    and "case r of None \<Rightarrow> \<forall>i<length observers. \<not> waits_in planeID (observers ! i)
         | Some j \<Rightarrow> j < length observers \<and> waits_in planeID (observers ! j) \<and>
             (\<forall>i<length observers. waits_in planeID (observers ! i) \<longrightarrow>
                waiting_key (observers ! j) \<le> waiting_key (observers ! i))"
  using that [OF LongestWaiting_fold [OF assms, of planeID]]
    fold_select_least [OF refl, of "length observers" "\<lambda>i. waits_in planeID (observers ! i)"
      "\<lambda>i. waiting_key (observers ! i)"]
  by simp

text \<open>
  On a valid roster \<open>LongestWaitingObserverIndex\<close> never fails; it finds an observer
  waiting in the plane exactly when there is one, and then one that has waited longest,
  of these the one with the lowest ID.
\<close>

theorem LongestWaitingObserverIndex_longest:
  assumes "roster_ok observers now"
  shows "\<exists>r. LongestWaitingObserverIndex observers planeID = Ok r \<and>
    (case r of
       None \<Rightarrow> \<forall>ob\<in>set observers. \<not> waits_in planeID ob
     | Some j \<Rightarrow> j < length observers \<and> waits_in planeID (observers ! j) \<and>
         (\<forall>ob\<in>set observers. waits_in planeID ob \<longrightarrow>
            ns (the (o_PhaseStartedAt (observers ! j))) < ns (the (o_PhaseStartedAt ob)) \<or>
            ns (the (o_PhaseStartedAt (observers ! j))) = ns (the (o_PhaseStartedAt ob)) \<and>
            o_ID (observers ! j) \<le> o_ID ob))"
proof -
  have ok: "\<forall>ob\<in>set observers. observer_fields_ok ob now" using assms by (simp add: roster_ok_def)
  obtain r where r: "LongestWaitingObserverIndex observers planeID = Ok r"
    and sel: "case r of None \<Rightarrow> \<forall>i<length observers. \<not> waits_in planeID (observers ! i)
         | Some j \<Rightarrow> j < length observers \<and> waits_in planeID (observers ! j) \<and>
             (\<forall>i<length observers. waits_in planeID (observers ! i) \<longrightarrow>
                waiting_key (observers ! j) \<le> waiting_key (observers ! i))"
    using ok by (rule LongestWaiting_selects)
  have key: "waiting_key ob = (ns (the (o_PhaseStartedAt ob)), o_ID ob)"
    if "ob \<in> set observers" "waits_in planeID ob" for ob
  proof -
    have "observer_fields_ok ob now" "o_Status ob = ObserverWaitingReturn"
      using that ok by (simp_all add: waits_in_def)
    then obtain t where "o_PhaseStartedAt ob = Some t" by (rule waiting_fields)
    then show ?thesis by (simp add: waiting_key_def)
  qed
  show ?thesis
  proof (cases r)
    case None
    then show ?thesis using r sel by (auto simp: in_set_conv_nth)
  next
    case (Some j)
    then have j: "j < length observers" "waits_in planeID (observers ! j)" using sel by auto
    have "waiting_key (observers ! j) \<le> waiting_key ob" if "ob \<in> set observers" "waits_in planeID ob" for ob
      using sel Some that by (auto simp: in_set_conv_nth)
    then show ?thesis
      using r Some j key by (fastforce simp: less_eq_prod_def)
  qed
qed

theorem LongestWaitingObserverIndex_longest_witness:
  "\<exists>r. LongestWaitingObserverIndex [NewObserver 1 (Time 0 True)] 3 = Ok r \<and> r = None"
proof -
  have "roster_ok [NewObserver 1 (Time 0 True)] (Time 0 True)"
    by (simp add: roster_ok_def observer_fields_ok.simps NewObserver_def)
  from LongestWaitingObserverIndex_longest [OF this, of 3]
  obtain r where r: "LongestWaitingObserverIndex [NewObserver 1 (Time 0 True)] 3 = Ok r"
    and c: "case r of None \<Rightarrow> True | Some j \<Rightarrow> j < 1 \<and> waits_in 3 ([NewObserver 1 (Time 0 True)] ! j)"
    by (auto split: option.splits)
  have "\<not> waits_in 3 (NewObserver 1 (Time 0 True))" by (simp add: waits_in_def NewObserver_def)
  then have "r = None" using c by (cases r) auto
  then show ?thesis using r by blast
qed

lemma ActiveTransit_eq:
  assumes "\<forall>ob\<in>set observers. observer_fields_ok ob now"
  shows "ActiveTransitObserverIndex observers portalID now =
    (case filter (\<lambda>i. at_portal portalID (observers ! i)) [0..<length observers] of
       [] \<Rightarrow> Ok None | [i] \<Rightarrow> Ok (Some i) | _ \<Rightarrow> Fail ErrObserverInvariant)"
proof -
  define f where "f = (\<lambda>(selected :: nat option) i.
         let ob = observers ! i
         in if o_Status ob \<noteq> ObserverOutbound \<and> o_Status ob \<noteq> ObserverReturning then Ok selected
            else (case (o_ActivePortalID ob, o_PhaseStartedAt ob, o_PhaseEndsAt ob) of
                    (Some active, Some startedAt, Some endsAt) \<Rightarrow>
                      if o_Status ob = ObserverOutbound \<and> o_CurrentPlaneID ob \<noteq> None
                      then Fail ErrObserverInvariant
                      else if o_Status ob = ObserverReturning \<and> o_CurrentPlaneID ob = None
                      then Fail ErrObserverInvariant
                      else if active \<noteq> portalID then Ok selected
                      else if \<not> Before startedAt endsAt \<or> \<not> Before now endsAt
                      then Fail ErrObserverInvariant
                      else if selected \<noteq> None then Fail ErrObserverInvariant
                      else Ok (Some i)
                  | _ \<Rightarrow> Fail ErrObserverInvariant))"
  have step: "f s i = (if at_portal portalID (observers ! i)
      then (if s \<noteq> None then Fail ErrObserverInvariant else Ok (Some i)) else Ok s)"
    if "i < length observers" for s i
  proof (cases "o_Status (observers ! i) = ObserverOutbound \<or> o_Status (observers ! i) = ObserverReturning")
    case True
    have "observer_fields_ok (observers ! i) now" using assms that by simp
    then obtain pid st en where "o_ActivePortalID (observers ! i) = Some pid"
      "o_PhaseStartedAt (observers ! i) = Some st" "o_PhaseEndsAt (observers ! i) = Some en"
      "ns st < ns en" "ns now < ns en"
      "(o_CurrentPlaneID (observers ! i) = None) = (o_Status (observers ! i) = ObserverOutbound)"
      using True by (rule transit_fields)
    then show ?thesis using True by (auto simp: f_def at_portal_def)
  qed (simp add: f_def at_portal_def)
  have "foldM f s ks = (case filter (\<lambda>i. at_portal portalID (observers ! i)) ks of
       [] \<Rightarrow> Ok s
     | [i] \<Rightarrow> if s = None then Ok (Some i) else Fail ErrObserverInvariant
     | _ \<Rightarrow> Fail ErrObserverInvariant)"
    if "set ks \<subseteq> {0..<length observers}" for s ks
    using that
  proof (induction ks arbitrary: s)
    case (Cons i ks)
    then show ?case using step [of i] by (auto split: list.splits)
  qed simp
  from this [of "[0..<length observers]" None] show ?thesis
    by (simp add: ActiveTransitObserverIndex_def f_def [symmetric] split: list.splits)
qed

lemma ActiveTransit_NoneD:
  assumes "roster_ok observers now" and "ActiveTransitObserverIndex observers portalID now = Ok None"
  shows "\<forall>ob\<in>set observers. \<not> at_portal portalID ob"
proof -
  have "\<forall>ob\<in>set observers. observer_fields_ok ob now" using assms(1) by (simp add: roster_ok_def)
  from ActiveTransit_eq [OF this, of portalID] assms(2)
  have "filter (\<lambda>i. at_portal portalID (observers ! i)) [0..<length observers] = []"
    by (auto split: list.splits)
  then show ?thesis by (auto simp: filter_empty_conv in_set_conv_nth)
qed

lemma ActiveTransit_SomeD:
  assumes "roster_ok observers now" and "ActiveTransitObserverIndex observers portalID now = Ok (Some i)"
  shows "i < length observers \<and> at_portal portalID (observers ! i) \<and>
    (\<forall>j<length observers. at_portal portalID (observers ! j) \<longrightarrow> j = i)"
proof -
  have "\<forall>ob\<in>set observers. observer_fields_ok ob now" using assms(1) by (simp add: roster_ok_def)
  from ActiveTransit_eq [OF this, of portalID] assms(2)
  have f: "filter (\<lambda>i. at_portal portalID (observers ! i)) [0..<length observers] = [i]"
    by (auto split: list.splits)
  have "j \<in> {i} \<longleftrightarrow> j < length observers \<and> at_portal portalID (observers ! j)" for j
    using arg_cong [OF f, of set] by auto
  then show ?thesis by auto
qed

lemma ActiveTransit_not_Panic:
  assumes "roster_ok observers now"
  shows "ActiveTransitObserverIndex observers portalID now \<noteq> Panic"
  using ActiveTransit_eq [of observers now portalID] assms by (auto simp: roster_ok_def split: list.splits)

section \<open>What the selections return\<close>

lemma Available_selects:
  "case AvailableObserverIndex observers of
     None \<Rightarrow> \<forall>ob\<in>set observers. o_Status ob \<noteq> ObserverAvailable
   | Some j \<Rightarrow> j < length observers \<and> o_Status (observers ! j) = ObserverAvailable"
  using fold_select_least [of "AvailableObserverIndex observers" "\<lambda>i. o_Status (observers ! i) = ObserverAvailable"
      "\<lambda>i. o_ID (observers ! i)" "length observers"]
  by (auto simp: AvailableObserverIndex_def in_set_conv_nth split: option.splits)

lemma Available_SomeD:
  assumes "AvailableObserverIndex observers = Some i"
  shows "i < length observers" and "o_Status (observers ! i) = ObserverAvailable"
  using Available_selects [of observers] assms by simp_all

lemma Available_None_iff:
  "AvailableObserverIndex observers = None \<longleftrightarrow> (\<forall>ob\<in>set observers. o_Status ob \<noteq> ObserverAvailable)"
  using Available_selects [of observers] by (cases "AvailableObserverIndex observers") auto

lemma LongestWaiting_total:
  assumes "roster_ok observers now"
  shows "\<exists>q. LongestWaitingObserverIndex observers planeID = Ok q \<and>
    (case q of None \<Rightarrow> \<forall>ob\<in>set observers. \<not> waits_in planeID ob
     | Some j \<Rightarrow> j < length observers \<and> waits_in planeID (observers ! j))"
proof -
  have "\<forall>ob\<in>set observers. observer_fields_ok ob now" using assms by (simp add: roster_ok_def)
  then obtain q where q: "LongestWaitingObserverIndex observers planeID = Ok q"
    "case q of None \<Rightarrow> \<forall>i<length observers. \<not> waits_in planeID (observers ! i)
     | Some j \<Rightarrow> j < length observers \<and> waits_in planeID (observers ! j) \<and>
         (\<forall>i<length observers. waits_in planeID (observers ! i) \<longrightarrow>
            waiting_key (observers ! j) \<le> waiting_key (observers ! i))"
    by (rule LongestWaiting_selects)
  then show ?thesis by (cases q) (auto simp: in_set_conv_nth)
qed

lemma LongestWaiting_SomeD:
  assumes "roster_ok observers now" and "LongestWaitingObserverIndex observers planeID = Ok (Some i)"
  shows "i < length observers" and "waits_in planeID (observers ! i)"
  using LongestWaiting_total [OF assms(1), of planeID] assms(2) by auto

lemma LongestWaiting_None_iff:
  assumes "roster_ok observers now"
  shows "LongestWaitingObserverIndex observers planeID = Ok None \<longleftrightarrow> (\<forall>ob\<in>set observers. \<not> waits_in planeID ob)"
proof -
  obtain q where q: "LongestWaitingObserverIndex observers planeID = Ok q"
    "case q of None \<Rightarrow> \<forall>ob\<in>set observers. \<not> waits_in planeID ob
     | Some j \<Rightarrow> j < length observers \<and> waits_in planeID (observers ! j)"
    using LongestWaiting_total [OF assms] by blast
  then show ?thesis by (cases q) auto
qed

lemma NewObserverRoster_ok:
  assumes "NewObserverRoster n now = Ok observers"
  shows "roster_ok observers t"
  using assms
  by (auto simp: NewObserverRoster_def roster_ok_def distinct_map inj_on_def NewObserver_def
      observer_fields_ok.simps split: if_splits)

end
