(* ===== verification/Lab.thy ===== *)
theory Lab
  imports Portal
begin

text \<open>
  The laboratory energy (\<open>internal/domain/lab.go\<close>) and the Leyline Override emergency
  (\<open>lab_emergency.go\<close>).  The energy is derived from a baseline; a spend moves the
  baseline, and a portal collapse empties it and opens a half-open emergency window.
  A function that gets a pointer and changes it only on success returns the new value in
  \<open>Ok\<close>; the nil pointers the code rejects first are ruled out by the types.
\<close>

section \<open>The energy baseline\<close>

record LabState =
  l_EnergyBase :: int
  l_EnergyBaseAt :: time
  l_LeylineOverrideUntil :: "time option"

definition NewLabState :: "int \<Rightarrow> time \<Rightarrow> Config \<Rightarrow> LabState res" where
  "NewLabState initialEnergy now cfg =
     (if initialEnergy < 0 \<or> LabEnergyMax cfg < initialEnergy then Fail ErrLabEnergyInvariant
      else Ok \<lparr>l_EnergyBase = initialEnergy, l_EnergyBaseAt = now, l_LeylineOverrideUntil = None\<rparr>)"

definition NewTutorialLabState :: "time \<Rightarrow> Config \<Rightarrow> LabState" where
  "NewTutorialLabState now cfg =
     \<lparr>l_EnergyBase = LabEnergyMax cfg, l_EnergyBaseAt = now, l_LeylineOverrideUntil = None\<rparr>"

definition LabState_CurrentEnergy :: "LabState \<Rightarrow> time \<Rightarrow> Config \<Rightarrow> int" where
  "LabState_CurrentEnergy l now cfg =
     (let energy = (if l_EnergyBase l < 0 then 0 else l_EnergyBase l);
          energy = (if LabEnergyMax cfg < energy then LabEnergyMax cfg else energy)
      in if Before now (l_EnergyBaseAt l) then energy
         else let wholeSeconds = Sub now (l_EnergyBaseAt l) sdiv Second;
                  energy = wrap64 (energy + wrap64 (wholeSeconds * LabRegenPerSec cfg))
              in if LabEnergyMax cfg < energy then LabEnergyMax cfg
                 else if energy < 0 then 0 else energy)"

definition prepareLabEnergySpend :: "LabState \<Rightarrow> time \<Rightarrow> int \<Rightarrow> Config \<Rightarrow> int res" where
  "prepareLabEnergySpend l now cost cfg =
     (if l_EnergyBase l < 0 \<or> LabEnergyMax cfg < l_EnergyBase l \<or> Before now (l_EnergyBaseAt l) \<or> cost < 0
      then Fail ErrLabEnergyInvariant
      else if LabState_CurrentEnergy l now cfg < cost then Fail ErrInsufficientLabEnergy
      else Ok (wrap64 (LabState_CurrentEnergy l now cfg - cost)))"

definition commitLabEnergySpend :: "LabState \<Rightarrow> time \<Rightarrow> int \<Rightarrow> int \<Rightarrow> LabState" where
  "commitLabEnergySpend l now cost remaining =
     (if cost = 0 then l else l\<lparr>l_EnergyBase := remaining, l_EnergyBaseAt := now\<rparr>)"

definition LabState_CanAfford :: "LabState \<Rightarrow> time \<Rightarrow> int \<Rightarrow> Config \<Rightarrow> bool" where
  "LabState_CanAfford l now cost cfg =
     (case prepareLabEnergySpend l now cost cfg of Ok _ \<Rightarrow> True | _ \<Rightarrow> False)"

definition LabState_SpendEnergy :: "LabState \<Rightarrow> time \<Rightarrow> int \<Rightarrow> Config \<Rightarrow> LabState res" where
  "LabState_SpendEnergy l now cost cfg =
     rbind (prepareLabEnergySpend l now cost cfg)
       (\<lambda>remaining. Ok (commitLabEnergySpend l now cost remaining))"

section \<open>The Leyline Override\<close>

definition LeylineOverrideActive :: "LabState \<Rightarrow> time \<Rightarrow> Config \<Rightarrow> bool" where
  "LeylineOverrideActive l now cfg =
     (case l_LeylineOverrideUntil l of
        None \<Rightarrow> False
      | Some until \<Rightarrow>
          if EmergencyDuration cfg \<le> 0 then False
          else let startedAt = Add until (wrap64 (- EmergencyDuration cfg))
               in \<not> Before now startedAt \<and> Before now until)"

definition ActivateLeylineOverride :: "LabState \<Rightarrow> time \<Rightarrow> Config \<Rightarrow> LabState res" where
  "ActivateLeylineOverride l collapseAt cfg =
     (if l_EnergyBase l < 0 \<or> LabEnergyMax cfg < l_EnergyBase l \<or>
         Before collapseAt (l_EnergyBaseAt l) \<or> EmergencyDuration cfg \<le> 0
      then Fail ErrLabEnergyInvariant
      else Ok (l\<lparr>l_EnergyBase := 0, l_EnergyBaseAt := collapseAt,
                 l_LeylineOverrideUntil := Some (Add collapseAt (EmergencyDuration cfg))\<rparr>))"

definition ResolvePortalLifecycleWithLabEmergency ::
    "LabState \<Rightarrow> Portal \<Rightarrow> time \<Rightarrow> Config \<Rightarrow> (bool \<times> LabState \<times> Portal) res" where
  "ResolvePortalLifecycleWithLabEmergency lab portal now cfg =
     rbind (prepareLabEnergySpend lab now 0 cfg)
       (\<lambda>_. case Portal_ResolveLifecycle portal now of (changed, nextPortal) \<Rightarrow>
          if \<not> changed then Ok (False, lab, portal)
          else if p_Status nextPortal = PortalStatusCollapsed
          then (case p_ClosedAt nextPortal of
                  None \<Rightarrow> Fail ErrLabEnergyInvariant
                | Some closedAt \<Rightarrow>
                    rbind (ActivateLeylineOverride lab closedAt cfg)
                      (\<lambda>nextLab. Ok (True, nextLab, nextPortal)))
          else Ok (True, lab, nextPortal))"

section \<open>Bounds and conservation\<close>

text \<open>
  The configured amounts cannot overflow an \<open>int\<close>: a duration has fewer than
  \<open>9223372037\<close> whole seconds.
\<close>

definition lab_config_ok :: "Config \<Rightarrow> bool" where
  "lab_config_ok cfg \<longleftrightarrow>
     0 \<le> LabEnergyMax cfg \<and> 0 \<le> LabRegenPerSec cfg \<and>
     LabEnergyMax cfg + 9223372037 * LabRegenPerSec cfg \<le> 9223372036854775807"

lemma lab_config_ok_Default [simp]: "lab_config_ok Default"
  by (simp add: lab_config_ok_def Default_def)

definition lab_valid :: "Config \<Rightarrow> LabState \<Rightarrow> bool" where
  "lab_valid cfg l \<longleftrightarrow> 0 \<le> l_EnergyBase l \<and> l_EnergyBase l \<le> LabEnergyMax cfg"

text \<open>The energy as a formula over exact integers.\<close>

definition base_energy :: "Config \<Rightarrow> LabState \<Rightarrow> int" where
  "base_energy cfg l = min (LabEnergyMax cfg) (max 0 (l_EnergyBase l))"

definition whole_seconds :: "LabState \<Rightarrow> time \<Rightarrow> int" where
  "whole_seconds l now = max 0 (Sub now (l_EnergyBaseAt l)) div Second"

lemma whole_seconds_bounds: "0 \<le> whole_seconds l now" "whole_seconds l now \<le> 9223372036"
  using Sub_range [of now "l_EnergyBaseAt l"]
  by (auto simp: whole_seconds_def int64_range_def pos_imp_zdiv_nonneg_iff max_def)

lemma CurrentEnergy_eq:
  assumes "lab_config_ok cfg"
  shows "LabState_CurrentEnergy l now cfg =
    min (LabEnergyMax cfg) (base_energy cfg l + whole_seconds l now * LabRegenPerSec cfg)"
proof -
  let ?b = "base_energy cfg l" and ?n = "whole_seconds l now * LabRegenPerSec cfg"
  have cfg: "0 \<le> LabEnergyMax cfg" "0 \<le> LabRegenPerSec cfg"
    "LabEnergyMax cfg + 9223372037 * LabRegenPerSec cfg \<le> 9223372036854775807"
    using assms by (auto simp: lab_config_ok_def)
  have n: "0 \<le> ?n" "?n \<le> 9223372037 * LabRegenPerSec cfg"
    using whole_seconds_bounds [of l now] cfg by (simp, intro mult_right_mono) simp_all
  have b: "0 \<le> ?b" "?b \<le> LabEnergyMax cfg" using cfg by (auto simp: base_energy_def)
  have e: "(let energy = (if l_EnergyBase l < 0 then 0 else l_EnergyBase l)
            in if LabEnergyMax cfg < energy then LabEnergyMax cfg else energy) = ?b"
    by (auto simp: base_energy_def Let_def)
  show ?thesis
  proof (cases "Before now (l_EnergyBaseAt l)")
    case True
    then have "whole_seconds l now = 0" by (simp add: whole_seconds_def max_def)
    then show ?thesis using True e b by (simp add: LabState_CurrentEnergy_def Let_def)
  next
    case False
    then have "Sub now (l_EnergyBaseAt l) sdiv Second = whole_seconds l now"
      by (simp add: sdiv_nonneg whole_seconds_def max_def)
    then show ?thesis
      using False e b n cfg by (simp add: LabState_CurrentEnergy_def Let_def)
  qed
qed

lemma base_energy_valid: "lab_valid cfg l \<Longrightarrow> base_energy cfg l = l_EnergyBase l"
  by (simp add: base_energy_def lab_valid_def)

lemma base_energy_bounds:
  "lab_config_ok cfg \<Longrightarrow> 0 \<le> base_energy cfg l"
  "lab_config_ok cfg \<Longrightarrow> base_energy cfg l \<le> LabEnergyMax cfg"
  by (auto simp: base_energy_def lab_config_ok_def)

lemma CurrentEnergy_range:
  assumes "lab_config_ok cfg"
  shows "0 \<le> LabState_CurrentEnergy l now cfg" "LabState_CurrentEnergy l now cfg \<le> LabEnergyMax cfg"
proof -
  have "0 \<le> whole_seconds l now * LabRegenPerSec cfg"
    using whole_seconds_bounds [of l now] assms by (simp add: lab_config_ok_def)
  then show "0 \<le> LabState_CurrentEnergy l now cfg" "LabState_CurrentEnergy l now cfg \<le> LabEnergyMax cfg"
    using base_energy_bounds [OF assms, of l] by (auto simp: CurrentEnergy_eq [OF assms])
qed

lemma CurrentEnergy_at_base:
  "lab_config_ok cfg \<Longrightarrow> lab_valid cfg l \<Longrightarrow>
   LabState_CurrentEnergy l (l_EnergyBaseAt l) cfg = l_EnergyBase l"
  by (simp add: CurrentEnergy_eq whole_seconds_def base_energy_valid) (simp add: lab_valid_def)

lemma whole_seconds_mono: "ns t \<le> ns u \<Longrightarrow> whole_seconds l t \<le> whole_seconds l u"
  unfolding whole_seconds_def by (intro zdiv_mono1 max.mono Sub_mono) simp_all

text \<open>
  The laboratory energy always lies between zero and its maximum and never falls by
  the passage of time alone; regeneration is the whole seconds since the baseline times
  the rate, capped at the maximum.
\<close>

theorem LabEnergy_bounded_mono:
  assumes "lab_config_ok cfg" and "ns t \<le> ns u"
  shows "0 \<le> LabState_CurrentEnergy l t cfg \<and>
    LabState_CurrentEnergy l t cfg \<le> LabState_CurrentEnergy l u cfg \<and>
    LabState_CurrentEnergy l u cfg \<le> LabEnergyMax cfg"
proof -
  have "whole_seconds l t * LabRegenPerSec cfg \<le> whole_seconds l u * LabRegenPerSec cfg"
    using assms whole_seconds_mono by (intro mult_right_mono) (auto simp: lab_config_ok_def)
  then have "LabState_CurrentEnergy l t cfg \<le> LabState_CurrentEnergy l u cfg"
    by (simp add: CurrentEnergy_eq [OF assms(1)])
  then show ?thesis using CurrentEnergy_range [OF assms(1)] by blast
qed

theorem LabEnergy_bounded_mono_witness:
  "LabState_CurrentEnergy (NewTutorialLabState (Time 0 True) Default) (Time Second True) Default \<le>
   LabState_CurrentEnergy (NewTutorialLabState (Time 0 True) Default) (Time (2 * Second) True) Default"
  using LabEnergy_bounded_mono [of Default "Time Second True" "Time (2 * Second) True"
      "NewTutorialLabState (Time 0 True) Default"] by simp

lemma prepareLabEnergySpend_OkE:
  assumes "prepareLabEnergySpend l now cost cfg = Ok remaining" and "lab_config_ok cfg"
  obtains "lab_valid cfg l" and "ns (l_EnergyBaseAt l) \<le> ns now" and "0 \<le> cost"
    and "cost \<le> LabState_CurrentEnergy l now cfg"
    and "remaining = LabState_CurrentEnergy l now cfg - cost"
proof -
  have le: "LabEnergyMax cfg \<le> 9223372036854775807"
    using assms(2) by (auto simp: lab_config_ok_def)
  have "lab_valid cfg l" "ns (l_EnergyBaseAt l) \<le> ns now" "0 \<le> cost"
    "cost \<le> LabState_CurrentEnergy l now cfg"
    "remaining = wrap64 (LabState_CurrentEnergy l now cfg - cost)"
    using assms(1) by (auto simp: prepareLabEnergySpend_def lab_valid_def split: if_splits)
  then show thesis
    using that le CurrentEnergy_range [OF assms(2), of l now] by simp
qed

lemma prepareLabEnergySpend_ok:
  assumes "lab_config_ok cfg" and "lab_valid cfg l" and "ns (l_EnergyBaseAt l) \<le> ns now"
    and "0 \<le> cost" and "cost \<le> LabState_CurrentEnergy l now cfg"
  shows "prepareLabEnergySpend l now cost cfg = Ok (LabState_CurrentEnergy l now cfg - cost)"
proof -
  have "LabEnergyMax cfg \<le> 9223372036854775807" using assms(1) by (auto simp: lab_config_ok_def)
  then show ?thesis
    using assms CurrentEnergy_range [OF assms(1), of l now]
    by (simp add: prepareLabEnergySpend_def lab_valid_def)
qed

lemma prepareLabEnergySpend_not_Panic [simp]: "prepareLabEnergySpend l now cost cfg \<noteq> Panic"
  by (simp add: prepareLabEnergySpend_def)

lemma prepareLabEnergySpend_zero:
  assumes "lab_config_ok cfg"
  shows "prepareLabEnergySpend l now 0 cfg =
    (if lab_valid cfg l \<and> ns (l_EnergyBaseAt l) \<le> ns now
     then Ok (LabState_CurrentEnergy l now cfg) else Fail ErrLabEnergyInvariant)"
  using prepareLabEnergySpend_ok [OF assms, of l now 0] CurrentEnergy_range [OF assms, of l now]
  by (auto simp: prepareLabEnergySpend_def lab_valid_def)

lemma commit_valid:
  assumes "prepareLabEnergySpend l now cost cfg = Ok r" and "lab_config_ok cfg"
  shows "lab_valid cfg (commitLabEnergySpend l now cost r)"
    and "LabState_CurrentEnergy (commitLabEnergySpend l now cost r) now cfg
         = LabState_CurrentEnergy l now cfg - cost"
proof -
  from assms have p: "lab_valid cfg l" "0 \<le> cost" "cost \<le> LabState_CurrentEnergy l now cfg"
    "r = LabState_CurrentEnergy l now cfg - cost"
    by (auto elim: prepareLabEnergySpend_OkE)
  show v: "lab_valid cfg (commitLabEnergySpend l now cost r)"
    using p CurrentEnergy_range [OF assms(2), of l now]
    by (auto simp: commitLabEnergySpend_def lab_valid_def)
  show "LabState_CurrentEnergy (commitLabEnergySpend l now cost r) now cfg
      = LabState_CurrentEnergy l now cfg - cost"
    using CurrentEnergy_at_base [OF assms(2) v] p by (auto simp: commitLabEnergySpend_def)
qed

text \<open>
  A spend from a valid baseline succeeds exactly when the cost is nonnegative and
  covered, and then the energy at that instant is lower by exactly the cost, the baseline
  is valid again and the emergency deadline is untouched.
\<close>

theorem SpendEnergy_exact:
  assumes "lab_config_ok cfg" and "lab_valid cfg l" and "ns (l_EnergyBaseAt l) \<le> ns now"
  shows "(case LabState_SpendEnergy l now cost cfg of
            Ok l' \<Rightarrow> 0 \<le> cost \<and> cost \<le> LabState_CurrentEnergy l now cfg \<and> lab_valid cfg l' \<and>
                    LabState_CurrentEnergy l' now cfg = LabState_CurrentEnergy l now cfg - cost \<and>
                    l_LeylineOverrideUntil l' = l_LeylineOverrideUntil l
          | Fail e \<Rightarrow> (cost < 0 \<and> e = ErrLabEnergyInvariant) \<or>
                     (LabState_CurrentEnergy l now cfg < cost \<and> e = ErrInsufficientLabEnergy)
          | Panic \<Rightarrow> False)"
proof (cases "prepareLabEnergySpend l now cost cfg")
  case (Ok r)
  then show ?thesis
    using commit_valid [OF Ok assms(1)] assms(1)
    by (auto simp: LabState_SpendEnergy_def commitLabEnergySpend_def elim!: prepareLabEnergySpend_OkE)
next
  case (Fail e)
  then show ?thesis
    using assms by (auto simp: LabState_SpendEnergy_def prepareLabEnergySpend_def lab_valid_def
        split: if_splits)
qed simp

theorem SpendEnergy_exact_witness:
  "\<exists>l'. LabState_SpendEnergy (NewTutorialLabState (Time 0 True) Default) (Time Second True) 30 Default = Ok l' \<and>
    LabState_CurrentEnergy l' (Time Second True) Default = 70"
proof -
  let ?l = "NewTutorialLabState (Time 0 True) Default"
  have e: "LabState_CurrentEnergy ?l (Time Second True) Default = 100"
    by (simp add: CurrentEnergy_eq base_energy_def whole_seconds_def NewTutorialLabState_def
        Default_def Sub_def clamp64_def lab_config_ok_def)
  have "lab_valid Default ?l" "ns (l_EnergyBaseAt ?l) \<le> ns (Time Second True)"
    by (simp_all add: lab_valid_def NewTutorialLabState_def Default_def)
  from SpendEnergy_exact [OF lab_config_ok_Default this, of 30] show ?thesis
    by (auto simp: e split: result.splits)
qed

lemma div_add_bounds:
  assumes "0 \<le> a" and "0 \<le> (b::int)"
  shows "a div Second + b div Second \<le> (a + b) div Second"
    and "(a + b) div Second \<le> a div Second + b div Second + 1"
  using assms by linarith+

text \<open>
  Moving the baseline by a spend creates no energy: at every later time the energy is
  at most what it would have been without the spend, and less by at most the cost and one
  second of regeneration, the part of a second that the new baseline drops.
\<close>

theorem SpendEnergy_later_balance:
  assumes "lab_config_ok cfg" and "LabState_SpendEnergy l now cost cfg = Ok l'"
    and "ns now \<le> ns u" and "int64_range (ns u - ns (l_EnergyBaseAt l))"
  shows "LabState_CurrentEnergy l' u cfg \<le> LabState_CurrentEnergy l u cfg \<and>
    LabState_CurrentEnergy l u cfg - cost - LabRegenPerSec cfg \<le> LabState_CurrentEnergy l' u cfg"
proof -
  obtain r where r: "prepareLabEnergySpend l now cost cfg = Ok r"
    and l': "l' = commitLabEnergySpend l now cost r"
    using assms(2) by (auto simp: LabState_SpendEnergy_def)
  let ?E = "\<lambda>t. LabState_CurrentEnergy l t cfg" and ?g = "LabRegenPerSec cfg"
  from r have p: "lab_valid cfg l" "ns (l_EnergyBaseAt l) \<le> ns now" "0 \<le> cost" "cost \<le> ?E now"
    "r = ?E now - cost"
    using assms(1) by (auto elim: prepareLabEnergySpend_OkE)
  have g: "0 \<le> ?g" using assms(1) by (simp add: lab_config_ok_def)
  show ?thesis
  proof (cases "cost = 0")
    case True
    then show ?thesis using g by (simp add: l' commitLabEnergySpend_def)
  next
    case False
    then have l'': "l' = l\<lparr>l_EnergyBase := ?E now - cost, l_EnergyBaseAt := now\<rparr>"
      by (simp add: l' commitLabEnergySpend_def p)
    have v': "lab_valid cfg l'" using commit_valid(1) [OF r assms(1)] by (simp add: l')
    define n where "n = whole_seconds l now"
    define m where "m = whole_seconds l' u"
    define k where "k = whole_seconds l u"
    have rng: "Sub u (l_EnergyBaseAt l) = ns u - ns (l_EnergyBaseAt l)" "Sub u now = ns u - ns now"
      "Sub now (l_EnergyBaseAt l) = ns now - ns (l_EnergyBaseAt l)"
      using assms(3,4) p(2) by (intro Sub_exact; simp add: int64_range_def)+
    have k: "n + m \<le> k" "k \<le> n + m + 1"
      using div_add_bounds [of "ns now - ns (l_EnergyBaseAt l)" "ns u - ns now"] assms(3) p(2) rng
      by (simp_all add: n_def m_def k_def whole_seconds_def l'')
    have "(n + m) * ?g \<le> k * ?g" "k * ?g \<le> (n + m + 1) * ?g"
      using k g by (intro mult_right_mono; simp)+
    then have kg: "n * ?g + m * ?g \<le> k * ?g" "k * ?g \<le> n * ?g + m * ?g + ?g"
      by (simp_all add: algebra_simps)
    have mg: "0 \<le> m * ?g" using g whole_seconds_bounds [of l' u] by (simp add: m_def)
    have E: "?E now = min (LabEnergyMax cfg) (base_energy cfg l + n * ?g)"
      "?E u = min (LabEnergyMax cfg) (base_energy cfg l + k * ?g)"
      "LabState_CurrentEnergy l' u cfg = min (LabEnergyMax cfg) (?E now - cost + m * ?g)"
      using base_energy_valid [OF v']
      by (simp_all add: CurrentEnergy_eq [OF assms(1)] n_def k_def m_def l'')
    show ?thesis
      unfolding E(2,3) using E(1) kg mg g p(3) by linarith
  qed
qed

theorem SpendEnergy_later_balance_witness:
  "\<exists>l'. LabState_SpendEnergy (NewTutorialLabState (Time 0 True) Default) (Time Second True) 30 Default = Ok l' \<and>
    LabState_CurrentEnergy l' (Time (9 * Second) True) Default \<le> 100"
proof -
  let ?l = "NewTutorialLabState (Time 0 True) Default"
  have e: "LabState_CurrentEnergy ?l (Time Second True) Default = 100"
    "LabState_CurrentEnergy ?l (Time (9 * Second) True) Default = 100"
    by (simp_all add: CurrentEnergy_eq base_energy_def whole_seconds_def NewTutorialLabState_def
        Default_def Sub_def clamp64_def lab_config_ok_def)
  have "prepareLabEnergySpend ?l (Time Second True) 30 Default = Ok 70"
    by (subst prepareLabEnergySpend_ok) (simp_all add: e [simplified] lab_valid_def NewTutorialLabState_def Default_def
        e [unfolded NewTutorialLabState_def Default_def, simplified] lab_config_ok_def)
  then obtain l' where l': "LabState_SpendEnergy ?l (Time Second True) 30 Default = Ok l'"
    by (auto simp: LabState_SpendEnergy_def)
  from SpendEnergy_later_balance [OF lab_config_ok_Default l', of "Time (9 * Second) True"] l' e
  show ?thesis by (simp add: NewTutorialLabState_def int64_range_def)
qed

section \<open>The emergency window\<close>

lemma ActivateLeylineOverride_OkE:
  assumes "ActivateLeylineOverride l ca cfg = Ok l'"
  obtains "0 < EmergencyDuration cfg" and "lab_valid cfg l" and "ns (l_EnergyBaseAt l) \<le> ns ca"
    and "l' = l\<lparr>l_EnergyBase := 0, l_EnergyBaseAt := ca,
                l_LeylineOverrideUntil := Some (Add ca (EmergencyDuration cfg))\<rparr>"
  using assms by (auto simp: ActivateLeylineOverride_def lab_valid_def split: if_splits)

lemma ActivateLeylineOverride_valid:
  "ActivateLeylineOverride l ca cfg = Ok l' \<Longrightarrow> lab_config_ok cfg \<Longrightarrow> lab_valid cfg l'"
  by (auto elim!: ActivateLeylineOverride_OkE simp: lab_valid_def lab_config_ok_def)

text \<open>
  A collapse empties the energy at its own moment and opens the emergency window
  exactly on \<open>[at, at + EmergencyDuration)\<close>, and no later spend moves that window.
\<close>

theorem override_window:
  assumes "ActivateLeylineOverride l ca cfg = Ok l'" and "lab_config_ok cfg"
    and "int64_range (EmergencyDuration cfg)"
  shows "LabState_CurrentEnergy l' ca cfg = 0 \<and>
    LeylineOverrideActive l' now cfg = (ns ca \<le> ns now \<and> ns now < ns ca + EmergencyDuration cfg) \<and>
    LeylineOverrideActive (commitLabEnergySpend l' t cost r) now cfg = LeylineOverrideActive l' now cfg"
proof -
  have l': "0 < EmergencyDuration cfg"
    "l' = l\<lparr>l_EnergyBase := 0, l_EnergyBaseAt := ca,
            l_LeylineOverrideUntil := Some (Add ca (EmergencyDuration cfg))\<rparr>"
    using assms(1) by (auto elim: ActivateLeylineOverride_OkE)
  have "LabState_CurrentEnergy l' (l_EnergyBaseAt l') cfg = l_EnergyBase l'"
    using CurrentEnergy_at_base [OF assms(2) ActivateLeylineOverride_valid [OF assms(1,2)]] .
  then have "LabState_CurrentEnergy l' ca cfg = 0" by (simp add: l')
  moreover have "LeylineOverrideActive l'' now cfg = (ns ca \<le> ns now \<and> ns now < ns ca + EmergencyDuration cfg)"
    if "l_LeylineOverrideUntil l'' = Some (Add ca (EmergencyDuration cfg))" for l''
    using that l'(1) assms(3) by (simp add: LeylineOverrideActive_def int64_range_def not_less)
  ultimately show ?thesis by (simp add: l' commitLabEnergySpend_def)
qed

theorem override_window_witness:
  "\<exists>l'. ActivateLeylineOverride (NewTutorialLabState (Time 0 True) Default) (Time Second True) Default = Ok l' \<and>
    LeylineOverrideActive l' (Time (20 * Second) True) Default"
proof -
  let ?l = "NewTutorialLabState (Time 0 True) Default"
  obtain l' where l': "ActivateLeylineOverride ?l (Time Second True) Default = Ok l'"
    by (simp add: ActivateLeylineOverride_def NewTutorialLabState_def Default_def)
  from override_window [OF this lab_config_ok_Default, of "Time (20 * Second) True"] l'
  show ?thesis by (simp add: Default_def int64_range_def)
qed

lemma ResolveWithEmergency_OkE:
  assumes "ResolvePortalLifecycleWithLabEmergency lab portal now cfg = Ok (changed, lab', portal')"
  obtains "Portal_ResolveLifecycle portal now = (changed, portal')"
    and "lab_valid cfg lab" and "ns (l_EnergyBaseAt lab) \<le> ns now"
    and "if changed \<and> p_Status portal' = PortalStatusCollapsed
         then \<exists>c. p_ClosedAt portal' = Some c \<and> ActivateLeylineOverride lab c cfg = Ok lab'
         else lab' = lab"
proof -
  obtain ch q where q: "Portal_ResolveLifecycle portal now = (ch, q)" by force
  from assms obtain r where r: "prepareLabEnergySpend lab now 0 cfg = Ok r"
    by (auto simp: ResolvePortalLifecycleWithLabEmergency_def)
  then have v: "lab_valid cfg lab" "ns (l_EnergyBaseAt lab) \<le> ns now"
    by (auto simp: prepareLabEnergySpend_def lab_valid_def split: if_splits)
  show thesis
  proof (cases ch)
    case False
    then have "q = portal" using q ResolveLifecycle_unchanged by simp
    then show ?thesis
      using that assms q r v False by (simp add: ResolvePortalLifecycleWithLabEmergency_def)
  next
    case True
    show ?thesis
      using assms q r v True
      by (intro that) (auto simp: ResolvePortalLifecycleWithLabEmergency_def split: if_splits option.splits)
  qed
qed

text \<open>
  The coupled resolution changes the laboratory exactly when the portal collapses at
  this call, and then with the portal's own closing moment, however late the call is.
\<close>

theorem collapse_sets_emergency:
  assumes "ResolvePortalLifecycleWithLabEmergency lab portal now cfg = Ok (changed, lab', portal')"
    and "int64_range (EmergencyDuration cfg)"
  shows "(changed, portal') = Portal_ResolveLifecycle portal now \<and>
    (if changed \<and> p_Status portal' = PortalStatusCollapsed
     then \<exists>c. p_ClosedAt portal' = Some c \<and> ns c \<le> ns now \<and> l_EnergyBase lab' = 0 \<and>
            l_EnergyBaseAt lab' = c \<and> LeylineOverrideActive lab' c cfg
     else lab' = lab)"
  using assms(1)
proof (rule ResolveWithEmergency_OkE)
  assume r: "Portal_ResolveLifecycle portal now = (changed, portal')"
    and l: "if changed \<and> p_Status portal' = PortalStatusCollapsed
      then \<exists>c. p_ClosedAt portal' = Some c \<and> ActivateLeylineOverride lab c cfg = Ok lab' else lab' = lab"
  show ?thesis
  proof (cases "changed \<and> p_Status portal' = PortalStatusCollapsed")
    case True
    then obtain c where c: "p_ClosedAt portal' = Some c" "ActivateLeylineOverride lab c cfg = Ok lab'"
      using l by auto
    have "ns c \<le> ns now" using r True c(1) by (auto elim!: ResolveLifecycle_changedE)
    then show ?thesis
      using c r True assms(2)
      by (auto elim!: ActivateLeylineOverride_OkE simp: LeylineOverrideActive_def int64_range_def)
  qed (use r l in auto)
qed

theorem collapse_sets_emergency_witness:
  "l_EnergyBase (NewTutorialLabState (Time 0 True) Default) = 100 \<and>
   (\<exists>lab' p'. ResolvePortalLifecycleWithLabEmergency (NewTutorialLabState (Time 0 True) Default)
      demo_portal (Time (60 * Second) True) Default = Ok (True, lab', p') \<and> l_EnergyBase lab' = 0)"
proof -
  let ?l = "NewTutorialLabState (Time 0 True) Default"
  have p: "Portal_ResolveLifecycle demo_portal (Time (60 * Second) True) =
    (True, demo_portal\<lparr>p_Status := PortalStatusCollapsed, p_TerminationReason := TerminationInstability,
       p_ClosedAt := Some (Time (50 * Second) True), p_UpdatedAt := Time (60 * Second) True\<rparr>)"
    by (simp add: Portal_ResolveLifecycle_def lifecycle_deadline_def demo_portal_depletes Portal_IsTerminal_def)
      (simp add: demo_portal_def)
  have "prepareLabEnergySpend ?l (Time (60 * Second) True) 0 Default = Ok (LabState_CurrentEnergy ?l (Time (60 * Second) True) Default)"
    by (subst prepareLabEnergySpend_zero) (simp_all add: lab_valid_def NewTutorialLabState_def Default_def lab_config_ok_def)
  then obtain lab' p' where r: "ResolvePortalLifecycleWithLabEmergency ?l demo_portal (Time (60 * Second) True) Default
      = Ok (True, lab', p')" and st: "p_Status p' = PortalStatusCollapsed"
    by (simp add: ResolvePortalLifecycleWithLabEmergency_def p [simplified])
      (simp add: ActivateLeylineOverride_def NewTutorialLabState_def Default_def)
  from collapse_sets_emergency [OF r] st r show ?thesis
    by (auto simp: Default_def int64_range_def NewTutorialLabState_def)
qed

lemma ResolveWithEmergency_valid:
  assumes "ResolvePortalLifecycleWithLabEmergency lab portal now cfg = Ok (changed, lab', portal')"
    and "lab_config_ok cfg"
  shows "lab_valid cfg lab' \<and> ns (l_EnergyBaseAt lab') \<le> ns now \<and> ns (l_EnergyBaseAt lab) \<le> ns (l_EnergyBaseAt lab')"
  using assms(1)
proof (rule ResolveWithEmergency_OkE)
  assume a: "Portal_ResolveLifecycle portal now = (changed, portal')"
    "lab_valid cfg lab" "ns (l_EnergyBaseAt lab) \<le> ns now"
    "if changed \<and> p_Status portal' = PortalStatusCollapsed
     then \<exists>c. p_ClosedAt portal' = Some c \<and> ActivateLeylineOverride lab c cfg = Ok lab' else lab' = lab"
  show ?thesis
  proof (cases "changed \<and> p_Status portal' = PortalStatusCollapsed")
    case True
    then obtain c where c: "p_ClosedAt portal' = Some c" "ActivateLeylineOverride lab c cfg = Ok lab'"
      using a(4) by auto
    have "ns c \<le> ns now" using a(1) True c(1) by (auto elim!: ResolveLifecycle_changedE)
    then show ?thesis
      using c ActivateLeylineOverride_valid [OF c(2) assms(2)] by (auto elim!: ActivateLeylineOverride_OkE)
  qed (use a in auto)
qed

section \<open>The ledger interface\<close>

text \<open>
  What the commands that cost energy rely on: preparing a charge checks it without
  changing anything, and committing a prepared charge lowers the balance by the cost.
\<close>

locale energy_ledger =
  fixes balance :: "'cfg \<Rightarrow> 'l \<Rightarrow> time \<Rightarrow> int"
    and prepare :: "'cfg \<Rightarrow> 'l \<Rightarrow> time \<Rightarrow> int \<Rightarrow> int res"
    and commit :: "'l \<Rightarrow> time \<Rightarrow> int \<Rightarrow> int \<Rightarrow> 'l"
    and ok :: "'cfg \<Rightarrow> bool"
    and valid :: "'cfg \<Rightarrow> 'l \<Rightarrow> bool"
  assumes prepared_covered: "ok cfg \<Longrightarrow> prepare cfg l now cost = Ok r \<Longrightarrow> valid cfg l \<and> 0 \<le> cost \<and> cost \<le> balance cfg l now"
    and commit_balance: "ok cfg \<Longrightarrow> prepare cfg l now cost = Ok r \<Longrightarrow>
      balance cfg (commit l now cost r) now = balance cfg l now - cost"
    and commit_keeps_valid: "ok cfg \<Longrightarrow> prepare cfg l now cost = Ok r \<Longrightarrow> valid cfg (commit l now cost r)"
    and prepare_total: "prepare cfg l now cost \<noteq> Panic"
begin

text \<open>An action runs between preparing and committing; its failure leaves the ledger alone.\<close>

definition charged :: "'cfg \<Rightarrow> 'l \<Rightarrow> time \<Rightarrow> int \<Rightarrow> 'a res \<Rightarrow> ('l \<times> 'a) res" where
  "charged cfg l now cost act =
     rbind (prepare cfg l now cost) (\<lambda>r. rbind act (\<lambda>x. Ok (commit l now cost r, x)))"

lemma charged_once:
  assumes "ok cfg" and "charged cfg l now cost act = Ok (l', x)"
  shows "act = Ok x \<and> valid cfg l \<and> valid cfg l' \<and> 0 \<le> cost \<and> cost \<le> balance cfg l now \<and>
    balance cfg l' now = balance cfg l now - cost"
  using assms prepared_covered commit_balance commit_keeps_valid by (auto simp: charged_def)

lemma charged_Panic: "charged cfg l now cost act = Panic \<Longrightarrow> act = Panic"
  using prepare_total by (auto simp: charged_def rbind_eq_Panic)

lemma charged_Fail: "charged cfg l now cost act = Fail e \<Longrightarrow> prepare cfg l now cost = Fail e \<or> act = Fail e"
  by (auto simp: charged_def rbind_eq_Fail)

end

interpretation lab_ledger: energy_ledger
  "\<lambda>cfg l now. LabState_CurrentEnergy l now cfg"
  "\<lambda>cfg l now cost. prepareLabEnergySpend l now cost cfg"
  commitLabEnergySpend lab_config_ok lab_valid
  by unfold_locales (auto simp: commit_valid elim: prepareLabEnergySpend_OkE)

end
