(* ===== verification/Commands.thy ===== *)
theory Commands
  imports Roster Lab
begin

text \<open>
  The commands on a portal and its observers: sending, recalling and closing
  (\<open>internal/domain/observer_commands.go\<close>, \<open>portal_observer_close.go\<close>) and their versions
  that charge the laboratory (\<open>lab_energy_commands.go\<close>).  The guards stand in the order of
  the code, so the first one that fails decides the error.  Sending and recalling change
  nothing on an error.  Closing can fail after the portal is closed, so it returns the
  state beside the error.
\<close>

section \<open>Sending and recalling\<close>

definition validateObserverCommandAggregate :: "Portal \<Rightarrow> Plane \<Rightarrow> Observer list \<Rightarrow> time \<Rightarrow> unit res" where
  "validateObserverCommandAggregate portal plane observers now =
     (if pl_ID plane \<noteq> p_DestinationPlaneID portal then Fail ErrObserverInvariant
      else validateObserverRoster observers now)"

definition SendObserver ::
    "Portal \<Rightarrow> Plane \<Rightarrow> Observer list \<Rightarrow> time \<Rightarrow> bool \<Rightarrow> 'r rnd \<Rightarrow> Config \<Rightarrow> 'r \<Rightarrow>
     (int \<times> Portal \<times> Observer list \<times> 'r) res" where
  "SendObserver portal plane observers now confirmUnstable rnd cfg r =
     rbind (validateObserverCommandAggregate portal plane observers now) (\<lambda>_.
       if p_Status portal \<noteq> PortalStatusOpen then Fail ErrPortalNotOpen
       else if Portal_RiskLevel portal now cfg = Some RiskCritical then Fail ErrPortalCriticalRisk
       else if p_ObserverFlow portal = PortalFlowInbound then Fail ErrPortalDirectionConflict
       else rbind (Portal_CreaturesInside portal now cfg) (\<lambda>creatures.
         if 0 < creatures then Fail ErrPortalCreaturesPresent
         else rbind (ActiveTransitObserverIndex observers (p_ID portal) now) (\<lambda>busy.
           if busy \<noteq> None then Fail ErrPortalBusy
           else (case AvailableObserverIndex observers of
                   None \<Rightarrow> Fail ErrNoAvailableObserver
                 | Some index \<Rightarrow>
                     if p_Stability portal = PortalUnstable \<and> \<not> confirmUnstable
                     then Fail ErrConfirmationRequired
                     else rbind (StartOutbound (observers ! index) now (p_ID portal) rnd cfg r)
                       (\<lambda>(ob, r'). Ok (o_ID ob,
                          if p_ObserverFlow portal = PortalFlowNone
                          then portal\<lparr>p_ObserverFlow := PortalFlowOutbound, p_UpdatedAt := now\<rparr>
                          else portal,
                          observers[index := ob], r'))))))"

definition recallObserverPrepared ::
    "Portal \<Rightarrow> Observer list \<Rightarrow> time \<Rightarrow> bool \<Rightarrow> 'r rnd \<Rightarrow> Config \<Rightarrow> 'r \<Rightarrow>
     (int \<times> Portal \<times> Observer list \<times> 'r) res" where
  "recallObserverPrepared portal observers now confirmUnstable rnd cfg r =
     (if p_Status portal \<noteq> PortalStatusOpen then Fail ErrPortalNotOpen
      else if p_Kind portal = PortalKindExtraction \<and> p_ExtractionSynchronizedAt portal = None
      then Fail ErrExtractionSynchronizing
      else if Portal_RiskLevel portal now cfg = Some RiskCritical then Fail ErrPortalCriticalRisk
      else if p_ObserverFlow portal = PortalFlowOutbound then Fail ErrPortalDirectionConflict
      else rbind (Portal_CreaturesInside portal now cfg) (\<lambda>creatures.
        if 0 < creatures then Fail ErrPortalCreaturesPresent
        else rbind (ActiveTransitObserverIndex observers (p_ID portal) now) (\<lambda>busy.
          if busy \<noteq> None then Fail ErrPortalBusy
          else rbind (LongestWaitingObserverIndex observers (p_DestinationPlaneID portal))
            (\<lambda>waiting. case waiting of
                None \<Rightarrow> Fail ErrNoWaitingObserver
              | Some index \<Rightarrow>
                  if p_Stability portal = PortalUnstable \<and> \<not> confirmUnstable
                  then Fail ErrConfirmationRequired
                  else rbind (StartReturning (observers ! index) now (p_ID portal) rnd cfg r)
                    (\<lambda>(ob, r'). Ok (o_ID ob,
                       if p_ObserverFlow portal = PortalFlowNone
                       then portal\<lparr>p_ObserverFlow := PortalFlowInbound, p_UpdatedAt := now\<rparr>
                       else portal,
                       observers[index := ob], r'))))))"

definition RecallObserver ::
    "Portal \<Rightarrow> Plane \<Rightarrow> Observer list \<Rightarrow> time \<Rightarrow> bool \<Rightarrow> 'r rnd \<Rightarrow> Config \<Rightarrow> 'r \<Rightarrow>
     (int \<times> Portal \<times> Observer list \<times> 'r) res" where
  "RecallObserver portal plane observers now confirmUnstable rnd cfg r =
     rbind (validateObserverCommandAggregate portal plane observers now)
       (\<lambda>_. recallObserverPrepared portal observers now confirmUnstable rnd cfg r)"

definition SendObserverWithLabEnergy ::
    "LabState \<Rightarrow> Portal \<Rightarrow> Plane \<Rightarrow> Observer list \<Rightarrow> time \<Rightarrow> bool \<Rightarrow> 'r rnd \<Rightarrow> Config \<Rightarrow> 'r \<Rightarrow>
     (int \<times> Portal \<times> Observer list \<times> 'r) res" where
  "SendObserverWithLabEnergy lab portal plane observers now confirmUnstable rnd cfg r =
     rbind (prepareLabEnergySpend lab now 0 cfg)
       (\<lambda>_. SendObserver portal plane observers now confirmUnstable rnd cfg r)"

definition RecallObserverWithLabEnergy ::
    "LabState \<Rightarrow> Portal \<Rightarrow> Plane \<Rightarrow> Observer list \<Rightarrow> time \<Rightarrow> bool \<Rightarrow> 'r rnd \<Rightarrow> Config \<Rightarrow> 'r \<Rightarrow>
     (int \<times> Portal \<times> Observer list \<times> 'r) res" where
  "RecallObserverWithLabEnergy lab portal plane observers now confirmUnstable rnd cfg r =
     rbind (prepareLabEnergySpend lab now 0 cfg)
       (\<lambda>_. RecallObserver portal plane observers now confirmUnstable rnd cfg r)"

section \<open>Closing\<close>

definition ClosePortalWithObservers ::
    "Portal \<Rightarrow> Plane \<Rightarrow> Observer list \<Rightarrow> time \<Rightarrow> bool \<Rightarrow> Config \<Rightarrow>
     (Portal \<times> Plane \<times> Observer list) \<times> unit res" where
  "ClosePortalWithObservers portal plane observers now confirm cfg =
     (case rbind (validateObserverCommandAggregate portal plane observers now) (\<lambda>_.
             if p_Status portal \<noteq> PortalStatusOpen then Fail ErrPortalNotOpen
             else rbind (ActiveTransitObserverIndex observers (p_ID portal) now) (\<lambda>active.
               if active \<noteq> None \<and> \<not> confirm then Fail ErrConfirmationRequired
               else rbind (Portal_Close portal now confirm cfg)
                 (\<lambda>shut. Ok (active, shut)))) of
        Fail e \<Rightarrow> ((portal, plane, observers), Fail e)
      | Panic \<Rightarrow> ((portal, plane, observers), Panic)
      | Ok (None, shut) \<Rightarrow> ((shut, plane, observers), Ok ())
      | Ok (Some index, shut) \<Rightarrow>
          (case ResolveObserverLifecycle (observers ! index) (Some plane) (Some shut) now cfg of
             ((ob, plane'), result) \<Rightarrow>
               ((shut, case plane' of Some pl \<Rightarrow> pl | None \<Rightarrow> plane, observers[index := ob]), result)))"

definition effectiveCloseCost :: "LabState \<Rightarrow> time \<Rightarrow> Config \<Rightarrow> int" where
  "effectiveCloseCost lab now cfg = (if LeylineOverrideActive lab now cfg then 0 else CloseCost cfg)"

definition effectiveStabilizeCost :: "LabState \<Rightarrow> time \<Rightarrow> Config \<Rightarrow> int" where
  "effectiveStabilizeCost lab now cfg = (if LeylineOverrideActive lab now cfg then 0 else StabilizeCost cfg)"

definition ClosePortalWithLabEnergy ::
    "LabState \<Rightarrow> Portal \<Rightarrow> Plane \<Rightarrow> Observer list \<Rightarrow> time \<Rightarrow> bool \<Rightarrow> Config \<Rightarrow>
     (LabState \<times> Portal \<times> Plane \<times> Observer list) \<times> unit res" where
  "ClosePortalWithLabEnergy lab portal plane observers now confirm cfg =
     (let cost = effectiveCloseCost lab now cfg
      in case prepareLabEnergySpend lab now cost cfg of
           Fail e \<Rightarrow> ((lab, portal, plane, observers), Fail e)
         | Panic \<Rightarrow> ((lab, portal, plane, observers), Panic)
         | Ok remaining \<Rightarrow>
             (case ClosePortalWithObservers portal plane observers now confirm cfg of
                (st, Ok u) \<Rightarrow> ((commitLabEnergySpend lab now cost remaining, st), Ok u)
              | (st, failure) \<Rightarrow> ((lab, st), failure)))"

definition StabilizePortalWithLabEnergy ::
    "LabState \<Rightarrow> Portal \<Rightarrow> time \<Rightarrow> Config \<Rightarrow> (LabState \<times> Portal) res" where
  "StabilizePortalWithLabEnergy lab portal now cfg =
     (let cost = effectiveStabilizeCost lab now cfg
      in rbind (prepareLabEnergySpend lab now cost cfg) (\<lambda>remaining.
           rbind (Portal_Stabilize portal now cfg) (\<lambda>portal'.
             Ok (commitLabEnergySpend lab now cost remaining, portal'))))"

section \<open>Sending\<close>

text \<open>Transit durations: nonnegative whole seconds, not empty, and without overflow.\<close>

definition transit_config_ok :: "Config \<Rightarrow> bool" where
  "transit_config_ok cfg \<longleftrightarrow>
     Second \<le> ObserverTransitMin cfg \<and> ObserverTransitMin cfg \<le> ObserverTransitMax cfg \<and>
     int64_range (ObserverTransitMax cfg)"

lemma transit_config_ok_Default [simp]: "transit_config_ok Default"
  by (simp add: transit_config_ok_def Default_def int64_range_def)

lemma transit_seconds:
  assumes "transit_config_ok cfg"
  shows "ObserverTransitMin cfg sdiv Second = ObserverTransitMin cfg div Second"
    and "ObserverTransitMax cfg sdiv Second = ObserverTransitMax cfg div Second"
    and "1 \<le> ObserverTransitMin cfg div Second"
    and "ObserverTransitMin cfg div Second \<le> ObserverTransitMax cfg div Second"
    and "ObserverTransitMax cfg div Second \<le> 9223372036"
  using assms by (auto simp: transit_config_ok_def int64_range_def sdiv_nonneg intro!: zdiv_mono1)


context random_source
begin

lemma drawTransitEnd_Ok:
  assumes "transit_config_ok cfg"
  obtains d r' where "drawTransitEnd now (Some R) cfg r = Ok (Add now (d * Second), r')"
    and "ObserverTransitMin cfg div Second \<le> d" and "d \<le> ObserverTransitMax cfg div Second"
    and "0 < d" and "int64_range (d * Second)"
proof -
  note t = transit_seconds [OF assms]
  obtain d r' where d: "drawInt (Some R) r (ObserverTransitMin cfg div Second) (ObserverTransitMax cfg div Second)
      = Ok (d, r')"
    "ObserverTransitMin cfg div Second \<le> d" "d \<le> ObserverTransitMax cfg div Second"
    using drawInt_cases [of "ObserverTransitMin cfg div Second" "ObserverTransitMax cfg div Second" r] t by auto
  have w: "int64_range (d * Second)" using d t by (auto simp: int64_range_def)
  then have "drawTransitEnd now (Some R) cfg r = Ok (Add now (d * Second), r')"
    using d by (simp add: drawTransitEnd_def t wrap64_id)
  then show thesis using that d t w by auto
qed

end

text \<open>What a transit start leaves of the observer.\<close>

definition sent :: "Observer \<Rightarrow> time \<Rightarrow> int \<Rightarrow> time \<Rightarrow> Observer" where
  "sent ob now portalID endsAt = ob\<lparr>o_Status := ObserverOutbound, o_CurrentPlaneID := None,
     o_ActivePortalID := Some portalID, o_PhaseStartedAt := Some now,
     o_PhaseEndsAt := Some endsAt, o_UpdatedAt := now\<rparr>"

definition recalled :: "Observer \<Rightarrow> time \<Rightarrow> int \<Rightarrow> time \<Rightarrow> Observer" where
  "recalled ob now portalID endsAt = ob\<lparr>o_Status := ObserverReturning,
     o_ActivePortalID := Some portalID, o_PhaseStartedAt := Some now,
     o_PhaseEndsAt := Some endsAt, o_UpdatedAt := now\<rparr>"

definition with_flow :: "Portal \<Rightarrow> PortalFlow \<Rightarrow> time \<Rightarrow> Portal" where
  "with_flow portal flow now =
     (if p_ObserverFlow portal = PortalFlowNone
      then portal\<lparr>p_ObserverFlow := flow, p_UpdatedAt := now\<rparr> else portal)"

definition transit_length_ok :: "Config \<Rightarrow> time \<Rightarrow> time \<Rightarrow> bool" where
  "transit_length_ok cfg now endsAt \<longleftrightarrow>
     (\<exists>d. ns endsAt = ns now + d * Second \<and> ObserverTransitMin cfg div Second \<le> d \<and>
          d \<le> ObserverTransitMax cfg div Second \<and> 0 < d)"

lemma sent_fields_ok: "transit_length_ok cfg now endsAt \<Longrightarrow> observer_fields_ok (sent ob now pid endsAt) now"
  by (auto simp: transit_length_ok_def sent_def observer_fields_ok.simps validActiveTransit_def)

lemma recalled_fields_ok:
  "transit_length_ok cfg now endsAt \<Longrightarrow> o_CurrentPlaneID ob \<noteq> None \<Longrightarrow>
   observer_fields_ok (recalled ob now pid endsAt) now"
  by (auto simp: transit_length_ok_def recalled_def observer_fields_ok.simps validActiveTransit_def)

lemma StartOutbound_Ok:
  assumes "random_source R" and "transit_config_ok cfg" and "o_Status ob = ObserverAvailable"
  obtains endsAt r' where "StartOutbound ob now pid (Some R) cfg r = Ok (sent ob now pid endsAt, r')"
    and "transit_length_ok cfg now endsAt"
proof -
  obtain d r' where "drawTransitEnd now (Some R) cfg r = Ok (Add now (d * Second), r')"
    "ObserverTransitMin cfg div Second \<le> d" "d \<le> ObserverTransitMax cfg div Second" "0 < d"
    using random_source.drawTransitEnd_Ok [OF assms(1,2)] by metis
  then show thesis
    using assms(3) by (intro that) (auto simp: StartOutbound_def sent_def transit_length_ok_def)
qed

lemma StartReturning_Ok:
  assumes "random_source R" and "transit_config_ok cfg" and "o_Status ob = ObserverWaitingReturn"
    and "o_CurrentPlaneID ob \<noteq> None"
  obtains endsAt r' where "StartReturning ob now pid (Some R) cfg r = Ok (recalled ob now pid endsAt, r')"
    and "transit_length_ok cfg now endsAt"
proof -
  obtain d r' where "drawTransitEnd now (Some R) cfg r = Ok (Add now (d * Second), r')"
    "ObserverTransitMin cfg div Second \<le> d" "d \<le> ObserverTransitMax cfg div Second" "0 < d"
    using random_source.drawTransitEnd_Ok [OF assms(1,2)] by metis
  then show thesis
    using assms(3,4) by (intro that) (auto simp: StartReturning_def recalled_def transit_length_ok_def)
qed

section \<open>The admission rules\<close>

text \<open>
  The rules for a command as an ordered list of conditions that reject it, each with its
  error.  The creature count is the one of \<open>CreaturesInside\<close>, here as a total function.
\<close>

definition creatures_at :: "Portal \<Rightarrow> time \<Rightarrow> Config \<Rightarrow> int" where
  "creatures_at p now cfg =
     max 0 (p_CreaturesInitial p - max 0 (Sub (frozen_now p now) (p_OpenedAt p)) div CreatureTransit cfg)"

definition creatures_ok :: "Config \<Rightarrow> Portal \<Rightarrow> bool" where
  "creatures_ok cfg p \<longleftrightarrow> 0 < CreatureTransit cfg \<and> 0 \<le> p_CreaturesInitial p \<and> int64_range (p_CreaturesInitial p)"

lemma CreaturesInside_at: "creatures_ok cfg p \<Longrightarrow> Portal_CreaturesInside p now cfg = Ok (creatures_at p now cfg)"
  by (simp add: creatures_ok_def creatures_at_def Portal_CreaturesInside_eq)

definition send_rejections :: "Portal \<Rightarrow> Observer list \<Rightarrow> time \<Rightarrow> bool \<Rightarrow> Config \<Rightarrow> (bool \<times> error) list" where
  "send_rejections portal observers now confirm cfg =
     [(p_Status portal \<noteq> PortalStatusOpen, ErrPortalNotOpen),
      (Portal_RiskLevel portal now cfg = Some RiskCritical, ErrPortalCriticalRisk),
      (p_ObserverFlow portal = PortalFlowInbound, ErrPortalDirectionConflict),
      (0 < creatures_at portal now cfg, ErrPortalCreaturesPresent),
      (\<exists>ob\<in>set observers. at_portal (p_ID portal) ob, ErrPortalBusy),
      (\<forall>ob\<in>set observers. o_Status ob \<noteq> ObserverAvailable, ErrNoAvailableObserver),
      (p_Stability portal = PortalUnstable \<and> \<not> confirm, ErrConfirmationRequired)]"

definition recall_rejections :: "Portal \<Rightarrow> Observer list \<Rightarrow> time \<Rightarrow> bool \<Rightarrow> Config \<Rightarrow> (bool \<times> error) list" where
  "recall_rejections portal observers now confirm cfg =
     [(p_Status portal \<noteq> PortalStatusOpen, ErrPortalNotOpen),
      (p_Kind portal = PortalKindExtraction \<and> p_ExtractionSynchronizedAt portal = None, ErrExtractionSynchronizing),
      (Portal_RiskLevel portal now cfg = Some RiskCritical, ErrPortalCriticalRisk),
      (p_ObserverFlow portal = PortalFlowOutbound, ErrPortalDirectionConflict),
      (0 < creatures_at portal now cfg, ErrPortalCreaturesPresent),
      (\<exists>ob\<in>set observers. at_portal (p_ID portal) ob, ErrPortalBusy),
      (\<forall>ob\<in>set observers. \<not> waits_in (p_DestinationPlaneID portal) ob, ErrNoWaitingObserver),
      (p_Stability portal = PortalUnstable \<and> \<not> confirm, ErrConfirmationRequired)]"

text \<open>The aggregate a command works on: its plane, a valid roster, one transit at most.\<close>

definition command_aggregate_ok :: "Portal \<Rightarrow> Plane \<Rightarrow> Observer list \<Rightarrow> time \<Rightarrow> bool" where
  "command_aggregate_ok portal plane observers now \<longleftrightarrow>
     pl_ID plane = p_DestinationPlaneID portal \<and> roster_ok observers now \<and>
     length (filter (at_portal (p_ID portal)) observers) \<le> 1"

lemma validate_aggregate:
  "pl_ID plane = p_DestinationPlaneID portal \<Longrightarrow> roster_ok observers now \<Longrightarrow>
   validateObserverCommandAggregate portal plane observers now = Ok ()"
  by (simp add: validateObserverCommandAggregate_def validateObserverRoster_eq)

lemma validate_aggregate_OkD:
  "validateObserverCommandAggregate portal plane observers now = Ok u \<Longrightarrow>
   pl_ID plane = p_DestinationPlaneID portal \<and> roster_ok observers now"
  by (auto simp: validateObserverCommandAggregate_def validateObserverRoster_eq split: if_splits)

lemma length_filter_indices: "length (filter (\<lambda>i. P (xs ! i)) [0..<length xs]) = length (filter P xs)"
proof -
  have "filter P xs = map ((!) xs) (filter (\<lambda>i. P (xs ! i)) [0..<length xs])"
    by (simp add: map_filter_map_filter [symmetric] map_nth flip: filter_map [unfolded comp_def])
  then show ?thesis by simp
qed

lemma ActiveTransit_total:
  assumes "roster_ok observers now" and "length (filter (at_portal portalID) observers) \<le> 1"
  shows "\<exists>q. ActiveTransitObserverIndex observers portalID now = Ok q \<and>
    (q = None \<longleftrightarrow> (\<forall>ob\<in>set observers. \<not> at_portal portalID ob))"
proof -
  let ?is = "filter (\<lambda>i. at_portal portalID (observers ! i)) [0..<length observers]"
  have "\<forall>ob\<in>set observers. observer_fields_ok ob now" using assms(1) by (simp add: roster_ok_def)
  note eq = ActiveTransit_eq [OF this, of portalID]
  have len: "length ?is \<le> 1" using assms(2) by (simp add: length_filter_indices)
  have none: "?is = [] \<longleftrightarrow> (\<forall>ob\<in>set observers. \<not> at_portal portalID ob)"
    using nth_mem [of _ observers] by (auto simp: filter_empty_conv in_set_conv_nth)
  show ?thesis
  proof (cases ?is)
    case Nil
    then show ?thesis using eq none by simp
  next
    case (Cons i js)
    then have "js = []" using len by simp
    then show ?thesis using eq none Cons by simp
  qed
qed

lemma SendObserver_cases:
  assumes agg: "command_aggregate_ok portal plane observers now" and cr: "creatures_ok cfg portal"
    and "transit_config_ok cfg" and "random_source R"
  shows "(case find fst (send_rejections portal observers now confirm cfg) of
      Some (_, e) \<Rightarrow> SendObserver portal plane observers now confirm (Some R) cfg r = Fail e
    | None \<Rightarrow> \<exists>i endsAt r'. AvailableObserverIndex observers = Some i \<and> transit_length_ok cfg now endsAt \<and>
        SendObserver portal plane observers now confirm (Some R) cfg r =
          Ok (o_ID (observers ! i), with_flow portal PortalFlowOutbound now,
              observers[i := sent (observers ! i) now (p_ID portal) endsAt], r'))"
proof -
  obtain q where q: "ActiveTransitObserverIndex observers (p_ID portal) now = Ok q"
    "q = None \<longleftrightarrow> (\<forall>ob\<in>set observers. \<not> at_portal (p_ID portal) ob)"
    using ActiveTransit_total agg unfolding command_aggregate_ok_def by blast
  have v: "validateObserverCommandAggregate portal plane observers now = Ok ()"
    using agg by (intro validate_aggregate) (simp_all add: command_aggregate_ok_def)
  note unf = SendObserver_def v CreaturesInside_at [OF cr] q(1)
  have rej: "send_rejections portal observers now confirm cfg =
     [(p_Status portal \<noteq> PortalStatusOpen, ErrPortalNotOpen),
      (Portal_RiskLevel portal now cfg = Some RiskCritical, ErrPortalCriticalRisk),
      (p_ObserverFlow portal = PortalFlowInbound, ErrPortalDirectionConflict),
      (0 < creatures_at portal now cfg, ErrPortalCreaturesPresent),
      (q \<noteq> None, ErrPortalBusy), (AvailableObserverIndex observers = None, ErrNoAvailableObserver),
      (p_Stability portal = PortalUnstable \<and> \<not> confirm, ErrConfirmationRequired)]"
    by (simp add: send_rejections_def Available_None_iff q(2) del: not_None_eq)
  show ?thesis
  proof (cases "find fst (send_rejections portal observers now confirm cfg)")
    case (Some x)
    then show ?thesis
      unfolding rej by (auto simp: unf split: if_splits option.splits)
  next
    case None
    have n: "p_Status portal = PortalStatusOpen" "Portal_RiskLevel portal now cfg \<noteq> Some RiskCritical"
      "p_ObserverFlow portal \<noteq> PortalFlowInbound" "\<not> 0 < creatures_at portal now cfg" "q = None"
      "AvailableObserverIndex observers \<noteq> None" "\<not> (p_Stability portal = PortalUnstable \<and> \<not> confirm)"
      using None by (simp_all add: rej del: not_None_eq split: if_splits)
    then obtain i where i: "AvailableObserverIndex observers = Some i" by auto
    obtain endsAt r' where st: "StartOutbound (observers ! i) now (p_ID portal) (Some R) cfg r =
        Ok (sent (observers ! i) now (p_ID portal) endsAt, r')" and tl: "transit_length_ok cfg now endsAt"
      using StartOutbound_Ok assms(3,4) Available_SomeD(2) [OF i] by metis
    have "SendObserver portal plane observers now confirm (Some R) cfg r =
        Ok (o_ID (observers ! i), with_flow portal PortalFlowOutbound now,
            observers[i := sent (observers ! i) now (p_ID portal) endsAt], r')"
      using n st i by (simp add: unf with_flow_def) (simp add: sent_def)
    then show ?thesis using None i tl by auto
  qed
qed

text \<open>
  C31: \<open>SendObserver\<close> rejects a command by the first rule that applies, in the documented
  order, and changes nothing then; when no rule applies it succeeds: the available observer
  with the lowest ID leaves for the portal, for a drawn whole number of seconds within the
  configured bounds, and the portal's direction is fixed to outbound.
\<close>

theorem SendObserver_admission:
  assumes "command_aggregate_ok portal plane observers now" and "creatures_ok cfg portal"
    and "transit_config_ok cfg" and "random_source R"
  shows "(case find fst (send_rejections portal observers now confirm cfg) of
      Some (_, e) \<Rightarrow> SendObserver portal plane observers now confirm (Some R) cfg r = Fail e
    | None \<Rightarrow> \<exists>i endsAt r'. AvailableObserverIndex observers = Some i \<and> transit_length_ok cfg now endsAt \<and>
        SendObserver portal plane observers now confirm (Some R) cfg r =
          Ok (o_ID (observers ! i), with_flow portal PortalFlowOutbound now,
              observers[i := sent (observers ! i) now (p_ID portal) endsAt], r'))"
  by (rule SendObserver_cases [OF assms])

lemma RecallObserver_cases:
  assumes agg: "command_aggregate_ok portal plane observers now" and cr: "creatures_ok cfg portal"
    and "transit_config_ok cfg" and "random_source R"
  shows "(case find fst (recall_rejections portal observers now confirm cfg) of
      Some (_, e) \<Rightarrow> RecallObserver portal plane observers now confirm (Some R) cfg r = Fail e
    | None \<Rightarrow> \<exists>i endsAt r'. LongestWaitingObserverIndex observers (p_DestinationPlaneID portal) = Ok (Some i) \<and>
        transit_length_ok cfg now endsAt \<and>
        RecallObserver portal plane observers now confirm (Some R) cfg r =
          Ok (o_ID (observers ! i), with_flow portal PortalFlowInbound now,
              observers[i := recalled (observers ! i) now (p_ID portal) endsAt], r'))"
proof -
  let ?dest = "p_DestinationPlaneID portal"
  have roster: "roster_ok observers now" using agg by (simp add: command_aggregate_ok_def)
  obtain q where q: "ActiveTransitObserverIndex observers (p_ID portal) now = Ok q"
    "q = None \<longleftrightarrow> (\<forall>ob\<in>set observers. \<not> at_portal (p_ID portal) ob)"
    using ActiveTransit_total agg unfolding command_aggregate_ok_def by blast
  obtain w where w: "LongestWaitingObserverIndex observers ?dest = Ok w"
    using LongestWaiting_total [OF roster] by blast
  have w_None: "w = None \<longleftrightarrow> (\<forall>ob\<in>set observers. \<not> waits_in ?dest ob)"
    using LongestWaiting_None_iff [OF roster, of ?dest] w by simp
  have v: "validateObserverCommandAggregate portal plane observers now = Ok ()"
    using agg by (intro validate_aggregate) (simp_all add: command_aggregate_ok_def)
  note unf = RecallObserver_def recallObserverPrepared_def v CreaturesInside_at [OF cr] q(1) w
  have rej: "recall_rejections portal observers now confirm cfg =
     [(p_Status portal \<noteq> PortalStatusOpen, ErrPortalNotOpen),
      (p_Kind portal = PortalKindExtraction \<and> p_ExtractionSynchronizedAt portal = None, ErrExtractionSynchronizing),
      (Portal_RiskLevel portal now cfg = Some RiskCritical, ErrPortalCriticalRisk),
      (p_ObserverFlow portal = PortalFlowOutbound, ErrPortalDirectionConflict),
      (0 < creatures_at portal now cfg, ErrPortalCreaturesPresent),
      (q \<noteq> None, ErrPortalBusy), (w = None, ErrNoWaitingObserver),
      (p_Stability portal = PortalUnstable \<and> \<not> confirm, ErrConfirmationRequired)]"
    by (simp add: recall_rejections_def w_None q(2) del: not_None_eq)
  show ?thesis
  proof (cases "find fst (recall_rejections portal observers now confirm cfg)")
    case (Some x)
    then show ?thesis
      unfolding rej by (auto simp: unf split: if_splits option.splits)
  next
    case None
    have n: "p_Status portal = PortalStatusOpen"
      "\<not> (p_Kind portal = PortalKindExtraction \<and> p_ExtractionSynchronizedAt portal = None)"
      "Portal_RiskLevel portal now cfg \<noteq> Some RiskCritical"
      "p_ObserverFlow portal \<noteq> PortalFlowOutbound" "\<not> 0 < creatures_at portal now cfg" "q = None"
      "w \<noteq> None" "\<not> (p_Stability portal = PortalUnstable \<and> \<not> confirm)"
      using None by (simp_all add: rej del: not_None_eq split: if_splits)
    then obtain i where i: "w = Some i" by auto
    have "waits_in ?dest (observers ! i)" using LongestWaiting_SomeD(2) [OF roster] w i by simp
    then obtain endsAt r' where st: "StartReturning (observers ! i) now (p_ID portal) (Some R) cfg r =
        Ok (recalled (observers ! i) now (p_ID portal) endsAt, r')" and tl: "transit_length_ok cfg now endsAt"
      using StartReturning_Ok [OF assms(4,3), of "observers ! i" now "p_ID portal" r]
      by (simp add: waits_in_def) blast
    have "RecallObserver portal plane observers now confirm (Some R) cfg r =
        Ok (o_ID (observers ! i), with_flow portal PortalFlowInbound now,
            observers[i := recalled (observers ! i) now (p_ID portal) endsAt], r')"
      using n st i by (simp add: unf with_flow_def) (simp add: recalled_def)
    then show ?thesis using None i w tl by auto
  qed
qed

text \<open>
  C27: \<open>RecallObserver\<close> rejects by the first rule that applies, among them an extraction
  portal that has not synchronized; otherwise the observer that has waited longest in the
  portal's plane starts back, keeping its plane until it arrives, and an unused portal
  becomes inbound.
\<close>

theorem RecallObserver_admission:
  assumes "command_aggregate_ok portal plane observers now" and "creatures_ok cfg portal"
    and "transit_config_ok cfg" and "random_source R"
  shows "(case find fst (recall_rejections portal observers now confirm cfg) of
      Some (_, e) \<Rightarrow> RecallObserver portal plane observers now confirm (Some R) cfg r = Fail e
    | None \<Rightarrow> \<exists>i endsAt r'. LongestWaitingObserverIndex observers (p_DestinationPlaneID portal) = Ok (Some i) \<and>
        transit_length_ok cfg now endsAt \<and>
        RecallObserver portal plane observers now confirm (Some R) cfg r =
          Ok (o_ID (observers ! i), with_flow portal PortalFlowInbound now,
              observers[i := recalled (observers ! i) now (p_ID portal) endsAt], r'))"
  by (rule RecallObserver_cases [OF assms])

text \<open>A transit that starts in an idle portal keeps the aggregate valid.\<close>

lemma one_transit_update:
  assumes "\<forall>ob\<in>set observers. \<not> at_portal pid ob" and "i < length observers"
  shows "length (filter (at_portal pid) (observers[i := ob])) \<le> 1"
proof -
  have "filter (at_portal pid) (take i observers) = []" "filter (at_portal pid) (drop (Suc i) observers) = []"
    using assms(1) by (auto simp: filter_empty_conv dest: in_set_takeD in_set_dropD)
  then show ?thesis by (simp add: upd_conv_take_nth_drop [OF assms(2)])
qed

lemma transit_keeps_aggregate:
  assumes "command_aggregate_ok portal plane observers now" and "\<forall>ob\<in>set observers. \<not> at_portal (p_ID portal) ob"
    and "i < length observers" and "o_ID ob = o_ID (observers ! i)" and "observer_fields_ok ob now"
  shows "command_aggregate_ok (with_flow portal flow now) plane (observers[i := ob]) now"
proof -
  have "roster_ok (observers[i := ob]) now"
    using assms(1,3,4,5) by (intro roster_ok_update) (simp_all add: command_aggregate_ok_def)
  then show ?thesis
    using assms(1) one_transit_update [OF assms(2,3), of ob]
    by (simp add: command_aggregate_ok_def with_flow_def)
qed

lemma find_fst_None: "find fst xs = None \<Longrightarrow> (b, e) \<in> set xs \<Longrightarrow> \<not> b"
  by (force simp: find_None_iff)

text \<open>
  Sending or recalling keeps the aggregate valid (distinct IDs, consistent fields, one
  transit per portal), whatever the draw, so the next command finds a valid aggregate.
\<close>

theorem transit_start_keeps_aggregate:
  assumes "command_aggregate_ok portal plane observers now" and "creatures_ok cfg portal"
    and "transit_config_ok cfg" and "random_source R"
    and "SendObserver portal plane observers now confirm (Some R) cfg r = Ok (obID, portal', observers', r') \<or>
         RecallObserver portal plane observers now confirm (Some R) cfg r = Ok (obID, portal', observers', r')"
  shows "command_aggregate_ok portal' plane observers' now \<and>
    (\<exists>ob\<in>set observers'. o_ID ob = obID \<and> at_portal (p_ID portal) ob) \<and>
    map o_ID observers' = map o_ID observers"
  using assms(5)
proof
  have roster: "roster_ok observers now" using assms(1) by (simp add: command_aggregate_ok_def)
  assume ok: "SendObserver portal plane observers now confirm (Some R) cfg r = Ok (obID, portal', observers', r')"
  note c = SendObserver_cases [OF assms(1-4), of confirm r]
  then have n: "find fst (send_rejections portal observers now confirm cfg) = None"
    using ok by (auto split: option.splits prod.splits)
  with c ok obtain i endsAt where i: "AvailableObserverIndex observers = Some i"
    and tl: "transit_length_ok cfg now endsAt"
    and eq: "obID = o_ID (observers ! i)" "portal' = with_flow portal PortalFlowOutbound now"
      "observers' = observers[i := sent (observers ! i) now (p_ID portal) endsAt]"
    by auto
  have idle: "\<forall>ob\<in>set observers. \<not> at_portal (p_ID portal) ob"
    using find_fst_None [OF n, of _ ErrPortalBusy] by (auto simp: send_rejections_def)
  have il: "i < length observers" using Available_SomeD(1) [OF i] .
  have "sent (observers ! i) now (p_ID portal) endsAt \<in> set observers'"
    using il by (simp add: eq(3) set_update_memI)
  then have "\<exists>ob\<in>set observers'. o_ID ob = obID \<and> at_portal (p_ID portal) ob"
    by (rule rev_bexI) (simp add: eq(1) sent_def at_portal_def)
  then show ?thesis
    using transit_keeps_aggregate [OF assms(1) idle il _ sent_fields_ok [OF tl]] eq il
    by (simp add: sent_def map_list_update_same)
next
  have roster: "roster_ok observers now" using assms(1) by (simp add: command_aggregate_ok_def)
  assume ok: "RecallObserver portal plane observers now confirm (Some R) cfg r = Ok (obID, portal', observers', r')"
  note c = RecallObserver_cases [OF assms(1-4), of confirm r]
  then have n: "find fst (recall_rejections portal observers now confirm cfg) = None"
    using ok by (auto split: option.splits prod.splits)
  with c ok obtain i endsAt where i: "LongestWaitingObserverIndex observers (p_DestinationPlaneID portal) = Ok (Some i)"
    and tl: "transit_length_ok cfg now endsAt"
    and eq: "obID = o_ID (observers ! i)" "portal' = with_flow portal PortalFlowInbound now"
      "observers' = observers[i := recalled (observers ! i) now (p_ID portal) endsAt]"
    by auto
  have idle: "\<forall>ob\<in>set observers. \<not> at_portal (p_ID portal) ob"
    using find_fst_None [OF n, of _ ErrPortalBusy] by (auto simp: recall_rejections_def)
  note w = LongestWaiting_SomeD [OF roster i]
  have "o_CurrentPlaneID (observers ! i) \<noteq> None" using w(2) by (simp add: waits_in_def)
  note fok = recalled_fields_ok [OF tl this]
  have "recalled (observers ! i) now (p_ID portal) endsAt \<in> set observers'"
    using w(1) by (simp add: eq(3) set_update_memI)
  then have "\<exists>ob\<in>set observers'. o_ID ob = obID \<and> at_portal (p_ID portal) ob"
    by (rule rev_bexI) (simp add: eq(1) recalled_def at_portal_def)
  then show ?thesis
    using transit_keeps_aggregate [OF assms(1) idle w(1) _ fok] eq w(1)
    by (simp add: recalled_def map_list_update_same)
qed

section \<open>Closing\<close>

lemma closed_portal_fields:
  assumes "Portal_Close portal now confirm cfg = Ok shut"
  shows "p_Status shut = PortalStatusClosed" "p_ClosedAt shut = Some now" "p_ID shut = p_ID portal"
    "p_DestinationPlaneID shut = p_DestinationPlaneID portal" "p_TerminationReason shut = TerminationManualClose"
  using assms by (auto elim!: Portal_Close_OkE)

lemma closing_loses_transit:
  assumes "observer_fields_ok ob now" and "at_portal (p_ID portal) ob"
    and "pl_ID plane = p_DestinationPlaneID portal"
    and "o_Status ob = ObserverReturning \<longrightarrow> o_CurrentPlaneID ob = Some (pl_ID plane)"
    and shut: "Portal_Close portal now confirm cfg = Ok shut"
  shows "ResolveObserverLifecycle ob (Some plane) (Some shut) now cfg = ((lost_at ob now, Some plane), Ok ())"
proof -
  note sh = closed_portal_fields [OF shut]
  have tr: "o_Status ob = ObserverOutbound \<or> o_Status ob = ObserverReturning"
    and ap: "o_ActivePortalID ob = Some (p_ID portal)" using assms(2) by (simp_all add: at_portal_def)
  obtain e where e: "o_PhaseEndsAt ob = Some e" "ns now < ns e" "o_PhaseStartedAt ob \<noteq> None"
    using assms(1) tr by (rule transit_fields) auto
  have "in_transit_ok ob plane shut"
    using tr ap e assms(3,4) sh by (auto simp: in_transit_ok_def)
  from Lifecycle_closed_before [OF this e(1), of now cfg] show ?thesis
    using e(2) sh by (simp add: closed_before_def)
qed

lemma map_unique_update:
  assumes "i < length xs" and "P (xs ! i)" and "\<forall>j<length xs. P (xs ! j) \<longrightarrow> j = i"
  shows "map (\<lambda>x. if P x then f x else x) xs = xs[i := f (xs ! i)]"
proof (intro nth_equalityI)
  fix j assume j: "j < length (map (\<lambda>x. if P x then f x else x) xs)"
  show "map (\<lambda>x. if P x then f x else x) xs ! j = xs[i := f (xs ! i)] ! j"
  proof (cases "j = i")
    case False
    then have "\<not> P (xs ! j)" using assms(3) j by auto
    then show ?thesis using False j by simp
  qed (use assms(1,2) in simp)
qed simp

text \<open>
  Returning observers of a portal come from its plane, as the aggregate's structure
  demands (\<open>simulation_structure.go\<close>).
\<close>

definition returning_from :: "Plane \<Rightarrow> Portal \<Rightarrow> Observer list \<Rightarrow> bool" where
  "returning_from plane portal observers \<longleftrightarrow>
     (\<forall>ob\<in>set observers. at_portal (p_ID portal) ob \<and> o_Status ob = ObserverReturning \<longrightarrow>
        o_CurrentPlaneID ob = Some (pl_ID plane))"

lemma ClosePortalWithObservers_cases:
  assumes "returning_from plane portal observers"
    and "ClosePortalWithObservers portal plane observers now confirm cfg = ((portal', plane', observers'), result)"
  shows "(case result of
      Ok _ \<Rightarrow> Portal_Close portal now confirm cfg = Ok portal' \<and> plane' = plane \<and>
        observers' = map (\<lambda>ob. if at_portal (p_ID portal) ob then lost_at ob now else ob) observers \<and>
        (confirm \<or> (\<forall>ob\<in>set observers. \<not> at_portal (p_ID portal) ob))
    | _ \<Rightarrow> portal' = portal \<and> plane' = plane \<and> observers' = observers)"
proof -
  define m where "m = rbind (validateObserverCommandAggregate portal plane observers now) (\<lambda>_.
             if p_Status portal \<noteq> PortalStatusOpen then Fail ErrPortalNotOpen
             else rbind (ActiveTransitObserverIndex observers (p_ID portal) now) (\<lambda>active.
               if active \<noteq> None \<and> \<not> confirm then Fail ErrConfirmationRequired
               else rbind (Portal_Close portal now confirm cfg)
                 (\<lambda>shut. Ok (active, shut))))"
  have def: "ClosePortalWithObservers portal plane observers now confirm cfg =
     (case m of
        Fail e \<Rightarrow> ((portal, plane, observers), Fail e)
      | Panic \<Rightarrow> ((portal, plane, observers), Panic)
      | Ok (None, shut) \<Rightarrow> ((shut, plane, observers), Ok ())
      | Ok (Some index, shut) \<Rightarrow>
          (case ResolveObserverLifecycle (observers ! index) (Some plane) (Some shut) now cfg of
             ((ob, plane'), result) \<Rightarrow>
               ((shut, case plane' of Some pl \<Rightarrow> pl | None \<Rightarrow> plane, observers[index := ob]), result)))"
    by (simp add: ClosePortalWithObservers_def m_def)
  show ?thesis
  proof (cases m)
    case (Ok x)
    obtain act shut where x: "x = (act, shut)" by (cases x)
    have m: "pl_ID plane = p_DestinationPlaneID portal" "roster_ok observers now"
      "ActiveTransitObserverIndex observers (p_ID portal) now = Ok act"
      "act \<noteq> None \<longrightarrow> confirm" "Portal_Close portal now confirm cfg = Ok shut"
    proof -
      from Ok obtain u where u: "validateObserverCommandAggregate portal plane observers now = Ok u"
        by (auto simp: m_def)
      then show "pl_ID plane = p_DestinationPlaneID portal" "roster_ok observers now"
        by (simp_all add: validate_aggregate_OkD)
      show "ActiveTransitObserverIndex observers (p_ID portal) now = Ok act"
        "act \<noteq> None \<longrightarrow> confirm" "Portal_Close portal now confirm cfg = Ok shut"
        using Ok by (simp_all add: m_def x u split: if_splits) (auto split: if_splits)
    qed
    show ?thesis
    proof (cases act)
      case None
      then have idle: "\<forall>ob\<in>set observers. \<not> at_portal (p_ID portal) ob"
        using ActiveTransit_NoneD [OF m(2)] m(3) by simp
      then have "map (\<lambda>ob. if at_portal (p_ID portal) ob then lost_at ob now else ob) observers = observers"
        by (intro map_idI) simp
      then show ?thesis using assms(2) Ok x None m(5) idle by (auto simp: def)
    next
      case (Some i)
      have i: "i < length observers" "at_portal (p_ID portal) (observers ! i)"
        "\<forall>j<length observers. at_portal (p_ID portal) (observers ! j) \<longrightarrow> j = i"
        using ActiveTransit_SomeD [OF m(2)] m(3) Some by auto
      have "observer_fields_ok (observers ! i) now" using m(2) i(1) by (rule roster_ok_nth)
      moreover have "o_Status (observers ! i) = ObserverReturning \<longrightarrow> o_CurrentPlaneID (observers ! i) = Some (pl_ID plane)"
        using assms(1) i(1,2) by (simp add: returning_from_def)
      ultimately have "ResolveObserverLifecycle (observers ! i) (Some plane) (Some shut) now cfg =
          ((lost_at (observers ! i) now, Some plane), Ok ())"
        using i(2) m(1,5) by (intro closing_loses_transit)
      then have "ClosePortalWithObservers portal plane observers now confirm cfg =
          ((shut, plane, observers[i := lost_at (observers ! i) now]), Ok ())"
        by (simp add: def Ok x Some)
      then show ?thesis
        using assms(2) m(4,5) Some map_unique_update [OF i, of "\<lambda>ob. lost_at ob now"] by auto
    qed
  qed (use assms(2) in \<open>auto simp: def\<close>)
qed

text \<open>
  C33: closing a portal by hand is atomic.  On success the laboratory is charged the
  effective cost once (nothing inside the emergency window), the portal is closed at that
  instant by hand, and exactly the observers in transit through it are lost at that
  instant, which needs the confirmation; on an error nothing changes.
\<close>

theorem ClosePortal_atomic:
  assumes "lab_config_ok cfg" and "returning_from plane portal observers"
    and "ClosePortalWithLabEnergy lab portal plane observers now confirm cfg =
         ((lab', portal', plane', observers'), result)"
  shows "(case result of
      Ok _ \<Rightarrow>
        LabState_CurrentEnergy lab' now cfg =
          LabState_CurrentEnergy lab now cfg - (if LeylineOverrideActive lab now cfg then 0 else CloseCost cfg) \<and>
        0 \<le> LabState_CurrentEnergy lab' now cfg \<and>
        p_Status portal = PortalStatusOpen \<and> p_Status portal' = PortalStatusClosed \<and>
        p_TerminationReason portal' = TerminationManualClose \<and> p_ClosedAt portal' = Some now \<and>
        plane' = plane \<and>
        observers' = map (\<lambda>ob. if at_portal (p_ID portal) ob then lost_at ob now else ob) observers \<and>
        (confirm \<or> observers' = observers)
    | _ \<Rightarrow> lab' = lab \<and> portal' = portal \<and> plane' = plane \<and> observers' = observers)"
proof -
  let ?cost = "effectiveCloseCost lab now cfg"
  obtain st res where c: "ClosePortalWithObservers portal plane observers now confirm cfg = (st, res)"
    by (cases "ClosePortalWithObservers portal plane observers now confirm cfg")
  obtain p1 pl1 obs1 where st: "st = (p1, pl1, obs1)" by (cases st)
  note cases = ClosePortalWithObservers_cases [OF assms(2) c [unfolded st]]
  show ?thesis
  proof (cases "prepareLabEnergySpend lab now ?cost cfg")
    case (Ok remaining)
    show ?thesis
    proof (cases res)
      case (Ok u)
      then have eq: "lab' = commitLabEnergySpend lab now ?cost remaining" "portal' = p1" "plane' = pl1"
        "observers' = obs1" "result = Ok ()"
        using assms(3) \<open>prepareLabEnergySpend lab now ?cost cfg = Ok remaining\<close> c st
        by (auto simp: ClosePortalWithLabEnergy_def Let_def)
      have p: "Portal_Close portal now confirm cfg = Ok p1" "pl1 = plane"
        "obs1 = map (\<lambda>ob. if at_portal (p_ID portal) ob then lost_at ob now else ob) observers"
        "confirm \<or> (\<forall>ob\<in>set observers. \<not> at_portal (p_ID portal) ob)"
        using cases Ok by auto
      have "p_Status portal = PortalStatusOpen" using p(1) by (auto elim: Portal_Close_OkE)
      moreover have "confirm \<or> obs1 = observers"
        using p(3,4) by (auto intro: map_idI)
      moreover have "LabState_CurrentEnergy lab' now cfg = LabState_CurrentEnergy lab now cfg - ?cost"
        unfolding eq(1) by (rule commit_valid(2) [OF \<open>prepareLabEnergySpend lab now ?cost cfg = Ok remaining\<close> assms(1)])
      moreover note CurrentEnergy_range(1) [OF assms(1), of lab' now]
      ultimately show ?thesis
        by (simp add: effectiveCloseCost_def eq(2-5) p(2) closed_portal_fields [OF p(1)] p(3) [symmetric])
    qed (use assms(3) \<open>prepareLabEnergySpend lab now ?cost cfg = Ok remaining\<close> c st cases in
        \<open>auto simp: ClosePortalWithLabEnergy_def Let_def\<close>)
  qed (use assms(3) in \<open>auto simp: ClosePortalWithLabEnergy_def Let_def\<close>)
qed

text \<open>
  Stabilizing charges the effective cost exactly once and only when the portal itself
  accepts; inside the emergency window it is free.
\<close>

theorem StabilizePortal_charges_once:
  assumes "lab_config_ok cfg" and "StabilizePortalWithLabEnergy lab portal now cfg = Ok (lab', portal')"
  shows "Portal_Stabilize portal now cfg = Ok portal' \<and> lab_valid cfg lab' \<and>
    LabState_CurrentEnergy lab' now cfg =
      LabState_CurrentEnergy lab now cfg - (if LeylineOverrideActive lab now cfg then 0 else StabilizeCost cfg) \<and>
    0 \<le> LabState_CurrentEnergy lab' now cfg"
proof -
  have "lab_ledger.charged cfg lab now (effectiveStabilizeCost lab now cfg) (Portal_Stabilize portal now cfg)
      = Ok (lab', portal')"
    using assms(2) by (simp add: lab_ledger.charged_def StabilizePortalWithLabEnergy_def Let_def)
  from lab_ledger.charged_once [OF assms(1) this] show ?thesis
    using CurrentEnergy_range(1) [OF assms(1)] by (simp add: effectiveStabilizeCost_def)
qed

section \<open>Concrete instances\<close>

abbreviation demo_now :: time where "demo_now \<equiv> Time 45000000000 True"

lemma demo_energy: "Portal_CurrentEnergy demo_portal demo_now = Fin 55"
  using Seconds_whole [of 45]
  by (simp add: Portal_CurrentEnergy_def frozen_now_def Portal_IsTerminal_def demo_portal_def
      Sub_def clamp64_def f_sub_def)

lemma demo_effective: "Portal_EffectiveLifetime demo_portal demo_now = 45 * Second"
  by (simp add: Portal_EffectiveLifetime_def Portal_EnergyLifetime_def demo_energy Portal_ScheduledRemaining_def
      Portal_IsTerminal_def) (simp add: demo_portal_def DurationOfSeconds_def int64_range_def Sub_def clamp64_def)

lemma demo_risk: "Portal_RiskLevel demo_portal demo_now Default = Some RiskLow"
proof -
  have "Portal_RiskScore demo_portal demo_now Default = Fin 20"
    using Seconds_whole [of 45] demo_effective
    by (simp add: Portal_RiskScore_def) (simp add: demo_portal_def Default_def f_sub_def)
  then show ?thesis
    by (simp add: Portal_RiskLevel_def Portal_IsTerminal_def risk_band_Fin) (simp add: demo_portal_def)
qed

definition demo_roster :: "Observer list" where
  "demo_roster = [NewObserver 1 (Time 0 True),
     (NewObserver 2 (Time 0 True))\<lparr>o_Status := ObserverWaitingReturn, o_CurrentPlaneID := Some 1,
        o_PhaseStartedAt := Some (Time 0 True)\<rparr>]"

lemma demo_aggregate: "command_aggregate_ok demo_portal demo_plane demo_roster demo_now"
  by (simp add: command_aggregate_ok_def demo_portal_def demo_plane_def demo_roster_def roster_ok_def
      NewObserver_def observer_fields_ok.simps at_portal_def)

lemma demo_creatures_ok: "creatures_ok Default demo_portal"
  by (simp add: creatures_ok_def demo_portal_def Default_def int64_range_def)

lemma demo_creatures: "creatures_at demo_portal demo_now Default = 0"
  by (simp add: creatures_at_def demo_portal_def Default_def frozen_now_def Portal_IsTerminal_def Sub_def clamp64_def)

lemma demo_admits:
  "find fst (send_rejections demo_portal demo_roster demo_now True Default) = None"
  "find fst (recall_rejections demo_portal demo_roster demo_now True Default) = None"
  by (simp_all add: send_rejections_def recall_rejections_def demo_risk demo_creatures)
    (simp_all add: demo_portal_def demo_roster_def NewObserver_def at_portal_def waits_in_def)

theorem SendObserver_admission_witness:
  "\<exists>x. SendObserver demo_portal demo_plane demo_roster demo_now True (Some availabilityRandom) Default () = Ok x"
  using SendObserver_admission [OF demo_aggregate demo_creatures_ok transit_config_ok_Default
      availability.random_source_axioms, of True "()"] demo_admits by auto

theorem RecallObserver_admission_witness:
  "\<exists>x. RecallObserver demo_portal demo_plane demo_roster demo_now True (Some availabilityRandom) Default () = Ok x"
  using RecallObserver_admission [OF demo_aggregate demo_creatures_ok transit_config_ok_Default
      availability.random_source_axioms, of True "()"] demo_admits by auto

theorem transit_start_keeps_aggregate_witness:
  "\<exists>obID portal' observers' r'.
     SendObserver demo_portal demo_plane demo_roster demo_now True (Some availabilityRandom) Default () =
       Ok (obID, portal', observers', r') \<and>
     command_aggregate_ok portal' demo_plane observers' demo_now"
proof -
  obtain obID portal' observers' r' where
    s: "SendObserver demo_portal demo_plane demo_roster demo_now True (Some availabilityRandom) Default () =
       Ok (obID, portal', observers', r')"
    using SendObserver_cases [OF demo_aggregate demo_creatures_ok transit_config_ok_Default
        availability.random_source_axioms, of True "()"] demo_admits by auto
  from transit_start_keeps_aggregate [OF demo_aggregate demo_creatures_ok transit_config_ok_Default
      availability.random_source_axioms disjI1 [OF s]] s
  show ?thesis by blast
qed

theorem ClosePortal_atomic_witness:
  "\<exists>lab' portal' plane' observers'.
     ClosePortalWithLabEnergy (NewTutorialLabState (Time 0 True) Default) demo_portal demo_plane demo_roster
       demo_now True Default = ((lab', portal', plane', observers'), Ok ()) \<and>
     LabState_CurrentEnergy lab' demo_now Default = 95"
proof -
  let ?l = "NewTutorialLabState (Time 0 True) Default"
  have e: "LabState_CurrentEnergy ?l demo_now Default = 100"
    by (simp add: CurrentEnergy_eq base_energy_def whole_seconds_def NewTutorialLabState_def
        Default_def Sub_def clamp64_def lab_config_ok_def)
  have cost: "effectiveCloseCost ?l demo_now Default = 5"
    by (simp add: effectiveCloseCost_def LeylineOverrideActive_def NewTutorialLabState_def Default_def)
  have prep: "prepareLabEnergySpend ?l demo_now 5 Default = Ok 95"
    using prepareLabEnergySpend_ok [of Default ?l demo_now 5] e
    by (simp add: lab_valid_def NewTutorialLabState_def Default_def lab_config_ok_def)
  have idle: "ActiveTransitObserverIndex demo_roster (p_ID demo_portal) demo_now = Ok None"
    using ActiveTransit_total [of demo_roster demo_now "p_ID demo_portal"] demo_aggregate
    by (auto simp: command_aggregate_ok_def demo_roster_def NewObserver_def at_portal_def)
  have "validateObserverCommandAggregate demo_portal demo_plane demo_roster demo_now = Ok ()"
    using demo_aggregate by (intro validate_aggregate) (simp_all add: command_aggregate_ok_def)
  moreover have op: "p_Status demo_portal = PortalStatusOpen" by (simp add: demo_portal_def)
  moreover obtain shut where "Portal_Close demo_portal demo_now True Default = Ok shut"
    using CreaturesInside_at [OF demo_creatures_ok, of demo_now] op
    by (simp add: Portal_Close_def Portal_IsTerminal_def)
  ultimately obtain lab' portal' plane' observers' where
    c: "ClosePortalWithLabEnergy ?l demo_portal demo_plane demo_roster demo_now True Default
      = ((lab', portal', plane', observers'), Ok ())"
    using idle by (simp add: ClosePortalWithLabEnergy_def cost prep ClosePortalWithObservers_def)
  have "returning_from demo_plane demo_portal demo_roster"
    by (simp add: returning_from_def demo_roster_def NewObserver_def)
  from ClosePortal_atomic [OF lab_config_ok_Default this c] c e cost show ?thesis
    by (auto simp: effectiveCloseCost_def split: if_splits)
qed

theorem StabilizePortal_charges_once_witness:
  "\<exists>lab' portal'. StabilizePortalWithLabEnergy (NewTutorialLabState (Time 0 True) Default) demo_portal
       demo_now Default = Ok (lab', portal') \<and> LabState_CurrentEnergy lab' demo_now Default = 80"
proof -
  let ?l = "NewTutorialLabState (Time 0 True) Default"
  have e: "LabState_CurrentEnergy ?l demo_now Default = 100"
    by (simp add: CurrentEnergy_eq base_energy_def whole_seconds_def NewTutorialLabState_def
        Default_def Sub_def clamp64_def lab_config_ok_def)
  have cost: "effectiveStabilizeCost ?l demo_now Default = 20"
    by (simp add: effectiveStabilizeCost_def LeylineOverrideActive_def NewTutorialLabState_def Default_def)
  have prep: "prepareLabEnergySpend ?l demo_now 20 Default = Ok 80"
    using prepareLabEnergySpend_ok [of Default ?l demo_now 20] e
    by (simp add: lab_valid_def NewTutorialLabState_def Default_def lab_config_ok_def)
  obtain q where "Portal_Stabilize demo_portal demo_now Default = Ok q"
    using demo_energy by (simp add: Portal_Stabilize_def Portal_IsTerminal_def)
      (simp add: demo_portal_def Default_def)
  then obtain lab' portal' where
    c: "StabilizePortalWithLabEnergy ?l demo_portal demo_now Default = Ok (lab', portal')"
    by (simp add: StabilizePortalWithLabEnergy_def cost prep Let_def)
  from StabilizePortal_charges_once [OF lab_config_ok_Default c] c e cost show ?thesis
    by (auto simp: effectiveStabilizeCost_def split: if_splits)
qed

end
