(* ===== verification/Factory.thy ===== *)
theory Factory
  imports Portal RandomSource
begin

text \<open>
  Opening portals: the natural factory (\<open>internal/domain/factory.go\<close>), the controlled
  extraction factory (from \<open>extraction.go\<close>) and the slots (\<open>slots.go\<close>).  The draws come
  in the documented order, and a draw from an empty range panics.
\<close>

section \<open>Definitions\<close>

definition portal_name :: "int \<Rightarrow> string" where
  "portal_name seq = ''Omenpath #'' @ format_04d seq"

definition draw_ttl :: "int \<Rightarrow> int \<Rightarrow> 'r rnd \<Rightarrow> 'r \<Rightarrow> (int \<times> 'r) res" where
  "draw_ttl mn mx rnd r =
     rbind (drawInt rnd r (f_to_int64 (Seconds mn)) (f_to_int64 (Seconds mx)))
       (\<lambda>(n, r). Ok (wrap64 (n * Second), r))"

definition draw_collapse :: "bool \<Rightarrow> time \<Rightarrow> time \<Rightarrow> Config \<Rightarrow> 'r rnd \<Rightarrow> 'r \<Rightarrow> (time option \<times> 'r) res" where
  "draw_collapse unstable now scheduledClose cfg rnd r =
     (if \<not> unstable then Ok (None, r)
      else let lo = Add now (InstabilityMinLifetime cfg);
               hi = Add scheduledClose (wrap64 (- InstabilityCloseMargin cfg))
           in rbind (drawInt rnd r 0 (Sub hi lo)) (\<lambda>(offset, r). Ok (Some (Add lo offset), r)))"

definition NewNaturalPortal ::
    "int \<Rightarrow> int \<Rightarrow> int \<Rightarrow> time \<Rightarrow> Config \<Rightarrow> 'r rnd \<Rightarrow> 'r \<Rightarrow> (Portal \<times> 'r) res" where
  "NewNaturalPortal seq planeID slot now cfg rnd r =
     rbind (draw_ttl (NaturalTTLMin cfg) (NaturalTTLMax cfg) rnd r) (\<lambda>(ttl, r).
     rbind (drawFloat rnd r (PortalEnergyMin cfg) (PortalEnergyMax cfg)) (\<lambda>(energy, r).
     rbind (drawFloat rnd r (PortalDecayMin cfg) (PortalDecayMax cfg)) (\<lambda>(decay, r).
     rbind (drawFloat rnd r (Fin 0) (Fin 1)) (\<lambda>(roll, r).
     let unstable = f_less roll (UnstableProbability cfg); scheduledClose = Add now ttl in
     rbind (draw_collapse unstable now scheduledClose cfg rnd r) (\<lambda>(hidden, r).
     rbind (MaxCreaturesForTTL ttl cfg) (\<lambda>maxCreatures.
     rbind (drawInt rnd r 0 maxCreatures) (\<lambda>(creatures, r).
     Ok (\<lparr>p_ID = seq, p_Name = portal_name seq, p_SlotIndex = slot, p_Kind = PortalKindNatural,
          p_DestinationPlaneID = planeID, p_EnergyBase = energy, p_EnergyBaseAt = now,
          p_EnergyDecayRate = decay,
          p_Stability = (if unstable then PortalUnstable else PortalStable),
          p_InstabilityCollapseAt = hidden, p_OpenedAt = now, p_ScheduledCloseAt = scheduledClose,
          p_CreaturesInitial = creatures, p_ObserverFlow = PortalFlowNone,
          p_ExtractionSynchronizedAt = None, p_Status = PortalStatusOpen,
          p_TerminationReason = TerminationNone, p_ClosedAt = None,
          p_CreatedAt = now, p_UpdatedAt = now\<rparr>, r))))))))"

definition NewExtractionPortal ::
    "int \<Rightarrow> int \<Rightarrow> int \<Rightarrow> time \<Rightarrow> Config \<Rightarrow> 'r rnd \<Rightarrow> 'r \<Rightarrow> (Portal \<times> 'r) res" where
  "NewExtractionPortal seq planeID slot now cfg rnd r =
     rbind (draw_ttl (ExtractionTTLMin cfg) (ExtractionTTLMax cfg) rnd r) (\<lambda>(ttl, r).
     rbind (drawFloat rnd r (ExtractionEnergyMin cfg) (ExtractionEnergyMax cfg)) (\<lambda>(energy, r).
     rbind (drawFloat rnd r (PortalDecayMin cfg) (PortalDecayMax cfg)) (\<lambda>(decay, r).
     Ok (\<lparr>p_ID = seq, p_Name = portal_name seq, p_SlotIndex = slot, p_Kind = PortalKindExtraction,
          p_DestinationPlaneID = planeID, p_EnergyBase = energy, p_EnergyBaseAt = now,
          p_EnergyDecayRate = decay, p_Stability = PortalStable,
          p_InstabilityCollapseAt = None, p_OpenedAt = now, p_ScheduledCloseAt = Add now ttl,
          p_CreaturesInitial = 0, p_ObserverFlow = PortalFlowInbound,
          p_ExtractionSynchronizedAt = None, p_Status = PortalStatusOpen,
          p_TerminationReason = TerminationNone, p_ClosedAt = None,
          p_CreatedAt = now, p_UpdatedAt = now\<rparr>, r))))"

text \<open>The search runs over \<open>1..maxSlots\<close>.\<close>

definition occupied_slots :: "Portal list \<Rightarrow> int set" where
  "occupied_slots portals = set (map p_SlotIndex (filter (\<lambda>p. p_Status p = PortalStatusOpen) portals))"

definition FirstFreeSlot :: "Portal list \<Rightarrow> int \<Rightarrow> int option" where
  "FirstFreeSlot portals maxSlots = find (\<lambda>s. s \<notin> occupied_slots portals) [1..maxSlots]"

section \<open>Slots\<close>

lemma find_Some_least:
  assumes "find P xs = Some (x :: 'a :: linorder)" and "sorted xs"
  shows "x \<in> set xs \<and> P x \<and> (\<forall>y\<in>set xs. P y \<longrightarrow> x \<le> y)"
  using assms by (induction xs) (auto split: if_splits)

lemma FirstFreeSlot_SomeD:
  assumes "FirstFreeSlot portals maxSlots = Some s"
  shows "1 \<le> s" and "s \<le> maxSlots" and "s \<notin> occupied_slots portals"
    and "\<And>s'. 1 \<le> s' \<Longrightarrow> s' < s \<Longrightarrow> s' \<in> occupied_slots portals"
proof -
  have f: "s \<in> {1..maxSlots} \<and> s \<notin> occupied_slots portals \<and>
      (\<forall>y\<in>{1..maxSlots}. y \<notin> occupied_slots portals \<longrightarrow> s \<le> y)"
    using find_Some_least [OF assms [unfolded FirstFreeSlot_def]] by simp
  then show "1 \<le> s" "s \<le> maxSlots" "s \<notin> occupied_slots portals" by auto
  fix s' assume "1 \<le> s'" "s' < s"
  then show "s' \<in> occupied_slots portals" using f by force
qed

lemma FirstFreeSlot_None_iff:
  "FirstFreeSlot portals maxSlots = None \<longleftrightarrow> {1..maxSlots} \<subseteq> occupied_slots portals"
  by (auto simp: FirstFreeSlot_def find_None_iff)

lemma card_occupied_slots: "card (occupied_slots portals) \<le> length (filter (\<lambda>p. p_Status p = PortalStatusOpen) portals)"
  unfolding occupied_slots_def by (metis card_length length_map)

text \<open>
  C35: \<open>FirstFreeSlot\<close> gives the least slot in \<open>1..maxSlots\<close> that no open portal occupies,
  and it finds one whenever fewer than \<open>maxSlots\<close> portals are open.
\<close>

theorem FirstFreeSlot_least:
  "(case FirstFreeSlot portals maxSlots of
      Some s \<Rightarrow> 1 \<le> s \<and> s \<le> maxSlots \<and> s \<notin> occupied_slots portals \<and>
        (\<forall>s'. 1 \<le> s' \<and> s' < s \<longrightarrow> s' \<in> occupied_slots portals)
    | None \<Rightarrow> maxSlots \<le> int (length (filter (\<lambda>p. p_Status p = PortalStatusOpen) portals)))"
proof (cases "FirstFreeSlot portals maxSlots")
  case None
  then have "card {1..maxSlots} \<le> card (occupied_slots portals)"
    by (intro card_mono) (simp_all add: FirstFreeSlot_None_iff occupied_slots_def)
  then show ?thesis
    using None card_occupied_slots [of portals] by simp
next
  case (Some s)
  then show ?thesis using FirstFreeSlot_SomeD [OF Some] by simp
qed

theorem FirstFreeSlot_least_witness:
  "FirstFreeSlot [demo_portal\<lparr>p_SlotIndex := 1\<rparr>] 7 \<noteq> Some 1"
  using FirstFreeSlot_least [where portals = "[demo_portal\<lparr>p_SlotIndex := 1\<rparr>]" and maxSlots = 7]
  by (auto simp: occupied_slots_def demo_portal_def)

section \<open>Natural portals\<close>

text \<open>
  The configuration keeps every range the factory draws from non-empty: whole-second
  lifetimes that leave room for the hidden collapse window, representable energies,
  positive decay rates.
\<close>

definition spawn_config_ok :: "Config \<Rightarrow> bool" where
  "spawn_config_ok cfg \<longleftrightarrow>
     NaturalTTLMin cfg mod Second = 0 \<and> NaturalTTLMax cfg mod Second = 0 \<and>
     0 < NaturalTTLMin cfg \<and> NaturalTTLMin cfg \<le> NaturalTTLMax cfg \<and> NaturalTTLMax cfg \<le> 9000000000000000000 \<and>
     0 \<le> InstabilityMinLifetime cfg \<and> 0 \<le> InstabilityCloseMargin cfg \<and>
     InstabilityMinLifetime cfg + InstabilityCloseMargin cfg \<le> NaturalTTLMin cfg \<and>
     0 < CreatureTransit cfg \<and> 0 \<le> CreatureMax cfg \<and> CreatureMax cfg < 9223372036854775807 \<and>
     0 \<le> CreatureClearanceMargin cfg \<and> int64_range (CreatureClearanceMargin cfg) \<and>
     (case (PortalEnergyMin cfg, PortalEnergyMax cfg, PortalDecayMin cfg, PortalDecayMax cfg) of
        (Fin e0, Fin e1, Fin d0, Fin d1) \<Rightarrow>
          0 \<le> e0 \<and> e0 \<le> e1 \<and> 0 < d0 \<and> d0 \<le> d1 \<and> e1 \<le> 9000000000 * d0 \<and>
          f64_ok (Fin e0) \<and> f64_ok (Fin e1) \<and> f64_ok (Fin d0) \<and> f64_ok (Fin d1)
      | _ \<Rightarrow> False)"

lemma spawn_config_ok_Default: "spawn_config_ok Default"
proof -
  have d: "f_const (1 / 10) = Fin (3602879701896397 / 36028797018963968)" by code_simp
  then have r: "round64 (1 / 10) = 3602879701896397 / 36028797018963968"
    by (simp only: f_const_def f64.inject)
  have "round64 (3602879701896397 / 36028797018963968) = 3602879701896397 / 36028797018963968"
    using round64_idem [of "1 / 10"] unfolding r .
  moreover have "3602879701896397 / 36028797018963968 \<le> f64_max"
    using f64_max_ge(2) by (rule order_trans [rotated]) simp
  ultimately show ?thesis
    by (simp add: spawn_config_ok_def Default_def int64_range_def d f64_max_numeral f64_max_ge)
qed

lemma MaxCreaturesForTTL_Ok:
  assumes "0 < CreatureTransit cfg" and "0 \<le> CreatureMax cfg" and "0 \<le> ttl" and "int64_range ttl"
    and "0 \<le> CreatureClearanceMargin cfg" and "int64_range (CreatureClearanceMargin cfg)"
  obtains m where "MaxCreaturesForTTL ttl cfg = Ok m" and "0 \<le> m" and "m \<le> CreatureMax cfg"
proof -
  obtain q where "go_quot (wrap64 (ttl - CreatureClearanceMargin cfg)) (CreatureTransit cfg) = (Ok q :: int res)"
    using assms(1) by (simp add: go_quot_def)
  then show thesis
    using assms(2)
    by (intro that [of "if q < 0 then 0 else if CreatureMax cfg < q then CreatureMax cfg else q"])
      (simp_all add: MaxCreaturesForTTL_def)
qed

context random_source
begin

lemma draw_ttl_Ok:
  assumes "mn mod Second = 0" and "mx mod Second = 0" and "0 \<le> mn" and "mn \<le> mx" and "mx \<le> 9000000000000000000"
  obtains n r' where "draw_ttl mn mx (Some R) r = Ok (n * Second, r')"
    and "mn \<le> n * Second" and "n * Second \<le> mx"
proof -
  have s: "f_to_int64 (Seconds mn) = mn div Second" "f_to_int64 (Seconds mx) = mx div Second"
    using assms by (auto intro!: int_Seconds_whole simp: int64_range_def)
  have le: "0 \<le> mn div Second" "mn div Second \<le> mx div Second" "mx div Second < 9223372036854775807"
    using assms zdiv_mono1 [of mn mx Second] by (auto simp: pos_imp_zdiv_nonneg_iff)
  obtain n r' where n: "drawInt (Some R) r (mn div Second) (mx div Second) = Ok (n, r')"
    "mn div Second \<le> n" "n \<le> mx div Second"
    using drawInt_cases [OF le] by blast
  have b: "mn = mn div Second * Second" "mx = mx div Second * Second" using assms(1,2) by auto
  have "mn \<le> n * Second" "n * Second \<le> mx"
    using n(2,3) b by linarith+
  moreover have "draw_ttl mn mx (Some R) r = Ok (n * Second, r')"
    using n calculation assms(3,5) by (simp add: draw_ttl_def s)
  ultimately show thesis using that by blast
qed

lemma draw_collapse_Ok:
  assumes "0 \<le> InstabilityMinLifetime cfg" and "0 \<le> InstabilityCloseMargin cfg"
    and "InstabilityMinLifetime cfg + InstabilityCloseMargin cfg \<le> ttl" and "ttl \<le> 9000000000000000000"
  obtains hidden r' where "draw_collapse unstable now (Add now ttl) cfg (Some R) r = Ok (hidden, r')"
    and "(hidden \<noteq> None) = unstable"
    and "\<And>t. hidden = Some t \<Longrightarrow> ns now + InstabilityMinLifetime cfg \<le> ns t \<and>
           ns t \<le> ns now + ttl - InstabilityCloseMargin cfg \<and> utc t = utc now"
proof (cases unstable)
  case True
  let ?w = "ttl - InstabilityCloseMargin cfg - InstabilityMinLifetime cfg"
  have w: "0 \<le> ?w" "?w < 9223372036854775807" using assms by auto
  have "Sub (Add (Add now ttl) (wrap64 (- InstabilityCloseMargin cfg))) (Add now (InstabilityMinLifetime cfg)) = ?w"
    using assms by (subst Sub_exact) (simp_all add: int64_range_def)
  moreover obtain v r' where v: "drawInt (Some R) r 0 ?w = Ok (v, r')" "0 \<le> v" "v \<le> ?w"
    using drawInt_cases [of 0 ?w r] w by auto
  ultimately have "draw_collapse unstable now (Add now ttl) cfg (Some R) r =
      Ok (Some (Add (Add now (InstabilityMinLifetime cfg)) v), r')"
    using True by (simp add: draw_collapse_def Let_def)
  then show thesis using v True by (intro that) auto
next
  case False
  then show thesis by (intro that [of None r]) (simp_all add: draw_collapse_def)
qed

end

text \<open>What the factory promises of a new portal.\<close>

definition natural_portal_ok :: "Config \<Rightarrow> time \<Rightarrow> Portal \<Rightarrow> bool" where
  "natural_portal_ok cfg now p \<longleftrightarrow>
     p_Status p = PortalStatusOpen \<and> p_TerminationReason p = TerminationNone \<and> p_ClosedAt p = None \<and>
     p_Kind p = PortalKindNatural \<and> p_ObserverFlow p = PortalFlowNone \<and>
     p_OpenedAt p = now \<and> p_EnergyBaseAt p = now \<and> p_CreatedAt p = now \<and> p_UpdatedAt p = now \<and>
     (\<exists>ttl. p_ScheduledCloseAt p = Add now ttl \<and> NaturalTTLMin cfg \<le> ttl \<and> ttl \<le> NaturalTTLMax cfg \<and>
        ttl mod Second = 0) \<and>
     f_le (PortalEnergyMin cfg) (p_EnergyBase p) \<and> f_le (p_EnergyBase p) (PortalEnergyMax cfg) \<and>
     f_le (PortalDecayMin cfg) (p_EnergyDecayRate p) \<and> f_le (p_EnergyDecayRate p) (PortalDecayMax cfg) \<and>
     portal_numbers_ok p \<and> lifetime_fits p \<and>
     (p_Stability p = PortalStable \<and> p_InstabilityCollapseAt p = None \<or>
      p_Stability p = PortalUnstable \<and>
      (\<exists>t. p_InstabilityCollapseAt p = Some t \<and> ns now + InstabilityMinLifetime cfg \<le> ns t \<and>
           ns t \<le> ns (p_ScheduledCloseAt p) - InstabilityCloseMargin cfg \<and> utc t = utc now)) \<and>
     0 \<le> p_CreaturesInitial p \<and> p_CreaturesInitial p \<le> CreatureMax cfg"

lemma NewNaturalPortal_Ok:
  assumes "random_source R" and "spawn_config_ok cfg"
  obtains p r' where "NewNaturalPortal seq planeID slot now cfg (Some R) r = Ok (p, r')"
    and "natural_portal_ok cfg now p" and "p_ID p = seq" and "p_SlotIndex p = slot"
    and "p_DestinationPlaneID p = planeID" and "p_Name p = portal_name seq"
proof -
  obtain e0 e1 d0 d1 where f: "PortalEnergyMin cfg = Fin e0" "PortalEnergyMax cfg = Fin e1"
    "PortalDecayMin cfg = Fin d0" "PortalDecayMax cfg = Fin d1"
    and fb: "0 \<le> e0" "e0 \<le> e1" "0 < d0" "d0 \<le> d1" "e1 \<le> 9000000000 * d0"
    and ok: "f64_ok (Fin e0)" "f64_ok (Fin e1)" "f64_ok (Fin d0)" "f64_ok (Fin d1)"
    using assms(2) by (auto simp: spawn_config_ok_def split: f64.splits)
  have cfg: "NaturalTTLMin cfg mod Second = 0" "NaturalTTLMax cfg mod Second = 0" "0 < NaturalTTLMin cfg"
    "NaturalTTLMin cfg \<le> NaturalTTLMax cfg" "NaturalTTLMax cfg \<le> 9000000000000000000"
    "0 \<le> InstabilityMinLifetime cfg" "0 \<le> InstabilityCloseMargin cfg"
    "InstabilityMinLifetime cfg + InstabilityCloseMargin cfg \<le> NaturalTTLMin cfg"
    "0 < CreatureTransit cfg" "0 \<le> CreatureMax cfg" "CreatureMax cfg < 9223372036854775807"
    "0 \<le> CreatureClearanceMargin cfg" "int64_range (CreatureClearanceMargin cfg)"
    using assms(2) by (simp_all add: spawn_config_ok_def)
  obtain n r1 where n: "draw_ttl (NaturalTTLMin cfg) (NaturalTTLMax cfg) (Some R) r = Ok (n * Second, r1)"
    "NaturalTTLMin cfg \<le> n * Second" "n * Second \<le> NaturalTTLMax cfg"
    using random_source.draw_ttl_Ok [OF assms(1) cfg(1,2) less_imp_le [OF cfg(3)] cfg(4,5)] by metis
  obtain e r2 where e: "drawFloat (Some R) r1 (Fin e0) (Fin e1) = Ok (Fin e, r2)" "f64_ok (Fin e)" "e0 \<le> e" "e \<le> e1"
    using random_source.drawFloat_cases [OF assms(1) ok(1,2) fb(1,2)] by metis
  obtain d r3 where d: "drawFloat (Some R) r2 (Fin d0) (Fin d1) = Ok (Fin d, r3)" "f64_ok (Fin d)" "d0 \<le> d" "d \<le> d1"
    using random_source.drawFloat_cases [OF assms(1) ok(3,4) less_imp_le [OF fb(3)] fb(4)] by metis
  have one: "f64_ok (Fin 0)" "f64_ok (Fin 1)" "(0::rat) \<le> 0" "(0::rat) \<le> 1" by (simp_all add: f64_max_ge)
  obtain v r4 where v: "drawFloat (Some R) r3 (Fin 0) (Fin 1) = Ok (Fin v, r4)"
    using random_source.drawFloat_cases [OF assms(1) one(1,2,3,4)] by metis
  define unstable where "unstable = f_less (Fin v) (UnstableProbability cfg)"
  have room: "InstabilityMinLifetime cfg + InstabilityCloseMargin cfg \<le> n * Second" "n * Second \<le> 9000000000000000000"
    using n(2,3) cfg(5,8) by linarith+
  obtain hidden r5 where h: "draw_collapse unstable now (Add now (n * Second)) cfg (Some R) r4 = Ok (hidden, r5)"
    "(hidden \<noteq> None) = unstable"
    "\<And>t. hidden = Some t \<Longrightarrow> ns now + InstabilityMinLifetime cfg \<le> ns t \<and>
           ns t \<le> ns now + n * Second - InstabilityCloseMargin cfg \<and> utc t = utc now"
    using random_source.draw_collapse_Ok [OF assms(1) cfg(6,7) room] by metis
  have "0 \<le> n * Second" "int64_range (n * Second)" using n(2) cfg(3) room(2) by (auto simp: int64_range_def)
  then obtain m where m: "MaxCreaturesForTTL (n * Second) cfg = Ok m" "0 \<le> m" "m \<le> CreatureMax cfg"
    using MaxCreaturesForTTL_Ok [OF cfg(9,10) _ _ cfg(12,13)] by metis
  have "(0::int) \<le> 0" "m < 9223372036854775807" using m cfg(11) by auto
  then obtain c r6 where c: "drawInt (Some R) r5 0 m = Ok (c, r6)" "0 \<le> c" "c \<le> m"
    using random_source.drawInt_cases [OF assms(1) _ m(2)] by metis
  define p where "p = \<lparr>p_ID = seq, p_Name = portal_name seq, p_SlotIndex = slot, p_Kind = PortalKindNatural,
          p_DestinationPlaneID = planeID, p_EnergyBase = Fin e, p_EnergyBaseAt = now,
          p_EnergyDecayRate = Fin d,
          p_Stability = (if unstable then PortalUnstable else PortalStable),
          p_InstabilityCollapseAt = hidden, p_OpenedAt = now, p_ScheduledCloseAt = Add now (n * Second),
          p_CreaturesInitial = c, p_ObserverFlow = PortalFlowNone,
          p_ExtractionSynchronizedAt = None, p_Status = PortalStatusOpen,
          p_TerminationReason = TerminationNone, p_ClosedAt = None,
          p_CreatedAt = now, p_UpdatedAt = now\<rparr>"
  have "NewNaturalPortal seq planeID slot now cfg (Some R) r = Ok (p, r6)"
    by (simp add: NewNaturalPortal_def n(1) f e(1) d(1) v h(1) [unfolded unstable_def] m(1) c(1))
      (simp add: p_def unstable_def)
  moreover have "natural_portal_ok cfg now p"
  proof -
    have e': "e \<le> 9000000000 * d" using e(4) d(3) fb(5) by linarith
    have fin: "portal_numbers_ok p" "lifetime_fits p"
      using e d fb e' by (simp_all add: p_def portal_numbers_ok_def lifetime_fits_def del: f64_ok.simps)
    have stab: "p_Stability p = PortalStable \<and> p_InstabilityCollapseAt p = None \<or>
      p_Stability p = PortalUnstable \<and>
      (\<exists>t. p_InstabilityCollapseAt p = Some t \<and> ns now + InstabilityMinLifetime cfg \<le> ns t \<and>
           ns t \<le> ns (p_ScheduledCloseAt p) - InstabilityCloseMargin cfg \<and> utc t = utc now)"
      using h(2,3) by (cases hidden) (auto simp: p_def)
    have ttl: "\<exists>ttl. p_ScheduledCloseAt p = Add now ttl \<and> NaturalTTLMin cfg \<le> ttl \<and> ttl \<le> NaturalTTLMax cfg \<and>
        ttl mod Second = 0"
      using n by (intro exI [of _ "n * Second"]) (simp add: p_def)
    show ?thesis
      unfolding natural_portal_ok_def
      using fin stab ttl e d c m f by (auto simp: p_def)
  qed
  ultimately show thesis by (rule that) (simp_all add: p_def)
qed

text \<open>
  C39: with a configuration that keeps the ranges non-empty and any random source, the
  natural factory never panics and its portal is valid: it opens at \<open>now\<close> for a whole
  number of seconds within the bounds, has energy and decay within theirs, a hidden
  collapse exactly when unstable and only inside the window that the minimal lifetime and
  the closing margin leave, and a creature count within its bounds.
\<close>

theorem NewNaturalPortal_valid:
  assumes "random_source R" and "spawn_config_ok cfg"
  shows "\<exists>p r'. NewNaturalPortal seq planeID slot now cfg (Some R) r = Ok (p, r') \<and>
    natural_portal_ok cfg now p \<and> p_ID p = seq \<and> p_SlotIndex p = slot \<and> p_DestinationPlaneID p = planeID"
  using NewNaturalPortal_Ok [OF assms] by metis

theorem NewNaturalPortal_valid_witness:
  "\<exists>p. NewNaturalPortal 7 1 3 (Time 0 True) Default (Some availabilityRandom) () = Ok (p, ()) \<and>
       natural_portal_ok Default (Time 0 True) p"
  using NewNaturalPortal_valid [OF availability.random_source_axioms spawn_config_ok_Default,
      of 7 1 3 "Time 0 True" "()"] by auto

end
