(* ===== verification/ExtractionPortals.thy ===== *)
theory ExtractionPortals
  imports Commands Factory
begin

text \<open>
  Extraction portals (\<open>internal/domain/extraction.go\<close>): opening one against laboratory
  energy, and the one-shot synchronization that starts a return by itself.
\<close>

section \<open>Opening\<close>

definition ExtractionPlaneEligible :: "Observer list \<Rightarrow> int \<Rightarrow> time \<Rightarrow> bool res" where
  "ExtractionPlaneEligible observers planeID now =
     rbind (validateObserverRoster observers now) (\<lambda>_.
       rbind (LongestWaitingObserverIndex observers planeID) (\<lambda>i. Ok (i \<noteq> None)))"

definition validExtractionConfig :: "Config \<Rightarrow> bool" where
  "validExtractionConfig cfg \<longleftrightarrow>
     0 < MaxActivePortals cfg \<and> 0 \<le> ExtractionCost cfg \<and>
     f_le (Fin 0) (ExtractionEnergyMin cfg) \<and> f_le (ExtractionEnergyMin cfg) (ExtractionEnergyMax cfg) \<and>
     f_less (Fin 0) (PortalDecayMin cfg) \<and> f_le (PortalDecayMin cfg) (PortalDecayMax cfg) \<and>
     0 < ExtractionTTLMin cfg \<and> ExtractionTTLMin cfg \<le> ExtractionTTLMax cfg \<and>
     0 < ExtractionSync cfg"

definition validateExtractionPortalCollection :: "Portal list \<Rightarrow> int \<Rightarrow> int \<Rightarrow> unit res" where
  "validateExtractionPortalCollection portals newID maxSlots =
     map_result (\<lambda>_. ())
       (foldM (\<lambda>(ids, openSlots) p.
           if p_ID p = newID then Fail ErrExtractionInvariant
           else if p_ID p \<in> ids then Fail ErrExtractionInvariant
           else let ids = insert (p_ID p) ids
                in if p_Status p \<noteq> PortalStatusOpen then Ok (ids, openSlots)
                   else if p_SlotIndex p < 1 \<or> maxSlots < p_SlotIndex p then Fail ErrExtractionInvariant
                   else if p_SlotIndex p \<in> openSlots then Fail ErrExtractionInvariant
                   else Ok (ids, insert (p_SlotIndex p) openSlots))
         ({}, {}) portals)"

definition OpenExtractionPortal ::
    "LabState \<Rightarrow> Portal list \<Rightarrow> Plane \<Rightarrow> Observer list \<Rightarrow> int \<Rightarrow> time \<Rightarrow> 'r rnd \<Rightarrow> Config \<Rightarrow> 'r \<Rightarrow>
     (int \<times> LabState \<times> Portal list \<times> 'r) res" where
  "OpenExtractionPortal lab portals plane observers seq now rnd cfg r =
     rbind (prepareLabEnergySpend lab now 0 cfg) (\<lambda>_.
     if rnd = None \<or> \<not> validExtractionConfig cfg then Fail ErrExtractionInvariant
     else rbind (ExtractionPlaneEligible observers (pl_ID plane) now) (\<lambda>eligible.
     if \<not> eligible then Fail ErrNoWaitingObserver
     else rbind (validateExtractionPortalCollection portals seq (MaxActivePortals cfg)) (\<lambda>_.
     case FirstFreeSlot portals (MaxActivePortals cfg) of
       None \<Rightarrow> Fail ErrNoFreePortalSlot
     | Some slot \<Rightarrow>
         rbind (prepareLabEnergySpend lab now (ExtractionCost cfg) cfg) (\<lambda>_.
         rbind (LabState_SpendEnergy lab now (ExtractionCost cfg) cfg) (\<lambda>nextLab.
         rbind (NewExtractionPortal seq (pl_ID plane) slot now cfg rnd r) (\<lambda>(portal, r').
         Ok (p_ID portal, nextLab, portals @ [portal], r')))))))"

section \<open>Synchronization\<close>

text \<open>
  The result is the recalled observer's ID, or 0, whether the portal changed, the portal,
  the observers and the generator state.
\<close>

definition resolveExtractionSynchronization ::
    "Portal \<Rightarrow> Plane \<Rightarrow> Observer list \<Rightarrow> time \<Rightarrow> 'r rnd \<Rightarrow> Config \<Rightarrow> bool \<Rightarrow> 'r \<Rightarrow>
     (int \<times> bool \<times> Portal \<times> Observer list \<times> 'r) res" where
  "resolveExtractionSynchronization portal plane observers now rnd cfg validateRoster r =
     (if p_Kind portal \<noteq> PortalKindExtraction \<or> p_DestinationPlaneID portal \<noteq> pl_ID plane \<or>
         ExtractionSync cfg \<le> 0 then Fail ErrExtractionInvariant
      else if Portal_IsTerminal portal then Ok (0, False, portal, observers, r)
      else let syncAt = Add (p_OpenedAt portal) (ExtractionSync cfg) in
        (case p_ExtractionSynchronizedAt portal of
           Some synced \<Rightarrow> if \<not> Equal synced syncAt then Fail ErrExtractionInvariant
                      else Ok (0, False, portal, observers, r)
         | None \<Rightarrow>
             if Before now syncAt then Ok (0, False, portal, observers, r)
             else rbind (if validateRoster then validateObserverRoster observers now else Ok ()) (\<lambda>_.
               let nextPortal = portal\<lparr>p_ExtractionSynchronizedAt := Some syncAt, p_UpdatedAt := syncAt\<rparr> in
               rbind (LongestWaitingObserverIndex observers (pl_ID plane)) (\<lambda>waiting.
                 if waiting \<noteq> None \<and> rnd = None then Fail ErrExtractionInvariant
                 else (case recallObserverPrepared nextPortal observers syncAt False rnd cfg r of
                         Ok (observerID, portal', observers', r') \<Rightarrow> Ok (observerID, True, portal', observers', r')
                       | Fail e \<Rightarrow> if errors_Is e ErrNoWaitingObserver
                                  then Ok (0, True, nextPortal, observers, r) else Fail e
                       | Panic \<Rightarrow> Panic)))))"

definition ResolveExtractionSynchronization ::
    "Portal \<Rightarrow> Plane \<Rightarrow> Observer list \<Rightarrow> time \<Rightarrow> 'r rnd \<Rightarrow> Config \<Rightarrow> 'r \<Rightarrow>
     (int \<times> bool \<times> Portal \<times> Observer list \<times> 'r) res" where
  "ResolveExtractionSynchronization portal plane observers now rnd cfg r =
     resolveExtractionSynchronization portal plane observers now rnd cfg True r"

definition resolveExtractionSynchronizationPrepared ::
    "Portal \<Rightarrow> Plane \<Rightarrow> Observer list \<Rightarrow> time \<Rightarrow> 'r rnd \<Rightarrow> Config \<Rightarrow> 'r \<Rightarrow>
     (int \<times> bool \<times> Portal \<times> Observer list \<times> 'r) res" where
  "resolveExtractionSynchronizationPrepared portal plane observers now rnd cfg r =
     resolveExtractionSynchronization portal plane observers now rnd cfg False r"

section \<open>Opening: what it guarantees\<close>

text \<open>The collection the validation accepts.\<close>

definition collection_ok :: "Portal list \<Rightarrow> int \<Rightarrow> bool" where
  "collection_ok portals maxSlots \<longleftrightarrow>
     distinct (map p_ID portals) \<and>
     distinct (map p_SlotIndex (filter (\<lambda>p. p_Status p = PortalStatusOpen) portals)) \<and>
     (\<forall>p\<in>set portals. p_Status p = PortalStatusOpen \<longrightarrow> 1 \<le> p_SlotIndex p \<and> p_SlotIndex p \<le> maxSlots)"

lemma validateCollection_eq:
  "validateExtractionPortalCollection portals newID maxSlots =
     (if collection_ok portals maxSlots \<and> newID \<notin> set (map p_ID portals)
      then Ok () else Fail ErrExtractionInvariant)"
proof -
  have "map_result (\<lambda>_. ())
       (foldM (\<lambda>(ids, openSlots) p.
           if p_ID p = newID then Fail ErrExtractionInvariant
           else if p_ID p \<in> ids then Fail ErrExtractionInvariant
           else let ids = insert (p_ID p) ids
                in if p_Status p \<noteq> PortalStatusOpen then Ok (ids, openSlots)
                   else if p_SlotIndex p < 1 \<or> maxSlots < p_SlotIndex p then Fail ErrExtractionInvariant
                   else if p_SlotIndex p \<in> openSlots then Fail ErrExtractionInvariant
                   else Ok (ids, insert (p_SlotIndex p) openSlots))
         (ids, slots) portals) =
    (if collection_ok portals maxSlots \<and> newID \<notin> set (map p_ID portals) \<and>
        set (map p_ID portals) \<inter> ids = {} \<and>
        set (map p_SlotIndex (filter (\<lambda>p. p_Status p = PortalStatusOpen) portals)) \<inter> slots = {}
     then Ok () else Fail ErrExtractionInvariant)" for ids slots
  proof (induction portals arbitrary: ids slots)
    case (Cons p ps)
    show ?case
      by (cases "p_Status p = PortalStatusOpen") (auto simp: Cons.IH Let_def collection_ok_def)
  qed (simp add: collection_ok_def)
  then show ?thesis by (simp add: validateExtractionPortalCollection_def)
qed

lemma NewExtractionPortal_fields:
  assumes "NewExtractionPortal seq planeID slot now cfg rnd r = Ok (p, r')"
  shows "p_ID p = seq" "p_SlotIndex p = slot" "p_DestinationPlaneID p = planeID"
    "p_Kind p = PortalKindExtraction" "p_Status p = PortalStatusOpen" "p_Stability p = PortalStable"
    "p_ObserverFlow p = PortalFlowInbound" "p_ExtractionSynchronizedAt p = None" "p_CreaturesInitial p = 0"
    "p_OpenedAt p = now" "p_InstabilityCollapseAt p = None"
  using assms by (auto simp: NewExtractionPortal_def)

text \<open>
  Opening an extraction portal charges its cost exactly once, appends one portal in the
  least free slot and leaves IDs and open slots distinct and within bounds; it needs an
  observer waiting in the plane.
\<close>

theorem OpenExtractionPortal_effect:
  assumes "OpenExtractionPortal lab portals plane observers seq now rnd cfg r = Ok (pid, lab', portals', r')"
    and "lab_config_ok cfg"
  shows "pid = seq \<and>
    LabState_CurrentEnergy lab' now cfg = LabState_CurrentEnergy lab now cfg - ExtractionCost cfg \<and>
    0 \<le> LabState_CurrentEnergy lab' now cfg \<and>
    (\<exists>ob\<in>set observers. waits_in (pl_ID plane) ob) \<and>
    (\<exists>p. portals' = portals @ [p] \<and> p_ID p = seq \<and> p_Kind p = PortalKindExtraction \<and>
       p_Status p = PortalStatusOpen \<and> p_DestinationPlaneID p = pl_ID plane \<and>
       FirstFreeSlot portals (MaxActivePortals cfg) = Some (p_SlotIndex p)) \<and>
    collection_ok portals' (MaxActivePortals cfg)"
proof -
  obtain q slot remaining p where
    elig: "ExtractionPlaneEligible observers (pl_ID plane) now = Ok q" q
    and coll: "validateExtractionPortalCollection portals seq (MaxActivePortals cfg) = Ok ()"
    and slot: "FirstFreeSlot portals (MaxActivePortals cfg) = Some slot"
    and prep: "prepareLabEnergySpend lab now (ExtractionCost cfg) cfg = Ok remaining"
    and lab': "lab' = commitLabEnergySpend lab now (ExtractionCost cfg) remaining"
    and new: "NewExtractionPortal seq (pl_ID plane) slot now cfg rnd r = Ok (p, r')"
    and out: "pid = p_ID p" "portals' = portals @ [p]"
    using assms(1)
    by (auto simp: OpenExtractionPortal_def LabState_SpendEnergy_def split: if_splits option.splits)
  note f = NewExtractionPortal_fields [OF new]
  obtain i where "roster_ok observers now" "LongestWaitingObserverIndex observers (pl_ID plane) = Ok (Some i)"
    using elig by (auto simp: ExtractionPlaneEligible_def validateObserverRoster_eq split: if_splits)
  then have w: "\<exists>ob\<in>set observers. waits_in (pl_ID plane) ob"
    using LongestWaiting_SomeD nth_mem by blast
  have c: "collection_ok portals (MaxActivePortals cfg)" "seq \<notin> set (map p_ID portals)"
    using coll by (auto simp: validateCollection_eq split: if_splits)
  have "collection_ok portals' (MaxActivePortals cfg)"
    using c f FirstFreeSlot_SomeD [OF slot] by (auto simp: out collection_ok_def occupied_slots_def)
  then show ?thesis
    using w slot f out commit_valid(2) [OF prep assms(2)] CurrentEnergy_range(1) [OF assms(2), of lab' now]
    by (simp add: lab')
qed

section \<open>Synchronization: what it guarantees\<close>

definition sync_time :: "Portal \<Rightarrow> Config \<Rightarrow> time" where
  "sync_time portal cfg = Add (p_OpenedAt portal) (ExtractionSync cfg)"

definition synchronized :: "Portal \<Rightarrow> Config \<Rightarrow> Portal" where
  "synchronized portal cfg =
     portal\<lparr>p_ExtractionSynchronizedAt := Some (sync_time portal cfg), p_UpdatedAt := sync_time portal cfg\<rparr>"

lemma recallPrepared_OkE:
  assumes "recallObserverPrepared portal observers now confirm rnd cfg r = Ok (obID, portal', observers', r')"
  obtains i ob where "LongestWaitingObserverIndex observers (p_DestinationPlaneID portal) = Ok (Some i)"
    and "StartReturning (observers ! i) now (p_ID portal) rnd cfg r = Ok (ob, r')"
    and "obID = o_ID ob" and "observers' = observers[i := ob]"
    and "portal' = with_flow portal PortalFlowInbound now"
    and "ActiveTransitObserverIndex observers (p_ID portal) now = Ok None"
    and "p_Status portal = PortalStatusOpen" and "p_ObserverFlow portal \<noteq> PortalFlowOutbound"
proof -
  have g: "p_Status portal = PortalStatusOpen" "p_ObserverFlow portal \<noteq> PortalFlowOutbound"
    using assms by (auto simp: recallObserverPrepared_def split: if_splits)
  obtain w where w: "LongestWaitingObserverIndex observers (p_DestinationPlaneID portal) = Ok w"
    and idle: "ActiveTransitObserverIndex observers (p_ID portal) now = Ok None"
    using assms by (auto simp: recallObserverPrepared_def split: if_splits)
  obtain i where i: "w = Some i"
    using assms w by (cases w) (auto simp: recallObserverPrepared_def split: if_splits)
  obtain ob where "StartReturning (observers ! i) now (p_ID portal) rnd cfg r = Ok (ob, r')"
    "obID = o_ID ob" "observers' = observers[i := ob]" "portal' = with_flow portal PortalFlowInbound now"
    using assms w i by (auto simp: recallObserverPrepared_def with_flow_def split: if_splits)
  then show thesis using that g w i idle by simp
qed

lemma sync_cases:
  assumes "resolveExtractionSynchronization portal plane observers now rnd cfg validate r =
      Ok (obID, changed, portal', observers', r')"
  obtains "\<not> changed" and "obID = 0" and "portal' = portal" and "observers' = observers" and "r' = r"
      and "Portal_IsTerminal portal \<or> p_ExtractionSynchronizedAt portal \<noteq> None \<or> ns now < ns (sync_time portal cfg)"
    | (none) e where changed and "p_ExtractionSynchronizedAt portal = None" and "\<not> Portal_IsTerminal portal"
      and "ns (sync_time portal cfg) \<le> ns now"
      and "obID = 0" and "portal' = synchronized portal cfg" and "observers' = observers" and "r' = r"
      and "recallObserverPrepared (synchronized portal cfg) observers (sync_time portal cfg) False rnd cfg r = Fail e"
      and "errors_Is e ErrNoWaitingObserver"
    | (recall) changed and "p_ExtractionSynchronizedAt portal = None" and "\<not> Portal_IsTerminal portal"
      and "ns (sync_time portal cfg) \<le> ns now"
      and "recallObserverPrepared (synchronized portal cfg) observers (sync_time portal cfg) False rnd cfg r =
           Ok (obID, portal', observers', r')"
proof -
  note def = resolveExtractionSynchronization_def sync_time_def [symmetric] Let_def
  have g: "p_Kind portal = PortalKindExtraction" "p_DestinationPlaneID portal = pl_ID plane" "0 < ExtractionSync cfg"
    using assms by (auto simp: resolveExtractionSynchronization_def split: if_splits)
  show thesis
  proof (cases "Portal_IsTerminal portal \<or> p_ExtractionSynchronizedAt portal \<noteq> None \<or> ns now < ns (sync_time portal cfg)")
    case True
    then have "\<not> changed \<and> obID = 0 \<and> portal' = portal \<and> observers' = observers \<and> r' = r"
      using assms g by (auto simp: def split: if_splits option.splits)
    then show ?thesis using that(1) True by blast
  next
    case False
    then have f: "\<not> Portal_IsTerminal portal" "p_ExtractionSynchronizedAt portal = None"
      "ns (sync_time portal cfg) \<le> ns now" by auto
    have s: "portal\<lparr>p_ExtractionSynchronizedAt := Some (sync_time portal cfg), p_UpdatedAt := sync_time portal cfg\<rparr>
        = synchronized portal cfg" by (simp add: synchronized_def)
    show ?thesis
    proof (cases "recallObserverPrepared (synchronized portal cfg) observers (sync_time portal cfg) False rnd cfg r")
      case (Ok x)
      obtain a b c d where x: "x = (a, b, c, d)" by (cases x)
      have "changed \<and> obID = a \<and> portal' = b \<and> observers' = c \<and> r' = d"
        using assms g f Ok x by (auto simp: def s split: if_splits)
      then show ?thesis using that(3) f Ok x by blast
    next
      case (Fail e)
      have "errors_Is e ErrNoWaitingObserver \<and> changed \<and> obID = 0 \<and> portal' = synchronized portal cfg \<and>
          observers' = observers \<and> r' = r"
        using assms g f Fail by (auto simp: def s split: if_splits)
      then show ?thesis using that(2) f Fail by blast
    next
      case Panic
      then show ?thesis using assms g f by (auto simp: def s split: if_splits)
    qed
  qed
qed

text \<open>The draws of the interface have no error result; they panic, or return a value.\<close>

definition draws_no_error :: "'r rnd \<Rightarrow> bool" where
  "draws_no_error rnd \<longleftrightarrow> (\<forall>r mn mx e. drawInt rnd r mn mx \<noteq> Fail e)"

lemma foldM_Fail:
  assumes "foldM f s xs = Fail e" and "\<And>s x. f s x = Fail e \<Longrightarrow> e = e'"
  shows "e = e'"
  using assms(1)
proof (induction xs arbitrary: s)
  case (Cons x xs)
  then show ?case using assms(2) by (cases "f s x") auto
qed simp

lemma ActiveTransit_Fail: "ActiveTransitObserverIndex observers pid now = Fail e \<Longrightarrow> e = ErrObserverInvariant"
  unfolding ActiveTransitObserverIndex_def by (erule foldM_Fail) (auto simp: Let_def split: if_splits option.splits)

text \<open>A recall is answered with \<open>ErrNoWaitingObserver\<close> only when nobody is waiting.\<close>

lemma recallPrepared_none:
  assumes "recallObserverPrepared portal observers now confirm rnd cfg r = Fail e" and "errors_Is e ErrNoWaitingObserver"
    and "LongestWaitingObserverIndex observers (p_DestinationPlaneID portal) = Ok w" and "draws_no_error rnd"
  shows "w = None"
proof (rule ccontr)
  assume "w \<noteq> None"
  then obtain i where i: "w = Some i" by blast
  have creatures: "Portal_CreaturesInside portal now cfg \<noteq> Fail d" for d
    by (auto simp: Portal_CreaturesInside_def Let_def go_quot_def)
  have draw: "drawTransitEnd now rnd cfg r \<noteq> Fail d" for d
    using assms(4) by (auto simp: drawTransitEnd_def draws_no_error_def rbind_eq_Fail)
  have start: "StartReturning (observers ! i) now (p_ID portal) rnd cfg r = Fail d \<Longrightarrow> \<not> errors_Is d ErrNoWaitingObserver" for d
    using draw by (auto simp: StartReturning_def rbind_eq_Fail split: if_splits)
  show False
    using assms(1,2) unfolding recallObserverPrepared_def assms(3) i
    by (auto simp: creatures rbind_eq_Fail dest: ActiveTransit_Fail start split: if_splits)
qed

lemma StartReturning_fields:
  assumes "StartReturning ob now pid rnd cfg r = Ok (ob', r')"
  shows "o_Status ob = ObserverWaitingReturn" and "o_Status ob' = ObserverReturning" and "o_ID ob' = o_ID ob"
    and "o_ActivePortalID ob' = Some pid" and "o_CurrentPlaneID ob' = o_CurrentPlaneID ob" and "o_PhaseStartedAt ob' = Some now"
  using assms by (auto simp: StartReturning_def split: if_splits)

text \<open>
  C38: an extraction portal synchronizes once.  A resolution that changes anything finds the
  portal open, not yet synchronized and due; it marks the synchronization at the opening plus
  the configured delay, whatever the time of the scheduler, and sends home the observer who
  has waited longest in the plane, if there is one, from that moment on and nobody else.  No
  later resolution of that portal, whoever waits by then, changes anything again.  A resolution
  that changes nothing found the portal ended, synchronized, or not yet due.
\<close>

theorem extraction_sync_once:
  assumes "resolveExtractionSynchronization portal plane observers now rnd cfg validate r =
      Ok (obID, changed, portal', observers', r')"
    and "draws_no_error rnd"
  shows "(if changed
     then p_Status portal = PortalStatusOpen \<and> p_ExtractionSynchronizedAt portal = None \<and> ns (sync_time portal cfg) \<le> ns now \<and>
       p_ExtractionSynchronizedAt portal' = Some (sync_time portal cfg) \<and>
       (case LongestWaitingObserverIndex observers (pl_ID plane) of
          Ok (Some i) \<Rightarrow> obID = o_ID (observers ! i) \<and> (\<exists>ob. observers' = observers[i := ob] \<and>
            o_Status (observers ! i) = ObserverWaitingReturn \<and> o_Status ob = ObserverReturning \<and> o_ID ob = o_ID (observers ! i) \<and>
            o_ActivePortalID ob = Some (p_ID portal) \<and> o_PhaseStartedAt ob = Some (sync_time portal cfg))
        | Ok None \<Rightarrow> obID = 0 \<and> observers' = observers \<and> r' = r
        | _ \<Rightarrow> False) \<and>
       resolveExtractionSynchronization portal' plane later now' rnd' cfg validate' r2 = Ok (0, False, portal', later, r2)
     else obID = 0 \<and> portal' = portal \<and> observers' = observers \<and> r' = r \<and>
       (Portal_IsTerminal portal \<or> p_ExtractionSynchronizedAt portal \<noteq> None \<or> ns now < ns (sync_time portal cfg)))"
proof -
  have g: "p_Kind portal = PortalKindExtraction" "p_DestinationPlaneID portal = pl_ID plane" "0 < ExtractionSync cfg"
    using assms(1) by (auto simp: resolveExtractionSynchronization_def split: if_splits)
  have later: "resolveExtractionSynchronization portal' plane later now' rnd' cfg validate' r2 = Ok (0, False, portal', later, r2)"
    if "p_ExtractionSynchronizedAt portal' = Some (sync_time portal cfg)" "p_Kind portal' = p_Kind portal"
      "p_DestinationPlaneID portal' = p_DestinationPlaneID portal" "p_OpenedAt portal' = p_OpenedAt portal"
    using that g by (simp add: resolveExtractionSynchronization_def sync_time_def Let_def)
  have dest: "p_DestinationPlaneID (synchronized portal cfg) = pl_ID plane" "p_ID (synchronized portal cfg) = p_ID portal"
    using g by (simp_all add: synchronized_def)
  show ?thesis
    using assms(1)
  proof (cases rule: sync_cases)
    case (none e)
    then obtain w where w: "LongestWaitingObserverIndex observers (pl_ID plane) = Ok w"
      using assms(1) g by (auto simp: resolveExtractionSynchronization_def Let_def sync_time_def [symmetric] split: if_splits option.splits)
    have "w = None" by (rule recallPrepared_none [OF none(9,10) w [folded dest(1)] assms(2)])
    then show ?thesis
      using none w later by (simp add: synchronized_def Portal_IsTerminal_def)
  next
    case recall
    obtain i ob where r: "LongestWaitingObserverIndex observers (pl_ID plane) = Ok (Some i)"
      "StartReturning (observers ! i) (sync_time portal cfg) (p_ID portal) rnd cfg r = Ok (ob, r')"
      "obID = o_ID ob" "observers' = observers[i := ob]"
      "portal' = with_flow (synchronized portal cfg) PortalFlowInbound (sync_time portal cfg)"
      using recallPrepared_OkE [OF recall(5)] unfolding dest by metis
    then show ?thesis
      using recall(1-4) StartReturning_fields [OF r(2)] later by (auto simp: with_flow_def synchronized_def Portal_IsTerminal_def)
  qed simp
qed

definition demo_extraction :: Portal where
  "demo_extraction = demo_portal\<lparr>p_Kind := PortalKindExtraction, p_Stability := PortalStable,
     p_InstabilityCollapseAt := None, p_CreaturesInitial := 0, p_ObserverFlow := PortalFlowInbound,
     p_ScheduledCloseAt := Time (50 * Second) True\<rparr>"

text \<open>The waiting observer of the demonstration started to wait at second 7.\<close>

definition demo_late_waiter :: Observer where
  "demo_late_waiter = (NewObserver 1 (Time 0 True))\<lparr>o_Status := ObserverWaitingReturn, o_CurrentPlaneID := Some 1,
     o_PhaseStartedAt := Some (Time (7 * Second) True), o_UpdatedAt := Time (7 * Second) True\<rparr>"

lemma demo_sync_risk: "Portal_RiskLevel (synchronized demo_extraction Default) (Time (5 * Second) True) Default = Some RiskLow"
proof -
  let ?p = "synchronized demo_extraction Default" and ?t = "Time (5 * Second) True"
  have op: "p_Status ?p = PortalStatusOpen" by (simp add: synchronized_def demo_extraction_def demo_portal_def)
  have "Portal_CurrentEnergy ?p ?t = Fin 95"
    using Seconds_whole [of 5]
    by (simp add: Portal_CurrentEnergy_def frozen_now_def Portal_IsTerminal_def synchronized_def
        demo_extraction_def demo_portal_def Sub_def clamp64_def f_sub_def)
  then have "Portal_EffectiveLifetime ?p ?t = 45 * Second"
    using op by (simp add: Portal_EffectiveLifetime_def Portal_EnergyLifetime_def Portal_ScheduledRemaining_def
        Portal_IsTerminal_def)
      (simp add: synchronized_def demo_extraction_def demo_portal_def DurationOfSeconds_def int64_range_def
        Sub_def clamp64_def)
  then have "Portal_RiskScore ?p ?t Default = Fin 0"
    using Seconds_whole [of 45] by (simp add: Portal_RiskScore_def)
      (simp add: synchronized_def demo_extraction_def demo_portal_def Default_def f_sub_def)
  then show ?thesis using op by (simp add: RiskLevel_open risk_band_Fin)
qed

lemma demo_sync:
  "resolveExtractionSynchronizationPrepared demo_extraction demo_plane [demo_late_waiter] (Time (8 * Second) True)
     (Some availabilityRandom) Default () =
   Ok (1, True, synchronized demo_extraction Default,
       [recalled demo_late_waiter (Time (5 * Second) True) 1 (Time (10 * Second) True)], ())"
proof -
  let ?p = "synchronized demo_extraction Default" and ?t = "Time (5 * Second) True"
  have st: "sync_time demo_extraction Default = ?t"
    by (simp add: sync_time_def demo_extraction_def demo_portal_def Default_def Add_def)
  have ok: "\<forall>ob\<in>set [demo_late_waiter]. observer_fields_ok ob ?t"
    by (simp add: demo_late_waiter_def NewObserver_def observer_fields_ok.simps)
  have lw: "LongestWaitingObserverIndex [demo_late_waiter] 1 = Ok (Some 0)"
    by (simp add: LongestWaitingObserverIndex_def demo_late_waiter_def NewObserver_def)
  have idle: "ActiveTransitObserverIndex [demo_late_waiter] 1 ?t = Ok None"
    by (simp add: ActiveTransitObserverIndex_def demo_late_waiter_def NewObserver_def)
  have cr: "Portal_CreaturesInside ?p ?t Default = Ok 0"
    by (subst Portal_CreaturesInside_eq)
      (simp_all add: synchronized_def demo_extraction_def demo_portal_def Default_def int64_range_def
        frozen_now_def Portal_IsTerminal_def Sub_def clamp64_def)
  have sr: "StartReturning demo_late_waiter ?t 1 (Some availabilityRandom) Default () =
      Ok (recalled demo_late_waiter ?t 1 (Time (10 * Second) True), ())"
    by (simp add: StartReturning_def drawTransitEnd_def drawInt_def availabilityRandom_def Default_def
        sdiv_nonneg Add_def) (simp add: demo_late_waiter_def NewObserver_def recalled_def)
  have p: "p_Status ?p = PortalStatusOpen" "p_ID ?p = 1" "p_DestinationPlaneID ?p = 1"
    "p_ExtractionSynchronizedAt ?p = Some ?t" "p_ObserverFlow ?p = PortalFlowInbound" "p_Stability ?p = PortalStable"
    using st by (simp_all add: synchronized_def demo_extraction_def demo_portal_def)
  have rec: "recallObserverPrepared ?p [demo_late_waiter] ?t False (Some availabilityRandom) Default () =
      Ok (1, ?p, [recalled demo_late_waiter ?t 1 (Time (10 * Second) True)], ())"
    using demo_sync_risk
    by (simp add: recallObserverPrepared_def p cr [simplified] lw idle [simplified] sr [simplified])
      (simp add: recalled_def demo_late_waiter_def NewObserver_def)
  have d: "p_Kind demo_extraction = PortalKindExtraction" "p_DestinationPlaneID demo_extraction = 1"
    "p_Status demo_extraction = PortalStatusOpen" "p_ExtractionSynchronizedAt demo_extraction = None"
    "pl_ID demo_plane = 1" "ExtractionSync Default = 5 * Second" "p_OpenedAt demo_extraction = Time 0 True"
    by (simp_all add: demo_extraction_def demo_portal_def demo_plane_def Default_def)
  show ?thesis
    using rec lw
    by (simp add: resolveExtractionSynchronizationPrepared_def resolveExtractionSynchronization_def d
        Portal_IsTerminal_def synchronized_def sync_time_def Add_def Let_def)
qed

theorem extraction_sync_once_witness:
  "\<exists>obID portal' observers'.
     resolveExtractionSynchronization demo_extraction demo_plane [demo_late_waiter] (Time (8 * Second) True)
       (Some availabilityRandom) Default False () = Ok (obID, True, portal', observers', ()) \<and>
     o_PhaseStartedAt (hd observers') = Some (Time (5 * Second) True) \<and>
     resolveExtractionSynchronization portal' demo_plane observers' (Time (9 * Second) True)
       (Some availabilityRandom) Default False () = Ok (0, False, portal', observers', ())"
proof -
  let ?p = "synchronized demo_extraction Default"
  let ?obs = "[recalled demo_late_waiter (Time (5 * Second) True) 1 (Time (10 * Second) True)]"
  have d: "resolveExtractionSynchronization demo_extraction demo_plane [demo_late_waiter] (Time (8 * Second) True)
     (Some availabilityRandom) Default False () = Ok (1, True, ?p, ?obs, ())"
    using demo_sync by (simp only: resolveExtractionSynchronizationPrepared_def)
  have "draws_no_error (Some availabilityRandom)" by (simp add: draws_no_error_def drawInt_def availabilityRandom_def)
  from extraction_sync_once [OF d this, of ?obs "Time (9 * Second) True" "Some availabilityRandom" False "()"]
  have "resolveExtractionSynchronization ?p demo_plane ?obs (Time (9 * Second) True) (Some availabilityRandom) Default False () =
      Ok (0, False, ?p, ?obs, ())" by simp
  then show ?thesis using d by (intro exI conjI) (auto simp: recalled_def)
qed

text \<open>
  The automatic return starts at the synchronization moment even when the observer it picks
  was still exploring then: an observer that began to wait at second 7, resolved by a tick at
  second 8 for a synchronization at second 5, has its return start at second 5, before its
  research ended.
\<close>

lemma extraction_recall_precedes_waiting:
  "o_PhaseStartedAt demo_late_waiter = Some (Time (7 * Second) True) \<and>
   (\<exists>portal' ob.
     resolveExtractionSynchronizationPrepared demo_extraction demo_plane [demo_late_waiter] (Time (8 * Second) True)
       (Some availabilityRandom) Default () = Ok (1, True, portal', [ob], ()) \<and>
     o_Status ob = ObserverReturning \<and> o_PhaseStartedAt ob = Some (Time (5 * Second) True))"
  using demo_sync by (simp add: recalled_def) (simp add: demo_late_waiter_def)

lemma demo_open_extraction:
  "\<exists>lab' portals'. OpenExtractionPortal (NewTutorialLabState (Time (8 * Second) True) Default) [] demo_plane [demo_late_waiter] 1
     (Time (8 * Second) True) (Some availabilityRandom) Default () = Ok (1, lab', portals', ())"
proof -
  let ?l = "NewTutorialLabState (Time (8 * Second) True) Default" and ?now = "Time (8 * Second) True"
  have e: "LabState_CurrentEnergy ?l ?now Default = 100"
    by (simp add: LabState_CurrentEnergy_def NewTutorialLabState_def Default_def Sub_def clamp64_def sdiv_nonneg)
  have c: "ExtractionCost Default \<le> 100" "0 \<le> ExtractionCost Default" "LabEnergyMax Default = 100" "MaxActivePortals Default = 7"
    by (simp_all add: Default_def)
  have p: "prepareLabEnergySpend ?l ?now k Default = Ok (wrap64 (100 - k))" if "0 \<le> k" "k \<le> 100" for k
    using that e by (simp add: prepareLabEnergySpend_def NewTutorialLabState_def c)
  have cfg: "validExtractionConfig Default"
    by (simp add: validExtractionConfig_def Default_def) (intro conjI; code_simp)
  have el: "ExtractionPlaneEligible [demo_late_waiter] 1 ?now = Ok True"
    by (simp add: ExtractionPlaneEligible_def validateObserverRoster_def demo_late_waiter_def NewObserver_def
      observer_fields_ok.simps LongestWaitingObserverIndex_def)
  have new: "\<exists>q. NewExtractionPortal 1 1 1 ?now Default (Some availabilityRandom) () = Ok (q, ()) \<and> p_ID q = 1"
    by (simp add: NewExtractionPortal_def draw_ttl_def drawInt_def drawFloat_def availabilityRandom_def)
  have ff: "FirstFreeSlot [] 7 = Some 1" by (simp add: FirstFreeSlot_def occupied_slots_def upto.simps)
  have pl: "pl_ID demo_plane = 1" by (simp add: demo_plane_def)
  show ?thesis
    using new p [OF c(2,1)] p [of 0] el ff cfg
    by (auto simp: OpenExtractionPortal_def LabState_SpendEnergy_def validateExtractionPortalCollection_def c pl)
qed
theorem OpenExtractionPortal_effect_witness:
  "\<exists>lab' portals'. OpenExtractionPortal (NewTutorialLabState (Time (8 * Second) True) Default) [] demo_plane [demo_late_waiter] 1
     (Time (8 * Second) True) (Some availabilityRandom) Default () = Ok (1, lab', portals', ()) \<and>
     (\<exists>p. portals' = [p] \<and> p_Kind p = PortalKindExtraction)"
proof -
  obtain lab' portals' where o: "OpenExtractionPortal (NewTutorialLabState (Time (8 * Second) True) Default) [] demo_plane
     [demo_late_waiter] 1 (Time (8 * Second) True) (Some availabilityRandom) Default () = Ok (1, lab', portals', ())"
    using demo_open_extraction by blast
  then show ?thesis using OpenExtractionPortal_effect [OF o lab_config_ok_Default] by auto
qed

end
