(* ===== verification/SimState.thy ===== *)
theory SimState
  imports ExtractionPortals
begin

text \<open>
  The aggregate that a tick advances (\<open>SimulationState\<close>, \<open>internal/domain/simulation.go\<close>)
  and its validation: the structural checks of \<open>simulation_structure.go\<close> and those against
  the configuration in \<open>simulation.go\<close>.  A validation loop returns the same error at the
  first element that violates it, so a loop is written as a condition on all elements;
  the maps it builds only detect duplicates and look elements up by ID.
\<close>

section \<open>State\<close>

record NaturalSpawnState =
  n_ScheduledAt :: "time option"
  n_DueAt :: "time option"
  n_Paused :: bool

record SimulationState =
  s_Lab :: LabState
  s_Portals :: "Portal list"
  s_Planes :: "Plane list"
  s_Observers :: "Observer list"
  s_NextPortalID :: int
  s_NaturalSpawn :: NaturalSpawnState
  s_LastTickAt :: "time option"

section \<open>Configuration checks\<close>

definition validSpawnDelayConfig :: "Config \<Rightarrow> bool" where
  "validSpawnDelayConfig cfg \<longleftrightarrow>
     0 \<le> SpawnDelayMin cfg \<and> SpawnDelayMin cfg \<le> SpawnDelayMax cfg \<and>
     SpawnDelayMin cfg smod Second = 0 \<and> SpawnDelayMax cfg smod Second = 0"

definition validSimulationConfig :: "Config \<Rightarrow> bool" where
  "validSimulationConfig cfg \<longleftrightarrow>
     MaxActivePortals cfg = 7 \<and> validSpawnDelayConfig cfg \<and>
     0 < NaturalTTLMin cfg \<and> NaturalTTLMin cfg \<le> NaturalTTLMax cfg \<and>
     NaturalTTLMin cfg smod Second = 0 \<and> NaturalTTLMax cfg smod Second = 0 \<and>
     f_le (Fin 0) (PortalEnergyMin cfg) \<and> f_le (PortalEnergyMin cfg) (PortalEnergyMax cfg) \<and>
     f_less (Fin 0) (PortalDecayMin cfg) \<and> f_le (PortalDecayMin cfg) (PortalDecayMax cfg) \<and>
     f_le (Fin 0) (UnstableProbability cfg) \<and> f_le (UnstableProbability cfg) (Fin 1) \<and>
     0 < InstabilityMinLifetime cfg \<and> 0 < InstabilityCloseMargin cfg \<and>
     wrap64 (InstabilityMinLifetime cfg + InstabilityCloseMargin cfg) \<le> NaturalTTLMin cfg \<and>
     0 \<le> CreatureMax cfg \<and> 0 < CreatureTransit cfg \<and> 0 \<le> CreatureClearanceMargin cfg \<and>
     0 < ObserverCount cfg \<and> 0 < ObserverTransitMin cfg \<and>
     ObserverTransitMin cfg \<le> ObserverTransitMax cfg \<and>
     ObserverTransitMin cfg smod Second = 0 \<and> ObserverTransitMax cfg smod Second = 0 \<and>
     0 < ResearchDuration cfg \<and>
     0 < LabEnergyMax cfg \<and> 0 \<le> LabRegenPerSec cfg \<and>
     0 \<le> CloseCost cfg \<and> 0 \<le> StabilizeCost cfg \<and> 0 \<le> ExtractionCost cfg \<and>
     f_le (Fin 0) (StabilizeBoost cfg) \<and> f_le (Fin 0) (StabilizeMaxStartEnergy cfg) \<and>
     validExtractionConfig cfg \<and>
     ExtractionTTLMin cfg smod Second = 0 \<and> ExtractionTTLMax cfg smod Second = 0 \<and>
     0 < EmergencyDuration cfg \<and>
     0 < RiskSafeHorizon cfg \<and> f_le (Fin 0) (RiskInstabilityPenalty cfg)"

section \<open>Structure\<close>

definition validNaturalSpawnState :: "NaturalSpawnState \<Rightarrow> time \<Rightarrow> bool" where
  "validNaturalSpawnState spawn now =
     (if n_Paused spawn then n_ScheduledAt spawn = None \<and> n_DueAt spawn = None
      else (case (n_ScheduledAt spawn, n_DueAt spawn) of
              (Some scheduledAt, Some dueAt) \<Rightarrow> \<not> After scheduledAt now \<and> \<not> Before dueAt scheduledAt
            | _ \<Rightarrow> False))"

definition validSimulationTerminalPortal :: "Portal \<Rightarrow> time \<Rightarrow> bool" where
  "validSimulationTerminalPortal p now =
     (case p_ClosedAt p of
        None \<Rightarrow> False
      | Some closedAt \<Rightarrow>
          if Before closedAt (p_OpenedAt p) \<or> After closedAt now \<or> Before (p_UpdatedAt p) closedAt \<or>
             After (p_EnergyBaseAt p) closedAt \<or>
             (case p_ExtractionSynchronizedAt p of Some s \<Rightarrow> After s closedAt | None \<Rightarrow> False)
          then False
          else if p_Status p = PortalStatusClosed \<and> p_TerminationReason p = TerminationManualClose then True
          else if p_TerminationReason p = TerminationManualClose \<or> p_TerminationReason p = TerminationNone then False
          else (case Portal_ResolveLifecycle
                  (p\<lparr>p_Status := PortalStatusOpen, p_TerminationReason := TerminationNone, p_ClosedAt := None\<rparr>)
                  closedAt of
                (changed, candidate) \<Rightarrow>
                  changed \<and> p_Status candidate = p_Status p \<and>
                  p_TerminationReason candidate = p_TerminationReason p \<and>
                  (case p_ClosedAt candidate of Some c \<Rightarrow> Equal c closedAt | None \<Rightarrow> False)))"

definition validStructuralPortal :: "Portal \<Rightarrow> time \<Rightarrow> bool" where
  "validStructuralPortal p now \<longleftrightarrow>
     \<not> (p_ID p \<le> 0 \<or> p_SlotIndex p < 1 \<or> 7 < p_SlotIndex p \<or>
        p_DestinationPlaneID p \<le> 0 \<or> IsZero (p_OpenedAt p) \<or> IsZero (p_CreatedAt p) \<or>
        IsZero (p_EnergyBaseAt p) \<or> IsZero (p_UpdatedAt p) \<or> After (p_OpenedAt p) now \<or>
        \<not> After (p_ScheduledCloseAt p) (p_OpenedAt p) \<or> After (p_CreatedAt p) (p_OpenedAt p) \<or>
        Before (p_EnergyBaseAt p) (p_OpenedAt p) \<or> After (p_EnergyBaseAt p) (p_UpdatedAt p) \<or>
        After (p_EnergyBaseAt p) now \<or> Before (p_UpdatedAt p) (p_OpenedAt p) \<or>
        Before (p_UpdatedAt p) (p_CreatedAt p) \<or> After (p_UpdatedAt p) now \<or>
        IsNaN (p_EnergyBase p) \<or> IsInf (p_EnergyBase p) \<or>
        IsNaN (p_EnergyDecayRate p) \<or> IsInf (p_EnergyDecayRate p) \<or>
        f_less (p_EnergyBase p) (Fin 0) \<or> f_le (p_EnergyDecayRate p) (Fin 0) \<or>
        p_CreaturesInitial p < 0) \<and>
     p_ObserverFlow p \<in> {PortalFlowNone, PortalFlowOutbound, PortalFlowInbound} \<and>
     (case p_Stability p of
        PortalStable \<Rightarrow> p_InstabilityCollapseAt p = None
      | PortalUnstable \<Rightarrow>
          (case p_InstabilityCollapseAt p of
             None \<Rightarrow> False
           | Some t \<Rightarrow> After t (p_OpenedAt p) \<and> Before t (p_ScheduledCloseAt p))
      | PortalStabilityOther _ \<Rightarrow> False) \<and>
     (case p_Kind p of
        PortalKindNatural \<Rightarrow> p_ExtractionSynchronizedAt p = None
      | PortalKindExtraction \<Rightarrow>
          p_Stability p = PortalStable \<and> p_ObserverFlow p = PortalFlowInbound \<and> p_CreaturesInitial p = 0 \<and>
          (case p_ExtractionSynchronizedAt p of
             None \<Rightarrow> True
           | Some s \<Rightarrow> After s (p_OpenedAt p) \<and> \<not> After s now)
      | PortalKindOther _ \<Rightarrow> False) \<and>
     (case p_Status p of
        PortalStatusOpen \<Rightarrow> p_ClosedAt p = None \<and> p_TerminationReason p = TerminationNone
      | PortalStatusClosed \<Rightarrow> validSimulationTerminalPortal p now
      | PortalStatusCollapsed \<Rightarrow> validSimulationTerminalPortal p now
      | PortalStatusOther _ \<Rightarrow> False)"

definition validSimulationPhase :: "Observer \<Rightarrow> bool" where
  "validSimulationPhase ob =
     (case (o_PhaseStartedAt ob, o_PhaseEndsAt ob) of
        (Some startedAt, Some endsAt) \<Rightarrow> Before startedAt endsAt
      | _ \<Rightarrow> False)"

text \<open>The portal that the index map finds for an ID.\<close>

definition portal_by_id :: "Portal list \<Rightarrow> int \<Rightarrow> Portal option" where
  "portal_by_id portals i = find (\<lambda>p. p_ID p = i) portals"

text \<open>One pass of the loop in \<open>validateSimulationObservers\<close>.\<close>

definition validSimulationObserver :: "int set \<Rightarrow> Portal list \<Rightarrow> time \<Rightarrow> Observer \<Rightarrow> bool" where
  "validSimulationObserver planeIDs portals now ob \<longleftrightarrow>
     0 < o_ID ob \<and>
     \<not> After (o_CreatedAt ob) now \<and> \<not> Before (o_UpdatedAt ob) (o_CreatedAt ob) \<and> \<not> After (o_UpdatedAt ob) now \<and>
     (case o_PhaseStartedAt ob of Some s \<Rightarrow> \<not> After s now | None \<Rightarrow> True) \<and>
     (case o_CurrentPlaneID ob of Some pl \<Rightarrow> pl \<in> planeIDs | None \<Rightarrow> True) \<and>
     (case o_ActivePortalID ob of
        Some pid \<Rightarrow>
          (case portal_by_id portals pid of
             None \<Rightarrow> False
           | Some p \<Rightarrow> (case o_CurrentPlaneID ob of Some pl \<Rightarrow> p_DestinationPlaneID p = pl | None \<Rightarrow> True))
      | None \<Rightarrow> True) \<and>
     (let hasPlane = o_CurrentPlaneID ob \<noteq> None; hasPortal = o_ActivePortalID ob \<noteq> None;
          hasStart = o_PhaseStartedAt ob \<noteq> None; hasEnd = o_PhaseEndsAt ob \<noteq> None;
          flow = (case o_ActivePortalID ob of
                    Some pid \<Rightarrow> map_option p_ObserverFlow (portal_by_id portals pid) | None \<Rightarrow> None)
      in case o_Status ob of
           ObserverAvailable \<Rightarrow> \<not> (hasPlane \<or> hasPortal \<or> hasStart \<or> hasEnd)
         | ObserverLost \<Rightarrow> \<not> (hasPlane \<or> hasPortal \<or> hasStart \<or> hasEnd)
         | ObserverOutbound \<Rightarrow> \<not> hasPlane \<and> hasPortal \<and> validSimulationPhase ob \<and> flow = Some PortalFlowOutbound
         | ObserverExploring \<Rightarrow> hasPlane \<and> \<not> hasPortal \<and> validSimulationPhase ob
         | ObserverWaitingReturn \<Rightarrow> hasPlane \<and> \<not> hasPortal \<and> hasStart \<and> \<not> hasEnd
         | ObserverReturning \<Rightarrow> hasPlane \<and> hasPortal \<and> validSimulationPhase ob \<and> flow = Some PortalFlowInbound
         | ObserverStatusOther _ \<Rightarrow> False)"

definition validateSimulationObservers :: "Observer list \<Rightarrow> int set \<Rightarrow> Portal list \<Rightarrow> time \<Rightarrow> unit res" where
  "validateSimulationObservers observers planeIDs portals now =
     (if distinct (map o_ID observers) \<and> list_all (validSimulationObserver planeIDs portals now) observers
      then Ok () else Fail ErrSimulationInvariant)"

definition validPlane :: "time \<Rightarrow> Plane \<Rightarrow> bool" where
  "validPlane now pl \<longleftrightarrow>
     \<not> (pl_ID pl \<le> 0 \<or> pl_Explored pl \<noteq> (pl_ExploredAt pl \<noteq> None) \<or>
        (case pl_ExploredAt pl of Some t \<Rightarrow> After t now | None \<Rightarrow> False))"

definition open_slots :: "Portal list \<Rightarrow> int list" where
  "open_slots portals = map p_SlotIndex (filter (\<lambda>p. p_Status p = PortalStatusOpen) portals)"

definition maxPortalID :: "Portal list \<Rightarrow> int" where
  "maxPortalID portals = fold (\<lambda>p m. if m < p_ID p then p_ID p else m) portals 0"

definition validateSimulationStructure :: "SimulationState \<Rightarrow> time \<Rightarrow> unit res" where
  "validateSimulationStructure state now =
     (let planeIDs = set (map pl_ID (s_Planes state)) in
      if length (s_Planes state) \<noteq> 85 \<or> s_Observers state = [] \<or> s_NextPortalID state \<le> 0 \<or>
         l_EnergyBase (s_Lab state) < 0 \<or> After (l_EnergyBaseAt (s_Lab state)) now \<or>
         (case s_LastTickAt state of Some t \<Rightarrow> After t now | None \<Rightarrow> False) \<or>
         \<not> validNaturalSpawnState (s_NaturalSpawn state) now
      then Fail ErrSimulationInvariant
      else if \<not> list_all (validPlane now) (s_Planes state) \<or> \<not> distinct (map pl_ID (s_Planes state))
      then Fail ErrSimulationInvariant
      else if \<not> list_all (\<lambda>p. validStructuralPortal p now \<and> p_DestinationPlaneID p \<in> planeIDs) (s_Portals state) \<or>
         \<not> distinct (map p_ID (s_Portals state)) \<or> \<not> distinct (open_slots (s_Portals state))
      then Fail ErrSimulationInvariant
      else if s_NextPortalID state \<le> maxPortalID (s_Portals state) then Fail ErrSimulationInvariant
      else validateSimulationObservers (s_Observers state) planeIDs (s_Portals state) now)"

section \<open>Against the configuration\<close>

definition validSimulationPortal :: "Portal \<Rightarrow> time \<Rightarrow> Config \<Rightarrow> bool" where
  "validSimulationPortal p now cfg =
     (if \<not> validStructuralPortal p now \<or> MaxActivePortals cfg < p_SlotIndex p \<or> CreatureMax cfg < p_CreaturesInitial p
      then False
      else let maxEnergy = f_max (f_max (PortalEnergyMax cfg) (ExtractionEnergyMax cfg))
                             (f_add (StabilizeMaxStartEnergy cfg) (StabilizeBoost cfg))
           in \<not> f_less maxEnergy (p_EnergyBase p) \<and>
              (case p_Stability p of
                 PortalStable \<Rightarrow> True
               | PortalUnstable \<Rightarrow>
                   (case p_InstabilityCollapseAt p of
                      None \<Rightarrow> False
                    | Some t \<Rightarrow> \<not> Before t (Add (p_OpenedAt p) (InstabilityMinLifetime cfg)) \<and>
                               \<not> After t (Add (p_ScheduledCloseAt p) (wrap64 (- InstabilityCloseMargin cfg))))
               | PortalStabilityOther _ \<Rightarrow> False) \<and>
              (case p_Kind p of
                 PortalKindNatural \<Rightarrow> True
               | PortalKindExtraction \<Rightarrow>
                   (case p_ExtractionSynchronizedAt p of
                      None \<Rightarrow> True
                    | Some s \<Rightarrow> Equal s (Add (p_OpenedAt p) (ExtractionSync cfg)) \<and> \<not> After s now)
               | PortalKindOther _ \<Rightarrow> False))"

definition validateSimulationState :: "SimulationState \<Rightarrow> time \<Rightarrow> Config \<Rightarrow> unit res" where
  "validateSimulationState state now cfg =
     (let planeIDs = set (map pl_ID (s_Planes state)) in
      if \<not> validSimulationConfig cfg \<or> length (s_Planes state) \<noteq> 85 \<or>
         int (length (s_Observers state)) \<noteq> ObserverCount cfg \<or> s_NextPortalID state \<le> 0
      then Fail ErrSimulationInvariant
      else if validateSimulationStructure state now \<noteq> Ok () then Fail ErrSimulationInvariant
      else if \<not> (case prepareLabEnergySpend (s_Lab state) now 0 cfg of Ok _ \<Rightarrow> True | _ \<Rightarrow> False)
      then Fail ErrSimulationInvariant
      else if (case s_LastTickAt state of Some t \<Rightarrow> After t now | None \<Rightarrow> False) then Fail ErrSimulationInvariant
      else if \<not> validNaturalSpawnState (s_NaturalSpawn state) now then Fail ErrSimulationInvariant
      else if \<not> list_all (validPlane now) (s_Planes state) \<or> \<not> distinct (map pl_ID (s_Planes state))
      then Fail ErrSimulationInvariant
      else if \<not> list_all (\<lambda>p. 0 < p_ID p \<and> validSimulationPortal p now cfg \<and>
                              p_DestinationPlaneID p \<in> planeIDs) (s_Portals state) \<or>
         \<not> distinct (map p_ID (s_Portals state)) \<or> \<not> distinct (open_slots (s_Portals state))
      then Fail ErrSimulationInvariant
      else if s_NextPortalID state \<le> maxPortalID (s_Portals state) then Fail ErrSimulationInvariant
      else validateSimulationObservers (s_Observers state) planeIDs (s_Portals state) now)"

end
