(* ===== verification/Events.thy ===== *)
theory Events
  imports SimState
begin

text \<open>
  The event log: event drafts and their validation (\<open>internal/domain/event.go\<close>) and the
  derivation of drafts from a state transition (\<open>event_transition.go\<close>).  A payload is kept
  as the JSON value it encodes.  Go iterates over a map in an arbitrary order; the loops
  over maps take that order as an argument, a list of the keys.
\<close>

section \<open>Drafts\<close>

datatype json = JNull | JString string | JTime time | JObject "(string \<times> json) list"

datatype EventType =
    EventPortalOpened | EventPortalStabilized | EventPortalClosed | EventPortalCollapsed
  | EventRiskLevelChanged | EventObserverDispatched | EventObserverArrived | EventResearchStarted
  | EventResearchCompleted | EventObserverReturnStarted | EventObserverReturned | EventObserverLost
  | EventPlaneExplored | EventExtractionPortalOpened | EventExtractionSynchronized
  | EventLeylineOverrideStarted | EventLeylineOverrideEnded | EventActionRejected
  | EventTypeOther string

fun EventType_text :: "EventType \<Rightarrow> string" where
  "EventType_text EventPortalOpened = ''PORTAL_OPENED''"
| "EventType_text EventPortalStabilized = ''PORTAL_STABILIZED''"
| "EventType_text EventPortalClosed = ''PORTAL_CLOSED''"
| "EventType_text EventPortalCollapsed = ''PORTAL_COLLAPSED''"
| "EventType_text EventRiskLevelChanged = ''RISK_LEVEL_CHANGED''"
| "EventType_text EventObserverDispatched = ''OBSERVER_DISPATCHED''"
| "EventType_text EventObserverArrived = ''OBSERVER_ARRIVED''"
| "EventType_text EventResearchStarted = ''RESEARCH_STARTED''"
| "EventType_text EventResearchCompleted = ''RESEARCH_COMPLETED''"
| "EventType_text EventObserverReturnStarted = ''OBSERVER_RETURN_STARTED''"
| "EventType_text EventObserverReturned = ''OBSERVER_RETURNED''"
| "EventType_text EventObserverLost = ''OBSERVER_LOST''"
| "EventType_text EventPlaneExplored = ''PLANE_EXPLORED''"
| "EventType_text EventExtractionPortalOpened = ''EXTRACTION_PORTAL_OPENED''"
| "EventType_text EventExtractionSynchronized = ''EXTRACTION_SYNCHRONIZED''"
| "EventType_text EventLeylineOverrideStarted = ''LEYLINE_OVERRIDE_STARTED''"
| "EventType_text EventLeylineOverrideEnded = ''LEYLINE_OVERRIDE_ENDED''"
| "EventType_text EventActionRejected = ''ACTION_REJECTED''"
| "EventType_text (EventTypeOther s) = s"

definition IsEventType :: "EventType \<Rightarrow> bool" where
  "IsEventType t = (case t of EventTypeOther _ \<Rightarrow> False | _ \<Rightarrow> True)"

record EventDraft =
  d_EventType :: EventType
  d_PortalID :: "int option"
  d_ObserverID :: "int option"
  d_PlaneID :: "int option"
  d_Message :: string
  d_PayloadJSON :: json
  d_CreatedAt :: time

record Event =
  e_ID :: int
  e_EventType :: EventType
  e_PortalID :: "int option"
  e_ObserverID :: "int option"
  e_PlaneID :: "int option"
  e_Message :: string
  e_PayloadJSON :: json
  e_CreatedAt :: time

text \<open>
  \<open>strings.TrimSpace(s) == ""\<close>: the bytes are UTF-8 encodings of white space only.
\<close>

fun blank_codes :: "nat list \<Rightarrow> bool" where
  "blank_codes [] = True"
| "blank_codes (a # s) =
     (if a \<in> {9, 10, 11, 12, 13, 32} then blank_codes s
      else (case s of
              b # s' \<Rightarrow>
                if a = 194 \<and> (b = 133 \<or> b = 160) then blank_codes s'
                else (case s' of
                        c # s'' \<Rightarrow>
                          if (a = 225 \<and> b = 154 \<and> c = 128) \<or>
                             (a = 226 \<and> b = 128 \<and> (128 \<le> c \<and> c \<le> 138 \<or> c = 168 \<or> c = 169 \<or> c = 175)) \<or>
                             (a = 226 \<and> b = 129 \<and> c = 159) \<or> (a = 227 \<and> b = 128 \<and> c = 128)
                          then blank_codes s'' else False
                      | [] \<Rightarrow> False)
            | [] \<Rightarrow> False))"

definition blank :: "string \<Rightarrow> bool" where
  "blank s = blank_codes (map of_char s)"

definition validEventEntityID :: "int option \<Rightarrow> bool" where
  "validEventEntityID i = (case i of None \<Rightarrow> True | Some n \<Rightarrow> 0 < n)"

definition isJSONObject :: "json \<Rightarrow> bool" where
  "isJSONObject payload = (case payload of JObject _ \<Rightarrow> True | _ \<Rightarrow> False)"

definition EventDraft_Validate :: "EventDraft \<Rightarrow> unit res" where
  "EventDraft_Validate d =
     (if \<not> IsEventType (d_EventType d) \<or> blank (d_Message d) \<or> IsZero (d_CreatedAt d) \<or> \<not> utc (d_CreatedAt d) \<or>
         \<not> validEventEntityID (d_PortalID d) \<or> \<not> validEventEntityID (d_ObserverID d) \<or>
         \<not> validEventEntityID (d_PlaneID d) \<or> \<not> isJSONObject (d_PayloadJSON d)
      then Fail ErrEventInvariant else Ok ())"

definition ValidatePersisted :: "Event \<Rightarrow> unit res" where
  "ValidatePersisted e =
     (if e_ID e \<le> 0 then Fail ErrEventInvariant
      else EventDraft_Validate
        \<lparr>d_EventType = e_EventType e, d_PortalID = e_PortalID e, d_ObserverID = e_ObserverID e,
         d_PlaneID = e_PlaneID e, d_Message = e_Message e, d_PayloadJSON = e_PayloadJSON e,
         d_CreatedAt = e_CreatedAt e\<rparr>)"

definition PortalHistory :: "Event list \<Rightarrow> int \<Rightarrow> Event list" where
  "PortalHistory events portalID =
     SliceStable (\<lambda>a b. if Equal (e_CreatedAt a) (e_CreatedAt b) then e_ID a < e_ID b
                        else Before (e_CreatedAt a) (e_CreatedAt b))
       (filter (\<lambda>e. e_PortalID e = Some portalID) events)"

text \<open>
  \<open>json.Marshal\<close> fails only on a time outside the years 0 to 9999.
\<close>

definition year_ok :: "time \<Rightarrow> bool" where
  "year_ok t \<longleftrightarrow> - (366 * 86400 * Second) \<le> ns t \<and> ns t < 3652059 * 86400 * Second"

fun marshal_ok :: "json \<Rightarrow> bool" where
  "marshal_ok (JTime t) = year_ok t"
| "marshal_ok (JObject kvs) = list_all (\<lambda>(k, v). marshal_ok v) kvs"
| "marshal_ok _ = True"

definition NewActionRejectedEvent ::
    "time \<Rightarrow> string \<Rightarrow> int option \<Rightarrow> int option \<Rightarrow> int option \<Rightarrow> error option \<Rightarrow> EventDraft res" where
  "NewActionRejectedEvent now action portalID observerID planeID cause =
     (case cause of
        None \<Rightarrow> Fail ErrEventInvariant
      | Some err \<Rightarrow>
          if blank action then Fail ErrEventInvariant
          else let draft = \<lparr>d_EventType = EventActionRejected, d_PortalID = portalID, d_ObserverID = observerID,
                   d_PlaneID = planeID, d_Message = ''Action rejected: '' @ Error_text err,
                   d_PayloadJSON = JObject [(''action'', JString action), (''cause'', JString (Error_text err))],
                   d_CreatedAt = now\<rparr>
               in rbind (EventDraft_Validate draft) (\<lambda>_. Ok draft))"

section \<open>Helpers of the transition\<close>

definition makeEvent ::
    "EventType \<Rightarrow> int option \<Rightarrow> int option \<Rightarrow> int option \<Rightarrow> string \<Rightarrow> (string \<times> json) list \<Rightarrow> time \<Rightarrow> EventDraft res" where
  "makeEvent eventType portalID observerID planeID message payload createdAt =
     (if \<not> marshal_ok (JObject payload) then Fail ErrEventInvariant
      else let draft = \<lparr>d_EventType = eventType, d_PortalID = portalID, d_ObserverID = observerID,
               d_PlaneID = planeID, d_Message = message, d_PayloadJSON = JObject payload,
               d_CreatedAt = createdAt\<rparr>
           in rbind (EventDraft_Validate draft) (\<lambda>_. Ok draft))"

definition appendEvent ::
    "EventDraft list \<Rightarrow> EventType \<Rightarrow> int option \<Rightarrow> int option \<Rightarrow> int option \<Rightarrow> string \<Rightarrow> (string \<times> json) list \<Rightarrow>
     time \<Rightarrow> EventDraft list res" where
  "appendEvent events eventType portalID observerID planeID message payload createdAt =
     rbind (makeEvent eventType portalID observerID planeID message payload createdAt)
       (\<lambda>d. Ok (events @ [d]))"

text \<open>\<open>portalsByID\<close>, \<open>observersByID\<close> and \<open>planesByID\<close>: positive, distinct IDs.\<close>

definition byID :: "('a \<Rightarrow> int) \<Rightarrow> 'a list \<Rightarrow> (int \<rightharpoonup> 'a) res" where
  "byID key xs =
     foldM (\<lambda>m x. if key x \<le> 0 then Fail ErrEventInvariant
                  else if m (key x) \<noteq> None then Fail ErrEventInvariant
                  else Ok (m(key x \<mapsto> x))) Map.empty xs"

definition portalsByID :: "Portal list \<Rightarrow> (int \<rightharpoonup> Portal) res" where
  "portalsByID = byID p_ID"

definition observersByID :: "Observer list \<Rightarrow> (int \<rightharpoonup> Observer) res" where
  "observersByID = byID o_ID"

definition planesByID :: "Plane list \<Rightarrow> (int \<rightharpoonup> Plane) res" where
  "planesByID = byID pl_ID"

fun eventTieRank :: "EventType \<Rightarrow> int" where
  "eventTieRank EventPortalClosed = 10"
| "eventTieRank EventPortalCollapsed = 10"
| "eventTieRank EventLeylineOverrideEnded = 20"
| "eventTieRank EventLeylineOverrideStarted = 21"
| "eventTieRank EventPortalStabilized = 30"
| "eventTieRank EventObserverDispatched = 30"
| "eventTieRank EventObserverArrived = 30"
| "eventTieRank EventResearchStarted = 31"
| "eventTieRank EventResearchCompleted = 40"
| "eventTieRank EventExtractionSynchronized = 50"
| "eventTieRank EventObserverReturnStarted = 51"
| "eventTieRank EventObserverReturned = 60"
| "eventTieRank EventObserverLost = 60"
| "eventTieRank EventPlaneExplored = 61"
| "eventTieRank EventRiskLevelChanged = 70"
| "eventTieRank EventPortalOpened = 80"
| "eventTieRank EventExtractionPortalOpened = 80"
| "eventTieRank _ = 90"

definition pointerValue :: "int option \<Rightarrow> int" where
  "pointerValue v = (case v of None \<Rightarrow> 0 | Some n \<Rightarrow> n)"

definition requiredTime :: "time option \<Rightarrow> time" where
  "requiredTime v = (case v of None \<Rightarrow> zeroTime | Some t \<Rightarrow> t)"

definition equalTimePointer :: "time option \<Rightarrow> time option \<Rightarrow> bool" where
  "equalTimePointer a b =
     (case (a, b) of (None, None) \<Rightarrow> True | (Some s, Some t) \<Rightarrow> Equal s t | _ \<Rightarrow> False)"

definition equalInt64Pointer :: "int option \<Rightarrow> int option \<Rightarrow> bool" where
  "equalInt64Pointer a b \<longleftrightarrow> a = b"

definition sameObserverPhase :: "Observer \<Rightarrow> Observer \<Rightarrow> bool" where
  "sameObserverPhase a b \<longleftrightarrow>
     equalInt64Pointer (o_CurrentPlaneID a) (o_CurrentPlaneID b) \<and>
     equalInt64Pointer (o_ActivePortalID a) (o_ActivePortalID b) \<and>
     equalTimePointer (o_PhaseStartedAt a) (o_PhaseStartedAt b) \<and>
     equalTimePointer (o_PhaseEndsAt a) (o_PhaseEndsAt b)"

definition portalPlaneID :: "(int \<rightharpoonup> Portal) \<Rightarrow> int option \<Rightarrow> int option" where
  "portalPlaneID portals portalID =
     (case portalID of None \<Rightarrow> None | Some i \<Rightarrow> map_option p_DestinationPlaneID (portals i))"

text \<open>The comparison of drafts; Go compares strings bytewise.\<close>

definition eventDraftLess :: "EventDraft \<Rightarrow> EventDraft \<Rightarrow> bool" where
  "eventDraftLess a b =
     (if \<not> Equal (d_CreatedAt a) (d_CreatedAt b) then Before (d_CreatedAt a) (d_CreatedAt b)
      else if eventTieRank (d_EventType a) \<noteq> eventTieRank (d_EventType b)
      then eventTieRank (d_EventType a) < eventTieRank (d_EventType b)
      else if pointerValue (d_PortalID a) \<noteq> pointerValue (d_PortalID b)
      then pointerValue (d_PortalID a) < pointerValue (d_PortalID b)
      else if pointerValue (d_ObserverID a) \<noteq> pointerValue (d_ObserverID b)
      then pointerValue (d_ObserverID a) < pointerValue (d_ObserverID b)
      else if pointerValue (d_PlaneID a) \<noteq> pointerValue (d_PlaneID b)
      then pointerValue (d_PlaneID a) < pointerValue (d_PlaneID b)
      else EventType_text (d_EventType a) < EventType_text (d_EventType b))"

section \<open>The transition\<close>

fun PortalKind_text :: "PortalKind \<Rightarrow> string" where
  "PortalKind_text PortalKindNatural = ''NATURAL''"
| "PortalKind_text PortalKindExtraction = ''EXTRACTION''"
| "PortalKind_text (PortalKindOther s) = s"

fun TerminationReason_text :: "TerminationReason \<Rightarrow> string" where
  "TerminationReason_text TerminationNone = []"
| "TerminationReason_text TerminationNaturalClose = ''NATURAL_CLOSE''"
| "TerminationReason_text TerminationManualClose = ''MANUAL_CLOSE''"
| "TerminationReason_text TerminationEnergyDepleted = ''ENERGY_DEPLETED''"
| "TerminationReason_text TerminationInstability = ''INSTABILITY''"
| "TerminationReason_text (TerminationOther s) = s"

fun RiskLevel_text :: "RiskLevel \<Rightarrow> string" where
  "RiskLevel_text RiskLow = ''LOW''"
| "RiskLevel_text RiskMedium = ''MEDIUM''"
| "RiskLevel_text RiskHigh = ''HIGH''"
| "RiskLevel_text RiskCritical = ''CRITICAL''"

record portalCollapse =
  pc_portalID :: int
  pc_planeID :: int
  pc_at :: time

text \<open>
  The parts of one pass of the loop over \<open>afterPortals\<close>, for a portal that existed before:
  its termination, stabilization, synchronization and risk level.
\<close>

definition terminationEvents :: "Portal \<Rightarrow> Portal \<Rightarrow> (EventDraft list \<times> portalCollapse list) res" where
  "terminationEvents prior portal =
     (if p_Status prior = PortalStatusOpen \<and> p_Status portal \<noteq> PortalStatusOpen
      then (case p_ClosedAt portal of
              None \<Rightarrow> Fail ErrEventInvariant
            | Some closedAt \<Rightarrow>
                let collapsed = (p_Status portal = PortalStatusCollapsed) in
                rbind (appendEvent [] (if collapsed then EventPortalCollapsed else EventPortalClosed)
                    (Some (p_ID portal)) None (Some (p_DestinationPlaneID portal))
                    (if collapsed then ''Portal collapsed'' else ''Portal closed'')
                    [(''reason'', JString (TerminationReason_text (p_TerminationReason portal)))] closedAt)
                  (\<lambda>events. Ok (events,
                     if collapsed
                     then [\<lparr>pc_portalID = p_ID portal, pc_planeID = p_DestinationPlaneID portal,
                            pc_at = closedAt\<rparr>]
                     else [])))
      else Ok ([], []))"

definition stabilizedEvents :: "Portal \<Rightarrow> Portal \<Rightarrow> EventDraft list \<Rightarrow> EventDraft list res" where
  "stabilizedEvents prior portal events =
     (if p_Status prior = PortalStatusOpen \<and> p_Status portal = PortalStatusOpen \<and>
         p_Stability prior = PortalUnstable \<and> p_Stability portal = PortalStable
      then appendEvent events EventPortalStabilized (Some (p_ID portal)) None
             (Some (p_DestinationPlaneID portal)) ''Portal stabilized'' [] (p_UpdatedAt portal)
      else Ok events)"

definition synchronizedEvents :: "Portal \<Rightarrow> Portal \<Rightarrow> EventDraft list \<Rightarrow> EventDraft list res" where
  "synchronizedEvents prior portal events =
     (case (p_ExtractionSynchronizedAt prior, p_ExtractionSynchronizedAt portal) of
        (None, Some syncedAt) \<Rightarrow>
          appendEvent events EventExtractionSynchronized (Some (p_ID portal)) None
            (Some (p_DestinationPlaneID portal)) ''Extraction synchronized'' [] syncedAt
      | _ \<Rightarrow> Ok events)"

definition riskEvents :: "Portal \<Rightarrow> Portal \<Rightarrow> time \<Rightarrow> time \<Rightarrow> Config \<Rightarrow> EventDraft list \<Rightarrow> EventDraft list res" where
  "riskEvents prior portal previousAt now cfg events =
     (if p_Status prior = PortalStatusOpen \<and> p_Status portal = PortalStatusOpen
      then (case (Portal_RiskLevel prior previousAt cfg, Portal_RiskLevel portal now cfg) of
              (Some previousLevel, Some currentLevel) \<Rightarrow>
                if previousLevel \<noteq> currentLevel
                then appendEvent events EventRiskLevelChanged (Some (p_ID portal)) None
                       (Some (p_DestinationPlaneID portal)) ''Portal risk level changed''
                       [(''previous'', JString (RiskLevel_text previousLevel)),
                        (''current'', JString (RiskLevel_text currentLevel))] now
                else Ok events
            | _ \<Rightarrow> Ok events)
      else Ok events)"

definition openedEvents :: "Portal \<Rightarrow> EventDraft list res" where
  "openedEvents portal =
     (if p_Status portal \<noteq> PortalStatusOpen then Ok []
      else appendEvent []
             (if p_Kind portal = PortalKindExtraction then EventExtractionPortalOpened else EventPortalOpened)
             (Some (p_ID portal)) None (Some (p_DestinationPlaneID portal)) ''Portal opened''
             [(''kind'', JString (PortalKind_text (p_Kind portal)))] (p_OpenedAt portal))"

definition eventsForPortal ::
    "(int \<rightharpoonup> Portal) \<Rightarrow> int \<Rightarrow> Portal \<Rightarrow> time \<Rightarrow> time \<Rightarrow> Config \<Rightarrow> (EventDraft list \<times> portalCollapse list) res" where
  "eventsForPortal beforePortals i portal previousAt now cfg =
     (case beforePortals i of
        None \<Rightarrow> rbind (openedEvents portal) (\<lambda>events. Ok (events, []))
      | Some prior \<Rightarrow>
          rbind (terminationEvents prior portal) (\<lambda>(events, collapses).
          rbind (stabilizedEvents prior portal events) (\<lambda>events.
          rbind (synchronizedEvents prior portal events) (\<lambda>events.
          rbind (riskEvents prior portal previousAt now cfg events) (\<lambda>events.
          Ok (events, collapses))))))"

definition eventsForPortals ::
    "(int \<rightharpoonup> Portal) \<Rightarrow> (int \<rightharpoonup> Portal) \<Rightarrow> int list \<Rightarrow> time \<Rightarrow> time \<Rightarrow> Config \<Rightarrow>
     (EventDraft list \<times> portalCollapse list) res" where
  "eventsForPortals beforePortals afterPortals order previousAt now cfg =
     foldM (\<lambda>(events, collapses) i.
         case afterPortals i of
           None \<Rightarrow> Ok (events, collapses)
         | Some portal \<Rightarrow>
             rbind (eventsForPortal beforePortals i portal previousAt now cfg)
               (\<lambda>(es, cs). Ok (events @ es, collapses @ cs)))
       ([], []) order"

definition eventsForOverride ::
    "LabState \<Rightarrow> portalCollapse list \<Rightarrow> time \<Rightarrow> time \<Rightarrow> Config \<Rightarrow> EventDraft list res" where
  "eventsForOverride before collapses previousAt now cfg =
     (let sorted = SliceStable (\<lambda>a b. if Equal (pc_at a) (pc_at b) then pc_portalID a < pc_portalID b
                                      else Before (pc_at a) (pc_at b)) collapses;
          ended = (\<lambda>events deadline. appendEvent events EventLeylineOverrideEnded None None None
                     ''Leyline Override ended'' [] deadline)
      in rbind (foldM (\<lambda>(events, deadline, windowStart) c.
             rbind (case deadline of
                      Some d \<Rightarrow> if Before windowStart d \<and> \<not> Before (pc_at c) d then ended events d else Ok events
                    | None \<Rightarrow> Ok events) (\<lambda>events.
             let newDeadline = Add (pc_at c) (EmergencyDuration cfg) in
             rbind (appendEvent events EventLeylineOverrideStarted (Some (pc_portalID c)) None (Some (pc_planeID c))
                      ''Leyline Override started'' [(''until'', JTime newDeadline)] (pc_at c)) (\<lambda>events.
             Ok (events, Some newDeadline, pc_at c))))
           ([], l_LeylineOverrideUntil before, previousAt) sorted)
         (\<lambda>(events, deadline, windowStart).
             case deadline of
               Some d \<Rightarrow> if Before windowStart d \<and> \<not> Before now d then ended events d else Ok events
             | None \<Rightarrow> Ok events))"

text \<open>The parts of one pass of the loop over \<open>afterObservers\<close>.\<close>

definition dispatchedEvents :: "(int \<rightharpoonup> Portal) \<Rightarrow> Observer \<Rightarrow> Observer \<Rightarrow> EventDraft list res" where
  "dispatchedEvents afterPortals prior ob =
     (if o_Status prior = ObserverAvailable \<and> o_Status ob = ObserverOutbound
      then appendEvent [] EventObserverDispatched (o_ActivePortalID ob) (Some (o_ID ob))
             (portalPlaneID afterPortals (o_ActivePortalID ob)) ''Observer dispatched'' []
             (requiredTime (o_PhaseStartedAt ob))
      else Ok [])"

definition arrivalEvents ::
    "(int \<rightharpoonup> Portal) \<Rightarrow> Observer \<Rightarrow> Observer \<Rightarrow> Config \<Rightarrow> EventDraft list \<Rightarrow> EventDraft list res" where
  "arrivalEvents beforePortals prior ob cfg events =
     (if o_Status prior = ObserverOutbound \<and> o_Status ob \<noteq> ObserverOutbound \<and> o_Status ob \<noteq> ObserverLost
      then let arrivalAt = requiredTime (o_PhaseEndsAt prior);
               planeID = (case o_CurrentPlaneID ob of
                            None \<Rightarrow> portalPlaneID beforePortals (o_ActivePortalID prior)
                          | Some pl \<Rightarrow> Some pl)
           in rbind (appendEvent events EventObserverArrived (o_ActivePortalID prior) (Some (o_ID ob)) planeID
                  ''Observer arrived'' [] arrivalAt) (\<lambda>events.
              rbind (appendEvent events EventResearchStarted (o_ActivePortalID prior) (Some (o_ID ob)) planeID
                  ''Research started'' [] arrivalAt) (\<lambda>events.
              if o_Status ob \<noteq> ObserverExploring
              then appendEvent events EventResearchCompleted None (Some (o_ID ob)) planeID
                     ''Research completed'' [] (Add arrivalAt (ResearchDuration cfg))
              else Ok events))
      else if o_Status prior = ObserverExploring \<and> o_Status ob \<noteq> ObserverExploring \<and> o_Status ob \<noteq> ObserverLost
      then appendEvent events EventResearchCompleted None (Some (o_ID ob)) (o_CurrentPlaneID prior)
             ''Research completed'' [] (requiredTime (o_PhaseEndsAt prior))
      else Ok events)"

definition returnStartedEvents :: "Observer \<Rightarrow> Observer \<Rightarrow> EventDraft list \<Rightarrow> EventDraft list res" where
  "returnStartedEvents prior ob events =
     (if (o_Status prior = ObserverWaitingReturn \<or> o_Status prior = ObserverExploring \<or>
          o_Status prior = ObserverOutbound) \<and> o_Status ob = ObserverReturning
      then appendEvent events EventObserverReturnStarted (o_ActivePortalID ob) (Some (o_ID ob))
             (o_CurrentPlaneID ob) ''Observer return started'' [] (requiredTime (o_PhaseStartedAt ob))
      else Ok events)"

definition returnedEvents :: "Observer \<Rightarrow> Observer \<Rightarrow> EventDraft list \<Rightarrow> EventDraft list res" where
  "returnedEvents prior ob events =
     (if o_Status prior = ObserverReturning \<and> o_Status ob = ObserverAvailable
      then appendEvent events EventObserverReturned (o_ActivePortalID prior) (Some (o_ID ob))
             (o_CurrentPlaneID prior) ''Observer returned'' [] (requiredTime (o_PhaseEndsAt prior))
      else Ok events)"

definition lostEvents ::
    "(int \<rightharpoonup> Portal) \<Rightarrow> Observer \<Rightarrow> Observer \<Rightarrow> time \<Rightarrow> EventDraft list \<Rightarrow> EventDraft list res" where
  "lostEvents beforePortals prior ob now events =
     (if o_Status ob = ObserverLost \<and> o_Status prior \<noteq> ObserverLost
      then if IsZero (o_UpdatedAt ob) \<or> After (o_UpdatedAt ob) now then Fail ErrEventInvariant
           else appendEvent events EventObserverLost (o_ActivePortalID prior) (Some (o_ID ob))
                  (case o_CurrentPlaneID prior of
                     None \<Rightarrow> portalPlaneID beforePortals (o_ActivePortalID prior)
                   | Some pl \<Rightarrow> Some pl) ''Observer lost'' [] (o_UpdatedAt ob)
      else Ok events)"

definition eventsForObserver ::
    "(int \<rightharpoonup> Observer) \<Rightarrow> (int \<rightharpoonup> Portal) \<Rightarrow> (int \<rightharpoonup> Portal) \<Rightarrow> int \<Rightarrow> Observer \<Rightarrow> time \<Rightarrow> Config \<Rightarrow>
     EventDraft list res" where
  "eventsForObserver beforeObservers beforePortals afterPortals i ob now cfg =
     (case beforeObservers i of
        None \<Rightarrow> Ok []
      | Some prior \<Rightarrow>
          if o_Status prior = o_Status ob \<and> sameObserverPhase prior ob then Ok []
          else rbind (dispatchedEvents afterPortals prior ob) (\<lambda>events.
               rbind (arrivalEvents beforePortals prior ob cfg events) (\<lambda>events.
               rbind (returnStartedEvents prior ob events) (\<lambda>events.
               rbind (returnedEvents prior ob events) (\<lambda>events.
               lostEvents beforePortals prior ob now events)))))"

definition eventsForObservers ::
    "Observer list \<Rightarrow> Observer list \<Rightarrow> (int \<rightharpoonup> Portal) \<Rightarrow> (int \<rightharpoonup> Portal) \<Rightarrow> int list \<Rightarrow> time \<Rightarrow> Config \<Rightarrow>
     EventDraft list res" where
  "eventsForObservers before after beforePortals afterPortals order now cfg =
     rbind (observersByID before) (\<lambda>beforeObservers.
     rbind (observersByID after) (\<lambda>afterObservers.
       foldM (\<lambda>events i.
           case afterObservers i of
             None \<Rightarrow> Ok events
           | Some ob \<Rightarrow>
               rbind (eventsForObserver beforeObservers beforePortals afterPortals i ob now cfg)
                 (\<lambda>es. Ok (events @ es)))
         [] order))"

definition eventsForPlanes :: "Plane list \<Rightarrow> Plane list \<Rightarrow> EventDraft list res" where
  "eventsForPlanes before after =
     rbind (planesByID before) (\<lambda>beforePlanes.
     rbind (planesByID after) (\<lambda>_.
       foldM (\<lambda>events plane.
           case beforePlanes (pl_ID plane) of
             None \<Rightarrow> Ok events
           | Some prior \<Rightarrow>
               (case pl_ExploredAt plane of
                  None \<Rightarrow> Ok events
                | Some exploredAt \<Rightarrow>
                    if pl_Explored prior \<or> \<not> pl_Explored plane then Ok events
                    else appendEvent events EventPlaneExplored None None (Some (pl_ID plane))
                           ''Plane explored'' [] exploredAt))
         [] after))"

text \<open>
  The two loops over maps, and a choice of the iteration order in each, for the keys of the map
  given as the list of IDs.
\<close>

datatype map_loop = PortalLoop | ObserverLoop

type_synonym map_order = "map_loop \<Rightarrow> int list \<Rightarrow> int list"

definition EventsForStateTransition ::
    "map_order \<Rightarrow> SimulationState \<Rightarrow> SimulationState \<Rightarrow> time \<Rightarrow> time \<Rightarrow> Config \<Rightarrow>
     EventDraft list res" where
  "EventsForStateTransition order before after previousAt now cfg =
     (if IsZero previousAt \<or> IsZero now \<or> \<not> utc previousAt \<or> \<not> utc now \<or> Before now previousAt \<or>
         \<not> validSimulationConfig cfg
      then Fail ErrEventInvariant
      else rbind (portalsByID (s_Portals before)) (\<lambda>beforePortals.
           rbind (portalsByID (s_Portals after)) (\<lambda>afterPortals.
           rbind (eventsForPortals beforePortals afterPortals (order PortalLoop (map p_ID (s_Portals after)))
                    previousAt now cfg) (\<lambda>(events, collapses).
           rbind (eventsForOverride (s_Lab before) collapses previousAt now cfg) (\<lambda>overrideEvents.
           rbind (eventsForObservers (s_Observers before) (s_Observers after) beforePortals afterPortals
                    (order ObserverLoop (map o_ID (s_Observers after))) now cfg) (\<lambda>observerEvents.
           rbind (eventsForPlanes (s_Planes before) (s_Planes after)) (\<lambda>planeEvents.
           Ok (SliceStable eventDraftLess (events @ overrideEvents @ observerEvents @ planeEvents)))))))))"

end
