(* ===== verification/Simulation.thy ===== *)
theory Simulation
  imports Events Factory
begin

text \<open>
  The tick of the simulation: the portal, observer, extraction and natural-spawn stages of
  \<open>internal/domain/simulation.go\<close>, the natural generator of \<open>simulation_spawn.go\<close>, and the
  portal that needs attention (\<open>simulation_attention.go\<close>).  A stage works on a copy of the
  state, so its error leaves the state as it was.
\<close>

section \<open>Results\<close>

record NaturalSpawnResult =
  nr_Changed :: bool
  nr_Spawned :: bool
  nr_PortalID :: int

record SimulationTickResult =
  t_Changed :: bool
  t_Spawned :: bool
  t_SpawnedPortalID :: int
  t_HasNeedsAttention :: bool
  t_NeedsAttentionPortalID :: int
  t_LabEnergy :: int
  t_Events :: "EventDraft list"

section \<open>The portal that needs attention\<close>

definition attentionBefore :: "Portal \<Rightarrow> Portal \<Rightarrow> time \<Rightarrow> Config \<Rightarrow> bool" where
  "attentionBefore a b now cfg =
     (let aScore = Portal_RiskScore a now cfg; bScore = Portal_RiskScore b now cfg in
      if \<not> f_eq aScore bScore then f_less bScore aScore
      else if p_Stability a \<noteq> p_Stability b then p_Stability a = PortalUnstable
      else let aLifetime = Portal_EffectiveLifetime a now; bLifetime = Portal_EffectiveLifetime b now in
        if aLifetime \<noteq> bLifetime then aLifetime < bLifetime
        else if \<not> Equal (p_OpenedAt a) (p_OpenedAt b) then Before (p_OpenedAt a) (p_OpenedAt b)
        else p_ID a < p_ID b)"

definition NeedsAttentionPortalIndex :: "Portal list \<Rightarrow> time \<Rightarrow> Config \<Rightarrow> nat option res" where
  "NeedsAttentionPortalIndex portals now cfg =
     (if RiskSafeHorizon cfg \<le> 0 \<or> f_less (RiskInstabilityPenalty cfg) (Fin 0) then Fail ErrSimulationInvariant
      else foldM (\<lambda>selected i.
          if p_Status (portals ! i) \<noteq> PortalStatusOpen then Ok selected
          else if p_Stability (portals ! i) \<noteq> PortalStable \<and> p_Stability (portals ! i) \<noteq> PortalUnstable
          then Fail ErrSimulationInvariant
          else (case selected of
                  None \<Rightarrow> Ok (Some i)
                | Some s \<Rightarrow> Ok (if attentionBefore (portals ! i) (portals ! s) now cfg then Some i else selected)))
        None [0..<length portals])"

definition deriveSimulationTickResult :: "SimulationState \<Rightarrow> time \<Rightarrow> Config \<Rightarrow> SimulationTickResult" where
  "deriveSimulationTickResult state now cfg =
     (let result = \<lparr>t_Changed = False, t_Spawned = False, t_SpawnedPortalID = 0, t_HasNeedsAttention = False,
          t_NeedsAttentionPortalID = 0, t_LabEnergy = LabState_CurrentEnergy (s_Lab state) now cfg, t_Events = []\<rparr>
      in case NeedsAttentionPortalIndex (s_Portals state) now cfg of
           Ok (Some index) \<Rightarrow> result\<lparr>t_HasNeedsAttention := True,
                              t_NeedsAttentionPortalID := p_ID (s_Portals state ! index)\<rparr>
         | _ \<Rightarrow> result)"

section \<open>Portals\<close>

record portalLifecycleTransition =
  tr_index :: nat
  tr_portalID :: int
  tr_closedAt :: time

definition portalTransitions :: "Portal list \<Rightarrow> time \<Rightarrow> portalLifecycleTransition list res" where
  "portalTransitions portals now =
     foldM (\<lambda>transitions i.
         case Portal_ResolveLifecycle (portals ! i) now of (changed, candidate) \<Rightarrow>
           if \<not> changed then Ok transitions
           else (case p_ClosedAt candidate of
                   None \<Rightarrow> Fail ErrSimulationInvariant
                 | Some closedAt \<Rightarrow>
                     Ok (transitions @ [\<lparr>tr_index = i, tr_portalID = p_ID candidate, tr_closedAt = closedAt\<rparr>])))
       [] [0..<length portals]"

definition transitionBefore :: "portalLifecycleTransition \<Rightarrow> portalLifecycleTransition \<Rightarrow> bool" where
  "transitionBefore a b =
     (if Equal (tr_closedAt a) (tr_closedAt b) then tr_portalID a < tr_portalID b
      else Before (tr_closedAt a) (tr_closedAt b))"

definition resolvePortalStage :: "SimulationState \<Rightarrow> time \<Rightarrow> Config \<Rightarrow> SimulationState res" where
  "resolvePortalStage state now cfg =
     rbind (portalTransitions (s_Portals state) now) (\<lambda>transitions.
       foldM (\<lambda>st tr.
           rbind (ResolvePortalLifecycleWithLabEmergency (s_Lab st) (s_Portals st ! tr_index tr) now cfg)
             (\<lambda>(_, lab, portal).
                Ok (st\<lparr>s_Lab := lab, s_Portals := (s_Portals st)[tr_index tr := portal]\<rparr>)))
         state (SliceStable transitionBefore transitions))"

section \<open>Observers\<close>

text \<open>A map from IDs to indices; the last index of an ID wins.\<close>

definition indexByID :: "('a \<Rightarrow> int) \<Rightarrow> 'a list \<Rightarrow> int \<rightharpoonup> nat" where
  "indexByID key xs = foldl (\<lambda>m i. m(key (xs ! i) \<mapsto> i)) Map.empty [0..<length xs]"

definition sortedIndices :: "('a \<Rightarrow> int) \<Rightarrow> 'a list \<Rightarrow> nat list \<Rightarrow> nat list" where
  "sortedIndices key xs = SliceStable (\<lambda>i j. key (xs ! i) < key (xs ! j))"

text \<open>The plane and the portal an observer refers to, as indices.\<close>

definition observerIndices ::
    "(int \<rightharpoonup> nat) \<Rightarrow> (int \<rightharpoonup> nat) \<Rightarrow> Portal list \<Rightarrow> Observer \<Rightarrow> (nat option \<times> nat option) res" where
  "observerIndices planeIndexByID portalIndexByID portals ob =
     rbind (case o_CurrentPlaneID ob of
              None \<Rightarrow> Ok None
            | Some planeID \<Rightarrow> (case planeIndexByID planeID of
                               None \<Rightarrow> Fail ErrSimulationInvariant | Some i \<Rightarrow> Ok (Some i)))
       (\<lambda>plane. case o_ActivePortalID ob of
           None \<Rightarrow> Ok (plane, None)
         | Some portalID \<Rightarrow>
             (case portalIndexByID portalID of
                None \<Rightarrow> Fail ErrSimulationInvariant
              | Some j \<Rightarrow>
                  (case plane of
                     Some i \<Rightarrow> Ok (plane, Some j)
                   | None \<Rightarrow> (case planeIndexByID (p_DestinationPlaneID (portals ! j)) of
                               None \<Rightarrow> Fail ErrSimulationInvariant
                             | Some i \<Rightarrow> Ok (Some i, Some j)))))"

text \<open>\<open>returnPlaneID\<close> and \<open>returnedAt\<close>, when there is a return candidate.\<close>

definition returnCandidate :: "Observer \<Rightarrow> (int \<times> time) option" where
  "returnCandidate ob =
     (case (o_CurrentPlaneID ob, o_PhaseEndsAt ob) of
        (Some planeID, Some endsAt) \<Rightarrow> if o_Status ob = ObserverReturning then Some (planeID, endsAt) else None
      | _ \<Rightarrow> None)"

definition resolveObserverAt ::
    "(int \<Rightarrow> bool) \<Rightarrow> (int \<rightharpoonup> nat) \<Rightarrow> (int \<rightharpoonup> nat) \<Rightarrow> time \<Rightarrow> Config \<Rightarrow> SimulationState \<times> (int \<rightharpoonup> time) \<Rightarrow> nat \<Rightarrow>
     (SimulationState \<times> (int \<rightharpoonup> time)) res" where
  "resolveObserverAt initiallyUnexplored planeIndexByID portalIndexByID now cfg = (\<lambda>(state, earliest) index.
     let ob = s_Observers state ! index in
     rbind (observerIndices planeIndexByID portalIndexByID (s_Portals state) ob) (\<lambda>(plane, portal).
       case ResolveObserverLifecycle ob (map_option (\<lambda>i. s_Planes state ! i) plane)
              (map_option (\<lambda>j. s_Portals state ! j) portal) now cfg of
         ((ob', plane'), Ok _) \<Rightarrow>
           let state' = state\<lparr>s_Observers := (s_Observers state)[index := ob'],
                 s_Planes := (case (plane, plane') of
                                (Some i, Some pl) \<Rightarrow> (s_Planes state)[i := pl] | _ \<Rightarrow> s_Planes state)\<rparr>;
               earliest' = (case returnCandidate ob of
                   Some (planeID, returnedAt) \<Rightarrow>
                     if o_Status ob' = ObserverAvailable \<and> initiallyUnexplored planeID
                     then (case earliest planeID of
                             None \<Rightarrow> earliest(planeID \<mapsto> returnedAt)
                           | Some current \<Rightarrow> if Before returnedAt current then earliest(planeID \<mapsto> returnedAt) else earliest)
                     else earliest
                 | None \<Rightarrow> earliest)
           in Ok (state', earliest')
       | (_, Fail e) \<Rightarrow> Fail e
       | (_, Panic) \<Rightarrow> Panic))"

text \<open>
  The final loop over \<open>earliestReturnByPlane\<close> visits each plane at most once, since every key
  is the ID of one plane; it is written plane by plane, so that the iteration order of the
  map does not occur.
\<close>

definition setEarliestReturns :: "(int \<rightharpoonup> nat) \<Rightarrow> (int \<rightharpoonup> time) \<Rightarrow> Plane list \<Rightarrow> Plane list" where
  "setEarliestReturns planeIndexByID earliest planes =
     map (\<lambda>i. let pl = planes ! i in
             case earliest (pl_ID pl) of
               Some exploredAt \<Rightarrow>
                 if planeIndexByID (pl_ID pl) = Some i
                 then pl\<lparr>pl_Explored := True, pl_ExploredAt := Some exploredAt\<rparr> else pl
             | None \<Rightarrow> pl) [0..<length planes]"

definition resolveObserverStage :: "SimulationState \<Rightarrow> time \<Rightarrow> Config \<Rightarrow> SimulationState res" where
  "resolveObserverStage state now cfg =
     (let planeIndexByID = indexByID pl_ID (s_Planes state);
          portalIndexByID = indexByID p_ID (s_Portals state);
          initiallyUnexplored = (\<lambda>i. case planeIndexByID i of
                                       None \<Rightarrow> False | Some k \<Rightarrow> \<not> pl_Explored (s_Planes state ! k))
      in rbind (foldM (resolveObserverAt initiallyUnexplored planeIndexByID portalIndexByID now cfg)
                 (state, Map.empty)
                 (sortedIndices o_ID (s_Observers state) [0..<length (s_Observers state)]))
           (\<lambda>(st, earliest).
              Ok (st\<lparr>s_Planes := setEarliestReturns planeIndexByID earliest (s_Planes st)\<rparr>)))"

section \<open>Extraction portals\<close>

definition resolveExtractionAt ::
    "(int \<rightharpoonup> nat) \<Rightarrow> time \<Rightarrow> 'r rnd \<Rightarrow> Config \<Rightarrow> SimulationState \<times> 'r \<Rightarrow> nat \<Rightarrow> (SimulationState \<times> 'r) res" where
  "resolveExtractionAt planeIndexByID now rnd cfg = (\<lambda>(state, r) index.
     let portal = s_Portals state ! index in
     case planeIndexByID (p_DestinationPlaneID portal) of
       None \<Rightarrow> Fail ErrSimulationInvariant
     | Some planeIndex \<Rightarrow>
         rbind (resolveExtractionSynchronizationPrepared portal (s_Planes state ! planeIndex)
                  (s_Observers state) now rnd cfg r)
           (\<lambda>(_, _, portal', observers', r').
              Ok (state\<lparr>s_Portals := (s_Portals state)[index := portal'], s_Observers := observers'\<rparr>, r')))"

definition resolveExtractionStage ::
    "SimulationState \<Rightarrow> time \<Rightarrow> 'r rnd \<Rightarrow> Config \<Rightarrow> 'r \<Rightarrow> (SimulationState \<times> 'r) res" where
  "resolveExtractionStage state now rnd cfg r =
     (let indices = filter (\<lambda>i. p_Kind (s_Portals state ! i) = PortalKindExtraction) [0..<length (s_Portals state)]
      in foldM (resolveExtractionAt (indexByID pl_ID (s_Planes state)) now rnd cfg) (state, r)
           (sortedIndices p_ID (s_Portals state) indices))"

section \<open>The natural generator\<close>

definition NewNaturalSpawnState :: "time \<Rightarrow> Config \<Rightarrow> 'r rnd \<Rightarrow> 'r \<Rightarrow> (NaturalSpawnState \<times> 'r) res" where
  "NewNaturalSpawnState now cfg rnd r =
     (if rnd = None \<or> \<not> validSpawnDelayConfig cfg then Fail ErrSimulationInvariant
      else rbind (drawInt rnd r (SpawnDelayMin cfg sdiv Second) (SpawnDelayMax cfg sdiv Second))
        (\<lambda>(n, r'). Ok (\<lparr>n_ScheduledAt = Some now, n_DueAt = Some (Add now (wrap64 (n * Second))),
                        n_Paused = False\<rparr>, r')))"

definition countOpenPortals :: "Portal list \<Rightarrow> int" where
  "countOpenPortals portals = int (length (filter (\<lambda>p. p_Status p = PortalStatusOpen) portals))"

definition naturalSpawnDue :: "NaturalSpawnState \<Rightarrow> time \<Rightarrow> bool" where
  "naturalSpawnDue spawn now =
     (case (n_ScheduledAt spawn, n_DueAt spawn) of
        (Some scheduledAt, Some dueAt) \<Rightarrow> After now scheduledAt \<and> \<not> Before now dueAt
      | _ \<Rightarrow> False)"

definition pausedSpawn :: NaturalSpawnState where
  "pausedSpawn = \<lparr>n_ScheduledAt = None, n_DueAt = None, n_Paused = True\<rparr>"

definition spawnNaturalPortal ::
    "SimulationState \<Rightarrow> int \<Rightarrow> time \<Rightarrow> 'r rnd \<Rightarrow> Config \<Rightarrow> 'r \<Rightarrow> (NaturalSpawnResult \<times> SimulationState \<times> 'r) res" where
  "spawnNaturalPortal state openCount now rnd cfg r =
     (if rnd = None then Fail ErrSimulationInvariant
      else (case FirstFreeSlot (s_Portals state) (MaxActivePortals cfg) of
        None \<Rightarrow> Fail ErrSimulationInvariant
      | Some slot \<Rightarrow>
          rbind (drawInt rnd r 0 (int (length (s_Planes state)) - 1)) (\<lambda>(planeIndex, r).
          if planeIndex < 0 \<or> int (length (s_Planes state)) \<le> planeIndex then Panic
          else rbind (NewNaturalPortal (s_NextPortalID state) (pl_ID (s_Planes state ! nat planeIndex)) slot now cfg rnd r)
            (\<lambda>(portal, r).
              let spawned = state\<lparr>s_Portals := s_Portals state @ [portal],
                    s_NextPortalID := wrap64 (s_NextPortalID state + 1)\<rparr>;
                  result = \<lparr>nr_Changed = True, nr_Spawned = True, nr_PortalID = s_NextPortalID state\<rparr>
              in if MaxActivePortals cfg \<le> openCount + 1
                 then Ok (result, spawned\<lparr>s_NaturalSpawn := pausedSpawn\<rparr>, r)
                 else rbind (NewNaturalSpawnState now cfg rnd r)
                   (\<lambda>(next, r). Ok (result, spawned\<lparr>s_NaturalSpawn := next\<rparr>, r))))))"

definition resolveNaturalSpawnPrepared ::
    "SimulationState \<Rightarrow> time \<Rightarrow> 'r rnd \<Rightarrow> Config \<Rightarrow> 'r \<Rightarrow> (NaturalSpawnResult \<times> SimulationState \<times> 'r) res" where
  "resolveNaturalSpawnPrepared state now rnd cfg r =
     (let openCount = countOpenPortals (s_Portals state); spawn = s_NaturalSpawn state in
      if MaxActivePortals cfg \<le> openCount
      then Ok (\<lparr>nr_Changed = (\<not> n_Paused spawn \<or> n_ScheduledAt spawn \<noteq> None \<or> n_DueAt spawn \<noteq> None),
                nr_Spawned = False, nr_PortalID = 0\<rparr>, state\<lparr>s_NaturalSpawn := pausedSpawn\<rparr>, r)
      else if n_Paused spawn
      then rbind (NewNaturalSpawnState now cfg rnd r)
             (\<lambda>(next, r). Ok (\<lparr>nr_Changed = True, nr_Spawned = False, nr_PortalID = 0\<rparr>,
                              state\<lparr>s_NaturalSpawn := next\<rparr>, r))
      else if \<not> naturalSpawnDue spawn now
      then Ok (\<lparr>nr_Changed = False, nr_Spawned = False, nr_PortalID = 0\<rparr>, state, r)
      else spawnNaturalPortal state openCount now rnd cfg r)"

definition ResolveNaturalSpawn ::
    "SimulationState \<Rightarrow> time \<Rightarrow> 'r rnd \<Rightarrow> Config \<Rightarrow> 'r \<Rightarrow> (NaturalSpawnResult \<times> SimulationState \<times> 'r) res" where
  "ResolveNaturalSpawn state now rnd cfg r =
     rbind (validateSimulationState state now cfg) (\<lambda>_. resolveNaturalSpawnPrepared state now rnd cfg r)"

section \<open>The tick\<close>

definition ResolveTick ::
    "map_order \<Rightarrow> SimulationState \<Rightarrow> time \<Rightarrow> 'r rnd \<Rightarrow> Config \<Rightarrow> 'r \<Rightarrow>
     (SimulationTickResult \<times> SimulationState \<times> 'r) res" where
  "ResolveTick order state now rnd cfg r =
     rbind (validateSimulationState state now cfg) (\<lambda>_.
     if (case s_LastTickAt state of Some t \<Rightarrow> Equal t now | None \<Rightarrow> False)
     then Ok (deriveSimulationTickResult state now cfg, state, r)
     else
       rbind (resolvePortalStage state now cfg) (\<lambda>s1.
       rbind (resolveObserverStage s1 now cfg) (\<lambda>s2.
       rbind (resolveExtractionStage s2 now rnd cfg r) (\<lambda>(s3, r).
       rbind (resolveNaturalSpawnPrepared s3 now rnd cfg r) (\<lambda>(spawn, s4, r).
         let next = s4\<lparr>s_LastTickAt := Some now\<rparr>;
             previousAt = (case s_LastTickAt state of Some t \<Rightarrow> t | None \<Rightarrow> l_EnergyBaseAt (s_Lab state))
         in rbind (EventsForStateTransition order state next previousAt now cfg) (\<lambda>events.
              Ok ((deriveSimulationTickResult next now cfg)\<lparr>t_Changed := True, t_Spawned := nr_Spawned spawn,
                    t_SpawnedPortalID := nr_PortalID spawn, t_Events := events\<rparr>, next, r)))))))"

end
