(* ===== verification/Sample.thy ===== *)
theory Sample
  imports SimState
begin

text \<open>
  A small concrete laboratory, valid in structure and against the default configuration:
  85 planes, twenty observers at home, one stable portal to plane 1.  The witnesses of the
  properties about whole states run the code's model on it.
\<close>

section \<open>The state\<close>

abbreviation sample_start :: time where "sample_start \<equiv> Time Second True"

definition sample_plane :: "nat \<Rightarrow> Plane" where
  "sample_plane i = \<lparr>pl_ID = int i, pl_Name = ''Plane'', pl_Aliases = [], pl_CatalogTier = ''core'',
     pl_Explored = False, pl_ExploredAt = None\<rparr>"

definition sample_planes :: "Plane list" where
  "sample_planes = map sample_plane [1..<86]"

definition sample_portal :: Portal where
  "sample_portal = \<lparr>p_ID = 1, p_Name = ''Mirrodin 1'', p_SlotIndex = 1, p_Kind = PortalKindNatural,
     p_DestinationPlaneID = 1, p_EnergyBase = Fin 100, p_EnergyBaseAt = sample_start,
     p_EnergyDecayRate = Fin 1, p_Stability = PortalStable, p_InstabilityCollapseAt = None,
     p_OpenedAt = sample_start, p_ScheduledCloseAt = Time (91 * Second) True, p_CreaturesInitial = 0,
     p_ObserverFlow = PortalFlowNone, p_ExtractionSynchronizedAt = None,
     p_Status = PortalStatusOpen, p_TerminationReason = TerminationNone, p_ClosedAt = None,
     p_CreatedAt = sample_start, p_UpdatedAt = sample_start\<rparr>"

definition sample_observers :: "Observer list" where
  "sample_observers = map (\<lambda>i. NewObserver (int i + 1) sample_start) [0..<20]"

definition sample_state :: SimulationState where
  "sample_state = \<lparr>s_Lab = \<lparr>l_EnergyBase = 100, l_EnergyBaseAt = sample_start, l_LeylineOverrideUntil = None\<rparr>,
     s_Portals = [sample_portal], s_Planes = sample_planes, s_Observers = sample_observers,
     s_NextPortalID = 2,
     s_NaturalSpawn = \<lparr>n_ScheduledAt = Some sample_start, n_DueAt = Some (Time (8 * Second) True), n_Paused = False\<rparr>,
     s_LastTickAt = Some sample_start\<rparr>"

section \<open>It is valid\<close>

lemma sample_planes_facts:
  "length sample_planes = 85" "distinct (map pl_ID sample_planes)" "1 \<in> set (map pl_ID sample_planes)"
  "list_all (validPlane now) sample_planes"
  by (auto simp: sample_planes_def sample_plane_def validPlane_def distinct_map inj_on_def list_all_iff
      image_iff intro!: bexI [of _ 1])

lemma sample_first_plane: "find (\<lambda>pl. pl_ID pl = 1) sample_planes = Some (sample_plane 1)"
  by (simp add: sample_planes_def sample_plane_def upt_conv_Cons)

lemma sample_observers_facts:
  "length sample_observers = 20" "distinct (map o_ID sample_observers)"
  "set sample_observers = (\<lambda>i. NewObserver (int i + 1) sample_start) ` {0..<20}"
  by (auto simp: sample_observers_def NewObserver_def distinct_map inj_on_def)

lemma sample_roster_ok: "roster_ok sample_observers now"
  using sample_observers_facts(2) by (auto simp: roster_ok_def sample_observers_facts(3) NewObserver_def
      observer_fields_ok.simps)

lemma sample_portal_structure:
  assumes "Second \<le> ns now"
  shows "validStructuralPortal sample_portal now"
  using assms by (simp add: validStructuralPortal_def sample_portal_def IsZero_def IsNaN_def)

lemma sample_structure:
  assumes "Second \<le> ns now"
  shows "validateSimulationStructure sample_state now = Ok ()"
proof -
  have "validSimulationObserver ids portals now ob" if "ob \<in> set sample_observers" for ids portals ob
    using that assms by (auto simp: sample_observers_facts(3) NewObserver_def validSimulationObserver_def Let_def)
  then have obs: "validateSimulationObservers sample_observers ids portals now = Ok ()" for ids portals
    using sample_observers_facts(2) by (simp add: validateSimulationObservers_def list_all_iff)
  have "sample_observers \<noteq> []" using sample_observers_facts(1) by auto
  moreover have "validNaturalSpawnState (s_NaturalSpawn sample_state) now"
    using assms by (simp add: sample_state_def validNaturalSpawnState_def)
  moreover have "p_DestinationPlaneID sample_portal = 1" "p_ID sample_portal = 1" by (simp_all add: sample_portal_def)
  ultimately show ?thesis
    using assms obs sample_portal_structure [OF assms] sample_planes_facts(1-3) sample_planes_facts(4) [of now]
    by (simp add: validateSimulationStructure_def Let_def open_slots_def maxPortalID_def) (simp add: sample_state_def)
qed

end
