(* ===== verification/Tutorial.thy ===== *)
theory Tutorial
  imports Simulation Sample
begin

text \<open>
  The tutorial: the application state (\<open>internal/domain/lab.go\<close>), the scripted portals and
  the expected action of each step (\<open>internal/domain/tutorial.go\<close>), and how the manager
  moves the tutorial along after a tick, a command or a signal
  (\<open>internal/engine/tutorial.go\<close>).  A function that changes a snapshot in place and may
  return an error gives the changed snapshot only on success: every caller drops the
  working copy on such an error.
\<close>

section \<open>Application state\<close>

datatype AppMode = ModeTutorial | ModeLive | AppModeOther string

datatype TutorialPhase =
    TutorialPhaseNone
  | TutorialPhaseSendReplacement
  | TutorialPhaseWaitResearch
  | TutorialPhaseRecallReady
  | TutorialPhaseOther string

record AppState =
  a_Mode :: AppMode
  a_TutorialStep :: int
  a_TutorialPhase :: TutorialPhase
  a_TutorialPortalID :: "int option"
  a_TutorialPlaneID :: "int option"
  a_TutorialObserverID :: "int option"

record Snapshot =
  sn_Simulation :: SimulationState
  sn_App :: AppState

datatype TutorialSignal =
    TutorialSignalIntroCompleted
  | TutorialSignalPortalDetailsOpened
  | TutorialSignalEventLogOpened
  | TutorialSignalOther string

definition IsTutorialSignal :: "TutorialSignal \<Rightarrow> bool" where
  "IsTutorialSignal s = (case s of TutorialSignalOther _ \<Rightarrow> False | _ \<Rightarrow> True)"

datatype TutorialExpectedAction =
    TutorialActionCompleteIntro | TutorialActionOpenDetails | TutorialActionWaitCorridor
  | TutorialActionSend | TutorialActionStabilize | TutorialActionCriticalSend
  | TutorialActionWaitResearch | TutorialActionRecall | TutorialActionWaitReturn
  | TutorialActionOpenEventLog | TutorialActionStartLive

definition ExpectedTutorialAction :: "AppState \<Rightarrow> TutorialExpectedAction res" where
  "ExpectedTutorialAction app =
     (let step = a_TutorialStep app in
      if a_Mode app \<noteq> ModeTutorial \<or> step < 0 \<or> 9 < step then Fail ErrSimulationInvariant
      else if step = 0 then Ok TutorialActionCompleteIntro
      else if step = 1 then Ok TutorialActionOpenDetails
      else if step = 2 then Ok TutorialActionWaitCorridor
      else if step = 3 then Ok TutorialActionSend
      else if step = 4 then Ok TutorialActionStabilize
      else if step = 5 then Ok TutorialActionCriticalSend
      else if step = 6 then
        (case a_TutorialPhase app of
           TutorialPhaseSendReplacement \<Rightarrow> Ok TutorialActionSend
         | TutorialPhaseWaitResearch \<Rightarrow> Ok TutorialActionWaitResearch
         | TutorialPhaseRecallReady \<Rightarrow> Ok TutorialActionRecall
         | _ \<Rightarrow> Fail ErrSimulationInvariant)
      else if step = 7 then Ok TutorialActionWaitReturn
      else if step = 8 then Ok TutorialActionOpenEventLog
      else Ok TutorialActionStartLive)"

section \<open>Scripted portals\<close>

datatype TutorialPortalProfile =
    TutorialPortalStep1 | TutorialPortalStep2 | TutorialPortalStep3 | TutorialPortalStep4
  | TutorialPortalStep4High | TutorialPortalStep4Critical | TutorialPortalStep5
  | TutorialPortalStep6Outbound | TutorialPortalStep6Return | TutorialPortalProfileOther string

definition NewTutorialPortal ::
    "TutorialPortalProfile \<Rightarrow> int \<Rightarrow> int \<Rightarrow> int \<Rightarrow> time \<Rightarrow> Config \<Rightarrow> Portal res" where
  "NewTutorialPortal profile i planeID slot now cfg =
     (if i \<le> 0 \<or> planeID \<le> 0 \<or> slot < 1 \<or> MaxActivePortals cfg < slot \<or> IsZero now \<or> \<not> utc now
      then Fail ErrSimulationInvariant
      else
        let portal = \<lparr>p_ID = i, p_Name = portal_name i, p_SlotIndex = slot, p_Kind = PortalKindNatural,
              p_DestinationPlaneID = planeID, p_EnergyBase = f_const 100, p_EnergyBaseAt = now,
              p_EnergyDecayRate = f_const (1 / 10), p_Stability = PortalStable, p_InstabilityCollapseAt = None,
              p_OpenedAt = now, p_ScheduledCloseAt = Add now (120 * Second), p_CreaturesInitial = 0,
              p_ObserverFlow = PortalFlowNone, p_ExtractionSynchronizedAt = None, p_Status = PortalStatusOpen,
              p_TerminationReason = TerminationNone, p_ClosedAt = None, p_CreatedAt = now, p_UpdatedAt = now\<rparr>
        in if profile \<in> {TutorialPortalStep1, TutorialPortalStep2} then Ok (portal\<lparr>p_CreaturesInitial := 3\<rparr>)
           else if profile \<in> {TutorialPortalStep4, TutorialPortalStep4High}
           then Ok (portal\<lparr>p_EnergyBase := f_const 25, p_EnergyDecayRate := f_const 1,
                  p_Stability := PortalUnstable, p_InstabilityCollapseAt := Some (Add now (119 * Second))\<rparr>)
           else if profile = TutorialPortalStep4Critical
           then Ok (portal\<lparr>p_EnergyBase := f_const 19, p_EnergyDecayRate := f_const 1,
                  p_Stability := PortalUnstable, p_InstabilityCollapseAt := Some (Add now (119 * Second))\<rparr>)
           else if profile = TutorialPortalStep5 then Ok (portal\<lparr>p_ScheduledCloseAt := Add now (10 * Second)\<rparr>)
           else if profile \<in> {TutorialPortalStep3, TutorialPortalStep6Outbound, TutorialPortalStep6Return}
           then Ok (portal\<lparr>p_ScheduledCloseAt := Add now (120 * Second)\<rparr>)
           else Fail ErrSimulationInvariant)"

section \<open>Lookups\<close>

definition pointerValue0 :: "int option \<Rightarrow> int" where
  "pointerValue0 value = (case value of None \<Rightarrow> 0 | Some v \<Rightarrow> v)"

definition firstTutorialPlane :: "Plane list \<Rightarrow> int" where
  "firstTutorialPlane planes =
     (case sort (map pl_ID (filter (\<lambda>pl. \<not> pl_Explored pl) planes)) of [] \<Rightarrow> 0 | i # _ \<Rightarrow> i)"

definition tutorialTarget :: "Snapshot \<Rightarrow> Portal option" where
  "tutorialTarget snapshot =
     (case a_TutorialPortalID (sn_App snapshot) of
        None \<Rightarrow> None
      | Some i \<Rightarrow> portal_by_id (s_Portals (sn_Simulation snapshot)) i)"

definition trackedObserver :: "Snapshot \<Rightarrow> Observer option" where
  "trackedObserver snapshot =
     (case a_TutorialObserverID (sn_App snapshot) of
        None \<Rightarrow> None
      | Some i \<Rightarrow> find (\<lambda>ob. o_ID ob = i) (s_Observers (sn_Simulation snapshot)))"

definition dispatchedThrough :: "Observer list \<Rightarrow> int \<Rightarrow> Observer option" where
  "dispatchedThrough observers portalID =
     find (\<lambda>ob. o_Status ob = ObserverOutbound \<and> o_ActivePortalID ob = Some portalID) observers"

definition returningThrough :: "Observer list \<Rightarrow> int \<Rightarrow> Observer option" where
  "returningThrough observers portalID =
     find (\<lambda>ob. o_Status ob = ObserverReturning \<and> o_ActivePortalID ob = Some portalID) observers"

section \<open>Targets\<close>

definition createTutorialTarget ::
    "Snapshot \<Rightarrow> TutorialPortalProfile \<Rightarrow> int \<Rightarrow> time \<Rightarrow> Config \<Rightarrow> Snapshot res" where
  "createTutorialTarget snapshot profile planeID0 now cfg =
     (let sim = sn_Simulation snapshot;
          planeID = (if planeID0 = 0 then firstTutorialPlane (s_Planes sim) else planeID0)
      in if planeID = 0 then Fail ErrSimulationInvariant
         else (case FirstFreeSlot (s_Portals sim) (MaxActivePortals cfg) of
                 None \<Rightarrow> Fail ErrNoFreePortalSlot
               | Some slot \<Rightarrow>
                   rbind (NewTutorialPortal profile (s_NextPortalID sim) planeID slot now cfg) (\<lambda>portal.
                   Ok (snapshot\<lparr>sn_Simulation := sim\<lparr>s_Portals := s_Portals sim @ [portal],
                                                    s_NextPortalID := wrap64 (s_NextPortalID sim + 1)\<rparr>,
                                sn_App := (sn_App snapshot)\<lparr>a_TutorialPortalID := Some (p_ID portal),
                                                             a_TutorialPlaneID := Some planeID\<rparr>\<rparr>))))"

definition prepareTutorialSpawn :: "Snapshot \<Rightarrow> Snapshot" where
  "prepareTutorialSpawn snapshot =
     (if a_Mode (sn_App snapshot) = ModeTutorial
      then snapshot\<lparr>sn_Simulation := (sn_Simulation snapshot)\<lparr>s_NaturalSpawn := pausedSpawn\<rparr>\<rparr>
      else snapshot)"

definition recreateTerminalTutorialTarget :: "Snapshot \<Rightarrow> time \<Rightarrow> Config \<Rightarrow> Snapshot res" where
  "recreateTerminalTutorialTarget snapshot now cfg =
     (case tutorialTarget snapshot of
        None \<Rightarrow> Ok snapshot
      | Some portal \<Rightarrow>
          if p_Status portal = PortalStatusOpen then Ok snapshot
          else
            let step = a_TutorialStep (sn_App snapshot); phase = a_TutorialPhase (sn_App snapshot);
                recreate = (\<lambda>profile. createTutorialTarget snapshot profile (p_DestinationPlaneID portal) now cfg)
            in if step = 1 then recreate TutorialPortalStep1
               else if step = 2 then recreate TutorialPortalStep2
               else if step = 3 then recreate TutorialPortalStep3
               else if step = 4 then recreate TutorialPortalStep4
               else if step = 5 then recreate TutorialPortalStep5
               else if step = 6 then
                 (if phase = TutorialPhaseRecallReady then recreate TutorialPortalStep6Return
                  else if phase = TutorialPhaseSendReplacement then recreate TutorialPortalStep6Outbound
                  else Ok snapshot)
               else Ok snapshot)"

definition enterTutorialStep6 :: "Snapshot \<Rightarrow> time \<Rightarrow> Config \<Rightarrow> Snapshot res" where
  "enterTutorialStep6 snapshot now cfg =
     (let app = sn_App snapshot;
          with_phase = (\<lambda>phase. snapshot\<lparr>sn_App := app\<lparr>a_TutorialPhase := phase\<rparr>\<rparr>);
          replacement = createTutorialTarget (with_phase TutorialPhaseSendReplacement) TutorialPortalStep6Outbound
                          (pointerValue0 (a_TutorialPlaneID app)) now cfg
      in case trackedObserver snapshot of
           None \<Rightarrow> replacement
         | Some ob \<Rightarrow>
             if o_Status ob = ObserverOutbound \<or> o_Status ob = ObserverExploring
             then Ok (with_phase TutorialPhaseWaitResearch)
             else if o_Status ob = ObserverWaitingReturn
             then (case o_CurrentPlaneID ob of
                     None \<Rightarrow> Panic
                   | Some planeID \<Rightarrow> createTutorialTarget (with_phase TutorialPhaseRecallReady)
                                       TutorialPortalStep6Return planeID now cfg)
             else replacement)"

section \<open>After a tick\<close>

text \<open>
  The three blocks of \<open>advanceTutorialAfterTick\<close> for the steps 2, 6 and 7.  The early returns
  of the second leave the step at 6, where the third does nothing.
\<close>

definition advanceStep2 :: "Snapshot \<Rightarrow> time \<Rightarrow> Config \<Rightarrow> Snapshot res" where
  "advanceStep2 snapshot now cfg =
     (if a_TutorialStep (sn_App snapshot) = 2
      then (case tutorialTarget snapshot of
              None \<Rightarrow> Fail ErrSimulationInvariant
            | Some portal \<Rightarrow>
                if p_Status portal = PortalStatusOpen
                then rbind (Portal_CreaturesInside portal now cfg) (\<lambda>inside.
                       Ok (if inside = 0 then snapshot\<lparr>sn_App := (sn_App snapshot)\<lparr>a_TutorialStep := 3\<rparr>\<rparr>
                           else snapshot))
                else Ok snapshot)
      else Ok snapshot)"

definition advanceStep6 :: "Snapshot \<Rightarrow> time \<Rightarrow> Config \<Rightarrow> Snapshot res" where
  "advanceStep6 snapshot now cfg =
     (let app = sn_App snapshot in
      if a_TutorialStep app = 6
      then (case trackedObserver snapshot of
              None \<Rightarrow> Ok snapshot
            | Some ob \<Rightarrow>
                if o_Status ob = ObserverLost
                then (if a_TutorialPhase app = TutorialPhaseSendReplacement \<and>
                         (case tutorialTarget snapshot of
                            Some target \<Rightarrow> p_Status target = PortalStatusOpen | None \<Rightarrow> False)
                      then Ok snapshot
                      else createTutorialTarget
                             (snapshot\<lparr>sn_App := app\<lparr>a_TutorialPhase := TutorialPhaseSendReplacement\<rparr>\<rparr>)
                             TutorialPortalStep6Outbound (pointerValue0 (a_TutorialPlaneID app)) now cfg)
                else if a_TutorialPhase app = TutorialPhaseWaitResearch \<and> o_Status ob = ObserverWaitingReturn
                then (case o_CurrentPlaneID ob of
                        None \<Rightarrow> Fail ErrSimulationInvariant
                      | Some planeID \<Rightarrow>
                          rbind (createTutorialTarget snapshot TutorialPortalStep6Return planeID now cfg) (\<lambda>s.
                            Ok (s\<lparr>sn_App := (sn_App s)\<lparr>a_TutorialPhase := TutorialPhaseRecallReady\<rparr>\<rparr>)))
                else Ok snapshot)
      else Ok snapshot)"

definition advanceStep7 :: "Snapshot \<Rightarrow> time \<Rightarrow> Config \<Rightarrow> Snapshot res" where
  "advanceStep7 snapshot now cfg =
     (let app = sn_App snapshot in
      if a_TutorialStep app = 7
      then (case trackedObserver snapshot of
              None \<Rightarrow> Fail ErrSimulationInvariant
            | Some ob \<Rightarrow>
                if o_Status ob = ObserverLost
                then createTutorialTarget
                       (snapshot\<lparr>sn_App := app\<lparr>a_TutorialStep := 6, a_TutorialPhase := TutorialPhaseSendReplacement\<rparr>\<rparr>)
                       TutorialPortalStep6Outbound (pointerValue0 (a_TutorialPlaneID app)) now cfg
                else if o_Status ob = ObserverAvailable
                then (case find (\<lambda>pl. pl_ID pl = pointerValue0 (a_TutorialPlaneID app)) (s_Planes (sn_Simulation snapshot)) of
                        Some plane \<Rightarrow>
                          Ok (if pl_Explored plane
                              then snapshot\<lparr>sn_App := app\<lparr>a_TutorialStep := 8, a_TutorialPhase := TutorialPhaseNone,
                                                          a_TutorialPortalID := None\<rparr>\<rparr>
                              else snapshot)
                      | None \<Rightarrow> Ok snapshot)
                else Ok snapshot)
      else Ok snapshot)"

definition advanceTutorialAfterTick :: "Snapshot \<Rightarrow> time \<Rightarrow> Config \<Rightarrow> Snapshot res" where
  "advanceTutorialAfterTick snapshot now cfg =
     (if a_Mode (sn_App snapshot) \<noteq> ModeTutorial then Ok snapshot
      else
        let s0 = prepareTutorialSpawn snapshot in
        if a_TutorialStep (sn_App s0) = 0 then Ok s0
        else rbind (recreateTerminalTutorialTarget s0 now cfg) (\<lambda>s1.
             rbind (advanceStep2 s1 now cfg) (\<lambda>s2.
             rbind (advanceStep6 s2 now cfg) (\<lambda>s3.
             advanceStep7 s3 now cfg))))"

section \<open>After a command\<close>

text \<open>The part of a \<open>managerCommand\<close> that the tutorial looks at: its action and its portal.\<close>

definition containsRisk :: "RiskLevel \<Rightarrow> RiskLevel list \<Rightarrow> bool" where
  "containsRisk v allowed = (v \<in> set allowed)"

definition tutorialMatched :: "Snapshot \<Rightarrow> int option \<Rightarrow> bool" where
  "tutorialMatched snapshot portalID \<longleftrightarrow> portalID \<noteq> None \<and> a_TutorialPortalID (sn_App snapshot) = portalID"

definition recreateDirectionBrokenTutorialTarget ::
    "Snapshot \<Rightarrow> string \<Rightarrow> error option \<Rightarrow> bool \<Rightarrow> time \<Rightarrow> Config \<Rightarrow> Snapshot res" where
  "recreateDirectionBrokenTutorialTarget snapshot action commandErr matched now cfg =
     (let app = sn_App snapshot;
          recreate = (\<lambda>profile. case tutorialTarget snapshot of
             None \<Rightarrow> Fail ErrSimulationInvariant
           | Some portal \<Rightarrow> createTutorialTarget snapshot profile (p_DestinationPlaneID portal) now cfg)
      in if commandErr \<noteq> None \<or> \<not> matched \<or> a_TutorialStep app \<noteq> 6 then Ok snapshot
         else if a_TutorialPhase app = TutorialPhaseRecallReady \<and> action = ''SEND''
         then recreate TutorialPortalStep6Return
         else if a_TutorialPhase app = TutorialPhaseSendReplacement \<and> action = ''RECALL''
         then recreate TutorialPortalStep6Outbound
         else Ok snapshot)"

text \<open>The cases of the switch on the step.\<close>

definition afterCommandStep3 :: "Snapshot \<Rightarrow> int \<Rightarrow> time \<Rightarrow> Config \<Rightarrow> Snapshot res" where
  "afterCommandStep3 snapshot portalID now cfg =
     (case dispatchedThrough (s_Observers (sn_Simulation snapshot)) portalID of
        None \<Rightarrow> Fail ErrSimulationInvariant
      | Some ob \<Rightarrow>
          (case tutorialTarget snapshot of
             None \<Rightarrow> Fail ErrSimulationInvariant
           | Some portal \<Rightarrow>
               rbind (createTutorialTarget
                 (snapshot\<lparr>sn_App := (sn_App snapshot)\<lparr>a_TutorialObserverID := Some (o_ID ob),
                                                       a_TutorialPlaneID := Some (p_DestinationPlaneID portal)\<rparr>\<rparr>)
                 TutorialPortalStep4 (p_DestinationPlaneID portal) now cfg) (\<lambda>s.
               Ok (s\<lparr>sn_App := (sn_App s)\<lparr>a_TutorialStep := 4\<rparr>\<rparr>))))"

definition afterCommandStep4 :: "Snapshot \<Rightarrow> Snapshot \<Rightarrow> time \<Rightarrow> Config \<Rightarrow> Snapshot res" where
  "afterCommandStep4 snapshot before now cfg =
     (case (tutorialTarget before, tutorialTarget snapshot) of
        (Some oldPortal, Some newPortal) \<Rightarrow>
          if p_Stability oldPortal \<noteq> PortalUnstable \<or> p_Stability newPortal \<noteq> PortalStable
          then Fail ErrSimulationInvariant
          else (case (Portal_RiskLevel oldPortal now cfg, Portal_RiskLevel newPortal now cfg) of
                  (Some beforeRisk, Some afterRisk) \<Rightarrow>
                    if \<not> containsRisk beforeRisk [RiskHigh, RiskCritical] \<or> \<not> containsRisk afterRisk [RiskLow, RiskMedium]
                    then Fail ErrSimulationInvariant
                    else rbind (createTutorialTarget snapshot TutorialPortalStep5 0 now cfg) (\<lambda>s.
                           Ok (s\<lparr>sn_App := (sn_App s)\<lparr>a_TutorialStep := 5\<rparr>\<rparr>))
                | _ \<Rightarrow> Fail ErrSimulationInvariant)
      | _ \<Rightarrow> Fail ErrSimulationInvariant)"

definition afterCommandStep6 ::
    "Snapshot \<Rightarrow> string \<Rightarrow> int option \<Rightarrow> error option \<Rightarrow> bool \<Rightarrow> time \<Rightarrow> Config \<Rightarrow> Snapshot res" where
  "afterCommandStep6 snapshot action portalID commandErr matched now cfg =
     (let track = (\<lambda>ob s. s\<lparr>sn_App := (sn_App s)\<lparr>a_TutorialObserverID := Some (o_ID ob)\<rparr>\<rparr>) in
      rbind
        (if commandErr = None \<and> action = ''SEND'' \<and> matched \<and>
            a_TutorialPhase (sn_App snapshot) = TutorialPhaseSendReplacement
         then (case dispatchedThrough (s_Observers (sn_Simulation snapshot)) (pointerValue0 portalID) of
                 None \<Rightarrow> Fail ErrSimulationInvariant
               | Some ob \<Rightarrow> let s = track ob snapshot
                            in Ok (s\<lparr>sn_App := (sn_App s)\<lparr>a_TutorialPhase := TutorialPhaseWaitResearch\<rparr>\<rparr>))
         else Ok snapshot) (\<lambda>s1.
      rbind
        (if commandErr = None \<and> action = ''RECALL'' \<and> matched \<and>
            a_TutorialPhase (sn_App s1) = TutorialPhaseRecallReady
         then (case returningThrough (s_Observers (sn_Simulation s1)) (pointerValue0 portalID) of
                 None \<Rightarrow> Fail ErrSimulationInvariant
               | Some ob \<Rightarrow> let s = track ob s1
                            in Ok (s\<lparr>sn_App := (sn_App s)\<lparr>a_TutorialStep := 7, a_TutorialPhase := TutorialPhaseNone\<rparr>\<rparr>))
         else Ok s1) (\<lambda>s2.
      recreateDirectionBrokenTutorialTarget s2 action commandErr matched now cfg)))"

definition advanceTutorialAfterCommand ::
    "Snapshot \<Rightarrow> Snapshot \<Rightarrow> string \<Rightarrow> int option \<Rightarrow> error option \<Rightarrow> time \<Rightarrow> Config \<Rightarrow> Snapshot res" where
  "advanceTutorialAfterCommand snapshot before action portalID commandErr now cfg =
     (if a_Mode (sn_App snapshot) \<noteq> ModeTutorial then Ok snapshot
      else
        let s0 = prepareTutorialSpawn snapshot; matched = tutorialMatched s0 portalID;
            step = a_TutorialStep (sn_App s0)
        in if step = 5 \<and> action = ''SEND'' \<and> matched \<and>
              (case commandErr of Some err \<Rightarrow> errors_Is err ErrPortalCriticalRisk | None \<Rightarrow> False)
           then enterTutorialStep6 (s0\<lparr>sn_App := (sn_App s0)\<lparr>a_TutorialStep := 6\<rparr>\<rparr>) now cfg
           else rbind
             (if step = 3 \<and> commandErr = None \<and> action = ''SEND'' \<and> matched
              then afterCommandStep3 s0 (pointerValue0 portalID) now cfg
              else if step = 4 \<and> commandErr = None \<and> action = ''STABILIZE'' \<and> matched
              then afterCommandStep4 s0 before now cfg
              else if step = 6
              then afterCommandStep6 s0 action portalID commandErr matched now cfg
              else Ok s0)
             (\<lambda>s. recreateTerminalTutorialTarget s now cfg))"

section \<open>Signals\<close>

text \<open>On an error the snapshot is unchanged: the target is created before the step moves.\<close>

definition applyTutorialSignal ::
    "Snapshot \<Rightarrow> TutorialSignal \<Rightarrow> int option \<Rightarrow> time \<Rightarrow> Config \<Rightarrow> Snapshot res" where
  "applyTutorialSignal snapshot signal portalID now cfg =
     (let app = sn_App snapshot; step = a_TutorialStep app in
      if a_Mode app \<noteq> ModeTutorial \<or> \<not> IsTutorialSignal signal then Fail ErrInvalidTutorialSignal
      else if step = 0 \<and> signal = TutorialSignalIntroCompleted \<and> portalID = None
      then rbind (createTutorialTarget snapshot TutorialPortalStep1 0 now cfg) (\<lambda>s.
             Ok (s\<lparr>sn_App := (sn_App s)\<lparr>a_TutorialStep := 1\<rparr>\<rparr>))
      else if step = 1 \<and> signal = TutorialSignalPortalDetailsOpened \<and> portalID \<noteq> None \<and>
              a_TutorialPortalID app = portalID
      then Ok (snapshot\<lparr>sn_App := app\<lparr>a_TutorialStep := 2\<rparr>\<rparr>)
      else if step = 8 \<and> signal = TutorialSignalEventLogOpened \<and> portalID = None
      then Ok (snapshot\<lparr>sn_App := app\<lparr>a_TutorialStep := 9\<rparr>\<rparr>)
      else Fail ErrInvalidTutorialSignal)"

end
