(* ===== verification/Codec.thy ===== *)
theory Codec
  imports Tutorial Events
begin

text \<open>
  What the persistence layer accepts and how it writes values into columns
  (\<open>internal/persistence/codec.go\<close>) and the validation of a whole snapshot
  (\<open>validateSnapshot\<close> in \<open>state.go\<close>).  The column type of a Go string type is the type
  itself; a time becomes its nanoseconds since 1970 as an \<open>int64\<close>; aliases are kept as
  the list their JSON text stands for.  Where a loop runs over a map of fields, whose order
  Go leaves open, the first offending field in source order names the error.
\<close>

section \<open>Column values\<close>

definition format_d :: "int \<Rightarrow> string" where
  "format_d i = (if i < 0 then ''-'' else []) @ digits_of (nat \<bar>i\<bar>)"

text \<open>1 January 1970 in nanoseconds from year 1.\<close>

abbreviation unix_epoch :: int where "unix_epoch \<equiv> 62135596800000000000"

definition UnixNano :: "time \<Rightarrow> int" where
  "UnixNano t = wrap64 (ns t - unix_epoch)"

definition encodeTime :: "time \<Rightarrow> string \<Rightarrow> int res" where
  "encodeTime t field =
     (if IsZero t \<or> \<not> utc t then Fail (Errorf (field @ '' must be a non-zero UTC timestamp'')) else Ok (UnixNano t))"

definition encodeOptionalTime :: "time option \<Rightarrow> string \<Rightarrow> int option res" where
  "encodeOptionalTime t field =
     (case t of None \<Rightarrow> Ok None | Some t \<Rightarrow> map_result Some (encodeTime t field))"

definition decodeTime :: "int \<Rightarrow> time" where
  "decodeTime v = Time (v + unix_epoch) True"

definition decodeOptionalTime :: "int option \<Rightarrow> time option" where
  "decodeOptionalTime v = map_option decodeTime v"

text \<open>\<open>encoded, _ := encodeTime(...)\<close>: the error is dropped, the value is then 0 or null.\<close>

definition columnTime :: "time \<Rightarrow> int" where
  "columnTime t = (case encodeTime t [] of Ok v \<Rightarrow> v | _ \<Rightarrow> 0)"

definition columnOptionalTime :: "time option \<Rightarrow> int option" where
  "columnOptionalTime t = (case encodeOptionalTime t [] of Ok v \<Rightarrow> v | _ \<Rightarrow> None)"

section \<open>Entities\<close>

definition wrapError :: "string \<Rightarrow> 'a res \<Rightarrow> 'a res" where
  "wrapError label r = (case r of Fail e \<Rightarrow> Fail (ErrorfWrap label e) | _ \<Rightarrow> r)"

definition check :: "bool \<Rightarrow> string \<Rightarrow> unit res" where
  "check ok msg = (if ok then Ok () else Fail (Errorf msg))"

definition validatePlane :: "Plane \<Rightarrow> unit res" where
  "validatePlane pl =
     (let invalid = ''invalid plane '' @ format_d (pl_ID pl) in
      rbind (check (\<not> (pl_ID pl \<le> 0 \<or> blank (pl_Name pl) \<or> blank (pl_CatalogTier pl) \<or>
                       pl_Explored pl \<noteq> (pl_ExploredAt pl \<noteq> None))) invalid) (\<lambda>_.
      wrapError invalid (map_result (\<lambda>_. ()) (encodeOptionalTime (pl_ExploredAt pl) ''plane.explored_at''))))"

definition validPortalKind :: "PortalKind \<Rightarrow> bool" where
  "validPortalKind v \<longleftrightarrow> v \<in> {PortalKindNatural, PortalKindExtraction}"

definition validPortalStability :: "PortalStability \<Rightarrow> bool" where
  "validPortalStability v \<longleftrightarrow> v \<in> {PortalStable, PortalUnstable}"

definition validPortalFlow :: "PortalFlow \<Rightarrow> bool" where
  "validPortalFlow v \<longleftrightarrow> v \<in> {PortalFlowNone, PortalFlowOutbound, PortalFlowInbound}"

definition validPortalStatus :: "PortalStatus \<Rightarrow> bool" where
  "validPortalStatus v \<longleftrightarrow> v \<in> {PortalStatusOpen, PortalStatusClosed, PortalStatusCollapsed}"

definition validTerminationReason :: "TerminationReason \<Rightarrow> bool" where
  "validTerminationReason v \<longleftrightarrow>
     v \<in> {TerminationNone, TerminationNaturalClose, TerminationManualClose, TerminationEnergyDepleted, TerminationInstability}"

definition encodable :: "string \<Rightarrow> (time option \<times> string) list \<Rightarrow> unit res" where
  "encodable label columns =
     foldM (\<lambda>_ (t, field). wrapError label (map_result (\<lambda>_. ()) (encodeOptionalTime t field))) () columns"

definition validatePortal :: "Portal \<Rightarrow> unit res" where
  "validatePortal p =
     (let invalid = ''invalid portal '' @ format_d (p_ID p) in
      rbind (check (\<not> (p_ID p \<le> 0 \<or> blank (p_Name p) \<or> p_SlotIndex p < 1 \<or> 7 < p_SlotIndex p \<or>
               p_DestinationPlaneID p \<le> 0 \<or> f_less (p_EnergyBase p) (Fin 0) \<or> f_le (p_EnergyDecayRate p) (Fin 0) \<or>
               p_CreaturesInitial p < 0 \<or> \<not> validPortalKind (p_Kind p) \<or> \<not> validPortalStability (p_Stability p) \<or>
               \<not> validPortalFlow (p_ObserverFlow p) \<or> \<not> validPortalStatus (p_Status p) \<or>
               \<not> validTerminationReason (p_TerminationReason p))) invalid) (\<lambda>_.
      rbind (encodable invalid
               [(Some (p_EnergyBaseAt p), ''portal.energy_base_at''), (Some (p_OpenedAt p), ''portal.opened_at''),
                (Some (p_ScheduledCloseAt p), ''portal.scheduled_close_at''), (Some (p_CreatedAt p), ''portal.created_at''),
                (Some (p_UpdatedAt p), ''portal.updated_at'')]) (\<lambda>_.
      rbind (encodable invalid
               [(p_InstabilityCollapseAt p, ''portal.instability_collapse_at''),
                (p_ExtractionSynchronizedAt p, ''portal.extraction_synchronized_at''),
                (p_ClosedAt p, ''portal.closed_at'')]) (\<lambda>_.
      if p_Status p = PortalStatusOpen
      then check (\<not> (p_ClosedAt p \<noteq> None \<or> p_TerminationReason p \<noteq> TerminationNone))
             (''invalid open portal '' @ format_d (p_ID p))
      else check (\<not> (p_ClosedAt p = None \<or> p_TerminationReason p = TerminationNone))
             (''invalid terminal portal '' @ format_d (p_ID p))))))"

definition validObserverStatus :: "ObserverStatus \<Rightarrow> bool" where
  "validObserverStatus v = (case v of ObserverStatusOther _ \<Rightarrow> False | _ \<Rightarrow> True)"

definition validateObserver :: "Observer \<Rightarrow> unit res" where
  "validateObserver ob =
     (let invalid = ''invalid observer '' @ format_d (o_ID ob) in
      rbind (check (\<not> (o_ID ob \<le> 0 \<or> \<not> validObserverStatus (o_Status ob))) invalid) (\<lambda>_.
      encodable invalid
        [(Some (o_CreatedAt ob), ''observer.created_at''), (Some (o_UpdatedAt ob), ''observer.updated_at''),
         (o_PhaseStartedAt ob, ''observer.phase_started_at''), (o_PhaseEndsAt ob, ''observer.phase_ends_at'')]))"

definition validAppMode :: "AppMode \<Rightarrow> bool" where
  "validAppMode v \<longleftrightarrow> v = ModeTutorial \<or> v = ModeLive"

section \<open>Snapshots\<close>

definition validOptionalID :: "int option \<Rightarrow> bool" where
  "validOptionalID i = (case i of None \<Rightarrow> True | Some i \<Rightarrow> 0 < i)"

definition validTutorialContext :: "AppState \<Rightarrow> bool" where
  "validTutorialContext app \<longleftrightarrow>
     \<not> (9 < a_TutorialStep app \<or> \<not> validOptionalID (a_TutorialPortalID app) \<or>
        \<not> validOptionalID (a_TutorialPlaneID app) \<or> \<not> validOptionalID (a_TutorialObserverID app)) \<and>
     (case a_TutorialPhase app of TutorialPhaseOther _ \<Rightarrow> False | _ \<Rightarrow> True)"

definition snapshotValidationTime :: "SimulationState \<Rightarrow> time" where
  "snapshotValidationTime state =
     (let advance = (\<lambda>candidate latest. if After candidate latest then candidate else latest);
          advanceOpt = (\<lambda>candidate latest. case candidate of Some t \<Rightarrow> advance t latest | None \<Rightarrow> latest);
          latest = l_EnergyBaseAt (s_Lab state);
          latest = advanceOpt (n_ScheduledAt (s_NaturalSpawn state)) latest;
          latest = advanceOpt (s_LastTickAt state) latest;
          latest = fold (\<lambda>pl. advanceOpt (pl_ExploredAt pl)) (s_Planes state) latest;
          latest = fold (\<lambda>p. advance (p_UpdatedAt p)) (s_Portals state) latest
      in fold (\<lambda>ob. advance (o_UpdatedAt ob)) (s_Observers state) latest)"

definition validateSnapshotPlanes :: "Plane list \<Rightarrow> int set res" where
  "validateSnapshotPlanes planes =
     foldM (\<lambda>planeIDs pl.
         rbind (validatePlane pl) (\<lambda>_.
         rbind (check (pl_ID pl \<notin> planeIDs) (''duplicate plane '' @ format_d (pl_ID pl))) (\<lambda>_.
         Ok (insert (pl_ID pl) planeIDs)))) {} planes"

definition validateSnapshotPortals :: "int set \<Rightarrow> Portal list \<Rightarrow> (int set \<times> int) res" where
  "validateSnapshotPortals planeIDs portals =
     foldM (\<lambda>(portalIDs, maxPortalID) p.
         rbind (validatePortal p) (\<lambda>_.
         rbind (check (p_DestinationPlaneID p \<in> planeIDs)
                  (''portal '' @ format_d (p_ID p) @ '' references missing plane'')) (\<lambda>_.
         rbind (check (p_ID p \<notin> portalIDs) (''duplicate portal '' @ format_d (p_ID p))) (\<lambda>_.
         Ok (insert (p_ID p) portalIDs, if maxPortalID < p_ID p then p_ID p else maxPortalID))))) ({}, 0) portals"

definition validateSnapshotObservers :: "int set \<Rightarrow> int set \<Rightarrow> Observer list \<Rightarrow> int set res" where
  "validateSnapshotObservers planeIDs portalIDs observers =
     foldM (\<lambda>observerIDs ob.
         rbind (validateObserver ob) (\<lambda>_.
         rbind (check (o_ID ob \<notin> observerIDs) (''duplicate observer '' @ format_d (o_ID ob))) (\<lambda>_.
         rbind (check (case o_CurrentPlaneID ob of Some i \<Rightarrow> i \<in> planeIDs | None \<Rightarrow> True)
                  (''observer '' @ format_d (o_ID ob) @ '' references missing plane'')) (\<lambda>_.
         rbind (check (case o_ActivePortalID ob of Some i \<Rightarrow> i \<in> portalIDs | None \<Rightarrow> True)
                  (''observer '' @ format_d (o_ID ob) @ '' references missing portal'')) (\<lambda>_.
         Ok (insert (o_ID ob) observerIDs)))))) {} observers"

text \<open>The limits are those of the default configuration: 20 observers, energy 100.\<close>

definition validateSnapshot :: "Snapshot \<Rightarrow> unit res" where
  "validateSnapshot snapshot =
     (let sim = sn_Simulation snapshot; app = sn_App snapshot; spawn = s_NaturalSpawn sim in
      rbind (check (\<not> (length (s_Planes sim) \<noteq> 85 \<or> int (length (s_Observers sim)) \<noteq> ObserverCount Default \<or>
               s_NextPortalID sim \<le> 0 \<or> \<not> validAppMode (a_Mode app) \<or> a_TutorialStep app < 0 \<or>
               l_EnergyBase (s_Lab sim) < 0 \<or> 100 < l_EnergyBase (s_Lab sim))) ''invalid snapshot'') (\<lambda>_.
      rbind (check (validTutorialContext app) ''invalid tutorial context'') (\<lambda>_.
      rbind (encodable ''invalid snapshot''
               [(Some (l_EnergyBaseAt (s_Lab sim)), ''lab.energy_base_at''),
                (l_LeylineOverrideUntil (s_Lab sim), ''lab.override_until''),
                (n_ScheduledAt spawn, ''app.spawn_scheduled_at''), (n_DueAt spawn, ''app.spawn_due_at''),
                (s_LastTickAt sim, ''app.last_tick_at'')]) (\<lambda>_.
      rbind (check (\<not> (n_Paused spawn \<noteq> (n_ScheduledAt spawn = None \<and> n_DueAt spawn = None) \<or>
               \<not> n_Paused spawn \<and> (n_ScheduledAt spawn = None \<or> n_DueAt spawn = None))) ''invalid natural spawn state'') (\<lambda>_.
      rbind (validateSnapshotPlanes (s_Planes sim)) (\<lambda>planeIDs.
      rbind (validateSnapshotPortals planeIDs (s_Portals sim)) (\<lambda>(portalIDs, maxPortalID).
      rbind (check (maxPortalID < s_NextPortalID sim) ''next portal ID is not ahead of persisted portals'') (\<lambda>_.
      rbind (validateSnapshotObservers planeIDs portalIDs (s_Observers sim)) (\<lambda>_.
      wrapError ''invalid simulation snapshot''
        (validateSimulationStructure sim (snapshotValidationTime sim)))))))))))"

end
