(* ===== verification/Engine.thy ===== *)
theory Engine
  imports Tutorial
begin

text \<open>
  The manager that owns the state of one laboratory (\<open>internal/engine/manager.go\<close>,
  \<open>manager_commands.go\<close>, \<open>tutorial_lifecycle.go\<close>): every operation takes the lock, checkpoints
  the random source, works on a copy of the snapshot, commits the copy with its events to
  the repository, and publishes it in memory only then.  An operation is modelled from the
  moment it holds the lock, with the error of an abandoned wait as an argument; the lock
  itself is in theory Ownership.  The repository and the binary form of the generator state
  are behind interfaces, so they are fields of an environment.
\<close>

section \<open>The manager and what it depends on\<close>

text \<open>
  \<open>updates\<close> is a channel of capacity one: the model keeps whether it holds a token.  A
  failed commit also returns the state of the repository it leaves behind.
\<close>

record ('r, 'd) LabManager =
  m_random :: 'r
  m_repo :: 'd
  m_snapshot :: Snapshot
  m_updates :: bool

record ('r, 'b, 'd) Env =
  en_cfg :: Config
  en_random :: "'r Random"
  en_MarshalBinary :: "'r \<Rightarrow> 'b res"
  en_UnmarshalBinary :: "'b \<Rightarrow> 'r res"
  en_Load :: "'d \<Rightarrow> Snapshot res"
  en_Commit :: "'d \<Rightarrow> Snapshot \<Rightarrow> EventDraft list \<Rightarrow> 'd \<times> Event list res"
  en_ListEvents :: "'d \<Rightarrow> int option \<Rightarrow> Event list res"
  en_ResetTutorial :: "'d \<Rightarrow> Snapshot \<Rightarrow> 'd \<times> unit res"
  en_order :: map_order

definition NewLabManager :: "('r, 'b, 'd) Env \<Rightarrow> 'r \<Rightarrow> 'd \<Rightarrow> ('r, 'd) LabManager res" where
  "NewLabManager env r d =
     (case en_Load env d of
        Ok snapshot \<Rightarrow> Ok \<lparr>m_random = r, m_repo = d, m_snapshot = snapshot, m_updates = False\<rparr>
      | Fail e \<Rightarrow> Fail (ErrorfWrap ''new lab manager: load snapshot'' e)
      | Panic \<Rightarrow> Panic)"

section \<open>Random transactions\<close>

text \<open>
  What an operation decided: the snapshot to publish, the generator state that goes with
  it, whether to signal, and the error the caller gets although the state was committed.
\<close>

record 'r outcome =
  oc_snapshot :: Snapshot
  oc_random :: 'r
  oc_signal :: bool
  oc_cause :: "error option"

text \<open>
  \<open>finish\<close>: without a commit the generator goes back to its checkpoint, after a panic too.
  Which state a failed restore leaves is not specified; the model keeps the checkpointed one.
\<close>

definition finishRandom ::
    "('r, 'b, 'd) Env \<Rightarrow> 'b \<Rightarrow> ('r, 'd) LabManager \<Rightarrow> 'd \<times> 'r outcome res \<Rightarrow> ('r, 'd) LabManager \<times> unit res" where
  "finishRandom env checkpoint m out =
     (let kept = m\<lparr>m_repo := fst out\<rparr> in
      case snd out of
        Ok oc \<Rightarrow>
          (m\<lparr>m_random := oc_random oc, m_repo := fst out, m_snapshot := oc_snapshot oc,
             m_updates := (oc_signal oc \<or> m_updates m)\<rparr>,
           case oc_cause oc of None \<Rightarrow> Ok () | Some e \<Rightarrow> Fail e)
      | Fail e \<Rightarrow>
          (case en_UnmarshalBinary env checkpoint of
             Ok r \<Rightarrow> (kept\<lparr>m_random := r\<rparr>, Fail e)
           | Fail e' \<Rightarrow> (kept, Fail (ErrorsJoin e (RandomRestoreError e')))
           | Panic \<Rightarrow> (kept, Panic))
      | Panic \<Rightarrow>
          (case en_UnmarshalBinary env checkpoint of
             Ok r \<Rightarrow> (kept\<lparr>m_random := r\<rparr>, Panic)
           | _ \<Rightarrow> (kept, Panic)))"

text \<open>The start of an operation: the lock, then the checkpoint.\<close>

definition transaction ::
    "('r, 'b, 'd) Env \<Rightarrow> error option \<Rightarrow> ('r, 'd) LabManager \<Rightarrow> 'd \<times> 'r outcome res \<Rightarrow>
     ('r, 'd) LabManager \<times> unit res" where
  "transaction env lock m out =
     (case lock of
        Some e \<Rightarrow> (m, Fail e)
      | None \<Rightarrow>
          (case en_MarshalBinary env (m_random m) of
             Ok checkpoint \<Rightarrow> finishRandom env checkpoint m out
           | Fail e \<Rightarrow> (m, Fail (ErrorfWrap ''checkpoint random state'' e))
           | Panic \<Rightarrow> (m, Panic)))"

text \<open>
  What an operation wants to commit: the working copy, its drafts, the error it reports in
  spite of the commit, the generator state, and the text around an error of the commit.
\<close>

record 'r plan =
  pn_snapshot :: Snapshot
  pn_drafts :: "EventDraft list"
  pn_cause :: "error option"
  pn_random :: 'r
  pn_label :: string

definition commitPlan ::
    "('r, 'b, 'd) Env \<Rightarrow> ('r, 'd) LabManager \<Rightarrow> bool \<Rightarrow> 'r plan res \<Rightarrow> 'd \<times> 'r outcome res" where
  "commitPlan env m signal planned =
     (case planned of
        Fail e \<Rightarrow> (m_repo m, Fail e)
      | Panic \<Rightarrow> (m_repo m, Panic)
      | Ok pn \<Rightarrow>
          (case en_Commit env (m_repo m) (pn_snapshot pn) (pn_drafts pn) of
             (d, Ok _) \<Rightarrow> (d, Ok \<lparr>oc_snapshot = pn_snapshot pn, oc_random = pn_random pn,
                                oc_signal = signal, oc_cause = pn_cause pn\<rparr>)
           | (d, Fail e) \<Rightarrow> (d, Fail (ErrorfWrap (pn_label pn) e))
           | (d, Panic) \<Rightarrow> (d, Panic)))"

section \<open>Catching up\<close>

text \<open>
  The resolution every operation starts with: the tick at the current time, then the
  tutorial (if asked for), whose own changes of the simulation are logged after the tick's.
\<close>

definition catchUp ::
    "('r, 'b, 'd) Env \<Rightarrow> bool \<Rightarrow> Snapshot \<Rightarrow> time \<Rightarrow> 'r \<Rightarrow>
     (SimulationTickResult \<times> Snapshot \<times> EventDraft list \<times> 'r) res" where
  "catchUp env advanceTutorial snapshot now r =
     (let cfg = en_cfg env; prepared = prepareTutorialSpawn snapshot in
      rbind (ResolveTick (en_order env) (sn_Simulation prepared) now (Some (en_random env)) cfg r) (\<lambda>(tick, sim, r').
      let resolved = prepared\<lparr>sn_Simulation := sim\<rparr> in
      rbind (if advanceTutorial then advanceTutorialAfterTick resolved now cfg else Ok resolved) (\<lambda>working.
      rbind (if sn_Simulation resolved \<noteq> sn_Simulation working
             then EventsForStateTransition (en_order env) (sn_Simulation resolved) (sn_Simulation working) now now cfg
             else Ok []) (\<lambda>tutorialDrafts.
      Ok (tick, working, t_Events tick @ tutorialDrafts, r')))))"

definition meaningfulSnapshotChange :: "Snapshot \<Rightarrow> Snapshot \<Rightarrow> bool" where
  "meaningfulSnapshotChange before after \<longleftrightarrow>
     before\<lparr>sn_Simulation := (sn_Simulation before)\<lparr>s_LastTickAt := None\<rparr>\<rparr> \<noteq>
     after\<lparr>sn_Simulation := (sn_Simulation after)\<lparr>s_LastTickAt := None\<rparr>\<rparr>"

section \<open>Ticks and reads\<close>

definition staleTick :: "Snapshot \<Rightarrow> time \<Rightarrow> bool" where
  "staleTick snapshot now \<longleftrightarrow> \<not> IsZero now \<and>
     (case s_LastTickAt (sn_Simulation snapshot) of Some lastTickAt \<Rightarrow> Before now lastTickAt | None \<Rightarrow> False)"

definition resolveBody ::
    "('r, 'b, 'd) Env \<Rightarrow> time \<Rightarrow> bool \<Rightarrow> bool \<Rightarrow> ('r, 'd) LabManager \<Rightarrow> 'd \<times> 'r outcome res" where
  "resolveBody env now signal advanceTutorial m =
     (let unchanged = (\<lambda>r. Ok \<lparr>oc_snapshot = m_snapshot m, oc_random = r, oc_signal = False, oc_cause = None\<rparr>) in
      if staleTick (m_snapshot m) now
      then (m_repo m,
        rbind (ResolveTick (en_order env) (sn_Simulation (m_snapshot m))
                 (the (s_LastTickAt (sn_Simulation (m_snapshot m)))) (Some (en_random env)) (en_cfg env) (m_random m))
          (\<lambda>(_, _, r). unchanged r))
      else
        (case catchUp env advanceTutorial (m_snapshot m) now (m_random m) of
           Fail e \<Rightarrow> (m_repo m, Fail e)
         | Panic \<Rightarrow> (m_repo m, Panic)
         | Ok (tick, working, events, r) \<Rightarrow>
             if meaningfulSnapshotChange (m_snapshot m) working \<or> events \<noteq> []
             then commitPlan env m signal
               (Ok \<lparr>pn_snapshot = working, pn_drafts = events, pn_cause = None, pn_random = r,
                    pn_label = ''commit resolved state''\<rparr>)
             else if \<not> t_Changed tick then (m_repo m, unchanged r)
             else (m_repo m, Ok \<lparr>oc_snapshot = working, oc_random = r, oc_signal = signal, oc_cause = None\<rparr>)))"

definition resolveLocked ::
    "('r, 'b, 'd) Env \<Rightarrow> error option \<Rightarrow> time \<Rightarrow> bool \<Rightarrow> bool \<Rightarrow> ('r, 'd) LabManager \<Rightarrow>
     ('r, 'd) LabManager \<times> unit res" where
  "resolveLocked env lock now signal advanceTutorial m =
     transaction env lock m (resolveBody env now signal advanceTutorial m)"

definition Tick :: "('r, 'b, 'd) Env \<Rightarrow> error option \<Rightarrow> time \<Rightarrow> ('r, 'd) LabManager \<Rightarrow> ('r, 'd) LabManager \<times> unit res" where
  "Tick env lock now m = resolveLocked env lock (UTC now) True True m"

definition tickAt :: "('r, 'b, 'd) Env \<Rightarrow> error option \<Rightarrow> time \<Rightarrow> ('r, 'd) LabManager \<Rightarrow> ('r, 'd) LabManager \<times> unit res" where
  "tickAt env lock now m = resolveLocked env lock (UTC now) True True m"

definition isPureRunCancellation :: "error \<Rightarrow> error option \<Rightarrow> bool" where
  "isPureRunCancellation err canceled \<longleftrightarrow>
     (case canceled of None \<Rightarrow> False | Some c \<Rightarrow> errors_Is err c \<and> \<not> has_restore_error err)"

text \<open>
  \<open>Run\<close> on the instants the channel delivers before it is closed; with each, the error of
  the wait for the lock and the context's error once the tick has returned.
\<close>

fun Run :: "('r, 'b, 'd) Env \<Rightarrow> (time \<times> error option \<times> error option) list \<Rightarrow> ('r, 'd) LabManager \<Rightarrow>
     ('r, 'd) LabManager \<times> unit res" where
  "Run env [] m = (m, Ok ())"
| "Run env ((instant, lock, canceled) # ticks) m =
     (case tickAt env lock (UTC instant) m of
        (m', Ok _) \<Rightarrow> Run env ticks m'
      | (m', Fail err) \<Rightarrow> (m', if isPureRunCancellation err canceled then Ok () else Fail err)
      | (m', Panic) \<Rightarrow> (m', Panic))"

definition State :: "('r, 'b, 'd) Env \<Rightarrow> error option \<Rightarrow> time \<Rightarrow> ('r, 'd) LabManager \<Rightarrow> ('r, 'd) LabManager \<times> Snapshot res" where
  "State env lock now m =
     (case resolveLocked env lock (UTC now) False False m of
        (m', Ok _) \<Rightarrow> (m', Ok (m_snapshot m'))
      | (m', Fail e) \<Rightarrow> (m', Fail e)
      | (m', Panic) \<Rightarrow> (m', Panic))"

definition PortalState ::
    "('r, 'b, 'd) Env \<Rightarrow> error option \<Rightarrow> time \<Rightarrow> int \<Rightarrow> ('r, 'd) LabManager \<Rightarrow>
     ('r, 'd) LabManager \<times> (Snapshot \<times> Event list) res" where
  "PortalState env lock now i m =
     (case resolveLocked env lock (UTC now) False False m of
        (m', Fail e) \<Rightarrow> (m', Fail e)
      | (m', Panic) \<Rightarrow> (m', Panic)
      | (m', Ok _) \<Rightarrow>
          (m', case portal_by_id (s_Portals (sn_Simulation (m_snapshot m'))) i of
                 None \<Rightarrow> Fail ErrPortalNotFound
               | Some _ \<Rightarrow>
                   (case en_ListEvents env (m_repo m') (Some i) of
                      Ok history \<Rightarrow> Ok (m_snapshot m', history)
                    | Fail e \<Rightarrow> Fail (ErrorfWrap ''portal history'' e)
                    | Panic \<Rightarrow> Panic)))"

definition ManagerPortal ::
    "('r, 'b, 'd) Env \<Rightarrow> error option \<Rightarrow> time \<Rightarrow> int \<Rightarrow> ('r, 'd) LabManager \<Rightarrow>
     ('r, 'd) LabManager \<times> (Portal \<times> Event list) res" where
  "ManagerPortal env lock now i m =
     (case PortalState env lock now i m of
        (m', result) \<Rightarrow>
          (m', rbind result (\<lambda>(snapshot, history).
             case portal_by_id (s_Portals (sn_Simulation snapshot)) i of
               None \<Rightarrow> Fail ErrPortalNotFound
             | Some portal \<Rightarrow> Ok (portal, history))))"

definition ManagerEvents :: "('r, 'b, 'd) Env \<Rightarrow> ('r, 'd) LabManager \<Rightarrow> Event list res" where
  "ManagerEvents env m =
     (case en_ListEvents env (m_repo m) None of
        Ok events \<Rightarrow> Ok events | Fail e \<Rightarrow> Fail (ErrorfWrap ''events'' e) | Panic \<Rightarrow> Panic)"

section \<open>Commands\<close>

text \<open>A \<open>managerCommand\<close>: the five commands with their arguments.\<close>

datatype managerCommand =
    CommandStabilize int
  | CommandClose int bool
  | CommandSend int bool
  | CommandRecall int bool
  | CommandOpenExtraction int

fun command_action :: "managerCommand \<Rightarrow> string" where
  "command_action (CommandStabilize i) = ''STABILIZE''"
| "command_action (CommandClose i confirm) = ''CLOSE''"
| "command_action (CommandSend i confirm) = ''SEND''"
| "command_action (CommandRecall i confirm) = ''RECALL''"
| "command_action (CommandOpenExtraction i) = ''OPEN_EXTRACTION''"

fun command_portalID :: "managerCommand \<Rightarrow> int option" where
  "command_portalID (CommandStabilize i) = Some i"
| "command_portalID (CommandClose i confirm) = Some i"
| "command_portalID (CommandSend i confirm) = Some i"
| "command_portalID (CommandRecall i confirm) = Some i"
| "command_portalID (CommandOpenExtraction i) = None"

fun command_planeID :: "managerCommand \<Rightarrow> int option" where
  "command_planeID (CommandOpenExtraction i) = Some i"
| "command_planeID _ = None"

definition portalIndex :: "Portal list \<Rightarrow> int \<Rightarrow> nat option" where
  "portalIndex portals i = find_index (\<lambda>p. p_ID p = i) portals"

definition planeIndex :: "Plane list \<Rightarrow> int \<Rightarrow> nat option" where
  "planeIndex planes i = find_index (\<lambda>pl. pl_ID pl = i) planes"

text \<open>
  \<open>apply\<close> of the commands on a portal, and of the one on a plane.  Only a close can leave
  changes beside an error.  No command draws before its last check, so the generator state
  is the old one on an error.
\<close>

definition stabilizeCommand :: "int \<Rightarrow> SimulationState \<Rightarrow> time \<Rightarrow> Config \<Rightarrow> SimulationState res" where
  "stabilizeCommand i sim now cfg =
     (case portalIndex (s_Portals sim) i of
        None \<Rightarrow> Fail ErrPortalNotFound
      | Some k \<Rightarrow>
          rbind (StabilizePortalWithLabEnergy (s_Lab sim) (s_Portals sim ! k) now cfg) (\<lambda>(lab, portal).
            Ok (sim\<lparr>s_Lab := lab, s_Portals := (s_Portals sim)[k := portal]\<rparr>)))"

definition withPortalAndPlane ::
    "int \<Rightarrow> SimulationState \<Rightarrow> (nat \<Rightarrow> nat \<Rightarrow> 'a) \<Rightarrow> (error \<Rightarrow> 'a) \<Rightarrow> 'a" where
  "withPortalAndPlane i sim act fail =
     (case portalIndex (s_Portals sim) i of
        None \<Rightarrow> fail ErrPortalNotFound
      | Some k \<Rightarrow>
          (case planeIndex (s_Planes sim) (p_DestinationPlaneID (s_Portals sim ! k)) of
             None \<Rightarrow> fail ErrPlaneNotFound
           | Some j \<Rightarrow> act k j))"

definition closeCommand :: "int \<Rightarrow> bool \<Rightarrow> SimulationState \<Rightarrow> time \<Rightarrow> Config \<Rightarrow> SimulationState \<times> unit res" where
  "closeCommand i confirm sim now cfg =
     withPortalAndPlane i sim
       (\<lambda>k j. case ClosePortalWithLabEnergy (s_Lab sim) (s_Portals sim ! k) (s_Planes sim ! j) (s_Observers sim)
                   now confirm cfg of
          ((lab, portal, plane, observers), result) \<Rightarrow>
            (sim\<lparr>s_Lab := lab, s_Portals := (s_Portals sim)[k := portal], s_Planes := (s_Planes sim)[j := plane],
                 s_Observers := observers\<rparr>, result))
       (\<lambda>e. (sim, Fail e))"

definition transitCommand ::
    "(LabState \<Rightarrow> Portal \<Rightarrow> Plane \<Rightarrow> Observer list \<Rightarrow> time \<Rightarrow> bool \<Rightarrow> 'r rnd \<Rightarrow> Config \<Rightarrow> 'r \<Rightarrow>
      (int \<times> Portal \<times> Observer list \<times> 'r) res) \<Rightarrow>
     int \<Rightarrow> bool \<Rightarrow> SimulationState \<Rightarrow> time \<Rightarrow> 'r rnd \<Rightarrow> Config \<Rightarrow> 'r \<Rightarrow> (SimulationState \<times> 'r) res" where
  "transitCommand start i confirm sim now rnd cfg r =
     withPortalAndPlane i sim
       (\<lambda>k j. rbind (start (s_Lab sim) (s_Portals sim ! k) (s_Planes sim ! j) (s_Observers sim) now confirm rnd cfg r)
          (\<lambda>(_, portal, observers, r').
             Ok (sim\<lparr>s_Portals := (s_Portals sim)[k := portal], s_Observers := observers\<rparr>, r')))
       Fail"

definition openExtractionCommand ::
    "int \<Rightarrow> SimulationState \<Rightarrow> time \<Rightarrow> 'r rnd \<Rightarrow> Config \<Rightarrow> 'r \<Rightarrow> (SimulationState \<times> 'r) res" where
  "openExtractionCommand i sim now rnd cfg r =
     (case planeIndex (s_Planes sim) i of
        None \<Rightarrow> Fail ErrPlaneNotFound
      | Some j \<Rightarrow>
          rbind (OpenExtractionPortal (s_Lab sim) (s_Portals sim) (s_Planes sim ! j) (s_Observers sim)
                   (s_NextPortalID sim) now rnd cfg r)
            (\<lambda>(_, lab, portals, r').
               Ok (sim\<lparr>s_Lab := lab, s_Portals := portals, s_NextPortalID := wrap64 (s_NextPortalID sim + 1)\<rparr>, r')))"

fun applyCommand ::
    "managerCommand \<Rightarrow> SimulationState \<Rightarrow> time \<Rightarrow> 'r rnd \<Rightarrow> Config \<Rightarrow> 'r \<Rightarrow> SimulationState \<times> 'r res" where
  "applyCommand (CommandStabilize i) sim now rnd cfg r =
     (case stabilizeCommand i sim now cfg of
        Ok sim' \<Rightarrow> (sim', Ok r) | Fail e \<Rightarrow> (sim, Fail e) | Panic \<Rightarrow> (sim, Panic))"
| "applyCommand (CommandClose i confirm) sim now rnd cfg r =
     (case closeCommand i confirm sim now cfg of (sim', result) \<Rightarrow> (sim', map_result (\<lambda>_. r) result))"
| "applyCommand (CommandSend i confirm) sim now rnd cfg r =
     (case transitCommand SendObserverWithLabEnergy i confirm sim now rnd cfg r of
        Ok (sim', r') \<Rightarrow> (sim', Ok r') | Fail e \<Rightarrow> (sim, Fail e) | Panic \<Rightarrow> (sim, Panic))"
| "applyCommand (CommandRecall i confirm) sim now rnd cfg r =
     (case transitCommand RecallObserverWithLabEnergy i confirm sim now rnd cfg r of
        Ok (sim', r') \<Rightarrow> (sim', Ok r') | Fail e \<Rightarrow> (sim, Fail e) | Panic \<Rightarrow> (sim, Panic))"
| "applyCommand (CommandOpenExtraction i) sim now rnd cfg r =
     (case openExtractionCommand i sim now rnd cfg r of
        Ok (sim', r') \<Rightarrow> (sim', Ok r') | Fail e \<Rightarrow> (sim, Fail e) | Panic \<Rightarrow> (sim, Panic))"

text \<open>
  What a command commits.  A rejected command commits too: the resolved state, the
  rejection, and whatever the tutorial changed.
\<close>

definition commandPlan ::
    "('r, 'b, 'd) Env \<Rightarrow> managerCommand \<Rightarrow> time \<Rightarrow> ('r, 'd) LabManager \<Rightarrow> 'r plan res" where
  "commandPlan env command now m =
     rbind (catchUp env True (m_snapshot m) now (m_random m)) (\<lambda>(_, resolved, drafts, r).
     case applyCommand command (sn_Simulation resolved) now (Some (en_random env)) (en_cfg env) r of
       (_, Panic) \<Rightarrow> Panic
     | (sim, result) \<Rightarrow>
         let commandErr = (case result of Fail e \<Rightarrow> Some e | _ \<Rightarrow> None);
             r' = (case result of Ok r' \<Rightarrow> r' | _ \<Rightarrow> r)
         in rbind (advanceTutorialAfterCommand (resolved\<lparr>sn_Simulation := sim\<rparr>) resolved (command_action command)
                     (command_portalID command) commandErr now (en_cfg env)) (\<lambda>working.
            rbind (if commandErr = None then Ok []
                   else rbind (NewActionRejectedEvent now (command_action command) (command_portalID command)
                                 None (command_planeID command) commandErr) (\<lambda>d. Ok [d])) (\<lambda>rejected.
            rbind (EventsForStateTransition (en_order env) (sn_Simulation resolved) (sn_Simulation working) now now
                     (en_cfg env)) (\<lambda>commandDrafts.
            Ok \<lparr>pn_snapshot = working, pn_drafts = drafts @ rejected @ commandDrafts, pn_cause = commandErr,
                pn_random = r', pn_label = ''commit '' @ command_action command\<rparr>))))"

definition executeCommand ::
    "('r, 'b, 'd) Env \<Rightarrow> error option \<Rightarrow> managerCommand \<Rightarrow> time \<Rightarrow> ('r, 'd) LabManager \<Rightarrow>
     ('r, 'd) LabManager \<times> unit res" where
  "executeCommand env lock command now m =
     transaction env lock m (commitPlan env m True (commandPlan env command (UTC now) m))"

section \<open>The tutorial's own operations\<close>

definition signalPlan ::
    "('r, 'b, 'd) Env \<Rightarrow> TutorialSignal \<Rightarrow> int option \<Rightarrow> time \<Rightarrow> ('r, 'd) LabManager \<Rightarrow> 'r plan res" where
  "signalPlan env signal portalID now m =
     rbind (catchUp env True (m_snapshot m) now (m_random m)) (\<lambda>(_, resolved, drafts, r).
     let commit = (\<lambda>working cause created. Ok \<lparr>pn_snapshot = working, pn_drafts = drafts @ created,
                     pn_cause = cause, pn_random = r, pn_label = ''commit tutorial signal''\<rparr>)
     in case applyTutorialSignal resolved signal portalID now (en_cfg env) of
          Panic \<Rightarrow> Panic
        | Ok working \<Rightarrow>
            rbind (EventsForStateTransition (en_order env) (sn_Simulation resolved) (sn_Simulation working) now now
                     (en_cfg env)) (commit working None)
        | Fail e \<Rightarrow>
            rbind (NewActionRejectedEvent now ''TUTORIAL_SIGNAL'' portalID None None (Some e))
              (\<lambda>rejected. commit resolved (Some e) [rejected]))"

definition ManagerTutorialSignal ::
    "('r, 'b, 'd) Env \<Rightarrow> error option \<Rightarrow> TutorialSignal \<Rightarrow> int option \<Rightarrow> time \<Rightarrow> ('r, 'd) LabManager \<Rightarrow>
     ('r, 'd) LabManager \<times> unit res" where
  "ManagerTutorialSignal env lock signal portalID now m =
     transaction env lock m (commitPlan env m True (signalPlan env signal portalID (UTC now) m))"

text \<open>A rejection that only resolves the tick, without the tutorial.\<close>

definition rejectionPlan ::
    "('r, 'b, 'd) Env \<Rightarrow> string \<Rightarrow> error \<Rightarrow> time \<Rightarrow> ('r, 'd) LabManager \<Rightarrow> 'r plan res" where
  "rejectionPlan env action cause now m =
     (let prepared = prepareTutorialSpawn (m_snapshot m) in
      rbind (ResolveTick (en_order env) (sn_Simulation prepared) now (Some (en_random env)) (en_cfg env) (m_random m))
        (\<lambda>(tick, sim, r).
      rbind (NewActionRejectedEvent now action None None None (Some cause)) (\<lambda>rejected.
      Ok \<lparr>pn_snapshot = prepared\<lparr>sn_Simulation := sim\<rparr>, pn_drafts = t_Events tick @ [rejected],
          pn_cause = Some cause, pn_random = r, pn_label = ''commit '' @ action @ '' rejection''\<rparr>)))"

definition StartTutorial ::
    "('r, 'b, 'd) Env \<Rightarrow> error option \<Rightarrow> time \<Rightarrow> ('r, 'd) LabManager \<Rightarrow> ('r, 'd) LabManager \<times> unit res" where
  "StartTutorial env lock now m =
     (case lock of
        Some e \<Rightarrow> (m, Fail e)
      | None \<Rightarrow>
          if a_Mode (sn_App (m_snapshot m)) = ModeTutorial then (m, Ok ())
          else transaction env None m
                 (commitPlan env m True (rejectionPlan env ''START_TUTORIAL'' ErrTutorialNotReady (UTC now) m)))"

definition canonicalTutorialSnapshot :: "Snapshot \<Rightarrow> time \<Rightarrow> int \<Rightarrow> int \<Rightarrow> Snapshot res" where
  "canonicalTutorialSnapshot current now observerCount labMaximum =
     rbind (NewObserverRoster observerCount now) (\<lambda>observers.
       Ok \<lparr>sn_Simulation =
             \<lparr>s_Lab = \<lparr>l_EnergyBase = labMaximum, l_EnergyBaseAt = now, l_LeylineOverrideUntil = None\<rparr>,
              s_Portals = [],
              s_Planes = map (\<lambda>pl. pl\<lparr>pl_Explored := False, pl_ExploredAt := None\<rparr>) (s_Planes (sn_Simulation current)),
              s_Observers = observers, s_NextPortalID = 1, s_NaturalSpawn = pausedSpawn, s_LastTickAt = None\<rparr>,
           sn_App = \<lparr>a_Mode = ModeTutorial, a_TutorialStep = 0, a_TutorialPhase = TutorialPhaseNone,
              a_TutorialPortalID = None, a_TutorialPlaneID = None, a_TutorialObserverID = None\<rparr>\<rparr>)"

definition ManagerResetTutorial ::
    "('r, 'b, 'd) Env \<Rightarrow> error option \<Rightarrow> time \<Rightarrow> ('r, 'd) LabManager \<Rightarrow> ('r, 'd) LabManager \<times> unit res" where
  "ManagerResetTutorial env lock now m =
     (case lock of
        Some e \<Rightarrow> (m, Fail e)
      | None \<Rightarrow>
          (case canonicalTutorialSnapshot (m_snapshot m) (UTC now) (ObserverCount (en_cfg env)) (LabEnergyMax (en_cfg env)) of
             Ok reset \<Rightarrow>
               (case en_ResetTutorial env (m_repo m) reset of
                  (d, Ok _) \<Rightarrow> (m\<lparr>m_repo := d, m_snapshot := reset, m_updates := True\<rparr>, Ok ())
                | (d, Fail e) \<Rightarrow> (m\<lparr>m_repo := d\<rparr>, Fail (ErrorfWrap ''reset tutorial'' e))
                | (d, Panic) \<Rightarrow> (m\<lparr>m_repo := d\<rparr>, Panic))
           | Fail e \<Rightarrow> (m, Fail e)
           | Panic \<Rightarrow> (m, Panic)))"

section \<open>Going live\<close>

text \<open>Every open portal is closed, then every observer in transit is resolved.\<close>

definition closeOpenPortals :: "Portal list \<Rightarrow> time \<Rightarrow> Config \<Rightarrow> Portal list res" where
  "closeOpenPortals portals now cfg =
     foldM (\<lambda>shut p. rbind (if p_Status p \<noteq> PortalStatusOpen then Ok p else Portal_Close p now True cfg)
                       (\<lambda>p'. Ok (shut @ [p']))) [] portals"

definition resolveTransitAt :: "time \<Rightarrow> Config \<Rightarrow> SimulationState \<Rightarrow> nat \<Rightarrow> SimulationState res" where
  "resolveTransitAt now cfg sim i =
     (let ob = s_Observers sim ! i in
      if o_Status ob \<noteq> ObserverOutbound \<and> o_Status ob \<noteq> ObserverReturning then Ok sim
      else (case o_ActivePortalID ob of
              None \<Rightarrow> Fail ErrSimulationInvariant
            | Some pid \<Rightarrow>
                withPortalAndPlane pid sim
                  (\<lambda>k j. case ResolveObserverLifecycle ob (Some (s_Planes sim ! j)) (Some (s_Portals sim ! k)) now cfg of
                     ((ob', plane'), result) \<Rightarrow>
                       rbind result (\<lambda>_. Ok (sim\<lparr>s_Observers := (s_Observers sim)[i := ob'],
                         s_Planes := (case plane' of Some pl \<Rightarrow> (s_Planes sim)[j := pl] | None \<Rightarrow> s_Planes sim)\<rparr>)))
                  (\<lambda>_. Fail ErrSimulationInvariant)))"

definition resolveTransits :: "SimulationState \<Rightarrow> time \<Rightarrow> Config \<Rightarrow> SimulationState res" where
  "resolveTransits sim now cfg = foldM (resolveTransitAt now cfg) sim [0..<length (s_Observers sim)]"

text \<open>The payload of a close gets its source; a \<open>null\<close> payload would make a nil map.\<close>

definition markCompletion :: "EventDraft \<Rightarrow> EventDraft res" where
  "markCompletion d =
     (if d_EventType d \<noteq> EventPortalClosed then Ok d
      else (case d_PayloadJSON d of
              JObject payload \<Rightarrow>
                Ok (d\<lparr>d_PayloadJSON := JObject (filter (\<lambda>kv. fst kv \<noteq> ''source'') payload @
                                               [(''source'', JString ''TUTORIAL_COMPLETION'')])\<rparr>)
            | JNull \<Rightarrow> Panic
            | _ \<Rightarrow> Fail ErrEventInvariant))"

definition mapM_res :: "('a \<Rightarrow> 'b res) \<Rightarrow> 'a list \<Rightarrow> 'b list res" where
  "mapM_res f xs = foldM (\<lambda>ys x. rbind (f x) (\<lambda>y. Ok (ys @ [y]))) [] xs"

definition startLivePlan :: "('r, 'b, 'd) Env \<Rightarrow> time \<Rightarrow> ('r, 'd) LabManager \<Rightarrow> 'r plan res" where
  "startLivePlan env now m =
     rbind (catchUp env True (m_snapshot m) now (m_random m)) (\<lambda>(_, working, drafts, r).
     let cfg = en_cfg env; sim = sn_Simulation working; app = sn_App working in
     if a_Mode app \<noteq> ModeTutorial \<or> a_TutorialStep app \<noteq> 9
     then rbind (NewActionRejectedEvent now ''START_LIVE'' None None None (Some ErrTutorialNotReady)) (\<lambda>rejected.
            Ok \<lparr>pn_snapshot = working, pn_drafts = drafts @ [rejected], pn_cause = Some ErrTutorialNotReady,
                pn_random = r, pn_label = ''commit START_LIVE rejection''\<rparr>)
     else
       rbind (closeOpenPortals (s_Portals sim) now cfg) (\<lambda>portals.
       rbind (resolveTransits (sim\<lparr>s_Portals := portals\<rparr>) now cfg) (\<lambda>ended.
       rbind (EventsForStateTransition (en_order env) sim ended now now cfg) (\<lambda>created.
       rbind (mapM_res markCompletion created) (\<lambda>closeDrafts.
       rbind (NewNaturalSpawnState now cfg (Some (en_random env)) r) (\<lambda>(spawn, r').
       Ok \<lparr>pn_snapshot = \<lparr>sn_Simulation = ended\<lparr>s_NaturalSpawn := spawn\<rparr>,
             sn_App = \<lparr>a_Mode = ModeLive, a_TutorialStep = 9, a_TutorialPhase = TutorialPhaseNone,
                       a_TutorialPortalID = None, a_TutorialPlaneID = None, a_TutorialObserverID = None\<rparr>\<rparr>,
           pn_drafts = drafts @ closeDrafts, pn_cause = None, pn_random = r',
           pn_label = ''commit START_LIVE''\<rparr>))))))"

definition StartLive ::
    "('r, 'b, 'd) Env \<Rightarrow> error option \<Rightarrow> time \<Rightarrow> ('r, 'd) LabManager \<Rightarrow> ('r, 'd) LabManager \<times> unit res" where
  "StartLive env lock now m = transaction env lock m (commitPlan env m True (startLivePlan env (UTC now) m))"

end
