(* ===== verification/EventProofs.thy ===== *)
theory EventProofs
  imports Events
begin

text \<open>
  What the event log promises: drafts are valid, the log is ordered by its key and does
  not depend on the iteration order of Go's maps, and every termination of a portal is
  logged exactly once, at its semantic moment.
\<close>

section \<open>Appending a draft\<close>

lemma makeEvent_OkE:
  assumes "makeEvent t pid oid plid msg payload createdAt = Ok d"
  obtains "EventDraft_Validate d = Ok ()" and "d_EventType d = t" and "d_PortalID d = pid"
    and "d_ObserverID d = oid" and "d_PlaneID d = plid" and "d_CreatedAt d = createdAt"
    and "d_PayloadJSON d = JObject payload"
  using assms by (auto simp: makeEvent_def Let_def split: if_splits)

lemma Validate_cases: "EventDraft_Validate d = Ok () \<or> EventDraft_Validate d = Fail ErrEventInvariant"
  by (simp add: EventDraft_Validate_def)

lemma makeEvent_cases:
  "makeEvent t pid oid plid msg payload createdAt = Fail ErrEventInvariant \<or>
   is_Ok (makeEvent t pid oid plid msg payload createdAt)"
proof -
  let ?d = "\<lparr>d_EventType = t, d_PortalID = pid, d_ObserverID = oid, d_PlaneID = plid, d_Message = msg,
    d_PayloadJSON = JObject payload, d_CreatedAt = createdAt\<rparr>"
  show ?thesis
    using Validate_cases [of ?d] by (auto simp: makeEvent_def Let_def simp del: marshal_ok.simps)
qed

lemma appendEvent_OkE:
  assumes "appendEvent events t pid oid plid msg payload createdAt = Ok events'"
  obtains d where "events' = events @ [d]" and "EventDraft_Validate d = Ok ()" and "d_EventType d = t"
    and "d_PortalID d = pid" and "d_ObserverID d = oid" and "d_PlaneID d = plid" and "d_CreatedAt d = createdAt"
    and "d_PayloadJSON d = JObject payload"
  using assms by (auto simp: appendEvent_def elim!: makeEvent_OkE)

text \<open>A call that fails, fails with the event invariant.\<close>

definition ev_fails :: "'a res \<Rightarrow> bool" where
  "ev_fails m \<longleftrightarrow> m = Fail ErrEventInvariant \<or> is_Ok m"

lemma ev_fails_simps [simp]:
  "ev_fails (Ok x)" "ev_fails (Fail e) \<longleftrightarrow> e = ErrEventInvariant" "\<not> ev_fails Panic"
  by (simp_all add: ev_fails_def)

lemma ev_fails_append [simp]: "ev_fails (appendEvent events t pid oid plid msg payload createdAt)"
proof -
  consider "makeEvent t pid oid plid msg payload createdAt = Fail ErrEventInvariant"
    | d where "makeEvent t pid oid plid msg payload createdAt = Ok d"
    using makeEvent_cases [of t pid oid plid msg payload createdAt] by (auto simp: is_Ok_iff)
  then show ?thesis by cases (simp_all add: appendEvent_def ev_fails_def)
qed

lemma ev_fails_bind: "ev_fails m \<Longrightarrow> (\<And>x. m = Ok x \<Longrightarrow> ev_fails (f x)) \<Longrightarrow> ev_fails (rbind m f)"
  by (cases m) (auto simp: ev_fails_def)

lemma ev_fails_if: "(b \<Longrightarrow> ev_fails m) \<Longrightarrow> (\<not> b \<Longrightarrow> ev_fails m') \<Longrightarrow> ev_fails (if b then m else m')"
  by simp

lemma ev_fails_option: "ev_fails m \<Longrightarrow> (\<And>x. ev_fails (f x)) \<Longrightarrow> ev_fails (case v of None \<Rightarrow> m | Some x \<Rightarrow> f x)"
  by (cases v) auto

lemmas ev_fails_rules = ev_fails_bind ev_fails_if ev_fails_option

lemma ev_fails_foldM: "(\<And>s x. x \<in> set xs \<Longrightarrow> ev_fails (f s x)) \<Longrightarrow> ev_fails (foldM f s xs)"
  by (induction xs arbitrary: s) (auto intro!: ev_fails_bind)

lemma parts_fail [simp]:
  "ev_fails (openedEvents p)" "ev_fails (terminationEvents prior p)"
  "ev_fails (stabilizedEvents prior p es)" "ev_fails (synchronizedEvents prior p es)"
  "ev_fails (riskEvents prior p previousAt now cfg es)"
  "ev_fails (dispatchedEvents ap pr ob)" "ev_fails (returnStartedEvents pr ob es)"
  "ev_fails (returnedEvents pr ob es)" "ev_fails (lostEvents bp pr ob now es)"
  by (auto simp: openedEvents_def terminationEvents_def stabilizedEvents_def synchronizedEvents_def
      riskEvents_def dispatchedEvents_def returnStartedEvents_def returnedEvents_def lostEvents_def Let_def
      intro: ev_fails_bind split: option.split)

lemma arrival_fails [simp]: "ev_fails (arrivalEvents bp pr ob cfg es)"
  unfolding arrivalEvents_def Let_def by (intro ev_fails_if ev_fails_bind) simp_all

lemma eventsForPortal_fails: "ev_fails (eventsForPortal bp i p previousAt now cfg)"
  unfolding eventsForPortal_def
  by (cases "bp i") (auto intro!: ev_fails_bind)

lemma eventsForObserver_fails: "ev_fails (eventsForObserver bo bp ap i ob now cfg)"
  unfolding eventsForObserver_def
  by (cases "bo i") (auto intro!: ev_fails_bind)

section \<open>The chunk of one portal\<close>

definition portal_event :: "Portal \<Rightarrow> EventDraft \<Rightarrow> bool" where
  "portal_event p d \<longleftrightarrow> EventDraft_Validate d = Ok () \<and> d_PortalID d = Some (p_ID p) \<and> d_ObserverID d = None \<and>
     d_EventType d \<noteq> EventLeylineOverrideStarted"

definition is_end :: "EventDraft \<Rightarrow> bool" where
  "is_end d \<longleftrightarrow> d_EventType d = EventPortalClosed \<or> d_EventType d = EventPortalCollapsed"

definition terminated :: "(int \<rightharpoonup> Portal) \<Rightarrow> int \<Rightarrow> Portal \<Rightarrow> bool" where
  "terminated bp i p \<longleftrightarrow> (\<exists>prior. bp i = Some prior \<and> p_Status prior = PortalStatusOpen) \<and>
     p_Status p \<noteq> PortalStatusOpen"

text \<open>A list of drafts that only grew by events of the portal that end nothing.\<close>

definition grew :: "Portal \<Rightarrow> EventDraft list \<Rightarrow> EventDraft list \<Rightarrow> bool" where
  "grew p es es' \<longleftrightarrow> (\<exists>new. es' = es @ new \<and> (\<forall>d\<in>set new. portal_event p d \<and> \<not> is_end d))"

lemma grew_refl [simp]: "grew p es es"
  by (simp add: grew_def)

lemma grew_trans: "grew p es es' \<Longrightarrow> grew p es' es'' \<Longrightarrow> grew p es es''"
  unfolding grew_def by force

lemma grew_append:
  assumes "appendEvent es t (Some (p_ID p)) None plid msg payload createdAt = Ok es'"
    and "t \<noteq> EventPortalClosed" and "t \<noteq> EventPortalCollapsed" and "t \<noteq> EventLeylineOverrideStarted"
  shows "grew p es es'"
  using assms by (auto simp: grew_def portal_event_def is_end_def elim!: appendEvent_OkE)

lemma eventsForPortal_Some:
  assumes "eventsForPortal bp i p previousAt now cfg = Ok (es, cs)" and prior: "bp i = Some prior"
  obtains e1 where "grew p e1 es"
    and "if p_Status prior = PortalStatusOpen \<and> p_Status p \<noteq> PortalStatusOpen
         then \<exists>c d. p_ClosedAt p = Some c \<and> e1 = [d] \<and> portal_event p d \<and> is_end d \<and> d_CreatedAt d = c \<and>
                d_EventType d = (if p_Status p = PortalStatusCollapsed then EventPortalCollapsed else EventPortalClosed) \<and>
                d_PayloadJSON d = JObject [(''reason'', JString (TerminationReason_text (p_TerminationReason p)))] \<and>
                cs = (if p_Status p = PortalStatusCollapsed
                      then [\<lparr>pc_portalID = p_ID p, pc_planeID = p_DestinationPlaneID p, pc_at = c\<rparr>] else [])
         else e1 = [] \<and> cs = []"
proof -
  obtain e1 e2 e3 where m: "terminationEvents prior p = Ok (e1, cs)" "stabilizedEvents prior p e1 = Ok e2"
    "synchronizedEvents prior p e2 = Ok e3" "riskEvents prior p previousAt now cfg e3 = Ok es"
    using assms(1) by (auto simp: eventsForPortal_def prior)
  have "grew p e1 e2" using m(2) by (auto simp: stabilizedEvents_def intro: grew_append split: if_splits)
  moreover have "grew p e2 e3" using m(3) by (auto simp: synchronizedEvents_def intro: grew_append split: option.splits)
  moreover have "grew p e3 es" using m(4) by (auto simp: riskEvents_def intro: grew_append split: if_splits option.splits)
  ultimately have "grew p e1 es" by (blast intro: grew_trans)
  then show thesis
  proof (rule that)
    let ?ended = "p_Status prior = PortalStatusOpen \<and> p_Status p \<noteq> PortalStatusOpen"
    let ?collapsed = "p_Status p = PortalStatusCollapsed"
    show "if ?ended
         then \<exists>c d. p_ClosedAt p = Some c \<and> e1 = [d] \<and> portal_event p d \<and> is_end d \<and> d_CreatedAt d = c \<and>
                d_EventType d = (if ?collapsed then EventPortalCollapsed else EventPortalClosed) \<and>
                d_PayloadJSON d = JObject [(''reason'', JString (TerminationReason_text (p_TerminationReason p)))] \<and>
                cs = (if ?collapsed
                      then [\<lparr>pc_portalID = p_ID p, pc_planeID = p_DestinationPlaneID p, pc_at = c\<rparr>] else [])
         else e1 = [] \<and> cs = []"
    proof (cases ?ended)
      case True
      then obtain c where c: "p_ClosedAt p = Some c" using m(1) by (auto simp: terminationEvents_def split: option.splits)
      have a: "appendEvent [] (if ?collapsed then EventPortalCollapsed else EventPortalClosed)
          (Some (p_ID p)) None (Some (p_DestinationPlaneID p))
          (if ?collapsed then ''Portal collapsed'' else ''Portal closed'')
          [(''reason'', JString (TerminationReason_text (p_TerminationReason p)))] c = Ok e1"
        and cs: "cs = (if ?collapsed then [\<lparr>pc_portalID = p_ID p, pc_planeID = p_DestinationPlaneID p, pc_at = c\<rparr>] else [])"
        using m(1) True c by (auto simp: terminationEvents_def Let_def)
      from a show ?thesis
        by (rule appendEvent_OkE) (use True c cs in \<open>simp add: portal_event_def is_end_def\<close>)
    next
      case False
      then show ?thesis using m(1) by (auto simp: terminationEvents_def)
    qed
  qed
qed

section \<open>Entities by ID\<close>

lemma byID_fails: "ev_fails (byID key xs)"
  unfolding byID_def by (intro ev_fails_foldM) simp

lemma byID_gen:
  fixes key :: "'a \<Rightarrow> int"
  assumes "foldM (\<lambda>m x. if key x \<le> 0 then Fail ErrEventInvariant
                  else if m (key x) \<noteq> None then Fail ErrEventInvariant
                  else Ok (m(key x \<mapsto> x))) m0 xs = Ok m"
  shows "distinct (map key xs) \<and> (\<forall>x\<in>set xs. 0 < key x \<and> m0 (key x) = None) \<and> m = m0 ++ map_of (map (\<lambda>x. (key x, x)) xs)"
  using assms
proof (induction xs arbitrary: m0)
  case (Cons x xs)
  then have k: "0 < key x" "m0 (key x) = None" by (auto simp: not_le split: if_splits)
  have "foldM (\<lambda>m x. if key x \<le> 0 then Fail ErrEventInvariant
                  else if m (key x) \<noteq> None then Fail ErrEventInvariant
                  else Ok (m(key x \<mapsto> x))) (m0(key x \<mapsto> x)) xs = Ok m"
    using Cons.prems k by simp
  from Cons.IH [OF this] have ih: "distinct (map key xs)"
    "\<forall>y\<in>set xs. 0 < key y \<and> (m0(key x \<mapsto> x)) (key y) = None"
    "m = (m0(key x \<mapsto> x)) ++ map_of (map (\<lambda>x. (key x, x)) xs)" by blast+
  have fresh: "key x \<notin> key ` set xs" using ih(2) by (force split: if_splits)
  then have "key x \<notin> dom (map_of (map (\<lambda>x. (key x, x)) xs))"
    by (simp add: dom_map_of_conv_image_fst image_image)
  then have "m = m0 ++ map_of (map (\<lambda>x. (key x, x)) (x # xs))"
    unfolding ih(3) list.map map_of.simps fst_conv snd_conv by (simp only: map_add_upd) (erule map_add_upd_left)
  moreover have "0 < key y \<and> m0 (key y) = None" if "y \<in> set xs" for y
    using bspec [OF ih(2) that] by (cases "key y = key x") simp_all
  moreover have "distinct (map key (x # xs))" using ih(1) fresh by simp
  ultimately show ?case using k by (metis set_ConsD)
qed simp

lemma byID_OkD:
  assumes "byID key xs = Ok m"
  shows "distinct (map key xs)" and "m i = Some x \<longleftrightarrow> x \<in> set xs \<and> key x = i"
    and "x \<in> set xs \<Longrightarrow> 0 < key x"
proof -
  note g = byID_gen [OF assms [unfolded byID_def]]
  show d: "distinct (map key xs)" using g by blast
  have m: "m = map_of (map (\<lambda>x. (key x, x)) xs)" using g by simp
  have "distinct (map fst (map (\<lambda>x. (key x, x)) xs))" using d by (simp add: comp_def)
  from map_of_eq_Some_iff [OF this] show "m i = Some x \<longleftrightarrow> x \<in> set xs \<and> key x = i"
    unfolding m by auto
  show "x \<in> set xs \<Longrightarrow> 0 < key x" using g by blast
qed

section \<open>The iteration order of a map\<close>

definition chunk_portal :: "(int \<rightharpoonup> Portal) \<Rightarrow> (int \<rightharpoonup> Portal) \<Rightarrow> time \<Rightarrow> time \<Rightarrow> Config \<Rightarrow> int \<Rightarrow>
    (EventDraft list \<times> portalCollapse list) res" where
  "chunk_portal bp ap previousAt now cfg i =
     (case ap i of None \<Rightarrow> Ok ([], []) | Some p \<Rightarrow> eventsForPortal bp i p previousAt now cfg)"

definition chunk_observer :: "(int \<rightharpoonup> Observer) \<Rightarrow> (int \<rightharpoonup> Observer) \<Rightarrow> (int \<rightharpoonup> Portal) \<Rightarrow> (int \<rightharpoonup> Portal) \<Rightarrow> time \<Rightarrow>
    Config \<Rightarrow> int \<Rightarrow> EventDraft list res" where
  "chunk_observer bo ao bp ap now cfg i =
     (case ao i of None \<Rightarrow> Ok [] | Some ob \<Rightarrow> eventsForObserver bo bp ap i ob now cfg)"

lemma chunk_fails: "chunk_portal bp ap previousAt now cfg i = Fail ErrEventInvariant \<or> is_Ok (chunk_portal bp ap previousAt now cfg i)"
  "chunk_observer bo ao bp ap now cfg i = Fail ErrEventInvariant \<or> is_Ok (chunk_observer bo ao bp ap now cfg i)"
  using eventsForPortal_fails [of bp i _ previousAt now cfg] eventsForObserver_fails [of bo bp ap i _ now cfg]
  by (auto simp: chunk_portal_def chunk_observer_def ev_fails_def split: option.split)

lemma foldl_pairs:
  "foldl (\<lambda>(a, b) (x, y). (a @ x, b @ y)) (a0, b0) zs = (a0 @ concat (map fst zs), b0 @ concat (map snd zs))"
  by (induction zs arbitrary: a0 b0) auto

lemma foldl_append: "foldl (@) a0 zs = a0 @ concat zs"
  by (induction zs arbitrary: a0) auto

lemma eventsForPortals_collect:
  "eventsForPortals bp ap order previousAt now cfg =
     (let c = chunk_portal bp ap previousAt now cfg in
      if \<forall>i\<in>set order. is_Ok (c i)
      then Ok (concat (map (\<lambda>i. fst (the_Ok (c i))) order), concat (map (\<lambda>i. snd (the_Ok (c i))) order))
      else Fail ErrEventInvariant)"
proof -
  let ?c = "chunk_portal bp ap previousAt now cfg"
  let ?app = "\<lambda>(a, b) (x, y). (a @ x, b @ y)"
  have "eventsForPortals bp ap order previousAt now cfg = foldM (\<lambda>s i. rbind (?c i) (\<lambda>x. Ok (?app s x))) ([], []) order"
    unfolding eventsForPortals_def
    by (rule arg_cong2 [where f = "\<lambda>g. foldM g ([], [])"])
      (auto simp: fun_eq_iff chunk_portal_def split: option.split intro!: arg_cong [where f = "rbind _"])
  also have "\<dots> = (if \<forall>i\<in>set order. is_Ok (?c i)
      then Ok (foldl ?app ([], []) (map (\<lambda>i. the_Ok (?c i)) order)) else Fail ErrEventInvariant)"
    by (rule foldM_collect) (rule chunk_fails(1))
  finally show ?thesis by (simp add: Let_def foldl_pairs comp_def)
qed

lemma eventsForObservers_collect:
  assumes "observersByID before = Ok bo" and "observersByID after = Ok ao"
  shows "eventsForObservers before after bp ap order now cfg =
     (let c = chunk_observer bo ao bp ap now cfg in
      if \<forall>i\<in>set order. is_Ok (c i) then Ok (concat (map (\<lambda>i. the_Ok (c i)) order)) else Fail ErrEventInvariant)"
proof -
  let ?c = "chunk_observer bo ao bp ap now cfg"
  have "eventsForObservers before after bp ap order now cfg = foldM (\<lambda>s i. rbind (?c i) (\<lambda>x. Ok (s @ x))) [] order"
    unfolding eventsForObservers_def assms rbind.simps
    by (rule arg_cong2 [where f = "\<lambda>g. foldM g []"]) (auto simp: fun_eq_iff chunk_observer_def split: option.split)
  also have "\<dots> = (if \<forall>i\<in>set order. is_Ok (?c i)
      then Ok (foldl (@) [] (map (\<lambda>i. the_Ok (?c i)) order)) else Fail ErrEventInvariant)"
    by (rule foldM_collect) (rule chunk_fails(2))
  finally show ?thesis by (simp add: Let_def foldl_append)
qed

lemma chunk_portal_Ok:
  assumes "chunk_portal bp ap previousAt now cfg i = Ok (es, cs)"
    and ids: "\<And>p. ap i = Some p \<Longrightarrow> p_ID p = i"
  shows "\<forall>d\<in>set es. EventDraft_Validate d = Ok () \<and> d_PortalID d = Some i \<and> d_ObserverID d = None \<and>
    d_EventType d \<noteq> EventLeylineOverrideStarted"
    and "\<forall>c\<in>set cs. pc_portalID c = i" and "length cs \<le> 1"
proof -
  have all: "(\<forall>d\<in>set es. EventDraft_Validate d = Ok () \<and> d_PortalID d = Some i \<and> d_ObserverID d = None \<and>
    d_EventType d \<noteq> EventLeylineOverrideStarted) \<and>
    (\<forall>c\<in>set cs. pc_portalID c = i) \<and> length cs \<le> 1"
  proof (cases "ap i")
    case None
    then show ?thesis using assms(1) by (simp add: chunk_portal_def)
  next
    case (Some p)
    have p: "p_ID p = i" using ids [OF Some] .
    show ?thesis
    proof (cases "bp i")
      case None
      then obtain "openedEvents p = Ok es" "cs = []"
        using assms(1) Some by (auto simp: chunk_portal_def eventsForPortal_def)
      then show ?thesis using p by (auto simp: openedEvents_def elim!: appendEvent_OkE split: if_splits)
    next
      case prior: (Some prior)
      have "eventsForPortal bp i p previousAt now cfg = Ok (es, cs)"
        using assms(1) Some by (simp add: chunk_portal_def)
      note ev = this
      show ?thesis
        by (rule eventsForPortal_Some [OF ev prior]) (auto simp: grew_def portal_event_def p split: if_splits)
    qed
  qed
  then show "\<forall>d\<in>set es. EventDraft_Validate d = Ok () \<and> d_PortalID d = Some i \<and> d_ObserverID d = None \<and>
    d_EventType d \<noteq> EventLeylineOverrideStarted"
    and "\<forall>c\<in>set cs. pc_portalID c = i" and "length cs \<le> 1" by blast+
qed

text \<open>The drafts of one observer.\<close>

definition observer_event :: "Observer \<Rightarrow> EventDraft \<Rightarrow> bool" where
  "observer_event ob d \<longleftrightarrow> EventDraft_Validate d = Ok () \<and> d_ObserverID d = Some (o_ID ob) \<and> \<not> is_end d \<and>
     d_EventType d \<noteq> EventLeylineOverrideStarted"

definition ogrew :: "Observer \<Rightarrow> EventDraft list \<Rightarrow> EventDraft list \<Rightarrow> bool" where
  "ogrew ob es es' \<longleftrightarrow> (\<exists>new. es' = es @ new \<and> (\<forall>d\<in>set new. observer_event ob d))"

lemma ogrew_refl [simp]: "ogrew ob es es"
  by (simp add: ogrew_def)

lemma ogrew_trans: "ogrew ob es es' \<Longrightarrow> ogrew ob es' es'' \<Longrightarrow> ogrew ob es es''"
  unfolding ogrew_def by force

lemma ogrew_append:
  "appendEvent es t pid (Some (o_ID ob)) plid msg payload createdAt = Ok es' \<Longrightarrow>
     t \<notin> {EventPortalClosed, EventPortalCollapsed, EventLeylineOverrideStarted} \<Longrightarrow> ogrew ob es es'"
  by (auto simp: ogrew_def observer_event_def is_end_def elim!: appendEvent_OkE)

lemma ogrew_parts:
  "dispatchedEvents ap prior ob = Ok es' \<Longrightarrow> ogrew ob [] es'"
  "returnStartedEvents prior ob es = Ok es' \<Longrightarrow> ogrew ob es es'"
  "returnedEvents prior ob es = Ok es' \<Longrightarrow> ogrew ob es es'"
  "lostEvents bp prior ob now es = Ok es' \<Longrightarrow> ogrew ob es es'"
  by (auto simp: dispatchedEvents_def returnStartedEvents_def returnedEvents_def lostEvents_def
      intro: ogrew_append split: if_splits)

lemma ogrew_arrival:
  assumes "arrivalEvents bp prior ob cfg es = Ok es'"
  shows "ogrew ob es es'"
proof (cases "o_Status prior = ObserverOutbound \<and> o_Status ob \<noteq> ObserverOutbound \<and> o_Status ob \<noteq> ObserverLost")
  case True
  then obtain e1 e2 where "ogrew ob es e1" "ogrew ob e1 e2" "ogrew ob e2 es'"
    using assms by (auto simp: arrivalEvents_def Let_def split: if_splits dest!: ogrew_append)
  then show ?thesis by (blast intro: ogrew_trans)
next
  case False
  then show ?thesis using assms by (auto simp: arrivalEvents_def intro: ogrew_append split: if_splits)
qed

lemma chunk_observer_Ok:
  assumes "chunk_observer bo ao bp ap now cfg i = Ok es"
    and ids: "\<And>ob. ao i = Some ob \<Longrightarrow> o_ID ob = i"
  shows "\<forall>d\<in>set es. EventDraft_Validate d = Ok () \<and> d_ObserverID d = Some i \<and> \<not> is_end d \<and>
    d_EventType d \<noteq> EventLeylineOverrideStarted"
proof (cases "ao i")
  case None
  then show ?thesis using assms(1) by (simp add: chunk_observer_def)
next
  case (Some ob)
  have ob: "o_ID ob = i" using ids [OF Some] .
  have "ogrew ob [] es"
  proof (cases "bo i")
    case None
    then show ?thesis using assms(1) Some by (simp add: chunk_observer_def eventsForObserver_def)
  next
    case prior: (Some prior)
    show ?thesis
    proof (cases "o_Status prior = o_Status ob \<and> sameObserverPhase prior ob")
      case True
      then show ?thesis using assms(1) Some prior by (simp add: chunk_observer_def eventsForObserver_def)
    next
      case False
      then obtain e1 e2 e3 e4 where "dispatchedEvents ap prior ob = Ok e1" "arrivalEvents bp prior ob cfg e1 = Ok e2"
        "returnStartedEvents prior ob e2 = Ok e3" "returnedEvents prior ob e3 = Ok e4"
        "lostEvents bp prior ob now e4 = Ok es"
        using assms(1) Some prior by (auto simp: chunk_observer_def eventsForObserver_def)
      then have "ogrew ob [] e1 \<and> ogrew ob e1 e2 \<and> ogrew ob e2 e3 \<and> ogrew ob e3 e4 \<and> ogrew ob e4 es"
        by (auto intro: ogrew_parts ogrew_arrival)
      then show ?thesis by (blast intro: ogrew_trans)
    qed
  qed
  then show ?thesis by (auto simp: ogrew_def observer_event_def ob)
qed

section \<open>The order of the log\<close>

definition event_key :: "EventDraft \<Rightarrow> int \<times> int \<times> int \<times> int \<times> int \<times> string" where
  "event_key d = (ns (d_CreatedAt d), eventTieRank (d_EventType d), pointerValue (d_PortalID d),
     pointerValue (d_ObserverID d), pointerValue (d_PlaneID d), EventType_text (d_EventType d))"

lemma less_prod_if: "(a :: 'a :: linorder, r :: 'b :: linorder) < (b, s) \<longleftrightarrow> (if a \<noteq> b then a < b else r < s)"
  by auto

lemma eventDraftLess_key: "eventDraftLess a b \<longleftrightarrow> event_key a < event_key b"
  by (simp only: eventDraftLess_def event_key_def Equal_def Before_def less_prod_if)

lemma sort_events: "SliceStable eventDraftLess xs = sort_key event_key xs"
  by (rule SliceStable_key) (rule eventDraftLess_key)

lemma sort_collapses:
  "SliceStable (\<lambda>a b. if Equal (pc_at a) (pc_at b) then pc_portalID a < pc_portalID b
                     else Before (pc_at a) (pc_at b)) cs = sort_key (\<lambda>c. (ns (pc_at c), pc_portalID c)) cs"
  by (rule SliceStable_key) (auto simp: Equal_def Before_def)

text \<open>Chunks whose elements carry the key of the chunk may be concatenated in any order.\<close>

lemma filter_key_chunks:
  assumes "mset xs = mset ys" and "distinct xs"
    and own: "\<And>i d. i \<in> set xs \<Longrightarrow> d \<in> set (f i) \<Longrightarrow> v d = i"
    and key: "\<And>a b. k a = k b \<Longrightarrow> v a = v b"
  shows "filter (\<lambda>x. k x = k a) (concat (map f xs)) = filter (\<lambda>x. k x = k a) (concat (map f ys))"
proof (rule filter_concat_perm [where v = "v a", OF assms(1,2)])
  fix i assume "i \<in> set xs" "i \<noteq> v a"
  then have "k d \<noteq> k a" if "d \<in> set (f i)" for d
    using own [OF \<open>i \<in> set xs\<close> that] key [of d a] by blast
  then show "filter (\<lambda>x. k x = k a) (f i) = []"
    by (simp add: filter_empty_conv)
qed

lemma sort_key_chunks:
  fixes k :: "'a \<Rightarrow> 'k :: linorder"
  assumes "mset xs = mset ys" and "distinct xs"
    and "\<And>i d. i \<in> set xs \<Longrightarrow> d \<in> set (f i) \<Longrightarrow> v d = i"
    and "\<And>a b. k a = k b \<Longrightarrow> v a = v b"
  shows "sort_key k (concat (map f xs)) = sort_key k (concat (map f ys))"
  by (rule sort_key_eqI) (rule mset_concat_map_perm [OF assms(1)], rule filter_key_chunks [OF assms])

lemma eventsForPortals_order:
  assumes ap: "portalsByID ps = Ok ap" and o1: "mset o1 = mset (map p_ID ps)" and o2: "mset o2 = mset (map p_ID ps)"
    and ok: "eventsForPortals bp ap o1 previousAt now cfg = Ok (es1, cs1)"
  obtains es2 cs2 where "eventsForPortals bp ap o2 previousAt now cfg = Ok (es2, cs2)"
    and "mset es1 = mset es2" and "\<And>a. filter (\<lambda>x. event_key x = event_key a) es1 = filter (\<lambda>x. event_key x = event_key a) es2"
    and "SliceStable (\<lambda>a b. if Equal (pc_at a) (pc_at b) then pc_portalID a < pc_portalID b
                     else Before (pc_at a) (pc_at b)) cs1 =
         SliceStable (\<lambda>a b. if Equal (pc_at a) (pc_at b) then pc_portalID a < pc_portalID b
                     else Before (pc_at a) (pc_at b)) cs2"
proof -
  let ?c = "chunk_portal bp ap previousAt now cfg"
  let ?e = "\<lambda>i. fst (the_Ok (?c i))" and ?k = "\<lambda>i. snd (the_Ok (?c i))"
  note ap = byID_OkD [OF ap [unfolded portalsByID_def]]
  have perm: "mset o1 = mset o2" and d: "distinct o1"
    using o1 o2 ap(1) mset_eq_imp_distinct_iff by (simp, metis)
  then have st: "set o1 = set o2" by (metis set_mset_mset)
  have all: "\<forall>i\<in>set o1. is_Ok (?c i)" and e1: "es1 = concat (map ?e o1)" and c1: "cs1 = concat (map ?k o1)"
    using ok by (auto simp: eventsForPortals_collect Let_def split: if_splits)
  have chunk: "?c i = Ok (?e i, ?k i)" if "i \<in> set o1" for i
    using all that by (cases "?c i") auto
  have ids: "ap i = Some p \<Longrightarrow> p_ID p = i" for i p using ap(2) by simp
  have own: "pointerValue (d_PortalID d) = i" if "i \<in> set o1" "d \<in> set (?e i)" for i d
    using chunk_portal_Ok(1) [OF chunk [OF that(1)] ids] that(2) by (auto simp: pointerValue_def)
  have kown: "pc_portalID c = i" if "i \<in> set o1" "c \<in> set (?k i)" for i c
    using chunk_portal_Ok(2) [OF chunk [OF that(1)] ids] that(2) by auto
  show thesis
  proof
    show "eventsForPortals bp ap o2 previousAt now cfg = Ok (concat (map ?e o2), concat (map ?k o2))"
      using all st by (simp add: eventsForPortals_collect Let_def)
    show "mset es1 = mset (concat (map ?e o2))"
      unfolding e1 by (rule mset_concat_map_perm [OF perm])
    show "filter (\<lambda>x. event_key x = event_key a) es1 = filter (\<lambda>x. event_key x = event_key a) (concat (map ?e o2))" for a
      unfolding e1
      by (rule filter_key_chunks [OF perm d, where f = ?e and v = "\<lambda>d. pointerValue (d_PortalID d)"])
        (erule (1) own, simp add: event_key_def)
    show "SliceStable (\<lambda>a b. if Equal (pc_at a) (pc_at b) then pc_portalID a < pc_portalID b
                     else Before (pc_at a) (pc_at b)) cs1 =
         SliceStable (\<lambda>a b. if Equal (pc_at a) (pc_at b) then pc_portalID a < pc_portalID b
                     else Before (pc_at a) (pc_at b)) (concat (map ?k o2))"
      unfolding c1 sort_collapses 
      by (rule sort_key_chunks [OF perm d, where f = ?k and v = pc_portalID]) (erule (1) kown, simp)
  qed
qed

lemma eventsForObservers_order:
  assumes o1: "mset o1 = mset (map o_ID obs)" and o2: "mset o2 = mset (map o_ID obs)"
    and ok: "eventsForObservers before obs bp ap o1 now cfg = Ok es1"
  obtains es2 where "eventsForObservers before obs bp ap o2 now cfg = Ok es2"
    and "mset es1 = mset es2" and "\<And>a. filter (\<lambda>x. event_key x = event_key a) es1 = filter (\<lambda>x. event_key x = event_key a) es2"
proof -
  obtain bo ao where m: "observersByID before = Ok bo" "observersByID obs = Ok ao"
    using ok by (auto simp: eventsForObservers_def)
  let ?c = "chunk_observer bo ao bp ap now cfg"
  let ?e = "\<lambda>i. the_Ok (?c i)"
  note ao = byID_OkD [OF m(2) [unfolded observersByID_def]]
  have perm: "mset o1 = mset o2" and d: "distinct o1"
    using o1 o2 ao(1) mset_eq_imp_distinct_iff by (simp, metis)
  then have st: "set o1 = set o2" by (metis set_mset_mset)
  have all: "\<forall>i\<in>set o1. is_Ok (?c i)" and e1: "es1 = concat (map ?e o1)"
    using ok by (auto simp: eventsForObservers_collect [OF m] Let_def split: if_splits)
  have chunk: "?c i = Ok (?e i)" if "i \<in> set o1" for i
    using all that by (cases "?c i") auto
  have ids: "ao i = Some ob \<Longrightarrow> o_ID ob = i" for i ob using ao(2) by simp
  have own: "pointerValue (d_ObserverID d) = i" if "i \<in> set o1" "d \<in> set (?e i)" for i d
    using chunk_observer_Ok [OF chunk [OF that(1)] ids] that(2) by (auto simp: pointerValue_def)
  show thesis
  proof
    show "eventsForObservers before obs bp ap o2 now cfg = Ok (concat (map ?e o2))"
      using all st by (simp add: eventsForObservers_collect [OF m] Let_def)
    show "mset es1 = mset (concat (map ?e o2))"
      unfolding e1 by (rule mset_concat_map_perm [OF perm])
    show "filter (\<lambda>x. event_key x = event_key a) es1 = filter (\<lambda>x. event_key x = event_key a) (concat (map ?e o2))" for a
      unfolding e1
      by (rule filter_key_chunks [OF perm d, where f = ?e and v = "\<lambda>d. pointerValue (d_ObserverID d)"])
        (erule (1) own, simp add: event_key_def)
  qed
qed

lemma override_fails: "ev_fails (eventsForOverride before collapses previousAt now cfg)"
  unfolding eventsForOverride_def Let_def
  by (intro ev_fails_bind ev_fails_foldM) (auto split: option.split intro!: ev_fails_bind)

lemma planes_fail: "ev_fails (eventsForPlanes before after)"
  unfolding eventsForPlanes_def planesByID_def
  by (intro ev_fails_bind ev_fails_foldM byID_fails) (auto split: option.split)

lemma observers_fail: "ev_fails (eventsForObservers before after bp ap order now cfg)"
  unfolding eventsForObservers_def observersByID_def
  by (intro ev_fails_bind ev_fails_foldM byID_fails)
    (auto split: option.split intro!: ev_fails_bind eventsForObserver_fails)

lemma portals_fail: "ev_fails (eventsForPortals bp ap order previousAt now cfg)"
  by (simp add: eventsForPortals_collect Let_def)

lemma EventsForStateTransition_fails: "ev_fails (EventsForStateTransition order before after previousAt now cfg)"
  unfolding EventsForStateTransition_def portalsByID_def
  by (auto intro!: ev_fails_bind byID_fails portals_fail override_fails observers_fail planes_fail)

lemma EventsForStateTransition_Ok_order:
  assumes o1: "\<And>loop xs. mset (order1 loop xs) = mset xs" and o2: "\<And>loop xs. mset (order2 loop xs) = mset xs"
    and ok: "EventsForStateTransition order1 before after previousAt now cfg = Ok es"
  shows "EventsForStateTransition order2 before after previousAt now cfg = Ok es"
proof -
  obtain bp ap pe1 cs1 ov oe1 pl where m: "portalsByID (s_Portals before) = Ok bp" "portalsByID (s_Portals after) = Ok ap"
    "eventsForPortals bp ap (order1 PortalLoop (map p_ID (s_Portals after))) previousAt now cfg = Ok (pe1, cs1)"
    "eventsForOverride (s_Lab before) cs1 previousAt now cfg = Ok ov"
    "eventsForObservers (s_Observers before) (s_Observers after) bp ap (order1 ObserverLoop (map o_ID (s_Observers after))) now cfg = Ok oe1"
    "eventsForPlanes (s_Planes before) (s_Planes after) = Ok pl"
    and guard: "\<not> (IsZero previousAt \<or> IsZero now \<or> \<not> utc previousAt \<or> \<not> utc now \<or> Before now previousAt \<or>
         \<not> validSimulationConfig cfg)"
    and es: "es = SliceStable eventDraftLess (pe1 @ ov @ oe1 @ pl)"
    using ok by (auto simp: EventsForStateTransition_def split: if_splits)
  obtain pe2 cs2 where p2: "eventsForPortals bp ap (order2 PortalLoop (map p_ID (s_Portals after))) previousAt now cfg = Ok (pe2, cs2)"
    "mset pe1 = mset pe2" "\<And>a. filter (\<lambda>x. event_key x = event_key a) pe1 = filter (\<lambda>x. event_key x = event_key a) pe2"
    and cs: "SliceStable (\<lambda>a b. if Equal (pc_at a) (pc_at b) then pc_portalID a < pc_portalID b
                     else Before (pc_at a) (pc_at b)) cs1 =
         SliceStable (\<lambda>a b. if Equal (pc_at a) (pc_at b) then pc_portalID a < pc_portalID b
                     else Before (pc_at a) (pc_at b)) cs2"
    using eventsForPortals_order [OF m(2) o1 o2 m(3)] by blast
  obtain oe2 where q2: "eventsForObservers (s_Observers before) (s_Observers after) bp ap (order2 ObserverLoop (map o_ID (s_Observers after))) now cfg = Ok oe2"
    "mset oe1 = mset oe2" "\<And>a. filter (\<lambda>x. event_key x = event_key a) oe1 = filter (\<lambda>x. event_key x = event_key a) oe2"
    using eventsForObservers_order [OF o1 o2 m(5)] by blast
  have ov: "eventsForOverride (s_Lab before) cs2 previousAt now cfg = Ok ov"
    using m(4) unfolding eventsForOverride_def cs .
  have "es = SliceStable eventDraftLess (pe2 @ ov @ oe2 @ pl)"
    unfolding es sort_events by (rule sort_key_eqI) (simp_all add: p2(2,3) q2(2,3))
  then show ?thesis
    using guard m(1,2,6) p2(1) ov q2(1) by (simp add: EventsForStateTransition_def)
qed

section \<open>The contents of the log\<close>

text \<open>The starts of an emergency, one for each collapse of the tick.\<close>

definition starts :: "EventDraft list \<Rightarrow> (int option \<times> time) multiset" where
  "starts es = mset (map (\<lambda>d. (d_PortalID d, d_CreatedAt d)) (filter (\<lambda>d. d_EventType d = EventLeylineOverrideStarted) es))"

definition collapses_of :: "portalCollapse list \<Rightarrow> (int option \<times> time) multiset" where
  "collapses_of cs = mset (map (\<lambda>c. (Some (pc_portalID c), pc_at c)) cs)"

definition plain :: "EventDraft list \<Rightarrow> bool" where
  "plain es \<longleftrightarrow> (\<forall>d\<in>set es. EventDraft_Validate d = Ok () \<and> \<not> is_end d)"

lemma plain_simps [simp]: "plain []" "plain (es @ es') \<longleftrightarrow> plain es \<and> plain es'"
  by (auto simp: plain_def)

lemma starts_simps [simp]: "starts [] = {#}" "starts (es @ es') = starts es + starts es'"
  by (simp_all add: starts_def)

lemma plain_append:
  "appendEvent es t pid oid plid msg payload createdAt = Ok es' \<Longrightarrow> plain es \<Longrightarrow>
   t \<notin> {EventPortalClosed, EventPortalCollapsed} \<Longrightarrow> plain es'"
  by (auto simp: plain_def is_end_def elim!: appendEvent_OkE)

lemma starts_append:
  "appendEvent es t pid oid plid msg payload createdAt = Ok es' \<Longrightarrow>
   starts es' = starts es + (if t = EventLeylineOverrideStarted then {#(pid, createdAt)#} else {#})"
  by (auto simp: starts_def elim!: appendEvent_OkE)

lemma override_step:
  fixes deadline :: "time option" and windowStart :: time
  assumes "(case deadline of
              Some d \<Rightarrow> if Before windowStart d \<and> \<not> Before t d
                        then appendEvent events EventLeylineOverrideEnded None None None msg [] d else Ok events
            | None \<Rightarrow> Ok events) = Ok events'"
    and "plain events"
  shows "plain events' \<and> starts events' = starts events"
  using assms by (auto simp: starts_append intro: plain_append split: option.splits if_splits)

lemma override_loop:
  assumes "foldM (\<lambda>(events, deadline, windowStart) c.
             rbind (case deadline of
                      Some d \<Rightarrow> if Before windowStart d \<and> \<not> Before (pc_at c) d
                                then appendEvent events EventLeylineOverrideEnded None None None msg [] d else Ok events
                    | None \<Rightarrow> Ok events) (\<lambda>events.
             let newDeadline = Add (pc_at c) (EmergencyDuration cfg) in
             rbind (appendEvent events EventLeylineOverrideStarted (Some (pc_portalID c)) None (Some (pc_planeID c))
                      msg' (payload newDeadline) (pc_at c)) (\<lambda>events.
             Ok (events, Some newDeadline, pc_at c)))) (events, deadline, windowStart) cs = Ok (events', deadline', windowStart')"
    and "plain events"
  shows "plain events' \<and> starts events' = starts events + collapses_of cs"
  using assms
proof (induction cs arbitrary: events deadline windowStart)
  case Nil
  then show ?case by (simp add: collapses_of_def)
next
  case (Cons c cs)
  obtain e1 e2 where e: "(case deadline of
                      Some d \<Rightarrow> if Before windowStart d \<and> \<not> Before (pc_at c) d
                                then appendEvent events EventLeylineOverrideEnded None None None msg [] d else Ok events
                    | None \<Rightarrow> Ok events) = Ok e1"
    and e2: "appendEvent e1 EventLeylineOverrideStarted (Some (pc_portalID c)) None (Some (pc_planeID c))
                      msg' (payload (Add (pc_at c) (EmergencyDuration cfg))) (pc_at c) = Ok e2"
    and rest: "foldM (\<lambda>(events, deadline, windowStart) c.
             rbind (case deadline of
                      Some d \<Rightarrow> if Before windowStart d \<and> \<not> Before (pc_at c) d
                                then appendEvent events EventLeylineOverrideEnded None None None msg [] d else Ok events
                    | None \<Rightarrow> Ok events) (\<lambda>events.
             let newDeadline = Add (pc_at c) (EmergencyDuration cfg) in
             rbind (appendEvent events EventLeylineOverrideStarted (Some (pc_portalID c)) None (Some (pc_planeID c))
                      msg' (payload newDeadline) (pc_at c)) (\<lambda>events.
             Ok (events, Some newDeadline, pc_at c))))
        (e2, Some (Add (pc_at c) (EmergencyDuration cfg)), pc_at c) cs = Ok (events', deadline', windowStart')"
    using Cons.prems(1) unfolding foldM.simps prod.case Let_def by (elim rbind_OkE) auto
  have "plain e1" "starts e1 = starts events" using override_step [OF e Cons.prems(2)] by auto
  moreover have "plain e2" using plain_append [OF e2 \<open>plain e1\<close>] by simp
  ultimately have "plain events' \<and> starts events' = starts events + {#(Some (pc_portalID c), pc_at c)#} + collapses_of cs"
    using Cons.IH [OF rest] starts_append [OF e2] by simp
  then show ?case by (simp add: collapses_of_def)
qed

lemma override_contents:
  assumes "eventsForOverride before cs previousAt now cfg = Ok ov"
  shows "plain ov" and "starts ov = collapses_of cs"
proof -
  let ?cs = "SliceStable (\<lambda>a b. if Equal (pc_at a) (pc_at b) then pc_portalID a < pc_portalID b
                                      else Before (pc_at a) (pc_at b)) cs"
  from assms obtain es dl ws where loop: "foldM (\<lambda>(events, deadline, windowStart) c.
             rbind (case deadline of
                      Some d \<Rightarrow> if Before windowStart d \<and> \<not> Before (pc_at c) d
                                then appendEvent events EventLeylineOverrideEnded None None None ''Leyline Override ended'' [] d
                                else Ok events
                    | None \<Rightarrow> Ok events) (\<lambda>events.
             let newDeadline = Add (pc_at c) (EmergencyDuration cfg) in
             rbind (appendEvent events EventLeylineOverrideStarted (Some (pc_portalID c)) None (Some (pc_planeID c))
                      ''Leyline Override started'' [(''until'', JTime newDeadline)] (pc_at c)) (\<lambda>events.
             Ok (events, Some newDeadline, pc_at c))))
             ([], l_LeylineOverrideUntil before, previousAt) ?cs = Ok (es, dl, ws)"
    and fin: "(case dl of
                Some d \<Rightarrow> if Before ws d \<and> \<not> Before now d
                          then appendEvent es EventLeylineOverrideEnded None None None ''Leyline Override ended'' [] d else Ok es
              | None \<Rightarrow> Ok es) = Ok ov"
    unfolding eventsForOverride_def Let_def by (elim rbind_OkE) auto
  have "plain es \<and> starts es = starts [] + collapses_of ?cs"
    by (rule override_loop [where payload = "\<lambda>t. [(''until'', JTime t)]", OF loop]) simp
  then show "plain ov" "starts ov = collapses_of cs"
    using override_step [OF fin] by (auto simp: collapses_of_def)
qed

lemma planes_contents:
  assumes "eventsForPlanes before after = Ok pl"
  shows "plain pl" and "starts pl = {#}"
proof -
  obtain bm :: "int \<Rightarrow> Plane option" where loop: "foldM (\<lambda>events plane.
           case bm (pl_ID plane) of
             None \<Rightarrow> Ok events
           | Some prior \<Rightarrow>
               (case pl_ExploredAt plane of
                  None \<Rightarrow> Ok events
                | Some exploredAt \<Rightarrow>
                    if pl_Explored prior \<or> \<not> pl_Explored plane then Ok events
                    else appendEvent events EventPlaneExplored None None (Some (pl_ID plane))
                           ''Plane explored'' [] exploredAt))
         [] after = Ok pl"
    using assms unfolding eventsForPlanes_def by (elim rbind_OkE) (rule that)
  have "plain pl \<and> starts pl = {#}"
    by (rule foldM_invariant [OF loop]) (auto split: option.splits if_splits intro: plain_append simp: starts_append)
  then show "plain pl" and "starts pl = {#}" by auto
qed

lemma observers_contents:
  assumes "eventsForObservers before obs bp ap order now cfg = Ok es"
  shows "plain es" and "starts es = {#}"
proof -
  obtain bo ao where m: "observersByID before = Ok bo" "observersByID obs = Ok ao"
    using assms by (auto simp: eventsForObservers_def)
  let ?c = "chunk_observer bo ao bp ap now cfg"
  note ao = byID_OkD [OF m(2) [unfolded observersByID_def]]
  have all: "\<forall>i\<in>set order. is_Ok (?c i)" and es: "es = concat (map (\<lambda>i. the_Ok (?c i)) order)"
    using assms by (auto simp: eventsForObservers_collect [OF m] Let_def split: if_splits)
  have "EventDraft_Validate d = Ok () \<and> \<not> is_end d \<and> d_EventType d \<noteq> EventLeylineOverrideStarted" if d: "d \<in> set es" for d
  proof -
    obtain i where i: "i \<in> set order" "d \<in> set (the_Ok (?c i))" using d es by auto
    then have c: "?c i = Ok (the_Ok (?c i))" using all by (cases "?c i") auto
    have ids: "ao i = Some ob \<Longrightarrow> o_ID ob = i" for ob using ao(2) by simp
    show ?thesis using chunk_observer_Ok [OF c ids] i(2) by auto
  qed
  then show "plain es" "starts es = {#}" by (auto simp: plain_def starts_def filter_empty_conv)
qed

text \<open>What one portal contributes.\<close>

definition end_event :: "Portal \<Rightarrow> EventDraft \<Rightarrow> bool" where
  "end_event p d \<longleftrightarrow> d_PortalID d = Some (p_ID p) \<and> p_ClosedAt p = Some (d_CreatedAt d) \<and>
     d_EventType d = (if p_Status p = PortalStatusCollapsed then EventPortalCollapsed else EventPortalClosed) \<and>
     d_PayloadJSON d = JObject [(''reason'', JString (TerminationReason_text (p_TerminationReason p)))]"

lemma end_event_is_end: "end_event p d \<Longrightarrow> is_end d"
  by (simp add: end_event_def is_end_def)

text \<open>The chunk of a portal: at most one end, with a matching collapse.\<close>

lemma chunk_portal_ends:
  assumes c: "chunk_portal bp ap previousAt now cfg i = Ok (es, cs)" and p: "ap i = Some p" "p_ID p = i"
  shows "if terminated bp i p
         then \<exists>d. filter is_end es = [d] \<and> end_event p d \<and>
                cs = (if p_Status p = PortalStatusCollapsed
                      then [\<lparr>pc_portalID = i, pc_planeID = p_DestinationPlaneID p, pc_at = d_CreatedAt d\<rparr>] else [])
         else filter is_end es = [] \<and> cs = []"
    and "starts es = {#}"
proof -
  have "(if terminated bp i p
         then \<exists>d. filter is_end es = [d] \<and> end_event p d \<and>
                cs = (if p_Status p = PortalStatusCollapsed
                      then [\<lparr>pc_portalID = i, pc_planeID = p_DestinationPlaneID p, pc_at = d_CreatedAt d\<rparr>] else [])
         else filter is_end es = [] \<and> cs = [])"
  proof (cases "bp i")
    case None
    then obtain "openedEvents p = Ok es" "cs = []"
      using c p by (auto simp: chunk_portal_def eventsForPortal_def)
    then show ?thesis
      using None by (auto simp: terminated_def openedEvents_def is_end_def elim!: appendEvent_OkE split: if_splits)
  next
    case prior: (Some prior)
    have ev: "eventsForPortal bp i p previousAt now cfg = Ok (es, cs)"
      using c p by (simp add: chunk_portal_def)
    show ?thesis
    proof (rule eventsForPortal_Some [OF ev prior], goal_cases)
      case (1 e1)
      obtain new where new: "es = e1 @ new" "filter is_end new = []"
        using 1(1) by (auto simp: grew_def filter_empty_conv)
      show ?case
        using 1(2) by (auto simp: terminated_def prior new end_event_def portal_event_def p(2) split: if_splits)
    qed
  qed
  then show "if terminated bp i p
         then \<exists>d. filter is_end es = [d] \<and> end_event p d \<and>
                cs = (if p_Status p = PortalStatusCollapsed
                      then [\<lparr>pc_portalID = i, pc_planeID = p_DestinationPlaneID p, pc_at = d_CreatedAt d\<rparr>] else [])
         else filter is_end es = [] \<and> cs = []" .
  have ids: "ap i = Some q \<Longrightarrow> p_ID q = i" for q using p by simp
  show "starts es = {#}"
    using chunk_portal_Ok(1) [OF c ids] by (auto simp: starts_def filter_empty_conv)
qed

text \<open>The chunks of all portals.\<close>

definition collapse_keys :: "EventDraft list \<Rightarrow> (int option \<times> time) multiset" where
  "collapse_keys es = mset (map (\<lambda>d. (d_PortalID d, d_CreatedAt d)) (filter (\<lambda>d. d_EventType d = EventPortalCollapsed) es))"

lemma collapse_keys_simps [simp]: "collapse_keys [] = {#}" "collapse_keys (es @ es') = collapse_keys es + collapse_keys es'"
  by (simp_all add: collapse_keys_def)

lemma collapse_keys_ends: "collapse_keys es = collapse_keys (filter is_end es)"
  by (simp add: collapse_keys_def is_end_def conj_commute cong: conj_cong)

lemma collapses_of_simps [simp]: "collapses_of [] = {#}" "collapses_of (es @ es') = collapses_of es + collapses_of es'"
  by (simp_all add: collapses_of_def)

lemma concat_hom:
  fixes h :: "'b list \<Rightarrow> 'c multiset" and h' :: "'d list \<Rightarrow> 'c multiset"
  assumes "h [] = {#}" "\<And>a b. h (a @ b) = h a + h b" "h' [] = {#}" "\<And>a b. h' (a @ b) = h' a + h' b"
    and "\<And>i. i \<in> set xs \<Longrightarrow> h (f i) = h' (g i)"
  shows "h (concat (map f xs)) = h' (concat (map g xs))"
  using assms(5) by (induction xs) (simp_all add: assms(1-4))

lemma filter_concat_one:
  assumes "distinct zs" and "\<And>i. i \<in> set zs \<Longrightarrow> i \<noteq> v \<Longrightarrow> filter P (f i) = []"
  shows "filter P (concat (map f zs)) = (if v \<in> set zs then filter P (f v) else [])"
  using assms by (induction zs) auto

lemma portals_contents:
  assumes ap: "portalsByID ps = Ok ap" and order: "mset order = mset (map p_ID ps)"
    and ok: "eventsForPortals bp ap order previousAt now cfg = Ok (es, cs)"
  shows "\<forall>d\<in>set es. EventDraft_Validate d = Ok ()" and "starts es = {#}" and "collapse_keys es = collapses_of cs"
    and "p \<in> set ps \<Longrightarrow> terminated bp (p_ID p) p \<Longrightarrow>
      \<exists>d. filter (\<lambda>d. is_end d \<and> d_PortalID d = Some (p_ID p)) es = [d] \<and> end_event p d"
    and "d \<in> set es \<Longrightarrow> is_end d \<Longrightarrow> \<exists>p\<in>set ps. terminated bp (p_ID p) p \<and> d_PortalID d = Some (p_ID p)"
proof -
  let ?c = "chunk_portal bp ap previousAt now cfg"
  let ?e = "\<lambda>i. fst (the_Ok (?c i))" and ?k = "\<lambda>i. snd (the_Ok (?c i))"
  note ap = byID_OkD [OF ap [unfolded portalsByID_def]]
  have dist: "distinct order" and st: "set order = p_ID ` set ps"
    using order ap(1) by (metis mset_eq_imp_distinct_iff, metis set_map set_mset_mset)
  have all: "\<forall>i\<in>set order. is_Ok (?c i)" and e1: "es = concat (map ?e order)" and c1: "cs = concat (map ?k order)"
    using ok by (auto simp: eventsForPortals_collect Let_def split: if_splits)
  have chunk: "?c i = Ok (?e i, ?k i)" if "i \<in> set order" for i
    using all that by (cases "?c i") auto
  have ids: "ap i = Some p \<Longrightarrow> p_ID p = i" for i p using ap(2) by simp
  have get: "\<exists>p\<in>set ps. ap i = Some p \<and> p_ID p = i" if "i \<in> set order" for i
    using that st ap(2) by auto
  have own: "EventDraft_Validate d = Ok () \<and> d_PortalID d = Some i" if "i \<in> set order" "d \<in> set (?e i)" for i d
    using chunk_portal_Ok(1) [OF chunk [OF that(1)] ids] that(2) by auto
  show "\<forall>d\<in>set es. EventDraft_Validate d = Ok ()" using own by (auto simp: e1)
  have no_starts: "starts (?e i) = {#}" if "i \<in> set order" for i
    using get [OF that] chunk_portal_ends(2) [OF chunk [OF that]] by blast
  have "starts es = (\<lambda>_ :: 'a list. {#}) (concat (map (\<lambda>_. []) order))"
    unfolding e1 by (rule concat_hom) (simp_all add: no_starts)
  then show "starts es = {#}" by simp
  have ck: "collapse_keys (?e i) = collapses_of (?k i)" if i: "i \<in> set order" for i
  proof -
    obtain q where q: "ap i = Some q" "p_ID q = i" using get [OF i] by blast
    define F where "F = filter is_end (?e i)"
    have "collapse_keys F = collapses_of (?k i)"
      using chunk_portal_ends(1) [OF chunk [OF i] q, folded F_def]
      by (auto simp: collapses_of_def collapse_keys_def end_event_def q split: if_splits)
    then show ?thesis unfolding F_def by (simp flip: collapse_keys_ends)
  qed
  show "collapse_keys es = collapses_of cs"
    unfolding e1 c1 by (rule concat_hom) (simp_all add: ck)
  show "\<exists>d. filter (\<lambda>d. is_end d \<and> d_PortalID d = Some (p_ID p)) es = [d] \<and> end_event p d"
    if p: "p \<in> set ps" "terminated bp (p_ID p) p"
  proof -
    let ?P = "\<lambda>d. is_end d \<and> d_PortalID d = Some (p_ID p)"
    have i: "p_ID p \<in> set order" using p st by simp
    have "filter ?P es = filter ?P (?e (p_ID p))"
      unfolding e1 using i own by (subst filter_concat_one [OF dist, where v = "p_ID p"]) (auto simp: filter_empty_conv)
    also have "\<dots> = filter is_end (?e (p_ID p))" using own [OF i] by (auto intro: filter_cong)
    finally show ?thesis
      using chunk_portal_ends(1) [OF chunk [OF i], of p] ap(2) p by auto
  qed
  show "\<exists>p\<in>set ps. terminated bp (p_ID p) p \<and> d_PortalID d = Some (p_ID p)" if d: "d \<in> set es" "is_end d"
  proof -
    obtain i where i: "i \<in> set order" "d \<in> set (?e i)" using d(1) e1 by auto
    obtain q where q: "q \<in> set ps" "ap i = Some q" "p_ID q = i" using get [OF i(1)] by blast
    have "d \<in> set (filter is_end (?e i))" using i(2) d(2) by simp
    then have "filter is_end (?e i) \<noteq> []" by (metis empty_iff empty_set)
    then have "terminated bp i q"
      using chunk_portal_ends(1) [OF chunk [OF i(1)] q(2,3)] by (auto split: if_splits)
    then show ?thesis using q own [OF i] by blast
  qed
qed

section \<open>The log of a transition\<close>

lemma log_parts:
  assumes "EventsForStateTransition order before after previousAt now cfg = Ok drafts"
  obtains bp ap pe cs ov oe pl where "portalsByID (s_Portals before) = Ok bp" and "portalsByID (s_Portals after) = Ok ap"
    and "eventsForPortals bp ap (order PortalLoop (map p_ID (s_Portals after))) previousAt now cfg = Ok (pe, cs)"
    and "plain ov" and "starts ov = collapses_of cs" and "plain oe" and "starts oe = {#}" and "plain pl" and "starts pl = {#}"
    and "drafts = sort_key event_key (pe @ ov @ oe @ pl)"
proof -
  obtain bp ap pe cs ov oe pl where m: "portalsByID (s_Portals before) = Ok bp" "portalsByID (s_Portals after) = Ok ap"
    "eventsForPortals bp ap (order PortalLoop (map p_ID (s_Portals after))) previousAt now cfg = Ok (pe, cs)"
    "eventsForOverride (s_Lab before) cs previousAt now cfg = Ok ov"
    "eventsForObservers (s_Observers before) (s_Observers after) bp ap (order ObserverLoop (map o_ID (s_Observers after))) now cfg = Ok oe"
    "eventsForPlanes (s_Planes before) (s_Planes after) = Ok pl"
    and drafts: "drafts = SliceStable eventDraftLess (pe @ ov @ oe @ pl)"
    using assms by (auto simp: EventsForStateTransition_def split: if_splits)
  show thesis
    using that m(1-3) override_contents [OF m(4)] observers_contents [OF m(5)] planes_contents [OF m(6)] drafts
    unfolding sort_events by blast
qed

lemma filter_sort_singleton:
  assumes "filter P zs = [d]"
  shows "filter P (sort_key k zs) = [d]"
proof -
  have "mset (filter P (sort_key k zs)) = mset (filter P zs)" by simp
  then have "mset (filter P (sort_key k zs)) = {#d#}" unfolding assms by simp
  then show ?thesis by (simp only: mset_single_iff)
qed

lemma terminated_iff:
  assumes "portalsByID ps = Ok bp"
  shows "terminated bp (p_ID p) p \<longleftrightarrow> p_Status p \<noteq> PortalStatusOpen \<and>
     (\<exists>prior\<in>set ps. p_ID prior = p_ID p \<and> p_Status prior = PortalStatusOpen)"
  using byID_OkD(2) [OF assms [unfolded portalsByID_def]] by (auto simp: terminated_def)

text \<open>
  C37: The event log of a state transition does not depend on the order in which Go
  iterates over its maps of portals and observers: any two choices of the orders of the two
  loops give the same list of drafts, or the same error.
\<close>

lemma log_independent_of_map_order:
  assumes "\<And>loop xs. mset (order1 loop xs) = mset xs" and "\<And>loop xs. mset (order2 loop xs) = mset xs"
  shows "EventsForStateTransition order1 before after previousAt now cfg =
    EventsForStateTransition order2 before after previousAt now cfg"
proof (cases "EventsForStateTransition order1 before after previousAt now cfg")
  case (Ok es)
  then show ?thesis using EventsForStateTransition_Ok_order [OF assms] by simp
next
  case (Fail e)
  have "EventsForStateTransition order2 before after previousAt now cfg \<noteq> Ok es" for es
    using EventsForStateTransition_Ok_order [OF assms(2,1)] Fail by force
  then show ?thesis
    using Fail EventsForStateTransition_fails [of order1 before after previousAt now cfg]
      EventsForStateTransition_fails [of order2 before after previousAt now cfg]
    by (auto simp: ev_fails_def is_Ok_iff)
next
  case Panic
  then show ?thesis using EventsForStateTransition_fails [of order1 before after previousAt now cfg] by simp
qed

text \<open>
  Every portal that was open before a transition and is not open after it is logged
  exactly once, at the moment it terminated and with its reason, as a collapse or as a
  closing; and the log holds no other end of a portal.
\<close>

lemma terminations_logged_once:
  assumes "\<And>loop xs. mset (order loop xs) = mset xs"
    and "EventsForStateTransition order before after previousAt now cfg = Ok drafts"
  shows "(\<forall>p\<in>set (s_Portals after). \<forall>prior\<in>set (s_Portals before).
        p_ID prior = p_ID p \<longrightarrow> p_Status prior = PortalStatusOpen \<longrightarrow> p_Status p \<noteq> PortalStatusOpen \<longrightarrow>
        (\<exists>d. filter (\<lambda>d. (d_EventType d = EventPortalClosed \<or> d_EventType d = EventPortalCollapsed) \<and>
                         d_PortalID d = Some (p_ID p)) drafts = [d] \<and>
             p_ClosedAt p = Some (d_CreatedAt d) \<and>
             d_EventType d = (if p_Status p = PortalStatusCollapsed then EventPortalCollapsed else EventPortalClosed) \<and>
             d_PayloadJSON d = JObject [(''reason'', JString (TerminationReason_text (p_TerminationReason p)))])) \<and>
    (\<forall>d\<in>set drafts. d_EventType d = EventPortalClosed \<or> d_EventType d = EventPortalCollapsed \<longrightarrow>
        (\<exists>p\<in>set (s_Portals after). d_PortalID d = Some (p_ID p) \<and> p_Status p \<noteq> PortalStatusOpen \<and>
           (\<exists>prior\<in>set (s_Portals before). p_ID prior = p_ID p \<and> p_Status prior = PortalStatusOpen)))"
proof -
  obtain bp ap pe cs ov oe pl where bp: "portalsByID (s_Portals before) = Ok bp" and ap: "portalsByID (s_Portals after) = Ok ap"
    and pe: "eventsForPortals bp ap (order PortalLoop (map p_ID (s_Portals after))) previousAt now cfg = Ok (pe, cs)"
    and plain: "plain ov" "plain oe" "plain pl" and drafts: "drafts = sort_key event_key (pe @ ov @ oe @ pl)"
    using log_parts [OF assms(2)] by metis
  note pc = portals_contents [OF ap assms(1) pe]
  have none: "filter (\<lambda>d. is_end d \<and> Q d) (ov @ oe @ pl) = []" for Q
    using plain by (auto simp: plain_def filter_empty_conv)
  have once: "\<exists>d. filter (\<lambda>d. is_end d \<and> d_PortalID d = Some (p_ID p)) drafts = [d] \<and> end_event p d"
    if p: "p \<in> set (s_Portals after)" "terminated bp (p_ID p) p" for p
  proof -
    obtain d where d: "filter (\<lambda>d. is_end d \<and> d_PortalID d = Some (p_ID p)) pe = [d]" "end_event p d"
      using pc(4) [OF p] by blast
    have "filter (\<lambda>d. is_end d \<and> d_PortalID d = Some (p_ID p)) (pe @ ov @ oe @ pl) = [d]"
      using none [of "\<lambda>d. d_PortalID d = Some (p_ID p)"] d(1) by simp
    then show ?thesis
      using filter_sort_singleton [of _ "pe @ ov @ oe @ pl" d event_key] d(2) unfolding drafts by blast
  qed
  have only: "\<exists>p\<in>set (s_Portals after). terminated bp (p_ID p) p \<and> d_PortalID d = Some (p_ID p)"
    if "d \<in> set drafts" "is_end d" for d
    using that pc(5) [of d] plain by (auto simp: drafts plain_def)
  show ?thesis
    using once only unfolding terminated_iff [OF bp] is_end_def end_event_def by blast
qed

text \<open>
  Every collapse in the log starts an emergency at the same moment and for the same
  portal, and no emergency starts without one.
\<close>

lemma collapses_start_emergencies_in_log:
  assumes "\<And>loop xs. mset (order loop xs) = mset xs"
    and "EventsForStateTransition order before after previousAt now cfg = Ok drafts"
  shows "mset (map (\<lambda>d. (d_PortalID d, d_CreatedAt d)) (filter (\<lambda>d. d_EventType d = EventLeylineOverrideStarted) drafts)) =
    mset (map (\<lambda>d. (d_PortalID d, d_CreatedAt d)) (filter (\<lambda>d. d_EventType d = EventPortalCollapsed) drafts))"
proof -
  obtain bp ap pe cs ov oe pl where ap: "portalsByID (s_Portals after) = Ok ap"
    and pe: "eventsForPortals bp ap (order PortalLoop (map p_ID (s_Portals after))) previousAt now cfg = Ok (pe, cs)"
    and plain: "plain ov" "plain oe" "plain pl" and starts: "starts ov = collapses_of cs" "starts oe = {#}" "starts pl = {#}"
    and drafts: "drafts = sort_key event_key (pe @ ov @ oe @ pl)"
    using log_parts [OF assms(2)] by metis
  note pc = portals_contents [OF ap assms(1) pe]
  have none: "collapse_keys es = {#}" if "plain es" for es
    using that by (auto simp: plain_def collapse_keys_def is_end_def filter_empty_conv)
  have "starts drafts = starts (pe @ ov @ oe @ pl)" "collapse_keys drafts = collapse_keys (pe @ ov @ oe @ pl)"
    by (simp_all add: drafts starts_def collapse_keys_def)
  then have "starts drafts = collapse_keys drafts"
    using pc(2,3) starts none [OF plain(1)] none [OF plain(2)] none [OF plain(3)] by simp
  then show ?thesis by (simp only: starts_def collapse_keys_def)
qed

text \<open>
  Every draft of the log of a transition passes its validation, and the log is sorted
  by time, then by the rank of the type, then by the identifiers.
\<close>

lemma log_valid_and_sorted:
  assumes "\<And>loop xs. mset (order loop xs) = mset xs"
    and "EventsForStateTransition order before after previousAt now cfg = Ok drafts"
  shows "(\<forall>d\<in>set drafts. EventDraft_Validate d = Ok ()) \<and> sorted_wrt (\<lambda>a b. \<not> eventDraftLess b a) drafts"
proof -
  obtain bp ap pe cs ov oe pl where ap: "portalsByID (s_Portals after) = Ok ap"
    and pe: "eventsForPortals bp ap (order PortalLoop (map p_ID (s_Portals after))) previousAt now cfg = Ok (pe, cs)"
    and plain: "plain ov" "plain oe" "plain pl" and drafts: "drafts = sort_key event_key (pe @ ov @ oe @ pl)"
    using log_parts [OF assms(2)] by metis
  have "sorted (map event_key drafts)" unfolding drafts by simp
  then have "sorted_wrt (\<lambda>a b. \<not> eventDraftLess b a) drafts"
    by (simp add: sorted_map eventDraftLess_key not_less)
  then show ?thesis
    using portals_contents(1) [OF ap assms(1) pe] plain by (auto simp: drafts plain_def)
qed

section \<open>Example\<close>

definition demo_lost :: Observer where
  "demo_lost = demo_outbound\<lparr>o_Status := ObserverLost, o_ActivePortalID := None, o_PhaseStartedAt := None,
     o_PhaseEndsAt := None, o_UpdatedAt := Time (50 * Second) True\<rparr>"

definition demo_collapsed :: Portal where
  "demo_collapsed = demo_portal\<lparr>p_Status := PortalStatusCollapsed, p_TerminationReason := TerminationInstability,
     p_ClosedAt := Some (Time (50 * Second) True), p_UpdatedAt := Time (50 * Second) True\<rparr>"

definition demo_before :: SimulationState where
  "demo_before = \<lparr>s_Lab = \<lparr>l_EnergyBase = 50, l_EnergyBaseAt = Time 0 True, l_LeylineOverrideUntil = None\<rparr>, s_Portals = [demo_portal], s_Planes = [demo_plane], s_Observers = [demo_outbound],
     s_NextPortalID = 2, s_NaturalSpawn = \<lparr>n_ScheduledAt = None, n_DueAt = None, n_Paused = True\<rparr>,
     s_LastTickAt = Some (Time 0 True)\<rparr>"

definition demo_after :: SimulationState where
  "demo_after = demo_before\<lparr>s_Portals := [demo_collapsed], s_Observers := [demo_lost]\<rparr>"

definition demo_drafts :: "EventDraft list" where
  "demo_drafts =
    [\<lparr>d_EventType = EventPortalCollapsed, d_PortalID = Some 1, d_ObserverID = None, d_PlaneID = Some 1,
      d_Message = ''Portal collapsed'', d_PayloadJSON = JObject [(''reason'', JString ''INSTABILITY'')],
      d_CreatedAt = Time (50 * Second) True\<rparr>,
     \<lparr>d_EventType = EventLeylineOverrideStarted, d_PortalID = Some 1, d_ObserverID = None, d_PlaneID = Some 1,
      d_Message = ''Leyline Override started'', d_PayloadJSON = JObject [(''until'', JTime (Time (70 * Second) True))],
      d_CreatedAt = Time (50 * Second) True\<rparr>,
     \<lparr>d_EventType = EventObserverLost, d_PortalID = Some 1, d_ObserverID = Some 1, d_PlaneID = Some 1,
      d_Message = ''Observer lost'', d_PayloadJSON = JObject [], d_CreatedAt = Time (50 * Second) True\<rparr>]"

lemma demo_valid_config: "validSimulationConfig Default"
  by (simp add: validSimulationConfig_def Default_def validSpawnDelayConfig_def validExtractionConfig_def)
    (intro conjI; code_simp)

lemma demo_portals: "eventsForPortals [1 \<mapsto> demo_portal] [1 \<mapsto> demo_collapsed] [1] (Time Second True) (Time (60 * Second) True) Default
    = Ok ([demo_drafts ! 0], [\<lparr>pc_portalID = 1, pc_planeID = 1, pc_at = Time (50 * Second) True\<rparr>])"
  by (simp add: eventsForPortals_def eventsForPortal_def terminationEvents_def stabilizedEvents_def synchronizedEvents_def
      riskEvents_def demo_collapsed_def demo_portal_def appendEvent_def makeEvent_def EventDraft_Validate_def
      IsEventType_def blank_def validEventEntityID_def isJSONObject_def demo_drafts_def IsZero_def zeroTime_def)

lemmas draft_simps = appendEvent_def makeEvent_def EventDraft_Validate_def IsEventType_def blank_def
  validEventEntityID_def isJSONObject_def IsZero_def zeroTime_def demo_drafts_def

lemma demo_override: "eventsForOverride (s_Lab demo_before) [\<lparr>pc_portalID = 1, pc_planeID = 1, pc_at = Time (50 * Second) True\<rparr>]
    (Time Second True) (Time (60 * Second) True) Default = Ok [demo_drafts ! 1]"
  by (simp add: eventsForOverride_def demo_before_def draft_simps Default_def Add_def year_ok_def Let_def)

lemma demo_observers: "eventsForObservers [demo_outbound] [demo_lost] [1 \<mapsto> demo_portal] [1 \<mapsto> demo_collapsed] [1]
    (Time (60 * Second) True) Default = Ok [demo_drafts ! 2]"
  by (simp add: eventsForObservers_def observersByID_def byID_def eventsForObserver_def dispatchedEvents_def
      arrivalEvents_def returnStartedEvents_def returnedEvents_def lostEvents_def demo_lost_def demo_outbound_def
      NewObserver_def portalPlaneID_def demo_portal_def draft_simps)

lemma demo_planes: "eventsForPlanes [demo_plane] [demo_plane] = Ok []"
  by (simp add: eventsForPlanes_def planesByID_def byID_def demo_plane_def)

lemma demo_log: "EventsForStateTransition (\<lambda>_ xs. xs) demo_before demo_after (Time Second True) (Time (60 * Second) True) Default
    = Ok demo_drafts"
proof -
  have bp: "portalsByID (s_Portals demo_before) = Ok [1 \<mapsto> demo_portal]"
    and ap: "portalsByID (s_Portals demo_after) = Ok [1 \<mapsto> demo_collapsed]"
    by (simp_all add: portalsByID_def byID_def demo_before_def demo_after_def demo_portal_def demo_collapsed_def)
  have ids: "map p_ID (s_Portals demo_after) = [1]" "map o_ID [demo_lost] = [1]"
    by (simp_all add: demo_before_def demo_after_def demo_collapsed_def demo_portal_def demo_lost_def demo_outbound_def
        NewObserver_def)
  have obs: "s_Observers demo_before = [demo_outbound]" "s_Observers demo_after = [demo_lost]"
    and planes: "s_Planes demo_before = [demo_plane]" "s_Planes demo_after = [demo_plane]"
    by (simp_all add: demo_before_def demo_after_def)
  have "SliceStable eventDraftLess ([demo_drafts ! 0] @ [demo_drafts ! 1] @ [demo_drafts ! 2] @ []) = demo_drafts"
    by (simp add: demo_drafts_def eventDraftLess_def Equal_def Before_def)
  then show ?thesis
    unfolding EventsForStateTransition_def bp ap rbind.simps obs planes ids demo_portals prod.case demo_override
      obs planes demo_observers demo_planes
    using demo_valid_config by (simp add: IsZero_def zeroTime_def Before_def)
qed

lemma log_independent_of_map_order_witness:
  "EventsForStateTransition (\<lambda>_. rev) demo_before demo_after (Time Second True) (Time (60 * Second) True) Default = Ok demo_drafts"
  using log_independent_of_map_order [of "\<lambda>_. rev" "\<lambda>_ xs. xs"] demo_log by simp

lemma terminations_logged_once_witness:
  "\<exists>d. filter (\<lambda>d. (d_EventType d = EventPortalClosed \<or> d_EventType d = EventPortalCollapsed) \<and>
        d_PortalID d = Some 1) demo_drafts = [d] \<and> d_CreatedAt d = Time (50 * Second) True"
  using terminations_logged_once [OF _ demo_log]
  by (auto simp: demo_before_def demo_after_def demo_collapsed_def demo_portal_def)

lemma collapses_start_emergencies_in_log_witness:
  "mset (map (\<lambda>d. (d_PortalID d, d_CreatedAt d)) (filter (\<lambda>d. d_EventType d = EventLeylineOverrideStarted) demo_drafts)) =
    mset (map (\<lambda>d. (d_PortalID d, d_CreatedAt d)) (filter (\<lambda>d. d_EventType d = EventPortalCollapsed) demo_drafts))"
  by (rule collapses_start_emergencies_in_log [OF _ demo_log]) simp

lemma log_valid_and_sorted_witness:
  "map EventDraft_Validate demo_drafts = [Ok (), Ok (), Ok ()] \<and> sorted_wrt (\<lambda>a b. \<not> eventDraftLess b a) demo_drafts"
proof -
  note log_valid_and_sorted [OF _ demo_log]
  then have s: "(\<forall>d\<in>set demo_drafts. EventDraft_Validate d = Ok ()) \<and> sorted_wrt (\<lambda>a b. \<not> eventDraftLess b a) demo_drafts"
    by simp
  then have "map EventDraft_Validate demo_drafts = map (\<lambda>_. Ok ()) demo_drafts" by (intro map_cong) simp_all
  then show ?thesis using s by (simp add: demo_drafts_def)
qed

section \<open>The history of a portal\<close>

lemma PortalHistory_sort:
  "PortalHistory events i = sort_key (\<lambda>e. (ns (e_CreatedAt e), e_ID e)) (filter (\<lambda>e. e_PortalID e = Some i) events)"
  unfolding PortalHistory_def by (rule SliceStable_key) (auto simp: Equal_def Before_def)

text \<open>
  The history of a portal holds exactly the events of that portal, in the order of time
  and then of ID, whatever the order in which the events are given.
\<close>

lemma PortalHistory_canonical:
  assumes "distinct (map e_ID events)" and "mset events' = mset events"
  shows "PortalHistory events' i = PortalHistory events i \<and>
    set (PortalHistory events i) = {e \<in> set events. e_PortalID e = Some i} \<and>
    distinct (PortalHistory events i) \<and>
    sorted_wrt (\<lambda>a b. Before (e_CreatedAt a) (e_CreatedAt b) \<or>
                      Equal (e_CreatedAt a) (e_CreatedAt b) \<and> e_ID a < e_ID b) (PortalHistory events i)"
proof -
  let ?k = "\<lambda>e. (ns (e_CreatedAt e), e_ID e)" and ?P = "\<lambda>e. e_PortalID e = Some i"
  have inj: "inj_on e_ID (set events)" and d: "distinct events"
    using assms(1) by (simp_all add: distinct_map)
  have kinj: "inj_on ?k (set events)" using inj by (auto simp: inj_on_def)
  have "sort_key ?k (filter ?P events) = sort_key ?k (filter ?P events')"
    using assms(2) d kinj by (intro sort_key_inj_perm) (auto intro: inj_on_subset)
  moreover have "sorted_wrt (\<lambda>a b. ?k a < ?k b) (PortalHistory events i)"
  proof -
    have "sorted (map ?k (PortalHistory events i))" by (simp add: PortalHistory_sort)
    moreover have "distinct (map ?k (PortalHistory events i))"
      using d kinj by (auto simp: PortalHistory_sort distinct_map intro: inj_on_subset)
    ultimately have "sorted_wrt (<) (map ?k (PortalHistory events i))" by (simp only: strict_sorted_iff)
    then show ?thesis by (simp only: sorted_wrt_map)
  qed
  then have "sorted_wrt (\<lambda>a b. Before (e_CreatedAt a) (e_CreatedAt b) \<or>
                      Equal (e_CreatedAt a) (e_CreatedAt b) \<and> e_ID a < e_ID b) (PortalHistory events i)"
    by (rule sorted_wrt_mono_rel [rotated]) (auto simp: Before_def Equal_def)
  moreover have "set (PortalHistory events i) = {e \<in> set events. e_PortalID e = Some i}"
    and "distinct (PortalHistory events i)" using d by (auto simp: PortalHistory_sort)
  ultimately show ?thesis unfolding PortalHistory_sort [symmetric] by metis
qed

lemma PortalHistory_canonical_witness:
  "let e = \<lambda>n. \<lparr>e_ID = n, e_EventType = EventPortalOpened, e_PortalID = Some 1, e_ObserverID = None, e_PlaneID = None,
       e_Message = ''Portal opened'', e_PayloadJSON = JObject [], e_CreatedAt = Time Second True\<rparr>
   in PortalHistory [e 2, e 1] 1 = PortalHistory [e 1, e 2] 1"
  unfolding Let_def by (rule PortalHistory_canonical [THEN conjunct1]) simp_all

end
