(* ===== verification/TickProofs.thy ===== *)
theory TickProofs
  imports Simulation EventProofs
begin

text \<open>
  What the stages of a tick do to the aggregate, and the properties of a whole tick: every
  portal and observer is resolved to the instant, whatever the order of the slices, the
  collapses reach the laboratory, at most one portal is spawned and only into a free slot,
  identifiers stay unique, and the log tells what happened.
\<close>

section \<open>Lists of indices\<close>

lemma sortedIndices_sort: "sortedIndices key xs is = sort_key (\<lambda>i. key (xs ! i)) is"
  unfolding sortedIndices_def by (rule SliceStable_key) (rule refl)

lemma mset_sortedIndices [simp]: "mset (sortedIndices key xs is) = mset is"
  by (simp add: sortedIndices_def)

lemma set_sortedIndices [simp]: "set (sortedIndices key xs is) = set is"
  by (simp add: sortedIndices_def)

lemma distinct_sortedIndices [simp]: "distinct (sortedIndices key xs is) \<longleftrightarrow> distinct is"
  by (metis mset_eq_imp_distinct_iff mset_sortedIndices)

lemma indexByID_upto:
  "n \<le> length xs \<Longrightarrow> distinct (map key xs) \<Longrightarrow>
   foldl (\<lambda>m i. m(key (xs ! i) \<mapsto> i)) Map.empty [0..<n] k = Some i \<longleftrightarrow> i < n \<and> key (xs ! i) = k"
proof (induction n)
  case (Suc n)
  then show ?case
    using distinct_map_nth_eq [of key xs n i] by (auto simp: less_Suc_eq)
qed simp

lemma indexByID_Some:
  "distinct (map key xs) \<Longrightarrow> indexByID key xs k = Some i \<longleftrightarrow> i < length xs \<and> key (xs ! i) = k"
  unfolding indexByID_def by (rule indexByID_upto) simp_all

section \<open>The portal stage\<close>

definition resolved :: "time \<Rightarrow> Portal \<Rightarrow> Portal" where
  "resolved now p = snd (Portal_ResolveLifecycle p now)"

definition ends :: "time \<Rightarrow> Portal \<Rightarrow> bool" where
  "ends now p \<longleftrightarrow> fst (Portal_ResolveLifecycle p now)"

definition deadline :: "Portal \<Rightarrow> time" where
  "deadline p = fst (lifecycle_deadline p)"

lemma ends_iff: "ends now p \<longleftrightarrow> p_Status p = PortalStatusOpen \<and> ns (deadline p) \<le> ns now"
  by (auto simp: ends_def deadline_def Portal_ResolveLifecycle_def Portal_IsTerminal_def split: prod.splits)

lemma not_ends_resolved: "\<not> ends now p \<Longrightarrow> resolved now p = p"
  by (metis ends_def resolved_def ResolveLifecycle_unchanged prod.collapse)

lemma resolved_fields [simp]:
  "p_ID (resolved now p) = p_ID p" "p_SlotIndex (resolved now p) = p_SlotIndex p"
  "p_Kind (resolved now p) = p_Kind p" "p_DestinationPlaneID (resolved now p) = p_DestinationPlaneID p"
  "p_OpenedAt (resolved now p) = p_OpenedAt p" "p_ExtractionSynchronizedAt (resolved now p) = p_ExtractionSynchronizedAt p"
  "p_Stability (resolved now p) = p_Stability p"
  by (simp_all add: resolved_def Portal_ResolveLifecycle_def split: prod.split)

lemma ends_resolved:
  assumes "ends now p"
  shows "p_ClosedAt (resolved now p) = Some (deadline p)" and "p_Status (resolved now p) \<noteq> PortalStatusOpen"
    and "p_Status (resolved now p) = fst (snd (lifecycle_deadline p))"
    and "p_TerminationReason (resolved now p) = snd (snd (lifecycle_deadline p))"
proof -
  have "Portal_ResolveLifecycle p now = (True, resolved now p)"
    using assms by (simp add: ends_def resolved_def prod_eq_iff)
  then show "p_ClosedAt (resolved now p) = Some (deadline p)" "p_Status (resolved now p) \<noteq> PortalStatusOpen"
    "p_Status (resolved now p) = fst (snd (lifecycle_deadline p))"
    "p_TerminationReason (resolved now p) = snd (snd (lifecycle_deadline p))"
    by (auto elim!: ResolveLifecycle_changedE simp: deadline_def)
qed

lemma resolved_status_open: "p_Status (resolved now p) = PortalStatusOpen \<longleftrightarrow> p_Status p = PortalStatusOpen \<and> ns now < ns (deadline p)"
  using ends_resolved(2) [of now p] not_ends_resolved [of now p] ends_iff [of now p] by (cases "ends now p") auto

definition transition_of :: "Portal list \<Rightarrow> nat \<Rightarrow> portalLifecycleTransition" where
  "transition_of ps i = \<lparr>tr_index = i, tr_portalID = p_ID (ps ! i), tr_closedAt = deadline (ps ! i)\<rparr>"

lemma portalTransitions_Ok:
  "portalTransitions ps now = Ok (map (transition_of ps) (filter (\<lambda>i. ends now (ps ! i)) [0..<length ps]))"
proof -
  let ?f = "\<lambda>transitions i.
         case Portal_ResolveLifecycle (ps ! i) now of (changed, candidate) \<Rightarrow>
           if \<not> changed then Ok transitions
           else (case p_ClosedAt candidate of
                   None \<Rightarrow> Fail ErrSimulationInvariant
                 | Some closedAt \<Rightarrow>
                     Ok (transitions @ [\<lparr>tr_index = i, tr_portalID = p_ID candidate, tr_closedAt = closedAt\<rparr>]))"
  have step: "?f acc i = Ok (acc @ (if ends now (ps ! i) then [transition_of ps i] else []))" for acc i
  proof -
    have "Portal_ResolveLifecycle (ps ! i) now = (ends now (ps ! i), resolved now (ps ! i))"
      by (simp add: ends_def resolved_def)
    then show ?thesis using ends_resolved(1) [of now "ps ! i"] by (simp add: transition_of_def)
  qed
  have "foldM ?f acc xs = Ok (acc @ map (transition_of ps) (filter (\<lambda>i. ends now (ps ! i)) xs))" for acc xs
    by (induction xs arbitrary: acc) (simp_all add: step del: prod.case)
  then show ?thesis by (simp add: portalTransitions_def)
qed

text \<open>The laboratory after the collapses at the given moments, in order.\<close>

definition after_collapses :: "Config \<Rightarrow> LabState \<Rightarrow> time list \<Rightarrow> LabState" where
  "after_collapses cfg lab cs =
     (if cs = [] then lab
      else lab\<lparr>l_EnergyBase := 0, l_EnergyBaseAt := last cs,
               l_LeylineOverrideUntil := Some (Add (last cs) (EmergencyDuration cfg))\<rparr>)"

definition collapses_now :: "time \<Rightarrow> Portal \<Rightarrow> bool" where
  "collapses_now now p \<longleftrightarrow> ends now p \<and> p_Status (resolved now p) = PortalStatusCollapsed"

definition same_but_portals :: "SimulationState \<Rightarrow> SimulationState \<Rightarrow> bool" where
  "same_but_portals st st' \<longleftrightarrow> s_Planes st' = s_Planes st \<and> s_Observers st' = s_Observers st \<and>
     s_NextPortalID st' = s_NextPortalID st \<and> s_NaturalSpawn st' = s_NaturalSpawn st \<and> s_LastTickAt st' = s_LastTickAt st"

lemma portal_loop:
  assumes "foldM (\<lambda>st tr.
           rbind (ResolvePortalLifecycleWithLabEmergency (s_Lab st) (s_Portals st ! tr_index tr) now cfg)
             (\<lambda>(_, lab, portal).
                Ok (st\<lparr>s_Lab := lab, s_Portals := (s_Portals st)[tr_index tr := portal]\<rparr>))) st trs = Ok st'"
    and "distinct (map tr_index trs)" and "\<forall>tr\<in>set trs. tr_index tr < length (s_Portals st)"
  shows "length (s_Portals st') = length (s_Portals st)"
    and "i < length (s_Portals st) \<Longrightarrow>
      s_Portals st' ! i = (if i \<in> tr_index ` set trs then resolved now (s_Portals st ! i) else s_Portals st ! i)"
    and "s_Lab st' = after_collapses cfg (s_Lab st)
      (map (\<lambda>tr. deadline (s_Portals st ! tr_index tr)) (filter (\<lambda>tr. collapses_now now (s_Portals st ! tr_index tr)) trs))"
    and "same_but_portals st st'"
proof -
  let ?f = "\<lambda>st tr.
           rbind (ResolvePortalLifecycleWithLabEmergency (s_Lab st) (s_Portals st ! tr_index tr) now cfg)
             (\<lambda>(_, lab, portal).
                Ok (st\<lparr>s_Lab := lab, s_Portals := (s_Portals st)[tr_index tr := portal]\<rparr>))"
  let ?P = "\<lambda>st st' trs. length (s_Portals st') = length (s_Portals st) \<and>
    (\<forall>i<length (s_Portals st).
      s_Portals st' ! i = (if i \<in> tr_index ` set trs then resolved now (s_Portals st ! i) else s_Portals st ! i)) \<and>
    s_Lab st' = after_collapses cfg (s_Lab st)
      (map (\<lambda>tr. deadline (s_Portals st ! tr_index tr)) (filter (\<lambda>tr. collapses_now now (s_Portals st ! tr_index tr)) trs)) \<and>
    same_but_portals st st'"
  have "?P st st' trs"
    using assms
  proof (induction trs arbitrary: st)
    case Nil
    then show ?case by (simp add: after_collapses_def same_but_portals_def)
  next
    case (Cons tr trs)
    let ?p = "s_Portals st ! tr_index tr"
    obtain ch lab p where r: "ResolvePortalLifecycleWithLabEmergency (s_Lab st) ?p now cfg = Ok (ch, lab, p)"
      and rest: "foldM ?f (st\<lparr>s_Lab := lab, s_Portals := (s_Portals st)[tr_index tr := p]\<rparr>) trs = Ok st'"
      using Cons.prems(1) by auto
    let ?st = "st\<lparr>s_Lab := lab, s_Portals := (s_Portals st)[tr_index tr := p]\<rparr>"
    have n: "tr_index tr < length (s_Portals st)" and fresh: "tr_index tr \<notin> tr_index ` set trs"
      using Cons.prems(2,3) by auto
    have ih: "?P ?st st' trs"
      using Cons.IH [OF rest] Cons.prems(2,3) by simp
    have p: "p = resolved now ?p" and ch: "ch = ends now ?p"
      using r by (auto elim!: ResolveWithEmergency_OkE simp: resolved_def ends_def)
    have lab: "lab = after_collapses cfg (s_Lab st) (if collapses_now now ?p then [deadline ?p] else [])"
      using r
    proof (rule ResolveWithEmergency_OkE)
      assume "if ch \<and> p_Status p = PortalStatusCollapsed
        then \<exists>c. p_ClosedAt p = Some c \<and> ActivateLeylineOverride (s_Lab st) c cfg = Ok lab else lab = s_Lab st"
      then show ?thesis
        using ends_resolved(1) [of now ?p]
        by (auto simp: p ch collapses_now_def after_collapses_def elim!: ActivateLeylineOverride_OkE split: if_splits)
    qed
    have same: "(s_Portals st)[tr_index tr := p] ! tr_index t = s_Portals st ! tr_index t" if "t \<in> set trs" for t
      using fresh that by (metis imageI nth_list_update_neq)
    have flt: "filter (\<lambda>t. collapses_now now (s_Portals ?st ! tr_index t)) trs =
        filter (\<lambda>t. collapses_now now (s_Portals st ! tr_index t)) trs"
      by (rule filter_cong) (simp_all add: same)
    have ms: "map (\<lambda>t. deadline (s_Portals ?st ! tr_index t)) (filter (\<lambda>t. collapses_now now (s_Portals st ! tr_index t)) trs) =
        map (\<lambda>t. deadline (s_Portals st ! tr_index t)) (filter (\<lambda>t. collapses_now now (s_Portals st ! tr_index t)) trs)"
      by (rule map_cong) (simp_all add: same)
    show ?case
    proof (intro conjI allI impI)
      show "length (s_Portals st') = length (s_Portals st)" using ih by simp
      show "s_Portals st' ! i = (if i \<in> tr_index ` set (tr # trs) then resolved now (s_Portals st ! i) else s_Portals st ! i)"
        if "i < length (s_Portals st)" for i
        using ih that n fresh p by (auto simp: nth_list_update)
      show "s_Lab st' = after_collapses cfg (s_Lab st) (map (\<lambda>tr. deadline (s_Portals st ! tr_index tr))
          (filter (\<lambda>tr. collapses_now now (s_Portals st ! tr_index tr)) (tr # trs)))"
        using ih unfolding flt ms by (auto simp: lab after_collapses_def)
      show "same_but_portals st st'"
        using ih by (simp add: same_but_portals_def)
    qed
  qed
  then show "length (s_Portals st') = length (s_Portals st)"
    "i < length (s_Portals st) \<Longrightarrow>
      s_Portals st' ! i = (if i \<in> tr_index ` set trs then resolved now (s_Portals st ! i) else s_Portals st ! i)"
    "s_Lab st' = after_collapses cfg (s_Lab st)
      (map (\<lambda>tr. deadline (s_Portals st ! tr_index tr)) (filter (\<lambda>tr. collapses_now now (s_Portals st ! tr_index tr)) trs))"
    "same_but_portals st st'" by blast+
qed

lemma transitionBefore_key: "SliceStable transitionBefore trs = sort_key (\<lambda>tr. (ns (tr_closedAt tr), tr_portalID tr)) trs"
  by (rule SliceStable_key) (auto simp: transitionBefore_def Equal_def Before_def)

lemma last_sorted_key:
  assumes "sorted (map k xs)" and "x \<in> set xs"
  shows "k x \<le> (k (last xs) :: 'k :: linorder)"
proof -
  have "xs \<noteq> []" using assms(2) by auto
  then have xs: "xs = butlast xs @ [last xs]" by simp
  then have "sorted (map k (butlast xs @ [last xs]))" using assms(1) by simp
  then have "\<forall>y\<in>set (butlast xs). k y \<le> k (last xs)" by (simp add: sorted_append)
  then show ?thesis using assms(2) xs by (metis UnE empty_iff empty_set list.set_intros(1) order_refl set_ConsD set_append)
qed

lemma portal_stage:
  assumes "resolvePortalStage st now cfg = Ok st'"
  shows "s_Portals st' = map (resolved now) (s_Portals st)" and "same_but_portals st st'"
    and "if \<exists>p\<in>set (s_Portals st). collapses_now now p
         then \<exists>p\<in>set (s_Portals st). collapses_now now p \<and>
                (\<forall>q\<in>set (s_Portals st). collapses_now now q \<longrightarrow> ns (deadline q) \<le> ns (deadline p)) \<and>
                s_Lab st' = (s_Lab st)\<lparr>l_EnergyBase := 0, l_EnergyBaseAt := deadline p,
                  l_LeylineOverrideUntil := Some (Add (deadline p) (EmergencyDuration cfg))\<rparr>
         else s_Lab st' = s_Lab st"
proof -
  let ?ps = "s_Portals st"
  let ?is = "filter (\<lambda>i. ends now (?ps ! i)) [0..<length ?ps]"
  define trs where "trs = SliceStable transitionBefore (map (transition_of ?ps) ?is)"
  have loop: "foldM (\<lambda>st tr.
           rbind (ResolvePortalLifecycleWithLabEmergency (s_Lab st) (s_Portals st ! tr_index tr) now cfg)
             (\<lambda>(_, lab, portal).
                Ok (st\<lparr>s_Lab := lab, s_Portals := (s_Portals st)[tr_index tr := portal]\<rparr>))) st trs = Ok st'"
    using assms by (simp add: resolvePortalStage_def portalTransitions_Ok trs_def)
  have tr: "tr \<in> set trs \<longleftrightarrow> (\<exists>i<length ?ps. ends now (?ps ! i) \<and> tr = transition_of ?ps i)" for tr
    by (auto simp: trs_def)
  have "mset (map tr_index trs) = mset (map tr_index (map (transition_of ?ps) ?is))"
    by (simp only: trs_def mset_SliceStable mset_map)
  moreover have "map tr_index (map (transition_of ?ps) ?is) = ?is" by (simp add: transition_of_def comp_def)
  ultimately have d: "distinct (map tr_index trs)"
    by (metis (no_types, lifting) distinct_filter distinct_upt mset_eq_imp_distinct_iff)
  have bounds: "\<forall>tr\<in>set trs. tr_index tr < length ?ps" by (auto simp: tr transition_of_def)
  have idx: "i \<in> tr_index ` set trs \<longleftrightarrow> i < length ?ps \<and> ends now (?ps ! i)" for i
    by (force simp: tr transition_of_def image_iff)
  note L = portal_loop [OF loop d bounds]
  show "s_Portals st' = map (resolved now) ?ps"
    using L(1,2) idx not_ends_resolved by (auto intro!: nth_equalityI)
  show "same_but_portals st st'" using L(4) .
  define cs where "cs = filter (\<lambda>tr. collapses_now now (?ps ! tr_index tr)) trs"
  have lab: "s_Lab st' = after_collapses cfg (s_Lab st) (map (\<lambda>tr. deadline (?ps ! tr_index tr)) cs)"
    using L(3) by (simp add: cs_def)
  have cs_mem: "(\<exists>t\<in>set cs. ?ps ! tr_index t = p) \<longleftrightarrow> p \<in> set ?ps \<and> collapses_now now p" for p
  proof
    assume "\<exists>t\<in>set cs. ?ps ! tr_index t = p"
    then show "p \<in> set ?ps \<and> collapses_now now p" by (auto simp: cs_def tr transition_of_def)
  next
    assume p: "p \<in> set ?ps \<and> collapses_now now p"
    then obtain i where i: "i < length ?ps" "?ps ! i = p" by (auto simp: in_set_conv_nth)
    then have "transition_of ?ps i \<in> set cs" using p unfolding cs_def set_filter mem_Collect_eq tr
      by (auto simp: collapses_now_def transition_of_def)
    then show "\<exists>t\<in>set cs. ?ps ! tr_index t = p" using i by (force simp: transition_of_def)
  qed
  have closed: "tr_closedAt t = deadline (?ps ! tr_index t)" if "t \<in> set cs" for t
    using that by (auto simp: cs_def tr transition_of_def)
  show "if \<exists>p\<in>set ?ps. collapses_now now p
         then \<exists>p\<in>set ?ps. collapses_now now p \<and>
                (\<forall>q\<in>set ?ps. collapses_now now q \<longrightarrow> ns (deadline q) \<le> ns (deadline p)) \<and>
                s_Lab st' = (s_Lab st)\<lparr>l_EnergyBase := 0, l_EnergyBaseAt := deadline p,
                  l_LeylineOverrideUntil := Some (Add (deadline p) (EmergencyDuration cfg))\<rparr>
         else s_Lab st' = s_Lab st"
  proof (cases "cs = []")
    case True
    then have "\<not> (\<exists>p\<in>set ?ps. collapses_now now p)" using cs_mem by simp
    then show ?thesis using lab True by (simp add: after_collapses_def)
  next
    case False
    let ?p = "?ps ! tr_index (last cs)"
    have p: "?p \<in> set ?ps \<and> collapses_now now ?p" using cs_mem [of ?p] False last_in_set by blast
    have "sorted (map (\<lambda>tr. (ns (tr_closedAt tr), tr_portalID tr)) trs)"
      unfolding trs_def transitionBefore_key by simp
    then have "sorted (map (\<lambda>tr. (ns (tr_closedAt tr), tr_portalID tr)) cs)"
      unfolding cs_def by (rule sorted_filter)
    then have mx: "ns (tr_closedAt t) \<le> ns (tr_closedAt (last cs))" if "t \<in> set cs" for t
      using last_sorted_key [OF _ that] by fastforce
    have "ns (deadline q) \<le> ns (deadline ?p)" if q: "q \<in> set ?ps" "collapses_now now q" for q
    proof -
      obtain t where t: "t \<in> set cs" "?ps ! tr_index t = q" using cs_mem [of q] q by blast
      then show ?thesis using mx [OF t(1)] closed [OF t(1)] closed [of "last cs"] False by simp
    qed
    moreover have "s_Lab st' = (s_Lab st)\<lparr>l_EnergyBase := 0, l_EnergyBaseAt := deadline ?p,
        l_LeylineOverrideUntil := Some (Add (deadline ?p) (EmergencyDuration cfg))\<rparr>"
      using lab False by (simp add: after_collapses_def last_map)
    ultimately show ?thesis using p by auto
  qed
qed

text \<open>The stage succeeds when no collapse is older than the energy baseline of the laboratory.\<close>

definition lab_ready :: "Config \<Rightarrow> LabState \<Rightarrow> time \<Rightarrow> bool" where
  "lab_ready cfg lab t \<longleftrightarrow> lab_valid cfg lab \<and> ns (l_EnergyBaseAt lab) \<le> ns t"

lemma emergency_Ok:
  assumes "lab_ready cfg lab now" and "lab_config_ok cfg" and "0 < EmergencyDuration cfg"
    and "collapses_now now p \<Longrightarrow> ns (l_EnergyBaseAt lab) \<le> ns (deadline p)"
  obtains ch lab' where "ResolvePortalLifecycleWithLabEmergency lab p now cfg = Ok (ch, lab', resolved now p)"
    and "lab_ready cfg lab' now"
    and "l_EnergyBaseAt lab' = l_EnergyBaseAt lab \<or> l_EnergyBaseAt lab' = deadline p"
proof -
  have prep: "\<exists>r. prepareLabEnergySpend lab now 0 cfg = Ok r"
    using assms(1,2) prepareLabEnergySpend_zero [of cfg lab now] by (simp add: lab_ready_def)
  have r: "Portal_ResolveLifecycle p now = (ends now p, resolved now p)" by (simp add: ends_def resolved_def)
  show thesis
  proof (cases "collapses_now now p")
    case True
    then have "p_ClosedAt (resolved now p) = Some (deadline p)" "ns (deadline p) \<le> ns now"
      using ends_resolved(1) [of now p] by (simp_all add: collapses_now_def ends_iff)
    moreover have "ActivateLeylineOverride lab (deadline p) cfg = Ok (lab\<lparr>l_EnergyBase := 0,
        l_EnergyBaseAt := deadline p, l_LeylineOverrideUntil := Some (Add (deadline p) (EmergencyDuration cfg))\<rparr>)"
      using assms True by (auto simp: ActivateLeylineOverride_def lab_ready_def lab_valid_def)
    moreover have "0 \<le> LabEnergyMax cfg" using assms(1) by (auto simp: lab_ready_def lab_valid_def)
    ultimately show ?thesis
      using prep True r assms
      by (intro that [of True]) (auto simp: ResolvePortalLifecycleWithLabEmergency_def collapses_now_def lab_ready_def lab_valid_def)
  next
    case False
    then show ?thesis
      using prep r assms(1) not_ends_resolved [of now p]
      by (intro that [of "ends now p" lab]) (auto simp: ResolvePortalLifecycleWithLabEmergency_def collapses_now_def)
  qed
qed

lemma portal_loop_Ok:
  assumes "lab_ready cfg (s_Lab st) now" and "lab_config_ok cfg" and "0 < EmergencyDuration cfg"
    and "distinct (map tr_index trs)" and "\<forall>tr\<in>set trs. tr_index tr < length (s_Portals st)"
    and "sorted (map (\<lambda>tr. ns (deadline (s_Portals st ! tr_index tr))) trs)"
    and "\<forall>tr\<in>set trs. ns (l_EnergyBaseAt (s_Lab st)) \<le> ns (deadline (s_Portals st ! tr_index tr))"
  shows "\<exists>st'. foldM (\<lambda>st tr.
           rbind (ResolvePortalLifecycleWithLabEmergency (s_Lab st) (s_Portals st ! tr_index tr) now cfg)
             (\<lambda>(_, lab, portal).
                Ok (st\<lparr>s_Lab := lab, s_Portals := (s_Portals st)[tr_index tr := portal]\<rparr>))) st trs = Ok st' \<and>
         lab_ready cfg (s_Lab st') now"
  using assms
proof (induction trs arbitrary: st)
  case (Cons tr trs)
  let ?p = "s_Portals st ! tr_index tr"
  have le: "ns (l_EnergyBaseAt (s_Lab st)) \<le> ns (deadline ?p)" using Cons.prems(7) by simp
  obtain ch lab where r: "ResolvePortalLifecycleWithLabEmergency (s_Lab st) ?p now cfg = Ok (ch, lab, resolved now ?p)"
    and lab: "lab_ready cfg lab now" "l_EnergyBaseAt lab = l_EnergyBaseAt (s_Lab st) \<or> l_EnergyBaseAt lab = deadline ?p"
    using emergency_Ok [OF Cons.prems(1-3) le] by metis
  let ?st = "st\<lparr>s_Lab := lab, s_Portals := (s_Portals st)[tr_index tr := resolved now ?p]\<rparr>"
  have same: "s_Portals ?st ! tr_index t = s_Portals st ! tr_index t" if "t \<in> set trs" for t
  proof -
    have "tr_index t \<in> tr_index ` set trs" using that by simp
    then have "tr_index t \<noteq> tr_index tr" using Cons.prems(4) by auto
    then show ?thesis by simp
  qed
  have meq: "map (\<lambda>t. ns (deadline (s_Portals ?st ! tr_index t))) trs = map (\<lambda>t. ns (deadline (s_Portals st ! tr_index t))) trs"
    by (rule map_cong) (simp_all only: same)
  have sorted: "sorted (map (\<lambda>t. ns (deadline (s_Portals ?st ! tr_index t))) trs)"
    unfolding meq using Cons.prems(6) by simp
  have "\<forall>t\<in>set trs. ns (l_EnergyBaseAt (s_Lab ?st)) \<le> ns (deadline (s_Portals ?st ! tr_index t))"
  proof
    fix t assume t: "t \<in> set trs"
    show "ns (l_EnergyBaseAt (s_Lab ?st)) \<le> ns (deadline (s_Portals ?st ! tr_index t))"
      unfolding same [OF t] using lab(2) Cons.prems(6,7) t by auto
  qed
  from Cons.IH [OF _ Cons.prems(2,3) _ _ sorted this] show ?case
    using lab(1) Cons.prems(4,5) r by simp
qed simp

lemma portal_stage_Ok:
  assumes "lab_ready cfg (s_Lab st) now" and "lab_config_ok cfg" and "0 < EmergencyDuration cfg"
    and "\<forall>p\<in>set (s_Portals st). ends now p \<longrightarrow> ns (l_EnergyBaseAt (s_Lab st)) \<le> ns (deadline p)"
  shows "\<exists>st'. resolvePortalStage st now cfg = Ok st' \<and> lab_ready cfg (s_Lab st') now"
proof -
  let ?ps = "s_Portals st"
  define trs where "trs = SliceStable transitionBefore (map (transition_of ?ps) (filter (\<lambda>i. ends now (?ps ! i)) [0..<length ?ps]))"
  have tr: "tr \<in> set trs \<longleftrightarrow> (\<exists>i<length ?ps. ends now (?ps ! i) \<and> tr = transition_of ?ps i)" for tr
    by (auto simp: trs_def)
  have "mset (map tr_index trs) = mset (map tr_index (map (transition_of ?ps) (filter (\<lambda>i. ends now (?ps ! i)) [0..<length ?ps])))"
    by (simp only: trs_def mset_SliceStable mset_map)
  moreover have "map tr_index (map (transition_of ?ps) xs) = xs" for xs by (simp add: transition_of_def comp_def)
  ultimately have d: "distinct (map tr_index trs)"
    by (metis (no_types, lifting) distinct_filter distinct_upt mset_eq_imp_distinct_iff)
  have "sorted (map (\<lambda>tr. (ns (tr_closedAt tr), tr_portalID tr)) trs)"
    unfolding trs_def transitionBefore_key by simp
  then have "sorted (map (\<lambda>tr. ns (tr_closedAt tr)) trs)"
    unfolding sorted_map by (rule sorted_wrt_mono_rel [rotated]) auto
  moreover have "map (\<lambda>tr. ns (tr_closedAt tr)) trs = map (\<lambda>tr. ns (deadline (?ps ! tr_index tr))) trs"
    by (rule map_cong) (auto simp: tr transition_of_def)
  ultimately have sorted: "sorted (map (\<lambda>tr. ns (deadline (?ps ! tr_index tr))) trs)" by simp
  have bounds: "\<forall>tr\<in>set trs. tr_index tr < length ?ps"
    and base: "\<forall>tr\<in>set trs. ns (l_EnergyBaseAt (s_Lab st)) \<le> ns (deadline (?ps ! tr_index tr))"
    using assms(4) by (auto simp: tr transition_of_def)
  show ?thesis
    using portal_loop_Ok [OF assms(1-3) d bounds sorted base]
    by (simp add: resolvePortalStage_def portalTransitions_Ok flip: trs_def)
qed

text \<open>
  The portal stage resolves every portal to the instant of the tick, whatever the order
  of the slice, and changes nothing else but the laboratory.  When portals collapse, the
  laboratory is left with no energy at the latest of the collapse moments, and its
  emergency runs for the configured duration from that moment; otherwise it is unchanged.
\<close>

theorem portal_stage_effect:
  assumes "resolvePortalStage st now cfg = Ok st'"
  shows "s_Portals st' = map (\<lambda>p. snd (Portal_ResolveLifecycle p now)) (s_Portals st) \<and>
    s_Planes st' = s_Planes st \<and> s_Observers st' = s_Observers st \<and> s_NextPortalID st' = s_NextPortalID st \<and>
    s_NaturalSpawn st' = s_NaturalSpawn st \<and> s_LastTickAt st' = s_LastTickAt st \<and>
    (let moments = {t. \<exists>p\<in>set (s_Portals st). \<exists>q. Portal_ResolveLifecycle p now = (True, q) \<and>
                      p_Status q = PortalStatusCollapsed \<and> p_ClosedAt q = Some t}
     in if moments = {} then s_Lab st' = s_Lab st
        else \<exists>t\<in>moments. (\<forall>u\<in>moments. ns u \<le> ns t) \<and>
               s_Lab st' = (s_Lab st)\<lparr>l_EnergyBase := 0, l_EnergyBaseAt := t,
                 l_LeylineOverrideUntil := Some (Add t (EmergencyDuration cfg))\<rparr>)"
proof -
  note P = portal_stage [OF assms]
  have r: "Portal_ResolveLifecycle p now = (True, q) \<longleftrightarrow> ends now p \<and> q = resolved now p" for p q
    by (auto simp: ends_def resolved_def prod_eq_iff)
  have m: "{t. \<exists>p\<in>set (s_Portals st). \<exists>q. Portal_ResolveLifecycle p now = (True, q) \<and>
      p_Status q = PortalStatusCollapsed \<and> p_ClosedAt q = Some t} =
      deadline ` {p \<in> set (s_Portals st). collapses_now now p}"
    unfolding r using ends_resolved(1) [of now] by (auto simp: collapses_now_def image_iff)
  show ?thesis
    using P(1,2) P(3) unfolding m Let_def resolved_def [symmetric] same_but_portals_def
    by (auto split: if_splits)
qed

lemma demo_portal_deadline: "deadline demo_portal = Time (50 * Second) True"
  "snd (lifecycle_deadline demo_portal) = (PortalStatusCollapsed, TerminationInstability)"
  by (simp add: deadline_def lifecycle_deadline_def demo_portal_depletes, simp add: demo_portal_def)
    (simp add: deadline_def lifecycle_deadline_def demo_portal_depletes, simp add: demo_portal_def)

text \<open>
  The portal stage succeeds on a valid laboratory whose energy baseline is not later
  than any termination the tick resolves, and leaves the laboratory valid.
\<close>

theorem portal_stage_succeeds:
  assumes "lab_valid cfg (s_Lab st)" and "ns (l_EnergyBaseAt (s_Lab st)) \<le> ns now"
    and "lab_config_ok cfg" and "0 < EmergencyDuration cfg"
    and "\<forall>p\<in>set (s_Portals st). p_Status p = PortalStatusOpen \<longrightarrow>
      ns (l_EnergyBaseAt (s_Lab st)) \<le> ns (fst (lifecycle_deadline p))"
  shows "\<exists>st'. resolvePortalStage st now cfg = Ok st' \<and> lab_valid cfg (s_Lab st') \<and>
    ns (l_EnergyBaseAt (s_Lab st')) \<le> ns now"
  using portal_stage_Ok [of cfg st now] assms by (auto simp: lab_ready_def ends_iff deadline_def)

lemma demo_stage_ready: "lab_valid Default (s_Lab demo_before)" "ns (l_EnergyBaseAt (s_Lab demo_before)) = 0"
  "s_Portals demo_before = [demo_portal]" "0 < EmergencyDuration Default"
  by (simp_all add: demo_before_def lab_valid_def Default_def)

theorem portal_stage_succeeds_witness:
  "\<exists>st'. resolvePortalStage demo_before (Time (60 * Second) True) Default = Ok st' \<and> lab_valid Default (s_Lab st')"
  using portal_stage_succeeds [of Default demo_before "Time (60 * Second) True"] demo_stage_ready demo_portal_deadline(1)
  by (auto simp: deadline_def)

theorem portal_stage_effect_witness:
  "\<exists>st'. resolvePortalStage demo_before (Time (60 * Second) True) Default = Ok st' \<and>
     l_EnergyBaseAt (s_Lab st') = Time (50 * Second) True \<and> l_EnergyBase (s_Lab st') = 0"
proof -
  have base: "ns (l_EnergyBaseAt (s_Lab demo_before)) \<le> ns (Time (60 * Second) True)"
    and early: "\<forall>p\<in>set (s_Portals demo_before). ends (Time (60 * Second) True) p \<longrightarrow>
      ns (l_EnergyBaseAt (s_Lab demo_before)) \<le> ns (deadline p)"
    using demo_stage_ready demo_portal_deadline by simp_all
  obtain st' where st': "resolvePortalStage demo_before (Time (60 * Second) True) Default = Ok st'"
    using portal_stage_Ok [of Default demo_before "Time (60 * Second) True"] demo_stage_ready base early
    by (auto simp: lab_ready_def)
  have "Portal_ResolveLifecycle demo_portal (Time (60 * Second) True) = (True, demo_portal\<lparr>p_Status := PortalStatusCollapsed,
      p_TerminationReason := TerminationInstability, p_ClosedAt := Some (Time (50 * Second) True),
      p_UpdatedAt := Time (60 * Second) True\<rparr>)"
    using demo_portal_deadline by (simp add: Portal_ResolveLifecycle_def Portal_IsTerminal_def deadline_def prod_eq_iff
        split: prod.split) (simp add: demo_portal_def)
  then have m: "{t. \<exists>p\<in>set (s_Portals demo_before). \<exists>q. Portal_ResolveLifecycle p (Time (60 * Second) True) = (True, q) \<and>
      p_Status q = PortalStatusCollapsed \<and> p_ClosedAt q = Some t} = {Time (50 * Second) True}"
    using demo_stage_ready(3) by auto
  from portal_stage_effect [OF st'] have "s_Lab st' = (s_Lab demo_before)\<lparr>l_EnergyBase := 0,
      l_EnergyBaseAt := Time (50 * Second) True,
      l_LeylineOverrideUntil := Some (Add (Time (50 * Second) True) (EmergencyDuration Default))\<rparr>"
    unfolding m by simp
  then show ?thesis using st' by simp
qed

end
