(* ===== verification/ObserverStage.thy ===== *)
theory ObserverStage
  imports TickProofs
begin

text \<open>
  The observer stage of a tick: each observer is resolved on its own, whatever the order of
  the slice, and an unexplored plane becomes explored at the earliest return of the tick.
\<close>

section \<open>One observer\<close>

lemma transitFailure_keeps:
  "resolveObserverTransitFailure ob pt now = Ok (failed, ob') \<Longrightarrow>
   o_ID ob' = o_ID ob \<and> o_CreatedAt ob' = o_CreatedAt ob \<and> (failed \<longrightarrow> o_Status ob' = ObserverLost)"
  by (auto elim!: transitFailure_cases)

definition plane_step :: "Observer \<Rightarrow> Plane option \<Rightarrow> Observer \<Rightarrow> Plane option \<Rightarrow> bool" where
  "plane_step ob plane ob' plane' \<longleftrightarrow>
     (if o_Status ob = ObserverReturning \<and> o_Status ob' = ObserverAvailable
      then \<exists>pl e. plane = Some pl \<and> o_PhaseEndsAt ob = Some e \<and> o_CurrentPlaneID ob = Some (pl_ID pl) \<and>
             plane' = Some (markExplored pl e)
      else plane' = plane)"

lemma Once_returning_step:
  assumes "resolveObserverReturning ob plane portal now = Ok (ob', plane')" and "o_Status ob = ObserverReturning"
  shows "o_ID ob' = o_ID ob \<and> o_CreatedAt ob' = o_CreatedAt ob \<and> plane_step ob plane ob' plane'"
proof -
  obtain plid pid s e pl pt where f: "o_CurrentPlaneID ob = Some plid" "o_ActivePortalID ob = Some pid"
    "o_PhaseStartedAt ob = Some s" "o_PhaseEndsAt ob = Some e" "plane = Some pl" "portal = Some pt"
    and ids: "\<not> (plid \<noteq> pl_ID pl \<or> pid \<noteq> p_ID pt \<or> pl_ID pl \<noteq> p_DestinationPlaneID pt)"
    using assms by (auto simp: resolveObserverReturning_def split: option.splits if_splits)
  then obtain failed ob1 where t: "resolveObserverTransitFailure ob pt now = Ok (failed, ob1)"
    using assms by (auto simp: resolveObserverReturning_def)
  show ?thesis
    using assms f ids t transitFailure_keeps [OF t]
    by (cases failed) (auto simp: resolveObserverReturning_def plane_step_def split: if_splits)
qed

lemma Once_step:
  assumes "resolveObserverLifecycleOnce ob plane portal now cfg = Ok (ob', plane')"
  shows "o_ID ob' = o_ID ob \<and> o_CreatedAt ob' = o_CreatedAt ob \<and> plane_step ob plane ob' plane'"
proof (cases "o_Status ob")
  case ObserverOutbound
  then have r: "resolveObserverOutbound ob plane portal now cfg = Ok (ob', plane')"
    using assms by (simp add: resolveObserverLifecycleOnce_def)
  obtain pid s e pl pt where f: "o_ActivePortalID ob = Some pid" "o_PhaseStartedAt ob = Some s"
    "o_PhaseEndsAt ob = Some e" "plane = Some pl" "portal = Some pt"
    and ids: "\<not> (pid \<noteq> p_ID pt \<or> pl_ID pl \<noteq> p_DestinationPlaneID pt)"
    using r by (auto simp: resolveObserverOutbound_def split: option.splits if_splits)
  then obtain failed ob1 where t: "resolveObserverTransitFailure ob pt now = Ok (failed, ob1)"
    using r by (auto simp: resolveObserverOutbound_def)
  show ?thesis
    using r f ids t transitFailure_keeps [OF t] ObserverOutbound
    by (cases failed) (auto simp: resolveObserverOutbound_def plane_step_def split: if_splits)
next
  case ObserverReturning
  then show ?thesis using assms Once_returning_step by (simp add: resolveObserverLifecycleOnce_def)
next
  case ObserverExploring
  then show ?thesis
    using assms by (auto simp: resolveObserverLifecycleOnce_def resolveObserverResearch_def plane_step_def
        split: option.splits if_splits)
qed (use assms in \<open>auto simp: resolveObserverLifecycleOnce_def plane_step_def split: if_splits\<close>)

lemma Once_from_returning:
  assumes "resolveObserverLifecycleOnce ob plane portal now cfg = Ok (ob', plane')"
    and "o_Status ob = ObserverReturning" and "o_Status ob' \<noteq> ObserverReturning"
  shows "o_Status ob' = ObserverAvailable \<or> o_Status ob' = ObserverLost"
  using Returning_cases [of ob plane portal now ob' plane'] assms by (auto simp: resolveObserverLifecycleOnce_def)

lemma Once_not_to_returning:
  assumes "resolveObserverLifecycleOnce ob plane portal now cfg = Ok (ob', plane')"
    and "o_Status ob \<noteq> ObserverReturning"
  shows "o_Status ob' \<noteq> ObserverReturning" and "o_Status ob \<noteq> ObserverAvailable \<Longrightarrow> o_Status ob' \<noteq> ObserverAvailable"
  using assms Outbound_cases [of ob plane portal now cfg ob' plane'] Research_cases [of ob plane now ob' plane']
  by (cases "o_Status ob"; auto simp: resolveObserverLifecycleOnce_def split: if_splits)+

lemma Lifecycle_plane_step:
  assumes "ResolveObserverLifecycle ob plane portal now cfg = ((ob', plane'), Ok ())"
  shows "o_ID ob' = o_ID ob \<and> o_CreatedAt ob' = o_CreatedAt ob \<and> plane_step ob plane ob' plane' \<and>
    (o_Status ob \<noteq> ObserverReturning \<and> o_Status ob \<noteq> ObserverAvailable \<longrightarrow> o_Status ob' \<noteq> ObserverAvailable) \<and>
    (o_Status ob = ObserverAvailable \<or> o_Status ob = ObserverLost \<longrightarrow> ob' = ob \<and> plane' = plane)"
  using assms
proof (induction rule: Lifecycle_induct)
  case (stop ob plane)
  then show ?case using Once_step [OF stop] by (auto simp: plane_step_def)
next
  case (step ob plane ob1 plane1)
  note s = Once_step [OF step(1)]
  have live: "o_Status ob \<noteq> ObserverAvailable" "o_Status ob \<noteq> ObserverLost"
    using step(1,2) by (auto simp: resolveObserverLifecycleOnce_def)
  show ?case
  proof (cases "o_Status ob = ObserverReturning")
    case True
    then have "o_Status ob1 = ObserverAvailable \<or> o_Status ob1 = ObserverLost"
      using Once_from_returning [OF step(1)] step(2) by simp
    then have "ob' = ob1 \<and> plane' = plane1" using step(3) by blast
    then show ?thesis using s step(3) True by (auto simp: plane_step_def)
  next
    case False
    then show ?thesis
      using s step(3) live Once_not_to_returning [OF step(1) False] by (auto simp: plane_step_def split: if_splits)
  qed
qed

text \<open>Only the identity of the plane matters for the observer.\<close>

lemma Once_plane_cong:
  assumes "resolveObserverLifecycleOnce ob (Some pl) portal now cfg = Ok (ob', Some pl')" and id: "pl_ID q = pl_ID pl"
  shows "\<exists>q'. resolveObserverLifecycleOnce ob (Some q) portal now cfg = Ok (ob', Some q') \<and> pl_ID q' = pl_ID pl'"
proof (cases "o_Status ob")
  case ObserverOutbound
  then have r: "resolveObserverOutbound ob (Some pl) portal now cfg = Ok (ob', Some pl')"
    using assms by (simp add: resolveObserverLifecycleOnce_def)
  then obtain pid s e pt where f: "o_ActivePortalID ob = Some pid" "o_PhaseStartedAt ob = Some s"
    "o_PhaseEndsAt ob = Some e" "portal = Some pt"
    and ids: "\<not> (pid \<noteq> p_ID pt \<or> pl_ID pl \<noteq> p_DestinationPlaneID pt)"
    by (auto simp: resolveObserverOutbound_def split: option.splits if_splits)
  then obtain failed ob1 where t: "resolveObserverTransitFailure ob pt now = Ok (failed, ob1)"
    using r by (auto simp: resolveObserverOutbound_def)
  show ?thesis
    using r f ids t id ObserverOutbound
    by (cases failed) (simp_all add: resolveObserverLifecycleOnce_def resolveObserverOutbound_def split: if_splits)
next
  case ObserverReturning
  then have r: "resolveObserverReturning ob (Some pl) portal now = Ok (ob', Some pl')"
    using assms by (simp add: resolveObserverLifecycleOnce_def)
  then obtain plid pid s e pt where f: "o_CurrentPlaneID ob = Some plid" "o_ActivePortalID ob = Some pid"
    "o_PhaseStartedAt ob = Some s" "o_PhaseEndsAt ob = Some e" "portal = Some pt"
    and ids: "\<not> (plid \<noteq> pl_ID pl \<or> pid \<noteq> p_ID pt \<or> pl_ID pl \<noteq> p_DestinationPlaneID pt)"
    by (auto simp: resolveObserverReturning_def split: option.splits if_splits)
  then obtain failed ob1 where t: "resolveObserverTransitFailure ob pt now = Ok (failed, ob1)"
    using r by (auto simp: resolveObserverReturning_def)
  show ?thesis
    using r f ids t id ObserverReturning
    by (cases failed) (auto simp: resolveObserverLifecycleOnce_def resolveObserverReturning_def markExplored_def split: if_splits)
next
  case ObserverExploring
  then show ?thesis
    using assms by (auto simp: resolveObserverLifecycleOnce_def resolveObserverResearch_def split: option.splits if_splits)
qed (use assms in \<open>auto simp: resolveObserverLifecycleOnce_def split: if_splits\<close>)

lemma Once_plane_Some:
  assumes "resolveObserverLifecycleOnce ob plane portal now cfg = Ok (ob', plane')"
  shows "plane' = None \<longleftrightarrow> plane = None"
  using Once_step [OF assms] by (auto simp: plane_step_def split: if_splits)

lemma Lifecycle_plane_cong:
  assumes "ResolveObserverLifecycle ob plane portal now cfg = ((ob', plane'), Ok ())"
    and "map_option pl_ID q = map_option pl_ID plane"
  shows "\<exists>q'. ResolveObserverLifecycle ob q portal now cfg = ((ob', q'), Ok ())"
  using assms
proof (induction arbitrary: q rule: Lifecycle_induct)
  case (stop ob plane)
  show ?case
  proof (cases plane)
    case None
    then show ?thesis using stop Lifecycle_stop [of ob q portal now cfg] by auto
  next
    case (Some pl)
    then obtain x where q: "q = Some x" "pl_ID x = pl_ID pl" using stop by auto
    obtain x' where x': "resolveObserverLifecycleOnce ob (Some x) portal now cfg = Ok (ob, Some x')"
      using Once_plane_cong [of ob pl portal now cfg ob pl x] stop Some q by auto
    then show ?thesis unfolding q(1) by (simp add: ResolveObserverLifecycle.simps [of ob])
  qed
next
  case (step ob plane ob1 plane1)
  show ?case
  proof (cases plane)
    case None
    then have "q = plane" using step.prems by auto
    moreover have "plane1 = None" using Once_plane_Some [OF step.hyps(1)] None by simp
    ultimately show ?thesis using step.IH [of plane1] Lifecycle_step [OF step.hyps(1)] by simp
  next
    case (Some pl)
    then obtain x where q: "q = Some x" "pl_ID x = pl_ID pl" using step.prems by auto
    obtain pl1 where pl1: "plane1 = Some pl1" using Once_plane_Some [OF step.hyps(1)] Some by auto
    obtain x' where x': "resolveObserverLifecycleOnce ob (Some x) portal now cfg = Ok (ob1, Some x')" "pl_ID x' = pl_ID pl1"
      using Once_plane_cong [of ob pl portal now cfg ob1 pl1 x] step.hyps(1) Some pl1 q by auto
    then show ?thesis using step.IH [of "Some x'"] Lifecycle_step [OF x'(1)] pl1 q(1) by simp
  qed
qed

section \<open>The loop\<close>

lemma foldM_done:
  assumes "foldM f s xs = Ok s'" and "I D s" and "distinct xs" and "set xs \<inter> D = {}"
    and step: "\<And>D s x t. x \<in> set xs \<Longrightarrow> x \<notin> D \<Longrightarrow> I D s \<Longrightarrow> f s x = Ok t \<Longrightarrow> I (insert x D) t"
  shows "I (D \<union> set xs) s'"
  using assms
proof (induction xs arbitrary: D s)
  case (Cons x xs)
  obtain t where t: "f s x = Ok t" "foldM f t xs = Ok s'" using Cons.prems(1) by auto
  have i: "I (insert x D) t" by (rule Cons.prems(5) [OF _ _ Cons.prems(2) t(1)]) (use Cons.prems(4) in auto)
  have "I (insert x D \<union> set xs) s'"
    by (rule Cons.IH [OF t(2) i]) (use Cons.prems(3,4,5) in auto)
  then show ?case by simp
qed simp

text \<open>The references of an observer in the state.\<close>

definition refs_of :: "SimulationState \<Rightarrow> Observer \<Rightarrow> (nat option \<times> nat option) res" where
  "refs_of st ob = observerIndices (indexByID pl_ID (s_Planes st)) (indexByID p_ID (s_Portals st)) (s_Portals st) ob"

text \<open>\<open>observer_resolved st now cfg ob ob'\<close>: \<open>ob'\<close> is \<open>ob\<close>, resolved alone in the given state.\<close>

definition observer_resolved :: "SimulationState \<Rightarrow> time \<Rightarrow> Config \<Rightarrow> Observer \<Rightarrow> Observer \<Rightarrow> bool" where
  "observer_resolved st now cfg ob ob' \<longleftrightarrow>
     (\<exists>plane portal plane'. refs_of st ob = Ok (plane, portal) \<and>
        ResolveObserverLifecycle ob (map_option (\<lambda>i. s_Planes st ! i) plane)
          (map_option (\<lambda>j. s_Portals st ! j) portal) now cfg = ((ob', plane'), Ok ()))"

definition explored_at :: "Plane \<Rightarrow> time \<Rightarrow> Plane" where
  "explored_at pl e = pl\<lparr>pl_Explored := True, pl_ExploredAt := Some e\<rparr>"

lemma markExplored_explored_at: "markExplored pl e = (if pl_Explored pl then pl else explored_at pl e)"
  by (simp add: markExplored_def explored_at_def)

text \<open>The moments at which the observers with an index in \<open>D\<close> came home from a plane.\<close>

definition return_moments :: "SimulationState \<Rightarrow> Observer list \<Rightarrow> nat set \<Rightarrow> int \<Rightarrow> time set" where
  "return_moments st obs' D planeID =
     {e. \<exists>i\<in>D. returnCandidate (s_Observers st ! i) = Some (planeID, e) \<and> o_Status (obs' ! i) = ObserverAvailable}"

definition earliest_ok :: "time set \<Rightarrow> time option \<Rightarrow> bool" where
  "earliest_ok R t \<longleftrightarrow> (case t of None \<Rightarrow> R = {} | Some e \<Rightarrow> e \<in> R \<and> (\<forall>u\<in>R. ns e \<le> ns u))"

definition stage_invariant ::
    "SimulationState \<Rightarrow> time \<Rightarrow> Config \<Rightarrow> nat set \<Rightarrow> SimulationState \<times> (int \<rightharpoonup> time) \<Rightarrow> bool" where
  "stage_invariant st now cfg D = (\<lambda>(st1, earliest).
     s_Portals st1 = s_Portals st \<and> s_Lab st1 = s_Lab st \<and> s_NextPortalID st1 = s_NextPortalID st \<and>
     s_NaturalSpawn st1 = s_NaturalSpawn st \<and> s_LastTickAt st1 = s_LastTickAt st \<and>
     length (s_Observers st1) = length (s_Observers st) \<and> length (s_Planes st1) = length (s_Planes st) \<and>
     (\<forall>i<length (s_Observers st).
        if i \<in> D then observer_resolved st now cfg (s_Observers st ! i) (s_Observers st1 ! i)
        else s_Observers st1 ! i = s_Observers st ! i) \<and>
     (\<forall>k<length (s_Planes st).
        s_Planes st1 ! k = s_Planes st ! k \<or>
        \<not> pl_Explored (s_Planes st ! k) \<and> (\<exists>e. s_Planes st1 ! k = explored_at (s_Planes st ! k) e) \<and>
          return_moments st (s_Observers st1) D (pl_ID (s_Planes st ! k)) \<noteq> {}) \<and>
     (\<forall>k<length (s_Planes st).
        if pl_Explored (s_Planes st ! k) then earliest (pl_ID (s_Planes st ! k)) = None
        else earliest_ok (return_moments st (s_Observers st1) D (pl_ID (s_Planes st ! k)))
               (earliest (pl_ID (s_Planes st ! k)))))"

lemma refs_of_bounds:
  assumes "refs_of st ob = Ok (plane, portal)"
    and "distinct (map pl_ID (s_Planes st))" and "distinct (map p_ID (s_Portals st))"
  shows "plane = Some k \<Longrightarrow> k < length (s_Planes st)"
    and "plane = Some k \<Longrightarrow> o_CurrentPlaneID ob = Some planeID \<Longrightarrow> pl_ID (s_Planes st ! k) = planeID"
    and "portal = Some j \<Longrightarrow> j < length (s_Portals st)"
    and "o_CurrentPlaneID ob = Some planeID \<Longrightarrow> \<exists>k<length (s_Planes st). plane = Some k \<and> pl_ID (s_Planes st ! k) = planeID"
  using assms
  by (auto simp: refs_of_def observerIndices_def indexByID_Some split: option.splits)

lemma earliest_ok_insert:
  assumes "earliest_ok R t"
  shows "earliest_ok (insert e R)
    (case t of None \<Rightarrow> Some e | Some current \<Rightarrow> if Before e current then Some e else Some current)"
  using assms by (force simp: earliest_ok_def split: option.splits)

definition unexplored_in :: "SimulationState \<Rightarrow> int \<Rightarrow> bool" where
  "unexplored_in st i = (case indexByID pl_ID (s_Planes st) i of
     None \<Rightarrow> False | Some k \<Rightarrow> \<not> pl_Explored (s_Planes st ! k))"

lemma unexplored_in_nth:
  assumes "distinct (map pl_ID (s_Planes st))" and "k < length (s_Planes st)"
  shows "unexplored_in st (pl_ID (s_Planes st ! k)) \<longleftrightarrow> \<not> pl_Explored (s_Planes st ! k)"
proof -
  have "indexByID pl_ID (s_Planes st) (pl_ID (s_Planes st ! k)) = Some k"
    using indexByID_Some [OF assms(1)] assms(2) by simp
  then show ?thesis by (simp add: unexplored_in_def)
qed

lemma return_moments_insert:
  assumes "i \<notin> D" and "i < length obs"
  shows "return_moments st (obs[i := ob']) (insert i D) planeID =
    (case returnCandidate (s_Observers st ! i) of
       Some (pid, e) \<Rightarrow> if pid = planeID \<and> o_Status ob' = ObserverAvailable
                        then insert e (return_moments st obs D planeID) else return_moments st obs D planeID
     | None \<Rightarrow> return_moments st obs D planeID)"
proof -
  have same: "obs[i := ob'] ! j = obs ! j" if "j \<in> D" for j
    using that assms(1) by (metis nth_list_update_neq)
  have "return_moments st (obs[i := ob']) (insert i D) planeID =
      {e. returnCandidate (s_Observers st ! i) = Some (planeID, e) \<and> o_Status ob' = ObserverAvailable} \<union>
      return_moments st obs D planeID"
    using same assms(2) by (auto simp: return_moments_def)
  then show ?thesis by (auto split: option.split)
qed

lemma resolveObserverAt_OkE:
  assumes "resolveObserverAt unexp pIx qIx now cfg (st1, earliest) i = Ok (st2, earliest2)"
  obtains plane portal ob' plane' where "observerIndices pIx qIx (s_Portals st1) (s_Observers st1 ! i) = Ok (plane, portal)"
    and "ResolveObserverLifecycle (s_Observers st1 ! i) (map_option (\<lambda>k. s_Planes st1 ! k) plane)
           (map_option (\<lambda>j. s_Portals st1 ! j) portal) now cfg = ((ob', plane'), Ok ())"
    and "st2 = st1\<lparr>s_Observers := (s_Observers st1)[i := ob'],
                 s_Planes := (case (plane, plane') of
                                (Some k, Some pl) \<Rightarrow> (s_Planes st1)[k := pl] | _ \<Rightarrow> s_Planes st1)\<rparr>"
    and "earliest2 = (case returnCandidate (s_Observers st1 ! i) of
                   Some (planeID, e) \<Rightarrow>
                     if o_Status ob' = ObserverAvailable \<and> unexp planeID
                     then (case earliest planeID of
                             None \<Rightarrow> earliest(planeID \<mapsto> e)
                           | Some current \<Rightarrow> if Before e current then earliest(planeID \<mapsto> e) else earliest)
                     else earliest
                 | None \<Rightarrow> earliest)"
proof -
  let ?ob = "s_Observers st1 ! i"
  obtain plane portal where refs: "observerIndices pIx qIx (s_Portals st1) ?ob = Ok (plane, portal)"
    using assms by (auto simp: resolveObserverAt_def Let_def)
  obtain ob' plane' res where l: "ResolveObserverLifecycle ?ob (map_option (\<lambda>k. s_Planes st1 ! k) plane)
      (map_option (\<lambda>j. s_Portals st1 ! j) portal) now cfg = ((ob', plane'), res)" by (metis prod.collapse)
  have r: "res = Ok ()" using assms refs l by (cases res) (auto simp: resolveObserverAt_def Let_def)
  show thesis
    by (rule that [OF refs l [unfolded r]]) (use assms refs l r in \<open>simp_all add: resolveObserverAt_def Let_def\<close>)
qed

text \<open>Whether the observer comes home in this step, and from which plane.\<close>

lemma homecoming:
  assumes l: "ResolveObserverLifecycle ob plane portal now cfg = ((ob', plane'), Ok ())"
  shows "case returnCandidate ob of
      Some (planeID, e) \<Rightarrow>
        if o_Status ob' = ObserverAvailable
        then \<exists>pl. plane = Some pl \<and> pl_ID pl = planeID \<and> plane' = Some (markExplored pl e)
        else plane' = plane
    | None \<Rightarrow> plane' = plane"
proof -
  note s = Lifecycle_plane_step [OF l]
  show ?thesis
  proof (cases "o_Status ob = ObserverReturning \<and> o_Status ob' = ObserverAvailable")
    case True
    then show ?thesis using s by (auto simp: plane_step_def returnCandidate_def)
  next
    case False
    then show ?thesis using s by (auto simp: plane_step_def returnCandidate_def split: option.splits if_splits)
  qed
qed

lemma stage_step:
  assumes planes: "distinct (map pl_ID (s_Planes st))" and portals: "distinct (map p_ID (s_Portals st))"
    and i: "i < length (s_Observers st)" "i \<notin> D"
    and inv: "stage_invariant st now cfg D (st1, earliest)"
    and r: "resolveObserverAt (unexplored_in st) (indexByID pl_ID (s_Planes st)) (indexByID p_ID (s_Portals st))
              now cfg (st1, earliest) i = Ok (st2, earliest2)"
  shows "stage_invariant st now cfg (insert i D) (st2, earliest2)"
proof -
  let ?ob = "s_Observers st ! i" and ?ps = "s_Planes st" and ?ps1 = "s_Planes st1"
  note I = inv [unfolded stage_invariant_def prod.case]
  have frame: "s_Portals st1 = s_Portals st" "s_Lab st1 = s_Lab st" "s_NextPortalID st1 = s_NextPortalID st"
     "s_NaturalSpawn st1 = s_NaturalSpawn st" "s_LastTickAt st1 = s_LastTickAt st"
     "length (s_Observers st1) = length (s_Observers st)" "length ?ps1 = length ?ps" using I by blast+
  have obs: "if j \<in> D then observer_resolved st now cfg (s_Observers st ! j) (s_Observers st1 ! j)
      else s_Observers st1 ! j = s_Observers st ! j" if "j < length (s_Observers st)" for j using I that by blast
  have pls: "?ps1 ! k = ?ps ! k \<or> \<not> pl_Explored (?ps ! k) \<and> (\<exists>e. ?ps1 ! k = explored_at (?ps ! k) e) \<and>
      return_moments st (s_Observers st1) D (pl_ID (?ps ! k)) \<noteq> {}" if "k < length ?ps" for k using I that by blast
  have er: "if pl_Explored (?ps ! k) then earliest (pl_ID (?ps ! k)) = None
      else earliest_ok (return_moments st (s_Observers st1) D (pl_ID (?ps ! k))) (earliest (pl_ID (?ps ! k)))"
    if "k < length ?ps" for k using I that by blast
  have ob1: "s_Observers st1 ! i = ?ob" using obs [OF i(1)] i(2) by simp
  have same_id: "pl_ID (?ps1 ! k) = pl_ID (?ps ! k)" if "k < length ?ps" for k
    using pls [OF that] by (auto simp: explored_at_def)
  obtain plane portal ob' plane' where refs: "refs_of st ?ob = Ok (plane, portal)"
    and life: "ResolveObserverLifecycle ?ob (map_option (\<lambda>k. ?ps1 ! k) plane)
      (map_option (\<lambda>j. s_Portals st ! j) portal) now cfg = ((ob', plane'), Ok ())"
    and st2: "st2 = st1\<lparr>s_Observers := (s_Observers st1)[i := ob'],
      s_Planes := (case (plane, plane') of (Some k, Some pl) \<Rightarrow> ?ps1[k := pl] | _ \<Rightarrow> ?ps1)\<rparr>"
    and er2: "earliest2 = (case returnCandidate ?ob of
                   Some (planeID, e) \<Rightarrow>
                     if o_Status ob' = ObserverAvailable \<and> unexplored_in st planeID
                     then (case earliest planeID of
                             None \<Rightarrow> earliest(planeID \<mapsto> e)
                           | Some current \<Rightarrow> if Before e current then earliest(planeID \<mapsto> e) else earliest)
                     else earliest
                 | None \<Rightarrow> earliest)"
    by (rule resolveObserverAt_OkE [OF r, unfolded ob1 frame, folded refs_of_def]) (rule that; assumption)
  have kb: "k < length ?ps" if "plane = Some k" for k using refs_of_bounds(1) [OF refs planes portals that] .
  have "map_option pl_ID (map_option (\<lambda>k. ?ps ! k) plane) = map_option pl_ID (map_option (\<lambda>k. ?ps1 ! k) plane)"
    using same_id kb by (cases plane) auto
  then have res: "observer_resolved st now cfg ?ob ob'"
    using Lifecycle_plane_cong [OF life] refs by (auto simp: observer_resolved_def)
  have obs2: "s_Observers st2 = (s_Observers st1)[i := ob']" and ps2: "s_Planes st2 = (case (plane, plane') of
      (Some k, Some pl) \<Rightarrow> ?ps1[k := pl] | _ \<Rightarrow> ?ps1)" by (simp_all add: st2)
  note rm = return_moments_insert [OF i(2), of "s_Observers st1" st ob'] 
  have il: "i < length (s_Observers st1)" using i(1) frame by simp
  have A: "\<forall>j<length (s_Observers st).
        if j \<in> insert i D then observer_resolved st now cfg (s_Observers st ! j) (s_Observers st2 ! j)
        else s_Observers st2 ! j = s_Observers st ! j"
    using obs res il unfolding obs2 by (simp add: nth_list_update)
  have B: "(s_Planes st2 ! k = ?ps ! k \<or> \<not> pl_Explored (?ps ! k) \<and> (\<exists>e. s_Planes st2 ! k = explored_at (?ps ! k) e) \<and>
      return_moments st (s_Observers st2) (insert i D) (pl_ID (?ps ! k)) \<noteq> {}) \<and>
     (if pl_Explored (?ps ! k) then earliest2 (pl_ID (?ps ! k)) = None
      else earliest_ok (return_moments st (s_Observers st2) (insert i D) (pl_ID (?ps ! k)))
             (earliest2 (pl_ID (?ps ! k))))" if k: "k < length ?ps" for k
  proof (cases "\<exists>pid e. returnCandidate ?ob = Some (pid, e) \<and> o_Status ob' = ObserverAvailable")
    case False
    then have same: "plane' = map_option (\<lambda>k. ?ps1 ! k) plane"
      using homecoming [OF life] by (auto split: option.splits)
    have "s_Planes st2 = ?ps1" unfolding ps2 same by (auto split: option.split)
    moreover have "earliest2 = earliest" using False by (auto simp: er2 split: option.split)
    moreover have "return_moments st (s_Observers st2) (insert i D) (pl_ID (?ps ! k)) =
        return_moments st (s_Observers st1) D (pl_ID (?ps ! k))"
      unfolding obs2 using rm [OF il] False by (auto split: option.split)
    ultimately show ?thesis using pls [OF k] er [OF k] by simp
  next
    case True
    then obtain pid e where rc: "returnCandidate ?ob = Some (pid, e)" and av: "o_Status ob' = ObserverAvailable" by blast
    obtain k0 where k0: "plane = Some k0" "pl_ID (?ps1 ! k0) = pid" "plane' = Some (markExplored (?ps1 ! k0) e)"
      using homecoming [OF life] rc av by auto
    have kb0: "k0 < length ?ps" using kb k0(1) by simp
    have pid: "pl_ID (?ps ! k0) = pid" using same_id [OF kb0] k0(2) by simp
    have ps2': "s_Planes st2 = ?ps1[k0 := markExplored (?ps1 ! k0) e]" using k0 by (simp add: ps2)
    have rm': "return_moments st (s_Observers st2) (insert i D) x = (if pid = x
        then insert e (return_moments st (s_Observers st1) D x) else return_moments st (s_Observers st1) D x)" for x
      unfolding obs2 using rm [OF il] rc av by simp
    have er2': "earliest2 = (if unexplored_in st pid then earliest(pid := (case earliest pid of
        None \<Rightarrow> Some e | Some current \<Rightarrow> if Before e current then Some e else Some current)) else earliest)"
      by (auto simp: er2 rc av fun_eq_iff split: option.split)
    show ?thesis
    proof (cases "k = k0")
      case False
      then have "pl_ID (?ps ! k) \<noteq> pid" using distinct_map_nth_eq [OF planes k kb0] pid by auto
      then show ?thesis
        using pls [OF k] er [OF k] False by (simp add: ps2' rm' er2')
    next
      case True
      have k2: "s_Planes st2 ! k = markExplored (?ps1 ! k) e" using True kb0 frame by (simp add: ps2')
      have un: "unexplored_in st pid \<longleftrightarrow> \<not> pl_Explored (?ps ! k)"
        using unexplored_in_nth [OF planes k] True pid by simp
      show ?thesis
      proof (cases "pl_Explored (?ps ! k)")
        case ex: True
        then have "?ps1 ! k = ?ps ! k" using pls [OF k] by blast
        then show ?thesis using ex un er [OF k] by (simp add: k2 er2' markExplored_def)
      next
        case fresh: False
        have "earliest_ok (return_moments st (s_Observers st1) D pid) (earliest pid)"
          using er [OF k] fresh True pid by simp
        from earliest_ok_insert [OF this, of e]
        have E: "earliest_ok (return_moments st (s_Observers st2) (insert i D) pid) (earliest2 pid)"
          using un fresh by (simp add: rm' er2')
        have "s_Planes st2 ! k = explored_at (?ps ! k) e \<or> (\<exists>e'. s_Planes st2 ! k = explored_at (?ps ! k) e')"
          using pls [OF k] fresh unfolding k2 markExplored_explored_at by (auto simp: explored_at_def)
        then show ?thesis using E fresh True pid by (auto simp: rm')
      qed
    qed
  qed
  have lens: "length (s_Planes st2) = length ?ps" using frame by (auto simp: ps2 split: option.split)
  have F: "s_Portals st2 = s_Portals st" "s_Lab st2 = s_Lab st" "s_NextPortalID st2 = s_NextPortalID st"
     "s_NaturalSpawn st2 = s_NaturalSpawn st" "s_LastTickAt st2 = s_LastTickAt st"
     "length (s_Observers st2) = length (s_Observers st)" by (simp_all add: st2 frame)
  have B1: "\<forall>k<length ?ps. s_Planes st2 ! k = ?ps ! k \<or>
      \<not> pl_Explored (?ps ! k) \<and> (\<exists>e. s_Planes st2 ! k = explored_at (?ps ! k) e) \<and>
      return_moments st (s_Observers st2) (insert i D) (pl_ID (?ps ! k)) \<noteq> {}"
    using B by blast
  have B2: "\<forall>k<length ?ps. if pl_Explored (?ps ! k) then earliest2 (pl_ID (?ps ! k)) = None
      else earliest_ok (return_moments st (s_Observers st2) (insert i D) (pl_ID (?ps ! k)))
             (earliest2 (pl_ID (?ps ! k)))"
    using B by blast
  show ?thesis
    unfolding stage_invariant_def prod.case by (intro conjI F lens A B1 B2)
qed

section \<open>The stage\<close>

lemma observer_stage:
  assumes planes: "distinct (map pl_ID (s_Planes st))" and portals: "distinct (map p_ID (s_Portals st))"
    and ok: "resolveObserverStage st now cfg = Ok st'"
  shows "s_Portals st' = s_Portals st" and "s_Lab st' = s_Lab st" and "s_NextPortalID st' = s_NextPortalID st"
    and "s_NaturalSpawn st' = s_NaturalSpawn st" and "s_LastTickAt st' = s_LastTickAt st"
    and "length (s_Observers st') = length (s_Observers st)" and "length (s_Planes st') = length (s_Planes st)"
    and "i < length (s_Observers st) \<Longrightarrow> observer_resolved st now cfg (s_Observers st ! i) (s_Observers st' ! i)"
    and "k < length (s_Planes st) \<Longrightarrow>
      (let R = return_moments st (s_Observers st') {..<length (s_Observers st)} (pl_ID (s_Planes st ! k)) in
       if pl_Explored (s_Planes st ! k) \<or> R = {} then s_Planes st' ! k = s_Planes st ! k
       else \<exists>e\<in>R. (\<forall>u\<in>R. ns e \<le> ns u) \<and> s_Planes st' ! k = explored_at (s_Planes st ! k) e)"
proof -
  let ?n = "length (s_Observers st)"
  let ?is = "sortedIndices o_ID (s_Observers st) [0..<?n]"
  let ?f = "resolveObserverAt (unexplored_in st) (indexByID pl_ID (s_Planes st)) (indexByID p_ID (s_Portals st)) now cfg"
  obtain st1 earliest where loop: "foldM ?f (st, Map.empty) ?is = Ok (st1, earliest)"
    and st': "st' = st1\<lparr>s_Planes := setEarliestReturns (indexByID pl_ID (s_Planes st)) earliest (s_Planes st1)\<rparr>"
    using ok by (auto simp: resolveObserverStage_def Let_def unexplored_in_def [abs_def])
  have "stage_invariant st now cfg ({} \<union> set ?is) (st1, earliest)"
  proof (rule foldM_done [OF loop, where I = "stage_invariant st now cfg"])
    show "stage_invariant st now cfg {} (st, Map.empty)"
      by (simp add: stage_invariant_def return_moments_def earliest_ok_def)
    fix D s i t assume i: "i \<in> set ?is" "i \<notin> D" "stage_invariant st now cfg D s" "?f s i = Ok t"
    obtain s1 e1 t1 e2 where st: "s = (s1, e1)" "t = (t1, e2)" by (cases s, cases t) auto
    show "stage_invariant st now cfg (insert i D) t"
      unfolding st
      by (rule stage_step [OF planes portals _ i(2) i(3) [unfolded st] i(4) [unfolded st]]) (use i(1) in simp)
  qed simp_all
  moreover have "{} \<union> set ?is = {..<?n}" by auto
  ultimately have inv: "stage_invariant st now cfg {..<?n} (st1, earliest)" by simp
  note I = inv [unfolded stage_invariant_def prod.case]
  show "s_Portals st' = s_Portals st" "s_Lab st' = s_Lab st" "s_NextPortalID st' = s_NextPortalID st"
    "s_NaturalSpawn st' = s_NaturalSpawn st" "s_LastTickAt st' = s_LastTickAt st"
    "length (s_Observers st') = ?n" using I by (simp_all add: st')
  have pn: "length (s_Planes st1) = length (s_Planes st)" using I by blast
  show "length (s_Planes st') = length (s_Planes st)" using pn by (simp add: st' setEarliestReturns_def)
  show "observer_resolved st now cfg (s_Observers st ! i) (s_Observers st' ! i)" if "i < ?n"
  proof -
    have "\<forall>i<?n. if i \<in> {..<?n} then observer_resolved st now cfg (s_Observers st ! i) (s_Observers st1 ! i)
        else s_Observers st1 ! i = s_Observers st ! i" using I by blast
    then show ?thesis using that by (simp add: st')
  qed
  show "let R = return_moments st (s_Observers st') {..<?n} (pl_ID (s_Planes st ! k)) in
       if pl_Explored (s_Planes st ! k) \<or> R = {} then s_Planes st' ! k = s_Planes st ! k
       else \<exists>e\<in>R. (\<forall>u\<in>R. ns e \<le> ns u) \<and> s_Planes st' ! k = explored_at (s_Planes st ! k) e"
    if k: "k < length (s_Planes st)"
  proof -
    let ?pl = "s_Planes st ! k" and ?pl1 = "s_Planes st1 ! k"
    let ?R = "return_moments st (s_Observers st1) {..<?n} (pl_ID ?pl)"
    have p: "?pl1 = ?pl \<or> \<not> pl_Explored ?pl \<and> (\<exists>e. ?pl1 = explored_at ?pl e) \<and> ?R \<noteq> {}"
      and e: "if pl_Explored ?pl then earliest (pl_ID ?pl) = None else earliest_ok ?R (earliest (pl_ID ?pl))"
      using I k by blast+
    have id: "pl_ID ?pl1 = pl_ID ?pl" using p by (auto simp: explored_at_def)
    have ix: "indexByID pl_ID (s_Planes st) (pl_ID ?pl) = Some k" using indexByID_Some [OF planes] k by simp
    have s': "s_Planes st' ! k = (case earliest (pl_ID ?pl) of
        Some t \<Rightarrow> explored_at ?pl1 t | None \<Rightarrow> ?pl1)"
      using k pn by (simp add: st' setEarliestReturns_def Let_def id ix explored_at_def split: option.split)
    have o': "s_Observers st' = s_Observers st1" by (simp add: st')
    show ?thesis
    proof (cases "pl_Explored ?pl \<or> ?R = {}")
      case True
      then have "earliest (pl_ID ?pl) = None" using e by (auto simp: earliest_ok_def split: if_splits option.splits)
      then show ?thesis using True p s' by (auto simp: Let_def o')
    next
      case False
      then obtain t where t: "earliest (pl_ID ?pl) = Some t" "t \<in> ?R" "\<forall>u\<in>?R. ns t \<le> ns u"
        using e by (auto simp: earliest_ok_def split: option.splits)
      have "s_Planes st' ! k = explored_at ?pl t" using p s' t(1) by (auto simp: explored_at_def)
      then show ?thesis using False t by (auto simp: Let_def o')
    qed
  qed
qed

text \<open>
  In the observer stage every observer is resolved on its own against the planes and
  portals before the stage, so the order of the slice does not matter; and a plane that was
  unexplored becomes explored exactly when an observer came home from it in this tick, at
  the earliest of those returns.  Nothing else changes.
\<close>

theorem observer_stage_effect:
  assumes "distinct (map pl_ID (s_Planes st))" and "distinct (map p_ID (s_Portals st))"
    and "resolveObserverStage st now cfg = Ok st'"
  shows "(\<forall>i<length (s_Observers st). \<exists>plane portal plane'.
      observerIndices (indexByID pl_ID (s_Planes st)) (indexByID p_ID (s_Portals st)) (s_Portals st)
        (s_Observers st ! i) = Ok (plane, portal) \<and>
      ResolveObserverLifecycle (s_Observers st ! i) (map_option (\<lambda>k. s_Planes st ! k) plane)
        (map_option (\<lambda>j. s_Portals st ! j) portal) now cfg = ((s_Observers st' ! i, plane'), Ok ())) \<and>
    (\<forall>k<length (s_Planes st).
      let R = {e. \<exists>i<length (s_Observers st). o_Status (s_Observers st ! i) = ObserverReturning \<and>
                 o_CurrentPlaneID (s_Observers st ! i) = Some (pl_ID (s_Planes st ! k)) \<and>
                 o_PhaseEndsAt (s_Observers st ! i) = Some e \<and> o_Status (s_Observers st' ! i) = ObserverAvailable}
      in if pl_Explored (s_Planes st ! k) \<or> R = {} then s_Planes st' ! k = s_Planes st ! k
         else \<exists>e\<in>R. (\<forall>u\<in>R. ns e \<le> ns u) \<and>
                s_Planes st' ! k = (s_Planes st ! k)\<lparr>pl_Explored := True, pl_ExploredAt := Some e\<rparr>) \<and>
    length (s_Observers st') = length (s_Observers st) \<and> length (s_Planes st') = length (s_Planes st) \<and>
    s_Portals st' = s_Portals st \<and> s_Lab st' = s_Lab st \<and> s_NextPortalID st' = s_NextPortalID st \<and>
    s_NaturalSpawn st' = s_NaturalSpawn st \<and> s_LastTickAt st' = s_LastTickAt st"
proof -
  note S = observer_stage [OF assms]
  have rc: "returnCandidate ob = Some (pid, e) \<longleftrightarrow>
      o_Status ob = ObserverReturning \<and> o_CurrentPlaneID ob = Some pid \<and> o_PhaseEndsAt ob = Some e" for ob pid e
    by (auto simp: returnCandidate_def split: option.split)
  have R: "return_moments st obs' {..<n} pid = {e. \<exists>i<n. o_Status (s_Observers st ! i) = ObserverReturning \<and>
      o_CurrentPlaneID (s_Observers st ! i) = Some pid \<and> o_PhaseEndsAt (s_Observers st ! i) = Some e \<and>
      o_Status (obs' ! i) = ObserverAvailable}" for obs' n pid
    by (auto simp: return_moments_def rc)
  show ?thesis
    using S(1-7) S(8) [unfolded observer_resolved_def refs_of_def] S(9) [unfolded R explored_at_def]
    by blast
qed

definition demo_returning :: "int \<Rightarrow> int \<Rightarrow> Observer" where
  "demo_returning i e = (NewObserver i (Time 0 True))\<lparr>o_Status := ObserverReturning, o_CurrentPlaneID := Some 1,
     o_ActivePortalID := Some 1, o_PhaseStartedAt := Some (Time 0 True), o_PhaseEndsAt := Some (Time (e * Second) True)\<rparr>"

definition demo_two_returns :: SimulationState where
  "demo_two_returns = demo_before\<lparr>s_Observers := [demo_returning 1 12, demo_returning 2 10]\<rparr>"

lemma demo_returning_home:
  assumes "pl_ID pl = 1" and "e \<le> 20"
  shows "ResolveObserverLifecycle (demo_returning i e) (Some pl) (Some demo_portal) (Time (20 * Second) True) cfg =
    ((home_since (demo_returning i e) (Time (e * Second) True), Some (markExplored pl (Time (e * Second) True))), Ok ())"
proof -
  have tr: "in_transit_ok (demo_returning i e) pl demo_portal"
    using assms(1) by (simp add: in_transit_ok_def demo_returning_def demo_portal_def)
  have e: "o_PhaseEndsAt (demo_returning i e) = Some (Time (e * Second) True)"
    and s: "o_Status (demo_returning i e) = ObserverReturning" by (simp_all add: demo_returning_def)
  have "\<not> closed_before demo_portal (Time (e * Second) True) (Time (20 * Second) True)"
    by (simp add: closed_before_def demo_portal_def)
  then show ?thesis
    using Once_returning [OF tr e s, of "Time (20 * Second) True" cfg] assms(2)
    by (simp add: Lifecycle_step_to home_since_def)
qed

lemma demo_observer_stage:
  "resolveObserverStage demo_two_returns (Time (20 * Second) True) Default = Ok (demo_two_returns
     \<lparr>s_Observers := [home_since (demo_returning 1 12) (Time (12 * Second) True),
                      home_since (demo_returning 2 10) (Time (10 * Second) True)],
      s_Planes := [explored_at demo_plane (Time (10 * Second) True)]\<rparr>)"
proof -
  have st: "s_Observers demo_two_returns = [demo_returning 1 12, demo_returning 2 10]"
    "s_Planes demo_two_returns = [demo_plane]" "s_Portals demo_two_returns = [demo_portal]"
    by (simp_all add: demo_two_returns_def demo_before_def)
  have ids: "pl_ID demo_plane = 1" "p_ID demo_portal = 1" "\<not> pl_Explored demo_plane"
    by (simp_all add: demo_plane_def demo_portal_def)
  have obs: "o_CurrentPlaneID (demo_returning i e) = Some 1" "o_ActivePortalID (demo_returning i e) = Some 1"
    "o_PhaseEndsAt (demo_returning i e) = Some (Time (e * Second) True)" "o_Status (demo_returning i e) = ObserverReturning"
    "o_ID (demo_returning i e) = i" for i e by (simp_all add: demo_returning_def NewObserver_def)
  have home: "o_Status (home_since ob t) = ObserverAvailable" for ob t by (simp add: home_since_def)
  have ex: "pl_ID (markExplored demo_plane t) = 1" "markExplored (markExplored demo_plane t) u = explored_at demo_plane t" for t u
    using ids by (simp_all add: markExplored_def explored_at_def)
  have life: "ResolveObserverLifecycle (demo_returning i e) (Some pl) (Some demo_portal) (Time 20000000000 True) Default =
      ((home_since (demo_returning i e) (Time (e * Second) True), Some (markExplored pl (Time (e * Second) True))), Ok ())"
    if "pl_ID pl = 1" "e \<le> 20" for i e pl using demo_returning_home [OF that] by simp
  have sorted: "sortedIndices o_ID [demo_returning 1 12, demo_returning 2 10] [0, Suc 0] = [0, Suc 0]"
    by (simp add: sortedIndices_def obs)
  show ?thesis
    unfolding resolveObserverStage_def st
    by (simp add: sorted indexByID_def ids resolveObserverAt_def observerIndices_def st obs life ex home returnCandidate_def
        setEarliestReturns_def Let_def explored_at_def)
qed

theorem observer_stage_effect_witness:
  "\<exists>st'. resolveObserverStage demo_two_returns (Time (20 * Second) True) Default = Ok st' \<and>
     length (s_Observers st') = 2 \<and> s_Portals st' = [demo_portal]"
proof -
  have d: "distinct (map pl_ID (s_Planes demo_two_returns))" "distinct (map p_ID (s_Portals demo_two_returns))"
    by (simp_all add: demo_two_returns_def demo_before_def)
  show ?thesis
    using observer_stage_effect [OF d demo_observer_stage] demo_observer_stage
    by (simp add: demo_two_returns_def demo_before_def)
qed

end
