(* ===== verification/Aggregate.thy ===== *)
theory Aggregate
  imports Engine TickProofs ObserverStage
begin

text \<open>
  What may happen to the identities in the aggregate: an abstract transition system with
  two kinds of steps, an update in place and the opening of a portal under the next ID in
  the first free slot.  Every stage of a tick, every command and every move of the tutorial
  is a path of such steps, so its invariants hold in every state the manager reaches.
\<close>

section \<open>The abstract system\<close>

text \<open>A portal keeps its identity; a portal that has ended does not change any more.\<close>

definition kept :: "Portal \<Rightarrow> Portal \<Rightarrow> bool" where
  "kept p q \<longleftrightarrow> p_ID q = p_ID p \<and> p_SlotIndex q = p_SlotIndex p \<and> p_Kind q = p_Kind p \<and>
     p_DestinationPlaneID q = p_DestinationPlaneID p \<and> p_OpenedAt q = p_OpenedAt p \<and>
     (p_Status p \<noteq> PortalStatusOpen \<longrightarrow> q = p)"

definition same_bodies :: "SimulationState \<Rightarrow> SimulationState \<Rightarrow> bool" where
  "same_bodies s t \<longleftrightarrow> map pl_ID (s_Planes t) = map pl_ID (s_Planes s) \<and>
     map o_ID (s_Observers t) = map o_ID (s_Observers s)"

inductive aggregate_step :: "Config \<Rightarrow> SimulationState \<Rightarrow> SimulationState \<Rightarrow> bool" for cfg where
  update: "same_bodies s t \<Longrightarrow> list_all2 kept (s_Portals s) (s_Portals t) \<Longrightarrow> s_NextPortalID t = s_NextPortalID s \<Longrightarrow>
    aggregate_step cfg s t"
| open_portal: "same_bodies s t \<Longrightarrow> FirstFreeSlot (s_Portals s) (MaxActivePortals cfg) = Some (p_SlotIndex p) \<Longrightarrow>
    p_ID p = s_NextPortalID s \<Longrightarrow> p_Status p = PortalStatusOpen \<Longrightarrow> s_Portals t = s_Portals s @ [p] \<Longrightarrow>
    s_NextPortalID t = s_NextPortalID s + 1 \<Longrightarrow> aggregate_step cfg s t"

inductive_cases aggregate_stepE: "aggregate_step cfg s t"

abbreviation evolves :: "Config \<Rightarrow> SimulationState \<Rightarrow> SimulationState \<Rightarrow> bool" where
  "evolves cfg \<equiv> (aggregate_step cfg)\<^sup>*\<^sup>*"

definition aggregate_ok :: "Config \<Rightarrow> SimulationState \<Rightarrow> bool" where
  "aggregate_ok cfg s \<longleftrightarrow> sorted_wrt (<) (map p_ID (s_Portals s)) \<and> 0 < s_NextPortalID s \<and>
     (\<forall>p\<in>set (s_Portals s). 0 < p_ID p \<and> p_ID p < s_NextPortalID s) \<and> distinct (open_slots (s_Portals s)) \<and>
     (\<forall>p\<in>set (s_Portals s). p_Status p = PortalStatusOpen \<longrightarrow> 1 \<le> p_SlotIndex p \<and> p_SlotIndex p \<le> MaxActivePortals cfg)"

lemma kept_refl [simp]: "kept p p"
  by (simp add: kept_def)

lemma kept_trans: "kept p q \<Longrightarrow> kept q r \<Longrightarrow> kept p r"
  by (auto simp: kept_def)

lemma kept_all_refl [simp]: "list_all2 kept ps ps"
  by (simp add: list.rel_refl)

lemma same_bodies_refl [simp]: "same_bodies s s"
  by (simp add: same_bodies_def)

lemma same_bodies_trans: "same_bodies s t \<Longrightarrow> same_bodies t u \<Longrightarrow> same_bodies s u"
  by (simp add: same_bodies_def)

lemma kept_all_IDs: "list_all2 kept ps qs \<Longrightarrow> map p_ID qs = map p_ID ps"
  by (induction rule: list_all2_induct) (auto simp: kept_def)

lemma kept_update: "i < length ps \<Longrightarrow> kept (ps ! i) q \<Longrightarrow> list_all2 kept ps (ps[i := q])"
  by (auto simp: list_all2_conv_all_nth nth_list_update)

lemma kept_all_open_slots:
  "list_all2 kept ps qs \<Longrightarrow> distinct (open_slots ps) \<Longrightarrow> distinct (open_slots qs) \<and> set (open_slots qs) \<subseteq> set (open_slots ps)"
proof (induction rule: list_all2_induct)
  case (Cons p ps q qs)
  have k: "p_SlotIndex q = p_SlotIndex p" "p_Status q = PortalStatusOpen \<Longrightarrow> p_Status p = PortalStatusOpen"
    using Cons(1) by (auto simp: kept_def)
  then show ?case using Cons by (auto simp: open_slots_def split: if_splits)
qed (simp add: open_slots_def)

lemma occupied_open_slots: "occupied_slots ps = set (open_slots ps)"
  by (simp add: occupied_slots_def open_slots_def)

lemma evolves_update:
  "same_bodies s t \<Longrightarrow> list_all2 kept (s_Portals s) (s_Portals t) \<Longrightarrow> s_NextPortalID t = s_NextPortalID s \<Longrightarrow> evolves cfg s t"
  by (intro r_into_rtranclp aggregate_step.update)

lemma aggregate_ok_step:
  assumes "aggregate_step cfg s t" and "aggregate_ok cfg s"
  shows "aggregate_ok cfg t"
  using assms(1)
proof cases
  case update
  have "\<exists>p\<in>set (s_Portals s). kept p q" if "q \<in> set (s_Portals t)" for q
    using update(2) that by (fastforce simp: list_all2_conv_all_nth in_set_conv_nth)
  then show ?thesis
    using assms(2) update(3) kept_all_IDs [OF update(2)] kept_all_open_slots [OF update(2)]
    by (fastforce simp: aggregate_ok_def kept_def)
next
  case (open_portal p)
  have "p_SlotIndex p \<notin> set (open_slots (s_Portals s))" "1 \<le> p_SlotIndex p" "p_SlotIndex p \<le> MaxActivePortals cfg"
    using FirstFreeSlot_SomeD [OF open_portal(2)] by (simp_all add: occupied_open_slots)
  then show ?thesis
    using assms(2) open_portal(3-6) by (auto simp: aggregate_ok_def sorted_wrt_append open_slots_def)
qed

lemma aggregate_ok_evolves: "evolves cfg s t \<Longrightarrow> aggregate_ok cfg s \<Longrightarrow> aggregate_ok cfg t"
  by (induction rule: rtranclp_induct) (auto intro: aggregate_ok_step)

text \<open>What a whole path preserves: the portals of the start are a prefix, kept one by one.\<close>

lemma evolves_prefix:
  assumes "evolves cfg s t"
  shows "same_bodies s t \<and> s_NextPortalID s \<le> s_NextPortalID t \<and>
    (\<exists>old new. s_Portals t = old @ new \<and> list_all2 kept (s_Portals s) old \<and>
       (\<forall>p\<in>set new. s_NextPortalID s \<le> p_ID p))"
  using assms
proof (induction rule: rtranclp_induct)
  case base
  have "s_Portals s = s_Portals s @ [] \<and> list_all2 kept (s_Portals s) (s_Portals s) \<and> (\<forall>p\<in>set []. s_NextPortalID s \<le> p_ID p)"
    by simp
  then show ?case by (metis order_refl same_bodies_refl)
next
  case (step t u)
  then obtain old new where t: "s_Portals t = old @ new" "list_all2 kept (s_Portals s) old"
    "\<forall>p\<in>set new. s_NextPortalID s \<le> p_ID p" and "same_bodies s t" "s_NextPortalID s \<le> s_NextPortalID t" by blast
  from step(2) show ?case
  proof cases
    case update
    from update(2) [unfolded t(1)] obtain old' new' where u: "s_Portals u = old' @ new'"
      "list_all2 kept old old'" "list_all2 kept new new'"
      by (auto simp: list_all2_append1)
    have "list_all2 kept (s_Portals s) old'" by (rule list_all2_trans [OF kept_trans t(2) u(2)])
    moreover have "\<forall>p\<in>set new'. s_NextPortalID s \<le> p_ID p"
      using t(3) u(3) by (auto simp: list_all2_conv_all_nth in_set_conv_nth kept_def) force
    ultimately show ?thesis
      using u(1) update(1,3) \<open>same_bodies s t\<close> \<open>s_NextPortalID s \<le> s_NextPortalID t\<close>
      by (auto intro: same_bodies_trans)
  next
    case (open_portal p)
    then have "s_Portals u = old @ (new @ [p])" "\<forall>q\<in>set (new @ [p]). s_NextPortalID s \<le> p_ID q"
      using t \<open>s_NextPortalID s \<le> s_NextPortalID t\<close> by auto
    then show ?thesis
      using t(2) open_portal(1,6) \<open>same_bodies s t\<close> \<open>s_NextPortalID s \<le> s_NextPortalID t\<close>
      by (intro conjI exI [of _ old] exI [of _ "new @ [p]"]) (auto intro: same_bodies_trans)
  qed
qed

section \<open>The tick\<close>

lemma evolves_trans: "evolves cfg s t \<Longrightarrow> evolves cfg t u \<Longrightarrow> evolves cfg s u"
  by (rule rtranclp_trans)

lemma kept_resolved: "kept p (resolved now p)"
  using not_ends_resolved [of now p] ends_iff [of now p] by (cases "ends now p") (auto simp: kept_def)

lemma Lifecycle_identities:
  assumes "ResolveObserverLifecycle ob plane portal now cfg = ((ob', plane'), result)"
  shows "o_ID ob' = o_ID ob" and "map_option pl_ID plane' = map_option pl_ID plane"
proof -
  have "o_ID ob' = o_ID ob \<and> map_option pl_ID plane' = map_option pl_ID plane"
    using assms
  proof (induction ob plane portal now cfg rule: ResolveObserverLifecycle.induct)
    case (1 ob plane portal now cfg)
    show ?case
    proof (cases "resolveObserverLifecycleOnce ob plane portal now cfg")
      case (Ok x)
      obtain ob1 plane1 where x: "x = (ob1, plane1)" by (cases x)
      have s: "o_ID ob1 = o_ID ob" "map_option pl_ID plane1 = map_option pl_ID plane"
        using Once_step [OF Ok [unfolded x]] by (auto simp: plane_step_def markExplored_def split: if_splits)
      then show ?thesis
        using 1 Ok x by (cases "o_Status ob1 = o_Status ob") (auto simp: ResolveObserverLifecycle.simps [of ob])
    qed (use 1(2) in \<open>auto simp: ResolveObserverLifecycle.simps [of ob]\<close>)
  qed
  then show "o_ID ob' = o_ID ob" "map_option pl_ID plane' = map_option pl_ID plane" by simp_all
qed

lemma portal_stage_evolves:
  assumes "resolvePortalStage st now cfg = Ok st'"
  shows "evolves cfg st st'" and "s_NextPortalID st' = s_NextPortalID st"
proof -
  note S = portal_stage(1,2) [OF assms]
  show "s_NextPortalID st' = s_NextPortalID st" using S(2) by (simp add: same_but_portals_def)
  then show "evolves cfg st st'"
    using S by (intro evolves_update)
      (auto simp: same_but_portals_def same_bodies_def list_all2_conv_all_nth kept_resolved)
qed

lemma observer_stage_evolves:
  assumes "distinct (map pl_ID (s_Planes st))" and "distinct (map p_ID (s_Portals st))"
    and "resolveObserverStage st now cfg = Ok st'"
  shows "evolves cfg st st'" and "s_NextPortalID st' = s_NextPortalID st" and "s_Portals st' = s_Portals st"
    and "same_bodies st st'"
proof -
  note S = observer_stage [OF assms]
  have "o_ID (s_Observers st' ! i) = o_ID (s_Observers st ! i)" if "i < length (s_Observers st)" for i
    using S(8) [OF that] by (auto simp: observer_resolved_def Lifecycle_identities(1))
  moreover have "pl_ID (s_Planes st' ! k) = pl_ID (s_Planes st ! k)" if "k < length (s_Planes st)" for k
    using S(9) [OF that] by (auto simp: Let_def explored_at_def split: if_splits)
  ultimately show b: "same_bodies st st'"
    using S(6,7) by (simp add: same_bodies_def list_eq_iff_nth_eq)
  show "s_NextPortalID st' = s_NextPortalID st" "s_Portals st' = s_Portals st" using S(1,3) by simp_all
  then show "evolves cfg st st'" using b by (intro evolves_update) simp_all
qed

lemma StartReturning_keeps: "StartReturning ob now pid rnd cfg r = Ok (ob', r') \<Longrightarrow> o_ID ob' = o_ID ob"
  by (auto simp: StartReturning_def split: if_splits)

lemma StartOutbound_keeps: "StartOutbound ob now pid rnd cfg r = Ok (ob', r') \<Longrightarrow> o_ID ob' = o_ID ob"
  by (auto simp: StartOutbound_def split: if_splits)

lemma map_update_kept: "f x = f (xs ! i) \<Longrightarrow> map f (xs[i := x]) = map f xs"
  by (cases "i < length xs") (auto simp: map_list_update_same list_update_beyond not_less)

lemma recallPrepared_keeps:
  assumes "recallObserverPrepared portal observers now confirm rnd cfg r = Ok (obID, portal', observers', r')"
  shows "map o_ID observers' = map o_ID observers" and "kept portal portal'" and "p_Status portal = PortalStatusOpen"
  using assms by (auto elim!: recallPrepared_OkE simp: map_update_kept StartReturning_keeps kept_def with_flow_def)

lemma sync_keeps:
  assumes "resolveExtractionSynchronization portal plane observers now rnd cfg v r = Ok (obID, changed, portal', observers', r')"
  shows "map o_ID observers' = map o_ID observers" and "kept portal portal'"
proof -
  have s: "kept portal (synchronized portal cfg)" if "\<not> Portal_IsTerminal portal"
    using that by (simp add: kept_def synchronized_def)
  show "map o_ID observers' = map o_ID observers"
    using assms by (cases rule: sync_cases) (auto simp: recallPrepared_keeps(1))
  show "kept portal portal'"
    using assms
  proof (cases rule: sync_cases)
    case recall
    show ?thesis by (rule kept_trans [OF s [OF recall(3)] recallPrepared_keeps(2) [OF recall(5)]])
  qed (use s in auto)
qed

lemma extraction_stage_evolves:
  assumes "resolveExtractionStage st now rnd cfg r = Ok (st', r')"
  shows "evolves cfg st st'" and "s_NextPortalID st' = s_NextPortalID st" and "s_Planes st' = s_Planes st"
    and "map p_ID (s_Portals st') = map p_ID (s_Portals st)"
proof -
  define I where "I = (\<lambda>s :: SimulationState \<times> 'a. same_bodies st (fst s) \<and>
    list_all2 kept (s_Portals st) (s_Portals (fst s)) \<and>
    s_NextPortalID (fst s) = s_NextPortalID st \<and> s_Planes (fst s) = s_Planes st)"
  define js where "js = sortedIndices p_ID (s_Portals st)
    (filter (\<lambda>i. p_Kind (s_Portals st ! i) = PortalKindExtraction) [0..<length (s_Portals st)])"
  have "I (st', r')"
  proof (rule foldM_invariant [where I = I])
    show "foldM (resolveExtractionAt (indexByID pl_ID (s_Planes st)) now rnd cfg) (st, r) js = Ok (st', r')"
      using assms by (simp add: resolveExtractionStage_def Let_def js_def)
    show "I (st, r)" by (simp add: I_def)
    fix s x t
    assume "x \<in> set js" and s: "I s" and step: "resolveExtractionAt (indexByID pl_ID (s_Planes st)) now rnd cfg s x = Ok t"
    then have "x < length (s_Portals st)" by (auto simp: js_def sortedIndices_def)
    moreover obtain u q where sq: "s = (u, q)" by (cases s)
    ultimately have x: "x < length (s_Portals u)" using s by (auto simp: I_def dest: list_all2_lengthD)
    from step obtain pl a b portal' observers' q' where
      syn: "resolveExtractionSynchronizationPrepared (s_Portals u ! x) pl (s_Observers u) now rnd cfg q =
          Ok (a, b, portal', observers', q')"
      and t: "t = (u\<lparr>s_Portals := (s_Portals u)[x := portal'], s_Observers := observers'\<rparr>, q')"
      by (auto simp: sq resolveExtractionAt_def Let_def split: option.splits)
    note k = sync_keeps [OF syn [unfolded resolveExtractionSynchronizationPrepared_def]]
    have "list_all2 kept (s_Portals u) ((s_Portals u)[x := portal'])" by (rule kept_update [OF x k(2)])
    then have "list_all2 kept (s_Portals st) ((s_Portals u)[x := portal'])"
      using s list_all2_trans [OF kept_trans] by (auto simp: I_def sq)
    then show "I t" using s k(1) by (simp add: I_def sq t same_bodies_def)
  qed
  then have i: "same_bodies st st'" "list_all2 kept (s_Portals st) (s_Portals st')"
    and n: "s_NextPortalID st' = s_NextPortalID st" "s_Planes st' = s_Planes st" by (simp_all add: I_def)
  show "s_NextPortalID st' = s_NextPortalID st" "s_Planes st' = s_Planes st" by (rule n)+
  show "map p_ID (s_Portals st') = map p_ID (s_Portals st)" by (rule kept_all_IDs [OF i(2)])
  show "evolves cfg st st'" using i n by (intro evolves_update)
qed

definition IDs_left :: "SimulationState \<Rightarrow> bool" where
  "IDs_left s \<longleftrightarrow> 0 < s_NextPortalID s \<and> s_NextPortalID s < 9223372036854775800"

lemma spawn_evolves:
  assumes "resolveNaturalSpawnPrepared st now rnd cfg r = Ok (res, st', r')"
    and "0 < s_NextPortalID st" and "s_NextPortalID st < 9223372036854775807"
  shows "evolves cfg st st'" and "s_NextPortalID st' \<le> s_NextPortalID st + 1"
    and "nr_Spawned res \<longleftrightarrow> s_Portals st' \<noteq> s_Portals st"
proof -
  let ?A = "(st' = st\<lparr>s_NaturalSpawn := s_NaturalSpawn st'\<rparr> \<and> \<not> nr_Spawned res)"
  let ?B = "\<exists>slot pl p q q'. FirstFreeSlot (s_Portals st) (MaxActivePortals cfg) = Some slot \<and>
      NewNaturalPortal (s_NextPortalID st) pl slot now cfg rnd q = Ok (p, q') \<and> nr_Spawned res \<and>
      st' = st\<lparr>s_Portals := s_Portals st @ [p], s_NextPortalID := s_NextPortalID st + 1,
              s_NaturalSpawn := s_NaturalSpawn st'\<rparr>"
  have "?A \<or> ?B"
  proof (cases "MaxActivePortals cfg \<le> countOpenPortals (s_Portals st) \<or> n_Paused (s_NaturalSpawn st) \<or>
      \<not> naturalSpawnDue (s_NaturalSpawn st) now")
    case True
    then have ?A using assms(1) by (auto simp: resolveNaturalSpawnPrepared_def Let_def split: if_splits)
    then show ?thesis by blast
  next
    case False
    then have sp: "spawnNaturalPortal st (countOpenPortals (s_Portals st)) now rnd cfg r = Ok (res, st', r')"
      using assms(1) by (simp add: resolveNaturalSpawnPrepared_def Let_def)
    obtain slot where slot: "FirstFreeSlot (s_Portals st) (MaxActivePortals cfg) = Some slot"
      using sp by (cases "FirstFreeSlot (s_Portals st) (MaxActivePortals cfg)")
        (auto simp: spawnNaturalPortal_def split: if_splits)
    obtain k q p q' where new: "NewNaturalPortal (s_NextPortalID st) (pl_ID (s_Planes st ! nat k)) slot now cfg rnd q = Ok (p, q')"
      and st': "st' = st\<lparr>s_Portals := s_Portals st @ [p], s_NextPortalID := s_NextPortalID st + 1,
              s_NaturalSpawn := s_NaturalSpawn st'\<rparr>" and "nr_Spawned res"
      using sp assms(2,3) unfolding spawnNaturalPortal_def slot option.case
      by (cases "MaxActivePortals cfg \<le> countOpenPortals (s_Portals st) + 1") (auto simp: Let_def split: if_splits)
    then show ?thesis using slot by blast
  qed
  then show "evolves cfg st st'" "s_NextPortalID st' \<le> s_NextPortalID st + 1"
    "nr_Spawned res \<longleftrightarrow> s_Portals st' \<noteq> s_Portals st"
  proof -
    assume ab: "?A \<or> ?B"
    have step: "evolves cfg st st'" if ?B
    proof -
      obtain slot pl p q q' where f: "FirstFreeSlot (s_Portals st) (MaxActivePortals cfg) = Some slot"
        "NewNaturalPortal (s_NextPortalID st) pl slot now cfg rnd q = Ok (p, q')"
        "st' = st\<lparr>s_Portals := s_Portals st @ [p], s_NextPortalID := s_NextPortalID st + 1,
              s_NaturalSpawn := s_NaturalSpawn st'\<rparr>" using \<open>?B\<close> by blast
      have "p_ID p = s_NextPortalID st \<and> p_SlotIndex p = slot \<and> p_Status p = PortalStatusOpen"
        using f(2) by (auto simp: NewNaturalPortal_def Let_def)
      then show ?thesis
        using f(1) by (subst f(3), intro r_into_rtranclp aggregate_step.open_portal [where p = p])
          (auto simp: same_bodies_def)
    qed
    have upd: "evolves cfg st st'" if ?A
      by (subst conjunct1 [OF that], intro evolves_update) (auto simp: same_bodies_def)
    show "evolves cfg st st'" using ab step upd by blast
    show "s_NextPortalID st' \<le> s_NextPortalID st + 1"
      using ab by (auto dest: arg_cong [where f = s_NextPortalID])
    show "nr_Spawned res \<longleftrightarrow> s_Portals st' \<noteq> s_Portals st"
      using ab by (auto dest: arg_cong [where f = s_Portals])
  qed
qed

lemma validated_IDs:
  assumes "validateSimulationState st now cfg = Ok u"
  shows "distinct (map pl_ID (s_Planes st))" and "distinct (map p_ID (s_Portals st))" and "0 < s_NextPortalID st"
  using assms by (auto simp: validateSimulationState_def Let_def split: if_splits)

lemma tick_evolves:
  assumes "ResolveTick order st now rnd cfg r = Ok (tick, st', r')" and "s_NextPortalID st < 9223372036854775807"
  shows "evolves cfg st st'" and "s_NextPortalID st' \<le> s_NextPortalID st + 1"
proof -
  obtain u where u: "validateSimulationState st now cfg = Ok u" using assms(1) by (auto simp: ResolveTick_def)
  note v = validated_IDs [OF u]
  have "evolves cfg st st' \<and> s_NextPortalID st' \<le> s_NextPortalID st + 1"
  proof (cases "case s_LastTickAt st of Some t \<Rightarrow> Equal t now | None \<Rightarrow> False")
    case True
    then show ?thesis using assms(1) u by (simp add: ResolveTick_def)
  next
    case False
    from assms(1) u False obtain s1 s2 s3 r3 spawn s4 r4 where
      s1: "resolvePortalStage st now cfg = Ok s1" and s2: "resolveObserverStage s1 now cfg = Ok s2"
      and s3: "resolveExtractionStage s2 now rnd cfg r = Ok (s3, r3)"
      and s4: "resolveNaturalSpawnPrepared s3 now rnd cfg r3 = Ok (spawn, s4, r4)"
      and st': "st' = s4\<lparr>s_LastTickAt := Some now\<rparr>"
      by (auto simp: ResolveTick_def Let_def)
    have p1: "distinct (map pl_ID (s_Planes s1))" "distinct (map p_ID (s_Portals s1))"
      using v portal_stage(1,2) [OF s1] by (simp_all add: same_but_portals_def comp_def)
    note e1 = portal_stage_evolves [OF s1] and e2 = observer_stage_evolves [OF p1 s2]
      and e3 = extraction_stage_evolves [OF s3]
    have n3: "s_NextPortalID s3 = s_NextPortalID st" using e1(2) e2(2) e3(2) by simp
    note e4 = spawn_evolves [OF s4, unfolded n3, OF v(3) assms(2)]
    have "evolves cfg s4 st'" by (rule evolves_update) (simp_all add: st' same_bodies_def)
    then have "evolves cfg st st'" using e1(1) e2(1) e3(1) e4(1) by (meson evolves_trans)
    then show ?thesis using e4(2) by (simp add: st')
  qed
  then show "evolves cfg st st'" "s_NextPortalID st' \<le> s_NextPortalID st + 1" by simp_all
qed

section \<open>Commands\<close>

lemma Stabilize_kept: "StabilizePortalWithLabEnergy lab portal now cfg = Ok (lab', portal') \<Longrightarrow> kept portal portal'"
  by (auto simp: StabilizePortalWithLabEnergy_def Portal_Stabilize_def kept_def Let_def split: if_splits)

lemma Close_kept:
  assumes "ClosePortalWithLabEnergy lab portal plane observers now confirm cfg = ((lab', portal', plane', observers'), result)"
  shows "kept portal portal'" and "pl_ID plane' = pl_ID plane" and "map o_ID observers' = map o_ID observers"
proof -
  have close: "kept portal shut" if "Portal_Close portal now confirm cfg = Ok shut" for shut
    using that by (auto simp: Portal_Close_def kept_def split: if_splits)
  have "kept portal portal' \<and> pl_ID plane' = pl_ID plane \<and> map o_ID observers' = map o_ID observers"
    if "ClosePortalWithObservers portal plane observers now confirm cfg = ((portal', plane', observers'), result)"
    for result
  proof -
    show ?thesis
      using that by (auto simp: ClosePortalWithObservers_def map_update_kept dest: Lifecycle_identities intro!: close
          split: result.splits option.splits prod.splits if_splits)
  qed
  then show "kept portal portal'" "pl_ID plane' = pl_ID plane" "map o_ID observers' = map o_ID observers"
    using assms by (auto simp: ClosePortalWithLabEnergy_def Let_def split: result.splits prod.splits)
qed

lemma Close_keeps:
  "ClosePortalWithLabEnergy lab portal plane observers now confirm cfg = ((lab', portal', plane', observers'), result) \<Longrightarrow>
   kept portal portal' \<and> pl_ID plane' = pl_ID plane \<and> map o_ID observers' = map o_ID observers"
  using Close_kept [of lab portal plane observers now confirm cfg lab' portal' plane' observers' result] by simp

lemma Send_keeps:
  assumes "SendObserverWithLabEnergy lab portal plane observers now confirm rnd cfg r = Ok (obID, portal', observers', r')"
  shows "map o_ID observers' = map o_ID observers" and "kept portal portal'"
  using assms by (auto simp: SendObserverWithLabEnergy_def SendObserver_def map_update_kept StartOutbound_keeps kept_def
      split: if_splits option.splits)

lemma Recall_keeps:
  assumes "RecallObserverWithLabEnergy lab portal plane observers now confirm rnd cfg r = Ok (obID, portal', observers', r')"
  shows "map o_ID observers' = map o_ID observers" and "kept portal portal'"
  using assms by (auto simp: RecallObserverWithLabEnergy_def RecallObserver_def dest: recallPrepared_keeps)

lemma portalIndex_SomeD: "portalIndex ps i = Some k \<Longrightarrow> k < length ps \<and> p_ID (ps ! k) = i"
  by (auto simp: portalIndex_def dest: find_index_SomeD)

lemma planeIndex_SomeD: "planeIndex pls i = Some k \<Longrightarrow> k < length pls \<and> pl_ID (pls ! k) = i"
  by (auto simp: planeIndex_def dest: find_index_SomeD)

lemma withPortalAndPlaneE:
  assumes "withPortalAndPlane i sim act fail = x"
  obtains k j where "portalIndex (s_Portals sim) i = Some k" and "k < length (s_Portals sim)"
      and "planeIndex (s_Planes sim) (p_DestinationPlaneID (s_Portals sim ! k)) = Some j"
      and "j < length (s_Planes sim)" and "act k j = x"
    | e where "fail e = x"
  using assms by (auto simp: withPortalAndPlane_def dest: portalIndex_SomeD planeIndex_SomeD split: option.splits)

lemma transitCommand_evolves:
  assumes "transitCommand start i confirm sim now rnd cfg r = Ok (sim', r')"
    and "\<And>k j obID portal' observers' r'. start (s_Lab sim) (s_Portals sim ! k) (s_Planes sim ! j) (s_Observers sim) now confirm rnd cfg r =
      Ok (obID, portal', observers', r') \<Longrightarrow> map o_ID observers' = map o_ID (s_Observers sim) \<and> kept (s_Portals sim ! k) portal'"
  shows "evolves cfg sim sim'" and "s_NextPortalID sim' = s_NextPortalID sim"
proof -
  have "evolves cfg sim sim' \<and> s_NextPortalID sim' = s_NextPortalID sim"
    using assms(1) unfolding transitCommand_def
    by (rule withPortalAndPlaneE) (auto simp: same_bodies_def intro!: evolves_update kept_update dest!: assms(2))
  then show "evolves cfg sim sim'" "s_NextPortalID sim' = s_NextPortalID sim" by simp_all
qed

lemma closeCommand_evolves:
  assumes "closeCommand i confirm sim now cfg = (sim', result)"
  shows "evolves cfg sim sim'" and "s_NextPortalID sim' = s_NextPortalID sim"
proof -
  have "evolves cfg sim sim' \<and> s_NextPortalID sim' = s_NextPortalID sim"
    using assms unfolding closeCommand_def
    by (rule withPortalAndPlaneE) (auto simp: same_bodies_def map_update_kept intro!: evolves_update kept_update
        dest!: Close_keeps split: prod.splits)
  then show "evolves cfg sim sim'" "s_NextPortalID sim' = s_NextPortalID sim" by simp_all
qed

lemma openExtraction_evolves:
  assumes "openExtractionCommand i sim now rnd cfg r = Ok (sim', r')"
    and "0 < s_NextPortalID sim" and "s_NextPortalID sim < 9223372036854775807"
  shows "evolves cfg sim sim'" and "s_NextPortalID sim' = s_NextPortalID sim + 1"
proof -
  from assms(1) obtain j pid lab portals where
    op: "OpenExtractionPortal (s_Lab sim) (s_Portals sim) (s_Planes sim ! j) (s_Observers sim) (s_NextPortalID sim) now
        rnd cfg r = Ok (pid, lab, portals, r')"
    and sim': "sim' = sim\<lparr>s_Lab := lab, s_Portals := portals, s_NextPortalID := wrap64 (s_NextPortalID sim + 1)\<rparr>"
    by (auto simp: openExtractionCommand_def split: option.splits)
  from op obtain slot p where "FirstFreeSlot (s_Portals sim) (MaxActivePortals cfg) = Some slot"
    "portals = s_Portals sim @ [p]" "NewExtractionPortal (s_NextPortalID sim) (pl_ID (s_Planes sim ! j)) slot now cfg rnd r = Ok (p, r')"
    by (auto simp: OpenExtractionPortal_def split: option.splits if_splits)
  note s = this(1,2) and f = NewExtractionPortal_fields [OF this(3)]
  show "s_NextPortalID sim' = s_NextPortalID sim + 1" using assms(2,3) by (simp add: sim')
  then show "evolves cfg sim sim'"
    using s f by (intro r_into_rtranclp aggregate_step.open_portal [where p = p]) (auto simp: sim' same_bodies_def)
qed

lemma applyCommand_evolves:
  assumes "applyCommand command sim now rnd cfg r = (sim', result)"
    and "0 < s_NextPortalID sim" and "s_NextPortalID sim < 9223372036854775807"
  shows "evolves cfg sim sim'" and "s_NextPortalID sim' \<le> s_NextPortalID sim + 1"
proof -
  have "evolves cfg sim sim' \<and> s_NextPortalID sim' \<le> s_NextPortalID sim + 1"
  proof (cases command)
    case (CommandStabilize i)
    then show ?thesis
      using assms(1) by (auto simp: stabilizeCommand_def same_bodies_def intro!: evolves_update kept_update
          dest: Stabilize_kept portalIndex_SomeD split: result.splits option.splits)
  next
    case (CommandClose i confirm)
    then show ?thesis using assms(1) closeCommand_evolves [of i confirm sim now cfg] by (auto split: prod.splits)
  next
    case (CommandSend i confirm)
    have "evolves cfg sim s \<and> s_NextPortalID s = s_NextPortalID sim"
      if "transitCommand SendObserverWithLabEnergy i confirm sim now rnd cfg r = Ok (s, q)" for s q
      by (intro conjI transitCommand_evolves [OF that]) (auto dest: Send_keeps)
    then show ?thesis using assms(1) CommandSend by (auto split: result.splits prod.splits)
  next
    case (CommandRecall i confirm)
    have "evolves cfg sim s \<and> s_NextPortalID s = s_NextPortalID sim"
      if "transitCommand RecallObserverWithLabEnergy i confirm sim now rnd cfg r = Ok (s, q)" for s q
      by (intro conjI transitCommand_evolves [OF that]) (auto dest: Recall_keeps)
    then show ?thesis using assms(1) CommandRecall by (auto split: result.splits prod.splits)
  next
    case (CommandOpenExtraction i)
    then show ?thesis
      using assms(1) openExtraction_evolves [OF _ assms(2,3), of i now rnd cfg r] by (auto split: result.splits prod.splits)
  qed
  then show "evolves cfg sim sim'" "s_NextPortalID sim' \<le> s_NextPortalID sim + 1" by simp_all
qed

section \<open>The tutorial\<close>

definition moves :: "Config \<Rightarrow> int \<Rightarrow> SimulationState \<Rightarrow> SimulationState \<Rightarrow> bool" where
  "moves cfg n s t \<longleftrightarrow> evolves cfg s t \<and> s_NextPortalID t \<le> s_NextPortalID s + n"

lemma moves_refl [simp]: "0 \<le> n \<Longrightarrow> moves cfg n s s"
  by (simp add: moves_def)

lemma moves_trans: "moves cfg n s t \<Longrightarrow> moves cfg k t u \<Longrightarrow> moves cfg (n + k) s u"
  by (auto simp: moves_def intro: evolves_trans)

lemma moves_mono: "moves cfg n s t \<Longrightarrow> n \<le> k \<Longrightarrow> moves cfg k s t"
  by (auto simp: moves_def)

lemma moves_spawn [simp]: "0 \<le> n \<Longrightarrow> moves cfg n s (s\<lparr>s_NaturalSpawn := w\<rparr>)"
  by (auto simp: moves_def same_bodies_def intro: evolves_update)

lemma moves_next: "moves cfg n s t \<Longrightarrow> s_NextPortalID s \<le> s_NextPortalID t"
  using evolves_prefix by (auto simp: moves_def)

abbreviation room :: "int \<Rightarrow> Snapshot \<Rightarrow> bool" where
  "room n s \<equiv> s_NextPortalID (sn_Simulation s) < 9223372036854775808 - n"

lemma prepare_moves: "moves cfg 0 (sn_Simulation s) (sn_Simulation (prepareTutorialSpawn s))"
  by (simp add: prepareTutorialSpawn_def)

lemma prepare_fields [simp]:
  "sn_App (prepareTutorialSpawn s) = sn_App s"
  "s_NextPortalID (sn_Simulation (prepareTutorialSpawn s)) = s_NextPortalID (sn_Simulation s)"
  by (simp_all add: prepareTutorialSpawn_def)

lemma create_moves:
  assumes "createTutorialTarget s profile planeID now cfg = Ok s'" and "room 1 s"
  shows "moves cfg 1 (sn_Simulation s) (sn_Simulation s')"
proof -
  from assms(1) obtain slot portal pl where
    slot: "FirstFreeSlot (s_Portals (sn_Simulation s)) (MaxActivePortals cfg) = Some slot"
    and new: "NewTutorialPortal profile (s_NextPortalID (sn_Simulation s)) pl slot now cfg = Ok portal"
    and s': "sn_Simulation s' = (sn_Simulation s)\<lparr>s_Portals := s_Portals (sn_Simulation s) @ [portal],
        s_NextPortalID := wrap64 (s_NextPortalID (sn_Simulation s) + 1)\<rparr>"
    by (auto simp: createTutorialTarget_def Let_def split: if_splits option.splits)
  have f: "0 < s_NextPortalID (sn_Simulation s)" "p_ID portal = s_NextPortalID (sn_Simulation s)"
    "p_SlotIndex portal = slot" "p_Status portal = PortalStatusOpen"
    using new by (auto simp: NewTutorialPortal_def Let_def split: if_splits)
  then have "s_NextPortalID (sn_Simulation s') = s_NextPortalID (sn_Simulation s) + 1" using assms(2) by (simp add: s')
  then show ?thesis
    using slot f by (auto simp: moves_def s' same_bodies_def intro!: r_into_rtranclp aggregate_step.open_portal [where p = portal])
qed

lemma recreate_moves:
  assumes "recreateTerminalTutorialTarget s now cfg = Ok s'" and "room 1 s"
  shows "moves cfg 1 (sn_Simulation s) (sn_Simulation s')"
  using assms by (auto simp: recreateTerminalTutorialTarget_def Let_def intro: create_moves split: option.splits if_splits)

lemma direction_moves:
  assumes "recreateDirectionBrokenTutorialTarget s action err matched now cfg = Ok s'" and "room 1 s"
  shows "moves cfg 1 (sn_Simulation s) (sn_Simulation s')"
  using assms by (auto simp: recreateDirectionBrokenTutorialTarget_def Let_def intro: create_moves split: option.splits if_splits)

lemma enter6_moves:
  assumes "enterTutorialStep6 s now cfg = Ok s'" and "room 1 s"
  shows "moves cfg 1 (sn_Simulation s) (sn_Simulation s')"
  using assms by (auto simp: enterTutorialStep6_def Let_def dest: create_moves split: option.splits if_splits)

lemma advance2_moves:
  "advanceStep2 s now cfg = Ok s' \<Longrightarrow> sn_Simulation s' = sn_Simulation s"
  by (auto simp: advanceStep2_def split: option.splits if_splits)

lemma advance6_moves:
  assumes "advanceStep6 s now cfg = Ok s'" and "room 1 s"
  shows "moves cfg 1 (sn_Simulation s) (sn_Simulation s')"
  using assms by (auto simp: advanceStep6_def Let_def dest: create_moves split: option.splits if_splits)

lemma advance7_moves:
  assumes "advanceStep7 s now cfg = Ok s'" and "room 1 s"
  shows "moves cfg 1 (sn_Simulation s) (sn_Simulation s')"
  using assms by (auto simp: advanceStep7_def Let_def dest: create_moves split: option.splits if_splits)

lemma after_tick_moves:
  assumes "advanceTutorialAfterTick s now cfg = Ok s'" and "room 3 s"
  shows "moves cfg 3 (sn_Simulation s) (sn_Simulation s')"
proof (cases "a_Mode (sn_App s) = ModeTutorial \<and> a_TutorialStep (sn_App s) \<noteq> 0")
  case True
  then obtain s1 s2 s3 where s: "recreateTerminalTutorialTarget (prepareTutorialSpawn s) now cfg = Ok s1"
    "advanceStep2 s1 now cfg = Ok s2" "advanceStep6 s2 now cfg = Ok s3" "advanceStep7 s3 now cfg = Ok s'"
    using assms(1) by (auto simp: advanceTutorialAfterTick_def Let_def)
  have m1: "moves cfg 1 (sn_Simulation (prepareTutorialSpawn s)) (sn_Simulation s1)"
    using assms(2) by (intro recreate_moves [OF s(1)]) simp
  have e: "sn_Simulation s2 = sn_Simulation s1" by (rule advance2_moves [OF s(2)])
  have m2: "moves cfg 1 (sn_Simulation s2) (sn_Simulation s3)"
    using assms(2) m1 e by (intro advance6_moves [OF s(3)]) (simp add: moves_def)
  have m3: "moves cfg 1 (sn_Simulation s3) (sn_Simulation s')"
    using assms(2) m1 m2 e by (intro advance7_moves [OF s(4)]) (simp add: moves_def)
  show ?thesis
    using moves_trans [OF prepare_moves moves_trans [OF m1 moves_trans [OF m2 [unfolded e] m3]]] by simp
next
  case False
  then show ?thesis
    using assms(1) moves_mono [OF prepare_moves] by (auto simp: advanceTutorialAfterTick_def Let_def split: if_splits)
qed

lemma after3_moves:
  assumes "afterCommandStep3 s pid now cfg = Ok s'" and "room 1 s"
  shows "moves cfg 1 (sn_Simulation s) (sn_Simulation s')"
  using assms by (auto simp: afterCommandStep3_def dest: create_moves split: option.splits)

lemma after4_moves:
  assumes "afterCommandStep4 s before now cfg = Ok s'" and "room 1 s"
  shows "moves cfg 1 (sn_Simulation s) (sn_Simulation s')"
  using assms by (auto simp: afterCommandStep4_def dest: create_moves split: option.splits if_splits)

lemma after6_moves:
  assumes "afterCommandStep6 s action pid err matched now cfg = Ok s'" and "room 1 s"
  shows "moves cfg 1 (sn_Simulation s) (sn_Simulation s')"
proof -
  from assms(1) obtain s2 where "recreateDirectionBrokenTutorialTarget s2 action err matched now cfg = Ok s'"
    and "sn_Simulation s2 = sn_Simulation s"
    by (auto simp: afterCommandStep6_def Let_def split: if_splits option.splits)
  then show ?thesis using direction_moves [of s2 action err matched now cfg s'] assms(2) by simp
qed

lemma after_command_moves:
  assumes "advanceTutorialAfterCommand s before action pid err now cfg = Ok s'" and "room 2 s"
  shows "moves cfg 2 (sn_Simulation s) (sn_Simulation s')"
proof (cases "a_Mode (sn_App s) = ModeTutorial")
  case True
  let ?s0 = "prepareTutorialSpawn s"
  let ?enters = "a_TutorialStep (sn_App s) = 5 \<and> action = ''SEND'' \<and> tutorialMatched ?s0 pid \<and>
      (case err of Some e \<Rightarrow> errors_Is e ErrPortalCriticalRisk | None \<Rightarrow> False)"
  note def = assms(1) [unfolded advanceTutorialAfterCommand_def Let_def]
  show ?thesis
  proof (cases ?enters)
    case e: True
    then have "moves cfg 1 (sn_Simulation ?s0) (sn_Simulation s')"
      using def True assms(2) enter6_moves [of "?s0\<lparr>sn_App := (sn_App ?s0)\<lparr>a_TutorialStep := 6\<rparr>\<rparr>" now cfg s'] by simp
    then show ?thesis using moves_mono [OF moves_trans [OF prepare_moves]] by fastforce
  next
    case False
    then obtain t where t: "recreateTerminalTutorialTarget t now cfg = Ok s'"
      and m: "moves cfg 1 (sn_Simulation ?s0) (sn_Simulation t)"
      using def True assms(2) by (auto split: if_splits dest: after3_moves after4_moves after6_moves)
    have r: "moves cfg 1 (sn_Simulation t) (sn_Simulation s')"
      using m assms(2) by (intro recreate_moves [OF t]) (simp add: moves_def)
    show ?thesis using moves_trans [OF prepare_moves moves_trans [OF m r]] by simp
  qed
qed (use assms(1) in \<open>simp add: advanceTutorialAfterCommand_def\<close>)

end
