(* ===== verification/EngineProofs.thy ===== *)
theory EngineProofs
  imports Aggregate
begin

text \<open>
  What the manager guarantees: every operation is a path of the abstract aggregate, an
  operation that fails publishes nothing, and the memory agrees with the repository up to
  the time of the last tick.  The contract the manager relies on is the locale
  \<open>repository\<close>; theory \<open>PersistProofs\<close> interprets it.
\<close>

section \<open>Plans move the aggregate\<close>

lemma catchUp_moves:
  assumes "catchUp env adv s now r = Ok (tick, working, events, r')" and "room 4 s"
  shows "moves (en_cfg env) 4 (sn_Simulation s) (sn_Simulation working)" and "0 < s_NextPortalID (sn_Simulation s)"
proof -
  let ?p = "prepareTutorialSpawn s"
  from assms(1) obtain sim r1 where
    tick: "ResolveTick (en_order env) (sn_Simulation ?p) now (Some (en_random env)) (en_cfg env) r = Ok (tick, sim, r1)"
    and adv: "(if adv then advanceTutorialAfterTick (?p\<lparr>sn_Simulation := sim\<rparr>) now (en_cfg env)
       else Ok (?p\<lparr>sn_Simulation := sim\<rparr>)) = Ok working"
    by (auto simp: catchUp_def Let_def)
  have t: "moves (en_cfg env) 1 (sn_Simulation ?p) sim"
    using tick_evolves [OF tick] assms(2) by (simp add: moves_def)
  have "moves (en_cfg env) 3 sim (sn_Simulation working)"
  proof (cases adv)
    case True
    then show ?thesis
      using adv after_tick_moves [of "?p\<lparr>sn_Simulation := sim\<rparr>" now "en_cfg env" working] t assms(2) by (simp add: moves_def)
  qed (use adv in auto)
  from moves_trans [OF prepare_moves moves_trans [OF t this]]
  show "moves (en_cfg env) 4 (sn_Simulation s) (sn_Simulation working)" by simp
  obtain u where "validateSimulationState (sn_Simulation ?p) now (en_cfg env) = Ok u"
    using tick by (auto simp: ResolveTick_def)
  then show "0 < s_NextPortalID (sn_Simulation s)" using validated_IDs(3) by fastforce
qed

lemma commandPlan_moves:
  assumes "commandPlan env command now m = Ok pn" and "room 8 (m_snapshot m)"
  shows "moves (en_cfg env) 7 (sn_Simulation (m_snapshot m)) (sn_Simulation (pn_snapshot pn))"
proof -
  from assms(1) obtain tick resolved drafts r where
    c: "catchUp env True (m_snapshot m) now (m_random m) = Ok (tick, resolved, drafts, r)"
    by (auto simp: commandPlan_def)
  obtain sim result where a: "applyCommand command (sn_Simulation resolved) now (Some (en_random env)) (en_cfg env) r = (sim, result)"
    by (cases "applyCommand command (sn_Simulation resolved) now (Some (en_random env)) (en_cfg env) r")
  then obtain err where adv: "advanceTutorialAfterCommand (resolved\<lparr>sn_Simulation := sim\<rparr>) resolved (command_action command)
      (command_portalID command) err now (en_cfg env) = Ok (pn_snapshot pn)"
    using assms(1) by (auto simp: commandPlan_def c Let_def split: result.splits)
  have "room 4 (m_snapshot m)" using assms(2) by simp
  note m = catchUp_moves [OF c this]
  have "0 < s_NextPortalID (sn_Simulation resolved)" using moves_next [OF m(1)] m(2) by simp
  moreover have "s_NextPortalID (sn_Simulation resolved) < 9223372036854775807" using m(1) assms(2) by (simp add: moves_def)
  ultimately have k: "moves (en_cfg env) 1 (sn_Simulation resolved) sim"
    using applyCommand_evolves [OF a] by (simp add: moves_def)
  have "moves (en_cfg env) 2 sim (sn_Simulation (pn_snapshot pn))"
    using after_command_moves [OF adv] k m(1) assms(2) by (simp add: moves_def)
  from moves_trans [OF m(1) moves_trans [OF k this]] show ?thesis by simp
qed

lemma applySignal_moves:
  assumes "applyTutorialSignal s signal pid now cfg = Ok s'" and "room 1 s"
  shows "moves cfg 1 (sn_Simulation s) (sn_Simulation s')"
  using assms by (auto simp: applyTutorialSignal_def Let_def dest: create_moves split: if_splits)

lemma signalPlan_moves:
  assumes "signalPlan env signal pid now m = Ok pn" and "room 8 (m_snapshot m)"
  shows "moves (en_cfg env) 7 (sn_Simulation (m_snapshot m)) (sn_Simulation (pn_snapshot pn))"
proof -
  from assms(1) obtain tick resolved drafts r where
    c: "catchUp env True (m_snapshot m) now (m_random m) = Ok (tick, resolved, drafts, r)"
    by (auto simp: signalPlan_def)
  have "room 4 (m_snapshot m)" using assms(2) by simp
  note m = catchUp_moves(1) [OF c this]
  have r: "room 1 resolved" using m assms(2) by (simp add: moves_def)
  have "moves (en_cfg env) 1 (sn_Simulation resolved) (sn_Simulation (pn_snapshot pn))"
    using assms(1) applySignal_moves [OF _ r, of signal pid now "en_cfg env"]
    by (auto simp: signalPlan_def c Let_def split: result.splits)
  then show ?thesis using moves_mono [OF moves_trans [OF m]] by fastforce
qed

lemma rejectionPlan_moves:
  assumes "rejectionPlan env action cause now m = Ok pn" and "room 8 (m_snapshot m)"
  shows "moves (en_cfg env) 7 (sn_Simulation (m_snapshot m)) (sn_Simulation (pn_snapshot pn))"
proof -
  let ?p = "prepareTutorialSpawn (m_snapshot m)"
  from assms(1) obtain tick sim r where
    tick: "ResolveTick (en_order env) (sn_Simulation ?p) now (Some (en_random env)) (en_cfg env) (m_random m) = Ok (tick, sim, r)"
    and pn: "sn_Simulation (pn_snapshot pn) = sim"
    by (auto simp: rejectionPlan_def Let_def)
  have "moves (en_cfg env) 1 (sn_Simulation ?p) sim"
    using tick_evolves [OF tick] assms(2) by (simp add: moves_def)
  from moves_mono [OF moves_trans [OF prepare_moves this]] show ?thesis by (simp add: pn)
qed

text \<open>Going live closes the portals one by one and resolves the transits.\<close>

lemma Portal_Close_kept: "Portal_Close p now confirm cfg = Ok q \<Longrightarrow> kept p q"
  by (auto simp: Portal_Close_def kept_def split: if_splits)

lemma foldM_snoc:
  "foldM (\<lambda>ys x. rbind (f x) (\<lambda>y. Ok (ys @ [y]))) ys xs = Ok zs \<Longrightarrow>
   \<exists>us. zs = ys @ us \<and> list_all2 (\<lambda>x u. f x = Ok u) xs us"
proof (induction xs arbitrary: ys)
  case (Cons x xs)
  then obtain y where y: "f x = Ok y" "foldM (\<lambda>ys x. rbind (f x) (\<lambda>y. Ok (ys @ [y]))) (ys @ [y]) xs = Ok zs" by auto
  from Cons.IH [OF y(2)] y(1) show ?case by auto
qed simp

lemma closeOpenPortals_each:
  assumes "closeOpenPortals ps now cfg = Ok qs"
  shows "list_all2 (\<lambda>p q. (if p_Status p \<noteq> PortalStatusOpen then Ok p else Portal_Close p now True cfg) = Ok q) ps qs"
  using foldM_snoc [OF assms [unfolded closeOpenPortals_def]] by simp

lemma closeOpenPortals_kept: "closeOpenPortals ps now cfg = Ok qs \<Longrightarrow> list_all2 kept ps qs"
  by (drule closeOpenPortals_each, erule list.rel_mono_strong) (auto split: if_splits dest: Portal_Close_kept)

lemma resolveTransitAt_keeps:
  assumes "resolveTransitAt now cfg sim i = Ok sim'"
  shows "same_bodies sim sim' \<and> s_Portals sim' = s_Portals sim \<and> s_NextPortalID sim' = s_NextPortalID sim"
proof (cases "o_Status (s_Observers sim ! i) \<noteq> ObserverOutbound \<and> o_Status (s_Observers sim ! i) \<noteq> ObserverReturning")
  case False
  then obtain pid where "withPortalAndPlane pid sim
       (\<lambda>k j. case ResolveObserverLifecycle (s_Observers sim ! i) (Some (s_Planes sim ! j)) (Some (s_Portals sim ! k)) now cfg of
          ((ob', plane'), result) \<Rightarrow>
            rbind result (\<lambda>_. Ok (sim\<lparr>s_Observers := (s_Observers sim)[i := ob'],
              s_Planes := (case plane' of Some pl \<Rightarrow> (s_Planes sim)[j := pl] | None \<Rightarrow> s_Planes sim)\<rparr>)))
       (\<lambda>_. Fail ErrSimulationInvariant) = Ok sim'"
    using assms by (auto simp: resolveTransitAt_def Let_def split: option.splits)
  then show ?thesis
    by (rule withPortalAndPlaneE)
      (auto simp: same_bodies_def map_update_kept dest: Lifecycle_identities split: prod.splits option.splits)
qed (use assms in \<open>simp add: resolveTransitAt_def\<close>)

lemma resolveTransits_keeps:
  assumes "resolveTransits sim now cfg = Ok sim'"
  shows "same_bodies sim sim' \<and> s_Portals sim' = s_Portals sim \<and> s_NextPortalID sim' = s_NextPortalID sim"
  by (rule foldM_invariant [OF assms [unfolded resolveTransits_def]])
    (auto dest: resolveTransitAt_keeps intro: same_bodies_trans)

lemma startLivePlan_moves:
  assumes "startLivePlan env now m = Ok pn" and "room 8 (m_snapshot m)"
  shows "moves (en_cfg env) 7 (sn_Simulation (m_snapshot m)) (sn_Simulation (pn_snapshot pn))"
proof -
  from assms(1) obtain tick working drafts r where
    c: "catchUp env True (m_snapshot m) now (m_random m) = Ok (tick, working, drafts, r)"
    by (auto simp: startLivePlan_def)
  have "room 4 (m_snapshot m)" using assms(2) by simp
  note m = catchUp_moves(1) [OF c this]
  let ?sim = "sn_Simulation working"
  have "moves (en_cfg env) 0 ?sim (sn_Simulation (pn_snapshot pn))"
  proof (cases "a_Mode (sn_App working) \<noteq> ModeTutorial \<or> a_TutorialStep (sn_App working) \<noteq> 9")
    case True
    then show ?thesis using assms(1) by (auto simp: startLivePlan_def c)
  next
    case False
    then obtain portals ended where p: "closeOpenPortals (s_Portals ?sim) now (en_cfg env) = Ok portals"
      and e: "resolveTransits (?sim\<lparr>s_Portals := portals\<rparr>) now (en_cfg env) = Ok ended"
      and pn: "s_Portals (sn_Simulation (pn_snapshot pn)) = s_Portals ended"
        "same_bodies ended (sn_Simulation (pn_snapshot pn))"
        "s_NextPortalID (sn_Simulation (pn_snapshot pn)) = s_NextPortalID ended"
      using assms(1) by (auto simp: startLivePlan_def c Let_def same_bodies_def)
    show ?thesis
      using closeOpenPortals_kept [OF p] resolveTransits_keeps [OF e] pn
      by (auto simp: moves_def same_bodies_def intro!: evolves_update)
  qed
  from moves_mono [OF moves_trans [OF m this]] show ?thesis by simp
qed

section \<open>Operations as steps\<close>

text \<open>What any operation of the manager is, apart from the reset.\<close>

inductive manager_step :: "('r, 'b, 'd) Env \<Rightarrow> ('r, 'd) LabManager \<Rightarrow> ('r, 'd) LabManager \<Rightarrow> bool" for env where
  tick: "Tick env lock now m = (m', res) \<Longrightarrow> manager_step env m m'"
| state: "State env lock now m = (m', sres) \<Longrightarrow> manager_step env m m'"
| portal_state: "PortalState env lock now i m = (m', pres) \<Longrightarrow> manager_step env m m'"
| command: "executeCommand env lock command now m = (m', res) \<Longrightarrow> manager_step env m m'"
| signal: "ManagerTutorialSignal env lock signal pid now m = (m', res) \<Longrightarrow> manager_step env m m'"
| start_tutorial: "StartTutorial env lock now m = (m', res) \<Longrightarrow> manager_step env m m'"
| start_live: "StartLive env lock now m = (m', res) \<Longrightarrow> manager_step env m m'"

text \<open>
  The effect of a step on memory and repository: nothing at all (a failed commit may leave
  its trace in the repository), a commit that is published, or the publication of a tick
  that changed only its own time.
\<close>

definition commits :: "('r, 'b, 'd) Env \<Rightarrow> ('r, 'd) LabManager \<Rightarrow> ('r, 'd) LabManager \<Rightarrow> bool" where
  "commits env m m' \<longleftrightarrow>
     (\<exists>drafts events. en_Commit env (m_repo m) (m_snapshot m') drafts = (m_repo m', Ok events)) \<and>
     moves (en_cfg env) 7 (sn_Simulation (m_snapshot m)) (sn_Simulation (m_snapshot m'))"

definition rolls_back :: "('r, 'b, 'd) Env \<Rightarrow> ('r, 'd) LabManager \<Rightarrow> ('r, 'd) LabManager \<Rightarrow> bool" where
  "rolls_back env m m' \<longleftrightarrow> m_snapshot m' = m_snapshot m \<and> m_updates m' = m_updates m \<and>
     (m_repo m' = m_repo m \<or>
      (\<exists>s drafts. fst (en_Commit env (m_repo m) s drafts) = m_repo m' \<and> \<not> is_Ok (snd (en_Commit env (m_repo m) s drafts)) \<and>
         moves (en_cfg env) 7 (sn_Simulation (m_snapshot m)) (sn_Simulation s)))"

definition only_ticks :: "('r, 'b, 'd) Env \<Rightarrow> ('r, 'd) LabManager \<Rightarrow> ('r, 'd) LabManager \<Rightarrow> bool" where
  "only_ticks env m m' \<longleftrightarrow> m_repo m' = m_repo m \<and> \<not> meaningfulSnapshotChange (m_snapshot m) (m_snapshot m') \<and>
     moves (en_cfg env) 7 (sn_Simulation (m_snapshot m)) (sn_Simulation (m_snapshot m'))"

lemma transaction_rolled_back:
  assumes "transaction env lock m out = (m', result)"
  shows "m' = m \<or> (\<exists>oc. snd out = Ok oc \<and> m_snapshot m' = oc_snapshot oc \<and> m_random m' = oc_random oc \<and>
        m_repo m' = fst out \<and> m_updates m' = (oc_signal oc \<or> m_updates m) \<and>
        result = (case oc_cause oc of None \<Rightarrow> Ok () | Some e \<Rightarrow> Fail e)) \<or>
      (\<not> is_Ok (snd out) \<and> \<not> is_Ok result \<and> m_snapshot m' = m_snapshot m \<and> m_updates m' = m_updates m \<and>
        m_repo m' = fst out)"
  using assms by (auto simp: transaction_def finishRandom_def Let_def split: option.splits result.splits)

lemma commit_step:
  assumes "transaction env lock m (commitPlan env m signal planned) = (m', result)"
    and "\<And>pn. planned = Ok pn \<Longrightarrow> moves (en_cfg env) 7 (sn_Simulation (m_snapshot m)) (sn_Simulation (pn_snapshot pn))"
  shows "rolls_back env m m' \<or> commits env m m'"
proof (cases planned)
  case (Ok pn)
  obtain d r where c: "en_Commit env (m_repo m) (pn_snapshot pn) (pn_drafts pn) = (d, r)"
    by (cases "en_Commit env (m_repo m) (pn_snapshot pn) (pn_drafts pn)")
  have f: "fst (commitPlan env m signal planned) = d" by (cases r) (simp_all add: commitPlan_def Ok c)
  show ?thesis
  proof (cases r)
    case r: (Ok events)
    then show ?thesis
      using transaction_rolled_back [OF assms(1)] assms(2) [OF Ok] c
      by (auto simp: commitPlan_def Ok rolls_back_def commits_def split: option.splits)
  next
    case (Fail e)
    then show ?thesis
      using transaction_rolled_back [OF assms(1)] assms(2) [OF Ok] c
      by (auto simp: commitPlan_def Ok rolls_back_def intro!: exI [of _ "pn_snapshot pn"] exI [of _ "pn_drafts pn"])
  next
    case Panic
    then show ?thesis
      using transaction_rolled_back [OF assms(1)] assms(2) [OF Ok] c
      by (auto simp: commitPlan_def Ok rolls_back_def intro!: exI [of _ "pn_snapshot pn"] exI [of _ "pn_drafts pn"])
  qed
qed (use transaction_rolled_back [OF assms(1)] in \<open>auto simp: commitPlan_def rolls_back_def\<close>)

lemma resolve_step:
  assumes "resolveLocked env lock now signal adv m = (m', result)" and "room 8 (m_snapshot m)"
  shows "rolls_back env m m' \<or> commits env m m' \<or> only_ticks env m m'"
proof -
  note t = assms(1) [unfolded resolveLocked_def]
  have same: "only_ticks env m m'" if "m_repo m' = m_repo m" "m_snapshot m' = m_snapshot m"
    using that by (simp add: only_ticks_def meaningfulSnapshotChange_def)
  show ?thesis
  proof (cases "staleTick (m_snapshot m) now")
    case True
    then show ?thesis
      using transaction_rolled_back [OF t] same by (auto simp: resolveBody_def rolls_back_def Let_def)
  next
    case fresh: False
    show ?thesis
    proof (cases "catchUp env adv (m_snapshot m) now (m_random m)")
      case (Ok x)
      obtain tick working events r where c: "catchUp env adv (m_snapshot m) now (m_random m) = Ok (tick, working, events, r)"
        using Ok by (cases x) auto
      have mv: "moves (en_cfg env) 7 (sn_Simulation (m_snapshot m)) (sn_Simulation working)"
        using moves_mono [OF catchUp_moves(1) [OF c]] assms(2) by simp
      show ?thesis
      proof (cases "meaningfulSnapshotChange (m_snapshot m) working \<or> events \<noteq> []")
        case True
        then have "transaction env lock m (commitPlan env m signal (Ok \<lparr>pn_snapshot = working, pn_drafts = events,
            pn_cause = None, pn_random = r, pn_label = ''commit resolved state''\<rparr>)) = (m', result)"
          using t fresh by (simp add: resolveBody_def c Let_def)
        then show ?thesis using commit_step mv by fastforce
      next
        case False
        then show ?thesis
          using transaction_rolled_back [OF t] fresh same mv
          by (auto simp: resolveBody_def c Let_def rolls_back_def only_ticks_def split: if_splits)
      qed
    qed (use transaction_rolled_back [OF t] fresh in \<open>auto simp: resolveBody_def rolls_back_def Let_def\<close>)
  qed
qed

lemma unchanged_rolls_back [simp]: "rolls_back env m m"
  by (simp add: rolls_back_def)

lemma manager_step_effect:
  assumes "manager_step env m m'" and "room 8 (m_snapshot m)"
  shows "rolls_back env m m' \<or> commits env m m' \<or> only_ticks env m m'"
  using assms(1)
proof cases
  case (tick lock now res)
  then show ?thesis using resolve_step [OF _ assms(2)] by (simp add: Tick_def)
next
  case (state lock now sres)
  then obtain q where "resolveLocked env lock (UTC now) False False m = (m', q)"
    by (auto simp: State_def split: prod.splits result.splits)
  then show ?thesis using resolve_step [OF _ assms(2)] by blast
next
  case (portal_state lock now i pres)
  then obtain q where "resolveLocked env lock (UTC now) False False m = (m', q)"
    by (auto simp: PortalState_def split: prod.splits result.splits)
  then show ?thesis using resolve_step [OF _ assms(2)] by blast
next
  case (command lock command now res)
  then show ?thesis
    using commit_step commandPlan_moves [OF _ assms(2)] by (fastforce simp: executeCommand_def)
next
  case (signal lock signal pid now res)
  then show ?thesis
    using commit_step signalPlan_moves [OF _ assms(2)] by (fastforce simp: ManagerTutorialSignal_def)
next
  case (start_tutorial lock now res)
  show ?thesis
  proof (cases "lock = None \<and> a_Mode (sn_App (m_snapshot m)) \<noteq> ModeTutorial")
    case True
    then show ?thesis
      using start_tutorial commit_step rejectionPlan_moves [OF _ assms(2)] by (fastforce simp: StartTutorial_def)
  qed (use start_tutorial in \<open>auto simp: StartTutorial_def split: option.splits if_splits\<close>)
next
  case (start_live lock now res)
  then show ?thesis
    using commit_step startLivePlan_moves [OF _ assms(2)] by (fastforce simp: StartLive_def)
qed

section \<open>Runs of the manager\<close>

text \<open>
  A sequence of operations; IDs run out after \<open>2^63\<close> portals, which \<open>room\<close> excludes.
\<close>

inductive manager_run :: "('r, 'b, 'd) Env \<Rightarrow> ('r, 'd) LabManager \<Rightarrow> ('r, 'd) LabManager \<Rightarrow> bool" for env where
  start: "manager_run env m m"
| step: "manager_run env m m' \<Longrightarrow> room 8 (m_snapshot m') \<Longrightarrow> manager_step env m' m'' \<Longrightarrow> manager_run env m m''"
| reset: "manager_run env m m' \<Longrightarrow> ManagerResetTutorial env lock now m' = (m'', res) \<Longrightarrow> manager_run env m m''"

lemma manager_step_evolves:
  assumes "manager_step env m m'" and "room 8 (m_snapshot m)"
  shows "evolves (en_cfg env) (sn_Simulation (m_snapshot m)) (sn_Simulation (m_snapshot m'))"
  using manager_step_effect [OF assms] by (auto simp: rolls_back_def commits_def only_ticks_def moves_def)

lemma reset_cases:
  assumes "ManagerResetTutorial env lock now m = (m', result)"
  obtains (failed) "m_snapshot m' = m_snapshot m" and "m_updates m' = m_updates m" and "\<not> is_Ok result"
      and "m_repo m' = m_repo m \<or> (\<exists>s. fst (en_ResetTutorial env (m_repo m) s) = m_repo m' \<and>
             \<not> is_Ok (snd (en_ResetTutorial env (m_repo m) s)))"
    | (published) "canonicalTutorialSnapshot (m_snapshot m) (UTC now) (ObserverCount (en_cfg env)) (LabEnergyMax (en_cfg env)) =
          Ok (m_snapshot m')"
      and "en_ResetTutorial env (m_repo m) (m_snapshot m') = (m_repo m', Ok ())" and "result = Ok ()"
proof (cases lock)
  case None
  show ?thesis
  proof (cases "canonicalTutorialSnapshot (m_snapshot m) (UTC now) (ObserverCount (en_cfg env)) (LabEnergyMax (en_cfg env))")
    case (Ok reset)
    obtain d q where d: "en_ResetTutorial env (m_repo m) reset = (d, q)" by (cases "en_ResetTutorial env (m_repo m) reset")
    note r = assms [unfolded ManagerResetTutorial_def None option.case Ok result.case d prod.case]
    show ?thesis
    proof (cases q)
      case q: (Ok u)
      then show ?thesis using r d Ok by (intro published) auto
    next
      case (Fail e)
      then show ?thesis using r d by (intro failed) (auto intro!: exI [of _ reset])
    next
      case Panic
      then show ?thesis using r d by (intro failed) (auto intro!: exI [of _ reset])
    qed
  qed (use assms failed None in \<open>auto simp: ManagerResetTutorial_def\<close>)
qed (use assms failed in \<open>auto simp: ManagerResetTutorial_def\<close>)

lemma canonical_fields:
  assumes "canonicalTutorialSnapshot current now n e = Ok s"
  shows "map pl_ID (s_Planes (sn_Simulation s)) = map pl_ID (s_Planes (sn_Simulation current))"
    and "map o_ID (s_Observers (sn_Simulation s)) = map (\<lambda>i. int i + 1) [0..<nat n]"
    and "s_Portals (sn_Simulation s) = []"
  using assms by (auto simp: canonicalTutorialSnapshot_def NewObserverRoster_def NewObserver_def comp_def split: if_splits)

lemma canonical_ok:
  "canonicalTutorialSnapshot current now n e = Ok s \<Longrightarrow> aggregate_ok cfg (sn_Simulation s)"
  by (auto simp: canonicalTutorialSnapshot_def aggregate_ok_def open_slots_def)

lemma manager_run_ok:
  assumes "manager_run env m m'" and "aggregate_ok (en_cfg env) (sn_Simulation (m_snapshot m))"
  shows "aggregate_ok (en_cfg env) (sn_Simulation (m_snapshot m'))"
  using assms
proof (induction rule: manager_run.induct)
  case (step m m' m'')
  then show ?case using aggregate_ok_evolves [OF manager_step_evolves] by blast
next
  case (reset m m' lock now m'' res)
  from reset(2) show ?case by (cases rule: reset_cases) (use reset canonical_ok in auto)
qed simp

section \<open>The contract with the repository\<close>

text \<open>
  What the interface \<open>Repository\<close> promises, for an abstraction \<open>stored\<close> of its state, the
  snapshot a load would return: a commit is one transaction.  A snapshot can follow the
  stored one when it has the same planes and observers and keeps the portals as a prefix;
  \<open>storable\<close> is what the encoding can represent.
\<close>

definition follows :: "Snapshot \<Rightarrow> Snapshot \<Rightarrow> bool" where
  "follows s t \<longleftrightarrow> same_bodies (sn_Simulation s) (sn_Simulation t) \<and>
     (\<exists>new. map p_ID (s_Portals (sn_Simulation t)) = map p_ID (s_Portals (sn_Simulation s)) @ new) \<and>
     sorted_wrt (<) (map p_ID (s_Portals (sn_Simulation t)))"

locale repository =
  fixes commit :: "'d \<Rightarrow> Snapshot \<Rightarrow> EventDraft list \<Rightarrow> 'd \<times> Event list res"
    and reset :: "'d \<Rightarrow> Snapshot \<Rightarrow> 'd \<times> unit res"
    and stored :: "'d \<Rightarrow> Snapshot option"
    and storable :: "Snapshot \<Rightarrow> bool"
  assumes commit_stores: "stored d = Some s \<Longrightarrow> follows s t \<Longrightarrow> storable t \<Longrightarrow>
      commit d t drafts = (d', Ok events) \<Longrightarrow> stored d' = Some t"
    and commit_undone: "stored d = Some s \<Longrightarrow> commit d t drafts = (d', failure) \<Longrightarrow> \<not> is_Ok failure \<Longrightarrow>
      stored d' = Some s"
    and reset_stores: "stored d = Some s \<Longrightarrow> s_Portals (sn_Simulation t) = [] \<Longrightarrow>
      same_bodies (sn_Simulation s) (sn_Simulation t) \<Longrightarrow> storable t \<Longrightarrow> reset d t = (d', Ok u) \<Longrightarrow> stored d' = Some t"
    and reset_undone: "stored d = Some s \<Longrightarrow> reset d t = (d', failure') \<Longrightarrow> \<not> is_Ok failure' \<Longrightarrow> stored d' = Some s"
begin

text \<open>Memory and repository agree, except for the time of the last tick.\<close>

definition agrees :: "('r, 'd) LabManager \<Rightarrow> bool" where
  "agrees m \<longleftrightarrow> (\<exists>s. stored (m_repo m) = Some s \<and> \<not> meaningfulSnapshotChange s (m_snapshot m))"

lemma commit_undone_fst:
  "stored d = Some s \<Longrightarrow> \<not> is_Ok (snd (commit d t drafts)) \<Longrightarrow> stored (fst (commit d t drafts)) = Some s"
  by (cases "commit d t drafts") (auto intro: commit_undone)

lemma reset_undone_fst:
  "stored d = Some s \<Longrightarrow> \<not> is_Ok (snd (reset d t)) \<Longrightarrow> stored (fst (reset d t)) = Some s"
  by (cases "reset d t") (auto intro: reset_undone)

lemma agrees_follows:
  assumes "\<not> meaningfulSnapshotChange s (m_snapshot m)" and "aggregate_ok cfg (sn_Simulation (m_snapshot m))"
    and "moves cfg n (sn_Simulation (m_snapshot m)) (sn_Simulation t)"
  shows "follows s t"
proof -
  have eq: "s_Portals (sn_Simulation s) = s_Portals (sn_Simulation (m_snapshot m))"
    "s_Planes (sn_Simulation s) = s_Planes (sn_Simulation (m_snapshot m))"
    "s_Observers (sn_Simulation s) = s_Observers (sn_Simulation (m_snapshot m))"
    using assms(1) by (auto simp: meaningfulSnapshotChange_def dest!: arg_cong [where f = sn_Simulation]
        dest: arg_cong [where f = s_Portals] arg_cong [where f = s_Planes] arg_cong [where f = s_Observers])
  have e: "evolves cfg (sn_Simulation (m_snapshot m)) (sn_Simulation t)" using assms(3) by (simp add: moves_def)
  obtain old new where p: "same_bodies (sn_Simulation (m_snapshot m)) (sn_Simulation t)"
    "s_Portals (sn_Simulation t) = old @ new" "list_all2 kept (s_Portals (sn_Simulation (m_snapshot m))) old"
    using evolves_prefix [OF e] by blast
  have "aggregate_ok cfg (sn_Simulation t)" by (rule aggregate_ok_evolves [OF e assms(2)])
  then show ?thesis
    using p kept_all_IDs [OF p(3)] by (auto simp: follows_def same_bodies_def eq aggregate_ok_def)
qed

lemma step_agrees:
  assumes "en_Commit env = commit" and "agrees m" and "room 8 (m_snapshot m)"
    and "aggregate_ok (en_cfg env) (sn_Simulation (m_snapshot m))" and "manager_step env m m'" and "storable (m_snapshot m')"
  shows "agrees m'"
proof -
  obtain s where s: "stored (m_repo m) = Some s" "\<not> meaningfulSnapshotChange s (m_snapshot m)"
    using assms(2) by (auto simp: agrees_def)
  from manager_step_effect [OF assms(5,3)] show ?thesis
  proof (elim disjE)
    assume "rolls_back env m m'"
    then have "m_repo m' = m_repo m \<or> (\<exists>t drafts. m_repo m' = fst (commit (m_repo m) t drafts) \<and>
        \<not> is_Ok (snd (commit (m_repo m) t drafts)))" and same: "m_snapshot m' = m_snapshot m"
      unfolding rolls_back_def assms(1) by metis+
    then have "stored (m_repo m') = Some s" using s(1) commit_undone_fst [OF s(1)] by auto
    then show ?thesis using s(2) same by (auto simp: agrees_def)
  next
    assume c: "commits env m m'"
    then have "follows s (m_snapshot m')"
      using agrees_follows [OF s(2) assms(4)] by (auto simp: commits_def)
    then have "stored (m_repo m') = Some (m_snapshot m')"
      using c commit_stores [OF s(1) _ assms(6)] assms(1) by (auto simp: commits_def)
    then show ?thesis by (simp add: agrees_def meaningfulSnapshotChange_def)
  next
    assume "only_ticks env m m'"
    then show ?thesis using s by (auto simp: agrees_def only_ticks_def meaningfulSnapshotChange_def)
  qed
qed

lemma reset_agrees:
  assumes "en_ResetTutorial env = reset" and "agrees m" and "ManagerResetTutorial env lock now m = (m', result)"
    and "storable (m_snapshot m')" and "map o_ID (s_Observers (sn_Simulation (m_snapshot m))) = map (\<lambda>i. int i + 1) [0..<nat (ObserverCount (en_cfg env))]"
  shows "agrees m'"
proof -
  obtain s where s: "stored (m_repo m) = Some s" "\<not> meaningfulSnapshotChange s (m_snapshot m)"
    using assms(2) by (auto simp: agrees_def)
  from assms(3) show ?thesis
  proof (cases rule: reset_cases)
    case failed
    then have "stored (m_repo m') = Some s"
      using s(1) reset_undone_fst [OF s(1)] unfolding assms(1) by metis
    then show ?thesis using s(2) failed(1) by (auto simp: agrees_def)
  next
    case published
    have "s_Planes (sn_Simulation s) = s_Planes (sn_Simulation (m_snapshot m))"
      "s_Observers (sn_Simulation s) = s_Observers (sn_Simulation (m_snapshot m))"
      using s(2) by (auto simp: meaningfulSnapshotChange_def dest!: arg_cong [where f = sn_Simulation]
          dest: arg_cong [where f = s_Planes] arg_cong [where f = s_Observers])
    then have b: "same_bodies (sn_Simulation s) (sn_Simulation (m_snapshot m'))"
      using canonical_fields(1,2) [OF published(1)] assms(5) by (simp add: same_bodies_def)
    have "s_Portals (sn_Simulation (m_snapshot m')) = []" by (rule canonical_fields(3) [OF published(1)])
    then have "stored (m_repo m') = Some (m_snapshot m')"
      using reset_stores [OF s(1) _ b assms(4)] published(2) assms(1) by simp
    then show ?thesis by (simp add: agrees_def meaningfulSnapshotChange_def)
  qed
qed

end

end
