(* ===== verification/Persistence.thy ===== *)
theory Persistence
  imports Codec EngineProofs "HOL-Library.AList"
begin

text \<open>
  The repository of one laboratory (\<open>internal/persistence/state.go\<close>, \<open>load.go\<close>, \<open>lab.go\<close>,
  \<open>store.go\<close>) over the tables of \<open>migrations/*.sql\<close>.  A table is an association list from
  its primary key to a row.  Every statement may fail in the driver, or by a constraint of
  the schema; both errors come from the driver, which is a parameter.  A transaction works
  on its own copy of the tables, which replaces them when it commits.
\<close>

section \<open>Tables\<close>

record plane_row =
  plr_name :: string
  plr_aliases_json :: "string list"
  plr_catalog_tier :: string
  plr_explored :: bool
  plr_explored_at :: "int option"

record portal_row =
  pr_name :: string
  pr_slot_index :: int
  pr_kind :: PortalKind
  pr_destination_plane_id :: int
  pr_energy_base :: f64
  pr_energy_base_at :: int
  pr_energy_decay_rate :: f64
  pr_stability :: PortalStability
  pr_opened_at :: int
  pr_scheduled_close_at :: int
  pr_instability_collapse_at :: "int option"
  pr_creatures_initial :: int
  pr_observer_flow :: PortalFlow
  pr_extraction_synchronized_at :: "int option"
  pr_status :: PortalStatus
  pr_termination_reason :: TerminationReason
  pr_closed_at :: "int option"
  pr_created_at :: int
  pr_updated_at :: int

record observer_row =
  or_status :: ObserverStatus
  or_current_plane_id :: "int option"
  or_active_portal_id :: "int option"
  or_phase_started_at :: "int option"
  or_phase_ends_at :: "int option"
  or_created_at :: int
  or_updated_at :: int

record event_row =
  er_event_type :: EventType
  er_portal_id :: "int option"
  er_observer_id :: "int option"
  er_plane_id :: "int option"
  er_message :: string
  er_payload_json :: json
  er_created_at :: int

record lab_row =
  lr_energy_base :: int
  lr_energy_base_at :: int
  lr_override_until :: "int option"

record app_row =
  ar_mode :: AppMode
  ar_tutorial_step :: int
  ar_tutorial_phase :: TutorialPhase
  ar_tutorial_portal_id :: "int option"
  ar_tutorial_plane_id :: "int option"
  ar_tutorial_observer_id :: "int option"
  ar_next_portal_id :: int
  ar_spawn_scheduled_at :: "int option"
  ar_spawn_due_at :: "int option"
  ar_spawn_paused :: bool
  ar_last_tick_at :: "int option"

type_synonym LabID = string
type_synonym 'row lab_table = "((LabID \<times> int) \<times> 'row) list"

text \<open>
  A row of \<open>labs\<close> has its three times: created, expires, last active.  A row of
  \<open>sessions\<close> has the laboratory, the expiry and the last use; its key is the token hash.
\<close>

record Database =
  db_labs :: "(LabID \<times> int \<times> int \<times> int) list"
  db_planes :: "plane_row lab_table"
  db_portals :: "portal_row lab_table"
  db_observers :: "observer_row lab_table"
  db_events :: "event_row lab_table"
  db_lab_state :: "(LabID \<times> lab_row) list"
  db_app_state :: "(LabID \<times> app_row) list"
  db_sessions :: "(string \<times> LabID \<times> int \<times> int) list"

text \<open>\<open>LabID.Validate\<close>: 32 lowercase hexadecimal digits.\<close>

definition LabID_valid :: "LabID \<Rightarrow> bool" where
  "LabID_valid i \<longleftrightarrow> length i = 32 \<and>
     list_all (\<lambda>c. (CHR ''0'' \<le> c \<and> c \<le> CHR ''9'') \<or> (CHR ''a'' \<le> c \<and> c \<le> CHR ''f'')) i"

section \<open>Statements\<close>

record Driver =
  dr_fault :: "string \<Rightarrow> int \<Rightarrow> error option"
  dr_constraint :: error
  dr_no_rows :: error

definition statement :: "Driver \<Rightarrow> string \<Rightarrow> int \<Rightarrow> bool \<Rightarrow> 'a \<Rightarrow> 'a res" where
  "statement dr table i constraints x =
     (case dr_fault dr table i of
        Some e \<Rightarrow> Fail e
      | None \<Rightarrow> if constraints then Ok x else Fail (dr_constraint dr))"

text \<open>\<open>SELECT ... WHERE lab_id = ? ORDER BY id\<close>.\<close>

definition select_lab :: "LabID \<Rightarrow> 'row lab_table \<Rightarrow> (int \<times> 'row) list" where
  "select_lab lab table =
     sort_key fst (map (\<lambda>((_, i), row). (i, row)) (filter (\<lambda>((l, _), _). l = lab) table))"

abbreviation has_key :: "('k \<times> 'v) list \<Rightarrow> 'k \<Rightarrow> bool" where
  "has_key table k \<equiv> k \<in> fst ` set table"

definition plane_to_row :: "Plane \<Rightarrow> plane_row" where
  "plane_to_row pl = \<lparr>plr_name = pl_Name pl, plr_aliases_json = pl_Aliases pl, plr_catalog_tier = pl_CatalogTier pl,
     plr_explored = pl_Explored pl, plr_explored_at = columnOptionalTime (pl_ExploredAt pl)\<rparr>"

definition persistPlane :: "Driver \<Rightarrow> LabID \<Rightarrow> Database \<Rightarrow> Plane \<Rightarrow> Database res" where
  "persistPlane dr lab db pl =
     rbind (encodeOptionalTime (pl_ExploredAt pl) ''plane.explored_at'') (\<lambda>_.
     wrapError (''persist plane '' @ format_d (pl_ID pl))
       (statement dr ''planes'' (pl_ID pl) (has_key (db_labs db) lab)
          (db\<lparr>db_planes := AList.update (lab, pl_ID pl) (plane_to_row pl) (db_planes db)\<rparr>)))"

definition portal_to_row :: "Portal \<Rightarrow> portal_row" where
  "portal_to_row p = \<lparr>pr_name = p_Name p, pr_slot_index = p_SlotIndex p, pr_kind = p_Kind p,
     pr_destination_plane_id = p_DestinationPlaneID p, pr_energy_base = p_EnergyBase p,
     pr_energy_base_at = columnTime (p_EnergyBaseAt p), pr_energy_decay_rate = p_EnergyDecayRate p,
     pr_stability = p_Stability p, pr_opened_at = columnTime (p_OpenedAt p),
     pr_scheduled_close_at = columnTime (p_ScheduledCloseAt p),
     pr_instability_collapse_at = columnOptionalTime (p_InstabilityCollapseAt p),
     pr_creatures_initial = p_CreaturesInitial p, pr_observer_flow = p_ObserverFlow p,
     pr_extraction_synchronized_at = columnOptionalTime (p_ExtractionSynchronizedAt p), pr_status = p_Status p,
     pr_termination_reason = p_TerminationReason p, pr_closed_at = columnOptionalTime (p_ClosedAt p),
     pr_created_at = columnTime (p_CreatedAt p), pr_updated_at = columnTime (p_UpdatedAt p)\<rparr>"

text \<open>The checks, the foreign keys, and the unique index on the slots of open portals.\<close>

definition portal_constraints :: "LabID \<Rightarrow> Database \<Rightarrow> int \<Rightarrow> portal_row \<Rightarrow> bool" where
  "portal_constraints lab db i row \<longleftrightarrow>
     has_key (db_labs db) lab \<and> 1 \<le> pr_slot_index row \<and> pr_slot_index row \<le> 7 \<and> validPortalKind (pr_kind row) \<and>
     f_le (Fin 0) (pr_energy_base row) \<and> f_less (Fin 0) (pr_energy_decay_rate row) \<and>
     validPortalStability (pr_stability row) \<and> 0 \<le> pr_creatures_initial row \<and> validPortalFlow (pr_observer_flow row) \<and>
     validPortalStatus (pr_status row) \<and> validTerminationReason (pr_termination_reason row) \<and>
     has_key (db_planes db) (lab, pr_destination_plane_id row) \<and>
     (pr_status row = PortalStatusOpen \<longrightarrow>
        list_all (\<lambda>((l, j), other). \<not> (l = lab \<and> j \<noteq> i \<and> pr_status other = PortalStatusOpen \<and>
                                       pr_slot_index other = pr_slot_index row)) (db_portals db))"

definition persistPortal :: "Driver \<Rightarrow> LabID \<Rightarrow> Database \<Rightarrow> Portal \<Rightarrow> Database res" where
  "persistPortal dr lab db p =
     wrapError (''persist portal '' @ format_d (p_ID p))
       (statement dr ''portals'' (p_ID p) (portal_constraints lab db (p_ID p) (portal_to_row p))
          (db\<lparr>db_portals := AList.update (lab, p_ID p) (portal_to_row p) (db_portals db)\<rparr>))"

definition observer_to_row :: "Observer \<Rightarrow> observer_row" where
  "observer_to_row ob = \<lparr>or_status = o_Status ob, or_current_plane_id = o_CurrentPlaneID ob,
     or_active_portal_id = o_ActivePortalID ob, or_phase_started_at = columnOptionalTime (o_PhaseStartedAt ob),
     or_phase_ends_at = columnOptionalTime (o_PhaseEndsAt ob), or_created_at = columnTime (o_CreatedAt ob),
     or_updated_at = columnTime (o_UpdatedAt ob)\<rparr>"

definition observer_constraints :: "LabID \<Rightarrow> Database \<Rightarrow> observer_row \<Rightarrow> bool" where
  "observer_constraints lab db row \<longleftrightarrow>
     has_key (db_labs db) lab \<and> validObserverStatus (or_status row) \<and>
     (case or_current_plane_id row of Some i \<Rightarrow> has_key (db_planes db) (lab, i) | None \<Rightarrow> True) \<and>
     (case or_active_portal_id row of Some i \<Rightarrow> has_key (db_portals db) (lab, i) | None \<Rightarrow> True)"

definition persistObserver :: "Driver \<Rightarrow> LabID \<Rightarrow> Database \<Rightarrow> Observer \<Rightarrow> Database res" where
  "persistObserver dr lab db ob =
     wrapError (''persist observer '' @ format_d (o_ID ob))
       (statement dr ''observers'' (o_ID ob) (observer_constraints lab db (observer_to_row ob))
          (db\<lparr>db_observers := AList.update (lab, o_ID ob) (observer_to_row ob) (db_observers db)\<rparr>))"

definition lab_to_row :: "LabState \<Rightarrow> lab_row" where
  "lab_to_row l = \<lparr>lr_energy_base = l_EnergyBase l, lr_energy_base_at = columnTime (l_EnergyBaseAt l),
     lr_override_until = columnOptionalTime (l_LeylineOverrideUntil l)\<rparr>"

definition app_to_row :: "Snapshot \<Rightarrow> app_row" where
  "app_to_row s =
     (let sim = sn_Simulation s; app = sn_App s in
      \<lparr>ar_mode = a_Mode app, ar_tutorial_step = a_TutorialStep app, ar_tutorial_phase = a_TutorialPhase app,
       ar_tutorial_portal_id = a_TutorialPortalID app, ar_tutorial_plane_id = a_TutorialPlaneID app,
       ar_tutorial_observer_id = a_TutorialObserverID app, ar_next_portal_id = s_NextPortalID sim,
       ar_spawn_scheduled_at = columnOptionalTime (n_ScheduledAt (s_NaturalSpawn sim)),
       ar_spawn_due_at = columnOptionalTime (n_DueAt (s_NaturalSpawn sim)),
       ar_spawn_paused = n_Paused (s_NaturalSpawn sim), ar_last_tick_at = columnOptionalTime (s_LastTickAt sim)\<rparr>)"

definition persistSnapshot :: "Driver \<Rightarrow> LabID \<Rightarrow> Database \<Rightarrow> Snapshot \<Rightarrow> Database res" where
  "persistSnapshot dr lab db s =
     (let sim = sn_Simulation s; app = sn_App s in
      rbind (foldM (persistPlane dr lab) db (s_Planes sim)) (\<lambda>db.
      rbind (foldM (persistPortal dr lab) db (s_Portals sim)) (\<lambda>db.
      rbind (foldM (persistObserver dr lab) db (s_Observers sim)) (\<lambda>db.
      rbind (wrapError ''persist lab state''
               (statement dr ''lab_state'' 0
                  (has_key (db_labs db) lab \<and> 0 \<le> l_EnergyBase (s_Lab sim) \<and> l_EnergyBase (s_Lab sim) \<le> 100)
                  (db\<lparr>db_lab_state := AList.update lab (lab_to_row (s_Lab sim)) (db_lab_state db)\<rparr>))) (\<lambda>db.
      wrapError ''persist app state''
        (statement dr ''app_state'' 0
           (has_key (db_labs db) lab \<and> validAppMode (a_Mode app) \<and> 0 \<le> a_TutorialStep app \<and> 0 < s_NextPortalID sim \<and>
            validTutorialContext (app\<lparr>a_TutorialStep := 0\<rparr>))
           (db\<lparr>db_app_state := AList.update lab (app_to_row s) (db_app_state db)\<rparr>)))))))"

section \<open>Events\<close>

text \<open>
  The next ID of a laboratory, one more than the largest.  An ID is a mathematical integer here
  and a 64-bit column of SQLite in the code: a log of fewer than \<open>2\<^sup>63\<close> events is assumed.
\<close>

definition nextEventID :: "LabID \<Rightarrow> Database \<Rightarrow> int" where
  "nextEventID lab db = fold (\<lambda>(i, _) m. max i m) (select_lab lab (db_events db)) 0 + 1"

definition event_to_row :: "EventDraft \<Rightarrow> event_row" where
  "event_to_row d = \<lparr>er_event_type = d_EventType d, er_portal_id = d_PortalID d, er_observer_id = d_ObserverID d,
     er_plane_id = d_PlaneID d, er_message = d_Message d, er_payload_json = d_PayloadJSON d,
     er_created_at = columnTime (d_CreatedAt d)\<rparr>"

definition insertEvent :: "Driver \<Rightarrow> LabID \<Rightarrow> Database \<Rightarrow> EventDraft \<Rightarrow> (Database \<times> Event) res" where
  "insertEvent dr lab db d =
     rbind (statement dr ''select event id'' 0 True (nextEventID lab db)) (\<lambda>i.
      statement dr ''events'' i
        (has_key (db_labs db) lab \<and> \<not> has_key (db_events db) (lab, i) \<and> IsEventType (d_EventType d) \<and>
         list_ex (\<lambda>c. c \<noteq> CHR '' '') (d_Message d) \<and> isJSONObject (d_PayloadJSON d))
        (db\<lparr>db_events := db_events db @ [((lab, i), event_to_row d)]\<rparr>,
         \<lparr>e_ID = i, e_EventType = d_EventType d, e_PortalID = d_PortalID d, e_ObserverID = d_ObserverID d,
          e_PlaneID = d_PlaneID d, e_Message = d_Message d, e_PayloadJSON = d_PayloadJSON d,
          e_CreatedAt = d_CreatedAt d\<rparr>))"

section \<open>Transactions\<close>

text \<open>
  \<open>BeginTx ... Commit\<close>, with the rollback on every other way out; the errors of the two
  calls are wrapped with a label, or returned as they are.
\<close>

definition labelled :: "string option \<Rightarrow> 'a res \<Rightarrow> 'a res" where
  "labelled label r = (case label of Some l \<Rightarrow> wrapError l r | None \<Rightarrow> r)"

definition inTransaction ::
    "Driver \<Rightarrow> string option \<Rightarrow> ('a \<Rightarrow> string option) \<Rightarrow> Database \<Rightarrow> (Database \<Rightarrow> (Database \<times> 'a) res) \<Rightarrow>
     Database \<times> 'a res" where
  "inTransaction dr beginLabel commitLabel db body =
     (case labelled beginLabel (statement dr ''begin'' 0 True db) of
        Fail e \<Rightarrow> (db, Fail e)
      | Panic \<Rightarrow> (db, Panic)
      | Ok tx \<Rightarrow>
          (case body tx of
             Fail e \<Rightarrow> (db, Fail e)
           | Panic \<Rightarrow> (db, Panic)
           | Ok (tx', x) \<Rightarrow>
               (case labelled (commitLabel x) (statement dr ''commit'' 0 True x) of
                  Ok x \<Rightarrow> (tx', Ok x) | Fail e \<Rightarrow> (db, Fail e) | Panic \<Rightarrow> (db, Panic))))"

definition validateDrafts :: "EventDraft list \<Rightarrow> unit res" where
  "validateDrafts drafts =
     foldM (\<lambda>_ i. wrapError (''validate event '' @ format_d (int i)) (EventDraft_Validate (drafts ! i))) ()
       [0..<length drafts]"

definition orderDrafts :: "EventDraft list \<Rightarrow> EventDraft list" where
  "orderDrafts drafts = SliceStable (\<lambda>a b. Before (d_CreatedAt a) (d_CreatedAt b)) drafts"

definition insertEvents :: "Driver \<Rightarrow> LabID \<Rightarrow> Database \<Rightarrow> EventDraft list \<Rightarrow> (Database \<times> Event list) res" where
  "insertEvents dr lab db drafts =
     foldM (\<lambda>(db, events) i.
         rbind (wrapError (''insert event '' @ format_d (int i)) (insertEvent dr lab db (drafts ! i))) (\<lambda>(db', event).
         Ok (db', events @ [event]))) (db, []) [0..<length drafts]"

definition Commit ::
    "Driver \<Rightarrow> LabID \<Rightarrow> Database \<Rightarrow> Snapshot \<Rightarrow> EventDraft list \<Rightarrow> Database \<times> Event list res" where
  "Commit dr lab db s drafts =
     (if \<not> LabID_valid lab then (db, Fail (Errorf ''commit: nil store''))
      else case rbind (validateSnapshot s) (\<lambda>_. validateDrafts drafts) of
             Fail e \<Rightarrow> (db, Fail e)
           | Panic \<Rightarrow> (db, Panic)
           | Ok _ \<Rightarrow>
               inTransaction dr (Some ''begin state commit'') (\<lambda>_. Some ''commit state'') db (\<lambda>tx.
                 rbind (persistSnapshot dr lab tx s) (\<lambda>tx.
                 insertEvents dr lab tx (orderDrafts drafts))))"

definition delete_lab :: "LabID \<Rightarrow> 'row lab_table \<Rightarrow> 'row lab_table" where
  "delete_lab lab table = filter (\<lambda>((l, _), _). l \<noteq> lab) table"

text \<open>A portal an observer still refers to cannot be deleted.\<close>

definition ResetTutorial :: "Driver \<Rightarrow> LabID \<Rightarrow> Database \<Rightarrow> Snapshot \<Rightarrow> Database \<times> unit res" where
  "ResetTutorial dr lab db s =
     (if \<not> LabID_valid lab then (db, Fail (Errorf ''reset tutorial: nil store''))
      else case validateSnapshot s of
             Fail e \<Rightarrow> (db, Fail e)
           | Panic \<Rightarrow> (db, Panic)
           | Ok _ \<Rightarrow>
               inTransaction dr (Some ''begin tutorial reset'') (\<lambda>_. Some ''commit tutorial reset'') db (\<lambda>tx.
                 rbind (wrapError ''clear tutorial events''
                   (statement dr ''delete events'' 0 True (tx\<lparr>db_events := delete_lab lab (db_events tx)\<rparr>))) (\<lambda>tx.
                 rbind (foldM (persistObserver dr lab) tx (s_Observers (sn_Simulation s))) (\<lambda>tx.
                 rbind (wrapError ''clear tutorial portals''
                   (statement dr ''delete portals'' 0
                      (list_all (\<lambda>((l, _), row). l \<noteq> lab \<or> or_active_portal_id row = None) (db_observers tx))
                      (tx\<lparr>db_portals := delete_lab lab (db_portals tx)\<rparr>))) (\<lambda>tx.
                 rbind (persistSnapshot dr lab tx s) (\<lambda>tx. Ok (tx, ())))))))"

section \<open>Loading\<close>

text \<open>A query of the driver, whose error is wrapped.\<close>

definition query :: "Driver \<Rightarrow> string \<Rightarrow> string \<Rightarrow> 'a \<Rightarrow> 'a res" where
  "query dr label table x = wrapError label (statement dr table 0 True x)"

definition row_to_plane :: "int \<times> plane_row \<Rightarrow> Plane" where
  "row_to_plane = (\<lambda>(i, row). \<lparr>pl_ID = i, pl_Name = plr_name row, pl_Aliases = plr_aliases_json row,
     pl_CatalogTier = plr_catalog_tier row, pl_Explored = plr_explored row,
     pl_ExploredAt = decodeOptionalTime (plr_explored_at row)\<rparr>)"

definition row_to_portal :: "int \<times> portal_row \<Rightarrow> Portal" where
  "row_to_portal = (\<lambda>(i, row). \<lparr>p_ID = i, p_Name = pr_name row, p_SlotIndex = pr_slot_index row, p_Kind = pr_kind row,
     p_DestinationPlaneID = pr_destination_plane_id row, p_EnergyBase = pr_energy_base row,
     p_EnergyBaseAt = decodeTime (pr_energy_base_at row), p_EnergyDecayRate = pr_energy_decay_rate row,
     p_Stability = pr_stability row, p_InstabilityCollapseAt = decodeOptionalTime (pr_instability_collapse_at row),
     p_OpenedAt = decodeTime (pr_opened_at row), p_ScheduledCloseAt = decodeTime (pr_scheduled_close_at row),
     p_CreaturesInitial = pr_creatures_initial row, p_ObserverFlow = pr_observer_flow row,
     p_ExtractionSynchronizedAt = decodeOptionalTime (pr_extraction_synchronized_at row), p_Status = pr_status row,
     p_TerminationReason = pr_termination_reason row, p_ClosedAt = decodeOptionalTime (pr_closed_at row),
     p_CreatedAt = decodeTime (pr_created_at row), p_UpdatedAt = decodeTime (pr_updated_at row)\<rparr>)"

definition row_to_observer :: "int \<times> observer_row \<Rightarrow> Observer" where
  "row_to_observer = (\<lambda>(i, row). \<lparr>o_ID = i, o_Status = or_status row, o_CurrentPlaneID = or_current_plane_id row,
     o_ActivePortalID = or_active_portal_id row, o_PhaseStartedAt = decodeOptionalTime (or_phase_started_at row),
     o_PhaseEndsAt = decodeOptionalTime (or_phase_ends_at row), o_CreatedAt = decodeTime (or_created_at row),
     o_UpdatedAt = decodeTime (or_updated_at row)\<rparr>)"

text \<open>
  The loop of \<open>loadPlanes\<close>, \<open>loadPortals\<close> and \<open>loadObservers\<close>: scan, decode, validate,
  append; and the error of the iteration at its end.
\<close>

definition loadRows ::
    "Driver \<Rightarrow> string \<Rightarrow> string \<Rightarrow> (int \<times> 'r \<Rightarrow> 'a) \<Rightarrow> ('a \<Rightarrow> unit res) \<Rightarrow> (int \<times> 'r) list \<Rightarrow> 'a list res" where
  "loadRows dr entity entities decode validate rows =
     rbind (query dr (''query '' @ entities) (''select '' @ entities) rows) (\<lambda>rows.
     rbind (foldM (\<lambda>xs row.
         rbind (wrapError (''scan '' @ entity) (statement dr (''scan '' @ entities) (fst row) True ())) (\<lambda>_.
         rbind (validate (decode row)) (\<lambda>_. Ok (xs @ [decode row])))) [] rows) (\<lambda>xs.
     query dr (''iterate '' @ entities) (''iterate '' @ entities) xs))"

definition loadPlanes :: "Driver \<Rightarrow> LabID \<Rightarrow> Database \<Rightarrow> Plane list res" where
  "loadPlanes dr lab db =
     loadRows dr ''plane'' ''planes'' row_to_plane validatePlane (select_lab lab (db_planes db))"

definition loadPortals :: "Driver \<Rightarrow> LabID \<Rightarrow> Database \<Rightarrow> Portal list res" where
  "loadPortals dr lab db =
     loadRows dr ''portal'' ''portals'' row_to_portal validatePortal (select_lab lab (db_portals db))"

definition loadObservers :: "Driver \<Rightarrow> LabID \<Rightarrow> Database \<Rightarrow> Observer list res" where
  "loadObservers dr lab db =
     loadRows dr ''observer'' ''observers'' row_to_observer validateObserver (select_lab lab (db_observers db))"

definition snapshot_of ::
    "lab_row \<Rightarrow> app_row \<Rightarrow> Plane list \<Rightarrow> Portal list \<Rightarrow> Observer list \<Rightarrow> Snapshot" where
  "snapshot_of l a planes portals observers =
     \<lparr>sn_Simulation =
        \<lparr>s_Lab = \<lparr>l_EnergyBase = lr_energy_base l, l_EnergyBaseAt = decodeTime (lr_energy_base_at l),
                  l_LeylineOverrideUntil = decodeOptionalTime (lr_override_until l)\<rparr>,
         s_Portals = portals, s_Planes = planes, s_Observers = observers, s_NextPortalID = ar_next_portal_id a,
         s_NaturalSpawn = \<lparr>n_ScheduledAt = decodeOptionalTime (ar_spawn_scheduled_at a),
                           n_DueAt = decodeOptionalTime (ar_spawn_due_at a), n_Paused = ar_spawn_paused a\<rparr>,
         s_LastTickAt = decodeOptionalTime (ar_last_tick_at a)\<rparr>,
      sn_App = \<lparr>a_Mode = ar_mode a, a_TutorialStep = ar_tutorial_step a, a_TutorialPhase = ar_tutorial_phase a,
         a_TutorialPortalID = ar_tutorial_portal_id a, a_TutorialPlaneID = ar_tutorial_plane_id a,
         a_TutorialObserverID = ar_tutorial_observer_id a\<rparr>\<rparr>"

definition row_of :: "Driver \<Rightarrow> string \<Rightarrow> 'a option \<Rightarrow> 'a res" where
  "row_of dr label row = (case row of None \<Rightarrow> Fail (ErrorfWrap label (dr_no_rows dr)) | Some r \<Rightarrow> Ok r)"

definition Load :: "Driver \<Rightarrow> LabID \<Rightarrow> Database \<Rightarrow> Snapshot res" where
  "Load dr lab db =
     (if \<not> LabID_valid lab then Fail (Errorf ''load: nil store'')
      else
        rbind (query dr ''begin snapshot load'' ''begin'' ()) (\<lambda>_.
        rbind (rbind (query dr ''load lab state'' ''select lab_state'' (map_of (db_lab_state db) lab))
                 (row_of dr ''load lab state'')) (\<lambda>l.
        rbind (rbind (query dr ''load app state'' ''select app_state'' (map_of (db_app_state db) lab))
                 (row_of dr ''load app state'')) (\<lambda>a.
        rbind (loadPlanes dr lab db) (\<lambda>planes.
        rbind (loadPortals dr lab db) (\<lambda>portals.
        rbind (loadObservers dr lab db) (\<lambda>observers.
        let snapshot = snapshot_of l a planes portals observers in
        rbind (wrapError ''validate loaded snapshot'' (validateSnapshot snapshot)) (\<lambda>_.
        query dr ''commit snapshot load'' ''commit'' snapshot))))))))"

definition row_to_event :: "int \<times> event_row \<Rightarrow> Event" where
  "row_to_event = (\<lambda>(i, row). \<lparr>e_ID = i, e_EventType = er_event_type row, e_PortalID = er_portal_id row,
     e_ObserverID = er_observer_id row, e_PlaneID = er_plane_id row, e_Message = er_message row,
     e_PayloadJSON = er_payload_json row, e_CreatedAt = decodeTime (er_created_at row)\<rparr>)"

text \<open>\<open>ORDER BY created_at ASC, id ASC\<close>.\<close>

definition ListEvents :: "Driver \<Rightarrow> LabID \<Rightarrow> Database \<Rightarrow> int option \<Rightarrow> Event list res" where
  "ListEvents dr lab db portalID =
     (if \<not> LabID_valid lab then Fail (Errorf ''list events: nil store'')
      else if (case portalID of Some i \<Rightarrow> i \<le> 0 | None \<Rightarrow> False) then Fail (Errorf ''list events: invalid portal ID'')
      else
        loadRows dr ''event'' ''events'' row_to_event
          (\<lambda>e. wrapError (''invalid persisted event '' @ format_d (e_ID e)) (ValidatePersisted e))
          (sort_key (\<lambda>(i, row). (er_created_at row, i))
             (filter (\<lambda>(_, row). portalID = None \<or> er_portal_id row = portalID) (select_lab lab (db_events db)))))"

section \<open>Bootstrap\<close>

text \<open>The seed is the embedded catalog, an argument; an \<open>INSERT\<close> refuses an existing key.\<close>

record planeSeed =
  ps_ID :: int
  ps_Name :: string
  ps_Aliases :: "string list"
  ps_CatalogTier :: string

definition insertRow :: "Driver \<Rightarrow> string \<Rightarrow> string \<Rightarrow> int \<Rightarrow> bool \<Rightarrow> 'a \<Rightarrow> 'a res" where
  "insertRow dr label table i constraints x = wrapError label (statement dr table i constraints x)"

definition insertSeed :: "Driver \<Rightarrow> LabID \<Rightarrow> Database \<Rightarrow> planeSeed \<Rightarrow> Database res" where
  "insertSeed dr lab db seed =
     insertRow dr (''insert plane '' @ format_d (ps_ID seed)) ''planes'' (ps_ID seed)
       (has_key (db_labs db) lab \<and> \<not> has_key (db_planes db) (lab, ps_ID seed))
       (db\<lparr>db_planes := db_planes db @ [((lab, ps_ID seed), \<lparr>plr_name = ps_Name seed, plr_aliases_json = ps_Aliases seed,
             plr_catalog_tier = ps_CatalogTier seed, plr_explored = False, plr_explored_at = None\<rparr>)]\<rparr>)"

definition insertObserver :: "Driver \<Rightarrow> LabID \<Rightarrow> Database \<Rightarrow> Observer \<Rightarrow> Database res" where
  "insertObserver dr lab db ob =
     insertRow dr (''insert observer '' @ format_d (o_ID ob)) ''observers'' (o_ID ob)
       (has_key (db_labs db) lab \<and> \<not> has_key (db_observers db) (lab, o_ID ob) \<and> validObserverStatus (o_Status ob))
       (db\<lparr>db_observers := db_observers db @ [((lab, o_ID ob), \<lparr>or_status = o_Status ob, or_current_plane_id = None,
             or_active_portal_id = None, or_phase_started_at = None, or_phase_ends_at = None,
             or_created_at = UnixNano (o_CreatedAt ob), or_updated_at = UnixNano (o_UpdatedAt ob)\<rparr>)]\<rparr>)"

definition bootstrapTx :: "planeSeed list \<Rightarrow> Driver \<Rightarrow> LabID \<Rightarrow> Database \<Rightarrow> time \<Rightarrow> Config \<Rightarrow> Database res" where
  "bootstrapTx seeds dr lab db now cfg =
     (if length seeds \<noteq> 85 \<or> ObserverCount cfg \<noteq> ObserverCount Default \<or> LabEnergyMax cfg \<noteq> 100
      then Fail (Errorf ''bootstrap: noncanonical configuration'')
      else
        rbind (insertRow dr ''insert laboratory'' ''labs'' 0 (\<not> has_key (db_labs db) lab)
          (db\<lparr>db_labs := db_labs db @ [(lab, UnixNano now, UnixNano (Add now (SessionTTL cfg)), UnixNano now)]\<rparr>)) (\<lambda>db.
        rbind (foldM (insertSeed dr lab) db seeds) (\<lambda>db.
        rbind (NewObserverRoster (ObserverCount cfg) now) (\<lambda>roster.
        rbind (foldM (insertObserver dr lab) db roster) (\<lambda>db.
        rbind (insertRow dr ''insert lab state'' ''lab_state'' 0
            (has_key (db_labs db) lab \<and> \<not> has_key (db_lab_state db) lab)
          (db\<lparr>db_lab_state := db_lab_state db @ [(lab, \<lparr>lr_energy_base = LabEnergyMax cfg, lr_energy_base_at = UnixNano now,
                                                     lr_override_until = None\<rparr>)]\<rparr>)) (\<lambda>db.
        insertRow dr ''insert app state'' ''app_state'' 0 (has_key (db_labs db) lab \<and> \<not> has_key (db_app_state db) lab)
          (db\<lparr>db_app_state := db_app_state db @ [(lab, \<lparr>ar_mode = ModeTutorial, ar_tutorial_step = 0,
             ar_tutorial_phase = TutorialPhaseNone, ar_tutorial_portal_id = None, ar_tutorial_plane_id = None,
             ar_tutorial_observer_id = None, ar_next_portal_id = 1, ar_spawn_scheduled_at = None, ar_spawn_due_at = None,
             ar_spawn_paused = True, ar_last_tick_at = None\<rparr>)]\<rparr>)))))))"

text \<open>The body returns whether the laboratory existed: the commit error is then not wrapped.\<close>

definition Bootstrap ::
    "planeSeed list \<Rightarrow> Driver \<Rightarrow> LabID \<Rightarrow> Database \<Rightarrow> time \<Rightarrow> Config \<Rightarrow> Database \<times> bool res" where
  "Bootstrap seeds dr lab db now cfg =
     (if \<not> LabID_valid lab \<or> IsZero now \<or> \<not> utc now then (db, Fail (Errorf ''bootstrap: invalid input''))
      else if ObserverCount cfg \<noteq> ObserverCount Default \<or> LabEnergyMax cfg \<noteq> 100
      then (db, Fail (Errorf ''bootstrap: noncanonical configuration''))
      else
        inTransaction dr (Some ''begin bootstrap'') (\<lambda>exists. if exists then None else Some ''commit bootstrap'') db (\<lambda>tx.
          rbind (query dr ''inspect bootstrap state'' ''count app_state'' (has_key (db_app_state tx) lab)) (\<lambda>exists.
          if exists then Ok (tx, True)
          else rbind (bootstrapTx seeds dr lab tx now cfg) (\<lambda>tx. Ok (tx, False)))))"

end
