(* ===== verification/PersistProofs.thy ===== *)
theory PersistProofs
  imports Persistence
begin

text \<open>
  What the repository guarantees.  A snapshot that a commit accepts is the snapshot the next
  load returns, when its times fit the column type; the repository meets the contract of the
  manager (locale \<open>repository\<close>); the laboratories are isolated from each other; the
  event log only grows.
\<close>

section \<open>Columns\<close>

definition int64_time :: "time \<Rightarrow> bool" where
  "int64_time t \<longleftrightarrow> int64_range (ns t - unix_epoch)"

definition opt_list :: "'a option \<Rightarrow> 'a list" where
  "opt_list x = (case x of None \<Rightarrow> [] | Some a \<Rightarrow> [a])"

lemma set_opt_list [simp]: "set (opt_list x) = set_option x"
  by (cases x) (simp_all add: opt_list_def)

definition snapshot_times :: "Snapshot \<Rightarrow> time list" where
  "snapshot_times s =
     (let sim = sn_Simulation s; l = s_Lab sim; spawn = s_NaturalSpawn sim in
      l_EnergyBaseAt l # opt_list (l_LeylineOverrideUntil l) @
      opt_list (n_ScheduledAt spawn) @ opt_list (n_DueAt spawn) @ opt_list (s_LastTickAt sim) @
      concat (map (\<lambda>pl. opt_list (pl_ExploredAt pl)) (s_Planes sim)) @
      concat (map (\<lambda>p. [p_EnergyBaseAt p, p_OpenedAt p, p_ScheduledCloseAt p, p_CreatedAt p, p_UpdatedAt p] @
                       opt_list (p_InstabilityCollapseAt p) @ opt_list (p_ExtractionSynchronizedAt p) @
                       opt_list (p_ClosedAt p)) (s_Portals sim)) @
      concat (map (\<lambda>ob. [o_CreatedAt ob, o_UpdatedAt ob] @
                        opt_list (o_PhaseStartedAt ob) @ opt_list (o_PhaseEndsAt ob)) (s_Observers sim)))"

text \<open>Years 1678 to 2262: what \<open>UnixNano\<close> can represent.\<close>

definition storable :: "Snapshot \<Rightarrow> bool" where
  "storable s \<longleftrightarrow> list_all int64_time (snapshot_times s)"

definition stampable :: "time \<Rightarrow> bool" where
  "stampable t \<longleftrightarrow> \<not> IsZero t \<and> utc t"

lemma encodeTime_Ok [simp]: "encodeTime t field = Ok v \<longleftrightarrow> stampable t \<and> v = UnixNano t"
  by (auto simp: encodeTime_def stampable_def)

lemma encodeOptionalTime_Ok [simp]:
  "encodeOptionalTime t field = Ok v \<longleftrightarrow> pred_option stampable t \<and> v = map_option UnixNano t"
  by (cases t) (auto simp: encodeOptionalTime_def encodeTime_def stampable_def)

lemma map_result_eq_Ok [simp]: "map_result f m = Ok y \<longleftrightarrow> (\<exists>x. m = Ok x \<and> y = f x)"
  by (cases m) auto

lemma wrapError_eq_Ok [simp]: "wrapError label r = Ok x \<longleftrightarrow> r = Ok x"
  by (cases r) (simp_all add: wrapError_def)

lemma check_eq_Ok [simp]: "check b msg = Ok u \<longleftrightarrow> b"
  by (simp add: check_def)

lemma encodable_Ok [simp]: "encodable label cs = Ok u \<longleftrightarrow> list_all (\<lambda>(t, _). pred_option stampable t) cs"
  unfolding encodable_def by (induction cs) auto

lemma decode_column [simp]: "stampable t \<Longrightarrow> int64_time t \<Longrightarrow> decodeTime (columnTime t) = t"
  by (cases t) (auto simp: columnTime_def encodeTime_def stampable_def decodeTime_def UnixNano_def int64_time_def wrap64_id)

lemma decode_column_option [simp]:
  "pred_option stampable t \<Longrightarrow> pred_option int64_time t \<Longrightarrow> decodeOptionalTime (columnOptionalTime t) = t"
  by (cases t) (auto simp: columnOptionalTime_def encodeOptionalTime_def decodeOptionalTime_def encodeTime_def
      stampable_def decodeTime_def UnixNano_def int64_time_def wrap64_id time_eq_iff)

lemma plane_roundtrip:
  "validatePlane pl = Ok u \<Longrightarrow> pred_option int64_time (pl_ExploredAt pl) \<Longrightarrow>
   row_to_plane (pl_ID pl, plane_to_row pl) = pl"
  by (simp add: row_to_plane_def plane_to_row_def validatePlane_def Let_def)

definition portal_times :: "Portal \<Rightarrow> bool" where
  "portal_times p \<longleftrightarrow> int64_time (p_EnergyBaseAt p) \<and> int64_time (p_OpenedAt p) \<and> int64_time (p_ScheduledCloseAt p) \<and>
     int64_time (p_CreatedAt p) \<and> int64_time (p_UpdatedAt p) \<and> pred_option int64_time (p_InstabilityCollapseAt p) \<and>
     pred_option int64_time (p_ExtractionSynchronizedAt p) \<and> pred_option int64_time (p_ClosedAt p)"

lemma portal_roundtrip:
  "validatePortal p = Ok u \<Longrightarrow> portal_times p \<Longrightarrow> row_to_portal (p_ID p, portal_to_row p) = p"
  by (simp add: row_to_portal_def portal_to_row_def validatePortal_def portal_times_def Let_def)

definition observer_times :: "Observer \<Rightarrow> bool" where
  "observer_times ob \<longleftrightarrow> int64_time (o_CreatedAt ob) \<and> int64_time (o_UpdatedAt ob) \<and>
     pred_option int64_time (o_PhaseStartedAt ob) \<and> pred_option int64_time (o_PhaseEndsAt ob)"

lemma observer_roundtrip:
  "validateObserver ob = Ok u \<Longrightarrow> observer_times ob \<Longrightarrow> row_to_observer (o_ID ob, observer_to_row ob) = ob"
  by (simp add: row_to_observer_def observer_to_row_def validateObserver_def observer_times_def Let_def)

lemma storable_parts:
  assumes "storable s"
  shows "int64_time (l_EnergyBaseAt (s_Lab (sn_Simulation s)))"
    and "pred_option int64_time (l_LeylineOverrideUntil (s_Lab (sn_Simulation s)))"
    and "pred_option int64_time (n_ScheduledAt (s_NaturalSpawn (sn_Simulation s)))"
    and "pred_option int64_time (n_DueAt (s_NaturalSpawn (sn_Simulation s)))"
    and "pred_option int64_time (s_LastTickAt (sn_Simulation s))"
    and "\<And>pl. pl \<in> set (s_Planes (sn_Simulation s)) \<Longrightarrow> pred_option int64_time (pl_ExploredAt pl)"
    and "\<And>p. p \<in> set (s_Portals (sn_Simulation s)) \<Longrightarrow> portal_times p"
    and "\<And>ob. ob \<in> set (s_Observers (sn_Simulation s)) \<Longrightarrow> observer_times ob"
  using assms unfolding storable_def snapshot_times_def Let_def list_all_iff portal_times_def observer_times_def
  by (auto simp: pred_option_def Ball_def)

section \<open>Tables\<close>

definition lab_rows :: "LabID \<Rightarrow> 'row lab_table \<Rightarrow> (int \<times> 'row) list" where
  "lab_rows lab table = map (\<lambda>((_, i), row). (i, row)) (filter (\<lambda>((l, _), _). l = lab) table)"

lemma lab_rows_Nil [simp]: "lab_rows lab [] = []"
  by (simp add: lab_rows_def)

lemma lab_rows_Cons [simp]:
  "lab_rows lab (((l, i), row) # table) = (if l = lab then [(i, row)] else []) @ lab_rows lab table"
  by (simp add: lab_rows_def)

lemma lab_rows_append [simp]: "lab_rows lab (s @ t) = lab_rows lab s @ lab_rows lab t"
  by (simp add: lab_rows_def)

lemma select_lab_rows: "select_lab lab table = sort_key fst (lab_rows lab table)"
  by (simp add: select_lab_def lab_rows_def)

lemma lab_rows_update [simp]:
  "lab_rows lab (AList.update (l, i) row table) =
   (if l = lab then AList.update i row (lab_rows lab table) else lab_rows lab table)"
proof (induction table)
  case (Cons x table)
  obtain l' i' row' where "x = ((l', i'), row')" by (metis prod.exhaust)
  then show ?case using Cons by auto
qed simp

lemma lab_rows_delete [simp]: "lab_rows lab (delete_lab l table) = (if l = lab then [] else lab_rows lab table)"
proof (induction table)
  case (Cons x table)
  obtain l' i' row' where "x = ((l', i'), row')" by (metis prod.exhaust)
  then show ?case using Cons by (auto simp: delete_lab_def)
qed (simp add: delete_lab_def)

text \<open>An upsert of every element of a list, whose keys cover those of the table.\<close>

definition upserts :: "('a \<Rightarrow> int) \<Rightarrow> ('a \<Rightarrow> 'row) \<Rightarrow> 'a list \<Rightarrow> (int \<times> 'row) list \<Rightarrow> (int \<times> 'row) list" where
  "upserts key to_row xs rows = fold (\<lambda>x. AList.update (key x) (to_row x)) xs rows"

lemma upserts_keys: "fst ` set (upserts key to_row xs rows) = fst ` set rows \<union> key ` set xs"
  by (induction xs arbitrary: rows) (auto simp: upserts_def dom_update)

lemma upserts_distinct: "distinct (map fst rows) \<Longrightarrow> distinct (map fst (upserts key to_row xs rows))"
  by (induction xs arbitrary: rows) (simp_all add: upserts_def distinct_update)

lemma upserts_map_of:
  "distinct (map key xs) \<Longrightarrow> x \<in> set xs \<Longrightarrow> map_of (upserts key to_row xs rows) (key x) = Some (to_row x)"
proof (induction xs arbitrary: rows rule: rev_induct)
  case (snoc y ys)
  have "key x \<noteq> key y" if "x \<noteq> y"
  proof -
    have "x \<in> set ys" using snoc.prems(2) that by simp
    then have "key x \<in> key ` set ys" by (rule imageI)
    then show ?thesis using snoc.prems(1) by auto
  qed
  then show ?case using snoc by (cases "x = y") (simp_all add: upserts_def update_conv')
qed simp

lemma sort_upserts:
  assumes "distinct (map fst rows)" and "fst ` set rows \<subseteq> key ` set xs" and "sorted_wrt (<) (map key xs)"
  shows "sort_key fst (upserts key to_row xs rows) = map (\<lambda>x. (key x, to_row x)) xs"
proof -
  let ?u = "upserts key to_row xs rows"
  have d: "distinct (map key xs)" using assms(3) strict_sorted_iff by blast
  have "set ?u = (\<lambda>x. (key x, to_row x)) ` set xs"
  proof -
    have "(i, row) \<in> set ?u \<longleftrightarrow> (\<exists>x\<in>set xs. i = key x \<and> row = to_row x)" for i row
    proof
      assume m: "(i, row) \<in> set ?u"
      then have "i \<in> key ` set xs" using assms(2) upserts_keys [of key to_row xs rows] by (metis fst_conv image_eqI sup.orderE sup_commute)
      then obtain x where x: "x \<in> set xs" "i = key x" by blast
      have "map_of ?u i = Some row" by (rule map_of_is_SomeI [OF upserts_distinct [OF assms(1)] m])
      then have "row = to_row x" using upserts_map_of [OF d x(1), of to_row rows] x(2) by simp
      then show "\<exists>x\<in>set xs. i = key x \<and> row = to_row x" using x by blast
    next
      assume "\<exists>x\<in>set xs. i = key x \<and> row = to_row x"
      then show "(i, row) \<in> set ?u" using upserts_map_of [OF d] map_of_SomeD by fastforce
    qed
    then show ?thesis by auto
  qed
  moreover have "distinct ?u" using upserts_distinct [OF assms(1)] distinct_map by blast
  moreover have "distinct (map (\<lambda>x. (key x, to_row x)) xs)"
    using d by (auto simp: distinct_map inj_on_def)
  ultimately have "mset ?u = mset (map (\<lambda>x. (key x, to_row x)) xs)"
    by (metis set_eq_iff_mset_eq_distinct list.set_map)
  moreover have "inj_on fst (set ?u)" using upserts_distinct [OF assms(1)] distinct_map by blast
  ultimately have "sort_key fst ?u = sort_key fst (map (\<lambda>x. (key x, to_row x)) xs)"
    using \<open>distinct ?u\<close> by (rule sort_key_inj_perm)
  moreover have "sorted (map fst (map (\<lambda>x. (key x, to_row x)) xs))"
    using assms(3) by (simp add: comp_def strict_sorted_iff)
  ultimately show ?thesis by (simp add: sort_key_id_if_sorted)
qed

lemma lab_rows_upserts [simp]:
  "lab_rows l (fold (\<lambda>x. AList.update (lab, key x) (to_row x)) xs table) =
   (if l = lab then upserts key to_row xs (lab_rows lab table) else lab_rows l table)"
  by (induction xs arbitrary: table) (auto simp: upserts_def)

section \<open>Writing a snapshot\<close>

lemma statement_Ok [simp]: "statement dr table i c x = Ok y \<longleftrightarrow> dr_fault dr table i = None \<and> c \<and> y = x"
  by (auto simp: statement_def split: option.splits)

lemma foldM_is_fold:
  assumes "foldM f s xs = Ok s'" and "\<And>s x t. f s x = Ok t \<Longrightarrow> t = g x s"
  shows "s' = fold g xs s"
  using assms(1) by (induction xs arbitrary: s) (auto dest: assms(2))

lemma fold_field:
  "fold (\<lambda>x db. db\<lparr>db_planes := u x (db_planes db)\<rparr>) xs db = db\<lparr>db_planes := fold u xs (db_planes db)\<rparr>"
  "fold (\<lambda>x db. db\<lparr>db_portals := v x (db_portals db)\<rparr>) ys db = db\<lparr>db_portals := fold v ys (db_portals db)\<rparr>"
  "fold (\<lambda>x db. db\<lparr>db_observers := w x (db_observers db)\<rparr>) zs db = db\<lparr>db_observers := fold w zs (db_observers db)\<rparr>"
  by (induction xs arbitrary: db, simp_all) (induction ys arbitrary: db, simp_all, induction zs arbitrary: db, simp_all)

lemma persistPlanes_effect:
  "foldM (persistPlane dr lab) db pls = Ok db' \<Longrightarrow>
   db' = db\<lparr>db_planes := fold (\<lambda>pl. AList.update (lab, pl_ID pl) (plane_to_row pl)) pls (db_planes db)\<rparr>"
  unfolding fold_field [symmetric] by (erule foldM_is_fold) (auto simp: persistPlane_def)

lemma persistPortals_effect:
  "foldM (persistPortal dr lab) db ps = Ok db' \<Longrightarrow>
   db' = db\<lparr>db_portals := fold (\<lambda>p. AList.update (lab, p_ID p) (portal_to_row p)) ps (db_portals db)\<rparr>"
  unfolding fold_field [symmetric] by (erule foldM_is_fold) (auto simp: persistPortal_def)

lemma persistObservers_effect:
  "foldM (persistObserver dr lab) db obs = Ok db' \<Longrightarrow>
   db' = db\<lparr>db_observers := fold (\<lambda>ob. AList.update (lab, o_ID ob) (observer_to_row ob)) obs (db_observers db)\<rparr>"
  unfolding fold_field [symmetric] by (erule foldM_is_fold) (auto simp: persistObserver_def)

lemma persistSnapshot_effect:
  assumes "persistSnapshot dr lab db s = Ok db'"
  shows "db' = db\<lparr>
    db_planes := fold (\<lambda>pl. AList.update (lab, pl_ID pl) (plane_to_row pl)) (s_Planes (sn_Simulation s)) (db_planes db),
    db_portals := fold (\<lambda>p. AList.update (lab, p_ID p) (portal_to_row p)) (s_Portals (sn_Simulation s)) (db_portals db),
    db_observers := fold (\<lambda>ob. AList.update (lab, o_ID ob) (observer_to_row ob)) (s_Observers (sn_Simulation s)) (db_observers db),
    db_lab_state := AList.update lab (lab_to_row (s_Lab (sn_Simulation s))) (db_lab_state db),
    db_app_state := AList.update lab (app_to_row s) (db_app_state db)\<rparr>"
  using assms by (auto simp: persistSnapshot_def Let_def dest!: persistPlanes_effect persistPortals_effect persistObservers_effect)

section \<open>Reading it back\<close>

lemma validated_planes:
  "foldM (\<lambda>planeIDs pl.
         rbind (validatePlane pl) (\<lambda>_.
         rbind (check (pl_ID pl \<notin> planeIDs) (label pl)) (\<lambda>_.
         Ok (insert (pl_ID pl) planeIDs)))) seen planes = Ok ids \<Longrightarrow>
   (\<forall>pl\<in>set planes. validatePlane pl = Ok ()) \<and> distinct (map pl_ID planes) \<and> pl_ID ` set planes \<inter> seen = {}"
  by (induction planes arbitrary: seen) auto

lemma validated_portals:
  "foldM (\<lambda>(portalIDs, maxPortalID) p.
         rbind (validatePortal p) (\<lambda>_.
         rbind (check (p_DestinationPlaneID p \<in> planeIDs) (label p)) (\<lambda>_.
         rbind (check (p_ID p \<notin> portalIDs) (label' p)) (\<lambda>_.
         Ok (insert (p_ID p) portalIDs, if maxPortalID < p_ID p then p_ID p else maxPortalID))))) seen portals = Ok ids \<Longrightarrow>
   (\<forall>p\<in>set portals. validatePortal p = Ok ()) \<and> distinct (map p_ID portals) \<and> p_ID ` set portals \<inter> fst seen = {}"
proof (induction portals arbitrary: seen)
  case (Cons p portals)
  obtain S m where seen: "seen = (S, m)" by (cases seen)
  from Cons.prems show ?case
    using Cons.IH [of "(insert (p_ID p) S, if m < p_ID p then p_ID p else m)"] by (auto simp: seen)
qed simp

lemma validated_observers:
  "foldM (\<lambda>observerIDs ob.
         rbind (validateObserver ob) (\<lambda>_.
         rbind (check (o_ID ob \<notin> observerIDs) (label ob)) (\<lambda>_.
         rbind (check (plane_ok ob) (label' ob)) (\<lambda>_.
         rbind (check (portal_ok ob) (label'' ob)) (\<lambda>_.
         Ok (insert (o_ID ob) observerIDs)))))) seen observers = Ok ids \<Longrightarrow>
   (\<forall>ob\<in>set observers. validateObserver ob = Ok ()) \<and> distinct (map o_ID observers) \<and> o_ID ` set observers \<inter> seen = {}"
  by (induction observers arbitrary: seen) auto

lemma validated_snapshot:
  assumes "validateSnapshot s = Ok u"
  shows "\<And>pl. pl \<in> set (s_Planes (sn_Simulation s)) \<Longrightarrow> validatePlane pl = Ok ()"
    and "\<And>p. p \<in> set (s_Portals (sn_Simulation s)) \<Longrightarrow> validatePortal p = Ok ()"
    and "\<And>ob. ob \<in> set (s_Observers (sn_Simulation s)) \<Longrightarrow> validateObserver ob = Ok ()"
    and "distinct (map pl_ID (s_Planes (sn_Simulation s)))" and "distinct (map p_ID (s_Portals (sn_Simulation s)))"
    and "distinct (map o_ID (s_Observers (sn_Simulation s)))"
    and "stampable (l_EnergyBaseAt (s_Lab (sn_Simulation s)))"
    and "pred_option stampable (l_LeylineOverrideUntil (s_Lab (sn_Simulation s)))"
    and "pred_option stampable (n_ScheduledAt (s_NaturalSpawn (sn_Simulation s)))"
    and "pred_option stampable (n_DueAt (s_NaturalSpawn (sn_Simulation s)))"
    and "pred_option stampable (s_LastTickAt (sn_Simulation s))"
proof -
  obtain planeIDs portalIDs m observerIDs where
    "validateSnapshotPlanes (s_Planes (sn_Simulation s)) = Ok planeIDs"
    "validateSnapshotPortals planeIDs (s_Portals (sn_Simulation s)) = Ok (portalIDs, m)"
    "validateSnapshotObservers planeIDs portalIDs (s_Observers (sn_Simulation s)) = Ok observerIDs"
    using assms by (auto simp: validateSnapshot_def Let_def)
  note v = validated_planes [OF this(1) [unfolded validateSnapshotPlanes_def]]
    validated_portals [OF this(2) [unfolded validateSnapshotPortals_def]]
    validated_observers [OF this(3) [unfolded validateSnapshotObservers_def]]
  show "distinct (map pl_ID (s_Planes (sn_Simulation s)))" "distinct (map p_ID (s_Portals (sn_Simulation s)))"
    "distinct (map o_ID (s_Observers (sn_Simulation s)))" using v by auto
  show "pl \<in> set (s_Planes (sn_Simulation s)) \<Longrightarrow> validatePlane pl = Ok ()"
    "p \<in> set (s_Portals (sn_Simulation s)) \<Longrightarrow> validatePortal p = Ok ()"
    "ob \<in> set (s_Observers (sn_Simulation s)) \<Longrightarrow> validateObserver ob = Ok ()" for pl p ob using v by auto
  show "stampable (l_EnergyBaseAt (s_Lab (sn_Simulation s)))"
    "pred_option stampable (l_LeylineOverrideUntil (s_Lab (sn_Simulation s)))"
    "pred_option stampable (n_ScheduledAt (s_NaturalSpawn (sn_Simulation s)))"
    "pred_option stampable (n_DueAt (s_NaturalSpawn (sn_Simulation s)))"
    "pred_option stampable (s_LastTickAt (sn_Simulation s))" using assms by (auto simp: validateSnapshot_def Let_def)
qed

text \<open>A read without a fault of the driver.\<close>

lemma loadRows_Ok:
  assumes "dr_fault dr = (\<lambda>_ _. None)"
  shows "loadRows dr entity entities decode validate rows = Ok xs \<longleftrightarrow>
    xs = map decode rows \<and> (\<forall>x\<in>set xs. validate x = Ok ())"
proof -
  have "foldM (\<lambda>xs row.
         rbind (wrapError label (statement dr table (fst row) True ())) (\<lambda>_.
         rbind (validate (decode row)) (\<lambda>_. Ok (xs @ [decode row])))) ys rows = Ok zs \<longleftrightarrow>
    zs = ys @ map decode rows \<and> (\<forall>x\<in>set (map decode rows). validate x = Ok ())" for label table ys zs
    by (induction rows arbitrary: ys) (auto simp: assms)
  then show ?thesis by (auto simp: loadRows_def query_def assms)
qed

definition load_image :: "LabID \<Rightarrow> Database \<Rightarrow> lab_row \<Rightarrow> app_row \<Rightarrow> Snapshot" where
  "load_image lab db l a =
     snapshot_of l a (map row_to_plane (select_lab lab (db_planes db)))
       (map row_to_portal (select_lab lab (db_portals db))) (map row_to_observer (select_lab lab (db_observers db)))"

lemma Load_Ok:
  assumes "dr_fault dr = (\<lambda>_ _. None)"
  shows "Load dr lab db = Ok s \<longleftrightarrow>
    LabID_valid lab \<and> validateSnapshot s = Ok () \<and>
    (\<exists>l a. map_of (db_lab_state db) lab = Some l \<and> map_of (db_app_state db) lab = Some a \<and> s = load_image lab db l a)"
proof
  assume "Load dr lab db = Ok s"
  then show "LabID_valid lab \<and> validateSnapshot s = Ok () \<and>
    (\<exists>l a. map_of (db_lab_state db) lab = Some l \<and> map_of (db_app_state db) lab = Some a \<and> s = load_image lab db l a)"
    by (auto simp: Load_def query_def assms Let_def row_of_def loadPlanes_def loadPortals_def loadObservers_def
        loadRows_Ok load_image_def split: if_splits option.splits)
next
  assume r: "LabID_valid lab \<and> validateSnapshot s = Ok () \<and>
    (\<exists>l a. map_of (db_lab_state db) lab = Some l \<and> map_of (db_app_state db) lab = Some a \<and> s = load_image lab db l a)"
  then have "pl \<in> set (s_Planes (sn_Simulation s)) \<Longrightarrow> validatePlane pl = Ok ()"
    "p \<in> set (s_Portals (sn_Simulation s)) \<Longrightarrow> validatePortal p = Ok ()"
    "ob \<in> set (s_Observers (sn_Simulation s)) \<Longrightarrow> validateObserver ob = Ok ()" for pl p ob
    using validated_snapshot(1-3) by blast+
  then show "Load dr lab db = Ok s"
    using r by (auto simp: Load_def query_def assms Let_def row_of_def loadPlanes_def loadPortals_def loadObservers_def
        loadRows_Ok load_image_def snapshot_of_def)
qed

section \<open>The event log\<close>

definition event_at :: "int \<Rightarrow> EventDraft \<Rightarrow> Event" where
  "event_at i d = \<lparr>e_ID = i, e_EventType = d_EventType d, e_PortalID = d_PortalID d, e_ObserverID = d_ObserverID d,
     e_PlaneID = d_PlaneID d, e_Message = d_Message d, e_PayloadJSON = d_PayloadJSON d, e_CreatedAt = d_CreatedAt d\<rparr>"

text \<open>The rows of some drafts, from the next free ID on.\<close>

definition event_rows :: "LabID \<Rightarrow> int \<Rightarrow> EventDraft list \<Rightarrow> event_row lab_table" where
  "event_rows lab n drafts = map2 (\<lambda>i d. ((lab, n + int i), event_to_row d)) [0..<length drafts] drafts"

definition events_from :: "int \<Rightarrow> EventDraft list \<Rightarrow> Event list" where
  "events_from n drafts = map2 (\<lambda>i d. event_at (n + int i) d) [0..<length drafts] drafts"

lemma events_snoc [simp]:
  "event_rows lab n (ds @ [d]) = event_rows lab n ds @ [((lab, n + int (length ds)), event_to_row d)]"
  "events_from n (ds @ [d]) = events_from n ds @ [event_at (n + int (length ds)) d]"
  by (simp_all add: event_rows_def events_from_def)

lemma events_Nil [simp]: "event_rows lab n [] = []" "events_from n [] = []"
  by (simp_all add: event_rows_def events_from_def)

lemma lab_rows_event_rows [simp]:
  "lab_rows l (event_rows lab n ds) = (if l = lab then map2 (\<lambda>i d. (n + int i, event_to_row d)) [0..<length ds] ds else [])"
  by (induction ds rule: rev_induct) auto

lemma nextEventID_Max: "nextEventID lab db = Max (insert 0 (fst ` set (lab_rows lab (db_events db)))) + 1"
proof -
  have "fold (\<lambda>(i, _) m. max i m) rows m = Max (insert m (fst ` set rows))" for rows :: "(int \<times> event_row) list" and m
  proof (induction rows arbitrary: m)
    case (Cons row rows)
    have "Max (insert (max (fst row) m) S) = Max (insert (fst row) (insert m S))" if "finite S" for S
      using that by (cases "S = {}") (simp_all add: max.assoc)
    then show ?case using Cons by (simp add: split_beta insert_commute)
  qed simp
  then show ?thesis by (simp add: nextEventID_def select_lab_rows)
qed

lemma nextEventID_fresh: "\<not> has_key (db_events db) (lab, nextEventID lab db)"
proof
  assume "has_key (db_events db) (lab, nextEventID lab db)"
  then have "nextEventID lab db \<in> fst ` set (lab_rows lab (db_events db))"
    by (force simp: lab_rows_def)
  then show False
    using Max_ge [of "insert 0 (fst ` set (lab_rows lab (db_events db)))" "nextEventID lab db"]
    by (simp add: nextEventID_Max)
qed

lemma nextEventID_pos: "0 < nextEventID lab db"
  using Max_ge [of "insert 0 (fst ` set (lab_rows lab (db_events db)))" 0] by (simp add: nextEventID_Max)

lemma nextEventID_append:
  "nextEventID lab (db\<lparr>db_events := db_events db @ event_rows lab (nextEventID lab db) ds\<rparr>) =
   nextEventID lab db + int (length ds)"
proof (induction ds rule: rev_induct)
  case (snoc d ds)
  let ?n = "nextEventID lab db"
  let ?S = "fst ` set (lab_rows lab (db_events db @ event_rows lab ?n ds))"
  have "Max (insert 0 ?S) + 1 = ?n + int (length ds)" using snoc by (simp add: nextEventID_Max)
  moreover have "Max (insert (?n + int (length ds)) (insert 0 ?S)) = max (?n + int (length ds)) (Max (insert 0 ?S))"
    by (rule Max_insert) auto
  ultimately have "Max (insert (?n + int (length ds)) (insert 0 ?S)) = ?n + int (length ds)" by simp
  moreover have "nextEventID lab (db\<lparr>db_events := db_events db @ event_rows lab ?n (ds @ [d])\<rparr>) =
      Max (insert (?n + int (length ds)) (insert 0 ?S)) + 1"
    by (simp add: nextEventID_Max insert_commute Un_commute)
  ultimately show ?case by simp
qed simp

lemma insertEvents_effect:
  assumes "insertEvents dr lab db drafts = Ok (db', events)"
  shows "db' = db\<lparr>db_events := db_events db @ event_rows lab (nextEventID lab db) drafts\<rparr> \<and>
    events = events_from (nextEventID lab db) drafts"
proof -
  let ?step = "\<lambda>(db, events) i. rbind (wrapError (''insert event '' @ format_d (int i)) (insertEvent dr lab db (drafts ! i)))
    (\<lambda>(db', event). Ok (db', events @ [event]))"
  have "k \<le> length drafts \<Longrightarrow> foldM ?step (db, []) [0..<k] = Ok (db', events) \<Longrightarrow>
      db' = db\<lparr>db_events := db_events db @ event_rows lab (nextEventID lab db) (take k drafts)\<rparr> \<and>
      events = events_from (nextEventID lab db) (take k drafts)" for k db' events
  proof (induction k arbitrary: db' events)
    case (Suc k)
    obtain db1 ev1 where prev: "foldM ?step (db, []) [0..<k] = Ok (db1, ev1)"
      and step: "?step (db1, ev1) k = Ok (db', events)"
      using Suc.prems(2) by (auto simp: foldM_append)
    have eq: "db1 = db\<lparr>db_events := db_events db @ event_rows lab (nextEventID lab db) (take k drafts)\<rparr>"
      "ev1 = events_from (nextEventID lab db) (take k drafts)"
      using Suc.IH [OF _ prev] Suc.prems(1) by auto
    have n: "nextEventID lab db1 = nextEventID lab db + int k"
      using nextEventID_append [of lab db "take k drafts"] Suc.prems(1) by (simp add: eq min_def)
    have "take (Suc k) drafts = take k drafts @ [drafts ! k]"
      using Suc.prems(1) by (simp add: take_Suc_conv_app_nth)
    then show ?case
      using step n Suc.prems(1) by (auto simp: insertEvent_def event_at_def eq min_def)
  qed simp
  from this [of "length drafts"] show ?thesis using assms by (simp add: insertEvents_def)
qed

section \<open>Transactions\<close>

lemma labelled_eq_Ok [simp]: "labelled label r = Ok x \<longleftrightarrow> r = Ok x"
  by (auto simp: labelled_def split: option.splits)

lemma inTransaction_effect:
  assumes "inTransaction dr beginLabel commitLabel db body = (db', result)"
  shows "(\<not> is_Ok result \<and> db' = db) \<or> (\<exists>x. result = Ok x \<and> body db = Ok (db', x))"
proof (cases "labelled beginLabel (statement dr ''begin'' 0 True db)")
  case (Ok tx)
  then have tx: "tx = db" by simp
  show ?thesis
  proof (cases "body db")
    case body: (Ok y)
    obtain tx' x where y: "y = (tx', x)" by (cases y)
    show ?thesis
    proof (cases "labelled (commitLabel x) (statement dr ''commit'' 0 True x)")
      case committed: (Ok z)
      then have "z = x" by simp
      then show ?thesis using assms Ok tx body y committed unfolding inTransaction_def by simp
    next
      case (Fail e)
      have "inTransaction dr beginLabel commitLabel db body = (db, Fail e)"
        unfolding inTransaction_def Ok by (simp add: tx body y Fail)
      then show ?thesis using assms by simp
    next
      case Panic
      have "inTransaction dr beginLabel commitLabel db body = (db, Panic)"
        unfolding inTransaction_def Ok by (simp add: tx body y Panic)
      then show ?thesis using assms by simp
    qed
  qed (use assms Ok tx in \<open>auto simp: inTransaction_def\<close>)
qed (use assms in \<open>auto simp: inTransaction_def\<close>)

lemma Commit_effect:
  assumes "Commit dr lab db s drafts = (db', result)"
  shows "(\<not> is_Ok result \<and> db' = db) \<or>
    (\<exists>tx events. result = Ok events \<and> LabID_valid lab \<and> validateSnapshot s = Ok () \<and> validateDrafts drafts = Ok () \<and>
       persistSnapshot dr lab db s = Ok tx \<and>
       db' = tx\<lparr>db_events := db_events tx @ event_rows lab (nextEventID lab tx) (orderDrafts drafts)\<rparr> \<and>
       events = events_from (nextEventID lab tx) (orderDrafts drafts))"
proof (cases "LabID_valid lab")
  case lab: True
  show ?thesis
  proof (cases "rbind (validateSnapshot s) (\<lambda>_. validateDrafts drafts)")
    case (Ok u)
    then have "inTransaction dr (Some ''begin state commit'') (\<lambda>_. Some ''commit state'') db (\<lambda>tx.
        rbind (persistSnapshot dr lab tx s) (\<lambda>tx. insertEvents dr lab tx (orderDrafts drafts))) = (db', result)"
      using assms lab by (simp add: Commit_def)
    from inTransaction_effect [OF this] show ?thesis
      using Ok lab by (auto dest: insertEvents_effect)
  qed (use assms lab in \<open>auto simp: Commit_def\<close>)
qed (use assms in \<open>auto simp: Commit_def\<close>)

lemma ResetTutorial_effect:
  assumes "ResetTutorial dr lab db s = (db', result)"
  shows "(\<not> is_Ok result \<and> db' = db) \<or>
    (result = Ok () \<and> LabID_valid lab \<and> validateSnapshot s = Ok () \<and>
     persistSnapshot dr lab (db\<lparr>db_events := delete_lab lab (db_events db),
       db_observers := fold (\<lambda>ob. AList.update (lab, o_ID ob) (observer_to_row ob)) (s_Observers (sn_Simulation s)) (db_observers db),
       db_portals := delete_lab lab (db_portals db)\<rparr>) s = Ok db')"
proof (cases "LabID_valid lab")
  case lab: True
  show ?thesis
  proof (cases "validateSnapshot s")
    case (Ok u)
    then show ?thesis
      using assms lab unfolding ResetTutorial_def
      by (auto dest!: inTransaction_effect persistObservers_effect)
  next
    case (Fail e)
    with lab have "ResetTutorial dr lab db s = (db, Fail e)" by (simp add: ResetTutorial_def)
    then show ?thesis using assms by simp
  next
    case Panic
    with lab have "ResetTutorial dr lab db s = (db, Panic)" by (simp add: ResetTutorial_def)
    then show ?thesis using assms by simp
  qed
qed (use assms in \<open>auto simp: ResetTutorial_def\<close>)

section \<open>Round trip\<close>

text \<open>The rows of the laboratory are covered by the snapshot, so the upserts replace them all.\<close>

definition covers :: "LabID \<Rightarrow> Database \<Rightarrow> Snapshot \<Rightarrow> bool" where
  "covers lab db s \<longleftrightarrow>
     (let sim = sn_Simulation s in
      distinct (map fst (lab_rows lab (db_planes db))) \<and> distinct (map fst (lab_rows lab (db_portals db))) \<and>
      distinct (map fst (lab_rows lab (db_observers db))) \<and>
      fst ` set (lab_rows lab (db_planes db)) \<subseteq> pl_ID ` set (s_Planes sim) \<and>
      fst ` set (lab_rows lab (db_portals db)) \<subseteq> p_ID ` set (s_Portals sim) \<and>
      fst ` set (lab_rows lab (db_observers db)) \<subseteq> o_ID ` set (s_Observers sim) \<and>
      sorted_wrt (<) (map pl_ID (s_Planes sim)) \<and> sorted_wrt (<) (map p_ID (s_Portals sim)) \<and>
      sorted_wrt (<) (map o_ID (s_Observers sim)))"

lemma persisted_image:
  assumes "persistSnapshot dr lab db s = Ok db'" and "covers lab db s" and "validateSnapshot s = Ok ()" and "storable s"
  shows "map_of (db_lab_state db') lab = Some (lab_to_row (s_Lab (sn_Simulation s)))"
    and "map_of (db_app_state db') lab = Some (app_to_row s)"
    and "load_image lab db' (lab_to_row (s_Lab (sn_Simulation s))) (app_to_row s) = s"
proof -
  note db' = persistSnapshot_effect [OF assms(1)]
  show "map_of (db_lab_state db') lab = Some (lab_to_row (s_Lab (sn_Simulation s)))"
    "map_of (db_app_state db') lab = Some (app_to_row s)" by (simp_all add: db' update_conv')
  note v = validated_snapshot [OF assms(3)] and t = storable_parts [OF assms(4)]
  have planes: "map row_to_plane (select_lab lab (db_planes db')) = s_Planes (sn_Simulation s)"
    using assms(2) v(1) t(6) by (simp add: covers_def Let_def db' select_lab_rows sort_upserts map_idI plane_roundtrip)
  have portals: "map row_to_portal (select_lab lab (db_portals db')) = s_Portals (sn_Simulation s)"
    using assms(2) v(2) t(7) by (simp add: covers_def Let_def db' select_lab_rows sort_upserts map_idI portal_roundtrip)
  have observers: "map row_to_observer (select_lab lab (db_observers db')) = s_Observers (sn_Simulation s)"
    using assms(2) v(3) t(8) by (simp add: covers_def Let_def db' select_lab_rows sort_upserts map_idI observer_roundtrip)
  show "load_image lab db' (lab_to_row (s_Lab (sn_Simulation s))) (app_to_row s) = s"
    using v(7-11) t(1-5)
    by (simp add: load_image_def snapshot_of_def planes portals observers lab_to_row_def app_to_row_def Let_def)
qed

lemma load_image_keeps_events [simp]: "load_image lab (db\<lparr>db_events := ev\<rparr>) l a = load_image lab db l a"
  by (simp add: load_image_def)

lemma Commit_Load:
  assumes "Commit dr lab db s drafts = (db', Ok events)" and "covers lab db s" and "storable s"
    and "dr_fault reader = (\<lambda>_ _. None)"
  shows "Load reader lab db' = Ok s"
proof -
  obtain tx where "LabID_valid lab" and v: "validateSnapshot s = Ok ()" and p: "persistSnapshot dr lab db s = Ok tx"
    and db': "db' = tx\<lparr>db_events := db_events tx @ event_rows lab (nextEventID lab tx) (orderDrafts drafts)\<rparr>"
    using Commit_effect [OF assms(1)] by auto
  with persisted_image [OF p assms(2) v assms(3)] show ?thesis by (auto simp: Load_Ok [OF assms(4)])
qed

lemma ResetTutorial_Load:
  assumes "ResetTutorial dr lab db s = (db', Ok u)" and "covers lab (db\<lparr>db_portals := []\<rparr>) s" and "storable s"
    and "dr_fault reader = (\<lambda>_ _. None)"
  shows "Load reader lab db' = Ok s"
proof -
  let ?tx = "db\<lparr>db_events := delete_lab lab (db_events db),
       db_observers := fold (\<lambda>ob. AList.update (lab, o_ID ob) (observer_to_row ob)) (s_Observers (sn_Simulation s)) (db_observers db),
       db_portals := delete_lab lab (db_portals db)\<rparr>"
  have l: "LabID_valid lab" and v: "validateSnapshot s = Ok ()" and p: "persistSnapshot dr lab ?tx s = Ok db'"
    using ResetTutorial_effect [OF assms(1)] by auto
  have "covers lab ?tx s"
    using assms(2) by (simp add: covers_def Let_def upserts_distinct upserts_keys)
  from persisted_image [OF p this v assms(3)] l v show ?thesis by (simp add: Load_Ok [OF assms(4)])
qed

lemma image_IDs [simp]:
  "pl_ID \<circ> row_to_plane = fst" "p_ID \<circ> row_to_portal = fst" "o_ID \<circ> row_to_observer = fst"
  by (auto simp: row_to_plane_def row_to_portal_def row_to_observer_def)

lemma Load_rows:
  assumes "Load dr lab db = Ok s" and "dr_fault dr = (\<lambda>_ _. None)"
  shows "map pl_ID (s_Planes (sn_Simulation s)) = map fst (select_lab lab (db_planes db))"
    and "map p_ID (s_Portals (sn_Simulation s)) = map fst (select_lab lab (db_portals db))"
    and "map o_ID (s_Observers (sn_Simulation s)) = map fst (select_lab lab (db_observers db))"
    and "validateSnapshot s = Ok ()" and "LabID_valid lab"
  using assms by (auto simp: Load_Ok load_image_def snapshot_of_def)

lemma select_lab_keys:
  "set (map fst (select_lab lab table)) = fst ` set (lab_rows lab table)"
  "distinct (map fst (select_lab lab table)) \<longleftrightarrow> distinct (map fst (lab_rows lab table))"
  "sorted (map fst (select_lab lab table))"
proof -
  have "mset (map fst (select_lab lab table)) = mset (map fst (lab_rows lab table))" by (simp add: select_lab_rows)
  then show "distinct (map fst (select_lab lab table)) \<longleftrightarrow> distinct (map fst (lab_rows lab table))"
    by (metis mset_eq_imp_distinct_iff)
qed (simp_all add: select_lab_rows)

lemma covers_of_Load:
  assumes "Load dr lab db = Ok s0" and "dr_fault dr = (\<lambda>_ _. None)"
    and "same_bodies (sn_Simulation s0) (sn_Simulation s)"
    and "sorted_wrt (<) (map p_ID (s_Portals (sn_Simulation s)))"
  shows "p_ID ` set (s_Portals (sn_Simulation s0)) \<subseteq> p_ID ` set (s_Portals (sn_Simulation s)) \<Longrightarrow> covers lab db s"
    and "covers lab (db\<lparr>db_portals := []\<rparr>) s"
proof -
  note r = Load_rows [OF assms(1,2)]
  note v = validated_snapshot(4-6) [OF r(4)]
  have b: "map pl_ID (s_Planes (sn_Simulation s)) = map fst (select_lab lab (db_planes db))"
    "map o_ID (s_Observers (sn_Simulation s)) = map fst (select_lab lab (db_observers db))"
    using assms(3) r(1,3) by (simp_all add: same_bodies_def)
  have sets: "pl_ID ` set (s_Planes (sn_Simulation s)) = fst ` set (lab_rows lab (db_planes db))"
    "o_ID ` set (s_Observers (sn_Simulation s)) = fst ` set (lab_rows lab (db_observers db))"
    "p_ID ` set (s_Portals (sn_Simulation s0)) = fst ` set (lab_rows lab (db_portals db))"
    using arg_cong [OF b(1), of set] arg_cong [OF b(2), of set] arg_cong [OF r(2), of set]
    unfolding select_lab_keys by simp_all
  have sorted: "sorted_wrt (<) (map pl_ID (s_Planes (sn_Simulation s)))" "sorted_wrt (<) (map o_ID (s_Observers (sn_Simulation s)))"
    and d: "distinct (map fst (lab_rows lab (db_planes db)))" "distinct (map fst (lab_rows lab (db_portals db)))"
      "distinct (map fst (lab_rows lab (db_observers db)))"
    using v r(1-3) select_lab_keys(2,3) by (auto simp: b strict_sorted_iff)
  show "p_ID ` set (s_Portals (sn_Simulation s0)) \<subseteq> p_ID ` set (s_Portals (sn_Simulation s)) \<Longrightarrow> covers lab db s"
    using sets sorted d assms(4) by (simp add: covers_def Let_def)
  show "covers lab (db\<lparr>db_portals := []\<rparr>) s"
    using sets sorted d assms(4) by (simp add: covers_def Let_def)
qed

lemma follows_portals: "follows s t \<Longrightarrow> p_ID ` set (s_Portals (sn_Simulation s)) \<subseteq> p_ID ` set (s_Portals (sn_Simulation t))"
proof -
  assume "follows s t"
  then obtain new where "map p_ID (s_Portals (sn_Simulation t)) = map p_ID (s_Portals (sn_Simulation s)) @ new"
    by (auto simp: follows_def)
  from arg_cong [OF this, of set] show ?thesis by auto
qed

section \<open>The repository meets its contract\<close>

text \<open>What a reader sees that meets no fault.\<close>

definition reader :: Driver where
  "reader = \<lparr>dr_fault = (\<lambda>_ _. None), dr_constraint = Errorf ''constraint failed'', dr_no_rows = Errorf ''no rows''\<rparr>"

lemma reader_faultless [simp]: "dr_fault reader = (\<lambda>_ _. None)"
  by (simp add: reader_def)

definition stored :: "LabID \<Rightarrow> Database \<Rightarrow> Snapshot option" where
  "stored lab db = (case Load reader lab db of Ok s \<Rightarrow> Some s | _ \<Rightarrow> None)"

lemma stored_eq [simp]: "stored lab db = Some s \<longleftrightarrow> Load reader lab db = Ok s"
  by (auto simp: stored_def split: result.splits)

interpretation store: repository "Commit dr lab" "ResetTutorial dr lab" "stored lab" storable for dr lab
proof
  fix d s t drafts d' events
  assume "stored lab d = Some s" "follows s t" "storable t" "Commit dr lab d t drafts = (d', Ok events)"
  moreover from this have "covers lab d t"
    by (intro covers_of_Load(1) follows_portals) (auto simp: follows_def)
  ultimately show "stored lab d' = Some t" by (auto intro: Commit_Load)
next
  fix d s t drafts d' failure
  assume "stored lab d = Some s" "Commit dr lab d t drafts = (d', failure)" "\<not> is_Ok failure"
  then show "stored lab d' = Some s" by (auto dest: Commit_effect)
next
  fix d s t d' u
  assume "stored lab d = Some s" "s_Portals (sn_Simulation t) = []" "same_bodies (sn_Simulation s) (sn_Simulation t)"
    "storable t" "ResetTutorial dr lab d t = (d', Ok u)"
  moreover from this have "covers lab (d\<lparr>db_portals := []\<rparr>) t"
    by (intro covers_of_Load(2)) auto
  ultimately show "stored lab d' = Some t" by (auto intro: ResetTutorial_Load)
next
  fix d s t d' failure
  assume "stored lab d = Some s" "ResetTutorial dr lab d t = (d', failure)" "\<not> is_Ok failure"
  then show "stored lab d' = Some s" by (auto dest: ResetTutorial_effect)
qed

section \<open>Isolation\<close>

text \<open>What the queries of one laboratory can see.\<close>

definition same_view :: "LabID \<Rightarrow> Database \<Rightarrow> Database \<Rightarrow> bool" where
  "same_view lab db db' \<longleftrightarrow>
     lab_rows lab (db_planes db) = lab_rows lab (db_planes db') \<and> lab_rows lab (db_portals db) = lab_rows lab (db_portals db') \<and>
     lab_rows lab (db_observers db) = lab_rows lab (db_observers db') \<and> lab_rows lab (db_events db) = lab_rows lab (db_events db') \<and>
     map_of (db_lab_state db) lab = map_of (db_lab_state db') lab \<and> map_of (db_app_state db) lab = map_of (db_app_state db') lab"

lemma same_view_queries:
  "same_view lab db db' \<Longrightarrow> Load dr lab db = Load dr lab db' \<and> ListEvents dr lab db portal = ListEvents dr lab db' portal"
  by (simp add: same_view_def Load_def loadPlanes_def loadPortals_def loadObservers_def select_lab_rows ListEvents_def)

lemma persistSnapshot_view:
  "persistSnapshot dr lab db s = Ok db' \<Longrightarrow> l \<noteq> lab \<Longrightarrow> same_view l db db'"
  by (drule persistSnapshot_effect) (simp add: same_view_def update_conv')

lemma Commit_view: "l \<noteq> lab \<Longrightarrow> same_view l db (fst (Commit dr lab db s drafts))"
  using Commit_effect [of dr lab db s drafts] persistSnapshot_view [of dr lab db s _ l]
  by (cases "Commit dr lab db s drafts") (fastforce simp: same_view_def)

lemma ResetTutorial_view:
  assumes "l \<noteq> lab"
  shows "same_view l db (fst (ResetTutorial dr lab db s))"
proof (cases "ResetTutorial dr lab db s")
  case (Pair db' result)
  from ResetTutorial_effect [OF Pair] show ?thesis
    using assms by (auto simp: Pair same_view_def dest!: persistSnapshot_effect simp: update_conv')
qed

section \<open>The log only grows\<close>

lemma validateDrafts_Ok:
  assumes "validateDrafts drafts = Ok u"
  shows "\<forall>d\<in>set drafts. EventDraft_Validate d = Ok ()"
proof -
  let ?f = "\<lambda>(_::unit) i. wrapError (''validate event '' @ format_d (int i)) (EventDraft_Validate (drafts ! i))"
  have "foldM ?f () is = Ok u \<Longrightarrow> \<forall>i\<in>set is. EventDraft_Validate (drafts ! i) = Ok ()" for "is"
    by (induction "is") auto
  from this [of "[0..<length drafts]"] show ?thesis using assms by (auto simp: validateDrafts_def in_set_conv_nth)
qed

definition event_key :: "int \<times> event_row \<Rightarrow> int \<times> int" where
  "event_key = (\<lambda>(i, row). (er_created_at row, i))"

lemma ListEvents_all:
  "ListEvents reader lab db None = Ok es \<longleftrightarrow>
   LabID_valid lab \<and> es = map row_to_event (sort_key event_key (select_lab lab (db_events db))) \<and>
   (\<forall>e\<in>set es. ValidatePersisted e = Ok ())"
  by (auto simp: ListEvents_def loadRows_Ok event_key_def)

lemma orderDrafts_sorted: "sorted (map (\<lambda>d. ns (d_CreatedAt d)) (orderDrafts drafts))"
proof -
  have "orderDrafts drafts = sort_key (\<lambda>d. ns (d_CreatedAt d)) drafts"
    unfolding orderDrafts_def by (rule SliceStable_key) (simp add: Before_def)
  then show ?thesis by simp
qed

lemma set_orderDrafts [simp]: "set (orderDrafts drafts) = set drafts"
  by (simp add: orderDrafts_def)

lemma new_rows_sorted:
  assumes "sorted (map (\<lambda>d. ns (d_CreatedAt d)) ds)"
    and "\<And>d. d \<in> set ds \<Longrightarrow> stampable (d_CreatedAt d) \<and> int64_time (d_CreatedAt d)"
  shows "sorted (map event_key (map2 (\<lambda>i d. (n + int i, event_to_row d)) [0..<length ds] ds))"
  using assms
proof (induction ds rule: rev_induct)
  case (snoc d ds)
  have col: "columnTime (d_CreatedAt x) = ns (d_CreatedAt x) - unix_epoch" if "x \<in> set (ds @ [d])" for x
    using snoc.prems(2) [OF that] by (auto simp: columnTime_def encodeTime_def stampable_def UnixNano_def int64_time_def wrap64_id)
  have "event_key row \<le> (ns (d_CreatedAt d) - unix_epoch, n + int (length ds))"
    if "row \<in> set (map2 (\<lambda>i d. (n + int i, event_to_row d)) [0..<length ds] ds)" for row
    using that snoc.prems(1) col
    by (auto simp: event_key_def event_to_row_def sorted_append less_eq_prod_def elim!: in_set_zipE) 
  with snoc show ?case by (auto simp: sorted_append event_key_def event_to_row_def col)
qed simp

lemma new_rows_ids: "sorted (map fst (map2 (\<lambda>i d. (n + int i, event_to_row d)) [0..<length ds] ds))"
  by (induction ds rule: rev_induct) (auto simp: sorted_append elim!: in_set_zipE)

lemma row_to_event_new:
  "stampable (d_CreatedAt d) \<Longrightarrow> int64_time (d_CreatedAt d) \<Longrightarrow> row_to_event (i, event_to_row d) = event_at i d"
  by (simp add: row_to_event_def event_to_row_def event_at_def)

lemma new_rows_events:
  "(\<And>d. d \<in> set ds \<Longrightarrow> stampable (d_CreatedAt d) \<and> int64_time (d_CreatedAt d)) \<Longrightarrow>
   map row_to_event (map2 (\<lambda>i d. (n + int i, event_to_row d)) [0..<length ds] ds) = events_from n ds"
  by (induction ds rule: rev_induct) (simp_all add: row_to_event_new)

lemma filter_map_row: "filter (\<lambda>e. P (e_ID e)) (map row_to_event rows) = map row_to_event (filter (\<lambda>row. P (fst row)) rows)"
  by (simp add: filter_map comp_def row_to_event_def split_beta)

lemma Commit_log:
  assumes "Commit dr lab db s drafts = (db', Ok events)" and "ListEvents reader lab db None = Ok before"
    and "list_all (\<lambda>d. int64_time (d_CreatedAt d)) drafts"
  shows "\<exists>log. ListEvents reader lab db' None = Ok log \<and>
    filter (\<lambda>e. e_ID e < nextEventID lab db) log = before \<and> filter (\<lambda>e. nextEventID lab db \<le> e_ID e) log = events"
proof -
  let ?n = "nextEventID lab db" and ?ds = "orderDrafts drafts"
  obtain tx where lab: "LabID_valid lab" and v: "validateDrafts drafts = Ok ()" and p: "persistSnapshot dr lab db s = Ok tx"
    and c: "db' = tx\<lparr>db_events := db_events tx @ event_rows lab (nextEventID lab tx) ?ds\<rparr>"
      "events = events_from (nextEventID lab tx) ?ds"
    using Commit_effect [OF assms(1)] by auto
  have tx: "db_events tx = db_events db" "nextEventID lab tx = ?n"
    using persistSnapshot_effect [OF p] by (simp_all add: nextEventID_def)
  let ?old = "lab_rows lab (db_events db)" and ?new = "map2 (\<lambda>i d. (?n + int i, event_to_row d)) [0..<length ?ds] ?ds"
  have rows: "lab_rows lab (db_events db') = ?old @ ?new" by (simp add: c tx)
  have times: "stampable (d_CreatedAt d) \<and> int64_time (d_CreatedAt d)" if "d \<in> set ?ds" for d
  proof -
    have "EventDraft_Validate d = Ok ()" using that validateDrafts_Ok [OF v] by simp
    then have "stampable (d_CreatedAt d)" by (simp add: EventDraft_Validate_def stampable_def split: if_splits)
    then show ?thesis using that assms(3) by (simp add: list_all_iff)
  qed
  have old: "\<forall>row\<in>set ?old. fst row < ?n"
  proof
    fix row assume "row \<in> set ?old"
    then have "fst row \<le> Max (insert 0 (fst ` set ?old))" by (intro Max_ge) auto
    then show "fst row < ?n" by (simp add: nextEventID_Max)
  qed
  have new: "\<forall>row\<in>set ?new. ?n \<le> fst row" by (auto elim!: in_set_zipE)
  let ?rows = "sort_key event_key (select_lab lab (db_events db'))"
  have f: "filter (\<lambda>row. P (fst row)) ?rows = sort_key event_key (sort_key fst (filter (\<lambda>row. P (fst row)) (?old @ ?new)))" for P
    by (simp only: select_lab_rows rows filter_sort)
  have keep_old: "filter (\<lambda>row. fst row < ?n) (?old @ ?new) = ?old"
    using old new by (auto simp: filter_id_conv filter_empty_conv not_less)
  have keep_new: "filter (\<lambda>row. ?n \<le> fst row) (?old @ ?new) = ?new"
    using old new by (auto simp: filter_id_conv filter_empty_conv not_le)
  have "sort_key fst ?new = ?new" by (rule sort_key_id_if_sorted [OF new_rows_ids])
  moreover have "sort_key event_key ?new = ?new"
    by (rule sort_key_id_if_sorted [OF new_rows_sorted [OF orderDrafts_sorted times]])
  ultimately have s: "sort_key event_key (sort_key fst ?new) = ?new" by (rule ssubst)
  let ?log = "map row_to_event ?rows"
  have "filter (\<lambda>e. e_ID e < ?n) ?log = map row_to_event (sort_key event_key (sort_key fst ?old))"
    by (simp only: filter_map_row [of "\<lambda>i. i < ?n"] f [of "\<lambda>i. i < ?n"] keep_old)
  then have before: "filter (\<lambda>e. e_ID e < ?n) ?log = before"
    using assms(2) by (simp add: ListEvents_all select_lab_rows)
  have "filter (\<lambda>e. ?n \<le> e_ID e) ?log = map row_to_event ?new"
    by (simp only: filter_map_row [of "\<lambda>i. ?n \<le> i"] f [of "\<lambda>i. ?n \<le> i"] keep_new s)
  then have evs: "filter (\<lambda>e. ?n \<le> e_ID e) ?log = events"
    using new_rows_events [of ?ds ?n] times by (simp add: c(2) tx)
  have "ValidatePersisted e = Ok ()" if "e \<in> set ?log" for e
  proof (cases "e_ID e < ?n")
    case True
    then have "e \<in> set before" using that by (simp flip: before)
    then show ?thesis using assms(2) by (auto simp: ListEvents_all)
  next
    case False
    then have "e \<in> set events" using that by (simp flip: evs)
    then obtain i d where e: "e = event_at (?n + int i) d" "d \<in> set ?ds"
      by (auto simp: c(2) tx events_from_def elim!: in_set_zipE)
    then show ?thesis
      using validateDrafts_Ok [OF v] nextEventID_pos [of lab db] by (cases d) (auto simp: ValidatePersisted_def event_at_def)
  qed
  then have "ListEvents reader lab db' None = Ok ?log" using lab by (simp add: ListEvents_all)
  with before evs show ?thesis by blast
qed

end
