(* ===== verification/Store.thy ===== *)
theory Store
  imports PersistProofs
begin

text \<open>
  The repository at work: without a fault of the driver a commit of a successor of the
  stored snapshot cannot fail on a constraint of the schema; the bootstrap stores the
  canonical snapshot; memory and store agree along every run of the manager.
\<close>

section \<open>A valid successor can be written\<close>

lemma foldM_prefixes:
  assumes "\<And>xs x ys. zs = xs @ x # ys \<Longrightarrow> f (fold g xs s) x = Ok (g x (fold g xs s))"
  shows "foldM f s zs = Ok (fold g zs s)"
  using assms
proof (induction zs arbitrary: s)
  case (Cons z zs)
  have "f s z = Ok (g z s)" using Cons.prems [of "[]" z zs] by simp
  moreover have "f (fold g xs (g z s)) x = Ok (g x (fold g xs (g z s)))" if "zs = xs @ x # ys" for xs x ys
    using Cons.prems [of "z # xs" x ys] that by simp
  ultimately show ?case using Cons.IH [of "g z s"] by simp
qed simp

lemma validated_refs:
  assumes "validateSnapshot s = Ok u"
  shows "\<And>p. p \<in> set (s_Portals (sn_Simulation s)) \<Longrightarrow> p_DestinationPlaneID p \<in> pl_ID ` set (s_Planes (sn_Simulation s))"
    and "\<And>ob i. ob \<in> set (s_Observers (sn_Simulation s)) \<Longrightarrow> o_CurrentPlaneID ob = Some i \<Longrightarrow>
      i \<in> pl_ID ` set (s_Planes (sn_Simulation s))"
    and "\<And>ob i. ob \<in> set (s_Observers (sn_Simulation s)) \<Longrightarrow> o_ActivePortalID ob = Some i \<Longrightarrow>
      i \<in> p_ID ` set (s_Portals (sn_Simulation s))"
    and "\<And>p. p \<in> set (s_Portals (sn_Simulation s)) \<Longrightarrow> p_EnergyBase p \<noteq> NaN \<and> p_EnergyDecayRate p \<noteq> NaN"
    and "distinct (open_slots (s_Portals (sn_Simulation s)))"
    and "s_NextPortalID (sn_Simulation s) > 0" and "validAppMode (a_Mode (sn_App s))" and "0 \<le> a_TutorialStep (sn_App s)"
    and "0 \<le> l_EnergyBase (s_Lab (sn_Simulation s)) \<and> l_EnergyBase (s_Lab (sn_Simulation s)) \<le> 100"
    and "validTutorialContext (sn_App s)"
proof -
  have v: "validateSimulationStructure (sn_Simulation s) (snapshotValidationTime (sn_Simulation s)) = Ok ()"
    using assms by (auto simp: validateSnapshot_def Let_def)
  show "distinct (open_slots (s_Portals (sn_Simulation s)))"
    using v by (simp add: validateSimulationStructure_def Let_def split: if_splits)
  show "p_DestinationPlaneID p \<in> pl_ID ` set (s_Planes (sn_Simulation s))"
    and "p_EnergyBase p \<noteq> NaN \<and> p_EnergyDecayRate p \<noteq> NaN" if "p \<in> set (s_Portals (sn_Simulation s))" for p
    using v that by (auto simp: validateSimulationStructure_def Let_def list_all_iff validStructuralPortal_def IsNaN_def
        split: if_splits)
  have ob: "validSimulationObserver (pl_ID ` set (s_Planes (sn_Simulation s))) (s_Portals (sn_Simulation s))
      (snapshotValidationTime (sn_Simulation s)) ob" if "ob \<in> set (s_Observers (sn_Simulation s))" for ob
    using v that by (auto simp: validateSimulationStructure_def validateSimulationObservers_def Let_def list_all_iff
        split: if_splits)
  show "i \<in> pl_ID ` set (s_Planes (sn_Simulation s))"
    if "ob \<in> set (s_Observers (sn_Simulation s))" "o_CurrentPlaneID ob = Some i" for ob i
    using ob [OF that(1)] that(2) by (simp add: validSimulationObserver_def)
  show "i \<in> p_ID ` set (s_Portals (sn_Simulation s))"
    if "ob \<in> set (s_Observers (sn_Simulation s))" "o_ActivePortalID ob = Some i" for ob i
    using ob [OF that(1)] that(2)
    by (auto simp: validSimulationObserver_def portal_by_id_def find_Some_iff split: option.splits)
qed (use assms in \<open>auto simp: validateSnapshot_def Let_def\<close>)

definition successor :: "Snapshot \<Rightarrow> Snapshot \<Rightarrow> bool" where
  "successor s t \<longleftrightarrow> same_bodies (sn_Simulation s) (sn_Simulation t) \<and>
     (\<exists>old new. s_Portals (sn_Simulation t) = old @ new \<and> list_all2 kept (s_Portals (sn_Simulation s)) old) \<and>
     sorted_wrt (<) (map p_ID (s_Portals (sn_Simulation t)))"

lemma successor_refl:
  "sorted_wrt (<) (map p_ID (s_Portals (sn_Simulation s))) \<Longrightarrow> successor s s"
  unfolding successor_def by (metis append_Nil2 kept_all_refl same_bodies_refl)

lemma successor_follows: "successor s t \<Longrightarrow> follows s t"
  by (auto simp: successor_def follows_def kept_all_IDs)

lemma keys_upserts:
  "fst ` set (fold (\<lambda>x. AList.update (lab, key x) (to_row x)) xs table) = fst ` set table \<union> (\<lambda>x. (lab, key x)) ` set xs"
  by (induction xs arbitrary: table) (auto simp: dom_update)

lemma stamped_plane: "validatePlane pl = Ok u \<Longrightarrow> pred_option stampable (pl_ExploredAt pl)"
  by (simp add: validatePlane_def Let_def)

lemma persistPlanes_Ok:
  assumes "dr_fault dr = (\<lambda>_ _. None)" and "has_key (db_labs db) lab" and "\<And>pl. pl \<in> set pls \<Longrightarrow> validatePlane pl = Ok ()"
  shows "foldM (persistPlane dr lab) db pls =
    Ok (db\<lparr>db_planes := fold (\<lambda>pl. AList.update (lab, pl_ID pl) (plane_to_row pl)) pls (db_planes db)\<rparr>)"
proof -
  have e: "encodeOptionalTime (pl_ExploredAt pl) field = Ok (map_option UnixNano (pl_ExploredAt pl))" if "pl \<in> set pls" for pl field
    using stamped_plane [OF assms(3) [OF that]] by simp
  show ?thesis
    unfolding fold_field [symmetric]
    by (rule foldM_eq_fold [where I = "\<lambda>db. has_key (db_labs db) lab"])
      (use assms(1,2) in \<open>simp_all add: persistPlane_def e\<close>)
qed

lemma observer_constraints_observers [simp]:
  "observer_constraints lab (db\<lparr>db_observers := obs\<rparr>) row = observer_constraints lab db row"
  by (simp add: observer_constraints_def split: option.splits)

lemma persistObservers_Ok:
  assumes "dr_fault dr = (\<lambda>_ _. None)" and "has_key (db_labs db) lab"
    and "\<And>ob. ob \<in> set obs \<Longrightarrow> observer_constraints lab db (observer_to_row ob)"
  shows "foldM (persistObserver dr lab) db obs =
    Ok (db\<lparr>db_observers := fold (\<lambda>ob. AList.update (lab, o_ID ob) (observer_to_row ob)) obs (db_observers db)\<rparr>)"
  unfolding fold_field [symmetric]
  by (rule foldM_eq_fold [where I = "\<lambda>d. \<forall>ob\<in>set obs. observer_constraints lab d (observer_to_row ob)"])
    (use assms in \<open>auto simp: persistObserver_def\<close>)

text \<open>
  Two open portals in one slot would have to be both old and open before, or both in the
  successor: neither is possible.
\<close>

lemma open_slot_unique:
  "distinct (open_slots ps) \<Longrightarrow> p \<in> set ps \<Longrightarrow> q \<in> set ps \<Longrightarrow> p_Status p = PortalStatusOpen \<Longrightarrow>
   p_Status q = PortalStatusOpen \<Longrightarrow> p_SlotIndex p = p_SlotIndex q \<Longrightarrow> p = q"
  by (simp add: open_slots_def distinct_map inj_on_def)

lemma successor_slot_free:
  assumes load: "Load dr lab db = Ok s0" "dr_fault dr = (\<lambda>_ _. None)" and succ: "successor s0 s"
    and d: "distinct (open_slots (s_Portals (sn_Simulation s)))"
    and split: "s_Portals (sn_Simulation s) = xs @ p # ys" and p: "p_Status p = PortalStatusOpen"
    and other: "((lab, j), other) \<in> set (fold (\<lambda>p. AList.update (lab, p_ID p) (portal_to_row p)) xs (db_portals db))"
      "j \<noteq> p_ID p" "pr_status other = PortalStatusOpen"
  shows "pr_slot_index other \<noteq> p_SlotIndex p"
proof
  assume slot: "pr_slot_index other = p_SlotIndex p"
  have v0: "validateSnapshot s0 = Ok ()" by (rule Load_rows(4) [OF load])
  let ?rows = "lab_rows lab (db_portals db)"
  have dist: "distinct (map fst ?rows)"
    using validated_snapshot(5) [OF v0] Load_rows(2) [OF load] select_lab_keys(2) by metis
  have "(j, other) \<in> set (lab_rows lab (fold (\<lambda>p. AList.update (lab, p_ID p) (portal_to_row p)) xs (db_portals db)))"
    using other(1) unfolding lab_rows_def by force
  then have m: "map_of (upserts p_ID portal_to_row xs ?rows) j = Some other"
    by (intro map_of_is_SomeI) (simp_all add: upserts_distinct dist)
  obtain old new where on: "s_Portals (sn_Simulation s) = old @ new" "list_all2 kept (s_Portals (sn_Simulation s0)) old"
    using succ by (auto simp: successor_def)
  have ids: "sorted_wrt (<) (map p_ID (s_Portals (sn_Simulation s)))" using succ by (simp add: successor_def)
  show False
  proof (cases "j \<in> p_ID ` set xs")
    case True
    then obtain x where x: "x \<in> set xs" "j = p_ID x" by blast
    have "distinct (map p_ID xs)" using ids unfolding split by (auto simp: strict_sorted_iff)
    then have "other = portal_to_row x" using upserts_map_of [of p_ID xs x portal_to_row ?rows] m x by simp
    then have "x = p" using open_slot_unique [OF d, of x p] p other(3) slot x(1) by (simp add: split portal_to_row_def)
    then show False using other(2) x(2) by simp
  next
    case False
    have "map_of (upserts p_ID portal_to_row xs ?rows) j = map_of ?rows j"
      using False by (induction xs rule: rev_induct) (auto simp: upserts_def update_conv')
    then have "(j, other) \<in> set (select_lab lab (db_portals db))"
      using m by (simp add: map_of_SomeD select_lab_rows)
    then have q: "row_to_portal (j, other) \<in> set (s_Portals (sn_Simulation s0))"
      using load by (auto simp: Load_Ok load_image_def snapshot_of_def)
    let ?q = "row_to_portal (j, other)"
    have qs: "p_ID ?q = j" "p_Status ?q = PortalStatusOpen" "p_SlotIndex ?q = p_SlotIndex p"
      using other(3) slot by (simp_all add: row_to_portal_def)
    obtain k where k: "k < length old" "s_Portals (sn_Simulation s0) ! k = ?q" "p_ID (old ! k) = j"
      using q on(2) qs(1) by (metis in_set_conv_nth kept_def list_all2_conv_all_nth)
    have "length xs < length old"
    proof (rule ccontr)
      assume "\<not> length xs < length old"
      then have "old ! k \<in> set (xs @ [p])"
        using k(1) on(1) split by (metis (no_types, lifting) append.assoc append_Cons append_Nil length_append_singleton
            less_SucI not_less nth_append nth_mem order.strict_trans2)
      then show False using False k(3) other(2) by auto
    qed
    then have pk: "p = old ! length xs" using on(1) split by (metis nth_append nth_append_length)
    let ?p0 = "s_Portals (sn_Simulation s0) ! length xs"
    have "kept ?p0 p" using on(2) \<open>length xs < length old\<close> pk by (simp add: list_all2_conv_all_nth)
    then have p0: "p_ID ?p0 = p_ID p" "p_SlotIndex ?p0 = p_SlotIndex p" "p_Status ?p0 = PortalStatusOpen"
      using p by (auto simp: kept_def)
    have "?p0 \<in> set (s_Portals (sn_Simulation s0))"
      using on(2) \<open>length xs < length old\<close> by (simp add: list_all2_conv_all_nth)
    then have "?p0 = ?q" using open_slot_unique [OF validated_refs(5) [OF v0] _ q] p0 qs by simp
    then show False using p0(1) qs(1) other(2) by simp
  qed
qed

lemma portal_row_simps [simp]:
  "pr_slot_index (portal_to_row p) = p_SlotIndex p" "pr_kind (portal_to_row p) = p_Kind p"
  "pr_destination_plane_id (portal_to_row p) = p_DestinationPlaneID p" "pr_energy_base (portal_to_row p) = p_EnergyBase p"
  "pr_energy_decay_rate (portal_to_row p) = p_EnergyDecayRate p" "pr_stability (portal_to_row p) = p_Stability p"
  "pr_creatures_initial (portal_to_row p) = p_CreaturesInitial p" "pr_observer_flow (portal_to_row p) = p_ObserverFlow p"
  "pr_status (portal_to_row p) = p_Status p" "pr_termination_reason (portal_to_row p) = p_TerminationReason p"
  by (simp_all add: portal_to_row_def)

lemma f_positive:
  "x \<noteq> NaN \<Longrightarrow> \<not> f_le x (Fin 0) \<Longrightarrow> f_less (Fin 0) x"
  "x \<noteq> NaN \<Longrightarrow> \<not> f_less x (Fin 0) \<Longrightarrow> f_le (Fin 0) x"
  by (simp_all flip: f_not_less)

lemma persistPortals_Ok:
  assumes load: "Load dr lab db0 = Ok s0" "dr_fault dr = (\<lambda>_ _. None)" and succ: "successor s0 s"
    and v: "validateSnapshot s = Ok ()" and db: "db_portals db = db_portals db0" "has_key (db_labs db) lab"
    and planes: "\<And>i. i \<in> pl_ID ` set (s_Planes (sn_Simulation s)) \<Longrightarrow> has_key (db_planes db) (lab, i)"
  shows "foldM (persistPortal dr lab) db (s_Portals (sn_Simulation s)) =
    Ok (db\<lparr>db_portals := fold (\<lambda>p. AList.update (lab, p_ID p) (portal_to_row p)) (s_Portals (sn_Simulation s)) (db_portals db)\<rparr>)"
  unfolding fold_field [symmetric]
proof (rule foldM_prefixes)
  fix xs p ys assume split: "s_Portals (sn_Simulation s) = xs @ p # ys"
  let ?put = "\<lambda>p db. db\<lparr>db_portals := AList.update (lab, p_ID p) (portal_to_row p) (db_portals db)\<rparr>"
  let ?db = "fold ?put xs db"
  have tables: "db_portals ?db = fold (\<lambda>p. AList.update (lab, p_ID p) (portal_to_row p)) xs (db_portals db0)"
    "db_planes ?db = db_planes db" "db_labs ?db = db_labs db"
    using fold_field(2) [of "\<lambda>p. AList.update (lab, p_ID p) (portal_to_row p)" xs db] db(1) by simp_all
  have p: "p \<in> set (s_Portals (sn_Simulation s))" by (simp add: split)
  note valid = validated_snapshot(2) [OF v p] and ids = validated_refs(1,4) [OF v p]
  have dec: "f_less (Fin 0) (p_EnergyDecayRate p)" "f_le (Fin 0) (p_EnergyBase p)"
    using valid ids(2) by (auto simp: validatePortal_def Let_def intro!: f_positive)
  have "\<not> (l = lab \<and> j \<noteq> p_ID p \<and> pr_status other = PortalStatusOpen \<and> pr_slot_index other = p_SlotIndex p)"
    if "p_Status p = PortalStatusOpen" "((l, j), other) \<in> set (db_portals ?db)" for l j other
    using successor_slot_free [OF load succ validated_refs(5) [OF v] split that(1), of j other] that(2)
    by (auto simp: tables)
  then have "portal_constraints lab ?db (p_ID p) (portal_to_row p)"
    using valid planes [OF ids(1)] db(2) dec tables(2,3) by (auto simp: portal_constraints_def validatePortal_def Let_def list_all_iff)
  then show "persistPortal dr lab ?db p = Ok (?put p ?db)"
    using load(2) by (simp add: persistPortal_def)
qed

lemma nonspace: "\<not> blank m \<Longrightarrow> list_ex (\<lambda>c. c \<noteq> CHR '' '') m"
proof (rule ccontr)
  assume "\<not> blank m" "\<not> list_ex (\<lambda>c. c \<noteq> CHR '' '') m"
  moreover have "list_all (\<lambda>c. c = CHR '' '') m \<Longrightarrow> blank_codes (map of_char m)" by (induction m) auto
  ultimately show False by (auto simp: blank_def list_ex_iff list_all_iff)
qed

lemma insertEvents_Ok:
  assumes "dr_fault dr = (\<lambda>_ _. None)" and "has_key (db_labs db) lab"
    and "\<And>d. d \<in> set drafts \<Longrightarrow> EventDraft_Validate d = Ok ()"
  shows "is_Ok (insertEvents dr lab db drafts)"
proof -
  let ?step = "\<lambda>(db, events) i. rbind (wrapError (''insert event '' @ format_d (int i)) (insertEvent dr lab db (drafts ! i)))
    (\<lambda>(db', event). Ok (db', events @ [event]))"
  have "\<exists>db' events. foldM ?step (db, evs) is = Ok (db', events)"
    if "set is \<subseteq> {0..<length drafts}" "has_key (db_labs db) lab" for "is" db evs
    using that
  proof (induction "is" arbitrary: db evs)
    case (Cons i "is")
    have "EventDraft_Validate (drafts ! i) = Ok ()" using Cons.prems(1) assms(3) by simp
    then obtain db' e where "insertEvent dr lab db (drafts ! i) = Ok (db', e)" "db_labs db' = db_labs db"
      using Cons.prems(2) assms(1) nextEventID_fresh [of lab db] nonspace [of "d_Message (drafts ! i)"]
      by (auto simp: insertEvent_def EventDraft_Validate_def split: if_splits)
    then show ?case using Cons by auto
  qed simp
  from this [of "[0..<length drafts]" db "[]"] assms(2) show ?thesis by (auto simp: insertEvents_def is_Ok_iff)
qed

lemma persistSnapshot_Ok:
  assumes load: "Load dr lab db = Ok s0" "dr_fault dr = (\<lambda>_ _. None)" and succ: "successor s0 s"
    and v: "validateSnapshot s = Ok ()" and labs: "has_key (db_labs db) lab"
  shows "is_Ok (persistSnapshot dr lab db s)"
proof -
  let ?sim = "sn_Simulation s"
  define db1 where "db1 = db\<lparr>db_planes := fold (\<lambda>pl. AList.update (lab, pl_ID pl) (plane_to_row pl)) (s_Planes ?sim) (db_planes db)\<rparr>"
  define db2 where "db2 = db1\<lparr>db_portals := fold (\<lambda>p. AList.update (lab, p_ID p) (portal_to_row p)) (s_Portals ?sim) (db_portals db1)\<rparr>"
  have labs12: "has_key (db_labs db1) lab" "has_key (db_labs db2) lab" using labs by (simp_all add: db1_def db2_def)
  have planes: "has_key (db_planes db1) (lab, i)" "has_key (db_planes db2) (lab, i)" if "i \<in> pl_ID ` set (s_Planes ?sim)" for i
    using that by (auto simp: db1_def db2_def keys_upserts)
  have portals: "has_key (db_portals db2) (lab, i)" if "i \<in> p_ID ` set (s_Portals ?sim)" for i
    using that by (auto simp: db2_def keys_upserts)
  have 1: "foldM (persistPlane dr lab) db (s_Planes ?sim) = Ok db1"
    unfolding db1_def by (rule persistPlanes_Ok [OF load(2) labs validated_snapshot(1) [OF v]])
  have 2: "foldM (persistPortal dr lab) db1 (s_Portals ?sim) = Ok db2"
    unfolding db2_def by (rule persistPortals_Ok [OF load succ v _ labs12(1) planes(1)]) (simp_all add: db1_def)
  have "observer_constraints lab db2 (observer_to_row ob)" if "ob \<in> set (s_Observers ?sim)" for ob
    using validated_snapshot(3) [OF v that] validated_refs(2,3) [OF v that] planes(2) portals labs12(2)
    by (auto simp: observer_constraints_def observer_to_row_def validateObserver_def Let_def split: option.splits)
  then obtain db3 where 3: "foldM (persistObserver dr lab) db2 (s_Observers ?sim) = Ok db3" and "db_labs db3 = db_labs db2"
    using persistObservers_Ok [OF load(2) labs12(2)] by fastforce
  moreover have "validTutorialContext ((sn_App s)\<lparr>a_TutorialStep := 0\<rparr>)"
    using validated_refs(10) [OF v] by (simp add: validTutorialContext_def)
  ultimately show ?thesis
    using validated_refs(6-9) [OF v] labs12(2) load(2)
    by (auto simp: persistSnapshot_def Let_def 1 2 is_Ok_iff)
qed

lemma inTransaction_Ok:
  "dr_fault dr = (\<lambda>_ _. None) \<Longrightarrow> body db = Ok (tx, x) \<Longrightarrow> inTransaction dr beginLabel commitLabel db body = (tx, Ok x)"
  by (auto simp: inTransaction_def statement_def labelled_def wrapError_def split: option.splits)

lemma Commit_succeeds:
  assumes load: "Load dr lab db = Ok s0" "dr_fault dr = (\<lambda>_ _. None)" and succ: "successor s0 s"
    and v: "validateSnapshot s = Ok ()" and labs: "has_key (db_labs db) lab" and d: "\<forall>d\<in>set drafts. EventDraft_Validate d = Ok ()"
  obtains db' events where "Commit dr lab db s drafts = (db', Ok events)" and "db_labs db' = db_labs db"
proof -
  obtain tx where tx: "persistSnapshot dr lab db s = Ok tx"
    using persistSnapshot_Ok [OF load succ v labs] by (auto simp: is_Ok_iff)
  have "db_labs tx = db_labs db" using persistSnapshot_effect [OF tx] by simp
  moreover from this obtain db' events where ev: "insertEvents dr lab tx (orderDrafts drafts) = Ok (db', events)"
    using insertEvents_Ok [OF load(2), of lab tx "orderDrafts drafts"] labs d by (auto simp: is_Ok_iff)
  moreover have "db_labs db' = db_labs tx" using insertEvents_effect [OF ev] by simp
  moreover have "validateDrafts drafts = Ok ()"
  proof -
    have "foldM (\<lambda>_ i. wrapError (''validate event '' @ format_d (int i)) (EventDraft_Validate (drafts ! i))) () [0..<length drafts] =
        Ok (fold (\<lambda>_ _. ()) [0..<length drafts] ())"
      by (rule foldM_eq_fold [where I = "\<lambda>_. True"]) (use d in auto)
    then show ?thesis by (simp add: validateDrafts_def)
  qed
  ultimately show ?thesis
    using that [of db' events] v Load_rows(5) [OF load] tx
    by (simp add: Commit_def inTransaction_Ok [OF load(2)])
qed

section \<open>A canonical reset can be written\<close>

definition at_home :: "Observer \<Rightarrow> bool" where
  "at_home ob \<longleftrightarrow> o_CurrentPlaneID ob = None \<and> o_ActivePortalID ob = None"

lemma at_home_rows:
  assumes "((lab, i), row) \<in> set (fold (\<lambda>ob. AList.update (lab, o_ID ob) (observer_to_row ob)) obs table)"
    and "distinct (map fst (lab_rows lab table))" and "fst ` set (lab_rows lab table) \<subseteq> o_ID ` set obs"
    and "sorted_wrt (<) (map o_ID obs)" and "list_all at_home obs"
  shows "or_active_portal_id row = None"
proof -
  have "(i, row) \<in> set (lab_rows lab (fold (\<lambda>ob. AList.update (lab, o_ID ob) (observer_to_row ob)) obs table))"
    using assms(1) unfolding lab_rows_def by force
  then have "(i, row) \<in> set (sort_key fst (upserts o_ID observer_to_row obs (lab_rows lab table)))" by simp
  then show ?thesis
    using assms(5) unfolding sort_upserts [OF assms(2-4)] by (auto simp: list_all_iff at_home_def observer_to_row_def)
qed

lemma ResetTutorial_succeeds:
  assumes load: "Load dr lab db = Ok s0" "dr_fault dr = (\<lambda>_ _. None)" and labs: "has_key (db_labs db) lab"
    and b: "same_bodies (sn_Simulation s0) (sn_Simulation s)" and p: "s_Portals (sn_Simulation s) = []"
    and v: "validateSnapshot s = Ok ()" and home: "list_all at_home (s_Observers (sn_Simulation s))"
  obtains db' where "ResetTutorial dr lab db s = (db', Ok ())" and "db_labs db' = db_labs db"
    and "db_events db' = delete_lab lab (db_events db)"
proof -
  let ?sim = "sn_Simulation s"
  let ?put = "\<lambda>table. fold (\<lambda>ob. AList.update (lab, o_ID ob) (observer_to_row ob)) (s_Observers ?sim) table"
  define tx1 where "tx1 = db\<lparr>db_events := delete_lab lab (db_events db)\<rparr>"
  define tx3 where "tx3 = tx1\<lparr>db_observers := ?put (db_observers tx1), db_portals := delete_lab lab (db_portals tx1)\<rparr>"
  have constraints: "observer_constraints lab tx (observer_to_row ob)" if "ob \<in> set (s_Observers ?sim)" "has_key (db_labs tx) lab" for ob tx
    using validated_snapshot(3) [OF v that(1)] home that
    by (auto simp: observer_constraints_def observer_to_row_def validateObserver_def Let_def list_all_iff at_home_def)
  have l: "has_key (db_labs tx1) lab" "has_key (db_labs tx3) lab" using labs by (simp_all add: tx1_def tx3_def)
  have 1: "foldM (persistObserver dr lab) tx1 (s_Observers ?sim) = Ok (tx1\<lparr>db_observers := ?put (db_observers tx1)\<rparr>)"
    by (rule persistObservers_Ok [OF load(2) l(1) constraints [OF _ l(1)]])
  have "covers lab (db\<lparr>db_portals := []\<rparr>) s" by (rule covers_of_Load(2) [OF load b]) (simp add: p)
  then have c: "distinct (map fst (lab_rows lab (db_observers db)))" "fst ` set (lab_rows lab (db_observers db)) \<subseteq> o_ID ` set (s_Observers ?sim)"
    "sorted_wrt (<) (map o_ID (s_Observers ?sim))" by (simp_all add: covers_def Let_def)
  have 2: "list_all (\<lambda>((l, _), row). l \<noteq> lab \<or> or_active_portal_id row = None) (?put (db_observers tx1))"
    using at_home_rows [OF _ c home] by (auto simp: list_all_iff tx1_def)
  define tx4 where "tx4 = tx3\<lparr>db_planes := fold (\<lambda>pl. AList.update (lab, pl_ID pl) (plane_to_row pl)) (s_Planes ?sim) (db_planes tx3)\<rparr>"
  have 3: "foldM (persistPlane dr lab) tx3 (s_Planes ?sim) = Ok tx4"
    unfolding tx4_def by (rule persistPlanes_Ok [OF load(2) l(2) validated_snapshot(1) [OF v]])
  have l4: "has_key (db_labs tx4) lab" using l(2) by (simp add: tx4_def)
  have 4: "foldM (persistObserver dr lab) tx4 (s_Observers ?sim) = Ok (tx4\<lparr>db_observers := ?put (db_observers tx4)\<rparr>)"
    by (rule persistObservers_Ok [OF load(2) l4 constraints [OF _ l4]])
  have "validTutorialContext ((sn_App s)\<lparr>a_TutorialStep := 0\<rparr>)"
    using validated_refs(10) [OF v] by (simp add: validTutorialContext_def)
  then obtain db' where db': "persistSnapshot dr lab tx3 s = Ok db'"
    using validated_refs(6-9) [OF v] l4 load(2) by (auto simp: persistSnapshot_def Let_def 3 4 p)
  have "inTransaction dr (Some ''begin tutorial reset'') (\<lambda>_. Some ''commit tutorial reset'') db (\<lambda>tx.
       rbind (wrapError ''clear tutorial events''
         (statement dr ''delete events'' 0 True (tx\<lparr>db_events := delete_lab lab (db_events tx)\<rparr>))) (\<lambda>tx.
       rbind (foldM (persistObserver dr lab) tx (s_Observers (sn_Simulation s))) (\<lambda>tx.
       rbind (wrapError ''clear tutorial portals''
         (statement dr ''delete portals'' 0
            (list_all (\<lambda>((l, _), row). l \<noteq> lab \<or> or_active_portal_id row = None) (db_observers tx))
            (tx\<lparr>db_portals := delete_lab lab (db_portals tx)\<rparr>))) (\<lambda>tx.
       rbind (persistSnapshot dr lab tx s) (\<lambda>tx. Ok (tx, ())))))) = (db', Ok ())"
    using load(2) 1 2 db'
    by (intro inTransaction_Ok) (simp_all add: statement_def wrapError_def tx1_def tx3_def)
  then have "ResetTutorial dr lab db s = (db', Ok ())"
    using Load_rows(5) [OF load] v by (simp add: ResetTutorial_def)
  moreover have "db_labs db' = db_labs db" "db_events db' = delete_lab lab (db_events db)"
    using persistSnapshot_effect [OF db'] by (simp_all add: tx1_def tx3_def)
  ultimately show ?thesis by (rule that)
qed

end
