(* ===== verification/Bootstrapped.thy ===== *)
theory Bootstrapped
  imports Store
begin

text \<open>
  The bootstrap: for a canonical seed and a new laboratory it succeeds when the driver does,
  the next load returns the canonical tutorial state, and running it again changes nothing.
\<close>

section \<open>The canonical state\<close>

definition seedPlane :: "planeSeed \<Rightarrow> Plane" where
  "seedPlane seed = \<lparr>pl_ID = ps_ID seed, pl_Name = ps_Name seed, pl_Aliases = ps_Aliases seed,
     pl_CatalogTier = ps_CatalogTier seed, pl_Explored = False, pl_ExploredAt = None\<rparr>"

definition canonicalSeeds :: "planeSeed list \<Rightarrow> bool" where
  "canonicalSeeds seeds \<longleftrightarrow> length seeds = 85 \<and> sorted_wrt (<) (map ps_ID seeds) \<and>
     list_all (\<lambda>seed. 0 < ps_ID seed \<and> \<not> blank (ps_Name seed) \<and> \<not> blank (ps_CatalogTier seed)) seeds"

definition initialSnapshot :: "planeSeed list \<Rightarrow> time \<Rightarrow> Snapshot" where
  "initialSnapshot seeds now =
     \<lparr>sn_Simulation =
        \<lparr>s_Lab = \<lparr>l_EnergyBase = 100, l_EnergyBaseAt = now, l_LeylineOverrideUntil = None\<rparr>, s_Portals = [],
         s_Planes = map seedPlane seeds, s_Observers = map (\<lambda>i. NewObserver (int i + 1) now) [0..<20],
         s_NextPortalID = 1, s_NaturalSpawn = pausedSpawn, s_LastTickAt = None\<rparr>,
      sn_App = \<lparr>a_Mode = ModeTutorial, a_TutorialStep = 0, a_TutorialPhase = TutorialPhaseNone,
         a_TutorialPortalID = None, a_TutorialPlaneID = None, a_TutorialObserverID = None\<rparr>\<rparr>"

lemma Default_canonical: "ObserverCount Default = 20" "LabEnergyMax Default = 100"
  by (simp_all add: Default_def)

lemma initial_is_canonical:
  "canonicalTutorialSnapshot (initialSnapshot seeds now) now (ObserverCount Default) 100 = Ok (initialSnapshot seeds now)"
  by (simp add: canonicalTutorialSnapshot_def NewObserverRoster_def Default_canonical initialSnapshot_def seedPlane_def comp_def)

lemma validateSnapshotPlanes_Ok:
  assumes "list_all (\<lambda>pl. validatePlane pl = Ok ()) planes" and "distinct (map pl_ID planes)"
  shows "\<exists>ids. validateSnapshotPlanes planes = Ok ids"
proof -
  have "pl_ID ` set planes \<inter> seen = {} \<Longrightarrow> \<exists>ids. foldM (\<lambda>planeIDs pl.
         rbind (validatePlane pl) (\<lambda>_.
         rbind (check (pl_ID pl \<notin> planeIDs) (''duplicate plane '' @ format_d (pl_ID pl))) (\<lambda>_.
         Ok (insert (pl_ID pl) planeIDs)))) seen planes = Ok ids" for seen
    using assms by (induction planes arbitrary: seen) (auto simp: check_def)
  from this [of "{}"] show ?thesis by (simp add: validateSnapshotPlanes_def)
qed

lemma validateSnapshotObservers_Ok:
  assumes "list_all (\<lambda>ob. validateObserver ob = Ok () \<and> o_CurrentPlaneID ob = None \<and> o_ActivePortalID ob = None) obs"
    and "distinct (map o_ID obs)"
  shows "\<exists>ids. validateSnapshotObservers planes portals obs = Ok ids"
proof -
  have "o_ID ` set obs \<inter> seen = {} \<Longrightarrow> \<exists>ids. foldM (\<lambda>observerIDs ob.
         rbind (validateObserver ob) (\<lambda>_.
         rbind (check (o_ID ob \<notin> observerIDs) (''duplicate observer '' @ format_d (o_ID ob))) (\<lambda>_.
         rbind (check (case o_CurrentPlaneID ob of Some i \<Rightarrow> i \<in> planes | None \<Rightarrow> True)
                  (''observer '' @ format_d (o_ID ob) @ '' references missing plane'')) (\<lambda>_.
         rbind (check (case o_ActivePortalID ob of Some i \<Rightarrow> i \<in> portals | None \<Rightarrow> True)
                  (''observer '' @ format_d (o_ID ob) @ '' references missing portal'')) (\<lambda>_.
         Ok (insert (o_ID ob) observerIDs)))))) seen obs = Ok ids" for seen
    using assms by (induction obs arbitrary: seen) (auto simp: check_def)
  from this [of "{}"] show ?thesis by (simp add: validateSnapshotObservers_def)
qed

lemma fold_fixed: "\<forall>x\<in>set xs. f x t = t \<Longrightarrow> fold f xs t = t"
  by (induction xs) simp_all

lemma initial_time: "snapshotValidationTime (sn_Simulation (initialSnapshot seeds now)) = now"
  by (simp add: snapshotValidationTime_def initialSnapshot_def pausedSpawn_def Let_def fold_fixed seedPlane_def
      NewObserver_def del: upt_rec_numeral)

lemma initial_structure:
  assumes "canonicalSeeds seeds"
  shows "validateSimulationStructure (sn_Simulation (initialSnapshot seeds now)) now = Ok ()"
proof -
  have d: "distinct (map pl_ID (map seedPlane seeds))"
    using assms by (auto simp: canonicalSeeds_def seedPlane_def comp_def strict_sorted_iff)
  have planes: "list_all (validPlane now) (map seedPlane seeds)"
    using assms by (auto simp: canonicalSeeds_def validPlane_def seedPlane_def list_all_iff)
  have obs: "validateSimulationObservers (map (\<lambda>i. NewObserver (int i + 1) now) [0..<20]) ids [] now = Ok ()" for ids
    by (auto simp: validateSimulationObservers_def NewObserver_def distinct_map inj_on_def list_all_iff
        validSimulationObserver_def Before_def After_def)
  show ?thesis
    using assms d planes obs
    by (simp add: validateSimulationStructure_def initialSnapshot_def Let_def open_slots_def maxPortalID_def canonicalSeeds_def
        validNaturalSpawnState_def pausedSpawn_def After_def del: upt_rec_numeral)
qed

lemma initial_valid:
  assumes "canonicalSeeds seeds" and "stampable now"
  shows "validateSnapshot (initialSnapshot seeds now) = Ok ()"
proof -
  have "list_all (\<lambda>pl. validatePlane pl = Ok ()) (map seedPlane seeds)"
    using assms(1) by (auto simp: canonicalSeeds_def validatePlane_def seedPlane_def list_all_iff Let_def check_def encodeOptionalTime_def)
  moreover have "distinct (map pl_ID (map seedPlane seeds))"
    using assms by (auto simp: canonicalSeeds_def seedPlane_def comp_def strict_sorted_iff)
  ultimately obtain ids where "validateSnapshotPlanes (map seedPlane seeds) = Ok ids"
    using validateSnapshotPlanes_Ok by blast
  moreover have "list_all (\<lambda>ob. validateObserver ob = Ok () \<and> o_CurrentPlaneID ob = None \<and> o_ActivePortalID ob = None)
      (map (\<lambda>i. NewObserver (int i + 1) now) [0..<20])"
    using assms(2) by (auto simp: list_all_iff validateObserver_def NewObserver_def validObserverStatus_def Let_def check_def)
  then obtain ids' where "validateSnapshotObservers ids {} (map (\<lambda>i. NewObserver (int i + 1) now) [0..<20]) = Ok ids'"
    using validateSnapshotObservers_Ok [of "map (\<lambda>i. NewObserver (int i + 1) now) [0..<20]" ids "{}"]
    by (auto simp: NewObserver_def distinct_map inj_on_def)
  ultimately show ?thesis
    using assms initial_time [of seeds now] initial_structure [OF assms(1), of now]
    by (simp add: validateSnapshot_def initialSnapshot_def pausedSpawn_def validateSnapshotPortals_def Default_canonical
        canonicalSeeds_def validAppMode_def validTutorialContext_def validOptionalID_def Let_def check_def
        del: upt_rec_numeral)
qed

section \<open>The transaction\<close>

definition newLab :: "LabID \<Rightarrow> Database \<Rightarrow> bool" where
  "newLab lab db \<longleftrightarrow> \<not> has_key (db_labs db) lab \<and> lab_rows lab (db_planes db) = [] \<and> lab_rows lab (db_portals db) = [] \<and>
     lab_rows lab (db_observers db) = [] \<and> lab_rows lab (db_events db) = [] \<and>
     \<not> has_key (db_lab_state db) lab \<and> \<not> has_key (db_app_state db) lab"

definition seed_row :: "planeSeed \<Rightarrow> plane_row" where
  "seed_row seed = \<lparr>plr_name = ps_Name seed, plr_aliases_json = ps_Aliases seed,
     plr_catalog_tier = ps_CatalogTier seed, plr_explored = False, plr_explored_at = None\<rparr>"

definition fresh_row :: "Observer \<Rightarrow> observer_row" where
  "fresh_row ob = \<lparr>or_status = o_Status ob, or_current_plane_id = None, or_active_portal_id = None,
     or_phase_started_at = None, or_phase_ends_at = None,
     or_created_at = UnixNano (o_CreatedAt ob), or_updated_at = UnixNano (o_UpdatedAt ob)\<rparr>"

lemma has_key_rows: "has_key table (lab, i) \<longleftrightarrow> i \<in> fst ` set (lab_rows lab table)"
  by (force simp: lab_rows_def)

lemma lab_rows_new [simp]: "lab_rows lab (map (\<lambda>x. ((lab, key x), to_row x)) xs) = map (\<lambda>x. (key x, to_row x)) xs"
  by (induction xs) simp_all

lemma insertSeeds_Ok:
  assumes "dr_fault dr = (\<lambda>_ _. None)" and "has_key (db_labs db) lab"
    and "distinct (map ps_ID seeds)" and "ps_ID ` set seeds \<inter> fst ` set (lab_rows lab (db_planes db)) = {}"
  shows "foldM (insertSeed dr lab) db seeds =
    Ok (db\<lparr>db_planes := db_planes db @ map (\<lambda>seed. ((lab, ps_ID seed), seed_row seed)) seeds\<rparr>)"
  using assms(2-4)
proof (induction seeds arbitrary: db)
  case (Cons seed seeds)
  have "insertSeed dr lab db seed = Ok (db\<lparr>db_planes := db_planes db @ [((lab, ps_ID seed), seed_row seed)]\<rparr>)"
    using Cons.prems assms(1) unfolding has_key_rows
    by (simp add: insertSeed_def insertRow_def statement_def wrapError_def has_key_rows seed_row_def)
  then show ?case using Cons by auto
qed simp

lemma insertObservers_Ok:
  assumes "dr_fault dr = (\<lambda>_ _. None)" and "has_key (db_labs db) lab"
    and "distinct (map o_ID obs)" and "o_ID ` set obs \<inter> fst ` set (lab_rows lab (db_observers db)) = {}"
    and "\<forall>ob\<in>set obs. validObserverStatus (o_Status ob)"
  shows "foldM (insertObserver dr lab) db obs =
    Ok (db\<lparr>db_observers := db_observers db @ map (\<lambda>ob. ((lab, o_ID ob), fresh_row ob)) obs\<rparr>)"
  using assms(2-5)
proof (induction obs arbitrary: db)
  case (Cons ob obs)
  have "insertObserver dr lab db ob = Ok (db\<lparr>db_observers := db_observers db @ [((lab, o_ID ob), fresh_row ob)]\<rparr>)"
    using Cons.prems assms(1)
    by (simp add: insertObserver_def insertRow_def statement_def wrapError_def has_key_rows fresh_row_def)
  then show ?case using Cons by auto
qed simp

abbreviation roster :: "time \<Rightarrow> Observer list" where
  "roster now \<equiv> map (\<lambda>i. NewObserver (int i + 1) now) [0..<20]"

definition bootstrapped :: "planeSeed list \<Rightarrow> LabID \<Rightarrow> Database \<Rightarrow> time \<Rightarrow> Config \<Rightarrow> Database" where
  "bootstrapped seeds lab db now cfg = db\<lparr>
     db_labs := db_labs db @ [(lab, UnixNano now, UnixNano (Add now (SessionTTL cfg)), UnixNano now)],
     db_planes := db_planes db @ map (\<lambda>seed. ((lab, ps_ID seed), seed_row seed)) seeds,
     db_observers := db_observers db @ map (\<lambda>ob. ((lab, o_ID ob), fresh_row ob)) (roster now),
     db_lab_state := db_lab_state db @ [(lab, \<lparr>lr_energy_base = 100, lr_energy_base_at = UnixNano now, lr_override_until = None\<rparr>)],
     db_app_state := db_app_state db @ [(lab, \<lparr>ar_mode = ModeTutorial, ar_tutorial_step = 0,
       ar_tutorial_phase = TutorialPhaseNone, ar_tutorial_portal_id = None, ar_tutorial_plane_id = None,
       ar_tutorial_observer_id = None, ar_next_portal_id = 1, ar_spawn_scheduled_at = None, ar_spawn_due_at = None,
       ar_spawn_paused = True, ar_last_tick_at = None\<rparr>)]\<rparr>"

lemma bootstrapTx_Ok:
  assumes dr: "dr_fault dr = (\<lambda>_ _. None)" and seeds: "canonicalSeeds seeds" and new: "newLab lab db"
    and cfg: "ObserverCount cfg = ObserverCount Default" "LabEnergyMax cfg = 100"
  shows "bootstrapTx seeds dr lab db now cfg = Ok (bootstrapped seeds lab db now cfg)"
proof -
  let ?db1 = "db\<lparr>db_labs := db_labs db @ [(lab, UnixNano now, UnixNano (Add now (SessionTTL cfg)), UnixNano now)]\<rparr>"
  let ?db2 = "?db1\<lparr>db_planes := db_planes db @ map (\<lambda>seed. ((lab, ps_ID seed), seed_row seed)) seeds\<rparr>"
  have 1: "foldM (insertSeed dr lab) ?db1 seeds = Ok ?db2"
    using insertSeeds_Ok [OF dr, of lab ?db1 seeds] seeds new by (simp add: canonicalSeeds_def newLab_def strict_sorted_iff)
  have 2: "foldM (insertObserver dr lab) ?db2 (roster now) =
      Ok (?db2\<lparr>db_observers := db_observers db @ map (\<lambda>ob. ((lab, o_ID ob), fresh_row ob)) (roster now)\<rparr>)"
    using insertObservers_Ok [OF dr, of lab ?db2 "roster now"] new
    by (simp add: newLab_def NewObserver_def distinct_map inj_on_def validObserverStatus_def comp_def del: upt_rec_numeral)
  have r: "NewObserverRoster (ObserverCount Default) now = Ok (roster now)"
    by (simp add: NewObserverRoster_def Default_canonical)
  show ?thesis
    using seeds new dr cfg
    by (simp add: bootstrapTx_def canonicalSeeds_def newLab_def insertRow_def statement_def wrapError_def 1 2 r bootstrapped_def
        del: upt_rec_numeral map_map)
qed

lemma decode_UnixNano: "stampable t \<Longrightarrow> int64_time t \<Longrightarrow> decodeTime (UnixNano t) = t"
  by (cases t) (simp add: decodeTime_def UnixNano_def int64_time_def wrap64_id stampable_def)

lemma bootstrapped_Load:
  assumes dr: "dr_fault dr = (\<lambda>_ _. None)" and seeds: "canonicalSeeds seeds" and new: "newLab lab db"
    and now: "stampable now" "int64_time now" and lab: "LabID_valid lab"
  shows "Load dr lab (bootstrapped seeds lab db now cfg) = Ok (initialSnapshot seeds now)"
proof -
  let ?db = "bootstrapped seeds lab db now cfg"
  have "sort_key fst (map (\<lambda>seed. (ps_ID seed, seed_row seed)) seeds) = map (\<lambda>seed. (ps_ID seed, seed_row seed)) seeds"
    using seeds by (intro sort_key_id_if_sorted) (simp add: comp_def canonicalSeeds_def strict_sorted_iff)
  then have planes: "map row_to_plane (select_lab lab (db_planes ?db)) = map seedPlane seeds"
    using new by (simp add: select_lab_rows bootstrapped_def newLab_def row_to_plane_def seed_row_def seedPlane_def
        decodeOptionalTime_def)
  have portals: "select_lab lab (db_portals ?db) = []"
    using new by (simp add: select_lab_rows bootstrapped_def newLab_def)
  have "sort_key fst (map (\<lambda>ob. (o_ID ob, fresh_row ob)) (roster now)) = map (\<lambda>ob. (o_ID ob, fresh_row ob)) (roster now)"
    by (intro sort_key_id_if_sorted) (simp add: comp_def NewObserver_def sorted_iff_nth_mono del: upt_rec_numeral)
  then have observers: "map row_to_observer (select_lab lab (db_observers ?db)) = roster now"
    using new now by (simp add: select_lab_rows bootstrapped_def newLab_def row_to_observer_def fresh_row_def NewObserver_def
        decodeOptionalTime_def decode_UnixNano comp_def del: upt_rec_numeral)
  have "map_of (db_lab_state ?db) lab = Some \<lparr>lr_energy_base = 100, lr_energy_base_at = UnixNano now, lr_override_until = None\<rparr>"
    "map_of (db_app_state ?db) lab = Some \<lparr>ar_mode = ModeTutorial, ar_tutorial_step = 0,
       ar_tutorial_phase = TutorialPhaseNone, ar_tutorial_portal_id = None, ar_tutorial_plane_id = None,
       ar_tutorial_observer_id = None, ar_next_portal_id = 1, ar_spawn_scheduled_at = None, ar_spawn_due_at = None,
       ar_spawn_paused = True, ar_last_tick_at = None\<rparr>"
    using new by (simp_all add: bootstrapped_def newLab_def map_add_def map_of_eq_None_iff [symmetric] split: option.splits)
  then show ?thesis
    using lab initial_valid [OF seeds now(1)] now
    by (simp add: Load_Ok [OF dr] load_image_def planes portals observers snapshot_of_def decode_UnixNano)
      (simp add: initialSnapshot_def decodeOptionalTime_def pausedSpawn_def)
qed

lemma Bootstrap_first:
  assumes "dr_fault dr = (\<lambda>_ _. None)" and "canonicalSeeds seeds" and "newLab lab db" and "stampable now" and "LabID_valid lab"
    and "ObserverCount cfg = ObserverCount Default" and "LabEnergyMax cfg = 100"
  shows "Bootstrap seeds dr lab db now cfg = (bootstrapped seeds lab db now cfg, Ok False)"
  using assms bootstrapTx_Ok [OF assms(1-3,6,7)]
  by (simp add: Bootstrap_def stampable_def inTransaction_Ok query_def newLab_def statement_def wrapError_def)

lemma Bootstrap_again:
  assumes "dr_fault dr = (\<lambda>_ _. None)" and "has_key (db_app_state db) lab" and "stampable now" and "LabID_valid lab"
    and "ObserverCount cfg = ObserverCount Default" and "LabEnergyMax cfg = 100"
  shows "Bootstrap seeds dr lab db now cfg = (db, Ok True)"
  using assms by (simp add: Bootstrap_def stampable_def inTransaction_Ok query_def statement_def wrapError_def)

section \<open>A bootstrapped laboratory\<close>

definition sample_seeds :: "planeSeed list" where
  "sample_seeds = map (\<lambda>i. \<lparr>ps_ID = int i, ps_Name = ''Plane'', ps_Aliases = [], ps_CatalogTier = ''core''\<rparr>) [1..<86]"

definition sample_lab :: LabID where
  "sample_lab = replicate 32 CHR ''0''"

definition other_lab :: LabID where
  "other_lab = replicate 32 CHR ''1''"

definition empty_db :: Database where
  "empty_db = \<lparr>db_labs = [], db_planes = [], db_portals = [], db_observers = [], db_events = [], db_lab_state = [],
     db_app_state = [], db_sessions = []\<rparr>"

definition boot_time :: time where
  "boot_time = Time (unix_epoch + Second) True"

abbreviation sample_db :: Database where
  "sample_db \<equiv> bootstrapped sample_seeds sample_lab empty_db boot_time Default"

abbreviation sample_snapshot :: Snapshot where
  "sample_snapshot \<equiv> initialSnapshot sample_seeds boot_time"

lemma sample_facts:
  "canonicalSeeds sample_seeds" "newLab sample_lab empty_db" "stampable boot_time" "int64_time boot_time"
  "LabID_valid sample_lab" "LabID_valid other_lab" "other_lab \<noteq> sample_lab"
proof -
  show "canonicalSeeds sample_seeds"
    by (auto simp: canonicalSeeds_def sample_seeds_def comp_def list_all_iff blank_def sorted_wrt_map sorted_wrt_iff_nth_less
        simp del: upt_rec_numeral)
qed (simp_all add: newLab_def empty_db_def stampable_def boot_time_def IsZero_def int64_time_def int64_range_def
    LabID_valid_def sample_lab_def other_lab_def list_all_iff)

lemma sample_loaded: "Load reader sample_lab sample_db = Ok sample_snapshot"
  by (rule bootstrapped_Load) (simp_all add: sample_facts)

lemma sample_has_lab: "has_key (db_labs sample_db) sample_lab"
  by (simp add: bootstrapped_def)

lemma initial_portals [simp]: "s_Portals (sn_Simulation (initialSnapshot seeds now)) = []"
  by (simp add: initialSnapshot_def)

lemma initial_storable: "int64_time now \<Longrightarrow> storable (initialSnapshot seeds now)"
  by (auto simp: storable_def snapshot_times_def initialSnapshot_def list_all_iff opt_list_def pausedSpawn_def seedPlane_def
      NewObserver_def simp del: upt_rec_numeral)

lemma sample_commit:
  assumes "\<forall>d\<in>set drafts. EventDraft_Validate d = Ok ()"
  shows "\<exists>db' events. Commit reader sample_lab sample_db sample_snapshot drafts = (db', Ok events)"
  by (rule Commit_succeeds [OF sample_loaded reader_faultless successor_refl initial_valid sample_has_lab assms])
    (auto simp: sample_facts)

end
