(* ===== verification/StoreProperties.thy ===== *)
theory StoreProperties
  imports Bootstrapped
begin

text \<open>
  The guarantees of the repository and of the manager over it, as properties of the code:
  round trips, atomicity, isolation of the laboratories, the event log, and the agreement
  of memory and store along a run.
\<close>

text \<open>
  C2: a commit that succeeds is what the next load returns, field by field, portals,
  observers, planes, tutorial and spawn state included, when the committed snapshot keeps the planes and
  observers of the stored one and extends its portals, and its times fit 64-bit nanoseconds.
\<close>

theorem commit_then_load:
  assumes "Load reader lab db = Ok s" and "follows s t" and "storable t"
    and "Commit dr lab db t drafts = (db', Ok events)"
  shows "Load reader lab db' = Ok t"
  using store.commit_stores [of lab db s t dr drafts db' events] assms by simp

theorem commit_then_load_witness:
  "Load reader sample_lab (fst (Commit reader sample_lab sample_db sample_snapshot [])) = Ok sample_snapshot"
proof -
  obtain db' events where c: "Commit reader sample_lab sample_db sample_snapshot [] = (db', Ok events)"
    using sample_commit [of "[]"] by auto
  have "follows sample_snapshot sample_snapshot" by (rule successor_follows [OF successor_refl]) simp
  from commit_then_load [OF sample_loaded this initial_storable [OF sample_facts(4)] c] show ?thesis by (simp add: c)
qed

text \<open>
  C5: without a fault of the driver, committing a valid successor of the stored snapshot
  with valid drafts always succeeds: no check, foreign key or unique slot index of the
  schema stands in the way, in whatever order the rows are written.
\<close>

theorem valid_commit_succeeds:
  assumes "Load dr lab db = Ok s" and "dr_fault dr = (\<lambda>_ _. None)" and "has_key (db_labs db) lab"
    and "successor s t" and "validateSnapshot t = Ok ()" and "list_all (\<lambda>d. EventDraft_Validate d = Ok ()) drafts"
  shows "\<exists>db' events. Commit dr lab db t drafts = (db', Ok events)"
  by (rule Commit_succeeds [OF assms(1,2,4,5,3)]) (use assms(6) in \<open>auto simp: list_all_iff\<close>)

theorem valid_commit_succeeds_witness:
  "\<exists>db' events. Commit reader sample_lab sample_db sample_snapshot [] = (db', Ok events)"
  by (rule valid_commit_succeeds [OF sample_loaded reader_faultless sample_has_lab successor_refl initial_valid])
    (auto simp: sample_facts)

text \<open>
  C6: commit and reset are atomic: whatever the driver does, an operation that returns an
  error leaves every table as it was.
\<close>

theorem failed_write_changes_nothing:
  "((\<exists>events. snd (Commit dr lab db s drafts) = Ok events) \<or> fst (Commit dr lab db s drafts) = db) \<and>
   (snd (ResetTutorial dr lab db s) = Ok () \<or> fst (ResetTutorial dr lab db s) = db)"
proof -
  have "(\<exists>events. snd (Commit dr lab db s drafts) = Ok events) \<or> fst (Commit dr lab db s drafts) = db"
    using Commit_effect [of dr lab db s drafts] by (cases "Commit dr lab db s drafts") auto
  moreover have "snd (ResetTutorial dr lab db s) = Ok () \<or> fst (ResetTutorial dr lab db s) = db"
    using ResetTutorial_effect [of dr lab db s] by (cases "ResetTutorial dr lab db s") auto
  ultimately show ?thesis by blast
qed

text \<open>
  C7: laboratories are isolated: a commit or a reset of one laboratory changes nothing that
  another laboratory's load or event list returns.
\<close>

theorem laboratories_isolated:
  assumes "l \<noteq> lab"
  shows "Load dr' l (fst (Commit dr lab db s drafts)) = Load dr' l db \<and>
    ListEvents dr' l (fst (Commit dr lab db s drafts)) portal = ListEvents dr' l db portal \<and>
    Load dr' l (fst (ResetTutorial dr lab db s)) = Load dr' l db \<and>
    ListEvents dr' l (fst (ResetTutorial dr lab db s)) portal = ListEvents dr' l db portal"
  using same_view_queries [OF Commit_view [OF assms, of db dr s drafts], of dr' portal]
    same_view_queries [OF ResetTutorial_view [OF assms, of db dr s], of dr' portal] by auto

theorem laboratories_isolated_witness:
  "Load reader sample_lab (fst (Commit reader other_lab sample_db sample_snapshot [])) = Ok sample_snapshot"
  using laboratories_isolated [of sample_lab other_lab reader reader sample_db sample_snapshot "[]" None]
    sample_loaded sample_facts(7) by auto

text \<open>
  C8: the event log only grows: after a commit the list of events holds the old events in
  their order and, with the next IDs, exactly the events the commit returned.
\<close>

theorem event_log_append_only:
  assumes "Commit dr lab db s drafts = (db', Ok events)" and "ListEvents reader lab db None = Ok before"
    and "list_all (\<lambda>d. int64_time (d_CreatedAt d)) drafts"
  shows "\<exists>log. ListEvents reader lab db' None = Ok log \<and>
    filter (\<lambda>e. e_ID e < nextEventID lab db) log = before \<and>
    filter (\<lambda>e. nextEventID lab db \<le> e_ID e) log = events \<and>
    map e_ID events = map (\<lambda>i. nextEventID lab db + int i) [0..<length drafts]"
proof -
  have "map e_ID (events_from n ds) = map (\<lambda>i. n + int i) [0..<length ds]" for n ds
    by (induction ds rule: rev_induct) (simp_all add: event_at_def)
  moreover obtain tx where "persistSnapshot dr lab db s = Ok tx" "events = events_from (nextEventID lab tx) (orderDrafts drafts)"
    using Commit_effect [OF assms(1)] by auto
  moreover from this have "nextEventID lab tx = nextEventID lab db"
    using persistSnapshot_effect by (fastforce simp: nextEventID_def)
  ultimately have "map e_ID events = map (\<lambda>i. nextEventID lab db + int i) [0..<length drafts]"
    by (simp add: orderDrafts_def)
  then show ?thesis using Commit_log [OF assms] by blast
qed

definition sample_draft :: EventDraft where
  "sample_draft = \<lparr>d_EventType = EventActionRejected, d_PortalID = None, d_ObserverID = None, d_PlaneID = None,
     d_Message = ''rejected'', d_PayloadJSON = JObject [], d_CreatedAt = boot_time\<rparr>"

lemma sample_draft_ok: "EventDraft_Validate sample_draft = Ok ()"
  using sample_facts(3)
  by (simp add: EventDraft_Validate_def sample_draft_def IsEventType_def blank_def stampable_def validEventEntityID_def
      isJSONObject_def)

lemma sample_no_events: "ListEvents reader sample_lab sample_db None = Ok []"
  by (simp add: ListEvents_all sample_facts(5) select_lab_rows) (simp add: bootstrapped_def empty_db_def)

theorem event_log_append_only_witness:
  "\<exists>log. ListEvents reader sample_lab (fst (Commit reader sample_lab sample_db sample_snapshot [sample_draft])) None = Ok log \<and>
     map e_ID log = [1]"
proof -
  have n: "nextEventID sample_lab sample_db = 1" by (simp add: nextEventID_Max bootstrapped_def empty_db_def)
  have t: "list_all (\<lambda>d. int64_time (d_CreatedAt d)) [sample_draft]" by (simp add: sample_draft_def sample_facts(4))
  have "\<forall>d\<in>set [sample_draft]. EventDraft_Validate d = Ok ()" by (simp add: sample_draft_ok)
  from sample_commit [OF this] obtain db' events
    where c: "Commit reader sample_lab sample_db sample_snapshot [sample_draft] = (db', Ok events)" by blast
  from event_log_append_only [OF c sample_no_events t]
  obtain log where log: "ListEvents reader sample_lab db' None = Ok log" "filter (\<lambda>e. e_ID e < 1) log = []"
    "filter (\<lambda>e. 1 \<le> e_ID e) log = events" "map e_ID events = [1]" by (auto simp: n)
  then have "log = events" by (simp add: filter_empty_conv filter_id_conv not_less)
  with log c show ?thesis by auto
qed

text \<open>
  The bootstrap of a new laboratory from a canonical seed succeeds without a fault of
  the driver; the next load returns the seed's planes in their canonical state, the state a
  tutorial reset at that time would produce; a second bootstrap changes nothing.
\<close>

theorem bootstrap_then_load:
  assumes "dr_fault dr = (\<lambda>_ _. None)" and "canonicalSeeds seeds" and "newLab lab db" and "LabID_valid lab"
    and "stampable now" and "int64_time now" and "ObserverCount cfg = ObserverCount Default" and "LabEnergyMax cfg = 100"
  shows "\<exists>db' s. Bootstrap seeds dr lab db now cfg = (db', Ok False) \<and> Load dr lab db' = Ok s \<and>
    s_Planes (sn_Simulation s) = map seedPlane seeds \<and>
    canonicalTutorialSnapshot s now (ObserverCount cfg) (LabEnergyMax cfg) = Ok s \<and>
    Bootstrap seeds dr lab db' now cfg = (db', Ok True)"
proof (intro exI conjI)
  show "Bootstrap seeds dr lab db now cfg = (bootstrapped seeds lab db now cfg, Ok False)"
    by (rule Bootstrap_first [OF assms(1,2,3,5,4,7,8)])
  show "Load dr lab (bootstrapped seeds lab db now cfg) = Ok (initialSnapshot seeds now)"
    by (rule bootstrapped_Load [OF assms(1,2,3,5,6,4)])
  show "canonicalTutorialSnapshot (initialSnapshot seeds now) now (ObserverCount cfg) (LabEnergyMax cfg) =
      Ok (initialSnapshot seeds now)"
    using initial_is_canonical assms(7,8) by simp
  show "Bootstrap seeds dr lab (bootstrapped seeds lab db now cfg) now cfg = (bootstrapped seeds lab db now cfg, Ok True)"
    using assms by (intro Bootstrap_again) (simp_all add: bootstrapped_def)
qed (simp add: initialSnapshot_def)

theorem bootstrap_then_load_witness:
  "\<exists>db' s. Bootstrap sample_seeds reader sample_lab empty_db boot_time Default = (db', Ok False) \<and>
     Load reader sample_lab db' = Ok s \<and> length (s_Planes (sn_Simulation s)) = 85"
  using bootstrap_then_load [of reader sample_seeds sample_lab empty_db boot_time Default] sample_facts
  by (auto simp: Default_canonical canonicalSeeds_def)

section \<open>Memory and store along a run\<close>

text \<open>The manager over the repository of a laboratory, with the driver behaving in a certain way.\<close>

definition over :: "Driver \<Rightarrow> LabID \<Rightarrow> ('r, 'b, Database) Env \<Rightarrow> ('r, 'b, Database) Env" where
  "over dr lab env = env\<lparr>en_Load := Load dr lab, en_Commit := Commit dr lab, en_ListEvents := ListEvents dr lab,
     en_ResetTutorial := ResetTutorial dr lab\<rparr>"

lemma over_simps [simp]:
  "en_cfg (over dr lab env) = en_cfg env" "en_Commit (over dr lab env) = Commit dr lab"
  "en_ResetTutorial (over dr lab env) = ResetTutorial dr lab"
  by (simp_all add: over_def)

text \<open>
  A run whose times stay in the range of the columns.  Every operation may meet another
  behaviour of the driver, so that faults come and go.
\<close>

inductive stored_run ::
    "LabID \<Rightarrow> ('r, 'b, Database) Env \<Rightarrow> ('r, Database) LabManager \<Rightarrow> ('r, Database) LabManager \<Rightarrow> bool" for lab env where
  start: "stored_run lab env m m"
| step: "stored_run lab env m m' \<Longrightarrow> room 8 (m_snapshot m') \<Longrightarrow> manager_step (over dr lab env) m' m'' \<Longrightarrow>
    storable (m_snapshot m'') \<Longrightarrow> stored_run lab env m m''"
| reset: "stored_run lab env m m' \<Longrightarrow> ManagerResetTutorial (over dr lab env) lock now m' = (m'', res) \<Longrightarrow>
    storable (m_snapshot m'') \<Longrightarrow> stored_run lab env m m''"

definition canonical_roster :: "Config \<Rightarrow> Snapshot \<Rightarrow> bool" where
  "canonical_roster cfg s \<longleftrightarrow> map o_ID (s_Observers (sn_Simulation s)) = map (\<lambda>i. int i + 1) [0..<nat (ObserverCount cfg)]"

lemma stored_run_agrees:
  assumes "stored_run lab env m m'" and "store.agrees lab m" and "aggregate_ok (en_cfg env) (sn_Simulation (m_snapshot m))"
    and "canonical_roster (en_cfg env) (m_snapshot m)"
  shows "store.agrees lab m' \<and> aggregate_ok (en_cfg env) (sn_Simulation (m_snapshot m')) \<and>
    canonical_roster (en_cfg env) (m_snapshot m')"
  using assms
proof (induction rule: stored_run.induct)
  case (step m m' dr m'')
  then have IH: "store.agrees lab m'" "aggregate_ok (en_cfg env) (sn_Simulation (m_snapshot m'))"
    "canonical_roster (en_cfg env) (m_snapshot m')" by blast+
  have e: "evolves (en_cfg env) (sn_Simulation (m_snapshot m')) (sn_Simulation (m_snapshot m''))"
    using manager_step_evolves [OF step(3,2)] by simp
  have "same_bodies (sn_Simulation (m_snapshot m')) (sn_Simulation (m_snapshot m''))"
    using evolves_prefix [OF e] by blast
  then have "canonical_roster (en_cfg env) (m_snapshot m'')" using IH(3) by (simp add: canonical_roster_def same_bodies_def)
  moreover have "aggregate_ok (en_cfg env) (sn_Simulation (m_snapshot m''))" by (rule aggregate_ok_evolves [OF e IH(2)])
  moreover have "store.agrees lab m''"
    by (rule store.step_agrees [OF over_simps(2) IH(1) step(2) _ step(3,4)]) (simp add: IH(2))
  ultimately show ?case by blast
next
  case (reset m m' dr lock now m'' res)
  then have IH: "store.agrees lab m'" "aggregate_ok (en_cfg env) (sn_Simulation (m_snapshot m'))"
    "canonical_roster (en_cfg env) (m_snapshot m')" by blast+
  have "store.agrees lab m''"
    by (rule store.reset_agrees [OF over_simps(3) IH(1) reset(2,3)]) (use IH(3) in \<open>simp add: canonical_roster_def\<close>)
  moreover have "aggregate_ok (en_cfg env) (sn_Simulation (m_snapshot m'')) \<and> canonical_roster (en_cfg env) (m_snapshot m'')"
    using reset(2) by (cases rule: reset_cases) (use IH canonical_ok canonical_fields(2) in \<open>auto simp: canonical_roster_def\<close>)
  ultimately show ?case by blast
qed simp

text \<open>
  C1: along every run of the manager over the repository, whatever operations fail and however
  the driver's faults come and go between them, what a load would return is the snapshot in
  memory, except for the time of the last tick.
\<close>

theorem memory_agrees_with_store:
  assumes "NewLabManager env r d = Ok m" and "stored_run lab env m m'" and "en_Load env = Load reader lab"
    and "aggregate_ok (en_cfg env) (sn_Simulation (m_snapshot m))" and "canonical_roster (en_cfg env) (m_snapshot m)"
  shows "\<exists>s. Load reader lab (m_repo m') = Ok s \<and> \<not> meaningfulSnapshotChange s (m_snapshot m')"
proof -
  have "Load reader lab (m_repo m) = Ok (m_snapshot m)"
    using assms(1,3) by (auto simp: NewLabManager_def split: result.splits)
  then have "store.agrees lab m" by (auto simp: store.agrees_def meaningfulSnapshotChange_def)
  from stored_run_agrees [OF assms(2) this assms(4,5)] show ?thesis by (auto simp: store.agrees_def)
qed

section \<open>The tutorial reset\<close>

definition plane_seed :: "Plane \<Rightarrow> planeSeed" where
  "plane_seed pl = \<lparr>ps_ID = pl_ID pl, ps_Name = pl_Name pl, ps_Aliases = pl_Aliases pl, ps_CatalogTier = pl_CatalogTier pl\<rparr>"

lemma loaded_seeds:
  assumes "Load dr lab db = Ok s" and "dr_fault dr = (\<lambda>_ _. None)"
  shows "canonicalSeeds (map plane_seed (s_Planes (sn_Simulation s)))"
proof -
  have v: "validateSnapshot s = Ok ()" by (rule Load_rows(4) [OF assms])
  have "0 < pl_ID pl \<and> \<not> blank (pl_Name pl) \<and> \<not> blank (pl_CatalogTier pl)" if "pl \<in> set (s_Planes (sn_Simulation s))" for pl
    using validated_snapshot(1) [OF v that] by (simp add: validatePlane_def Let_def)
  moreover have "length (s_Planes (sn_Simulation s)) = 85" using v by (simp add: validateSnapshot_def Let_def)
  moreover have "sorted_wrt (<) (map pl_ID (s_Planes (sn_Simulation s)))"
    using validated_snapshot(4) [OF v] Load_rows(1) [OF assms] select_lab_keys(3) by (simp add: strict_sorted_iff)
  ultimately show ?thesis by (simp add: canonicalSeeds_def plane_seed_def list_all_iff comp_def)
qed

lemma canonical_is_initial:
  "canonicalTutorialSnapshot s now (ObserverCount Default) (LabEnergyMax Default) = Ok t \<longleftrightarrow>
   t = initialSnapshot (map plane_seed (s_Planes (sn_Simulation s))) now"
  by (auto simp: canonicalTutorialSnapshot_def NewObserverRoster_def Default_canonical initialSnapshot_def seedPlane_def
      plane_seed_def comp_def)

lemma reset_snapshot_facts:
  assumes "Load dr lab db = Ok s" and "dr_fault dr = (\<lambda>_ _. None)" and "canonical_roster Default s" and "stampable now"
    and t: "t = initialSnapshot (map plane_seed (s_Planes (sn_Simulation s))) now"
  shows "same_bodies (sn_Simulation s) (sn_Simulation t)" and "validateSnapshot t = Ok ()"
    and "list_all at_home (s_Observers (sn_Simulation t))"
  using assms(3) initial_valid [OF loaded_seeds [OF assms(1,2)] assms(4)]
  by (auto simp: t same_bodies_def initialSnapshot_def seedPlane_def plane_seed_def comp_def canonical_roster_def
      Default_canonical NewObserver_def at_home_def list_all_iff simp del: upt_rec_numeral)

text \<open>
  C9: resetting the tutorial always succeeds without a fault of the driver, although
  observers may refer to portals that are deleted: the next load returns the canonical
  state, with the same planes unexplored and everyone at home, and the event log is empty.
\<close>

theorem tutorial_reset_restores:
  assumes "Load dr lab db = Ok s" and "dr_fault dr = (\<lambda>_ _. None)" and "has_key (db_labs db) lab"
    and "canonical_roster Default s" and "stampable now" and "int64_time now"
    and "canonicalTutorialSnapshot s now (ObserverCount Default) (LabEnergyMax Default) = Ok t"
  shows "\<exists>db'. ResetTutorial dr lab db t = (db', Ok ()) \<and> Load dr lab db' = Ok t \<and> ListEvents reader lab db' None = Ok []"
proof -
  have t: "t = initialSnapshot (map plane_seed (s_Planes (sn_Simulation s))) now"
    using assms(7) canonical_is_initial by blast
  note f = reset_snapshot_facts [OF assms(1,2,4,5) t]
  have p: "s_Portals (sn_Simulation t) = []" by (simp add: t)
  obtain db' where db': "ResetTutorial dr lab db t = (db', Ok ())" "db_events db' = delete_lab lab (db_events db)"
    using ResetTutorial_succeeds [OF assms(1,2,3) f(1) p f(2,3)] by blast
  have "covers lab (db\<lparr>db_portals := []\<rparr>) t" by (rule covers_of_Load(2) [OF assms(1,2) f(1)]) (simp add: p)
  then have "Load dr lab db' = Ok t"
    using ResetTutorial_Load [OF db'(1) _ _ assms(2)] initial_storable [OF assms(6)] by (simp add: t)
  moreover have "ListEvents reader lab db' None = Ok []"
    using Load_rows(5) [OF assms(1,2)] by (simp add: ListEvents_all select_lab_rows db'(2))
  ultimately show ?thesis using db'(1) by blast
qed

lemma sample_reset:
  "canonicalTutorialSnapshot sample_snapshot boot_time (ObserverCount Default) (LabEnergyMax Default) = Ok sample_snapshot"
  "canonical_roster Default sample_snapshot"
  using initial_is_canonical [of sample_seeds boot_time]
  by (simp_all add: Default_canonical canonical_roster_def initialSnapshot_def NewObserver_def comp_def del: upt_rec_numeral)

theorem tutorial_reset_restores_witness:
  "\<exists>db'. ResetTutorial reader sample_lab sample_db sample_snapshot = (db', Ok ()) \<and>
     Load reader sample_lab db' = Ok sample_snapshot"
  using tutorial_reset_restores [OF sample_loaded reader_faultless sample_has_lab sample_reset(2) sample_facts(3,4) sample_reset(1)]
  by blast

section \<open>A run of the manager over the repository\<close>

text \<open>A generator whose draws are the lower bounds, and no binary state.\<close>

definition sample_env :: "(unit, unit, Database) Env" where
  "sample_env = \<lparr>en_cfg = Default,
     en_random = \<lparr>IntInclusive = (\<lambda>r mn mx. if mn \<le> mx then Ok (mn, r) else Panic),
                  FloatRange = (\<lambda>r mn mx. if f_le mn mx then Ok (mn, r) else Panic)\<rparr>,
     en_MarshalBinary = Ok, en_UnmarshalBinary = Ok,
     en_Load = Load reader sample_lab, en_Commit = Commit reader sample_lab, en_ListEvents = ListEvents reader sample_lab,
     en_ResetTutorial = ResetTutorial reader sample_lab, en_order = (\<lambda>_. sort)\<rparr>"

definition sample_manager :: "(unit, Database) LabManager" where
  "sample_manager = \<lparr>m_random = (), m_repo = sample_db, m_snapshot = sample_snapshot, m_updates = False\<rparr>"

lemma sample_manager_new: "NewLabManager sample_env () sample_db = Ok sample_manager"
  by (simp add: NewLabManager_def sample_env_def sample_loaded sample_manager_def)

lemma sample_manager_start: "StartTutorial sample_env None boot_time sample_manager = (sample_manager, Ok ())"
  by (simp add: StartTutorial_def sample_manager_def initialSnapshot_def)

lemma sample_manager_reset:
  "\<exists>db'. ManagerResetTutorial sample_env None boot_time sample_manager =
     (sample_manager\<lparr>m_repo := db', m_updates := True\<rparr>, Ok ())"
proof -
  have t: "sample_snapshot = initialSnapshot (map plane_seed (s_Planes (sn_Simulation sample_snapshot))) boot_time"
    using sample_reset(1) canonical_is_initial by blast
  note f = reset_snapshot_facts [OF sample_loaded reader_faultless sample_reset(2) sample_facts(3) t]
  obtain db' where "ResetTutorial reader sample_lab sample_db sample_snapshot = (db', Ok ())"
    by (rule ResetTutorial_succeeds [OF sample_loaded reader_faultless sample_has_lab f(1) _ f(2,3)]) simp_all
  moreover have "UTC boot_time = boot_time" using sample_facts(3) by (simp add: UTC_id stampable_def)
  ultimately show ?thesis
    using sample_reset(1) by (simp add: ManagerResetTutorial_def sample_env_def sample_manager_def)
qed

lemma sample_aggregate: "aggregate_ok cfg (sn_Simulation sample_snapshot)"
  by (simp add: aggregate_ok_def open_slots_def initialSnapshot_def)

lemma sample_run:
  assumes "ManagerResetTutorial sample_env None boot_time sample_manager = (m', Ok ())"
  shows "stored_run sample_lab sample_env sample_manager m'"
proof -
  have "storable sample_snapshot" by (rule initial_storable [OF sample_facts(4)])
  moreover have "m_snapshot m' = sample_snapshot" "m_snapshot sample_manager = sample_snapshot"
    using sample_manager_reset assms by (auto simp: sample_manager_def)
  moreover have "room 8 sample_snapshot" by (simp add: initialSnapshot_def)
  moreover have o: "over reader sample_lab sample_env = sample_env" by (simp add: over_def sample_env_def)
  ultimately have "stored_run sample_lab sample_env sample_manager sample_manager"
    and m: "storable (m_snapshot m')"
    using stored_run.step [of sample_lab sample_env sample_manager sample_manager reader sample_manager]
      stored_run.start manager_step.start_tutorial [OF sample_manager_start] by simp_all
  then show ?thesis
    using stored_run.reset [of sample_lab sample_env sample_manager sample_manager reader None boot_time m' "Ok ()"]
      assms o by simp
qed

theorem memory_agrees_with_store_witness:
  "\<exists>m' s. ManagerResetTutorial sample_env None boot_time sample_manager = (m', Ok ()) \<and>
     Load reader sample_lab (m_repo m') = Ok s \<and> \<not> meaningfulSnapshotChange s (m_snapshot m')"
proof -
  obtain m' where m': "ManagerResetTutorial sample_env None boot_time sample_manager = (m', Ok ())"
    using sample_manager_reset by blast
  have "aggregate_ok (en_cfg sample_env) (sn_Simulation (m_snapshot sample_manager))"
    "canonical_roster (en_cfg sample_env) (m_snapshot sample_manager)"
    using sample_aggregate sample_reset(2) by (simp_all add: sample_manager_def sample_env_def)
  from memory_agrees_with_store [OF sample_manager_new sample_run [OF m'] _ this]
  show ?thesis using m' by (auto simp: sample_env_def)
qed

end
