(* ===== verification/TutorialProofs.thy ===== *)
theory TutorialProofs
  imports EngineProofs
begin

text \<open>
  The tutorial as a state machine: which steps an operation of the manager can take, and
  that the expected action is defined in every reachable state.
\<close>

section \<open>Edges\<close>

definition tick_edges :: "(int \<times> int) set" where
  "tick_edges = {(2, 3), (7, 6), (7, 8)}"

definition action_edges :: "(int \<times> int) set" where
  "action_edges = {(0, 1), (1, 2), (3, 4), (4, 5), (5, 6), (6, 7), (8, 9)}"

definition tutorial_ok :: "AppState \<Rightarrow> bool" where
  "tutorial_ok a \<longleftrightarrow> 0 \<le> a_TutorialStep a \<and> a_TutorialStep a \<le> 9 \<and>
     (a_TutorialStep a = 6 \<longrightarrow>
        a_TutorialPhase a \<in> {TutorialPhaseSendReplacement, TutorialPhaseWaitResearch, TutorialPhaseRecallReady})"

text \<open>One phase of an operation moves the application state along some edges.\<close>

definition app_moves :: "(int \<times> int) set \<Rightarrow> AppState \<Rightarrow> AppState \<Rightarrow> bool" where
  "app_moves edges a b \<longleftrightarrow> a_Mode b = a_Mode a \<and> (a_TutorialStep a, a_TutorialStep b) \<in> edges\<^sup>= \<and>
     (tutorial_ok a \<longrightarrow> tutorial_ok b)"

lemma app_moves_refl [simp]: "app_moves edges a a"
  by (simp add: app_moves_def)

lemma app_moves_IDs [simp]:
  "app_moves edges a (b\<lparr>a_TutorialPortalID := p, a_TutorialPlaneID := q\<rparr>) \<longleftrightarrow> app_moves edges a b"
  "app_moves edges a (b\<lparr>a_TutorialObserverID := o'\<rparr>) \<longleftrightarrow> app_moves edges a b"
  "app_moves edges a (b\<lparr>a_TutorialObserverID := o', a_TutorialPlaneID := q\<rparr>) \<longleftrightarrow> app_moves edges a b"
  by (simp_all add: app_moves_def tutorial_ok_def)

lemma app_moves_stays: "app_moves {} a b \<Longrightarrow> app_moves edges b c \<Longrightarrow> app_moves edges a c"
  by (auto simp: app_moves_def)

lemma app_moves_then_stays: "app_moves edges a b \<Longrightarrow> app_moves {} b c \<Longrightarrow> app_moves edges a c"
  by (auto simp: app_moves_def)

lemma app_moves_mono: "app_moves edges a b \<Longrightarrow> edges \<subseteq> edges' \<Longrightarrow> app_moves edges' a b"
  by (auto simp: app_moves_def)

section \<open>The phases of an operation\<close>

lemma create_app:
  "createTutorialTarget s profile planeID now cfg = Ok s' \<Longrightarrow>
   \<exists>p q. sn_App s' = (sn_App s)\<lparr>a_TutorialPortalID := p, a_TutorialPlaneID := q\<rparr>"
  by (clarsimp simp: createTutorialTarget_def Let_def split: if_splits option.splits; blast)

lemma recreate_app:
  "recreateTerminalTutorialTarget s now cfg = Ok s' \<Longrightarrow> app_moves {} (sn_App s) (sn_App s')"
  by (auto simp: recreateTerminalTutorialTarget_def Let_def dest: create_app split: option.splits if_splits)

lemma direction_app:
  "recreateDirectionBrokenTutorialTarget s action err matched now cfg = Ok s' \<Longrightarrow> app_moves {} (sn_App s) (sn_App s')"
  by (auto simp: recreateDirectionBrokenTutorialTarget_def Let_def dest: create_app split: option.splits if_splits)

lemma advance2_app:
  "advanceStep2 s now cfg = Ok s' \<Longrightarrow> app_moves {(2, 3)} (sn_App s) (sn_App s')"
  by (auto simp: advanceStep2_def app_moves_def tutorial_ok_def split: option.splits if_splits)

lemma advance6_app:
  "advanceStep6 s now cfg = Ok s' \<Longrightarrow> app_moves {} (sn_App s) (sn_App s')"
  by (auto simp: advanceStep6_def Let_def app_moves_def tutorial_ok_def dest!: create_app split: option.splits if_splits)

lemma advance7_app:
  "advanceStep7 s now cfg = Ok s' \<Longrightarrow> app_moves {(7, 6), (7, 8)} (sn_App s) (sn_App s')"
  by (auto simp: advanceStep7_def Let_def app_moves_def tutorial_ok_def dest!: create_app split: option.splits if_splits)

lemma after_tick_app:
  assumes "advanceTutorialAfterTick s now cfg = Ok s'"
  shows "app_moves tick_edges (sn_App s) (sn_App s')"
proof (cases "a_Mode (sn_App s) = ModeTutorial \<and> a_TutorialStep (sn_App s) \<noteq> 0")
  case True
  then obtain s1 s2 s3 where s: "recreateTerminalTutorialTarget (prepareTutorialSpawn s) now cfg = Ok s1"
    "advanceStep2 s1 now cfg = Ok s2" "advanceStep6 s2 now cfg = Ok s3" "advanceStep7 s3 now cfg = Ok s'"
    using assms by (auto simp: advanceTutorialAfterTick_def Let_def)
  note m = recreate_app [OF s(1)] advance2_app [OF s(2)] advance6_app [OF s(3)] advance7_app [OF s(4)]
  show ?thesis using m by (auto simp: app_moves_def tick_edges_def)
qed (use assms in \<open>auto simp: advanceTutorialAfterTick_def Let_def split: if_splits\<close>)

lemma enter6_app:
  assumes "enterTutorialStep6 s now cfg = Ok s'" and "a_TutorialStep (sn_App s) = 6"
  shows "a_Mode (sn_App s') = a_Mode (sn_App s) \<and> a_TutorialStep (sn_App s') = 6 \<and> tutorial_ok (sn_App s')"
  using assms by (auto simp: enterTutorialStep6_def Let_def tutorial_ok_def dest!: create_app split: option.splits if_splits)

lemma after3_app:
  "afterCommandStep3 s pid now cfg = Ok s' \<Longrightarrow> a_TutorialStep (sn_App s) = 3 \<Longrightarrow> app_moves {(3, 4)} (sn_App s) (sn_App s')"
  by (auto simp: afterCommandStep3_def app_moves_def tutorial_ok_def dest!: create_app split: option.splits)

lemma after4_app:
  "afterCommandStep4 s before now cfg = Ok s' \<Longrightarrow> a_TutorialStep (sn_App s) = 4 \<Longrightarrow> app_moves {(4, 5)} (sn_App s) (sn_App s')"
  by (auto simp: afterCommandStep4_def app_moves_def tutorial_ok_def dest!: create_app split: option.splits if_splits)

lemma after6_app:
  assumes "afterCommandStep6 s action pid err matched now cfg = Ok s'" and "a_TutorialStep (sn_App s) = 6"
  shows "app_moves {(6, 7)} (sn_App s) (sn_App s')"
proof -
  from assms(1) obtain s2 where d: "recreateDirectionBrokenTutorialTarget s2 action err matched now cfg = Ok s'"
    and m: "app_moves {(6, 7)} (sn_App s) (sn_App s2)"
    using assms(2)
    by (auto simp: afterCommandStep6_def Let_def app_moves_def tutorial_ok_def split: if_splits option.splits)
  show ?thesis by (rule app_moves_then_stays [OF m direction_app [OF d]])
qed

lemma after_command_app:
  assumes "advanceTutorialAfterCommand s before action pid err now cfg = Ok s'"
  shows "app_moves action_edges (sn_App s) (sn_App s')"
proof (cases "a_Mode (sn_App s) = ModeTutorial")
  case True
  let ?s0 = "prepareTutorialSpawn s"
  let ?enters = "a_TutorialStep (sn_App s) = 5 \<and> action = ''SEND'' \<and> tutorialMatched ?s0 pid \<and>
      (case err of Some e \<Rightarrow> errors_Is e ErrPortalCriticalRisk | None \<Rightarrow> False)"
  note def = assms(1) [unfolded advanceTutorialAfterCommand_def Let_def]
  show ?thesis
  proof (cases ?enters)
    case e: True
    then show ?thesis
      using def True enter6_app [of "?s0\<lparr>sn_App := (sn_App ?s0)\<lparr>a_TutorialStep := 6\<rparr>\<rparr>" now cfg s']
      by (simp add: app_moves_def action_edges_def)
  next
    case False
    then obtain t where t: "recreateTerminalTutorialTarget t now cfg = Ok s'"
      and "app_moves {(3, 4)} (sn_App ?s0) (sn_App t) \<or> app_moves {(4, 5)} (sn_App ?s0) (sn_App t) \<or>
        app_moves {(6, 7)} (sn_App ?s0) (sn_App t)"
      using def True by (auto split: if_splits dest: after3_app after4_app after6_app)
    then have "app_moves action_edges (sn_App ?s0) (sn_App t)"
      by (auto simp: action_edges_def intro: app_moves_mono)
    from app_moves_then_stays [OF this recreate_app [OF t]] show ?thesis by simp
  qed
qed (use assms in \<open>simp add: advanceTutorialAfterCommand_def\<close>)

lemma signal_app:
  "applyTutorialSignal s signal pid now cfg = Ok s' \<Longrightarrow> app_moves action_edges (sn_App s) (sn_App s')"
  by (auto simp: applyTutorialSignal_def Let_def app_moves_def tutorial_ok_def action_edges_def dest!: create_app split: if_splits)

section \<open>Whole operations\<close>

definition op_edges :: "(int \<times> int) set" where
  "op_edges = tick_edges\<^sup>= O action_edges\<^sup>="

lemma catchUp_app:
  assumes "catchUp env adv s now r = Ok (tick, working, events, r')"
  shows "app_moves tick_edges (sn_App s) (sn_App working)"
proof -
  let ?p = "prepareTutorialSpawn s"
  from assms obtain sim where
    "(if adv then advanceTutorialAfterTick (?p\<lparr>sn_Simulation := sim\<rparr>) now (en_cfg env)
       else Ok (?p\<lparr>sn_Simulation := sim\<rparr>)) = Ok working"
    by (auto simp: catchUp_def Let_def)
  then show ?thesis
    using after_tick_app [of "?p\<lparr>sn_Simulation := sim\<rparr>" now "en_cfg env" working] by (auto split: if_splits)
qed

lemma app_moves_compose:
  "app_moves tick_edges a b \<Longrightarrow> app_moves action_edges b c \<Longrightarrow> app_moves op_edges a c"
  "app_moves tick_edges a b \<Longrightarrow> app_moves op_edges a b"
  by (auto simp: app_moves_def op_edges_def)

lemma commandPlan_app:
  assumes "commandPlan env command now m = Ok pn"
  shows "app_moves op_edges (sn_App (m_snapshot m)) (sn_App (pn_snapshot pn))"
proof -
  from assms obtain tick resolved drafts r where
    c: "catchUp env True (m_snapshot m) now (m_random m) = Ok (tick, resolved, drafts, r)"
    by (auto simp: commandPlan_def)
  obtain sim result where a: "applyCommand command (sn_Simulation resolved) now (Some (en_random env)) (en_cfg env) r = (sim, result)"
    by (cases "applyCommand command (sn_Simulation resolved) now (Some (en_random env)) (en_cfg env) r")
  then obtain err where adv: "advanceTutorialAfterCommand (resolved\<lparr>sn_Simulation := sim\<rparr>) resolved (command_action command)
      (command_portalID command) err now (en_cfg env) = Ok (pn_snapshot pn)"
    using assms(1) by (auto simp: commandPlan_def c Let_def split: result.splits)
  from app_moves_compose(1) [OF catchUp_app [OF c]] after_command_app [OF adv] show ?thesis by simp
qed

lemma signalPlan_app:
  assumes "signalPlan env signal pid now m = Ok pn"
  shows "app_moves op_edges (sn_App (m_snapshot m)) (sn_App (pn_snapshot pn))"
proof -
  from assms obtain tick resolved drafts r where
    c: "catchUp env True (m_snapshot m) now (m_random m) = Ok (tick, resolved, drafts, r)"
    by (auto simp: signalPlan_def)
  have "app_moves action_edges (sn_App resolved) (sn_App (pn_snapshot pn))"
    using assms(1) signal_app [of resolved signal pid now "en_cfg env"]
    by (auto simp: signalPlan_def c Let_def split: result.splits)
  with app_moves_compose(1) [OF catchUp_app [OF c]] show ?thesis by blast
qed

lemma rejectionPlan_app: "rejectionPlan env action cause now m = Ok pn \<Longrightarrow> sn_App (pn_snapshot pn) = sn_App (m_snapshot m)"
  by (auto simp: rejectionPlan_def Let_def)

definition live_app :: AppState where
  "live_app = \<lparr>a_Mode = ModeLive, a_TutorialStep = 9, a_TutorialPhase = TutorialPhaseNone,
     a_TutorialPortalID = None, a_TutorialPlaneID = None, a_TutorialObserverID = None\<rparr>"

definition goes_live :: "AppState \<Rightarrow> AppState \<Rightarrow> bool" where
  "goes_live a b \<longleftrightarrow> a_Mode a = ModeTutorial \<and> a_TutorialStep a = 9 \<and> b = live_app"

lemma startLivePlan_app:
  assumes "startLivePlan env now m = Ok pn"
  shows "app_moves op_edges (sn_App (m_snapshot m)) (sn_App (pn_snapshot pn)) \<and> pn_cause pn = Some ErrTutorialNotReady \<or>
    goes_live (sn_App (m_snapshot m)) (sn_App (pn_snapshot pn)) \<and> pn_cause pn = None"
proof -
  from assms obtain tick working drafts r where
    c: "catchUp env True (m_snapshot m) now (m_random m) = Ok (tick, working, drafts, r)"
    by (auto simp: startLivePlan_def)
  note t = catchUp_app [OF c]
  show ?thesis
  proof (cases "a_Mode (sn_App working) \<noteq> ModeTutorial \<or> a_TutorialStep (sn_App working) \<noteq> 9")
    case True
    then show ?thesis using assms app_moves_compose(2) [OF t] by (auto simp: startLivePlan_def c)
  next
    case False
    then have "sn_App (pn_snapshot pn) = live_app" "pn_cause pn = None"
      using assms by (auto simp: startLivePlan_def c Let_def live_app_def)
    then show ?thesis using False t by (auto simp: goes_live_def app_moves_def tick_edges_def)
  qed
qed

text \<open>In the mode Live no function of the tutorial does anything.\<close>

lemma live_catchUp:
  assumes "catchUp env adv s now r = Ok (tick, working, events, r')" and "a_Mode (sn_App s) \<noteq> ModeTutorial"
  shows "sn_App working = sn_App s"
  using assms by (auto simp: catchUp_def Let_def prepareTutorialSpawn_def advanceTutorialAfterTick_def split: if_splits)

lemma live_commandPlan:
  assumes "commandPlan env command now m = Ok pn" and live: "a_Mode (sn_App (m_snapshot m)) \<noteq> ModeTutorial"
  shows "sn_App (pn_snapshot pn) = sn_App (m_snapshot m)"
proof -
  from assms obtain tick resolved drafts r where
    c: "catchUp env True (m_snapshot m) now (m_random m) = Ok (tick, resolved, drafts, r)"
    by (auto simp: commandPlan_def)
  note l = live_catchUp [OF c live]
  show ?thesis
    using assms(1) live l
    by (auto simp: commandPlan_def c Let_def advanceTutorialAfterCommand_def split: prod.splits result.splits)
qed

lemma live_signalPlan:
  assumes "signalPlan env signal pid now m = Ok pn" and live: "a_Mode (sn_App (m_snapshot m)) \<noteq> ModeTutorial"
  shows "sn_App (pn_snapshot pn) = sn_App (m_snapshot m)"
proof -
  from assms obtain tick resolved drafts r where
    c: "catchUp env True (m_snapshot m) now (m_random m) = Ok (tick, resolved, drafts, r)"
    by (auto simp: signalPlan_def)
  show ?thesis
    using assms(1) live live_catchUp [OF c live]
    by (auto simp: signalPlan_def c Let_def applyTutorialSignal_def split: result.splits)
qed

lemma live_startLivePlan:
  assumes "startLivePlan env now m = Ok pn" and live: "a_Mode (sn_App (m_snapshot m)) \<noteq> ModeTutorial"
  shows "sn_App (pn_snapshot pn) = sn_App (m_snapshot m)"
proof -
  from assms obtain tick resolved drafts r where
    c: "catchUp env True (m_snapshot m) now (m_random m) = Ok (tick, resolved, drafts, r)"
    by (auto simp: startLivePlan_def)
  show ?thesis
    using assms(1) live live_catchUp [OF c live] by (auto simp: startLivePlan_def c)
qed

definition op_app :: "AppState \<Rightarrow> AppState \<Rightarrow> bool" where
  "op_app a b \<longleftrightarrow> (if a_Mode a \<noteq> ModeTutorial then b = a else app_moves op_edges a b)"

lemma op_app_refl [simp]: "op_app a a"
  by (simp add: op_app_def)

lemma published_plan:
  assumes "transaction env lock m (commitPlan env m signal planned) = (m', result)"
  shows "m_snapshot m' = m_snapshot m \<or> (\<exists>pn. planned = Ok pn \<and> m_snapshot m' = pn_snapshot pn \<and>
    result = (case pn_cause pn of None \<Rightarrow> Ok () | Some e \<Rightarrow> Fail e))"
  using transaction_rolled_back [OF assms]
  by (auto simp: commitPlan_def split: result.splits prod.splits)

lemma resolve_app:
  assumes "resolveLocked env lock now signal adv m = (m', result)"
  shows "op_app (sn_App (m_snapshot m)) (sn_App (m_snapshot m'))"
proof -
  note t = transaction_rolled_back [OF assms [unfolded resolveLocked_def]]
  show ?thesis
  proof (cases "staleTick (m_snapshot m) now")
    case True
    then show ?thesis using t by (auto simp: resolveBody_def Let_def)
  next
    case fresh: False
    show ?thesis
    proof (cases "catchUp env adv (m_snapshot m) now (m_random m)")
      case (Ok x)
      obtain tick working events r where c: "catchUp env adv (m_snapshot m) now (m_random m) = Ok (tick, working, events, r)"
        using Ok by (cases x) auto
      have "op_app (sn_App (m_snapshot m)) (sn_App working)"
        using live_catchUp [OF c] app_moves_compose(2) [OF catchUp_app [OF c]] by (simp add: op_app_def)
      moreover have "m_snapshot m' = m_snapshot m \<or> m_snapshot m' = working"
        using t fresh by (auto simp: resolveBody_def c Let_def commitPlan_def split: if_splits prod.splits result.splits)
      ultimately show ?thesis by auto
    qed (use t fresh in \<open>auto simp: resolveBody_def Let_def\<close>)
  qed
qed

lemma step_app:
  assumes "manager_step env m m'"
  shows "op_app (sn_App (m_snapshot m)) (sn_App (m_snapshot m')) \<or> goes_live (sn_App (m_snapshot m)) (sn_App (m_snapshot m'))"
  using assms
proof cases
  case (tick lock now res)
  then show ?thesis using resolve_app unfolding Tick_def by blast
next
  case (state lock now sres)
  then obtain q where "resolveLocked env lock (UTC now) False False m = (m', q)"
    by (auto simp: State_def split: prod.splits result.splits)
  then show ?thesis using resolve_app by blast
next
  case (portal_state lock now i pres)
  then obtain q where "resolveLocked env lock (UTC now) False False m = (m', q)"
    by (auto simp: PortalState_def split: prod.splits result.splits)
  then show ?thesis using resolve_app by blast
next
  case (command lock command now res)
  from published_plan [OF command [unfolded executeCommand_def]]
  show ?thesis by (auto simp: op_app_def dest: commandPlan_app live_commandPlan)
next
  case (signal lock signal pid now res)
  from published_plan [OF signal [unfolded ManagerTutorialSignal_def]]
  show ?thesis by (auto simp: op_app_def dest: signalPlan_app live_signalPlan)
next
  case (start_tutorial lock now res)
  show ?thesis
  proof (cases "lock = None \<and> a_Mode (sn_App (m_snapshot m)) \<noteq> ModeTutorial")
    case True
    then show ?thesis
      using start_tutorial published_plan [of env None m True "rejectionPlan env ''START_TUTORIAL'' ErrTutorialNotReady (UTC now) m" m' res]
      by (auto simp: StartTutorial_def dest!: rejectionPlan_app)
  qed (use start_tutorial in \<open>auto simp: StartTutorial_def split: option.splits if_splits\<close>)
next
  case (start_live lock now res)
  from published_plan [OF start_live [unfolded StartLive_def]]
  show ?thesis by (auto simp: op_app_def dest: startLivePlan_app live_startLivePlan)
qed

lemma expected_action: "tutorial_ok a \<Longrightarrow> a_Mode a = ModeTutorial \<Longrightarrow> is_Ok (ExpectedTutorialAction a)"
  by (auto simp: ExpectedTutorialAction_def tutorial_ok_def Let_def)

lemma run_app:
  assumes "manager_run env m m'" and "a_Mode (sn_App (m_snapshot m)) = ModeTutorial \<and> tutorial_ok (sn_App (m_snapshot m)) \<or>
    sn_App (m_snapshot m) = live_app"
  shows "a_Mode (sn_App (m_snapshot m')) = ModeTutorial \<and> tutorial_ok (sn_App (m_snapshot m')) \<or>
    sn_App (m_snapshot m') = live_app"
  using assms
proof (induction rule: manager_run.induct)
  case (step m m' m'')
  then show ?case using step_app [OF step(3)] by (auto simp: op_app_def goes_live_def app_moves_def live_app_def)
next
  case (reset m m' lock now m'' res)
  from reset(2) show ?case
  proof (cases rule: reset_cases)
    case published
    then have "sn_App (m_snapshot m'') = \<lparr>a_Mode = ModeTutorial, a_TutorialStep = 0, a_TutorialPhase = TutorialPhaseNone,
          a_TutorialPortalID = None, a_TutorialPlaneID = None, a_TutorialObserverID = None\<rparr>"
      by (auto simp: canonicalTutorialSnapshot_def dest: sym)
    then show ?thesis by (simp add: tutorial_ok_def)
  qed (use reset in auto)
qed

end
