(* ===== verification/Operations.thy ===== *)
theory Operations
  imports TutorialProofs
begin

text \<open>
  Every exported operation of the manager under one name (\<open>internal/engine\<close>), so that a
  property can speak of all of them: ticks and the loop over a channel of ticks, the reads,
  the commands, and the operations of the tutorial with the reset.
\<close>

section \<open>The operations\<close>

datatype operation =
    OpTick "error option" time
  | OpRun "(time \<times> error option \<times> error option) list"
  | OpState "error option" time
  | OpPortalState "error option" time int
  | OpPortal "error option" time int
  | OpEvents
  | OpCommand "error option" managerCommand time
  | OpSignal "error option" TutorialSignal "int option" time
  | OpStartTutorial "error option" time
  | OpStartLive "error option" time
  | OpReset "error option" time

fun perform :: "('r, 'b, 'd) Env \<Rightarrow> operation \<Rightarrow> ('r, 'd) LabManager \<Rightarrow> ('r, 'd) LabManager" where
  "perform env (OpTick lock now) m = fst (Tick env lock now m)"
| "perform env (OpRun ticks) m = fst (Run env ticks m)"
| "perform env (OpState lock now) m = fst (State env lock now m)"
| "perform env (OpPortalState lock now i) m = fst (PortalState env lock now i m)"
| "perform env (OpPortal lock now i) m = fst (ManagerPortal env lock now i m)"
| "perform env OpEvents m = m"
| "perform env (OpCommand lock command now) m = fst (executeCommand env lock command now m)"
| "perform env (OpSignal lock signal pid now) m = fst (ManagerTutorialSignal env lock signal pid now m)"
| "perform env (OpStartTutorial lock now) m = fst (StartTutorial env lock now m)"
| "perform env (OpStartLive lock now) m = fst (StartLive env lock now m)"
| "perform env (OpReset lock now) m = fst (ManagerResetTutorial env lock now m)"

text \<open>A read at some time, the events apart, which touch no state.\<close>

fun read_time :: "operation \<Rightarrow> time option" where
  "read_time (OpState lock now) = Some now"
| "read_time (OpPortalState lock now i) = Some now"
| "read_time (OpPortal lock now i) = Some now"
| "read_time _ = None"

text \<open>How many portal IDs suffice: an operation opens at most seven portals.\<close>

fun ids_needed :: "operation \<Rightarrow> int" where
  "ids_needed (OpRun ticks) = 8 + 7 * int (length ticks)"
| "ids_needed _ = 8"

lemma Run_rule:
  assumes "P m" and "\<And>m m' lock now res. P m \<Longrightarrow> Tick env lock now m = (m', res) \<Longrightarrow> P m'"
  shows "P (fst (Run env ticks m))"
  using assms(1)
proof (induction ticks arbitrary: m)
  case (Cons x ticks)
  obtain instant lock canceled where x: "x = (instant, lock, canceled)" by (cases x)
  obtain m' res where t: "tickAt env lock (UTC instant) m = (m', res)" by (cases "tickAt env lock (UTC instant) m")
  then have "P m'" using assms(2) [OF Cons.prems] by (simp add: Tick_def tickAt_def)
  then show ?case using Cons.IH by (cases res) (simp_all add: x t)
qed simp

lemma perform_read:
  assumes "read_time op = Some now"
  shows "\<exists>lock q. resolveLocked env lock (UTC now) False False m = (perform env op m, q)"
proof -
  have "\<exists>q. resolveLocked env lock (UTC now) False False m = (fst (State env lock now m), q)" for lock
    by (auto simp: State_def split: prod.split result.split)
  moreover have p: "\<exists>q. resolveLocked env lock (UTC now) False False m = (fst (PortalState env lock now i m), q)" for lock i
    by (auto simp: PortalState_def split: prod.split result.split)
  moreover have "fst (ManagerPortal env lock now i m) = fst (PortalState env lock now i m)" for lock i
    by (simp add: ManagerPortal_def split: prod.split)
  ultimately show ?thesis using assms by (cases op) (simp_all, blast+)
qed

lemma perform_step:
  assumes "\<nexists>lock now. op = OpReset lock now" and "\<nexists>ticks. op = OpRun ticks" and "op \<noteq> OpEvents"
  shows "manager_step env m (perform env op m)"
proof -
  note i = manager_step.intros [OF surjective_pairing]
  have "fst (ManagerPortal env lock now i m) = fst (PortalState env lock now i m)" for lock now i
    by (simp add: ManagerPortal_def split: prod.split)
  then show ?thesis using assms by (cases op) (auto intro: i)
qed

section \<open>A restart\<close>

text \<open>
  What the reset makes of the simulation: the same planes, unexplored, a full laboratory with
  the configured number of observers at home, no portal, IDs from one, and a generator at rest.
\<close>

definition restarts :: "Config \<Rightarrow> time \<Rightarrow> SimulationState \<Rightarrow> SimulationState \<Rightarrow> bool" where
  "restarts cfg now s t \<longleftrightarrow>
     s_Portals t = [] \<and> s_NextPortalID t = 1 \<and> s_NaturalSpawn t = pausedSpawn \<and> s_LastTickAt t = None \<and>
     s_Planes t = map (\<lambda>pl. pl\<lparr>pl_Explored := False, pl_ExploredAt := None\<rparr>) (s_Planes s) \<and>
     s_Observers t = map (\<lambda>i. NewObserver (int i + 1) now) [0..<nat (ObserverCount cfg)] \<and>
     s_Lab t = \<lparr>l_EnergyBase = LabEnergyMax cfg, l_EnergyBaseAt = now, l_LeylineOverrideUntil = None\<rparr>"

lemma canonical_restarts:
  "canonicalTutorialSnapshot current now (ObserverCount cfg) (LabEnergyMax cfg) = Ok s \<Longrightarrow>
   restarts cfg now (sn_Simulation current) (sn_Simulation s)"
  by (auto simp: canonicalTutorialSnapshot_def restarts_def NewObserverRoster_def split: if_splits)

lemma perform_reset:
  "m_snapshot (perform env (OpReset lock now) m) = m_snapshot m \<or>
   restarts (en_cfg env) (UTC now) (sn_Simulation (m_snapshot m)) (sn_Simulation (m_snapshot (perform env (OpReset lock now) m)))"
proof -
  obtain m' q where r: "ManagerResetTutorial env lock now m = (m', q)" by fastforce
  then show ?thesis by (cases rule: reset_cases) (auto simp: r intro: canonical_restarts)
qed

section \<open>Operations evolve the aggregate\<close>

lemma manager_step_next:
  assumes "manager_step env m m'" and "room 8 (m_snapshot m)"
  shows "s_NextPortalID (sn_Simulation (m_snapshot m')) \<le> s_NextPortalID (sn_Simulation (m_snapshot m)) + 7"
  using manager_step_effect [OF assms] by (auto simp: rolls_back_def commits_def only_ticks_def moves_def)

lemma Run_evolves:
  assumes "room (8 + 7 * int (length ticks)) (m_snapshot m)"
  shows "evolves (en_cfg env) (sn_Simulation (m_snapshot m)) (sn_Simulation (m_snapshot (fst (Run env ticks m))))"
  using assms
proof (induction ticks arbitrary: m)
  case (Cons x ticks)
  obtain instant lock canceled where x: "x = (instant, lock, canceled)" by (cases x)
  obtain m' res where t: "tickAt env lock (UTC instant) m = (m', res)" by (cases "tickAt env lock (UTC instant) m")
  then have s: "manager_step env m m'" using manager_step.tick [of env lock "UTC instant" m m' res] by (simp add: Tick_def tickAt_def)
  have "room 8 (m_snapshot m)" using Cons.prems by simp
  note e = manager_step_evolves [OF s this] manager_step_next [OF s this]
  have "room (8 + 7 * int (length ticks)) (m_snapshot m')" using e(2) Cons.prems by simp
  from evolves_trans [OF e(1) Cons.IH [OF this]] e(1) show ?case by (cases res) (simp_all add: x t)
qed simp

lemma perform_evolves:
  assumes "room (ids_needed op) (m_snapshot m)" and "\<nexists>lock now. op = OpReset lock now"
  shows "evolves (en_cfg env) (sn_Simulation (m_snapshot m)) (sn_Simulation (m_snapshot (perform env op m)))"
proof (cases "(\<exists>ticks. op = OpRun ticks) \<or> op = OpEvents")
  case True
  then show ?thesis using Run_evolves assms(1) by auto
next
  case False
  then have "room 8 (m_snapshot m)" using assms(1) by (cases op) auto
  then show ?thesis using manager_step_evolves [OF perform_step] assms(2) False by blast
qed

end
