(* ===== verification/TutorialSteps.thy ===== *)
theory TutorialSteps
  imports Operations
begin

text \<open>
  What an operation may do to the portals while the tutorial runs: update them in place, open
  a scripted portal, or open an extraction portal, and nothing else; in particular the natural
  generator is put to rest before it can act.
\<close>

section \<open>The generator in a tick\<close>

lemma observer_at_keeps_spawn:
  assumes "resolveObserverAt unexplored planes portals now cfg (st, e) i = Ok (st', e')"
  shows "s_NaturalSpawn st' = s_NaturalSpawn st"
proof -
  from assms obtain plane portal where
    "observerIndices planes portals (s_Portals st) (s_Observers st ! i) = Ok (plane, portal)"
    by (auto simp: resolveObserverAt_def Let_def)
  moreover obtain ob' plane' res where "ResolveObserverLifecycle (s_Observers st ! i) (map_option (\<lambda>i. s_Planes st ! i) plane)
      (map_option (\<lambda>j. s_Portals st ! j) portal) now cfg = ((ob', plane'), res)" by (metis surj_pair)
  ultimately show ?thesis using assms by (cases res) (auto simp: resolveObserverAt_def Let_def)
qed

lemma stages_keep_spawn:
  "resolvePortalStage st now cfg = Ok s1 \<Longrightarrow> s_NaturalSpawn s1 = s_NaturalSpawn st"
  "resolveObserverStage st now cfg = Ok s1 \<Longrightarrow> s_NaturalSpawn s1 = s_NaturalSpawn st"
  "resolveExtractionStage st now rnd cfg r = Ok (s1, r') \<Longrightarrow> s_NaturalSpawn s1 = s_NaturalSpawn st"
proof -
  assume a: "resolvePortalStage st now cfg = Ok s1"
  from a obtain trs where trs: "foldM (\<lambda>s (tr :: portalLifecycleTransition). rbind (ResolvePortalLifecycleWithLabEmergency (s_Lab s) (s_Portals s ! tr_index tr) now cfg)
                (\<lambda>(_, lab, portal). Ok (s\<lparr>s_Lab := lab, s_Portals := (s_Portals s)[tr_index tr := portal]\<rparr>))) st trs = Ok s1"
    by (auto simp: resolvePortalStage_def)
  show "s_NaturalSpawn s1 = s_NaturalSpawn st"
    by (rule foldM_invariant [OF trs, where I = "\<lambda>s. s_NaturalSpawn s = s_NaturalSpawn st"]) auto
next
  assume a: "resolveObserverStage st now cfg = Ok s1"
  from a obtain f xs st2 e where f: "foldM (resolveObserverAt f (indexByID pl_ID (s_Planes st)) (indexByID p_ID (s_Portals st)) now cfg)
      (st, Map.empty) xs = Ok (st2, e)" and s1: "s_NaturalSpawn s1 = s_NaturalSpawn st2"
    by (auto simp: resolveObserverStage_def Let_def)
  have "s_NaturalSpawn (fst (st2, e)) = s_NaturalSpawn st"
    by (rule foldM_invariant [OF f, where I = "\<lambda>s. s_NaturalSpawn (fst s) = s_NaturalSpawn st"])
      (auto dest: observer_at_keeps_spawn)
  then show "s_NaturalSpawn s1 = s_NaturalSpawn st" by (simp add: s1)
next
  assume a: "resolveExtractionStage st now rnd cfg r = Ok (s1, r')"
  from a obtain xs where f: "foldM (resolveExtractionAt (indexByID pl_ID (s_Planes st)) now rnd cfg) (st, r) xs = Ok (s1, r')"
    by (auto simp: resolveExtractionStage_def Let_def)
  have "s_NaturalSpawn (fst (s1, r')) = s_NaturalSpawn st"
    by (rule foldM_invariant [OF f, where I = "\<lambda>s. s_NaturalSpawn (fst s) = s_NaturalSpawn st"])
      (auto simp: resolveExtractionAt_def Let_def split: option.splits)
  then show "s_NaturalSpawn s1 = s_NaturalSpawn st" by simp
qed

text \<open>A tick that starts paused spawns nothing; it schedules a spawn when a slot is free.\<close>

lemma paused_tick:
  assumes "ResolveTick order st now rnd cfg r = Ok (tick, st', r')" and p: "s_NaturalSpawn st = pausedSpawn"
  shows "\<not> t_Spawned tick"
    and "s_NaturalSpawn st' = pausedSpawn \<or>
      n_ScheduledAt (s_NaturalSpawn st') = Some now \<and> \<not> n_Paused (s_NaturalSpawn st')"
    and "\<not> n_Paused (s_NaturalSpawn st') \<longleftrightarrow>
      (\<nexists>t. s_LastTickAt st = Some t \<and> Equal t now) \<and> countOpenPortals (s_Portals st') < MaxActivePortals cfg"
proof -
  let ?A = "\<not> t_Spawned tick"
  let ?B = "s_NaturalSpawn st' = pausedSpawn \<or> n_ScheduledAt (s_NaturalSpawn st') = Some now \<and> \<not> n_Paused (s_NaturalSpawn st')"
  let ?C = "\<not> n_Paused (s_NaturalSpawn st') \<longleftrightarrow>
      (\<nexists>t. s_LastTickAt st = Some t \<and> Equal t now) \<and> countOpenPortals (s_Portals st') < MaxActivePortals cfg"
  obtain u where u: "validateSimulationState st now cfg = Ok u" using assms(1) by (auto simp: ResolveTick_def)
  have "?A \<and> ?B \<and> ?C" if "case s_LastTickAt st of Some t \<Rightarrow> Equal t now | None \<Rightarrow> False"
    using assms(1) u that p
    by (auto simp: ResolveTick_def deriveSimulationTickResult_def pausedSpawn_def Let_def split: option.splits result.splits)
  moreover have "?A \<and> ?B \<and> ?C" if nt: "\<not> (case s_LastTickAt st of Some t \<Rightarrow> Equal t now | None \<Rightarrow> False)"
  proof -
    from assms(1) u nt obtain s1 s2 s3 r3 spawn s4 r4 where
      s1: "resolvePortalStage st now cfg = Ok s1" and s2: "resolveObserverStage s1 now cfg = Ok s2"
      and s3: "resolveExtractionStage s2 now rnd cfg r = Ok (s3, r3)"
      and s4: "resolveNaturalSpawnPrepared s3 now rnd cfg r3 = Ok (spawn, s4, r4)"
      and st': "st' = s4\<lparr>s_LastTickAt := Some now\<rparr>" and t: "t_Spawned tick = nr_Spawned spawn"
      by (auto simp: ResolveTick_def Let_def)
    have s: "s_NaturalSpawn s3 = pausedSpawn"
      using stages_keep_spawn(1) [OF s1] stages_keep_spawn(2) [OF s2] stages_keep_spawn(3) [OF s3] p by simp
    show ?thesis
      using s4 s nt
      by (auto simp: resolveNaturalSpawnPrepared_def NewNaturalSpawnState_def Let_def pausedSpawn_def st' t split: if_splits option.splits)
  qed
  ultimately show ?A ?B ?C by blast+
qed

lemma tutorial_steps_keep_spawn:
  assumes "advanceTutorialAfterTick s now cfg = Ok s'" and "a_Mode (sn_App s) = ModeTutorial"
  shows "s_NaturalSpawn (sn_Simulation s') = pausedSpawn"
proof -
  have create: "s_NaturalSpawn (sn_Simulation t') = s_NaturalSpawn (sn_Simulation t)"
    if "createTutorialTarget t profile pl now cfg = Ok t'" for t t' profile pl
    using that by (auto simp: createTutorialTarget_def Let_def split: if_splits option.splits)
  have rec: "s_NaturalSpawn (sn_Simulation t') = s_NaturalSpawn (sn_Simulation t)"
    if "recreateTerminalTutorialTarget t now cfg = Ok t'" for t t'
    using that by (auto simp: recreateTerminalTutorialTarget_def Let_def dest: create split: option.splits if_splits)
  have two: "s_NaturalSpawn (sn_Simulation t') = s_NaturalSpawn (sn_Simulation t)"
    if "advanceStep2 t now cfg = Ok t'" for t t'
    using that by (auto simp: advanceStep2_def split: option.splits if_splits)
  have six: "s_NaturalSpawn (sn_Simulation t') = s_NaturalSpawn (sn_Simulation t)"
    if "advanceStep6 t now cfg = Ok t'" for t t'
    using that by (auto simp: advanceStep6_def Let_def dest!: create split: option.splits if_splits)
  have seven: "s_NaturalSpawn (sn_Simulation t') = s_NaturalSpawn (sn_Simulation t)"
    if "advanceStep7 t now cfg = Ok t'" for t t'
    using that by (auto simp: advanceStep7_def Let_def dest!: create split: option.splits if_splits)
  show ?thesis
    using assms by (auto simp: advanceTutorialAfterTick_def Let_def prepareTutorialSpawn_def dest!: rec two six seven split: if_splits)
qed


section \<open>Tutorial steps\<close>

text \<open>A portal is opened with exactly the values of the script, or it is an extraction portal.\<close>

inductive tutorial_step :: "Config \<Rightarrow> SimulationState \<Rightarrow> SimulationState \<Rightarrow> bool" for cfg where
  update: "list_all2 kept (s_Portals s) (s_Portals t) \<Longrightarrow> s_NextPortalID t = s_NextPortalID s \<Longrightarrow> tutorial_step cfg s t"
| script: "FirstFreeSlot (s_Portals s) (MaxActivePortals cfg) = Some slot \<Longrightarrow>
    NewTutorialPortal profile (s_NextPortalID s) planeID slot now cfg = Ok p \<Longrightarrow> s_Portals t = s_Portals s @ [p] \<Longrightarrow>
    tutorial_step cfg s t"
| extraction: "FirstFreeSlot (s_Portals s) (MaxActivePortals cfg) = Some (p_SlotIndex p) \<Longrightarrow> p_ID p = s_NextPortalID s \<Longrightarrow>
    p_Kind p = PortalKindExtraction \<Longrightarrow> p_Status p = PortalStatusOpen \<Longrightarrow> s_Portals t = s_Portals s @ [p] \<Longrightarrow>
    tutorial_step cfg s t"

abbreviation tutorial_path :: "Config \<Rightarrow> SimulationState \<Rightarrow> SimulationState \<Rightarrow> bool" where
  "tutorial_path cfg \<equiv> (tutorial_step cfg)\<^sup>*\<^sup>*"

text \<open>An update in place, with the generator's field free to change.\<close>

definition in_place :: "SimulationState \<Rightarrow> SimulationState \<Rightarrow> bool" where
  "in_place s t \<longleftrightarrow> list_all2 kept (s_Portals s) (s_Portals t) \<and> s_NextPortalID t = s_NextPortalID s"

lemma in_place_refl [simp]: "in_place s s"
  by (simp add: in_place_def)

lemma in_place_trans: "in_place s t \<Longrightarrow> in_place t u \<Longrightarrow> in_place s u"
  using list_all2_trans [OF kept_trans] by (auto simp: in_place_def)

lemma in_place_path: "in_place s t \<Longrightarrow> tutorial_path cfg s t"
  by (auto simp: in_place_def intro: tutorial_step.update)

lemma evolves_in_place:
  assumes "evolves cfg s t" shows "s_NextPortalID s \<le> s_NextPortalID t \<and> (s_NextPortalID t = s_NextPortalID s \<longrightarrow> in_place s t)"
  using assms
proof (induction rule: rtranclp_induct)
  case (step t u)
  from step(2) show ?case
  proof cases
    case update
    then have "in_place t u" by (simp add: in_place_def)
    then show ?thesis using step.IH update(3) by (auto intro: in_place_trans)
  qed (use step.IH in auto)
qed simp

lemma tick_in_place:
  assumes "ResolveTick order st now rnd cfg r = Ok (tick, st', r')" and p: "s_NaturalSpawn st = pausedSpawn"
  shows "in_place st st'"
proof -
  obtain u where u: "validateSimulationState st now cfg = Ok u" using assms(1) by (auto simp: ResolveTick_def)
  note v = validated_IDs [OF u]
  show ?thesis
  proof (cases "case s_LastTickAt st of Some t \<Rightarrow> Equal t now | None \<Rightarrow> False")
    case True
    then show ?thesis using assms(1) u by (simp add: ResolveTick_def)
  next
    case False
    from assms(1) u False obtain s1 s2 s3 r3 spawn s4 r4 where
      s1: "resolvePortalStage st now cfg = Ok s1" and s2: "resolveObserverStage s1 now cfg = Ok s2"
      and s3: "resolveExtractionStage s2 now rnd cfg r = Ok (s3, r3)"
      and s4: "resolveNaturalSpawnPrepared s3 now rnd cfg r3 = Ok (spawn, s4, r4)"
      and st': "st' = s4\<lparr>s_LastTickAt := Some now\<rparr>"
      by (auto simp: ResolveTick_def Let_def)
    have p1: "distinct (map pl_ID (s_Planes s1))" "distinct (map p_ID (s_Portals s1))"
      using v portal_stage(1,2) [OF s1] by (simp_all add: same_but_portals_def comp_def)
    note e = portal_stage_evolves [OF s1] observer_stage_evolves [OF p1 s2] extraction_stage_evolves [OF s3]
    have "s_NaturalSpawn s3 = pausedSpawn"
      using stages_keep_spawn(1) [OF s1] stages_keep_spawn(2) [OF s2] stages_keep_spawn(3) [OF s3] p by simp
    then have "s4 = s3\<lparr>s_NaturalSpawn := s_NaturalSpawn s4\<rparr>"
      using s4 by (auto simp: resolveNaturalSpawnPrepared_def pausedSpawn_def Let_def split: if_splits)
    then have "s_Portals s4 = s_Portals s3 \<and> s_NextPortalID s4 = s_NextPortalID s3"
      by (metis SimulationState.simps(2,5) SimulationState.surjective SimulationState.update_convs(6))
    moreover have "in_place st s1" "in_place s1 s2" "in_place s2 s3"
      using evolves_in_place [OF e(1)] evolves_in_place [OF e(3)] evolves_in_place [OF e(7)] e(2,4,8) by simp_all
    then have "in_place st s3" by (meson in_place_trans)
    ultimately show ?thesis by (simp add: in_place_def st')
  qed
qed

section \<open>The tutorial's own moves\<close>

lemma create_path: "createTutorialTarget s profile planeID now cfg = Ok s' \<Longrightarrow> tutorial_path cfg (sn_Simulation s) (sn_Simulation s')"
  by (auto simp: createTutorialTarget_def Let_def intro!: r_into_rtranclp tutorial_step.script split: if_splits option.splits)

lemma create_spawn [dest]:
  "createTutorialTarget s profile planeID now cfg = Ok s' \<Longrightarrow> s_NaturalSpawn (sn_Simulation s') = s_NaturalSpawn (sn_Simulation s)"
  by (auto simp: createTutorialTarget_def Let_def split: if_splits option.splits)

text \<open>A move opens scripted portals and leaves the generator alone.\<close>

definition scripted :: "Config \<Rightarrow> Snapshot \<Rightarrow> Snapshot \<Rightarrow> bool" where
  "scripted cfg s t \<longleftrightarrow> tutorial_path cfg (sn_Simulation s) (sn_Simulation t) \<and>
     s_NaturalSpawn (sn_Simulation t) = s_NaturalSpawn (sn_Simulation s)"

lemma scripted_trans: "scripted cfg s t \<Longrightarrow> scripted cfg t u \<Longrightarrow> scripted cfg s u"
  by (auto simp: scripted_def)

lemma scripted_same: "sn_Simulation t = sn_Simulation s \<Longrightarrow> scripted cfg s t"
  by (simp add: scripted_def)

lemma scripted_create:
  assumes "createTutorialTarget t profile planeID now cfg = Ok s'" and "sn_Simulation t = sn_Simulation s"
  shows "scripted cfg s s'"
  using create_path [OF assms(1)] create_spawn [OF assms(1)] assms(2) by (simp add: scripted_def)

lemma scripted_create_app:
  "createTutorialTarget t profile planeID now cfg = Ok u \<Longrightarrow> sn_Simulation t = sn_Simulation s \<Longrightarrow> scripted cfg s (u\<lparr>sn_App := a\<rparr>)"
  using scripted_create [of t profile planeID now cfg u s] by (simp add: scripted_def)

lemmas scripted_intros = scripted_same scripted_create scripted_create_app

lemma scripted_moves:
  "recreateTerminalTutorialTarget s now cfg = Ok s' \<Longrightarrow> scripted cfg s s'"
  "recreateDirectionBrokenTutorialTarget s action err matched now cfg = Ok s' \<Longrightarrow> scripted cfg s s'"
  "enterTutorialStep6 s now cfg = Ok s' \<Longrightarrow> scripted cfg s s'"
  "advanceStep2 s now cfg = Ok s' \<Longrightarrow> scripted cfg s s'"
  "advanceStep6 s now cfg = Ok s' \<Longrightarrow> scripted cfg s s'"
  "advanceStep7 s now cfg = Ok s' \<Longrightarrow> scripted cfg s s'"
  "afterCommandStep3 s pid now cfg = Ok s' \<Longrightarrow> scripted cfg s s'"
  "afterCommandStep4 s before now cfg = Ok s' \<Longrightarrow> scripted cfg s s'"
  "applyTutorialSignal s signal pid' now cfg = Ok s' \<Longrightarrow> scripted cfg s s'"
  by (auto simp: recreateTerminalTutorialTarget_def Let_def intro: scripted_intros split: option.splits if_splits)
    (auto simp: recreateDirectionBrokenTutorialTarget_def enterTutorialStep6_def advanceStep2_def advanceStep6_def
      advanceStep7_def afterCommandStep3_def afterCommandStep4_def applyTutorialSignal_def Let_def
      intro: scripted_intros split: option.splits if_splits)

lemma after6_scripted:
  assumes "afterCommandStep6 s action pid err matched now cfg = Ok s'"
  shows "scripted cfg s s'"
proof -
  from assms obtain s2 where "recreateDirectionBrokenTutorialTarget s2 action err matched now cfg = Ok s'"
    and "sn_Simulation s2 = sn_Simulation s"
    by (auto simp: afterCommandStep6_def Let_def split: if_splits option.splits)
  then show ?thesis using scripted_trans [OF scripted_same scripted_moves(2)] by blast
qed

lemma after_tick_scripted:
  assumes "advanceTutorialAfterTick s now cfg = Ok s'" and "a_Mode (sn_App s) = ModeTutorial"
  shows "scripted cfg (prepareTutorialSpawn s) s'"
proof (cases "a_TutorialStep (sn_App s) = 0")
  case False
  then obtain s1 s2 s3 where s: "recreateTerminalTutorialTarget (prepareTutorialSpawn s) now cfg = Ok s1"
    "advanceStep2 s1 now cfg = Ok s2" "advanceStep6 s2 now cfg = Ok s3" "advanceStep7 s3 now cfg = Ok s'"
    using assms by (auto simp: advanceTutorialAfterTick_def Let_def)
  show ?thesis
    using scripted_moves(1) [OF s(1)] scripted_moves(4) [OF s(2)] scripted_moves(5) [OF s(3)] scripted_moves(6) [OF s(4)]
    by (meson scripted_trans)
qed (use assms in \<open>simp add: advanceTutorialAfterTick_def scripted_same\<close>)

lemma after_command_scripted:
  assumes "advanceTutorialAfterCommand s before action pid err now cfg = Ok s'" and "a_Mode (sn_App s) = ModeTutorial"
  shows "scripted cfg (prepareTutorialSpawn s) s'"
proof -
  let ?s0 = "prepareTutorialSpawn s"
  let ?enters = "a_TutorialStep (sn_App s) = 5 \<and> action = ''SEND'' \<and> tutorialMatched ?s0 pid \<and>
      (case err of Some e \<Rightarrow> errors_Is e ErrPortalCriticalRisk | None \<Rightarrow> False)"
  note def = assms(1) [unfolded advanceTutorialAfterCommand_def Let_def]
  show ?thesis
  proof (cases ?enters)
    case True
    then have "enterTutorialStep6 (?s0\<lparr>sn_App := (sn_App ?s0)\<lparr>a_TutorialStep := 6\<rparr>\<rparr>) now cfg = Ok s'" using def assms(2) by simp
    from scripted_trans [OF scripted_same scripted_moves(3) [OF this]] show ?thesis by simp
  next
    case False
    then obtain t where t: "recreateTerminalTutorialTarget t now cfg = Ok s'" and "scripted cfg ?s0 t"
      using def assms(2) by (auto split: if_splits dest: scripted_moves after6_scripted intro: scripted_same)
    then show ?thesis using scripted_trans scripted_moves(1) by blast
  qed
qed

section \<open>Commands\<close>

lemma applyCommand_path:
  assumes "applyCommand command sim now rnd cfg r = (sim', result)"
  shows "tutorial_path cfg sim sim'"
proof (cases "\<exists>i. command = CommandOpenExtraction i")
  case True
  then obtain i where c: "command = CommandOpenExtraction i" by blast
  show ?thesis
  proof (cases "openExtractionCommand i sim now rnd cfg r")
    case (Ok x)
    then obtain r' where o: "openExtractionCommand i sim now rnd cfg r = Ok (sim', r')" using assms c by (cases x) auto
    then obtain j pid lab portals where
      op: "OpenExtractionPortal (s_Lab sim) (s_Portals sim) (s_Planes sim ! j) (s_Observers sim) (s_NextPortalID sim) now
          rnd cfg r = Ok (pid, lab, portals, r')"
      and sim': "s_Portals sim' = portals"
      by (auto simp: openExtractionCommand_def split: option.splits)
    from op obtain slot p where "FirstFreeSlot (s_Portals sim) (MaxActivePortals cfg) = Some slot"
      "portals = s_Portals sim @ [p]" "NewExtractionPortal (s_NextPortalID sim) (pl_ID (s_Planes sim ! j)) slot now cfg rnd r = Ok (p, r')"
      by (auto simp: OpenExtractionPortal_def split: option.splits if_splits)
    note p = this(1,2) NewExtractionPortal_fields(1,2,4,5) [OF this(3)]
    show ?thesis
      by (rule r_into_rtranclp, rule tutorial_step.extraction [where p = p]) (simp_all add: p sim')
  qed (use assms c in auto)
next
  case False
  have up: "in_place sim s" if "evolves cfg sim s" "s_NextPortalID s = s_NextPortalID sim" for s
    using evolves_in_place [OF that(1)] that(2) by simp
  have send: "in_place sim s" if "transitCommand SendObserverWithLabEnergy i confirm sim now rnd cfg r = Ok (s, q)" for i confirm s q
  proof (rule up)
    show "evolves cfg sim s" "s_NextPortalID s = s_NextPortalID sim"
      by (rule transitCommand_evolves [OF that]; blast dest: Send_keeps)+
  qed
  have recall: "in_place sim s" if "transitCommand RecallObserverWithLabEnergy i confirm sim now rnd cfg r = Ok (s, q)" for i confirm s q
  proof (rule up)
    show "evolves cfg sim s" "s_NextPortalID s = s_NextPortalID sim"
      by (rule transitCommand_evolves [OF that]; blast dest: Recall_keeps)+
  qed
  have close: "in_place sim s" if "closeCommand i confirm sim now cfg = (s, q)" for i confirm s q
    by (rule up [OF closeCommand_evolves [OF that]])
  have stabilize: "in_place sim s" if "stabilizeCommand i sim now cfg = Ok s" for i s
    using that by (auto simp: stabilizeCommand_def in_place_def intro!: kept_update
        dest: Stabilize_kept portalIndex_SomeD split: option.splits)
  have "in_place sim sim'"
  proof (cases command)
    case (CommandStabilize i)
    then show ?thesis using assms stabilize [of i] by (cases "stabilizeCommand i sim now cfg") auto
  next
    case (CommandClose i confirm)
    then show ?thesis using assms close [of i confirm] by (auto split: prod.splits)
  next
    case (CommandSend i confirm)
    then show ?thesis
      using assms send [of i confirm] by (cases "transitCommand SendObserverWithLabEnergy i confirm sim now rnd cfg r") auto
  next
    case (CommandRecall i confirm)
    then show ?thesis
      using assms recall [of i confirm] by (cases "transitCommand RecallObserverWithLabEnergy i confirm sim now rnd cfg r") auto
  qed (use False in simp)
  then show ?thesis by (rule in_place_path)
qed

section \<open>Operations\<close>

text \<open>
  A catch-up that advances the tutorial leaves the generator at rest; one that does not opens
  nothing, and may leave a spawn scheduled from its own instant on.
\<close>

lemma catchUp_scripted:
  assumes "catchUp env adv s now r = Ok (tick, working, events, r')" and "a_Mode (sn_App s) = ModeTutorial"
  shows "tutorial_path (en_cfg env) (sn_Simulation s) (sn_Simulation working)" and "a_Mode (sn_App working) = ModeTutorial"
    and "adv \<Longrightarrow> s_NaturalSpawn (sn_Simulation working) = pausedSpawn"
    and "\<not> adv \<Longrightarrow> in_place (sn_Simulation s) (sn_Simulation working) \<and> sn_App working = sn_App s \<and>
      (s_NaturalSpawn (sn_Simulation working) = pausedSpawn \<or>
       n_ScheduledAt (s_NaturalSpawn (sn_Simulation working)) = Some now \<and> \<not> n_Paused (s_NaturalSpawn (sn_Simulation working)))"
proof -
  let ?p = "prepareTutorialSpawn s"
  from assms(1) obtain sim r1 where
    t: "ResolveTick (en_order env) (sn_Simulation ?p) now (Some (en_random env)) (en_cfg env) r = Ok (tick, sim, r1)"
    and w: "(if adv then advanceTutorialAfterTick (?p\<lparr>sn_Simulation := sim\<rparr>) now (en_cfg env)
       else Ok (?p\<lparr>sn_Simulation := sim\<rparr>)) = Ok working"
    by (auto simp: catchUp_def Let_def)
  have spawn: "s_NaturalSpawn (sn_Simulation ?p) = pausedSpawn" using assms(2) by (simp add: prepareTutorialSpawn_def)
  have "in_place (sn_Simulation s) (sn_Simulation ?p)" by (simp add: prepareTutorialSpawn_def in_place_def)
  then have up: "in_place (sn_Simulation s) sim" using tick_in_place [OF t spawn] by (rule in_place_trans)
  show mode: "a_Mode (sn_App working) = ModeTutorial" using catchUp_app [OF assms(1)] assms(2) by (simp add: app_moves_def)
  have adv: "scripted (en_cfg env) (prepareTutorialSpawn (?p\<lparr>sn_Simulation := sim\<rparr>)) working" if adv
    using w that assms(2) by (intro after_tick_scripted) auto
  have q: "s_NaturalSpawn (sn_Simulation (prepareTutorialSpawn (?p\<lparr>sn_Simulation := sim\<rparr>))) = pausedSpawn"
    "in_place sim (sn_Simulation (prepareTutorialSpawn (?p\<lparr>sn_Simulation := sim\<rparr>)))"
    using assms(2) by (simp_all add: prepareTutorialSpawn_def in_place_def)
  show "s_NaturalSpawn (sn_Simulation working) = pausedSpawn" if adv using adv [OF that] q(1) by (simp add: scripted_def)
  show no: "in_place (sn_Simulation s) (sn_Simulation working) \<and> sn_App working = sn_App s \<and>
      (s_NaturalSpawn (sn_Simulation working) = pausedSpawn \<or>
       n_ScheduledAt (s_NaturalSpawn (sn_Simulation working)) = Some now \<and> \<not> n_Paused (s_NaturalSpawn (sn_Simulation working)))"
    if "\<not> adv"
    using w that up paused_tick(2) [OF t spawn] by auto
  show "tutorial_path (en_cfg env) (sn_Simulation s) (sn_Simulation working)"
  proof (cases adv)
    case True
    have "tutorial_path (en_cfg env) (sn_Simulation s) (sn_Simulation (prepareTutorialSpawn (?p\<lparr>sn_Simulation := sim\<rparr>)))"
      by (rule in_place_path [OF in_place_trans [OF up q(2)]])
    then show ?thesis using adv [OF True] by (auto simp: scripted_def intro: rtranclp_trans)
  next
    case False
    then show ?thesis using no in_place_path by blast
  qed
qed

text \<open>What an operation of the tutorial's time may publish.\<close>

definition quiet :: "Config \<Rightarrow> Snapshot \<Rightarrow> Snapshot \<Rightarrow> bool" where
  "quiet cfg s t \<longleftrightarrow> tutorial_path cfg (sn_Simulation s) (sn_Simulation t) \<and>
     (t = s \<or> a_Mode (sn_App t) \<noteq> ModeTutorial \<or> s_NaturalSpawn (sn_Simulation t) = pausedSpawn)"

lemma quiet_refl [simp]: "quiet cfg s s"
  by (simp add: quiet_def)

lemma commandPlan_quiet:
  assumes "commandPlan env command now m = Ok pn" and "a_Mode (sn_App (m_snapshot m)) = ModeTutorial"
  shows "quiet (en_cfg env) (m_snapshot m) (pn_snapshot pn)"
proof -
  from assms(1) obtain tick resolved drafts r where
    c: "catchUp env True (m_snapshot m) now (m_random m) = Ok (tick, resolved, drafts, r)"
    by (auto simp: commandPlan_def)
  obtain sim result where a: "applyCommand command (sn_Simulation resolved) now (Some (en_random env)) (en_cfg env) r = (sim, result)"
    by (cases "applyCommand command (sn_Simulation resolved) now (Some (en_random env)) (en_cfg env) r")
  then obtain err where adv: "advanceTutorialAfterCommand (resolved\<lparr>sn_Simulation := sim\<rparr>) resolved (command_action command)
      (command_portalID command) err now (en_cfg env) = Ok (pn_snapshot pn)"
    using assms(1) by (auto simp: commandPlan_def c Let_def split: result.splits)
  note m = catchUp_scripted [OF c assms(2)]
  let ?p = "prepareTutorialSpawn (resolved\<lparr>sn_Simulation := sim\<rparr>)"
  have s: "scripted (en_cfg env) ?p (pn_snapshot pn)" using after_command_scripted [OF adv] m(2) by simp
  have "s_NaturalSpawn (sn_Simulation ?p) = pausedSpawn" "in_place sim (sn_Simulation ?p)"
    using m(2) by (simp_all add: prepareTutorialSpawn_def in_place_def)
  then show ?thesis
    using s m(1) applyCommand_path [OF a] in_place_path [of sim "sn_Simulation ?p" "en_cfg env"]
    by (auto simp: quiet_def scripted_def)
qed

lemma signalPlan_quiet:
  assumes "signalPlan env signal pid now m = Ok pn" and "a_Mode (sn_App (m_snapshot m)) = ModeTutorial"
  shows "quiet (en_cfg env) (m_snapshot m) (pn_snapshot pn)"
proof -
  from assms(1) obtain tick resolved drafts r where
    c: "catchUp env True (m_snapshot m) now (m_random m) = Ok (tick, resolved, drafts, r)"
    by (auto simp: signalPlan_def)
  note m = catchUp_scripted [OF c assms(2)]
  have "scripted (en_cfg env) resolved (pn_snapshot pn)"
    using assms(1) scripted_moves(9) [of resolved signal pid now "en_cfg env"]
    by (auto simp: signalPlan_def c Let_def scripted_def split: result.splits)
  then show ?thesis using m(1,3) by (auto simp: quiet_def scripted_def)
qed

lemma startLivePlan_quiet:
  assumes "startLivePlan env now m = Ok pn" and "a_Mode (sn_App (m_snapshot m)) = ModeTutorial"
  shows "quiet (en_cfg env) (m_snapshot m) (pn_snapshot pn)"
proof -
  from assms(1) obtain tick working drafts r where
    c: "catchUp env True (m_snapshot m) now (m_random m) = Ok (tick, working, drafts, r)"
    by (auto simp: startLivePlan_def)
  note m = catchUp_scripted [OF c assms(2)]
  let ?sim = "sn_Simulation working"
  show ?thesis
  proof (cases "a_TutorialStep (sn_App working) = 9")
    case False
    then have "pn_snapshot pn = working" using assms(1) by (auto simp: startLivePlan_def c)
    then show ?thesis using m(1,3) by (simp add: quiet_def)
  next
    case True
    then obtain portals ended where p: "closeOpenPortals (s_Portals ?sim) now (en_cfg env) = Ok portals"
      and e: "resolveTransits (?sim\<lparr>s_Portals := portals\<rparr>) now (en_cfg env) = Ok ended"
      and pn: "s_Portals (sn_Simulation (pn_snapshot pn)) = s_Portals ended"
        "s_NextPortalID (sn_Simulation (pn_snapshot pn)) = s_NextPortalID ended" "a_Mode (sn_App (pn_snapshot pn)) = ModeLive"
      using assms(1) m(2) by (auto simp: startLivePlan_def c Let_def)
    have "in_place ?sim (sn_Simulation (pn_snapshot pn))"
      using closeOpenPortals_kept [OF p] resolveTransits_keeps [OF e] pn by (simp add: in_place_def)
    then show ?thesis using m(1) in_place_path [of ?sim "sn_Simulation (pn_snapshot pn)" "en_cfg env"] pn(3) by (auto simp: quiet_def)
  qed
qed

lemma published_quiet:
  assumes "transaction env lock m (commitPlan env m signal planned) = (m', result)"
    and "\<And>pn. planned = Ok pn \<Longrightarrow> quiet (en_cfg env) (m_snapshot m) (pn_snapshot pn)"
  shows "quiet (en_cfg env) (m_snapshot m) (m_snapshot m')"
  using published_plan [OF assms(1)] assms(2) by auto

lemma resolve_published:
  assumes "resolveLocked env lock now signal adv m = (m', result)"
  shows "m_snapshot m' = m_snapshot m \<or>
    (\<exists>tick events r. catchUp env adv (m_snapshot m) now (m_random m) = Ok (tick, m_snapshot m', events, r))"
proof -
  note t = transaction_rolled_back [OF assms [unfolded resolveLocked_def]]
  show ?thesis
  proof (cases "staleTick (m_snapshot m) now")
    case True
    then show ?thesis using t by (auto simp: resolveBody_def Let_def)
  next
    case fresh: False
    show ?thesis
    proof (cases "catchUp env adv (m_snapshot m) now (m_random m)")
      case (Ok x)
      obtain tick working events r where c: "catchUp env adv (m_snapshot m) now (m_random m) = Ok (tick, working, events, r)"
        using Ok by (cases x) auto
      have "m_snapshot m' = m_snapshot m \<or> m_snapshot m' = working"
        using t fresh by (auto simp: resolveBody_def c Let_def commitPlan_def split: if_splits prod.splits result.splits)
      then show ?thesis using c by auto
    qed (use t fresh in \<open>auto simp: resolveBody_def Let_def\<close>)
  qed
qed

lemma tick_quiet:
  assumes "Tick env lock now m = (m', res)" and "a_Mode (sn_App (m_snapshot m)) = ModeTutorial"
  shows "quiet (en_cfg env) (m_snapshot m) (m_snapshot m') \<and> a_Mode (sn_App (m_snapshot m')) = ModeTutorial"
  using resolve_published [OF assms(1) [unfolded Tick_def]]
proof (elim disjE exE)
  fix tick events r
  assume c: "catchUp env True (m_snapshot m) (UTC now) (m_random m) = Ok (tick, m_snapshot m', events, r)"
  show ?thesis using catchUp_scripted(1-3) [OF c assms(2)] by (simp add: quiet_def)
qed (use assms(2) in simp)

lemma Run_quiet:
  assumes "a_Mode (sn_App (m_snapshot m)) = ModeTutorial"
  shows "quiet (en_cfg env) (m_snapshot m) (m_snapshot (fst (Run env ticks m))) \<and>
    a_Mode (sn_App (m_snapshot (fst (Run env ticks m)))) = ModeTutorial"
proof (rule Run_rule [where P = "\<lambda>m'. quiet (en_cfg env) (m_snapshot m) (m_snapshot m') \<and> a_Mode (sn_App (m_snapshot m')) = ModeTutorial"])
  fix m1 m2 lock now res
  assume m1: "quiet (en_cfg env) (m_snapshot m) (m_snapshot m1) \<and> a_Mode (sn_App (m_snapshot m1)) = ModeTutorial"
    and t: "Tick env lock now m1 = (m2, res)"
  show "quiet (en_cfg env) (m_snapshot m) (m_snapshot m2) \<and> a_Mode (sn_App (m_snapshot m2)) = ModeTutorial"
    using tick_quiet [OF t] m1 by (auto simp: quiet_def)
qed (use assms in simp)

text \<open>Every operation but the reads, the list of events and the reset.\<close>

lemma tutorial_quiet:
  assumes "read_time op = None" and "\<nexists>lock now. op = OpReset lock now" and mode: "a_Mode (sn_App (m_snapshot m)) = ModeTutorial"
  shows "quiet (en_cfg env) (m_snapshot m) (m_snapshot (perform env op m)) \<and>
    (a_Mode (sn_App (m_snapshot (perform env op m))) \<noteq> ModeTutorial \<longrightarrow> (\<exists>lock now. op = OpStartLive lock now))"
proof (cases op)
  case (OpTick lock now)
  obtain m' q where "Tick env lock now m = (m', q)" by fastforce
  then show ?thesis using tick_quiet [of env lock now m m' q] mode by (simp add: OpTick)
next
  case (OpRun ticks)
  then show ?thesis using Run_quiet [OF mode] by simp
next
  case (OpCommand lock command now)
  obtain m' q where e: "executeCommand env lock command now m = (m', q)" by fastforce
  note t = e [unfolded executeCommand_def]
  have "quiet (en_cfg env) (m_snapshot m) (m_snapshot m')" by (rule published_quiet [OF t commandPlan_quiet [OF _ mode]])
  moreover have "a_Mode (sn_App (m_snapshot m')) = ModeTutorial"
    using published_plan [OF t] mode by (auto dest!: commandPlan_app simp: app_moves_def)
  ultimately show ?thesis by (simp add: OpCommand e)
next
  case (OpSignal lock signal pid now)
  obtain m' q where e: "ManagerTutorialSignal env lock signal pid now m = (m', q)" by fastforce
  note t = e [unfolded ManagerTutorialSignal_def]
  have "quiet (en_cfg env) (m_snapshot m) (m_snapshot m')" by (rule published_quiet [OF t signalPlan_quiet [OF _ mode]])
  moreover have "a_Mode (sn_App (m_snapshot m')) = ModeTutorial"
    using published_plan [OF t] mode by (auto dest!: signalPlan_app simp: app_moves_def)
  ultimately show ?thesis by (simp add: OpSignal e)
next
  case (OpStartTutorial lock now)
  have "fst (StartTutorial env lock now m) = m" using mode by (simp add: StartTutorial_def split: option.split)
  then show ?thesis by (simp add: OpStartTutorial mode)
next
  case (OpStartLive lock now)
  obtain m' q where e: "StartLive env lock now m = (m', q)" by fastforce
  have "quiet (en_cfg env) (m_snapshot m) (m_snapshot m')"
    by (rule published_quiet [OF e [unfolded StartLive_def] startLivePlan_quiet [OF _ mode]])
  then show ?thesis by (simp add: OpStartLive e)
qed (use assms in auto)

lemma tutorial_reset:
  "m_snapshot (perform env (OpReset lock now) m) = m_snapshot m \<or>
   s_Portals (sn_Simulation (m_snapshot (perform env (OpReset lock now) m))) = [] \<and>
   s_NaturalSpawn (sn_Simulation (m_snapshot (perform env (OpReset lock now) m))) = pausedSpawn \<and>
   a_Mode (sn_App (m_snapshot (perform env (OpReset lock now) m))) = ModeTutorial"
proof -
  obtain m' q where r: "ManagerResetTutorial env lock now m = (m', q)" by fastforce
  then show ?thesis
  proof (cases rule: reset_cases)
    case published
    then have "a_Mode (sn_App (m_snapshot m')) = ModeTutorial" by (auto simp: canonicalTutorialSnapshot_def dest: sym)
    then show ?thesis using canonical_restarts [OF published(1)] by (simp add: r restarts_def)
  qed (simp add: r)
qed

end
