(* ===== verification/TutorialProperties.thy ===== *)
theory TutorialProperties
  imports StoreProperties TutorialSteps
begin

text \<open>
  What the tutorial promises: its steps, that it can always be continued, and what becomes
  of the natural generator while it runs.
\<close>

section \<open>The natural generator during the tutorial\<close>

text \<open>
  The resolution that every operation starts with spawns nothing while the tutorial runs.  A
  read, at a new instant with a free slot, leaves a spawn scheduled, from that instant on,
  which the next operation discards.
\<close>

lemma catchUp_paused:
  assumes "catchUp env advanceTutorial s now r = Ok (tick, working, events, r')"
    and "a_Mode (sn_App s) = ModeTutorial"
  shows "\<not> t_Spawned tick \<and>
    s_NaturalSpawn (sn_Simulation (prepareTutorialSpawn working)) = pausedSpawn \<and>
    (if advanceTutorial then s_NaturalSpawn (sn_Simulation working) = pausedSpawn
     else n_Paused (s_NaturalSpawn (sn_Simulation working)) =
        ((\<exists>t. s_LastTickAt (sn_Simulation s) = Some t \<and> Equal t now) \<or>
         MaxActivePortals (en_cfg env) \<le> countOpenPortals (s_Portals (sn_Simulation working))))"
proof -
  let ?p = "prepareTutorialSpawn s"
  from assms(1) obtain sim where
    t: "ResolveTick (en_order env) (sn_Simulation ?p) now (Some (en_random env)) (en_cfg env) r = Ok (tick, sim, r')"
    and w: "(if advanceTutorial then advanceTutorialAfterTick (?p\<lparr>sn_Simulation := sim\<rparr>) now (en_cfg env)
       else Ok (?p\<lparr>sn_Simulation := sim\<rparr>)) = Ok working"
    by (auto simp: catchUp_def Let_def)
  have p: "s_NaturalSpawn (sn_Simulation ?p) = pausedSpawn" "s_LastTickAt (sn_Simulation ?p) = s_LastTickAt (sn_Simulation s)"
    "sn_App ?p = sn_App s"
    using assms(2) by (simp_all add: prepareTutorialSpawn_def)
  have mode: "a_Mode (sn_App working) = ModeTutorial"
    using catchUp_app [OF assms(1)] assms(2) by (simp add: app_moves_def)
  note k = paused_tick [OF t p(1), unfolded p(2)]
  show ?thesis
  proof (cases advanceTutorial)
    case True
    then show ?thesis
      using k(1) w tutorial_steps_keep_spawn [of "?p\<lparr>sn_Simulation := sim\<rparr>"] assms(2) p(3)
      by (simp add: prepareTutorialSpawn_def mode)
  next
    case False
    then have "working = ?p\<lparr>sn_Simulation := sim\<rparr>" using w by simp
    then show ?thesis using k(1,3) False mode by (auto simp: prepareTutorialSpawn_def not_less)
  qed
qed

text \<open>A read of the canonical state, for the witnesses.\<close>

lemma byID_Ok:
  assumes "distinct (map key xs)" and "\<forall>x\<in>set xs. 0 < key x"
  shows "\<exists>m. byID key xs = Ok m"
proof -
  have "\<exists>m. foldM (\<lambda>m x. if key x \<le> 0 then Fail ErrEventInvariant else if m (key x) \<noteq> None then Fail ErrEventInvariant
      else Ok (m(key x \<mapsto> x))) m0 xs = Ok m" if "\<forall>x\<in>set xs. m0 (key x) = None" for m0
    using assms that
  proof (induction xs arbitrary: m0)
    case (Cons x xs)
    then have "\<forall>y\<in>set xs. (m0(key x \<mapsto> x)) (key y) = None" by (auto simp: image_iff)
    with Cons show ?case by force
  qed simp
  then show ?thesis by (simp add: byID_def)
qed

lemma quiet_observers:
  assumes "\<forall>ob\<in>set (s_Observers st). o_Status ob = ObserverAvailable \<and> o_CurrentPlaneID ob = None \<and> o_ActivePortalID ob = None"
  shows "resolveObserverStage st now cfg = Ok st"
proof -
  have "resolveObserverAt f g h now cfg (st, Map.empty) i = Ok (st, Map.empty)" if "i < length (s_Observers st)" for f g h i
    using assms that nth_mem [OF that]
    by (simp add: resolveObserverAt_def Let_def observerIndices_def returnCandidate_def)
  then have "foldM (resolveObserverAt f g h now cfg) (st, Map.empty) xs = Ok (st, Map.empty)"
    if "set xs \<subseteq> {0..<length (s_Observers st)}" for f g h xs
    using that by (induction xs) auto
  moreover have "setEarliestReturns g Map.empty pls = pls" for g pls
    by (simp add: setEarliestReturns_def Let_def map_nth)
  ultimately show ?thesis by (simp add: resolveObserverStage_def Let_def)
qed

lemma eventsForPlanes_same:
  assumes "byID pl_ID pls = Ok m" and "\<forall>pl\<in>set pls. \<not> pl_Explored pl"
  shows "eventsForPlanes pls pls = Ok []"
proof -
  have m: "planesByID pls = Ok m" using assms(1) by (simp add: planesByID_def)
  have "foldM (\<lambda>events plane. case m (pl_ID plane) of None \<Rightarrow> Ok events
          | Some prior \<Rightarrow> (case pl_ExploredAt plane of None \<Rightarrow> Ok events
               | Some exploredAt \<Rightarrow> if pl_Explored prior \<or> \<not> pl_Explored plane then Ok events
                    else appendEvent events EventPlaneExplored None None (Some (pl_ID plane)) ''Plane explored'' [] exploredAt))
        [] qs = Ok []" if "set qs \<subseteq> set pls" for qs
    using that
  proof (induction qs)
    case (Cons q qs)
    then show ?case using assms(2) by (simp split: option.split)
  qed simp
  from this [OF subset_refl] show ?thesis by (simp add: eventsForPlanes_def m)
qed

lemma eventsForObservers_same:
  assumes "byID o_ID obs = Ok m"
  shows "eventsForObservers obs obs bp ap order now cfg = Ok []"
proof -
  have m: "observersByID obs = Ok m" using assms(1) by (simp add: observersByID_def)
  have "sameObserverPhase ob ob" for ob
    by (auto simp: sameObserverPhase_def equalInt64Pointer_def equalTimePointer_def Equal_def split: option.split)
  then have "(case m i of None \<Rightarrow> Ok events | Some ob \<Rightarrow>
      rbind (eventsForObserver m bp ap i ob now cfg) (\<lambda>es. Ok (events @ es))) = Ok events" for i events
    by (simp add: eventsForObserver_def split: option.split)
  then have "foldM (\<lambda>events i. case m i of None \<Rightarrow> Ok events | Some ob \<Rightarrow>
      rbind (eventsForObserver m bp ap i ob now cfg) (\<lambda>es. Ok (events @ es))) [] order = Ok []"
    by (induction order) simp_all
  then show ?thesis by (simp add: eventsForObservers_def m)
qed

lemma sample_quiet:
  assumes "s_Portals a = []" "s_Portals b = []" "s_Lab a = s_Lab (sn_Simulation sample_snapshot)"
    "s_Planes a = s_Planes (sn_Simulation sample_snapshot)" "s_Planes b = s_Planes (sn_Simulation sample_snapshot)"
    "s_Observers a = s_Observers (sn_Simulation sample_snapshot)" "s_Observers b = s_Observers (sn_Simulation sample_snapshot)"
  shows "EventsForStateTransition (\<lambda>_. sort) a b boot_time boot_time Default = Ok []"
proof -
  let ?s = "sn_Simulation sample_snapshot"
  have planes: "\<exists>m. byID pl_ID (s_Planes ?s) = Ok m"
    by (rule byID_Ok) (auto simp: initialSnapshot_def sample_seeds_def seedPlane_def distinct_map inj_on_def)
  have people: "\<exists>m. byID o_ID (s_Observers ?s) = Ok m"
    by (rule byID_Ok) (auto simp: initialSnapshot_def NewObserver_def distinct_map inj_on_def)
  have "\<forall>pl\<in>set (s_Planes ?s). \<not> pl_Explored pl" by (auto simp: initialSnapshot_def seedPlane_def)
  then have "eventsForPlanes (s_Planes ?s) (s_Planes ?s) = Ok []" using planes eventsForPlanes_same by blast
  moreover have "eventsForObservers (s_Observers ?s) (s_Observers ?s) bp ap order boot_time Default = Ok []" for bp ap order
    using people eventsForObservers_same by blast
  moreover have "l_LeylineOverrideUntil (s_Lab ?s) = None" by (simp add: initialSnapshot_def)
  ultimately show ?thesis
    by (simp add: EventsForStateTransition_def demo_valid_config portalsByID_def byID_def eventsForPortals_def
      eventsForOverride_def Let_def boot_time_def IsZero_def assms)
qed

lemma sample_spawn:
  "NewNaturalSpawnState boot_time Default (Some (en_random sample_env)) () =
    Ok (\<lparr>n_ScheduledAt = Some boot_time, n_DueAt = Some (Add boot_time (wrap64 (SpawnDelayMin Default sdiv Second * Second))),
      n_Paused = False\<rparr>, ())"
  by (simp add: NewNaturalSpawnState_def sample_env_def drawInt_def Default_def validSpawnDelayConfig_def)

lemma sample_tick:
  "\<exists>tick. ResolveTick (\<lambda>_. sort) (sn_Simulation sample_snapshot) boot_time (Some (en_random sample_env)) Default () =
     Ok (tick, (sn_Simulation sample_snapshot)\<lparr>s_NaturalSpawn := \<lparr>n_ScheduledAt = Some boot_time,
       n_DueAt = Some (Add boot_time (wrap64 (SpawnDelayMin Default sdiv Second * Second))), n_Paused = False\<rparr>,
       s_LastTickAt := Some boot_time\<rparr>, ()) \<and> t_Events tick = []"
proof -
  let ?s = "sn_Simulation sample_snapshot"
  note c = sample_facts(1)
  have valid: "validateSimulationState ?s boot_time Default = Ok ()"
  proof -
    have n: "s_Portals ?s = []" "length (s_Planes ?s) = 85" "length (s_Observers ?s) = 20" "s_NextPortalID ?s = 1"
      "s_Lab ?s = \<lparr>l_EnergyBase = 100, l_EnergyBaseAt = boot_time, l_LeylineOverrideUntil = None\<rparr>" "s_LastTickAt ?s = None"
      by (simp_all add: initialSnapshot_def sample_seeds_def)
    have "is_Ok (prepareLabEnergySpend (s_Lab ?s) boot_time 0 Default)"
      unfolding n
      by (simp add: prepareLabEnergySpend_def LabState_CurrentEnergy_def Default_def boot_time_def Let_def)
    then have "\<exists>k. prepareLabEnergySpend (s_Lab ?s) boot_time 0 Default = Ok k"
      by (cases "prepareLabEnergySpend (s_Lab ?s) boot_time 0 Default") auto
    then show ?thesis
      using initial_structure [OF c, of boot_time] n(2,3,4) Default_canonical
      by (auto simp: validateSimulationState_def validateSimulationStructure_def demo_valid_config n(1,5,6) Let_def maxPortalID_def split: if_splits)
  qed
  have portals: "resolvePortalStage ?s boot_time Default = Ok ?s" 
    by (simp add: resolvePortalStage_def portalTransitions_def initialSnapshot_def)
  have "\<forall>ob\<in>set (s_Observers ?s). o_Status ob = ObserverAvailable \<and> o_CurrentPlaneID ob = None \<and> o_ActivePortalID ob = None"
    by (auto simp: initialSnapshot_def NewObserver_def)
  note obs = quiet_observers [OF this]
  have ext: "resolveExtractionStage ?s boot_time rnd Default () = Ok (?s, ())" for rnd
    by (simp add: resolveExtractionStage_def initialSnapshot_def sortedIndices_def)
  have f: "s_LastTickAt ?s = None" "l_EnergyBaseAt (s_Lab ?s) = boot_time" "s_NaturalSpawn ?s = pausedSpawn"
    by (simp_all add: initialSnapshot_def)
  have "0 < MaxActivePortals Default" by (simp add: Default_def)
  then show ?thesis
    by (simp add: ResolveTick_def valid portals obs ext resolveNaturalSpawnPrepared_def countOpenPortals_def f pausedSpawn_def
      sample_spawn sample_quiet) (simp add: Let_def)
qed

lemma read_schedules_spawn:
  "\<exists>tick working. catchUp sample_env False sample_snapshot boot_time () = Ok (tick, working, [], ()) \<and>
     \<not> t_Spawned tick \<and> \<not> n_Paused (s_NaturalSpawn (sn_Simulation working))"
proof -
  obtain tick where t: "ResolveTick (\<lambda>_. sort) (sn_Simulation sample_snapshot) boot_time (Some (en_random sample_env)) Default () =
     Ok (tick, (sn_Simulation sample_snapshot)\<lparr>s_NaturalSpawn := \<lparr>n_ScheduledAt = Some boot_time,
       n_DueAt = Some (Add boot_time (wrap64 (SpawnDelayMin Default sdiv Second * Second))), n_Paused = False\<rparr>,
       s_LastTickAt := Some boot_time\<rparr>, ())" and e: "t_Events tick = []"
    using sample_tick by blast
  have "prepareTutorialSpawn sample_snapshot = sample_snapshot"
    by (simp add: prepareTutorialSpawn_def initialSnapshot_def)
  then obtain working where c: "catchUp sample_env False sample_snapshot boot_time () = Ok (tick, working, [], ())"
    and none: "s_Portals (sn_Simulation working) = []"
    using t e by (auto simp: catchUp_def Let_def sample_env_def)
  have "a_Mode (sn_App sample_snapshot) = ModeTutorial" by (simp add: initialSnapshot_def)
  from catchUp_paused [OF c this] have "\<not> t_Spawned tick \<and> (n_Paused (s_NaturalSpawn (sn_Simulation working)) =
      (7 \<le> countOpenPortals (s_Portals (sn_Simulation working))))"
    by (auto simp: initialSnapshot_def sample_env_def Default_def)
  then show ?thesis using c none by (auto simp: countOpenPortals_def)
qed

section \<open>Going live\<close>

definition in_transit :: "Observer \<Rightarrow> bool" where
  "in_transit ob \<longleftrightarrow> o_Status ob = ObserverOutbound \<or> o_Status ob = ObserverReturning"

text \<open>A portal that is recorded as closed after the current time.\<close>

definition closes_later :: "time \<Rightarrow> Portal \<Rightarrow> bool" where
  "closes_later now p \<longleftrightarrow> (\<exists>c. p_ClosedAt p = Some c \<and> ns now < ns c)"

lemma transit_through_ended:
  assumes "ResolveObserverLifecycle ob (Some pl) (Some pt) now cfg = ((ob', plane'), Ok ())"
    and "p_Status pt \<noteq> PortalStatusOpen" and "in_transit ob'"
  shows "o_ActivePortalID ob' = Some (p_ID pt) \<and> closes_later now pt"
proof -
  note fp = Lifecycle_fixpoint [OF assms(1)]
  show ?thesis
  proof (cases "o_Status ob' = ObserverOutbound")
    case True
    then have f: "resolveObserverOutbound ob' plane' (Some pt) now cfg = Ok (ob', plane')"
      using fp by (simp add: resolveObserverLifecycleOnce_def)
    then obtain s e pl' where f': "o_ActivePortalID ob' = Some (p_ID pt)" "o_PhaseStartedAt ob' = Some s"
      "o_PhaseEndsAt ob' = Some e" "plane' = Some pl'" and ids: "pl_ID pl' = p_DestinationPlaneID pt"
      by (auto simp: resolveObserverOutbound_def split: option.splits if_splits)
    then obtain failed ob1 where t: "resolveObserverTransitFailure ob' pt now = Ok (failed, ob1)"
      using f by (auto simp: resolveObserverOutbound_def)
    show ?thesis
      using t
    proof (cases rule: transitFailure_cases)
      case 1
      then show ?thesis
        using assms(2) f f' ids t True by (auto simp: resolveObserverOutbound_def closes_later_def dest: arg_cong [where f = o_Status] split: if_splits)
    next
      case (2 c e)
      then show ?thesis using f f' ids t True by (auto simp: resolveObserverOutbound_def dest: arg_cong [where f = o_Status])
    qed
  next
    case False
    then have ret: "o_Status ob' = ObserverReturning" using assms(3) by (simp add: in_transit_def)
    then have f: "resolveObserverReturning ob' plane' (Some pt) now = Ok (ob', plane')"
      using fp by (simp add: resolveObserverLifecycleOnce_def)
    then obtain pid s e pl' where f': "o_CurrentPlaneID ob' = Some (pl_ID pl')" "o_ActivePortalID ob' = Some (p_ID pt)" "o_PhaseStartedAt ob' = Some s"
      "o_PhaseEndsAt ob' = Some e" "plane' = Some pl'" and ids: "pl_ID pl' = p_DestinationPlaneID pt"
      by (auto simp: resolveObserverReturning_def split: option.splits if_splits)
    then obtain failed ob1 where t: "resolveObserverTransitFailure ob' pt now = Ok (failed, ob1)"
      using f by (auto simp: resolveObserverReturning_def)
    show ?thesis
      using t
    proof (cases rule: transitFailure_cases)
      case 1
      then show ?thesis
        using assms(2) f f' ids t ret by (auto simp: resolveObserverReturning_def closes_later_def dest: arg_cong [where f = o_Status] split: if_splits)
    next
      case (2 c e)
      then show ?thesis using f f' ids t ret by (auto simp: resolveObserverReturning_def dest: arg_cong [where f = o_Status])
    qed
  qed
qed

definition settled :: "time \<Rightarrow> Portal list \<Rightarrow> Observer \<Rightarrow> bool" where
  "settled now portals ob \<longleftrightarrow>
     (in_transit ob \<longrightarrow> (\<exists>p\<in>set portals. o_ActivePortalID ob = Some (p_ID p) \<and> closes_later now p))"

lemma resolveTransitAt_settles:
  assumes "resolveTransitAt now cfg sim i = Ok sim'" and "\<forall>p\<in>set (s_Portals sim). p_Status p \<noteq> PortalStatusOpen"
    and "i < length (s_Observers sim)"
  shows "settled now (s_Portals sim) (s_Observers sim' ! i)"
    and "length (s_Observers sim') = length (s_Observers sim)"
    and "j \<noteq> i \<Longrightarrow> s_Observers sim' ! j = s_Observers sim ! j"
    and "s_Portals sim' = s_Portals sim" and "s_Lab sim' = s_Lab sim"
proof -
  let ?A = "settled now (s_Portals sim) (s_Observers sim' ! i) \<and> length (s_Observers sim') = length (s_Observers sim) \<and>
    (\<forall>j. j \<noteq> i \<longrightarrow> s_Observers sim' ! j = s_Observers sim ! j) \<and> s_Portals sim' = s_Portals sim \<and> s_Lab sim' = s_Lab sim"
  have ?A
  proof (cases "in_transit (s_Observers sim ! i)")
    case True
    then obtain pid where "withPortalAndPlane pid sim
       (\<lambda>k j. case ResolveObserverLifecycle (s_Observers sim ! i) (Some (s_Planes sim ! j)) (Some (s_Portals sim ! k)) now cfg of
          ((ob', plane'), result) \<Rightarrow>
            rbind result (\<lambda>_. Ok (sim\<lparr>s_Observers := (s_Observers sim)[i := ob'],
              s_Planes := (case plane' of Some pl \<Rightarrow> (s_Planes sim)[j := pl] | None \<Rightarrow> s_Planes sim)\<rparr>)))
       (\<lambda>_. Fail ErrSimulationInvariant) = Ok sim'"
      using assms(1) by (auto simp: resolveTransitAt_def in_transit_def Let_def split: option.splits)
    then show ?thesis
    proof (rule withPortalAndPlaneE)
      fix k j
      assume k: "k < length (s_Portals sim)"
        and e: "(case ResolveObserverLifecycle (s_Observers sim ! i) (Some (s_Planes sim ! j)) (Some (s_Portals sim ! k)) now cfg of
          ((ob', plane'), result) \<Rightarrow>
            rbind result (\<lambda>_. Ok (sim\<lparr>s_Observers := (s_Observers sim)[i := ob'],
              s_Planes := (case plane' of Some pl \<Rightarrow> (s_Planes sim)[j := pl] | None \<Rightarrow> s_Planes sim)\<rparr>))) = Ok sim'"
      then obtain ob' plane' where l: "ResolveObserverLifecycle (s_Observers sim ! i) (Some (s_Planes sim ! j)) (Some (s_Portals sim ! k)) now cfg
          = ((ob', plane'), Ok ())" and s: "s_Observers sim' = (s_Observers sim)[i := ob']" "s_Portals sim' = s_Portals sim" "s_Lab sim' = s_Lab sim"
        by (auto split: prod.splits)
      have "p_Status (s_Portals sim ! k) \<noteq> PortalStatusOpen" using assms(2) nth_mem [OF k] by blast
      from transit_through_ended [OF l this] show ?A
        using s k assms(3) nth_mem [OF k] by (auto simp: settled_def)
    qed auto
  qed (use assms in \<open>auto simp: resolveTransitAt_def in_transit_def settled_def\<close>)
  then show "settled now (s_Portals sim) (s_Observers sim' ! i)" "length (s_Observers sim') = length (s_Observers sim)"
    "j \<noteq> i \<Longrightarrow> s_Observers sim' ! j = s_Observers sim ! j" "s_Portals sim' = s_Portals sim" "s_Lab sim' = s_Lab sim" by blast+
qed

lemma resolveTransits_settles:
  assumes "resolveTransits sim now cfg = Ok sim'" and "\<forall>p\<in>set (s_Portals sim). p_Status p \<noteq> PortalStatusOpen"
  shows "\<forall>ob\<in>set (s_Observers sim'). settled now (s_Portals sim) ob" and "s_Portals sim' = s_Portals sim"
    and "s_Lab sim' = s_Lab sim"
proof -
  have loop: "s_Portals t' = s_Portals t \<and> s_Lab t' = s_Lab t \<and> length (s_Observers t') = length (s_Observers t) \<and>
      (\<forall>j. j \<notin> set xs \<longrightarrow> s_Observers t' ! j = s_Observers t ! j) \<and>
      (\<forall>j\<in>set xs. settled now (s_Portals t) (s_Observers t' ! j))"
    if "foldM (resolveTransitAt now cfg) t xs = Ok t'" "\<forall>p\<in>set (s_Portals t). p_Status p \<noteq> PortalStatusOpen"
      "\<forall>x\<in>set xs. x < length (s_Observers t)" "distinct xs" for t t' xs
    using that
  proof (induction xs arbitrary: t)
    case (Cons x xs)
    then obtain u where u: "resolveTransitAt now cfg t x = Ok u" "foldM (resolveTransitAt now cfg) u xs = Ok t'" by auto
    have x: "x < length (s_Observers t)" using Cons.prems(3) by simp
    note k = resolveTransitAt_settles [OF u(1) Cons.prems(2) x]
    have "\<forall>p\<in>set (s_Portals u). p_Status p \<noteq> PortalStatusOpen" "\<forall>y\<in>set xs. y < length (s_Observers u)" "distinct xs"
      using Cons.prems k(2,4) by simp_all
    note ih = Cons.IH [OF u(2) this]
    have "x \<notin> set xs" using Cons.prems(4) by simp
    then show ?case using ih k by auto
  qed simp
  note l = loop [OF assms(1) [unfolded resolveTransits_def] assms(2)]
  show "\<forall>ob\<in>set (s_Observers sim'). settled now (s_Portals sim) ob" "s_Portals sim' = s_Portals sim" "s_Lab sim' = s_Lab sim"
    using l by (auto simp: in_set_conv_nth)
qed

text \<open>
  C12: going live succeeds only from the last step of the tutorial.  It closes every open
  portal by hand at that moment and touches no other, leaves no observer in transit through
  a portal that has ended, keeps the laboratory's energy free of charge, and schedules the
  natural generator from that moment on.
\<close>

theorem going_live:
  assumes "startLivePlan env now m = Ok pn" and "pn_cause pn = None"
  shows "\<exists>tick working drafts r. catchUp env True (m_snapshot m) now (m_random m) = Ok (tick, working, drafts, r) \<and>
    a_Mode (sn_App working) = ModeTutorial \<and> a_TutorialStep (sn_App working) = 9 \<and> sn_App (pn_snapshot pn) = live_app \<and>
    (let before = sn_Simulation working; after = sn_Simulation (pn_snapshot pn) in
      s_Portals after = map (\<lambda>p. if p_Status p = PortalStatusOpen
          then p\<lparr>p_Status := PortalStatusClosed, p_TerminationReason := TerminationManualClose,
                 p_ClosedAt := Some now, p_UpdatedAt := now\<rparr> else p) (s_Portals before) \<and>
      (\<forall>ob\<in>set (s_Observers after). settled now (s_Portals after) ob) \<and>
      s_Lab after = s_Lab before \<and>
      n_ScheduledAt (s_NaturalSpawn after) = Some now \<and> \<not> n_Paused (s_NaturalSpawn after))"
proof -
  from assms(1) obtain tick working drafts r where
    c: "catchUp env True (m_snapshot m) now (m_random m) = Ok (tick, working, drafts, r)"
    by (auto simp: startLivePlan_def)
  let ?sim = "sn_Simulation working"
  have ready: "a_Mode (sn_App working) = ModeTutorial \<and> a_TutorialStep (sn_App working) = 9"
    using assms by (auto simp: startLivePlan_def c Let_def split: if_splits)
  then obtain portals ended spawn r' where p: "closeOpenPortals (s_Portals ?sim) now (en_cfg env) = Ok portals"
    and e: "resolveTransits (?sim\<lparr>s_Portals := portals\<rparr>) now (en_cfg env) = Ok ended"
    and n: "NewNaturalSpawnState now (en_cfg env) (Some (en_random env)) r = Ok (spawn, r')"
    and pn: "sn_Simulation (pn_snapshot pn) = ended\<lparr>s_NaturalSpawn := spawn\<rparr>" "sn_App (pn_snapshot pn) = live_app"
    using assms(1) by (auto simp: startLivePlan_def c Let_def live_app_def)
  have map: "portals = map (\<lambda>p. if p_Status p = PortalStatusOpen
          then p\<lparr>p_Status := PortalStatusClosed, p_TerminationReason := TerminationManualClose,
                 p_ClosedAt := Some now, p_UpdatedAt := now\<rparr> else p) (s_Portals ?sim)"
    using closeOpenPortals_each [OF p]
    by (induction rule: list_all2_induct) (auto elim!: Portal_Close_OkE split: if_splits)
  then have "\<forall>p\<in>set (s_Portals (?sim\<lparr>s_Portals := portals\<rparr>)). p_Status p \<noteq> PortalStatusOpen" by auto
  note s = resolveTransits_settles [OF e this]
  have "n_ScheduledAt spawn = Some now \<and> \<not> n_Paused spawn"
    using n by (auto simp: NewNaturalSpawnState_def split: if_splits)
  then show ?thesis using c ready s map pn by (simp add: Let_def)
qed

definition sample_ticked :: Snapshot where
  "sample_ticked = sample_snapshot\<lparr>sn_Simulation := (sn_Simulation sample_snapshot)\<lparr>s_LastTickAt := Some boot_time\<rparr>\<rparr>"

lemma no_transits: "\<forall>ob\<in>set (s_Observers sim). \<not> in_transit ob \<Longrightarrow> resolveTransits sim now cfg = Ok sim"
proof -
  assume a: "\<forall>ob\<in>set (s_Observers sim). \<not> in_transit ob"
  have "foldM (resolveTransitAt now cfg) sim xs = Ok sim" if "set xs \<subseteq> {0..<length (s_Observers sim)}" for xs
    using that
  proof (induction xs)
    case (Cons x xs)
    then have "\<not> in_transit (s_Observers sim ! x)" using a by auto
    then show ?case using Cons by (simp add: resolveTransitAt_def in_transit_def Let_def)
  qed simp
  then show ?thesis by (simp add: resolveTransits_def)
qed

definition sample_finished :: "(unit, Database) LabManager" where
  "sample_finished = sample_manager\<lparr>m_snapshot := sample_snapshot\<lparr>sn_App := (sn_App sample_snapshot)\<lparr>a_TutorialStep := 9\<rparr>\<rparr>\<rparr>"

theorem going_live_witness:
  "\<exists>pn. startLivePlan sample_env boot_time sample_finished = Ok pn \<and> pn_cause pn = None \<and>
     n_ScheduledAt (s_NaturalSpawn (sn_Simulation (pn_snapshot pn))) = Some boot_time"
proof -
  let ?s = "sn_Simulation sample_snapshot"
  let ?app = "(sn_App sample_snapshot)\<lparr>a_TutorialStep := 9\<rparr>"
  obtain tick spawn where t: "ResolveTick (\<lambda>_. sort) ?s boot_time (Some (en_random sample_env)) Default () =
     Ok (tick, ?s\<lparr>s_NaturalSpawn := spawn, s_LastTickAt := Some boot_time\<rparr>, ())" and e: "t_Events tick = []"
    using sample_tick by blast
  have env: "en_cfg sample_env = Default" "en_order sample_env = (\<lambda>_. sort)" by (simp_all add: sample_env_def)
  have app: "a_Mode ?app = ModeTutorial" "a_TutorialPortalID ?app = None" "s_NaturalSpawn ?s = pausedSpawn"
    by (simp_all add: initialSnapshot_def)
  define working where "working = \<lparr>sn_Simulation = ?s\<lparr>s_LastTickAt := Some boot_time\<rparr>, sn_App = ?app\<rparr>"
  have adv: "advanceTutorialAfterTick \<lparr>sn_Simulation = ?s\<lparr>s_NaturalSpawn := spawn, s_LastTickAt := Some boot_time\<rparr>, sn_App = ?app\<rparr>
     boot_time Default = Ok working"
    using app by (simp add: advanceTutorialAfterTick_def prepareTutorialSpawn_def recreateTerminalTutorialTarget_def
      tutorialTarget_def advanceStep2_def advanceStep6_def advanceStep7_def Let_def working_def)
  have c: "catchUp sample_env True (m_snapshot sample_finished) boot_time () = Ok (tick, working, [], ())"
  proof -
    have "prepareTutorialSpawn (sample_snapshot\<lparr>sn_App := ?app\<rparr>) = \<lparr>sn_Simulation = ?s, sn_App = ?app\<rparr>"
      by (simp add: prepareTutorialSpawn_def initialSnapshot_def)
    then show ?thesis
      using t e adv sample_quiet
      by (simp add: catchUp_def Let_def env sample_finished_def working_def)
  qed
  have "\<forall>ob\<in>set (s_Observers ?s). \<not> in_transit ob"
    by (auto simp: initialSnapshot_def NewObserver_def in_transit_def)
  then have "resolveTransits (?s\<lparr>s_LastTickAt := Some boot_time, s_Portals := []\<rparr>) boot_time Default =
      Ok (?s\<lparr>s_LastTickAt := Some boot_time, s_Portals := []\<rparr>)"
    by (intro no_transits) simp
  then obtain pn where pn: "startLivePlan sample_env boot_time sample_finished = Ok pn" "pn_cause pn = None"
    using c sample_spawn sample_quiet app
    by (simp add: startLivePlan_def Let_def env sample_finished_def sample_manager_def working_def closeOpenPortals_def mapM_res_def)
  from going_live [OF this] show ?thesis using pn by (auto simp: Let_def)
qed

section \<open>Progress\<close>

text \<open>
  An operation moves the tutorial along an edge of its steps, or starts the live mode
  from the last one; the live mode is never left but by a reset.
\<close>

theorem tutorial_progress:
  assumes "manager_step env m m'"
  shows "(let a = sn_App (m_snapshot m); b = sn_App (m_snapshot m') in
    if a_Mode a \<noteq> ModeTutorial then b = a
    else a_Mode b = ModeTutorial \<and> (a_TutorialStep a, a_TutorialStep b) \<in> op_edges \<or>
         a_TutorialStep a = 9 \<and> b = live_app)"
  using step_app [OF assms] by (auto simp: Let_def op_app_def app_moves_def goes_live_def op_edges_def split: if_splits)

theorem tutorial_progress_witness:
  "StartTutorial sample_env None boot_time sample_manager = (sample_manager, Ok ()) \<and> (0, 0) \<in> op_edges"
proof -
  have "sn_App (m_snapshot sample_manager) \<noteq> live_app" "a_Mode (sn_App (m_snapshot sample_manager)) = ModeTutorial"
    "a_TutorialStep (sn_App (m_snapshot sample_manager)) = 0"
    by (simp_all add: sample_manager_def initialSnapshot_def live_app_def)
  then show ?thesis
    using tutorial_progress [OF manager_step.start_tutorial [OF sample_manager_start]] sample_manager_start by (simp add: Let_def)
qed

text \<open>
  C11: a laboratory that started in the tutorial is live or has a next action to expect,
  whatever operations and resets it went through: the tutorial never gets into a step or a
  phase that has no continuation.
\<close>

theorem tutorial_always_continues:
  assumes "manager_run env m m'" and "m_snapshot m = initialSnapshot seeds t"
  shows "(let a = sn_App (m_snapshot m') in
    a = live_app \<or> a_Mode a = ModeTutorial \<and> (\<exists>action. ExpectedTutorialAction a = Ok action))"
proof -
  have "a_Mode (sn_App (m_snapshot m)) = ModeTutorial \<and> tutorial_ok (sn_App (m_snapshot m))"
    by (simp add: assms(2) initialSnapshot_def tutorial_ok_def)
  with run_app [OF assms(1)] have "a_Mode (sn_App (m_snapshot m')) = ModeTutorial \<and> tutorial_ok (sn_App (m_snapshot m')) \<or>
    sn_App (m_snapshot m') = live_app" by blast
  then show ?thesis using expected_action [of "sn_App (m_snapshot m')"] by (cases "ExpectedTutorialAction (sn_App (m_snapshot m'))") (auto simp: Let_def)
qed

theorem tutorial_always_continues_witness:
  "\<exists>m' action. ManagerResetTutorial sample_env None boot_time sample_manager = (m', Ok ()) \<and>
     ExpectedTutorialAction (sn_App (m_snapshot m')) = Ok action"
proof -
  obtain db' where m': "ManagerResetTutorial sample_env None boot_time sample_manager =
     (sample_manager\<lparr>m_repo := db', m_updates := True\<rparr>, Ok ())" using sample_manager_reset by blast
  have s: "m_snapshot sample_manager = sample_snapshot" by (simp add: sample_manager_def)
  have "sn_App sample_snapshot \<noteq> live_app" by (simp add: initialSnapshot_def live_app_def)
  then show ?thesis
    using tutorial_always_continues [OF manager_run.reset [OF manager_run.start m'] s] m' s by (auto simp: Let_def)
qed

end
