(* ===== verification/ManagerProperties.thy ===== *)
theory ManagerProperties
  imports StoreProperties TutorialProperties
begin

text \<open>
  What the manager promises its callers, as properties of the code: every operation refines
  the abstract aggregate, and the portals in memory stay well formed along every run.
\<close>

section \<open>Refinement of the aggregate\<close>

text \<open>
  C3: every operation of the manager refines the abstract aggregate: from memory to memory
  it is a sequence of updates in place, which keep the identity of every portal and freeze
  the ended ones, and of openings of a portal under the next ID in the first free slot.  Only
  the reset can do one thing more, which is a restart: the same planes, unexplored, a full
  laboratory with its observers at home, no portal, and IDs from one.
\<close>

theorem manager_refines_aggregate:
  assumes "room (ids_needed op) (m_snapshot m)"
  shows "let s = sn_Simulation (m_snapshot m); t = sn_Simulation (m_snapshot (perform env op m)) in
    (aggregate_step (en_cfg env))\<^sup>*\<^sup>* s t \<and>
      (\<exists>old new. s_Portals t = old @ new \<and> list_all2 kept (s_Portals s) old \<and> (\<forall>p\<in>set new. s_NextPortalID s \<le> p_ID p)) \<or>
    (\<exists>lock now. op = OpReset lock now \<and> restarts (en_cfg env) (UTC now) s t)"
proof -
  have path: ?thesis if "evolves (en_cfg env) (sn_Simulation (m_snapshot m)) (sn_Simulation (m_snapshot (perform env op m)))"
    using that evolves_prefix [OF that] by (auto simp: Let_def)
  show ?thesis
  proof (cases "\<exists>lock now. op = OpReset lock now")
    case True
    then obtain lock now where op: "op = OpReset lock now" by blast
    show ?thesis using perform_reset [of env lock now m] path by (auto simp: op Let_def)
  next
    case False
    show ?thesis by (rule path [OF perform_evolves [OF assms False]])
  qed
qed

text \<open>
  C4: whatever operations run, in whatever order and with whatever outcome, the portals in
  memory stay in strictly increasing ID order below the next ID, no two open portals share
  a slot, and every open portal has a slot in bounds, so at most \<open>MaxActivePortals\<close> are open.
\<close>

theorem reachable_portals_well_formed:
  assumes "manager_run env m m'"
    and "aggregate_ok (en_cfg env) (sn_Simulation (m_snapshot m))" and "0 \<le> MaxActivePortals (en_cfg env)"
  shows "(let sim = sn_Simulation (m_snapshot m'); open_portals = filter (\<lambda>p. p_Status p = PortalStatusOpen) (s_Portals sim) in
    sorted_wrt (<) (map p_ID (s_Portals sim)) \<and> (\<forall>p\<in>set (s_Portals sim). 0 < p_ID p \<and> p_ID p < s_NextPortalID sim) \<and>
    distinct (map p_SlotIndex open_portals) \<and>
    (\<forall>p\<in>set open_portals. 1 \<le> p_SlotIndex p \<and> p_SlotIndex p \<le> MaxActivePortals (en_cfg env)) \<and>
    int (length open_portals) \<le> MaxActivePortals (en_cfg env))"
proof -
  let ?sim = "sn_Simulation (m_snapshot m')"
  let ?open = "filter (\<lambda>p. p_Status p = PortalStatusOpen) (s_Portals ?sim)"
  have ok: "aggregate_ok (en_cfg env) ?sim" by (rule manager_run_ok [OF assms(1,2)])
  have sub: "set (map p_SlotIndex ?open) \<subseteq> {1..MaxActivePortals (en_cfg env)}"
    using ok by (auto simp: aggregate_ok_def)
  have d: "distinct (map p_SlotIndex ?open)" using ok by (simp add: aggregate_ok_def open_slots_def)
  have "length ?open = card (set (map p_SlotIndex ?open))" using distinct_card [OF d] by simp
  also have "\<dots> \<le> card {1..MaxActivePortals (en_cfg env)}" by (rule card_mono [OF _ sub]) simp
  finally have "int (length ?open) \<le> MaxActivePortals (en_cfg env)" using assms(3) by simp
  then show ?thesis using ok d by (simp add: aggregate_ok_def Let_def)
qed

theorem reachable_portals_well_formed_witness:
  "\<exists>m'. ManagerResetTutorial sample_env None boot_time sample_manager = (m', Ok ()) \<and>
     int (length (filter (\<lambda>p. p_Status p = PortalStatusOpen) (s_Portals (sn_Simulation (m_snapshot m'))))) \<le> 7"
proof -
  obtain m' where m': "ManagerResetTutorial sample_env None boot_time sample_manager = (m', Ok ())"
    using sample_manager_reset by blast
  have run: "manager_run sample_env sample_manager m'" by (rule manager_run.reset [OF manager_run.start m'])
  have cfg: "MaxActivePortals (en_cfg sample_env) = 7" by (simp add: sample_env_def Default_def)
  have "aggregate_ok (en_cfg sample_env) (sn_Simulation (m_snapshot sample_manager))"
    by (simp add: sample_manager_def sample_aggregate)
  from reachable_portals_well_formed [OF run this] show ?thesis using m' cfg by (auto simp: Let_def)
qed

section \<open>Commit before publication\<close>

text \<open>
  C10: a command is atomic for the callers of the manager.  Either the commit succeeded, and
  exactly the planned snapshot and generator state are published and announced, with the
  rejection as the error of the caller; or the caller gets an error, and the snapshot, the
  generator and the announcement are as before.  The repository changes only by that commit.
\<close>

theorem commit_before_publish:
  assumes "executeCommand env lock command now m = (m', result)"
    and restorable: "\<And>r b. en_MarshalBinary env r = Ok b \<Longrightarrow> en_UnmarshalBinary env b = Ok r"
  shows "(let ready = (lock = None \<and> is_Ok (en_MarshalBinary env (m_random m)));
              planned = commandPlan env command (UTC now) m;
              commit = (\<lambda>pn. en_Commit env (m_repo m) (pn_snapshot pn) (pn_drafts pn)) in
    (\<exists>pn. ready \<and> planned = Ok pn \<and> is_Ok (snd (commit pn)) \<and> m_repo m' = fst (commit pn) \<and>
       m_snapshot m' = pn_snapshot pn \<and> m_random m' = pn_random pn \<and> m_updates m' \<and>
       result = (case pn_cause pn of None \<Rightarrow> Ok () | Some e \<Rightarrow> Fail e)) \<or>
    \<not> (\<exists>pn. ready \<and> planned = Ok pn \<and> is_Ok (snd (commit pn))) \<and> \<not> is_Ok result \<and>
       m_snapshot m' = m_snapshot m \<and> m_random m' = m_random m \<and> m_updates m' = m_updates m \<and>
       m_repo m' = (case planned of Ok pn \<Rightarrow> if ready then fst (commit pn) else m_repo m | _ \<Rightarrow> m_repo m))"
proof (cases "lock = None \<and> is_Ok (en_MarshalBinary env (m_random m))")
  case False
  then have "m' = m \<and> \<not> is_Ok result"
    using assms(1) by (auto simp: executeCommand_def transaction_def split: option.splits result.splits)
  then show ?thesis using False by (auto split: result.split)
next
  case True
  then obtain b where b: "en_MarshalBinary env (m_random m) = Ok b" by (auto simp: is_Ok_iff)
  have fin: "finishRandom env b m (commitPlan env m True (commandPlan env command (UTC now) m)) = (m', result)"
    using assms(1) True b by (simp add: executeCommand_def transaction_def)
  show ?thesis
  proof (cases "commandPlan env command (UTC now) m")
    case (Ok pn)
    obtain d c where d: "en_Commit env (m_repo m) (pn_snapshot pn) (pn_drafts pn) = (d, c)"
      by (cases "en_Commit env (m_repo m) (pn_snapshot pn) (pn_drafts pn)")
    show ?thesis
      using fin Ok d restorable [OF b] True
      by (cases c) (auto simp: commitPlan_def finishRandom_def Let_def)
  qed (use fin restorable [OF b] True in \<open>auto simp: commitPlan_def finishRandom_def Let_def\<close>)
qed

text \<open>A command whose portal does not exist, on the canonical laboratory.\<close>

lemma sample_catchUp:
  "\<exists>tick. catchUp sample_env True sample_snapshot boot_time () = Ok (tick, sample_ticked, [], ())"
proof -
  let ?s = "sn_Simulation sample_snapshot"
  obtain tick spawn where t: "ResolveTick (\<lambda>_. sort) ?s boot_time (Some (en_random sample_env)) Default () =
     Ok (tick, ?s\<lparr>s_NaturalSpawn := spawn, s_LastTickAt := Some boot_time\<rparr>, ())" and e: "t_Events tick = []"
    using sample_tick by blast
  have env: "en_cfg sample_env = Default" "en_order sample_env = (\<lambda>_. sort)" by (simp_all add: sample_env_def)
  have app: "a_Mode (sn_App sample_snapshot) = ModeTutorial" "a_TutorialStep (sn_App sample_snapshot) = 0" "s_NaturalSpawn ?s = pausedSpawn"
    by (simp_all add: initialSnapshot_def)
  have p: "prepareTutorialSpawn sample_snapshot = sample_snapshot"
    by (simp add: prepareTutorialSpawn_def initialSnapshot_def)
  show ?thesis using t e sample_quiet app
    by (simp add: catchUp_def Let_def env p advanceTutorialAfterTick_def sample_ticked_def) (simp add: prepareTutorialSpawn_def)
qed

lemma sample_ticked_valid: "validateSnapshot sample_ticked = Ok ()"
proof -
  note v = initial_valid [OF sample_facts(1,3)] initial_structure [OF sample_facts(1), of boot_time] initial_time [of sample_seeds boot_time]
  have t: "snapshotValidationTime (sn_Simulation sample_ticked) = boot_time"
    using v(3) by (simp add: snapshotValidationTime_def sample_ticked_def Let_def) (simp add: initialSnapshot_def pausedSpawn_def)
  have w: "validateSimulationStructure (sn_Simulation sample_ticked) boot_time = Ok ()"
    using v(2) by (simp add: validateSimulationStructure_def sample_ticked_def Let_def split: if_splits)
  have f: "s_Portals (sn_Simulation sample_ticked) = []" "s_Planes (sn_Simulation sample_ticked) = s_Planes (sn_Simulation sample_snapshot)"
    "s_Observers (sn_Simulation sample_ticked) = s_Observers (sn_Simulation sample_snapshot)"
    "s_Lab (sn_Simulation sample_ticked) = s_Lab (sn_Simulation sample_snapshot)"
    "s_NextPortalID (sn_Simulation sample_ticked) = s_NextPortalID (sn_Simulation sample_snapshot)"
    "s_NaturalSpawn (sn_Simulation sample_ticked) = s_NaturalSpawn (sn_Simulation sample_snapshot)"
    "s_LastTickAt (sn_Simulation sample_ticked) = Some boot_time" "sn_App sample_ticked = sn_App sample_snapshot"
    by (simp_all add: sample_ticked_def)
  show ?thesis
    using v(1) sample_facts(3) unfolding validateSnapshot_def Let_def t w f by auto
qed

lemma sample_rejected:
  "\<exists>pn. commandPlan sample_env (CommandStabilize 1) boot_time sample_manager = Ok pn \<and> pn_snapshot pn = sample_ticked \<and>
     pn_cause pn = Some ErrPortalNotFound \<and> (\<forall>d\<in>set (pn_drafts pn). EventDraft_Validate d = Ok ())"
proof -
  obtain tick where c: "catchUp sample_env True sample_snapshot boot_time () = Ok (tick, sample_ticked, [], ())"
    using sample_catchUp by blast
  have env: "en_cfg sample_env = Default" "en_order sample_env = (\<lambda>_. sort)" by (simp_all add: sample_env_def)
  have f: "s_Portals (sn_Simulation sample_ticked) = []" "s_Planes (sn_Simulation sample_ticked) = s_Planes (sn_Simulation sample_snapshot)"
    "s_Observers (sn_Simulation sample_ticked) = s_Observers (sn_Simulation sample_snapshot)"
    "s_Lab (sn_Simulation sample_ticked) = s_Lab (sn_Simulation sample_snapshot)" by (simp_all add: sample_ticked_def)
  have app: "a_Mode (sn_App sample_ticked) = ModeTutorial" "a_TutorialStep (sn_App sample_ticked) = 0"
      "a_TutorialPortalID (sn_App sample_ticked) = None"
    by (simp_all add: initialSnapshot_def sample_ticked_def)
  have p: "prepareTutorialSpawn sample_ticked = sample_ticked"
    by (simp add: prepareTutorialSpawn_def initialSnapshot_def sample_ticked_def)
  have a: "stabilizeCommand 1 (sn_Simulation sample_ticked) boot_time Default = Fail ErrPortalNotFound"
    by (simp add: stabilizeCommand_def portalIndex_def f)
  have adv: "advanceTutorialAfterCommand sample_ticked sample_ticked ''STABILIZE'' (Some 1) (Some ErrPortalNotFound) boot_time Default = Ok sample_ticked"
    using app by (simp add: advanceTutorialAfterCommand_def Let_def p recreateTerminalTutorialTarget_def tutorialTarget_def)
  obtain d where d: "NewActionRejectedEvent boot_time ''STABILIZE'' (Some 1) None None (Some ErrPortalNotFound) = Ok d"
    and v: "EventDraft_Validate d = Ok ()"
    by (simp add: NewActionRejectedEvent_def Let_def EventDraft_Validate_def IsEventType_def blank_def
      validEventEntityID_def isJSONObject_def boot_time_def IsZero_def zeroTime_def)
  have ev: "EventsForStateTransition (\<lambda>_. sort) (sn_Simulation sample_ticked) (sn_Simulation sample_ticked) boot_time boot_time Default = Ok []"
    by (rule sample_quiet) (simp_all add: f)
  show ?thesis
    using v by (simp add: commandPlan_def sample_manager_def c env a adv d ev Let_def)
qed

lemma sample_committed:
  "\<exists>pn db' events. commandPlan sample_env (CommandStabilize 1) boot_time sample_manager = Ok pn \<and> pn_snapshot pn = sample_ticked \<and>
     pn_cause pn = Some ErrPortalNotFound \<and> Commit reader sample_lab sample_db sample_ticked (pn_drafts pn) = (db', Ok events)"
proof -
  obtain pn where pn: "commandPlan sample_env (CommandStabilize 1) boot_time sample_manager = Ok pn" "pn_snapshot pn = sample_ticked"
    "pn_cause pn = Some ErrPortalNotFound" "\<forall>d\<in>set (pn_drafts pn). EventDraft_Validate d = Ok ()" using sample_rejected by blast
  obtain db' events where c: "Commit reader sample_lab sample_db sample_ticked (pn_drafts pn) = (db', Ok events)"
  proof (rule Commit_succeeds [OF sample_loaded reader_faultless _ sample_ticked_valid sample_has_lab pn(4)])
    show "successor sample_snapshot sample_ticked"
      using successor_refl [of sample_snapshot] by (simp add: successor_def sample_ticked_def same_bodies_def)
  qed
  then show ?thesis using pn by blast
qed

lemma sample_manager_facts:
  "m_snapshot sample_manager = sample_snapshot" "en_cfg sample_env = Default" "UTC boot_time = boot_time"
  "en_Commit sample_env (m_repo sample_manager) = Commit reader sample_lab sample_db"
  using sample_facts(3) by (simp_all add: sample_manager_def sample_env_def UTC_id stampable_def)

lemma sample_command_published:
  "m_snapshot (perform sample_env (OpCommand None (CommandStabilize 1) boot_time) sample_manager) = sample_ticked"
proof -
  obtain pn db' events where pn: "commandPlan sample_env (CommandStabilize 1) boot_time sample_manager = Ok pn" "pn_snapshot pn = sample_ticked"
    "Commit reader sample_lab sample_db sample_ticked (pn_drafts pn) = (db', Ok events)" using sample_committed by blast
  have "en_MarshalBinary sample_env r = Ok ()" for r by (simp add: sample_env_def)
  then show ?thesis
    using pn by (simp add: executeCommand_def transaction_def finishRandom_def commitPlan_def sample_manager_facts Let_def)
qed

lemma sample_ticked_differs: "sample_ticked \<noteq> sample_snapshot"
proof
  assume "sample_ticked = sample_snapshot"
  then have "s_LastTickAt (sn_Simulation sample_ticked) = s_LastTickAt (sn_Simulation sample_snapshot)" by simp
  then show False by (simp add: sample_ticked_def) (simp add: initialSnapshot_def)
qed

theorem commit_before_publish_witness:
  "\<exists>m' result. executeCommand sample_env None (CommandStabilize 1) boot_time sample_manager = (m', result) \<and>
     (m_snapshot m' = sample_ticked \<and> result = Fail ErrPortalNotFound \<and> m_updates m')"
proof -
  obtain pn db' events where pn: "commandPlan sample_env (CommandStabilize 1) boot_time sample_manager = Ok pn"
    "pn_snapshot pn = sample_ticked" "pn_cause pn = Some ErrPortalNotFound"
    and c: "Commit reader sample_lab sample_db sample_ticked (pn_drafts pn) = (db', Ok events)" using sample_committed by blast
  obtain m' result where e: "executeCommand sample_env None (CommandStabilize 1) boot_time sample_manager = (m', result)" by fastforce
  have restorable: "\<And>r b. en_MarshalBinary sample_env r = Ok b \<Longrightarrow> en_UnmarshalBinary sample_env b = Ok r"
    by (simp add: sample_env_def)
  have "en_MarshalBinary sample_env (m_random sample_manager) = Ok ()" by (simp add: sample_env_def)
  with commit_before_publish [OF e restorable, unfolded sample_manager_facts] show ?thesis
    using e pn c by (auto simp: Let_def)
qed

text \<open>A rejected command resolves the canonical laboratory and publishes it; a reset restarts it.\<close>

theorem manager_refines_aggregate_witness:
  "sample_ticked \<noteq> sample_snapshot \<and>
   m_snapshot (perform sample_env (OpCommand None (CommandStabilize 1) boot_time) sample_manager) = sample_ticked \<and>
   (aggregate_step Default)\<^sup>*\<^sup>* (sn_Simulation sample_snapshot) (sn_Simulation sample_ticked)"
proof -
  let ?op = "OpCommand None (CommandStabilize 1) boot_time"
  have "room (ids_needed ?op) (m_snapshot sample_manager)" by (simp add: sample_manager_facts initialSnapshot_def)
  from manager_refines_aggregate [OF this, of sample_env] show ?thesis
    unfolding sample_command_published sample_manager_facts using sample_ticked_differs by (simp add: Let_def)
qed

section \<open>The generator during the tutorial\<close>

text \<open>
  C13: while the tutorial runs no operation spawns a natural portal.  What an operation does to
  the portals is a sequence of updates in place, of openings of a portal of the script with
  exactly its values, and of openings of an extraction portal; a reset leaves no portal.  What
  an operation publishes leaves the generator at rest, unless it ends the tutorial, which only
  going live does.  A read is the exception: it opens nothing, but may leave a spawn scheduled
  from its own time on, which the next operation discards.
\<close>

theorem tutorial_never_spawns:
  assumes "a_Mode (sn_App (m_snapshot m)) = ModeTutorial"
  shows "let s = m_snapshot m; t = m_snapshot (perform env op m) in
    ((tutorial_step (en_cfg env))\<^sup>*\<^sup>* (sn_Simulation s) (sn_Simulation t) \<or>
      (\<exists>lock now. op = OpReset lock now \<and> s_Portals (sn_Simulation t) = [])) \<and>
    (a_Mode (sn_App t) \<noteq> ModeTutorial \<longrightarrow> (\<exists>lock now. op = OpStartLive lock now)) \<and>
    (case read_time op of
       None \<Rightarrow> t = s \<or> a_Mode (sn_App t) \<noteq> ModeTutorial \<or> s_NaturalSpawn (sn_Simulation t) = pausedSpawn
     | Some now \<Rightarrow> in_place (sn_Simulation s) (sn_Simulation t) \<and> sn_App t = sn_App s \<and>
         (t = s \<or> s_NaturalSpawn (sn_Simulation t) = pausedSpawn \<or>
          n_ScheduledAt (s_NaturalSpawn (sn_Simulation t)) = Some (UTC now)))"
proof (cases "read_time op")
  case (Some now)
  then have op: "\<nexists>lock now. op = OpReset lock now" by auto
  obtain lock q where r: "resolveLocked env lock (UTC now) False False m = (perform env op m, q)"
    using perform_read [OF Some] by blast
  from resolve_published [OF r] show ?thesis
  proof (elim disjE exE)
    fix tick events r
    assume c: "catchUp env False (m_snapshot m) (UTC now) (m_random m) = Ok (tick, m_snapshot (perform env op m), events, r)"
    show ?thesis using catchUp_scripted(1,2) [OF c assms] catchUp_scripted(4) [OF c assms] by (auto simp: Let_def Some)
  qed (simp add: Some Let_def assms)
next
  case None
  have "quiet (en_cfg env) (m_snapshot m) (m_snapshot (perform env op m)) \<and>
      (a_Mode (sn_App (m_snapshot (perform env op m))) \<noteq> ModeTutorial \<longrightarrow> (\<exists>lock now. op = OpStartLive lock now))"
    if "\<nexists>lock now. op = OpReset lock now"
    by (rule tutorial_quiet [OF None that assms])
  moreover have "m_snapshot (perform env op m) = m_snapshot m \<or> s_Portals (sn_Simulation (m_snapshot (perform env op m))) = [] \<and>
      s_NaturalSpawn (sn_Simulation (m_snapshot (perform env op m))) = pausedSpawn \<and>
      a_Mode (sn_App (m_snapshot (perform env op m))) = ModeTutorial"
    if "op = OpReset lock now" for lock now
    using tutorial_reset [of env lock now m] that by simp
  ultimately show ?thesis
    by (cases "\<exists>lock now. op = OpReset lock now") (auto simp: Let_def None quiet_def assms)
qed

text \<open>A rejected command on the canonical laboratory.\<close>

theorem tutorial_never_spawns_witness:
  "s_NaturalSpawn (sn_Simulation (m_snapshot (perform sample_env (OpCommand None (CommandStabilize 1) boot_time) sample_manager))) =
     pausedSpawn \<and>
   (tutorial_step Default)\<^sup>*\<^sup>* (sn_Simulation sample_snapshot) (sn_Simulation sample_ticked)"
proof -
  let ?op = "OpCommand None (CommandStabilize 1) boot_time"
  have "a_Mode (sn_App (m_snapshot sample_manager)) = ModeTutorial" "a_Mode (sn_App sample_ticked) = ModeTutorial"
    by (simp_all add: sample_manager_facts sample_ticked_def initialSnapshot_def)
  with tutorial_never_spawns [of sample_manager sample_env ?op] show ?thesis
    unfolding sample_command_published sample_manager_facts using sample_ticked_differs by (simp add: Let_def)
qed

end
