(* ===== verification/Actions.thy ===== *)
theory Actions
  imports Sample
begin

text \<open>
  What the laboratory tells its operator: the recommendation for a portal
  (\<open>internal/domain/recommendation.go\<close>) and the dry run of a command that decides whether
  its button is enabled (\<open>action_availability.go\<close>).  The main fact is that an action that
  is recommended is also available.
\<close>

section \<open>Recommendations\<close>

datatype Recommendation =
    RecommendationLeaveOpen
  | RecommendationWaitForCorridor
  | RecommendationStabilize
  | RecommendationClose
  | RecommendationSendObserver
  | RecommendationRecallObserver

definition validRecommendationConfig :: "Config \<Rightarrow> bool" where
  "validRecommendationConfig cfg \<longleftrightarrow>
     0 < ObserverTransitMax cfg \<and> 0 < CreatureTransit cfg \<and> 0 < RiskSafeHorizon cfg \<and>
     0 < LabEnergyMax cfg \<and> 0 \<le> CloseCost cfg \<and> 0 \<le> StabilizeCost cfg"

definition portalSafeFor :: "Portal \<Rightarrow> int \<Rightarrow> time \<Rightarrow> Config \<Rightarrow> bool" where
  "portalSafeFor portal horizon now cfg =
     (if p_Status portal \<noteq> PortalStatusOpen \<or> p_Stability portal \<noteq> PortalStable \<or> horizon < 0 then False
      else (case Portal_RiskLevel portal now cfg of
              None \<Rightarrow> False
            | Some risk \<Rightarrow> risk \<noteq> RiskCritical \<and> horizon < Portal_EffectiveLifetime portal now))"

definition stabilizationMakesSafe :: "LabState \<Rightarrow> Portal \<Rightarrow> int \<Rightarrow> time \<Rightarrow> Config \<Rightarrow> bool" where
  "stabilizationMakesSafe lab portal horizon now cfg =
     (if p_Status portal \<noteq> PortalStatusOpen \<or> p_Stability portal \<noteq> PortalUnstable \<or>
         f_less (StabilizeMaxStartEnergy cfg) (Portal_CurrentEnergy portal now) then False
      else (case StabilizePortalWithLabEnergy lab portal now cfg of
              Ok (_, portalCopy) \<Rightarrow> portalSafeFor portalCopy horizon now cfg
            | _ \<Rightarrow> False))"

definition closeAffordable :: "LabState \<Rightarrow> time \<Rightarrow> Config \<Rightarrow> bool" where
  "closeAffordable lab now cfg =
     (let cost = (if LeylineOverrideActive lab now cfg then 0 else CloseCost cfg)
      in LabState_CanAfford lab now cost cfg)"

definition creatureClearanceRemaining :: "Portal \<Rightarrow> time \<Rightarrow> Config \<Rightarrow> int res" where
  "creatureClearanceRemaining portal now cfg =
     rbind (Portal_CreaturesInside portal now cfg) (\<lambda>inside.
       if inside = 0 then Ok 0
       else let clearedAt = Add (p_OpenedAt portal) (wrap64 (p_CreaturesInitial portal * CreatureTransit cfg))
            in if \<not> After clearedAt now then Ok 0 else Ok (Sub clearedAt now))"

definition shortestResearchRemaining :: "Observer list \<Rightarrow> int \<Rightarrow> time \<Rightarrow> int option res" where
  "shortestResearchRemaining observers planeID now =
     foldM (\<lambda>selected ob.
         if o_Status ob \<noteq> ObserverExploring \<or> o_CurrentPlaneID ob \<noteq> Some planeID then Ok selected
         else (case (o_PhaseStartedAt ob, o_PhaseEndsAt ob) of
                 (Some startedAt, Some endsAt) \<Rightarrow>
                   if Before endsAt startedAt then Fail ErrObserverInvariant
                   else let remaining = (if Sub endsAt now < 0 then 0 else Sub endsAt now)
                        in (case selected of
                              None \<Rightarrow> Ok (Some remaining)
                            | Some best \<Rightarrow> Ok (if remaining < best then Some remaining else selected))
               | _ \<Rightarrow> Fail ErrObserverInvariant))
       None observers"

definition recommendationPlane :: "Plane list \<Rightarrow> int \<Rightarrow> Plane option" where
  "recommendationPlane planes i = find (\<lambda>pl. pl_ID pl = i) planes"

definition planeHasObserver :: "Observer list \<Rightarrow> int \<Rightarrow> bool" where
  "planeHasObserver observers planeID =
     list_ex (\<lambda>ob. o_CurrentPlaneID ob = Some planeID \<and> o_Status ob \<noteq> ObserverLost) observers"

definition outboundObserverTargetsPlane :: "SimulationState \<Rightarrow> int \<Rightarrow> bool" where
  "outboundObserverTargetsPlane state planeID =
     list_ex (\<lambda>ob. o_Status ob = ObserverOutbound \<and> o_ActivePortalID ob \<noteq> None \<and>
       list_ex (\<lambda>p. o_ActivePortalID ob = Some (p_ID p) \<and> p_DestinationPlaneID p = planeID) (s_Portals state))
       (s_Observers state)"

text \<open>A plane that is not found is the zero value: ID 0, not explored.\<close>

definition recommendationFallback :: "SimulationState \<Rightarrow> Portal \<Rightarrow> time \<Rightarrow> Config \<Rightarrow> Recommendation" where
  "recommendationFallback state portal now cfg =
     (case recommendationPlane (s_Planes state) (p_DestinationPlaneID portal) of
        Some plane \<Rightarrow>
          if pl_Explored plane \<and> \<not> planeHasObserver (s_Observers state) (pl_ID plane) \<and>
             closeAffordable (s_Lab state) now cfg
          then RecommendationClose
          else if (Portal_RiskLevel portal now cfg = Some RiskHigh \<or> Portal_RiskLevel portal now cfg = Some RiskCritical) \<and>
                  closeAffordable (s_Lab state) now cfg
          then RecommendationClose else RecommendationLeaveOpen
      | None \<Rightarrow>
          if (Portal_RiskLevel portal now cfg = Some RiskHigh \<or> Portal_RiskLevel portal now cfg = Some RiskCritical) \<and>
             closeAffordable (s_Lab state) now cfg
          then RecommendationClose else RecommendationLeaveOpen)"

definition recommendationForImmediateMission ::
    "SimulationState \<Rightarrow> Portal \<Rightarrow> time \<Rightarrow> Config \<Rightarrow> Recommendation \<Rightarrow> Recommendation option res" where
  "recommendationForImmediateMission state portal now cfg action =
     rbind (creatureClearanceRemaining portal now cfg) (\<lambda>clearance.
       if clearance = 0 \<and> portalSafeFor portal (ObserverTransitMax cfg) now cfg then Ok (Some action)
       else let horizon = wrap64 (clearance + ObserverTransitMax cfg) in
         if 0 < clearance \<and> portalSafeFor portal horizon now cfg then Ok (Some RecommendationWaitForCorridor)
         else if stabilizationMakesSafe (s_Lab state) portal horizon now cfg then Ok (Some RecommendationStabilize)
         else Ok (Some (recommendationFallback state portal now cfg)))"

text \<open>The part of \<open>RecommendationForPortal\<close> after the checks on the inbound direction.\<close>

definition recommendOutbound :: "SimulationState \<Rightarrow> Portal \<Rightarrow> time \<Rightarrow> Config \<Rightarrow> Recommendation option res" where
  "recommendOutbound state portal now cfg =
     (case recommendationPlane (s_Planes state) (p_DestinationPlaneID portal) of
        None \<Rightarrow> Fail ErrSimulationInvariant
      | Some plane \<Rightarrow>
          if \<not> pl_Explored plane \<and> (p_ObserverFlow portal = PortalFlowNone \<or> p_ObserverFlow portal = PortalFlowOutbound) \<and>
             AvailableObserverIndex (s_Observers state) \<noteq> None \<and>
             \<not> planeHasObserver (s_Observers state) (pl_ID plane) \<and>
             \<not> outboundObserverTargetsPlane state (pl_ID plane)
          then recommendationForImmediateMission state portal now cfg RecommendationSendObserver
          else Ok (Some (recommendationFallback state portal now cfg)))"

definition recommendForPortal :: "SimulationState \<Rightarrow> Portal \<Rightarrow> time \<Rightarrow> Config \<Rightarrow> Recommendation option res" where
  "recommendForPortal state portal now cfg =
     (if p_Status portal \<noteq> PortalStatusOpen then Ok None
      else if p_Kind portal = PortalKindExtraction \<and> p_ExtractionSynchronizedAt portal = None
      then Ok (Some RecommendationLeaveOpen)
      else rbind (ActiveTransitObserverIndex (s_Observers state) (p_ID portal) now) (\<lambda>active.
        case active of
          Some activeIndex \<Rightarrow>
            (case o_PhaseEndsAt (s_Observers state ! activeIndex) of
               None \<Rightarrow> Panic
             | Some endsAt \<Rightarrow>
                 let horizon = Sub endsAt now in
                 if portalSafeFor portal horizon now cfg then Ok (Some RecommendationLeaveOpen)
                 else if stabilizationMakesSafe (s_Lab state) portal horizon now cfg
                 then Ok (Some RecommendationStabilize)
                 else Ok (Some RecommendationLeaveOpen))
        | None \<Rightarrow>
            if p_ObserverFlow portal = PortalFlowNone \<or> p_ObserverFlow portal = PortalFlowInbound
            then rbind (LongestWaitingObserverIndex (s_Observers state) (p_DestinationPlaneID portal)) (\<lambda>waiting.
              if waiting \<noteq> None
              then recommendationForImmediateMission state portal now cfg RecommendationRecallObserver
              else rbind (shortestResearchRemaining (s_Observers state) (p_DestinationPlaneID portal) now) (\<lambda>exploring.
                case exploring of
                  Some remaining \<Rightarrow>
                    let horizon = wrap64 (remaining + ObserverTransitMax cfg) in
                    if portalSafeFor portal horizon now cfg then Ok (Some RecommendationLeaveOpen)
                    else if stabilizationMakesSafe (s_Lab state) portal horizon now cfg
                    then Ok (Some RecommendationStabilize)
                    else Ok (Some (recommendationFallback state portal now cfg))
                | None \<Rightarrow> recommendOutbound state portal now cfg))
            else recommendOutbound state portal now cfg))"

definition RecommendationForPortal :: "SimulationState \<Rightarrow> int \<Rightarrow> time \<Rightarrow> Config \<Rightarrow> Recommendation option res" where
  "RecommendationForPortal state portalID now cfg =
     (if validateSimulationStructure state now \<noteq> Ok () \<or> \<not> validRecommendationConfig cfg
      then Fail ErrSimulationInvariant
      else (case portal_by_id (s_Portals state) portalID of
              None \<Rightarrow> Fail ErrSimulationInvariant
            | Some portal \<Rightarrow> recommendForPortal state portal now cfg))"

section \<open>Availability\<close>

datatype PortalAction =
    PortalActionStabilize
  | PortalActionClose
  | PortalActionSend
  | PortalActionRecall
  | PortalActionOther string

record ActionAvailability =
  aa_Available :: bool
  aa_Cause :: "error option"

definition isAvailabilityInvariant :: "error \<Rightarrow> bool" where
  "isAvailabilityInvariant err \<longleftrightarrow>
     errors_Is err ErrObserverInvariant \<or> errors_Is err ErrLabEnergyInvariant \<or>
     errors_Is err ErrExtractionInvariant \<or> errors_Is err ErrSimulationInvariant \<or>
     errors_Is err ErrEventInvariant"

text \<open>The dry run; its changes to the copy are dropped.\<close>

definition dryRun :: "SimulationState \<Rightarrow> Portal \<Rightarrow> Plane \<Rightarrow> PortalAction \<Rightarrow> time \<Rightarrow> Config \<Rightarrow> unit res" where
  "dryRun state portal plane action now cfg =
     (case action of
        PortalActionStabilize \<Rightarrow>
          map_result (\<lambda>_. ()) (StabilizePortalWithLabEnergy (s_Lab state) portal now cfg)
      | PortalActionClose \<Rightarrow>
          snd (ClosePortalWithLabEnergy (s_Lab state) portal plane (s_Observers state) now True cfg)
      | PortalActionSend \<Rightarrow>
          map_result (\<lambda>_. ()) (SendObserverWithLabEnergy (s_Lab state) portal plane (s_Observers state) now True
            (Some availabilityRandom) cfg ())
      | PortalActionRecall \<Rightarrow>
          map_result (\<lambda>_. ()) (RecallObserverWithLabEnergy (s_Lab state) portal plane (s_Observers state) now True
            (Some availabilityRandom) cfg ())
      | PortalActionOther _ \<Rightarrow> Fail ErrSimulationInvariant)"

definition PortalActionAvailability ::
    "SimulationState \<Rightarrow> int \<Rightarrow> PortalAction \<Rightarrow> time \<Rightarrow> Config \<Rightarrow> ActionAvailability res" where
  "PortalActionAvailability state portalID action now cfg =
     rbind (validateSimulationStructure state now) (\<lambda>_.
       case portal_by_id (s_Portals state) portalID of
         None \<Rightarrow> Fail ErrSimulationInvariant
       | Some portal \<Rightarrow>
           (case find (\<lambda>pl. pl_ID pl = p_DestinationPlaneID portal) (s_Planes state) of
              None \<Rightarrow> Fail ErrSimulationInvariant
            | Some plane \<Rightarrow>
                (case dryRun state portal plane action now cfg of
                   Ok _ \<Rightarrow> Ok \<lparr>aa_Available = True, aa_Cause = None\<rparr>
                 | Panic \<Rightarrow> Panic
                 | Fail err \<Rightarrow>
                     if isAvailabilityInvariant err \<or> errors_Is err ErrConfirmationRequired then Fail err
                     else Ok \<lparr>aa_Available = False, aa_Cause = Some err\<rparr>)))"

section \<open>What a recommendation rests on\<close>

definition supported :: "SimulationState \<Rightarrow> Portal \<Rightarrow> time \<Rightarrow> Config \<Rightarrow> Recommendation \<Rightarrow> bool" where
  "supported state portal now cfg rec \<longleftrightarrow>
     (case rec of
        RecommendationStabilize \<Rightarrow> \<exists>horizon. stabilizationMakesSafe (s_Lab state) portal horizon now cfg
      | RecommendationClose \<Rightarrow> closeAffordable (s_Lab state) now cfg
      | RecommendationSendObserver \<Rightarrow>
          p_ObserverFlow portal \<noteq> PortalFlowInbound \<and> AvailableObserverIndex (s_Observers state) \<noteq> None \<and>
          creatureClearanceRemaining portal now cfg = Ok 0 \<and> portalSafeFor portal (ObserverTransitMax cfg) now cfg
      | RecommendationRecallObserver \<Rightarrow>
          p_ObserverFlow portal \<noteq> PortalFlowOutbound \<and>
          (\<exists>i. LongestWaitingObserverIndex (s_Observers state) (p_DestinationPlaneID portal) = Ok (Some i)) \<and>
          creatureClearanceRemaining portal now cfg = Ok 0 \<and> portalSafeFor portal (ObserverTransitMax cfg) now cfg
      | _ \<Rightarrow> True)"

lemma fallback_supported: "supported state portal now cfg (recommendationFallback state portal now cfg)"
  by (auto simp: supported_def recommendationFallback_def split: option.split)

lemma mission_supported:
  assumes "recommendationForImmediateMission state portal now cfg action = Ok (Some rec)"
    and "creatureClearanceRemaining portal now cfg = Ok 0 \<Longrightarrow> portalSafeFor portal (ObserverTransitMax cfg) now cfg \<Longrightarrow>
      supported state portal now cfg action"
  shows "supported state portal now cfg rec"
proof -
  obtain c where c: "creatureClearanceRemaining portal now cfg = Ok c"
    using assms(1) by (auto simp: recommendationForImmediateMission_def)
  have "rec = action \<and> c = 0 \<and> portalSafeFor portal (ObserverTransitMax cfg) now cfg \<or>
      rec = RecommendationWaitForCorridor \<or>
      rec = RecommendationStabilize \<and> (\<exists>horizon. stabilizationMakesSafe (s_Lab state) portal horizon now cfg) \<or>
      rec = recommendationFallback state portal now cfg"
    using assms(1) c by (auto simp: recommendationForImmediateMission_def Let_def split: if_splits)
  then show ?thesis
    using assms(2) c fallback_supported [of state portal now cfg] by (auto simp: supported_def)
qed

lemma outbound_supported:
  assumes "recommendOutbound state portal now cfg = Ok (Some rec)"
  shows "supported state portal now cfg rec"
proof -
  obtain plane where plane: "recommendationPlane (s_Planes state) (p_DestinationPlaneID portal) = Some plane"
    using assms by (cases "recommendationPlane (s_Planes state) (p_DestinationPlaneID portal)")
      (auto simp: recommendOutbound_def)
  note rec = assms [unfolded recommendOutbound_def plane option.case]
  show ?thesis
  proof (cases "p_ObserverFlow portal \<noteq> PortalFlowInbound \<and> AvailableObserverIndex (s_Observers state) \<noteq> None \<and>
      recommendationForImmediateMission state portal now cfg RecommendationSendObserver = Ok (Some rec)")
    case True
    show ?thesis
    proof (rule mission_supported)
      show "recommendationForImmediateMission state portal now cfg RecommendationSendObserver = Ok (Some rec)"
        using True by blast
      show "supported state portal now cfg RecommendationSendObserver"
        if "creatureClearanceRemaining portal now cfg = Ok 0" "portalSafeFor portal (ObserverTransitMax cfg) now cfg"
        using True that by (simp add: supported_def)
    qed
  next
    case False
    have "rec = recommendationFallback state portal now cfg"
    proof (rule ccontr)
      assume "rec \<noteq> recommendationFallback state portal now cfg"
      then have "p_ObserverFlow portal \<in> {PortalFlowNone, PortalFlowOutbound}"
          and "AvailableObserverIndex (s_Observers state) \<noteq> None"
          and "recommendationForImmediateMission state portal now cfg RecommendationSendObserver = Ok (Some rec)"
        using rec by (simp_all split: if_splits)
      then show False using False by force
    qed
    then show ?thesis by (simp add: fallback_supported)
  qed
qed

lemma recommendation_supported:
  assumes "recommendForPortal state portal now cfg = Ok (Some rec)"
  shows "p_Status portal = PortalStatusOpen" and "supported state portal now cfg rec"
    and "rec \<noteq> RecommendationLeaveOpen \<Longrightarrow> p_Kind portal = PortalKindExtraction \<Longrightarrow> p_ExtractionSynchronizedAt portal \<noteq> None"
    and "rec \<notin> {RecommendationLeaveOpen, RecommendationStabilize} \<Longrightarrow>
      ActiveTransitObserverIndex (s_Observers state) (p_ID portal) now = Ok None"
proof -
  show st: "p_Status portal = PortalStatusOpen" using assms by (auto simp: recommendForPortal_def split: if_splits)
  show sync: "rec \<noteq> RecommendationLeaveOpen \<Longrightarrow> p_Kind portal = PortalKindExtraction \<Longrightarrow> p_ExtractionSynchronizedAt portal \<noteq> None"
    using assms by (auto simp: recommendForPortal_def split: if_splits)
  show "supported state portal now cfg rec"
  proof (cases "p_Kind portal = PortalKindExtraction \<and> p_ExtractionSynchronizedAt portal = None")
    case True
    then show ?thesis using assms st by (auto simp: recommendForPortal_def supported_def)
  next
    case False
    then obtain active where a: "ActiveTransitObserverIndex (s_Observers state) (p_ID portal) now = Ok active"
      using assms st by (auto simp: recommendForPortal_def)
    show ?thesis
    proof (cases active)
      case (Some i)
      then show ?thesis
        using assms st False a by (auto simp: recommendForPortal_def supported_def Let_def split: option.splits if_splits)
    next
      case None
      note rec = assms [unfolded recommendForPortal_def, simplified st a None False rbind.simps option.case]
      show ?thesis
      proof (cases "p_ObserverFlow portal = PortalFlowNone \<or> p_ObserverFlow portal = PortalFlowInbound")
        case out: False
        then show ?thesis using rec False by (intro outbound_supported) (auto split: if_splits)
      next
        case inb: True
        then obtain w where w: "LongestWaitingObserverIndex (s_Observers state) (p_DestinationPlaneID portal) = Ok w"
          using rec False by (auto split: if_splits)
        show ?thesis
        proof (cases w)
          case (Some i)
          then have "recommendationForImmediateMission state portal now cfg RecommendationRecallObserver = Ok (Some rec)"
            using rec False inb w by (auto split: if_splits)
          then show ?thesis
            by (rule mission_supported) (use inb w Some in \<open>auto simp: supported_def\<close>)
        next
          case none: None
          then obtain e where e: "shortestResearchRemaining (s_Observers state) (p_DestinationPlaneID portal) now = Ok e"
            using rec False inb w by (auto split: if_splits)
          show ?thesis
          proof (cases e)
            case None
            then show ?thesis using rec False inb w none e by (intro outbound_supported) (auto split: if_splits)
          next
            case (Some remaining)
            then have "rec = RecommendationLeaveOpen \<or>
                rec = RecommendationStabilize \<and> (\<exists>h. stabilizationMakesSafe (s_Lab state) portal h now cfg) \<or>
                rec = recommendationFallback state portal now cfg"
              using rec False inb w none e by (auto simp: Let_def split: if_splits)
            then show ?thesis using fallback_supported [of state portal now cfg] by (auto simp: supported_def)
          qed
        qed
      qed
    qed
  qed
  show "ActiveTransitObserverIndex (s_Observers state) (p_ID portal) now = Ok None"
    if act: "rec \<notin> {RecommendationLeaveOpen, RecommendationStabilize}"
  proof -
    have False': "\<not> (p_Kind portal = PortalKindExtraction \<and> p_ExtractionSynchronizedAt portal = None)"
      using sync act by auto
    then obtain active where a: "ActiveTransitObserverIndex (s_Observers state) (p_ID portal) now = Ok active"
      using assms st by (auto simp: recommendForPortal_def)
    show ?thesis
    proof (cases active)
      case (Some i)
      then have "rec \<in> {RecommendationLeaveOpen, RecommendationStabilize}"
        using assms st False' a by (auto simp: recommendForPortal_def Let_def split: option.splits if_splits)
      then show ?thesis using act by blast
    qed (use a in simp)
  qed
qed

section \<open>A recommended action is available\<close>

lemma clearance_creatures:
  assumes "creatures_ok cfg portal" and "int64_range (p_CreaturesInitial portal * CreatureTransit cfg)"
    and "p_Status portal = PortalStatusOpen" and "creatureClearanceRemaining portal now cfg = Ok 0"
  shows "creatures_at portal now cfg = 0"
proof (rule ccontr)
  let ?n = "p_CreaturesInitial portal" and ?t = "CreatureTransit cfg"
  let ?el = "max 0 (Sub now (p_OpenedAt portal))"
  assume "creatures_at portal now cfg \<noteq> 0"
  moreover have f: "frozen_now portal now = now" using assms(3) by (simp add: frozen_now_def Portal_IsTerminal_def)
  ultimately have "?el div ?t < ?n" by (simp add: creatures_at_def)
  moreover have t: "0 < ?t" using assms(1) by (simp add: creatures_ok_def)
  ultimately have "(?el div ?t + 1) * ?t \<le> ?n * ?t" by (intro mult_right_mono) auto
  moreover have "e < (e div ?t + 1) * ?t" for e
    using div_mult_mod_eq [of e ?t] pos_mod_bound [OF t, of e] unfolding distrib_right by linarith
  ultimately have less: "?el < ?n * ?t" by (rule order.strict_trans2 [rotated])
  have "Portal_CreaturesInside portal now cfg = Ok (creatures_at portal now cfg)"
    using assms(1) by (rule CreaturesInside_at)
  then have "\<not> After (Add (p_OpenedAt portal) (wrap64 (?n * ?t))) now \<or>
      Sub (Add (p_OpenedAt portal) (?n * ?t)) now = 0"
    using assms(2,4) \<open>creatures_at portal now cfg \<noteq> 0\<close>
    by (auto simp: creatureClearanceRemaining_def Let_def wrap64_id split: if_splits)
  then have "ns (p_OpenedAt portal) + ?n * ?t \<le> ns now"
    using assms(2) by (auto simp: wrap64_id Sub_def clamp64_def split: if_splits)
  then have "clamp64 (?n * ?t) \<le> Sub now (p_OpenedAt portal)" unfolding Sub_def by (intro clamp64_mono) simp
  then show False using less assms(2) by (simp add: clamp64_id)
qed

lemma find_plane_Some:
  "i \<in> set (map pl_ID planes) \<Longrightarrow> \<exists>pl. find (\<lambda>pl. pl_ID pl = i) planes = Some pl \<and> pl_ID pl = i"
  by (induction planes) auto

lemma structure_facts:
  assumes "validateSimulationStructure state now = Ok ()"
  shows "ns (l_EnergyBaseAt (s_Lab state)) \<le> ns now"
    and "portal_by_id (s_Portals state) i = Some p \<Longrightarrow> validStructuralPortal p now \<and>
      p_ID p = i \<and> p_DestinationPlaneID p \<in> set (map pl_ID (s_Planes state))"
  using assms by (auto simp: validateSimulationStructure_def portal_by_id_def Let_def list_all_iff find_Some_iff
      split: if_splits)

lemma safe_not_critical:
  "portalSafeFor portal h now cfg \<Longrightarrow>
   Portal_RiskLevel portal now cfg \<noteq> Some RiskCritical \<and> p_Status portal = PortalStatusOpen"
  by (auto simp: portalSafeFor_def split: if_splits option.splits)

lemma send_available:
  assumes "supported state portal now cfg RecommendationSendObserver"
    and "command_aggregate_ok portal plane (s_Observers state) now" and "transit_config_ok cfg"
    and "creatures_ok cfg portal" and "int64_range (p_CreaturesInitial portal * CreatureTransit cfg)"
    and "\<forall>ob\<in>set (s_Observers state). \<not> at_portal (p_ID portal) ob"
  shows "\<exists>x. SendObserver portal plane (s_Observers state) now True (Some availabilityRandom) cfg () = Ok x"
proof -
  have s: "p_ObserverFlow portal \<noteq> PortalFlowInbound" "AvailableObserverIndex (s_Observers state) \<noteq> None"
    "creatureClearanceRemaining portal now cfg = Ok 0" "portalSafeFor portal (ObserverTransitMax cfg) now cfg"
    using assms(1) by (simp_all add: supported_def)
  note safe = safe_not_critical [OF s(4)]
  have "find fst (send_rejections portal (s_Observers state) now True cfg) = None"
    using s(1,2) safe assms(6) clearance_creatures [OF assms(4,5) _ s(3)]
    by (simp add: send_rejections_def Available_None_iff)
  then show ?thesis
    using SendObserver_cases [OF assms(2,4,3) availability.random_source_axioms, of True "()"] by auto
qed

lemma recall_available:
  assumes "supported state portal now cfg RecommendationRecallObserver"
    and "command_aggregate_ok portal plane (s_Observers state) now" and "transit_config_ok cfg"
    and "creatures_ok cfg portal" and "int64_range (p_CreaturesInitial portal * CreatureTransit cfg)"
    and "\<forall>ob\<in>set (s_Observers state). \<not> at_portal (p_ID portal) ob"
    and "p_Kind portal = PortalKindExtraction \<Longrightarrow> p_ExtractionSynchronizedAt portal \<noteq> None"
  shows "\<exists>x. RecallObserver portal plane (s_Observers state) now True (Some availabilityRandom) cfg () = Ok x"
proof -
  have s: "p_ObserverFlow portal \<noteq> PortalFlowOutbound"
    "creatureClearanceRemaining portal now cfg = Ok 0" "portalSafeFor portal (ObserverTransitMax cfg) now cfg"
    and w: "\<exists>i. LongestWaitingObserverIndex (s_Observers state) (p_DestinationPlaneID portal) = Ok (Some i)"
    using assms(1) by (simp_all add: supported_def)
  note safe = safe_not_critical [OF s(3)]
  have "roster_ok (s_Observers state) now" using assms(2) by (simp add: command_aggregate_ok_def)
  then have "\<not> (\<forall>ob\<in>set (s_Observers state). \<not> waits_in (p_DestinationPlaneID portal) ob)"
    using w LongestWaiting_None_iff [of "s_Observers state" now "p_DestinationPlaneID portal"] by auto
  then have "find fst (recall_rejections portal (s_Observers state) now True cfg) = None"
    using s(1) safe assms(6,7) clearance_creatures [OF assms(4,5) _ s(2)]
    by (auto simp: recall_rejections_def)
  then show ?thesis
    using RecallObserver_cases [OF assms(2,4,3) availability.random_source_axioms, of True "()"] by auto
qed

lemma close_available:
  assumes "closeAffordable (s_Lab state) now cfg" and "p_Status portal = PortalStatusOpen"
    and "command_aggregate_ok portal plane (s_Observers state) now" and "creatures_ok cfg portal"
    and "ActiveTransitObserverIndex (s_Observers state) (p_ID portal) now = Ok None"
  shows "snd (ClosePortalWithLabEnergy (s_Lab state) portal plane (s_Observers state) now True cfg) = Ok ()"
proof -
  obtain rem where rem: "prepareLabEnergySpend (s_Lab state) now (effectiveCloseCost (s_Lab state) now cfg) cfg = Ok rem"
    using assms(1) by (auto simp: closeAffordable_def effectiveCloseCost_def LabState_CanAfford_def Let_def
        split: result.splits)
  have "validateObserverCommandAggregate portal plane (s_Observers state) now = Ok ()"
    using assms(3) by (simp add: command_aggregate_ok_def validate_aggregate)
  moreover obtain shut where "Portal_Close portal now True cfg = Ok shut"
    using assms(2) CreaturesInside_at [OF assms(4), of now] by (auto simp: Portal_Close_def Portal_IsTerminal_def)
  ultimately show ?thesis
    using rem assms(2,5) by (simp add: ClosePortalWithLabEnergy_def ClosePortalWithObservers_def Let_def)
qed

text \<open>
  C40: Whatever \<open>RecommendationForPortal\<close> advises (stabilize, close, send, recall), the
  availability check of that action answers available: the operator is never advised an
  action the command would refuse.  Assumed are valid laboratory numbers, a valid roster,
  transit times and creature counts that fit their types.
\<close>

theorem recommended_action_is_available:
  assumes "RecommendationForPortal state pid now cfg = Ok (Some rec)"
    and "(rec, action) \<in> {(RecommendationStabilize, PortalActionStabilize), (RecommendationClose, PortalActionClose),
      (RecommendationSendObserver, PortalActionSend), (RecommendationRecallObserver, PortalActionRecall)}"
    and "lab_config_ok cfg" and "lab_valid cfg (s_Lab state)" and "transit_config_ok cfg"
    and "roster_ok (s_Observers state) now"
    and "\<forall>p\<in>set (s_Portals state). creatures_ok cfg p \<and> int64_range (p_CreaturesInitial p * CreatureTransit cfg)"
  shows "PortalActionAvailability state pid action now cfg = Ok \<lparr>aa_Available = True, aa_Cause = None\<rparr>"
proof -
  have valid: "validateSimulationStructure state now = Ok ()"
    using assms(1) by (auto simp: RecommendationForPortal_def split: if_splits)
  obtain portal where portal: "portal_by_id (s_Portals state) pid = Some portal"
    and rec: "recommendForPortal state portal now cfg = Ok (Some rec)"
    using assms(1) by (auto simp: RecommendationForPortal_def split: if_splits option.splits)
  have "portal \<in> set (s_Portals state)"
    using portal by (auto simp: portal_by_id_def find_Some_iff)
  then have cr: "creatures_ok cfg portal" "int64_range (p_CreaturesInitial portal * CreatureTransit cfg)"
    using assms(7) by auto
  obtain plane where plane: "find (\<lambda>pl. pl_ID pl = p_DestinationPlaneID portal) (s_Planes state) = Some plane"
    and plID: "pl_ID plane = p_DestinationPlaneID portal"
    using find_plane_Some structure_facts(2) [OF valid portal] by blast
  note sup = recommendation_supported [OF rec]
  have lab: "prepareLabEnergySpend (s_Lab state) now 0 cfg = Ok (LabState_CurrentEnergy (s_Lab state) now cfg)"
    using prepareLabEnergySpend_zero [OF assms(3)] assms(4) structure_facts(1) [OF valid] by simp
  have "\<exists>u. dryRun state portal plane action now cfg = Ok u"
  proof (cases "rec = RecommendationStabilize")
    case True
    then have "\<exists>x. StabilizePortalWithLabEnergy (s_Lab state) portal now cfg = Ok x"
      using sup(2) by (auto simp: supported_def stabilizationMakesSafe_def split: if_splits result.splits)
    then show ?thesis using True assms(2) by (auto simp: dryRun_def)
  next
    case False
    then have idle: "ActiveTransitObserverIndex (s_Observers state) (p_ID portal) now = Ok None"
      using sup(4) assms(2) by auto
    have none: "\<forall>ob\<in>set (s_Observers state). \<not> at_portal (p_ID portal) ob"
      by (rule ActiveTransit_NoneD [OF assms(6) idle])
    then have agg: "command_aggregate_ok portal plane (s_Observers state) now"
      using plID assms(6) by (auto simp: command_aggregate_ok_def)
    show ?thesis
      using False assms(2) sup lab send_available [OF _ agg assms(5) cr none] recall_available [OF _ agg assms(5) cr none]
        close_available [OF _ sup(1) agg cr(1) idle]
      by (auto simp: dryRun_def SendObserverWithLabEnergy_def RecallObserverWithLabEnergy_def supported_def)
  qed
  then show ?thesis using valid portal plane by (auto simp: PortalActionAvailability_def)
qed

text \<open>In the sample state, an idle observer is to be sent through the portal to plane 1.\<close>

abbreviation sample_now :: time where "sample_now \<equiv> Time 46000000000 True"

lemma sample_energy: "Portal_CurrentEnergy sample_portal sample_now = Fin 55"
  using Seconds_whole [of 45]
  by (simp add: Portal_CurrentEnergy_def frozen_now_def Portal_IsTerminal_def sample_portal_def
      Sub_def clamp64_def f_sub_def)

lemma sample_effective: "Portal_EffectiveLifetime sample_portal sample_now = 45 * Second"
  by (simp add: Portal_EffectiveLifetime_def Portal_EnergyLifetime_def sample_energy Portal_ScheduledRemaining_def
      Portal_IsTerminal_def) (simp add: sample_portal_def DurationOfSeconds_def int64_range_def Sub_def clamp64_def)

lemma sample_risk: "Portal_RiskLevel sample_portal sample_now Default = Some RiskLow"
proof -
  have "Portal_RiskScore sample_portal sample_now Default = Fin 0"
    using Seconds_whole [of 45] sample_effective
    by (simp add: Portal_RiskScore_def) (simp add: sample_portal_def Default_def f_sub_def)
  then show ?thesis
    by (simp add: Portal_RiskLevel_def Portal_IsTerminal_def risk_band_Fin) (simp add: sample_portal_def)
qed

lemma sample_safe: "portalSafeFor sample_portal (ObserverTransitMax Default) sample_now Default"
  using sample_effective sample_risk by (simp add: portalSafeFor_def) (simp add: sample_portal_def Default_def)

lemma sample_idle: "ActiveTransitObserverIndex sample_observers i now = Ok None"
  "LongestWaitingObserverIndex sample_observers i = Ok None" "shortestResearchRemaining sample_observers i now = Ok None"
  "AvailableObserverIndex sample_observers \<noteq> None" "\<not> planeHasObserver sample_observers i"
  "\<not> outboundObserverTargetsPlane sample_state i"
proof -
  have avail: "o_Status ob = ObserverAvailable" "o_CurrentPlaneID ob = None" if "ob \<in> set sample_observers" for ob
    using that by (auto simp: sample_observers_facts(3) NewObserver_def)
  have "\<forall>ob\<in>set sample_observers. observer_fields_ok ob now"
    using sample_roster_ok [of now] by (simp add: roster_ok_def)
  from ActiveTransit_eq [OF this, of i] show "ActiveTransitObserverIndex sample_observers i now = Ok None"
    using avail by (auto simp: at_portal_def filter_False)
  show "LongestWaitingObserverIndex sample_observers i = Ok None"
    using LongestWaiting_None_iff [OF sample_roster_ok] avail by (auto simp: waits_in_def)
  have "foldM (\<lambda>selected ob. if o_Status ob \<noteq> ObserverExploring \<or> o_CurrentPlaneID ob \<noteq> Some i then Ok selected
      else g selected ob) None obs = Ok None" if "set obs \<subseteq> set sample_observers" for obs g
    using that avail by (induction obs) auto
  from this [OF subset_refl] show "shortestResearchRemaining sample_observers i now = Ok None"
    unfolding shortestResearchRemaining_def .
  have "NewObserver 1 sample_start \<in> set sample_observers" unfolding sample_observers_facts(3) by (rule image_eqI [of _ _ 0]) simp_all
  then show "AvailableObserverIndex sample_observers \<noteq> None" using avail by (auto simp: Available_None_iff)
  show "\<not> planeHasObserver sample_observers i" "\<not> outboundObserverTargetsPlane sample_state i"
    using avail by (auto simp: planeHasObserver_def outboundObserverTargetsPlane_def list_ex_iff sample_state_def)
qed

lemma sample_recommendation:
  "RecommendationForPortal sample_state 1 sample_now Default = Ok (Some RecommendationSendObserver)"
proof -
  have clear: "creatureClearanceRemaining sample_portal sample_now Default = Ok 0"
    by (simp add: creatureClearanceRemaining_def Portal_CreaturesInside_eq)
      (simp add: Default_def sample_portal_def Portal_CreaturesInside_def frozen_now_def Portal_IsTerminal_def Sub_def
        clamp64_def go_quot_nonneg int64_range_def)
  have mission: "recommendationForImmediateMission sample_state sample_portal sample_now Default RecommendationSendObserver =
      Ok (Some RecommendationSendObserver)"
    using sample_safe by (simp add: recommendationForImmediateMission_def clear)
  have fields: "p_Status sample_portal = PortalStatusOpen" "p_Kind sample_portal = PortalKindNatural"
    "p_ObserverFlow sample_portal = PortalFlowNone" "p_ID sample_portal = 1" "p_DestinationPlaneID sample_portal = 1"
    "s_Observers sample_state = sample_observers" "s_Planes sample_state = sample_planes" "s_Portals sample_state = [sample_portal]"
    "pl_ID (sample_plane 1) = 1" "\<not> pl_Explored (sample_plane 1)"
    by (simp_all add: sample_portal_def sample_state_def sample_plane_def)
  have "recommendOutbound sample_state sample_portal sample_now Default = Ok (Some RecommendationSendObserver)"
    using sample_idle(1-3,5,6) [where i = 1] sample_idle(4) mission
    by (simp add: recommendOutbound_def fields recommendationPlane_def sample_first_plane del: One_nat_def)
  then have "recommendForPortal sample_state sample_portal sample_now Default = Ok (Some RecommendationSendObserver)"
    using sample_idle(1-3,5,6) [where i = 1] sample_idle(4) by (simp add: recommendForPortal_def fields)
  then show ?thesis
    using sample_structure [of sample_now]
    by (simp add: RecommendationForPortal_def fields portal_by_id_def) (simp add: validRecommendationConfig_def Default_def)
qed

theorem recommended_action_is_available_witness:
  "PortalActionAvailability sample_state 1 PortalActionSend sample_now Default =
     Ok \<lparr>aa_Available = True, aa_Cause = None\<rparr>"
  by (rule recommended_action_is_available [OF sample_recommendation])
    (simp_all add: lab_valid_def sample_state_def sample_roster_ok creatures_ok_def sample_portal_def Default_def
      int64_range_def lab_config_ok_def transit_config_ok_def)

end
