(* ===== verification/Transport.thy ===== *)
theory Transport
  imports Actions Codec
begin

text \<open>
  The public view of a laboratory (\<open>internal/transport/dto.go\<close>, \<open>error_descriptor.go\<close>): the
  view models, and the projections of a snapshot, a portal with its history, and the event
  log.  A view is the value that is encoded as JSON; the payload of an event is a JSON tree
  in this development, so that the check that it is valid JSON always succeeds.
\<close>

section \<open>View models\<close>

record AppDTO =
  ad_Mode :: AppMode
  ad_TutorialStep :: int
  ad_TutorialPhase :: TutorialPhase
  ad_TutorialPortalID :: "int option"
  ad_TutorialPlaneID :: "int option"
  ad_TutorialObserverID :: "int option"
  ad_ExpectedAction :: "TutorialExpectedAction option"

record LabDTO =
  ld_CurrentEnergy :: int
  ld_MaximumEnergy :: int
  ld_LeylineOverrideActive :: bool
  ld_LeylineOverrideUntil :: "time option"

record ExplorationDTO =
  xd_Explored :: int
  xd_Total :: int

record ObserverCountsDTO =
  ct_Available :: int
  ct_Outbound :: int
  ct_Exploring :: int
  ct_WaitingReturn :: int
  ct_Returning :: int
  ct_Lost :: int
  ct_InLab :: int
  ct_InWorlds :: int
  ct_InTransit :: int

record ObserverTransitDTO =
  td_ObserverID :: int
  td_PortalID :: int
  td_Direction :: ObserverStatus
  td_StartedAt :: time
  td_CompletesAt :: time
  td_RemainingSeconds :: int

record PortalCountsDTO =
  pd_Active :: int
  pd_Maximum :: int
  pd_Critical :: int
  pd_Closed :: int
  pd_Collapsed :: int

record PlaneDTO =
  pv_ID :: int
  pv_Name :: string
  pv_Aliases :: "string list"
  pv_CatalogTier :: string
  pv_Explored :: bool
  pv_ExploredAt :: "time option"
  pv_ObserversInPlane :: int
  pv_ObserversWaitingReturn :: int

record QuickActionsDTO =
  qa_CanStabilize :: bool
  qa_StabilizeUnavailableReason :: "string option"
  qa_CanClose :: bool
  qa_CloseUnavailableReason :: "string option"
  qa_CanSend :: bool
  qa_SendUnavailableReason :: "string option"
  qa_CanRecall :: bool
  qa_RecallUnavailableReason :: "string option"

record SlotPortalDTO =
  sp_ID :: int
  sp_Name :: string
  sp_DestinationPlaneID :: int
  sp_DestinationPlaneName :: string
  sp_DestinationExplored :: bool
  sp_Energy :: f64
  sp_Stability :: PortalStability
  sp_TimeRemainingSeconds :: int
  sp_CreaturesInside :: int
  sp_Status :: PortalStatus
  sp_QuickActions :: QuickActionsDTO

record SlotDTO =
  sl_SlotIndex :: int
  sl_Portal :: "SlotPortalDTO option"

record StateSnapshot =
  ss_GeneratedAt :: time
  ss_App :: AppDTO
  ss_Lab :: LabDTO
  ss_Exploration :: ExplorationDTO
  ss_Observers :: ObserverCountsDTO
  ss_ObserverTransits :: "ObserverTransitDTO list"
  ss_Portals :: PortalCountsDTO
  ss_NeedsAttentionPortalID :: "int option"
  ss_Slots :: "SlotDTO list"
  ss_Planes :: "PlaneDTO list"

record PortalViewDTO =
  vw_ID :: int
  vw_Name :: string
  vw_SlotIndex :: int
  vw_Kind :: PortalKind
  vw_Status :: PortalStatus
  vw_TerminationReason :: TerminationReason
  vw_Energy :: f64
  vw_Stability :: PortalStability
  vw_TimeRemainingSeconds :: int
  vw_CreaturesInside :: int
  vw_ObserverFlow :: PortalFlow
  vw_OpenedAt :: time
  vw_ClosedAt :: "time option"
  vw_QuickActions :: QuickActionsDTO

record DestinationDTO =
  dn_PlaneID :: int
  dn_Name :: string
  dn_Aliases :: "string list"
  dn_CatalogTier :: string
  dn_Explored :: bool
  dn_ObserversExploring :: int
  dn_ObserversWaitingReturn :: int
  dn_PreviousConnectionCount :: int

record EventDTO =
  ev_ID :: int
  ev_EventType :: EventType
  ev_PortalID :: "int option"
  ev_ObserverID :: "int option"
  ev_PlaneID :: "int option"
  ev_Message :: string
  ev_PayloadJSON :: json
  ev_CreatedAt :: time

record PortalDetails =
  de_ObserverTransit :: "ObserverTransitDTO option"
  de_GeneratedAt :: time
  de_Portal :: PortalViewDTO
  de_Destination :: DestinationDTO
  de_RiskLevel :: "RiskLevel option"
  de_Recommendation :: "Recommendation option"
  de_History :: "EventDTO list"

section \<open>Error descriptors\<close>

record ErrorDescriptor =
  ed_Code :: string
  ed_Message :: string
  ed_Confirmable :: bool

definition known_errors :: "(error \<times> string \<times> bool) list" where
  "known_errors =
    [(ErrPortalNotOpen, ''PORTAL_NOT_OPEN'', False),
     (ErrPortalAlreadyStable, ''PORTAL_ALREADY_STABLE'', False),
     (ErrPortalOverchargeRisk, ''PORTAL_OVERCHARGE_RISK'', False),
     (ErrConfirmationRequired, ''CONFIRMATION_REQUIRED'', True),
     (ErrNoFreePortalSlot, ''NO_FREE_PORTAL_SLOT'', False),
     (ErrObserverNotAvailable, ''OBSERVER_NOT_AVAILABLE'', False),
     (ErrObserverNotWaitingReturn, ''OBSERVER_NOT_WAITING_RETURN'', False),
     (ErrObserverLost, ''OBSERVER_LOST'', False),
     (ErrPortalCriticalRisk, ''PORTAL_CRITICAL_RISK'', False),
     (ErrPortalDirectionConflict, ''PORTAL_DIRECTION_CONFLICT'', False),
     (ErrPortalBusy, ''PORTAL_BUSY'', False),
     (ErrPortalCreaturesPresent, ''PORTAL_CREATURES_PRESENT'', False),
     (ErrNoAvailableObserver, ''NO_AVAILABLE_OBSERVER'', False),
     (ErrNoWaitingObserver, ''NO_WAITING_OBSERVER'', False),
     (ErrInsufficientLabEnergy, ''INSUFFICIENT_LAB_ENERGY'', False),
     (ErrExtractionSynchronizing, ''EXTRACTION_SYNCHRONIZING'', False)]"

definition DescribeDomainError :: "error option \<Rightarrow> ErrorDescriptor option" where
  "DescribeDomainError err =
     (case err of
        None \<Rightarrow> None
      | Some e \<Rightarrow>
          map_option (\<lambda>(known, code, confirmable).
              \<lparr>ed_Code = code, ed_Message = Error_text known, ed_Confirmable = confirmable\<rparr>)
            (find (\<lambda>(known, _, _). errors_Is e known) known_errors))"

section \<open>Helpers\<close>

definition seconds :: "int \<Rightarrow> int" where
  "seconds duration = (if duration \<le> 0 then 0 else duration sdiv Second)"

definition cloneTime :: "time option \<Rightarrow> time option" where
  "cloneTime = map_option UTC"

definition countObserver :: "ObserverCountsDTO \<Rightarrow> ObserverStatus \<Rightarrow> ObserverCountsDTO" where
  "countObserver counts status =
     (case status of
        ObserverAvailable \<Rightarrow> counts\<lparr>ct_Available := ct_Available counts + 1, ct_InLab := ct_InLab counts + 1\<rparr>
      | ObserverOutbound \<Rightarrow> counts\<lparr>ct_Outbound := ct_Outbound counts + 1, ct_InTransit := ct_InTransit counts + 1\<rparr>
      | ObserverExploring \<Rightarrow> counts\<lparr>ct_Exploring := ct_Exploring counts + 1, ct_InWorlds := ct_InWorlds counts + 1\<rparr>
      | ObserverWaitingReturn \<Rightarrow>
          counts\<lparr>ct_WaitingReturn := ct_WaitingReturn counts + 1, ct_InWorlds := ct_InWorlds counts + 1\<rparr>
      | ObserverReturning \<Rightarrow> counts\<lparr>ct_Returning := ct_Returning counts + 1, ct_InTransit := ct_InTransit counts + 1\<rparr>
      | ObserverLost \<Rightarrow> counts\<lparr>ct_Lost := ct_Lost counts + 1\<rparr>
      | ObserverStatusOther _ \<Rightarrow> counts)"

definition buildPlane :: "Plane \<Rightarrow> PlaneDTO" where
  "buildPlane pl = \<lparr>pv_ID = pl_ID pl, pv_Name = pl_Name pl, pv_Aliases = pl_Aliases pl,
     pv_CatalogTier = pl_CatalogTier pl, pv_Explored = pl_Explored pl, pv_ExploredAt = cloneTime (pl_ExploredAt pl),
     pv_ObserversInPlane = 0, pv_ObserversWaitingReturn = 0\<rparr>"

section \<open>Quick actions\<close>

text \<open>One pass of the loop over the four targets: what its \<open>set\<close> is called with.\<close>

definition quickAction ::
    "SimulationState \<Rightarrow> Portal \<Rightarrow> time \<Rightarrow> Config \<Rightarrow> PortalAction \<Rightarrow> (bool \<times> string option) res" where
  "quickAction state portal now cfg action =
     rbind (PortalActionAvailability state (p_ID portal) action now cfg) (\<lambda>availability.
       if aa_Available availability then Ok (True, None)
       else (case DescribeDomainError (aa_Cause availability) of
               None \<Rightarrow> Fail ErrSimulationInvariant
             | Some descriptor \<Rightarrow>
                 if ed_Confirmable descriptor then Fail ErrSimulationInvariant
                 else Ok (False, Some (ed_Code descriptor))))"

definition quickActions :: "SimulationState \<Rightarrow> Portal \<Rightarrow> time \<Rightarrow> Config \<Rightarrow> QuickActionsDTO res" where
  "quickActions state portal now cfg =
     rbind (quickAction state portal now cfg PortalActionStabilize) (\<lambda>stabilize.
     rbind (quickAction state portal now cfg PortalActionClose) (\<lambda>close.
     rbind (quickAction state portal now cfg PortalActionSend) (\<lambda>send.
     rbind (quickAction state portal now cfg PortalActionRecall) (\<lambda>recall.
     Ok \<lparr>qa_CanStabilize = fst stabilize, qa_StabilizeUnavailableReason = snd stabilize,
         qa_CanClose = fst close, qa_CloseUnavailableReason = snd close,
         qa_CanSend = fst send, qa_SendUnavailableReason = snd send,
         qa_CanRecall = fst recall, qa_RecallUnavailableReason = snd recall\<rparr>))))"

definition buildSlotPortal :: "SimulationState \<Rightarrow> Portal \<Rightarrow> Plane \<Rightarrow> time \<Rightarrow> Config \<Rightarrow> SlotPortalDTO res" where
  "buildSlotPortal state portal plane now cfg =
     rbind (quickActions state portal now cfg) (\<lambda>actions.
     rbind (Portal_CreaturesInside portal now cfg) (\<lambda>inside.
     Ok \<lparr>sp_ID = p_ID portal, sp_Name = p_Name portal, sp_DestinationPlaneID = pl_ID plane,
         sp_DestinationPlaneName = pl_Name plane, sp_DestinationExplored = pl_Explored plane,
         sp_Energy = Portal_CurrentEnergy portal now, sp_Stability = p_Stability portal,
         sp_TimeRemainingSeconds = seconds (Portal_ScheduledRemaining portal now),
         sp_CreaturesInside = inside, sp_Status = p_Status portal, sp_QuickActions = actions\<rparr>))"

section \<open>Observers in transit\<close>

definition transitPortals :: "Portal list \<Rightarrow> (int \<rightharpoonup> Portal) res" where
  "transitPortals portals =
     foldM (\<lambda>m p. if m (p_ID p) \<noteq> None \<or> p_ID p \<le> 0 then Fail ErrSimulationInvariant
                  else Ok (m(p_ID p \<mapsto> p))) Map.empty portals"

text \<open>What the loop keeps: the observers seen, the busy portals, the transits found.\<close>

definition transitAt ::
    "(int \<rightharpoonup> Portal) \<Rightarrow> time \<Rightarrow> int set \<times> int set \<times> ObserverTransitDTO list \<Rightarrow> Observer \<Rightarrow>
     (int set \<times> int set \<times> ObserverTransitDTO list) res" where
  "transitAt portals now = (\<lambda>(seen, busy, result) ob.
     if o_ID ob \<le> 0 \<or> o_ID ob \<in> seen then Fail ErrSimulationInvariant
     else let seen = insert (o_ID ob) seen in
       if o_Status ob \<noteq> ObserverOutbound \<and> o_Status ob \<noteq> ObserverReturning then Ok (seen, busy, result)
       else (case (o_ActivePortalID ob, o_PhaseStartedAt ob, o_PhaseEndsAt ob) of
               (Some portalID, Some startedAt, Some endsAt) \<Rightarrow>
                 if \<not> Before startedAt endsAt \<or> After startedAt now then Fail ErrSimulationInvariant
                 else (case portals portalID of
                         None \<Rightarrow> Fail ErrSimulationInvariant
                       | Some portal \<Rightarrow>
                           if p_Status portal \<noteq> PortalStatusOpen \<or> p_ID portal \<in> busy
                           then Fail ErrSimulationInvariant
                           else if (if o_Status ob = ObserverOutbound
                                    then o_CurrentPlaneID ob \<noteq> None \<or> p_ObserverFlow portal \<noteq> PortalFlowOutbound
                                    else o_CurrentPlaneID ob \<noteq> Some (p_DestinationPlaneID portal) \<or>
                                         p_ObserverFlow portal \<noteq> PortalFlowInbound)
                           then Fail ErrSimulationInvariant
                           else Ok (seen, insert (p_ID portal) busy,
                             result @ [\<lparr>td_ObserverID = o_ID ob, td_PortalID = p_ID portal,
                               td_Direction = o_Status ob, td_StartedAt = UTC startedAt, td_CompletesAt = UTC endsAt,
                               td_RemainingSeconds = seconds (Sub endsAt now)\<rparr>]))
             | _ \<Rightarrow> Fail ErrSimulationInvariant))"

text \<open>The IDs are distinct, so the order of an unstable sort is that of the stable one.\<close>

definition BuildObserverTransits :: "SimulationState \<Rightarrow> time \<Rightarrow> ObserverTransitDTO list res" where
  "BuildObserverTransits state now =
     rbind (transitPortals (s_Portals state)) (\<lambda>portals.
     rbind (foldM (transitAt portals now) ({}, {}, []) (s_Observers state)) (\<lambda>(_, _, result).
     Ok (SliceStable (\<lambda>a b. td_ObserverID a < td_ObserverID b) result)))"

section \<open>The state of the laboratory\<close>

definition planeViews :: "Plane list \<Rightarrow> (ExplorationDTO \<times> PlaneDTO list) res" where
  "planeViews planes =
     foldM (\<lambda>(exploration, views) pl.
         if pl_ID pl \<le> 0 then Fail ErrSimulationInvariant
         else Ok (if pl_Explored pl then exploration\<lparr>xd_Explored := xd_Explored exploration + 1\<rparr> else exploration,
                  views @ [buildPlane pl]))
       (\<lparr>xd_Explored = 0, xd_Total = int (length planes)\<rparr>, []) planes"

definition observerView ::
    "(int \<rightharpoonup> nat) \<Rightarrow> ObserverCountsDTO \<times> PlaneDTO list \<Rightarrow> Observer \<Rightarrow> (ObserverCountsDTO \<times> PlaneDTO list) res" where
  "observerView planeIndexes = (\<lambda>(counts, views) ob.
     let counts = countObserver counts (o_Status ob) in
     case o_CurrentPlaneID ob of
       None \<Rightarrow> Ok (counts, views)
     | Some planeID \<Rightarrow>
         (case planeIndexes planeID of
            None \<Rightarrow> Fail ErrSimulationInvariant
          | Some i \<Rightarrow>
              if o_Status ob = ObserverExploring \<or> o_Status ob = ObserverWaitingReturn \<or> o_Status ob = ObserverReturning
              then let v = views ! i; v = v\<lparr>pv_ObserversInPlane := pv_ObserversInPlane v + 1\<rparr>;
                       v = (if o_Status ob = ObserverWaitingReturn
                            then v\<lparr>pv_ObserversWaitingReturn := pv_ObserversWaitingReturn v + 1\<rparr> else v)
                   in Ok (counts, views[i := v])
              else Ok (counts, views)))"

definition portalView ::
    "SimulationState \<Rightarrow> (int \<rightharpoonup> nat) \<Rightarrow> time \<Rightarrow> Config \<Rightarrow> PortalCountsDTO \<times> SlotDTO list \<Rightarrow> Portal \<Rightarrow>
     (PortalCountsDTO \<times> SlotDTO list) res" where
  "portalView state planeIndexes now cfg = (\<lambda>(counts, slots) portal.
     case p_Status portal of
       PortalStatusOpen \<Rightarrow>
         (let counts = counts\<lparr>pd_Active := pd_Active counts + 1\<rparr>;
              counts = (if Portal_RiskLevel portal now cfg = Some RiskCritical
                        then counts\<lparr>pd_Critical := pd_Critical counts + 1\<rparr> else counts);
              k = nat (p_SlotIndex portal - 1)
          in if p_SlotIndex portal < 1 \<or> int (length slots) < p_SlotIndex portal \<or> sl_Portal (slots ! k) \<noteq> None
             then Fail ErrSimulationInvariant
             else (case planeIndexes (p_DestinationPlaneID portal) of
                     None \<Rightarrow> Fail ErrSimulationInvariant
                   | Some i \<Rightarrow>
                       rbind (buildSlotPortal state portal (s_Planes state ! i) now cfg) (\<lambda>view.
                         Ok (counts, slots[k := (slots ! k)\<lparr>sl_Portal := Some view\<rparr>]))))
     | PortalStatusClosed \<Rightarrow> Ok (counts\<lparr>pd_Closed := pd_Closed counts + 1\<rparr>, slots)
     | PortalStatusCollapsed \<Rightarrow> Ok (counts\<lparr>pd_Collapsed := pd_Collapsed counts + 1\<rparr>, slots)
     | PortalStatusOther _ \<Rightarrow> Fail ErrSimulationInvariant)"

definition emptySlots :: "int \<Rightarrow> SlotDTO list res" where
  "emptySlots n =
     (if n < 0 then Panic else Ok (map (\<lambda>i. \<lparr>sl_SlotIndex = int i + 1, sl_Portal = None\<rparr>) [0..<nat n]))"

definition appView :: "AppState \<Rightarrow> AppDTO res" where
  "appView app =
     rbind (if a_Mode app = ModeTutorial then map_result Some (ExpectedTutorialAction app) else Ok None) (\<lambda>expected.
     Ok \<lparr>ad_Mode = a_Mode app, ad_TutorialStep = a_TutorialStep app, ad_TutorialPhase = a_TutorialPhase app,
         ad_TutorialPortalID = a_TutorialPortalID app, ad_TutorialPlaneID = a_TutorialPlaneID app,
         ad_TutorialObserverID = a_TutorialObserverID app, ad_ExpectedAction = expected\<rparr>)"

definition labView :: "LabState \<Rightarrow> time \<Rightarrow> Config \<Rightarrow> LabDTO" where
  "labView lab now cfg =
     \<lparr>ld_CurrentEnergy = LabState_CurrentEnergy lab now cfg, ld_MaximumEnergy = LabEnergyMax cfg,
      ld_LeylineOverrideActive = LeylineOverrideActive lab now cfg,
      ld_LeylineOverrideUntil = cloneTime (l_LeylineOverrideUntil lab)\<rparr>"

definition noObservers :: ObserverCountsDTO where
  "noObservers = \<lparr>ct_Available = 0, ct_Outbound = 0, ct_Exploring = 0, ct_WaitingReturn = 0, ct_Returning = 0,
     ct_Lost = 0, ct_InLab = 0, ct_InWorlds = 0, ct_InTransit = 0\<rparr>"

definition noPortals :: "int \<Rightarrow> PortalCountsDTO" where
  "noPortals maximum = \<lparr>pd_Active = 0, pd_Maximum = maximum, pd_Critical = 0, pd_Closed = 0, pd_Collapsed = 0\<rparr>"

definition BuildStateSnapshot :: "Snapshot \<Rightarrow> time \<Rightarrow> Config \<Rightarrow> StateSnapshot res" where
  "BuildStateSnapshot snapshot instant cfg =
     (let now = UTC instant; sim = sn_Simulation snapshot; planeIndexes = indexByID pl_ID (s_Planes sim) in
      rbind (BuildObserverTransits sim now) (\<lambda>transits.
      rbind (emptySlots (MaxActivePortals cfg)) (\<lambda>slots.
      rbind (appView (sn_App snapshot)) (\<lambda>app.
      rbind (planeViews (s_Planes sim)) (\<lambda>(exploration, views).
      rbind (foldM (observerView planeIndexes) (noObservers, views) (s_Observers sim)) (\<lambda>(counts, views).
      rbind (foldM (portalView sim planeIndexes now cfg) (noPortals (MaxActivePortals cfg), slots) (s_Portals sim))
        (\<lambda>(portals, slots).
      rbind (NeedsAttentionPortalIndex (s_Portals sim) now cfg) (\<lambda>attention.
      Ok \<lparr>ss_GeneratedAt = now, ss_App = app, ss_Lab = labView (s_Lab sim) now cfg,
          ss_Exploration = exploration, ss_Observers = counts, ss_ObserverTransits = transits, ss_Portals = portals,
          ss_NeedsAttentionPortalID = map_option (\<lambda>i. p_ID (s_Portals sim ! i)) attention,
          ss_Slots = slots, ss_Planes = views\<rparr>))))))))"

section \<open>The event log\<close>

definition eventBefore :: "Event \<Rightarrow> Event \<Rightarrow> bool" where
  "eventBefore a b \<longleftrightarrow>
     (if Equal (e_CreatedAt a) (e_CreatedAt b) then e_ID a < e_ID b else Before (e_CreatedAt a) (e_CreatedAt b))"

definition eventView :: "Event \<Rightarrow> EventDTO" where
  "eventView e = \<lparr>ev_ID = e_ID e, ev_EventType = e_EventType e, ev_PortalID = e_PortalID e,
     ev_ObserverID = e_ObserverID e, ev_PlaneID = e_PlaneID e, ev_Message = e_Message e,
     ev_PayloadJSON = e_PayloadJSON e, ev_CreatedAt = e_CreatedAt e\<rparr>"

definition BuildEvents :: "Event list \<Rightarrow> EventDTO list" where
  "BuildEvents events = map eventView (SliceStable eventBefore events)"

section \<open>One portal\<close>

definition destinationView :: "SimulationState \<Rightarrow> Portal \<Rightarrow> Plane \<Rightarrow> DestinationDTO" where
  "destinationView state portal plane =
     (let there = filter (\<lambda>ob. o_CurrentPlaneID ob = Some (p_DestinationPlaneID portal)) (s_Observers state) in
      \<lparr>dn_PlaneID = p_DestinationPlaneID portal, dn_Name = pl_Name plane, dn_Aliases = pl_Aliases plane,
       dn_CatalogTier = pl_CatalogTier plane, dn_Explored = pl_Explored plane,
       dn_ObserversExploring = int (length (filter (\<lambda>ob. o_Status ob = ObserverExploring) there)),
       dn_ObserversWaitingReturn = int (length (filter (\<lambda>ob. o_Status ob = ObserverWaitingReturn) there)),
       dn_PreviousConnectionCount = int (length (filter (\<lambda>p.
         p_DestinationPlaneID p = p_DestinationPlaneID portal \<and> p_ID p \<noteq> p_ID portal) (s_Portals state)))\<rparr>)"

definition BuildPortalDetails ::
    "Snapshot \<Rightarrow> int \<Rightarrow> Event list \<Rightarrow> time \<Rightarrow> Config \<Rightarrow> PortalDetails res" where
  "BuildPortalDetails snapshot portalID history instant cfg =
     (let now = UTC instant; sim = sn_Simulation snapshot in
      rbind (BuildObserverTransits sim now) (\<lambda>transits.
      case find (\<lambda>p. p_ID p = portalID) (s_Portals sim) of
        None \<Rightarrow> Fail (ErrorfWrap (''portal '' @ format_d portalID) ErrSimulationInvariant)
      | Some portal \<Rightarrow>
          (case find (\<lambda>pl. pl_ID pl = p_DestinationPlaneID portal) (s_Planes sim) of
             None \<Rightarrow> Fail ErrSimulationInvariant
           | Some plane \<Rightarrow>
               rbind (quickActions sim portal now cfg) (\<lambda>actions.
               rbind (Portal_CreaturesInside portal now cfg) (\<lambda>inside.
               rbind (RecommendationForPortal sim (p_ID portal) now cfg) (\<lambda>recommendation.
               Ok \<lparr>de_ObserverTransit = find (\<lambda>t. td_PortalID t = portalID) transits, de_GeneratedAt = now,
                   de_Portal = \<lparr>vw_ID = p_ID portal, vw_Name = p_Name portal, vw_SlotIndex = p_SlotIndex portal,
                     vw_Kind = p_Kind portal, vw_Status = p_Status portal,
                     vw_TerminationReason = p_TerminationReason portal, vw_Energy = Portal_CurrentEnergy portal now,
                     vw_Stability = p_Stability portal,
                     vw_TimeRemainingSeconds = seconds (Portal_ScheduledRemaining portal now),
                     vw_CreaturesInside = inside, vw_ObserverFlow = p_ObserverFlow portal,
                     vw_OpenedAt = p_OpenedAt portal, vw_ClosedAt = cloneTime (p_ClosedAt portal),
                     vw_QuickActions = actions\<rparr>,
                   de_Destination = destinationView sim portal plane,
                   de_RiskLevel = Portal_RiskLevel portal now cfg, de_Recommendation = recommendation,
                   de_History = BuildEvents history\<rparr>))))))"

end
