(* ===== verification/Sessions.thy ===== *)
theory Sessions
  imports Bootstrapped "HOL-Library.List_Lexorder" "HOL-Library.Char_ord"
begin

text \<open>
  Sessions: the table of token hashes (\<open>internal/persistence/session_store.go\<close>) and the service
  that resolves a cookie to a laboratory (\<open>internal/session/service.go\<close>).  The hash is a
  parameter, as is the reader the random bytes come from; the two text encodings are the
  functions of the standard library, on the codes of the characters.
\<close>

section \<open>Text encodings\<close>

text \<open>\<open>base64.RawURLEncoding\<close>: sextets, without padding.\<close>

definition b64_alphabet :: string where
  "b64_alphabet = ''ABCDEFGHIJKLMNOPQRSTUVWXYZabcdefghijklmnopqrstuvwxyz0123456789-_''"

fun sextets :: "nat list \<Rightarrow> nat list" where
  "sextets (a # b # c # rest) =
     [a div 4, (a mod 4) * 16 + b div 16, (b mod 16) * 4 + c div 64, c mod 64] @ sextets rest"
| "sextets [a, b] = [a div 4, (a mod 4) * 16 + b div 16, (b mod 16) * 4]"
| "sextets [a] = [a div 4, (a mod 4) * 16]"
| "sextets [] = []"

definition RawURLEncode :: "string \<Rightarrow> string" where
  "RawURLEncode bytes = map (\<lambda>i. b64_alphabet ! i) (sextets (map of_char bytes))"

text \<open>\<open>Strict\<close>: the bits after the last byte must be zero.\<close>

fun octets :: "nat list \<Rightarrow> nat list option" where
  "octets (p # q # r # s # rest) =
     map_option (\<lambda>bytes. [p * 4 + q div 16, (q mod 16) * 16 + r div 4, (r mod 4) * 64 + s] @ bytes) (octets rest)"
| "octets [p, q, r] = (if r mod 4 = 0 then Some [p * 4 + q div 16, (q mod 16) * 16 + r div 4] else None)"
| "octets [p, q] = (if q mod 16 = 0 then Some [p * 4 + q div 16] else None)"
| "octets [p] = None"
| "octets [] = Some []"

definition b64_index :: "char \<Rightarrow> nat option" where
  "b64_index c = find (\<lambda>i. b64_alphabet ! i = c) [0..<64]"

text \<open>Line ends are skipped, also by the strict decoder.\<close>

definition RawURLDecodeStrict :: "string \<Rightarrow> string option" where
  "RawURLDecodeStrict text =
     (let codes = map b64_index (filter (\<lambda>c. c \<noteq> CHR 0x0A \<and> c \<noteq> CHR 0x0D) text) in
      if None \<in> set codes then None
      else map_option (map char_of) (octets (map the codes)))"

definition EncodedLen :: "int \<Rightarrow> int" where
  "EncodedLen n = (n * 8 + 5) div 6"

definition hex_digit :: "nat \<Rightarrow> char" where
  "hex_digit d = ''0123456789abcdef'' ! d"

definition HexEncode :: "string \<Rightarrow> string" where
  "HexEncode bytes = concat (map (\<lambda>c. [hex_digit (of_char c div 16), hex_digit (of_char c mod 16)]) bytes)"

section \<open>The table of sessions\<close>

definition insertSession :: "Driver \<Rightarrow> LabID \<Rightarrow> Database \<Rightarrow> string \<Rightarrow> time \<Rightarrow> Config \<Rightarrow> Database res" where
  "insertSession dr lab db hash now cfg =
     wrapError ''insert session''
       (statement dr ''sessions'' 0
          (\<not> has_key (db_sessions db) hash \<and> length hash = 32 \<and> has_key (db_labs db) lab \<and>
           list_all (\<lambda>(_, other, _, _). other \<noteq> lab) (db_sessions db))
          (db\<lparr>db_sessions := db_sessions db @ [(hash, lab, UnixNano (Add now (SessionTTL cfg)), UnixNano now)]\<rparr>))"

definition CreateSession ::
    "planeSeed list \<Rightarrow> Driver \<Rightarrow> Database \<Rightarrow> LabID \<Rightarrow> string \<Rightarrow> time \<Rightarrow> Config \<Rightarrow> Database \<times> unit res" where
  "CreateSession seeds dr db lab hash now cfg =
     (if \<not> LabID_valid lab then (db, Fail (Errorf ''invalid laboratory ID''))
      else if IsZero now \<or> \<not> utc now \<or> SessionTTL cfg \<le> 0 then (db, Fail (Errorf ''create session: invalid input''))
      else inTransaction dr (Some ''begin session creation'') (\<lambda>_. None) db (\<lambda>tx.
        rbind (bootstrapTx seeds dr lab tx now cfg) (\<lambda>tx.
        rbind (insertSession dr lab tx hash now cfg) (\<lambda>tx. Ok (tx, ())))))"

text \<open>The row of the join of \<open>sessions\<close> with \<open>labs\<close> that neither table has expired.\<close>

definition liveSession :: "Database \<Rightarrow> string \<Rightarrow> time \<Rightarrow> (LabID \<times> int \<times> int) option" where
  "liveSession db hash now =
     (case map_of (db_sessions db) hash of
        None \<Rightarrow> None
      | Some (lab, expiry, seen) \<Rightarrow>
          (case map_of (db_labs db) lab of
             None \<Rightarrow> None
           | Some (_, labExpiry, _) \<Rightarrow>
               if UnixNano now < expiry \<and> UnixNano now < labExpiry then Some (lab, expiry, seen) else None))"

definition refreshSession :: "Driver \<Rightarrow> Database \<Rightarrow> string \<Rightarrow> LabID \<Rightarrow> time \<Rightarrow> time \<Rightarrow> Database res" where
  "refreshSession dr db hash lab expires now =
     rbind (statement dr ''update sessions'' 0 True
       (db\<lparr>db_sessions := map (\<lambda>(h, l, expiry, seen). if h = hash \<and> l = lab then (h, l, UnixNano expires, UnixNano now)
                                                    else (h, l, expiry, seen)) (db_sessions db)\<rparr>)) (\<lambda>db.
     statement dr ''update labs'' 0 True
       (db\<lparr>db_labs := map (\<lambda>(l, created, expiry, active). if l = lab then (l, created, UnixNano expires, UnixNano now)
                                                       else (l, created, expiry, active)) (db_labs db)\<rparr>))"

text \<open>\<open>None\<close> is the empty ID.  Without a row the transaction ends in its deferred rollback.\<close>

definition ResolveSession ::
    "Driver \<Rightarrow> Database \<Rightarrow> string \<Rightarrow> time \<Rightarrow> Config \<Rightarrow> Database \<times> (LabID \<times> time \<times> bool) option res" where
  "ResolveSession dr db hash now cfg =
     (if IsZero now \<or> SessionTTL cfg \<le> 0 \<or> SessionRefreshInterval cfg \<le> 0
      then (db, Fail (Errorf ''resolve session: invalid input''))
      else case statement dr ''begin'' 0 True db of
             Fail e \<Rightarrow> (db, Fail e)
           | Panic \<Rightarrow> (db, Panic)
           | Ok tx \<Rightarrow>
               (case statement dr ''select sessions'' 0 True (liveSession tx hash now) of
                  Fail e \<Rightarrow> (db, if errors_Is e (dr_no_rows dr) then Ok None else Fail e)
                | Panic \<Rightarrow> (db, Panic)
                | Ok None \<Rightarrow> (db, Ok None)
                | Ok (Some (lab, expiry, seen)) \<Rightarrow>
                    let refreshed = (SessionRefreshInterval cfg \<le> Sub now (decodeTime seen));
                        expires = (if refreshed then Add now (SessionTTL cfg) else decodeTime expiry) in
                    (case rbind (if refreshed then refreshSession dr tx hash lab expires now else Ok tx)
                            (statement dr ''commit'' 0 True) of
                       Fail e \<Rightarrow> (db, Fail e)
                     | Panic \<Rightarrow> (db, Panic)
                     | Ok tx' \<Rightarrow> (tx', Ok (Some (lab, expires, refreshed))))))"

definition ExpiredLabs :: "Driver \<Rightarrow> Database \<Rightarrow> time \<Rightarrow> LabID list res" where
  "ExpiredLabs dr db now =
     rbind (statement dr ''select labs'' 0 True
       (sort (map fst (filter (\<lambda>(_, _, expiry, _). expiry \<le> UnixNano now) (db_labs db))))) (\<lambda>rows.
     rbind (foldM (\<lambda>ids i. statement dr ''scan labs'' (int i) True (ids @ [rows ! i])) [] [0..<length rows]) (\<lambda>ids.
     statement dr ''iterate labs'' 0 True ids))"

text \<open>The cascade of the foreign keys.\<close>

definition deleteLab :: "LabID \<Rightarrow> Database \<Rightarrow> Database" where
  "deleteLab lab db =
     \<lparr>db_labs = filter (\<lambda>(l, _). l \<noteq> lab) (db_labs db), db_planes = delete_lab lab (db_planes db),
      db_portals = delete_lab lab (db_portals db), db_observers = delete_lab lab (db_observers db),
      db_events = delete_lab lab (db_events db), db_lab_state = filter (\<lambda>(l, _). l \<noteq> lab) (db_lab_state db),
      db_app_state = filter (\<lambda>(l, _). l \<noteq> lab) (db_app_state db),
      db_sessions = filter (\<lambda>(_, l, _, _). l \<noteq> lab) (db_sessions db)\<rparr>"

definition DeleteExpiredLab :: "Driver \<Rightarrow> Database \<Rightarrow> LabID \<Rightarrow> time \<Rightarrow> Database \<times> bool res" where
  "DeleteExpiredLab dr db lab now =
     (if \<not> LabID_valid lab then (db, Fail (Errorf ''invalid laboratory ID''))
      else let expired = list_ex (\<lambda>(l, _, expiry, _). l = lab \<and> expiry \<le> UnixNano now) (db_labs db) in
        (case statement dr ''delete labs'' 0 True (if expired then deleteLab lab db else db) of
           Fail e \<Rightarrow> (db, Fail e)
         | Panic \<Rightarrow> (db, Panic)
         | Ok db' \<Rightarrow> (db', statement dr ''rows affected'' 0 True expired)))"

section \<open>The service\<close>

record Resolution =
  rs_LabID :: LabID
  rs_ExpiresAt :: time
  rs_Token :: string
  rs_Reissue :: bool

text \<open>\<open>Read\<close> of a buffer of the given length: the bytes read, an error, and the reader after it.\<close>

type_synonym 'r reader = "nat \<Rightarrow> 'r \<Rightarrow> (string \<times> error option) \<times> 'r"

definition NewService :: "Config \<Rightarrow> unit res" where
  "NewService cfg =
     (if SessionTTL cfg \<le> 0 \<or> SessionRefreshInterval cfg \<le> 0 \<or> SessionTTL cfg \<le> SessionRefreshInterval cfg \<or>
         SessionTokenBytes cfg \<noteq> 32 \<or> LabIDBytes cfg \<noteq> 16
      then Fail (Errorf ''invalid session configuration'') else Ok ())"

text \<open>Whether a cookie has the form of a token.\<close>

definition tokenShaped :: "Config \<Rightarrow> string \<Rightarrow> bool" where
  "tokenShaped cfg token \<longleftrightarrow> int (length token) = EncodedLen (SessionTokenBytes cfg) \<and>
     (case RawURLDecodeStrict token of Some decoded \<Rightarrow> int (length decoded) = SessionTokenBytes cfg | None \<Rightarrow> False)"

text \<open>The two reads; the second happens only when the first filled its buffer.\<close>

definition readEntropy :: "'r reader \<Rightarrow> Config \<Rightarrow> 'r \<Rightarrow> (string \<times> string) res \<times> 'r" where
  "readEntropy Read cfg r =
     (let failed = Fail (Errorf ''generate laboratory session entropy failed''); ((tokenBytes, err), r) = Read (nat (SessionTokenBytes cfg)) r in
      if err \<noteq> None \<or> int (length tokenBytes) \<noteq> SessionTokenBytes cfg then (failed, r)
      else let ((idBytes, err), r) = Read (nat (LabIDBytes cfg)) r in
        if err \<noteq> None \<or> int (length idBytes) \<noteq> LabIDBytes cfg then (failed, r)
        else (Ok (tokenBytes, idBytes), r))"

definition createFresh ::
    "(string \<Rightarrow> string) \<Rightarrow> 'r reader \<Rightarrow> planeSeed list \<Rightarrow> Driver \<Rightarrow> Config \<Rightarrow> time \<Rightarrow> Database \<Rightarrow> 'r \<Rightarrow>
     (Database \<times> 'r) \<times> Resolution res" where
  "createFresh Sum256 Read seeds dr cfg now db r =
     (case readEntropy Read cfg r of
        (Fail e, r) \<Rightarrow> ((db, r), Fail e)
      | (Panic, r) \<Rightarrow> ((db, r), Panic)
      | (Ok (tokenBytes, idBytes), r) \<Rightarrow>
          let raw = RawURLEncode tokenBytes; lab = HexEncode idBytes in
          (case CreateSession seeds dr db lab (Sum256 raw) now cfg of
             (db, Fail _) \<Rightarrow> ((db, r), Fail (Errorf ''create laboratory session failed''))
           | (db, Panic) \<Rightarrow> ((db, r), Panic)
           | (db, Ok _) \<Rightarrow> ((db, r), Ok \<lparr>rs_LabID = lab, rs_ExpiresAt = Add now (SessionTTL cfg), rs_Token = raw,
                                    rs_Reissue = True\<rparr>)))"

definition Service_Resolve ::
    "(string \<Rightarrow> string) \<Rightarrow> 'r reader \<Rightarrow> planeSeed list \<Rightarrow> Driver \<Rightarrow> Config \<Rightarrow> time \<Rightarrow> Database \<Rightarrow> 'r \<Rightarrow> string \<Rightarrow>
     (Database \<times> 'r) \<times> Resolution res" where
  "Service_Resolve Sum256 Read seeds dr cfg instant db r token =
     (let now = UTC instant in
      if tokenShaped cfg token
      then (case ResolveSession dr db (Sum256 token) now cfg of
              (db, Fail _) \<Rightarrow> ((db, r), Fail (Errorf ''resolve laboratory session failed''))
            | (db, Panic) \<Rightarrow> ((db, r), Panic)
            | (db, Ok (Some (lab, expiry, refresh))) \<Rightarrow>
                ((db, r), Ok \<lparr>rs_LabID = lab, rs_ExpiresAt = expiry, rs_Token = [], rs_Reissue = refresh\<rparr>)
            | (db, Ok None) \<Rightarrow> createFresh Sum256 Read seeds dr cfg now db r)
      else createFresh Sum256 Read seeds dr cfg now db r)"

end
