(* ===== verification/Http.thy ===== *)
theory Http
  imports Transport Engine Sessions
begin

text \<open>
  The HTTP interface (\<open>internal/httpapi\<close>): decoding of a request, the handlers over one
  manager, the mapping of errors to responses, the table of routes, the session middleware
  and the handler of the compiled pages.  The third-party router is a parameter.
\<close>

section \<open>Requests\<close>

text \<open>
  A body as the decoder of the standard library reads it: its size, its complete JSON
  values, and whether anything but white space remains.  A number is an integer literal
  with its value, or the text of another literal; the fields of an object are in their order.
\<close>

datatype request_json =
    RNull
  | RBool bool
  | RInt int
  | RNumber string
  | RString string
  | RArray "request_json list"
  | RObject "(string \<times> request_json) list"

record RequestBody =
  rb_size :: int
  rb_values :: "request_json list"
  rb_rest :: bool

text \<open>Every error of a decoder has the same answer, so \<open>None\<close> stands for it.\<close>

definition decodeExactObject :: "RequestBody \<Rightarrow> (string \<times> request_json) list option" where
  "decodeExactObject body =
     (if rb_size body > 2 ^ 20 \<or> rb_rest body then None
      else case rb_values body of
             [RObject request_fields] \<Rightarrow> if distinct (map fst request_fields) then Some request_fields else None
           | _ \<Rightarrow> None)"

text \<open>\<open>json.Unmarshal\<close> into an \<open>int64\<close> and into a string; \<open>null\<close> leaves the variable as it is.\<close>

fun unmarshalInt64 :: "request_json \<Rightarrow> int option" where
  "unmarshalInt64 (RInt n) = (if int64_range n then Some n else None)"
| "unmarshalInt64 RNull = Some 0"
| "unmarshalInt64 _ = None"

fun unmarshalString :: "request_json \<Rightarrow> string option" where
  "unmarshalString (RString s) = Some s"
| "unmarshalString RNull = Some []"
| "unmarshalString _ = None"

definition decodePortalCommandBody :: "RequestBody \<Rightarrow> bool option" where
  "decodePortalCommandBody body =
     (case decodeExactObject body of
        None \<Rightarrow> None
      | Some request_fields \<Rightarrow>
          if request_fields = [] then Some False
          else (case map_of request_fields ''confirm'' of
                  None \<Rightarrow> None
                | Some raw \<Rightarrow>
                    if length request_fields \<noteq> 1 then None
                    else if raw = RBool True then Some True
                    else if raw = RBool False then Some False
                    else None))"

definition decodeExtractionBody :: "RequestBody \<Rightarrow> int option" where
  "decodeExtractionBody body =
     (case decodeExactObject body of
        None \<Rightarrow> None
      | Some request_fields \<Rightarrow>
          (case map_of request_fields ''plane_id'' of
             None \<Rightarrow> None
           | Some raw \<Rightarrow>
               if length request_fields \<noteq> 1 then None
               else (case unmarshalInt64 raw of
                       None \<Rightarrow> None
                     | Some i \<Rightarrow> if raw = RNull then None else Some i)))"

definition decodeEmptyBody :: "RequestBody \<Rightarrow> bool" where
  "decodeEmptyBody body \<longleftrightarrow> decodeExactObject body = Some []"

definition TutorialSignal_of :: "string \<Rightarrow> TutorialSignal" where
  "TutorialSignal_of s =
     (if s = ''TUTORIAL_INTRO_COMPLETED'' then TutorialSignalIntroCompleted
      else if s = ''PORTAL_DETAILS_OPENED'' then TutorialSignalPortalDetailsOpened
      else if s = ''EVENT_LOG_OPENED'' then TutorialSignalEventLogOpened
      else TutorialSignalOther s)"

definition decodeTutorialSignalBody :: "RequestBody \<Rightarrow> (TutorialSignal \<times> int option) option" where
  "decodeTutorialSignalBody body =
     (case decodeExactObject body of
        None \<Rightarrow> None
      | Some request_fields \<Rightarrow>
          (case map_of request_fields ''signal'' of
             None \<Rightarrow> None
           | Some rawSignal \<Rightarrow>
               (case unmarshalString rawSignal of
                  None \<Rightarrow> None
                | Some text \<Rightarrow>
                    let signal = TutorialSignal_of text; rawPortalID = map_of request_fields ''portal_id'' in
                    if text = [] \<or> \<not> IsTutorialSignal signal then None
                    else if signal = TutorialSignalPortalDetailsOpened
                    then (case rawPortalID of
                            None \<Rightarrow> None
                          | Some raw \<Rightarrow>
                              if length request_fields \<noteq> 2 then None
                              else (case unmarshalInt64 raw of
                                      None \<Rightarrow> None
                                    | Some i \<Rightarrow> if i \<le> 0 \<or> raw = RNull then None else Some (signal, Some i)))
                    else if rawPortalID \<noteq> None \<or> length request_fields \<noteq> 1 then None
                    else Some (signal, None))))"

text \<open>\<open>strconv.ParseInt(raw, 10, 64)\<close>: a sign is allowed, an underscore is not.\<close>

definition digits_value :: "string \<Rightarrow> int" where
  "digits_value ds = foldl (\<lambda>n c. n * 10 + (int (of_char c) - 48)) 0 ds"

definition ParseInt :: "string \<Rightarrow> int option" where
  "ParseInt raw =
     (let negative = (raw \<noteq> [] \<and> hd raw = CHR ''-''); signed = (raw \<noteq> [] \<and> hd raw \<in> {CHR ''-'', CHR ''+''});
          ds = (if signed then tl raw else raw); n = (if negative then - digits_value ds else digits_value ds) in
      if ds = [] \<or> \<not> list_all (\<lambda>c. CHR ''0'' \<le> c \<and> c \<le> CHR ''9'') ds \<or> \<not> int64_range n then None else Some n)"

definition positiveID :: "string \<Rightarrow> int option" where
  "positiveID raw = (case ParseInt raw of Some i \<Rightarrow> if i > 0 then Some i else None | None \<Rightarrow> None)"

section \<open>Responses\<close>

record apiError =
  ae_Code :: string
  ae_Message :: string
  ae_Confirmable :: bool

datatype View = ViewState StateSnapshot | ViewDetails PortalDetails | ViewEvents "EventDTO list" | ViewError apiError

record Response =
  rp_Status :: int
  rp_View :: View

definition writeJSON :: "int \<Rightarrow> View \<Rightarrow> Response" where
  "writeJSON status value = \<lparr>rp_Status = status, rp_View = value\<rparr>"

definition writeError :: "int \<Rightarrow> string \<Rightarrow> string \<Rightarrow> bool \<Rightarrow> Response" where
  "writeError status code message confirmable =
     writeJSON status (ViewError \<lparr>ae_Code = code, ae_Message = message, ae_Confirmable = confirmable\<rparr>)"

definition writeInternal :: Response where
  "writeInternal = writeError 500 ''INTERNAL_ERROR'' ''internal server error'' False"

fun hasCompositeCause :: "error \<Rightarrow> bool" where
  "hasCompositeCause (ErrorsJoin a b) \<longleftrightarrow> True"
| "hasCompositeCause (ErrorfWrap msg e) \<longleftrightarrow> hasCompositeCause e"
| "hasCompositeCause (RandomRestoreError e) \<longleftrightarrow> hasCompositeCause e"
| "hasCompositeCause e \<longleftrightarrow> False"

definition isInvariantError :: "error \<Rightarrow> bool" where
  "isInvariantError err \<longleftrightarrow>
     errors_Is err ErrObserverInvariant \<or> errors_Is err ErrLabEnergyInvariant \<or> errors_Is err ErrExtractionInvariant \<or>
     errors_Is err ErrSimulationInvariant \<or> errors_Is err ErrEventInvariant"

definition writeDomainError :: "error \<Rightarrow> Response" where
  "writeDomainError err =
     (if hasCompositeCause err then writeInternal
      else if errors_Is err ErrPortalNotFound then writeError 404 ''PORTAL_NOT_FOUND'' ''portal not found'' False
      else if errors_Is err ErrPlaneNotFound then writeError 404 ''PLANE_NOT_FOUND'' ''plane not found'' False
      else if errors_Is err ErrTutorialNotReady then writeError 409 ''TUTORIAL_NOT_READY'' ''tutorial not ready'' False
      else if errors_Is err ErrInvalidTutorialSignal
      then writeError 409 ''INVALID_TUTORIAL_SIGNAL'' ''invalid tutorial signal'' False
      else if isInvariantError err then writeInternal
      else case DescribeDomainError (Some err) of
             None \<Rightarrow> writeInternal
           | Some descriptor \<Rightarrow> writeError 409 (ed_Code descriptor) (ed_Message descriptor) (ed_Confirmable descriptor))"

section \<open>Handlers\<close>

text \<open>
  A call of the manager happens at some moment and may lose its wait for the lock to a
  cancellation.  \<open>Panic\<close> is a request the server abandons.
\<close>

type_synonym call = "error option \<times> time"

definition snapshotResolvedAt :: "Snapshot \<Rightarrow> time res" where
  "snapshotResolvedAt snapshot =
     (case s_LastTickAt (sn_Simulation snapshot) of
        None \<Rightarrow> Fail ErrSimulationInvariant
      | Some t \<Rightarrow> if IsZero t then Fail ErrSimulationInvariant else Ok (UTC t))"

text \<open>The answer to a result: its view, or the internal error whatever the error is.\<close>

definition answer :: "('a \<Rightarrow> View) \<Rightarrow> 'a res \<Rightarrow> Response res" where
  "answer view result =
     (case result of Ok x \<Rightarrow> Ok (writeJSON 200 (view x)) | Fail _ \<Rightarrow> Ok writeInternal | Panic \<Rightarrow> Panic)"

definition getState ::
    "Config \<Rightarrow> ('r, 'b, 'd) Env \<Rightarrow> call \<Rightarrow> ('r, 'd) LabManager \<Rightarrow> ('r, 'd) LabManager \<times> Response res" where
  "getState cfg env c m =
     (case State env (fst c) (snd c) m of
        (m', result) \<Rightarrow>
          (m', answer ViewState (rbind result (\<lambda>snapshot. rbind (snapshotResolvedAt snapshot) (\<lambda>resolvedAt.
                 BuildStateSnapshot snapshot resolvedAt cfg)))))"

definition getPortal ::
    "Config \<Rightarrow> ('r, 'b, 'd) Env \<Rightarrow> call \<Rightarrow> string \<Rightarrow> ('r, 'd) LabManager \<Rightarrow> ('r, 'd) LabManager \<times> Response res" where
  "getPortal cfg env c raw m =
     (case positiveID raw of
        None \<Rightarrow> (m, Ok (writeError 400 ''INVALID_PATH'' ''invalid portal id'' False))
      | Some i \<Rightarrow>
          (case PortalState env (fst c) (snd c) i m of
             (m', Fail e) \<Rightarrow>
               (m', Ok (if errors_Is e ErrPortalNotFound then writeError 404 ''PORTAL_NOT_FOUND'' ''portal not found'' False
                        else writeInternal))
           | (m', Panic) \<Rightarrow> (m', Panic)
           | (m', Ok (snapshot, history)) \<Rightarrow>
               (m', answer ViewDetails (rbind (snapshotResolvedAt snapshot) (\<lambda>resolvedAt.
                      BuildPortalDetails snapshot i history resolvedAt cfg)))))"

definition getEvents :: "('r, 'b, 'd) Env \<Rightarrow> ('r, 'd) LabManager \<Rightarrow> Response res" where
  "getEvents env m = answer ViewEvents (map_result BuildEvents (ManagerEvents env m))"

text \<open>What follows a call that changes the state: its error, or the state read again.\<close>

definition writeFreshState ::
    "Config \<Rightarrow> ('r, 'b, 'd) Env \<Rightarrow> call \<Rightarrow> ('r, 'd) LabManager \<Rightarrow> ('r, 'd) LabManager \<times> Response res" where
  "writeFreshState cfg env c m = getState cfg env c m"

definition respond ::
    "Config \<Rightarrow> ('r, 'b, 'd) Env \<Rightarrow> call \<Rightarrow> ('r, 'd) LabManager \<times> unit res \<Rightarrow> ('r, 'd) LabManager \<times> Response res" where
  "respond cfg env c called =
     (case called of
        (m, Ok _) \<Rightarrow> writeFreshState cfg env c m
      | (m, Fail e) \<Rightarrow> (m, Ok (writeDomainError e))
      | (m, Panic) \<Rightarrow> (m, Panic))"

definition invalidRequest :: Response where
  "invalidRequest = writeError 400 ''INVALID_REQUEST'' ''invalid request body'' False"

definition portalCommand ::
    "Config \<Rightarrow> ('r, 'b, 'd) Env \<Rightarrow> call \<Rightarrow> call \<Rightarrow> string \<Rightarrow> RequestBody \<Rightarrow> (int \<Rightarrow> bool \<Rightarrow> managerCommand) \<Rightarrow>
     ('r, 'd) LabManager \<Rightarrow> ('r, 'd) LabManager \<times> Response res" where
  "portalCommand cfg env c c' raw body command m =
     (case positiveID raw of
        None \<Rightarrow> (m, Ok (writeError 400 ''INVALID_PATH'' ''invalid portal id'' False))
      | Some i \<Rightarrow>
          (case decodePortalCommandBody body of
             None \<Rightarrow> (m, Ok invalidRequest)
           | Some confirm \<Rightarrow> respond cfg env c' (executeCommand env (fst c) (command i confirm) (snd c) m)))"

definition openExtraction ::
    "Config \<Rightarrow> ('r, 'b, 'd) Env \<Rightarrow> call \<Rightarrow> call \<Rightarrow> RequestBody \<Rightarrow> ('r, 'd) LabManager \<Rightarrow>
     ('r, 'd) LabManager \<times> Response res" where
  "openExtraction cfg env c c' body m =
     (case decodeExtractionBody body of
        None \<Rightarrow> (m, Ok invalidRequest)
      | Some i \<Rightarrow>
          if i \<le> 0 then (m, Ok invalidRequest)
          else respond cfg env c' (executeCommand env (fst c) (CommandOpenExtraction i) (snd c) m))"

definition startTutorial ::
    "Config \<Rightarrow> ('r, 'b, 'd) Env \<Rightarrow> call \<Rightarrow> call \<Rightarrow> RequestBody \<Rightarrow> ('r, 'd) LabManager \<Rightarrow>
     ('r, 'd) LabManager \<times> Response res" where
  "startTutorial cfg env c c' body m =
     (if \<not> decodeEmptyBody body then (m, Ok invalidRequest)
      else respond cfg env c' (StartTutorial env (fst c) (snd c) m))"

definition resetTutorial ::
    "Config \<Rightarrow> ('r, 'b, 'd) Env \<Rightarrow> call \<Rightarrow> call \<Rightarrow> RequestBody \<Rightarrow> ('r, 'd) LabManager \<Rightarrow>
     ('r, 'd) LabManager \<times> Response res" where
  "resetTutorial cfg env c c' body m =
     (if \<not> decodeEmptyBody body then (m, Ok invalidRequest)
      else respond cfg env c' (ManagerResetTutorial env (fst c) (snd c) m))"

definition startLive ::
    "Config \<Rightarrow> ('r, 'b, 'd) Env \<Rightarrow> call \<Rightarrow> call \<Rightarrow> RequestBody \<Rightarrow> ('r, 'd) LabManager \<Rightarrow>
     ('r, 'd) LabManager \<times> Response res" where
  "startLive cfg env c c' body m =
     (if \<not> decodeEmptyBody body then (m, Ok invalidRequest)
      else respond cfg env c' (StartLive env (fst c) (snd c) m))"

definition tutorialSignal ::
    "Config \<Rightarrow> ('r, 'b, 'd) Env \<Rightarrow> call \<Rightarrow> call \<Rightarrow> RequestBody \<Rightarrow> ('r, 'd) LabManager \<Rightarrow>
     ('r, 'd) LabManager \<times> Response res" where
  "tutorialSignal cfg env c c' body m =
     (case decodeTutorialSignalBody body of
        None \<Rightarrow> (m, Ok invalidRequest)
      | Some (signal, portalID) \<Rightarrow> respond cfg env c' (ManagerTutorialSignal env (fst c) signal portalID (snd c) m))"

section \<open>Routes\<close>

datatype Endpoint =
    GetState | GetPortal | GetEvents | PostStabilize | PostClose | PostSendObserver | PostRecallObserver
  | PostOpenExtraction | PostStartTutorial | PostResetTutorial | PostTutorialSignal | PostStartLive

fun handle ::
    "Endpoint \<Rightarrow> Config \<Rightarrow> ('r, 'b, 'd) Env \<Rightarrow> call \<Rightarrow> call \<Rightarrow> string \<Rightarrow> RequestBody \<Rightarrow> ('r, 'd) LabManager \<Rightarrow>
     ('r, 'd) LabManager \<times> Response res" where
  "handle GetState cfg env c c' raw body m = getState cfg env c m"
| "handle GetPortal cfg env c c' raw body m = getPortal cfg env c raw m"
| "handle GetEvents cfg env c c' raw body m = (m, getEvents env m)"
| "handle PostStabilize cfg env c c' raw body m = portalCommand cfg env c c' raw body (\<lambda>i _. CommandStabilize i) m"
| "handle PostClose cfg env c c' raw body m = portalCommand cfg env c c' raw body CommandClose m"
| "handle PostSendObserver cfg env c c' raw body m = portalCommand cfg env c c' raw body CommandSend m"
| "handle PostRecallObserver cfg env c c' raw body m = portalCommand cfg env c c' raw body CommandRecall m"
| "handle PostOpenExtraction cfg env c c' raw body m = openExtraction cfg env c c' body m"
| "handle PostStartTutorial cfg env c c' raw body m = startTutorial cfg env c c' body m"
| "handle PostResetTutorial cfg env c c' raw body m = resetTutorial cfg env c c' body m"
| "handle PostTutorialSignal cfg env c c' raw body m = tutorialSignal cfg env c c' body m"
| "handle PostStartLive cfg env c c' raw body m = startLive cfg env c c' body m"

text \<open>A pattern with its method, all of them for the hub, and the handler it leads to.\<close>

datatype Target = ToHandler Endpoint | ToHub

definition newRoutes :: "(string option \<times> string \<times> Target) list" where
  "newRoutes =
    [(Some ''GET'', ''/api/state'', ToHandler GetState),
     (Some ''GET'', ''/api/portals/{id}'', ToHandler GetPortal),
     (Some ''GET'', ''/api/events'', ToHandler GetEvents),
     (Some ''POST'', ''/api/portals/{id}/stabilize'', ToHandler PostStabilize),
     (Some ''POST'', ''/api/portals/{id}/close'', ToHandler PostClose),
     (Some ''POST'', ''/api/portals/{id}/send-observer'', ToHandler PostSendObserver),
     (Some ''POST'', ''/api/portals/{id}/recall-observer'', ToHandler PostRecallObserver),
     (Some ''POST'', ''/api/extraction/open'', ToHandler PostOpenExtraction),
     (Some ''POST'', ''/api/tutorial/start'', ToHandler PostStartTutorial),
     (Some ''POST'', ''/api/tutorial/reset'', ToHandler PostResetTutorial),
     (Some ''POST'', ''/api/tutorial/signal'', ToHandler PostTutorialSignal),
     (Some ''POST'', ''/api/live/start'', ToHandler PostStartLive),
     (None, ''/ws/lab'', ToHub)]"

text \<open>
  The router of the library is a parameter: from the table, a method and a path, it finds no
  route, a route of another method, or a target with the value of \<open>{id}\<close>.
\<close>

datatype routing = NoRoute | WrongMethod | Found Target string

definition dispatch ::
    "((string option \<times> string \<times> Target) list \<Rightarrow> string \<Rightarrow> string \<Rightarrow> routing) \<Rightarrow> string \<Rightarrow> string \<Rightarrow>
     Response + Target \<times> string" where
  "dispatch Route httpMethod path =
     (case Route newRoutes httpMethod path of
        NoRoute \<Rightarrow> Inl (writeError 404 ''NOT_FOUND'' ''not found'' False)
      | WrongMethod \<Rightarrow> Inl (writeError 405 ''METHOD_NOT_ALLOWED'' ''method not allowed'' False)
      | Found target i \<Rightarrow> Inr (target, i))"

definition HasPrefix :: "string \<Rightarrow> string \<Rightarrow> bool" where
  "HasPrefix s prefix \<longleftrightarrow> take (length prefix) s = prefix"

text \<open>Whether the session middleware is before the routes.\<close>

definition scopedPath :: "string \<Rightarrow> bool" where
  "scopedPath path \<longleftrightarrow> HasPrefix path ''/api/'' \<or> path = ''/ws/lab''"

definition validateRouterConfig :: "Config \<Rightarrow> unit res" where
  "validateRouterConfig cfg =
     (if MaxActivePortals cfg \<noteq> 7 \<or> CreatureTransit cfg \<le> 0 \<or> ObserverTransitMax cfg \<le> 0 \<or> RiskSafeHorizon cfg \<le> 0 \<or>
         f_less (RiskInstabilityPenalty cfg) (Fin 0) \<or> LabEnergyMax cfg \<le> 0 \<or> LabRegenPerSec cfg < 0 \<or> CloseCost cfg < 0 \<or>
         StabilizeCost cfg < 0 \<or> f_less (StabilizeBoost cfg) (Fin 0) \<or> f_less (StabilizeMaxStartEnergy cfg) (Fin 0) \<or>
         EmergencyDuration cfg \<le> 0
      then Fail (ErrorfWrap ''new router: invalid config'' ErrSimulationInvariant) else Ok ())"

section \<open>The session of a request\<close>

record SetCookie =
  ck_Name :: string
  ck_Value :: string
  ck_Path :: string
  ck_HttpOnly :: bool
  ck_Secure :: bool
  ck_SameSiteLax :: bool
  ck_MaxAge :: int
  ck_Expires :: time

text \<open>
  The middleware over a world that holds the sessions, the registry and the managers: its
  resolver, the registry's \<open>Acquire\<close> and \<open>Release\<close>, and the next handler are functions on it.
  The lease is released on every way out of the handler, a panic included.
\<close>

definition sessionMiddleware ::
    "Config \<Rightarrow> bool \<Rightarrow> ('w \<Rightarrow> string \<Rightarrow> 'w \<times> Resolution res) \<Rightarrow> ('w \<Rightarrow> LabID \<Rightarrow> 'w \<times> 'lease res) \<Rightarrow>
     ('w \<Rightarrow> 'lease \<Rightarrow> 'w) \<Rightarrow> ('w \<Rightarrow> 'lease \<Rightarrow> 'w \<times> Response res) \<Rightarrow> 'w \<Rightarrow> string option \<Rightarrow>
     'w \<times> SetCookie option \<times> Response res" where
  "sessionMiddleware cfg secure Resolve Acquire Release handler w cookie =
     (let token = (case cookie of Some value \<Rightarrow> value | None \<Rightarrow> []) in
      case Resolve w token of
        (w, Fail _) \<Rightarrow> (w, None, Ok writeInternal)
      | (w, Panic) \<Rightarrow> (w, None, Panic)
      | (w, Ok session) \<Rightarrow>
          (case Acquire w (rs_LabID session) of
             (w, Fail _) \<Rightarrow> (w, None, Ok writeInternal)
           | (w, Panic) \<Rightarrow> (w, None, Panic)
           | (w, Ok lease) \<Rightarrow>
               let token = (if rs_Token session \<noteq> [] then rs_Token session else token);
                   issued = (if rs_Reissue session
                          then Some \<lparr>ck_Name = SessionCookieName cfg, ck_Value = token, ck_Path = ''/'', ck_HttpOnly = True,
                                     ck_Secure = secure, ck_SameSiteLax = True,
                                     ck_MaxAge = f_to_int64 (Seconds (SessionTTL cfg)), ck_Expires = rs_ExpiresAt session\<rparr>
                          else None)
               in (case handler w lease of (w, response) \<Rightarrow> (Release w lease, issued, response))))"

section \<open>The compiled pages\<close>

text \<open>\<open>path.Clean\<close> of a rooted path, as the list of its elements.\<close>

fun splitPath :: "string \<Rightarrow> string list" where
  "splitPath [] = [[]]"
| "splitPath (c # s) =
     (if c = CHR ''/'' then [] # splitPath s
      else case splitPath s of [] \<Rightarrow> [[c]] | e # es \<Rightarrow> (c # e) # es)"

definition cleanElements :: "string \<Rightarrow> string list" where
  "cleanElements path =
     rev (fold (\<lambda>e kept. if e = [] \<or> e = ''.'' then kept else if e = ''..'' then tl kept else e # kept) (splitPath path) [])"

fun joinPath :: "string list \<Rightarrow> string" where
  "joinPath [] = []"
| "joinPath [e] = e"
| "joinPath (e # es) = e @ ''/'' @ joinPath es"

datatype Page = Health | ToAPI | StaticFile string | AssetNotFound | IndexPage

text \<open>\<open>isFile\<close> says which names below the web root are files and not directories.\<close>

definition productionPage :: "(string \<Rightarrow> bool) \<Rightarrow> string \<Rightarrow> string \<Rightarrow> Page" where
  "productionPage isFile httpMethod path =
     (if httpMethod = ''GET'' \<and> path = ''/health'' then Health
      else if HasPrefix path ''/api/'' \<or> path = ''/ws/lab'' then ToAPI
      else if httpMethod \<noteq> ''GET'' \<and> httpMethod \<noteq> ''HEAD'' then ToAPI
      else let name = joinPath (cleanElements path) in
        if isFile name then StaticFile name
        else if HasPrefix path ''/assets/'' then AssetNotFound
        else IndexPage)"

end
