(* ===== verification/SessionProperties.thy ===== *)
theory SessionProperties
  imports Sessions
begin

text \<open>
  The encodings are inverse to each other; a created session resolves to its laboratory until
  it expires; nothing else resolves; the cleanup removes expired laboratories and no other.
\<close>

section \<open>Encodings\<close>

lemma octets_sextets: "\<forall>b\<in>set bytes. b < 256 \<Longrightarrow> octets (sextets bytes) = Some bytes"
proof (induction bytes rule: sextets.induct)
  case (1 a b c rest)
  have "((b mod 16) * 4 + c div 64) mod 4 = c div 64" "((a mod 4) * 16 + b div 16) mod 16 = b div 16"
    "((a mod 4) * 16 + b div 16) div 16 = a mod 4" "((b mod 16) * 4 + c div 64) div 4 = b mod 16"
    using 1 by auto
  then show ?case using 1 by simp
next
  case (2 a b)
  have "((a mod 4) * 16 + b div 16) mod 16 = b div 16" "((a mod 4) * 16 + b div 16) div 16 = a mod 4" using 2 by auto
  then show ?case by simp
qed auto

lemma sextets_bound: "\<forall>b\<in>set bytes. b < 256 \<Longrightarrow> \<forall>i\<in>set (sextets bytes). i < 64"
  by (induction bytes rule: sextets.induct) auto

lemma sextets_length: "length (sextets bytes) = (length bytes * 8 + 5) div 6"
  by (induction bytes rule: sextets.induct) auto

lemma b64_index_nth: "i < 64 \<Longrightarrow> b64_index (b64_alphabet ! i) = Some i"
proof -
  have "list_all (\<lambda>i. b64_index (b64_alphabet ! i) = Some i) [0..<64]" by code_simp
  then show "i < 64 \<Longrightarrow> ?thesis" unfolding list_all_iff by (simp del: upt_rec_numeral)
qed

lemma b64_no_line_end: "i < 64 \<Longrightarrow> b64_alphabet ! i \<noteq> CHR 0x0A \<and> b64_alphabet ! i \<noteq> CHR 0x0D"
proof -
  have "list_all (\<lambda>i. b64_alphabet ! i \<noteq> CHR 0x0A \<and> b64_alphabet ! i \<noteq> CHR 0x0D) [0..<64]" by code_simp
  then show "i < 64 \<Longrightarrow> ?thesis" unfolding list_all_iff by (simp del: upt_rec_numeral)
qed

lemma codes_bound: "\<forall>b\<in>set (map of_char bytes). b < (256 :: nat)"
  by auto

lemma of_char_bound: "(of_char c :: nat) < 256"
  using codes_bound [of "[c]"] by simp

lemma RawURL_round_trip: "RawURLDecodeStrict (RawURLEncode bytes) = Some bytes"
proof -
  let ?s = "sextets (map of_char bytes)"
  have b: "\<forall>i\<in>set ?s. i < 64" by (rule sextets_bound [OF codes_bound])
  have "filter (\<lambda>c. c \<noteq> CHR 0x0A \<and> c \<noteq> CHR 0x0D) (RawURLEncode bytes) = RawURLEncode bytes"
    using b b64_no_line_end by (auto simp: RawURLEncode_def filter_id_conv)
  moreover have "map b64_index (RawURLEncode bytes) = map Some ?s"
    using b b64_index_nth by (simp add: RawURLEncode_def)
  ultimately show ?thesis
    using octets_sextets [OF codes_bound, of bytes] by (simp add: RawURLDecodeStrict_def Let_def comp_def del: set_map) auto
qed

lemma RawURL_length: "int (length (RawURLEncode bytes)) = EncodedLen (int (length bytes))"
  by (simp add: RawURLEncode_def EncodedLen_def sextets_length zdiv_int)

definition hex_digits :: string where
  "hex_digits = ''0123456789abcdef''"

lemma hex_digit_facts: "d < 16 \<Longrightarrow> hex_digit d \<in> set hex_digits" "inj_on hex_digit {0..<16}"
proof -
  have "list_all (\<lambda>d. hex_digit d \<in> set hex_digits) [0..<16]" by code_simp
  then show "d < 16 \<Longrightarrow> hex_digit d \<in> set hex_digits" unfolding list_all_iff by (simp del: upt_rec_numeral)
  have "distinct (map hex_digit [0..<16])" by code_simp
  then show "inj_on hex_digit {0..<16}" unfolding distinct_map by (simp del: upt_rec_numeral)
qed

lemma nibbles: "(of_char c :: nat) div 16 < 16" "(of_char c :: nat) mod 16 < 16"
  by (rule less_mult_imp_div_less) simp_all

lemma HexEncode_length: "length (HexEncode bytes) = 2 * length bytes"
  by (induction bytes) (auto simp: HexEncode_def)

lemma HexEncode_digits: "set (HexEncode bytes) \<subseteq> set hex_digits"
  using hex_digit_facts(1) [OF nibbles(1)] hex_digit_facts(1) [OF nibbles(2)] by (auto simp: HexEncode_def)

lemma HexEncode_valid: "LabID_valid (HexEncode bytes) \<longleftrightarrow> length bytes = 16"
proof -
  have "list_all (\<lambda>c. (CHR ''0'' \<le> c \<and> c \<le> CHR ''9'') \<or> (CHR ''a'' \<le> c \<and> c \<le> CHR ''f'')) hex_digits" by code_simp
  then have "list_all (\<lambda>c. (CHR ''0'' \<le> c \<and> c \<le> CHR ''9'') \<or> (CHR ''a'' \<le> c \<and> c \<le> CHR ''f'')) (HexEncode bytes)"
    using HexEncode_digits [of bytes] by (auto simp: list_all_iff)
  then show ?thesis by (auto simp: LabID_valid_def HexEncode_length)
qed

lemma HexEncode_inj: "HexEncode bytes = HexEncode bytes' \<Longrightarrow> bytes = bytes'"
proof (induction bytes arbitrary: bytes')
  case Nil
  then show ?case using HexEncode_length [of bytes'] by (simp add: HexEncode_def)
next
  case (Cons c bytes)
  then obtain c' rest where b: "bytes' = c' # rest" using HexEncode_length [of bytes'] by (cases bytes') (auto simp: HexEncode_def)
  have "hex_digit (of_char c div 16) = hex_digit (of_char c' div 16)" "hex_digit (of_char c mod 16) = hex_digit (of_char c' mod 16)"
    "HexEncode bytes = HexEncode rest" using Cons.prems by (simp_all add: b HexEncode_def)
  moreover have "(of_char x :: nat) div 16 \<in> {0..<16}" "(of_char x :: nat) mod 16 \<in> {0..<16}" for x
    using nibbles [of x] by auto
  ultimately have "(of_char c :: nat) div 16 = of_char c' div 16" "(of_char c :: nat) mod 16 = of_char c' mod 16"
    using hex_digit_facts(2) by (auto dest: inj_onD)
  then have "(of_char c :: nat) = of_char c'" by (metis div_mult_mod_eq)
  then show ?case using Cons.IH \<open>HexEncode bytes = HexEncode rest\<close> b by simp
qed

text \<open>
  The text of a token and of a laboratory ID loses nothing of the random bytes.  A token is
  accepted as well formed and decodes to its bytes; it has 43 characters for 32 bytes;
  different bytes have different IDs, and an ID is valid exactly when it was made of 16 bytes.
\<close>

theorem session_texts_round_trip:
  "RawURLDecodeStrict (RawURLEncode bytes) = Some bytes \<and>
   int (length (RawURLEncode bytes)) = EncodedLen (int (length bytes)) \<and>
   (tokenShaped Default (RawURLEncode bytes) \<longleftrightarrow> length bytes = 32) \<and>
   (HexEncode bytes = HexEncode bytes' \<longleftrightarrow> bytes = bytes') \<and>
   (LabID_valid (HexEncode bytes) \<longleftrightarrow> length bytes = 16)"
proof -
  have "SessionTokenBytes Default = 32" by (simp add: Default_def)
  then have "tokenShaped Default (RawURLEncode bytes) \<longleftrightarrow> length bytes = 32"
    by (auto simp: tokenShaped_def RawURL_round_trip RawURL_length)
  then show ?thesis using RawURL_round_trip RawURL_length HexEncode_inj HexEncode_valid by blast
qed

section \<open>Created sessions\<close>

definition newSession :: "LabID \<Rightarrow> string \<Rightarrow> Database \<Rightarrow> bool" where
  "newSession lab hash db \<longleftrightarrow> newLab lab db \<and> \<not> has_key (db_sessions db) hash \<and>
     list_all (\<lambda>(_, other, _, _). other \<noteq> lab) (db_sessions db)"

definition withSession :: "planeSeed list \<Rightarrow> LabID \<Rightarrow> string \<Rightarrow> Database \<Rightarrow> time \<Rightarrow> Config \<Rightarrow> Database" where
  "withSession seeds lab hash db now cfg = (bootstrapped seeds lab db now cfg)
     \<lparr>db_sessions := db_sessions db @ [(hash, lab, UnixNano (Add now (SessionTTL cfg)), UnixNano now)]\<rparr>"

lemma bootstrapped_sessions [simp]: "db_sessions (bootstrapped seeds lab db now cfg) = db_sessions db"
  "db_labs (bootstrapped seeds lab db now cfg) =
     db_labs db @ [(lab, UnixNano now, UnixNano (Add now (SessionTTL cfg)), UnixNano now)]"
  by (simp_all add: bootstrapped_def)

lemma CreateSession_Ok:
  assumes "dr_fault dr = (\<lambda>_ _. None)" and "canonicalSeeds seeds" and "newSession lab hash db" and "length hash = 32"
    and "stampable now" and "LabID_valid lab" and "0 < SessionTTL cfg"
    and "ObserverCount cfg = ObserverCount Default" and "LabEnergyMax cfg = 100"
  shows "CreateSession seeds dr db lab hash now cfg = (withSession seeds lab hash db now cfg, Ok ())"
  using assms bootstrapTx_Ok [of dr seeds lab db cfg now]
  by (simp add: CreateSession_def newSession_def stampable_def inTransaction_Ok insertSession_def statement_def wrapError_def
      withSession_def)

lemma withSession_Load [simp]:
  "Load dr lab' (withSession seeds lab hash db now cfg) = Load dr lab' (bootstrapped seeds lab db now cfg)"
  by (simp add: withSession_def Load_def loadPlanes_def loadPortals_def loadObservers_def)

lemma map_of_snoc [simp]: "k \<notin> fst ` set table \<Longrightarrow> ([k \<mapsto> v] ++ map_of table) k = Some v"
  by (simp add: map_add_def flip: map_of_eq_None_iff)

lemma withSession_live:
  assumes "newSession lab hash db"
  shows "liveSession (withSession seeds lab hash db now cfg) hash later =
    (if UnixNano later < UnixNano (Add now (SessionTTL cfg))
     then Some (lab, UnixNano (Add now (SessionTTL cfg)), UnixNano now) else None)"
  using assms by (simp add: liveSession_def withSession_def newSession_def newLab_def)

lemma ResolveSession_faultless:
  assumes "dr_fault dr = (\<lambda>_ _. None)" and "\<not> IsZero now" "0 < SessionTTL cfg" "0 < SessionRefreshInterval cfg"
  shows "map_result id (snd (ResolveSession dr db hash now cfg)) =
    Ok (map_option (\<lambda>(lab, expiry, seen). let refreshed = (SessionRefreshInterval cfg \<le> Sub now (decodeTime seen)) in
          (lab, if refreshed then Add now (SessionTTL cfg) else decodeTime expiry, refreshed)) (liveSession db hash now))"
  using assms
  by (auto simp: ResolveSession_def statement_def refreshSession_def Let_def split: option.splits)

lemma UnixNano_less: "int64_time a \<Longrightarrow> int64_time b \<Longrightarrow> UnixNano a < UnixNano b \<longleftrightarrow> ns a < ns b"
  by (simp add: UnixNano_def int64_time_def wrap64_id)

lemma int64_between: "int64_time a \<Longrightarrow> int64_time b \<Longrightarrow> ns a \<le> ns t \<Longrightarrow> ns t \<le> ns b \<Longrightarrow> int64_time t"
  by (auto simp: int64_time_def int64_range_def)

lemma first_visit:
  assumes dr: "dr_fault dr = (\<lambda>_ _. None)" and seeds: "canonicalSeeds seeds"
    and cfg: "NewService cfg = Ok ()" "ObserverCount cfg = ObserverCount Default" "LabEnergyMax cfg = 100"
    and hash: "\<And>text. length (Sum256 text) = 32"
    and entropy: "Read 32 r = ((tokenBytes, None), r1)" "Read 16 r1 = ((idBytes, None), r2)" "length tokenBytes = 32" "length idBytes = 16"
    and fresh: "newSession (HexEncode idBytes) (Sum256 (RawURLEncode tokenBytes)) db"
    and cookie: "\<not> tokenShaped cfg cookie \<or> liveSession db (Sum256 cookie) (UTC instant) = None"
    and times: "0 < ns instant" "int64_time instant" "int64_time (Add instant (SessionTTL cfg))"
  shows "Service_Resolve Sum256 Read seeds dr cfg instant db r cookie =
    ((withSession seeds (HexEncode idBytes) (Sum256 (RawURLEncode tokenBytes)) db (UTC instant) cfg, r2),
     Ok \<lparr>rs_LabID = HexEncode idBytes, rs_ExpiresAt = Add (UTC instant) (SessionTTL cfg), rs_Token = RawURLEncode tokenBytes,
         rs_Reissue = True\<rparr>)"
proof -
  have c: "0 < SessionTTL cfg" "0 < SessionRefreshInterval cfg" "SessionTokenBytes cfg = 32" "LabIDBytes cfg = 16"
    using cfg(1) by (auto simp: NewService_def split: if_splits)
  have lab: "LabID_valid (HexEncode idBytes)" by (simp add: HexEncode_valid entropy)
  have t: "stampable (UTC instant)" using times by (simp add: stampable_def IsZero_def int64_time_def)
  note created = CreateSession_Ok [OF dr seeds fresh hash t lab c(1) cfg(2,3)]
  have none: "ResolveSession dr db (Sum256 cookie) (UTC instant) cfg = (db, Ok None)" if "tokenShaped cfg cookie"
    using that cookie dr c times(1) by (simp add: ResolveSession_def statement_def IsZero_def)
  have "createFresh Sum256 Read seeds dr cfg (UTC instant) db r =
      ((withSession seeds (HexEncode idBytes) (Sum256 (RawURLEncode tokenBytes)) db (UTC instant) cfg, r2),
       Ok \<lparr>rs_LabID = HexEncode idBytes, rs_ExpiresAt = Add (UTC instant) (SessionTTL cfg), rs_Token = RawURLEncode tokenBytes,
           rs_Reissue = True\<rparr>)"
    by (simp add: createFresh_def readEntropy_def c entropy created Let_def)
  then show ?thesis using none by (simp add: Service_Resolve_def Let_def)
qed

text \<open>
  C17: a visitor without a usable cookie gets a new laboratory, complete and in its canonical
  state, and a token; and the token resolves to that laboratory, without reading entropy, at
  every later moment before it expires: with the expiry of its creation, or renewed once the
  refresh interval has passed.
\<close>

theorem new_session_resolves:
  assumes dr: "dr_fault dr = (\<lambda>_ _. None)" and seeds: "canonicalSeeds seeds"
    and cfg: "NewService cfg = Ok ()" "ObserverCount cfg = ObserverCount Default" "LabEnergyMax cfg = 100"
    and hash: "\<And>text. length (Sum256 text) = 32"
    and entropy: "Read 32 r = ((tokenBytes, None), r1)" "Read 16 r1 = ((idBytes, None), r2)" "length tokenBytes = 32" "length idBytes = 16"
    and fresh: "newSession (HexEncode idBytes) (Sum256 (RawURLEncode tokenBytes)) db"
    and cookie: "\<not> tokenShaped cfg cookie \<or> liveSession db (Sum256 cookie) (UTC instant) = None"
    and times: "0 < ns instant" "int64_time instant" "int64_time (Add instant (SessionTTL cfg))"
      "ns instant \<le> ns later" "ns later < ns instant + SessionTTL cfg"
  shows "\<exists>db' db''. let lab = HexEncode idBytes; token = RawURLEncode tokenBytes; now = UTC instant; expires = Add now (SessionTTL cfg);
      renew = (SessionRefreshInterval cfg \<le> Sub later instant) in
    Service_Resolve Sum256 Read seeds dr cfg instant db r cookie =
      ((db', r2), Ok \<lparr>rs_LabID = lab, rs_ExpiresAt = expires, rs_Token = token, rs_Reissue = True\<rparr>) \<and>
    Load dr lab db' = Ok (initialSnapshot seeds now) \<and>
    Service_Resolve Sum256 Read seeds dr cfg later db' r2 token =
      ((db'', r2), Ok \<lparr>rs_LabID = lab, rs_ExpiresAt = if renew then Add (UTC later) (SessionTTL cfg) else expires,
                        rs_Token = [], rs_Reissue = renew\<rparr>)"
proof -
  let ?lab = "HexEncode idBytes" and ?token = "RawURLEncode tokenBytes" and ?now = "UTC instant" and ?later = "UTC later"
  let ?db' = "withSession seeds ?lab (Sum256 ?token) db ?now cfg"
  have c: "0 < SessionTTL cfg" "0 < SessionRefreshInterval cfg" "SessionTokenBytes cfg = 32" "LabIDBytes cfg = 16"
    using cfg(1) by (auto simp: NewService_def split: if_splits)
  have lab: "LabID_valid ?lab" by (simp add: HexEncode_valid entropy)
  have t: "stampable ?now" "int64_time ?now" using times by (simp_all add: stampable_def IsZero_def int64_time_def)
  have first: "Service_Resolve Sum256 Read seeds dr cfg instant db r cookie =
      ((?db', r2), Ok \<lparr>rs_LabID = ?lab, rs_ExpiresAt = Add ?now (SessionTTL cfg), rs_Token = ?token, rs_Reissue = True\<rparr>)"
    by (rule first_visit [OF dr seeds cfg hash entropy fresh cookie times(1-3)])
  have load: "Load dr ?lab ?db' = Ok (initialSnapshot seeds ?now)"
    using fresh t lab by (simp add: bootstrapped_Load [OF dr seeds] newSession_def)
  have shaped: "tokenShaped cfg ?token"
    by (simp add: tokenShaped_def RawURL_round_trip RawURL_length c entropy)
  have i: "int64_time later" by (rule int64_between [OF times(2,3,4)]) (use times in simp)
  then have "UnixNano ?later < UnixNano (Add ?now (SessionTTL cfg))"
    using times UnixNano_less [of ?later "Add ?now (SessionTTL cfg)"] by (simp add: int64_time_def)
  then have live: "liveSession ?db' (Sum256 ?token) ?later = Some (?lab, UnixNano (Add ?now (SessionTTL cfg)), UnixNano ?now)"
    by (simp add: withSession_live [OF fresh])
  have decoded: "decodeTime (UnixNano ?now) = ?now" "decodeTime (UnixNano (Add ?now (SessionTTL cfg))) = Add ?now (SessionTTL cfg)"
    using t(2) times(3) by (simp_all add: decodeTime_def UnixNano_def int64_time_def wrap64_id time_eq_iff)
  have sub: "Sub ?later ?now = Sub later instant" by (simp add: Sub_def)
  have "\<not> IsZero ?later" using times by (simp add: IsZero_def)
  from ResolveSession_faultless [OF dr this c(1,2), of ?db' "Sum256 ?token"]
  obtain db'' where "ResolveSession dr ?db' (Sum256 ?token) ?later cfg = (db'', Ok (Some (?lab,
      if SessionRefreshInterval cfg \<le> Sub later instant then Add ?later (SessionTTL cfg) else Add ?now (SessionTTL cfg),
      SessionRefreshInterval cfg \<le> Sub later instant)))"
    by (cases "ResolveSession dr ?db' (Sum256 ?token) ?later cfg") (auto simp: live decoded sub Let_def)
  then have "Service_Resolve Sum256 Read seeds dr cfg later ?db' r2 ?token =
      ((db'', r2), Ok \<lparr>rs_LabID = ?lab, rs_ExpiresAt = if SessionRefreshInterval cfg \<le> Sub later instant
         then Add ?later (SessionTTL cfg) else Add ?now (SessionTTL cfg),
       rs_Token = [], rs_Reissue = SessionRefreshInterval cfg \<le> Sub later instant\<rparr>)"
    using shaped by (simp add: Service_Resolve_def Let_def)
  with first load show ?thesis unfolding Let_def by blast
qed

section \<open>Every outcome\<close>

lemma bootstrapTx_effect:
  assumes "bootstrapTx seeds dr lab db now cfg = Ok db'"
  shows "\<not> has_key (db_labs db) lab" and "db_sessions db' = db_sessions db"
    and "db_labs db' = db_labs db @ [(lab, UnixNano now, UnixNano (Add now (SessionTTL cfg)), UnixNano now)]"
proof -
  let ?labs = "db_labs db @ [(lab, UnixNano now, UnixNano (Add now (SessionTTL cfg)), UnixNano now)]"
  let ?I = "\<lambda>_ d. db_labs d = ?labs \<and> db_sessions d = db_sessions db"
  have seeds: "?I xs d'" if "foldM (insertSeed dr lab) d xs = Ok d'" "?I [] d" for xs d d'
    using that(1)
    by (induction rule: foldM_prefix_invariant [where I = ?I])
      (use that(2) in \<open>auto simp: insertSeed_def insertRow_def statement_def wrapError_def split: option.splits if_splits\<close>)
  have observers: "?I xs d'" if "foldM (insertObserver dr lab) d xs = Ok d'" "?I [] d" for xs d d'
    using that(1)
    by (induction rule: foldM_prefix_invariant [where I = ?I])
      (use that(2) in \<open>auto simp: insertObserver_def insertRow_def statement_def wrapError_def split: option.splits if_splits\<close>)
  from assms obtain d1 d2 d3 roster where
    d1: "insertRow dr ''insert laboratory'' ''labs'' 0 (\<not> has_key (db_labs db) lab) (db\<lparr>db_labs := ?labs\<rparr>) = Ok d1" and
    d2: "foldM (insertSeed dr lab) d1 seeds = Ok d2" and d3: "foldM (insertObserver dr lab) d2 roster = Ok d3" and
    db': "db_labs db' = db_labs d3 \<and> db_sessions db' = db_sessions d3"
    by (auto simp: bootstrapTx_def insertRow_def statement_def wrapError_def split: if_splits option.splits)
  show "\<not> has_key (db_labs db) lab" using d1 by (auto simp: insertRow_def statement_def wrapError_def split: option.splits if_splits)
  have "?I [] d1" using d1 by (auto simp: insertRow_def statement_def wrapError_def split: option.splits if_splits)
  then have "?I roster d3" using seeds [OF d2] observers [OF d3] by simp
  then show "db_sessions db' = db_sessions db" "db_labs db' = ?labs" using db' by simp_all
qed

lemma CreateSession_effect:
  assumes "CreateSession seeds dr db lab hash now cfg = (db', Ok u)"
  shows "LabID_valid lab" and "\<not> has_key (db_labs db) lab" and "\<not> has_key (db_sessions db) hash"
    and "db_sessions db' = db_sessions db @ [(hash, lab, UnixNano (Add now (SessionTTL cfg)), UnixNano now)]"
    and "db_labs db' = db_labs db @ [(lab, UnixNano now, UnixNano (Add now (SessionTTL cfg)), UnixNano now)]"
proof -
  from assms obtain tx where tx: "bootstrapTx seeds dr lab db now cfg = Ok tx"
    and "insertSession dr lab tx hash now cfg = Ok db'" and "LabID_valid lab"
    by (auto simp: CreateSession_def inTransaction_def statement_def labelled_def wrapError_def split: if_splits option.splits result.splits)
  moreover note bootstrapTx_effect [OF tx]
  ultimately show "LabID_valid lab" "\<not> has_key (db_labs db) lab" "\<not> has_key (db_sessions db) hash"
    "db_sessions db' = db_sessions db @ [(hash, lab, UnixNano (Add now (SessionTTL cfg)), UnixNano now)]"
    "db_labs db' = db_labs db @ [(lab, UnixNano now, UnixNano (Add now (SessionTTL cfg)), UnixNano now)]"
    by (auto simp: insertSession_def statement_def wrapError_def split: option.splits if_splits)
qed

lemma CreateSession_atomic:
  "CreateSession seeds dr db lab hash now cfg = (db', result) \<Longrightarrow> \<not> is_Ok result \<Longrightarrow> db' = db"
  by (auto simp: CreateSession_def inTransaction_def is_Ok_iff split: if_splits result.splits prod.splits)

lemma ResolveSession_atomic:
  "ResolveSession dr db hash now cfg = (db', result) \<Longrightarrow> result \<notin> range (\<lambda>x. Ok (Some x)) \<Longrightarrow> db' = db"
  by (auto simp: ResolveSession_def Let_def split: if_splits result.splits option.splits)

lemma ResolveSession_live:
  assumes "ResolveSession dr db hash now cfg = (db', Ok (Some (lab, expires, refreshed)))"
  shows "\<exists>expiry seen. liveSession db hash now = Some (lab, expiry, seen) \<and>
    refreshed = (SessionRefreshInterval cfg \<le> Sub now (decodeTime seen)) \<and>
    expires = (if refreshed then Add now (SessionTTL cfg) else decodeTime expiry) \<and>
    (if refreshed then refreshSession dr db hash lab expires now = Ok db' else db' = db)"
  using assms
  by (auto simp: ResolveSession_def Let_def statement_def split: if_splits result.splits option.splits)

definition session_errors :: "error set" where
  "session_errors = {Errorf ''resolve laboratory session failed'', Errorf ''generate laboratory session entropy failed'',
     Errorf ''create laboratory session failed''}"

lemma createFresh_outcome:
  assumes "createFresh Sum256 Read seeds dr cfg now db r = ((db', r'), result)" and "NewService cfg = Ok ()"
  shows "case result of
    Ok res \<Rightarrow> rs_Reissue res \<and> tokenShaped cfg (rs_Token res) \<and> LabID_valid (rs_LabID res) \<and>
      \<not> has_key (db_labs db) (rs_LabID res) \<and> \<not> has_key (db_sessions db) (Sum256 (rs_Token res)) \<and>
      map_of (db_sessions db') (Sum256 (rs_Token res)) =
        Some (rs_LabID res, UnixNano (rs_ExpiresAt res), UnixNano now)
  | Fail e \<Rightarrow> db' = db \<and> e \<in> session_errors
  | Panic \<Rightarrow> db' = db"
proof (cases "readEntropy Read cfg r")
  case (Pair entropy r1)
  have c: "SessionTokenBytes cfg = 32" using assms(2) by (auto simp: NewService_def split: if_splits)
  show ?thesis
  proof (cases entropy)
    case (Ok bytes)
    obtain tokenBytes idBytes where bytes: "bytes = (tokenBytes, idBytes)" by (cases bytes)
    have len: "length tokenBytes = 32"
      using Pair by (auto simp: Ok bytes readEntropy_def c Let_def split: prod.splits if_splits)
    obtain d created where create: "CreateSession seeds dr db (HexEncode idBytes) (Sum256 (RawURLEncode tokenBytes)) now cfg = (d, created)"
      by (cases "CreateSession seeds dr db (HexEncode idBytes) (Sum256 (RawURLEncode tokenBytes)) now cfg")
    show ?thesis
    proof (cases created)
      case (Ok u)
      note e = CreateSession_effect [OF create [unfolded Ok]]
      have "tokenShaped cfg (RawURLEncode tokenBytes)"
        by (simp add: tokenShaped_def RawURL_round_trip RawURL_length c len)
      then show ?thesis
        using assms(1) e Pair by (auto simp: createFresh_def \<open>entropy = _\<close> bytes create Ok Let_def)
    qed (use assms(1) Pair CreateSession_atomic [OF create] in
        \<open>auto simp: createFresh_def Ok bytes create Let_def session_errors_def is_Ok_iff\<close>)
  next
    case (Fail e)
    then have "e = Errorf ''generate laboratory session entropy failed''"
      using Pair by (auto simp: readEntropy_def Let_def split: prod.splits if_splits)
    then show ?thesis using assms(1) Pair Fail by (auto simp: createFresh_def session_errors_def)
  qed (use assms(1) Pair in \<open>auto simp: createFresh_def\<close>)
qed

text \<open>
  C16: a cookie resolves to a laboratory only through its hash, and only while neither its
  session nor the laboratory has expired; no entropy is read then.  In every other case a
  laboratory nobody had is created with a session of its own, or nothing is stored and the
  error is one of three that say nothing about the cookie.
\<close>

theorem session_outcomes:
  assumes "NewService cfg = Ok ()"
    and "Service_Resolve Sum256 Read seeds dr cfg instant db r cookie = ((db', r'), result)"
  shows "case result of
    Ok res \<Rightarrow>
      (if rs_Token res = []
       then r' = r \<and> tokenShaped cfg cookie \<and>
         (\<exists>expiry seen. liveSession db (Sum256 cookie) (UTC instant) = Some (rs_LabID res, expiry, seen))
       else rs_Reissue res \<and> tokenShaped cfg (rs_Token res) \<and> LabID_valid (rs_LabID res) \<and>
         \<not> has_key (db_labs db) (rs_LabID res) \<and> \<not> has_key (db_sessions db) (Sum256 (rs_Token res)) \<and>
         map_of (db_sessions db') (Sum256 (rs_Token res)) =
           Some (rs_LabID res, UnixNano (rs_ExpiresAt res), UnixNano (UTC instant)))
  | Fail e \<Rightarrow> db' = db \<and> e \<in> session_errors
  | Panic \<Rightarrow> db' = db"
proof -
  have fresh: ?thesis if create: "createFresh Sum256 Read seeds dr cfg (UTC instant) db r = ((db', r'), result)"
  proof -
    have "\<not> tokenShaped cfg []"
      using assms(1) by (auto simp: tokenShaped_def NewService_def EncodedLen_def split: if_splits)
    then show ?thesis
      using createFresh_outcome [OF create assms(1)] by (cases result) auto
  qed
  show ?thesis
  proof (cases "tokenShaped cfg cookie")
    case True
    obtain d resolved where res: "ResolveSession dr db (Sum256 cookie) (UTC instant) cfg = (d, resolved)"
      by (cases "ResolveSession dr db (Sum256 cookie) (UTC instant) cfg")
    show ?thesis
    proof (cases "\<exists>x. resolved = Ok (Some x)")
      case found: True
      then obtain lab expires refreshed where x: "resolved = Ok (Some (lab, expires, refreshed))" by auto
      show ?thesis
        using assms(2) ResolveSession_live [OF res [unfolded x]] by (auto simp: Service_Resolve_def Let_def True res x)
    next
      case False
      then have d: "d = db" using ResolveSession_atomic [OF res] by blast
      show ?thesis
      proof (cases resolved)
        case (Ok x)
        then have "x = None" using False by (cases x) auto
        then show ?thesis using assms(2) fresh d by (simp add: Service_Resolve_def Let_def True res Ok)
      qed (use assms(2) d in \<open>auto simp: Service_Resolve_def Let_def True res session_errors_def\<close>)
    qed
  next
    case False
    then show ?thesis using assms(2) fresh by (simp add: Service_Resolve_def Let_def)
  qed
qed

section \<open>Cleanup\<close>

lemma foldM_rows: "foldM (\<lambda>ids i. Ok (ids @ [rows ! i])) ids is = Ok (ids @ map (\<lambda>i. rows ! i) is)"
  by (induction "is" arbitrary: ids) simp_all

lemma statement_faultless: "dr_fault dr = (\<lambda>_ _. None) \<Longrightarrow> statement dr table i True x = Ok x"
  by (simp add: statement_def)

lemma ExpiredLabs_faultless:
  assumes "dr_fault dr = (\<lambda>_ _. None)"
  shows "ExpiredLabs dr db now = Ok (sort (map fst (filter (\<lambda>(_, _, expiry, _). expiry \<le> UnixNano now) (db_labs db))))"
  by (simp only: ExpiredLabs_def statement_faultless [OF assms] rbind.simps foldM_rows append_Nil map_nth)

definition expired :: "Database \<Rightarrow> time \<Rightarrow> LabID \<Rightarrow> bool" where
  "expired db now lab \<longleftrightarrow> (\<exists>created expiry active. map_of (db_labs db) lab = Some (created, expiry, active) \<and> expiry \<le> UnixNano now)"

lemma expired_rows:
  assumes "distinct (map fst (db_labs db))"
  shows "list_ex (\<lambda>(l, _, expiry, _). l = lab \<and> expiry \<le> UnixNano now) (db_labs db) \<longleftrightarrow> expired db now lab"
    and "set (map fst (filter (\<lambda>(_, _, expiry, _). expiry \<le> UnixNano now) (db_labs db))) = {lab. expired db now lab}"
  using map_of_eq_Some_iff [OF assms] by (force simp: expired_def list_ex_iff)+

lemma select_lab_delete: "l \<noteq> lab \<Longrightarrow> select_lab l (delete_lab lab table) = select_lab l table"
  by (simp add: select_lab_rows)

lemma map_of_filter_other: "l \<noteq> lab \<Longrightarrow> map_of (filter (\<lambda>(k, _). k \<noteq> lab) table) l = map_of table l"
  by (induction table) auto

lemma map_of_filter_same: "map_of (filter (\<lambda>(k, _). k \<noteq> lab) table) lab = None"
  by (auto simp: map_of_eq_None_iff)

lemma deleted_sessions:
  "map_of (filter (\<lambda>(_, l, _, _). l \<noteq> lab) table) h = Some (l, e, f) \<Longrightarrow> l \<noteq> lab"
  by (auto dest!: map_of_SomeD)

lemma deleted_other_session:
  "map_of table h = Some (l, e, f) \<Longrightarrow> l \<noteq> lab \<Longrightarrow>
   map_of (filter (\<lambda>(_, l, _, _). l \<noteq> lab) table) h = Some (l, e, f)"
  by (induction table) (auto split: if_splits)

text \<open>
  C18: the cleanup lists exactly the expired laboratories, in the order of their IDs, and the
  deletion checks again: it removes an expired laboratory with its session and all its rows,
  leaves one that has not expired as it is, and never touches the state, the log or the
  session of another.
\<close>

theorem cleanup_deletes_expired_only:
  assumes "dr_fault dr = (\<lambda>_ _. None)" and "distinct (map fst (db_labs db))" and "LabID_valid lab" and "LabID_valid other"
    and "other \<noteq> lab"
  shows "\<exists>ids db'. ExpiredLabs dr db now = Ok ids \<and> sorted ids \<and> distinct ids \<and> set ids = {l. expired db now l} \<and>
    DeleteExpiredLab dr db lab now = (db', Ok (expired db now lab)) \<and>
    (if expired db now lab
     then Load dr lab db' = Fail (ErrorfWrap ''load lab state'' (dr_no_rows dr)) \<and> newLab lab db' \<and>
       (\<forall>hash later. map_option fst (liveSession db' hash later) \<noteq> Some lab)
     else db' = db) \<and>
    Load dr other db' = Load dr other db \<and> ListEvents dr other db' portal = ListEvents dr other db portal \<and>
    (map_option fst (liveSession db hash later) = Some other \<longrightarrow> liveSession db' hash later = liveSession db hash later)"
proof -
  let ?rows = "sort (map fst (filter (\<lambda>(_, _, expiry, _). expiry \<le> UnixNano now) (db_labs db)))"
  have ids: "ExpiredLabs dr db now = Ok ?rows"
    by (rule ExpiredLabs_faultless [OF assms(1)])
  have "distinct (map fst (filter (\<lambda>(_, _, expiry, _). expiry \<le> UnixNano now) (db_labs db)))"
    using assms(2) by (rule distinct_map_filter)
  then have d: "distinct ?rows" by simp
  have s: "set ?rows = {l. expired db now l}" using expired_rows(2) [OF assms(2)] by simp
  let ?db' = "if expired db now lab then deleteLab lab db else db"
  have del: "DeleteExpiredLab dr db lab now = (?db', Ok (expired db now lab))"
    unfolding DeleteExpiredLab_def Let_def expired_rows(1) [OF assms(2)] using assms(1,3) by (simp add: statement_def)
  have gone: "Load dr lab (deleteLab lab db) = Fail (ErrorfWrap ''load lab state'' (dr_no_rows dr))"
    using assms(1,3) by (simp add: Load_def deleteLab_def query_def statement_def wrapError_def row_of_def map_of_filter_same)
  have new: "newLab lab (deleteLab lab db)"
    by (auto simp: newLab_def deleteLab_def)
  have dead: "map_option fst (liveSession (deleteLab lab db) h t) \<noteq> Some lab" for h t
    by (auto simp: liveSession_def deleteLab_def map_of_filter_same split: option.splits)
  have other: "Load dr other (deleteLab lab db) = Load dr other db"
    "ListEvents dr other (deleteLab lab db) portal = ListEvents dr other db portal"
    using assms(5) by (simp_all add: Load_def ListEvents_def loadPlanes_def loadPortals_def loadObservers_def deleteLab_def
        select_lab_delete map_of_filter_other)
  have live: "liveSession (deleteLab lab db) hash later = liveSession db hash later"
    if "map_option fst (liveSession db hash later) = Some other"
    using that assms(5)
    by (auto simp: liveSession_def deleteLab_def map_of_filter_other deleted_other_session split: option.splits if_splits)
  show ?thesis
    using ids d s del gone new dead other live by (intro exI [of _ ?rows] exI [of _ ?db']) (simp del: set_sort)
qed

lemma map_of_updated:
  "map_of (map (\<lambda>(k, created, expiry, active). if k = x then (k, created, e, a) else (k, created, expiry, active)) table) x =
   map_option (\<lambda>(created, _, _). (created, e, a)) (map_of table x)"
  by (induction table) auto

lemma map_of_refreshed:
  "map_of table x = Some (l0, e0, s0) \<Longrightarrow> l0 = l \<Longrightarrow>
   map_of (map (\<lambda>(k, l', expiry, seen). if k = x \<and> l' = l then (k, l', e, s) else (k, l', expiry, seen)) table) x = Some (l, e, s)"
  by (induction table) (auto split: if_splits)

lemma same_keys:
  "map fst (map (\<lambda>(k, created, expiry, active). if k = x then (k, created, e, a) else (k, created, expiry, active)) table) = map fst table"
  by (induction table) auto

text \<open>
  A renewed session protects its laboratory: until the new expiry the cleanup does not
  list it and a deletion decided earlier removes nothing; the cookie keeps resolving to it;
  and the renewal changed nothing of the state of the laboratory.
\<close>

theorem renewal_protects:
  assumes "ResolveSession dr db hash now cfg = (db', Ok (Some (lab, expires, True)))"
    and "distinct (map fst (db_labs db))" and "dr_fault dr = (\<lambda>_ _. None)" and "LabID_valid lab"
    and "int64_time expires" and "int64_time cleanup" and "ns cleanup < ns expires"
  shows "expires = Add now (SessionTTL cfg) \<and> (\<exists>ids. ExpiredLabs dr db' cleanup = Ok ids \<and> lab \<notin> set ids) \<and>
    DeleteExpiredLab dr db' lab cleanup = (db', Ok False) \<and>
    liveSession db' hash cleanup = Some (lab, UnixNano expires, UnixNano now) \<and> Load dr lab db' = Load dr lab db"
proof -
  from ResolveSession_live [OF assms(1)] obtain expiry seen where
    live: "liveSession db hash now = Some (lab, expiry, seen)" and e: "expires = Add now (SessionTTL cfg)"
    and db': "refreshSession dr db hash lab expires now = Ok db'"
    by auto
  from db' have db'_eq: "db' = db\<lparr>db_sessions := map (\<lambda>(h, l, expiry, seen). if h = hash \<and> l = lab
        then (h, l, UnixNano expires, UnixNano now) else (h, l, expiry, seen)) (db_sessions db),
      db_labs := map (\<lambda>(l, created, expiry, active). if l = lab then (l, created, UnixNano expires, UnixNano now)
                                                     else (l, created, expiry, active)) (db_labs db)\<rparr>"
    using assms(3) by (simp add: refreshSession_def statement_def)
  obtain created old active where row: "map_of (db_labs db) lab = Some (created, old, active)"
    and session: "map_of (db_sessions db) hash = Some (lab, expiry, seen)"
    using live by (auto simp: liveSession_def split: option.splits if_splits)
  have row': "map_of (db_labs db') lab = Some (created, UnixNano expires, UnixNano now)"
    by (simp add: db'_eq map_of_updated row)
  have session': "map_of (db_sessions db') hash = Some (lab, UnixNano expires, UnixNano now)"
    using map_of_refreshed [OF session refl] by (simp add: db'_eq)
  have less: "UnixNano cleanup < UnixNano expires" using assms(5-7) UnixNano_less by blast
  then have not_expired: "\<not> expired db' cleanup lab" by (simp add: expired_def row')
  have keys: "distinct (map fst (db_labs db'))"
    using assms(2) same_keys [of lab "UnixNano expires" "UnixNano now" "db_labs db"] by (simp add: db'_eq del: map_map)
  have "lab \<notin> set (sort (map fst (filter (\<lambda>(_, _, expiry, _). expiry \<le> UnixNano cleanup) (db_labs db'))))"
    using not_expired expired_rows(2) [OF keys, of cleanup] by simp
  moreover have "DeleteExpiredLab dr db' lab cleanup = (db', Ok False)"
    unfolding DeleteExpiredLab_def Let_def expired_rows(1) [OF keys] using assms(3,4) not_expired by (simp add: statement_def)
  moreover have "liveSession db' hash cleanup = Some (lab, UnixNano expires, UnixNano now)"
    using less by (simp add: liveSession_def row' session')
  moreover have "Load dr lab db' = Load dr lab db"
    by (simp add: db'_eq Load_def loadPlanes_def loadPortals_def loadObservers_def)
  ultimately show ?thesis using e ExpiredLabs_faultless [OF assms(3)] by simp
qed

section \<open>Witnesses\<close>

definition zeroReader :: "unit reader" where
  "zeroReader n r = ((replicate n CHR ''0'', None), r)"

definition constHash :: "string \<Rightarrow> string" where
  "constHash text = replicate 32 CHR ''h''"

lemma sample_newSession: "newSession lab hash empty_db"
  by (simp add: newSession_def newLab_def empty_db_def)

lemma token_length: "length (RawURLEncode (replicate 32 CHR ''0'')) = 43"
  by code_simp

theorem new_session_resolves_witness:
  "\<exists>db' db''. Service_Resolve constHash zeroReader sample_seeds reader Default boot_time empty_db () [] =
      ((db', ()), Ok \<lparr>rs_LabID = HexEncode (replicate 16 CHR ''0''), rs_ExpiresAt = Add boot_time (30 * 24 * 3600 * Second),
         rs_Token = RawURLEncode (replicate 32 CHR ''0''), rs_Reissue = True\<rparr>) \<and>
    Service_Resolve constHash zeroReader sample_seeds reader Default (Add boot_time Second) db' () (RawURLEncode (replicate 32 CHR ''0'')) =
      ((db'', ()), Ok \<lparr>rs_LabID = HexEncode (replicate 16 CHR ''0''), rs_ExpiresAt = Add boot_time (30 * 24 * 3600 * Second),
         rs_Token = [], rs_Reissue = False\<rparr>)"
proof -
  have cfg: "NewService Default = Ok ()" "LabEnergyMax Default = 100" "SessionTTL Default = 30 * 24 * 3600 * Second"
    "SessionRefreshInterval Default = 12 * 3600 * Second" "SessionTokenBytes Default = 32"
    by (simp_all add: NewService_def Default_def)
  have u: "UTC boot_time = boot_time" by (simp add: UTC_def boot_time_def)
  have "\<not> tokenShaped Default []" by (simp add: tokenShaped_def cfg EncodedLen_def)
  moreover have "0 < ns boot_time" "int64_time boot_time" "int64_time (Add boot_time (SessionTTL Default))"
    "ns boot_time \<le> ns (Add boot_time Second)" "ns (Add boot_time Second) < ns boot_time + SessionTTL Default"
    by (simp_all add: cfg boot_time_def int64_time_def int64_range_def)
  moreover have "Sub (Add boot_time Second) boot_time = Second" by (simp add: int64_range_def)
  ultimately show ?thesis
    using new_session_resolves [of reader sample_seeds Default constHash zeroReader "()" "replicate 32 CHR ''0''" "()"
        "replicate 16 CHR ''0''" "()" empty_db "[]" boot_time "Add boot_time Second"]
      reader_faultless sample_facts(1) cfg sample_newSession
    by (simp add: constHash_def zeroReader_def Let_def u) blast
qed

theorem session_outcomes_witness:
  "snd (Service_Resolve constHash (\<lambda>n r. (([], None), r)) sample_seeds reader Default boot_time empty_db () ''secret'') \<in>
    Fail ` session_errors"
proof -
  have cfg: "NewService Default = Ok ()" "SessionTokenBytes Default = 32" by (simp_all add: NewService_def Default_def)
  have "\<not> tokenShaped Default ''secret''" by (simp add: tokenShaped_def cfg EncodedLen_def)
  then have f: "\<exists>e. Service_Resolve constHash (\<lambda>n r. (([], None), r)) sample_seeds reader Default boot_time empty_db () ''secret'' =
      ((empty_db, ()), Fail e)"
    by (simp add: Service_Resolve_def createFresh_def readEntropy_def cfg)
  then obtain e where e: "Service_Resolve constHash (\<lambda>n r. (([], None), r)) sample_seeds reader Default boot_time empty_db () ''secret'' =
      ((empty_db, ()), Fail e)" by blast
  show ?thesis using session_outcomes [OF cfg(1) e] by (simp add: e)
qed

definition session_db :: Database where
  "session_db = withSession sample_seeds sample_lab (constHash []) empty_db boot_time Default"

lemma session_db_facts:
  "db_labs session_db = [(sample_lab, UnixNano boot_time, UnixNano (Add boot_time (SessionTTL Default)), UnixNano boot_time)]"
  "distinct (map fst (db_labs session_db))"
  by (simp_all add: session_db_def withSession_def empty_db_def)

theorem cleanup_deletes_expired_only_witness:
  "\<exists>db'. DeleteExpiredLab reader session_db sample_lab (Add boot_time (31 * 24 * 3600 * Second)) = (db', Ok True) \<and> newLab sample_lab db'"
proof -
  have "expired session_db (Add boot_time (31 * 24 * 3600 * Second)) sample_lab"
    by (simp add: expired_def session_db_facts UnixNano_def boot_time_def Default_def wrap64_id int64_range_def)
  then show ?thesis
    using cleanup_deletes_expired_only [OF reader_faultless session_db_facts(2) sample_facts(5) sample_facts(6) sample_facts(7),
        of "Add boot_time (31 * 24 * 3600 * Second)" None "[]" boot_time] by auto
qed

theorem renewal_protects_witness:
  "\<exists>db'. ResolveSession reader session_db (constHash []) (Add boot_time (13 * 3600 * Second)) Default =
      (db', Ok (Some (sample_lab, Add (Add boot_time (13 * 3600 * Second)) (SessionTTL Default), True))) \<and>
    DeleteExpiredLab reader db' sample_lab (Add boot_time (30 * 24 * 3600 * Second)) = (db', Ok False)"
proof -
  obtain now where now: "now = Add boot_time (13 * 3600 * Second)" by blast
  have cfg: "SessionTTL Default = 30 * 24 * 3600 * Second" "SessionRefreshInterval Default = 12 * 3600 * Second"
    by (simp_all add: Default_def)
  note times = boot_time_def UnixNano_def wrap64_id int64_range_def cfg now
  have "liveSession session_db (constHash []) now =
      Some (sample_lab, UnixNano (Add boot_time (SessionTTL Default)), UnixNano boot_time)"
    unfolding session_db_def by (simp add: withSession_live [OF sample_newSession] times)
  moreover have "SessionRefreshInterval Default \<le> Sub now (decodeTime (UnixNano boot_time))"
    by (simp add: decodeTime_def Sub_def times clamp64_id)
  moreover have "\<not> IsZero now" "0 < SessionTTL Default" "0 < SessionRefreshInterval Default"
    by (simp_all add: IsZero_def times)
  ultimately have "map_result id (snd (ResolveSession reader session_db (constHash []) now Default)) =
      Ok (Some (sample_lab, Add now (SessionTTL Default), True))"
    by (simp only: ResolveSession_faultless [OF reader_faultless] option.map prod.case Let_def if_True simp_thms)
  then obtain db' where r: "ResolveSession reader session_db (constHash []) now Default =
      (db', Ok (Some (sample_lab, Add now (SessionTTL Default), True)))"
    by (cases "ResolveSession reader session_db (constHash []) now Default"; cases "snd (ResolveSession reader session_db (constHash []) now Default)") auto
  have "int64_time (Add now (SessionTTL Default))" "int64_time (Add boot_time (30 * 24 * 3600 * Second))"
    "ns (Add boot_time (30 * 24 * 3600 * Second)) < ns (Add now (SessionTTL Default))"
    by (simp_all add: int64_time_def times)
  from renewal_protects [OF r session_db_facts(2) reader_faultless sample_facts(5) this] r show ?thesis
    unfolding now by blast
qed

end
