(* ===== verification/HttpProperties.thy ===== *)
theory HttpProperties
  imports Http TutorialProperties SessionProperties
begin

text \<open>
  What the HTTP interface promises: exact request bodies, answers to errors that leak
  nothing, one operation of the manager per request, and a lease around every handler.
\<close>

section \<open>Bodies\<close>

definition wellFormed :: "RequestBody \<Rightarrow> (string \<times> request_json) list \<Rightarrow> bool" where
  "wellFormed body request_fields \<longleftrightarrow> rb_size body \<le> 2 ^ 20 \<and> \<not> rb_rest body \<and> rb_values body = [RObject request_fields]"

lemma decodeExactObject_Some:
  "decodeExactObject body = Some request_fields \<longleftrightarrow> wellFormed body request_fields \<and> distinct (map fst request_fields)"
  by (auto simp: decodeExactObject_def wellFormed_def split: list.splits request_json.splits)

lemma unmarshal_facts:
  "unmarshalInt64 raw = Some i \<and> raw \<noteq> RNull \<longleftrightarrow> raw = RInt i \<and> int64_range i"
  "unmarshalString raw = Some label \<and> label \<noteq> [] \<longleftrightarrow> raw = RString label \<and> label \<noteq> []"
  by (cases raw; auto split: if_splits)+

lemma one_field: "length request_fields = Suc 0 \<Longrightarrow> map_of request_fields k = Some v \<longleftrightarrow> request_fields = [(k, v)]"
  by (cases request_fields) (auto split: if_splits)

text \<open>The bodies of a signal: the signal alone, or the details with their portal, in any order.\<close>

definition signal_text :: "TutorialSignal \<Rightarrow> string" where
  "signal_text signal = (case signal of TutorialSignalIntroCompleted \<Rightarrow> ''TUTORIAL_INTRO_COMPLETED''
     | TutorialSignalPortalDetailsOpened \<Rightarrow> ''PORTAL_DETAILS_OPENED'' | TutorialSignalEventLogOpened \<Rightarrow> ''EVENT_LOG_OPENED''
     | TutorialSignalOther s \<Rightarrow> s)"

lemma TutorialSignal_of_text:
  "IsTutorialSignal (TutorialSignal_of label) \<Longrightarrow> signal_text (TutorialSignal_of label) = label \<and> label \<noteq> []"
  by (auto simp: TutorialSignal_of_def IsTutorialSignal_def signal_text_def)

lemma TutorialSignal_of_signal: "IsTutorialSignal signal \<Longrightarrow> TutorialSignal_of (signal_text signal) = signal \<and> signal_text signal \<noteq> []"
  by (cases signal) (simp_all add: TutorialSignal_of_def IsTutorialSignal_def signal_text_def)

lemma two_fields:
  assumes "length request_fields = 2" and "k \<noteq> k'"
  shows "map_of request_fields k = Some v \<and> map_of request_fields k' = Some v' \<longleftrightarrow>
    request_fields \<in> {[(k, v), (k', v')], [(k', v'), (k, v)]}"
  using assms by (cases request_fields; cases "tl request_fields") (auto split: if_splits)

lemma portal_body: "decodePortalCommandBody body = Some confirm \<longleftrightarrow>
    wellFormed body [] \<and> \<not> confirm \<or> wellFormed body [(''confirm'', RBool confirm)]"
proof (cases "decodeExactObject body")
  case None
  then show ?thesis using decodeExactObject_Some [of body "[]"] decodeExactObject_Some [of body "[(''confirm'', RBool confirm)]"]
    by (simp add: decodePortalCommandBody_def)
next
  case (Some request_fields)
  then have w: "wellFormed body request_fields" by (simp add: decodeExactObject_Some)
  then have eq: "wellFormed body gs \<longleftrightarrow> gs = request_fields" for gs by (auto simp: wellFormed_def)
  show ?thesis
  proof (cases request_fields)
    case Nil
    then show ?thesis unfolding eq by (simp add: decodePortalCommandBody_def Some)
  next
    case (Cons f rest)
    obtain k v where f: "f = (k, v)" by (cases f)
    show ?thesis
    proof (cases rest)
      case Nil
      show ?thesis unfolding eq by (simp add: decodePortalCommandBody_def Some Cons Nil f) auto
    next
      case (Cons g rest')
      then show ?thesis unfolding eq
        by (simp add: decodePortalCommandBody_def Some \<open>request_fields = _\<close> split: option.split)
    qed
  qed
qed

lemma extraction_body: "decodeExtractionBody body = Some i \<longleftrightarrow> wellFormed body [(''plane_id'', RInt i)] \<and> int64_range i"
proof (cases "decodeExactObject body")
  case None
  then show ?thesis using decodeExactObject_Some [of body "[(''plane_id'', RInt i)]"]
    by (simp add: decodeExtractionBody_def)
next
  case (Some request_fields)
  then have w: "wellFormed body request_fields" by (simp add: decodeExactObject_Some)
  then have eq: "wellFormed body gs \<longleftrightarrow> gs = request_fields" for gs by (auto simp: wellFormed_def)
  show ?thesis
  proof (cases "length request_fields = Suc 0")
    case True
    then obtain k v where f: "request_fields = [(k, v)]" by (cases request_fields) auto
    show ?thesis using unmarshal_facts(1) [of v i]
      by (auto simp: decodeExtractionBody_def Some eq f split: option.splits)
  qed (auto simp: decodeExtractionBody_def Some eq split: option.splits)
qed

lemma signal_body: "decodeTutorialSignalBody body = Some (signal, portalID) \<longleftrightarrow> IsTutorialSignal signal \<and>
    (case portalID of
       None \<Rightarrow> signal \<noteq> TutorialSignalPortalDetailsOpened \<and> wellFormed body [(''signal'', RString (signal_text signal))]
     | Some i \<Rightarrow> signal = TutorialSignalPortalDetailsOpened \<and> 0 < i \<and> int64_range i \<and>
         (wellFormed body [(''signal'', RString (signal_text signal)), (''portal_id'', RInt i)] \<or>
          wellFormed body [(''portal_id'', RInt i), (''signal'', RString (signal_text signal))]))"
proof (cases "decodeExactObject body")
  case None
  then have "\<not> wellFormed body gs" if "distinct (map fst gs)" for gs using that decodeExactObject_Some [of body gs] by auto
  then show ?thesis by (simp add: decodeTutorialSignalBody_def None split: option.split)
next
  case (Some request_fields)
  then have w: "wellFormed body request_fields" by (simp add: decodeExactObject_Some)
  then have eq: "wellFormed body gs \<longleftrightarrow> request_fields = gs" for gs by (auto simp: wellFormed_def)
  let ?signal = "map_of request_fields ''signal''" and ?portal = "map_of request_fields ''portal_id''"
  have one: "request_fields = [(''signal'', v)] \<longleftrightarrow> ?signal = Some v \<and> ?portal = None \<and> length request_fields = 1" for v
    using one_field [of request_fields "''signal''" v] by auto
  have two: "request_fields = [(''signal'', v), (''portal_id'', v')] \<or> request_fields = [(''portal_id'', v'), (''signal'', v)] \<longleftrightarrow>
      ?signal = Some v \<and> ?portal = Some v' \<and> length request_fields = 2" for v v'
    using two_fields [of request_fields "''signal''" "''portal_id''" v v'] by auto
  show ?thesis
  proof (cases ?signal)
    case None
    then show ?thesis unfolding eq one two by (simp add: decodeTutorialSignalBody_def Some split: option.split)
  next
    case rawSignal: (Some rawSignal)
    show ?thesis
    proof (cases "\<exists>s. IsTutorialSignal s \<and> rawSignal = RString (signal_text s)")
      case False
      then have "unmarshalString rawSignal = Some label \<Longrightarrow> label = [] \<or> \<not> IsTutorialSignal (TutorialSignal_of label)" for label
        using unmarshal_facts(2) [of rawSignal label] TutorialSignal_of_text [of label] by metis
      then have "decodeTutorialSignalBody body = None"
        by (auto simp: decodeTutorialSignalBody_def Some rawSignal Let_def split: option.split)
      then show ?thesis using False unfolding eq one two by (auto simp: rawSignal split: option.split)
    next
      case True
      then obtain s where s: "IsTutorialSignal s" "rawSignal = RString (signal_text s)" by blast
      have t: "signal_text s = signal_text s' \<longleftrightarrow> s = s'" if "IsTutorialSignal s'" for s'
        using TutorialSignal_of_signal [OF s(1)] TutorialSignal_of_signal [OF that] by metis
      have d: "decodeTutorialSignalBody body =
          (if s = TutorialSignalPortalDetailsOpened
           then (case ?portal of None \<Rightarrow> None
                 | Some raw \<Rightarrow> if length request_fields \<noteq> 2 then None
                     else (case unmarshalInt64 raw of None \<Rightarrow> None
                           | Some i \<Rightarrow> if i \<le> 0 \<or> raw = RNull then None else Some (s, Some i)))
           else if ?portal \<noteq> None \<or> length request_fields \<noteq> 1 then None else Some (s, None))"
        using TutorialSignal_of_signal [OF s(1)] s by (simp add: decodeTutorialSignalBody_def Some rawSignal Let_def)
      show ?thesis
      proof (cases portalID)
        case None
        have "decodeTutorialSignalBody body = Some (signal, None) \<longleftrightarrow>
            s = signal \<and> s \<noteq> TutorialSignalPortalDetailsOpened \<and> ?portal = None \<and> length request_fields = 1"
          unfolding d by (simp split: option.split)
        then show ?thesis using t rawSignal s unfolding eq one two by (auto simp: None)
      next
        case portal: (Some i)
        have "decodeTutorialSignalBody body = Some (signal, Some i) \<longleftrightarrow> s = signal \<and> s = TutorialSignalPortalDetailsOpened \<and>
            (\<exists>raw. ?portal = Some raw \<and> length request_fields = 2 \<and> unmarshalInt64 raw = Some i \<and> 0 < i \<and> raw \<noteq> RNull)"
          unfolding d by (cases "?portal"; cases "unmarshalInt64 (the ?portal)") auto
        also have "\<dots> \<longleftrightarrow> s = signal \<and> s = TutorialSignalPortalDetailsOpened \<and> 0 < i \<and> int64_range i \<and>
            ?portal = Some (RInt i) \<and> length request_fields = 2"
          using unmarshal_facts(1) [of _ i] by metis
        finally show ?thesis using t rawSignal s unfolding eq one two by (auto simp: portal)
      qed
    qed
  qed
qed

text \<open>
  C22: the bodies the interface accepts, exactly.  At most a megabyte, one JSON object and
  nothing after it; a command has no field or a boolean \<open>confirm\<close>, the opening of an
  extraction its \<open>plane_id\<close> as an integer of 64 bits, a signal one of the three texts, with
  a positive \<open>portal_id\<close> if and only if it is about the details of a portal.  A null, a
  duplicate, an unknown or a missing field is refused.
\<close>

theorem request_bodies_exact:
  "(decodePortalCommandBody body = Some confirm \<longleftrightarrow>
      wellFormed body [] \<and> \<not> confirm \<or> wellFormed body [(''confirm'', RBool confirm)]) \<and>
   (decodeExtractionBody body = Some i \<longleftrightarrow> wellFormed body [(''plane_id'', RInt i)] \<and> int64_range i) \<and>
   (decodeEmptyBody body \<longleftrightarrow> wellFormed body []) \<and>
   (decodeTutorialSignalBody body = Some (signal, portalID) \<longleftrightarrow> IsTutorialSignal signal \<and>
     (case portalID of
        None \<Rightarrow> signal \<noteq> TutorialSignalPortalDetailsOpened \<and> wellFormed body [(''signal'', RString (signal_text signal))]
      | Some i \<Rightarrow> signal = TutorialSignalPortalDetailsOpened \<and> 0 < i \<and> int64_range i \<and>
          (wellFormed body [(''signal'', RString (signal_text signal)), (''portal_id'', RInt i)] \<or>
           wellFormed body [(''portal_id'', RInt i), (''signal'', RString (signal_text signal))])))"
  using portal_body extraction_body signal_body
  by (intro conjI) (simp_all only: decodeEmptyBody_def decodeExactObject_Some list.map distinct.simps simp_thms)

section \<open>Errors\<close>

lemma errors_Is_wrapped:
  assumes "\<And>msg e. target \<noteq> ErrorfWrap msg e" and "\<And>e. target \<noteq> RandomRestoreError e"
  shows "errors_Is (ErrorfWrap msg err) target = errors_Is err target" "errors_Is (RandomRestoreError err) target = errors_Is err target"
  using assms by auto

lemma DescribeDomainError_wrapped:
  "DescribeDomainError (Some (ErrorfWrap msg err)) = DescribeDomainError (Some err)"
  "DescribeDomainError (Some (RandomRestoreError err)) = DescribeDomainError (Some err)"
  by (simp_all add: DescribeDomainError_def known_errors_def)

lemma DescribeDomainError_Some:
  assumes "DescribeDomainError (Some err) = Some descriptor"
  shows "\<exists>known. errors_Is err known \<and> (known, ed_Code descriptor, ed_Confirmable descriptor) \<in> set known_errors \<and>
    ed_Message descriptor = Error_text known"
proof -
  obtain known code confirmable where f: "find (\<lambda>(known, _, _). errors_Is err known) known_errors = Some (known, code, confirmable)"
    and d: "descriptor = \<lparr>ed_Code = code, ed_Message = Error_text known, ed_Confirmable = confirmable\<rparr>"
    using assms by (auto simp: DescribeDomainError_def)
  from f obtain i where "i < length known_errors" "known_errors ! i = (known, code, confirmable)" "errors_Is err known"
    by (auto simp: find_Some_iff)
  then have "(known, code, confirmable) \<in> set known_errors \<and> errors_Is err known" by (metis nth_mem)
  then show ?thesis by (auto simp: d)
qed

text \<open>
  C23: how an error is answered depends only on its cause: wrapping it changes nothing, and
  two causes at once, an unknown cause or a broken invariant give the one internal error
  that says nothing.  Every other answer is a 404 or a 409 with the fixed text of a known
  error, and only the request for a confirmation can be confirmed.
\<close>

theorem error_responses:
  "writeDomainError (ErrorfWrap msg err) = writeDomainError err \<and> writeDomainError (ErrorsJoin err other) = writeInternal \<and>
   (isInvariantError err \<and> \<not> (errors_Is err ErrPortalNotFound \<or> errors_Is err ErrPlaneNotFound \<or>
       errors_Is err ErrTutorialNotReady \<or> errors_Is err ErrInvalidTutorialSignal) \<longrightarrow> writeDomainError err = writeInternal) \<and>
   (writeDomainError err = writeInternal \<or>
    (\<exists>status code message confirmable. writeDomainError err = writeError status code message confirmable \<and>
       (status = 404 \<or> status = 409) \<and> \<not> hasCompositeCause err \<and>
       (\<exists>known. errors_Is err known \<and> message = Error_text known \<and> (confirmable \<longleftrightarrow> known = ErrConfirmationRequired))))"
proof (intro conjI)
  show "writeDomainError (ErrorfWrap msg err) = writeDomainError err"
    by (simp add: writeDomainError_def isInvariantError_def DescribeDomainError_wrapped)
  show "writeDomainError (ErrorsJoin err other) = writeInternal" by (simp add: writeDomainError_def)
  show "isInvariantError err \<and> \<not> (errors_Is err ErrPortalNotFound \<or> errors_Is err ErrPlaneNotFound \<or>
       errors_Is err ErrTutorialNotReady \<or> errors_Is err ErrInvalidTutorialSignal) \<longrightarrow> writeDomainError err = writeInternal"
    by (simp add: writeDomainError_def)
  show "writeDomainError err = writeInternal \<or>
    (\<exists>status code message confirmable. writeDomainError err = writeError status code message confirmable \<and>
       (status = 404 \<or> status = 409) \<and> \<not> hasCompositeCause err \<and>
       (\<exists>known. errors_Is err known \<and> message = Error_text known \<and> (confirmable \<longleftrightarrow> known = ErrConfirmationRequired)))"
    (is "_ \<or> ?known")
  proof (cases "hasCompositeCause err")
    case False
    have k: ?known if "writeDomainError err = writeError status code (Error_text known) confirmable" "status = 404 \<or> status = 409"
      "errors_Is err known" "confirmable \<longleftrightarrow> known = ErrConfirmationRequired" for status code known confirmable
      using that False by blast
    consider "errors_Is err ErrPortalNotFound" | "\<not> errors_Is err ErrPortalNotFound" "errors_Is err ErrPlaneNotFound"
      | "\<not> errors_Is err ErrPortalNotFound" "\<not> errors_Is err ErrPlaneNotFound" "errors_Is err ErrTutorialNotReady"
      | "\<not> errors_Is err ErrPortalNotFound" "\<not> errors_Is err ErrPlaneNotFound" "\<not> errors_Is err ErrTutorialNotReady"
        "errors_Is err ErrInvalidTutorialSignal"
      | "\<not> errors_Is err ErrPortalNotFound" "\<not> errors_Is err ErrPlaneNotFound" "\<not> errors_Is err ErrTutorialNotReady"
        "\<not> errors_Is err ErrInvalidTutorialSignal" by blast
    then show ?thesis
    proof cases
      case 1
      then show ?thesis using k [of 404 "''PORTAL_NOT_FOUND''" ErrPortalNotFound False] False
        by (simp add: writeDomainError_def)
    next
      case 2
      then show ?thesis using k [of 404 "''PLANE_NOT_FOUND''" ErrPlaneNotFound False] False
        by (simp add: writeDomainError_def)
    next
      case 3
      then show ?thesis using k [of 409 "''TUTORIAL_NOT_READY''" ErrTutorialNotReady False] False
        by (simp add: writeDomainError_def)
    next
      case 4
      then show ?thesis using k [of 409 "''INVALID_TUTORIAL_SIGNAL''" ErrInvalidTutorialSignal False] False
        by (simp add: writeDomainError_def)
    next
      case 5
      show ?thesis
      proof (cases "isInvariantError err \<or> DescribeDomainError (Some err) = None")
        case True
        then show ?thesis using 5 False by (auto simp: writeDomainError_def)
      next
        case known: False
        then obtain descriptor where d: "DescribeDomainError (Some err) = Some descriptor" by blast
        obtain e where e: "errors_Is err e" "(e, ed_Code descriptor, ed_Confirmable descriptor) \<in> set known_errors"
          "ed_Message descriptor = Error_text e" using DescribeDomainError_Some [OF d] by blast
        have "ed_Confirmable descriptor \<longleftrightarrow> e = ErrConfirmationRequired" using e(2) by (auto simp: known_errors_def)
        then show ?thesis
          using k [of 409 "ed_Code descriptor" e "ed_Confirmable descriptor"] 5 False known d e(1,3)
          by (simp add: writeDomainError_def)
      qed
    qed
  qed (simp add: writeDomainError_def)
qed

theorem error_responses_witness:
  "writeDomainError (ErrorfWrap ''resolve tick'' ErrSimulationInvariant) = writeInternal \<and>
   writeDomainError (ErrorfWrap ''send'' ErrPortalBusy) = writeDomainError ErrPortalBusy"
  using error_responses [of "''send''" ErrPortalBusy] error_responses [of "''resolve tick''" ErrSimulationInvariant]
  by (simp add: isInvariantError_def)

section \<open>Requests\<close>

text \<open>The one operation of the manager a well-formed request is for, and what it returns.\<close>

definition requested ::
    "Endpoint \<Rightarrow> ('r, 'b, 'd) Env \<Rightarrow> call \<Rightarrow> string \<Rightarrow> RequestBody \<Rightarrow> ('r, 'd) LabManager \<Rightarrow>
     (('r, 'd) LabManager \<times> unit res) option" where
  "requested endpoint env c raw body m =
     (let (lock, now) = c; execute = (\<lambda>command. executeCommand env lock command now m);
          on_portal = (\<lambda>command. case (positiveID raw, decodePortalCommandBody body) of
             (Some i, Some confirm) \<Rightarrow> Some (execute (command i confirm)) | _ \<Rightarrow> None) in
      case endpoint of
        PostStabilize \<Rightarrow> on_portal (\<lambda>i _. CommandStabilize i)
      | PostClose \<Rightarrow> on_portal CommandClose
      | PostSendObserver \<Rightarrow> on_portal CommandSend
      | PostRecallObserver \<Rightarrow> on_portal CommandRecall
      | PostOpenExtraction \<Rightarrow> (case decodeExtractionBody body of
            Some i \<Rightarrow> if 0 < i then Some (execute (CommandOpenExtraction i)) else None | None \<Rightarrow> None)
      | PostStartTutorial \<Rightarrow> if decodeEmptyBody body then Some (StartTutorial env lock now m) else None
      | PostResetTutorial \<Rightarrow> if decodeEmptyBody body then Some (ManagerResetTutorial env lock now m) else None
      | PostTutorialSignal \<Rightarrow> map_option (\<lambda>(signal, portalID). ManagerTutorialSignal env lock signal portalID now m)
            (decodeTutorialSignalBody body)
      | PostStartLive \<Rightarrow> if decodeEmptyBody body then Some (StartLive env lock now m) else None
      | _ \<Rightarrow> None)"

definition changes_state :: "Endpoint \<Rightarrow> bool" where
  "changes_state endpoint \<longleftrightarrow> endpoint \<notin> {GetState, GetPortal, GetEvents}"

lemma handle_requested:
  assumes "changes_state endpoint"
  shows "(requested endpoint env c raw body m = None \<longrightarrow>
      (\<exists>r. handle endpoint cfg env c c' raw body m = (m, Ok r) \<and> rp_Status r = 400)) \<and>
    (\<forall>called. requested endpoint env c raw body m = Some called \<longrightarrow>
      handle endpoint cfg env c c' raw body m = respond cfg env c' called)"
proof -
  obtain lock now where c: "c = (lock, now)" by (cases c)
  have 400: "rp_Status invalidRequest = 400" "rp_Status (writeError 400 ''INVALID_PATH'' ''invalid portal id'' False) = 400"
    by (simp_all add: invalidRequest_def writeError_def writeJSON_def)
  show ?thesis
    using assms
    by (cases endpoint)
      (auto simp: changes_state_def requested_def c 400 portalCommand_def openExtraction_def startTutorial_def resetTutorial_def
        startLive_def tutorialSignal_def split: option.splits)
qed

lemma answer_status: "answer view result = Ok r \<Longrightarrow> rp_Status r = 200 \<or> r = writeInternal"
  by (auto simp: answer_def writeJSON_def split: result.splits)

text \<open>
  C20: a request that changes the laboratory is refused with a 400 before the manager is
  asked, and nothing has changed; or exactly the one operation it is for has run.  When that
  fails the answer is the one to its error, and the state is the one the operation left; when
  it succeeds the state is read again, and shown or, if that read fails, not shown: the
  success of the operation is never taken back.
\<close>

theorem state_requests:
  assumes "changes_state endpoint" and "handle endpoint cfg env c c' raw body m = (m', Ok r)"
  shows "case requested endpoint env c raw body m of
    None \<Rightarrow> rp_Status r = 400 \<and> m' = m
  | Some (m1, Fail e) \<Rightarrow> r = writeDomainError e \<and> m' = m1
  | Some (m1, Ok _) \<Rightarrow> m' = fst (State env (fst c') (snd c') m1) \<and>
      (r = writeInternal \<or> (\<exists>snapshot resolvedAt view. State env (fst c') (snd c') m1 = (m', Ok snapshot) \<and>
         s_LastTickAt (sn_Simulation snapshot) = Some resolvedAt \<and>
         BuildStateSnapshot snapshot (UTC resolvedAt) cfg = Ok view \<and> r = writeJSON 200 (ViewState view)))
  | Some (m1, Panic) \<Rightarrow> False"
proof (cases "requested endpoint env c raw body m")
  case None
  then show ?thesis using handle_requested [OF assms(1), of env c raw body m cfg c'] assms(2) by auto
next
  case (Some called)
  obtain m1 result where called: "called = (m1, result)" by (cases called)
  have h: "respond cfg env c' (m1, result) = (m', Ok r)"
    using handle_requested [OF assms(1), of env c raw body m cfg c'] assms(2) Some called by simp
  show ?thesis
  proof (cases result)
    case (Ok u)
    obtain m2 s where s: "State env (fst c') (snd c') m1 = (m2, s)" by (cases "State env (fst c') (snd c') m1")
    have a: "m' = m2" "answer ViewState (rbind s (\<lambda>snapshot. rbind (snapshotResolvedAt snapshot) (\<lambda>resolvedAt.
        BuildStateSnapshot snapshot resolvedAt cfg))) = Ok r"
      using h by (simp_all add: Ok respond_def writeFreshState_def getState_def s)
    have "r = writeInternal \<or> (\<exists>snapshot resolvedAt view. s = Ok snapshot \<and> s_LastTickAt (sn_Simulation snapshot) = Some resolvedAt \<and>
         BuildStateSnapshot snapshot (UTC resolvedAt) cfg = Ok view \<and> r = writeJSON 200 (ViewState view))"
    proof (cases "rbind s (\<lambda>snapshot. rbind (snapshotResolvedAt snapshot) (\<lambda>resolvedAt. BuildStateSnapshot snapshot resolvedAt cfg))")
      case (Ok view)
      then obtain snapshot resolvedAt where "s = Ok snapshot" "snapshotResolvedAt snapshot = Ok resolvedAt"
        "BuildStateSnapshot snapshot resolvedAt cfg = Ok view" by auto
      then show ?thesis using a(2) Ok by (auto simp: answer_def snapshotResolvedAt_def split: option.splits if_splits)
    qed (use a(2) in \<open>simp_all add: answer_def\<close>)
    then show ?thesis using Some called Ok s a(1) by simp
  next
    case (Fail e)
    then show ?thesis using h Some called by (simp add: respond_def)
  next
    case Panic
    then show ?thesis using h Some called by (simp add: respond_def)
  qed
qed

text \<open>A sequence of requests, each with room for the IDs it may use.\<close>

inductive http_run :: "Config \<Rightarrow> ('r, 'b, 'd) Env \<Rightarrow> ('r, 'd) LabManager \<Rightarrow> ('r, 'd) LabManager \<Rightarrow> bool" for cfg env where
  start: "http_run cfg env m m"
| request: "http_run cfg env m m' \<Longrightarrow> room 16 (m_snapshot m') \<Longrightarrow> handle endpoint cfg env c c' raw body m' = (m'', result) \<Longrightarrow>
    http_run cfg env m m''"

lemma manager_run_trans: "manager_run env m' m'' \<Longrightarrow> manager_run env m m' \<Longrightarrow> manager_run env m m''"
  by (induction rule: manager_run.induct) (auto intro: manager_run.intros)

lemma step_room:
  assumes "manager_step env m m'" and "room 16 (m_snapshot m)"
  shows "room 8 (m_snapshot m')"
  using manager_step_effect [OF assms(1)] assms(2)
  by (auto simp: rolls_back_def commits_def only_ticks_def moves_def)

lemma reset_room:
  assumes "ManagerResetTutorial env lock now m = (m', result)" and "room 16 (m_snapshot m)"
  shows "room 8 (m_snapshot m')"
  using assms(1)
proof (cases rule: reset_cases)
  case failed
  then show ?thesis using assms(2) by simp
next
  case published
  then obtain roster where "\<lparr>sn_Simulation =
             \<lparr>s_Lab = \<lparr>l_EnergyBase = LabEnergyMax (en_cfg env), l_EnergyBaseAt = UTC now, l_LeylineOverrideUntil = None\<rparr>,
              s_Portals = [],
              s_Planes = map (\<lambda>pl. pl\<lparr>pl_Explored := False, pl_ExploredAt := None\<rparr>) (s_Planes (sn_Simulation (m_snapshot m))),
              s_Observers = roster, s_NextPortalID = 1, s_NaturalSpawn = pausedSpawn, s_LastTickAt = None\<rparr>,
           sn_App = \<lparr>a_Mode = ModeTutorial, a_TutorialStep = 0, a_TutorialPhase = TutorialPhaseNone,
              a_TutorialPortalID = None, a_TutorialPlaneID = None, a_TutorialObserverID = None\<rparr>\<rparr> = m_snapshot m'"
    by (auto simp: canonicalTutorialSnapshot_def)
  from arg_cong [OF this, of "\<lambda>s. s_NextPortalID (sn_Simulation s)"]
  have "s_NextPortalID (sn_Simulation (m_snapshot m')) = 1" by simp
  then show ?thesis by simp
qed

lemma State_run:
  assumes "room 8 (m_snapshot m)" shows "manager_run env m (fst (State env lock now m))"
proof -
  obtain m' s where "State env lock now m = (m', s)" by (cases "State env lock now m")
  from manager_run.step [OF manager_run.start assms manager_step.state [OF this]] show ?thesis
    by (simp add: \<open>State env lock now m = (m', s)\<close>)
qed

lemma requested_run:
  assumes "requested endpoint env c raw body m = Some (m1, result)" and "room 16 (m_snapshot m)"
  shows "manager_run env m m1 \<and> room 8 (m_snapshot m1)"
proof -
  obtain lock now where c: "c = (lock, now)" by (cases c)
  have s: "manager_run env m m1 \<and> room 8 (m_snapshot m1)" if "manager_step env m m1"
    using manager_run.step [OF manager_run.start _ that] step_room [OF that assms(2)] assms(2) by simp
  have r: "manager_run env m m1 \<and> room 8 (m_snapshot m1)" if "ManagerResetTutorial env lock now m = (m1, result)"
    using manager_run.reset [OF manager_run.start that] reset_room [OF that assms(2)] by simp
  have "manager_step env m m1 \<or> ManagerResetTutorial env lock now m = (m1, result)"
    using assms(1)
    by (cases endpoint)
      (auto simp: requested_def c split: option.splits if_splits
        intro: manager_step.command manager_step.start_tutorial manager_step.signal manager_step.start_live)
  then show ?thesis using s r by blast
qed

lemma respond_state:
  "fst (respond cfg env c' (m1, result)) = (case result of Ok _ \<Rightarrow> fst (State env (fst c') (snd c') m1) | _ \<Rightarrow> m1)"
  by (auto simp: respond_def writeFreshState_def getState_def split: result.split prod.split)

lemma handle_run:
  assumes "room 16 (m_snapshot m)" and "handle endpoint cfg env c c' raw body m = (m', result)"
  shows "manager_run env m m'"
proof (cases "changes_state endpoint")
  case True
  show ?thesis
  proof (cases "requested endpoint env c raw body m")
    case None
    then show ?thesis using handle_requested [OF True, of env c raw body m cfg c'] assms(2) manager_run.start by auto
  next
    case (Some called)
    obtain m1 q where called: "called = (m1, q)" by (cases called)
    have "m' = fst (respond cfg env c' (m1, q))"
      using handle_requested [OF True, of env c raw body m cfg c'] assms(2) Some called by (metis fst_conv)
    then have m': "m' = m1 \<or> m' = fst (State env (fst c') (snd c') m1)" by (simp add: respond_state split: result.splits)
    note run = requested_run [OF Some [unfolded called] assms(1)]
    have "manager_run env m1 (fst (State env (fst c') (snd c') m1))" by (rule State_run) (use run in simp)
    from manager_run_trans [OF this] run m' show ?thesis by blast
  qed
next
  case False
  then consider "endpoint = GetState" | "endpoint = GetPortal" | "endpoint = GetEvents" by (auto simp: changes_state_def)
  then show ?thesis
  proof cases
    case 1
    then have "m' = fst (State env (fst c) (snd c) m)" using assms(2) by (auto simp: getState_def split: prod.splits)
    then show ?thesis using State_run [of m env "fst c" "snd c"] assms(1) by simp
  next
    case 2
    show ?thesis
    proof (cases "positiveID raw")
      case (Some i)
      obtain m1 q where p: "PortalState env (fst c) (snd c) i m = (m1, q)" by (cases "PortalState env (fst c) (snd c) i m")
      have "m' = m1" using assms(2) 2 p by (auto simp: getPortal_def Some split: result.splits prod.splits)
      then show ?thesis using manager_run.step [OF manager_run.start _ manager_step.portal_state [OF p]] assms(1) by simp
    qed (use assms(2) 2 manager_run.start in \<open>auto simp: getPortal_def\<close>)
  qed (use assms(2) manager_run.start in auto)
qed

lemma http_run_manager: "http_run cfg env m m' \<Longrightarrow> manager_run env m m'"
  by (induction rule: http_run.induct) (auto intro: manager_run.start manager_run_trans [OF handle_run])

text \<open>
  C19: no sequence of requests, well formed or not, whatever fails, takes a laboratory out of
  the states its manager guarantees: it is a run of the operations of the manager, the
  portals stay well formed, and the tutorial can go on or is over.
\<close>

theorem requests_keep_laboratory:
  assumes "http_run cfg env m m'" and "m_snapshot m = initialSnapshot seeds t" and "0 \<le> MaxActivePortals (en_cfg env)"
  shows "manager_run env m m' \<and> aggregate_ok (en_cfg env) (sn_Simulation (m_snapshot m')) \<and>
    (sn_App (m_snapshot m') = live_app \<or> (\<exists>action. ExpectedTutorialAction (sn_App (m_snapshot m')) = Ok action))"
proof -
  have run: "manager_run env m m'" by (rule http_run_manager [OF assms(1)])
  have "aggregate_ok (en_cfg env) (sn_Simulation (m_snapshot m))"
    by (simp add: assms(2) initialSnapshot_def aggregate_ok_def open_slots_def)
  from manager_run_ok [OF run this] have ok: "aggregate_ok (en_cfg env) (sn_Simulation (m_snapshot m'))" .
  have "a_Mode (sn_App (m_snapshot m)) = ModeTutorial \<and> tutorial_ok (sn_App (m_snapshot m))"
    by (simp add: assms(2) initialSnapshot_def tutorial_ok_def)
  with run_app [OF run] have "a_Mode (sn_App (m_snapshot m')) = ModeTutorial \<and> tutorial_ok (sn_App (m_snapshot m')) \<or>
    sn_App (m_snapshot m') = live_app" by blast
  then show ?thesis using ok run expected_action [of "sn_App (m_snapshot m')"] by (auto simp: is_Ok_iff)
qed

section \<open>Routes\<close>

text \<open>Only a \<open>POST\<close> reaches a handler that changes the laboratory by a command.\<close>

lemma route_method: "(m, pattern, ToHandler endpoint) \<in> set newRoutes \<Longrightarrow> m = Some (if changes_state endpoint then ''POST'' else ''GET'')"
  by (auto simp: newRoutes_def changes_state_def)

lemma routes_distinct: "distinct (map (fst \<circ> snd) newRoutes)"
  by (simp add: newRoutes_def)

lemma elements_confined:
  "set ks \<inter> {[], a, b} = {} \<Longrightarrow>
    set (fold (\<lambda>e ks. if e = [] \<or> e = a then ks else if e = b then tl ks else e # ks) es ks) \<inter> {[], a, b} = {}"
proof (induction es arbitrary: ks)
  case (Cons x es)
  have "set (if x = [] \<or> x = a then ks else if x = b then tl ks else x # ks) \<inter> {[], a, b} = {}"
    using Cons.prems by (cases ks) (simp_all add: eq_commute [of _ x])
  from Cons.IH [OF this] show ?case by simp
qed simp

lemma cleanElements_confined: "set (cleanElements path) \<inter> {[], ''.'', ''..''} = {}"
  unfolding cleanElements_def set_rev by (rule elements_confined) simp

text \<open>A page served from the web root is a file below it, and never a path of the interface.\<close>

lemma static_files_confined:
  assumes "productionPage isFile httpMethod path = StaticFile name"
  shows "isFile name \<and> (\<exists>es. name = joinPath es \<and> ''..'' \<notin> set es) \<and> \<not> HasPrefix path ''/api/'' \<and>
    (httpMethod = ''GET'' \<or> httpMethod = ''HEAD'')"
  using assms cleanElements_confined [of path]
  by (auto simp: productionPage_def Let_def split: if_splits)

section \<open>The session of a request\<close>

lemma refreshed_session:
  assumes "refreshSession dr db hash lab expires now = Ok db'" and "map_of (db_sessions db) hash = Some (lab, e, s)"
  shows "map_of (db_sessions db') hash = Some (lab, UnixNano expires, UnixNano now)"
  using assms map_of_refreshed [OF assms(2) refl]
  by (auto simp: refreshSession_def statement_def split: option.splits)

text \<open>
  C21: the laboratory that serves a request is the one its cookie stands for afterwards.  A
  request that is served holds the lease of that laboratory while its handler runs, and
  gives it back after it; the cookie it was sent, or else the one it is given, is the token
  of a session of that laboratory.  A request that is not served is given no cookie.
\<close>

theorem cookie_names_laboratory:
  assumes "NewService cfg = Ok ()"
    and "sessionMiddleware cfg secure (\<lambda>(db, r) token. Service_Resolve Sum256 Read seeds dr cfg instant db r token)
      Acquire Release handler (db, r) cookie = (w', issued, result)"
  shows "issued = None \<and> (result = Ok writeInternal \<or> result = Panic) \<or>
    (\<exists>lab db1 r1 w2 lease w3.
      fst (Service_Resolve Sum256 Read seeds dr cfg instant db r (case cookie of Some given \<Rightarrow> given | None \<Rightarrow> [])) = (db1, r1) \<and>
      Acquire (db1, r1) lab = (w2, Ok lease) \<and> handler w2 lease = (w3, result) \<and> w' = Release w3 lease \<and>
      (case issued of
         None \<Rightarrow> \<exists>given expiry seen. cookie = Some given \<and> liveSession db (Sum256 given) (UTC instant) = Some (lab, expiry, seen)
       | Some set_cookie \<Rightarrow> ck_HttpOnly set_cookie \<and> ck_Secure set_cookie = secure \<and>
           map_of (db_sessions db1) (Sum256 (ck_Value set_cookie)) =
             Some (lab, UnixNano (ck_Expires set_cookie), UnixNano (UTC instant))))"
proof -
  let ?token = "case cookie of Some given \<Rightarrow> given | None \<Rightarrow> []"
  have ttl: "SessionTokenBytes cfg = 32" using assms(1) by (auto simp: NewService_def split: if_splits)
  obtain db1 r1 q where res: "Service_Resolve Sum256 Read seeds dr cfg instant db r ?token = ((db1, r1), q)"
    by (metis surj_pair)
  show ?thesis
  proof (cases q)
    case (Ok session)
    note out = session_outcomes [OF assms(1) res, unfolded Ok result.case]
    obtain w2 l where acq: "Acquire (db1, r1) (rs_LabID session) = (w2, l)" by (metis surj_pair)
    show ?thesis
    proof (cases l)
      case lease: (Ok lease)
      obtain w3 response where h: "handler w2 lease = (w3, response)" by (metis surj_pair)
      let ?held_token = "if rs_Token session \<noteq> [] then rs_Token session else ?token"
      have m: "w' = Release w3 lease" "result = response" "rs_Reissue session \<longleftrightarrow> issued \<noteq> None"
        "issued = Some ck \<Longrightarrow> ck_Value ck = ?held_token \<and> ck_HttpOnly ck \<and> ck_Secure ck = secure \<and> ck_Expires ck = rs_ExpiresAt session" for ck
        using assms(2) by (auto simp: sessionMiddleware_def res Ok acq lease h Let_def split: if_splits)
      have served: ?thesis if "case issued of
         None \<Rightarrow> \<exists>given expiry seen. cookie = Some given \<and>
           liveSession db (Sum256 given) (UTC instant) = Some (rs_LabID session, expiry, seen)
       | Some ck \<Rightarrow> ck_HttpOnly ck \<and> ck_Secure ck = secure \<and> map_of (db_sessions db1) (Sum256 (ck_Value ck)) =
           Some (rs_LabID session, UnixNano (ck_Expires ck), UnixNano (UTC instant))"
        by (intro disjI2 exI [of _ "rs_LabID session"] exI [of _ db1] exI [of _ r1] exI [of _ w2] exI [of _ lease] exI [of _ w3] conjI)
          (use that m(1,2) acq lease h res in simp_all)
      show ?thesis
      proof (cases "rs_Token session = []")
        case False
        then have "rs_Reissue session" "map_of (db_sessions db1) (Sum256 (rs_Token session)) =
            Some (rs_LabID session, UnixNano (rs_ExpiresAt session), UnixNano (UTC instant))" using out by simp_all
        moreover from this m(3) obtain ck where "issued = Some ck" by blast
        ultimately show ?thesis using m(4) [of ck] False by (intro served) simp
      next
        case True
        obtain expiry seen where live: "liveSession db (Sum256 ?token) (UTC instant) = Some (rs_LabID session, expiry, seen)"
          and shaped: "tokenShaped cfg ?token" using out True by auto
        then obtain given where given: "cookie = Some given"
          by (cases cookie) (auto simp: tokenShaped_def ttl EncodedLen_def)
        show ?thesis
        proof (cases issued)
          case None
          then show ?thesis using live given by (intro served) simp
        next
          case (Some ck)
          then have reissue: "rs_Reissue session" using m(3) by simp
          obtain d p where resolve: "ResolveSession dr db (Sum256 given) (UTC instant) cfg = (d, p)" by (metis surj_pair)
          have p: "p = Ok (Some (rs_LabID session, rs_ExpiresAt session, True)) \<and> d = db1"
          proof (cases "\<exists>x. p = Ok (Some x)")
            case True
            then show ?thesis using res shaped reissue
              by (auto simp: Service_Resolve_def Let_def given resolve Ok)
          next
            case no: False
            then have "liveSession db (Sum256 given) (UTC instant) = None \<or> \<not> is_Ok p \<or> p = Ok None"
              by (cases p) auto
            then have "createFresh Sum256 Read seeds dr cfg (UTC instant) d r = ((db1, r1), Ok session) \<or> \<not> is_Ok p"
              using res shaped no by (cases p) (auto simp: Service_Resolve_def Let_def given resolve Ok split: option.splits)
            then have "rs_Token session \<noteq> []"
            proof
              assume "createFresh Sum256 Read seeds dr cfg (UTC instant) d r = ((db1, r1), Ok session)"
              from createFresh_outcome [OF this assms(1)] show ?thesis by (auto simp: tokenShaped_def ttl EncodedLen_def)
            next
              assume "\<not> is_Ok p"
              then show ?thesis using res shaped
                by (cases p) (auto simp: Service_Resolve_def Let_def given resolve Ok)
            qed
            then show ?thesis using True by simp
          qed
          from ResolveSession_live [OF resolve [unfolded conjunct1 [OF p]]]
          have "refreshSession dr db (Sum256 given) (rs_LabID session) (rs_ExpiresAt session) (UTC instant) = Ok d" by auto
          moreover have "map_of (db_sessions db) (Sum256 given) = Some (rs_LabID session, expiry, seen)"
            using live given by (auto simp: liveSession_def split: option.splits if_splits)
          ultimately have "map_of (db_sessions db1) (Sum256 given) =
              Some (rs_LabID session, UnixNano (rs_ExpiresAt session), UnixNano (UTC instant))"
            using refreshed_session p by blast
          then show ?thesis using m(4) [OF Some] Some True given by (intro served) simp
        qed
      qed
    qed (use assms(2) in \<open>auto simp: sessionMiddleware_def res Ok acq Let_def\<close>)
  qed (use assms(2) in \<open>auto simp: sessionMiddleware_def res Let_def\<close>)
qed

section \<open>Instances\<close>

text \<open>The body \<open>{}\<close>.\<close>

definition sample_body :: RequestBody where
  "sample_body = \<lparr>rb_size = 2, rb_values = [RObject []], rb_rest = False\<rparr>"

lemma canceled_read [simp]: "State env (Some e) now m = (m, Fail e)"
  by (simp add: State_def resolveLocked_def transaction_def)

text \<open>A reset whose own read of the new state loses its wait for the lock.\<close>

lemma sample_reset_request:
  "\<exists>db'. requested PostResetTutorial sample_env (None, boot_time) [] sample_body sample_manager =
      Some (sample_manager\<lparr>m_repo := db', m_updates := True\<rparr>, Ok ()) \<and>
    handle PostResetTutorial Default sample_env (None, boot_time) (Some ErrContextCanceled, boot_time) [] sample_body sample_manager =
      (sample_manager\<lparr>m_repo := db', m_updates := True\<rparr>, Ok writeInternal)"
proof -
  have "decodeEmptyBody sample_body" by (simp add: decodeEmptyBody_def decodeExactObject_def sample_body_def)
  then show ?thesis
    using sample_manager_reset
    by (auto simp: requested_def resetTutorial_def respond_def writeFreshState_def getState_def
        answer_def)
qed

theorem state_requests_witness:
  "\<exists>db'. handle PostResetTutorial Default sample_env (None, boot_time) (Some ErrContextCanceled, boot_time) [] sample_body
      sample_manager = (sample_manager\<lparr>m_repo := db', m_updates := True\<rparr>, Ok writeInternal) \<and>
    fst (State sample_env (Some ErrContextCanceled) boot_time (sample_manager\<lparr>m_repo := db', m_updates := True\<rparr>)) =
      sample_manager\<lparr>m_repo := db', m_updates := True\<rparr>"
proof -
  obtain db' where r: "requested PostResetTutorial sample_env (None, boot_time) [] sample_body sample_manager =
      Some (sample_manager\<lparr>m_repo := db', m_updates := True\<rparr>, Ok ())"
    and h: "handle PostResetTutorial Default sample_env (None, boot_time) (Some ErrContextCanceled, boot_time) [] sample_body
      sample_manager = (sample_manager\<lparr>m_repo := db', m_updates := True\<rparr>, Ok writeInternal)"
    using sample_reset_request by blast
  have "changes_state PostResetTutorial" by (simp add: changes_state_def)
  from state_requests [OF this h] show ?thesis using r h by auto
qed

theorem requests_keep_laboratory_witness:
  "\<exists>db'. http_run Default sample_env sample_manager (sample_manager\<lparr>m_repo := db', m_updates := True\<rparr>) \<and>
    aggregate_ok Default (sn_Simulation (m_snapshot (sample_manager\<lparr>m_repo := db', m_updates := True\<rparr>)))"
proof -
  obtain db' where h: "handle PostResetTutorial Default sample_env (None, boot_time) (Some ErrContextCanceled, boot_time) []
      sample_body sample_manager = (sample_manager\<lparr>m_repo := db', m_updates := True\<rparr>, Ok writeInternal)"
    using sample_reset_request by blast
  have snapshot: "m_snapshot sample_manager = initialSnapshot sample_seeds boot_time" by (simp add: sample_manager_def)
  then have "room 16 (m_snapshot sample_manager)" by (simp add: initialSnapshot_def)
  from http_run.request [OF http_run.start this h]
  have run: "http_run Default sample_env sample_manager (sample_manager\<lparr>m_repo := db', m_updates := True\<rparr>)" .
  have "en_cfg sample_env = Default" "0 \<le> MaxActivePortals Default" by (simp_all add: sample_env_def Default_def)
  with requests_keep_laboratory [OF run snapshot] run show ?thesis by auto
qed

text \<open>A first visit: no cookie comes, and the one that goes back is of the laboratory that served.\<close>

theorem cookie_names_laboratory_witness:
  "\<exists>w' ck. sessionMiddleware Default True (\<lambda>(db, r) token. Service_Resolve constHash zeroReader sample_seeds reader Default boot_time db r token)
      (\<lambda>w lab. (w, Ok lab)) (\<lambda>w lease. w) (\<lambda>w lease. (w, Ok (writeError 200 lease [] False))) (empty_db, ()) None =
    (w', Some ck, Ok (writeError 200 (HexEncode (replicate 16 CHR ''0'')) [] False)) \<and>
    map_of (db_sessions (fst w')) (constHash (ck_Value ck)) =
      Some (HexEncode (replicate 16 CHR ''0''), UnixNano (ck_Expires ck), UnixNano (UTC boot_time))"
proof -
  let ?lab = "HexEncode (replicate 16 CHR ''0'')" and ?token = "RawURLEncode (replicate 32 CHR ''0'')"
  let ?db' = "withSession sample_seeds ?lab (constHash ?token) empty_db (UTC boot_time) Default"
  have cfg: "NewService Default = Ok ()" "LabEnergyMax Default = 100" "SessionTTL Default = 30 * 24 * 3600 * Second"
    "SessionTokenBytes Default = 32"
    by (simp_all add: NewService_def Default_def)
  have cookie: "\<not> tokenShaped Default []" by (simp add: tokenShaped_def cfg EncodedLen_def)
  have "0 < ns boot_time" "int64_time boot_time" "int64_time (Add boot_time (SessionTTL Default))"
    by (simp_all add: cfg boot_time_def int64_time_def int64_range_def)
  then have resolved: "Service_Resolve constHash zeroReader sample_seeds reader Default boot_time empty_db () [] =
      ((?db', ()), Ok \<lparr>rs_LabID = ?lab, rs_ExpiresAt = Add (UTC boot_time) (SessionTTL Default), rs_Token = ?token,
         rs_Reissue = True\<rparr>)"
    using first_visit [of reader sample_seeds Default constHash zeroReader "()" "replicate 32 CHR ''0''" "()"
        "replicate 16 CHR ''0''" "()" empty_db "[]" boot_time] reader_faultless sample_facts(1) cfg cookie sample_newSession
    by (simp add: constHash_def zeroReader_def)
  obtain ck where served: "sessionMiddleware Default True
      (\<lambda>(db, r) token. Service_Resolve constHash zeroReader sample_seeds reader Default boot_time db r token)
      (\<lambda>w lab. (w, Ok lab)) (\<lambda>w lease. w) (\<lambda>w lease. (w, Ok (writeError 200 lease [] False))) (empty_db, ()) None =
    ((?db', ()), Some ck, Ok (writeError 200 ?lab [] False))"
    by (simp add: sessionMiddleware_def resolved)
  from cookie_names_laboratory [OF cfg(1) served] served show ?thesis
    by (auto simp: resolved writeInternal_def writeError_def writeJSON_def)
qed

end
