(* ===== verification/Registry.thy ===== *)
theory Registry
  imports Persistence "HOL-Library.Multiset"
begin

text \<open>
  The registry of running laboratories (\<open>internal/labruntime/registry.go\<close>).  Its mutex makes
  every critical section one atomic step, so each section is a function on the registry, and
  a concurrent execution is a sequence of such steps of the operations in flight.  Entries
  are objects: an operation keeps the address of its entry from one section to the next.
\<close>

section \<open>State\<close>

text \<open>
  A runtime is the number of its manager and hub, in the order of their creation.  A busy
  entry has a channel that its operation will close; whoever waits for it starts again.
\<close>

record entry =
  rt_runtime :: "nat option"
  rt_refs :: int
  rt_busy :: bool

record Registry =
  rg_heap :: "nat \<Rightarrow> entry"
  rg_next :: nat
  rg_entries :: "LabID \<rightharpoonup> nat"
  rg_closed :: bool
  rg_operations :: int

definition ErrClosed :: error where
  "ErrClosed = Errorf ''laboratory runtime registry closed''"

definition newEntry :: entry where
  "newEntry = \<lparr>rt_runtime = None, rt_refs = 0, rt_busy = False\<rparr>"

definition NewRegistry :: Registry where
  "NewRegistry = \<lparr>rg_heap = (\<lambda>_. newEntry), rg_next = 0, rg_entries = Map.empty, rg_closed = False, rg_operations = 0\<rparr>"

definition update_entry :: "nat \<Rightarrow> (entry \<Rightarrow> entry) \<Rightarrow> Registry \<Rightarrow> Registry" where
  "update_entry a f r = r\<lparr>rg_heap := (rg_heap r)(a := f (rg_heap r a))\<rparr>"

definition leaseLocked :: "nat \<Rightarrow> Registry \<Rightarrow> Registry" where
  "leaseLocked a r = update_entry a (\<lambda>e. e\<lparr>rt_refs := rt_refs e + 1\<rparr>) r"

definition releaseLease :: "nat \<Rightarrow> Registry \<Rightarrow> Registry" where
  "releaseLease a r = update_entry a (\<lambda>e. e\<lparr>rt_refs := rt_refs e - 1\<rparr>) r"

text \<open>A new entry in the map, busy from the start.\<close>

definition publishEntry :: "LabID \<Rightarrow> Registry \<Rightarrow> Registry" where
  "publishEntry i r = r\<lparr>rg_heap := (rg_heap r)(rg_next r := newEntry\<lparr>rt_busy := True\<rparr>), rg_next := rg_next r + 1,
     rg_entries := (rg_entries r)(i \<mapsto> rg_next r)\<rparr>"

section \<open>Acquire\<close>

datatype admission = Rejected error | Waiting | Leased nat | Load_entry nat

definition acquireEnter :: "LabID \<Rightarrow> Registry \<Rightarrow> Registry \<times> admission" where
  "acquireEnter i r =
     (if \<not> LabID_valid i then (r, Rejected (Errorf ''invalid laboratory ID''))
      else if rg_closed r then (r, Rejected ErrClosed)
      else let create = ((publishEntry i r)\<lparr>rg_operations := rg_operations r + 1\<rparr>, Load_entry (rg_next r)) in
        (case rg_entries r i of
           None \<Rightarrow> create
         | Some a \<Rightarrow>
             if rt_busy (rg_heap r a) then (r, Waiting)
             else if rt_runtime (rg_heap r a) \<noteq> None then (leaseLocked a r, Leased a)
             else create))"

text \<open>The section after the load of the laboratory, whose outcome is a runtime or an error.\<close>

definition acquireFinish :: "LabID \<Rightarrow> nat \<Rightarrow> nat res \<Rightarrow> Registry \<Rightarrow> Registry \<times> nat res" where
  "acquireFinish i a loaded r =
     (let r = update_entry a (\<lambda>e. e\<lparr>rt_runtime := (case loaded of Ok runtime \<Rightarrow> Some runtime | _ \<Rightarrow> None), rt_busy := False\<rparr>) r;
          ended = (\<lambda>r. r\<lparr>rg_operations := rg_operations r - 1\<rparr>) in
      case loaded of
        Ok runtime \<Rightarrow> if rg_closed r then (ended r, Fail ErrClosed) else (ended (leaseLocked a r), Ok a)
      | Fail e \<Rightarrow> (ended (r\<lparr>rg_entries := (rg_entries r)(i := None)\<rparr>), Fail e)
      | Panic \<Rightarrow> (r, Panic))"

section \<open>Ticks\<close>

definition tickable :: "Registry \<Rightarrow> nat \<Rightarrow> bool" where
  "tickable r a \<longleftrightarrow> \<not> rt_busy (rg_heap r a) \<and> rt_runtime (rg_heap r a) \<noteq> None"

text \<open>The order is the one in which the map happens to be iterated.\<close>

definition tickEnter :: "LabID list \<Rightarrow> Registry \<Rightarrow> Registry \<times> nat list res" where
  "tickEnter order r =
     (if rg_closed r then (r, Fail ErrClosed)
      else let leases = filter (tickable r) (map (\<lambda>i. the (rg_entries r i)) order) in
        ((fold leaseLocked leases r)\<lparr>rg_operations := rg_operations r + 1\<rparr>, Ok leases))"

definition tickDone :: "Registry \<Rightarrow> Registry" where
  "tickDone r = r\<lparr>rg_operations := rg_operations r - 1\<rparr>"

section \<open>Deletion\<close>

definition deleteEnter :: "LabID \<Rightarrow> Registry \<Rightarrow> Registry \<times> nat option res" where
  "deleteEnter i r =
     (if \<not> LabID_valid i then (r, Fail (Errorf ''invalid laboratory ID''))
      else if rg_closed r then (r, Fail ErrClosed)
      else case rg_entries r i of
             None \<Rightarrow> ((publishEntry i r)\<lparr>rg_operations := rg_operations r + 1\<rparr>, Ok (Some (rg_next r)))
           | Some a \<Rightarrow>
               if rt_refs (rg_heap r a) > 0 \<or> rt_busy (rg_heap r a) then (r, Ok None)
               else ((update_entry a (\<lambda>e. e\<lparr>rt_busy := True\<rparr>) r)\<lparr>rg_operations := rg_operations r + 1\<rparr>, Ok (Some a)))"

definition deleteFinish :: "LabID \<Rightarrow> nat \<Rightarrow> error option \<Rightarrow> Registry \<Rightarrow> Registry" where
  "deleteFinish i a err r =
     (let r = (if err = None then r\<lparr>rg_entries := (rg_entries r)(i := None)\<rparr> else r) in
      (update_entry a (\<lambda>e. e\<lparr>rt_busy := False\<rparr>) r)\<lparr>rg_operations := rg_operations r - 1\<rparr>)"

section \<open>Close\<close>

definition closeEnter :: "Registry \<Rightarrow> Registry" where
  "closeEnter r = r\<lparr>rg_closed := True\<rparr>"

definition closeRuntimes :: "LabID list \<Rightarrow> Registry \<Rightarrow> nat list" where
  "closeRuntimes order r = List.map_filter (\<lambda>i. rt_runtime (rg_heap r (the (rg_entries r i)))) order"

section \<open>Executions\<close>

text \<open>
  The operations in flight, between their sections.  A deletion runs its callback and closes
  the hub of the runtime before its second section; ticks release their leases one by one.
\<close>

datatype operation =
    Loading LabID nat
  | Loaded LabID nat "nat res"
  | Deleting LabID nat
  | Deleted LabID nat "error option"
  | Ticking "nat list"

datatype close_phase = Serving | Draining | Drained "nat list"

text \<open>
  Beside the registry: the operations in flight, the leases requests hold, the laboratories
  that exist in the store, the runtimes created, and those whose hub was closed.
\<close>

record World =
  w_reg :: Registry
  w_ops :: "operation multiset"
  w_leases :: "nat multiset"
  w_labs :: "LabID set"
  w_created :: nat
  w_hubsClosed :: "nat set"
  w_close :: close_phase

definition begin_world :: "LabID set \<Rightarrow> World" where
  "begin_world labs = \<lparr>w_reg = NewRegistry, w_ops = {#}, w_leases = {#}, w_labs = labs, w_created = 0, w_hubsClosed = {},
     w_close = Serving\<rparr>"

definition hub_of :: "Registry \<Rightarrow> nat \<Rightarrow> nat set" where
  "hub_of r a = set_option (rt_runtime (rg_heap r a))"

text \<open>
  The steps.  A load succeeds only for a laboratory that exists; a callback deletes its
  laboratory, finds it renewed, or fails with nothing deleted; the service of the sessions
  may create a laboratory at any moment.
\<close>

inductive registry_step :: "World \<Rightarrow> World \<Rightarrow> bool" where
  acquire_lease: "acquireEnter i (w_reg w) = (r, Leased a) \<Longrightarrow>
    registry_step w (w\<lparr>w_reg := r, w_leases := add_mset a (w_leases w)\<rparr>)"
| acquire_load: "acquireEnter i (w_reg w) = (r, Load_entry a) \<Longrightarrow>
    registry_step w (w\<lparr>w_reg := r, w_ops := add_mset (Loading i a) (w_ops w)\<rparr>)"
| load_ok: "w_ops w = add_mset (Loading i a) ops \<Longrightarrow> i \<in> w_labs w \<Longrightarrow>
    registry_step w (w\<lparr>w_ops := add_mset (Loaded i a (Ok (w_created w))) ops, w_created := w_created w + 1\<rparr>)"
| load_fails: "w_ops w = add_mset (Loading i a) ops \<Longrightarrow>
    registry_step w (w\<lparr>w_ops := add_mset (Loaded i a (Fail e)) ops\<rparr>)"
| acquire_done: "w_ops w = add_mset (Loaded i a loaded) ops \<Longrightarrow> acquireFinish i a loaded (w_reg w) = (r, Ok lease) \<Longrightarrow>
    registry_step w (w\<lparr>w_reg := r, w_ops := ops, w_leases := add_mset lease (w_leases w)\<rparr>)"
| acquire_fails: "w_ops w = add_mset (Loaded i a loaded) ops \<Longrightarrow> acquireFinish i a loaded (w_reg w) = (r, Fail e) \<Longrightarrow>
    registry_step w (w\<lparr>w_reg := r, w_ops := ops\<rparr>)"
| release: "w_leases w = add_mset a leases \<Longrightarrow>
    registry_step w (w\<lparr>w_reg := releaseLease a (w_reg w), w_leases := leases\<rparr>)"
| tick_begin: "distinct order \<Longrightarrow> set order = dom (rg_entries (w_reg w)) \<Longrightarrow> tickEnter order (w_reg w) = (r, Ok leases) \<Longrightarrow>
    registry_step w (w\<lparr>w_reg := r, w_ops := add_mset (Ticking leases) (w_ops w)\<rparr>)"
| tick_next: "w_ops w = add_mset (Ticking (a # leases)) ops \<Longrightarrow>
    registry_step w (w\<lparr>w_reg := releaseLease a (w_reg w), w_ops := add_mset (Ticking leases) ops\<rparr>)"
| tick_end: "w_ops w = add_mset (Ticking []) ops \<Longrightarrow>
    registry_step w (w\<lparr>w_reg := tickDone (w_reg w), w_ops := ops\<rparr>)"
| delete_begin: "deleteEnter i (w_reg w) = (r, Ok (Some a)) \<Longrightarrow>
    registry_step w (w\<lparr>w_reg := r, w_ops := add_mset (Deleting i a) (w_ops w)\<rparr>)"
| delete_ok: "w_ops w = add_mset (Deleting i a) ops \<Longrightarrow> labs = w_labs w \<or> labs = w_labs w - {i} \<Longrightarrow>
    registry_step w (w\<lparr>w_ops := add_mset (Deleted i a None) ops, w_labs := labs,
      w_hubsClosed := w_hubsClosed w \<union> hub_of (w_reg w) a\<rparr>)"
| delete_fails: "w_ops w = add_mset (Deleting i a) ops \<Longrightarrow>
    registry_step w (w\<lparr>w_ops := add_mset (Deleted i a (Some e)) ops\<rparr>)"
| delete_end: "w_ops w = add_mset (Deleted i a err) ops \<Longrightarrow>
    registry_step w (w\<lparr>w_reg := deleteFinish i a err (w_reg w), w_ops := ops\<rparr>)"
| close_begin: "w_close w = Serving \<Longrightarrow>
    registry_step w (w\<lparr>w_reg := closeEnter (w_reg w), w_close := Draining\<rparr>)"
| close_drained: "w_close w = Draining \<Longrightarrow> rg_operations (w_reg w) = 0 \<Longrightarrow> distinct order \<Longrightarrow>
    set order = dom (rg_entries (w_reg w)) \<Longrightarrow>
    registry_step w (w\<lparr>w_close := Drained (closeRuntimes order (w_reg w))\<rparr>)"
| close_hub: "w_close w = Drained (h # hubs) \<Longrightarrow>
    registry_step w (w\<lparr>w_hubsClosed := insert h (w_hubsClosed w), w_close := Drained hubs\<rparr>)"
| lab_created: "registry_step w (w\<lparr>w_labs := insert i (w_labs w)\<rparr>)"

inductive registry_run :: "World \<Rightarrow> World \<Rightarrow> bool" where
  start: "registry_run w w"
| more: "registry_run w w' \<Longrightarrow> registry_step w' w'' \<Longrightarrow> registry_run w w''"

end
