(* ===== verification/RegistryProperties.thy ===== *)
theory RegistryProperties
  imports Registry
begin

text \<open>
  Every execution of the registry keeps its counts, gives a laboratory to one operation at a
  time, never deletes a leased one, and closes every hub before its shutdown returns.
\<close>

section \<open>The invariant\<close>

definition leases_of :: "operation \<Rightarrow> nat multiset" where
  "leases_of op = (case op of Ticking leases \<Rightarrow> mset leases | _ \<Rightarrow> {#})"

definition owner_of :: "operation \<Rightarrow> (LabID \<times> nat) multiset" where
  "owner_of op = (case op of Loading i a \<Rightarrow> {#(i, a)#} | Loaded i a _ \<Rightarrow> {#(i, a)#} | Deleting i a \<Rightarrow> {#(i, a)#}
     | Deleted i a _ \<Rightarrow> {#(i, a)#} | Ticking _ \<Rightarrow> {#})"

text \<open>The leases in use, of requests and of ticks; and the entries that operations own.\<close>

definition held :: "World \<Rightarrow> nat multiset" where
  "held w = w_leases w + \<Sum>\<^sub># (image_mset leases_of (w_ops w))"

definition owners :: "World \<Rightarrow> (LabID \<times> nat) multiset" where
  "owners w = \<Sum>\<^sub># (image_mset owner_of (w_ops w))"

definition entry_at :: "World \<Rightarrow> LabID \<Rightarrow> nat \<Rightarrow> bool" where
  "entry_at w i a \<longleftrightarrow> rg_entries (w_reg w) i = Some a"

definition entry_of :: "World \<Rightarrow> nat \<Rightarrow> entry" where
  "entry_of w a = rg_heap (w_reg w) a"

definition counts_ok :: "World \<Rightarrow> bool" where
  "counts_ok w \<longleftrightarrow> (\<forall>a. rt_refs (entry_of w a) = int (count (held w) a)) \<and>
     rg_operations (w_reg w) = int (size (w_ops w))"

definition table_ok :: "(LabID \<rightharpoonup> nat) \<Rightarrow> nat \<Rightarrow> (nat \<Rightarrow> bool) \<Rightarrow> (LabID \<times> nat) multiset \<Rightarrow> bool" where
  "table_ok entries n busy ops \<longleftrightarrow> finite (dom entries) \<and> (\<forall>i a. entries i = Some a \<longrightarrow> a < n) \<and>
     (\<forall>i j a. entries i = Some a \<longrightarrow> entries j = Some a \<longrightarrow> i = j) \<and>
     (\<forall>i a. count ops (i, a) = (if entries i = Some a \<and> busy a then 1 else 0))"

definition busy_in :: "Registry \<Rightarrow> nat \<Rightarrow> bool" where
  "busy_in r a \<longleftrightarrow> rt_busy (rg_heap r a)"

definition entries_ok :: "World \<Rightarrow> bool" where
  "entries_ok w \<longleftrightarrow> table_ok (rg_entries (w_reg w)) (rg_next (w_reg w)) (busy_in (w_reg w)) (owners w)"

text \<open>The moves an operation makes on the table: it creates an entry, takes one, or gives one back.\<close>

lemma table_moves:
  assumes "table_ok E n B ops"
  shows table_create: "(\<And>a. E i = Some a \<Longrightarrow> \<not> B a) \<Longrightarrow> table_ok (E(i \<mapsto> n)) (n + 1) (B(n := True)) (add_mset (i, n) ops)"
    and table_take: "E i = Some a \<Longrightarrow> \<not> B a \<Longrightarrow> table_ok E n (B(a := True)) (add_mset (i, a) ops)"
    and table_give: "ops = add_mset (i, a) ops' \<Longrightarrow> table_ok E n (B(a := False)) ops'"
    and table_drop: "ops = add_mset (i, a) ops' \<Longrightarrow> table_ok (E(i := None)) n (B(a := False)) ops'"
proof -
  note ok = assms [unfolded table_ok_def]
  have none: "E j \<noteq> Some n" for j using ok by (metis less_irrefl)
  then have n: "count ops (j, n) = 0" for j using ok by simp
  show "table_ok (E(i \<mapsto> n)) (n + 1) (B(n := True)) (add_mset (i, n) ops)" if "\<And>a. E i = Some a \<Longrightarrow> \<not> B a"
    unfolding table_ok_def
  proof (intro conjI allI impI)
    show "finite (dom (E(i \<mapsto> n)))" using ok by simp
    show "a < n + 1" if "(E(i \<mapsto> n)) j = Some a" for j a using that ok by (auto split: if_splits intro: less_SucI)
    show "j = k" if "(E(i \<mapsto> n)) j = Some a" "(E(i \<mapsto> n)) k = Some a" for j k a
      using that ok by (metis fun_upd_apply less_irrefl option.inject)
    show "count (add_mset (i, n) ops) (j, a) = (if (E(i \<mapsto> n)) j = Some a \<and> (B(n := True)) a then 1 else 0)" for j a
    proof (cases "a = n")
      case True
      then show ?thesis by (cases "j = i") (simp_all add: n none)
    next
      case False
      then show ?thesis using ok that by (cases "j = i") auto
    qed
  qed
  show "table_ok E n (B(a := True)) (add_mset (i, a) ops)" if "E i = Some a" "\<not> B a"
    using ok that unfolding table_ok_def by (auto simp: split: if_splits)
  have give: "count ops' (j, b) = (if E j = Some b \<and> b \<noteq> a \<and> B b then 1 else 0)" "E i = Some a"
    if "ops = add_mset (i, a) ops'" for ops' j b
  proof -
    have own: "count ops (i, a) = Suc (count ops' (i, a))" using that by simp
    then show e: "E i = Some a" using ok by (metis nat.distinct(1))
    have one: "count ops (i, a) = 1" using own ok by (metis One_nat_def nat.distinct(1))
    show "count ops' (j, b) = (if E j = Some b \<and> b \<noteq> a \<and> B b then 1 else 0)"
    proof (cases "(j, b) = (i, a)")
      case True
      then show ?thesis using own one by simp
    next
      case False
      then have "count ops' (j, b) = count ops (j, b)" using that by auto
      moreover have "b \<noteq> a \<or> E j \<noteq> Some b" using False e ok by auto
      ultimately show ?thesis using ok by auto
    qed
  qed
  show "table_ok E n (B(a := False)) ops'" if "ops = add_mset (i, a) ops'"
    using ok give [OF that] unfolding table_ok_def by auto
  show "table_ok (E(i := None)) n (B(a := False)) ops'" if "ops = add_mset (i, a) ops'"
    using ok give [OF that] unfolding table_ok_def by (auto split: if_splits)
qed

definition leases_ok :: "World \<Rightarrow> bool" where
  "leases_ok w \<longleftrightarrow> (\<forall>a. a \<in># held w \<longrightarrow> (\<exists>i. entry_at w i a) \<and> \<not> rt_busy (entry_of w a) \<and> rt_runtime (entry_of w a) \<noteq> None)"

definition labs_ok :: "World \<Rightarrow> bool" where
  "labs_ok w \<longleftrightarrow>
     (\<forall>i a. entry_at w i a \<longrightarrow> rt_runtime (entry_of w a) \<noteq> None \<longrightarrow> Deleted i a None \<notin># w_ops w \<longrightarrow> i \<in> w_labs w) \<and>
     (\<forall>i a rt. Loaded i a (Ok rt) \<in># w_ops w \<longrightarrow> i \<in> w_labs w)"

text \<open>Every runtime created is closed, in the table, or about to enter it.\<close>

definition hubs_ok :: "World \<Rightarrow> bool" where
  "hubs_ok w \<longleftrightarrow> (\<forall>rt < w_created w. rt \<in> w_hubsClosed w \<or> (\<exists>i a. entry_at w i a \<and> rt_runtime (entry_of w a) = Some rt) \<or>
     (\<exists>i a. Loaded i a (Ok rt) \<in># w_ops w))"

definition op_ok :: "World \<Rightarrow> operation \<Rightarrow> bool" where
  "op_ok w op = (case op of Loading i a \<Rightarrow> rt_runtime (entry_of w a) = None | Loaded i a l \<Rightarrow> rt_runtime (entry_of w a) = None \<and> l \<noteq> Panic
     | Deleted i a None \<Rightarrow> hub_of (w_reg w) a \<subseteq> w_hubsClosed w | _ \<Rightarrow> True)"

definition owned_ok :: "World \<Rightarrow> bool" where
  "owned_ok w \<longleftrightarrow> (\<forall>op\<in>#w_ops w. op_ok w op)"

lemma op_ok_kept:
  assumes "\<And>i a. (i, a) \<in># owner_of op \<Longrightarrow> rt_runtime (entry_of w' a) = rt_runtime (entry_of w a)"
    and "w_hubsClosed w \<subseteq> w_hubsClosed w'" and "op_ok w op"
  shows "op_ok w' op"
  using assms by (cases op) (auto simp: op_ok_def owner_of_def hub_of_def entry_of_def split: option.splits)

definition close_ok :: "World \<Rightarrow> bool" where
  "close_ok w \<longleftrightarrow> (rg_closed (w_reg w) \<longleftrightarrow> w_close w \<noteq> Serving) \<and>
     (\<forall>hubs. w_close w = Drained hubs \<longrightarrow> w_ops w = {#} \<and>
        (\<forall>i a rt. entry_at w i a \<longrightarrow> rt_runtime (entry_of w a) = Some rt \<longrightarrow> rt \<in> w_hubsClosed w \<union> set hubs))"

lemma leases_of_simps [simp]:
  "leases_of (Loading i a) = {#}" "leases_of (Loaded i a l) = {#}" "leases_of (Deleting i a) = {#}"
  "leases_of (Deleted i a e) = {#}" "leases_of (Ticking ls) = mset ls"
  by (simp_all add: leases_of_def)

lemma owner_of_simps [simp]:
  "owner_of (Loading i a) = {#(i, a)#}" "owner_of (Loaded i a l) = {#(i, a)#}" "owner_of (Deleting i a) = {#(i, a)#}"
  "owner_of (Deleted i a e) = {#(i, a)#}" "owner_of (Ticking ls) = {#}"
  by (simp_all add: owner_of_def)

lemma fold_leaseLocked:
  "rg_heap (fold leaseLocked ls r) a = (rg_heap r a)\<lparr>rt_refs := rt_refs (rg_heap r a) + int (count (mset ls) a)\<rparr>"
  "rg_entries (fold leaseLocked ls r) = rg_entries r" "rg_next (fold leaseLocked ls r) = rg_next r"
  "rg_closed (fold leaseLocked ls r) = rg_closed r" "rg_operations (fold leaseLocked ls r) = rg_operations r"
  by (induction ls arbitrary: r) (simp_all add: leaseLocked_def update_entry_def)

lemmas registry_defs = acquireEnter_def acquireFinish_def tickEnter_def tickDone_def deleteEnter_def deleteFinish_def
  closeEnter_def leaseLocked_def releaseLease_def update_entry_def publishEntry_def newEntry_def Let_def

lemma count_held_zero: "leases_ok w \<Longrightarrow> entries_ok w \<Longrightarrow> count (held w) (rg_next (w_reg w)) = 0"
  by (metis count_eq_zero_iff entries_ok_def table_ok_def entry_at_def leases_ok_def less_irrefl)

lemma step_counts:
  assumes "registry_step w w'" and "counts_ok w" and "entries_ok w" and "leases_ok w"
  shows "counts_ok w'"
  using assms
proof (cases rule: registry_step.cases)
  case (acquire_load i r a)
  have "count (held w) (rg_next (w_reg w)) = 0" using count_held_zero assms by blast
  then show ?thesis using acquire_load assms(2)
    by (auto simp: counts_ok_def held_def entry_of_def registry_defs split: if_splits option.splits)
next
  case (delete_begin i r a)
  have "count (held w) (rg_next (w_reg w)) = 0" using count_held_zero assms by blast
  then show ?thesis using delete_begin assms(2)
    by (auto simp: counts_ok_def held_def entry_of_def registry_defs split: if_splits option.splits)
qed (auto simp: counts_ok_def held_def entry_of_def registry_defs fold_leaseLocked split: if_splits option.splits result.splits)

lemma owners_add [simp]: "w_ops w = add_mset op ops \<Longrightarrow> owners w = owner_of op + \<Sum>\<^sub># (image_mset owner_of ops)"
  by (simp add: owners_def)

lemma busy_in_simps [simp]:
  "busy_in (r\<lparr>rg_operations := n\<rparr>) = busy_in r" "busy_in (r\<lparr>rg_entries := m\<rparr>) = busy_in r"
  "busy_in (r\<lparr>rg_closed := c\<rparr>) = busy_in r" "busy_in (leaseLocked a r) = busy_in r" "busy_in (releaseLease a r) = busy_in r"
  "busy_in (fold leaseLocked ls r) = busy_in r"
  "busy_in (publishEntry i r) = (busy_in r)(rg_next r := True)"
  "busy_in (update_entry a (\<lambda>e. e\<lparr>rt_busy := b\<rparr>) r) = (busy_in r)(a := b)"
  "busy_in (update_entry a (\<lambda>e. e\<lparr>rt_runtime := rt, rt_busy := b\<rparr>) r) = (busy_in r)(a := b)"
  by (auto simp: busy_in_def fun_eq_iff fold_leaseLocked leaseLocked_def releaseLease_def update_entry_def publishEntry_def)

lemma entry_simps [simp]:
  "rg_entries (leaseLocked a r) = rg_entries r" "rg_entries (releaseLease a r) = rg_entries r"
  "rg_entries (update_entry a f r) = rg_entries r" "rg_next (leaseLocked a r) = rg_next r" "rg_next (releaseLease a r) = rg_next r"
  "rg_next (update_entry a f r) = rg_next r" "rg_entries (publishEntry i r) = (rg_entries r)(i \<mapsto> rg_next r)"
  "rg_next (publishEntry i r) = rg_next r + 1"
  "rg_closed (leaseLocked a r) = rg_closed r" "rg_closed (releaseLease a r) = rg_closed r"
  "rg_closed (update_entry a f r) = rg_closed r" "rg_closed (publishEntry i r) = rg_closed r"
  by (simp_all add: leaseLocked_def releaseLease_def update_entry_def publishEntry_def)

lemma owners_of_ops:
  "w_ops w = ops \<Longrightarrow> owners w = \<Sum>\<^sub># (image_mset owner_of ops)"
  by (simp add: owners_def)

lemma step_entries:
  assumes "registry_step w w'" and "entries_ok w"
  shows "entries_ok w'"
  using assms(1)
proof cases
  case (acquire_load i r a)
  then show ?thesis using table_create [OF assms(2) [unfolded entries_ok_def], of i]
    by (auto simp: entries_ok_def acquireEnter_def Let_def busy_in_def [symmetric] owners_def split: if_splits option.splits)
next
  case (delete_begin i r a)
  then show ?thesis
    using table_create [OF assms(2) [unfolded entries_ok_def], of i] table_take [OF assms(2) [unfolded entries_ok_def], of i]
    by (auto simp: entries_ok_def deleteEnter_def Let_def busy_in_def [symmetric] owners_def split: if_splits option.splits)
next
  case (acquire_done i a loaded ops r lease)
  then show ?thesis
    using table_give [OF assms(2) [unfolded entries_ok_def], of i a]
    by (auto simp: entries_ok_def acquireFinish_def Let_def owners_def split: if_splits result.splits)
next
  case (acquire_fails i a loaded ops r e)
  then show ?thesis
    using table_give [OF assms(2) [unfolded entries_ok_def], of i a] table_drop [OF assms(2) [unfolded entries_ok_def], of i a]
    by (auto simp: entries_ok_def acquireFinish_def Let_def owners_def split: if_splits result.splits)
next
  case (delete_end i a err ops)
  then show ?thesis
    using table_give [OF assms(2) [unfolded entries_ok_def], of i a] table_drop [OF assms(2) [unfolded entries_ok_def], of i a]
    by (auto simp: entries_ok_def deleteFinish_def Let_def owners_def)
qed (use assms(2) in \<open>auto simp: entries_ok_def owners_def acquireEnter_def tickEnter_def tickDone_def closeEnter_def Let_def
       fold_leaseLocked split: if_splits option.splits\<close>)

lemma owned:
  assumes "entries_ok w" and "op \<in># w_ops w" and "(i, a) \<in># owner_of op"
  shows "rg_entries (w_reg w) i = Some a" and "rt_busy (rg_heap (w_reg w) a)"
proof -
  obtain ops where "w_ops w = add_mset op ops" using assms(2) by (meson multi_member_split)
  then have "(i, a) \<in># owners w" using assms(3) by (simp add: owners_def)
  then have "0 < count (owners w) (i, a)" by simp
  then show "rg_entries (w_reg w) i = Some a" "rt_busy (rg_heap (w_reg w) a)"
    using assms(1) by (auto simp: entries_ok_def table_ok_def busy_in_def split: if_splits)
qed

lemma step_leases:
  assumes "registry_step w w'" and "leases_ok w" and "entries_ok w" and "counts_ok w"
  shows "leases_ok w'"
  using assms(1)
proof cases
  case (acquire_load i r a)
  have "count (held w) (rg_next (w_reg w)) = 0" using count_held_zero assms by blast
  then have n: "rg_next (w_reg w) \<notin># held w" by (simp add: count_eq_zero_iff)
  have h: "held w' = held w" using acquire_load by (simp add: held_def)
  show ?thesis
    unfolding leases_ok_def h
  proof (intro allI impI)
    fix b assume b: "b \<in># held w"
    then obtain j where j: "entry_at w j b" "\<not> rt_busy (entry_of w b)" "rt_runtime (entry_of w b) \<noteq> None"
      using assms(2) by (auto simp: leases_ok_def)
    have "b \<noteq> rg_next (w_reg w)" using b n by blast
    moreover have "j \<noteq> i" using acquire_load j by (auto simp: acquireEnter_def entry_at_def entry_of_def Let_def split: if_splits option.splits)
    ultimately show "(\<exists>i. entry_at w' i b) \<and> \<not> rt_busy (entry_of w' b) \<and> rt_runtime (entry_of w' b) \<noteq> None"
      using acquire_load j by (auto simp: entry_at_def entry_of_def registry_defs split: if_splits option.splits)
  qed
next
  case (delete_begin i r a)
  have "count (held w) (rg_next (w_reg w)) = 0" using count_held_zero assms by blast
  then have n: "rg_next (w_reg w) \<notin># held w" by (simp add: count_eq_zero_iff)
  have h: "held w' = held w" using delete_begin by (simp add: held_def)
  have refs: "\<not> 0 < rt_refs (entry_of w b) \<Longrightarrow> b \<notin># held w" for b
    using assms(4) by (simp add: counts_ok_def count_eq_zero_iff)
  show ?thesis
    unfolding leases_ok_def h
  proof (intro allI impI)
    fix b assume b: "b \<in># held w"
    then obtain j where j: "entry_at w j b" "\<not> rt_busy (entry_of w b)" "rt_runtime (entry_of w b) \<noteq> None"
      using assms(2) by (auto simp: leases_ok_def)
    have "b \<noteq> a" using b n refs delete_begin by (auto simp: deleteEnter_def entry_of_def split: if_splits option.splits)
    moreover have "b \<noteq> rg_next (w_reg w)" using b n by blast
    moreover have "rg_entries (w_reg w) i = None \<Longrightarrow> j \<noteq> i" using j by (auto simp: entry_at_def)
    ultimately show "(\<exists>i. entry_at w' i b) \<and> \<not> rt_busy (entry_of w' b) \<and> rt_runtime (entry_of w' b) \<noteq> None"
      using delete_begin j by (auto simp: entry_at_def entry_of_def registry_defs split: if_splits option.splits)
  qed
next
  case (acquire_done i a loaded ops r lease)
  have "rg_entries (w_reg w) i = Some a" using owned(1) [OF assms(3), of "Loaded i a loaded"] acquire_done by simp
  moreover have "held w' = add_mset a (held w)" "lease = a"
    using acquire_done by (auto simp: held_def acquireFinish_def Let_def split: if_splits result.splits)
  ultimately show ?thesis
    using acquire_done assms(2)
    by (auto simp: leases_ok_def entry_at_def entry_of_def registry_defs split: if_splits result.splits)
next
  case (acquire_fails i a loaded ops r e)
  have own: "rg_entries (w_reg w) i = Some a" "rt_busy (rg_heap (w_reg w) a)"
    using owned [OF assms(3), of "Loaded i a loaded"] acquire_fails by simp_all
  have h: "held w' = held w" using acquire_fails by (simp add: held_def)
  show ?thesis
    unfolding leases_ok_def h
  proof (intro allI impI)
    fix b assume b: "b \<in># held w"
    then obtain j where j: "entry_at w j b" "\<not> rt_busy (entry_of w b)" "rt_runtime (entry_of w b) \<noteq> None"
      using assms(2) by (auto simp: leases_ok_def)
    have "b \<noteq> a" "j \<noteq> i" using j own by (auto simp: entry_at_def entry_of_def)
    then show "(\<exists>i. entry_at w' i b) \<and> \<not> rt_busy (entry_of w' b) \<and> rt_runtime (entry_of w' b) \<noteq> None"
      using acquire_fails j by (auto simp: entry_at_def entry_of_def registry_defs split: if_splits result.splits)
  qed
next
  case (delete_end i a err ops)
  have own: "rg_entries (w_reg w) i = Some a" "rt_busy (rg_heap (w_reg w) a)"
    using owned [OF assms(3), of "Deleted i a err"] delete_end by simp_all
  have h: "held w' = held w" using delete_end by (simp add: held_def)
  show ?thesis
    unfolding leases_ok_def h
  proof (intro allI impI)
    fix b assume b: "b \<in># held w"
    then obtain j where j: "entry_at w j b" "\<not> rt_busy (entry_of w b)" "rt_runtime (entry_of w b) \<noteq> None"
      using assms(2) by (auto simp: leases_ok_def)
    have "b \<noteq> a" "j \<noteq> i" using j own by (auto simp: entry_at_def entry_of_def)
    then show "(\<exists>i. entry_at w' i b) \<and> \<not> rt_busy (entry_of w' b) \<and> rt_runtime (entry_of w' b) \<noteq> None"
      using delete_end j by (auto simp: entry_at_def entry_of_def registry_defs)
  qed
next
  case (acquire_lease i r a)
  then have "held w' = add_mset a (held w)" by (simp add: held_def)
  then show ?thesis using assms(2) acquire_lease
    by (auto simp: leases_ok_def entry_at_def entry_of_def registry_defs split: if_splits option.splits)
next
  case (tick_begin order r leases)
  then have "held w' = mset leases + held w" by (simp add: held_def)
  moreover have "(\<exists>i. entry_at w i a) \<and> tickable (w_reg w) a" if "a \<in> set leases" for a
  proof -
    have "leases = filter (tickable (w_reg w)) (map (\<lambda>i. the (rg_entries (w_reg w) i)) order)"
      using tick_begin by (simp add: tickEnter_def Let_def split: if_splits)
    then have "a \<in> (\<lambda>i. the (rg_entries (w_reg w) i)) ` set order" and t: "tickable (w_reg w) a"
      using that by simp_all
    then obtain i where "a = the (rg_entries (w_reg w) i)" "i \<in> set order" by blast
    moreover have "set order = dom (rg_entries (w_reg w))" using tick_begin by simp
    ultimately show ?thesis using t by (metis domD entry_at_def option.sel)
  qed
  moreover have "rg_entries r = rg_entries (w_reg w)"
    "rt_busy (rg_heap r a) = rt_busy (rg_heap (w_reg w) a)" "rt_runtime (rg_heap r a) = rt_runtime (rg_heap (w_reg w) a)" for a
    using tick_begin by (auto simp: tickEnter_def Let_def fold_leaseLocked split: if_splits)
  ultimately show ?thesis using assms(2) tick_begin(1)
    by (simp add: leases_ok_def entry_at_def entry_of_def tickable_def)
qed (use assms(2) in \<open>auto simp: leases_ok_def held_def entry_at_def entry_of_def registry_defs\<close>)

lemma owner_unique:
  assumes "entries_ok w" and "w_ops w = add_mset op ops" and "(i, a) \<in># owner_of op" and "op' \<in># ops"
  shows "(i, a) \<notin># owner_of op'"
proof
  assume o': "(i, a) \<in># owner_of op'"
  obtain rest where "ops = add_mset op' rest" using assms(4) by (meson multi_member_split)
  then have "owners w = owner_of op + owner_of op' + \<Sum>\<^sub># (image_mset owner_of rest)" using assms(2) by (simp add: owners_def)
  moreover have "0 < count (owner_of op) (i, a)" "0 < count (owner_of op') (i, a)"
    using assms(3) o' by (simp_all only: count_greater_zero_iff)
  ultimately have "2 \<le> count (owners w) (i, a)" by (simp only: count_union)
  moreover have "count (owners w) (i, a) \<le> 1" using assms(1) by (auto simp: entries_ok_def table_ok_def)
  ultimately show False by simp
qed

lemma fresh_address:
  assumes "entries_ok w"
  shows "rg_entries (w_reg w) i \<noteq> Some (rg_next (w_reg w))"
    and "op \<in># w_ops w \<Longrightarrow> (i, a) \<in># owner_of op \<Longrightarrow> a \<noteq> rg_next (w_reg w)"
proof -
  show n: "rg_entries (w_reg w) i \<noteq> Some (rg_next (w_reg w))" for i
    using assms by (metis entries_ok_def table_ok_def less_irrefl)
  show "op \<in># w_ops w \<Longrightarrow> (i, a) \<in># owner_of op \<Longrightarrow> a \<noteq> rg_next (w_reg w)"
    using owned(1) [OF assms] n by metis
qed

lemma step_labs:
  assumes "registry_step w w'" and "labs_ok w" and "entries_ok w"
  shows "labs_ok w'"
  using assms(1)
proof cases
  case (acquire_load i r a)
  then show ?thesis using assms(2) fresh_address(1) [OF assms(3)]
    by (auto simp: labs_ok_def entry_at_def entry_of_def registry_defs split: if_splits option.splits)
next
  case (delete_begin i r a)
  then show ?thesis using assms(2) fresh_address(1) [OF assms(3)]
    by (auto simp: labs_ok_def entry_at_def entry_of_def registry_defs split: if_splits option.splits)
next
  case (acquire_done i a loaded ops r lease)
  have own: "rg_entries (w_reg w) i = Some a" using owned(1) [OF assms(3), of "Loaded i a loaded"] acquire_done by simp
  have "j = i" if "rg_entries (w_reg w) j = Some a" for j
    using own that assms(3) by (auto simp: entries_ok_def table_ok_def)
  then show ?thesis using assms(2) acquire_done
    by (auto simp: labs_ok_def entry_at_def entry_of_def registry_defs split: if_splits result.splits)
next
  case (acquire_fails i a loaded ops r e)
  have own: "rg_entries (w_reg w) i = Some a" using owned(1) [OF assms(3), of "Loaded i a loaded"] acquire_fails by simp
  have "j = i" if "rg_entries (w_reg w) j = Some a" for j
    using own that assms(3) by (auto simp: entries_ok_def table_ok_def)
  then show ?thesis using assms(2) acquire_fails
    by (auto simp: labs_ok_def entry_at_def entry_of_def registry_defs split: if_splits result.splits)
next
  case (delete_ok i a ops labs)
  have own: "rg_entries (w_reg w) i = Some a" using owned(1) [OF assms(3), of "Deleting i a"] delete_ok by simp
  have "j \<noteq> i" if "Loaded j b l \<in># ops" for j b l
  proof
    assume "j = i"
    have "(j, b) \<in># owner_of (Loaded j b l)" by simp
    moreover have "rg_entries (w_reg w) j = Some b" using owned(1) [OF assms(3), of "Loaded j b l"] that delete_ok by simp
    ultimately show False
      using owner_unique [OF assms(3) delete_ok(2), of i a "Loaded j b l"] that own \<open>j = i\<close> by simp
  qed
  then have loaded: "j \<in> labs" if "Loaded j b (Ok rt) \<in># ops" for j b rt
    using that assms(2) delete_ok unfolding labs_ok_def by (metis Diff_iff singletonD union_single_eq_member union_iff add_mset_add_single)
  show ?thesis using assms(2) delete_ok own loaded
    by (auto simp: labs_ok_def entry_at_def entry_of_def)
next
  case (delete_end i a err ops)
  have own: "rg_entries (w_reg w) i = Some a" using owned(1) [OF assms(3), of "Deleted i a err"] delete_end by simp
  have other: "Deleted i a e \<notin># ops" for e
    using owner_unique [OF assms(3) delete_end(2), of i a "Deleted i a e"] by auto
  show ?thesis using assms(2) delete_end own other
    by (cases err) (auto simp: labs_ok_def entry_at_def entry_of_def registry_defs)
next
  case (tick_begin order r leases)
  then show ?thesis using assms(2)
    by (auto simp: labs_ok_def entry_at_def entry_of_def tickEnter_def Let_def fold_leaseLocked split: if_splits)
qed (use assms(2) in \<open>auto simp: labs_ok_def entry_at_def entry_of_def registry_defs split: if_splits option.splits\<close>)

lemma step_close:
  assumes "registry_step w w'" and "close_ok w" and "counts_ok w"
  shows "close_ok w'"
  using assms(1)
proof cases
  case (close_drained order)
  have "w_ops w = {#}" using assms(3) close_drained by (simp add: counts_ok_def)
  moreover have "rt \<in> set (closeRuntimes order (w_reg w))" if "entry_at w i a" "rt_runtime (entry_of w a) = Some rt" for i a rt
  proof -
    have "i \<in> set order" using that close_drained by (auto simp: entry_at_def)
    then show ?thesis using that
      by (induction order) (auto simp: closeRuntimes_def entry_at_def entry_of_def List.map_filter_simps split: option.splits)
  qed
  ultimately show ?thesis using assms(2) close_drained by (auto simp: close_ok_def entry_at_def entry_of_def)
next
  case (tick_begin order r leases)
  then show ?thesis using assms(2)
    by (auto simp: close_ok_def entry_at_def entry_of_def tickEnter_def Let_def fold_leaseLocked split: if_splits)
qed (use assms(2) in \<open>auto simp: close_ok_def entry_at_def entry_of_def registry_defs split: if_splits option.splits result.splits\<close>)

lemma owner_address:
  assumes "entries_ok w" and "w_ops w = add_mset op ops" and "(i, a) \<in># owner_of op" and "op' \<in># ops" and "(j, b) \<in># owner_of op'"
  shows "b \<noteq> a"
proof
  assume "b = a"
  have "rg_entries (w_reg w) i = Some a" using owned(1) [OF assms(1), of op] assms(2,3) by simp
  moreover have "rg_entries (w_reg w) j = Some a" using owned(1) [OF assms(1), of op'] assms(2,4,5) \<open>b = a\<close> by simp
  ultimately have "j = i" using assms(1) by (auto simp: entries_ok_def table_ok_def)
  then show False using owner_unique [OF assms(1-4)] assms(5) \<open>b = a\<close> by simp
qed

lemma owned_ok_kept:
  assumes "owned_ok w" and "w_hubsClosed w \<subseteq> w_hubsClosed w'"
    and "\<And>op i a. op \<in># w_ops w' \<Longrightarrow> op \<in># w_ops w \<Longrightarrow> (i, a) \<in># owner_of op \<Longrightarrow>
      rt_runtime (entry_of w' a) = rt_runtime (entry_of w a)"
    and "\<And>op. op \<in># w_ops w' \<Longrightarrow> op \<notin># w_ops w \<Longrightarrow> op_ok w' op"
  shows "owned_ok w'"
  unfolding owned_ok_def
proof
  fix op assume op: "op \<in># w_ops w'"
  show "op_ok w' op"
  proof (cases "op \<in># w_ops w")
    case True
    then show ?thesis using op_ok_kept [of op w' w] assms(1-3) op by (auto simp: owned_ok_def)
  qed (use assms(4) op in blast)
qed

lemma step_owned:
  assumes "registry_step w w'" and "owned_ok w" and "entries_ok w"
  shows "owned_ok w'"
proof (rule owned_ok_kept [OF assms(2)])
  show "w_hubsClosed w \<subseteq> w_hubsClosed w'" using assms(1) by cases auto
next
  fix op i a assume op: "op \<in># w_ops w'" "op \<in># w_ops w" "(i, a) \<in># owner_of op"
  have n: "a \<noteq> rg_next (w_reg w)" using fresh_address(2) [OF assms(3) op(2,3)] .
  from assms(1) show "rt_runtime (entry_of w' a) = rt_runtime (entry_of w a)"
  proof cases
    case (acquire_done j b loaded ops r lease)
    then have "a \<noteq> b" using owner_address [OF assms(3) acquire_done(2), of j b op i a] op by simp
    then show ?thesis using acquire_done by (auto simp: entry_of_def registry_defs split: if_splits result.splits)
  next
    case (acquire_fails j b loaded ops r e)
    then have "a \<noteq> b" using owner_address [OF assms(3) acquire_fails(2), of j b op i a] op by simp
    then show ?thesis using acquire_fails by (auto simp: entry_of_def registry_defs split: if_splits result.splits)
  next
    case (tick_begin order r leases)
    then show ?thesis by (auto simp: entry_of_def tickEnter_def Let_def fold_leaseLocked split: if_splits)
  qed (use n in \<open>auto simp: entry_of_def registry_defs split: if_splits option.splits\<close>)
next
  fix op assume op: "op \<in># w_ops w'" "op \<notin># w_ops w"
  have kept: "op_ok w op'" if "op' \<in># w_ops w" for op' using assms(2) that by (simp add: owned_ok_def)
  from assms(1) show "op_ok w' op"
  proof cases
    case (load_ok i a ops)
    then show ?thesis using op kept [of "Loading i a"] by (auto simp: op_ok_def entry_of_def)
  next
    case (load_fails i a ops e)
    then show ?thesis using op kept [of "Loading i a"] by (auto simp: op_ok_def entry_of_def)
  next
    case (acquire_load i r a)
    then show ?thesis using op by (auto simp: op_ok_def entry_of_def registry_defs split: if_splits option.splits)
  qed (use op in \<open>auto simp: op_ok_def hub_of_def\<close>)
qed

text \<open>What a step does to the runtimes of the table, seen from one runtime.\<close>

definition housed :: "World \<Rightarrow> nat \<Rightarrow> bool" where
  "housed w rt \<longleftrightarrow> rt \<in> w_hubsClosed w \<or> (\<exists>i a. entry_at w i a \<and> rt_runtime (entry_of w a) = Some rt) \<or>
     (\<exists>i a. Loaded i a (Ok rt) \<in># w_ops w)"

lemma housed_kept:
  assumes "w_hubsClosed w \<subseteq> w_hubsClosed w'"
    and "\<And>i a. entry_at w i a \<Longrightarrow> rt_runtime (entry_of w a) = Some rt \<Longrightarrow> housed w' rt"
    and "\<And>i a. Loaded i a (Ok rt) \<in># w_ops w \<Longrightarrow> housed w' rt"
    and "housed w rt"
  shows "housed w' rt"
  using assms unfolding housed_def by blast

lemma housedI:
  "entry_at w i a \<Longrightarrow> rt_runtime (entry_of w a) = Some rt \<Longrightarrow> housed w rt"
  "Loaded i a (Ok rt) \<in># w_ops w \<Longrightarrow> housed w rt"
  "rt \<in> w_hubsClosed w \<Longrightarrow> housed w rt"
  unfolding housed_def by blast+

lemma step_housed:
  assumes "registry_step w w'" and "housed w rt" and "owned_ok w" and "entries_ok w"
  shows "housed w' rt"
proof (rule housed_kept [OF _ _ _ assms(2)])
  show "w_hubsClosed w \<subseteq> w_hubsClosed w'" using assms(1) by cases auto
next
  fix i a assume e: "entry_at w i a" "rt_runtime (entry_of w a) = Some rt"
  from assms(1) show "housed w' rt"
  proof cases
    case (acquire_load j r b)
    have "a \<noteq> rg_next (w_reg w)" using fresh_address(1) [OF assms(4)] e(1) by (auto simp: entry_at_def)
    moreover have "i \<noteq> j" using acquire_load e by (auto simp: acquireEnter_def entry_at_def entry_of_def Let_def split: if_splits option.splits)
    ultimately show ?thesis using acquire_load e
      by (intro housedI(1) [of _ i a]) (auto simp: entry_at_def entry_of_def registry_defs split: if_splits option.splits)
  next
    case (delete_begin j r b)
    have "a \<noteq> rg_next (w_reg w)" using fresh_address(1) [OF assms(4)] e(1) by (auto simp: entry_at_def)
    then show ?thesis using delete_begin e
      by (intro housedI(1) [of _ i a]) (auto simp: entry_at_def entry_of_def registry_defs split: if_splits option.splits)
  next
    case (acquire_done j b loaded ops r lease)
    have "rt_runtime (entry_of w b) = None" using assms(3) acquire_done by (auto simp: owned_ok_def op_ok_def)
    then have "a \<noteq> b" using e(2) by auto
    then show ?thesis using acquire_done e
      by (intro housedI(1) [of _ i a]) (auto simp: entry_at_def entry_of_def registry_defs split: if_splits result.splits)
  next
    case (acquire_fails j b loaded ops r err)
    have "rt_runtime (entry_of w b) = None" using assms(3) acquire_fails by (auto simp: owned_ok_def op_ok_def)
    then have "a \<noteq> b" using e(2) by auto
    moreover have "rg_entries (w_reg w) j = Some b" using owned(1) [OF assms(4), of "Loaded j b loaded"] acquire_fails by simp
    ultimately show ?thesis using acquire_fails e
      by (intro housedI(1) [of _ i a]) (auto simp: entry_at_def entry_of_def registry_defs split: if_splits result.splits)
  next
    case (delete_end j b err ops)
    have own: "rg_entries (w_reg w) j = Some b" using owned(1) [OF assms(4), of "Deleted j b err"] delete_end by simp
    show ?thesis
    proof (cases "i = j \<and> err = None")
      case True
      then have "a = b" using own e(1) by (simp add: entry_at_def)
      moreover have "hub_of (w_reg w) b \<subseteq> w_hubsClosed w" using assms(3) delete_end True by (auto simp: owned_ok_def op_ok_def)
      ultimately have "rt \<in> w_hubsClosed w" using e(2) by (simp add: hub_of_def entry_of_def)
      then show ?thesis using delete_end by (intro housedI(3)) simp
    next
      case False
      then show ?thesis using delete_end e
        by (intro housedI(1) [of _ i a]) (auto simp: entry_at_def entry_of_def registry_defs)
    qed
  next
    case (tick_begin order r leases)
    then show ?thesis using e
      by (intro housedI(1) [of _ i a]) (auto simp: entry_at_def entry_of_def tickEnter_def Let_def fold_leaseLocked split: if_splits)
  qed (use e in \<open>auto intro!: housedI(1) [of _ i a] simp: entry_at_def entry_of_def registry_defs split: if_splits option.splits\<close>)
next
  fix i a assume l: "Loaded i a (Ok rt) \<in># w_ops w"
  have own: "rg_entries (w_reg w) i = Some a" using owned(1) [OF assms(4) l] by simp
  from assms(1) show "housed w' rt"
  proof cases
    case (acquire_done j b loaded ops r lease)
    show ?thesis
    proof (cases "Loaded i a (Ok rt) = Loaded j b loaded")
      case True
      then show ?thesis using acquire_done own
        by (intro housedI(1) [of _ i a]) (auto simp: entry_at_def entry_of_def registry_defs split: if_splits)
    next
      case False
      then show ?thesis using acquire_done l by (intro housedI(2) [of i a]) auto
    qed
  next
    case (acquire_fails j b loaded ops r e)
    show ?thesis
    proof (cases "Loaded i a (Ok rt) = Loaded j b loaded")
      case True
      then show ?thesis using acquire_fails own
        by (intro housedI(1) [of _ i a]) (auto simp: entry_at_def entry_of_def registry_defs split: if_splits)
    next
      case False
      then show ?thesis using acquire_fails l by (intro housedI(2) [of i a]) auto
    qed
  qed (use l in \<open>auto intro!: housedI(2) [of i a]\<close>)
qed

lemma step_hubs:
  assumes "registry_step w w'" and "hubs_ok w" and "owned_ok w" and "entries_ok w"
  shows "hubs_ok w'"
proof -
  have old: "housed w' rt" if "rt < w_created w" for rt
    using step_housed [OF assms(1) _ assms(3,4)] assms(2) that by (simp add: hubs_ok_def housed_def)
  have new: "housed w' rt" if "rt < w_created w'" "\<not> rt < w_created w" for rt
    using assms(1)
  proof cases
    case (load_ok i a ops)
    then have "rt = w_created w" using that by simp
    then show ?thesis using load_ok by (intro housedI(2) [of i a]) simp
  qed (use that in simp_all)
  show ?thesis using old new unfolding hubs_ok_def housed_def [symmetric] by blast
qed

section \<open>Along every execution\<close>

definition consistent :: "World \<Rightarrow> bool" where
  "consistent w \<longleftrightarrow> counts_ok w \<and> entries_ok w \<and> leases_ok w \<and> labs_ok w \<and> owned_ok w \<and> hubs_ok w \<and> close_ok w"

lemma begin_consistent: "consistent (begin_world labs)"
  by (simp add: consistent_def counts_ok_def entries_ok_def table_ok_def leases_ok_def labs_ok_def owned_ok_def hubs_ok_def
      close_ok_def begin_world_def NewRegistry_def newEntry_def entry_at_def entry_of_def held_def owners_def)

lemma step_consistent: "registry_step w w' \<Longrightarrow> consistent w \<Longrightarrow> consistent w'"
  unfolding consistent_def
  using step_counts step_entries step_leases step_labs step_owned step_hubs step_close by blast

lemma run_consistent: "registry_run w w' \<Longrightarrow> consistent w \<Longrightarrow> consistent w'"
  by (induction rule: registry_run.induct) (auto dest: step_consistent)

lemma run_trans: "registry_run b c \<Longrightarrow> registry_run a b \<Longrightarrow> registry_run a c"
  by (induction rule: registry_run.induct) (auto intro: registry_run.more)

text \<open>
  C24: a leased laboratory is safe.  Whatever requests, ticks, deletions and a shutdown do
  meanwhile, the lease is of the entry the registry has for its laboratory, with a runtime;
  the laboratory still exists in the store; nobody loads or deletes it, a deletion is refused,
  and another request for it is given the same runtime.
\<close>

theorem leased_laboratory_is_safe:
  assumes "registry_run (begin_world labs) w" and "a \<in># held w"
  shows "\<exists>i runtime. rg_entries (w_reg w) i = Some a \<and> rt_runtime (rg_heap (w_reg w) a) = Some runtime \<and> i \<in> w_labs w \<and>
    (\<forall>op b. op \<in># w_ops w \<longrightarrow> (i, b) \<notin># owner_of op) \<and> snd (deleteEnter i (w_reg w)) \<in> {Ok None, Fail ErrClosed, Fail (Errorf ''invalid laboratory ID'')} \<and>
    snd (acquireEnter i (w_reg w)) \<in> {Leased a, Rejected ErrClosed, Rejected (Errorf ''invalid laboratory ID'')}"
proof -
  have c: "consistent w" by (rule run_consistent [OF assms(1) begin_consistent])
  then obtain i where i: "rg_entries (w_reg w) i = Some a" and free: "\<not> rt_busy (rg_heap (w_reg w) a)"
    and "rt_runtime (rg_heap (w_reg w) a) \<noteq> None"
    using assms(2) by (auto simp: consistent_def leases_ok_def entry_at_def entry_of_def)
  then obtain runtime where runtime: "rt_runtime (rg_heap (w_reg w) a) = Some runtime" by blast
  have none: "(i, b) \<notin># owner_of op" if "op \<in># w_ops w" for op b
    using owned [of w op i b] that c i free by (auto simp: consistent_def)
  then have "Deleted i a None \<notin># w_ops w" using owner_of_simps(4) by fastforce
  then have "i \<in> w_labs w" using c i runtime by (auto simp: consistent_def labs_ok_def entry_at_def entry_of_def)
  moreover have "0 < count (held w) a" using assms(2) by simp
  then have "0 < rt_refs (rg_heap (w_reg w) a)" using c by (simp add: consistent_def counts_ok_def entry_of_def)
  ultimately show ?thesis
    using i runtime free none by (intro exI [of _ i] exI [of _ runtime]) (auto simp: deleteEnter_def acquireEnter_def Let_def)
qed

text \<open>
  At any moment at most one operation loads or deletes a laboratory, the counter of an
  entry is the number of its leases in use, and the counter the shutdown waits for is the
  number of operations in flight.
\<close>

theorem registry_counts:
  assumes "registry_run (begin_world labs) w"
  shows "size (filter_mset (\<lambda>(j, _). j = i) (owners w)) \<le> 1 \<and> rt_refs (rg_heap (w_reg w) a) = int (count (held w) a) \<and>
    rg_operations (w_reg w) = int (size (w_ops w))"
proof -
  have c: "consistent w" by (rule run_consistent [OF assms begin_consistent])
  have le: "count (owners w) (j, b) \<le> (if rg_entries (w_reg w) j = Some b then 1 else 0)" for j b
    using c by (simp add: consistent_def entries_ok_def table_ok_def)
  have "filter_mset (\<lambda>(j, _). j = i) (owners w) \<subseteq># (case rg_entries (w_reg w) i of None \<Rightarrow> {#} | Some b \<Rightarrow> {#(i, b)#})"
  proof (rule mset_subset_eqI)
    fix x show "count (filter_mset (\<lambda>(j, _). j = i) (owners w)) x \<le>
        count (case rg_entries (w_reg w) i of None \<Rightarrow> {#} | Some b \<Rightarrow> {#(i, b)#}) x"
      using le [of "fst x" "snd x"] by (cases x) (auto split: option.splits if_splits)
  qed
  then have "size (filter_mset (\<lambda>(j, _). j = i) (owners w)) \<le> size (case rg_entries (w_reg w) i of None \<Rightarrow> {#} | Some b \<Rightarrow> {#(i, b)#})"
    by (rule size_mset_mono)
  also have "\<dots> \<le> 1" by (simp split: option.split)
  finally show ?thesis using c by (simp add: consistent_def counts_ok_def entry_of_def)
qed

section \<open>Shutdown\<close>

fun work :: "operation \<Rightarrow> nat" where
  "work (Loading i a) = 2"
| "work (Loaded i a l) = 1"
| "work (Deleting i a) = 2"
| "work (Deleted i a e) = 1"
| "work (Ticking ls) = length ls + 1"

definition work_left :: "World \<Rightarrow> nat" where
  "work_left w = sum_mset (image_mset work (w_ops w))"

lemma operation_progress:
  assumes "consistent w" and "w_ops w \<noteq> {#}"
  shows "\<exists>w'. registry_step w w' \<and> work_left w' < work_left w \<and> w_close w' = w_close w"
proof -
  obtain op ops where w: "w_ops w = add_mset op ops" using assms(2) by (meson multiset_cases)
  show ?thesis
  proof (cases op)
    case (Loading i a)
    from load_fails [OF w [unfolded Loading], of ErrClosed] show ?thesis
      by (intro exI conjI) (assumption, simp_all add: work_left_def w Loading)
  next
    case (Loaded i a l)
    have "l \<noteq> Panic" using assms(1) w Loaded by (auto simp: consistent_def owned_ok_def op_ok_def)
    then have "snd (acquireFinish i a l (w_reg w)) \<noteq> Panic"
      by (cases l) (auto simp: acquireFinish_def Let_def)
    then consider r lease where "acquireFinish i a l (w_reg w) = (r, Ok lease)" | r e where "acquireFinish i a l (w_reg w) = (r, Fail e)"
      by (cases "acquireFinish i a l (w_reg w)"; cases "snd (acquireFinish i a l (w_reg w))") auto
    then show ?thesis
    proof cases
      case (1 r lease)
      from acquire_done [OF w [unfolded Loaded] 1] show ?thesis
        by (intro exI conjI) (assumption, simp_all add: work_left_def w Loaded)
    next
      case (2 r e)
      from acquire_fails [OF w [unfolded Loaded] 2] show ?thesis
        by (intro exI conjI) (assumption, simp_all add: work_left_def w Loaded)
    qed
  next
    case (Deleting i a)
    from delete_fails [OF w [unfolded Deleting], of ErrClosed] show ?thesis
      by (intro exI conjI) (assumption, simp_all add: work_left_def w Deleting)
  next
    case (Deleted i a e)
    from delete_end [OF w [unfolded Deleted]] show ?thesis
      by (intro exI conjI) (assumption, simp_all add: work_left_def w Deleted)
  next
    case (Ticking ls)
    show ?thesis
    proof (cases ls)
      case Nil
      from tick_end [OF w [unfolded Ticking Nil]] show ?thesis
        by (intro exI conjI) (assumption, simp_all add: work_left_def w Ticking)
    next
      case (Cons a rest)
      from tick_next [OF w [unfolded Ticking Cons]] show ?thesis
        by (intro exI conjI) (assumption, simp_all add: work_left_def w Ticking Cons)
    qed
  qed
qed

lemma operations_drain:
  "consistent w \<Longrightarrow> \<exists>w'. registry_run w w' \<and> w_ops w' = {#} \<and> w_close w' = w_close w"
proof (induction "work_left w" arbitrary: w rule: less_induct)
  case less
  show ?case
  proof (cases "w_ops w = {#}")
    case False
    from operation_progress [OF less.prems False] obtain w1 where
      w1: "registry_step w w1" "work_left w1 < work_left w" "w_close w1 = w_close w" by blast
    from less.hyps [OF w1(2) step_consistent [OF w1(1) less.prems]] obtain w2 where
      "registry_run w1 w2" "w_ops w2 = {#}" "w_close w2 = w_close w1" by blast
    then show ?thesis using w1 run_trans [OF _ registry_run.more [OF registry_run.start]] by metis
  qed (use registry_run.start in blast)
qed

lemma hubs_close: "w_close w = Drained hubs \<Longrightarrow> \<exists>w'. registry_run w w' \<and> w_close w' = Drained []"
proof (induction hubs arbitrary: w)
  case (Cons h hubs)
  let ?w = "w\<lparr>w_hubsClosed := insert h (w_hubsClosed w), w_close := Drained hubs\<rparr>"
  obtain w' where "registry_run ?w w'" "w_close w' = Drained []" using Cons.IH [of ?w] by auto
  then show ?case using run_trans [OF _ registry_run.more [OF registry_run.start close_hub [OF Cons.prems]]] by blast
qed (use registry_run.start in blast)

text \<open>
  C25: the shutdown of the registry ends, from any moment of any execution, without waiting
  for the leases of requests; and when it has ended no operation is in flight, none can
  begin, and the hub of every runtime that was ever created is closed.
\<close>

theorem registry_shutdown:
  assumes "registry_run (begin_world labs) w"
  shows "(w_close w \<noteq> Serving \<longrightarrow> (\<exists>w'. registry_run w w' \<and> w_close w' = Drained [])) \<and>
    (w_close w = Drained [] \<longrightarrow> w_ops w = {#} \<and> w_hubsClosed w \<supseteq> {..<w_created w} \<and>
       (\<forall>i. snd (acquireEnter i (w_reg w)) \<in> {Rejected ErrClosed, Rejected (Errorf ''invalid laboratory ID'')}) \<and>
       (\<forall>order. snd (tickEnter order (w_reg w)) = Fail ErrClosed) \<and>
       (\<forall>i. \<not> is_Ok (snd (deleteEnter i (w_reg w)))))"
proof (intro conjI impI allI)
  have c: "consistent w" by (rule run_consistent [OF assms begin_consistent])
  show "\<exists>w'. registry_run w w' \<and> w_close w' = Drained []" if "w_close w \<noteq> Serving"
  proof (cases "w_close w")
    case Draining
    obtain w1 where w1: "registry_run w w1" "w_ops w1 = {#}" "w_close w1 = Draining"
      using operations_drain [OF c] Draining by metis
    have c1: "consistent w1" by (rule run_consistent [OF w1(1) c])
    then have zero: "rg_operations (w_reg w1) = 0" using w1(2) by (simp add: consistent_def counts_ok_def)
    have fin: "finite (dom (rg_entries (w_reg w1)))" using c1 by (simp add: consistent_def entries_ok_def table_ok_def)
    from finite_distinct_list [OF fin] obtain order where "set order = dom (rg_entries (w_reg w1)) \<and> distinct order" ..
    then have "registry_step w1 (w1\<lparr>w_close := Drained (closeRuntimes order (w_reg w1))\<rparr>)"
      by (intro close_drained [OF w1(3) zero]) simp_all
    moreover have "w_close (w1\<lparr>w_close := Drained (closeRuntimes order (w_reg w1))\<rparr>) = Drained (closeRuntimes order (w_reg w1))"
      by simp
    ultimately obtain w2 hubs where w2: "registry_step w1 w2" "w_close w2 = Drained hubs" by blast
    obtain w3 where "registry_run w2 w3" "w_close w3 = Drained []" using hubs_close [OF w2(2)] by blast
    then show ?thesis using run_trans [OF _ registry_run.more [OF w1(1) w2(1)]] by blast
  qed (use that hubs_close in blast)+
  assume d: "w_close w = Drained []"
  show ops: "w_ops w = {#}" using c d by (simp add: consistent_def close_ok_def)
  show "{..<w_created w} \<subseteq> w_hubsClosed w"
  proof
    fix rt assume "rt \<in> {..<w_created w}"
    then have "rt \<in> w_hubsClosed w \<or> (\<exists>i a. entry_at w i a \<and> rt_runtime (entry_of w a) = Some rt)"
      using c ops by (auto simp: consistent_def hubs_ok_def)
    then show "rt \<in> w_hubsClosed w" using c d by (auto simp: consistent_def close_ok_def)
  qed
  have closed: "rg_closed (w_reg w)" using c d by (simp add: consistent_def close_ok_def)
  then show "snd (acquireEnter i (w_reg w)) \<in> {Rejected ErrClosed, Rejected (Errorf ''invalid laboratory ID'')}" for i
    by (simp add: acquireEnter_def)
  show "snd (tickEnter order (w_reg w)) = Fail ErrClosed" for order
    using closed by (simp add: tickEnter_def)
  show "\<not> is_Ok (snd (deleteEnter i (w_reg w)))" for i
    using closed by (simp add: deleteEnter_def)
qed

section \<open>Witnesses\<close>

text \<open>A request loads the laboratory and holds its lease; or the registry is shut down at once.\<close>

lemma sample_ID: "LabID_valid (replicate 32 CHR ''0'')"
  by (simp add: LabID_valid_def list_all_iff)

definition leased_world :: World where
  "leased_world = (let i = replicate 32 CHR ''0''; r = publishEntry i NewRegistry in
     (begin_world {i})\<lparr>w_reg := fst (acquireFinish i 0 (Ok 0) (r\<lparr>rg_operations := 1\<rparr>)), w_leases := {#0#}, w_created := 1\<rparr>)"

lemma leased_run: "registry_run (begin_world {replicate 32 CHR ''0''}) leased_world"
proof -
  let ?i = "replicate 32 CHR ''0''"
  let ?r = "(publishEntry ?i NewRegistry)\<lparr>rg_operations := 1\<rparr>"
  let ?w1 = "(begin_world {?i})\<lparr>w_reg := ?r, w_ops := {#Loading ?i 0#}\<rparr>"
  let ?w2 = "?w1\<lparr>w_ops := {#Loaded ?i 0 (Ok 0)#}, w_created := 1\<rparr>"
  have "acquireEnter ?i (w_reg (begin_world {?i})) = (?r, Load_entry 0)"
    using sample_ID by (simp add: acquireEnter_def begin_world_def NewRegistry_def)
  from acquire_load [OF this] have 1: "registry_step (begin_world {?i}) ?w1" by (simp add: begin_world_def)
  have 2: "registry_step ?w1 ?w2"
    using load_ok [of ?w1 ?i 0 "{#}"] by (simp add: begin_world_def)
  have "\<not> rg_closed ?r" by (simp add: publishEntry_def NewRegistry_def)
  then have "acquireFinish ?i 0 (Ok 0) ?r = (fst (acquireFinish ?i 0 (Ok 0) ?r), Ok 0)"
    by (simp add: acquireFinish_def Let_def update_entry_def)
  then have 3: "registry_step ?w2 leased_world"
    using acquire_done [of ?w2 ?i 0 "Ok 0" "{#}" "fst (acquireFinish ?i 0 (Ok 0) ?r)" 0]
    by (simp add: leased_world_def begin_world_def Let_def)
  show ?thesis by (rule more [OF more [OF more [OF start 1] 2] 3])
qed

lemma leased_held: "0 \<in># held leased_world"
  by (simp add: held_def leased_world_def begin_world_def Let_def)

theorem leased_laboratory_is_safe_witness:
  "\<exists>i runtime. rg_entries (w_reg leased_world) i = Some 0 \<and> rt_runtime (rg_heap (w_reg leased_world) 0) = Some runtime \<and>
    i \<in> w_labs leased_world"
  using leased_laboratory_is_safe [OF leased_run leased_held] by blast

theorem registry_counts_witness:
  "rt_refs (rg_heap (w_reg leased_world) 0) = 1 \<and> rg_operations (w_reg leased_world) = 0"
  using registry_counts [OF leased_run, of undefined 0]
  by (simp add: held_def leased_world_def begin_world_def Let_def)

theorem registry_shutdown_witness:
  "\<exists>w'. registry_run ((begin_world {})\<lparr>w_reg := closeEnter NewRegistry, w_close := Draining\<rparr>) w' \<and> w_close w' = Drained []"
proof -
  let ?w = "(begin_world {})\<lparr>w_reg := closeEnter NewRegistry, w_close := Draining\<rparr>"
  have "registry_step (begin_world {}) ?w" using close_begin [of "begin_world {}"] by (simp add: begin_world_def)
  from registry_shutdown [OF more [OF start this]] show ?thesis by simp
qed

end
