(* ===== verification/Hub.thy ===== *)
theory Hub
  imports Transport "HOL-Library.Word"
begin

text \<open>
  The realtime hub of a laboratory (\<open>internal/realtime\<close>): the clients with their queues of
  one snapshot, the bridge from the updates of the manager, the handler of a connection, and
  the shutdown.  A section under a mutex is one atomic step; a connection is a channel to
  which a write may fail at any moment.
\<close>

section \<open>State\<close>

record queuedSnapshot =
  qs_sequence :: "64 word"
  qs_view :: StateSnapshot

record client =
  cl_queue :: "queuedSnapshot list"
  cl_canceled :: bool
  cl_lastSequence :: "64 word"

text \<open>The clients are objects, at addresses; \<open>hb_bridge\<close> says whether the bridge was started.\<close>

record Hub =
  hb_heap :: "nat \<Rightarrow> client"
  hb_clients :: "nat set"
  hb_bridge :: bool
  hb_closed :: bool
  hb_handlers :: int
  hb_sequence :: "64 word"

definition newClient :: client where
  "newClient = \<lparr>cl_queue = [], cl_canceled = False, cl_lastSequence = 0\<rparr>"

definition NewHub :: "Config \<Rightarrow> Hub res" where
  "NewHub cfg =
     (if MaxActivePortals cfg \<le> 0 \<or> LabEnergyMax cfg \<le> 0
      then Fail (ErrorfWrap ''new realtime hub: invalid config'' ErrSimulationInvariant)
      else Ok \<lparr>hb_heap = (\<lambda>_. newClient), hb_clients = {}, hb_bridge = False, hb_closed = False, hb_handlers = 0,
                hb_sequence = 0\<rparr>)"

definition update_client :: "nat \<Rightarrow> (client \<Rightarrow> client) \<Rightarrow> Hub \<Rightarrow> Hub" where
  "update_client a f h = h\<lparr>hb_heap := (hb_heap h)(a := f (hb_heap h a))\<rparr>"

section \<open>Queues\<close>

text \<open>A channel of capacity one, and the two operations of a \<open>select\<close> with a default.\<close>

definition trySend :: "'a \<Rightarrow> 'a list \<Rightarrow> 'a list" where
  "trySend x queue = (if length queue < 1 then queue @ [x] else queue)"

definition tryReceive :: "'a list \<Rightarrow> 'a list" where
  "tryReceive queue = tl queue"

definition offerLocked :: "queuedSnapshot \<Rightarrow> client \<Rightarrow> client" where
  "offerLocked snapshot candidate =
     (if qs_sequence snapshot \<le> cl_lastSequence candidate then candidate
      else let candidate = candidate\<lparr>cl_lastSequence := qs_sequence snapshot\<rparr> in
        if length (cl_queue candidate) < 1 then candidate\<lparr>cl_queue := trySend snapshot (cl_queue candidate)\<rparr>
        else candidate\<lparr>cl_queue := trySend snapshot (tryReceive (cl_queue candidate))\<rparr>)"

section \<open>Operations\<close>

definition beginHandler :: "Hub \<Rightarrow> Hub \<times> bool" where
  "beginHandler h = (if hb_closed h then (h, False) else (h\<lparr>hb_handlers := hb_handlers h + 1\<rparr>, True))"

definition endHandler :: "Hub \<Rightarrow> Hub" where
  "endHandler h = h\<lparr>hb_handlers := hb_handlers h - 1\<rparr>"

definition capture :: "Config \<Rightarrow> Snapshot res \<Rightarrow> Hub \<Rightarrow> Hub \<times> queuedSnapshot res" where
  "capture cfg state h =
     (case state of
        Fail e \<Rightarrow> (h, Fail e)
      | Panic \<Rightarrow> (h, Panic)
      | Ok snapshot \<Rightarrow>
          (case s_LastTickAt (sn_Simulation snapshot) of
             None \<Rightarrow> (h, Fail ErrSimulationInvariant)
           | Some t \<Rightarrow>
               if IsZero t then (h, Fail ErrSimulationInvariant)
               else (case BuildStateSnapshot snapshot (UTC t) cfg of
                       Fail e \<Rightarrow> (h, Fail e)
                     | Panic \<Rightarrow> (h, Panic)
                     | Ok view \<Rightarrow>
                         let h = h\<lparr>hb_sequence := hb_sequence h + 1\<rparr>
                         in (h, Ok \<lparr>qs_sequence = hb_sequence h, qs_view = view\<rparr>))))"

text \<open>The first section of \<open>register\<close>; the error is the context's.\<close>

definition registerEnter :: "nat \<Rightarrow> Hub \<Rightarrow> Hub \<times> unit res" where
  "registerEnter candidate h =
     (if hb_closed h then (h, Fail ErrContextCanceled)
      else (h\<lparr>hb_clients := insert candidate (hb_clients h), hb_bridge := True\<rparr>, Ok ()))"

definition unregister :: "nat \<Rightarrow> Hub \<Rightarrow> Hub" where
  "unregister candidate h =
     (if candidate \<notin> hb_clients h then h
      else update_client candidate (\<lambda>c. c\<lparr>cl_canceled := True\<rparr>) (h\<lparr>hb_clients := hb_clients h - {candidate}\<rparr>))"

text \<open>The order is the one in which the map happens to be iterated.\<close>

definition publish :: "nat list \<Rightarrow> queuedSnapshot \<Rightarrow> Hub \<Rightarrow> Hub" where
  "publish order snapshot h = fold (\<lambda>candidate. update_client candidate (offerLocked snapshot)) order h"

definition publishTo :: "nat \<Rightarrow> queuedSnapshot \<Rightarrow> Hub \<Rightarrow> Hub" where
  "publishTo candidate snapshot h =
     (if candidate \<notin> hb_clients h then h else update_client candidate (offerLocked snapshot) h)"

text \<open>The section of \<open>Close\<close>, with the clients it disconnects next.\<close>

definition closeHub :: "nat list \<Rightarrow> Hub \<Rightarrow> Hub \<times> nat list" where
  "closeHub order h =
     (if hb_closed h then (h, []) else (h\<lparr>hb_closed := True, hb_clients := hb_clients h - set order\<rparr>, order))"

definition disconnect :: "nat list \<Rightarrow> Hub \<Rightarrow> Hub" where
  "disconnect candidates h = fold (\<lambda>candidate. update_client candidate (\<lambda>c. c\<lparr>cl_canceled := True\<rparr>)) candidates h"

section \<open>Executions\<close>

text \<open>
  Where the handler of a connection is: accepting it, in \<open>register\<close> before and after its own
  capture, in its loop, past its loop, and returned.
\<close>

datatype handler = Absent | Accepting | Registered | Captured queuedSnapshot | Streaming | Leaving | Returned

datatype bridge = BridgeOff | BridgeIdle | BridgeWoken | BridgeHolding queuedSnapshot | BridgeDone

datatype closing = NotClosing | Waiting_close | Closed_hub

text \<open>
  Beside the hub: the handlers and the bridge, its context, the channel of the updates, which
  holds at most one, and what a property speaks about: the number of updates so far, the
  number there was at each capture, the snapshots written to each connection, and whether
  the bridge failed to capture an update.
\<close>

record HubWorld =
  hw_hub :: Hub
  hw_handlers :: "nat \<Rightarrow> handler"
  hw_bridge :: bridge
  hw_canceled :: bool
  hw_closing :: closing
  hw_signal :: bool
  hw_updates :: nat
  hw_captures :: "nat list"
  hw_written :: "nat \<Rightarrow> queuedSnapshot list"
  hw_missed :: bool

definition begin_hub :: "Hub \<Rightarrow> HubWorld" where
  "begin_hub h = \<lparr>hw_hub = h, hw_handlers = (\<lambda>_. Absent), hw_bridge = BridgeOff, hw_canceled = False, hw_closing = NotClosing,
     hw_signal = False, hw_updates = 0, hw_captures = [], hw_written = (\<lambda>_. []), hw_missed = False\<rparr>"

definition at_handler :: "nat \<Rightarrow> handler \<Rightarrow> HubWorld \<Rightarrow> HubWorld" where
  "at_handler a phase w = w\<lparr>hw_handlers := (hw_handlers w)(a := phase)\<rparr>"

definition with_hub :: "(Hub \<Rightarrow> Hub) \<Rightarrow> HubWorld \<Rightarrow> HubWorld" where
  "with_hub f w = w\<lparr>hw_hub := f (hw_hub w)\<rparr>"

definition captured :: "Hub \<Rightarrow> HubWorld \<Rightarrow> HubWorld" where
  "captured h w = w\<lparr>hw_hub := h, hw_captures := hw_captures w @ [hw_updates w]\<rparr>"

text \<open>The handler of the connection with the client \<open>a\<close>.\<close>

inductive handler_step :: "Config \<Rightarrow> nat \<Rightarrow> HubWorld \<Rightarrow> HubWorld \<Rightarrow> bool" for cfg a where
  enter: "hw_handlers w a = Absent \<Longrightarrow> beginHandler (hw_hub w) = (h, True) \<Longrightarrow>
    handler_step cfg a w (at_handler a Accepting (w\<lparr>hw_hub := h\<rparr>))"
| accept_fails: "hw_handlers w a = Accepting \<Longrightarrow>
    handler_step cfg a w (at_handler a Returned (with_hub endHandler w))"
| register: "hw_handlers w a = Accepting \<Longrightarrow>
      registerEnter a (update_client a (\<lambda>_. newClient) (hw_hub w)) = (h, Ok ()) \<Longrightarrow>
    handler_step cfg a w (at_handler a Registered (w\<lparr>hw_hub := h,
      hw_bridge := (if hb_bridge (hw_hub w) then hw_bridge w else BridgeIdle)\<rparr>))"
| register_refused: "hw_handlers w a = Accepting \<Longrightarrow>
      registerEnter a (update_client a (\<lambda>_. newClient) (hw_hub w)) = (h, Fail e) \<Longrightarrow>
    handler_step cfg a w (at_handler a Returned (w\<lparr>hw_hub := endHandler (disconnect [a] h)\<rparr>))"
| register_capture: "hw_handlers w a = Registered \<Longrightarrow> capture cfg state (hw_hub w) = (h, Ok snapshot) \<Longrightarrow>
    handler_step cfg a w (at_handler a (Captured snapshot) (captured h w))"
| register_capture_fails: "hw_handlers w a = Registered \<Longrightarrow> capture cfg state (hw_hub w) = (h, Fail e) \<Longrightarrow>
    handler_step cfg a w (at_handler a Returned (with_hub (endHandler \<circ> disconnect [a] \<circ> unregister a) w))"
| register_publish: "hw_handlers w a = Captured snapshot \<Longrightarrow>
    handler_step cfg a w (at_handler a Streaming (with_hub (publishTo a snapshot) w))"
| written: "hw_handlers w a = Streaming \<Longrightarrow> cl_queue (hb_heap (hw_hub w) a) = snapshot # rest \<Longrightarrow>
    handler_step cfg a w (with_hub (update_client a (\<lambda>c. c\<lparr>cl_queue := rest\<rparr>))
      (w\<lparr>hw_written := (hw_written w)(a := hw_written w a @ [snapshot])\<rparr>))"
| writing_fails: "hw_handlers w a = Streaming \<Longrightarrow> cl_queue (hb_heap (hw_hub w) a) = snapshot # rest \<Longrightarrow>
    handler_step cfg a w (at_handler a Leaving (with_hub (update_client a (\<lambda>c. c\<lparr>cl_queue := rest\<rparr>)) w))"
| disconnected: "hw_handlers w a = Streaming \<Longrightarrow> handler_step cfg a w (at_handler a Leaving w)"
| leave: "hw_handlers w a = Leaving \<Longrightarrow>
    handler_step cfg a w (at_handler a Returned (with_hub (endHandler \<circ> unregister a) w))"

inductive bridge_step :: "Config \<Rightarrow> HubWorld \<Rightarrow> HubWorld \<Rightarrow> bool" for cfg where
  wake: "hw_bridge w = BridgeIdle \<Longrightarrow> hw_signal w \<Longrightarrow> bridge_step cfg w (w\<lparr>hw_bridge := BridgeWoken, hw_signal := False\<rparr>)"
| bridge_capture: "hw_bridge w = BridgeWoken \<Longrightarrow> capture cfg state (hw_hub w) = (h, Ok snapshot) \<Longrightarrow>
    bridge_step cfg w ((captured h w)\<lparr>hw_bridge := BridgeHolding snapshot\<rparr>)"
| bridge_capture_fails: "hw_bridge w = BridgeWoken \<Longrightarrow> capture cfg state (hw_hub w) = (h, Fail e) \<Longrightarrow>
    bridge_step cfg w (if hw_canceled w then w\<lparr>hw_bridge := BridgeDone\<rparr> else w\<lparr>hw_bridge := BridgeIdle, hw_missed := True\<rparr>)"
| bridge_publish: "hw_bridge w = BridgeHolding snapshot \<Longrightarrow> distinct order \<Longrightarrow> set order = hb_clients (hw_hub w) \<Longrightarrow>
    bridge_step cfg w ((with_hub (publish order snapshot) w)\<lparr>hw_bridge := BridgeIdle\<rparr>)"
| bridge_stop: "hw_bridge w = BridgeIdle \<Longrightarrow> hw_canceled w \<Longrightarrow> bridge_step cfg w (w\<lparr>hw_bridge := BridgeDone\<rparr>)"

text \<open>
  Everything: handlers, the bridge, an update of the manager, and the call of \<open>Close\<close> that
  closes the hub, which cancels the bridge and the clients, and waits for both.
\<close>

inductive hub_step :: "Config \<Rightarrow> HubWorld \<Rightarrow> HubWorld \<Rightarrow> bool" for cfg where
  handler: "handler_step cfg a w w' \<Longrightarrow> hub_step cfg w w'"
| bridge: "bridge_step cfg w w' \<Longrightarrow> hub_step cfg w w'"
| update: "hub_step cfg w (w\<lparr>hw_updates := hw_updates w + 1, hw_signal := True\<rparr>)"
| close_begin: "hw_closing w = NotClosing \<Longrightarrow> distinct order \<Longrightarrow> set order = hb_clients (hw_hub w) \<Longrightarrow>
    closeHub order (hw_hub w) = (h, candidates) \<Longrightarrow>
    hub_step cfg w (w\<lparr>hw_hub := disconnect candidates h, hw_canceled := True, hw_closing := Waiting_close\<rparr>)"
| close_end: "hw_closing w = Waiting_close \<Longrightarrow> hw_bridge w \<in> {BridgeOff, BridgeDone} \<Longrightarrow> hb_handlers (hw_hub w) = 0 \<Longrightarrow>
    hub_step cfg w (w\<lparr>hw_closing := Closed_hub\<rparr>)"

inductive hub_run :: "Config \<Rightarrow> HubWorld \<Rightarrow> HubWorld \<Rightarrow> bool" for cfg where
  start: "hub_run cfg w w"
| more: "hub_run cfg w w' \<Longrightarrow> hub_step cfg w' w'' \<Longrightarrow> hub_run cfg w w''"

end
