(* ===== verification/TransportProperties.thy ===== *)
theory TransportProperties
  imports Transport TickProofs
begin

text \<open>
  What the public view shows: the transits, the slots and the counts of a snapshot, the
  reasons of unavailable actions, and the order of the event log.
\<close>

section \<open>Loops that count\<close>

lemma foldM_measure:
  assumes "foldM f s xs = Ok s'" and "\<And>t x t'. x \<in> set xs \<Longrightarrow> f t x = Ok t' \<Longrightarrow> (m t' :: int) = m t + w x"
  shows "m s' = m s + sum_list (map w xs)"
  using assms(1)
proof (induction rule: foldM_prefix_invariant)
  case (step ys x zs t t')
  then have "m t' = m t + w x" by (intro assms(2)) auto
  then show ?case using step by simp
qed simp

lemma sum_indicator: "sum_list (map (\<lambda>x. if P x then 1 else 0 :: int) xs) = int (length (filter P xs))"
  by (induction xs) auto

section \<open>Transits\<close>

lemma transitPortals_Some:
  assumes "transitPortals portals = Ok m"
  shows "m i = Some p \<longleftrightarrow> p \<in> set portals \<and> p_ID p = i" and "distinct (map p_ID portals)"
    and "p \<in> set portals \<Longrightarrow> 0 < p_ID p"
proof -
  from assms have "(\<forall>i p. m i = Some p \<longleftrightarrow> p \<in> set portals \<and> p_ID p = i) \<and> distinct (map p_ID portals) \<and>
      (\<forall>p\<in>set portals. 0 < p_ID p)"
    unfolding transitPortals_def
  proof (induction rule: foldM_prefix_invariant)
    case (step ys x zs t t')
    from step(2) have x: "t (p_ID x) = None" "0 < p_ID x" "t' = t(p_ID x \<mapsto> x)" by (auto simp: not_le split: if_splits)
    then have "\<forall>q\<in>set ys. p_ID q \<noteq> p_ID x" using step(3) by (metis option.distinct(1))
    then show ?case using step(3) x(2) unfolding x(3) by (auto simp: x(1) split: if_splits)
  qed simp
  then show "m i = Some p \<longleftrightarrow> p \<in> set portals \<and> p_ID p = i" "distinct (map p_ID portals)"
    "p \<in> set portals \<Longrightarrow> 0 < p_ID p" by blast+
qed

definition moving :: "Observer \<Rightarrow> bool" where
  "moving ob \<longleftrightarrow> o_Status ob = ObserverOutbound \<or> o_Status ob = ObserverReturning"

text \<open>What the view says of an observer under way through a portal.\<close>

definition shows_transit :: "time \<Rightarrow> Observer \<Rightarrow> Portal \<Rightarrow> ObserverTransitDTO \<Rightarrow> bool" where
  "shows_transit now ob p t \<longleftrightarrow> moving ob \<and> o_ActivePortalID ob = Some (p_ID p) \<and> p_Status p = PortalStatusOpen \<and>
     p_ObserverFlow p = (if o_Status ob = ObserverOutbound then PortalFlowOutbound else PortalFlowInbound) \<and>
     (\<exists>startedAt endsAt. o_PhaseStartedAt ob = Some startedAt \<and> o_PhaseEndsAt ob = Some endsAt \<and>
        ns startedAt \<le> ns now \<and> ns startedAt < ns endsAt \<and>
        t = \<lparr>td_ObserverID = o_ID ob, td_PortalID = p_ID p, td_Direction = o_Status ob,
             td_StartedAt = UTC startedAt, td_CompletesAt = UTC endsAt, td_RemainingSeconds = seconds (Sub endsAt now)\<rparr>)"

lemma transitAt_cases:
  assumes "transitAt m now (seen, busy, result) ob = Ok (seen', busy', result')"
  shows "o_ID ob \<notin> seen \<and> seen' = insert (o_ID ob) seen \<and>
    (\<not> moving ob \<and> busy' = busy \<and> result' = result \<or>
     (\<exists>i p t. m i = Some p \<and> o_ActivePortalID ob = Some i \<and> p_ID p \<notin> busy \<and> busy' = insert (p_ID p) busy \<and>
        result' = result @ [t] \<and> (p_ID p = i \<longrightarrow> shows_transit now ob p t)))"
  using assms
  by (auto simp: transitAt_def moving_def shows_transit_def Let_def split: if_splits option.splits)

lemma transit_loop:
  assumes "foldM (transitAt m now) ({}, {}, []) obs = Ok (seen, busy, result)" and "\<And>i p. m i = Some p \<Longrightarrow> p_ID p = i"
  shows "seen = o_ID ` set obs \<and> distinct (map o_ID obs) \<and> distinct (map td_PortalID result) \<and>
    map td_ObserverID result = map o_ID (filter moving obs) \<and>
    (\<forall>t\<in>set result. \<exists>ob\<in>set obs. \<exists>p. m (p_ID p) = Some p \<and> shows_transit now ob p t) \<and>
    busy = td_PortalID ` set result"
proof -
  let ?I = "\<lambda>obs (seen, busy, result). seen = o_ID ` set obs \<and> distinct (map o_ID obs) \<and> distinct (map td_PortalID result) \<and>
    map td_ObserverID result = map o_ID (filter moving obs) \<and>
    (\<forall>t\<in>set result. \<exists>ob\<in>set obs. \<exists>p. m (p_ID p) = Some p \<and> shows_transit now ob p t) \<and>
    busy = td_PortalID ` set result"
  from assms(1) have "?I obs (seen, busy, result)"
  proof (induction rule: foldM_prefix_invariant [where I = ?I])
    case (step ys x zs t t')
    obtain a b c where t: "t = (a, b, c)" by (cases t)
    obtain a' b' c' where t': "t' = (a', b', c')" by (cases t')
    note ih = step(2) [unfolded t prod.case]
    from transitAt_cases [OF step(3) [unfolded t t']] have s: "o_ID x \<notin> a" "a' = insert (o_ID x) a" and
      r: "\<not> moving x \<and> b' = b \<and> c' = c \<or>
       (\<exists>i p t. m i = Some p \<and> o_ActivePortalID x = Some i \<and> p_ID p \<notin> b \<and> b' = insert (p_ID p) b \<and>
        c' = c @ [t] \<and> (p_ID p = i \<longrightarrow> shows_transit now x p t))" by blast+
    from r show ?case
    proof
      assume "\<not> moving x \<and> b' = b \<and> c' = c"
      then show ?thesis using ih s by (auto simp: t')
    next
      assume "\<exists>i p t. m i = Some p \<and> o_ActivePortalID x = Some i \<and> p_ID p \<notin> b \<and> b' = insert (p_ID p) b \<and>
        c' = c @ [t] \<and> (p_ID p = i \<longrightarrow> shows_transit now x p t)"
      then obtain p u where p: "m (p_ID p) = Some p" "p_ID p \<notin> b" "b' = insert (p_ID p) b" "c' = c @ [u]"
        "shows_transit now x p u" using assms(2) by metis
      then have u: "td_PortalID u = p_ID p" "td_ObserverID u = o_ID x" "moving x" by (auto simp: shows_transit_def)
      show ?thesis using ih s p u by (auto simp: t')
    qed
  qed simp
  then show ?thesis by simp
qed

lemma transits_of:
  assumes "BuildObserverTransits state now = Ok transits"
  shows "sorted_wrt (<) (map td_ObserverID transits)"
    and "set (map td_ObserverID transits) = o_ID ` {ob \<in> set (s_Observers state). moving ob}"
    and "distinct (map td_PortalID transits)"
    and "\<forall>t\<in>set transits. 0 \<le> td_RemainingSeconds t \<and>
       (\<exists>ob\<in>set (s_Observers state). \<exists>p\<in>set (s_Portals state). shows_transit now ob p t)"
    and "distinct (map o_ID (s_Observers state))"
proof -
  from assms obtain m seen busy result where m: "transitPortals (s_Portals state) = Ok m"
    and loop: "foldM (transitAt m now) ({}, {}, []) (s_Observers state) = Ok (seen, busy, result)"
    and transits: "transits = sort_key td_ObserverID result"
    by (auto simp: BuildObserverTransits_def SliceStable_key [where k = td_ObserverID])
  note p = transitPortals_Some [OF m]
  have "\<And>i p. m i = Some p \<Longrightarrow> p_ID p = i" using p(1) by blast
  note l = transit_loop [OF loop this]
  from l have shown: "\<forall>t\<in>set result. \<exists>ob\<in>set (s_Observers state). \<exists>p. m (p_ID p) = Some p \<and> shows_transit now ob p t"
    by simp
  have "distinct (map o_ID (filter moving (s_Observers state)))"
    using l by (metis distinct_map_filter)
  then have d: "distinct (map td_ObserverID result)" using l by metis
  have mset: "mset transits = mset result" by (simp add: transits)
  have d': "distinct (map td_ObserverID transits)"
    using d mset by (metis mset_map mset_eq_imp_distinct_iff)
  have "sorted (map td_ObserverID transits)" by (simp add: transits)
  then show "sorted_wrt (<) (map td_ObserverID transits)" using d' by (simp add: strict_sorted_iff)
  show "distinct (map td_PortalID transits)" using l mset by (metis mset_map mset_eq_imp_distinct_iff)
  have s: "set transits = set result" using mset by (metis set_mset_mset)
  show "set (map td_ObserverID transits) = o_ID ` {ob \<in> set (s_Observers state). moving ob}"
    using l s by (metis set_map set_filter)
  show "distinct (map o_ID (s_Observers state))" using l by blast
  have "0 \<le> td_RemainingSeconds t \<and> (\<exists>ob\<in>set (s_Observers state). \<exists>p\<in>set (s_Portals state). shows_transit now ob p t)"
    if "t \<in> set transits" for t
  proof -
    have "t \<in> set result" using that s by simp
    then obtain ob q where q: "ob \<in> set (s_Observers state)" "m (p_ID q) = Some q" "shows_transit now ob q t"
      using shown by blast
    have "0 \<le> seconds k" for k by (simp add: seconds_def sdiv_nonneg pos_imp_zdiv_nonneg_iff)
    then have "0 \<le> td_RemainingSeconds t" using q(3) by (auto simp: shows_transit_def)
    moreover have "q \<in> set (s_Portals state)" using q(2) p(1) by simp
    ultimately show ?thesis using q(1,3) by blast
  qed
  then show "\<forall>t\<in>set transits. 0 \<le> td_RemainingSeconds t \<and>
       (\<exists>ob\<in>set (s_Observers state). \<exists>p\<in>set (s_Portals state). shows_transit now ob p t)" by blast
qed

text \<open>
  The view of the transits shows exactly the observers under way, once each and in the
  order of their IDs, each through an open portal of the right direction and no two through
  the same one, with a countdown that is never negative.
\<close>

theorem transits_shown:
  assumes "BuildObserverTransits state now = Ok transits"
  shows "sorted_wrt (<) (map td_ObserverID transits) \<and>
    set (map td_ObserverID transits) = o_ID ` {ob \<in> set (s_Observers state). moving ob} \<and>
    distinct (map td_PortalID transits) \<and>
    (\<forall>t\<in>set transits. 0 \<le> td_RemainingSeconds t \<and>
       (\<exists>ob\<in>set (s_Observers state). \<exists>p\<in>set (s_Portals state). shows_transit now ob p t))"
  using transits_of [OF assms] by blast

section \<open>Counts of observers and planes\<close>

definition in_status :: "ObserverStatus list \<Rightarrow> Observer list \<Rightarrow> int" where
  "in_status statuses obs = int (length (filter (\<lambda>ob. o_Status ob \<in> set statuses) obs))"

lemma in_status_simps [simp]:
  "in_status st [] = 0"
  "in_status st (ob # obs) = (if o_Status ob \<in> set st then 1 else 0) + in_status st obs"
  "in_status st (obs @ obs') = in_status st obs + in_status st obs'"
  by (simp_all add: in_status_def)

lemma planeViews_Ok:
  assumes "planeViews planes = Ok (exploration, views)"
  shows "views = map buildPlane planes"
    and "xd_Explored exploration = int (length (filter pl_Explored planes))" and "xd_Total exploration = int (length planes)"
proof -
  let ?I = "\<lambda>pls (e, vs). vs = map buildPlane pls \<and> xd_Explored e = int (length (filter pl_Explored pls)) \<and>
    xd_Total e = int (length planes)"
  from assms have "?I planes (exploration, views)"
    unfolding planeViews_def
    by (induction rule: foldM_prefix_invariant [where I = ?I]) (auto split: if_splits)
  then show "views = map buildPlane planes" "xd_Explored exploration = int (length (filter pl_Explored planes))"
    "xd_Total exploration = int (length planes)" by simp_all
qed

lemma observerView_Ok:
  assumes "foldM (observerView ix) (noObservers, views) obs = Ok (counts, views')"
  shows "counts = \<lparr>ct_Available = in_status [ObserverAvailable] obs, ct_Outbound = in_status [ObserverOutbound] obs,
      ct_Exploring = in_status [ObserverExploring] obs, ct_WaitingReturn = in_status [ObserverWaitingReturn] obs,
      ct_Returning = in_status [ObserverReturning] obs, ct_Lost = in_status [ObserverLost] obs,
      ct_InLab = in_status [ObserverAvailable] obs,
      ct_InWorlds = in_status [ObserverExploring, ObserverWaitingReturn] obs,
      ct_InTransit = in_status [ObserverOutbound, ObserverReturning] obs\<rparr>"
    and "length views' = length views"
proof -
  let ?I = "\<lambda>obs (counts, vs). counts = \<lparr>ct_Available = in_status [ObserverAvailable] obs, ct_Outbound = in_status [ObserverOutbound] obs,
      ct_Exploring = in_status [ObserverExploring] obs, ct_WaitingReturn = in_status [ObserverWaitingReturn] obs,
      ct_Returning = in_status [ObserverReturning] obs, ct_Lost = in_status [ObserverLost] obs,
      ct_InLab = in_status [ObserverAvailable] obs,
      ct_InWorlds = in_status [ObserverExploring, ObserverWaitingReturn] obs,
      ct_InTransit = in_status [ObserverOutbound, ObserverReturning] obs\<rparr> \<and> length vs = length views"
  from assms have "?I obs (counts, views')"
  proof (induction rule: foldM_prefix_invariant [where I = ?I])
    case (step ys x zs t t')
    obtain c vs where t: "t = (c, vs)" by (cases t)
    obtain c' vs' where t': "t' = (c', vs')" by (cases t')
    have "c' = countObserver c (o_Status x)" "length vs' = length vs"
      using step(3) by (auto simp: t t' observerView_def Let_def split: option.splits if_splits)
    then show ?case using step(2) by (cases "o_Status x") (simp_all add: t t' countObserver_def)
  qed (simp add: noObservers_def)
  then show "counts = \<lparr>ct_Available = in_status [ObserverAvailable] obs, ct_Outbound = in_status [ObserverOutbound] obs,
      ct_Exploring = in_status [ObserverExploring] obs, ct_WaitingReturn = in_status [ObserverWaitingReturn] obs,
      ct_Returning = in_status [ObserverReturning] obs, ct_Lost = in_status [ObserverLost] obs,
      ct_InLab = in_status [ObserverAvailable] obs,
      ct_InWorlds = in_status [ObserverExploring, ObserverWaitingReturn] obs,
      ct_InTransit = in_status [ObserverOutbound, ObserverReturning] obs\<rparr>" "length views' = length views" by simp_all
qed

section \<open>Slots\<close>

definition slot_view :: "Portal list \<Rightarrow> nat \<Rightarrow> SlotDTO \<Rightarrow> bool" where
  "slot_view portals i slot \<longleftrightarrow> sl_SlotIndex slot = int i + 1 \<and>
     (case sl_Portal slot of
        None \<Rightarrow> \<forall>p\<in>set portals. p_Status p = PortalStatusOpen \<longrightarrow> p_SlotIndex p \<noteq> int i + 1
      | Some v \<Rightarrow> \<exists>p\<in>set portals. p_Status p = PortalStatusOpen \<and> p_SlotIndex p = int i + 1 \<and> sp_ID v = p_ID p \<and>
          sp_DestinationPlaneID v = p_DestinationPlaneID p)"

definition occupied :: "SlotDTO list \<Rightarrow> int" where
  "occupied slots = int (length (filter (\<lambda>s. sl_Portal s \<noteq> None) slots))"

lemma occupied_update:
  assumes "k < length slots" and "sl_Portal (slots ! k) = None"
  shows "occupied (slots[k := (slots ! k)\<lparr>sl_Portal := Some v\<rparr>]) = occupied slots + 1"
proof -
  have s: "slots = take k slots @ slots ! k # drop (Suc k) slots" using assms(1) by (simp add: id_take_nth_drop)
  have "occupied (slots[k := x]) = occupied (take k slots) + occupied (x # drop (Suc k) slots)" for x
    using assms(1) by (simp add: occupied_def upd_conv_take_nth_drop)
  then show ?thesis using assms(2) by (subst (2) s) (simp add: occupied_def)
qed

lemma portal_views:
  assumes "foldM (portalView sim ix now cfg) (noPortals n, slots0) portals = Ok (counts, slots)"
    and "slots0 = map (\<lambda>i. \<lparr>sl_SlotIndex = int i + 1, sl_Portal = None\<rparr>) [0..<nat n]"
    and "\<And>i j. ix i = Some j \<Longrightarrow> pl_ID (s_Planes sim ! j) = i"
  shows "pd_Active counts = countOpenPortals portals" and "pd_Maximum counts = n"
    and "pd_Closed counts = int (length (filter (\<lambda>p. p_Status p = PortalStatusClosed) portals))"
    and "pd_Collapsed counts = int (length (filter (\<lambda>p. p_Status p = PortalStatusCollapsed) portals))"
    and "pd_Active counts + pd_Closed counts + pd_Collapsed counts = int (length portals)"
    and "pd_Critical counts = int (length (filter (\<lambda>p. Portal_RiskLevel p now cfg = Some RiskCritical) portals))"
    and "length slots = nat n" and "occupied slots = pd_Active counts"
    and "i < nat n \<Longrightarrow> slot_view portals i (slots ! i)"
proof -
  let ?I = "\<lambda>ps (counts, slots). pd_Active counts = countOpenPortals ps \<and> pd_Maximum counts = n \<and>
    pd_Closed counts = int (length (filter (\<lambda>p. p_Status p = PortalStatusClosed) ps)) \<and>
    pd_Collapsed counts = int (length (filter (\<lambda>p. p_Status p = PortalStatusCollapsed) ps)) \<and>
    pd_Active counts + pd_Closed counts + pd_Collapsed counts = int (length ps) \<and>
    pd_Critical counts = int (length (filter (\<lambda>p. Portal_RiskLevel p now cfg = Some RiskCritical) ps)) \<and>
    length slots = nat n \<and> occupied slots = pd_Active counts \<and> (\<forall>i<nat n. slot_view ps i (slots ! i))"
  from assms(1) have "?I portals (counts, slots)"
  proof (induction rule: foldM_prefix_invariant [where I = ?I])
    case init
    show ?case by (simp add: noPortals_def countOpenPortals_def occupied_def slot_view_def assms(2))
  next
    case (step ys x zs t t')
    obtain c sl where t: "t = (c, sl)" by (cases t)
    obtain c' sl' where t': "t' = (c', sl')" by (cases t')
    have ih: "?I ys (c, sl)" using step(2) by (simp add: t)
    have terminal: "Portal_RiskLevel x now cfg = None" if "p_Status x = PortalStatusClosed \<or> p_Status x = PortalStatusCollapsed"
      using that by (auto simp: Portal_RiskLevel_def Portal_IsTerminal_def)
    have same: "slot_view (ys @ [x]) i s" if "slot_view ys i s" "p_Status x \<noteq> PortalStatusOpen \<or> p_SlotIndex x \<noteq> int i + 1" for i s
      using that by (auto simp: slot_view_def split: option.splits)
    show ?case
    proof (cases "p_Status x")
      case PortalStatusOpen
      let ?k = "nat (p_SlotIndex x - 1)"
      obtain j v where k: "1 \<le> p_SlotIndex x" "p_SlotIndex x \<le> int (length sl)" "sl_Portal (sl ! ?k) = None"
        and j: "ix (p_DestinationPlaneID x) = Some j" and v: "buildSlotPortal sim x (s_Planes sim ! j) now cfg = Ok v"
        and sl': "sl' = sl[?k := (sl ! ?k)\<lparr>sl_Portal := Some v\<rparr>]"
        and c': "c' = (let c = c\<lparr>pd_Active := pd_Active c + 1\<rparr> in if Portal_RiskLevel x now cfg = Some RiskCritical
           then c\<lparr>pd_Critical := pd_Critical c + 1\<rparr> else c)"
        using step(3) PortalStatusOpen by (auto simp: t t' portalView_def Let_def not_less split: if_splits option.splits)
      have kl: "?k < length sl" "int ?k + 1 = p_SlotIndex x" using k(1,2) by auto
      have id: "sp_ID v = p_ID x" "sp_DestinationPlaneID v = p_DestinationPlaneID x"
        using v assms(3) [OF j] by (auto simp: buildSlotPortal_def)
      have "slot_view (ys @ [x]) i (sl' ! i)" if i: "i < nat n" for i
      proof (cases "i = ?k")
        case True
        then have "sl_SlotIndex (sl ! ?k) = int ?k + 1" using ih i by (auto simp: slot_view_def)
        then show ?thesis using True kl id PortalStatusOpen by (auto simp: sl' slot_view_def)
      next
        case False
        then have "p_SlotIndex x \<noteq> int i + 1" using kl(2) by auto
        then show ?thesis using ih i False same by (auto simp: sl')
      qed
      then show ?thesis
        using ih kl occupied_update [OF kl(1) k(3)] PortalStatusOpen
        by (simp add: t' sl' c' countOpenPortals_def Let_def)
    qed (use step(3) ih same terminal in \<open>auto simp: t t' portalView_def countOpenPortals_def\<close>)
  qed
  then show "pd_Active counts = countOpenPortals portals" "pd_Maximum counts = n"
    "pd_Closed counts = int (length (filter (\<lambda>p. p_Status p = PortalStatusClosed) portals))"
    "pd_Collapsed counts = int (length (filter (\<lambda>p. p_Status p = PortalStatusCollapsed) portals))"
    "pd_Active counts + pd_Closed counts + pd_Collapsed counts = int (length portals)"
    "pd_Critical counts = int (length (filter (\<lambda>p. Portal_RiskLevel p now cfg = Some RiskCritical) portals))"
    "length slots = nat n" "occupied slots = pd_Active counts" "i < nat n \<Longrightarrow> slot_view portals i (slots ! i)"
    by simp_all
qed

section \<open>Reasons of unavailable actions\<close>

text \<open>The errors the commands can give: those with a public code, and the broken invariants.\<close>

definition domain_error :: "error \<Rightarrow> bool" where
  "domain_error e \<longleftrightarrow> e \<in> fst ` set known_errors \<or> isAvailabilityInvariant e"

definition domain_fails :: "'a res \<Rightarrow> bool" where
  "domain_fails m \<longleftrightarrow> (case m of Fail e \<Rightarrow> domain_error e | _ \<Rightarrow> True)"

lemma domain_fails_simps [simp]:
  "domain_fails (Ok x)" "domain_fails Panic" "domain_fails (Fail e) \<longleftrightarrow> domain_error e"
  by (simp_all add: domain_fails_def)

lemma domain_errors [simp]:
  "domain_error ErrPortalNotOpen" "domain_error ErrPortalAlreadyStable" "domain_error ErrPortalOverchargeRisk"
  "domain_error ErrConfirmationRequired" "domain_error ErrNoFreePortalSlot" "domain_error ErrObserverNotAvailable"
  "domain_error ErrObserverNotWaitingReturn" "domain_error ErrObserverLost" "domain_error ErrPortalCriticalRisk"
  "domain_error ErrPortalDirectionConflict" "domain_error ErrPortalBusy" "domain_error ErrPortalCreaturesPresent"
  "domain_error ErrNoAvailableObserver" "domain_error ErrNoWaitingObserver" "domain_error ErrInsufficientLabEnergy"
  "domain_error ErrExtractionSynchronizing" "domain_error ErrObserverInvariant" "domain_error ErrLabEnergyInvariant"
  "domain_error ErrExtractionInvariant" "domain_error ErrSimulationInvariant" "domain_error ErrEventInvariant"
  by (simp_all add: domain_error_def known_errors_def isAvailabilityInvariant_def)

lemma domain_fails_bind [intro]: "domain_fails m \<Longrightarrow> (\<And>x. m = Ok x \<Longrightarrow> domain_fails (f x)) \<Longrightarrow> domain_fails (rbind m f)"
  by (cases m) auto

lemma domain_fails_foldM: "(\<And>s x. x \<in> set xs \<Longrightarrow> domain_fails (f s x)) \<Longrightarrow> domain_fails (foldM f s xs)"
  by (induction xs arbitrary: s) auto

lemma domain_fails_map [simp]: "domain_fails (map_result f m) \<longleftrightarrow> domain_fails m"
  by (cases m) auto

lemma queries_fail [simp]:
  "domain_fails (prepareLabEnergySpend lab now cost cfg)" "domain_fails (Portal_CreaturesInside portal now cfg)"
  "domain_fails (Portal_Stabilize portal now cfg)" "domain_fails (Portal_Close portal now confirm cfg)"
  "domain_fails (validateObserverCommandAggregate portal plane observers now)"
  "domain_fails (ActiveTransitObserverIndex observers pid now)"
  "domain_fails (LongestWaitingObserverIndex observers plid)"
proof -
  show c: "domain_fails (Portal_CreaturesInside p now cfg)" for p
    by (auto simp: Portal_CreaturesInside_def Let_def go_quot_def intro!: domain_fails_bind)
  show "domain_fails (prepareLabEnergySpend lab now cost cfg)" by (simp add: prepareLabEnergySpend_def)
  show "domain_fails (Portal_Stabilize portal now cfg)" by (simp add: Portal_Stabilize_def)
  show "domain_fails (Portal_Close portal now confirm cfg)"
    using c by (auto simp: Portal_Close_def intro!: domain_fails_bind)
  show "domain_fails (validateObserverCommandAggregate portal plane observers now)"
    by (simp add: validateObserverCommandAggregate_def validateObserverRoster_eq)
  show "domain_fails (ActiveTransitObserverIndex observers pid now)"
    unfolding ActiveTransitObserverIndex_def
    by (rule domain_fails_foldM) (simp add: Let_def split: option.split)
  show "domain_fails (LongestWaitingObserverIndex observers plid)"
    unfolding LongestWaitingObserverIndex_def
    by (rule domain_fails_foldM) (simp add: Let_def split: option.split)
qed

lemma Once_fails [simp]: "domain_fails (resolveObserverLifecycleOnce ob plane portal now cfg)"
proof -
  have t: "domain_fails (resolveObserverTransitFailure ob p now)" for p
    by (simp add: resolveObserverTransitFailure_def split: option.split)
  have "domain_fails (resolveObserverOutbound ob plane portal now cfg)"
    using t by (auto simp: resolveObserverOutbound_def split: option.split)
  moreover have "domain_fails (resolveObserverReturning ob plane portal now)"
    using t by (auto simp: resolveObserverReturning_def split: option.split)
  moreover have "domain_fails (resolveObserverResearch ob plane now)"
    by (simp add: resolveObserverResearch_def split: option.split)
  ultimately show ?thesis by (simp add: resolveObserverLifecycleOnce_def split: ObserverStatus.split)
qed

lemma Lifecycle_fails [simp]: "domain_fails (snd (ResolveObserverLifecycle ob plane portal now cfg))"
proof (induction ob plane portal now cfg rule: ResolveObserverLifecycle.induct)
  case (1 ob plane portal now cfg)
  show ?case
  proof (cases "resolveObserverLifecycleOnce ob plane portal now cfg")
    case (Ok x)
    then show ?thesis
      using 1 by (cases x) (auto simp: ResolveObserverLifecycle.simps [of ob plane portal now cfg])
  next
    case (Fail e)
    then show ?thesis
      using Once_fails [of ob plane portal now cfg] by (simp add: ResolveObserverLifecycle.simps [of ob plane portal now cfg])
  qed (simp add: ResolveObserverLifecycle.simps [of ob plane portal now cfg])
qed

lemma starts_fail [simp]:
  "domain_fails (StartOutbound ob now pid (Some availabilityRandom) cfg r)"
  "domain_fails (StartReturning ob now pid (Some availabilityRandom) cfg r)"
proof -
  have "domain_fails (drawTransitEnd now (Some availabilityRandom) cfg r)"
    by (auto simp: drawTransitEnd_def drawInt_def availabilityRandom_def Let_def intro!: domain_fails_bind)
  then show "domain_fails (StartOutbound ob now pid (Some availabilityRandom) cfg r)"
    "domain_fails (StartReturning ob now pid (Some availabilityRandom) cfg r)"
    by (auto simp: StartOutbound_def StartReturning_def)
qed

lemma commands_fail [simp]:
  "domain_fails (SendObserver portal plane observers now confirm (Some availabilityRandom) cfg r)"
  "domain_fails (RecallObserver portal plane observers now confirm (Some availabilityRandom) cfg r)"
  "domain_fails (StabilizePortalWithLabEnergy lab portal now cfg)"
  "domain_fails (snd (ClosePortalWithLabEnergy lab portal plane observers now confirm cfg))"
proof -
  show "domain_fails (SendObserver portal plane observers now confirm (Some availabilityRandom) cfg r)"
    unfolding SendObserver_def by (auto intro!: domain_fails_bind split: option.split)
  show "domain_fails (RecallObserver portal plane observers now confirm (Some availabilityRandom) cfg r)"
    unfolding RecallObserver_def recallObserverPrepared_def by (auto intro!: domain_fails_bind split: option.split)
  show "domain_fails (StabilizePortalWithLabEnergy lab portal now cfg)"
    unfolding StabilizePortalWithLabEnergy_def Let_def by (auto intro!: domain_fails_bind)
  have "domain_fails (rbind (validateObserverCommandAggregate portal plane observers now) (\<lambda>_.
             if p_Status portal \<noteq> PortalStatusOpen then Fail ErrPortalNotOpen
             else rbind (ActiveTransitObserverIndex observers (p_ID portal) now) (\<lambda>active.
               if active \<noteq> None \<and> \<not> confirm then Fail ErrConfirmationRequired
               else rbind (Portal_Close portal now confirm cfg) (\<lambda>shut. Ok (active, shut)))))" (is "domain_fails ?m")
    by (auto intro!: domain_fails_bind)
  moreover have "domain_fails (snd (case ResolveObserverLifecycle ob pl pt now cfg of
      ((ob, plane'), result) \<Rightarrow> (g ob plane', result)))" for ob pl pt and g :: "Observer \<Rightarrow> Plane option \<Rightarrow> Portal \<times> Plane \<times> Observer list"
    using Lifecycle_fails [of ob pl pt now cfg] by (simp add: split_def)
  ultimately have "domain_fails (snd (ClosePortalWithObservers portal plane observers now confirm cfg))"
    unfolding ClosePortalWithObservers_def by (cases ?m) (auto simp del: not_None_eq split: option.split)
  then show "domain_fails (snd (ClosePortalWithLabEnergy lab portal plane observers now confirm cfg))"
    using queries_fail(1) [of lab now "effectiveCloseCost lab now cfg" cfg]
    by (auto simp: ClosePortalWithLabEnergy_def Let_def simp del: queries_fail split: result.split prod.split)
qed

lemma dryRun_fails:
  "action \<in> {PortalActionStabilize, PortalActionClose, PortalActionSend, PortalActionRecall} \<Longrightarrow>
   domain_fails (dryRun state portal plane action now cfg)"
  by (auto simp: dryRun_def SendObserverWithLabEnergy_def RecallObserverWithLabEnergy_def intro!: domain_fails_bind)

lemma availability_cause:
  assumes "PortalActionAvailability state pid action now cfg = Ok availability" and "\<not> aa_Available availability"
    and "action \<in> {PortalActionStabilize, PortalActionClose, PortalActionSend, PortalActionRecall}"
  shows "\<exists>e. aa_Cause availability = Some e \<and> e \<in> fst ` set known_errors \<and> e \<noteq> ErrConfirmationRequired"
proof -
  from assms(1,2) obtain portal plane e where e: "dryRun state portal plane action now cfg = Fail e"
    "\<not> (isAvailabilityInvariant e \<or> errors_Is e ErrConfirmationRequired)" "availability = \<lparr>aa_Available = False, aa_Cause = Some e\<rparr>"
    by (auto simp: PortalActionAvailability_def split: option.splits result.splits if_splits)
  then show ?thesis using dryRun_fails [OF assms(3), of state portal plane now cfg] by (auto simp: domain_error_def)
qed

definition reason_codes :: "string list" where
  "reason_codes = map (\<lambda>(_, code, _). code) (filter (\<lambda>(_, _, confirmable). \<not> confirmable) known_errors)"

lemma known_errors_facts:
  "\<forall>(known, code, confirmable)\<in>set known_errors. confirmable = (known = ErrConfirmationRequired)"
  "e \<in> fst ` set known_errors \<Longrightarrow> errors_Is e k \<longleftrightarrow> e = k"
  by (simp add: known_errors_def) (auto simp: known_errors_def)

lemma find_SomeD: "find P xs = Some x \<Longrightarrow> x \<in> set xs \<and> P x"
  by (induction xs) (auto split: if_splits)

lemma described:
  assumes "e \<in> fst ` set known_errors" and "e \<noteq> ErrConfirmationRequired"
  shows "\<exists>code\<in>set reason_codes. DescribeDomainError (Some e) = Some \<lparr>ed_Code = code, ed_Message = Error_text e, ed_Confirmable = False\<rparr>"
proof -
  obtain code confirmable where "find (\<lambda>(known, _, _). errors_Is e known) known_errors = Some (e, code, confirmable)"
  proof -
    obtain y where "y \<in> set known_errors" "fst y = e" using assms(1) by auto
    then have "\<exists>x\<in>set known_errors. case x of (known, _, _) \<Rightarrow> errors_Is e known"
      using known_errors_facts(2) [OF assms(1)] by (intro bexI [of _ y]) (cases y, simp_all)
    then have "find (\<lambda>(known, _, _). errors_Is e known) known_errors \<noteq> None" unfolding find_None_iff by blast
    then obtain x where "find (\<lambda>(known, _, _). errors_Is e known) known_errors = Some x" by blast
    moreover from find_SomeD [OF this] have "errors_Is e (fst x)" by (cases x) simp
    ultimately show thesis using that known_errors_facts(2) [OF assms(1)] by (cases x) auto
  qed
  moreover from this have "(e, code, confirmable) \<in> set known_errors" using find_SomeD by fastforce
  moreover from this have "\<not> confirmable" using known_errors_facts(1) assms(2) by auto
  ultimately show ?thesis by (force simp: DescribeDomainError_def reason_codes_def)
qed

text \<open>
  The buttons of a portal are shown exactly as the dry run of their commands decides:
  the view fails only where the availability check itself fails, an available action has no
  reason, and an unavailable one has the code of the error the command would give, never a
  request for confirmation.
\<close>

theorem quick_action_reasons:
  assumes "action \<in> {PortalActionStabilize, PortalActionClose, PortalActionSend, PortalActionRecall}"
  shows "map_result fst (quickAction state portal now cfg action) =
      map_result aa_Available (PortalActionAvailability state (p_ID portal) action now cfg) \<and>
    (case quickAction state portal now cfg action of
       Ok (True, reason) \<Rightarrow> reason = None
     | Ok (False, reason) \<Rightarrow>
         \<exists>e plane p. portal_by_id (s_Portals state) (p_ID portal) = Some p \<and> dryRun state p plane action now cfg = Fail e \<and>
           (\<exists>code\<in>set reason_codes. reason = Some code \<and>
              DescribeDomainError (Some e) = Some \<lparr>ed_Code = code, ed_Message = Error_text e, ed_Confirmable = False\<rparr>)
     | _ \<Rightarrow> True)"
proof (cases "PortalActionAvailability state (p_ID portal) action now cfg")
  case (Ok availability)
  show ?thesis
  proof (cases "aa_Available availability")
    case False
    obtain e where e: "aa_Cause availability = Some e" "e \<in> fst ` set known_errors" "e \<noteq> ErrConfirmationRequired"
      using availability_cause [OF Ok False assms] by blast
    obtain code where d: "code \<in> set reason_codes"
      "DescribeDomainError (Some e) = Some \<lparr>ed_Code = code, ed_Message = Error_text e, ed_Confirmable = False\<rparr>"
      using described [OF e(2,3)] by blast
    obtain plane p where "portal_by_id (s_Portals state) (p_ID portal) = Some p" "dryRun state p plane action now cfg = Fail e"
      using Ok False e(1) by (auto simp: PortalActionAvailability_def split: option.splits result.splits if_splits)
    moreover have "quickAction state portal now cfg action = Ok (False, Some code)"
      using Ok False e(1) d by (simp add: quickAction_def)
    ultimately show ?thesis using d Ok False by auto
  qed (simp add: quickAction_def Ok)
qed (simp_all add: quickAction_def)

section \<open>The whole state\<close>

lemma index_ID: "distinct (map pl_ID pls) \<Longrightarrow> indexByID pl_ID pls i = Some j \<Longrightarrow> pl_ID (pls ! j) = i"
  by (simp add: indexByID_Some)

text \<open>
  C15: a view of the state agrees with the simulation and with itself.  There is one slot per
  active portal allowed, numbered from one, and it shows the open portal with its index, if
  there is one; the counts of portals, observers and explored planes are those of the
  simulation; the number of observers in transit is the number of transits listed; and
  never more portals are shown active than the maximum.
\<close>

theorem state_view_consistent:
  assumes "BuildStateSnapshot snapshot instant cfg = Ok view" and "distinct (map pl_ID (s_Planes (sn_Simulation snapshot)))"
  shows "(let sim = sn_Simulation snapshot; portals = s_Portals sim; obs = s_Observers sim; counts = ss_Observers view in
    length (ss_Slots view) = nat (MaxActivePortals cfg) \<and>
    list_all (\<lambda>i. slot_view portals i (ss_Slots view ! i)) [0..<length (ss_Slots view)] \<and>
    pd_Active (ss_Portals view) = countOpenPortals portals \<and>
    occupied (ss_Slots view) = pd_Active (ss_Portals view) \<and>
    pd_Active (ss_Portals view) \<le> pd_Maximum (ss_Portals view) \<and>
    pd_Active (ss_Portals view) + pd_Closed (ss_Portals view) + pd_Collapsed (ss_Portals view) = int (length portals) \<and>
    ct_InTransit counts = int (length (ss_ObserverTransits view)) \<and>
    ct_InTransit counts = ct_Outbound counts + ct_Returning counts \<and>
    ct_InWorlds counts = ct_Exploring counts + ct_WaitingReturn counts \<and>
    ct_InLab counts = in_status [ObserverAvailable] obs \<and> ct_Lost counts = in_status [ObserverLost] obs \<and>
    length (ss_Planes view) = length (s_Planes sim) \<and>
    xd_Explored (ss_Exploration view) = int (length (filter pl_Explored (s_Planes sim))))"
proof -
  let ?sim = "sn_Simulation snapshot" and ?now = "UTC instant"
  let ?ix = "indexByID pl_ID (s_Planes ?sim)"
  from assms(1) obtain transits slots0 app exploration views0 counts views portals slots attention where
    t: "BuildObserverTransits ?sim ?now = Ok transits" and s0: "emptySlots (MaxActivePortals cfg) = Ok slots0"
    and pl: "planeViews (s_Planes ?sim) = Ok (exploration, views0)"
    and ob: "foldM (observerView ?ix) (noObservers, views0) (s_Observers ?sim) = Ok (counts, views)"
    and po: "foldM (portalView ?sim ?ix ?now cfg) (noPortals (MaxActivePortals cfg), slots0) (s_Portals ?sim) = Ok (portals, slots)"
    and v: "ss_ObserverTransits view = transits" "ss_Exploration view = exploration" "ss_Observers view = counts"
      "ss_Portals view = portals" "ss_Slots view = slots" "ss_Planes view = views"
    by (auto simp: BuildStateSnapshot_def Let_def)
  have n: "0 \<le> MaxActivePortals cfg" and slots0: "slots0 = map (\<lambda>i. \<lparr>sl_SlotIndex = int i + 1, sl_Portal = None\<rparr>) [0..<nat (MaxActivePortals cfg)]"
    using s0 by (auto simp: emptySlots_def split: if_splits)
  note p = portal_views [OF po slots0 index_ID [OF assms(2)]]
  note o' = observerView_Ok [OF ob] and e = planeViews_Ok [OF pl]
  have "occupied slots \<le> int (length slots)" by (simp add: occupied_def)
  then have active: "pd_Active portals \<le> pd_Maximum portals" using p n by simp
  have "in_status [ObserverOutbound, ObserverReturning] (s_Observers ?sim) = int (length transits)"
  proof -
    obtain m seen busy result where m: "transitPortals (s_Portals ?sim) = Ok m"
      and loop: "foldM (transitAt m ?now) ({}, {}, []) (s_Observers ?sim) = Ok (seen, busy, result)"
      and transits: "length transits = length result"
      using t by (auto simp: BuildObserverTransits_def)
    have "\<And>i p. m i = Some p \<Longrightarrow> p_ID p = i" using transitPortals_Some(1) [OF m] by blast
    from transit_loop [OF loop this] have "map td_ObserverID result = map o_ID (filter moving (s_Observers ?sim))" by blast
    then have "length result = length (filter moving (s_Observers ?sim))" by (metis length_map)
    then show ?thesis by (simp add: transits in_status_def moving_def [abs_def])
  qed
  moreover have "in_status [a, b] obs = in_status [a] obs + in_status [b] obs" if "a \<noteq> b" for a b obs
    using that by (induction obs) auto
  ultimately show ?thesis
    using p o' e active by (simp add: v Let_def list_all_iff)
qed

section \<open>One portal\<close>

definition event_key :: "EventDTO \<Rightarrow> int \<times> int" where
  "event_key e = (ns (ev_CreatedAt e), ev_ID e)"

lemma BuildEvents_sorted:
  shows "sorted (map event_key (BuildEvents events))" and "mset (BuildEvents events) = mset (map eventView events)"
proof -
  have "SliceStable eventBefore events = sort_key (\<lambda>e. (ns (e_CreatedAt e), e_ID e)) events"
    by (rule SliceStable_key) (auto simp: eventBefore_def less_prod_def less_eq_prod_def)
  then show "sorted (map event_key (BuildEvents events))" "mset (BuildEvents events) = mset (map eventView events)"
    by (simp_all add: BuildEvents_def event_key_def eventView_def comp_def)
qed

text \<open>
  The page of a portal shows the portal asked for; its history in the order of time and
  ID, with every event once; a transit exactly when an observer is under way through it; and
  a risk exactly while it has not ended.
\<close>

lemma portal_details_consistent:
  assumes "BuildPortalDetails snapshot portalID history instant cfg = Ok d"
  shows "(let sim = sn_Simulation snapshot; now = UTC instant in
    vw_ID (de_Portal d) = portalID \<and>
    sorted (map event_key (de_History d)) \<and> mset (de_History d) = mset (map eventView history) \<and>
    (case de_ObserverTransit d of
       Some t \<Rightarrow> td_PortalID t = portalID \<and> (\<exists>ob\<in>set (s_Observers sim). \<exists>p\<in>set (s_Portals sim). shows_transit now ob p t)
     | None \<Rightarrow> \<not> (\<exists>ob\<in>set (s_Observers sim). moving ob \<and> o_ActivePortalID ob = Some portalID)) \<and>
    (\<exists>p\<in>set (s_Portals sim). p_ID p = portalID \<and> (de_RiskLevel d = None \<longleftrightarrow> Portal_IsTerminal p)))"
proof -
  let ?sim = "sn_Simulation snapshot" and ?now = "UTC instant"
  from assms obtain transits where t: "BuildObserverTransits ?sim ?now = Ok transits"
    by (auto simp: BuildPortalDetails_def Let_def)
  obtain p where p: "find (\<lambda>p. p_ID p = portalID) (s_Portals ?sim) = Some p"
    using assms t by (cases "find (\<lambda>p. p_ID p = portalID) (s_Portals ?sim)") (simp_all add: BuildPortalDetails_def Let_def)
  obtain plane where plane: "find (\<lambda>pl. pl_ID pl = p_DestinationPlaneID p) (s_Planes ?sim) = Some plane"
    using assms t p by (cases "find (\<lambda>pl. pl_ID pl = p_DestinationPlaneID p) (s_Planes ?sim)")
      (simp_all add: BuildPortalDetails_def Let_def)
  have d: "vw_ID (de_Portal d) = p_ID p" "de_History d = BuildEvents history"
      "de_ObserverTransit d = find (\<lambda>t. td_PortalID t = portalID) transits" "de_RiskLevel d = Portal_RiskLevel p ?now cfg"
    using assms by (auto simp: BuildPortalDetails_def Let_def t p plane)
  note pf = find_SomeD [OF p] and shown = transits_of [OF t]
  have carried: "\<exists>t\<in>set transits. td_PortalID t = portalID"
    if ob: "ob \<in> set (s_Observers ?sim)" "moving ob" "o_ActivePortalID ob = Some portalID" for ob
  proof -
    have "o_ID ob \<in> set (map td_ObserverID transits)" using shown(2) ob by auto
    then obtain t where t: "t \<in> set transits" "td_ObserverID t = o_ID ob" by auto
    then obtain ob' q where q: "ob' \<in> set (s_Observers ?sim)" "shows_transit ?now ob' q t" using shown(4) by blast
    then have *: "o_ID ob' = o_ID ob" "o_ActivePortalID ob' = Some (td_PortalID t)" using t(2) by (auto simp: shows_transit_def)
    have "ob' = ob" using shown(5) q(1) ob(1) *(1) by (auto simp: distinct_map inj_on_def)
    then show ?thesis using * ob(3) t(1) by auto
  qed
  have transit: "case de_ObserverTransit d of
       Some t \<Rightarrow> td_PortalID t = portalID \<and> (\<exists>ob\<in>set (s_Observers ?sim). \<exists>p\<in>set (s_Portals ?sim). shows_transit ?now ob p t)
     | None \<Rightarrow> \<not> (\<exists>ob\<in>set (s_Observers ?sim). moving ob \<and> o_ActivePortalID ob = Some portalID)"
  proof (cases "find (\<lambda>t. td_PortalID t = portalID) transits")
    case None
    then have "\<not> (\<exists>ob\<in>set (s_Observers ?sim). moving ob \<and> o_ActivePortalID ob = Some portalID)"
      using carried by (auto simp: find_None_iff)
    then show ?thesis by (simp add: d None)
  next
    case (Some t)
    then show ?thesis using find_SomeD [OF Some] shown(4) by (simp add: d)
  qed
  have risk: "de_RiskLevel d = None \<longleftrightarrow> Portal_IsTerminal p"
    by (simp add: d Portal_RiskLevel_def)
  show ?thesis
    unfolding Let_def
  proof (intro conjI)
    show "vw_ID (de_Portal d) = portalID" using d(1) pf by simp
    show "sorted (map event_key (de_History d))" "mset (de_History d) = mset (map eventView history)"
      by (simp_all only: d(2) BuildEvents_sorted)
    show "\<exists>p\<in>set (s_Portals ?sim). p_ID p = portalID \<and> (de_RiskLevel d = None \<longleftrightarrow> Portal_IsTerminal p)"
      using pf [THEN conjunct1] pf [THEN conjunct2] risk by (intro bexI [of _ p] conjI)
    show "case de_ObserverTransit d of
         Some t \<Rightarrow> td_PortalID t = portalID \<and> (\<exists>ob\<in>set (s_Observers ?sim). \<exists>p\<in>set (s_Portals ?sim). shows_transit ?now ob p t)
       | None \<Rightarrow> \<not> (\<exists>ob\<in>set (s_Observers ?sim). moving ob \<and> o_ActivePortalID ob = Some portalID)"
      by (fact transit)
  qed
qed

section \<open>Witnesses\<close>

definition busy_portal :: Portal where
  "busy_portal = sample_portal\<lparr>p_ObserverFlow := PortalFlowOutbound\<rparr>"

definition busy_state :: SimulationState where
  "busy_state = sample_state\<lparr>s_Portals := [busy_portal], s_Observers := [demo_outbound, NewObserver 2 sample_start]\<rparr>"

theorem transits_shown_witness:
  "\<exists>transits. BuildObserverTransits busy_state (Time (4 * Second) True) = Ok transits \<and> set (map td_ObserverID transits) = {1}"
proof -
  obtain transits where t: "BuildObserverTransits busy_state (Time (4 * Second) True) = Ok transits"
    by (simp add: BuildObserverTransits_def busy_state_def busy_portal_def sample_portal_def transitPortals_def transitAt_def
      demo_outbound_def NewObserver_def Let_def)
  have "{ob \<in> set (s_Observers busy_state). moving ob} = {demo_outbound}" "o_ID demo_outbound = 1"
    by (auto simp: busy_state_def moving_def demo_outbound_def NewObserver_def)
  with transits_shown [OF t] t show ?thesis by simp
qed

lemma stable_already: "dryRun sample_state sample_portal plane PortalActionStabilize sample_now Default = Fail ErrPortalAlreadyStable"
proof -
  have "Portal_Stabilize sample_portal sample_now Default = Fail ErrPortalAlreadyStable"
    by (simp add: Portal_Stabilize_def Portal_IsTerminal_def) (simp add: sample_portal_def)
  moreover have "is_Ok (prepareLabEnergySpend (s_Lab sample_state) sample_now 20 Default)"
    by (simp add: prepareLabEnergySpend_def LabState_CurrentEnergy_def sample_state_def Default_def Sub_def clamp64_def Let_def wrap64_def sdiv_nonneg)
  moreover have "effectiveStabilizeCost (s_Lab sample_state) sample_now Default = 20"
    by (simp add: effectiveStabilizeCost_def LeylineOverrideActive_def sample_state_def Default_def)
  ultimately show ?thesis
    by (auto simp: dryRun_def StabilizePortalWithLabEnergy_def Let_def is_Ok_iff)
qed

theorem quick_action_reasons_witness:
  "quickAction sample_state sample_portal sample_now Default PortalActionStabilize = Ok (False, Some ''PORTAL_ALREADY_STABLE'')"
proof -
  have f: "s_Portals sample_state = [sample_portal]" "s_Planes sample_state = sample_planes" "p_ID sample_portal = 1"
    "p_DestinationPlaneID sample_portal = 1" by (simp_all add: sample_state_def sample_portal_def)
  have "PortalActionAvailability sample_state (p_ID sample_portal) PortalActionStabilize sample_now Default =
      Ok \<lparr>aa_Available = False, aa_Cause = Some ErrPortalAlreadyStable\<rparr>"
    using sample_structure [of sample_now] sample_first_plane stable_already
    by (simp add: PortalActionAvailability_def f portal_by_id_def isAvailabilityInvariant_def)
  then show ?thesis
    using quick_action_reasons [of PortalActionStabilize sample_state sample_portal sample_now Default] stable_already
    by (auto simp: f portal_by_id_def DescribeDomainError_def known_errors_def split: result.splits prod.splits bool.splits)
qed

definition ended_snapshot :: Snapshot where
  "ended_snapshot = \<lparr>sn_Simulation = busy_state\<lparr>s_Planes := [sample_plane 1],
       s_Portals := [busy_portal\<lparr>p_Status := PortalStatusClosed\<rparr>], s_Observers := [NewObserver 2 sample_start]\<rparr>,
     sn_App = \<lparr>a_Mode = ModeLive, a_TutorialStep = 9, a_TutorialPhase = TutorialPhaseNone, a_TutorialPortalID = None,
       a_TutorialPlaneID = None, a_TutorialObserverID = None\<rparr>\<rparr>"

theorem state_view_consistent_witness:
  "\<exists>view. BuildStateSnapshot ended_snapshot (Time (4 * Second) True) Default = Ok view \<and>
     length (ss_Slots view) = 7 \<and> pd_Active (ss_Portals view) = 0 \<and> ct_InLab (ss_Observers view) = 1"
proof -
  have "MaxActivePortals Default = 7" by (simp add: Default_def)
  then obtain view where v: "BuildStateSnapshot ended_snapshot (Time (4 * Second) True) Default = Ok view"
    by (simp add: BuildStateSnapshot_def ended_snapshot_def busy_state_def busy_portal_def sample_portal_def
      BuildObserverTransits_def transitPortals_def transitAt_def NewObserver_def Let_def emptySlots_def appView_def planeViews_def
      sample_plane_def observerView_def portalView_def) (simp add: NeedsAttentionPortalIndex_def Default_def)
  have "distinct (map pl_ID (s_Planes (sn_Simulation ended_snapshot)))" by (simp add: ended_snapshot_def)
  from state_view_consistent [OF v this] v show ?thesis
    by (auto simp: Let_def ended_snapshot_def countOpenPortals_def Default_def busy_state_def NewObserver_def)
qed

end
