(* ===== verification/HubProperties.thy ===== *)
theory HubProperties
  imports Hub TransportProperties
begin

text \<open>
  What the hub promises to a connection: snapshots in the order of the states they show, the
  newest one once the updates have been dealt with, and an end to everything on shutdown.
\<close>

section \<open>The queue of a client\<close>

lemma offerLocked_eq:
  "length (cl_queue c) \<le> 1 \<Longrightarrow> offerLocked q c =
    (if qs_sequence q \<le> cl_lastSequence c then c else c\<lparr>cl_lastSequence := qs_sequence q, cl_queue := [q]\<rparr>)"
  by (cases "cl_queue c") (auto simp: offerLocked_def trySend_def tryReceive_def Let_def)

text \<open>
  The writer of the connection may take the pending snapshot between the selects of an offer.
  Whenever it does, the offer leaves the new snapshot, and the writer has got the old one: the
  outcome is that of the writer before the offer, or of the offer alone.
\<close>

definition offerInterleaved :: "bool \<Rightarrow> bool \<Rightarrow> 'a \<Rightarrow> 'a list \<Rightarrow> 'a list \<times> 'a list" where
  "offerInterleaved early late x queue =
     (if length queue < 1 then (queue @ [x], [])
      else let (queue, got) = (if early then (tl queue, [hd queue]) else (queue, []));
               queue = tryReceive queue
           in (trySend x queue, got))"

lemma offer_interleaved:
  assumes "length queue \<le> 1"
  shows "offerInterleaved early late x queue = ([x], if early then queue else []) \<or> offerInterleaved early late x queue = ([x], [])"
  using assms by (cases queue) (auto simp: offerInterleaved_def trySend_def tryReceive_def)

definition client_ok :: "nat \<Rightarrow> bool \<Rightarrow> queuedSnapshot list \<Rightarrow> client \<Rightarrow> bool" where
  "client_ok n live ws c \<longleftrightarrow> length (cl_queue c) \<le> 1 \<and> unat (cl_lastSequence c) \<le> n \<and>
     sorted_wrt (<) (map qs_sequence (ws @ cl_queue c)) \<and>
     (\<forall>q\<in>set (ws @ cl_queue c). 0 < qs_sequence q \<and> qs_sequence q \<le> cl_lastSequence c) \<and>
     (live \<and> 0 < cl_lastSequence c \<longrightarrow> ws @ cl_queue c \<noteq> [] \<and> qs_sequence (last (ws @ cl_queue c)) = cl_lastSequence c)"

lemma client_ok_new: "client_ok n live [] newClient"
  by (simp add: client_ok_def newClient_def)

lemma client_ok_mono: "client_ok n live ws c \<Longrightarrow> n \<le> m \<Longrightarrow> (live' \<Longrightarrow> live) \<Longrightarrow> client_ok m live' ws c"
  by (auto simp: client_ok_def)

lemma client_ok_cancel [simp]: "client_ok n live ws (c\<lparr>cl_canceled := b\<rparr>) = client_ok n live ws c"
  by (simp add: client_ok_def)

lemma client_ok_offer:
  assumes "client_ok n live ws c" and "0 < qs_sequence q" and "unat (qs_sequence q) \<le> n"
  shows "client_ok n live ws (offerLocked q c)"
proof -
  have le: "length (cl_queue c) \<le> 1" using assms(1) by (simp add: client_ok_def)
  show ?thesis
    using assms unfolding offerLocked_eq [OF le]
    by (auto simp: client_ok_def sorted_wrt_append not_le intro: le_less_trans) (meson UnI1 le_less_trans less_imp_le)+
qed

lemma client_ok_write:
  "client_ok n live ws c \<Longrightarrow> cl_queue c = q # rest \<Longrightarrow> client_ok n live (ws @ [q]) (c\<lparr>cl_queue := rest\<rparr>)"
  by (auto simp: client_ok_def)

lemma client_ok_drop:
  "client_ok n live ws c \<Longrightarrow> cl_queue c = q # rest \<Longrightarrow> client_ok n False ws (c\<lparr>cl_queue := rest\<rparr>)"
  by (auto simp: client_ok_def sorted_wrt_append)

lemma client_ok_bounded:
  assumes "client_ok n live ws c" and "q \<in> set (ws @ cl_queue c)"
  shows "0 < qs_sequence q \<and> unat (qs_sequence q) \<le> n"
proof -
  have "0 < qs_sequence q" "qs_sequence q \<le> cl_lastSequence c" "unat (cl_lastSequence c) \<le> n" using assms by (auto simp: client_ok_def)
  then show ?thesis unfolding word_le_nat_alt by linarith
qed

section \<open>The operations\<close>

lemma update_client_simps [simp]:
  "hb_heap (update_client a f h) b = (if b = a then f (hb_heap h a) else hb_heap h b)"
  "hb_clients (update_client a f h) = hb_clients h" "hb_bridge (update_client a f h) = hb_bridge h"
  "hb_closed (update_client a f h) = hb_closed h" "hb_handlers (update_client a f h) = hb_handlers h"
  "hb_sequence (update_client a f h) = hb_sequence h"
  by (simp_all add: update_client_def)

lemma fold_update_client:
  assumes "distinct order"
  shows "hb_heap (fold (\<lambda>c. update_client c f) order h) b = (if b \<in> set order then f (hb_heap h b) else hb_heap h b)"
    and "hb_clients (fold (\<lambda>c. update_client c f) order h) = hb_clients h"
    and "hb_bridge (fold (\<lambda>c. update_client c f) order h) = hb_bridge h"
    and "hb_closed (fold (\<lambda>c. update_client c f) order h) = hb_closed h"
    and "hb_handlers (fold (\<lambda>c. update_client c f) order h) = hb_handlers h"
    and "hb_sequence (fold (\<lambda>c. update_client c f) order h) = hb_sequence h"
  using assms by (induction order arbitrary: h) auto

lemma publish_simps [simp]:
  assumes "distinct order"
  shows "hb_heap (publish order q h) b = (if b \<in> set order then offerLocked q (hb_heap h b) else hb_heap h b)"
    and "hb_clients (publish order q h) = hb_clients h" and "hb_bridge (publish order q h) = hb_bridge h"
    and "hb_closed (publish order q h) = hb_closed h" and "hb_handlers (publish order q h) = hb_handlers h"
    and "hb_sequence (publish order q h) = hb_sequence h"
  using fold_update_client [OF assms, of "offerLocked q" h] by (simp_all add: publish_def)

lemma disconnect_simps [simp]:
  assumes "distinct order"
  shows "hb_heap (disconnect order h) b = (if b \<in> set order then (hb_heap h b)\<lparr>cl_canceled := True\<rparr> else hb_heap h b)"
    and "hb_clients (disconnect order h) = hb_clients h" and "hb_bridge (disconnect order h) = hb_bridge h"
    and "hb_closed (disconnect order h) = hb_closed h" and "hb_handlers (disconnect order h) = hb_handlers h"
    and "hb_sequence (disconnect order h) = hb_sequence h"
  using fold_update_client [OF assms, of "\<lambda>c. c\<lparr>cl_canceled := True\<rparr>" h] by (simp_all add: disconnect_def)

lemma capture_Ok:
  assumes "capture cfg state h = (h', Ok q)"
  shows "h' = h\<lparr>hb_sequence := hb_sequence h + 1\<rparr>" and "qs_sequence q = hb_sequence h + 1"
  using assms by (auto simp: capture_def Let_def split: result.splits option.splits if_splits)

lemma capture_Fail: "capture cfg state h = (h', Fail e) \<Longrightarrow> h' = h"
  by (auto simp: capture_def Let_def split: result.splits option.splits if_splits)

lemma registerEnter_Ok: "registerEnter a h = (h', Ok u) \<longleftrightarrow> \<not> hb_closed h \<and> h' = h\<lparr>hb_clients := insert a (hb_clients h), hb_bridge := True\<rparr>"
  by (auto simp: registerEnter_def)

lemma registerEnter_Fail: "registerEnter a h = (h', Fail e) \<Longrightarrow> hb_closed h \<and> h' = h"
  by (auto simp: registerEnter_def split: if_splits)

lemma unregister_simps [simp]:
  "hb_clients (unregister a h) = hb_clients h - {a}" "hb_bridge (unregister a h) = hb_bridge h"
  "hb_closed (unregister a h) = hb_closed h" "hb_handlers (unregister a h) = hb_handlers h"
  "hb_sequence (unregister a h) = hb_sequence h"
  "hb_heap (unregister a h) b = (if b = a \<and> a \<in> hb_clients h then (hb_heap h b)\<lparr>cl_canceled := True\<rparr> else hb_heap h b)"
  by (auto simp: unregister_def)

lemma endHandler_simps [simp]:
  "hb_clients (endHandler h) = hb_clients h" "hb_bridge (endHandler h) = hb_bridge h" "hb_closed (endHandler h) = hb_closed h"
  "hb_handlers (endHandler h) = hb_handlers h - 1" "hb_sequence (endHandler h) = hb_sequence h" "hb_heap (endHandler h) = hb_heap h"
  by (simp_all add: endHandler_def)

lemma publishTo_simps [simp]:
  "hb_clients (publishTo a q h) = hb_clients h" "hb_bridge (publishTo a q h) = hb_bridge h"
  "hb_closed (publishTo a q h) = hb_closed h" "hb_handlers (publishTo a q h) = hb_handlers h"
  "hb_sequence (publishTo a q h) = hb_sequence h"
  "hb_heap (publishTo a q h) b = (if b = a \<and> a \<in> hb_clients h then offerLocked q (hb_heap h b) else hb_heap h b)"
  by (auto simp: publishTo_def)

section \<open>Order\<close>

text \<open>
  The numbers of the snapshots count the captures, as long as \<open>uint64\<close> lasts; what a client
  was offered and has been written is in that order, and ends with the last one offered.
\<close>

definition numbered :: "nat \<Rightarrow> queuedSnapshot \<Rightarrow> bool" where
  "numbered n q \<longleftrightarrow> 0 < qs_sequence q \<and> unat (qs_sequence q) \<le> n"

definition in_loop :: "handler \<Rightarrow> bool" where
  "in_loop phase \<longleftrightarrow> phase \<noteq> Leaving \<and> phase \<noteq> Returned"

fun phase_ok :: "nat \<Rightarrow> queuedSnapshot list \<Rightarrow> bool \<Rightarrow> handler \<Rightarrow> bool" where
  "phase_ok n ws listed Absent \<longleftrightarrow> ws = [] \<and> \<not> listed"
| "phase_ok n ws listed Accepting \<longleftrightarrow> ws = [] \<and> \<not> listed"
| "phase_ok n ws listed (Captured q) \<longleftrightarrow> numbered n q"
| "phase_ok n ws listed Returned \<longleftrightarrow> \<not> listed"
| "phase_ok n ws listed _ \<longleftrightarrow> True"

fun bridge_ok :: "nat \<Rightarrow> bridge \<Rightarrow> bool" where
  "bridge_ok n (BridgeHolding q) \<longleftrightarrow> numbered n q"
| "bridge_ok n _ \<longleftrightarrow> True"

definition ordered :: "HubWorld \<Rightarrow> bool" where
  "ordered w \<longleftrightarrow> unat (hb_sequence (hw_hub w)) = length (hw_captures w) \<and>
     sorted (hw_captures w) \<and> (\<forall>v\<in>set (hw_captures w). v \<le> hw_updates w) \<and>
     (\<forall>a. client_ok (length (hw_captures w)) (in_loop (hw_handlers w a)) (hw_written w a) (hb_heap (hw_hub w) a) \<and>
       phase_ok (length (hw_captures w)) (hw_written w a) (a \<in> hb_clients (hw_hub w)) (hw_handlers w a)) \<and>
     bridge_ok (length (hw_captures w)) (hw_bridge w) \<and>
     (hw_canceled w \<longrightarrow> hb_closed (hw_hub w)) \<and> (hb_closed (hw_hub w) \<longrightarrow> hb_clients (hw_hub w) = {})"

lemmas world_defs = at_handler_def with_hub_def captured_def

lemma phase_ok_mono: "phase_ok n ws listed phase \<Longrightarrow> n \<le> m \<Longrightarrow> phase_ok m ws listed phase"
  by (cases phase) (auto simp: numbered_def)

lemma bridge_ok_mono: "bridge_ok n b \<Longrightarrow> n \<le> m \<Longrightarrow> bridge_ok m b"
  by (cases b) (auto simp: numbered_def)

lemma ordered_client: "ordered w \<Longrightarrow>
    client_ok (length (hw_captures w)) (in_loop (hw_handlers w a)) (hw_written w a) (hb_heap (hw_hub w) a)"
  and ordered_phase: "ordered w \<Longrightarrow>
    phase_ok (length (hw_captures w)) (hw_written w a) (a \<in> hb_clients (hw_hub w)) (hw_handlers w a)"
  by (simp_all add: ordered_def)

lemma next_sequence:
  assumes "ordered w" and "length (hw_captures w) < 2 ^ 64 - 1"
  shows "unat (hb_sequence (hw_hub w) + 1) = length (hw_captures w) + 1"
proof -
  have s: "unat (hb_sequence (hw_hub w)) = length (hw_captures w)" using assms(1) by (simp add: ordered_def)
  have "unat (hb_sequence (hw_hub w) + 1) = (unat (hb_sequence (hw_hub w)) + 1) mod 2 ^ 64"
    by (simp add: unat_word_ariths)
  also have "\<dots> = length (hw_captures w) + 1" using s assms(2) by (subst mod_less) simp_all
  finally show ?thesis .
qed

text \<open>A capture only adds a number.\<close>

lemma ordered_capture:
  assumes w: "ordered w" and c: "capture cfg state (hw_hub w) = (h, Ok q)" and bound: "length (hw_captures w) < 2 ^ 64 - 1"
  shows "ordered (captured h w)" and "numbered (length (hw_captures w) + 1) q" and "unat (qs_sequence q) = length (hw_captures w) + 1"
proof -
  note n = next_sequence [OF w bound]
  note h = capture_Ok [OF c]
  show q: "unat (qs_sequence q) = length (hw_captures w) + 1" using n h by simp
  then show "numbered (length (hw_captures w) + 1) q" by (auto simp: numbered_def word_gt_0)
  have "client_ok (length (hw_captures w) + 1) live ws c" if "client_ok (length (hw_captures w)) live ws c" for live ws c
    by (rule client_ok_mono [OF that]) simp_all
  then show "ordered (captured h w)"
    using w n phase_ok_mono [of "length (hw_captures w)" _ _ _ "length (hw_captures w) + 1"]
      bridge_ok_mono [of "length (hw_captures w)" _ "length (hw_captures w) + 1"]
    unfolding ordered_def h(1) by (simp add: captured_def sorted_append)
qed

text \<open>A step of the handler of \<open>a\<close> that captures nothing touches only what belongs to \<open>a\<close>.\<close>

lemma ordered_at:
  assumes w: "ordered w"
    and same: "hw_captures w' = hw_captures w" "hw_updates w' = hw_updates w" "hw_canceled w' = hw_canceled w"
      "hb_sequence (hw_hub w') = hb_sequence (hw_hub w)" "hb_closed (hw_hub w') = hb_closed (hw_hub w)"
    and other: "\<And>b. b \<noteq> a \<Longrightarrow> hw_handlers w' b = hw_handlers w b" "\<And>b. b \<noteq> a \<Longrightarrow> hw_written w' b = hw_written w b"
      "\<And>b. b \<noteq> a \<Longrightarrow> hb_heap (hw_hub w') b = hb_heap (hw_hub w) b"
      "\<And>b. b \<noteq> a \<Longrightarrow> b \<in> hb_clients (hw_hub w') \<longleftrightarrow> b \<in> hb_clients (hw_hub w)"
    and client: "client_ok (length (hw_captures w)) (in_loop (hw_handlers w' a)) (hw_written w' a) (hb_heap (hw_hub w') a)"
    and phase: "phase_ok (length (hw_captures w)) (hw_written w' a) (a \<in> hb_clients (hw_hub w')) (hw_handlers w' a)"
    and bridge: "bridge_ok (length (hw_captures w)) (hw_bridge w')"
    and listed: "hb_closed (hw_hub w) \<Longrightarrow> a \<notin> hb_clients (hw_hub w')"
  shows "ordered w'"
proof -
  have "client_ok (length (hw_captures w)) (in_loop (hw_handlers w' b)) (hw_written w' b) (hb_heap (hw_hub w') b) \<and>
      phase_ok (length (hw_captures w)) (hw_written w' b) (b \<in> hb_clients (hw_hub w')) (hw_handlers w' b)" for b
    using ordered_client [OF w, of b] ordered_phase [OF w, of b] other [of b] client phase by (cases "b = a") simp_all
  moreover have "hb_clients (hw_hub w') = {}" if "hb_closed (hw_hub w)"
  proof -
    have "b \<notin> hb_clients (hw_hub w')" for b
      using that w other(4) [of b] listed by (cases "b = a") (simp_all add: ordered_def)
    then show ?thesis by blast
  qed
  ultimately show ?thesis using w bridge unfolding ordered_def same by simp
qed

lemma ordered_bridge: "ordered w \<Longrightarrow> bridge_ok (length (hw_captures w)) (hw_bridge w)"
  by (simp add: ordered_def)

lemma ordered_closed: "ordered w \<Longrightarrow> hb_closed (hw_hub w) \<Longrightarrow> a \<notin> hb_clients (hw_hub w)"
  by (simp add: ordered_def)

lemma ordered_handler_step:
  assumes "handler_step cfg a w w'" and w: "ordered w" and bound: "length (hw_captures w') < 2 ^ 64"
  shows "ordered w'"
  using assms(1)
proof cases
  case (enter h)
  then show ?thesis
    using ordered_client [OF w, of a] ordered_phase [OF w, of a] ordered_bridge [OF w] ordered_closed [OF w, of a]
    by (intro ordered_at [OF w, of _ a]) (auto simp: world_defs beginHandler_def in_loop_def split: if_splits)
next
  case accept_fails
  then show ?thesis
    using client_ok_mono [OF ordered_client [OF w, of a]] ordered_phase [OF w, of a] ordered_bridge [OF w] ordered_closed [OF w, of a]
    by (intro ordered_at [OF w, of _ a]) (auto simp: world_defs in_loop_def)
next
  case (register h)
  then show ?thesis
    using ordered_phase [OF w, of a] ordered_bridge [OF w] client_ok_new
    by (intro ordered_at [OF w, of _ a]) (auto simp: world_defs registerEnter_Ok)
next
  case (register_refused h e)
  note h = registerEnter_Fail [OF register_refused(3)]
  show ?thesis
    using register_refused(1,2) h ordered_phase [OF w, of a] ordered_bridge [OF w] ordered_closed [OF w, of a] client_ok_new
    by (intro ordered_at [OF w, of _ a]) (auto simp: world_defs)
next
  case (register_capture state h snapshot)
  then have "length (hw_captures w) < 2 ^ 64 - 1" using bound by (simp add: world_defs)
  note c = ordered_capture [OF w register_capture(3) this]
  show ?thesis
    using register_capture(1,2) c(2) ordered_client [OF c(1), of a] ordered_bridge [OF c(1)] ordered_closed [OF c(1), of a]
    by (intro ordered_at [OF c(1), of _ a]) (auto simp: world_defs in_loop_def)
next
  case (register_capture_fails state h e)
  then show ?thesis
    using client_ok_mono [OF ordered_client [OF w, of a]] ordered_bridge [OF w] ordered_closed [OF w, of a]
    by (intro ordered_at [OF w, of _ a]) (auto simp: world_defs in_loop_def)
next
  case (register_publish snapshot)
  then show ?thesis
    using ordered_client [OF w, of a] ordered_phase [OF w, of a] ordered_bridge [OF w] ordered_closed [OF w, of a]
      client_ok_offer [of "length (hw_captures w)" True "hw_written w a" "hb_heap (hw_hub w) a" snapshot]
    by (intro ordered_at [OF w, of _ a]) (auto simp: world_defs in_loop_def numbered_def)
next
  case (written snapshot rest)
  then show ?thesis
    using client_ok_write [OF ordered_client [OF w, of a] written(3)] ordered_bridge [OF w] ordered_closed [OF w, of a]
    by (intro ordered_at [OF w, of _ a]) (auto simp: world_defs)
next
  case (writing_fails snapshot rest)
  then show ?thesis
    using client_ok_drop [OF ordered_client [OF w, of a] writing_fails(3)] ordered_bridge [OF w] ordered_closed [OF w, of a]
    by (intro ordered_at [OF w, of _ a]) (auto simp: world_defs in_loop_def)
next
  case disconnected
  then show ?thesis
    using client_ok_mono [OF ordered_client [OF w, of a]] ordered_bridge [OF w] ordered_closed [OF w, of a]
    by (intro ordered_at [OF w, of _ a]) (auto simp: world_defs in_loop_def)
next
  case leave
  then show ?thesis
    using client_ok_mono [OF ordered_client [OF w, of a]] ordered_bridge [OF w] ordered_closed [OF w, of a]
    by (intro ordered_at [OF w, of _ a]) (auto simp: world_defs in_loop_def)
qed

lemma ordered_offers:
  assumes w: "ordered w" and h: "numbered (length (hw_captures w)) q" "distinct order" "set order = hb_clients (hw_hub w)"
  shows "ordered ((with_hub (publish order q) w)\<lparr>hw_bridge := BridgeIdle\<rparr>)"
proof -
  have "client_ok (length (hw_captures w)) (in_loop (hw_handlers w a)) (hw_written w a) (offerLocked q (hb_heap (hw_hub w) a))" for a
    using client_ok_offer [OF ordered_client [OF w, of a]] h(1) by (simp add: numbered_def)
  then show ?thesis using w h(2,3) by (simp add: ordered_def with_hub_def)
qed

lemma ordered_bridge_step:
  assumes "bridge_step cfg w w'" and w: "ordered w" and bound: "length (hw_captures w') < 2 ^ 64"
  shows "ordered w'"
  using assms(1)
proof cases
  case (bridge_capture state h snapshot)
  then have "length (hw_captures w) < 2 ^ 64 - 1" using bound by (simp add: world_defs)
  from ordered_capture [OF w bridge_capture(3) this] show ?thesis
    unfolding bridge_capture(1) by (simp add: ordered_def world_defs)
next
  case (bridge_publish snapshot order)
  then show ?thesis using ordered_offers [OF w _ bridge_publish(3,4), of snapshot] ordered_bridge [OF w] by simp
qed (use w in \<open>auto simp: ordered_def\<close>)

lemma ordered_step:
  assumes "hub_step cfg w w'" and w: "ordered w" and bound: "length (hw_captures w') < 2 ^ 64"
  shows "ordered w'"
  using assms(1)
proof cases
  case (handler a)
  then show ?thesis using ordered_handler_step w bound by blast
next
  case bridge
  then show ?thesis using ordered_bridge_step w bound by blast
next
  case update
  then show ?thesis using w by (auto simp: ordered_def)
next
  case (close_begin order h candidates)
  then have h: "hb_sequence h = hb_sequence (hw_hub w)" "hb_closed h" "hb_clients h = {}" "distinct candidates"
      "hb_heap h = hb_heap (hw_hub w)"
    using w by (auto simp: closeHub_def ordered_def split: if_splits)
  have "phase_ok n ws False phase" if "phase_ok n ws b phase" for n ws b phase using that by (cases phase) auto
  then show ?thesis using w h unfolding close_begin(1) by (auto simp: ordered_def) blast
next
  case close_end
  then show ?thesis using w by (auto simp: ordered_def)
qed

lemma captures_grow: "hub_step cfg w w' \<Longrightarrow> \<exists>vs. hw_captures w' = hw_captures w @ vs"
  by (auto elim!: hub_step.cases handler_step.cases bridge_step.cases simp: world_defs)

lemma ordered_begin: "NewHub cfg = Ok h \<Longrightarrow> ordered (begin_hub h)"
  by (auto simp: NewHub_def begin_hub_def ordered_def client_ok_new split: if_splits)

lemma ordered_run:
  "hub_run cfg w w' \<Longrightarrow> ordered w \<Longrightarrow> length (hw_captures w') < 2 ^ 64 \<Longrightarrow> ordered w'"
proof (induction rule: hub_run.induct)
  case (more w w' w'')
  obtain vs where "hw_captures w'' = hw_captures w' @ vs" using captures_grow [OF more.hyps(2)] by blast
  then show ?case using more ordered_step [OF more.hyps(2)] by simp
qed simp

text \<open>The number of updates the manager had announced when a snapshot was captured.\<close>

definition version :: "HubWorld \<Rightarrow> queuedSnapshot \<Rightarrow> nat" where
  "version w q = hw_captures w ! (unat (qs_sequence q) - 1)"

text \<open>
  C26: a connection never goes back in time.  Whatever clients come and go, whatever captures
  and writes fail, and in whatever order the handlers and the bridge publish what they have
  captured, the snapshots written to a connection, followed by the one that waits for it, come
  in the order of their captures, none twice, so each shows a state at least as new as the one
  before; and at most one waits.
\<close>

theorem snapshots_in_order:
  assumes "NewHub cfg = Ok h" and "hub_run cfg (begin_hub h) w" and "length (hw_captures w) < 2 ^ 64"
  shows "let shown = hw_written w a @ cl_queue (hb_heap (hw_hub w) a) in
    sorted_wrt (<) (map qs_sequence shown) \<and> sorted (map (version w) shown) \<and> length (cl_queue (hb_heap (hw_hub w) a)) \<le> 1"
proof -
  have w: "ordered w" by (rule ordered_run [OF assms(2) ordered_begin [OF assms(1)] assms(3)])
  let ?shown = "hw_written w a @ cl_queue (hb_heap (hw_hub w) a)"
  have c: "sorted_wrt (<) (map qs_sequence ?shown)" "length (cl_queue (hb_heap (hw_hub w) a)) \<le> 1"
    using ordered_client [OF w, of a] by (auto simp: client_ok_def)
  note bounded = client_ok_bounded [OF ordered_client [OF w, of a]]
  have "version w q \<le> version w q'" if "q \<in> set ?shown" "q' \<in> set ?shown" "qs_sequence q < qs_sequence q'" for q q'
  proof -
    have "0 < unat (qs_sequence q)" "unat (qs_sequence q) \<le> length (hw_captures w)" "unat (qs_sequence q') \<le> length (hw_captures w)"
      "unat (qs_sequence q) < unat (qs_sequence q')"
      using bounded [OF that(1)] bounded [OF that(2)] that(3) by (auto simp: word_less_nat_alt)
    then have "unat (qs_sequence q) - 1 \<le> unat (qs_sequence q') - 1" "unat (qs_sequence q') - 1 < length (hw_captures w)" by linarith+
    moreover have "sorted (hw_captures w)" using w by (simp add: ordered_def)
    ultimately show ?thesis unfolding version_def by (rule sorted_nth_mono [rotated])
  qed
  moreover have "sorted_wrt (\<lambda>q q'. qs_sequence q < qs_sequence q') ?shown" using c(1) by (simp only: sorted_wrt_map)
  ultimately have "sorted_wrt (\<lambda>q q'. version w q \<le> version w q') ?shown" by (rule sorted_wrt_mono_rel)
  then show ?thesis using c unfolding Let_def sorted_map by blast
qed

section \<open>Catching up\<close>

definition newest :: "HubWorld \<Rightarrow> nat \<Rightarrow> nat" where
  "newest w a = max (unat (cl_lastSequence (hb_heap (hw_hub w) a)))
     (case hw_handlers w a of Captured q \<Rightarrow> unat (qs_sequence q) | _ \<Rightarrow> 0)"

definition current :: "HubWorld \<Rightarrow> nat \<Rightarrow> bool" where
  "current w n \<longleftrightarrow> 0 < n \<and> n \<le> length (hw_captures w) \<and> hw_captures w ! (n - 1) = hw_updates w"

text \<open>Whoever is registered has, or has coming, a snapshot of the last update; unless one was missed.\<close>

definition caught_up :: "HubWorld \<Rightarrow> bool" where
  "caught_up w \<longleftrightarrow> hw_missed w \<or> hw_signal w \<or> hw_bridge w = BridgeWoken \<or>
     (\<exists>q. hw_bridge w = BridgeHolding q \<and> current w (unat (qs_sequence q))) \<or>
     (\<forall>a\<in>hb_clients (hw_hub w). hw_handlers w a = Registered \<or> current w (newest w a))"

definition bridged :: "HubWorld \<Rightarrow> bool" where
  "bridged w \<longleftrightarrow> (hb_bridge (hw_hub w) \<longleftrightarrow> hw_bridge w \<noteq> BridgeOff) \<and> (hw_bridge w = BridgeDone \<longrightarrow> hw_canceled w)"

lemma bridged_step:
  assumes "hub_step cfg w w'" and w: "bridged w"
  shows "bridged w'"
  using assms(1)
proof cases
  case (handler a)
  then show ?thesis
    using w by cases (auto simp: bridged_def world_defs beginHandler_def registerEnter_Ok
      dest!: registerEnter_Fail capture_Ok(1) capture_Fail split: if_splits)
next
  case bridge
  then show ?thesis
    using w by cases (auto simp: bridged_def world_defs dest!: capture_Ok(1))
next
  case (close_begin order h candidates)
  moreover have "hb_bridge h = hb_bridge (hw_hub w)" "distinct candidates" using close_begin by (auto simp: closeHub_def split: if_splits)
  ultimately show ?thesis using w by (auto simp: bridged_def)
qed (use w in \<open>auto simp: bridged_def\<close>)

lemma caught_up_at:
  assumes "caught_up w" and "bridged w"
    and "hw_captures w' = hw_captures w @ vs" and "hw_updates w' = hw_updates w" and "hw_missed w' = hw_missed w"
      "hw_signal w' = hw_signal w" and "hw_bridge w' = hw_bridge w \<or> hw_bridge w = BridgeOff"
    and "\<And>b. b \<noteq> a \<Longrightarrow> hw_handlers w' b = hw_handlers w b" "\<And>b. b \<noteq> a \<Longrightarrow> hb_heap (hw_hub w') b = hb_heap (hw_hub w) b"
      "\<And>b. b \<noteq> a \<Longrightarrow> b \<in> hb_clients (hw_hub w') \<Longrightarrow> b \<in> hb_clients (hw_hub w)"
    and "a \<in> hb_clients (hw_hub w') \<Longrightarrow> (a \<in> hb_clients (hw_hub w) \<Longrightarrow> hw_handlers w a = Registered \<or> current w (newest w a)) \<Longrightarrow>
      hw_handlers w' a = Registered \<or> current w' (newest w' a)"
  shows "caught_up w'"
proof -
  have grow: "current w' n" if "current w n" for n
    using that assms(3,4) by (auto simp: current_def nth_append)
  have "\<forall>b\<in>hb_clients (hw_hub w'). hw_handlers w' b = Registered \<or> current w' (newest w' b)"
    if all: "\<forall>b\<in>hb_clients (hw_hub w). hw_handlers w b = Registered \<or> current w (newest w b)"
  proof
    fix b assume b: "b \<in> hb_clients (hw_hub w')"
    show "hw_handlers w' b = Registered \<or> current w' (newest w' b)"
    proof (cases "b = a")
      case True
      then show ?thesis using assms(11) b all by blast
    next
      case False
      then have "newest w' b = newest w b" by (simp add: newest_def assms(8,9))
      then show ?thesis using all assms(8,10) [OF False] b grow by auto
    qed
  qed
  then show ?thesis using assms(1,2,5,6,7) grow unfolding caught_up_def by (metis bridge.distinct(3,5))
qed

lemma newest_offer: "client_ok n live ws c \<Longrightarrow> unat (cl_lastSequence (offerLocked q c)) = max (unat (cl_lastSequence c)) (unat (qs_sequence q))"
  by (auto simp: client_ok_def offerLocked_eq word_le_nat_alt max_def)

lemma caught_up_handler_step:
  assumes "handler_step cfg a w w'" and w: "ordered w" "bridged w" "caught_up w" and bound: "length (hw_captures w') < 2 ^ 64"
  shows "caught_up w'"
  using assms(1)
proof cases
  case (enter h)
  then show ?thesis
    using ordered_phase [OF w(1), of a]
    by (intro caught_up_at [OF w(3,2), of w' "[]" a]) (auto simp: world_defs beginHandler_def split: if_splits)
next
  case accept_fails
  then show ?thesis
    using ordered_phase [OF w(1), of a] by (intro caught_up_at [OF w(3,2), of w' "[]" a]) (auto simp: world_defs)
next
  case (register h)
  then show ?thesis
    using w(2) by (intro caught_up_at [OF w(3,2), of w' "[]" a]) (auto simp: world_defs registerEnter_Ok bridged_def)
next
  case (register_refused h e)
  then show ?thesis
    using registerEnter_Fail [OF register_refused(3)] ordered_phase [OF w(1), of a]
    by (intro caught_up_at [OF w(3,2), of w' "[]" a]) (auto simp: world_defs)
next
  case (register_capture state h snapshot)
  then have "length (hw_captures w) < 2 ^ 64 - 1" using bound by (simp add: world_defs)
  note c = ordered_capture [OF w(1) register_capture(3) this]
  have "newest w' a = length (hw_captures w) + 1"
    using register_capture(1) c(3) capture_Ok(1) [OF register_capture(3)] ordered_client [OF w(1), of a]
    by (auto simp: newest_def world_defs client_ok_def)
  then have "current w' (newest w' a)" using register_capture(1) by (simp add: current_def world_defs nth_append)
  then show ?thesis
    using register_capture(1) capture_Ok(1) [OF register_capture(3)]
    by (intro caught_up_at [OF w(3,2), of w' "[hw_updates w]" a]) (auto simp: world_defs)
next
  case (register_capture_fails state h e)
  then show ?thesis
    using capture_Fail [OF register_capture_fails(3)] by (intro caught_up_at [OF w(3,2), of w' "[]" a]) (auto simp: world_defs)
next
  case (register_publish snapshot)
  then have "newest w' a = newest w a" if "a \<in> hb_clients (hw_hub w)"
    using that newest_offer [OF ordered_client [OF w(1), of a], of snapshot] by (auto simp: newest_def world_defs)
  then show ?thesis
    using register_publish by (intro caught_up_at [OF w(3,2), of w' "[]" a]) (auto simp: world_defs current_def)
next
  case (written snapshot rest)
  then have "newest w' a = newest w a" by (auto simp: newest_def world_defs)
  then show ?thesis
    using written by (intro caught_up_at [OF w(3,2), of w' "[]" a]) (auto simp: world_defs current_def)
next
  case (writing_fails snapshot rest)
  then have "newest w' a = newest w a" by (auto simp: newest_def world_defs)
  then show ?thesis
    using writing_fails by (intro caught_up_at [OF w(3,2), of w' "[]" a]) (auto simp: world_defs current_def)
next
  case disconnected
  then have "newest w' a = newest w a" by (auto simp: newest_def world_defs)
  then show ?thesis
    using disconnected by (intro caught_up_at [OF w(3,2), of w' "[]" a]) (auto simp: world_defs current_def)
next
  case leave
  then show ?thesis by (intro caught_up_at [OF w(3,2), of w' "[]" a]) (auto simp: world_defs)
qed

lemma caught_up_publish:
  assumes w: "ordered w" "caught_up w" and b: "hw_bridge w = BridgeHolding q" and order: "distinct order" "set order = hb_clients (hw_hub w)"
  shows "caught_up ((with_hub (publish order q) w)\<lparr>hw_bridge := BridgeIdle\<rparr>)"
proof -
  let ?w = "(with_hub (publish order q) w)\<lparr>hw_bridge := BridgeIdle\<rparr>"
  have q: "numbered (length (hw_captures w)) q" using ordered_bridge [OF w(1)] b by simp
  have "current ?w (newest ?w a)" if a: "a \<in> hb_clients (hw_hub w)"
      and c: "current w (unat (qs_sequence q)) \<or> current w (newest w a)" for a
  proof -
    have newest: "newest ?w a = max (newest w a) (unat (qs_sequence q))"
      using a order newest_offer [OF ordered_client [OF w(1), of a], of q] by (simp add: newest_def with_hub_def ac_simps)
    have n: "newest w a \<le> length (hw_captures w)"
      using ordered_client [OF w(1), of a] ordered_phase [OF w(1), of a]
      by (cases "hw_handlers w a") (auto simp: newest_def client_ok_def numbered_def)
    have s: "unat (qs_sequence q) \<le> length (hw_captures w)" using q by (simp add: numbered_def)
    have "sorted (hw_captures w)" and le: "\<And>k. k < length (hw_captures w) \<Longrightarrow> hw_captures w ! k \<le> hw_updates w"
      using w(1) by (auto simp: ordered_def)
    have later: "current w m" if k: "current w k" "k \<le> m" "m \<le> length (hw_captures w)" for k m
    proof -
      have "0 < k" "hw_captures w ! (k - 1) = hw_updates w" using k(1) by (simp_all add: current_def)
      moreover have "hw_captures w ! (k - 1) \<le> hw_captures w ! (m - 1)" "hw_captures w ! (m - 1) \<le> hw_updates w"
        using k \<open>0 < k\<close> \<open>sorted (hw_captures w)\<close> by (auto intro!: sorted_nth_mono le)
      ultimately show ?thesis using k(2,3) by (simp add: current_def)
    qed
    have "current w (max (newest w a) (unat (qs_sequence q)))"
      using c later [of _ "max (newest w a) (unat (qs_sequence q))"] n s by auto
    then show ?thesis unfolding newest by (simp add: current_def with_hub_def)
  qed
  then show ?thesis using w(2) b order by (auto simp: caught_up_def with_hub_def)
qed

lemma caught_up_step:
  assumes "hub_step cfg w w'" and w: "ordered w" "bridged w" "caught_up w" and bound: "length (hw_captures w') < 2 ^ 64"
  shows "caught_up w'"
  using assms(1)
proof cases
  case (handler a)
  then show ?thesis using caught_up_handler_step w bound by blast
next
  case bridge
  then show ?thesis
  proof cases
    case wake
    then show ?thesis by (simp add: caught_up_def)
  next
    case (bridge_capture state h snapshot)
    then have "length (hw_captures w) < 2 ^ 64 - 1" using bound by (simp add: world_defs)
    from ordered_capture(3) [OF w(1) bridge_capture(3) this] show ?thesis
      unfolding bridge_capture(1) by (simp add: caught_up_def current_def world_defs nth_append)
  next
    case (bridge_capture_fails state h e)
    then show ?thesis using w(1) by (auto simp: caught_up_def ordered_def)
  next
    case (bridge_publish snapshot order)
    then show ?thesis using caught_up_publish [OF w(1,3)] by blast
  next
    case bridge_stop
    then show ?thesis using w(1) by (auto simp: caught_up_def ordered_def)
  qed
next
  case update
  then show ?thesis by (simp add: caught_up_def)
next
  case (close_begin order h candidates)
  then have "hb_clients h = {}" "distinct candidates" using w(1) by (auto simp: closeHub_def ordered_def split: if_splits)
  then show ?thesis using close_begin(1) by (simp add: caught_up_def)
next
  case close_end
  then show ?thesis using w(3) by (auto simp: caught_up_def newest_def current_def)
qed

lemma caught_up_run:
  assumes "hub_run cfg w w'" and "ordered w" and "bridged w" and "caught_up w" and "length (hw_captures w') < 2 ^ 64"
  shows "bridged w' \<and> caught_up w'"
  using assms
proof (induction rule: hub_run.induct)
  case (more w w' w'')
  obtain vs where "hw_captures w'' = hw_captures w' @ vs" using captures_grow [OF more.hyps(2)] by blast
  then show ?case
    using more caught_up_step [OF more.hyps(2)] bridged_step [OF more.hyps(2)] ordered_run [OF more.hyps(1)] by simp
qed simp

lemma begin_hub_caught_up: "NewHub cfg = Ok h \<Longrightarrow> bridged (begin_hub h) \<and> caught_up (begin_hub h)"
  by (auto simp: NewHub_def begin_hub_def bridged_def caught_up_def split: if_splits)

text \<open>
  C27: a connection is never left behind.  Whenever the updates of the manager have been dealt
  with -- none is announced, and the bridge waits for the next -- and no capture of the bridge
  has failed, every client that is connected has been given, as its last snapshot, one captured
  after the last update; it waits for the client or has been written to it.
\<close>

theorem connected_clients_catch_up:
  assumes "NewHub cfg = Ok h" and "hub_run cfg (begin_hub h) w" and "length (hw_captures w) < 2 ^ 64"
    and "\<not> hw_missed w" and "\<not> hw_signal w" and "hw_bridge w = BridgeIdle"
    and "a \<in> hb_clients (hw_hub w)" and "hw_handlers w a = Streaming"
  shows "let shown = hw_written w a @ cl_queue (hb_heap (hw_hub w) a) in
    shown \<noteq> [] \<and> version w (last shown) = hw_updates w"
proof -
  have w: "ordered w" by (rule ordered_run [OF assms(2) ordered_begin [OF assms(1)] assms(3)])
  have "caught_up w"
    using caught_up_run [OF assms(2) ordered_begin [OF assms(1)] _ _ assms(3)] begin_hub_caught_up [OF assms(1)] by blast
  then have current: "current w (unat (cl_lastSequence (hb_heap (hw_hub w) a)))"
    using assms(4-) by (auto simp: caught_up_def newest_def)
  then have "0 < cl_lastSequence (hb_heap (hw_hub w) a)" by (auto simp: current_def word_gt_0)
  moreover have "client_ok (length (hw_captures w)) True (hw_written w a) (hb_heap (hw_hub w) a)"
    using ordered_client [OF w, of a] assms(8) by (simp add: in_loop_def)
  ultimately have "hw_written w a @ cl_queue (hb_heap (hw_hub w) a) \<noteq> [] \<and>
      qs_sequence (last (hw_written w a @ cl_queue (hb_heap (hw_hub w) a))) = cl_lastSequence (hb_heap (hw_hub w) a)"
    unfolding client_ok_def by blast
  then show ?thesis using current unfolding Let_def version_def current_def by simp
qed

section \<open>Shutdown\<close>

definition live_handlers :: "HubWorld \<Rightarrow> nat set" where
  "live_handlers w = {a. hw_handlers w a \<noteq> Absent \<and> hw_handlers w a \<noteq> Returned}"

fun serving :: "handler \<Rightarrow> bool" where
  "serving Registered \<longleftrightarrow> True"
| "serving (Captured q) \<longleftrightarrow> True"
| "serving Streaming \<longleftrightarrow> True"
| "serving _ \<longleftrightarrow> False"

text \<open>
  The counter counts the handlers that have not returned; a handler that serves is registered,
  or canceled once the hub is closed; a shutdown that is over has left nothing.
\<close>

definition accounted :: "HubWorld \<Rightarrow> bool" where
  "accounted w \<longleftrightarrow> finite (live_handlers w) \<and> hb_handlers (hw_hub w) = int (card (live_handlers w)) \<and>
     (hw_closing w \<noteq> NotClosing \<longleftrightarrow> hb_closed (hw_hub w)) \<and> (hw_canceled w \<longleftrightarrow> hb_closed (hw_hub w)) \<and>
     (hb_closed (hw_hub w) \<longrightarrow> hb_clients (hw_hub w) = {}) \<and>
     (\<forall>a. serving (hw_handlers w a) \<longrightarrow>
       (if hb_closed (hw_hub w) then cl_canceled (hb_heap (hw_hub w) a) else a \<in> hb_clients (hw_hub w))) \<and>
     (hw_closing w = Closed_hub \<longrightarrow> live_handlers w = {} \<and> hw_bridge w \<in> {BridgeOff, BridgeDone})"

lemma serving_canceled: "accounted w \<Longrightarrow> serving (hw_handlers w a) \<Longrightarrow>
    if hb_closed (hw_hub w) then cl_canceled (hb_heap (hw_hub w) a) else a \<in> hb_clients (hw_hub w)"
  unfolding accounted_def by blast

lemma live_handlers_at:
  assumes "\<And>b. b \<noteq> a \<Longrightarrow> hw_handlers w' b = hw_handlers w b"
  shows "live_handlers w' = (if hw_handlers w' a \<noteq> Absent \<and> hw_handlers w' a \<noteq> Returned then insert a (live_handlers w)
    else live_handlers w - {a})"
proof -
  have "hw_handlers w' = (hw_handlers w)(a := hw_handlers w' a)" using assms by auto
  then have "live_handlers w' = {b. ((hw_handlers w)(a := hw_handlers w' a)) b \<noteq> Absent \<and> ((hw_handlers w)(a := hw_handlers w' a)) b \<noteq> Returned}"
    by (simp add: live_handlers_def)
  then show ?thesis by (auto simp: live_handlers_def)
qed

lemma accounted_at:
  assumes w: "accounted w" and open_hub: "hw_closing w \<noteq> Closed_hub"
    and same: "hw_closing w' = hw_closing w" "hw_canceled w' = hw_canceled w" "hb_closed (hw_hub w') = hb_closed (hw_hub w)"
    and other: "\<And>b. b \<noteq> a \<Longrightarrow> hw_handlers w' b = hw_handlers w b"
      "\<And>b. b \<noteq> a \<Longrightarrow> cl_canceled (hb_heap (hw_hub w') b) = cl_canceled (hb_heap (hw_hub w) b)"
      "\<And>b. b \<noteq> a \<Longrightarrow> b \<in> hb_clients (hw_hub w') \<longleftrightarrow> b \<in> hb_clients (hw_hub w)"
    and counter: "hb_handlers (hw_hub w') = hb_handlers (hw_hub w) +
      (if a \<in> live_handlers w then 0 else 1) - (if a \<in> live_handlers w' then 0 else 1)"
    and served: "serving (hw_handlers w' a) \<Longrightarrow>
      if hb_closed (hw_hub w) then cl_canceled (hb_heap (hw_hub w') a) else a \<in> hb_clients (hw_hub w')"
    and listed: "hb_closed (hw_hub w) \<Longrightarrow> a \<notin> hb_clients (hw_hub w')"
  shows "accounted w'"
proof -
  have live: "finite (live_handlers w)" "hb_handlers (hw_hub w) = int (card (live_handlers w))" using w by (simp_all add: accounted_def)
  have "finite (live_handlers w') \<and> hb_handlers (hw_hub w') = int (card (live_handlers w'))"
  proof (cases "a \<in> live_handlers w'")
    case True
    then have "live_handlers w' = insert a (live_handlers w)"
      using live_handlers_at [of a w' w] other(1) by (auto simp: live_handlers_def)
    then show ?thesis using live counter True by (auto simp: insert_absorb)
  next
    case False
    then have "live_handlers w' = live_handlers w - {a}"
      using live_handlers_at [of a w' w] other(1) by (auto simp: live_handlers_def)
    then have "card (live_handlers w) = card (live_handlers w') + (if a \<in> live_handlers w then 1 else 0)"
      using live(1) card.remove [of "live_handlers w" a] by (cases "a \<in> live_handlers w") simp_all
    then show ?thesis using live counter False \<open>live_handlers w' = live_handlers w - {a}\<close> by (simp split: if_splits)
  qed
  moreover have "if hb_closed (hw_hub w') then cl_canceled (hb_heap (hw_hub w') b) else b \<in> hb_clients (hw_hub w')"
    if "serving (hw_handlers w' b)" for b
  proof (cases "b = a")
    case True
    then show ?thesis using served that same(3) by simp
  next
    case False
    then have "serving (hw_handlers w b)" using that other(1) by simp
    then have "if hb_closed (hw_hub w) then cl_canceled (hb_heap (hw_hub w) b) else b \<in> hb_clients (hw_hub w)"
      by (rule serving_canceled [OF w])
    then show ?thesis using other(2,3) [OF False] same(3) by simp
  qed
  moreover have "hb_clients (hw_hub w') = {}" if "hb_closed (hw_hub w)"
  proof -
    have "b \<notin> hb_clients (hw_hub w')" for b using that w other(3) [of b] listed by (cases "b = a") (simp_all add: accounted_def)
    then show ?thesis by blast
  qed
  ultimately show ?thesis using w open_hub unfolding accounted_def same by simp
qed

lemma offerLocked_canceled [simp]: "cl_canceled (offerLocked q c) = cl_canceled c"
  by (simp add: offerLocked_def Let_def)

lemma accounted_open: "accounted w \<Longrightarrow> a \<in> live_handlers w \<or> \<not> hb_closed (hw_hub w) \<Longrightarrow> hw_closing w \<noteq> Closed_hub"
  by (auto simp: accounted_def)

lemma accounted_closed: "accounted w \<Longrightarrow> hb_closed (hw_hub w) \<Longrightarrow> a \<notin> hb_clients (hw_hub w)"
  by (simp add: accounted_def)

lemma accounted_handler_step:
  assumes "handler_step cfg a w w'" and w: "accounted w"
  shows "accounted w'"
proof -
  have open_hub: "hw_closing w \<noteq> Closed_hub"
    using assms by cases (auto intro!: accounted_open [OF w, of a] simp: live_handlers_def beginHandler_def split: if_splits)
  note served = serving_canceled [OF w, of a]
  show ?thesis
    using assms(1)
  proof cases
    case (enter h)
    then show ?thesis using accounted_closed [OF w]
      by (intro accounted_at [OF w open_hub, of _ a]) (auto simp: world_defs live_handlers_def beginHandler_def split: if_splits)
  next
    case accept_fails
    then show ?thesis using accounted_closed [OF w]
      by (intro accounted_at [OF w open_hub, of _ a]) (auto simp: world_defs live_handlers_def)
  next
    case (register h)
    then show ?thesis
      by (intro accounted_at [OF w open_hub, of _ a]) (auto simp: world_defs live_handlers_def registerEnter_Ok)
  next
    case (register_refused h e)
    then show ?thesis using registerEnter_Fail [OF register_refused(3)] accounted_closed [OF w]
      by (intro accounted_at [OF w open_hub, of _ a]) (auto simp: world_defs live_handlers_def)
  next
    case (register_capture state h snapshot)
    then show ?thesis using capture_Ok(1) [OF register_capture(3)] served accounted_closed [OF w, of a]
      by (intro accounted_at [OF w open_hub, of _ a]) (auto simp: world_defs live_handlers_def)
  next
    case (register_capture_fails state h e)
    then show ?thesis using capture_Fail [OF register_capture_fails(3)] accounted_closed [OF w]
      by (intro accounted_at [OF w open_hub, of _ a]) (auto simp: world_defs live_handlers_def)
  next
    case (register_publish snapshot)
    then show ?thesis using served accounted_closed [OF w, of a]
      by (intro accounted_at [OF w open_hub, of _ a]) (auto simp: world_defs live_handlers_def)
  next
    case (written snapshot rest)
    then show ?thesis using served accounted_closed [OF w, of a]
      by (intro accounted_at [OF w open_hub, of _ a]) (auto simp: world_defs live_handlers_def)
  next
    case (writing_fails snapshot rest)
    then show ?thesis using accounted_closed [OF w, of a]
      by (intro accounted_at [OF w open_hub, of _ a]) (auto simp: world_defs live_handlers_def)
  next
    case disconnected
    then show ?thesis using accounted_closed [OF w, of a]
      by (intro accounted_at [OF w open_hub, of _ a]) (auto simp: world_defs live_handlers_def)
  next
    case leave
    then show ?thesis using accounted_closed [OF w, of a]
      by (intro accounted_at [OF w open_hub, of _ a]) (auto simp: world_defs live_handlers_def)
  qed
qed

lemma accounted_bridge_step:
  assumes "bridge_step cfg w w'" and w: "accounted w"
  shows "accounted w'"
  using assms(1)
proof cases
  case (bridge_capture state h snapshot)
  then show ?thesis
    using w capture_Ok(1) [OF bridge_capture(3)] by (auto simp: accounted_def world_defs live_handlers_def)
next
  case (bridge_publish snapshot order)
  have "cl_canceled (hb_heap (publish order snapshot (hw_hub w)) a) = cl_canceled (hb_heap (hw_hub w) a)" for a
    using bridge_publish(3) by simp
  then show ?thesis using w bridge_publish by (auto simp: accounted_def world_defs live_handlers_def)
qed (use w in \<open>auto simp: accounted_def live_handlers_def\<close>)

lemma accounted_step:
  assumes "hub_step cfg w w'" and w: "accounted w"
  shows "accounted w'"
  using assms(1)
proof cases
  case (handler a)
  then show ?thesis using accounted_handler_step w by blast
next
  case bridge
  then show ?thesis using accounted_bridge_step w by blast
next
  case update
  then show ?thesis using w by (simp add: accounted_def live_handlers_def)
next
  case (close_begin order h candidates)
  have still_open: "\<not> hb_closed (hw_hub w)" using close_begin(2) w by (simp add: accounted_def)
  then have h: "candidates = order" "h = (hw_hub w)\<lparr>hb_closed := True, hb_clients := {}\<rparr>"
    using close_begin by (auto simp: closeHub_def)
  have "cl_canceled (hb_heap (disconnect candidates h) a)" if "serving (hw_handlers w a)" for a
    using serving_canceled [OF w that] still_open close_begin(3,4) h by simp
  then show ?thesis using w h close_begin(3) unfolding close_begin(1) by (simp add: accounted_def live_handlers_def)
next
  case close_end
  then have "finite (live_handlers w) \<and> card (live_handlers w) = 0" using w by (simp add: accounted_def)
  then have "live_handlers w = {}" by auto
  then show ?thesis using w close_end by (auto simp: accounted_def live_handlers_def)
qed

lemma accounted_run: "hub_run cfg w w' \<Longrightarrow> accounted w \<Longrightarrow> accounted w'"
  by (induction rule: hub_run.induct) (auto intro: accounted_step)

lemma accounted_begin: "NewHub cfg = Ok h \<Longrightarrow> accounted (begin_hub h)"
  by (auto simp: NewHub_def begin_hub_def accounted_def live_handlers_def split: if_splits)

lemma hub_run_trans: "hub_run cfg w' w'' \<Longrightarrow> hub_run cfg w w' \<Longrightarrow> hub_run cfg w w''"
  by (induction rule: hub_run.induct) (auto intro: hub_run.more)

lemma one_step: "hub_step cfg w w' \<Longrightarrow> hub_run cfg w w'"
  by (rule hub_run.more [OF hub_run.start])

lemma capture_canceled [simp]: "capture cfg (Fail e) h = (h, Fail e)"
  by (simp add: capture_def)

definition only_returns :: "nat \<Rightarrow> HubWorld \<Rightarrow> HubWorld \<Rightarrow> bool" where
  "only_returns a w w' \<longleftrightarrow> hw_handlers w' = (hw_handlers w)(a := Returned) \<and> hw_closing w' = hw_closing w \<and>
     hw_bridge w' = hw_bridge w \<and> hw_canceled w' = hw_canceled w"

text \<open>From wherever it is, a handler whose client is canceled returns.\<close>

lemma handler_returns:
  assumes "a \<in> live_handlers w"
  shows "\<exists>w'. hub_run cfg w w' \<and> only_returns a w w'"
proof -
  have leaving: "\<exists>w'. hub_run cfg w w' \<and> only_returns a w w'" if "hw_handlers w a = Leaving" for w
    using one_step [OF hub_step.handler [OF handler_step.leave [OF that]], of cfg]
    by (intro exI conjI) (assumption, simp add: only_returns_def world_defs)
  have streaming: "\<exists>w'. hub_run cfg w w' \<and> only_returns a w w'" if "hw_handlers w a = Streaming" for w
  proof -
    have step: "hub_run cfg w (at_handler a Leaving w)" by (rule one_step [OF hub_step.handler [OF handler_step.disconnected [OF that]]])
    obtain w' where "hub_run cfg (at_handler a Leaving w) w'" "only_returns a (at_handler a Leaving w) w'"
      using leaving [of "at_handler a Leaving w"] by (auto simp: at_handler_def)
    with hub_run_trans [OF _ step] show ?thesis by (auto simp: only_returns_def at_handler_def)
  qed
  show ?thesis
  proof (cases "hw_handlers w a")
    case Accepting
    show ?thesis
      using one_step [OF hub_step.handler [OF handler_step.accept_fails [OF Accepting]], of cfg]
      by (intro exI conjI) (assumption, simp add: only_returns_def world_defs)
  next
    case Registered
    show ?thesis
      using one_step [OF hub_step.handler [OF handler_step.register_capture_fails [OF Registered capture_canceled]], of cfg]
      by (intro exI conjI) (assumption, simp add: only_returns_def world_defs)
  next
    case (Captured q)
    let ?w = "at_handler a Streaming (with_hub (publishTo a q) w)"
    have step: "hub_run cfg w ?w" by (rule one_step [OF hub_step.handler [OF handler_step.register_publish [OF Captured]]])
    obtain w' where "hub_run cfg ?w w'" "only_returns a ?w w'" using streaming [of ?w] by (auto simp: at_handler_def)
    with hub_run_trans [OF _ step] show ?thesis by (auto simp: only_returns_def world_defs)
  qed (use assms streaming leaving in \<open>auto simp: live_handlers_def\<close>)
qed

lemma handlers_drain:
  assumes "finite A" and "live_handlers w = A"
  shows "\<exists>w'. hub_run cfg w w' \<and> live_handlers w' = {} \<and> hw_closing w' = hw_closing w \<and> hw_bridge w' = hw_bridge w \<and>
    hw_canceled w' = hw_canceled w"
  using assms
proof (induction A arbitrary: w rule: finite_induct)
  case empty
  then show ?case using hub_run.start by blast
next
  case (insert a A)
  then obtain w1 where w1: "hub_run cfg w w1" "only_returns a w w1" using handler_returns [of a w cfg] by blast
  then have "live_handlers w1 = A" using insert.hyps(2) insert.prems by (auto simp: only_returns_def live_handlers_def split: if_splits)
  with insert.IH obtain w2 where "hub_run cfg w1 w2" "live_handlers w2 = {}" "hw_closing w2 = hw_closing w1" "hw_bridge w2 = hw_bridge w1"
    "hw_canceled w2 = hw_canceled w1" by blast
  with hub_run_trans [OF _ w1(1)] w1(2) show ?case by (auto simp: only_returns_def)
qed

text \<open>The bridge ends: its context is canceled, and there is nobody left to publish to.\<close>

lemma bridge_drains:
  assumes w: "accounted w" "bridged w" and canceled: "hw_canceled w"
  shows "\<exists>w'. hub_run cfg w w' \<and> hw_handlers w' = hw_handlers w \<and> hw_closing w' = hw_closing w \<and> hw_bridge w' \<in> {BridgeOff, BridgeDone}"
proof -
  let ?done = "\<lambda>w'. hub_run cfg w w' \<and> hw_handlers w' = hw_handlers w \<and> hw_closing w' = hw_closing w \<and> hw_bridge w' \<in> {BridgeOff, BridgeDone}"
  show ?thesis
  proof (cases "hw_bridge w")
    case BridgeIdle
    have "?done (w\<lparr>hw_bridge := BridgeDone\<rparr>)"
      using one_step [OF hub_step.bridge [OF bridge_step.bridge_stop [OF BridgeIdle canceled]]] by simp
    then show ?thesis by blast
  next
    case BridgeWoken
    have "?done (w\<lparr>hw_bridge := BridgeDone\<rparr>)"
      using one_step [OF hub_step.bridge [OF bridge_step.bridge_capture_fails [OF BridgeWoken capture_canceled]]] canceled by simp
    then show ?thesis by blast
  next
    case (BridgeHolding q)
    let ?w = "(with_hub (publish [] q) w)\<lparr>hw_bridge := BridgeIdle\<rparr>"
    have "hb_clients (hw_hub w) = {}" using w(1) canceled by (auto simp: accounted_def)
    then have "hub_run cfg w ?w" using one_step [OF hub_step.bridge [OF bridge_step.bridge_publish [OF BridgeHolding, of "[]"]]] by simp
    moreover have "hub_step cfg ?w (?w\<lparr>hw_bridge := BridgeDone\<rparr>)"
      by (rule hub_step.bridge [OF bridge_step.bridge_stop]) (simp_all add: canceled with_hub_def)
    ultimately have "?done (?w\<lparr>hw_bridge := BridgeDone\<rparr>)" using hub_run.more by (simp add: with_hub_def)
    then show ?thesis by blast
  qed (use hub_run.start in \<open>auto intro: exI [of _ w]\<close>)
qed

text \<open>
  C28: the shutdown of a hub ends and leaves nothing behind.  From any moment of any execution
  after \<open>Close\<close> has closed the hub, each handler that serves a connection has been canceled,
  and the call can return; when it has returned no handler and no bridge is running, no client
  is registered, and no handler is admitted any more.
\<close>

theorem hub_shutdown:
  assumes "NewHub cfg = Ok h" and "hub_run cfg (begin_hub h) w"
  shows "(hw_closing w \<noteq> NotClosing \<longrightarrow>
      (\<forall>a. hw_handlers w a = Streaming \<longrightarrow> cl_canceled (hb_heap (hw_hub w) a)) \<and>
      (\<exists>w'. hub_run cfg w w' \<and> hw_closing w' = Closed_hub)) \<and>
    (hw_closing w = Closed_hub \<longrightarrow> hb_clients (hw_hub w) = {} \<and> (\<forall>a. hw_handlers w a \<in> {Absent, Returned}) \<and>
      hw_bridge w \<in> {BridgeOff, BridgeDone} \<and> beginHandler (hw_hub w) = (hw_hub w, False))"
proof (intro conjI impI)
  have w: "accounted w" by (rule accounted_run [OF assms(2) accounted_begin [OF assms(1)]])
  have b: "bridged w'" if "hub_run cfg (begin_hub h) w'" for w'
    using that begin_hub_caught_up [OF assms(1)] by (induction rule: hub_run.induct) (auto intro: bridged_step)
  have closed: "hb_closed (hw_hub w)" "hw_canceled w" if "hw_closing w \<noteq> NotClosing" using that w by (auto simp: accounted_def)
  show "\<forall>a. hw_handlers w a = Streaming \<longrightarrow> cl_canceled (hb_heap (hw_hub w) a)" if "hw_closing w \<noteq> NotClosing"
    using serving_canceled [OF w] closed(1) [OF that] by (metis serving.simps(3))
  show "\<exists>w'. hub_run cfg w w' \<and> hw_closing w' = Closed_hub" if c: "hw_closing w \<noteq> NotClosing"
  proof (cases "hw_closing w = Closed_hub")
    case False
    then have waiting: "hw_closing w = Waiting_close" using c by (cases "hw_closing w") auto
    obtain w1 where w1: "hub_run cfg w w1" "live_handlers w1 = {}" "hw_closing w1 = Waiting_close" "hw_canceled w1"
      using handlers_drain [OF _ refl, of w cfg] w waiting closed(2) [OF c] by (auto simp: accounted_def)
    obtain w2 where w2: "hub_run cfg w1 w2" "hw_handlers w2 = hw_handlers w1" "hw_closing w2 = Waiting_close"
        "hw_bridge w2 \<in> {BridgeOff, BridgeDone}"
      using bridge_drains [OF accounted_run [OF w1(1) w] b [OF hub_run_trans [OF w1(1) assms(2)]] w1(4), of cfg] w1(3) by auto
    have "accounted w2" by (rule accounted_run [OF hub_run_trans [OF w2(1) w1(1)] w])
    moreover have "live_handlers w2 = {}" using w1(2) w2(2) by (simp add: live_handlers_def)
    ultimately have "hb_handlers (hw_hub w2) = 0" by (simp add: accounted_def)
    from hub_run.more [OF hub_run_trans [OF w2(1) w1(1)] hub_step.close_end [OF w2(3,4) this]] show ?thesis by auto
  qed (use hub_run.start in blast)
  assume c: "hw_closing w = Closed_hub"
  then have "live_handlers w = {}" "hb_closed (hw_hub w)" and rest: "hb_clients (hw_hub w) = {}" "hw_bridge w \<in> {BridgeOff, BridgeDone}"
    using w by (auto simp: accounted_def)
  then show "\<forall>a. hw_handlers w a \<in> {Absent, Returned}" "beginHandler (hw_hub w) = (hw_hub w, False)"
    by (auto simp: live_handlers_def beginHandler_def)
  show "hb_clients (hw_hub w) = {}" "hw_bridge w \<in> {BridgeOff, BridgeDone}" using rest by auto
qed

section \<open>An execution\<close>

definition sample_hub :: Hub where
  "sample_hub = \<lparr>hb_heap = (\<lambda>_. newClient), hb_clients = {}, hb_bridge = False, hb_closed = False, hb_handlers = 0,
     hb_sequence = 0\<rparr>"

lemma sample_hub: "NewHub Default = Ok sample_hub"
  by (simp add: NewHub_def sample_hub_def) (simp add: Default_def)

definition shown_snapshot :: Snapshot where
  "shown_snapshot = ended_snapshot\<lparr>sn_Simulation := (sn_Simulation ended_snapshot)\<lparr>s_LastTickAt := Some (Time (4 * Second) True)\<rparr>\<rparr>"

lemma shown_view: "\<exists>view. BuildStateSnapshot shown_snapshot (Time (4 * Second) True) Default = Ok view"
proof -
  have "MaxActivePortals Default = 7" by (simp add: Default_def)
  then show ?thesis
    by (simp add: BuildStateSnapshot_def shown_snapshot_def ended_snapshot_def busy_state_def busy_portal_def sample_portal_def
      BuildObserverTransits_def transitPortals_def transitAt_def NewObserver_def Let_def emptySlots_def appView_def planeViews_def
      sample_plane_def observerView_def portalView_def) (simp add: NeedsAttentionPortalIndex_def Default_def)
qed

lemma shown_capture:
  assumes "BuildStateSnapshot shown_snapshot (Time (4 * Second) True) Default = Ok view"
  shows "capture Default (Ok shown_snapshot) h = (h\<lparr>hb_sequence := hb_sequence h + 1\<rparr>, Ok \<lparr>qs_sequence = hb_sequence h + 1, qs_view = view\<rparr>)"
proof -
  have "s_LastTickAt (sn_Simulation shown_snapshot) = Some (Time (4 * Second) True)" by (simp add: shown_snapshot_def)
  moreover have "\<not> IsZero (Time (4 * Second) True)" "UTC (Time (4 * Second) True) = Time (4 * Second) True"
    by (simp_all add: IsZero_def UTC_def)
  ultimately show ?thesis using assms by (simp add: capture_def Let_def)
qed

text \<open>
  A connection registers; before it captures its first snapshot, an update is announced, and the
  bridge publishes it; the older snapshot is replaced by the newer, which is then written.
\<close>

lemma hub_execution:
  "\<exists>w q. hub_run Default (begin_hub sample_hub) w \<and> hw_captures w = [1, 1] \<and> hw_updates w = 1 \<and> \<not> hw_missed w \<and> \<not> hw_signal w \<and>
    hw_bridge w = BridgeIdle \<and> hb_clients (hw_hub w) = {0} \<and> hw_handlers w 0 = Streaming \<and> hw_written w 0 = [q] \<and>
    cl_queue (hb_heap (hw_hub w) 0) = [] \<and> qs_sequence q = 2 \<and> hw_closing w = NotClosing"
proof -
  obtain view where view: "BuildStateSnapshot shown_snapshot (Time (4 * Second) True) Default = Ok view" using shown_view by blast
  note capture = shown_capture [OF view]
  let ?q1 = "\<lparr>qs_sequence = 1, qs_view = view\<rparr>" and ?q2 = "\<lparr>qs_sequence = 2, qs_view = view\<rparr>"
  let ?w0 = "begin_hub sample_hub"
  let ?w1 = "at_handler 0 Accepting (?w0\<lparr>hw_hub := sample_hub\<lparr>hb_handlers := 1\<rparr>\<rparr>)"
  let ?h2 = "(update_client 0 (\<lambda>_. newClient) (hw_hub ?w1))\<lparr>hb_clients := {0}, hb_bridge := True\<rparr>"
  let ?w2 = "at_handler 0 Registered (?w1\<lparr>hw_hub := ?h2, hw_bridge := BridgeIdle\<rparr>)"
  let ?w3 = "?w2\<lparr>hw_updates := 1, hw_signal := True\<rparr>"
  let ?w4 = "?w3\<lparr>hw_bridge := BridgeWoken, hw_signal := False\<rparr>"
  let ?w5 = "(captured (?h2\<lparr>hb_sequence := 1\<rparr>) ?w4)\<lparr>hw_bridge := BridgeHolding ?q1\<rparr>"
  let ?w6 = "(with_hub (publish [0] ?q1) ?w5)\<lparr>hw_bridge := BridgeIdle\<rparr>"
  let ?w7 = "at_handler 0 (Captured ?q2) (captured ((hw_hub ?w6)\<lparr>hb_sequence := 2\<rparr>) ?w6)"
  let ?w8 = "at_handler 0 Streaming (with_hub (publishTo 0 ?q2) ?w7)"
  let ?w9 = "with_hub (update_client 0 (\<lambda>c. c\<lparr>cl_queue := []\<rparr>)) (?w8\<lparr>hw_written := (hw_written ?w8)(0 := [?q2])\<rparr>)"
  have two: "\<not> (2 :: 64 word) \<le> 1" by (simp add: word_le_nat_alt)
  note defs = two world_defs begin_hub_def sample_hub_def update_client_def newClient_def publish_def publishTo_def offerLocked_def
    trySend_def tryReceive_def
  have 1: "hub_step Default ?w0 ?w1"
    by (rule hub_step.handler [OF handler_step.enter]) (simp_all add: defs beginHandler_def)
  have 2: "hub_step Default ?w1 ?w2"
    using handler_step.register [of ?w1 0 ?h2 Default] by (intro hub_step.handler [of _ 0]) (simp add: registerEnter_def, simp add: defs)
  have 3: "hub_step Default ?w2 ?w3" using hub_step.update [of Default ?w2] by (simp add: defs)
  have 4: "hub_step Default ?w3 ?w4" by (rule hub_step.bridge [OF bridge_step.wake]) (simp_all add: defs)
  have 5: "hub_step Default ?w4 ?w5"
    by (rule hub_step.bridge [OF bridge_step.bridge_capture [of _ _ "Ok shown_snapshot"]]) (simp_all add: defs capture)
  have 6: "hub_step Default ?w5 ?w6" by (rule hub_step.bridge [OF bridge_step.bridge_publish]) (simp_all add: defs)
  have 7: "hub_step Default ?w6 ?w7"
    by (rule hub_step.handler [OF handler_step.register_capture [of _ _ _ "Ok shown_snapshot"]]) (simp_all add: defs capture)
  have 8: "hub_step Default ?w7 ?w8" by (rule hub_step.handler [OF handler_step.register_publish]) (simp add: defs)
  have 9: "hub_step Default ?w8 ?w9"
    using handler_step.written [of ?w8 0 ?q2 "[]" Default] by (intro hub_step.handler [of _ 0]) (simp add: defs Let_def)
  note run = hub_run.more [OF hub_run.more [OF hub_run.more [OF one_step [OF 1] 2] 3] 4]
  note run = hub_run.more [OF hub_run.more [OF hub_run.more [OF hub_run.more [OF hub_run.more [OF run 5] 6] 7] 8] 9]
  show ?thesis by (intro exI [of _ ?w9] exI [of _ ?q2] conjI, rule run) (simp_all add: defs Let_def)
qed

theorem snapshots_in_order_witness:
  "\<exists>w. hub_run Default (begin_hub sample_hub) w \<and> map qs_sequence (hw_written w 0) = [2] \<and>
    sorted_wrt (<) (map qs_sequence (hw_written w 0))"
proof -
  obtain w q where w: "hub_run Default (begin_hub sample_hub) w" "hw_captures w = [1, 1]" "hw_written w 0 = [q]" "qs_sequence q = 2"
      "cl_queue (hb_heap (hw_hub w) 0) = []"
    using hub_execution by blast
  from snapshots_in_order [OF sample_hub w(1), of 0] w show ?thesis by (auto simp: Let_def)
qed

theorem connected_clients_catch_up_witness:
  "\<exists>w. hub_run Default (begin_hub sample_hub) w \<and> hw_updates w = 1 \<and> hw_written w 0 \<noteq> [] \<and> version w (last (hw_written w 0)) = 1"
proof -
  obtain w q where w: "hub_run Default (begin_hub sample_hub) w" "hw_captures w = [1, 1]" "hw_written w 0 = [q]"
      "cl_queue (hb_heap (hw_hub w) 0) = []" "hw_updates w = 1" "\<not> hw_missed w" "\<not> hw_signal w" "hw_bridge w = BridgeIdle"
      "0 \<in> hb_clients (hw_hub w)" "hw_handlers w 0 = Streaming"
    using hub_execution by (metis singletonI)
  have "length (hw_captures w) < 2 ^ 64" using w(2) by simp
  from connected_clients_catch_up [OF sample_hub w(1) this w(6-)] w show ?thesis by (auto simp: Let_def)
qed

theorem hub_shutdown_witness:
  "\<exists>w w'. hub_run Default (begin_hub sample_hub) w \<and> hw_handlers w 0 = Streaming \<and> hw_closing w = Waiting_close \<and>
    cl_canceled (hb_heap (hw_hub w) 0) \<and> hub_run Default w w' \<and> hw_closing w' = Closed_hub"
proof -
  obtain w where w: "hub_run Default (begin_hub sample_hub) w" "hb_clients (hw_hub w) = {0}" "hw_handlers w 0 = Streaming"
      "hw_closing w = NotClosing"
    using hub_execution by blast
  let ?w = "w\<lparr>hw_hub := disconnect (snd (closeHub [0] (hw_hub w))) (fst (closeHub [0] (hw_hub w))), hw_canceled := True,
    hw_closing := Waiting_close\<rparr>"
  have run: "hub_run Default (begin_hub sample_hub) ?w"
    by (rule hub_run.more [OF w(1) hub_step.close_begin [OF w(4), of "[0]"]]) (simp_all add: w(2))
  obtain w' where "hub_run Default ?w w'" "hw_closing w' = Closed_hub" "cl_canceled (hb_heap (hw_hub ?w) 0)"
    using hub_shutdown [OF sample_hub run] w(3) by auto
  then show ?thesis using run w(3) by (intro exI [of _ ?w] exI [of _ w'] conjI) simp_all
qed

end
