(* ===== verification/Server.thy ===== *)
theory Server
  imports Registry Sessions
begin

text \<open>
  The server process (\<open>cmd/server/main.go\<close>): its configuration, the workers that tick the
  laboratories and delete the expired ones, and the shutdown.  The sections of the registry
  are composed here to its whole operations, as one goroutine runs them.
\<close>

section \<open>Errors of the services\<close>

text \<open>
  The errors that meet at the top: those of the program, two of the library, and joins of any
  number of errors.
\<close>

datatype service_error =
    Plain error
  | ErrServerClosed
  | Wrapping string service_error
  | Joined "service_error list"

text \<open>\<open>errors.Join\<close>: nil if every error is.\<close>

definition joinErrors :: "service_error option list \<Rightarrow> service_error option" where
  "joinErrors errs =
     (case List.map_filter id errs of [] \<Rightarrow> None | es \<Rightarrow> Some (Joined es))"

text \<open>\<open>errors.Is\<close> for one of the three errors of an orderly end.\<close>

fun isOrderly :: "service_error \<Rightarrow> bool" where
  "isOrderly (Plain e) \<longleftrightarrow> e = ErrContextCanceled \<or> e = ErrContextDeadlineExceeded"
| "isOrderly ErrServerClosed \<longleftrightarrow> True"
| "isOrderly (Wrapping msg e) \<longleftrightarrow> isOrderly e"
| "isOrderly (Joined es) \<longleftrightarrow> (\<exists>e\<in>set es. isOrderly e)"

text \<open>An error of the program as the tree that \<open>Unwrap\<close> walks.\<close>

fun tree_of :: "error \<Rightarrow> service_error" where
  "tree_of (ErrorfWrap msg e) = Wrapping msg (tree_of e)"
| "tree_of (RandomRestoreError e) = Wrapping ''restore random state'' (tree_of e)"
| "tree_of (ErrorsJoin a b) = Joined [tree_of a, tree_of b]"
| "tree_of e = Plain e"

fun unexpectedServiceError :: "service_error \<Rightarrow> service_error option" where
  "unexpectedServiceError (Joined es) =
     (case List.map_filter id (map unexpectedServiceError es) of
        [] \<Rightarrow> None
      | [e] \<Rightarrow> Some e
      | unexpected \<Rightarrow> Some (Joined unexpected))"
| "unexpectedServiceError (Wrapping msg e) =
     (if isOrderly (Wrapping msg e) then unexpectedServiceError e else Some (Wrapping msg e))"
| "unexpectedServiceError e = (if isOrderly e then None else Some e)"

section \<open>Whole operations of the registry\<close>

text \<open>The laboratory's \<open>Tick\<close> is an argument, a function of the runtime on the rest of the world.\<close>

fun tickLeases ::
    "(nat \<Rightarrow> 'w \<Rightarrow> 'w \<times> service_error option) \<Rightarrow> nat list \<Rightarrow> Registry \<Rightarrow> 'w \<Rightarrow> service_error option \<Rightarrow>
     (Registry \<times> 'w) \<times> service_error option" where
  "tickLeases tickRuntime [] r w res = ((r, w), res)"
| "tickLeases tickRuntime (a # leases) r w res =
     (case tickRuntime (the (rt_runtime (rg_heap r a))) w of
        (w, err) \<Rightarrow> tickLeases tickRuntime leases (releaseLease a r) w (joinErrors [res, err]))"

definition TickAll ::
    "(nat \<Rightarrow> 'w \<Rightarrow> 'w \<times> service_error option) \<Rightarrow> LabID list \<Rightarrow> Registry \<times> 'w \<Rightarrow> (Registry \<times> 'w) \<times> service_error option" where
  "TickAll tickRuntime order rw =
     (case tickEnter order (fst rw) of
        (r, Ok leases) \<Rightarrow>
          (case tickLeases tickRuntime leases r (snd rw) None of ((r, w), res) \<Rightarrow> ((tickDone r, w), res))
      | (r, Fail e) \<Rightarrow> ((r, snd rw), Some (tree_of e))
      | (r, Panic) \<Rightarrow> ((r, snd rw), None))"

definition DeleteIfIdle ::
    "LabID \<Rightarrow> ('w \<Rightarrow> 'w \<times> error option) \<Rightarrow> Registry \<times> 'w \<Rightarrow> (Registry \<times> 'w) \<times> bool \<times> error option" where
  "DeleteIfIdle i remove rw =
     (case deleteEnter i (fst rw) of
        (r, Fail e) \<Rightarrow> ((r, snd rw), False, Some e)
      | (r, Panic) \<Rightarrow> ((r, snd rw), False, None)
      | (r, Ok None) \<Rightarrow> ((r, snd rw), False, None)
      | (r, Ok (Some a)) \<Rightarrow>
          (case remove (snd rw) of (w, err) \<Rightarrow> ((deleteFinish i a err r, w), err = None, err)))"

section \<open>Workers\<close>

text \<open>
  What the loop's \<open>select\<close> delivers: the end of the context, an instant of one of the two
  tickers, or its channel closed.  The loop that has dealt with every event so far waits, and
  its result is \<open>None\<close>; else the result is its error, if any.
\<close>

datatype worker_event = ContextDone | TickDue "time option" | CleanupDue "time option"

text \<open>The callback of a deletion; a panic of the driver is not modelled further.\<close>

definition deleteExpired :: "Driver \<Rightarrow> LabID \<Rightarrow> time \<Rightarrow> Database \<Rightarrow> Database \<times> error option" where
  "deleteExpired dr lab now db =
     (case DeleteExpiredLab dr db lab now of (db, Fail e) \<Rightarrow> (db, Some e) | (db, _) \<Rightarrow> (db, None))"

fun cleanupLabs ::
    "Driver \<Rightarrow> time \<Rightarrow> LabID list \<Rightarrow> Registry \<times> Database \<Rightarrow> (Registry \<times> Database) \<times> error option" where
  "cleanupLabs dr now [] rw = (rw, None)"
| "cleanupLabs dr now (lab # labs) rw =
     (case DeleteIfIdle lab (deleteExpired dr lab now) rw of
        (rw, _, Some e) \<Rightarrow> (rw, Some e)
      | (rw, _, None) \<Rightarrow> cleanupLabs dr now labs rw)"

fun runWorkers ::
    "Driver \<Rightarrow> (nat \<Rightarrow> Database \<Rightarrow> Database \<times> service_error option) \<Rightarrow> (Registry \<Rightarrow> LabID list) \<Rightarrow> worker_event list \<Rightarrow>
     Registry \<times> Database \<Rightarrow> (Registry \<times> Database) \<times> service_error option option" where
  "runWorkers dr tickRuntime order [] rw = (rw, None)"
| "runWorkers dr tickRuntime order (ContextDone # events) rw = (rw, Some None)"
| "runWorkers dr tickRuntime order (TickDue None # events) rw = (rw, Some None)"
| "runWorkers dr tickRuntime order (TickDue (Some _) # events) rw =
     (case TickAll tickRuntime (order (fst rw)) rw of
        (rw, Some e) \<Rightarrow> (rw, Some (Some e))
      | (rw, None) \<Rightarrow> runWorkers dr tickRuntime order events rw)"
| "runWorkers dr tickRuntime order (CleanupDue None # events) rw = (rw, Some None)"
| "runWorkers dr tickRuntime order (CleanupDue (Some now) # events) rw =
     (case ExpiredLabs dr (snd rw) now of
        Fail e \<Rightarrow> (rw, Some (Some (tree_of e)))
      | Panic \<Rightarrow> (rw, Some None)
      | Ok labs \<Rightarrow>
          (case cleanupLabs dr now labs rw of
             (rw, Some e) \<Rightarrow> (rw, Some (Some (tree_of e)))
           | (rw, None) \<Rightarrow> runWorkers dr tickRuntime order events rw))"

section \<open>The process\<close>

record serverConfig =
  sc_databasePath :: string
  sc_address :: string
  sc_webRoot :: string
  sc_cookieSecure :: bool
  sc_configError :: "string option"

definition serverConfigFromEnv :: "(string \<Rightarrow> string) \<Rightarrow> serverConfig" where
  "serverConfigFromEnv getenv =
     (let secure = CookieSecure (getenv ''OMENPATH_COOKIE_SECURE'') (getenv ''OMENPATH_ENV'' = ''production'');
          path = getenv ''OMENPATH_DB_PATH''; addr = getenv ''OMENPATH_ADDR'' in
      \<lparr>sc_databasePath = (if path \<noteq> [] then path else ''./omenpath.db''),
       sc_address = (if addr \<noteq> [] then addr else '':8080''),
       sc_webRoot = getenv ''OMENPATH_WEB_ROOT'',
       sc_cookieSecure = (case secure of Ok b \<Rightarrow> b | _ \<Rightarrow> False),
       sc_configError = (case secure of Fail e \<Rightarrow> Some e | _ \<Rightarrow> None)\<rparr>)"

text \<open>What the process does to its resources, in order.\<close>

datatype act =
    OpenStore | CloseStore | MigrateStore | CreateRegistry | CloseRegistry
  | Serve | RunWorkers | ShutdownServer | CloseServer | AwaitServer | CancelWorkers | AwaitWorkers

datatype first_end = ParentDone | ServerEnded | WorkersEnded

text \<open>
  \<open>runServices\<close>: which of the three ends first, and what \<open>ListenAndServe\<close>, the workers,
  \<open>Shutdown\<close>, the server's \<open>Close\<close> and the store's \<open>Close\<close> return.
\<close>

definition runServices ::
    "first_end \<Rightarrow> service_error option \<Rightarrow> service_error option \<Rightarrow> service_error option \<Rightarrow> service_error option \<Rightarrow>
     service_error option \<Rightarrow> act list \<times> service_error option" where
  "runServices ended serverErr managerErr shutdown closed_server storeErr =
     (let shutdownErr = (if shutdown \<noteq> None then joinErrors [shutdown, closed_server] else None) in
      ([Serve, RunWorkers] @
       (if ended = ServerEnded then [AwaitServer] else if ended = WorkersEnded then [AwaitWorkers] else []) @
       [ShutdownServer] @ (if shutdown \<noteq> None then [CloseServer] else []) @
       (if ended \<noteq> ServerEnded then [AwaitServer] else []) @ [CancelWorkers] @
       (if ended \<noteq> WorkersEnded then [AwaitWorkers] else []) @ [CloseRegistry, CloseStore],
       joinErrors [Option.bind serverErr unexpectedServiceError, Option.bind managerErr unexpectedServiceError, shutdownErr, storeErr]))"

text \<open>\<open>closeOnce\<close> of the registry: only the first call of its \<open>Close\<close> does anything.\<close>

fun closeOnce :: "act list \<Rightarrow> act list" where
  "closeOnce [] = []"
| "closeOnce (a # acts) = a # (if a = CloseRegistry then filter (\<lambda>x. x \<noteq> CloseRegistry) acts else closeOnce acts)"

text \<open>
  \<open>run\<close>, with the errors of its steps: opening and migrating the store, the session service,
  the router, and the handler of the pages; the deferred calls run in the reverse order.  The
  registry is closed by the services, and by the deferred call after them.
\<close>

definition run ::
    "serverConfig \<Rightarrow> service_error option \<Rightarrow> service_error option \<Rightarrow> service_error option \<Rightarrow> service_error option \<Rightarrow>
     service_error option \<Rightarrow> act list \<times> service_error option \<Rightarrow> act list \<times> service_error option" where
  "run cfg openErr migrateErr sessionErr routerErr pagesErr services =
     (if sc_configError cfg \<noteq> None then ([], map_option (\<lambda>e. Plain (Errorf e)) (sc_configError cfg))
      else if openErr \<noteq> None then ([OpenStore], openErr)
      else if migrateErr \<noteq> None then ([OpenStore, MigrateStore, CloseStore], migrateErr)
      else let opened = [OpenStore, MigrateStore, CreateRegistry] in
        if sessionErr \<noteq> None then (opened @ [CloseRegistry, CloseStore], sessionErr)
        else if routerErr \<noteq> None then (opened @ [CloseRegistry, CloseStore], routerErr)
        else if sc_webRoot cfg \<noteq> [] \<and> pagesErr \<noteq> None then (opened @ [CloseRegistry, CloseStore], pagesErr)
        else (closeOnce (opened @ fst services @ [CloseRegistry]), snd services))"

end
