(* ===== verification/ServerProperties.thy ===== *)
theory ServerProperties
  imports Server SessionProperties
begin

text \<open>
  What the process promises: errors that are not part of an orderly end are reported, the
  resources are closed in their order on every way out, and the workers delete the laboratories
  that have expired and are not in use, and no other.
\<close>

section \<open>Errors\<close>

fun leaves :: "service_error \<Rightarrow> service_error list" where
  "leaves (Joined es) = concat (map leaves es)"
| "leaves (Wrapping msg e) = leaves e"
| "leaves e = [e]"

definition leaves_of :: "service_error option \<Rightarrow> service_error list" where
  "leaves_of err = (case err of None \<Rightarrow> [] | Some e \<Rightarrow> leaves e)"

lemma leaves_of_simps [simp]: "leaves_of None = []" "leaves_of (Some e) = leaves e"
  by (simp_all add: leaves_of_def)

lemma leaves_filter: "concat (map leaves (List.map_filter id errs)) = concat (map leaves_of errs)"
  by (induction errs) (auto simp: List.map_filter_simps split: option.splits)

lemma leaves_join: "leaves_of (joinErrors errs) = concat (map leaves_of errs)"
  using leaves_filter [of errs] by (auto simp: joinErrors_def split: list.splits)

lemma no_orderly_leaf: "\<not> isOrderly e \<Longrightarrow> filter (\<lambda>l. \<not> isOrderly l) (leaves e) = leaves e"
  by (induction e rule: leaves.induct) (auto simp: filter_concat filter_id_conv intro!: arg_cong [where f = concat])

lemma leaves_unexpected: "leaves_of (unexpectedServiceError e) = filter (\<lambda>l. \<not> isOrderly l) (leaves e)"
proof (induction e rule: unexpectedServiceError.induct)
  case (1 es)
  have "map (leaves_of \<circ> unexpectedServiceError) es = map (\<lambda>e. filter (\<lambda>l. \<not> isOrderly l) (leaves e)) es"
    by (rule map_cong [OF refl]) (simp add: 1)
  then have "concat (map leaves (List.map_filter id (map unexpectedServiceError es))) = filter (\<lambda>l. \<not> isOrderly l) (concat (map leaves es))"
    unfolding leaves_filter map_map filter_concat by (simp add: comp_def cong: map_cong)
  then show ?case by (auto split: list.splits)
next
  case (2 msg e)
  then show ?case using no_orderly_leaf [of e] by (cases "isOrderly e") auto
qed auto

section \<open>Order\<close>

text \<open>The first error of some steps, none of which is taken after one that failed.\<close>

fun firstError :: "service_error option list \<Rightarrow> service_error option" where
  "firstError [] = None"
| "firstError (Some e # errs) = Some e"
| "firstError (None # errs) = firstError errs"

text \<open>
  C31: on every way out of the process the store is closed if it was opened, once and as the
  last act, and the registry if it was created, once and before the store; when the services
  ran, the server had been shut down and awaited, and then the workers canceled and awaited,
  before that.  They run when every step of the start succeeded; otherwise the error of the
  first step that failed is returned, whatever it is.  Of the services the error returned has
  exactly the causes that are not part of an orderly end, and the errors of the shutdown itself.
\<close>

theorem process_ends_cleanly:
  assumes "services = runServices ended serverErr managerErr shutdown closed_server storeErr"
    and "run cfg openErr migrateErr sessionErr routerErr pagesErr services = (acts, result)"
  shows "(let start = [map_option (\<lambda>e. Plain (Errorf e)) (sc_configError cfg), openErr, migrateErr, sessionErr, routerErr,
              if sc_webRoot cfg = [] then None else pagesErr] in
    filter (\<lambda>x. x \<in> {OpenStore, CreateRegistry, CloseRegistry, CloseStore}) acts =
      (if sc_configError cfg \<noteq> None then [] else if openErr \<noteq> None then [OpenStore]
       else if migrateErr \<noteq> None then [OpenStore, CloseStore] else [OpenStore, CreateRegistry, CloseRegistry, CloseStore]) \<and>
    (CloseStore \<in> set acts \<longrightarrow> last acts = CloseStore) \<and>
    (Serve \<in> set acts \<longleftrightarrow> firstError start = None) \<and>
    (if firstError start \<noteq> None then result = firstError start
     else filter (\<lambda>x. x \<in> {ShutdownServer, CancelWorkers, CloseRegistry, CloseStore}) acts =
        [ShutdownServer, CancelWorkers, CloseRegistry, CloseStore] \<and>
      AwaitServer \<in> set (takeWhile (\<lambda>x. x \<noteq> CancelWorkers) acts) \<and> AwaitWorkers \<in> set (takeWhile (\<lambda>x. x \<noteq> CloseRegistry) acts) \<and>
      leaves_of result = filter (\<lambda>l. \<not> isOrderly l) (leaves_of serverErr @ leaves_of managerErr) @
        leaves_of shutdown @ (if shutdown = None then [] else leaves_of closed_server) @ leaves_of storeErr))"
proof -
  have leaves: "leaves_of (Option.bind err unexpectedServiceError) = filter (\<lambda>l. \<not> isOrderly l) (leaves_of err)" for err
    by (cases err) (simp_all add: leaves_unexpected)
  show ?thesis
  proof (cases "sc_configError cfg = None \<and> openErr = None \<and> migrateErr = None \<and> sessionErr = None \<and> routerErr = None \<and>
      (sc_webRoot cfg = [] \<or> pagesErr = None)")
    case True
    then have "acts = closeOnce ([OpenStore, MigrateStore, CreateRegistry] @ fst services @ [CloseRegistry])" "result = snd services"
      using assms(2) by (auto simp: run_def Let_def)
    then show ?thesis
      using True by (cases ended; cases shutdown) (auto simp: assms(1) runServices_def Let_def leaves_join leaves)
  next
    case False
    then show ?thesis
      using assms(2) by (cases "sc_configError cfg"; cases openErr; cases migrateErr; cases sessionErr; cases routerErr; cases pagesErr)
        (auto simp: run_def Let_def split: if_splits)
  qed
qed

text \<open>A server that has lost its listener while its shutdown is orderly: the one cause is reported.\<close>

theorem process_ends_cleanly_witness:
  "\<exists>acts result. run \<lparr>sc_databasePath = [], sc_address = [], sc_webRoot = [], sc_cookieSecure = False, sc_configError = None\<rparr>
      None None None None None
      (runServices WorkersEnded (Some ErrServerClosed)
        (Some (Joined [Wrapping ''tick'' (Plain ErrContextCanceled), Plain ErrSimulationInvariant])) None None None) = (acts, result) \<and>
    filter (\<lambda>x. x \<in> {OpenStore, CreateRegistry, CloseRegistry, CloseStore}) acts = [OpenStore, CreateRegistry, CloseRegistry, CloseStore] \<and>
    leaves_of result = [Plain ErrSimulationInvariant]"
proof -
  obtain acts result where r: "run \<lparr>sc_databasePath = [], sc_address = [], sc_webRoot = [], sc_cookieSecure = False, sc_configError = None\<rparr>
      None None None None None
      (runServices WorkersEnded (Some ErrServerClosed)
        (Some (Joined [Wrapping ''tick'' (Plain ErrContextCanceled), Plain ErrSimulationInvariant])) None None None) = (acts, result)"
    by (metis surj_pair)
  with process_ends_cleanly [OF refl r] show ?thesis by (simp add: Let_def)
qed

section \<open>Cleanup\<close>

text \<open>A laboratory nobody uses: no lease, no load and no deletion.\<close>

definition idle :: "Registry \<Rightarrow> LabID \<Rightarrow> bool" where
  "idle r i \<longleftrightarrow> (case rg_entries r i of None \<Rightarrow> True | Some a \<Rightarrow> rt_refs (rg_heap r a) \<le> 0 \<and> \<not> rt_busy (rg_heap r a))"

definition allocated :: "Registry \<Rightarrow> bool" where
  "allocated r \<longleftrightarrow> (\<forall>i a. rg_entries r i = Some a \<longrightarrow> a < rg_next r)"

lemma update_entry_simps [simp]:
  "rg_entries (update_entry a f r) = rg_entries r" "rg_next (update_entry a f r) = rg_next r"
  "rg_closed (update_entry a f r) = rg_closed r"
  "rg_heap (update_entry a f r) b = (if b = a then f (rg_heap r a) else rg_heap r b)"
  by (simp_all add: update_entry_def)

lemma publishEntry_simps [simp]:
  "rg_entries (publishEntry i r) = (rg_entries r)(i \<mapsto> rg_next r)" "rg_next (publishEntry i r) = rg_next r + 1"
  "rg_closed (publishEntry i r) = rg_closed r"
  "rg_heap (publishEntry i r) b = (if b = rg_next r then newEntry\<lparr>rt_busy := True\<rparr> else rg_heap r b)"
  by (simp_all add: publishEntry_def)

text \<open>A deletion whose callback succeeds; it leaves the registry as it was but for the entry.\<close>

lemma DeleteIfIdle_runs:
  assumes "LabID_valid i" and "\<not> rg_closed r" and "allocated r" and "remove w = (w', None)"
  obtains r' where "DeleteIfIdle i remove (r, w) = ((r', if idle r i then w' else w), idle r i, None)"
    and "\<And>j. idle r' j = idle r j" and "\<not> rg_closed r'" and "allocated r'"
proof (cases "rg_entries r i")
  case None
  let ?r' = "deleteFinish i (rg_next r) None ((publishEntry i r)\<lparr>rg_operations := rg_operations r + 1\<rparr>)"
  have "DeleteIfIdle i remove (r, w) = ((?r', w'), True, None)" "idle r i"
    using assms None by (simp_all add: DeleteIfIdle_def deleteEnter_def idle_def)
  moreover have "idle ?r' j = idle r j" for j
    using None assms(3) by (auto simp: idle_def deleteFinish_def allocated_def Let_def split: option.splits)
  moreover have "\<not> rg_closed ?r'" "allocated ?r'"
    using assms(2,3) by (auto simp: deleteFinish_def allocated_def Let_def less_Suc_eq)
  ultimately show thesis by (intro that [of ?r']) simp_all
next
  case (Some a)
  show thesis
  proof (cases "idle r i")
    case True
    then have free: "\<not> rt_refs (rg_heap r a) > 0" "\<not> rt_busy (rg_heap r a)" using Some by (simp_all add: idle_def)
    let ?r' = "deleteFinish i a None ((update_entry a (\<lambda>e. e\<lparr>rt_busy := True\<rparr>) r)\<lparr>rg_operations := rg_operations r + 1\<rparr>)"
    have "DeleteIfIdle i remove (r, w) = ((?r', w'), True, None)"
      using assms Some free by (simp add: DeleteIfIdle_def deleteEnter_def)
    moreover have "idle ?r' j = idle r j" for j
      using Some free by (auto simp: idle_def deleteFinish_def Let_def split: option.splits)
    ultimately show thesis
      using True assms(2,3) by (intro that [of ?r']) (auto simp: deleteFinish_def allocated_def Let_def)
  next
    case False
    then show thesis
      using assms Some by (intro that [of r]) (auto simp: DeleteIfIdle_def deleteEnter_def idle_def)
  qed
qed

definition remaining :: "Registry \<Rightarrow> time \<Rightarrow> LabID set \<Rightarrow> Database \<Rightarrow> (LabID \<times> int \<times> int \<times> int) list" where
  "remaining r now ids db = filter (\<lambda>(l, _, expiry, _). \<not> (l \<in> ids \<and> expiry \<le> UnixNano now \<and> idle r l)) (db_labs db)"

lemma deleteExpired_Ok:
  assumes "dr_fault dr = (\<lambda>_ _. None)" and "LabID_valid i"
  shows "deleteExpired dr i now db = (if list_ex (\<lambda>(l, _, expiry, _). l = i \<and> expiry \<le> UnixNano now) (db_labs db) then deleteLab i db else db, None)"
  using assms by (simp add: deleteExpired_def DeleteExpiredLab_def statement_def Let_def)

lemma cleanupLabs_effect:
  assumes "dr_fault dr = (\<lambda>_ _. None)" and "\<forall>i\<in>set ids. LabID_valid i" and "\<not> rg_closed r" and "allocated r"
    and "distinct (map fst (db_labs db))"
  shows "\<exists>r' db'. cleanupLabs dr now ids (r, db) = ((r', db'), None) \<and> db_labs db' = remaining r now (set ids) db \<and>
    (\<forall>j. idle r' j = idle r j) \<and> \<not> rg_closed r' \<and> allocated r'"
  using assms(2-)
proof (induction ids arbitrary: r db)
  case Nil
  then show ?case by (simp add: remaining_def)
next
  case (Cons i ids)
  let ?w = "if list_ex (\<lambda>(l, _, expiry, _). l = i \<and> expiry \<le> UnixNano now) (db_labs db) then deleteLab i db else db"
  have "LabID_valid i" using Cons.prems(1) by simp
  then obtain r1 where d: "DeleteIfIdle i (deleteExpired dr i now) (r, db) = ((r1, if idle r i then ?w else db), idle r i, None)"
    and r1: "\<And>j. idle r1 j = idle r j" "\<not> rg_closed r1" "allocated r1"
    using DeleteIfIdle_runs [where remove = "deleteExpired dr i now" and w = db,
      OF _ Cons.prems(2,3) deleteExpired_Ok [OF assms(1)], of i] by blast
  let ?db = "if idle r i then ?w else db"
  have one: "db_labs ?db = remaining r now {i} db"
  proof (cases "idle r i \<and> list_ex (\<lambda>(l, _, expiry, _). l = i \<and> expiry \<le> UnixNano now) (db_labs db)")
    case True
    then obtain c e s where "(i, c, e, s) \<in> set (db_labs db)" "e \<le> UnixNano now" by (auto simp: list_ex_iff)
    then have "\<And>c' e' s'. (i, c', e', s') \<in> set (db_labs db) \<Longrightarrow> e' \<le> UnixNano now"
      using Cons.prems(4) by (metis eq_key_imp_eq_value prod.inject)
    then show ?thesis using True by (auto simp: remaining_def deleteLab_def intro!: filter_cong)
  next
    case False
    then have "\<forall>x\<in>set (db_labs db). case x of (l, _, e, _) \<Rightarrow> \<not> (l = i \<and> e \<le> UnixNano now \<and> idle r i)"
      by (auto simp: list_ex_iff)
    then have "remaining r now {i} db = db_labs db" unfolding remaining_def by (intro filter_True) auto
    then show ?thesis using False by auto
  qed
  have "distinct (map fst (db_labs ?db))" unfolding one remaining_def using Cons.prems(4) by (rule distinct_map_filter)
  with Cons.IH [of r1 ?db] r1 Cons.prems(1) obtain r' db' where rest: "cleanupLabs dr now ids (r1, ?db) = ((r', db'), None)"
    "db_labs db' = remaining r1 now (set ids) ?db" "\<And>j. idle r' j = idle r1 j" "\<not> rg_closed r'" "allocated r'" by auto
  have "remaining r1 now (set ids) ?db = remaining r now (set (i # ids)) db"
    unfolding remaining_def one [unfolded remaining_def] filter_filter r1(1) by (rule filter_cong) auto
  then show ?case using d rest r1(1) by simp
qed

text \<open>
  C30: a round of the cleanup deletes exactly the laboratories that have expired and that nobody
  uses.  With an open registry, a driver without faults and IDs of the right form, the rows
  that are left are the ones that have not expired or whose laboratory is leased, being loaded
  or being deleted; the workers go on, and every laboratory is used as much as before.
\<close>

theorem cleanup_round_exact:
  assumes "dr_fault dr = (\<lambda>_ _. None)" and "\<forall>l\<in>fst ` set (db_labs db). LabID_valid l"
    and "distinct (map fst (db_labs db))" and "\<not> rg_closed r" and "allocated r"
  shows "\<exists>r' db'. runWorkers dr tickRuntime order [CleanupDue (Some now)] (r, db) = ((r', db'), None) \<and>
    db_labs db' = filter (\<lambda>(l, _, expiry, _). \<not> (expiry \<le> UnixNano now \<and> idle r l)) (db_labs db) \<and>
    (\<forall>l. idle r' l = idle r l)"
proof -
  obtain ids where ids: "ExpiredLabs dr db now = Ok ids" "set ids = fst ` set (filter (\<lambda>(_, _, e, _). e \<le> UnixNano now) (db_labs db))"
    using ExpiredLabs_faultless [OF assms(1)] by simp
  then have "\<forall>i\<in>set ids. LabID_valid i" using assms(2) by auto
  from cleanupLabs_effect [OF assms(1) this assms(4,5,3), of now]
  obtain r' db' where c: "cleanupLabs dr now ids (r, db) = ((r', db'), None)" "db_labs db' = remaining r now (set ids) db"
    "\<forall>j. idle r' j = idle r j" by blast
  have "remaining r now (set ids) db = filter (\<lambda>(l, _, expiry, _). \<not> (expiry \<le> UnixNano now \<and> idle r l)) (db_labs db)"
    unfolding remaining_def ids(2) by (rule filter_cong) force+
  then show ?thesis using c ids(1) by simp
qed

text \<open>The laboratory of a session that was never renewed, a month later.\<close>

theorem cleanup_round_exact_witness:
  "\<exists>r' db'. runWorkers reader (\<lambda>_ db. (db, None)) (\<lambda>_. []) [CleanupDue (Some (Add boot_time (31 * 24 * 3600 * Second)))]
      (NewRegistry, session_db) = ((r', db'), None) \<and> db_labs db' = []"
proof -
  have valid: "\<forall>l\<in>fst ` set (db_labs session_db). LabID_valid l" using sample_facts(5) by (simp add: session_db_facts)
  have registry: "\<not> rg_closed NewRegistry" "allocated NewRegistry" "\<And>l. idle NewRegistry l"
    by (simp_all add: NewRegistry_def allocated_def idle_def)
  have "UnixNano (Add boot_time (SessionTTL Default)) \<le> UnixNano (Add boot_time (31 * 24 * 3600 * Second))"
    by (simp add: UnixNano_def boot_time_def Default_def wrap64_id int64_range_def)
  then show ?thesis
    using cleanup_round_exact [OF reader_faultless valid session_db_facts(2) registry(1,2),
        of "\<lambda>_ db. (db, None)" "\<lambda>_. []" "Add boot_time (31 * 24 * 3600 * Second)"] registry(3)
    by (auto simp: session_db_facts(1))
qed

end
