(* ===== verification/Migrations.thy ===== *)
theory Migrations
  imports Http
begin

text \<open>
  The migrations of the schema (\<open>internal/persistence/migrations.go\<close>).  The files and the
  effect of a script on the data are parameters; the ledger of the versions is the table
  \<open>schema_migrations\<close>.
\<close>

section \<open>State\<close>

text \<open>\<open>None\<close> while the table of the ledger does not exist.\<close>

record 'd Schema =
  sm_ledger :: "int list option"
  sm_data :: 'd

record MigrationFile =
  mf_name :: string
  mf_dir :: bool
  mf_body :: string

type_synonym 'd script = "string \<Rightarrow> 'd \<Rightarrow> 'd res"

section \<open>Names\<close>

definition HasSuffix :: "string \<Rightarrow> string \<Rightarrow> bool" where
  "HasSuffix s suffix \<longleftrightarrow> length suffix \<le> length s \<and> drop (length s - length suffix) s = suffix"

text \<open>The part of the name before its first underscore is the version.\<close>

definition migrationVersion :: "string \<Rightarrow> int option" where
  "migrationVersion name =
     (if CHR ''_'' \<notin> set name then None
      else case ParseInt (takeWhile (\<lambda>c. c \<noteq> CHR ''_'') name) of
             None \<Rightarrow> None
           | Some version \<Rightarrow> if version \<le> 0 then None else Some version)"

definition invalidName :: "string \<Rightarrow> error" where
  "invalidName name = Errorf (''invalid migration filename '' @ [CHR 0x22] @ name @ [CHR 0x22])"

section \<open>Migrating\<close>

text \<open>One script and its row of the ledger, in one transaction.\<close>

definition applyMigration :: "Driver \<Rightarrow> 'd script \<Rightarrow> int \<Rightarrow> string \<Rightarrow> 'd Schema \<Rightarrow> 'd Schema \<times> unit res" where
  "applyMigration dr exec version body s =
     (let label = (\<lambda>doing. doing @ '' migration '' @ format_d version); ledger = (case sm_ledger s of Some vs \<Rightarrow> vs | None \<Rightarrow> []) in
      case wrapError (label ''begin'') (statement dr ''begin'' version True ()) of
        Fail e \<Rightarrow> (s, Fail e)
      | Panic \<Rightarrow> (s, Panic)
      | Ok _ \<Rightarrow>
          (case wrapError (label ''apply'') (rbind (exec body (sm_data s)) (\<lambda>d.
                  statement dr ''schema_migrations'' version (version \<notin> set ledger)
                    (s\<lparr>sm_ledger := Some (ledger @ [version]), sm_data := d\<rparr>))) of
             Fail e \<Rightarrow> (s, Fail e)
           | Panic \<Rightarrow> (s, Panic)
           | Ok tx \<Rightarrow>
               (case wrapError (label ''commit'') (statement dr ''commit'' version True ()) of
                  Fail e \<Rightarrow> (s, Fail e)
                | Panic \<Rightarrow> (s, Panic)
                | Ok _ \<Rightarrow> (tx, Ok ()))))"

fun migrateFiles :: "Driver \<Rightarrow> 'd script \<Rightarrow> MigrationFile list \<Rightarrow> 'd Schema \<Rightarrow> 'd Schema \<times> unit res" where
  "migrateFiles dr exec [] s = (s, Ok ())"
| "migrateFiles dr exec (f # files) s =
     (if mf_dir f \<or> \<not> HasSuffix (mf_name f) ''.sql'' then migrateFiles dr exec files s
      else case migrationVersion (mf_name f) of
             None \<Rightarrow> (s, Fail (invalidName (mf_name f)))
           | Some version \<Rightarrow>
               (case wrapError (''check migration '' @ format_d version)
                       (statement dr ''count schema_migrations'' version True (sm_ledger s \<noteq> None \<and> version \<in> set (the (sm_ledger s)))) of
                  Fail e \<Rightarrow> (s, Fail e)
                | Panic \<Rightarrow> (s, Panic)
                | Ok True \<Rightarrow> migrateFiles dr exec files s
                | Ok False \<Rightarrow>
                    (case applyMigration dr exec version (mf_body f) s of
                       (s, Ok _) \<Rightarrow> migrateFiles dr exec files s
                     | (s, Fail e) \<Rightarrow> (s, Fail e)
                     | (s, Panic) \<Rightarrow> (s, Panic))))"

definition Migrate :: "Driver \<Rightarrow> 'd script \<Rightarrow> MigrationFile list \<Rightarrow> 'd Schema \<Rightarrow> 'd Schema \<times> unit res" where
  "Migrate dr exec files s =
     (case wrapError ''create migration ledger'' (statement dr ''create schema_migrations'' 0 True
              (if sm_ledger s = None then s\<lparr>sm_ledger := Some []\<rparr> else s)) of
        Fail e \<Rightarrow> (s, Fail e)
      | Panic \<Rightarrow> (s, Panic)
      | Ok s \<Rightarrow> migrateFiles dr exec (sort_key mf_name files) s)"

section \<open>Every migration once\<close>

text \<open>The scripts of the files: a version with its body.\<close>

definition scripts :: "MigrationFile list \<Rightarrow> (int \<times> string) set" where
  "scripts files = {(v, mf_body f) | v f. f \<in> set files \<and> \<not> mf_dir f \<and> HasSuffix (mf_name f) ''.sql'' \<and> migrationVersion (mf_name f) = Some v}"

text \<open>The data is the outcome of the scripts in the ledger, each once, in the order of the ledger.\<close>

definition ledger_ok :: "'d script \<Rightarrow> 'd \<Rightarrow> MigrationFile list \<Rightarrow> 'd Schema \<Rightarrow> bool" where
  "ledger_ok exec d0 files s \<longleftrightarrow>
     (case sm_ledger s of
        None \<Rightarrow> sm_data s = d0
      | Some vs \<Rightarrow> distinct vs \<and> (\<exists>run. map fst run = vs \<and> set run \<subseteq> scripts files \<and>
          foldM (\<lambda>d (_, body). exec body d) d0 run = Ok (sm_data s)))"

lemma statement_result: "statement dr table i good x = Ok y \<Longrightarrow> good \<and> y = x"
  by (auto simp: statement_def split: option.splits if_splits)

lemma applyMigration_effect:
  assumes "applyMigration dr exec version body s = (s', result)" and "sm_ledger s = Some vs"
  shows "s' = s \<and> result \<noteq> Ok () \<or>
    result = Ok () \<and> version \<notin> set vs \<and> (\<exists>d. exec body (sm_data s) = Ok d \<and> s' = s\<lparr>sm_ledger := Some (vs @ [version]), sm_data := d\<rparr>)"
  using assms
  by (auto simp: applyMigration_def wrapError_def Let_def rbind_eq_Ok dest!: statement_result split: result.splits)

definition is_script :: "MigrationFile \<Rightarrow> bool" where
  "is_script f \<longleftrightarrow> \<not> mf_dir f \<and> HasSuffix (mf_name f) ''.sql''"

lemma migrateFiles_Cons:
  "migrateFiles dr exec (f # files) s =
     (if \<not> is_script f then migrateFiles dr exec files s
      else case migrationVersion (mf_name f) of
             None \<Rightarrow> (s, Fail (invalidName (mf_name f)))
           | Some version \<Rightarrow>
               (case wrapError (''check migration '' @ format_d version)
                       (statement dr ''count schema_migrations'' version True (sm_ledger s \<noteq> None \<and> version \<in> set (the (sm_ledger s)))) of
                  Fail e \<Rightarrow> (s, Fail e)
                | Panic \<Rightarrow> (s, Panic)
                | Ok True \<Rightarrow> migrateFiles dr exec files s
                | Ok False \<Rightarrow>
                    (case applyMigration dr exec version (mf_body f) s of
                       (s, Ok _) \<Rightarrow> migrateFiles dr exec files s
                     | (s, Fail e) \<Rightarrow> (s, Fail e)
                     | (s, Panic) \<Rightarrow> (s, Panic))))"
  by (simp add: is_script_def)

lemma ledger_ok_append:
  assumes "ledger_ok exec d0 files s" and "sm_ledger s = Some vs" and "version \<notin> set vs" and "(version, body) \<in> scripts files"
    and "exec body (sm_data s) = Ok d"
  shows "ledger_ok exec d0 files (s\<lparr>sm_ledger := Some (vs @ [version]), sm_data := d\<rparr>)"
proof -
  obtain run where run: "map fst run = vs" "set run \<subseteq> scripts files" "foldM (\<lambda>d (_, body). exec body d) d0 run = Ok (sm_data s)"
    and "distinct vs" using assms(1,2) by (auto simp: ledger_ok_def)
  then show ?thesis
    using assms(3-) by (auto simp: ledger_ok_def foldM_append intro!: exI [of _ "run @ [(version, body)]"])
qed

text \<open>What a run over some of the files leaves, wherever it stops.\<close>

lemma migrateFiles_effect:
  assumes "migrateFiles dr exec fs s = (s', result)" and "sm_ledger s = Some vs" and "ledger_ok exec d0 files s" and "set fs \<subseteq> set files"
  shows "ledger_ok exec d0 files s' \<and> (\<exists>more. sm_ledger s' = Some (vs @ more)) \<and>
    (result = Ok () \<longrightarrow> (\<forall>f\<in>set fs. is_script f \<longrightarrow> (\<exists>v. migrationVersion (mf_name f) = Some v \<and> v \<in> set (the (sm_ledger s')))))"
  using assms
proof (induction fs arbitrary: s vs)
  case Nil
  then show ?case by simp
next
  case (Cons f fs)
  have sub: "set fs \<subseteq> set files" using Cons.prems(4) by simp
  show ?case
  proof (cases "is_script f")
    case False
    then have "migrateFiles dr exec fs s = (s', result)" using Cons.prems(1) by (simp only: migrateFiles_Cons if_True simp_thms)
    from Cons.IH [OF this Cons.prems(2,3) sub] False show ?thesis by simp
  next
    case script: True
    show ?thesis
    proof (cases "migrationVersion (mf_name f)")
      case None
      then show ?thesis using Cons.prems script by (auto simp: migrateFiles_Cons simp del: migrateFiles.simps(2))
    next
      case (Some v)
      note body = Cons.prems(1) [unfolded migrateFiles_Cons]
      show ?thesis
      proof (cases "dr_fault dr ''count schema_migrations'' v")
        case fault: (Some e)
        then show ?thesis using body Cons.prems(2,3) script Some by (auto simp: statement_def wrapError_def)
      next
        case no_fault: None
        show ?thesis
        proof (cases "v \<in> set vs")
          case True
          then have "migrateFiles dr exec fs s = (s', result)"
            using body Cons.prems(2) script Some no_fault by (simp add: statement_def wrapError_def)
          from Cons.IH [OF this Cons.prems(2,3) sub] True Some show ?thesis by auto
        next
          case new: False
          obtain s1 r1 where a: "applyMigration dr exec v (mf_body f) s = (s1, r1)" by (metis surj_pair)
          have out: "(case r1 of Ok _ \<Rightarrow> migrateFiles dr exec fs s1 | Fail e \<Rightarrow> (s1, Fail e) | Panic \<Rightarrow> (s1, Panic)) = (s', result)"
            using body Cons.prems(2) script Some no_fault new a by (simp add: statement_def wrapError_def)
          from applyMigration_effect [OF a Cons.prems(2)] show ?thesis
          proof (elim disjE conjE exE)
            assume "s1 = s" "r1 \<noteq> Ok ()"
            then show ?thesis using out Cons.prems(2,3) by (cases r1) auto
          next
            fix d assume ok: "r1 = Ok ()" "exec (mf_body f) (sm_data s) = Ok d" "s1 = s\<lparr>sm_ledger := Some (vs @ [v]), sm_data := d\<rparr>"
            have "f \<in> set files" using Cons.prems(4) by simp
            then have "(v, mf_body f) \<in> scripts files" using script Some unfolding scripts_def is_script_def by blast
            from ledger_ok_append [OF Cons.prems(3,2) new this ok(2)] have "ledger_ok exec d0 files s1" unfolding ok(3) .
            moreover have "migrateFiles dr exec fs s1 = (s', result)" "sm_ledger s1 = Some (vs @ [v])" using out ok by simp_all
            ultimately have "ledger_ok exec d0 files s' \<and> (\<exists>more. sm_ledger s' = Some ((vs @ [v]) @ more)) \<and>
                (result = Ok () \<longrightarrow> (\<forall>f\<in>set fs. is_script f \<longrightarrow> (\<exists>v. migrationVersion (mf_name f) = Some v \<and> v \<in> set (the (sm_ledger s')))))"
              using Cons.IH sub by blast
            then show ?thesis using Some by auto
          qed
        qed
      qed
    qed
  qed
qed

lemma migrateFiles_done:
  assumes "dr_fault dr = (\<lambda>_ _. None)" and "sm_ledger s = Some vs"
    and "\<forall>f\<in>set fs. is_script f \<longrightarrow> (\<exists>v. migrationVersion (mf_name f) = Some v \<and> v \<in> set vs)"
  shows "migrateFiles dr exec fs s = (s, Ok ())"
  using assms(3)
  by (induction fs) (auto simp: migrateFiles_Cons statement_def wrapError_def assms(1,2) simp del: migrateFiles.simps(2))

text \<open>
  C32: a migration is applied once, and wholly.  Whatever the driver fails at, and however often
  the server starts, the data is what the scripts in the ledger make of the empty database, each
  run once and in the order of the ledger, which only grows; a start that succeeds has all of
  them, and another one changes nothing.
\<close>

theorem migrations_once:
  assumes "ledger_ok exec d0 files s" and "Migrate dr exec files s = (s', result)"
  shows "ledger_ok exec d0 files s' \<and> (\<forall>vs. sm_ledger s = Some vs \<longrightarrow> (\<exists>more. sm_ledger s' = Some (vs @ more))) \<and>
    (result = Ok () \<longrightarrow> fst ` scripts files \<subseteq> set (the (sm_ledger s'))) \<and>
    (result = Ok () \<and> dr_fault dr = (\<lambda>_ _. None) \<longrightarrow> Migrate dr exec files s' = (s', Ok ()))"
proof -
  let ?s = "if sm_ledger s = None then s\<lparr>sm_ledger := Some []\<rparr> else s"
  show ?thesis
  proof (cases "dr_fault dr ''create schema_migrations'' 0")
    case (Some e)
    then show ?thesis using assms by (auto simp: Migrate_def statement_def wrapError_def)
  next
    case None
    then have m: "migrateFiles dr exec (sort_key mf_name files) ?s = (s', result)"
      using assms(2) by (simp add: Migrate_def statement_def wrapError_def del: migrateFiles.simps)
    obtain vs where vs: "sm_ledger ?s = Some vs" "sm_ledger s = None \<or> sm_ledger s = Some vs" by (cases "sm_ledger s") auto
    have "ledger_ok exec d0 files ?s" using assms(1) by (cases "sm_ledger s") (auto simp: ledger_ok_def)
    note e = migrateFiles_effect [OF m vs(1) this, simplified]
    then obtain more where more: "sm_ledger s' = Some (vs @ more)" by blast
    have all: "\<forall>f\<in>set files. is_script f \<longrightarrow> (\<exists>v. migrationVersion (mf_name f) = Some v \<and> v \<in> set (vs @ more))" if "result = Ok ()"
      using e that more by simp
    have "Migrate dr exec files s' = (s', Ok ())" if "result = Ok ()" "dr_fault dr = (\<lambda>_ _. None)"
      using migrateFiles_done [OF that(2) more, of "sort_key mf_name files" exec] all [OF that(1)] more that(2)
      by (simp add: Migrate_def statement_def wrapError_def del: migrateFiles.simps)
    moreover have "fst ` scripts files \<subseteq> set (vs @ more)" if "result = Ok ()"
      using all [OF that] by (fastforce simp: scripts_def is_script_def)
    ultimately show ?thesis using e more vs(2) by auto
  qed
qed

text \<open>A commit that fails at the second of two migrations.\<close>

definition failing_driver :: Driver where
  "failing_driver = \<lparr>dr_fault = (\<lambda>table i. if table = ''commit'' \<and> i = 2 then Some (Errorf ''disk'') else None),
     dr_constraint = Errorf [], dr_no_rows = Errorf []\<rparr>"

definition two_files :: "MigrationFile list" where
  "two_files = [\<lparr>mf_name = ''002_b.sql'', mf_dir = False, mf_body = ''B''\<rparr>, \<lparr>mf_name = ''001_a.sql'', mf_dir = False, mf_body = ''A''\<rparr>]"

lemma two_files_run:
  "Migrate failing_driver (\<lambda>body d. Ok (d @ [body])) two_files \<lparr>sm_ledger = None, sm_data = []\<rparr> =
    (\<lparr>sm_ledger = Some [1], sm_data = [''A'']\<rparr>, Fail (ErrorfWrap ''commit migration 2'' (Errorf ''disk'')))"
  by code_simp

theorem migrations_once_witness:
  "ledger_ok (\<lambda>body d. Ok (d @ [body])) [] two_files \<lparr>sm_ledger = Some [1], sm_data = [''A'']\<rparr>"
  using migrations_once [OF _ two_files_run, of "[]"] by (simp add: ledger_ok_def)

end
