(* ===== verification/Ownership.thy ===== *)
theory Ownership
  imports Errors
begin

text \<open>
  The lock of a manager (\<open>internal/engine/ownership.go\<close>): a channel of capacity one that holds
  the token while nobody owns the manager, and a wait for it that a context can end.
\<close>

section \<open>The lock\<close>

record contextMutex =
  cm_token :: "unit list"

definition newContextMutex :: contextMutex where
  "newContextMutex = \<lparr>cm_token = [()]\<rparr>"

text \<open>A send on the channel; \<open>None\<close> when it is full and the sender has to wait.\<close>

definition Unlock :: "contextMutex \<Rightarrow> contextMutex option" where
  "Unlock m = (if length (cm_token m) < 1 then Some \<lparr>cm_token = cm_token m @ [()]\<rparr> else None)"

text \<open>A receive; \<open>None\<close> when the channel is empty.\<close>

definition Lock :: "contextMutex \<Rightarrow> contextMutex option" where
  "Lock m = (case cm_token m of [] \<Rightarrow> None | _ # rest \<Rightarrow> Some \<lparr>cm_token = rest\<rparr>)"

text \<open>
  \<open>LockContext\<close> in its three parts: the check of the context before it waits, an end of the
  wait by the context, and a receive of the token, after which the context is checked again.
  The error of the context is an argument, \<open>None\<close> while it is not canceled.
\<close>

definition lockEnter :: "error option \<Rightarrow> unit res" where
  "lockEnter err = (case err of Some e \<Rightarrow> Fail e | None \<Rightarrow> Ok ())"

definition lockDone :: "error option \<Rightarrow> unit res option" where
  "lockDone err = map_option Fail err"

definition lockReceived :: "error option \<Rightarrow> contextMutex \<Rightarrow> (contextMutex \<times> unit res) option" where
  "lockReceived err m =
     (case err of Some e \<Rightarrow> map_option (\<lambda>m. (m, Fail e)) (Unlock m) | None \<Rightarrow> Some (m, Ok ()))"

section \<open>Executions\<close>

text \<open>A goroutine is outside, waits with a context or without, has received the token, owns, or was refused.\<close>

datatype owner = Outside | WaitsContext | Waits | Received | Owns | Refused error

record Owners =
  ow_mutex :: contextMutex
  ow_context :: "nat \<Rightarrow> error option"
  ow_phase :: "nat \<Rightarrow> owner"

definition begin_owners :: Owners where
  "begin_owners = \<lparr>ow_mutex = newContextMutex, ow_context = (\<lambda>_. None), ow_phase = (\<lambda>_. Outside)\<rparr>"

definition phase_of :: "nat \<Rightarrow> owner \<Rightarrow> Owners \<Rightarrow> Owners" where
  "phase_of t phase w = w\<lparr>ow_phase := (ow_phase w)(t := phase)\<rparr>"

inductive owner_step :: "Owners \<Rightarrow> Owners \<Rightarrow> bool" where
  cancel: "ow_context w t = None \<Longrightarrow> owner_step w (w\<lparr>ow_context := (ow_context w)(t \<mapsto> e)\<rparr>)"
| refused: "ow_phase w t = Outside \<Longrightarrow> lockEnter (ow_context w t) = Fail e \<Longrightarrow> owner_step w (phase_of t (Refused e) w)"
| waits_context: "ow_phase w t = Outside \<Longrightarrow> lockEnter (ow_context w t) = Ok () \<Longrightarrow> owner_step w (phase_of t WaitsContext w)"
| gives_up: "ow_phase w t = WaitsContext \<Longrightarrow> lockDone (ow_context w t) = Some (Fail e) \<Longrightarrow> owner_step w (phase_of t (Refused e) w)"
| receives: "ow_phase w t = WaitsContext \<Longrightarrow> Lock (ow_mutex w) = Some m \<Longrightarrow>
    owner_step w (phase_of t Received (w\<lparr>ow_mutex := m\<rparr>))"
| owns: "ow_phase w t = Received \<Longrightarrow> lockReceived (ow_context w t) (ow_mutex w) = Some (m, Ok ()) \<Longrightarrow>
    owner_step w (phase_of t Owns (w\<lparr>ow_mutex := m\<rparr>))"
| gives_back: "ow_phase w t = Received \<Longrightarrow> lockReceived (ow_context w t) (ow_mutex w) = Some (m, Fail e) \<Longrightarrow>
    owner_step w (phase_of t (Refused e) (w\<lparr>ow_mutex := m\<rparr>))"
| waits: "ow_phase w t = Outside \<Longrightarrow> owner_step w (phase_of t Waits w)"
| locks: "ow_phase w t = Waits \<Longrightarrow> Lock (ow_mutex w) = Some m \<Longrightarrow> owner_step w (phase_of t Owns (w\<lparr>ow_mutex := m\<rparr>))"
| unlocks: "ow_phase w t = Owns \<Longrightarrow> Unlock (ow_mutex w) = Some m \<Longrightarrow> owner_step w (phase_of t Outside (w\<lparr>ow_mutex := m\<rparr>))"
| again: "ow_phase w t = Refused e \<Longrightarrow> owner_step w (phase_of t Outside (w\<lparr>ow_context := (ow_context w)(t := None)\<rparr>))"

inductive owner_run :: "Owners \<Rightarrow> bool" where
  start: "owner_run begin_owners"
| more: "owner_run w \<Longrightarrow> owner_step w w' \<Longrightarrow> owner_run w'"

section \<open>Mutual exclusion\<close>

definition has_token :: "owner \<Rightarrow> bool" where
  "has_token phase \<longleftrightarrow> phase = Received \<or> phase = Owns"

lemma has_token_simps [simp]:
  "has_token Received" "has_token Owns" "\<not> has_token Outside" "\<not> has_token WaitsContext" "\<not> has_token Waits"
  "\<not> has_token (Refused e)"
  by (simp_all add: has_token_def)

text \<open>The token is in the channel, or one goroutine has it.\<close>

definition one_token :: "Owners \<Rightarrow> bool" where
  "one_token w \<longleftrightarrow>
     (cm_token (ow_mutex w) = [()] \<and> (\<forall>t. \<not> has_token (ow_phase w t))) \<or>
     (cm_token (ow_mutex w) = [] \<and> (\<exists>t. has_token (ow_phase w t) \<and> (\<forall>u. has_token (ow_phase w u) \<longrightarrow> u = t)))"

lemma lock_facts:
  "Lock m = Some m' \<longleftrightarrow> (\<exists>rest. cm_token m = () # rest \<and> m' = \<lparr>cm_token = rest\<rparr>)"
  "Unlock m = Some m' \<longleftrightarrow> cm_token m = [] \<and> m' = \<lparr>cm_token = [()]\<rparr>"
  "lockReceived err m = Some (m', Ok ()) \<longleftrightarrow> err = None \<and> m' = m"
  "lockReceived err m = Some (m', Fail e) \<longleftrightarrow> err = Some e \<and> Unlock m = Some m'"
  by (auto simp: Lock_def Unlock_def lockReceived_def split: list.splits option.splits)

text \<open>A goroutine that neither gets nor gives the token, one that gets it, and one that gives it.\<close>

lemma token_kept:
  "one_token w \<Longrightarrow> ow_mutex w' = ow_mutex w \<Longrightarrow> (\<And>u. has_token (ow_phase w' u) = has_token (ow_phase w u)) \<Longrightarrow> one_token w'"
  by (simp add: one_token_def)

lemma token_got:
  assumes "one_token w" and "Lock (ow_mutex w) = Some (ow_mutex w')" and "ow_phase w' = (ow_phase w)(t := phase)" and "has_token phase"
  shows "one_token w'"
  using assms by (auto simp: one_token_def lock_facts)

lemma token_given:
  assumes "one_token w" and "Unlock (ow_mutex w) = Some (ow_mutex w')" and "has_token (ow_phase w t)"
    and "ow_phase w' = (ow_phase w)(t := phase)" and "\<not> has_token phase"
  shows "one_token w'"
  using assms by (auto simp: one_token_def lock_facts)

lemma one_token_step: "owner_step w w' \<Longrightarrow> one_token w \<Longrightarrow> one_token w'"
proof (induction rule: owner_step.induct)
  case (receives w t m)
  then show ?case using token_got [of w _ t Received] by (simp add: phase_of_def)
next
  case (owns w t m)
  then show ?case by (intro token_kept [OF owns.prems]) (auto simp: phase_of_def lock_facts)
next
  case (gives_back w t m e)
  then show ?case using token_given [of w _ t "Refused e"] by (simp add: phase_of_def lock_facts(4))
next
  case (locks w t m)
  then show ?case using token_got [of w _ t Owns] by (simp add: phase_of_def)
next
  case (unlocks w t m)
  then show ?case using token_given [of w _ t Outside] by (simp add: phase_of_def)
qed (erule token_kept; simp add: phase_of_def)+

text \<open>
  C29: the lock of a manager excludes and is never lost.  Whoever waits, gives up, is canceled
  at the moment it gets the token, or unlocks, at most one goroutine owns the manager; the
  owner's \<open>Unlock\<close>, and the giving back of a token that came too late, never wait; and while
  nobody has the token it is there to be taken.
\<close>

theorem manager_lock_excludes:
  assumes "owner_run w"
  shows "(\<forall>t u. ow_phase w t = Owns \<and> ow_phase w u = Owns \<longrightarrow> t = u) \<and>
    (\<forall>t. ow_phase w t = Owns \<longrightarrow> Unlock (ow_mutex w) \<noteq> None) \<and>
    (\<forall>t. ow_phase w t = Received \<longrightarrow> lockReceived (ow_context w t) (ow_mutex w) \<noteq> None) \<and>
    ((\<forall>t. ow_phase w t \<noteq> Owns \<and> ow_phase w t \<noteq> Received) \<longrightarrow> Lock (ow_mutex w) \<noteq> None)"
proof -
  have "one_token w"
    using assms
  proof (induction rule: owner_run.induct)
    case start
    then show ?case by (simp add: one_token_def begin_owners_def newContextMutex_def)
  next
    case (more w w')
    then show ?case by (simp add: one_token_step)
  qed
  then consider "cm_token (ow_mutex w) = [()]" "\<And>t. \<not> has_token (ow_phase w t)"
    | t where "cm_token (ow_mutex w) = []" "has_token (ow_phase w t)" "\<And>u. has_token (ow_phase w u) \<Longrightarrow> u = t"
    unfolding one_token_def by blast
  then show ?thesis
  proof cases
    case 1
    then have "ow_phase w t \<noteq> Owns \<and> ow_phase w t \<noteq> Received" for t by (metis has_token_simps(1,2))
    then show ?thesis using 1(1) by (simp add: Lock_def)
  next
    case (2 t)
    have owner: "u = t" if "ow_phase w u = Owns" for u using that 2(3) [of u] by simp
    have "\<exists>u. ow_phase w u = Owns \<or> ow_phase w u = Received" using 2(2) by (auto simp: has_token_def)
    moreover have "Unlock (ow_mutex w) \<noteq> None" using 2(1) by (simp add: Unlock_def)
    moreover have "lockReceived err (ow_mutex w) \<noteq> None" for err using 2(1) by (simp add: Unlock_def lockReceived_def split: option.split)
    ultimately show ?thesis using owner by blast
  qed
qed

text \<open>A goroutine that waits with a context gets the token; it is canceled before it looks, and gives it back.\<close>

theorem manager_lock_excludes_witness:
  "\<exists>w. owner_run w \<and> ow_phase w 7 = Received \<and> ow_context w 7 = Some ErrContextCanceled \<and>
    lockReceived (ow_context w 7) (ow_mutex w) \<noteq> None"
proof -
  let ?w1 = "phase_of 7 WaitsContext begin_owners"
  let ?w2 = "phase_of 7 Received (?w1\<lparr>ow_mutex := \<lparr>cm_token = []\<rparr>\<rparr>)"
  let ?w3 = "?w2\<lparr>ow_context := (ow_context ?w2)(7 \<mapsto> ErrContextCanceled)\<rparr>"
  have 1: "owner_step begin_owners ?w1"
    by (rule owner_step.waits_context) (simp_all add: begin_owners_def lockEnter_def)
  have 2: "owner_step ?w1 ?w2"
    by (rule owner_step.receives) (simp_all add: phase_of_def begin_owners_def newContextMutex_def Lock_def)
  have 3: "owner_step ?w2 ?w3"
    by (rule owner_step.cancel) (simp add: phase_of_def begin_owners_def)
  have run: "owner_run ?w3" by (rule owner_run.more [OF owner_run.more [OF owner_run.more [OF owner_run.start 1] 2] 3])
  have "ow_phase ?w3 7 = Received" "ow_context ?w3 7 = Some ErrContextCanceled" by (simp_all add: phase_of_def)
  with manager_lock_excludes [OF run] run show ?thesis by blast
qed

end
