(* ===== verification/Cloning.thy ===== *)
theory Cloning
  imports Tutorial Events "HOL-Library.Sublist"
begin

text \<open>
  The copies that cross the boundary of the manager (\<open>cloneSnapshot\<close> and its helpers in
  \<open>internal/engine/manager.go\<close>).  Elsewhere in the development values are values; here they are
  what they are in memory, structs with pointers and slices, so that it can be stated that what
  the manager hands out shares nothing with what it keeps.
\<close>

section \<open>Memory\<close>

type_synonym addr = nat

text \<open>
  A slice is nil, or an array with the number of elements the slice shows of it.  The fields of a
  struct that are not pointers or slices are those of the value in \<open>_fields\<close>, whose other fields
  do not count.
\<close>

type_synonym slice = "(addr \<times> nat) option"

record PortalObject =
  po_fields :: Portal
  po_InstabilityCollapseAt :: "addr option"
  po_ExtractionSynchronizedAt :: "addr option"
  po_ClosedAt :: "addr option"

record PlaneObject =
  plo_fields :: Plane
  plo_Aliases :: slice
  plo_ExploredAt :: "addr option"

record ObserverObject =
  oo_fields :: Observer
  oo_CurrentPlaneID :: "addr option"
  oo_ActivePortalID :: "addr option"
  oo_PhaseStartedAt :: "addr option"
  oo_PhaseEndsAt :: "addr option"

record EventObject =
  eo_fields :: Event
  eo_PortalID :: "addr option"
  eo_ObserverID :: "addr option"
  eo_PlaneID :: "addr option"

record DraftObject =
  do_fields :: EventDraft
  do_PortalID :: "addr option"
  do_ObserverID :: "addr option"
  do_PlaneID :: "addr option"

record SnapshotObject =
  so_fields :: Snapshot
  so_LeylineOverrideUntil :: "addr option"
  so_Portals :: slice
  so_Planes :: slice
  so_Observers :: slice
  so_ScheduledAt :: "addr option"
  so_DueAt :: "addr option"
  so_LastTickAt :: "addr option"
  so_TutorialPortalID :: "addr option"
  so_TutorialPlaneID :: "addr option"
  so_TutorialObserverID :: "addr option"

text \<open>What is allocated: a variable of a basic type or an array.  The memory never shrinks.\<close>

datatype cell =
    TimeCell time
  | IntCell int
  | StringsCell "string list"
  | PortalsCell "PortalObject list"
  | PlanesCell "PlaneObject list"
  | ObserversCell "ObserverObject list"
  | EventsCell "EventObject list"
  | DraftsCell "DraftObject list"

type_synonym heap = "cell list"

text \<open>What a cell holds; the types of Go exclude the other cases.\<close>

definition timeOf :: "cell \<Rightarrow> time" where
  "timeOf c = (case c of TimeCell t \<Rightarrow> t | _ \<Rightarrow> Time 0 True)"

definition intOf :: "cell \<Rightarrow> int" where
  "intOf c = (case c of IntCell i \<Rightarrow> i | _ \<Rightarrow> 0)"

definition stringsOf :: "cell \<Rightarrow> string list" where
  "stringsOf c = (case c of StringsCell xs \<Rightarrow> xs | _ \<Rightarrow> [])"

definition portalsOf :: "cell \<Rightarrow> PortalObject list" where
  "portalsOf c = (case c of PortalsCell xs \<Rightarrow> xs | _ \<Rightarrow> [])"

definition planesOf :: "cell \<Rightarrow> PlaneObject list" where
  "planesOf c = (case c of PlanesCell xs \<Rightarrow> xs | _ \<Rightarrow> [])"

definition observersOf :: "cell \<Rightarrow> ObserverObject list" where
  "observersOf c = (case c of ObserversCell xs \<Rightarrow> xs | _ \<Rightarrow> [])"

definition eventsOf :: "cell \<Rightarrow> EventObject list" where
  "eventsOf c = (case c of EventsCell xs \<Rightarrow> xs | _ \<Rightarrow> [])"

definition draftsOf :: "cell \<Rightarrow> DraftObject list" where
  "draftsOf c = (case c of DraftsCell xs \<Rightarrow> xs | _ \<Rightarrow> [])"

section \<open>The clone functions\<close>

definition cloneInt64 :: "addr option \<Rightarrow> heap \<Rightarrow> heap \<times> addr option" where
  "cloneInt64 p h = (case p of None \<Rightarrow> (h, None) | Some a \<Rightarrow> (h @ [IntCell (intOf (h ! a))], Some (length h)))"

definition cloneTime :: "addr option \<Rightarrow> heap \<Rightarrow> heap \<times> addr option" where
  "cloneTime p h = (case p of None \<Rightarrow> (h, None) | Some a \<Rightarrow> (h @ [TimeCell (timeOf (h ! a))], Some (length h)))"

definition clonePortal :: "PortalObject \<Rightarrow> heap \<Rightarrow> heap \<times> PortalObject" where
  "clonePortal portal h =
     (let (h, collapse) = cloneTime (po_InstabilityCollapseAt portal) h;
          (h, synchronized) = cloneTime (po_ExtractionSynchronizedAt portal) h;
          (h, closedAt) = cloneTime (po_ClosedAt portal) h
      in (h, portal\<lparr>po_InstabilityCollapseAt := collapse, po_ExtractionSynchronizedAt := synchronized, po_ClosedAt := closedAt\<rparr>))"

definition cloneObserver :: "ObserverObject \<Rightarrow> heap \<Rightarrow> heap \<times> ObserverObject" where
  "cloneObserver observer h =
     (let (h, plane) = cloneInt64 (oo_CurrentPlaneID observer) h;
          (h, portal) = cloneInt64 (oo_ActivePortalID observer) h;
          (h, started) = cloneTime (oo_PhaseStartedAt observer) h;
          (h, ends) = cloneTime (oo_PhaseEndsAt observer) h
      in (h, observer\<lparr>oo_CurrentPlaneID := plane, oo_ActivePortalID := portal,
            oo_PhaseStartedAt := started, oo_PhaseEndsAt := ends\<rparr>))"

text \<open>\<open>make\<close> with the length of the slice, and \<open>copy\<close>; a nil slice stays nil.\<close>

definition copySlice :: "(cell \<Rightarrow> 'o list) \<Rightarrow> ('o list \<Rightarrow> cell) \<Rightarrow> slice \<Rightarrow> heap \<Rightarrow> heap \<times> slice" where
  "copySlice get mk s h =
     (case s of None \<Rightarrow> (h, None) | Some (a, n) \<Rightarrow> (h @ [mk (take n (get (h ! a)))], Some (length h, n)))"

text \<open>
  The loop over the elements of a clone, \<open>clone[i] = ...\<close> from the element of the original; where
  the code assigns the fields of \<open>clone[i]\<close> one by one, \<open>clone[i]\<close> is still the copied element.
\<close>

definition cloneStep ::
  "(cell \<Rightarrow> 'o list) \<Rightarrow> ('o list \<Rightarrow> cell) \<Rightarrow> ('o \<Rightarrow> heap \<Rightarrow> heap \<times> 'o) \<Rightarrow> addr \<Rightarrow> addr \<Rightarrow> nat \<Rightarrow> heap \<Rightarrow> heap" where
  "cloneStep get mk cloneElement a d i h =
     (case cloneElement (get (h ! a) ! i) h of (h, x) \<Rightarrow> h[d := mk ((get (h ! d))[i := x])])"

definition cloneElements ::
  "(cell \<Rightarrow> 'o list) \<Rightarrow> ('o list \<Rightarrow> cell) \<Rightarrow> ('o \<Rightarrow> heap \<Rightarrow> heap \<times> 'o) \<Rightarrow> slice \<Rightarrow> slice \<Rightarrow> heap \<Rightarrow> heap" where
  "cloneElements get mk cloneElement original clone h =
     (case (original, clone) of
        (Some (a, _), Some (d, n)) \<Rightarrow> fold (cloneStep get mk cloneElement a d) [0..<n] h
      | _ \<Rightarrow> h)"

definition clonePlane :: "PlaneObject \<Rightarrow> heap \<Rightarrow> heap \<times> PlaneObject" where
  "clonePlane plane h =
     (let (h, aliases) = copySlice stringsOf StringsCell (plo_Aliases plane) h;
          (h, explored) = cloneTime (plo_ExploredAt plane) h
      in (h, plane\<lparr>plo_Aliases := aliases, plo_ExploredAt := explored\<rparr>))"

definition cloneEvent :: "EventObject \<Rightarrow> heap \<Rightarrow> heap \<times> EventObject" where
  "cloneEvent event h =
     (let (h, portal) = cloneInt64 (eo_PortalID event) h;
          (h, observer) = cloneInt64 (eo_ObserverID event) h;
          (h, plane) = cloneInt64 (eo_PlaneID event) h
      in (h, event\<lparr>eo_PortalID := portal, eo_ObserverID := observer, eo_PlaneID := plane\<rparr>))"

definition cloneDraft :: "DraftObject \<Rightarrow> heap \<Rightarrow> heap \<times> DraftObject" where
  "cloneDraft draft h =
     (let (h, portal) = cloneInt64 (do_PortalID draft) h;
          (h, observer) = cloneInt64 (do_ObserverID draft) h;
          (h, plane) = cloneInt64 (do_PlaneID draft) h
      in (h, draft\<lparr>do_PortalID := portal, do_ObserverID := observer, do_PlaneID := plane\<rparr>))"

definition cloneEvents :: "slice \<Rightarrow> heap \<Rightarrow> heap \<times> slice" where
  "cloneEvents events h =
     (case copySlice eventsOf EventsCell events h of (h, clone) \<Rightarrow>
        (cloneElements eventsOf EventsCell cloneEvent events clone h, clone))"

definition cloneDrafts :: "slice \<Rightarrow> heap \<Rightarrow> heap \<times> slice" where
  "cloneDrafts drafts h =
     (case copySlice draftsOf DraftsCell drafts h of (h, clone) \<Rightarrow>
        (cloneElements draftsOf DraftsCell cloneDraft drafts clone h, clone))"

definition cloneSnapshot :: "SnapshotObject \<Rightarrow> heap \<Rightarrow> heap \<times> SnapshotObject" where
  "cloneSnapshot snapshot h =
     (let (h, portals) = copySlice portalsOf PortalsCell (so_Portals snapshot) h;
          (h, planes) = copySlice planesOf PlanesCell (so_Planes snapshot) h;
          (h, observers) = copySlice observersOf ObserversCell (so_Observers snapshot) h;
          (h, leyline) = cloneTime (so_LeylineOverrideUntil snapshot) h;
          (h, scheduled) = cloneTime (so_ScheduledAt snapshot) h;
          (h, due) = cloneTime (so_DueAt snapshot) h;
          (h, lastTick) = cloneTime (so_LastTickAt snapshot) h;
          (h, portalID) = cloneInt64 (so_TutorialPortalID snapshot) h;
          (h, planeID) = cloneInt64 (so_TutorialPlaneID snapshot) h;
          (h, observerID) = cloneInt64 (so_TutorialObserverID snapshot) h;
          h = cloneElements planesOf PlanesCell clonePlane (so_Planes snapshot) planes h;
          h = cloneElements portalsOf PortalsCell clonePortal (so_Portals snapshot) portals h;
          h = cloneElements observersOf ObserversCell cloneObserver (so_Observers snapshot) observers h
      in (h, snapshot\<lparr>so_Portals := portals, so_Planes := planes, so_Observers := observers,
            so_LeylineOverrideUntil := leyline, so_ScheduledAt := scheduled, so_DueAt := due,
            so_LastTickAt := lastTick, so_TutorialPortalID := portalID,
            so_TutorialPlaneID := planeID, so_TutorialObserverID := observerID\<rparr>))"

section \<open>The values that are read from memory\<close>

definition elements :: "(cell \<Rightarrow> 'o list) \<Rightarrow> heap \<Rightarrow> slice \<Rightarrow> 'o list" where
  "elements get h s = (case s of None \<Rightarrow> [] | Some (a, n) \<Rightarrow> take n (get (h ! a)))"

definition timeAt :: "heap \<Rightarrow> addr option \<Rightarrow> time option" where
  "timeAt h p = map_option (\<lambda>a. timeOf (h ! a)) p"

definition intAt :: "heap \<Rightarrow> addr option \<Rightarrow> int option" where
  "intAt h p = map_option (\<lambda>a. intOf (h ! a)) p"

definition portalAt :: "heap \<Rightarrow> PortalObject \<Rightarrow> Portal" where
  "portalAt h x = (po_fields x)\<lparr>p_InstabilityCollapseAt := timeAt h (po_InstabilityCollapseAt x),
     p_ExtractionSynchronizedAt := timeAt h (po_ExtractionSynchronizedAt x), p_ClosedAt := timeAt h (po_ClosedAt x)\<rparr>"

definition planeAt :: "heap \<Rightarrow> PlaneObject \<Rightarrow> Plane" where
  "planeAt h x = (plo_fields x)\<lparr>pl_Aliases := elements stringsOf h (plo_Aliases x), pl_ExploredAt := timeAt h (plo_ExploredAt x)\<rparr>"

definition observerAt :: "heap \<Rightarrow> ObserverObject \<Rightarrow> Observer" where
  "observerAt h x = (oo_fields x)\<lparr>o_CurrentPlaneID := intAt h (oo_CurrentPlaneID x), o_ActivePortalID := intAt h (oo_ActivePortalID x),
     o_PhaseStartedAt := timeAt h (oo_PhaseStartedAt x), o_PhaseEndsAt := timeAt h (oo_PhaseEndsAt x)\<rparr>"

definition eventAt :: "heap \<Rightarrow> EventObject \<Rightarrow> Event" where
  "eventAt h x = (eo_fields x)\<lparr>e_PortalID := intAt h (eo_PortalID x), e_ObserverID := intAt h (eo_ObserverID x), e_PlaneID := intAt h (eo_PlaneID x)\<rparr>"

definition draftAt :: "heap \<Rightarrow> DraftObject \<Rightarrow> EventDraft" where
  "draftAt h x = (do_fields x)\<lparr>d_PortalID := intAt h (do_PortalID x), d_ObserverID := intAt h (do_ObserverID x), d_PlaneID := intAt h (do_PlaneID x)\<rparr>"

definition snapshotAt :: "heap \<Rightarrow> SnapshotObject \<Rightarrow> Snapshot" where
  "snapshotAt h x =
     (let sim = sn_Simulation (so_fields x); app = sn_App (so_fields x) in
      \<lparr>sn_Simulation = sim\<lparr>
         s_Lab := (s_Lab sim)\<lparr>l_LeylineOverrideUntil := timeAt h (so_LeylineOverrideUntil x)\<rparr>,
         s_Portals := map (portalAt h) (elements portalsOf h (so_Portals x)),
         s_Planes := map (planeAt h) (elements planesOf h (so_Planes x)),
         s_Observers := map (observerAt h) (elements observersOf h (so_Observers x)),
         s_NaturalSpawn := (s_NaturalSpawn sim)\<lparr>n_ScheduledAt := timeAt h (so_ScheduledAt x), n_DueAt := timeAt h (so_DueAt x)\<rparr>,
         s_LastTickAt := timeAt h (so_LastTickAt x)\<rparr>,
       sn_App = app\<lparr>a_TutorialPortalID := intAt h (so_TutorialPortalID x),
         a_TutorialPlaneID := intAt h (so_TutorialPlaneID x), a_TutorialObserverID := intAt h (so_TutorialObserverID x)\<rparr>\<rparr>)"

text \<open>The addresses that can be reached.\<close>

definition arrayOf :: "slice \<Rightarrow> addr set" where
  "arrayOf s = (case s of None \<Rightarrow> {} | Some (a, n) \<Rightarrow> {a})"

lemma arrayOf_simps [simp]: "arrayOf None = {}" "arrayOf (Some (a, n)) = {a}"
  by (simp_all add: arrayOf_def)

definition portalAddrs :: "PortalObject \<Rightarrow> addr set" where
  "portalAddrs x = set_option (po_InstabilityCollapseAt x) \<union> set_option (po_ExtractionSynchronizedAt x) \<union> set_option (po_ClosedAt x)"

definition planeAddrs :: "PlaneObject \<Rightarrow> addr set" where
  "planeAddrs x = arrayOf (plo_Aliases x) \<union> set_option (plo_ExploredAt x)"

definition observerAddrs :: "ObserverObject \<Rightarrow> addr set" where
  "observerAddrs x = set_option (oo_CurrentPlaneID x) \<union> set_option (oo_ActivePortalID x) \<union>
     set_option (oo_PhaseStartedAt x) \<union> set_option (oo_PhaseEndsAt x)"

definition eventAddrs :: "EventObject \<Rightarrow> addr set" where
  "eventAddrs x = set_option (eo_PortalID x) \<union> set_option (eo_ObserverID x) \<union> set_option (eo_PlaneID x)"

definition draftAddrs :: "DraftObject \<Rightarrow> addr set" where
  "draftAddrs x = set_option (do_PortalID x) \<union> set_option (do_ObserverID x) \<union> set_option (do_PlaneID x)"

definition sliceAddrs :: "(cell \<Rightarrow> 'o list) \<Rightarrow> ('o \<Rightarrow> addr set) \<Rightarrow> heap \<Rightarrow> slice \<Rightarrow> addr set" where
  "sliceAddrs get addrs h s = arrayOf s \<union> (\<Union>x\<in>set (elements get h s). addrs x)"

definition snapshotAddrs :: "heap \<Rightarrow> SnapshotObject \<Rightarrow> addr set" where
  "snapshotAddrs h x =
     sliceAddrs portalsOf portalAddrs h (so_Portals x) \<union> sliceAddrs planesOf planeAddrs h (so_Planes x) \<union>
     sliceAddrs observersOf observerAddrs h (so_Observers x) \<union>
     set_option (so_LeylineOverrideUntil x) \<union> set_option (so_ScheduledAt x) \<union> set_option (so_DueAt x) \<union>
     set_option (so_LastTickAt x) \<union> set_option (so_TutorialPortalID x) \<union> set_option (so_TutorialPlaneID x) \<union>
     set_option (so_TutorialObserverID x)"

text \<open>What holds of everything in a Go program: a slice shows no more than its array has.\<close>

definition sliceOk :: "(cell \<Rightarrow> 'o list) \<Rightarrow> heap \<Rightarrow> slice \<Rightarrow> bool" where
  "sliceOk get h s \<longleftrightarrow> (case s of None \<Rightarrow> True | Some (a, n) \<Rightarrow> n \<le> length (get (h ! a)))"

definition snapshotOk :: "heap \<Rightarrow> SnapshotObject \<Rightarrow> bool" where
  "snapshotOk h x \<longleftrightarrow> snapshotAddrs h x \<subseteq> {..<length h} \<and>
     sliceOk portalsOf h (so_Portals x) \<and> sliceOk planesOf h (so_Planes x) \<and> sliceOk observersOf h (so_Observers x)"

section \<open>Loops over the elements\<close>

lemma prefix_nth: "prefix g h \<Longrightarrow> e < length g \<Longrightarrow> h ! e = g ! e"
  by (auto simp: prefix_def nth_append)

text \<open>In memory \<open>k\<close>, \<open>c\<close> is a slice for the clone of \<open>s\<close>, allocated after \<open>h\<close>.\<close>

definition madeFor :: "(cell \<Rightarrow> 'o list) \<Rightarrow> heap \<Rightarrow> heap \<Rightarrow> slice \<Rightarrow> slice \<Rightarrow> bool" where
  "madeFor get h k s c \<longleftrightarrow> (c = None \<longleftrightarrow> s = None) \<and>
     (\<forall>d n. c = Some (d, n) \<longrightarrow> length h \<le> d \<and> d < length k \<and> length (get (k ! d)) = n \<and> (\<exists>a. s = Some (a, n)))"

lemma madeFor_local:
  "madeFor get h k s c \<Longrightarrow> length k \<le> length g \<Longrightarrow> (\<And>e. e \<in> arrayOf c \<Longrightarrow> g ! e = k ! e) \<Longrightarrow> madeFor get h g s c"
  by (cases c) (auto simp: madeFor_def)

lemma madeFor_array: "madeFor get h k s c \<Longrightarrow> arrayOf c \<subseteq> {length h..<length k}"
  by (cases c) (auto simp: madeFor_def)

text \<open>What a clone function of an element promises, and what follows for a clone of a slice.\<close>

locale detached_copy =
  fixes get :: "cell \<Rightarrow> 'o list"
    and mk :: "'o list \<Rightarrow> cell"
    and cloneElement :: "'o \<Rightarrow> heap \<Rightarrow> heap \<times> 'o"
    and reads :: "heap \<Rightarrow> 'o \<Rightarrow> 'v"
    and addrs :: "'o \<Rightarrow> addr set"
  assumes get_mk: "get (mk xs) = xs"
    and clone_grows: "cloneElement x h = (h', y) \<Longrightarrow> prefix h h'"
    and clone_fresh: "cloneElement x h = (h', y) \<Longrightarrow> addrs y \<subseteq> {length h..<length h'}"
    and clone_reads: "cloneElement x h = (h', y) \<Longrightarrow> addrs x \<subseteq> {..<length h} \<Longrightarrow> reads h' y = reads h x"
    and reads_local: "(\<And>a. a \<in> addrs x \<Longrightarrow> g ! a = h ! a) \<Longrightarrow> reads g x = reads h x"
begin

lemma loop:
  assumes "a < b" and "b \<le> d" and "d < length h" and "m \<le> length (get (h ! a))" and "n \<le> m" and "length (get (h ! d)) = m"
    and "\<And>i. i < m \<Longrightarrow> addrs (get (h ! a) ! i) \<subseteq> {..<b}"
  defines "h' \<equiv> fold (cloneStep get mk cloneElement a d) [0..<n] h"
  shows "length h \<le> length h' \<and> (\<forall>e. e < length h \<and> e \<noteq> d \<longrightarrow> h' ! e = h ! e) \<and> length (get (h' ! d)) = m \<and>
    (\<forall>i<n. reads h' (get (h' ! d) ! i) = reads h (get (h ! a) ! i) \<and> addrs (get (h' ! d) ! i) \<subseteq> {length h..<length h'})"
  using \<open>n \<le> m\<close> unfolding h'_def
proof (induction n)
  case 0
  then show ?case using assms by simp
next
  case (Suc n)
  define g where "g = fold (cloneStep get mk cloneElement a d) [0..<n] h"
  have len: "length h \<le> length g" and same: "\<And>e. e < length h \<Longrightarrow> e \<noteq> d \<Longrightarrow> g ! e = h ! e"
    and arr: "length (get (g ! d)) = m"
    and before: "\<And>i. i < n \<Longrightarrow> reads g (get (g ! d) ! i) = reads h (get (h ! a) ! i) \<and> addrs (get (g ! d) ! i) \<subseteq> {length h..<length g}"
    using Suc by (simp_all add: g_def)
  obtain k y where y: "cloneElement (get (g ! a) ! n) g = (k, y)" by (cases "cloneElement (get (g ! a) ! n) g")
  obtain rest where k: "k = g @ rest" using clone_grows [OF y] by (auto simp: prefix_def)
  define f where "f = k[d := mk ((get (k ! d))[n := y])]"
  have fold: "fold (cloneStep get mk cloneElement a d) [0..<Suc n] h = f" by (simp add: g_def [symmetric] cloneStep_def y f_def)
  have a: "get (g ! a) = get (h ! a)" using assms same [of a] by simp
  have kd: "k ! d = g ! d" using k len \<open>d < length h\<close> by (simp add: nth_append)
  have fd: "get (f ! d) = (get (g ! d))[n := y]" using len \<open>d < length h\<close> unfolding f_def kd by (simp add: k get_mk)
  have flen: "length f = length k" by (simp add: f_def)
  have other: "f ! e = g ! e" if "e < length g" "e \<noteq> d" for e using that by (simp add: f_def k nth_append)
  have src: "addrs (get (h ! a) ! n) \<subseteq> {..<b}" using assms Suc.prems by simp
  have new: "addrs y \<subseteq> {length g..<length k}" by (rule clone_fresh [OF y])
  have "reads f y = reads k y" using new len \<open>d < length h\<close> by (intro reads_local) (auto simp: f_def)
  also have "\<dots> = reads g (get (h ! a) ! n)"
    using clone_reads [OF y] src a len \<open>b \<le> d\<close> \<open>d < length h\<close> by (force simp: subset_iff)
  also have "\<dots> = reads h (get (h ! a) ! n)" using src assms by (intro reads_local same) (auto simp: subset_iff)
  finally have last: "reads f y = reads h (get (h ! a) ! n)" .
  have "reads f (get (f ! d) ! i) = reads h (get (h ! a) ! i) \<and> addrs (get (f ! d) ! i) \<subseteq> {length h..<length f}" if i: "i < Suc n" for i
  proof (cases "i = n")
    case True
    then show ?thesis using last new len arr Suc.prems k by (auto simp: fd flen)
  next
    case False
    then have "i < n" using i by simp
    have eq: "get (f ! d) ! i = get (g ! d) ! i" using False by (simp add: fd)
    have sub: "addrs (get (g ! d) ! i) \<subseteq> {length h..<length g}" using before [OF \<open>i < n\<close>] by simp
    then have "reads f (get (g ! d) ! i) = reads g (get (g ! d) ! i)"
      using \<open>d < length h\<close> by (intro reads_local other) auto
    then show ?thesis using before [OF \<open>i < n\<close>] sub k by (auto simp: eq flen)
  qed
  moreover have "\<forall>e. e < length h \<and> e \<noteq> d \<longrightarrow> f ! e = h ! e" using other same len by simp
  moreover have "length h \<le> length f" using len k flen by simp
  ultimately show ?case unfolding fold by (simp add: fd arr)
qed

lemma slice_local:
  assumes "\<And>e. e \<in> sliceAddrs get addrs h s \<Longrightarrow> g ! e = h ! e"
  shows "elements get g s = elements get h s" and "map (reads g) (elements get g s) = map (reads h) (elements get h s)"
    and "sliceAddrs get addrs g s = sliceAddrs get addrs h s" and "sliceOk get g s = sliceOk get h s"
proof -
  have arr: "g ! a = h ! a" if "s = Some (a, n)" for a n using assms that by (auto simp: sliceAddrs_def)
  then show elems: "elements get g s = elements get h s" and "sliceOk get g s = sliceOk get h s"
    by (auto simp: elements_def sliceOk_def split: option.split)
  then show "sliceAddrs get addrs g s = sliceAddrs get addrs h s" by (simp add: sliceAddrs_def)
  have "reads g x = reads h x" if "x \<in> set (elements get h s)" for x
    using that assms by (intro reads_local) (auto simp: sliceAddrs_def)
  then show "map (reads g) (elements get g s) = map (reads h) (elements get h s)" by (simp add: elems)
qed

lemma cloneElements_detached:
  assumes s: "sliceOk get h s" "sliceAddrs get addrs h s \<subseteq> {..<b}"
    and c: "c = None \<longleftrightarrow> s = None"
      "\<And>d n. c = Some (d, n) \<Longrightarrow> b \<le> d \<and> d < length h \<and> length (get (h ! d)) = n \<and> (\<exists>a. s = Some (a, n))"
  defines "h' \<equiv> cloneElements get mk cloneElement s c h"
  shows "length h \<le> length h' \<and> (\<forall>e. e < length h \<and> e \<notin> arrayOf c \<longrightarrow> h' ! e = h ! e) \<and>
    map (reads h') (elements get h' c) = map (reads h) (elements get h s) \<and>
    sliceAddrs get addrs h' c \<subseteq> arrayOf c \<union> {length h..<length h'} \<and> sliceOk get h' c"
proof (cases c)
  case None
  then show ?thesis using c by (simp add: h'_def cloneElements_def elements_def sliceAddrs_def sliceOk_def)
next
  case (Some dn)
  then obtain d n where d: "c = Some (d, n)" by (cases dn) auto
  then obtain a where a: "s = Some (a, n)" using c(2) by blast
  have "addrs (get (h ! a) ! i) \<subseteq> {..<b}" if i: "i < n" for i
  proof -
    have "get (h ! a) ! i \<in> set (take n (get (h ! a)))" using i s(1) by (auto simp: a sliceOk_def in_set_conv_nth)
    then show ?thesis using s(2) by (auto simp: a sliceAddrs_def elements_def)
  qed
  moreover have "a < b" using s(2) by (simp add: a sliceAddrs_def)
  ultimately have l: "length h \<le> length h' \<and> (\<forall>e. e < length h \<and> e \<noteq> d \<longrightarrow> h' ! e = h ! e) \<and> length (get (h' ! d)) = n \<and>
    (\<forall>i<n. reads h' (get (h' ! d) ! i) = reads h (get (h ! a) ! i) \<and> addrs (get (h' ! d) ! i) \<subseteq> {length h..<length h'})"
    using loop [of a b d h n n] c(2) [OF d] s(1) by (simp add: h'_def cloneElements_def a d sliceOk_def)
  have els: "elements get h' c = get (h' ! d)" using l by (simp add: d elements_def)
  have "map (reads h') (get (h' ! d)) = map (reads h) (take n (get (h ! a)))"
    using l s(1) by (intro nth_equalityI) (simp_all add: a sliceOk_def)
  moreover have "(\<Union>x\<in>set (get (h' ! d)). addrs x) \<subseteq> {length h..<length h'}" using l by (fastforce simp: in_set_conv_nth)
  moreover have "sliceAddrs get addrs h' c = insert d (\<Union>x\<in>set (get (h' ! d)). addrs x)"
    unfolding sliceAddrs_def els by (simp add: d)
  moreover have "elements get h s = take n (get (h ! a))" by (simp add: a elements_def)
  ultimately show ?thesis using l unfolding els by (simp add: d sliceOk_def) blast
qed

lemma cloneElements_step:
  assumes s: "sliceOk get h s" "sliceAddrs get addrs h s \<subseteq> {..<length h}"
    and k: "length h \<le> length k" "\<And>e. e < length h \<Longrightarrow> k ! e = h ! e" and c: "madeFor get h k s c"
  defines "k' \<equiv> cloneElements get mk cloneElement s c k"
  shows "length k \<le> length k'" and "\<And>e. e < length k \<Longrightarrow> e \<notin> arrayOf c \<Longrightarrow> k' ! e = k ! e"
    and "map (reads k') (elements get k' c) = map (reads h) (elements get h s)"
    and "sliceAddrs get addrs k' c \<subseteq> arrayOf c \<union> {length k..<length k'}" and "sliceOk get k' c"
proof -
  have same: "\<And>e. e \<in> sliceAddrs get addrs h s \<Longrightarrow> k ! e = h ! e" using s k by auto
  note local = slice_local [OF same]
  have "sliceOk get k s" "sliceAddrs get addrs k s \<subseteq> {..<length h}" using s by (simp_all add: local)
  note all = cloneElements_detached [OF this, of c]
  have *: "length k \<le> length k' \<and> (\<forall>e. e < length k \<and> e \<notin> arrayOf c \<longrightarrow> k' ! e = k ! e) \<and>
    map (reads k') (elements get k' c) = map (reads k) (elements get k s) \<and>
    sliceAddrs get addrs k' c \<subseteq> arrayOf c \<union> {length k..<length k'} \<and> sliceOk get k' c"
    unfolding k'_def by (rule all) (use c in \<open>auto simp: madeFor_def\<close>)
  then show "length k \<le> length k'" and "\<And>e. e < length k \<Longrightarrow> e \<notin> arrayOf c \<Longrightarrow> k' ! e = k ! e"
    and "sliceAddrs get addrs k' c \<subseteq> arrayOf c \<union> {length k..<length k'}" and "sliceOk get k' c" by blast+
  show "map (reads k') (elements get k' c) = map (reads h) (elements get h s)" using * local(2) by simp
qed

lemma slice_kept:
  assumes "sliceAddrs get addrs k c \<subseteq> S" and "\<And>e. e \<in> S \<Longrightarrow> g ! e = k ! e"
  shows "map (reads g) (elements get g c) = map (reads k) (elements get k c)"
    and "sliceAddrs get addrs g c = sliceAddrs get addrs k c" and "sliceOk get g c = sliceOk get k c"
  using slice_local [where s = c and g = g and h = k] assms by blast+

lemma clone_slice:
  assumes "sliceOk get h s" and "sliceAddrs get addrs h s \<subseteq> {..<length h}" and "copySlice get mk s h = (k, c)"
  defines "h' \<equiv> cloneElements get mk cloneElement s c k"
  shows "(\<forall>e<length h. h' ! e = h ! e) \<and> sliceAddrs get addrs h' c \<subseteq> {length h..<length h'} \<and>
    map (reads h') (elements get h' c) = map (reads h) (elements get h s) \<and> (c = None \<longleftrightarrow> s = None)"
proof -
  have p: "prefix h k" "madeFor get h k s c"
    using assms(1,3) by (auto simp: copySlice_def madeFor_def sliceOk_def get_mk split: option.splits)
  note step = cloneElements_step [OF assms(1,2) prefix_length_le [OF p(1)] prefix_nth [OF p(1)] p(2), folded h'_def]
  have "h' ! e = h ! e" if e: "e < length h" for e
  proof -
    have "e \<notin> arrayOf c" using e madeFor_array [OF p(2)] by force
    then show ?thesis using e step(2) [of e] prefix_length_le [OF p(1)] prefix_nth [OF p(1) e] by simp
  qed
  moreover have "arrayOf c \<subseteq> {length h..<length h'}" "{length k..<length h'} \<subseteq> {length h..<length h'}"
    using madeFor_array [OF p(2)] step(1) prefix_length_le [OF p(1)] by force+
  ultimately show ?thesis using step(3,4) p(2) by (auto simp: madeFor_def)
qed

end

section \<open>The clones\<close>

lemma timeAt_local: "(\<And>a. a \<in> set_option p \<Longrightarrow> g ! a = h ! a) \<Longrightarrow> timeAt g p = timeAt h p"
  by (cases p) (simp_all add: timeAt_def)

lemma intAt_local: "(\<And>a. a \<in> set_option p \<Longrightarrow> g ! a = h ! a) \<Longrightarrow> intAt g p = intAt h p"
  by (cases p) (simp_all add: intAt_def)

lemma cloneTime_detached:
  assumes "cloneTime p h = (h', c)"
  shows "prefix h h'" and "set_option c \<subseteq> {length h..<length h'}" and "timeAt h' c = timeAt h p"
  using assms by (auto simp: cloneTime_def timeAt_def timeOf_def split: option.splits)

lemma cloneInt64_detached:
  assumes "cloneInt64 p h = (h', c)"
  shows "prefix h h'" and "set_option c \<subseteq> {length h..<length h'}" and "intAt h' c = intAt h p"
  using assms by (auto simp: cloneInt64_def intAt_def intOf_def split: option.splits)

lemma copySlice_detached:
  assumes "copySlice get mk s h = (h', c)" and "\<And>xs. get (mk xs) = xs" and "sliceOk get h s"
  shows "prefix h h'" and "c = None \<longleftrightarrow> s = None"
    and "\<And>d n. c = Some (d, n) \<Longrightarrow> d = length h \<and> length h' = Suc (length h) \<and> length (get (h' ! d)) = n \<and> (\<exists>a. s = Some (a, n))"
  using assms by (auto simp: copySlice_def sliceOk_def split: option.splits)

lemmas cloneTime_prefix = cloneTime_detached(1)

lemma cloneTime_range:
  assumes "cloneTime p g = (g', c)" and "prefix h g" and "prefix g' h'"
  shows "set_option c \<subseteq> {length h..<length h'}"
  using cloneTime_detached(2) [OF assms(1)] assms(2,3) [THEN prefix_length_le] by force

lemma cloneTime_same:
  assumes c: "cloneTime p g = (g', c)" and h: "prefix h g" and h': "prefix g' h'" and p: "set_option p \<subseteq> {..<length h}"
  shows "timeAt h' c = timeAt h p"
proof -
  have "timeAt h' c = timeAt g' c" using cloneTime_detached(2) [OF c] prefix_nth [OF h'] by (intro timeAt_local) auto
  also have "\<dots> = timeAt g p" by (rule cloneTime_detached(3) [OF c])
  also have "\<dots> = timeAt h p" using p prefix_nth [OF h] by (intro timeAt_local) auto
  finally show ?thesis .
qed

lemmas cloneInt64_prefix = cloneInt64_detached(1)

lemma cloneInt64_range:
  assumes "cloneInt64 p g = (g', c)" and "prefix h g" and "prefix g' h'"
  shows "set_option c \<subseteq> {length h..<length h'}"
  using cloneInt64_detached(2) [OF assms(1)] assms(2,3) [THEN prefix_length_le] by force

lemma cloneInt64_same:
  assumes c: "cloneInt64 p g = (g', c)" and h: "prefix h g" and h': "prefix g' h'" and p: "set_option p \<subseteq> {..<length h}"
  shows "intAt h' c = intAt h p"
proof -
  have "intAt h' c = intAt g' c" using cloneInt64_detached(2) [OF c] prefix_nth [OF h'] by (intro intAt_local) auto
  also have "\<dots> = intAt g p" by (rule cloneInt64_detached(3) [OF c])
  also have "\<dots> = intAt h p" using p prefix_nth [OF h] by (intro intAt_local) auto
  finally show ?thesis .
qed

lemma aliases_detached:
  assumes "copySlice stringsOf StringsCell p h = (h', c)"
  shows "prefix h h'" and "arrayOf c \<subseteq> {length h..<length h'}"
    and "elements stringsOf h' c = elements stringsOf h p"
  using assms by (auto simp: copySlice_def elements_def stringsOf_def split: option.splits)

lemmas aliases_prefix = aliases_detached(1)

lemma aliases_range:
  assumes "copySlice stringsOf StringsCell p g = (g', c)" and "prefix h g" and "prefix g' h'"
  shows "arrayOf c \<subseteq> {length h..<length h'}"
  using aliases_detached(2) [OF assms(1)] assms(2,3) [THEN prefix_length_le] by force

lemma elements_local: "(\<And>a. a \<in> arrayOf p \<Longrightarrow> g ! a = h ! a) \<Longrightarrow> elements get g p = elements get h p"
  by (auto simp: elements_def split: option.split)

lemma aliases_same:
  assumes c: "copySlice stringsOf StringsCell p g = (g', c)" and h: "prefix h g" and h': "prefix g' h'"
    and p: "arrayOf p \<subseteq> {..<length h}"
  shows "elements stringsOf h' c = elements stringsOf h p"
proof -
  have "elements stringsOf h' c = elements stringsOf g' c"
    using aliases_detached(2) [OF c] prefix_nth [OF h'] by (intro elements_local) auto
  also have "\<dots> = elements stringsOf g p" by (rule aliases_detached(3) [OF c])
  also have "\<dots> = elements stringsOf h p" using p prefix_nth [OF h] by (intro elements_local) auto
  finally show ?thesis .
qed

interpretation portals_copy: detached_copy portalsOf PortalsCell clonePortal portalAt portalAddrs
proof
  show "portalsOf (PortalsCell xs) = xs" for xs by (simp add: portalsOf_def)
  fix x h h' y
  assume y: "clonePortal x h = (h', y)"
  obtain h1 c1 where 1: "cloneTime (po_InstabilityCollapseAt x) h = (h1, c1)" by fastforce
  obtain h2 c2 where 2: "cloneTime (po_ExtractionSynchronizedAt x) h1 = (h2, c2)" by fastforce
  obtain h3 c3 where 3: "cloneTime (po_ClosedAt x) h2 = (h3, c3)" by fastforce
  have eq: "h' = h3" "y = x\<lparr>po_InstabilityCollapseAt := c1, po_ExtractionSynchronizedAt := c2, po_ClosedAt := c3\<rparr>"
    using y by (simp_all add: clonePortal_def 1 2 3)
  note steps = cloneTime_prefix [OF 1] cloneTime_prefix [OF 2] cloneTime_prefix [OF 3]
  then have p: "prefix h h" "prefix h h'" "prefix h h1" "prefix h1 h'" "prefix h h2" "prefix h2 h'" "prefix h h3" "prefix h3 h'"
    unfolding eq(1) by (meson prefix_order.trans prefix_order.refl)+
  show "prefix h h'" by (rule p(2))
  note ranges = cloneTime_range [OF 1 p(1) p(4)] cloneTime_range [OF 2 p(3) p(6)] cloneTime_range [OF 3 p(5) p(8)]
  show "portalAddrs y \<subseteq> {length h..<length h'}" using ranges by (simp add: eq(2) portalAddrs_def)
  show "portalAt h' y = portalAt h x" if "portalAddrs x \<subseteq> {..<length h}"
    using that cloneTime_same [OF 1 p(1) p(4)] cloneTime_same [OF 2 p(3) p(6)] cloneTime_same [OF 3 p(5) p(8)]
    by (simp add: eq(2) portalAt_def portalAddrs_def)
next
  fix x and g h :: heap
  assume eq: "\<And>a. a \<in> portalAddrs x \<Longrightarrow> g ! a = h ! a"
  have "timeAt g (po_InstabilityCollapseAt x) = timeAt h (po_InstabilityCollapseAt x)" "timeAt g (po_ExtractionSynchronizedAt x) = timeAt h (po_ExtractionSynchronizedAt x)" "timeAt g (po_ClosedAt x) = timeAt h (po_ClosedAt x)"
    by (intro timeAt_local intAt_local elements_local eq; simp add: portalAddrs_def)+
  then show "portalAt g x = portalAt h x" by (simp add: portalAt_def)
qed

interpretation planes_copy: detached_copy planesOf PlanesCell clonePlane planeAt planeAddrs
proof
  show "planesOf (PlanesCell xs) = xs" for xs by (simp add: planesOf_def)
  fix x h h' y
  assume y: "clonePlane x h = (h', y)"
  obtain h1 c1 where 1: "copySlice stringsOf StringsCell (plo_Aliases x) h = (h1, c1)" by fastforce
  obtain h2 c2 where 2: "cloneTime (plo_ExploredAt x) h1 = (h2, c2)" by fastforce
  have eq: "h' = h2" "y = x\<lparr>plo_Aliases := c1, plo_ExploredAt := c2\<rparr>"
    using y by (simp_all add: clonePlane_def 1 2)
  note steps = aliases_prefix [OF 1] cloneTime_prefix [OF 2]
  then have p: "prefix h h" "prefix h h'" "prefix h h1" "prefix h1 h'" "prefix h h2" "prefix h2 h'"
    unfolding eq(1) by (meson prefix_order.trans prefix_order.refl)+
  show "prefix h h'" by (rule p(2))
  note ranges = aliases_range [OF 1 p(1) p(4)] cloneTime_range [OF 2 p(3) p(6)]
  show "planeAddrs y \<subseteq> {length h..<length h'}" using ranges by (simp add: eq(2) planeAddrs_def)
  show "planeAt h' y = planeAt h x" if "planeAddrs x \<subseteq> {..<length h}"
    using that aliases_same [OF 1 p(1) p(4)] cloneTime_same [OF 2 p(3) p(6)]
    by (simp add: eq(2) planeAt_def planeAddrs_def)
next
  fix x and g h :: heap
  assume eq: "\<And>a. a \<in> planeAddrs x \<Longrightarrow> g ! a = h ! a"
  have "elements stringsOf g (plo_Aliases x) = elements stringsOf h (plo_Aliases x)" "timeAt g (plo_ExploredAt x) = timeAt h (plo_ExploredAt x)"
    by (intro timeAt_local intAt_local elements_local eq; simp add: planeAddrs_def)+
  then show "planeAt g x = planeAt h x" by (simp add: planeAt_def)
qed

interpretation observers_copy: detached_copy observersOf ObserversCell cloneObserver observerAt observerAddrs
proof
  show "observersOf (ObserversCell xs) = xs" for xs by (simp add: observersOf_def)
  fix x h h' y
  assume y: "cloneObserver x h = (h', y)"
  obtain h1 c1 where 1: "cloneInt64 (oo_CurrentPlaneID x) h = (h1, c1)" by fastforce
  obtain h2 c2 where 2: "cloneInt64 (oo_ActivePortalID x) h1 = (h2, c2)" by fastforce
  obtain h3 c3 where 3: "cloneTime (oo_PhaseStartedAt x) h2 = (h3, c3)" by fastforce
  obtain h4 c4 where 4: "cloneTime (oo_PhaseEndsAt x) h3 = (h4, c4)" by fastforce
  have eq: "h' = h4" "y = x\<lparr>oo_CurrentPlaneID := c1, oo_ActivePortalID := c2, oo_PhaseStartedAt := c3, oo_PhaseEndsAt := c4\<rparr>"
    using y by (simp_all add: cloneObserver_def 1 2 3 4)
  note steps = cloneInt64_prefix [OF 1] cloneInt64_prefix [OF 2] cloneTime_prefix [OF 3] cloneTime_prefix [OF 4]
  then have p: "prefix h h" "prefix h h'" "prefix h h1" "prefix h1 h'" "prefix h h2" "prefix h2 h'" "prefix h h3" "prefix h3 h'" "prefix h h4" "prefix h4 h'"
    unfolding eq(1) by (meson prefix_order.trans prefix_order.refl)+
  show "prefix h h'" by (rule p(2))
  note ranges = cloneInt64_range [OF 1 p(1) p(4)] cloneInt64_range [OF 2 p(3) p(6)] cloneTime_range [OF 3 p(5) p(8)] cloneTime_range [OF 4 p(7) p(10)]
  show "observerAddrs y \<subseteq> {length h..<length h'}" using ranges by (simp add: eq(2) observerAddrs_def)
  show "observerAt h' y = observerAt h x" if "observerAddrs x \<subseteq> {..<length h}"
    using that cloneInt64_same [OF 1 p(1) p(4)] cloneInt64_same [OF 2 p(3) p(6)] cloneTime_same [OF 3 p(5) p(8)] cloneTime_same [OF 4 p(7) p(10)]
    by (simp add: eq(2) observerAt_def observerAddrs_def)
next
  fix x and g h :: heap
  assume eq: "\<And>a. a \<in> observerAddrs x \<Longrightarrow> g ! a = h ! a"
  have "intAt g (oo_CurrentPlaneID x) = intAt h (oo_CurrentPlaneID x)" "intAt g (oo_ActivePortalID x) = intAt h (oo_ActivePortalID x)" "timeAt g (oo_PhaseStartedAt x) = timeAt h (oo_PhaseStartedAt x)" "timeAt g (oo_PhaseEndsAt x) = timeAt h (oo_PhaseEndsAt x)"
    by (intro timeAt_local intAt_local elements_local eq; simp add: observerAddrs_def)+
  then show "observerAt g x = observerAt h x" by (simp add: observerAt_def)
qed

interpretation events_copy: detached_copy eventsOf EventsCell cloneEvent eventAt eventAddrs
proof
  show "eventsOf (EventsCell xs) = xs" for xs by (simp add: eventsOf_def)
  fix x h h' y
  assume y: "cloneEvent x h = (h', y)"
  obtain h1 c1 where 1: "cloneInt64 (eo_PortalID x) h = (h1, c1)" by fastforce
  obtain h2 c2 where 2: "cloneInt64 (eo_ObserverID x) h1 = (h2, c2)" by fastforce
  obtain h3 c3 where 3: "cloneInt64 (eo_PlaneID x) h2 = (h3, c3)" by fastforce
  have eq: "h' = h3" "y = x\<lparr>eo_PortalID := c1, eo_ObserverID := c2, eo_PlaneID := c3\<rparr>"
    using y by (simp_all add: cloneEvent_def 1 2 3)
  note steps = cloneInt64_prefix [OF 1] cloneInt64_prefix [OF 2] cloneInt64_prefix [OF 3]
  then have p: "prefix h h" "prefix h h'" "prefix h h1" "prefix h1 h'" "prefix h h2" "prefix h2 h'" "prefix h h3" "prefix h3 h'"
    unfolding eq(1) by (meson prefix_order.trans prefix_order.refl)+
  show "prefix h h'" by (rule p(2))
  note ranges = cloneInt64_range [OF 1 p(1) p(4)] cloneInt64_range [OF 2 p(3) p(6)] cloneInt64_range [OF 3 p(5) p(8)]
  show "eventAddrs y \<subseteq> {length h..<length h'}" using ranges by (simp add: eq(2) eventAddrs_def)
  show "eventAt h' y = eventAt h x" if "eventAddrs x \<subseteq> {..<length h}"
    using that cloneInt64_same [OF 1 p(1) p(4)] cloneInt64_same [OF 2 p(3) p(6)] cloneInt64_same [OF 3 p(5) p(8)]
    by (simp add: eq(2) eventAt_def eventAddrs_def)
next
  fix x and g h :: heap
  assume eq: "\<And>a. a \<in> eventAddrs x \<Longrightarrow> g ! a = h ! a"
  have "intAt g (eo_PortalID x) = intAt h (eo_PortalID x)" "intAt g (eo_ObserverID x) = intAt h (eo_ObserverID x)" "intAt g (eo_PlaneID x) = intAt h (eo_PlaneID x)"
    by (intro timeAt_local intAt_local elements_local eq; simp add: eventAddrs_def)+
  then show "eventAt g x = eventAt h x" by (simp add: eventAt_def)
qed

interpretation drafts_copy: detached_copy draftsOf DraftsCell cloneDraft draftAt draftAddrs
proof
  show "draftsOf (DraftsCell xs) = xs" for xs by (simp add: draftsOf_def)
  fix x h h' y
  assume y: "cloneDraft x h = (h', y)"
  obtain h1 c1 where 1: "cloneInt64 (do_PortalID x) h = (h1, c1)" by fastforce
  obtain h2 c2 where 2: "cloneInt64 (do_ObserverID x) h1 = (h2, c2)" by fastforce
  obtain h3 c3 where 3: "cloneInt64 (do_PlaneID x) h2 = (h3, c3)" by fastforce
  have eq: "h' = h3" "y = x\<lparr>do_PortalID := c1, do_ObserverID := c2, do_PlaneID := c3\<rparr>"
    using y by (simp_all add: cloneDraft_def 1 2 3)
  note steps = cloneInt64_prefix [OF 1] cloneInt64_prefix [OF 2] cloneInt64_prefix [OF 3]
  then have p: "prefix h h" "prefix h h'" "prefix h h1" "prefix h1 h'" "prefix h h2" "prefix h2 h'" "prefix h h3" "prefix h3 h'"
    unfolding eq(1) by (meson prefix_order.trans prefix_order.refl)+
  show "prefix h h'" by (rule p(2))
  note ranges = cloneInt64_range [OF 1 p(1) p(4)] cloneInt64_range [OF 2 p(3) p(6)] cloneInt64_range [OF 3 p(5) p(8)]
  show "draftAddrs y \<subseteq> {length h..<length h'}" using ranges by (simp add: eq(2) draftAddrs_def)
  show "draftAt h' y = draftAt h x" if "draftAddrs x \<subseteq> {..<length h}"
    using that cloneInt64_same [OF 1 p(1) p(4)] cloneInt64_same [OF 2 p(3) p(6)] cloneInt64_same [OF 3 p(5) p(8)]
    by (simp add: eq(2) draftAt_def draftAddrs_def)
next
  fix x and g h :: heap
  assume eq: "\<And>a. a \<in> draftAddrs x \<Longrightarrow> g ! a = h ! a"
  have "intAt g (do_PortalID x) = intAt h (do_PortalID x)" "intAt g (do_ObserverID x) = intAt h (do_ObserverID x)" "intAt g (do_PlaneID x) = intAt h (do_PlaneID x)"
    by (intro timeAt_local intAt_local elements_local eq; simp add: draftAddrs_def)+
  then show "draftAt g x = draftAt h x" by (simp add: draftAt_def)
qed

lemma range_mono: "S \<subseteq> {b..<c} \<Longrightarrow> a \<le> b \<Longrightarrow> c \<le> d \<Longrightarrow> S \<subseteq> {a..<d}" for a :: nat
  by force

lemma clone_loops:
  assumes ok: "snapshotOk h s" and k: "length h \<le> length k" "\<And>e. e < length h \<Longrightarrow> k ! e = h ! e"
    and made: "madeFor portalsOf h k (so_Portals s) p" "madeFor planesOf h k (so_Planes s) pl" "madeFor observersOf h k (so_Observers s) ob"
    and disjoint: "arrayOf p \<inter> arrayOf pl = {}" "arrayOf p \<inter> arrayOf ob = {}" "arrayOf pl \<inter> arrayOf ob = {}"
  defines "k1 \<equiv> cloneElements planesOf PlanesCell clonePlane (so_Planes s) pl k"
  defines "k2 \<equiv> cloneElements portalsOf PortalsCell clonePortal (so_Portals s) p k1"
  defines "k3 \<equiv> cloneElements observersOf ObserversCell cloneObserver (so_Observers s) ob k2"
  shows "length k \<le> length k3" and "\<And>e. e < length k \<Longrightarrow> e \<notin> arrayOf p \<union> arrayOf pl \<union> arrayOf ob \<Longrightarrow> k3 ! e = k ! e"
    and "map (portalAt k3) (elements portalsOf k3 p) = map (portalAt h) (elements portalsOf h (so_Portals s))"
    and "map (planeAt k3) (elements planesOf k3 pl) = map (planeAt h) (elements planesOf h (so_Planes s))"
    and "map (observerAt k3) (elements observersOf k3 ob) = map (observerAt h) (elements observersOf h (so_Observers s))"
    and "sliceAddrs portalsOf portalAddrs k3 p \<subseteq> {length h..<length k3}" and "sliceAddrs planesOf planeAddrs k3 pl \<subseteq> {length h..<length k3}"
    and "sliceAddrs observersOf observerAddrs k3 ob \<subseteq> {length h..<length k3}"
    and "sliceOk portalsOf k3 p" and "sliceOk planesOf k3 pl" and "sliceOk observersOf k3 ob"
proof -
  note ok' = ok [unfolded snapshotOk_def snapshotAddrs_def]
  note arrays = made [THEN madeFor_array]
  have "sliceOk planesOf h (so_Planes s)" "sliceAddrs planesOf planeAddrs h (so_Planes s) \<subseteq> {..<length h}" using ok' by blast+
  note l1 = planes_copy.cloneElements_step [OF this k made(2), folded k1_def]
  have "k1 ! e = h ! e" if e: "e < length h" for e
  proof -
    have "e \<notin> arrayOf pl" using e arrays(2) by force
    then show ?thesis using e k(1) k(2) [OF e] l1(2) [of e] by simp
  qed
  moreover have "length h \<le> length k1" using k(1) l1(1) by simp
  ultimately have b1: "length h \<le> length k1" "\<And>e. e < length h \<Longrightarrow> k1 ! e = h ! e" by simp_all
  have m1: "madeFor portalsOf h k1 (so_Portals s) p"
    using madeFor_local [OF made(1) l1(1)] l1(2) arrays(1) disjoint(1) by (auto simp: subset_iff)
  have "sliceOk portalsOf h (so_Portals s)" "sliceAddrs portalsOf portalAddrs h (so_Portals s) \<subseteq> {..<length h}" using ok' by blast+
  note l2 = portals_copy.cloneElements_step [OF this b1 m1, folded k2_def]
  have "k2 ! e = h ! e" if e: "e < length h" for e
  proof -
    have "e \<notin> arrayOf p" using e arrays(1) by force
    then show ?thesis using e b1(1) b1(2) [OF e] l2(2) [of e] by simp
  qed
  moreover have "length h \<le> length k2" using b1(1) l2(1) by simp
  ultimately have b2: "length h \<le> length k2" "\<And>e. e < length h \<Longrightarrow> k2 ! e = h ! e" by simp_all
  have k2: "k2 ! e = k ! e" if "e < length k" "e \<notin> arrayOf p \<union> arrayOf pl" for e using that l1(1,2) l2(2) by simp
  have m2: "madeFor observersOf h k2 (so_Observers s) ob"
  proof (rule madeFor_local [OF made(3)])
    show "length k \<le> length k2" using l1(1) l2(1) by simp
    show "k2 ! e = k ! e" if "e \<in> arrayOf ob" for e using that arrays(3) disjoint by (intro k2) force+
  qed
  have "sliceOk observersOf h (so_Observers s)" "sliceAddrs observersOf observerAddrs h (so_Observers s) \<subseteq> {..<length h}" using ok' by blast+
  note l3 = observers_copy.cloneElements_step [OF this b2 m2, folded k3_def]
  show len: "length k \<le> length k3" using l1(1) l2(1) l3(1) by simp
  show "k3 ! e = k ! e" if "e < length k" "e \<notin> arrayOf p \<union> arrayOf pl \<union> arrayOf ob" for e
    using that l1(1) l2(1) l3(2) k2 by simp
  have pk: "k3 ! e = k2 ! e" if e: "e \<in> arrayOf p \<union> {length k1..<length k2}" for e
  proof (rule l3(2))
    show "e < length k2" using e l1(1) l2(1) arrays(1) by force
    show "e \<notin> arrayOf ob" using e l1(1) arrays(3) disjoint by force
  qed
  have plk: "k3 ! e = k1 ! e" if e: "e \<in> arrayOf pl \<union> {length k..<length k1}" for e
  proof -
    have "e < length k1" using e l1(1) arrays(2) by force
    moreover have "e \<notin> arrayOf p" "e \<notin> arrayOf ob" using e arrays disjoint by force+
    ultimately show ?thesis using l2(1,2) l3(2) by simp
  qed
  show "map (portalAt k3) (elements portalsOf k3 p) = map (portalAt h) (elements portalsOf h (so_Portals s))"
    using portals_copy.slice_kept(1) [OF l2(4) pk] l2(3) by simp
  show "map (planeAt k3) (elements planesOf k3 pl) = map (planeAt h) (elements planesOf h (so_Planes s))"
    using planes_copy.slice_kept(1) [OF l1(4) plk] l1(3) by simp
  show "map (observerAt k3) (elements observersOf k3 ob) = map (observerAt h) (elements observersOf h (so_Observers s))"
    by (rule l3(3))
  note lens = k(1) l1(1) l2(1) l3(1)
  have "arrayOf p \<subseteq> {length h..<length k3}" "arrayOf pl \<subseteq> {length h..<length k3}" "arrayOf ob \<subseteq> {length h..<length k3}"
    "{length k..<length k1} \<subseteq> {length h..<length k3}" "{length k1..<length k2} \<subseteq> {length h..<length k3}"
    "{length k2..<length k3} \<subseteq> {length h..<length k3}"
    by (intro arrays [THEN range_mono] range_mono [OF subset_refl]; use lens in simp)+
  then show "sliceAddrs portalsOf portalAddrs k3 p \<subseteq> {length h..<length k3}"
    and "sliceAddrs planesOf planeAddrs k3 pl \<subseteq> {length h..<length k3}"
    and "sliceAddrs observersOf observerAddrs k3 ob \<subseteq> {length h..<length k3}"
    using portals_copy.slice_kept(2) [OF l2(4) pk] l2(4) planes_copy.slice_kept(2) [OF l1(4) plk] l1(4) l3(4) by blast+
  show "sliceOk portalsOf k3 p" using portals_copy.slice_kept(3) [OF l2(4) pk] l2(5) by simp
  show "sliceOk planesOf k3 pl" using planes_copy.slice_kept(3) [OF l1(4) plk] l1(5) by simp
  show "sliceOk observersOf k3 ob" by (rule l3(5))
qed

lemma copySlice_made:
  assumes "copySlice get mk s g = (g', c)" and "\<And>xs. get (mk xs) = xs" and "sliceOk get g s" and "prefix h g" and "prefix g' k"
  shows "madeFor get h k s c" and "arrayOf c \<subseteq> {length g..<length g'}"
  using assms by (auto simp: copySlice_def sliceOk_def madeFor_def prefix_def nth_append split: option.splits)

lemma copySlice_prefix: "copySlice get mk s g = (g', c) \<Longrightarrow> prefix g g'"
  by (auto simp: copySlice_def split: option.splits)

lemma sliceOk_prefix: "sliceOk get h s \<Longrightarrow> prefix h g \<Longrightarrow> arrayOf s \<subseteq> {..<length h} \<Longrightarrow> sliceOk get g s"
  by (auto simp: sliceOk_def prefix_nth split: option.splits)

lemma cloneSnapshot_detached:
  assumes ok: "snapshotOk h s" and c: "cloneSnapshot s h = (h', c)"
  shows "length h \<le> length h'" and "\<And>e. e < length h \<Longrightarrow> h' ! e = h ! e" and "snapshotAddrs h' c \<subseteq> {length h..<length h'}"
    and "snapshotAt h' c = snapshotAt h s" and "snapshotOk h' c"
    and "so_Portals c = None \<longleftrightarrow> so_Portals s = None" and "so_Planes c = None \<longleftrightarrow> so_Planes s = None"
    and "so_Observers c = None \<longleftrightarrow> so_Observers s = None"
proof -
  obtain h1 c1 where 1: "copySlice portalsOf PortalsCell (so_Portals s) h = (h1, c1)" by fastforce
  obtain h2 c2 where 2: "copySlice planesOf PlanesCell (so_Planes s) h1 = (h2, c2)" by fastforce
  obtain h3 c3 where 3: "copySlice observersOf ObserversCell (so_Observers s) h2 = (h3, c3)" by fastforce
  obtain h4 c4 where 4: "cloneTime (so_LeylineOverrideUntil s) h3 = (h4, c4)" by fastforce
  obtain h5 c5 where 5: "cloneTime (so_ScheduledAt s) h4 = (h5, c5)" by fastforce
  obtain h6 c6 where 6: "cloneTime (so_DueAt s) h5 = (h6, c6)" by fastforce
  obtain h7 c7 where 7: "cloneTime (so_LastTickAt s) h6 = (h7, c7)" by fastforce
  obtain h8 c8 where 8: "cloneInt64 (so_TutorialPortalID s) h7 = (h8, c8)" by fastforce
  obtain h9 c9 where 9: "cloneInt64 (so_TutorialPlaneID s) h8 = (h9, c9)" by fastforce
  obtain h10 c10 where 10: "cloneInt64 (so_TutorialObserverID s) h9 = (h10, c10)" by fastforce
  note steps = copySlice_prefix [OF 1] copySlice_prefix [OF 2] copySlice_prefix [OF 3] cloneTime_prefix [OF 4] cloneTime_prefix [OF 5] cloneTime_prefix [OF 6] cloneTime_prefix [OF 7] cloneInt64_prefix [OF 8] cloneInt64_prefix [OF 9] cloneInt64_prefix [OF 10]
  have up: "prefix h h1" "prefix h h2" "prefix h h3" "prefix h h4" "prefix h h5" "prefix h h6" "prefix h h7" "prefix h h8" "prefix h h9" "prefix h h10"
    using steps by (meson prefix_order.trans)+
  have below: "prefix h1 h10" "prefix h2 h10" "prefix h3 h10" "prefix h4 h10" "prefix h5 h10" "prefix h6 h10" "prefix h7 h10" "prefix h8 h10" "prefix h9 h10" "prefix h10 h10"
    using steps by (meson prefix_order.trans prefix_order.refl)+
  have mid: "prefix h3 h3" "prefix h3 h4" "prefix h3 h5" "prefix h3 h6" "prefix h3 h7" "prefix h3 h8" "prefix h3 h9" "prefix h3 h10"
    using steps by (meson prefix_order.trans prefix_order.refl)+
  have slices: "sliceOk portalsOf h (so_Portals s)" "sliceOk planesOf h (so_Planes s)" "sliceOk observersOf h (so_Observers s)"
    and addrs: "arrayOf (so_Portals s) \<subseteq> {..<length h}" "arrayOf (so_Planes s) \<subseteq> {..<length h}" "arrayOf (so_Observers s) \<subseteq> {..<length h}"
    using ok by (simp_all add: snapshotOk_def snapshotAddrs_def sliceAddrs_def)
  note m1 = copySlice_made [OF 1 portals_copy.get_mk slices(1) prefix_order.refl below(1)]
  note m2 = copySlice_made [OF 2 planes_copy.get_mk sliceOk_prefix [OF slices(2) up(1) addrs(2)] up(1) below(2)]
  note m3 = copySlice_made [OF 3 observers_copy.get_mk sliceOk_prefix [OF slices(3) up(2) addrs(3)] up(2) below(3)]
  have arrays: "arrayOf c1 \<subseteq> {..<length h3}" "arrayOf c2 \<subseteq> {..<length h3}" "arrayOf c3 \<subseteq> {..<length h3}"
    using m1(2) m2(2) m3(2) below(1,2) steps(2,3) [THEN prefix_length_le] by force+
  have disjoint: "arrayOf c1 \<inter> arrayOf c2 = {}" "arrayOf c1 \<inter> arrayOf c3 = {}" "arrayOf c2 \<inter> arrayOf c3 = {}"
    using m1(2) m2(2) m3(2) steps(2) [THEN prefix_length_le] by force+
  define k where "k = cloneElements observersOf ObserversCell cloneObserver (so_Observers s) c3
    (cloneElements portalsOf PortalsCell clonePortal (so_Portals s) c1
      (cloneElements planesOf PlanesCell clonePlane (so_Planes s) c2 h10))"
  note loops = clone_loops [OF ok prefix_length_le [OF up(10)] prefix_nth [OF up(10)] m1(1) m2(1) m3(1) disjoint, folded k_def]
  have eq: "h' = k" "c = s\<lparr>so_Portals := c1, so_Planes := c2, so_Observers := c3, so_LeylineOverrideUntil := c4, so_ScheduledAt := c5,
      so_DueAt := c6, so_LastTickAt := c7, so_TutorialPortalID := c8, so_TutorialPlaneID := c9, so_TutorialObserverID := c10\<rparr>"
    using c by (simp_all add: cloneSnapshot_def 1 2 3 4 5 6 7 8 9 10 k_def)
  have kept: "k ! e = h10 ! e" if e: "e \<in> {length h3..<length h10}" for e
  proof (rule loops(2))
    show "e < length h10" using e by simp
    show "e \<notin> arrayOf c1 \<union> arrayOf c2 \<union> arrayOf c3" using e arrays by force
  qed
  note ranges = cloneTime_range [OF 4 mid(1) below(4)] cloneTime_range [OF 5 mid(2) below(5)] cloneTime_range [OF 6 mid(3) below(6)] cloneTime_range [OF 7 mid(4) below(7)] cloneInt64_range [OF 8 mid(5) below(8)] cloneInt64_range [OF 9 mid(6) below(9)] cloneInt64_range [OF 10 mid(7) below(10)]
  have pointers: "set_option (so_LeylineOverrideUntil s) \<subseteq> {..<length h}" "set_option (so_ScheduledAt s) \<subseteq> {..<length h}" "set_option (so_DueAt s) \<subseteq> {..<length h}" "set_option (so_LastTickAt s) \<subseteq> {..<length h}" "set_option (so_TutorialPortalID s) \<subseteq> {..<length h}" "set_option (so_TutorialPlaneID s) \<subseteq> {..<length h}" "set_option (so_TutorialObserverID s) \<subseteq> {..<length h}"
    using ok by (simp_all add: snapshotOk_def snapshotAddrs_def)
  note same = cloneTime_same [OF 4 up(3) below(4) pointers(1)] cloneTime_same [OF 5 up(4) below(5) pointers(2)] cloneTime_same [OF 6 up(5) below(6) pointers(3)] cloneTime_same [OF 7 up(6) below(7) pointers(4)] cloneInt64_same [OF 8 up(7) below(8) pointers(5)] cloneInt64_same [OF 9 up(8) below(9) pointers(6)] cloneInt64_same [OF 10 up(9) below(10) pointers(7)]
  have reads: "timeAt k c4 = timeAt h (so_LeylineOverrideUntil s)" "timeAt k c5 = timeAt h (so_ScheduledAt s)" "timeAt k c6 = timeAt h (so_DueAt s)" "timeAt k c7 = timeAt h (so_LastTickAt s)" "intAt k c8 = intAt h (so_TutorialPortalID s)" "intAt k c9 = intAt h (so_TutorialPlaneID s)" "intAt k c10 = intAt h (so_TutorialObserverID s)"
    unfolding same [symmetric] by (intro timeAt_local intAt_local kept; use ranges in blast)+
  have inside: "{length h3..<length h10} \<subseteq> {length h..<length h'}"
    using prefix_length_le [OF up(3)] loops(1) by (simp add: eq(1))
  show len: "length h \<le> length h'" using prefix_length_le [OF up(10)] loops(1) by (simp add: eq(1))
  show addrs': "snapshotAddrs h' c \<subseteq> {length h..<length h'}"
    using loops(6-8) ranges [THEN subset_trans, OF inside] by (simp add: snapshotAddrs_def eq)
  show "h' ! e = h ! e" if e: "e < length h" for e
  proof -
    have "e < length h10" using e prefix_length_le [OF up(10)] by simp
    moreover have "e \<notin> arrayOf c1" "e \<notin> arrayOf c2" "e \<notin> arrayOf c3"
      using e m1(2) m2(2) m3(2) up(1,2) [THEN prefix_length_le] by force+
    ultimately show ?thesis using loops(2) [of e] prefix_nth [OF up(10) e] by (simp add: eq(1))
  qed
  show "snapshotAt h' c = snapshotAt h s" by (simp add: snapshotAt_def eq loops(3-5) reads)
  show "snapshotOk h' c" using addrs' loops(9-11) by (auto simp: snapshotOk_def eq)
  show "so_Portals c = None \<longleftrightarrow> so_Portals s = None" and "so_Planes c = None \<longleftrightarrow> so_Planes s = None"
    and "so_Observers c = None \<longleftrightarrow> so_Observers s = None"
    using m1(1) m2(1) m3(1) by (simp_all add: eq madeFor_def)
qed

text \<open>A history, or the drafts of a commit, are cloned in the same way.\<close>

lemma cloneEvents_detached:
  assumes "sliceOk eventsOf h s" and "sliceAddrs eventsOf eventAddrs h s \<subseteq> {..<length h}" and "cloneEvents s h = (h', c)"
  shows "(\<forall>e<length h. h' ! e = h ! e) \<and> sliceAddrs eventsOf eventAddrs h' c \<subseteq> {length h..<length h'} \<and>
    map (eventAt h') (elements eventsOf h' c) = map (eventAt h) (elements eventsOf h s) \<and> (c = None \<longleftrightarrow> s = None)"
proof -
  obtain k d where k: "copySlice eventsOf EventsCell s h = (k, d)" by fastforce
  show ?thesis using events_copy.clone_slice [OF assms(1,2) k] assms(3) by (simp add: cloneEvents_def k) blast
qed

lemma cloneDrafts_detached:
  assumes "sliceOk draftsOf h s" and "sliceAddrs draftsOf draftAddrs h s \<subseteq> {..<length h}" and "cloneDrafts s h = (h', c)"
  shows "(\<forall>e<length h. h' ! e = h ! e) \<and> sliceAddrs draftsOf draftAddrs h' c \<subseteq> {length h..<length h'} \<and>
    map (draftAt h') (elements draftsOf h' c) = map (draftAt h) (elements draftsOf h s) \<and> (c = None \<longleftrightarrow> s = None)"
proof -
  obtain k d where k: "copySlice draftsOf DraftsCell s h = (k, d)" by fastforce
  show ?thesis using drafts_copy.clone_slice [OF assms(1,2) k] assms(3) by (simp add: cloneDrafts_def k) blast
qed

section \<open>What is handed out is detached\<close>

lemma snapshotAt_local:
  assumes same: "\<And>e. e \<in> snapshotAddrs h s \<Longrightarrow> g ! e = h ! e"
  shows "snapshotAt g s = snapshotAt h s" and "snapshotAddrs g s = snapshotAddrs h s"
proof -
  have "g ! e = h ! e" if "e \<in> sliceAddrs portalsOf portalAddrs h (so_Portals s)" for e
    using that by (intro same) (simp add: snapshotAddrs_def)
  note p = portals_copy.slice_local [OF this]
  have "g ! e = h ! e" if "e \<in> sliceAddrs planesOf planeAddrs h (so_Planes s)" for e
    using that by (intro same) (simp add: snapshotAddrs_def)
  note pl = planes_copy.slice_local [OF this]
  have "g ! e = h ! e" if "e \<in> sliceAddrs observersOf observerAddrs h (so_Observers s)" for e
    using that by (intro same) (simp add: snapshotAddrs_def)
  note ob = observers_copy.slice_local [OF this]
  have "timeAt g (so_LeylineOverrideUntil s) = timeAt h (so_LeylineOverrideUntil s)" "timeAt g (so_ScheduledAt s) = timeAt h (so_ScheduledAt s)"
    "timeAt g (so_DueAt s) = timeAt h (so_DueAt s)" "timeAt g (so_LastTickAt s) = timeAt h (so_LastTickAt s)"
    "intAt g (so_TutorialPortalID s) = intAt h (so_TutorialPortalID s)" "intAt g (so_TutorialPlaneID s) = intAt h (so_TutorialPlaneID s)"
    "intAt g (so_TutorialObserverID s) = intAt h (so_TutorialObserverID s)"
    by (intro timeAt_local intAt_local same; simp add: snapshotAddrs_def)+
  then show "snapshotAt g s = snapshotAt h s" by (simp add: snapshotAt_def p(2) pl(2) ob(2))
  show "snapshotAddrs g s = snapshotAddrs h s" by (simp add: snapshotAddrs_def p(3) pl(3) ob(3))
qed

text \<open>
  C14: what the manager hands out, and what it works on, is detached from what it keeps.  However
  the pointers of a snapshot share their targets, its clone has the same value, nil slices
  included; all it reaches is newly allocated; no write to anything but the memory that existed
  before, be it through the clone, can change the original; and no write to that memory, be it
  through the original, can change the clone.
\<close>

theorem snapshot_detached:
  assumes "snapshotOk h snapshot" and "cloneSnapshot snapshot h = (h', clone)"
  shows "snapshotAt h' clone = snapshotAt h snapshot \<and> snapshotOk h' clone \<and>
    (so_Portals clone = None \<longleftrightarrow> so_Portals snapshot = None) \<and> (so_Planes clone = None \<longleftrightarrow> so_Planes snapshot = None) \<and>
    (so_Observers clone = None \<longleftrightarrow> so_Observers snapshot = None) \<and>
    snapshotAddrs h' clone \<inter> snapshotAddrs h' snapshot = {} \<and>
    (\<forall>g. (\<forall>e < length h. g ! e = h' ! e) \<longrightarrow> snapshotAt g snapshot = snapshotAt h snapshot) \<and>
    (\<forall>g. (\<forall>e. length h \<le> e \<and> e < length h' \<longrightarrow> g ! e = h' ! e) \<longrightarrow> snapshotAt g clone = snapshotAt h snapshot)"
proof -
  note c = cloneSnapshot_detached [OF assms]
  have old: "snapshotAddrs h snapshot \<subseteq> {..<length h}" using assms(1) by (simp add: snapshotOk_def)
  have "snapshotAt g snapshot = snapshotAt h snapshot" if "\<forall>e < length h. g ! e = h' ! e" for g
    using old that c(2) by (intro snapshotAt_local) (auto simp: subset_iff)
  moreover have "snapshotAt g clone = snapshotAt h snapshot" if "\<forall>e. length h \<le> e \<and> e < length h' \<longrightarrow> g ! e = h' ! e" for g
    unfolding c(4) [symmetric] using c(3) that by (intro snapshotAt_local) (auto simp: subset_iff)
  moreover have "snapshotAddrs h' snapshot = snapshotAddrs h snapshot"
    using old c(2) by (intro snapshotAt_local) (auto simp: subset_iff)
  then have "snapshotAddrs h' clone \<inter> snapshotAddrs h' snapshot = {}" using old c(3) by fastforce
  ultimately show ?thesis using c(4-8) by blast
qed

text \<open>A laboratory whose observer and tutorial share the variables they point to.\<close>

definition sample_memory :: heap where
  "sample_memory =
     [TimeCell sample_start, IntCell 1, StringsCell [''Mirrodin'', ''New Phyrexia'', ''Argentum''],
      PortalsCell [\<lparr>po_fields = sample_portal, po_InstabilityCollapseAt = Some 0, po_ExtractionSynchronizedAt = None, po_ClosedAt = Some 0\<rparr>],
      PlanesCell [\<lparr>plo_fields = sample_plane 1, plo_Aliases = Some (2, 2), plo_ExploredAt = Some 0\<rparr>],
      ObserversCell [\<lparr>oo_fields = NewObserver 1 sample_start, oo_CurrentPlaneID = Some 1, oo_ActivePortalID = Some 1,
        oo_PhaseStartedAt = Some 0, oo_PhaseEndsAt = Some 0\<rparr>]]"

definition sample_object :: SnapshotObject where
  "sample_object = \<lparr>so_fields = \<lparr>sn_Simulation = sample_state,
       sn_App = \<lparr>a_Mode = ModeTutorial, a_TutorialStep = 3, a_TutorialPhase = TutorialPhaseNone,
         a_TutorialPortalID = None, a_TutorialPlaneID = None, a_TutorialObserverID = None\<rparr>\<rparr>,
     so_LeylineOverrideUntil = Some 0, so_Portals = Some (3, 1), so_Planes = Some (4, 1), so_Observers = Some (5, 1),
     so_ScheduledAt = None, so_DueAt = Some 0, so_LastTickAt = Some 0, so_TutorialPortalID = Some 1,
     so_TutorialPlaneID = Some 1, so_TutorialObserverID = None\<rparr>"

lemma sample_object_ok: "snapshotOk sample_memory sample_object"
  by (simp add: snapshotOk_def snapshotAddrs_def sliceAddrs_def sliceOk_def elements_def sample_object_def sample_memory_def
      portalsOf_def planesOf_def observersOf_def portalAddrs_def planeAddrs_def observerAddrs_def)

text \<open>The variable that five fields share is overwritten; the clone keeps its value.\<close>

theorem snapshot_detached_witness:
  "case cloneSnapshot sample_object sample_memory of (h', clone) \<Rightarrow>
     snapshotAt (h'[1 := IntCell 2]) clone = snapshotAt sample_memory sample_object"
proof -
  obtain h' c where c: "cloneSnapshot sample_object sample_memory = (h', c)" by fastforce
  have "snapshotAt (h'[1 := IntCell 2]) c = snapshotAt sample_memory sample_object"
    using snapshot_detached [OF sample_object_ok c] by (simp add: sample_memory_def)
  then show ?thesis by (simp add: c)
qed

end
