(* ===== verification/RandomState.thy ===== *)
theory RandomState
  imports Errors "HOL-Library.Word"
begin

text \<open>
  The state of the production generator and its checkpoints (\<open>internal/random/random.go\<close>): the
  PCG of the standard library, two words, with its binary form, which the manager writes down
  before an operation and restores when the operation fails.
\<close>

unbundle bit_operations_syntax

section \<open>Bytes\<close>

text \<open>The last \<open>k\<close> bytes of a number, the most significant first, and the number of some bytes.\<close>

fun bytes_of :: "nat \<Rightarrow> nat \<Rightarrow> 8 word list" where
  "bytes_of 0 n = []"
| "bytes_of (Suc k) n = bytes_of k (n div 256) @ [of_nat n]"

definition nat_of_bytes :: "8 word list \<Rightarrow> nat" where
  "nat_of_bytes bs = foldl (\<lambda>n b. n * 256 + unat b) 0 bs"

definition BEUint64 :: "8 word list \<Rightarrow> 64 word" where
  "BEUint64 bs = of_nat (nat_of_bytes (take 8 bs))"

definition BEAppendUint64 :: "8 word list \<Rightarrow> 64 word \<Rightarrow> 8 word list" where
  "BEAppendUint64 bs w = bs @ bytes_of 8 (unat w)"

definition LEUint64 :: "8 word list \<Rightarrow> 64 word" where
  "LEUint64 bs = of_nat (nat_of_bytes (rev (take 8 bs)))"

section \<open>The generator\<close>

record PCG =
  pcg_hi :: "64 word"
  pcg_lo :: "64 word"

text \<open>\<open>None\<close> is a generator that was not made by the constructor.\<close>

record RealRandomState =
  rr_source :: "PCG option"

text \<open>The four characters \<open>pcg:\<close>.\<close>

definition pcg_magic :: "8 word list" where
  "pcg_magic = [112, 99, 103, 58]"

definition PCG_MarshalBinary :: "PCG \<Rightarrow> 8 word list" where
  "PCG_MarshalBinary p = BEAppendUint64 (BEAppendUint64 pcg_magic (pcg_hi p)) (pcg_lo p)"

definition PCG_UnmarshalBinary :: "8 word list \<Rightarrow> PCG res" where
  "PCG_UnmarshalBinary bs =
     (if length bs \<noteq> 20 \<or> take 4 bs \<noteq> pcg_magic then Fail (Errorf ''invalid PCG encoding'')
      else Ok \<lparr>pcg_hi = BEUint64 (drop 4 bs), pcg_lo = BEUint64 (drop 12 bs)\<rparr>)"

text \<open>
  The bytes the entropy of the system gives, or none when reading it fails; then the time in
  nanoseconds takes their place.
\<close>

definition seed :: "8 word list option \<Rightarrow> 64 word \<Rightarrow> 64 word \<times> 64 word" where
  "seed entropy now =
     (case entropy of
        Some buf \<Rightarrow> (LEUint64 (take 8 buf), LEUint64 (drop 8 buf))
      | None \<Rightarrow> (now, now XOR 0x9E3779B97F4A7C15))"

definition NewRealRandom :: "8 word list option \<Rightarrow> 64 word \<Rightarrow> RealRandomState" where
  "NewRealRandom entropy now = (case seed entropy now of (a, b) \<Rightarrow> \<lparr>rr_source = Some \<lparr>pcg_hi = a, pcg_lo = b\<rparr>\<rparr>)"

definition RealRandom_MarshalBinary :: "RealRandomState \<Rightarrow> 8 word list res" where
  "RealRandom_MarshalBinary r =
     (case rr_source r of
        None \<Rightarrow> Fail (Errorf ''random: uninitialized PCG source'')
      | Some p \<Rightarrow> Ok (PCG_MarshalBinary p))"

definition RealRandom_UnmarshalBinary :: "RealRandomState \<Rightarrow> 8 word list \<Rightarrow> RealRandomState res" where
  "RealRandom_UnmarshalBinary r state =
     (case rr_source r of
        None \<Rightarrow> Fail (Errorf ''random: uninitialized PCG source'')
      | Some _ \<Rightarrow>
          (case PCG_UnmarshalBinary state of
             Fail e \<Rightarrow> Fail (ErrorfWrap ''random: restore PCG state'' e)
           | Panic \<Rightarrow> Panic
           | Ok p \<Rightarrow> Ok (r\<lparr>rr_source := Some p\<rparr>)))"

section \<open>Checkpoints\<close>

lemma bytes_of_length [simp]: "length (bytes_of k n) = k"
  by (induction k arbitrary: n) auto

lemma nat_of_bytes_snoc: "nat_of_bytes (bs @ [b]) = nat_of_bytes bs * 256 + unat b"
  by (simp add: nat_of_bytes_def)

lemma nat_of_bytes_of: "nat_of_bytes (bytes_of k n) = n mod 256 ^ k"
proof (induction k arbitrary: n)
  case 0
  then show ?case by (simp add: nat_of_bytes_def)
next
  case (Suc k)
  have "unat (of_nat n :: 8 word) = n mod 256" by (simp add: unat_of_nat)
  then show ?case using Suc [of "n div 256"] by (simp add: nat_of_bytes_snoc mod_mult2_eq)
qed

lemma nat_of_bytes_bound: "nat_of_bytes bs < 256 ^ length bs"
proof (induction bs rule: rev_induct)
  case Nil
  then show ?case by (simp add: nat_of_bytes_def)
next
  case (snoc b bs)
  have "unat b < 256" using unsigned_less [of b] by simp
  then have "nat_of_bytes bs * 256 + unat b < (nat_of_bytes bs + 1) * 256" by simp
  also have "\<dots> \<le> 256 ^ length bs * 256" using snoc by (intro mult_right_mono) simp_all
  finally show ?case by (simp add: nat_of_bytes_snoc)
qed

lemma bytes_of_nat_of: "bytes_of (length bs) (nat_of_bytes bs) = bs"
proof (induction bs rule: rev_induct)
  case (snoc b bs)
  have "unat b < 256" using unsigned_less [of b] by simp
  moreover have "(of_nat (n * 256 + unat b) :: 8 word) = b" for n
  proof -
    have "(256 :: 8 word) = 0" by simp
    then show ?thesis by (simp only: of_nat_add of_nat_mult of_nat_numeral mult_zero_right add_0 of_nat_unat ucast_id)
  qed
  ultimately show ?case using snoc by (simp add: nat_of_bytes_snoc del: of_nat_add of_nat_mult)
qed simp

lemma BE_word: "BEUint64 (bytes_of 8 (unat w) @ rest) = w"
proof -
  have "unat w < 256 ^ 8" using unsigned_less [of w] by simp
  then show ?thesis by (simp add: BEUint64_def nat_of_bytes_of)
qed

lemma BE_bytes: "length bs = 8 \<Longrightarrow> bytes_of 8 (unat (BEUint64 bs)) = bs"
  using bytes_of_nat_of [of bs] nat_of_bytes_bound [of bs] by (simp add: BEUint64_def unat_of_nat)

text \<open>
  A checkpoint of the generator is exact.  What is written down of an initialized generator
  restores it, in any initialized generator, to the last bit; and the bytes that can be restored
  are exactly those that are written for the state they restore, so no other bytes are accepted.
\<close>

lemma checkpoint_exact:
  assumes "rr_source r \<noteq> None"
  shows "RealRandom_UnmarshalBinary r state = Ok r' \<longleftrightarrow> RealRandom_MarshalBinary r' = Ok state"
proof -
  have eqv: "PCG_UnmarshalBinary state = Ok p \<longleftrightarrow> PCG_MarshalBinary p = state" for p
  proof
    assume p: "PCG_UnmarshalBinary state = Ok p"
    then have l: "length state = 20" "take 4 state = pcg_magic" "p = \<lparr>pcg_hi = BEUint64 (drop 4 state), pcg_lo = BEUint64 (drop 12 state)\<rparr>"
      by (auto simp: PCG_UnmarshalBinary_def split: if_splits)
    have hi: "BEUint64 (drop 4 state) = BEUint64 (take 8 (drop 4 state))" by (simp add: BEUint64_def)
    have "bytes_of 8 (unat (pcg_hi p)) = take 8 (drop 4 state)" "bytes_of 8 (unat (pcg_lo p)) = drop 12 state"
      using l BE_bytes [of "take 8 (drop 4 state)"] BE_bytes [of "drop 12 state"] hi by simp_all
    moreover have "take 4 state @ take 8 (drop 4 state) @ drop 12 state = state"
      using append_take_drop_id [of 8 "drop 4 state"] by simp
    ultimately show "PCG_MarshalBinary p = state" using l(2) by (simp add: PCG_MarshalBinary_def BEAppendUint64_def)
  next
    assume p: "PCG_MarshalBinary p = state"
    then have state: "state = pcg_magic @ bytes_of 8 (unat (pcg_hi p)) @ bytes_of 8 (unat (pcg_lo p))"
      by (simp add: PCG_MarshalBinary_def BEAppendUint64_def)
    have "length pcg_magic = 4" by (simp add: pcg_magic_def)
    then show "PCG_UnmarshalBinary state = Ok p"
      using BE_word [of "pcg_lo p" "[]"] by (simp add: PCG_UnmarshalBinary_def state BE_word)
  qed
  obtain q where r: "r = \<lparr>rr_source = Some q\<rparr>" using assms by (cases r) auto
  show ?thesis
  proof (cases "rr_source r'")
    case None
    then show ?thesis
      by (cases "PCG_UnmarshalBinary state") (auto simp: r RealRandom_UnmarshalBinary_def RealRandom_MarshalBinary_def)
  next
    case (Some p)
    then have "r' = \<lparr>rr_source = Some p\<rparr>" by (cases r') simp
    then show ?thesis using eqv [of p]
      by (cases "PCG_UnmarshalBinary state") (simp_all add: r RealRandom_UnmarshalBinary_def RealRandom_MarshalBinary_def)
  qed
qed

text \<open>So a failed operation that restores its checkpoint repeats the same draws.\<close>

lemma checkpoint_restores:
  assumes "rr_source r \<noteq> None" and "RealRandom_MarshalBinary r = Ok state" and "rr_source drawn \<noteq> None"
  shows "RealRandom_UnmarshalBinary drawn state = Ok r"
  using assms by (simp add: checkpoint_exact)

lemma NewRealRandom_initialized: "rr_source (NewRealRandom entropy now) \<noteq> None"
  by (simp add: NewRealRandom_def split: prod.split)

end
