(* ===== verification/Spec2Isabelle.thy ===== *)
theory Spec2Isabelle
  imports ManagerProperties HttpProperties RegistryProperties HubProperties ServerProperties Migrations Ownership Cloning RandomState TransportProperties Commands Factory EventProofs ObserverStage Actions
begin

text \<open>
  Verification of the Omenpath Research Lab server, a Go program (\<open>src/internal\<close> and
  \<open>src/cmd/server\<close>).

  \<^bold>\<open>The program.\<close>  Every visitor has a laboratory of their own: portals that lose energy and
  collapse, observers sent through them to planes, an energy budget, and a tutorial that ends in
  the live mode.  A request comes through the HTTP interface with a cookie; the session service
  finds or creates the laboratory; the registry leases the one runtime of it; its manager, under
  its lock, resolves the simulation to the present instant, applies the command, commits the
  snapshot and its events to the repository, and only then publishes it in memory and announces
  an update.  The realtime hub captures the announced states and sends them to the connections.
  Workers tick the laboratories and delete the ones that have expired.

  \<^bold>\<open>The theories\<close>, from the bottom; the definitions have the names of the code.

  \<^item> \<open>Prelude\<close>, \<open>GoFloat\<close>, \<open>GoTime\<close>: the outcome of a call (\<open>Ok\<close>, \<open>Fail\<close>, \<open>Panic\<close>), 64-bit
    integers with their wrap-around, sorting, \<open>float64\<close> as exact rationals rounded to binary64,
    \<open>time.Time\<close> and \<open>Duration\<close>.  \<open>Config\<close>, \<open>Errors\<close>, \<open>RandomSource\<close>: the parameters, the error
    values with \<open>errors.Is\<close>, the generators behind the locale \<open>random_source\<close>; \<open>RandomState\<close>:
    the seed and the checkpoints of the production generator.
  \<^item> \<open>Portal\<close>, \<open>Lab\<close>, \<open>Observer\<close>, \<open>Roster\<close>, \<open>Commands\<close>, \<open>Factory\<close>, \<open>ExtractionPortals\<close>, \<open>SimState\<close>,
    \<open>Simulation\<close>, \<open>Events\<close>, \<open>Actions\<close>, \<open>Tutorial\<close>: the domain (\<open>internal/domain\<close>), one theory for
    one or a few files; the locale \<open>energy_ledger\<close> is the contract of a spend.
  \<^item> \<open>Engine\<close>, \<open>Operations\<close>, \<open>Ownership\<close>, \<open>Cloning\<close>: the manager (\<open>internal/engine\<close>), all of its
    operations as one datatype with what each does to it, its lock, and the copies it hands out,
    with the pointers and slices as they are in memory.
  \<^item> \<open>Codec\<close>, \<open>Persistence\<close>, \<open>Sessions\<close>, \<open>Migrations\<close>: the columns, the tables with the constraints of
    the schema and the transactions on them (\<open>internal/persistence\<close>), the sessions
    (\<open>internal/session\<close>), the ledger of the migrations.
  \<^item> \<open>Registry\<close>, \<open>Transport\<close>, \<open>Http\<close>, \<open>Hub\<close>, \<open>Server\<close>: the registry of runtimes
    (\<open>internal/labruntime\<close>), the public views (\<open>internal/transport\<close>), the interface
    (\<open>internal/httpapi\<close>), the connections (\<open>internal/realtime\<close>), the process (\<open>cmd/server\<close>).
  \<^item> Proofs: \<open>TickProofs\<close>, \<open>ObserverStage\<close>, \<open>EventProofs\<close>, \<open>Aggregate\<close>, \<open>EngineProofs\<close>, \<open>TutorialProofs\<close>,
    \<open>TutorialSteps\<close> (what a step of the tutorial may do to the portals and the generator),
    \<open>PersistProofs\<close>, \<open>Store\<close>, \<open>Bootstrapped\<close>; properties: \<open>ManagerProperties\<close>, \<open>StoreProperties\<close>,
    \<open>TutorialProperties\<close>, \<open>TransportProperties\<close>, \<open>SessionProperties\<close>, \<open>HttpProperties\<close>,
    \<open>RegistryProperties\<close>, \<open>HubProperties\<close>, \<open>ServerProperties\<close>.  \<open>Sample\<close> is a concrete laboratory.

  \<^bold>\<open>How the code is modelled.\<close>  Structs are records, enumerations datatypes with a last
  constructor for every other string, a pointer that may be nil an option.  An in/out pointer is
  an argument and a result; a function that may fail after it has changed its argument returns
  both.  Guards stand in the order of the code.  A loop over a map takes the order of the
  iteration as an argument, each loop its own, and properties hold for every order.  The driver
  of the database is an argument with its faults; along a run every operation may meet another.  Concurrent parts
  (\<open>Registry\<close>, \<open>Hub\<close>, \<open>Ownership\<close>) are transition systems whose steps are the sections under a mutex
  and the operations on channels; properties hold for every interleaving.  Loops end by
  structural recursion or with a measure; there is no fuel in the model.  Where a counter of the
  code is a machine word the bound is a hypothesis: fewer than 2 to the 64 captures of a hub, and
  room for the next IDs of a laboratory.

  \<^bold>\<open>What is shown.\<close>
  \<^item> Domain: portals and observers resolve to the same state whatever the ticks; closing a portal
    charges once and loses exactly the observers in transit, or changes nothing; a recommended
    action is available; the log does not depend on the order of maps; a checkpoint of the
    generator restores it to the last bit.
  \<^item> Manager: every operation refines an abstract aggregate (updates in place, openings under the
    next ID in a free slot), and only the reset can restart it; a command publishes exactly what it committed, and what is handed
    out shares no memory with what is kept; the tutorial can always go on, no operation of it spawns
    a natural portal, and it goes live cleanly.
  \<^item> Repository: what is committed is what is loaded; memory and store agree along every run,
    whatever fails; a failed write changes nothing; laboratories are isolated; the log only grows;
    a valid successor can always be committed; every migration is applied once.
    The contract the manager relies on is the locale \<open>repository\<close>, interpreted on \<open>Commit\<close> and
    \<open>ResetTutorial\<close> of the model.
  \<^item> Sessions: a cookie leads to a laboratory only through a live session; a new one resolves until
    it expires; the cleanup deletes what has expired and is not in use, and nothing else.
  \<^item> Interface: bodies are accepted exactly, an error has one answer and leaks nothing, a request is
    one operation of the manager, and no sequence of requests leaves the invariants.
  \<^item> Runtime: a leased laboratory is never deleted; connections see the states in order and catch
    up; the lock excludes and is never lost; registry, hub and process shut down in order, the
    process on every way out and with the errors it has to report.

  \<^bold>\<open>Not modelled.\<close>  The encoding of JSON as bytes, the third-party router, the file server and the
  WebSocket protocol, the SQL engine beyond its constraints and transactions, SHA-256 and the
  sources of entropy and time are parameters or arguments, for they are libraries.  \<open>Open\<close> and the
  pragmas of the database are calls of the driver.  The ID of an event is an integer without
  bound: fewer than \<open>2\<^sup>63\<close> events are assumed.  Outside of \<open>Cloning\<close> the clone functions are the
  identity, for there states are values without pointers.  A panic of a handler or of a worker is
  an outcome that is not followed further.  The
  test support (\<open>src/testutil\<close>) and the web client are not part of the server.
\<close>

end
